(* ===== verification/Prelude.thy ===== *)
theory Prelude
  imports Main "HOL-Library.Char_ord" "HOL-Library.List_Lexorder"
begin

text \<open>
  Shared vocabulary of the development.

  Go values are modelled as follows. A Go \<^verbatim>\<open>string\<close> and a \<^verbatim>\<open>[]byte\<close> are both
  byte sequences and become the type of character lists, one character per byte. A Go function
  that returns \<^verbatim>\<open>(T, error)\<close> becomes a sum: \<open>Inl\<close> carries the error and
  \<open>Inr\<close> the value. A pointer that may be nil becomes an option. A \<^verbatim>\<open>time.Time\<close>
  is its instant, counted from the zero time, so that \<^verbatim>\<open>IsZero\<close> is equality with zero and
  \<^verbatim>\<open>Before\<close> is the strict order. A string-typed Go enumeration becomes a datatype with
  the constants of the source and one further constructor for every other string.
\<close>

named_theorems guard_defs \<open>definitions of the validity guards\<close>
named_theorems op_defs \<open>definitions of the state operations\<close>
named_theorems preserved \<open>operations keep their invariants\<close>

type_synonym ('e, 'a) result = "'e + 'a"
type_synonym bytes = string
type_synonym instant = int

subsection \<open>Results\<close>

definition bind_result :: "('e, 'a) result \<Rightarrow> ('a \<Rightarrow> ('e, 'b) result) \<Rightarrow> ('e, 'b) result" where
  "bind_result r k = (case r of Inl e \<Rightarrow> Inl e | Inr a \<Rightarrow> k a)"

definition is_ok :: "('e, 'a) result \<Rightarrow> bool" where
  "is_ok r = (case r of Inl _ \<Rightarrow> False | Inr _ \<Rightarrow> True)"

lemma bind_result_simps [simp]:
  "bind_result (Inl e) k = Inl e"
  "bind_result (Inr a) k = k a"
  by (simp_all add: bind_result_def)

lemma is_ok_simps [simp]: "\<not> is_ok (Inl e)" "is_ok (Inr a)"
  by (simp_all add: is_ok_def)

lemma bind_result_Inr_iff [simp]:
  "bind_result r k = Inr b \<longleftrightarrow> (\<exists>a. r = Inr a \<and> k a = Inr b)"
  by (cases r) auto

lemma bind_result_Inl_iff:
  "bind_result r k = Inl e \<longleftrightarrow> r = Inl e \<or> (\<exists>a. r = Inr a \<and> k a = Inl e)"
  by (cases r) auto

text \<open>A loop that stops at the first error.\<close>

fun map_result :: "('a \<Rightarrow> ('e, 'b) result) \<Rightarrow> 'a list \<Rightarrow> ('e, 'b list) result" where
  "map_result f [] = Inr []"
| "map_result f (x # xs) =
     bind_result (f x) (\<lambda>y. bind_result (map_result f xs) (\<lambda>ys. Inr (y # ys)))"

lemma map_result_length: "map_result f xs = Inr ys \<Longrightarrow> length ys = length xs"
  by (induction xs arbitrary: ys) auto

lemma map_result_nth:
  "map_result f xs = Inr ys \<Longrightarrow> i < length xs \<Longrightarrow> f (xs ! i) = Inr (ys ! i)"
  by (induction xs arbitrary: ys i) (auto simp: nth_Cons split: nat.splits)

lemma map_result_set:
  "map_result f xs = Inr ys \<Longrightarrow> y \<in> set ys \<Longrightarrow> \<exists>x \<in> set xs. f x = Inr y"
  by (induction xs arbitrary: ys) auto

subsection \<open>Time\<close>

definition is_zero_time :: "instant \<Rightarrow> bool" where
  "is_zero_time t = (t = 0)"

definition before :: "instant \<Rightarrow> instant \<Rightarrow> bool" where
  "before a b = (a < b)"

lemmas time_defs = is_zero_time_def before_def

declare time_defs [guard_defs]

subsection \<open>Options\<close>

definition opt_all :: "('a \<Rightarrow> bool) \<Rightarrow> 'a option \<Rightarrow> bool" where
  "opt_all p x = (case x of None \<Rightarrow> True | Some a \<Rightarrow> p a)"

lemma opt_all_simps [simp]: "opt_all p None" "opt_all p (Some a) = p a"
  by (simp_all add: opt_all_def)

lemma opt_all_iff: "opt_all p x \<longleftrightarrow> (\<forall>a. x = Some a \<longrightarrow> p a)"
  by (cases x) auto

subsection \<open>Lists\<close>

lemma take_drop_split: "n \<le> length xs \<Longrightarrow> take n xs @ drop n xs = xs"
  by simp

lemma drop_append_left: "n \<le> length xs \<Longrightarrow> drop n (xs @ ys) = drop n xs @ ys"
  by simp

lemma sorted_wrt_less_nth:
  "sorted_wrt (<) xs \<Longrightarrow> i < j \<Longrightarrow> j < length xs \<Longrightarrow> xs ! i < (xs ! j :: 'a :: order)"
  by (simp add: sorted_wrt_nth_less)

lemma filter_singleton_length: "length (filter P xs) = 1 \<Longrightarrow> \<exists>x \<in> set xs. P x"
proof -
  assume "length (filter P xs) = 1"
  then obtain x where "filter P xs = [x]"
    by (auto simp: length_Suc_conv)
  then have "x \<in> set (filter P xs)" by simp
  then show ?thesis by auto
qed

end
