(* ===== verification/Go_Strings.thy ===== *)
theory Go_Strings
  imports Prelude
begin

text \<open>
  The parts of Go's \<^verbatim>\<open>unicode/utf8\<close>, \<^verbatim>\<open>unicode\<close>, \<^verbatim>\<open>strings\<close>, \<^verbatim>\<open>bytes\<close>,
  \<^verbatim>\<open>strconv\<close>, \<^verbatim>\<open>bufio\<close> and \<^verbatim>\<open>encoding/hex\<close> packages that the modelled code calls, on byte
  sequences. Runes are natural numbers. The lemmas say how decoding behaves when bytes are
  appended, which is what the streaming observers of the repository package rely on.
\<close>

subsection \<open>Bytes\<close>

definition byte :: "char \<Rightarrow> nat" where
  "byte c = of_char c"

definition mk_byte :: "nat \<Rightarrow> char" where
  "mk_byte n = char_of n"

lemma byte_bound [simp]: "byte c < 256"
  by (simp add: byte_def)

lemma byte_mk_byte [simp]: "byte (mk_byte n) = n mod 256"
  by (simp add: byte_def mk_byte_def)

lemma mk_byte_byte [simp]: "mk_byte (byte c) = c"
  by (simp add: byte_def mk_byte_def)

lemma byte_eq_iff [simp]: "byte c = byte d \<longleftrightarrow> c = d"
  by (simp add: byte_def)

definition LF :: char where "LF = mk_byte 10"
definition CR :: char where "CR = mk_byte 13"
definition NUL :: char where "NUL = mk_byte 0"
definition TAB :: char where "TAB = mk_byte 9"

lemma ctl_bytes [simp]: "byte LF = 10" "byte CR = 13" "byte NUL = 0" "byte TAB = 9"
  by (simp_all add: LF_def CR_def NUL_def TAB_def)

lemma byte_lit [simp]:
  "byte (Char b0 b1 b2 b3 b4 b5 b6 b7) = horner_sum of_bool 2 [b0, b1, b2, b3, b4, b5, b6, b7]"
  by (simp add: byte_def)

text \<open>Comparisons with the control bytes, by value.\<close>

lemma ctl_iff:
  "c = NUL \<longleftrightarrow> byte c = 0" "NUL = c \<longleftrightarrow> byte c = 0"
  "c = LF \<longleftrightarrow> byte c = 10" "LF = c \<longleftrightarrow> byte c = 10"
  "c = CR \<longleftrightarrow> byte c = 13" "CR = c \<longleftrightarrow> byte c = 13"
  "c = TAB \<longleftrightarrow> byte c = 9" "TAB = c \<longleftrightarrow> byte c = 9"
  using byte_eq_iff [of c NUL] byte_eq_iff [of c LF] byte_eq_iff [of c CR] byte_eq_iff [of c TAB]
  by (auto simp del: byte_eq_iff)

lemma byte_neq: "byte c \<noteq> 0 \<Longrightarrow> c \<noteq> NUL"
  by auto

lemma ctl_distinct [simp]:
  "LF \<noteq> CR" "CR \<noteq> LF" "NUL \<noteq> LF" "NUL \<noteq> CR" "LF \<noteq> NUL" "CR \<noteq> NUL" "TAB \<noteq> LF" "LF \<noteq> TAB"
  by (simp_all flip: byte_eq_iff)

subsection \<open>UTF-8 decoding\<close>

definition rune_error :: nat where "rune_error = 65533"

definition lead_size :: "nat \<Rightarrow> nat" where
  "lead_size b =
     (if b < 0xC2 then 1 else if b < 0xE0 then 2 else if b < 0xF0 then 3
      else if b < 0xF5 then 4 else 1)"

definition lead_lo :: "nat \<Rightarrow> nat" where
  "lead_lo b = (if b = 0xE0 then 0xA0 else if b = 0xF0 then 0x90 else 0x80)"

definition lead_hi :: "nat \<Rightarrow> nat" where
  "lead_hi b = (if b = 0xED then 0x9F else if b = 0xF4 then 0x8F else 0xBF)"

definition is_cont :: "nat \<Rightarrow> bool" where
  "is_cont b \<longleftrightarrow> 0x80 \<le> b \<and> b \<le> 0xBF"

definition bad_second :: "nat \<Rightarrow> nat \<Rightarrow> bool" where
  "bad_second b0 b1 \<longleftrightarrow> b1 < lead_lo b0 \<or> lead_hi b0 < b1"

fun decode_rune :: "bytes \<Rightarrow> nat \<times> nat" where
  "decode_rune [] = (rune_error, 0)"
| "decode_rune (c # cs) =
     (let b0 = byte c; n = lead_size b0 in
      if b0 < 128 then (b0, 1)
      else if n = 1 \<or> length (c # cs) < n then (rune_error, 1)
      else
        (let b1 = byte (cs ! 0) in
         if bad_second b0 b1 then (rune_error, 1)
         else if n = 2 then ((b0 - 0xC0) * 64 + (b1 - 0x80), 2)
         else
           (let b2 = byte (cs ! 1) in
            if \<not> is_cont b2 then (rune_error, 1)
            else if n = 3 then ((b0 - 0xE0) * 4096 + (b1 - 0x80) * 64 + (b2 - 0x80), 3)
            else
              (let b3 = byte (cs ! 2) in
               if \<not> is_cont b3 then (rune_error, 1)
               else ((b0 - 0xF0) * 262144 + (b1 - 0x80) * 4096 + (b2 - 0x80) * 64 + (b3 - 0x80), 4)))))"

fun full_rune :: "bytes \<Rightarrow> bool" where
  "full_rune [] = False"
| "full_rune (c # cs) =
     (let b0 = byte c; n = lead_size b0 in
      n \<le> length (c # cs)
      \<or> 1 \<le> length cs \<and> bad_second b0 (byte (cs ! 0))
      \<or> 2 \<le> length cs \<and> \<not> is_cont (byte (cs ! 1)))"

definition rune_size :: "bytes \<Rightarrow> nat" where
  "rune_size p = snd (decode_rune p)"

lemma lead_size_range: "1 \<le> lead_size b \<and> lead_size b \<le> 4"
  by (simp add: lead_size_def)

lemma lead_size_ascii: "b < 128 \<Longrightarrow> lead_size b = 1"
  by (simp add: lead_size_def)

lemma lead_size_multi: "\<not> lead_size b \<le> Suc n \<Longrightarrow> 128 \<le> b"
  by (simp add: lead_size_def split: if_splits)

lemma rune_size_pos: "p \<noteq> [] \<Longrightarrow> 0 < rune_size p"
  by (cases p) (auto simp: rune_size_def Let_def)

lemma rune_size_le_length: "rune_size p \<le> length p"
  by (cases p) (auto simp: rune_size_def Let_def lead_size_def Suc_le_eq split: if_splits)

lemma rune_size_le_4: "rune_size p \<le> 4"
  by (cases p) (auto simp: rune_size_def Let_def)

lemma not_full_size: "p \<noteq> [] \<Longrightarrow> \<not> full_rune p \<Longrightarrow> rune_size p = 1 \<and> 128 \<le> byte (hd p)"
  by (cases p) (auto simp: rune_size_def Let_def dest: lead_size_multi)

lemma full_rune_append: "full_rune p \<Longrightarrow> full_rune (p @ q)"
  by (cases p) (auto simp: Let_def nth_append)

lemma decode_rune_error:
  assumes "128 \<le> byte c" and "\<not> lead_size (byte c) \<le> Suc (length cs)"
  shows "decode_rune (c # cs) = (rune_error, 1)"
  using assms by (simp add: Let_def)

lemma decode_rune_append:
  assumes "full_rune p"
  shows "decode_rune (p @ q) = decode_rune p"
proof (cases p)
  case Nil
  with assms show ?thesis by simp
next
  case (Cons c cs)
  let ?n = "lead_size (byte c)"
  show ?thesis
  proof (cases "?n \<le> Suc (length cs)")
    case True
    then have idx: "Suc i < ?n \<Longrightarrow> (cs @ q) ! i = cs ! i" for i
      by (simp add: nth_append)
    have len: "\<not> Suc (length cs) < ?n" "\<not> Suc (length cs + length q) < ?n"
      using True by simp_all
    consider "?n = 1" | "?n = 2" | "?n = 3" | "?n = 4"
      using lead_size_range [of "byte c"] by linarith
    then show ?thesis
      by cases (use idx len in \<open>simp_all add: Cons Let_def\<close>)
  next
    case False
    have big: "128 \<le> byte c" using False by (rule lead_size_multi)
    have "bad_second (byte c) (byte (cs ! 0)) \<and> 1 \<le> length cs
        \<or> \<not> is_cont (byte (cs ! 1)) \<and> 2 \<le> length cs"
      using assms Cons False by (auto simp: Let_def)
    moreover have "2 \<le> length cs \<Longrightarrow> ?n = 4"
      using False lead_size_range [of "byte c"] by linarith
    ultimately have "decode_rune (c # cs @ q) = (rune_error, 1)"
      using big by (auto simp: Let_def nth_append)
    then show ?thesis
      using Cons decode_rune_error [OF big False] by simp
  qed
qed

lemma rune_size_append: "full_rune p \<Longrightarrow> rune_size (p @ q) = rune_size p"
  by (simp add: rune_size_def decode_rune_append)

text \<open>
  \<open>utf8_valid\<close> is \<^verbatim>\<open>utf8.Valid\<close> and \<^verbatim>\<open>utf8.ValidString\<close>; \<open>runes\<close> is the sequence of runes a
  \<^verbatim>\<open>range\<close> loop over a string visits, each with the bytes it was decoded from.
\<close>

function utf8_valid :: "bytes \<Rightarrow> bool" where
  "utf8_valid [] = True"
| "utf8_valid (c # cs) =
     (if rune_size (c # cs) = 1 \<and> 128 \<le> byte c then False
      else utf8_valid (drop (rune_size (c # cs)) (c # cs)))"
  by pat_completeness auto
termination
  by (relation "measure length") (auto dest: rune_size_pos simp: rune_size_pos)

function rune_chunks :: "bytes \<Rightarrow> (nat \<times> bytes) list" where
  "rune_chunks [] = []"
| "rune_chunks (c # cs) =
     (fst (decode_rune (c # cs)), take (rune_size (c # cs)) (c # cs))
     # rune_chunks (drop (rune_size (c # cs)) (c # cs))"
  by pat_completeness auto
termination
  by (relation "measure length") (auto simp: rune_size_pos)

declare utf8_valid.simps(2) [simp del] rune_chunks.simps(2) [simp del]

definition runes :: "bytes \<Rightarrow> nat list" where
  "runes s = map fst (rune_chunks s)"

lemma rune_chunks_concat: "concat (map snd (rune_chunks s)) = s"
  by (induction s rule: rune_chunks.induct) (simp_all add: rune_chunks.simps(2))

subsection \<open>Streaming UTF-8 validation\<close>

text \<open>
  The loop shared by the streaming observers: it consumes whole runes, stops at the first invalid
  one, and keeps an incomplete suffix for the next write. The result is \<open>None\<close> once a byte
  is invalid and the pending suffix otherwise.
\<close>

function scan_utf8 :: "bytes \<Rightarrow> bytes option" where
  "scan_utf8 [] = Some []"
| "scan_utf8 (c # cs) =
     (if rune_size (c # cs) = 1 \<and> \<not> full_rune (c # cs) then Some (c # cs)
      else if rune_size (c # cs) = 1 \<and> 128 \<le> byte c then None
      else scan_utf8 (drop (rune_size (c # cs)) (c # cs)))"
  by pat_completeness auto
termination
  by (relation "measure length") (auto simp: rune_size_pos)

declare scan_utf8.simps(2) [simp del]

lemma scan_utf8_append:
  "scan_utf8 (p @ q) = (case scan_utf8 p of None \<Rightarrow> None | Some r \<Rightarrow> scan_utf8 (r @ q))"
proof (induction p rule: scan_utf8.induct)
  case 1
  then show ?case by simp
next
  case (2 c cs)
  let ?p = "c # cs"
  show ?case
  proof (cases "full_rune ?p")
    case False
    then have "scan_utf8 ?p = Some ?p"
      using not_full_size [of ?p] by (simp add: scan_utf8.simps(2))
    then show ?thesis by simp
  next
    case True
    note full = True
    have size: "rune_size (c # (cs @ q)) = rune_size ?p"
      using rune_size_append [OF full, of q] by simp
    have full': "full_rune (c # (cs @ q))"
      using full_rune_append [OF full, of q] by simp
    show ?thesis
    proof (cases "rune_size ?p = 1 \<and> 128 \<le> byte c")
      case True
      with full full' size show ?thesis by (simp add: scan_utf8.simps(2))
    next
      case False
      have drop_eq: "drop (rune_size ?p) (c # (cs @ q)) = drop (rune_size ?p) ?p @ q"
        using rune_size_le_length [of ?p] by (metis append_Cons drop_append_left)
      have "scan_utf8 (?p @ q) = scan_utf8 (drop (rune_size ?p) ?p @ q)"
        using full' size False drop_eq by (auto simp: scan_utf8.simps(2) [of c "cs @ q"])
      moreover have "scan_utf8 ?p = scan_utf8 (drop (rune_size ?p) ?p)"
        using full False by (auto simp: scan_utf8.simps(2))
      ultimately show ?thesis
        using "2.IH" full False by auto
    qed
  qed
qed

lemma utf8_valid_scan: "utf8_valid p \<longleftrightarrow> scan_utf8 p = Some []"
proof (induction p rule: utf8_valid.induct)
  case (2 c cs)
  show ?case
  proof (cases "full_rune (c # cs)")
    case True
    with 2 show ?thesis by (auto simp: scan_utf8.simps(2) utf8_valid.simps(2))
  next
    case False
    with not_full_size [of "c # cs"] show ?thesis
      by (simp add: scan_utf8.simps(2) utf8_valid.simps(2))
  qed
qed simp

text \<open>A pending suffix is shorter than a rune and scans to itself.\<close>

lemma scan_utf8_pending: "scan_utf8 p = Some r \<Longrightarrow> scan_utf8 r = Some r \<and> length r \<le> 3"
proof (induction p arbitrary: r rule: scan_utf8.induct)
  case (2 c cs)
  show ?case
  proof (cases "full_rune (c # cs)")
    case True
    with 2 show ?thesis by (auto simp: scan_utf8.simps(2) [of c cs] split: if_splits)
  next
    case False
    have "length (c # cs) < lead_size (byte c)"
      using False by (auto simp: Let_def)
    then have "length (c # cs) \<le> 3"
      using lead_size_range [of "byte c"] by linarith
    moreover have "scan_utf8 (c # cs) = Some (c # cs)"
      using False not_full_size [of "c # cs"] by (simp add: scan_utf8.simps(2))
    ultimately show ?thesis using "2.prems" by auto
  qed
qed simp

subsection \<open>Splitting at an ASCII byte\<close>

lemma scan_utf8_ascii: "byte x < 128 \<Longrightarrow> scan_utf8 (x # ds) = scan_utf8 ds"
  by (simp add: scan_utf8.simps(2) rune_size_def lead_size_def)

lemma scan_utf8_suffix: "scan_utf8 p = Some r \<Longrightarrow> length r \<le> length p"
proof (induction p rule: scan_utf8.induct)
  case (2 c cs)
  then show ?case
    by (auto simp: scan_utf8.simps(2) [of c cs] split: if_splits)
qed simp

lemma incomplete_then_ascii:
  assumes "r \<noteq> []" "\<not> full_rune r" "byte x < 128"
  shows "full_rune (r @ x # b) \<and> rune_size (r @ x # b) = 1"
proof -
  obtain c cs where r: "r = c # cs" using assms(1) by (cases r) auto
  have big: "128 \<le> byte c" using not_full_size [OF assms(1,2)] r by simp
  have lo: "128 \<le> lead_lo (byte c)" by (simp add: lead_lo_def)
  have n: "length cs < 3" "lead_size (byte c) > Suc (length cs)"
    using assms(2) r lead_size_range [of "byte c"] by (auto simp: Let_def not_le)
  have bad: "bad_second (byte c) (byte x)" "\<not> is_cont (byte x)"
    using assms(3) lo by (simp_all add: bad_second_def is_cont_def)
  consider "cs = []" | y where "cs = [y]" | y z where "cs = [y, z]"
    using n(1) by (cases cs; cases "tl cs"; cases "tl (tl cs)") auto
  then show ?thesis
    using assms(2) n(2) bad big lead_size_range [of "byte c"]
    by cases (auto simp: r rune_size_def Let_def not_le)
qed

lemma scan_utf8_pending_ascii:
  assumes "scan_utf8 r = Some r" "r \<noteq> []" "byte x < 128"
  shows "scan_utf8 (r @ x # b) = None"
proof -
  obtain c cs where r: "r = c # cs" using assms(2) by (cases r) auto
  have "\<not> full_rune r"
  proof
    assume "full_rune r"
    then have "scan_utf8 (drop (rune_size r) r) = Some r"
      using assms(1) r by (auto simp: scan_utf8.simps(2) split: if_splits)
    then have "length r \<le> length (drop (rune_size r) r)"
      by (rule scan_utf8_suffix)
    then show False
      using rune_size_pos [OF assms(2)] rune_size_le_length [of r] by simp
  qed
  then show ?thesis
    using incomplete_then_ascii [OF assms(2) _ assms(3), of b] not_full_size [OF assms(2)] r
    by (simp add: scan_utf8.simps(2))
qed

lemma utf8_valid_split:
  assumes "byte x < 128"
  shows "utf8_valid (c @ x # ds) \<longleftrightarrow> utf8_valid c \<and> utf8_valid ds"
  using scan_utf8_append [of c "x # ds"] scan_utf8_pending [of c] assms
    scan_utf8_pending_ascii [OF _ _ assms]
  by (cases "scan_utf8 c"; cases "the (scan_utf8 c) = []")
    (auto simp: utf8_valid_scan scan_utf8_ascii)

end
