(* ===== verification/Go_Text.thy ===== *)
theory Go_Text
  imports Go_Strings
begin

text \<open>
  Character classes, trimming, splitting, number formatting and parsing, and hexadecimal coding:
  what the code calls from \<^verbatim>\<open>unicode\<close>, \<^verbatim>\<open>strings\<close>, \<^verbatim>\<open>bytes\<close>, \<^verbatim>\<open>strconv\<close> and
  \<^verbatim>\<open>encoding/hex\<close>.
\<close>

subsection \<open>Character classes\<close>

definition is_control :: "nat \<Rightarrow> bool" where
  "is_control r \<longleftrightarrow> r < 32 \<or> (127 \<le> r \<and> r < 160)"

definition is_space :: "nat \<Rightarrow> bool" where
  "is_space r \<longleftrightarrow>
     (9 \<le> r \<and> r \<le> 13) \<or> r = 32 \<or> r = 0x85 \<or> r = 0xA0 \<or> r = 0x1680
     \<or> (0x2000 \<le> r \<and> r \<le> 0x200A) \<or> r = 0x2028 \<or> r = 0x2029 \<or> r = 0x202F
     \<or> r = 0x205F \<or> r = 0x3000"

definition valid_text :: "bytes \<Rightarrow> bool" where
  "valid_text s \<longleftrightarrow> utf8_valid s \<and> (\<forall>r \<in> set (runes s). \<not> is_control r)"

lemma valid_text_code [code]: "valid_text s = (utf8_valid s \<and> list_all (\<lambda>r. \<not> is_control r) (runes s))"
  by (simp add: valid_text_def list_all_iff)

lemma rune_chunks_Nil [simp]: "runes [] = []"
  by (simp add: runes_def)

lemma valid_text_Nil [simp]: "valid_text []"
  by (simp add: valid_text_def)

text \<open>Plain ASCII text decodes byte by byte.\<close>

definition printable_ascii :: "bytes \<Rightarrow> bool" where
  "printable_ascii s = list_all (\<lambda>c. 32 \<le> byte c \<and> byte c < 127) s"

lemma ascii_rune_size: "byte c < 128 \<Longrightarrow> rune_size (c # cs) = 1"
  by (simp add: rune_size_def)

lemma ascii_runes: "list_all (\<lambda>c. byte c < 128) s \<Longrightarrow> utf8_valid s \<and> runes s = map byte s"
proof (induction s)
  case (Cons c cs)
  then have "byte c < 128" by simp
  with Cons show ?case
    by (simp add: utf8_valid.simps(2) runes_def rune_chunks.simps(2) ascii_rune_size)
qed (simp add: runes_def)

lemma printable_ascii_valid: "printable_ascii s \<Longrightarrow> valid_text s"
proof -
  assume *: "printable_ascii s"
  then have "list_all (\<lambda>c. byte c < 128) s"
    by (auto simp: printable_ascii_def list_all_iff)
  from ascii_runes [OF this] * show ?thesis
    by (auto simp: valid_text_def printable_ascii_def list_all_iff is_control_def)
qed

subsection \<open>Prefixes, searching and splitting\<close>

definition has_prefix :: "bytes \<Rightarrow> bytes \<Rightarrow> bool" where
  "has_prefix p s \<longleftrightarrow> take (length p) s = p"

lemma has_prefix_append [simp]: "has_prefix p (p @ s)"
  by (simp add: has_prefix_def)

lemma has_prefix_length: "has_prefix p s \<Longrightarrow> length p \<le> length s"
  by (metis has_prefix_def length_take min.cobounded1)

fun index_of :: "bytes \<Rightarrow> bytes \<Rightarrow> nat option" where
  "index_of sep [] = (if sep = [] then Some 0 else None)"
| "index_of sep (c # cs) =
     (if has_prefix sep (c # cs) then Some 0 else map_option Suc (index_of sep cs))"

fun last_index_of :: "bytes \<Rightarrow> bytes \<Rightarrow> nat option" where
  "last_index_of sep [] = (if sep = [] then Some 0 else None)"
| "last_index_of sep (c # cs) =
     (case last_index_of sep cs of
        Some i \<Rightarrow> Some (Suc i)
      | None \<Rightarrow> if has_prefix sep (c # cs) then Some 0 else None)"

lemma index_of_bound: "index_of sep s = Some i \<Longrightarrow> i + length sep \<le> length s"
  by (induction s arbitrary: i) (auto split: if_splits dest: has_prefix_length)

lemma index_of_shrink:
  assumes "sep \<noteq> []" and "index_of sep s = Some i"
  shows "length s - (i + length sep) < length s"
proof -
  have "0 < length sep" using assms(1) by simp
  with index_of_bound [OF assms(2)] show ?thesis by linarith
qed

fun split_on :: "char \<Rightarrow> bytes \<Rightarrow> bytes list" where
  "split_on d [] = [[]]"
| "split_on d (c # cs) =
     (if c = d then [] # split_on d cs
      else (case split_on d cs of [] \<Rightarrow> [[c]] | y # ys \<Rightarrow> (c # y) # ys))"

function split_sub :: "bytes \<Rightarrow> bytes \<Rightarrow> bytes list" where
  "split_sub sep s =
     (if sep = [] then [s]
      else case index_of sep s of
        None \<Rightarrow> [s]
      | Some i \<Rightarrow> take i s # split_sub sep (drop (i + length sep) s))"
  by pat_completeness auto
termination
  by (relation "measure (\<lambda>(sep, s). length s)") (auto simp: index_of_shrink)

declare split_sub.simps [simp del]

fun join_with :: "bytes \<Rightarrow> bytes list \<Rightarrow> bytes" where
  "join_with sep [] = []"
| "join_with sep [x] = x"
| "join_with sep (x # y # zs) = x @ sep @ join_with sep (y # zs)"

lemma split_on_not_Nil [simp]: "split_on d s \<noteq> []"
  by (induction s) (auto split: list.splits)

lemma join_split_on: "join_with [d] (split_on d s) = s"
proof (induction s)
  case (Cons c cs)
  obtain y ys where "split_on d cs = y # ys"
    by (meson split_on_not_Nil neq_Nil_conv)
  with Cons show ?case by (cases ys) auto
qed simp

lemma split_on_free: "d \<notin> set s \<Longrightarrow> split_on d s = [s]"
  by (induction s) auto

lemma split_on_parts_free: "x \<in> set (split_on d s) \<Longrightarrow> d \<notin> set x"
  by (induction s arbitrary: x) (auto split: if_splits list.splits)

lemma split_on_join: "split_on d (p @ d # s) = split_on d p @ split_on d s"
  by (induction p) (auto split: list.splits)

lemma split_on_append:
  "d \<notin> set x \<Longrightarrow> split_on d (x @ d # s) = x # split_on d s"
  by (induction x) auto

subsection \<open>Trimming\<close>

definition trim_left_space :: "bytes \<Rightarrow> bytes" where
  "trim_left_space s = concat (map snd (dropWhile (is_space \<circ> fst) (rune_chunks s)))"

text \<open>\<^verbatim>\<open>utf8.DecodeLastRuneInString\<close>: the last rune start among the final four bytes decides.\<close>

definition rune_start :: "char \<Rightarrow> bool" where
  "rune_start c \<longleftrightarrow> \<not> is_cont (byte c)"

definition last_rune_at :: "nat \<Rightarrow> bytes \<Rightarrow> nat \<times> nat" where
  "last_rune_at n s =
     (let (r, k) = decode_rune (drop (length s - n) s)
      in if k = n then (r, k) else (rune_error, 1))"

definition decode_last_rune :: "bytes \<Rightarrow> nat \<times> nat" where
  "decode_last_rune s =
     (if s = [] then (rune_error, 0)
      else if byte (last s) < 128 then (byte (last s), 1)
      else if 2 \<le> length s \<and> rune_start (s ! (length s - 2)) then last_rune_at 2 s
      else if 3 \<le> length s \<and> rune_start (s ! (length s - 3)) then last_rune_at 3 s
      else if 4 \<le> length s \<and> rune_start (s ! (length s - 4)) then last_rune_at 4 s
      else (rune_error, 1))"

lemma decode_last_rune_size: "s \<noteq> [] \<Longrightarrow> 0 < snd (decode_last_rune s)"
  by (auto simp: decode_last_rune_def last_rune_at_def Let_def split: prod.splits)

function trim_right_space :: "bytes \<Rightarrow> bytes" where
  "trim_right_space s =
     (if s = [] then []
      else if is_space (fst (decode_last_rune s))
      then trim_right_space (take (length s - snd (decode_last_rune s)) s)
      else s)"
  by pat_completeness auto
termination
  by (relation "measure length") (auto simp: decode_last_rune_size)

declare trim_right_space.simps [simp del]

definition trim_space :: "bytes \<Rightarrow> bytes" where
  "trim_space s = trim_right_space (trim_left_space s)"

lemma trim_right_space_prefix: "\<exists>t. s = trim_right_space s @ t"
proof (induction s rule: trim_right_space.induct)
  case (1 s)
  show ?case
  proof (cases "s \<noteq> [] \<and> is_space (fst (decode_last_rune s))")
    case True
    let ?n = "length s - snd (decode_last_rune s)"
    obtain t where "take ?n s = trim_right_space (take ?n s) @ t" using 1 True by auto
    then have "s = trim_right_space (take ?n s) @ t @ drop ?n s"
      by (metis append.assoc append_take_drop_id)
    with True show ?thesis by (auto simp: trim_right_space.simps [of s])
  next
    case False
    then show ?thesis by (auto simp: trim_right_space.simps [of s])
  qed
qed

lemma trim_right_space_idem [simp]: "trim_right_space (trim_right_space s) = trim_right_space s"
proof (induction s rule: trim_right_space.induct)
  case (1 s)
  show ?case
  proof (cases "s \<noteq> [] \<and> is_space (fst (decode_last_rune s))")
    case True
    with 1 show ?thesis by (simp add: trim_right_space.simps [of s])
  next
    case False
    then show ?thesis
      by (auto simp: trim_right_space.simps [of s] trim_right_space.simps [of "[]"])
  qed
qed

text \<open>\<^verbatim>\<open>strings.Fields\<close>: the maximal runs of non-space runes.\<close>

fun field_runs :: "(nat \<times> bytes) list \<Rightarrow> bytes \<Rightarrow> bytes list" where
  "field_runs [] acc = (if acc = [] then [] else [acc])"
| "field_runs ((r, b) # cs) acc =
     (if is_space r then (if acc = [] then field_runs cs [] else acc # field_runs cs [])
      else field_runs cs (acc @ b))"

definition split_fields :: "bytes \<Rightarrow> bytes list" where
  "split_fields s = field_runs (rune_chunks s) []"

subsection \<open>Numbers\<close>

definition digit_char :: "nat \<Rightarrow> char" where
  "digit_char d = mk_byte (48 + d)"

definition digit_value :: "char \<Rightarrow> nat option" where
  "digit_value c = (if 48 \<le> byte c \<and> byte c \<le> 57 then Some (byte c - 48) else None)"

function digits :: "nat \<Rightarrow> nat \<Rightarrow> bytes" where
  "digits b n = (if b < 2 \<or> n < b then [digit_char n]
     else digits b (n div b) @ [digit_char (n mod b)])"
  by pat_completeness auto
termination
  by (relation "measure snd") auto

declare digits.simps [simp del]

definition itoa :: "int \<Rightarrow> bytes" where
  "itoa i = (if i < 0 then mk_byte 45 # digits 10 (nat (- i)) else digits 10 (nat i))"

definition format_uint :: "nat \<Rightarrow> bytes" where
  "format_uint n = digits 10 n"

fun digits_value :: "nat \<Rightarrow> nat \<Rightarrow> bytes \<Rightarrow> nat option" where
  "digits_value b acc [] = Some acc"
| "digits_value b acc (c # cs) =
     (case digit_value c of
        None \<Rightarrow> None
      | Some d \<Rightarrow> if d < b then digits_value b (acc * b + d) cs else None)"

definition parse_uint :: "nat \<Rightarrow> nat \<Rightarrow> bytes \<Rightarrow> nat option" where
  "parse_uint base bits s =
     (if s = [] then None
      else case digits_value base 0 s of
        None \<Rightarrow> None
      | Some v \<Rightarrow> if v < 2 ^ bits then Some v else None)"

definition parse_int :: "nat \<Rightarrow> nat \<Rightarrow> bytes \<Rightarrow> int option" where
  "parse_int base bits s =
     (case s of
        [] \<Rightarrow> None
      | c # cs \<Rightarrow>
          (let neg = (byte c = 45); body = (if byte c = 45 \<or> byte c = 43 then cs else s) in
           if body = [] then None
           else case digits_value base 0 body of
             None \<Rightarrow> None
           | Some v \<Rightarrow>
               if \<not> neg \<and> 2 ^ (bits - 1) \<le> v then None
               else if neg \<and> 2 ^ (bits - 1) < v then None
               else Some (if neg then - int v else int v)))"

lemma digit_value_char: "d < 10 \<Longrightarrow> digit_value (digit_char d) = Some d"
  by (simp add: digit_value_def digit_char_def)

lemma digit_char_byte: "d < 10 \<Longrightarrow> byte (digit_char d) = 48 + d"
  by (simp add: digit_char_def)

lemma digits_value_append:
  "digits_value b acc (s @ t) =
     (case digits_value b acc s of None \<Rightarrow> None | Some v \<Rightarrow> digits_value b v t)"
  by (induction s arbitrary: acc) (auto split: option.splits)

lemma digits_value_digits:
  assumes "2 \<le> b" and "b \<le> 10"
  shows "digits_value b 0 (digits b n) = Some n"
proof (induction n rule: less_induct)
  case (less n)
  show ?case
  proof (cases "n < b")
    case True
    with assms show ?thesis by (simp add: digits.simps [of b n] digit_value_char)
  next
    case False
    then have "n div b < n" using assms by simp
    then have "digits_value b 0 (digits b (n div b)) = Some (n div b)" by (rule less)
    moreover have "n mod b < b" using assms by simp
    moreover from this have "digit_value (digit_char (n mod b)) = Some (n mod b)"
      using assms by (intro digit_value_char) linarith
    ultimately show ?thesis
      using False assms by (simp add: digits.simps [of b n] digits_value_append)
  qed
qed

lemma digits_not_Nil [simp]: "digits b n \<noteq> []"
  by (simp add: digits.simps [of b n])

lemma digits_digit:
  assumes "2 \<le> b" and "b \<le> 10" and "c \<in> set (digits b n)"
  shows "48 \<le> byte c \<and> byte c \<le> 57"
  using assms(3)
proof (induction n rule: less_induct)
  case (less n)
  show ?case
  proof (cases "n < b")
    case True
    with less.prems assms show ?thesis by (simp add: digits.simps [of b n] digit_char_def)
  next
    case False
    have "n mod b < 10" using assms mod_less_divisor [of b n] by linarith
    then show ?thesis
      using less.IH [of "n div b"] less.prems False assms
      by (auto simp: digits.simps [of b n] digit_char_def)
  qed
qed

lemma parse_uint_digits:
  "2 \<le> b \<Longrightarrow> b \<le> 10 \<Longrightarrow> n < 2 ^ bits \<Longrightarrow> parse_uint b bits (digits b n) = Some n"
  by (simp add: parse_uint_def digits_value_digits)

lemma parse_int_digits:
  assumes "n < 2 ^ (bits - 1)"
  shows "parse_int 10 bits (digits 10 n) = Some (int n)"
proof -
  obtain c cs where s: "digits 10 n = c # cs"
    using digits_not_Nil by (meson neq_Nil_conv)
  have "c \<in> set (digits 10 n)" by (simp add: s)
  then have "byte c \<noteq> 45" "byte c \<noteq> 43"
    using digits_digit [of 10 c n] by auto
  moreover have "digits_value 10 0 (c # cs) = Some n"
    using digits_value_digits [of 10 n] s by simp
  ultimately show ?thesis
    using assms by (simp add: parse_int_def s Let_def del: digits_value.simps)
qed

lemma parse_uint_bound: "parse_uint b bits s = Some v \<Longrightarrow> v < 2 ^ bits"
  by (auto simp: parse_uint_def split: if_splits option.splits)

lemma parse_int_range:
  "parse_int b bits s = Some v \<Longrightarrow> - (2 ^ (bits - 1)) \<le> v \<and> v < 2 ^ (bits - 1)"
proof -
  assume *: "parse_int b bits s = Some v"
  let ?m = "2 ^ (bits - 1) :: nat"
  obtain w where "v = int w \<and> w < ?m \<or> v = - int w \<and> w \<le> ?m"
    using * by (auto simp: parse_int_def Let_def not_le not_less split: list.splits if_splits option.splits)
  then have "- int ?m \<le> v \<and> v < int ?m"
  proof
    assume "v = - int w \<and> w \<le> ?m"
    moreover have "0 < ?m" by simp
    ultimately show ?thesis by linarith
  next
    assume *: "v = int w \<and> w < ?m"
    then have "int w < int ?m" by (simp only: of_nat_less_iff)
    with * show ?thesis by linarith
  qed
  then show ?thesis by simp
qed

subsection \<open>Hexadecimal coding\<close>

definition hex_digit :: "nat \<Rightarrow> char" where
  "hex_digit d = (if d < 10 then mk_byte (48 + d) else mk_byte (87 + d))"

definition hex_value :: "char \<Rightarrow> nat option" where
  "hex_value c =
     (let b = byte c in
      if 48 \<le> b \<and> b \<le> 57 then Some (b - 48)
      else if 97 \<le> b \<and> b \<le> 102 then Some (b - 87)
      else if 65 \<le> b \<and> b \<le> 70 then Some (b - 55)
      else None)"

fun hex_encode :: "bytes \<Rightarrow> bytes" where
  "hex_encode [] = []"
| "hex_encode (c # cs) = hex_digit (byte c div 16) # hex_digit (byte c mod 16) # hex_encode cs"

fun hex_decode :: "bytes \<Rightarrow> bytes option" where
  "hex_decode [] = Some []"
| "hex_decode [c] = None"
| "hex_decode (c # d # cs) =
     (case (hex_value c, hex_value d, hex_decode cs) of
        (Some h, Some l, Some r) \<Rightarrow> Some (mk_byte (16 * h + l) # r)
      | _ \<Rightarrow> None)"

lemma hex_value_digit: "d < 16 \<Longrightarrow> hex_value (hex_digit d) = Some d"
  by (auto simp: hex_value_def hex_digit_def Let_def)

lemma hex_decode_encode: "hex_decode (hex_encode s) = Some s"
  by (induction s) (simp_all add: hex_value_digit less_mult_imp_div_less)

lemma hex_encode_length [simp]: "length (hex_encode s) = 2 * length s"
  by (induction s) simp_all

lemma hex_digit_byte: "d < 16 \<Longrightarrow> 48 \<le> byte (hex_digit d) \<and> byte (hex_digit d) \<le> 102"
  by (auto simp: hex_digit_def)

lemma hex_encode_lower:
  "c \<in> set (hex_encode s) \<Longrightarrow> 48 \<le> byte c \<and> byte c \<le> 57 \<or> 97 \<le> byte c \<and> byte c \<le> 102"
proof (induction s)
  case (Cons x s)
  have "byte x div 16 < 16" by (simp add: less_mult_imp_div_less)
  have "d < 16 \<Longrightarrow> 48 \<le> byte (hex_digit d) \<and> byte (hex_digit d) \<le> 57
      \<or> 97 \<le> byte (hex_digit d) \<and> byte (hex_digit d) \<le> 102" for d
    by (auto simp: hex_digit_def)
  from this [of "byte x div 16"] this [of "byte x mod 16"] show ?case
    using Cons \<open>byte x div 16 < 16\<close> by auto
qed simp

lemma hex_encode_valid_text: "valid_text (hex_encode s)"
  by (rule printable_ascii_valid) (use hex_encode_lower in \<open>force simp: printable_ascii_def list_all_iff\<close>)

subsection \<open>Plain text\<close>

text \<open>Printable ASCII without spaces is what the numeric formats consist of.\<close>

definition plain_text :: "bytes \<Rightarrow> bool" where
  "plain_text s \<longleftrightarrow> list_all (\<lambda>c. 33 \<le> byte c \<and> byte c < 127) s"

lemma plain_text_simps [simp]:
  "plain_text []"
  "plain_text (c # s) \<longleftrightarrow> 33 \<le> byte c \<and> byte c < 127 \<and> plain_text s"
  "plain_text (s @ t) \<longleftrightarrow> plain_text s \<and> plain_text t"
  by (auto simp: plain_text_def)

lemma plain_not_space: "33 \<le> byte c \<Longrightarrow> byte c < 127 \<Longrightarrow> \<not> is_space (byte c)"
  by (simp add: is_space_def)

lemma rune_chunks_ascii_Cons:
  "byte c < 128 \<Longrightarrow> rune_chunks (c # s) = (byte c, [c]) # rune_chunks s"
  by (simp add: rune_chunks.simps(2) ascii_rune_size)

lemma trim_space_plain:
  assumes "plain_text s" shows "trim_space s = s"
proof (cases s)
  case Nil
  then show ?thesis by (simp add: trim_space_def trim_left_space_def trim_right_space.simps)
next
  case (Cons c cs)
  have "concat (map snd (rune_chunks s)) = s" by (rule rune_chunks_concat)
  then have left: "trim_left_space s = s"
    using assms Cons by (simp add: trim_left_space_def rune_chunks_ascii_Cons plain_not_space)
  have "last s \<in> set s" using Cons by simp
  then have "33 \<le> byte (last s) \<and> byte (last s) < 127"
    using assms by (auto simp: plain_text_def list_all_iff)
  then have "\<not> is_space (fst (decode_last_rune s))"
    using Cons plain_not_space by (simp add: decode_last_rune_def)
  then show ?thesis
    by (simp add: trim_space_def left trim_right_space.simps [of s])
qed

lemma field_runs_plain:
  "plain_text x \<Longrightarrow> field_runs (rune_chunks (x @ s)) acc = field_runs (rune_chunks s) (acc @ x)"
  by (induction x arbitrary: acc) (simp_all add: rune_chunks_ascii_Cons plain_not_space)

lemma fields_one: "plain_text x \<Longrightarrow> x \<noteq> [] \<Longrightarrow> split_fields x = [x]"
  using field_runs_plain [of x "[]" "[]"] by (simp add: split_fields_def)

lemma fields_two:
  assumes "plain_text x" "x \<noteq> []" "plain_text y" "y \<noteq> []"
  shows "split_fields (x @ CHR '' '' # y) = [x, y]"
proof -
  have space: "byte (CHR '' '') = 32" "is_space 32"
    by (simp_all add: byte_def is_space_def)
  have "field_runs (rune_chunks (CHR '' '' # y)) x = x # field_runs (rune_chunks y) []"
    using assms(2) space by (simp add: rune_chunks_ascii_Cons)
  then show ?thesis
    using assms field_runs_plain [of x "CHR '' '' # y" "[]"] fields_one [of y]
    by (simp add: split_fields_def)
qed

lemma digits_plain: "2 \<le> b \<Longrightarrow> b \<le> 10 \<Longrightarrow> plain_text (digits b n)"
  using digits_digit [of b _ n] by (fastforce simp: plain_text_def list_all_iff)

lemma digits_length:
  "length (digits 10 n) = (if n < 10 then 1 else Suc (length (digits 10 (n div 10))))"
  by (simp add: digits.simps [of 10 n])

end
