(* ===== verification/Go_Sha256.thy ===== *)
theory Go_Sha256
  imports Go_Text "HOL-Library.Word"
begin

text \<open>
  \<^verbatim>\<open>crypto/sha256\<close> as the code uses it: \<open>sha256\<close> is the digest of FIPS 180-4 on a complete byte
  sequence, and \<open>sha256_hex\<close> its lower-case hexadecimal form, which is how every identity of the
  program is stored. A running \<^verbatim>\<open>hash.Hash\<close> is modelled by the bytes written to it so far.
\<close>

unbundle bit_operations_syntax

type_synonym u32 = "32 word"

text \<open>
  The constants of the standard are the first 32 bits of the fractional parts of the cube roots of
  the first 64 primes, and of the square roots of the first eight; \<open>int_root\<close> is the integer root,
  found bit by bit.
\<close>

definition sha_primes :: "nat list" where
  "sha_primes = filter (\<lambda>n. list_all (\<lambda>d. n mod d \<noteq> 0) [2..<n]) [2..<312]"

definition int_root :: "nat \<Rightarrow> nat \<Rightarrow> nat" where
  "int_root k n = foldl (\<lambda>r i. if (r + 2 ^ i) ^ k \<le> n then r + 2 ^ i else r) 0 (rev [0..<36])"

definition sha_k :: "u32 list" where
  "sha_k = map (\<lambda>p. of_nat (int_root 3 (p * 2 ^ 96))) sha_primes"

definition sha_init :: "u32 list" where
  "sha_init = map (\<lambda>p. of_nat (int_root 2 (p * 2 ^ 64))) (take 8 sha_primes)"

definition small_sigma0 :: "u32 \<Rightarrow> u32" where
  "small_sigma0 x = word_rotr 7 x XOR word_rotr 18 x XOR drop_bit 3 x"

definition small_sigma1 :: "u32 \<Rightarrow> u32" where
  "small_sigma1 x = word_rotr 17 x XOR word_rotr 19 x XOR drop_bit 10 x"

definition big_sigma0 :: "u32 \<Rightarrow> u32" where
  "big_sigma0 x = word_rotr 2 x XOR word_rotr 13 x XOR word_rotr 22 x"

definition big_sigma1 :: "u32 \<Rightarrow> u32" where
  "big_sigma1 x = word_rotr 6 x XOR word_rotr 11 x XOR word_rotr 25 x"

definition sha_pad :: "bytes \<Rightarrow> bytes" where
  "sha_pad s =
     s @ [mk_byte 128] @ replicate ((119 - length s mod 64) mod 64) (mk_byte 0)
       @ map (\<lambda>i. mk_byte (8 * length s div 256 ^ (7 - i))) [0..<8]"

definition be_word :: "bytes \<Rightarrow> u32" where
  "be_word s = of_nat (foldl (\<lambda>acc c. acc * 256 + byte c) 0 s)"

definition be_bytes :: "u32 \<Rightarrow> bytes" where
  "be_bytes w = map (\<lambda>i. mk_byte (unat w div 256 ^ (3 - i))) [0..<4]"

function chunks_of :: "nat \<Rightarrow> 'a list \<Rightarrow> 'a list list" where
  "chunks_of n xs = (if n = 0 \<or> xs = [] then [] else take n xs # chunks_of n (drop n xs))"
  by pat_completeness auto
termination
  by (relation "measure (\<lambda>(n, xs). length xs)") auto

declare chunks_of.simps [simp del]

text \<open>The message schedule is kept newest word first.\<close>

fun sha_expand :: "nat \<Rightarrow> u32 list \<Rightarrow> u32 list" where
  "sha_expand 0 ws = ws"
| "sha_expand (Suc n) ws =
     sha_expand n ((small_sigma1 (ws ! 1) + ws ! 6 + small_sigma0 (ws ! 14) + ws ! 15) # ws)"

definition sha_schedule :: "bytes \<Rightarrow> u32 list" where
  "sha_schedule block = rev (sha_expand 48 (rev (map be_word (chunks_of 4 block))))"

fun sha_round :: "u32 \<times> u32 \<times> u32 \<times> u32 \<times> u32 \<times> u32 \<times> u32 \<times> u32 \<Rightarrow> u32 \<times> u32 \<Rightarrow>
    u32 \<times> u32 \<times> u32 \<times> u32 \<times> u32 \<times> u32 \<times> u32 \<times> u32" where
  "sha_round (a, b, c, d, e, f, g, h) (k, w) =
     (let t1 = h + big_sigma1 e + ((e AND f) XOR (NOT e AND g)) + k + w;
          t2 = big_sigma0 a + ((a AND b) XOR (a AND c) XOR (b AND c))
      in (t1 + t2, a, b, c, d + t1, e, f, g))"

fun sha_block :: "u32 \<times> u32 \<times> u32 \<times> u32 \<times> u32 \<times> u32 \<times> u32 \<times> u32 \<Rightarrow> bytes \<Rightarrow>
    u32 \<times> u32 \<times> u32 \<times> u32 \<times> u32 \<times> u32 \<times> u32 \<times> u32" where
  "sha_block (a, b, c, d, e, f, g, h) block =
     (case foldl sha_round (a, b, c, d, e, f, g, h) (zip sha_k (sha_schedule block)) of
        (a', b', c', d', e', f', g', h') \<Rightarrow>
          (a + a', b + b', c + c', d + d', e + e', f + f', g + g', h + h'))"

definition sha256 :: "bytes \<Rightarrow> bytes" where
  "sha256 s =
     (case foldl sha_block
        (sha_init ! 0, sha_init ! 1, sha_init ! 2, sha_init ! 3,
         sha_init ! 4, sha_init ! 5, sha_init ! 6, sha_init ! 7)
        (chunks_of 64 (sha_pad s)) of
        (a, b, c, d, e, f, g, h) \<Rightarrow>
          concat (map be_bytes [a, b, c, d, e, f, g, h]))"

definition sha256_hex :: "bytes \<Rightarrow> bytes" where
  "sha256_hex s = hex_encode (sha256 s)"

lemma be_bytes_length [simp]: "length (be_bytes w) = 4"
  by (simp add: be_bytes_def)

lemma sha256_length [simp]: "length (sha256 s) = 32"
  by (simp add: sha256_def split: prod.splits)

lemma sha256_hex_length [simp]: "length (sha256_hex s) = 64"
  by (simp add: sha256_hex_def)

lemma sha256_hex_not_Nil [simp]: "sha256_hex s \<noteq> []"
  by (metis length_0_conv sha256_hex_length zero_neq_numeral)

lemma sha256_hex_decode [simp]: "hex_decode (sha256_hex s) = Some (sha256 s)"
  by (simp add: sha256_hex_def hex_decode_encode)

lemma sha256_hex_valid_text [simp]: "valid_text (sha256_hex s)"
  by (simp add: sha256_hex_def hex_encode_valid_text)

lemma sha256_hex_utf8 [simp]: "utf8_valid (sha256_hex s)"
  using sha256_hex_valid_text by (simp only: valid_text_def)

lemma sha256_hex_lower:
  "c \<in> set (sha256_hex s) \<Longrightarrow> 48 \<le> byte c \<and> byte c \<le> 57 \<or> 97 \<le> byte c \<and> byte c \<le> 102"
  by (simp add: sha256_hex_def hex_encode_lower)

end
