(* ===== verification/Repo_Core.thy ===== *)
theory Repo_Core
  imports Go_Sha256
begin

text \<open>
  Identities and immutable references: \<^verbatim>\<open>internal/domain/ids.go\<close> and, of
  \<^verbatim>\<open>internal/domain/repository\<close>, the files \<^verbatim>\<open>repository.go\<close>, \<^verbatim>\<open>snapshot.go\<close>,
  \<^verbatim>\<open>target.go\<close>, \<^verbatim>\<open>mode.go\<close>, the path part of \<^verbatim>\<open>tree.go\<close> and the classification part of
  \<^verbatim>\<open>content_class.go\<close>. A \<^verbatim>\<open>Validate\<close> method whose only outcome besides nil is its one
  sentinel error is modelled by a predicate that holds when it returns nil.
\<close>

subsection \<open>Opaque identities\<close>

datatype id_error = ErrEmptyID

type_synonym repository_id = bytes
type_synonym worktree_id = bytes
type_synonym review_session_id = bytes
type_synonym review_thread_id = bytes
type_synonym message_id = bytes
type_synonym proposal_id = bytes
type_synonym workspace_id = bytes
type_synonym capture_id = bytes
type_synonym review_snapshot_id = bytes
type_synonym provider_conversation_id = bytes
type_synonym provider_turn_id = bytes
type_synonym operation_id = bytes

definition validate_id :: "bytes \<Rightarrow> (id_error, unit) result" where
  "validate_id v = (if v = [] then Inl ErrEmptyID else Inr ())"

definition new_id :: "bytes \<Rightarrow> (id_error, bytes) result" where
  "new_id v = bind_result (validate_id v) (\<lambda>_. Inr v)"

lemma new_id_iff: "new_id v = Inr w \<longleftrightarrow> v \<noteq> [] \<and> w = v"
  by (auto simp: new_id_def validate_id_def)

subsection \<open>Errors of the repository package\<close>

datatype repo_error =
    ErrInvalidBindingEvidence | ErrInvalidRepository | ErrInvalidWorktree | ErrInvalidRemote
  | ErrInvalidUpstream | ErrInvalidTargetSpec | ErrInvalidSnapshotRef | ErrInvalidObjectID
  | ErrInvalidGitMode | ErrInvalidModeTransition | ErrInvalidRepoPath | ErrInvalidTreeEntry
  | ErrInvalidContentClass | ErrInvalidTextByteSemantics | ErrTextContentClassDrift
  | ErrInvalidTextLineProjection | ErrInvalidSymlinkEvidence | ErrInvalidRenameEvidence
  | ErrNoProgress

subsection \<open>Repository paths\<close>

type_synonym repo_path = bytes
type_synonym repo_path_key = bytes

definition valid_repo_path :: "repo_path \<Rightarrow> bool" where
  "valid_repo_path p \<longleftrightarrow> p \<noteq> [] \<and> NUL \<notin> set p"

definition new_repo_path :: "bytes \<Rightarrow> (repo_error, repo_path) result" where
  "new_repo_path raw = (if raw = [] \<or> NUL \<in> set raw then Inl ErrInvalidRepoPath else Inr raw)"

definition path_key :: "repo_path \<Rightarrow> repo_path_key" where
  "path_key p = p"

definition key_path :: "repo_path_key \<Rightarrow> (repo_error, repo_path) result" where
  "key_path k = new_repo_path k"

definition new_repo_path_key :: "bytes \<Rightarrow> (repo_error, repo_path_key) result" where
  "new_repo_path_key raw = bind_result (new_repo_path raw) (\<lambda>p. Inr (path_key p))"

lemma new_repo_path_iff: "new_repo_path raw = Inr p \<longleftrightarrow> valid_repo_path raw \<and> p = raw"
  by (auto simp: new_repo_path_def valid_repo_path_def)

lemma key_path_path_key: "valid_repo_path p \<Longrightarrow> key_path (path_key p) = Inr p"
  by (simp add: key_path_def path_key_def new_repo_path_iff)

lemma path_key_inject: "path_key p = path_key q \<longleftrightarrow> p = q"
  by (simp add: path_key_def)

record byte_range =
  br_start :: nat
  br_end :: nat

definition valid_byte_range :: "byte_range \<Rightarrow> nat \<Rightarrow> bool" where
  "valid_byte_range r sz \<longleftrightarrow> br_start r < br_end r \<and> br_end r \<le> sz"

subsection \<open>File kinds and Git modes\<close>

datatype file_kind =
    FileKindRegular | FileKindSymlink | FileKindGitlink | FileKindDirectory | FileKindUnknown
  | FileKindOther bytes

definition file_kind_valid :: "file_kind \<Rightarrow> bool" where
  "file_kind_valid k = (case k of FileKindOther _ \<Rightarrow> False | _ \<Rightarrow> True)"

datatype git_mode_class =
    ModeRegularNonExecutable | ModeRegularExecutable | ModeSymlink | ModeGitlink | ModeTree
  | ModeUnsupported | ModeClassOther bytes

definition git_mode_class_valid :: "git_mode_class \<Rightarrow> bool" where
  "git_mode_class_valid c = (case c of ModeClassOther _ \<Rightarrow> False | _ \<Rightarrow> True)"

fun git_mode_class_string :: "git_mode_class \<Rightarrow> bytes" where
  "git_mode_class_string ModeRegularNonExecutable = ''regular_non_executable''"
| "git_mode_class_string ModeRegularExecutable = ''regular_executable''"
| "git_mode_class_string ModeSymlink = ''symlink''"
| "git_mode_class_string ModeGitlink = ''gitlink''"
| "git_mode_class_string ModeTree = ''tree''"
| "git_mode_class_string ModeUnsupported = ''unsupported''"
| "git_mode_class_string (ModeClassOther s) = s"

datatype mode_transition_kind =
    ModeUnchanged | ModeExecutableOn | ModeExecutableOff | ModeTypeChanged | ModeUnsupportedMove
  | ModeTransitionOther bytes

definition mode_transition_kind_valid :: "mode_transition_kind \<Rightarrow> bool" where
  "mode_transition_kind_valid k = (case k of ModeTransitionOther _ \<Rightarrow> False | _ \<Rightarrow> True)"

fun mode_transition_kind_string :: "mode_transition_kind \<Rightarrow> bytes" where
  "mode_transition_kind_string ModeUnchanged = ''unchanged''"
| "mode_transition_kind_string ModeExecutableOn = ''executable_on''"
| "mode_transition_kind_string ModeExecutableOff = ''executable_off''"
| "mode_transition_kind_string ModeTypeChanged = ''type_changed''"
| "mode_transition_kind_string ModeUnsupportedMove = ''unsupported''"
| "mode_transition_kind_string (ModeTransitionOther s) = s"

definition GitModePolicyVersion :: bytes where
  "GitModePolicyVersion = ''v1''"

record mode_transition =
  mt_old_mode :: nat
  mt_new_mode :: nat
  mt_old_class :: git_mode_class
  mt_new_class :: git_mode_class
  mt_kind :: mode_transition_kind
  mt_evidence_hash :: bytes
  mt_policy_version :: bytes

text \<open>The modes are written in octal in the source: 100644, 100755, 120000, 160000 and 040000.\<close>

definition classify_git_mode :: "nat \<Rightarrow> git_mode_class" where
  "classify_git_mode mode =
     (if mode = 33188 then ModeRegularNonExecutable
      else if mode = 33261 then ModeRegularExecutable
      else if mode = 40960 then ModeSymlink
      else if mode = 57344 then ModeGitlink
      else if mode = 16384 then ModeTree
      else ModeUnsupported)"

definition validate_git_mode :: "nat \<Rightarrow> (repo_error, unit) result" where
  "validate_git_mode mode =
     (if classify_git_mode mode = ModeUnsupported then Inl ErrInvalidGitMode else Inr ())"

abbreviation git_mode_ok :: "nat \<Rightarrow> bool" where
  "git_mode_ok mode \<equiv> is_ok (validate_git_mode mode)"

definition mode_transition_hash :: "mode_transition \<Rightarrow> bytes" where
  "mode_transition_hash t =
     sha256_hex
       (mt_policy_version t @ [NUL] @ digits 8 (mt_old_mode t) @ [NUL] @ digits 8 (mt_new_mode t)
        @ [NUL] @ git_mode_class_string (mt_old_class t) @ [NUL]
        @ git_mode_class_string (mt_new_class t) @ [NUL]
        @ mode_transition_kind_string (mt_kind t) @ [NUL])"

definition new_mode_transition :: "nat \<Rightarrow> nat \<Rightarrow> (repo_error, mode_transition) result" where
  "new_mode_transition old new =
     (let old_class = classify_git_mode old; new_class = classify_git_mode new in
      if \<not> git_mode_ok old \<or> \<not> git_mode_ok new then Inl ErrInvalidModeTransition
      else
        (let kind =
           (if old = new then ModeUnchanged
            else if old_class = ModeRegularNonExecutable \<and> new_class = ModeRegularExecutable
              then ModeExecutableOn
            else if old_class = ModeRegularExecutable \<and> new_class = ModeRegularNonExecutable
              then ModeExecutableOff
            else if old_class \<noteq> new_class then ModeTypeChanged
            else ModeUnsupportedMove);
           t = \<lparr>mt_old_mode = old, mt_new_mode = new, mt_old_class = old_class,
                mt_new_class = new_class, mt_kind = kind, mt_evidence_hash = [],
                mt_policy_version = GitModePolicyVersion\<rparr>
         in Inr (t\<lparr>mt_evidence_hash := mode_transition_hash t\<rparr>)))"

definition mode_transition_valid :: "mode_transition \<Rightarrow> bool" where
  "mode_transition_valid t \<longleftrightarrow>
     mt_policy_version t = GitModePolicyVersion \<and> mode_transition_kind_valid (mt_kind t)
     \<and> git_mode_ok (mt_old_mode t) \<and> git_mode_ok (mt_new_mode t)
     \<and> mt_old_class t = classify_git_mode (mt_old_mode t)
     \<and> mt_new_class t = classify_git_mode (mt_new_mode t)
     \<and> length (mt_evidence_hash t) = 64
     \<and> (case new_mode_transition (mt_old_mode t) (mt_new_mode t) of
          Inl _ \<Rightarrow> False
        | Inr expected \<Rightarrow>
            mt_kind expected = mt_kind t \<and> mt_evidence_hash t = mt_evidence_hash expected)"

definition is_executable_change :: "mode_transition \<Rightarrow> bool" where
  "is_executable_change t \<longleftrightarrow> mt_kind t = ModeExecutableOn \<or> mt_kind t = ModeExecutableOff"

definition is_type_change :: "mode_transition \<Rightarrow> bool" where
  "is_type_change t \<longleftrightarrow> mt_kind t = ModeTypeChanged"

definition git_mode_class_file_kind :: "git_mode_class \<Rightarrow> file_kind" where
  "git_mode_class_file_kind c =
     (case c of
        ModeRegularNonExecutable \<Rightarrow> FileKindRegular
      | ModeRegularExecutable \<Rightarrow> FileKindRegular
      | ModeSymlink \<Rightarrow> FileKindSymlink
      | ModeGitlink \<Rightarrow> FileKindGitlink
      | ModeTree \<Rightarrow> FileKindDirectory
      | _ \<Rightarrow> FileKindUnknown)"

lemma git_mode_ok_iff:
  "git_mode_ok m \<longleftrightarrow> m \<in> {33188, 33261, 40960, 57344, 16384}"
  by (auto simp: validate_git_mode_def classify_git_mode_def split: if_splits)

lemma classify_git_mode_inj:
  "git_mode_ok a \<Longrightarrow> git_mode_ok b \<Longrightarrow> classify_git_mode a = classify_git_mode b \<Longrightarrow> a = b"
  by (auto simp: git_mode_ok_iff classify_git_mode_def split: if_splits)

lemma classify_git_mode_eq_iff:
  "git_mode_ok a \<Longrightarrow> git_mode_ok b \<Longrightarrow> classify_git_mode a = classify_git_mode b \<longleftrightarrow> a = b"
  using classify_git_mode_inj by blast

lemma validate_git_mode_known:
  "git_mode_ok m \<Longrightarrow> classify_git_mode m \<in>
     {ModeRegularNonExecutable, ModeRegularExecutable, ModeSymlink, ModeGitlink, ModeTree}"
  by (auto simp: git_mode_ok_iff classify_git_mode_def)

lemma classify_git_mode_valid: "git_mode_class_valid (classify_git_mode m)"
  by (simp add: classify_git_mode_def git_mode_class_valid_def)

lemma new_mode_transition_ok: "is_ok (new_mode_transition a b) \<longleftrightarrow> git_mode_ok a \<and> git_mode_ok b"
  by (simp add: new_mode_transition_def Let_def)

lemma new_mode_transition_fields:
  assumes "new_mode_transition a b = Inr t"
  shows "mt_old_mode t = a" "mt_new_mode t = b" "mt_policy_version t = GitModePolicyVersion"
    "mt_old_class t = classify_git_mode a" "mt_new_class t = classify_git_mode b"
    "length (mt_evidence_hash t) = 64"
  using assms by (auto simp: new_mode_transition_def Let_def mode_transition_hash_def split: if_splits)

lemma new_mode_transition_kind:
  assumes "new_mode_transition a b = Inr t"
  shows "mt_kind t =
     (if a = b then ModeUnchanged
      else if classify_git_mode a = ModeRegularNonExecutable \<and> classify_git_mode b = ModeRegularExecutable
        then ModeExecutableOn
      else if classify_git_mode a = ModeRegularExecutable \<and> classify_git_mode b = ModeRegularNonExecutable
        then ModeExecutableOff
      else ModeTypeChanged)"
proof -
  have "git_mode_ok a" "git_mode_ok b"
    using assms new_mode_transition_ok [of a b] by auto
  then have "classify_git_mode a = classify_git_mode b \<Longrightarrow> a = b"
    by (rule classify_git_mode_inj)
  then show ?thesis
    using assms by (auto simp: new_mode_transition_def Let_def split: if_splits)
qed

lemma new_mode_transition_valid:
  assumes "new_mode_transition a b = Inr t" shows "mode_transition_valid t"
proof -
  have "git_mode_ok a" "git_mode_ok b"
    using assms new_mode_transition_ok [of a b] by auto
  moreover have "mode_transition_kind_valid (mt_kind t)"
    unfolding new_mode_transition_kind [OF assms] by (simp add: mode_transition_kind_valid_def)
  ultimately show ?thesis
    using assms by (simp add: mode_transition_valid_def new_mode_transition_fields [OF assms])
qed

text \<open>How the kind of a transition reads off the two file kinds.\<close>

lemma new_mode_transition_kinds:
  assumes "new_mode_transition a b = Inr t"
  shows "(mt_kind t = ModeUnchanged \<longleftrightarrow> a = b)
       \<and> (is_type_change t \<longleftrightarrow>
            git_mode_class_file_kind (classify_git_mode a)
            \<noteq> git_mode_class_file_kind (classify_git_mode b))
       \<and> (is_executable_change t \<longleftrightarrow>
            a \<noteq> b \<and> git_mode_class_file_kind (classify_git_mode a) = FileKindRegular
            \<and> git_mode_class_file_kind (classify_git_mode b) = FileKindRegular)"
proof -
  have ok: "git_mode_ok a" "git_mode_ok b"
    using assms new_mode_transition_ok [of a b] by auto
  show ?thesis
    unfolding is_type_change_def is_executable_change_def new_mode_transition_kind [OF assms]
    using validate_git_mode_known [OF ok(1)] validate_git_mode_known [OF ok(2)]
    unfolding classify_git_mode_eq_iff [OF ok, symmetric]
    by (cases "classify_git_mode a"; cases "classify_git_mode b")
      (simp_all add: git_mode_class_file_kind_def)
qed

text \<open>
  A Git mode transition is defined exactly on pairs of supported modes; the value
  \<^verbatim>\<open>NewModeTransition\<close> returns always passes \<^verbatim>\<open>Validate\<close>, its kind is "unchanged" exactly when
  the modes are equal, it is an executable flip exactly when both sides are regular files with
  different modes, a type change exactly when the file kinds differ, and the fallback kind
  "unsupported" never occurs.
\<close>

theorem mode_transition_correct:
  "case new_mode_transition a b of
     Inl e \<Rightarrow> e = ErrInvalidModeTransition \<and> \<not> (git_mode_ok a \<and> git_mode_ok b)
   | Inr t \<Rightarrow>
       git_mode_ok a \<and> git_mode_ok b \<and> mode_transition_valid t
       \<and> mt_kind t \<noteq> ModeUnsupportedMove
       \<and> (mt_kind t = ModeUnchanged \<longleftrightarrow> a = b)
       \<and> (is_type_change t \<longleftrightarrow>
            git_mode_class_file_kind (classify_git_mode a)
            \<noteq> git_mode_class_file_kind (classify_git_mode b))
       \<and> (is_executable_change t \<longleftrightarrow>
            a \<noteq> b \<and> git_mode_class_file_kind (classify_git_mode a) = FileKindRegular
            \<and> git_mode_class_file_kind (classify_git_mode b) = FileKindRegular)"
proof (cases "new_mode_transition a b")
  case (Inl e)
  then show ?thesis
    using new_mode_transition_ok [of a b]
    by (auto simp: new_mode_transition_def Let_def split: if_splits)
next
  case (Inr t)
  then have ok: "git_mode_ok a" "git_mode_ok b"
    using new_mode_transition_ok [of a b] by auto
  have "mt_kind t \<noteq> ModeUnsupportedMove"
    by (simp add: new_mode_transition_kind [OF Inr])
  with Inr ok new_mode_transition_valid [OF Inr] new_mode_transition_kinds [OF Inr] show ?thesis
    by simp
qed

subsection \<open>Repository identity and bindings\<close>

type_synonym native_identity = bytes
type_synonym object_id = bytes

text \<open>Optional text fields of the records are empty or printable.\<close>

abbreviation optional_text :: "bytes \<Rightarrow> bool" where
  "optional_text s \<equiv> s = [] \<or> valid_text s"

abbreviation required_text :: "bytes \<Rightarrow> bool" where
  "required_text s \<equiv> s \<noteq> [] \<and> valid_text s"

definition new_object_id :: "bytes \<Rightarrow> (repo_error, object_id) result" where
  "new_object_id value = (if value = [] \<or> \<not> valid_text value then Inl ErrInvalidObjectID else Inr value)"

lemma new_object_id_ok [simp]: "is_ok (new_object_id v) \<longleftrightarrow> required_text v"
  by (simp add: new_object_id_def)

record repository_binding =
  rb_version :: nat
  rb_object_format :: bytes
  rb_common_git_dir :: bytes
  rb_common_git_dir_identity :: native_identity

definition repository_binding_valid :: "repository_binding \<Rightarrow> bool" where
  "repository_binding_valid e \<longleftrightarrow>
     rb_version e \<noteq> 0 \<and> required_text (rb_object_format e) \<and> required_text (rb_common_git_dir e)
     \<and> rb_common_git_dir_identity e \<noteq> []"

record remote =
  rm_name :: bytes
  rm_fetch_urls :: "bytes list"
  rm_push_urls :: "bytes list"

definition remote_valid :: "remote \<Rightarrow> bool" where
  "remote_valid r \<longleftrightarrow>
     required_text (rm_name r) \<and> rm_fetch_urls r \<noteq> []
     \<and> list_all (\<lambda>u. required_text u) (rm_fetch_urls r @ rm_push_urls r)"

record upstream_ref =
  up_remote_name :: bytes
  up_branch_name :: bytes
  up_ref_name :: bytes

definition upstream_ref_valid :: "upstream_ref \<Rightarrow> bool" where
  "upstream_ref_valid u \<longleftrightarrow>
     required_text (up_remote_name u) \<and> required_text (up_branch_name u)
     \<and> required_text (up_ref_name u)
     \<and> up_ref_name u = ''refs/remotes/'' @ up_remote_name u @ ''/'' @ up_branch_name u"

record worktree_binding =
  wb_version :: nat
  wb_object_format :: bytes
  wb_root_path :: bytes
  wb_git_dir :: bytes
  wb_root_identity :: native_identity
  wb_git_dir_identity :: native_identity

definition worktree_binding_valid :: "worktree_binding \<Rightarrow> bool" where
  "worktree_binding_valid e \<longleftrightarrow>
     wb_version e \<noteq> 0 \<and> required_text (wb_object_format e) \<and> required_text (wb_root_path e)
     \<and> required_text (wb_git_dir e) \<and> wb_root_identity e \<noteq> [] \<and> wb_git_dir_identity e \<noteq> []"

record repository =
  rp_id :: repository_id
  rp_common_git_dir :: bytes
  rp_binding :: repository_binding
  rp_display_name :: bytes
  rp_remotes :: "remote list"
  rp_default_branch :: bytes
  rp_created_at :: instant
  rp_updated_at :: instant

text \<open>
  The loop over the remotes keeps the set of names seen so far: each remote is valid and its
  name is new.
\<close>

fun remotes_ok :: "bytes set \<Rightarrow> remote list \<Rightarrow> bool" where
  "remotes_ok seen [] = True"
| "remotes_ok seen (r # rs) =
     (remote_valid r \<and> rm_name r \<notin> seen \<and> remotes_ok (insert (rm_name r) seen) rs)"

definition repository_valid :: "repository \<Rightarrow> bool" where
  "repository_valid r \<longleftrightarrow>
     rp_id r \<noteq> [] \<and> required_text (rp_common_git_dir r) \<and> required_text (rp_display_name r)
     \<and> optional_text (rp_default_branch r)
     \<and> \<not> is_zero_time (rp_created_at r) \<and> \<not> is_zero_time (rp_updated_at r)
     \<and> \<not> before (rp_updated_at r) (rp_created_at r)
     \<and> repository_binding_valid (rp_binding r)
     \<and> rb_common_git_dir (rp_binding r) = rp_common_git_dir r
     \<and> remotes_ok {} (rp_remotes r)"

lemma remotes_ok_iff:
  "remotes_ok seen rs \<longleftrightarrow>
     list_all remote_valid rs \<and> distinct (map rm_name rs) \<and> seen \<inter> rm_name ` set rs = {}"
  by (induction rs arbitrary: seen) auto

record worktree_ref =
  wt_id :: worktree_id
  wt_repository_id :: repository_id
  wt_root_path :: bytes
  wt_git_dir :: bytes
  wt_binding :: worktree_binding
  wt_current_object_id :: object_id
  wt_branch_name :: bytes
  wt_detached :: bool
  wt_launch_focus :: bytes
  wt_upstream :: "upstream_ref option"

definition worktree_ref_valid :: "worktree_ref \<Rightarrow> bool" where
  "worktree_ref_valid w \<longleftrightarrow>
     wt_id w \<noteq> [] \<and> wt_repository_id w \<noteq> [] \<and> required_text (wt_root_path w)
     \<and> required_text (wt_git_dir w)
     \<and> worktree_binding_valid (wt_binding w)
     \<and> wb_root_path (wt_binding w) = wt_root_path w \<and> wb_git_dir (wt_binding w) = wt_git_dir w
     \<and> \<not> (wt_detached w \<and> wt_branch_name w \<noteq> [])
     \<and> optional_text (wt_branch_name w) \<and> optional_text (wt_launch_focus w)
     \<and> (case wt_upstream w of None \<Rightarrow> True | Some u \<Rightarrow> upstream_ref_valid u)
     \<and> (wt_current_object_id w \<noteq> [] \<longrightarrow> is_ok (new_object_id (wt_current_object_id w)))"

subsection \<open>Snapshots\<close>

datatype snapshot_kind =
    SnapshotCommit | SnapshotTree | SnapshotWorkingTree | SnapshotEmpty | SnapshotOther bytes

record snapshot_ref =
  sr_kind :: snapshot_kind
  sr_object_id :: object_id
  sr_worktree_id :: worktree_id
  sr_fingerprint :: bytes

definition snapshot_ref_valid :: "snapshot_ref \<Rightarrow> bool" where
  "snapshot_ref_valid r =
     (case sr_kind r of
        SnapshotCommit \<Rightarrow>
          sr_object_id r \<noteq> [] \<and> sr_worktree_id r = [] \<and> sr_fingerprint r = []
          \<and> is_ok (new_object_id (sr_object_id r))
      | SnapshotTree \<Rightarrow>
          sr_object_id r \<noteq> [] \<and> sr_worktree_id r = [] \<and> sr_fingerprint r = []
          \<and> is_ok (new_object_id (sr_object_id r))
      | SnapshotWorkingTree \<Rightarrow>
          sr_object_id r = [] \<and> sr_worktree_id r \<noteq> [] \<and> required_text (sr_fingerprint r)
      | SnapshotEmpty \<Rightarrow>
          sr_worktree_id r = [] \<and> sr_fingerprint r = []
          \<and> (sr_object_id r \<noteq> [] \<longrightarrow> is_ok (new_object_id (sr_object_id r)))
      | SnapshotOther _ \<Rightarrow> False)"

definition new_snapshot_ref :: "snapshot_ref \<Rightarrow> (repo_error, snapshot_ref) result" where
  "new_snapshot_ref r = (if snapshot_ref_valid r then Inr r else Inl ErrInvalidSnapshotRef)"

subsection \<open>Review targets\<close>

datatype target_kind = TargetLocal | TargetCommit | TargetBranch | TargetOther bytes

record target_spec =
  ts_kind :: target_kind
  ts_commit_expression :: bytes
  ts_parent_expression :: bytes
  ts_base_branch :: bytes

definition target_spec_valid :: "target_spec \<Rightarrow> bool" where
  "target_spec_valid s =
     (case ts_kind s of
        TargetLocal \<Rightarrow>
          ts_commit_expression s = [] \<and> ts_parent_expression s = [] \<and> ts_base_branch s = []
      | TargetCommit \<Rightarrow>
          required_text (ts_commit_expression s) \<and> ts_base_branch s = []
          \<and> optional_text (ts_parent_expression s)
      | TargetBranch \<Rightarrow>
          required_text (ts_base_branch s) \<and> ts_commit_expression s = []
          \<and> ts_parent_expression s = []
      | TargetOther _ \<Rightarrow> False)"

definition target_spec_check :: "target_spec \<Rightarrow> target_spec \<times> repo_error option" where
  "target_spec_check s = (s, if target_spec_valid s then None else Some ErrInvalidTargetSpec)"

definition new_local_target_spec :: "target_spec \<times> repo_error option" where
  "new_local_target_spec =
     target_spec_check \<lparr>ts_kind = TargetLocal, ts_commit_expression = [],
       ts_parent_expression = [], ts_base_branch = []\<rparr>"

definition new_commit_target_spec :: "bytes \<Rightarrow> bytes \<Rightarrow> target_spec \<times> repo_error option" where
  "new_commit_target_spec commit parent =
     target_spec_check \<lparr>ts_kind = TargetCommit, ts_commit_expression = commit,
       ts_parent_expression = parent, ts_base_branch = []\<rparr>"

definition new_branch_target_spec :: "bytes \<Rightarrow> target_spec \<times> repo_error option" where
  "new_branch_target_spec base_branch =
     target_spec_check \<lparr>ts_kind = TargetBranch, ts_commit_expression = [],
       ts_parent_expression = [], ts_base_branch = base_branch\<rparr>"

record resolved_target =
  rt_spec :: target_spec
  rt_generation :: nat
  rt_base :: snapshot_ref
  rt_head :: snapshot_ref
  rt_resolved_commit :: object_id
  rt_resolved_parent :: object_id
  rt_parent_label :: bytes
  rt_resolved_base_ref :: object_id
  rt_merge_base :: object_id
  rt_base_branch_source :: bytes
  rt_branch_ref :: bytes
  rt_base_branch_ref :: bytes
  rt_dirty_worktree :: bool
  rt_no_fetch_warning :: bool
  rt_editable :: bool
  rt_edit_destination :: "worktree_id option"
  rt_fingerprint :: bytes
  rt_resolved_at :: instant

definition valid_base_branch_source :: "bytes \<Rightarrow> bool" where
  "valid_base_branch_source v \<longleftrightarrow>
     v \<in> {''explicit_branch_flag'', ''session_choice'', ''repository_preference'', ''discovery''}"

text \<open>The second half of the validator: the fields each target kind admits.\<close>

definition resolved_target_shape :: "resolved_target \<Rightarrow> bool" where
  "resolved_target_shape t =
     (case ts_kind (rt_spec t) of
        TargetLocal \<Rightarrow>
          sr_kind (rt_base t) \<noteq> SnapshotWorkingTree \<and> sr_kind (rt_head t) = SnapshotWorkingTree
          \<and> rt_resolved_parent t = [] \<and> rt_parent_label t = [] \<and> rt_resolved_base_ref t = []
          \<and> rt_merge_base t = [] \<and> rt_base_branch_source t = [] \<and> rt_branch_ref t = []
          \<and> rt_base_branch_ref t = [] \<and> \<not> rt_no_fetch_warning t
      | TargetCommit \<Rightarrow>
          (sr_kind (rt_base t) = SnapshotCommit \<or> sr_kind (rt_base t) = SnapshotEmpty)
          \<and> sr_object_id (rt_base t) \<noteq> [] \<and> sr_kind (rt_head t) = SnapshotCommit
          \<and> rt_resolved_commit t \<noteq> [] \<and> rt_parent_label t \<noteq> [] \<and> rt_resolved_base_ref t = []
          \<and> rt_merge_base t = [] \<and> rt_base_branch_source t = [] \<and> rt_branch_ref t = []
          \<and> rt_base_branch_ref t = [] \<and> \<not> rt_no_fetch_warning t
          \<and> \<not> (sr_kind (rt_base t) = SnapshotCommit \<and> rt_resolved_parent t = []
               \<or> sr_kind (rt_base t) = SnapshotEmpty \<and> rt_resolved_parent t \<noteq> [])
          \<and> sr_object_id (rt_head t) = rt_resolved_commit t
      | TargetBranch \<Rightarrow>
          sr_kind (rt_base t) \<noteq> SnapshotWorkingTree \<and> sr_kind (rt_head t) = SnapshotCommit
          \<and> rt_resolved_commit t \<noteq> [] \<and> rt_resolved_parent t = [] \<and> rt_parent_label t = []
          \<and> rt_resolved_base_ref t \<noteq> [] \<and> rt_merge_base t \<noteq> []
          \<and> valid_base_branch_source (rt_base_branch_source t) \<and> rt_branch_ref t \<noteq> []
          \<and> sr_object_id (rt_head t) = rt_resolved_commit t
          \<and> \<not> (rt_base_branch_source t \<noteq> ''discovery'' \<and> rt_base_branch_ref t \<noteq> [])
      | TargetOther _ \<Rightarrow> True)"

definition resolved_target_valid :: "resolved_target \<Rightarrow> bool" where
  "resolved_target_valid t \<longleftrightarrow>
     target_spec_valid (rt_spec t) \<and> rt_generation t \<noteq> 0 \<and> \<not> is_zero_time (rt_resolved_at t)
     \<and> snapshot_ref_valid (rt_base t) \<and> snapshot_ref_valid (rt_head t)
     \<and> \<not> (rt_editable t \<and> (rt_edit_destination t = None \<or> rt_edit_destination t = Some []))
     \<and> optional_text (rt_fingerprint t)
     \<and> (rt_resolved_commit t \<noteq> [] \<longrightarrow> is_ok (new_object_id (rt_resolved_commit t)))
     \<and> (rt_resolved_parent t \<noteq> [] \<longrightarrow> is_ok (new_object_id (rt_resolved_parent t)))
     \<and> optional_text (rt_parent_label t)
     \<and> (rt_merge_base t \<noteq> [] \<longrightarrow> is_ok (new_object_id (rt_merge_base t)))
     \<and> (rt_resolved_base_ref t \<noteq> [] \<longrightarrow> is_ok (new_object_id (rt_resolved_base_ref t)))
     \<and> optional_text (rt_base_branch_source t) \<and> optional_text (rt_branch_ref t)
     \<and> optional_text (rt_base_branch_ref t)
     \<and> resolved_target_shape t"

definition new_resolved_target :: "resolved_target \<Rightarrow> (repo_error, resolved_target) result" where
  "new_resolved_target t = (if resolved_target_valid t then Inr t else Inl ErrInvalidTargetSpec)"

lemma new_local_target_spec_ok: "snd new_local_target_spec = None"
  by (simp add: new_local_target_spec_def target_spec_check_def target_spec_valid_def)

text \<open>
  The reviewed side of a resolved target is never an ambiguous reference: a working tree has a
  fingerprint and no object, a commit or branch target has the resolved commit.
\<close>

lemma resolved_target_head:
  assumes "resolved_target_valid t"
  shows "if ts_kind (rt_spec t) = TargetLocal
         then sr_object_id (rt_head t) = [] \<and> required_text (sr_fingerprint (rt_head t))
         else sr_object_id (rt_head t) = rt_resolved_commit t \<and> required_text (rt_resolved_commit t)"
  using assms
  by (cases "ts_kind (rt_spec t)"; cases "sr_kind (rt_head t)")
    (auto simp: resolved_target_valid_def resolved_target_shape_def snapshot_ref_valid_def
      target_spec_valid_def)

end
