(* ===== verification/Text_Semantics.thy ===== *)
theory Text_Semantics
  imports Repo_Core
begin

text \<open>
  Content classes and exact text evidence: \<^verbatim>\<open>content_class.go\<close> and \<^verbatim>\<open>text.go\<close> of
  \<^verbatim>\<open>internal/domain/repository\<close>. The streaming observers are state records with one
  write operation; the hash object is represented by the bytes written to it. Byte and line
  counters are natural numbers: each is at most the running total, which the code keeps below
  \<open>2 ^ 64\<close> with an explicit guard. A method called on a nil receiver is the case \<open>None\<close>.
\<close>

subsection \<open>Streaming observers\<close>

text \<open>The sequence of writes a caller makes, stopped by the first error.\<close>

fun write_all :: "('s \<Rightarrow> bytes \<Rightarrow> ('e, 's) result) \<Rightarrow> 's \<Rightarrow> bytes list \<Rightarrow> ('e, 's) result" where
  "write_all w s [] = Inr s"
| "write_all w s (c # cs) = bind_result (w s c) (\<lambda>s'. write_all w s' cs)"

text \<open>
  The contract of an \<^verbatim>\<open>io.Writer\<close> that only observes its input: an empty write changes
  nothing and two writes are one write of the concatenation. The consequence is that the way a
  caller cuts the stream into chunks cannot be observed.
\<close>

locale stream_observer =
  fixes put :: "'s \<Rightarrow> bytes \<Rightarrow> ('e, 's) result"
    and inv :: "'s \<Rightarrow> bool"
  assumes write_nil: "inv s \<Longrightarrow> put s [] = Inr s"
    and write_append: "inv s \<Longrightarrow> put s (a @ b) = bind_result (put s a) (\<lambda>s'. put s' b)"
    and write_inv: "inv s \<Longrightarrow> put s a = Inr s' \<Longrightarrow> inv s'"
begin

lemma write_all_concat: "inv s \<Longrightarrow> write_all put s cs = put s (concat cs)"
proof (induction cs arbitrary: s)
  case Nil
  then show ?case by (simp add: write_nil)
next
  case (Cons c cs)
  then show ?case
    by (cases "put s c") (simp_all add: write_append write_inv)
qed

lemma write_all_inv: "inv s \<Longrightarrow> write_all put s cs = Inr s' \<Longrightarrow> inv s'"
  by (simp add: write_all_concat write_inv)

lemma rechunk: "inv s \<Longrightarrow> concat cs = concat ds \<Longrightarrow> write_all put s cs = write_all put s ds"
  by (simp add: write_all_concat)

end

subsection \<open>Content classes\<close>

datatype content_class =
    ContentClassRegularTextUTF8 | ContentClassRegularBinary | ContentClassOpaqueBytes
  | ContentClassOther bytes

abbreviation NoContentClass :: content_class where
  "NoContentClass \<equiv> ContentClassOther []"

definition content_class_valid :: "content_class \<Rightarrow> bool" where
  "content_class_valid c = (case c of ContentClassOther _ \<Rightarrow> False | _ \<Rightarrow> True)"

definition is_byte_oriented :: "content_class \<Rightarrow> bool" where
  "is_byte_oriented c \<longleftrightarrow> c = ContentClassRegularBinary \<or> c = ContentClassOpaqueBytes"

definition classify_content :: "bytes \<Rightarrow> bool \<Rightarrow> content_class" where
  "classify_content data explicit_binary_patch =
     (if explicit_binary_patch \<or> NUL \<in> set data then ContentClassRegularBinary
      else if utf8_valid data then ContentClassRegularTextUTF8
      else ContentClassOpaqueBytes)"

record content_classifier =
  cc_explicit_binary_patch :: bool
  cc_nul :: bool
  cc_invalid :: bool
  cc_pending :: bytes

definition new_content_classifier :: "bool \<Rightarrow> content_classifier option" where
  "new_content_classifier explicit =
     Some \<lparr>cc_explicit_binary_patch = explicit, cc_nul = False, cc_invalid = False, cc_pending = []\<rparr>"

definition content_classifier_write ::
    "content_classifier option \<Rightarrow> bytes \<Rightarrow> (repo_error, content_classifier option) result" where
  "content_classifier_write cc data =
     (case cc of
        None \<Rightarrow> Inl ErrInvalidContentClass
      | Some c \<Rightarrow>
          (let c = c\<lparr>cc_nul := cc_nul c \<or> NUL \<in> set data\<rparr> in
           if cc_invalid c then Inr (Some c)
           else
             (case scan_utf8 (cc_pending c @ data) of
                None \<Rightarrow> Inr (Some (c\<lparr>cc_invalid := True, cc_pending := []\<rparr>))
              | Some rest \<Rightarrow> Inr (Some (c\<lparr>cc_pending := rest\<rparr>)))))"

definition content_classifier_classify :: "content_classifier option \<Rightarrow> content_class" where
  "content_classifier_classify cc =
     (case cc of
        None \<Rightarrow> NoContentClass
      | Some c \<Rightarrow>
          if cc_explicit_binary_patch c \<or> cc_nul c then ContentClassRegularBinary
          else if cc_invalid c \<or> cc_pending c \<noteq> [] then ContentClassOpaqueBytes
          else ContentClassRegularTextUTF8)"

text \<open>Between writes the pending bytes are an incomplete rune.\<close>

definition content_classifier_inv :: "content_classifier option \<Rightarrow> bool" where
  "content_classifier_inv cc =
     (case cc of None \<Rightarrow> False
      | Some c \<Rightarrow> scan_utf8 (cc_pending c) = Some (cc_pending c) \<and> (cc_invalid c \<longrightarrow> cc_pending c = []))"

interpretation classifier: stream_observer content_classifier_write content_classifier_inv
proof unfold_locales
  fix s :: "content_classifier option" and a b
  assume inv: "content_classifier_inv s"
  then obtain c where s: "s = Some c" and p: "scan_utf8 (cc_pending c) = Some (cc_pending c)"
    and i: "cc_invalid c \<longrightarrow> cc_pending c = []"
    by (auto simp: content_classifier_inv_def split: option.splits)
  show "content_classifier_write s [] = Inr s"
    using s p by (simp add: content_classifier_write_def Let_def)
  show "content_classifier_write s (a @ b)
        = bind_result (content_classifier_write s a) (\<lambda>s'. content_classifier_write s' b)"
    using s scan_utf8_append [of "cc_pending c @ a" b]
    by (auto simp: content_classifier_write_def Let_def disj_assoc split: option.splits)
  show "content_classifier_inv s'" if "content_classifier_write s a = Inr s'" for s'
    using that s p i scan_utf8_pending
    by (auto simp: content_classifier_write_def content_classifier_inv_def Let_def
        split: option.splits if_splits)
qed

lemma new_content_classifier_inv [simp]: "content_classifier_inv (new_content_classifier e)"
  by (simp add: new_content_classifier_def content_classifier_inv_def)

lemma content_classifier_one_write:
  "content_classifier_write (new_content_classifier e) data
   = Inr (Some \<lparr>cc_explicit_binary_patch = e, cc_nul = NUL \<in> set data,
       cc_invalid = (scan_utf8 data = None),
       cc_pending = (case scan_utf8 data of None \<Rightarrow> [] | Some r \<Rightarrow> r)\<rparr>)"
  by (simp add: new_content_classifier_def content_classifier_write_def split: option.splits)

text \<open>
  C35. However a stream is cut into chunks, the incremental classifier accepts every write and
  ends with the class \<^verbatim>\<open>ClassifyContentV1\<close> gives the whole content; between writes it
  retains at most three bytes.
\<close>

theorem content_classifier_correct:
  "\<exists>c. write_all content_classifier_write (new_content_classifier e) chunks = Inr (Some c)
       \<and> content_classifier_classify (Some c) = classify_content (concat chunks) e
       \<and> length (cc_pending c) \<le> 3"
  using scan_utf8_pending [of "concat chunks"]
  by (auto simp: classifier.write_all_concat content_classifier_one_write
      content_classifier_classify_def classify_content_def utf8_valid_scan split: option.splits)

subsection \<open>Exact text evidence\<close>

datatype text_encoding = TextUTF8 | TextUTF8BOM | TextEncodingUnknown | TextEncodingOther bytes

definition text_encoding_valid :: "text_encoding \<Rightarrow> bool" where
  "text_encoding_valid c = (case c of TextEncodingOther _ \<Rightarrow> False | _ \<Rightarrow> True)"

datatype line_terminator =
    TerminatorNone | TerminatorLF | TerminatorCRLF | TerminatorCR | TerminatorOther bytes

definition line_terminator_valid :: "line_terminator \<Rightarrow> bool" where
  "line_terminator_valid t = (case t of TerminatorOther _ \<Rightarrow> False | _ \<Rightarrow> True)"

record line_ending_profile =
  le_lf_count :: nat
  le_crlf_count :: nat
  le_cr_count :: nat
  le_final_lf :: bool
  le_mixed :: bool

definition empty_profile :: line_ending_profile where
  "empty_profile = \<lparr>le_lf_count = 0, le_crlf_count = 0, le_cr_count = 0, le_final_lf = False,
     le_mixed = False\<rparr>"

definition non_zero_count :: "nat \<Rightarrow> nat" where
  "non_zero_count v = (if v = 0 then 0 else 1)"

definition endings_present :: "line_ending_profile \<Rightarrow> nat" where
  "endings_present p =
     non_zero_count (le_lf_count p) + non_zero_count (le_crlf_count p) + non_zero_count (le_cr_count p)"

definition line_ending_profile_valid :: "line_ending_profile \<Rightarrow> bool" where
  "line_ending_profile_valid p \<longleftrightarrow>
     \<not> (le_final_lf p \<and> le_lf_count p + le_crlf_count p = 0)
     \<and> \<not> (le_mixed p \<and> endings_present p < 2)"

definition valid_sha256 :: "bytes \<Rightarrow> bool" where
  "valid_sha256 v \<longleftrightarrow> length v = 64 \<and> hex_decode v \<noteq> None"

lemma valid_sha256_hex [simp]: "valid_sha256 (sha256_hex data)"
  by (simp add: valid_sha256_def sha256_hex_length sha256_hex_decode)

record text_semantics =
  te_encoding :: text_encoding
  te_byte_length :: nat
  te_sha256 :: bytes
  te_has_bom :: bool
  te_endings :: line_ending_profile
  te_empty :: bool

definition text_semantics_valid :: "text_semantics \<Rightarrow> bool" where
  "text_semantics_valid s \<longleftrightarrow>
     text_encoding_valid (te_encoding s) \<and> valid_sha256 (te_sha256 s)
     \<and> te_empty s = (te_byte_length s = 0)
     \<and> te_has_bom s = (te_encoding s = TextUTF8BOM)
     \<and> line_ending_profile_valid (te_endings s)
     \<and> \<not> (te_encoding s = TextEncodingUnknown \<and> te_has_bom s)"

definition BOM :: bytes where "BOM = map mk_byte [0xEF, 0xBB, 0xBF]"

lemma length_BOM [simp]: "length BOM = 3"
  by (simp add: BOM_def)

definition max_uint64 :: nat where "max_uint64 = 2 ^ 64 - 1"

text \<open>
  The byte loop of the writer: the profile and whether the previous byte was a carriage return
  that has not been counted yet.
\<close>

type_synonym ending_state = "line_ending_profile \<times> bool"

definition writer_ending_step :: "ending_state \<Rightarrow> char \<Rightarrow> ending_state" where
  "writer_ending_step st v =
     (let (p, previous_cr) = st in
      if v = CR then
        (if previous_cr then p\<lparr>le_cr_count := le_cr_count p + 1\<rparr> else p, True)
      else if v = LF then
        (if previous_cr then p\<lparr>le_crlf_count := le_crlf_count p + 1\<rparr>
         else p\<lparr>le_lf_count := le_lf_count p + 1\<rparr>, False)
      else if previous_cr then (p\<lparr>le_cr_count := le_cr_count p + 1\<rparr>, False)
      else (p, False))"

record text_writer =
  tw_hashed :: bytes
  tw_total :: nat
  tw_previous_cr :: bool
  tw_last_byte :: char
  tw_profile :: line_ending_profile
  tw_prefix :: bytes
  tw_valid :: bool
  tw_pending :: bytes

definition new_text_writer :: "text_writer option" where
  "new_text_writer =
     Some \<lparr>tw_hashed = [], tw_total = 0, tw_previous_cr = False, tw_last_byte = NUL,
       tw_profile = empty_profile, tw_prefix = [], tw_valid = True, tw_pending = []\<rparr>"

text \<open>
  One non-empty chunk, as the writer and the reader loop both handle it; they differ only in the
  line-ending step. The array \<^verbatim>\<open>prefix\<close> and its fill count are the list of the bytes copied
  so far, at most three.
\<close>

definition observe_chunk ::
    "(ending_state \<Rightarrow> char \<Rightarrow> ending_state) \<Rightarrow> text_writer \<Rightarrow> bytes \<Rightarrow> text_writer" where
  "observe_chunk step w data =
     (let st = foldl step (tw_profile w, tw_previous_cr w) data;
          w1 = w\<lparr>tw_total := tw_total w + length data, tw_hashed := tw_hashed w @ data,
                 tw_last_byte := last data,
                 tw_prefix := tw_prefix w @ take (3 - length (tw_prefix w)) data,
                 tw_profile := fst st, tw_previous_cr := snd st\<rparr>
      in if \<not> tw_valid w1 then w1
         else
           (case scan_utf8 (tw_pending w1 @ data) of
              None \<Rightarrow> w1\<lparr>tw_valid := False, tw_pending := []\<rparr>
            | Some rest \<Rightarrow> w1\<lparr>tw_pending := rest\<rparr>))"

definition text_writer_write :: "text_writer option \<Rightarrow> bytes \<Rightarrow> (repo_error, text_writer option) result" where
  "text_writer_write tw data =
     (case tw of
        None \<Rightarrow> Inl ErrInvalidTextByteSemantics
      | Some w \<Rightarrow>
          if data = [] then Inr (Some w)
          else if tw_total w + length data > max_uint64 then Inl ErrInvalidTextByteSemantics
          else Inr (Some (observe_chunk writer_ending_step w data)))"

text \<open>
  The end of both classifiers: a pending carriage return is counted, and the two flags are set.
\<close>

definition final_profile :: "line_ending_profile \<Rightarrow> bool \<Rightarrow> nat \<Rightarrow> char \<Rightarrow> line_ending_profile" where
  "final_profile p previous_cr len last_byte =
     (let p1 = (if previous_cr then p\<lparr>le_cr_count := le_cr_count p + 1\<rparr> else p);
          p2 = p1\<lparr>le_final_lf := (len > 0 \<and> last_byte = LF)\<rparr>
      in p2\<lparr>le_mixed := (endings_present p2 > 1)\<rparr>)"

definition text_writer_semantics :: "text_writer option \<Rightarrow> nat \<Rightarrow> (repo_error, text_semantics) result" where
  "text_writer_semantics tw expected =
     (case tw of
        None \<Rightarrow> Inl ErrTextContentClassDrift
      | Some w \<Rightarrow>
          if tw_total w \<noteq> expected then Inl ErrTextContentClassDrift
          else
            (let profile = final_profile (tw_profile w) (tw_previous_cr w) (tw_total w) (tw_last_byte w);
                 valid = (tw_valid w \<and> tw_pending w = []);
                 has_bom = (valid \<and> length (tw_prefix w) \<ge> 3 \<and> tw_prefix w = BOM);
                 encoding = (if \<not> valid then TextEncodingUnknown
                             else if has_bom then TextUTF8BOM else TextUTF8);
                 r = \<lparr>te_encoding = encoding, te_byte_length = tw_total w,
                      te_sha256 = sha256_hex (tw_hashed w), te_has_bom = has_bom,
                      te_endings = profile, te_empty = (tw_total w = 0)\<rparr>
             in if text_semantics_valid r then Inr r else Inl ErrInvalidTextByteSemantics))"

text \<open>
  The reference reading of a whole text: a carriage return followed by a line feed counts once,
  every other carriage return and line feed counts by itself.
\<close>

fun ending_counts :: "bytes \<Rightarrow> nat \<times> nat \<times> nat" where
  "ending_counts [] = (0, 0, 0)"
| "ending_counts (c # cs) =
     (if c = LF then (case ending_counts cs of (lf, crlf, cr) \<Rightarrow> (lf + 1, crlf, cr))
      else if c = CR then
        (case cs of
           [] \<Rightarrow> (0, 0, 1)
         | d # ds \<Rightarrow>
             if d = LF then (case ending_counts ds of (lf, crlf, cr) \<Rightarrow> (lf, crlf + 1, cr))
             else (case ending_counts cs of (lf, crlf, cr) \<Rightarrow> (lf, crlf, cr + 1)))
      else ending_counts cs)"

definition profile_of :: "bytes \<Rightarrow> line_ending_profile" where
  "profile_of data =
     (case ending_counts data of (lf, crlf, cr) \<Rightarrow>
        \<lparr>le_lf_count = lf, le_crlf_count = crlf, le_cr_count = cr,
         le_final_lf = (data \<noteq> [] \<and> last data = LF),
         le_mixed = (non_zero_count lf + non_zero_count crlf + non_zero_count cr > 1)\<rparr>)"

definition text_evidence :: "bytes \<Rightarrow> text_semantics" where
  "text_evidence data =
     (let has_bom = (utf8_valid data \<and> take 3 data = BOM) in
      \<lparr>te_encoding = (if \<not> utf8_valid data then TextEncodingUnknown
                      else if has_bom then TextUTF8BOM else TextUTF8),
       te_byte_length = length data, te_sha256 = sha256_hex data, te_has_bom = has_bom,
       te_endings = profile_of data, te_empty = (data = [])\<rparr>)"

declare ending_counts.simps(2) [simp del]

lemma ending_counts_rules [simp]:
  "ending_counts (LF # cs) = (case ending_counts cs of (lf, crlf, cr) \<Rightarrow> (lf + 1, crlf, cr))"
  "ending_counts [CR] = (0, 0, 1)"
  "ending_counts (CR # LF # ds) = (case ending_counts ds of (lf, crlf, cr) \<Rightarrow> (lf, crlf + 1, cr))"
  "d \<noteq> LF \<Longrightarrow> ending_counts (CR # d # ds)
     = (case ending_counts (d # ds) of (lf, crlf, cr) \<Rightarrow> (lf, crlf, cr + 1))"
  "c \<noteq> LF \<Longrightarrow> c \<noteq> CR \<Longrightarrow> ending_counts (c # cs) = ending_counts cs"
  by (simp_all add: ending_counts.simps(2))

lemma ending_counts_induct [case_names Nil LF CR_end CRLF CR other]:
  assumes "P []" "\<And>cs. P cs \<Longrightarrow> P (LF # cs)" "P [CR]" "\<And>ds. P ds \<Longrightarrow> P (CR # LF # ds)"
    "\<And>d ds. d \<noteq> LF \<Longrightarrow> P (d # ds) \<Longrightarrow> P (CR # d # ds)"
    "\<And>c cs. c \<noteq> LF \<Longrightarrow> c \<noteq> CR \<Longrightarrow> P cs \<Longrightarrow> P (c # cs)"
  shows "P data"
proof (induction data rule: length_induct)
  case (1 xs)
  then have IH: "length ys < length xs \<Longrightarrow> P ys" for ys by blast
  show ?case
  proof (cases xs)
    case (Cons c cs)
    then show ?thesis
      using assms IH by (cases cs; cases "c = LF"; cases "c = CR"; cases "hd cs = LF") auto
  qed (simp add: assms)
qed

lemma ending_counts_LF:
  "LF \<in> set data \<Longrightarrow> (case ending_counts data of (lf, crlf, cr) \<Rightarrow> 0 < lf + crlf)"
  by (induction data rule: ending_counts_induct) (auto split: prod.splits)

lemma text_evidence_valid: "text_semantics_valid (text_evidence data)"
  using ending_counts_LF [of data] last_in_set [of data]
  by (cases "data = []"; cases "last data = LF") (auto simp: text_semantics_valid_def text_evidence_def Let_def text_encoding_valid_def
      line_ending_profile_valid_def profile_of_def endings_present_def split: prod.splits)

definition add_endings :: "line_ending_profile \<Rightarrow> nat \<times> nat \<times> nat \<Rightarrow> line_ending_profile" where
  "add_endings p = (\<lambda>(lf, crlf, cr). p\<lparr>le_lf_count := le_lf_count p + lf,
     le_crlf_count := le_crlf_count p + crlf, le_cr_count := le_cr_count p + cr\<rparr>)"

definition finish_endings :: "ending_state \<Rightarrow> line_ending_profile" where
  "finish_endings st = (if snd st then (fst st)\<lparr>le_cr_count := le_cr_count (fst st) + 1\<rparr> else fst st)"

lemma writer_endings_fold:
  "finish_endings (foldl writer_ending_step (p, b) data)
   = add_endings p (ending_counts ((if b then [CR] else []) @ data))"
proof (induction data arbitrary: p b)
  case Nil
  then show ?case by (simp add: finish_endings_def add_endings_def)
next
  case (Cons c cs)
  then show ?case
    by (cases b) (auto simp: writer_ending_step_def add_endings_def split: prod.splits)
qed

definition text_writer_inv :: "text_writer option \<Rightarrow> bool" where
  "text_writer_inv tw =
     (case tw of None \<Rightarrow> False
      | Some w \<Rightarrow> length (tw_prefix w) \<le> 3 \<and> (\<not> tw_valid w \<longrightarrow> tw_pending w = [])
          \<and> tw_total w \<le> max_uint64)"

lemma prefix_fill:
  "length p \<le> n \<Longrightarrow>
   p @ take (n - length p) a @ take (n - length (p @ take (n - length p) a)) b
   = p @ take (n - length p) (a @ b)"
  by (cases "length p + length a \<le> n") (auto simp: min_def)

lemma observe_chunk_append:
  assumes "text_writer_inv (Some w)" "b \<noteq> []"
  shows "observe_chunk step (observe_chunk step w a) b = observe_chunk step w (a @ b)"
  using assms prefix_fill [of "tw_prefix w" 3 a b] scan_utf8_append [of "tw_pending w @ a" b]
  by (auto simp: text_writer_inv_def observe_chunk_def Let_def split: option.splits)

lemma observe_chunk_inv:
  "text_writer_inv (Some w) \<Longrightarrow> tw_total w + length data \<le> max_uint64 \<Longrightarrow>
   text_writer_inv (Some (observe_chunk step w data))"
  by (auto simp: text_writer_inv_def observe_chunk_def Let_def split: option.splits)

lemma observe_chunk_total [simp]: "tw_total (observe_chunk step w data) = tw_total w + length data"
  by (simp add: observe_chunk_def Let_def split: option.splits)

interpretation text_writer: stream_observer text_writer_write text_writer_inv
proof unfold_locales
  fix s :: "text_writer option" and a b
  assume inv: "text_writer_inv s"
  then obtain w where s: "s = Some w"
    by (auto simp: text_writer_inv_def split: option.splits)
  show "text_writer_write s [] = Inr s"
    using s by (simp add: text_writer_write_def)
  show "text_writer_inv s'" if "text_writer_write s a = Inr s'" for s'
    using that s inv
    by (auto simp: text_writer_write_def observe_chunk_inv split: if_splits)
  show "text_writer_write s (a @ b)
        = bind_result (text_writer_write s a) (\<lambda>s'. text_writer_write s' b)"
    using s inv observe_chunk_append [of w b writer_ending_step a]
    by (auto simp: text_writer_write_def add.assoc)
qed

lemma new_text_writer_inv [simp]: "text_writer_inv new_text_writer"
  by (simp add: new_text_writer_def text_writer_inv_def)

lemma add_endings_empty:
  "add_endings empty_profile n = \<lparr>le_lf_count = fst n, le_crlf_count = fst (snd n),
     le_cr_count = snd (snd n), le_final_lf = False, le_mixed = False\<rparr>"
  by (simp add: add_endings_def empty_profile_def split: prod.splits)

text \<open>The state of an observer that has seen exactly the given bytes.\<close>

definition initial_observer :: text_writer where
  "initial_observer = \<lparr>tw_hashed = [], tw_total = 0, tw_previous_cr = False, tw_last_byte = NUL,
     tw_profile = empty_profile, tw_prefix = [], tw_valid = True, tw_pending = []\<rparr>"

definition observed_text :: "(ending_state \<Rightarrow> char \<Rightarrow> ending_state) \<Rightarrow> bytes \<Rightarrow> text_writer" where
  "observed_text step data =
     (let st = foldl step (empty_profile, False) data in
      \<lparr>tw_hashed = data, tw_total = length data, tw_previous_cr = snd st,
       tw_last_byte = (if data = [] then NUL else last data), tw_profile = fst st,
       tw_prefix = take 3 data, tw_valid = (scan_utf8 data \<noteq> None),
       tw_pending = (case scan_utf8 data of None \<Rightarrow> [] | Some r \<Rightarrow> r)\<rparr>)"

lemma observe_chunk_initial:
  "data \<noteq> [] \<Longrightarrow> observe_chunk step initial_observer data = observed_text step data"
  by (auto simp: observe_chunk_def initial_observer_def observed_text_def Let_def split: option.splits)

lemma observed_text_Nil: "observed_text step [] = initial_observer"
  by (simp add: observed_text_def initial_observer_def)

lemma text_writer_write_new:
  "text_writer_write new_text_writer data =
     (if length data > max_uint64 then Inl ErrInvalidTextByteSemantics
      else Inr (Some (observed_text writer_ending_step data)))"
  by (cases "data = []")
    (simp_all add: new_text_writer_def text_writer_write_def observe_chunk_initial observed_text_Nil
      initial_observer_def [symmetric], simp add: initial_observer_def)

lemma final_profile_fold:
  assumes "st = foldl writer_ending_step (empty_profile, False) data"
  shows "final_profile (fst st) (snd st) (length data) (if data = [] then NUL else last data)
    = profile_of data"
  using writer_endings_fold [of empty_profile False data]
  unfolding assms [symmetric]
  by (auto simp: final_profile_def finish_endings_def add_endings_empty profile_of_def
      endings_present_def Let_def split: prod.splits)

lemma text_writer_semantics_observed:
  "text_writer_semantics (Some (observed_text writer_ending_step data)) n =
     (if length data = n then Inr (text_evidence data) else Inl ErrTextContentClassDrift)"
proof -
  have valid: "(scan_utf8 data \<noteq> None \<and> (case scan_utf8 data of None \<Rightarrow> [] | Some r \<Rightarrow> r) = [])
     \<longleftrightarrow> utf8_valid data"
    by (auto simp: utf8_valid_scan split: option.splits)
  have bom: "length (take 3 data) \<ge> 3 \<and> take 3 data = BOM \<longleftrightarrow> take 3 data = BOM"
    by (auto dest: arg_cong [where f = length])
  show ?thesis
    using text_evidence_valid [of data]
    unfolding text_writer_semantics_def observed_text_def option.simps Let_def text_writer.simps
      valid bom final_profile_fold [OF refl] text_evidence_def
    by (cases "length data = n") auto
qed

text \<open>
  C36. However a text is cut into chunks, the streaming observer rejects it exactly when it is
  longer than a 64-bit counter, and otherwise finalizes at the exact length, and at no other, to
  the reference evidence of the whole content: encoding, byte-order mark, digest, and a CRLF
  counted once while every other carriage return or line feed is counted by itself.
\<close>

theorem text_writer_correct:
  "let data = concat chunks in
   if length data > max_uint64
   then write_all text_writer_write new_text_writer chunks = Inl ErrInvalidTextByteSemantics
   else (\<exists>w. write_all text_writer_write new_text_writer chunks = Inr w
           \<and> (\<forall>n. text_writer_semantics w n =
                (if n = length data then Inr (text_evidence data)
                 else Inl ErrTextContentClassDrift)))"
  by (auto simp: Let_def text_writer.write_all_concat text_writer_write_new
      text_writer_semantics_observed)

subsection \<open>Classifying an input stream\<close>

text \<open>
  An \<^verbatim>\<open>io.Reader\<close> is the list of the results its Read calls return, each with the
  bytes read and the error; after them it reports the end of the input.
\<close>

datatype read_error = ReadEOF | ReadFailed bytes

type_synonym reader = "(bytes \<times> read_error option) list"

datatype classify_error = ClassifyDomain repo_error | ClassifyRead read_error

definition reader_ending_step :: "ending_state \<Rightarrow> char \<Rightarrow> ending_state" where
  "reader_ending_step st v =
     (let (p, previous_cr) = st in
      if v = CR then (p, True)
      else if v = LF then
        (if previous_cr then p\<lparr>le_crlf_count := le_crlf_count p + 1\<rparr>
         else p\<lparr>le_lf_count := le_lf_count p + 1\<rparr>, False)
      else if previous_cr then (p\<lparr>le_cr_count := le_cr_count p + 1\<rparr>, False)
      else (p, False))"

fun text_read_loop :: "text_writer \<Rightarrow> reader \<Rightarrow> (classify_error, text_writer) result" where
  "text_read_loop w [] = Inr w"
| "text_read_loop w ((chunk, err) # rest) =
     (if chunk = [] then
        (case err of
           None \<Rightarrow> Inl (ClassifyDomain ErrNoProgress)
         | Some ReadEOF \<Rightarrow> Inr w
         | Some e \<Rightarrow> Inl (ClassifyRead e))
      else if tw_total w + length chunk > max_uint64
        then Inl (ClassifyDomain ErrInvalidTextByteSemantics)
      else
        (let w' = observe_chunk reader_ending_step w chunk in
         case err of
           None \<Rightarrow> text_read_loop w' rest
         | Some ReadEOF \<Rightarrow> Inr w'
         | Some e \<Rightarrow> Inl (ClassifyRead e)))"

definition text_read_finish :: "nat \<Rightarrow> text_writer \<Rightarrow> (classify_error, text_semantics) result" where
  "text_read_finish expected w =
     (let profile = final_profile (tw_profile w) (tw_previous_cr w) (tw_total w) (tw_last_byte w);
          valid = (tw_valid w \<and> tw_pending w = []) in
      if tw_total w \<noteq> expected then Inl (ClassifyDomain ErrTextContentClassDrift)
      else
        (let has_bom = (valid \<and> length (tw_prefix w) \<ge> 3 \<and> tw_prefix w = BOM);
             encoding = (if expected = 0 then TextUTF8
                         else if \<not> valid then TextEncodingUnknown
                         else if has_bom then TextUTF8BOM else TextUTF8);
             r = \<lparr>te_encoding = encoding, te_byte_length = tw_total w,
                  te_sha256 = sha256_hex (tw_hashed w), te_has_bom = has_bom,
                  te_endings = profile, te_empty = (tw_total w = 0)\<rparr>
         in if text_semantics_valid r then Inr r
            else Inl (ClassifyDomain ErrInvalidTextByteSemantics)))"

definition classify_text_reader :: "reader option \<Rightarrow> nat \<Rightarrow> (classify_error, text_semantics) result" where
  "classify_text_reader r expected =
     (case r of
        None \<Rightarrow> Inl (ClassifyDomain ErrInvalidTextByteSemantics)
      | Some steps \<Rightarrow>
          bind_result (text_read_loop initial_observer steps) (text_read_finish expected))"

definition classify_persisted_text ::
    "reader option \<Rightarrow> nat \<Rightarrow> content_class \<Rightarrow> (classify_error, text_semantics) result" where
  "classify_persisted_text r expected cls =
     (if cls \<noteq> ContentClassRegularTextUTF8 then Inl (ClassifyDomain ErrTextContentClassDrift)
      else
        bind_result (classify_text_reader r expected)
          (\<lambda>s. if te_encoding s = TextEncodingUnknown
               then Inl (ClassifyDomain ErrTextContentClassDrift) else Inr s))"

text \<open>A \<^verbatim>\<open>bytes.Reader\<close> fills the buffer of 32 KiB as long as it can.\<close>

function buffer_reads :: "bytes \<Rightarrow> bytes list" where
  "buffer_reads data = (if data = [] then [] else take 32768 data # buffer_reads (drop 32768 data))"
  by pat_completeness auto
termination by (relation "measure length") auto

declare buffer_reads.simps [simp del]

lemma buffer_reads_concat: "concat (buffer_reads data) = data \<and> [] \<notin> set (buffer_reads data)"
proof (induction data rule: buffer_reads.induct)
  case (1 data)
  then show ?case
    by (cases "data = []") (simp_all add: buffer_reads.simps [of data] buffer_reads.simps [of "[]"])
qed

definition clean_reader :: "bytes list \<Rightarrow> reader" where
  "clean_reader chunks = map (\<lambda>c. (c, None)) (filter (\<lambda>c. c \<noteq> []) chunks)"

definition classify_text_bytes :: "bytes \<Rightarrow> (classify_error, text_semantics) result" where
  "classify_text_bytes data = classify_text_reader (Some (clean_reader (buffer_reads data))) (length data)"

text \<open>The number of carriage returns directly followed by another one.\<close>

fun cr_pairs :: "bytes \<Rightarrow> nat" where
  "cr_pairs (c # d # cs) = (if c = CR \<and> d = CR then 1 else 0) + cr_pairs (d # cs)"
| "cr_pairs _ = 0"

definition endings_behind :: "nat \<Rightarrow> ending_state \<Rightarrow> ending_state \<Rightarrow> bool" where
  "endings_behind k r w \<longleftrightarrow>
     snd r = snd w \<and> le_lf_count (fst r) = le_lf_count (fst w)
     \<and> le_crlf_count (fst r) = le_crlf_count (fst w)
     \<and> le_cr_count (fst r) + k = le_cr_count (fst w)"

lemma reader_endings_behind:
  "endings_behind k r w \<Longrightarrow>
   endings_behind (k + cr_pairs ((if snd w then [CR] else []) @ data))
     (foldl reader_ending_step r data) (foldl writer_ending_step w data)"
proof (induction data arbitrary: k r w)
  case Nil
  then show ?case by simp
next
  case (Cons c cs)
  let ?m = "if snd w \<and> c = CR then 1 else 0"
  have step: "endings_behind (k + ?m) (reader_ending_step r c) (writer_ending_step w c)"
    using Cons.prems by (auto simp: endings_behind_def reader_ending_step_def writer_ending_step_def
        split: prod.splits)
  have "cr_pairs ((if snd w then [CR] else []) @ c # cs)
      = ?m + cr_pairs ((if snd (writer_ending_step w c) then [CR] else []) @ cs)"
    by (cases cs) (auto simp: writer_ending_step_def split: prod.splits)
  with Cons.IH [OF step] show ?case
    by (simp add: add.assoc)
qed

lemma text_read_loop_clean:
  "text_writer_inv (Some w) \<Longrightarrow>
   text_read_loop w (clean_reader chunks) =
     (if tw_total w + length (concat chunks) > max_uint64
      then Inl (ClassifyDomain ErrInvalidTextByteSemantics)
      else Inr (if concat chunks = [] then w
                else observe_chunk reader_ending_step w (concat chunks)))"
proof (induction chunks arbitrary: w)
  case Nil
  then show ?case by (simp add: clean_reader_def text_writer_inv_def)
next
  case (Cons c cs)
  have unfold: "clean_reader (c # cs) = (if c = [] then [] else [(c, None)]) @ clean_reader cs"
    by (simp add: clean_reader_def)
  show ?case
  proof (cases "c = [] \<or> tw_total w + length c > max_uint64")
    case True
    then show ?thesis
      using Cons by (auto simp: unfold)
  next
    case False
    then have inv: "text_writer_inv (Some (observe_chunk reader_ending_step w c))"
      using Cons.prems by (simp add: observe_chunk_inv)
    show ?thesis
      using False Cons.IH [OF inv] observe_chunk_append [OF Cons.prems, of "concat cs"]
      by (cases "concat cs = []") (auto simp: unfold add.assoc simp del: concat_eq_Nil_conv)
  qed
qed

lemma initial_observer_inv: "text_writer_inv (Some initial_observer)"
  by (simp add: text_writer_inv_def initial_observer_def)

lemma initial_observer_total [simp]: "tw_total initial_observer = 0"
  by (simp add: initial_observer_def)

lemma text_read_loop_initial:
  "text_read_loop initial_observer (clean_reader chunks) =
     (if length (concat chunks) > max_uint64 then Inl (ClassifyDomain ErrInvalidTextByteSemantics)
      else Inr (observed_text reader_ending_step (concat chunks)))"
  by (cases "concat chunks = []")
    (auto simp: text_read_loop_clean initial_observer_inv observe_chunk_initial observed_text_Nil
      simp del: concat_eq_Nil_conv)

text \<open>The profile the reader computes: the reference with each \<open>CR CR\<close> counted once less.\<close>

definition reader_profile :: "bytes \<Rightarrow> line_ending_profile" where
  "reader_profile data =
     (let st = foldl reader_ending_step (empty_profile, False) data in
      final_profile (fst st) (snd st) (length data) (if data = [] then NUL else last data))"

lemma reader_profile_counts:
  "le_lf_count (reader_profile data) = le_lf_count (profile_of data)"
  "le_crlf_count (reader_profile data) = le_crlf_count (profile_of data)"
  "le_cr_count (reader_profile data) + cr_pairs data = le_cr_count (profile_of data)"
  "le_final_lf (reader_profile data) = le_final_lf (profile_of data)"
  using reader_endings_behind [of 0 "(empty_profile, False)" "(empty_profile, False)" data]
  by (auto simp: endings_behind_def reader_profile_def final_profile_fold [OF refl, symmetric]
      final_profile_def Let_def)

lemma reader_profile_valid: "line_ending_profile_valid (reader_profile data)"
proof -
  have "line_ending_profile_valid (profile_of data)"
    using text_evidence_valid [of data] by (simp add: text_semantics_valid_def text_evidence_def Let_def)
  moreover have "le_mixed (reader_profile data) \<longleftrightarrow> 1 < endings_present (reader_profile data)"
    by (simp add: reader_profile_def final_profile_def Let_def endings_present_def)
  ultimately show ?thesis
    by (simp add: line_ending_profile_valid_def reader_profile_counts)
qed

lemma text_read_finish_observed:
  "text_read_finish n (observed_text reader_ending_step data) =
     (if length data = n then Inr (text_evidence data\<lparr>te_endings := reader_profile data\<rparr>)
      else Inl (ClassifyDomain ErrTextContentClassDrift))"
proof -
  have valid: "(scan_utf8 data \<noteq> None \<and> (case scan_utf8 data of None \<Rightarrow> [] | Some r \<Rightarrow> r) = [])
     \<longleftrightarrow> utf8_valid data"
    by (auto simp: utf8_valid_scan split: option.splits)
  have bom: "length (take 3 data) \<ge> 3 \<and> take 3 data = BOM \<longleftrightarrow> take 3 data = BOM"
    by (auto dest: arg_cong [where f = length])
  have "text_semantics_valid (text_evidence data\<lparr>te_endings := reader_profile data\<rparr>)"
    using text_evidence_valid [of data] reader_profile_valid [of data]
    by (simp add: text_semantics_valid_def)
  moreover have "data = [] \<Longrightarrow> take 3 data \<noteq> BOM \<and> utf8_valid data"
    by (auto simp: BOM_def)
  ultimately show ?thesis
    unfolding text_read_finish_def observed_text_def Let_def text_writer.simps valid bom
      reader_profile_def [unfolded Let_def, symmetric] text_evidence_def
    by (cases "length data = n"; cases "data = []") auto
qed

text \<open>
  On an input without read errors the outcome of the reader-based classifier does not depend
  on how the input arrives, and it agrees with the writer-based one in every field except the
  line-ending profile, where it misses each carriage return that is directly followed by another:
  the two counts differ by exactly the number of such pairs.
\<close>

theorem text_reader_vs_writer:
  "let data = concat chunks in
   if length data > max_uint64
   then classify_text_reader (Some (clean_reader chunks)) n
          = Inl (ClassifyDomain ErrInvalidTextByteSemantics)
   else if n \<noteq> length data
   then classify_text_reader (Some (clean_reader chunks)) n
          = Inl (ClassifyDomain ErrTextContentClassDrift)
   else (\<exists>p. classify_text_reader (Some (clean_reader chunks)) n
               = Inr (text_evidence data\<lparr>te_endings := p\<rparr>)
           \<and> le_lf_count p = le_lf_count (profile_of data)
           \<and> le_crlf_count p = le_crlf_count (profile_of data)
           \<and> le_final_lf p = le_final_lf (profile_of data)
           \<and> le_cr_count p + cr_pairs data = le_cr_count (profile_of data))"
  by (auto simp: Let_def classify_text_reader_def text_read_loop_initial text_read_finish_observed
      reader_profile_counts)

lemma classify_text_bytes_eq:
  "classify_text_bytes data =
     (if length data > max_uint64 then Inl (ClassifyDomain ErrInvalidTextByteSemantics)
      else Inr (text_evidence data\<lparr>te_endings := reader_profile data\<rparr>))"
  by (simp add: classify_text_bytes_def classify_text_reader_def text_read_loop_initial
      text_read_finish_observed buffer_reads_concat)

end
