(* ===== verification/Text_Lines.thy ===== *)
theory Text_Lines
  imports Text_Semantics
begin

text \<open>
  Line projections of an exact text: \<^verbatim>\<open>ProjectTextLines\<close> and \<^verbatim>\<open>ScanTextLines\<close> of
  \<^verbatim>\<open>internal/domain/repository/text.go\<close>, and the validator of \<^verbatim>\<open>content.go\<close>, which
  ties content classes, exact text evidence and file modes together.
\<close>

subsection \<open>Projected lines\<close>

record text_line =
  tl_raw_start :: nat
  tl_raw_end :: nat
  tl_terminator :: line_terminator
  tl_display :: bytes

definition text_line_valid :: "text_line \<Rightarrow> bool" where
  "text_line_valid p \<longleftrightarrow>
     tl_raw_start p \<le> tl_raw_end p \<and> line_terminator_valid (tl_terminator p)
     \<and> utf8_valid (tl_display p)"

definition is_line_byte :: "char \<Rightarrow> bool" where
  "is_line_byte c \<longleftrightarrow> c \<noteq> LF \<and> c \<noteq> CR"

text \<open>The terminator found at the end of the content, and its length.\<close>

definition terminator_at :: "bytes \<Rightarrow> line_terminator \<times> nat" where
  "terminator_at rest =
     (case rest of
        [] \<Rightarrow> (TerminatorNone, 0)
      | d # ds \<Rightarrow>
          if d = CR \<and> ds \<noteq> [] \<and> hd ds = LF then (TerminatorCRLF, 2)
          else if d = CR then (TerminatorCR, 1)
          else (TerminatorLF, 1))"

lemma terminator_at_progress:
  "rest \<noteq> [] \<Longrightarrow>
   0 < length (takeWhile is_line_byte rest)
       + snd (terminator_at (drop (length (takeWhile is_line_byte rest)) rest))"
  by (cases rest) (auto simp: terminator_at_def is_line_byte_def split: if_splits list.splits)

text \<open>\<open>rest\<close> is the part of the data from the index \<open>start\<close> on.\<close>

function project_from :: "nat \<Rightarrow> bytes \<Rightarrow> text_line list" where
  "project_from start rest =
     (if rest = [] then []
      else
        (let content = takeWhile is_line_byte rest;
             t = terminator_at (drop (length content) rest);
             n = length content + snd t
         in \<lparr>tl_raw_start = start, tl_raw_end = start + n, tl_terminator = fst t,
              tl_display = content\<rparr> # project_from (start + n) (drop n rest)))"
  by pat_completeness auto

termination
  by (relation "measure (\<lambda>(_, rest). length rest)")
    (auto dest: terminator_at_progress intro!: diff_less)

declare project_from.simps [simp del]

definition project_text_lines :: "bytes \<Rightarrow> (repo_error, text_line list) result" where
  "project_text_lines data =
     (if \<not> utf8_valid data then Inl ErrTextContentClassDrift
      else
        (let lines = project_from 0 data in
         Inr (if data = []
              then lines @ [\<lparr>tl_raw_start = 0, tl_raw_end = 0, tl_terminator = TerminatorNone,
                             tl_display = []\<rparr>]
              else lines)))"

text \<open>What a line stands for in the source bytes.\<close>

fun terminator_bytes :: "line_terminator \<Rightarrow> bytes" where
  "terminator_bytes TerminatorLF = [LF]"
| "terminator_bytes TerminatorCRLF = [CR, LF]"
| "terminator_bytes TerminatorCR = [CR]"
| "terminator_bytes _ = []"

definition line_bytes :: "text_line \<Rightarrow> bytes" where
  "line_bytes l = tl_display l @ terminator_bytes (tl_terminator l)"

fun lines_tile :: "nat \<Rightarrow> text_line list \<Rightarrow> nat \<Rightarrow> bool" where
  "lines_tile s [] e = (s = e)"
| "lines_tile s (l # ls) e =
     (tl_raw_start l = s \<and> tl_raw_end l = s + length (line_bytes l) \<and> lines_tile (tl_raw_end l) ls e)"

definition terminator_count :: "line_terminator \<Rightarrow> text_line list \<Rightarrow> nat" where
  "terminator_count t ls = length (filter (\<lambda>l. tl_terminator l = t) ls)"

lemma terminator_count_simps [simp]:
  "terminator_count t [] = 0"
  "terminator_count t (l # ls) = (if tl_terminator l = t then 1 else 0) + terminator_count t ls"
  by (simp_all add: terminator_count_def)

text \<open>The four ways a remainder can start, with the line each contributes.\<close>

lemma text_cases [case_names Nil LF CRLF CR none]:
  fixes rest :: bytes
  obtains "rest = []"
  | c ds where "list_all is_line_byte c" "rest = c @ LF # ds"
  | c ds where "list_all is_line_byte c" "rest = c @ CR # LF # ds"
  | c ds where "list_all is_line_byte c" "rest = c @ CR # ds" "ds = [] \<or> hd ds \<noteq> LF"
  | "rest \<noteq> []" "list_all is_line_byte rest"
proof -
  let ?c = "takeWhile is_line_byte rest"
  let ?d = "dropWhile is_line_byte rest"
  have c: "list_all is_line_byte ?c" by (auto simp: list_all_iff dest: set_takeWhileD)
  have split: "rest = ?c @ ?d" by simp
  show thesis
  proof (cases ?d)
    case Nil
    then show thesis
      using that(1) that(5) c split by (metis append_Nil2)
  next
    case (Cons x xs)
    then have "\<not> is_line_byte x"
      by (metis hd_dropWhile list.sel(1) list.simps(3))
    then consider "x = LF" | "x = CR" by (auto simp: is_line_byte_def)
    then show thesis
    proof cases
      case 1
      with that(2) c split Cons show thesis by metis
    next
      case 2
      with that(3,4) c split Cons show thesis by (metis list.exhaust list.sel(1))
    qed
  qed
qed

lemma takeWhile_line:
  "list_all is_line_byte c \<Longrightarrow> \<not> is_line_byte x \<Longrightarrow> takeWhile is_line_byte (c @ x # ds) = c"
  by (induction c) auto

lemma takeWhile_line_all: "list_all is_line_byte c \<Longrightarrow> takeWhile is_line_byte c = c"
  by (induction c) auto

lemma not_line_byte [simp]: "\<not> is_line_byte LF" "\<not> is_line_byte CR"
  by (simp_all add: is_line_byte_def)

lemma project_from_rules:
  "project_from s [] = []"
  "list_all is_line_byte c \<Longrightarrow> project_from s (c @ LF # ds) =
     \<lparr>tl_raw_start = s, tl_raw_end = s + length c + 1, tl_terminator = TerminatorLF, tl_display = c\<rparr>
     # project_from (s + length c + 1) ds"
  "list_all is_line_byte c \<Longrightarrow> project_from s (c @ CR # LF # ds) =
     \<lparr>tl_raw_start = s, tl_raw_end = s + length c + 2, tl_terminator = TerminatorCRLF, tl_display = c\<rparr>
     # project_from (s + length c + 2) ds"
  "list_all is_line_byte c \<Longrightarrow> ds = [] \<or> hd ds \<noteq> LF \<Longrightarrow> project_from s (c @ CR # ds) =
     \<lparr>tl_raw_start = s, tl_raw_end = s + length c + 1, tl_terminator = TerminatorCR, tl_display = c\<rparr>
     # project_from (s + length c + 1) ds"
  "list_all is_line_byte c \<Longrightarrow> c \<noteq> [] \<Longrightarrow> project_from s c =
     [\<lparr>tl_raw_start = s, tl_raw_end = s + length c, tl_terminator = TerminatorNone, tl_display = c\<rparr>]"
  by (auto simp: project_from.simps [of s] project_from.simps [of _ "[]"] takeWhile_line
      takeWhile_line_all terminator_at_def)

lemma text_induct [case_names Nil LF CRLF CR none]:
  assumes "P []"
    and "\<And>c ds. list_all is_line_byte c \<Longrightarrow> P ds \<Longrightarrow> P (c @ LF # ds)"
    and "\<And>c ds. list_all is_line_byte c \<Longrightarrow> P ds \<Longrightarrow> P (c @ CR # LF # ds)"
    and "\<And>c ds. list_all is_line_byte c \<Longrightarrow> ds = [] \<or> hd ds \<noteq> LF \<Longrightarrow> P ds \<Longrightarrow> P (c @ CR # ds)"
    and "\<And>c. c \<noteq> [] \<Longrightarrow> list_all is_line_byte c \<Longrightarrow> P c"
  shows "P (data :: bytes)"
proof (induction data rule: length_induct)
  case (1 xs)
  then have IH: "length ys < length xs \<Longrightarrow> P ys" for ys by blast
  show ?case
  proof (cases xs rule: text_cases)
    case (LF c ds)
    then show ?thesis using assms(2) [of c ds] IH [of ds] by simp
  next
    case (CRLF c ds)
    then show ?thesis using assms(3) [of c ds] IH [of ds] by simp
  next
    case (CR c ds)
    then show ?thesis using assms(4) [of c ds] IH [of ds] by simp
  qed (use assms in simp_all)
qed

lemma ending_counts_content:
  "list_all is_line_byte c \<Longrightarrow> ending_counts (c @ ds) = ending_counts ds"
  by (induction c) (auto simp: is_line_byte_def)

lemma ending_counts_CR:
  "ds = [] \<or> hd ds \<noteq> LF \<Longrightarrow> ending_counts (CR # ds) =
     (case ending_counts ds of (lf, crlf, cr) \<Rightarrow> (lf, crlf, cr + 1))"
  by (cases ds) auto

lemma project_from_tile: "lines_tile s (project_from s data) e \<longleftrightarrow> e = s + length data"
  by (induction data arbitrary: s rule: text_induct)
    (simp_all add: project_from_rules line_bytes_def add.assoc eq_commute [of _ e])

lemma project_from_bytes: "concat (map line_bytes (project_from s data)) = data"
  by (induction data arbitrary: s rule: text_induct)
    (simp_all add: project_from_rules line_bytes_def)

lemma project_from_counts:
  "terminator_count TerminatorLF (project_from s data) = fst (ending_counts data)
   \<and> terminator_count TerminatorCRLF (project_from s data) = fst (snd (ending_counts data))
   \<and> terminator_count TerminatorCR (project_from s data) = snd (snd (ending_counts data))"
  by (induction data arbitrary: s rule: text_induct)
    (simp_all add: project_from_rules ending_counts_content ending_counts_CR
      ending_counts_content [of _ "[]", simplified] case_prod_beta)

lemma project_from_content: "list_all (\<lambda>l. list_all is_line_byte (tl_display l)) (project_from s data)"
  by (induction data arbitrary: s rule: text_induct) (simp_all add: project_from_rules)

lemma project_from_terminated:
  "list_all (\<lambda>l. tl_terminator l \<noteq> TerminatorNone) (butlast (project_from s data))"
  by (induction data arbitrary: s rule: text_induct) (simp_all add: project_from_rules)

lemma utf8_valid_newline [simp]:
  "utf8_valid (c @ LF # ds) \<longleftrightarrow> utf8_valid c \<and> utf8_valid ds"
  "utf8_valid (c @ CR # ds) \<longleftrightarrow> utf8_valid c \<and> utf8_valid ds"
  by (simp_all add: utf8_valid_split)

lemma project_from_valid: "utf8_valid data \<Longrightarrow> list_all text_line_valid (project_from s data)"
proof (induction data arbitrary: s rule: text_induct)
  case (CRLF c ds)
  then show ?case
    using utf8_valid_newline(1) [of "[]" ds]
    by (simp add: project_from_rules text_line_valid_def line_terminator_valid_def)
qed (simp_all add: project_from_rules text_line_valid_def line_terminator_valid_def)

text \<open>
  C34. Projecting a text into lines is lossless: it is refused exactly when the text is not valid
  UTF-8; otherwise every line passes \<^verbatim>\<open>Validate\<close>, the raw ranges follow each other from 0
  to the length of the text, the lines with their terminators concatenate to the text, only the
  last line can be unterminated, no displayed content contains a line break, and the numbers of
  lines per terminator are the counts of the text's line-ending evidence.
\<close>

theorem project_text_lines_correct:
  "case project_text_lines data of
     Inl e \<Rightarrow> e = ErrTextContentClassDrift \<and> \<not> utf8_valid data
   | Inr lines \<Rightarrow>
       utf8_valid data \<and> list_all text_line_valid lines
       \<and> lines_tile 0 lines (length data)
       \<and> concat (map line_bytes lines) = data
       \<and> list_all (\<lambda>l. tl_terminator l \<noteq> TerminatorNone) (butlast lines)
       \<and> list_all (\<lambda>l. list_all is_line_byte (tl_display l)) lines
       \<and> le_lf_count (te_endings (text_evidence data)) = terminator_count TerminatorLF lines
       \<and> le_crlf_count (te_endings (text_evidence data)) = terminator_count TerminatorCRLF lines
       \<and> le_cr_count (te_endings (text_evidence data)) = terminator_count TerminatorCR lines"
proof (cases "data = []")
  case True
  then show ?thesis
    by (simp add: project_text_lines_def project_from_rules text_line_valid_def line_bytes_def
        line_terminator_valid_def text_evidence_def profile_of_def Let_def)
next
  case False
  then show ?thesis
    using project_from_tile [of 0 data "length data"] project_from_counts [of 0 data]
    by (simp add: project_text_lines_def Let_def project_from_valid project_from_bytes
        project_from_content project_from_terminated text_evidence_def profile_of_def
        case_prod_beta)
qed

subsection \<open>The callback scanner\<close>

text \<open>
  \<open>bufio_lines\<close> is \<^verbatim>\<open>bufio.Scanner\<close> with \<^verbatim>\<open>ScanLines\<close> and a buffer of 64 KiB, on a
  reader that delivers the data and then the end of input: a token is a line without its line feed
  and without one trailing carriage return, and a line that fills the buffer stops the scan.
\<close>

definition scan_line_limit :: nat where "scan_line_limit = 65536"

definition drop_cr :: "bytes \<Rightarrow> bytes" where
  "drop_cr s = (if s \<noteq> [] \<and> last s = CR then butlast s else s)"

function bufio_lines :: "bytes \<Rightarrow> bytes list \<times> bool" where
  "bufio_lines data =
     (if data = [] then ([], False)
      else
        (let seg = takeWhile (\<lambda>c. c \<noteq> LF) data in
         if length seg \<ge> scan_line_limit then ([], True)
         else
           (let (tokens, long) = bufio_lines (drop (length seg + 1) data) in
            (drop_cr seg # tokens, long))))"
  by pat_completeness auto
termination by (relation "measure length") auto

declare bufio_lines.simps [simp del]

definition scanned_line :: "bytes \<Rightarrow> text_line" where
  "scanned_line value =
     (if value \<noteq> [] \<and> last value = CR
      then \<lparr>tl_raw_start = 0, tl_raw_end = 0, tl_terminator = TerminatorCRLF, tl_display = butlast value\<rparr>
      else \<lparr>tl_raw_start = 0, tl_raw_end = 0, tl_terminator = TerminatorLF, tl_display = value\<rparr>)"

datatype 'e scan_error = ScanInvalidProjection | ScanCallback 'e | ScanTokenTooLong

text \<open>The lines handed to the callback, in order, and the error it stopped at.\<close>

fun deliver :: "(text_line \<Rightarrow> 'e option) \<Rightarrow> bytes list \<Rightarrow> text_line list \<times> 'e option" where
  "deliver callback [] = ([], None)"
| "deliver callback (v # vs) =
     (case callback (scanned_line v) of
        Some e \<Rightarrow> ([scanned_line v], Some e)
      | None \<Rightarrow> (let (seen, err) = deliver callback vs in (scanned_line v # seen, err)))"

definition scan_text_lines ::
    "bytes option \<Rightarrow> (text_line \<Rightarrow> 'e option) option \<Rightarrow> text_line list \<times> 'e scan_error option" where
  "scan_text_lines reader callback =
     (case (reader, callback) of
        (Some data, Some cb) \<Rightarrow>
          (let (tokens, long) = bufio_lines data; (seen, err) = deliver cb tokens in
           (seen, case err of
                    Some e \<Rightarrow> Some (ScanCallback e)
                  | None \<Rightarrow> if long then Some ScanTokenTooLong else None))
      | _ \<Rightarrow> ([], Some ScanInvalidProjection))"

lemma bufio_lines_line:
  assumes "LF \<notin> set s" "length s < scan_line_limit"
  shows "bufio_lines (s @ LF # ds)
    = (drop_cr s # fst (bufio_lines ds), snd (bufio_lines ds))"
proof -
  have "takeWhile (\<lambda>c. c \<noteq> LF) (s @ LF # ds) = s"
    using assms(1) by (induction s) auto
  then show ?thesis
    using assms(2) by (simp add: bufio_lines.simps [of "s @ LF # ds"] Let_def case_prod_beta)
qed

lemma deliver_all: "(\<And>l. callback l = None) \<Longrightarrow> deliver callback vs = (map scanned_line vs, None)"
  by (induction vs) simp_all

lemma bufio_crlf_lines:
  "list_all (\<lambda>l. list_all is_line_byte l \<and> length l < scan_line_limit - 1) ls \<Longrightarrow>
   bufio_lines (concat (map (\<lambda>l. l @ [CR, LF]) ls)) = (ls, False)"
proof (induction ls)
  case Nil
  then show ?case by (simp add: bufio_lines.simps)
next
  case (Cons l ls)
  have "LF \<notin> set (l @ [CR])"
    using Cons.prems by (auto simp: list_all_iff is_line_byte_def)
  moreover have "length (l @ [CR]) < scan_line_limit"
    using Cons.prems by (simp add: scan_line_limit_def)
  ultimately show ?case
    using bufio_lines_line [of "l @ [CR]" "concat (map (\<lambda>l. l @ [CR, LF]) ls)"] Cons
    by (simp add: drop_cr_def)
qed

lemma scanned_plain_lines:
  "list_all (\<lambda>l. list_all is_line_byte l \<and> length l < n) ls \<Longrightarrow>
   map scanned_line ls =
     map (\<lambda>l. \<lparr>tl_raw_start = 0, tl_raw_end = 0, tl_terminator = TerminatorLF, tl_display = l\<rparr>) ls"
  by (auto simp: scanned_line_def list_all_iff is_line_byte_def dest: last_in_set)

lemma project_crlf_lines:
  "list_all (\<lambda>l. list_all is_line_byte l \<and> length l < n) ls \<Longrightarrow>
   map tl_display (project_from s (concat (map (\<lambda>l. l @ [CR, LF]) ls))) = ls
   \<and> list_all (\<lambda>l. tl_terminator l = TerminatorCRLF)
       (project_from s (concat (map (\<lambda>l. l @ [CR, LF]) ls)))"
  by (induction ls arbitrary: s) (simp_all add: project_from_rules)

text \<open>
  The callback scanner never reports the terminator of a text whose lines all end in CRLF: each
  line is delivered with the terminator LF and without its carriage return, since the underlying
  line splitter has already removed it. \<^verbatim>\<open>ProjectTextLines\<close> reports CRLF for the same lines.
\<close>

theorem scan_text_lines_loses_crlf:
  assumes "list_all (\<lambda>l. list_all is_line_byte l \<and> length l < scan_line_limit - 1) ls"
  shows "scan_text_lines (Some (concat (map (\<lambda>l. l @ [CR, LF]) ls))) (Some (\<lambda>_. None :: bytes option))
      = (map (\<lambda>l. \<lparr>tl_raw_start = 0, tl_raw_end = 0, tl_terminator = TerminatorLF, tl_display = l\<rparr>) ls,
         None)
    \<and> map tl_display (project_from 0 (concat (map (\<lambda>l. l @ [CR, LF]) ls))) = ls
    \<and> list_all (\<lambda>l. tl_terminator l = TerminatorCRLF)
        (project_from 0 (concat (map (\<lambda>l. l @ [CR, LF]) ls)))"
  using scanned_plain_lines [OF assms] project_crlf_lines [OF assms, of 0]
  by (simp add: scan_text_lines_def bufio_crlf_lines [OF assms] deliver_all)

lemma scan_text_lines_loses_crlf_witness:
  "let ls = [''ab'', [], ''c''] in
   scan_text_lines (Some (concat (map (\<lambda>l. l @ [CR, LF]) ls))) (Some (\<lambda>_. None :: bytes option))
      = (map (\<lambda>l. \<lparr>tl_raw_start = 0, tl_raw_end = 0, tl_terminator = TerminatorLF, tl_display = l\<rparr>) ls,
         None)
    \<and> map tl_display (project_from 0 (concat (map (\<lambda>l. l @ [CR, LF]) ls))) = ls
    \<and> list_all (\<lambda>l. tl_terminator l = TerminatorCRLF)
        (project_from 0 (concat (map (\<lambda>l. l @ [CR, LF]) ls)))"
proof -
  have "is_line_byte (CHR ''a'') \<and> is_line_byte (CHR ''b'') \<and> is_line_byte (CHR ''c'')"
    by (simp add: is_line_byte_def ctl_iff)
  then show ?thesis
    unfolding Let_def by (intro scan_text_lines_loses_crlf) (simp add: scan_line_limit_def)
qed

subsection \<open>File contents\<close>

definition valid_content_hash :: "bytes \<Rightarrow> bool" where
  "valid_content_hash v \<longleftrightarrow> required_text v"

record file_content =
  fc_snapshot :: snapshot_ref
  fc_path :: repo_path
  fc_kind :: file_kind
  fc_mode :: nat
  fc_bytes :: bytes
  fc_byte_length :: nat
  fc_content_hash :: bytes
  fc_content_class :: content_class
  fc_text_semantics :: "text_semantics option"
  fc_metadata_only :: bool
  fc_binary :: bool
  fc_truncated :: bool
  fc_limit_reason :: bytes

definition file_content_valid :: "file_content \<Rightarrow> bool" where
  "file_content_valid c \<longleftrightarrow>
     snapshot_ref_valid (fc_snapshot c) \<and> valid_repo_path (fc_path c) \<and> file_kind_valid (fc_kind c)
     \<and> fc_kind c \<noteq> FileKindDirectory \<and> git_mode_ok (fc_mode c)
     \<and> git_mode_class_file_kind (classify_git_mode (fc_mode c)) = fc_kind c
     \<and> valid_content_hash (fc_content_hash c)
     \<and> \<not> (fc_metadata_only c \<and> fc_content_class c = NoContentClass)
     \<and> (if fc_content_class c \<noteq> NoContentClass then
          content_class_valid (fc_content_class c)
          \<and> is_byte_oriented (fc_content_class c) = fc_binary c
          \<and> \<not> (fc_metadata_only c \<and> \<not> is_byte_oriented (fc_content_class c))
          \<and> \<not> fc_byte_length c < length (fc_bytes c)
        else \<not> (fc_byte_length c \<noteq> 0 \<and> fc_byte_length c < length (fc_bytes c)))
     \<and> (case fc_text_semantics c of
          None \<Rightarrow> True
        | Some s \<Rightarrow>
            fc_content_class c = ContentClassRegularTextUTF8 \<and> text_semantics_valid s
            \<and> te_byte_length s = fc_byte_length c \<and> te_sha256 s = fc_content_hash c
            \<and> \<not> fc_binary c \<and> \<not> fc_metadata_only c)
     \<and> \<not> (fc_content_class c = ContentClassRegularTextUTF8 \<and> \<not> fc_truncated c
           \<and> fc_text_semantics c \<noteq> None \<and> fc_byte_length c \<noteq> length (fc_bytes c))
     \<and> \<not> (\<not> fc_metadata_only c \<and> \<not> fc_truncated c \<and> fc_byte_length c \<noteq> 0
           \<and> fc_byte_length c \<noteq> length (fc_bytes c))
     \<and> (if fc_truncated c then valid_text (fc_limit_reason c) else fc_limit_reason c = [])"

text \<open>
  The classifiers produce values the validator of file contents accepts: a text read in full, with
  the evidence of its own bytes, is valid.
\<close>

lemma text_content_valid:
  assumes "snapshot_ref_valid s" "valid_repo_path p" "classify_content data False = ContentClassRegularTextUTF8"
  shows "file_content_valid \<lparr>fc_snapshot = s, fc_path = p, fc_kind = FileKindRegular, fc_mode = 33188,
    fc_bytes = data, fc_byte_length = length data, fc_content_hash = sha256_hex data,
    fc_content_class = classify_content data False, fc_text_semantics = Some (text_evidence data),
    fc_metadata_only = False, fc_binary = False, fc_truncated = False, fc_limit_reason = []\<rparr>"
  using assms text_evidence_valid [of data]
  by (simp add: file_content_valid_def file_kind_valid_def git_mode_ok_iff classify_git_mode_def
      git_mode_class_file_kind_def valid_content_hash_def content_class_valid_def is_byte_oriented_def
      text_evidence_def Let_def sha256_hex_valid_text sha256_hex_not_Nil)

end
