(* ===== verification/Links.thy ===== *)
theory Links
  imports Text_Lines
begin

text \<open>
  Native identities of repository paths: \<^verbatim>\<open>symlink.go\<close>, \<^verbatim>\<open>native_path.go\<close> and
  \<^verbatim>\<open>precondition.go\<close> of \<^verbatim>\<open>internal/domain/repository\<close>. The main result says what
  the lexical classification of a link target as contained guarantees.
\<close>

subsection \<open>Case-insensitive comparison\<close>

text \<open>
  \<^verbatim>\<open>EqualFold\<close> against an ASCII constant without the letters k and s, and on hexadecimal
  digests: the only folds are those of the ASCII letters.
\<close>

definition ascii_lower :: "char \<Rightarrow> char" where
  "ascii_lower c = (if 65 \<le> byte c \<and> byte c \<le> 90 then mk_byte (byte c + 32) else c)"

definition equal_fold :: "bytes \<Rightarrow> bytes \<Rightarrow> bool" where
  "equal_fold a b \<longleftrightarrow> map ascii_lower a = map ascii_lower b"

definition is_git_name :: "bytes \<Rightarrow> bool" where
  "is_git_name c \<longleftrightarrow> equal_fold c ''.git''"

subsection \<open>Symbolic link targets\<close>

definition SymlinkPrimitiveVersion :: bytes where "SymlinkPrimitiveVersion = ''v1''"
definition SymlinkInlinePreviewMax :: nat where "SymlinkInlinePreviewMax = 4 * 1024"
definition SymlinkMaxComponents :: int where "SymlinkMaxComponents = 256"
definition SymlinkMaxDepth :: int where "SymlinkMaxDepth = 128"

datatype symlink_class =
    SymlinkRelativeContained | SymlinkAbsolute | SymlinkLexicallyEscaping | SymlinkGitAdminAlias
  | SymlinkUnrepresentable | SymlinkContainmentUnknown | SymlinkClassOther bytes

definition symlink_class_valid :: "symlink_class \<Rightarrow> bool" where
  "symlink_class_valid c = (case c of SymlinkClassOther _ \<Rightarrow> False | _ \<Rightarrow> True)"

record symlink_target_ref =
  st_target_hash :: bytes
  st_length :: nat
  st_inline_preview :: bytes

definition new_symlink_target_ref :: "bytes \<Rightarrow> symlink_target_ref" where
  "new_symlink_target_ref target =
     \<lparr>st_target_hash = sha256_hex target, st_length = length target,
      st_inline_preview =
        (if length target > SymlinkInlinePreviewMax then take SymlinkInlinePreviewMax target
         else target)\<rparr>"

definition symlink_target_ref_valid :: "symlink_target_ref \<Rightarrow> bool" where
  "symlink_target_ref_valid r \<longleftrightarrow>
     valid_content_hash (st_target_hash r) \<and> \<not> length (st_inline_preview r) > st_length r
     \<and> \<not> length (st_inline_preview r) > SymlinkInlinePreviewMax"

lemma new_symlink_target_ref_valid: "symlink_target_ref_valid (new_symlink_target_ref target)"
  by (simp add: symlink_target_ref_valid_def new_symlink_target_ref_def valid_content_hash_def
      sha256_hex_valid_text sha256_hex_not_Nil)

text \<open>
  The loop over the components of the target; \<open>stack\<close> holds the directories below the root, the
  innermost last.
\<close>

fun reduce_target :: "int \<Rightarrow> bytes list \<Rightarrow> bytes list \<Rightarrow> symlink_class" where
  "reduce_target max_depth stack [] = SymlinkRelativeContained"
| "reduce_target max_depth stack (c # cs) =
     (if c = [] then SymlinkUnrepresentable
      else if is_git_name c then SymlinkGitAdminAlias
      else if c = ''.'' then reduce_target max_depth stack cs
      else if c = ''..'' \<and> stack = [] then SymlinkLexicallyEscaping
      else
        (let stack' = (if c = ''..'' then butlast stack else stack @ [c]) in
         if int (length stack') > max_depth then SymlinkUnrepresentable
         else reduce_target max_depth stack' cs))"

definition classify_symlink_target :: "repo_path \<Rightarrow> bytes \<Rightarrow> int \<Rightarrow> int \<Rightarrow> symlink_class" where
  "classify_symlink_target link_path target max_components max_depth =
     (if \<not> valid_repo_path link_path then SymlinkContainmentUnknown
      else
        (let max_components = (if max_components \<le> 0 then SymlinkMaxComponents else max_components);
             max_depth = (if max_depth \<le> 0 then SymlinkMaxDepth else max_depth) in
         if target = [] \<or> NUL \<in> set target then SymlinkUnrepresentable
         else if hd target = CHR ''/'' \<or> hd target = CHR 0x5C
              \<or> length target > 1 \<and> target ! 1 = CHR '':'' then SymlinkAbsolute
         else if CHR 0x5C \<in> set target then SymlinkUnrepresentable
         else
           (let parent = split_on (CHR ''/'') link_path in
            if parent = [] then SymlinkContainmentUnknown
            else
              (let stack = butlast parent in
               if list_ex is_git_name stack then SymlinkGitAdminAlias
               else
                 (let parts = split_on (CHR ''/'') target in
                  if int (length parts) > max_components then SymlinkUnrepresentable
                  else reduce_target max_depth stack parts)))))"

text \<open>
  The contract: the depth below the root after each component of the target, and the directory the
  target denotes when it is resolved from the parent of the link.
\<close>

definition depth_change :: "bytes \<Rightarrow> int" where
  "depth_change c = (if c = ''.'' then 0 else if c = ''..'' then - 1 else 1)"

fun depths :: "int \<Rightarrow> bytes list \<Rightarrow> int list" where
  "depths d [] = []"
| "depths d (c # cs) = (d + depth_change c) # depths (d + depth_change c) cs"

fun resolve_path :: "bytes list \<Rightarrow> bytes list \<Rightarrow> bytes list option" where
  "resolve_path dir [] = Some dir"
| "resolve_path dir (c # cs) =
     (if c = ''.'' then resolve_path dir cs
      else if c = ''..'' then (if dir = [] then None else resolve_path (butlast dir) cs)
      else resolve_path (dir @ [c]) cs)"

definition walk_ok :: "int \<Rightarrow> int \<Rightarrow> bytes list \<Rightarrow> bool" where
  "walk_ok max_depth d cs \<longleftrightarrow>
     list_all (\<lambda>(c, k). c \<noteq> [] \<and> \<not> is_git_name c \<and> 0 \<le> k \<and> (c = ''.'' \<or> k \<le> max_depth))
       (zip cs (depths d cs))"

lemma walk_ok_simps [simp]:
  "walk_ok m d []"
  "walk_ok m d (c # cs) \<longleftrightarrow>
     c \<noteq> [] \<and> \<not> is_git_name c \<and> 0 \<le> d + depth_change c
     \<and> (c = ''.'' \<or> d + depth_change c \<le> m) \<and> walk_ok m (d + depth_change c) cs"
  by (simp_all add: walk_ok_def)

lemma dots_distinct: "''.'' \<noteq> (''..'' :: bytes)"
  by simp

lemma reduce_target_iff:
  "reduce_target m stack cs = SymlinkRelativeContained \<longleftrightarrow> walk_ok m (int (length stack)) cs"
proof (induction cs arbitrary: stack)
  case (Cons c cs)
  show ?case
  proof (cases "c = ''..'' \<and> stack \<noteq> []")
    case True
    then have "int (length (butlast stack)) = int (length stack) - 1"
      by (cases stack) auto
    with True show ?thesis
      by (simp add: Cons.IH depth_change_def Let_def)
  next
    case False
    then show ?thesis
      by (auto simp: Cons.IH depth_change_def Let_def add.commute)
  qed
qed simp

lemma resolve_path_contained:
  "walk_ok m (int (length dir)) cs \<Longrightarrow> list_all (\<lambda>c. \<not> is_git_name c) dir \<Longrightarrow>
   \<exists>path. resolve_path dir cs = Some path \<and> list_all (\<lambda>c. \<not> is_git_name c) path
     \<and> int (length path) \<le> max m (int (length dir))"
proof (induction cs arbitrary: dir)
  case Nil
  then show ?case by simp
next
  case (Cons c cs)
  consider "c = ''.''" | "c = ''..''" | "c \<noteq> ''.''" "c \<noteq> ''..''" by blast
  then show ?case
  proof cases
    case 1
    with Cons show ?thesis by (simp add: depth_change_def)
  next
    case 2
    with Cons.prems have dir: "dir \<noteq> []" "int (length (butlast dir)) = int (length dir) - 1"
      by (cases dir; simp add: depth_change_def)+
    then have "list_all (\<lambda>c. \<not> is_git_name c) (butlast dir)"
      using Cons.prems(2) by (auto simp: list_all_iff dest: in_set_butlastD)
    with 2 dir Cons.prems(1) Cons.IH [of "butlast dir"] show ?thesis
      by (auto simp: depth_change_def)
  next
    case 3
    with Cons.prems Cons.IH [of "dir @ [c]"] show ?thesis
      by (auto simp: depth_change_def add.commute)
  qed
qed

definition effective_limit :: "int \<Rightarrow> int \<Rightarrow> int" where
  "effective_limit v default_limit = (if v \<le> 0 then default_limit else v)"

lemma classify_symlink_target_contained:
  "classify_symlink_target link target max_components max_depth = SymlinkRelativeContained \<longleftrightarrow>
     (let dir = butlast (split_on (CHR ''/'') link); parts = split_on (CHR ''/'') target in
      valid_repo_path link
      \<and> target \<noteq> [] \<and> NUL \<notin> set target \<and> CHR 0x5C \<notin> set target \<and> hd target \<noteq> CHR ''/''
      \<and> \<not> (length target > 1 \<and> target ! 1 = CHR '':'')
      \<and> list_all (\<lambda>c. \<not> is_git_name c) dir
      \<and> int (length parts) \<le> effective_limit max_components SymlinkMaxComponents
      \<and> walk_ok (effective_limit max_depth SymlinkMaxDepth) (int (length dir)) parts)"
  by (cases target)
    (auto simp: classify_symlink_target_def Let_def reduce_target_iff effective_limit_def
      list_ex_iff list_all_iff)

text \<open>
  A link target is classified as contained exactly when it is a non-empty relative path without
  NUL, backslash or drive prefix, within the component limit, no component is empty or names
  \<^verbatim>\<open>.git\<close> in any letter case (nor does a directory above the link), and at no point of the walk
  does the depth leave the range from 0, the root, to the depth limit.
\<close>

theorem symlink_contained_iff:
  "classify_symlink_target link target max_components max_depth = SymlinkRelativeContained \<longleftrightarrow>
     (let dir = butlast (split_on (CHR ''/'') link); parts = split_on (CHR ''/'') target in
      valid_repo_path link
      \<and> target \<noteq> [] \<and> NUL \<notin> set target \<and> CHR 0x5C \<notin> set target \<and> hd target \<noteq> CHR ''/''
      \<and> \<not> (length target > 1 \<and> target ! 1 = CHR '':'')
      \<and> list_all (\<lambda>c. \<not> is_git_name c) dir
      \<and> int (length parts) \<le> effective_limit max_components SymlinkMaxComponents
      \<and> walk_ok (effective_limit max_depth SymlinkMaxDepth) (int (length dir)) parts)"
  by (rule classify_symlink_target_contained)

text \<open>
  A contained target, resolved component by component from the directory of the link, never
  steps above the root: resolution succeeds, no component of the result names \<^verbatim>\<open>.git\<close>, and
  the result is no deeper than the limit or the link's own directory.
\<close>

theorem symlink_contained_resolves:
  assumes "classify_symlink_target link target max_components max_depth = SymlinkRelativeContained"
  shows "\<exists>path. resolve_path (butlast (split_on (CHR ''/'') link)) (split_on (CHR ''/'') target) = Some path
    \<and> list_all (\<lambda>c. \<not> is_git_name c) path
    \<and> int (length path) \<le> max (effective_limit max_depth SymlinkMaxDepth)
         (int (length (butlast (split_on (CHR ''/'') link))))"
  using assms
  by (intro resolve_path_contained) (simp_all add: classify_symlink_target_contained Let_def)

lemma symlink_contained_resolves_witness:
  "classify_symlink_target ''a/b/link'' ''../c/./d'' 0 0 = SymlinkRelativeContained
   \<and> (\<exists>path. resolve_path (butlast (split_on (CHR ''/'') ''a/b/link'')) (split_on (CHR ''/'') ''../c/./d'')
          = Some path \<and> list_all (\<lambda>c. \<not> is_git_name c) path
        \<and> int (length path) \<le> max (effective_limit 0 SymlinkMaxDepth)
             (int (length (butlast (split_on (CHR ''/'') ''a/b/link'')))))"
proof -
  have "classify_symlink_target ''a/b/link'' ''../c/./d'' 0 0 = SymlinkRelativeContained"
    by code_simp
  with symlink_contained_resolves [OF this] show ?thesis by blast
qed

subsection \<open>Symbolic link evidence\<close>

datatype link_error = ErrInvalidSymlink | ErrInvalidNativePathEvidence | ErrInvalidPathPrecondition

record symlink_evidence =
  se_path_key :: repo_path_key
  se_target_hash :: bytes
  se_target_length :: nat
  se_target_class :: symlink_class
  se_root_identity :: bytes
  se_parent_chain_hash :: bytes
  se_platform :: bytes
  se_primitive_version :: bytes
  se_reason_code :: bytes

definition symlink_reason :: "symlink_class \<Rightarrow> bytes" where
  "symlink_reason c =
     (case c of
        SymlinkAbsolute \<Rightarrow> ''symlink_absolute''
      | SymlinkLexicallyEscaping \<Rightarrow> ''symlink_lexically_escaping''
      | SymlinkGitAdminAlias \<Rightarrow> ''symlink_git_admin_alias''
      | SymlinkUnrepresentable \<Rightarrow> ''symlink_unrepresentable''
      | SymlinkContainmentUnknown \<Rightarrow> ''symlink_containment_unknown''
      | _ \<Rightarrow> [])"

definition valid_symlink_reason :: "bytes \<Rightarrow> bool" where
  "valid_symlink_reason v \<longleftrightarrow>
     v \<in> {''symlink_absolute'', ''symlink_lexically_escaping'', ''symlink_git_admin_alias'',
          ''symlink_unrepresentable'', ''symlink_containment_unknown'',
          ''symlink_platform_unavailable'', ''symlink_reparse_unsupported'', ''symlink_stale''}"

definition symlink_evidence_valid :: "symlink_evidence \<Rightarrow> bool" where
  "symlink_evidence_valid e \<longleftrightarrow>
     is_ok (key_path (se_path_key e)) \<and> valid_content_hash (se_target_hash e)
     \<and> symlink_class_valid (se_target_class e) \<and> valid_text (se_root_identity e)
     \<and> valid_text (se_parent_chain_hash e) \<and> valid_text (se_platform e)
     \<and> valid_text (se_primitive_version e)
     \<and> (if se_target_class e = SymlinkRelativeContained then se_reason_code e = []
        else valid_symlink_reason (se_reason_code e))"

definition symlink_evidence_actionable :: "symlink_evidence \<Rightarrow> bool" where
  "symlink_evidence_actionable e \<longleftrightarrow>
     symlink_evidence_valid e \<and> se_target_class e = SymlinkRelativeContained
     \<and> se_primitive_version e = SymlinkPrimitiveVersion \<and> se_reason_code e = []"

definition new_symlink_evidence ::
    "repo_path \<Rightarrow> bytes \<Rightarrow> bytes \<Rightarrow> bytes \<Rightarrow> bytes \<Rightarrow> bytes \<Rightarrow> (link_error, symlink_evidence) result" where
  "new_symlink_evidence path target root_identity parent_chain_hash platform primitive_version =
     (if \<not> valid_repo_path path \<or> \<not> valid_text root_identity \<or> \<not> valid_text parent_chain_hash
         \<or> \<not> valid_text platform \<or> \<not> valid_text primitive_version
      then Inl ErrInvalidSymlink
      else
        (let r = new_symlink_target_ref target;
             cls = classify_symlink_target path target SymlinkMaxComponents SymlinkMaxDepth;
             e = \<lparr>se_path_key = path_key path, se_target_hash = st_target_hash r,
                  se_target_length = st_length r, se_target_class = cls,
                  se_root_identity = root_identity, se_parent_chain_hash = parent_chain_hash,
                  se_platform = platform, se_primitive_version = primitive_version,
                  se_reason_code = symlink_reason cls\<rparr>
         in if symlink_evidence_valid e then Inr e else Inl ErrInvalidSymlink))"

lemma reduce_target_class_valid: "symlink_class_valid (reduce_target m stack cs)"
  by (induction cs arbitrary: stack) (simp_all add: symlink_class_valid_def Let_def)

lemma classify_symlink_target_valid: "symlink_class_valid (classify_symlink_target p t a b)"
  using reduce_target_class_valid
  by (auto simp: classify_symlink_target_def Let_def symlink_class_valid_def [of SymlinkAbsolute]
      symlink_class_valid_def [of SymlinkUnrepresentable]
      symlink_class_valid_def [of SymlinkGitAdminAlias]
      symlink_class_valid_def [of SymlinkContainmentUnknown])

lemma symlink_reason_valid:
  "symlink_class_valid c \<Longrightarrow>
   if c = SymlinkRelativeContained then symlink_reason c = [] else valid_symlink_reason (symlink_reason c)"
  by (cases c) (simp_all add: symlink_class_valid_def symlink_reason_def valid_symlink_reason_def)

text \<open>The final validation of the constructor cannot fail.\<close>

lemma new_symlink_evidence_ok:
  "is_ok (new_symlink_evidence p t root chain platform version) \<longleftrightarrow>
     valid_repo_path p \<and> valid_text root \<and> valid_text chain \<and> valid_text platform \<and> valid_text version"
  using symlink_reason_valid
    [OF classify_symlink_target_valid [of p t SymlinkMaxComponents SymlinkMaxDepth]]
  by (auto simp: new_symlink_evidence_def Let_def symlink_evidence_valid_def key_path_path_key
      new_symlink_target_ref_def valid_content_hash_def sha256_hex_valid_text sha256_hex_not_Nil
      classify_symlink_target_valid)

lemma new_symlink_evidence_actionable:
  "new_symlink_evidence p t root chain platform version = Inr e \<Longrightarrow>
   symlink_evidence_actionable e \<longleftrightarrow>
     classify_symlink_target p t SymlinkMaxComponents SymlinkMaxDepth = SymlinkRelativeContained
     \<and> version = SymlinkPrimitiveVersion"
  by (auto simp: new_symlink_evidence_def Let_def symlink_evidence_actionable_def symlink_reason_def
      split: if_splits)

subsection \<open>Native path evidence\<close>

definition NativePathEvidenceVersion :: bytes where "NativePathEvidenceVersion = ''v1''"

datatype native_path_purpose =
    NativeReadExisting | NativeCreateParent | NativeReplaceLeaf | NativeDeleteLeaf
  | NativePurposeOther bytes

definition native_path_purpose_valid :: "native_path_purpose \<Rightarrow> bool" where
  "native_path_purpose_valid p = (case p of NativePurposeOther _ \<Rightarrow> False | _ \<Rightarrow> True)"

datatype native_path_disposition = NativePathSafe | NativePathReviewOnly | NativeDispositionOther bytes

fun native_path_disposition_string :: "native_path_disposition \<Rightarrow> bytes" where
  "native_path_disposition_string NativePathSafe = ''safe''"
| "native_path_disposition_string NativePathReviewOnly = ''review_only''"
| "native_path_disposition_string (NativeDispositionOther s) = s"

text \<open>A reason is stored as a string; the validator lists the known ones.\<close>

definition native_path_reason_valid :: "bytes \<Rightarrow> bool" where
  "native_path_reason_valid r \<longleftrightarrow>
     r \<in> {''path_unrepresentable'', ''git_admin_alias'', ''path_collision'',
          ''path_containment_unproven'', ''path_traversal'', ''invalid_separator'',
          ''reserved_name'', ''native_alias'', ''normalization_unproven'', ''native_evidence_stale''}"

record native_path_evidence =
  np_repo_path_key :: repo_path_key
  np_root_identity :: bytes
  np_platform :: bytes
  np_filesystem_class :: bytes
  np_comparison_key_hash :: bytes
  np_parent_chain_hash :: bytes
  np_disposition :: native_path_disposition
  np_reason_code :: bytes
  np_evidence_version :: bytes

definition native_path_evidence_valid :: "native_path_evidence \<Rightarrow> bool" where
  "native_path_evidence_valid e \<longleftrightarrow>
     is_ok (key_path (np_repo_path_key e)) \<and> required_text (np_root_identity e)
     \<and> required_text (np_platform e) \<and> required_text (np_filesystem_class e)
     \<and> required_text (np_comparison_key_hash e) \<and> required_text (np_parent_chain_hash e)
     \<and> np_evidence_version e = NativePathEvidenceVersion
     \<and> (case np_disposition e of
          NativePathSafe \<Rightarrow> np_reason_code e = []
        | NativePathReviewOnly \<Rightarrow> np_reason_code e \<noteq> [] \<and> native_path_reason_valid (np_reason_code e)
        | NativeDispositionOther _ \<Rightarrow> False)"

definition native_path_reason_code :: "native_path_evidence \<Rightarrow> bytes option" where
  "native_path_reason_code e =
     (if \<not> native_path_evidence_valid e \<or> np_reason_code e = [] then None
      else Some (np_reason_code e))"

definition native_path_actionable :: "native_path_evidence \<Rightarrow> bool" where
  "native_path_actionable e \<longleftrightarrow> native_path_evidence_valid e \<and> np_disposition e = NativePathSafe"

definition native_path_evidence_hash :: "native_path_evidence \<Rightarrow> bytes" where
  "native_path_evidence_hash e =
     (if \<not> native_path_evidence_valid e then []
      else sha256_hex (join_with [NUL]
        [np_repo_path_key e, np_root_identity e, np_platform e, np_filesystem_class e,
         np_comparison_key_hash e, np_parent_chain_hash e,
         native_path_disposition_string (np_disposition e), np_reason_code e,
         np_evidence_version e]))"

text \<open>A valid evidence is either actionable or carries a stable reason, never both.\<close>

lemma native_path_evidence_decides:
  "native_path_evidence_valid e \<Longrightarrow>
   native_path_actionable e \<longleftrightarrow> native_path_reason_code e = None"
  by (auto simp: native_path_evidence_valid_def native_path_actionable_def
      native_path_reason_code_def split: native_path_disposition.splits)

subsection \<open>Path preconditions\<close>

record native_alias_evidence =
  na_platform :: bytes
  na_volume_identity_hash :: bytes
  na_file_identity_hash :: bytes
  na_link_count :: nat

definition native_alias_evidence_valid :: "native_alias_evidence \<Rightarrow> bool" where
  "native_alias_evidence_valid e \<longleftrightarrow>
     valid_text (na_platform e) \<and> valid_content_hash (na_volume_identity_hash e)
     \<and> valid_content_hash (na_file_identity_hash e) \<and> na_link_count e \<noteq> 0"

record path_precondition =
  pp_path :: repo_path
  pp_must_exist :: bool
  pp_kind :: file_kind
  pp_mode :: nat
  pp_content_bytes :: nat
  pp_content_hash :: bytes
  pp_content_class :: content_class
  pp_text_semantics :: "text_semantics option"
  pp_symlink_target_hash :: bytes
  pp_symlink_evidence :: "symlink_evidence option"
  pp_native_alias :: "native_alias_evidence option"
  pp_native_path :: "native_path_evidence option"

definition path_precondition_absent :: "path_precondition \<Rightarrow> bool" where
  "path_precondition_absent p \<longleftrightarrow>
     (pp_kind p = FileKindOther [] \<or> pp_kind p = FileKindUnknown) \<and> pp_mode p = 0
     \<and> pp_content_bytes p = 0 \<and> pp_content_hash p = [] \<and> pp_content_class p = NoContentClass
     \<and> pp_text_semantics p = None \<and> pp_symlink_target_hash p = []
     \<and> pp_symlink_evidence p = None \<and> pp_native_alias p = None \<and> pp_native_path p = None"

definition path_precondition_valid :: "path_precondition \<Rightarrow> bool" where
  "path_precondition_valid p \<longleftrightarrow>
     valid_repo_path (pp_path p)
     \<and> (if \<not> pp_must_exist p then path_precondition_absent p
        else
          file_kind_valid (pp_kind p) \<and> pp_kind p \<noteq> FileKindUnknown
          \<and> git_mode_ok (pp_mode p)
          \<and> git_mode_class_file_kind (classify_git_mode (pp_mode p)) = pp_kind p
          \<and> (pp_content_hash p = [] \<or> valid_content_hash (pp_content_hash p))
          \<and> (pp_content_class p = NoContentClass \<or> content_class_valid (pp_content_class p))
          \<and> (pp_symlink_target_hash p = [] \<or> valid_content_hash (pp_symlink_target_hash p))
          \<and> (if pp_kind p = FileKindSymlink then
               pp_symlink_target_hash p \<noteq> []
               \<and> opt_all (\<lambda>e. symlink_evidence_valid e \<and> se_path_key e = path_key (pp_path p)
                            \<and> se_target_hash e = pp_symlink_target_hash p) (pp_symlink_evidence p)
             else pp_symlink_target_hash p = [] \<and> pp_symlink_evidence p = None)
          \<and> \<not> (pp_kind p = FileKindRegular \<and> pp_content_hash p = [])
          \<and> \<not> (pp_kind p \<noteq> FileKindRegular
                \<and> (pp_content_bytes p \<noteq> 0 \<or> pp_content_class p \<noteq> NoContentClass
                   \<or> pp_text_semantics p \<noteq> None))
          \<and> opt_all (\<lambda>s. pp_kind p = FileKindRegular
                       \<and> pp_content_class p = ContentClassRegularTextUTF8
                       \<and> text_semantics_valid s \<and> te_byte_length s = pp_content_bytes p
                       \<and> te_sha256 s = pp_content_hash p) (pp_text_semantics p)
          \<and> opt_all (\<lambda>a. pp_kind p = FileKindRegular \<and> native_alias_evidence_valid a)
              (pp_native_alias p)
          \<and> opt_all (\<lambda>n. native_path_evidence_valid n \<and> np_repo_path_key n = path_key (pp_path p))
              (pp_native_path p))"

text \<open>
  What a valid precondition pins down: an existing destination has a mode of its own kind and
  exactly one identity, the content hash of a regular file or the target hash of a link.
\<close>

lemma path_precondition_identity:
  assumes "path_precondition_valid p"
  shows "pp_must_exist p \<longleftrightarrow> git_mode_ok (pp_mode p)"
    and "pp_kind p = FileKindRegular \<Longrightarrow> pp_content_hash p \<noteq> [] \<and> pp_symlink_target_hash p = []"
    and "pp_kind p = FileKindSymlink \<Longrightarrow> pp_symlink_target_hash p \<noteq> [] \<and> pp_text_semantics p = None"
  using assms
  by (auto simp: path_precondition_valid_def path_precondition_absent_def git_mode_ok_iff
      split: if_splits)

end
