(* ===== verification/Changes.thy ===== *)
theory Changes
  imports Links
begin

text \<open>
  Changed files: \<^verbatim>\<open>special.go\<close>, \<^verbatim>\<open>rename.go\<close>, \<^verbatim>\<open>change.go\<close>, the entries of
  \<^verbatim>\<open>tree.go\<close> and the line, hunk and file validators of \<^verbatim>\<open>diff.go\<close>, all of
  \<^verbatim>\<open>internal/domain/repository\<close>.
\<close>

subsection \<open>Special files\<close>

datatype special_kind =
    SpecialSocket | SpecialFIFO | SpecialCharDevice | SpecialBlockDevice | SpecialJunction
  | SpecialUnknown | SpecialOther bytes

fun special_kind_string :: "special_kind \<Rightarrow> bytes" where
  "special_kind_string SpecialSocket = ''socket''"
| "special_kind_string SpecialFIFO = ''fifo''"
| "special_kind_string SpecialCharDevice = ''char_device''"
| "special_kind_string SpecialBlockDevice = ''block_device''"
| "special_kind_string SpecialJunction = ''junction_or_reparse''"
| "special_kind_string SpecialUnknown = ''unknown''"
| "special_kind_string (SpecialOther s) = s"

definition special_kind_valid :: "special_kind \<Rightarrow> bool" where
  "special_kind_valid k = (case k of SpecialOther _ \<Rightarrow> False | _ \<Rightarrow> True)"

datatype metadata_level = ReviewMetadataComplete | ReviewMetadataPathOnly | MetadataLevelOther bytes

definition ReviewOnlyEvidenceVersion :: bytes where "ReviewOnlyEvidenceVersion = ''v1''"

definition ReasonSpecialMetadataUnavailable :: bytes where
  "ReasonSpecialMetadataUnavailable = ''special_metadata_unavailable''"

record review_only_evidence =
  ro_special_kind :: special_kind
  ro_metadata_level :: metadata_level
  ro_metadata_hash :: bytes
  ro_reason_code :: bytes
  ro_evidence_version :: bytes

definition valid_special_reason :: "bytes \<Rightarrow> bool" where
  "valid_special_reason v \<longleftrightarrow>
     v \<in> {''special_socket'', ''special_fifo'', ''special_char_device'', ''special_block_device'',
          ''special_junction_or_reparse'', ''special_unknown'', ReasonSpecialMetadataUnavailable}"

definition special_reason :: "special_kind \<Rightarrow> bytes" where
  "special_reason k =
     (case k of
        SpecialSocket \<Rightarrow> ''special_socket''
      | SpecialFIFO \<Rightarrow> ''special_fifo''
      | SpecialCharDevice \<Rightarrow> ''special_char_device''
      | SpecialBlockDevice \<Rightarrow> ''special_block_device''
      | SpecialJunction \<Rightarrow> ''special_junction_or_reparse''
      | _ \<Rightarrow> ''special_unknown'')"

definition review_only_valid :: "review_only_evidence \<Rightarrow> bool" where
  "review_only_valid e \<longleftrightarrow>
     special_kind_valid (ro_special_kind e) \<and> ro_evidence_version e = ReviewOnlyEvidenceVersion
     \<and> valid_text (ro_evidence_version e) \<and> ro_reason_code e \<noteq> []
     \<and> valid_special_reason (ro_reason_code e)
     \<and> (case ro_metadata_level e of
          ReviewMetadataComplete \<Rightarrow>
            valid_content_hash (ro_metadata_hash e)
            \<and> ro_reason_code e \<noteq> ReasonSpecialMetadataUnavailable
        | ReviewMetadataPathOnly \<Rightarrow>
            (ro_metadata_hash e = [] \<or> valid_content_hash (ro_metadata_hash e))
            \<and> ro_reason_code e = ReasonSpecialMetadataUnavailable
        | MetadataLevelOther _ \<Rightarrow> False)"

text \<open>
  The mode bits of \<^verbatim>\<open>io/fs\<close>: irregular is bit 19, character device 21, socket 24, named pipe 25
  and device 26.
\<close>

definition special_kind_from_mode :: "32 word \<Rightarrow> special_kind \<times> bool" where
  "special_kind_from_mode mode =
     (if bit mode 24 then (SpecialSocket, True)
      else if bit mode 25 then (SpecialFIFO, True)
      else if bit mode 26 \<and> bit mode 21 then (SpecialCharDevice, True)
      else if bit mode 26 then (SpecialBlockDevice, True)
      else if bit mode 19 then (SpecialUnknown, True)
      else (SpecialOther [], False))"

definition sharp_octal :: "nat \<Rightarrow> bytes" where
  "sharp_octal n = (let d = digits 8 n in if hd d = CHR ''0'' then d else CHR ''0'' # d)"

definition unix_nano :: "instant \<Rightarrow> int" where
  "unix_nano t = t - 62135596800 * 10 ^ 9"

definition new_complete_review_only :: "special_kind \<Rightarrow> 32 word \<Rightarrow> int \<Rightarrow> instant \<Rightarrow> review_only_evidence" where
  "new_complete_review_only kind mode sz modified =
     \<lparr>ro_special_kind = kind, ro_metadata_level = ReviewMetadataComplete,
      ro_metadata_hash = sha256_hex (special_kind_string kind @ ''|'' @ sharp_octal (unat mode)
        @ ''|'' @ itoa sz @ ''|'' @ itoa (unix_nano modified)),
      ro_reason_code = special_reason kind, ro_evidence_version = ReviewOnlyEvidenceVersion\<rparr>"

definition new_path_only_review_only :: review_only_evidence where
  "new_path_only_review_only =
     \<lparr>ro_special_kind = SpecialUnknown, ro_metadata_level = ReviewMetadataPathOnly,
      ro_metadata_hash = [], ro_reason_code = ReasonSpecialMetadataUnavailable,
      ro_evidence_version = ReviewOnlyEvidenceVersion\<rparr>"

lemma v1_text [simp]: "valid_text ''v1''"
  by code_simp

lemma sha256_content_hash [simp]: "valid_content_hash (sha256_hex data)"
  by (simp add: valid_content_hash_def sha256_hex_valid_text sha256_hex_not_Nil)

lemma new_review_only_valid:
  "special_kind_valid k \<Longrightarrow> review_only_valid (new_complete_review_only k m s t)"
  "review_only_valid new_path_only_review_only"
  by (cases k)
    (simp_all add: review_only_valid_def new_complete_review_only_def new_path_only_review_only_def
      special_kind_valid_def ReviewOnlyEvidenceVersion_def special_reason_def valid_special_reason_def
      ReasonSpecialMetadataUnavailable_def)

text \<open>An entry is special exactly when one of the mode bits is set, and its kind is then known.\<close>

lemma special_kind_from_mode_known:
  "snd (special_kind_from_mode m) \<longleftrightarrow> special_kind_valid (fst (special_kind_from_mode m))"
  by (simp add: special_kind_from_mode_def special_kind_valid_def)

subsection \<open>Rename evidence\<close>

datatype change_kind =
    ChangeAdded | ChangeModified | ChangeDeleted | ChangeRenamed | ChangeCopied
  | ChangeTypeChanged | ChangeUntracked | ChangeOther bytes

definition change_kind_valid :: "change_kind \<Rightarrow> bool" where
  "change_kind_valid k = (case k of ChangeOther _ \<Rightarrow> False | _ \<Rightarrow> True)"

fun change_kind_string :: "change_kind \<Rightarrow> bytes" where
  "change_kind_string ChangeAdded = ''added''"
| "change_kind_string ChangeModified = ''modified''"
| "change_kind_string ChangeDeleted = ''deleted''"
| "change_kind_string ChangeRenamed = ''renamed''"
| "change_kind_string ChangeCopied = ''copied''"
| "change_kind_string ChangeTypeChanged = ''type_changed''"
| "change_kind_string ChangeUntracked = ''untracked''"
| "change_kind_string (ChangeOther s) = s"

record rename_evidence =
  re_policy_version :: nat
  re_similarity_percent :: nat
  re_kind :: change_kind
  re_evidence_hash :: bytes

definition rename_part :: "bytes \<Rightarrow> bytes" where
  "rename_part v = format_uint (length v) @ [NUL] @ v @ [NUL]"

text \<open>The bytes written to the hash.\<close>

definition rename_preimage :: "rename_evidence \<Rightarrow> repo_path \<Rightarrow> repo_path \<Rightarrow> bytes" where
  "rename_preimage e old_path new_path =
     rename_part (format_uint (re_policy_version e))
     @ rename_part (format_uint (re_similarity_percent e))
     @ rename_part (change_kind_string (re_kind e))
     @ rename_part old_path @ rename_part new_path"

definition rename_evidence_hash :: "rename_evidence \<Rightarrow> repo_path \<Rightarrow> repo_path \<Rightarrow> bytes" where
  "rename_evidence_hash e old_path new_path = sha256_hex (rename_preimage e old_path new_path)"

definition rename_evidence_valid :: "rename_evidence \<Rightarrow> bool" where
  "rename_evidence_valid e \<longleftrightarrow>
     re_policy_version e \<noteq> 0 \<and> 60 \<le> re_similarity_percent e \<and> re_similarity_percent e \<le> 100
     \<and> (re_kind e = ChangeRenamed \<or> re_kind e = ChangeCopied)
     \<and> valid_content_hash (re_evidence_hash e)"

definition rename_matches_paths :: "rename_evidence \<Rightarrow> repo_path \<Rightarrow> repo_path \<Rightarrow> bool" where
  "rename_matches_paths e old_path new_path \<longleftrightarrow>
     rename_evidence_valid e \<and> valid_repo_path old_path \<and> valid_repo_path new_path
     \<and> old_path \<noteq> new_path \<and> re_evidence_hash e = rename_evidence_hash e old_path new_path"

definition new_rename_evidence ::
    "nat \<Rightarrow> nat \<Rightarrow> change_kind \<Rightarrow> repo_path \<Rightarrow> repo_path \<Rightarrow> (repo_error, rename_evidence) result" where
  "new_rename_evidence policy_version percent kind old_path new_path =
     (let r = \<lparr>re_policy_version = policy_version, re_similarity_percent = percent, re_kind = kind,
               re_evidence_hash = []\<rparr> in
      if \<not> valid_repo_path old_path \<or> \<not> valid_repo_path new_path \<or> old_path = new_path
         \<or> policy_version = 0 \<or> percent < 60 \<or> percent > 100
         \<or> kind \<noteq> ChangeRenamed \<and> kind \<noteq> ChangeCopied
      then Inl ErrInvalidRenameEvidence
      else
        (let r = r\<lparr>re_evidence_hash := rename_evidence_hash r old_path new_path\<rparr> in
         if \<not> rename_evidence_valid r then Inl ErrInvalidRenameEvidence else Inr r))"

definition bool_string :: "bool \<Rightarrow> bytes" where
  "bool_string b = (if b then ''true'' else ''false'')"

definition rename_policy_evidence_hash ::
    "nat \<Rightarrow> nat \<Rightarrow> int \<Rightarrow> int \<Rightarrow> bool \<Rightarrow> bool \<Rightarrow> bytes \<Rightarrow> int \<Rightarrow> int \<Rightarrow> bytes list \<Rightarrow> bytes" where
  "rename_policy_evidence_hash version percent max_delete max_add detect_copies find_harder outcome
     delete_candidates add_candidates flags =
     sha256_hex (concat (map rename_part
       ([format_uint version, format_uint percent, itoa max_delete, itoa max_add,
         bool_string detect_copies, bool_string find_harder, outcome, itoa delete_candidates,
         itoa add_candidates] @ flags)))"

text \<open>The constructed evidence always matches the paths it was made for.\<close>

lemma new_rename_evidence_matches:
  assumes "new_rename_evidence v s k p q = Inr e"
  shows "rename_matches_paths e p q" and "re_kind e = k"
  using assms
  by (auto simp: new_rename_evidence_def rename_matches_paths_def rename_evidence_valid_def
      rename_evidence_hash_def rename_preimage_def Let_def split: if_splits)

lemma format_uint_NUL: "NUL \<notin> set (format_uint n)"
proof
  assume "NUL \<in> set (format_uint n)"
  then have "NUL \<in> set (digits 10 n)" by (simp add: format_uint_def)
  from digits_digit [OF _ _ this] show False by simp
qed

lemma format_uint_inj: "format_uint m = format_uint n \<longleftrightarrow> m = n"
proof
  assume eq: "format_uint m = format_uint n"
  have "digits_value 10 0 (format_uint k) = Some k" for k
    unfolding format_uint_def by (rule digits_value_digits) simp_all
  with eq show "m = n" by (metis option.inject)
qed simp

lemma takeWhile_NUL: "NUL \<notin> set a \<Longrightarrow> takeWhile (\<lambda>c. c \<noteq> NUL) (a @ NUL # b) = a"
  by (induction a) auto

lemma rename_part_inj: "rename_part v @ r = rename_part w @ s \<longleftrightarrow> v = w \<and> r = s"
proof
  assume eq: "rename_part v @ r = rename_part w @ s"
  have "takeWhile (\<lambda>c. c \<noteq> NUL) (rename_part x @ y) = format_uint (length x)" for x y
    using takeWhile_NUL [OF format_uint_NUL] by (simp add: rename_part_def)
  then have "format_uint (length v) = format_uint (length w)"
    using eq by metis
  then have "length v = length w"
    by (simp add: format_uint_inj)
  with eq show "v = w \<and> r = s"
    by (simp add: rename_part_def)
qed simp

text \<open>
  The bytes hashed into rename evidence are an unambiguous encoding: two pieces of evidence feed
  the same bytes to the hash only if they agree on the policy version, the similarity score, the
  kind and both raw paths, whatever bytes the paths contain.
\<close>

theorem rename_preimage_injective:
  "rename_preimage e p q = rename_preimage e' p' q' \<longleftrightarrow>
     re_policy_version e = re_policy_version e'
     \<and> re_similarity_percent e = re_similarity_percent e'
     \<and> change_kind_string (re_kind e) = change_kind_string (re_kind e') \<and> p = p' \<and> q = q'"
  using rename_part_inj [of q "[]" q' "[]"]
  by (simp add: rename_preimage_def rename_part_inj format_uint_inj)
subsection \<open>Changed files\<close>

text \<open>
  \<^verbatim>\<open>strings.Trim(id, "0")\<close> is empty exactly when the identity consists of zeros.
\<close>

definition present_object_id :: "object_id \<Rightarrow> bool" where
  "present_object_id v \<longleftrightarrow>
     v \<noteq> [] \<and> \<not> list_all (\<lambda>c. c = CHR ''0'') v \<and> is_ok (new_object_id v)"

record index_stage =
  is_mode :: nat
  is_object_id :: object_id

definition index_stage_valid :: "index_stage \<Rightarrow> bool" where
  "index_stage_valid s \<longleftrightarrow> git_mode_ok (is_mode s) \<and> present_object_id (is_object_id s)"

record index_conflict =
  ic_code :: bytes
  ic_stage1 :: "index_stage option"
  ic_stage2 :: "index_stage option"
  ic_stage3 :: "index_stage option"

definition index_conflict_valid :: "index_conflict \<Rightarrow> bool" where
  "index_conflict_valid e \<longleftrightarrow>
     ic_code e = ''u'' \<and> ic_stage1 e \<noteq> None \<and> \<not> (ic_stage2 e = None \<and> ic_stage3 e = None)
     \<and> opt_all index_stage_valid (ic_stage1 e) \<and> opt_all index_stage_valid (ic_stage2 e)
     \<and> opt_all index_stage_valid (ic_stage3 e)"

record changed_file =
  cf_old_path :: "repo_path option"
  cf_new_path :: "repo_path option"
  cf_kind :: change_kind
  cf_old_file_kind :: file_kind
  cf_new_file_kind :: file_kind
  cf_old_mode :: nat
  cf_new_mode :: nat
  cf_old_object_id :: "object_id option"
  cf_new_object_id :: "object_id option"
  cf_review_only :: "review_only_evidence option"
  cf_mode_transition :: "mode_transition option"
  cf_content_class :: content_class
  cf_old_text :: "text_semantics option"
  cf_new_text :: "text_semantics option"
  cf_binary :: bool
  cf_staged :: bool
  cf_unstaged :: bool
  cf_conflict :: "index_conflict option"
  cf_rename :: "rename_evidence option"

definition change_side_valid :: "repo_path option \<Rightarrow> file_kind \<Rightarrow> nat \<Rightarrow> object_id option \<Rightarrow> bool" where
  "change_side_valid path kind mode oid =
     (case path of
        None \<Rightarrow> (kind = FileKindOther [] \<or> kind = FileKindUnknown) \<and> mode = 0 \<and> oid = None
      | Some p \<Rightarrow>
          valid_repo_path p \<and> file_kind_valid kind
          \<and> \<not> (kind \<noteq> FileKindUnknown \<and> mode = 0)
          \<and> \<not> (kind \<noteq> FileKindUnknown \<and> \<not> git_mode_ok mode
                \<or> kind \<noteq> FileKindUnknown \<and> git_mode_class_file_kind (classify_git_mode mode) \<noteq> kind)
          \<and> opt_all present_object_id oid)"

definition change_kind_shape :: "changed_file \<Rightarrow> bool" where
  "change_kind_shape f =
     (let old_present = cf_old_path f \<noteq> None; new_present = cf_new_path f \<noteq> None in
      case cf_kind f of
        ChangeAdded \<Rightarrow> \<not> (old_present \<or> \<not> new_present)
      | ChangeModified \<Rightarrow>
          \<not> (\<not> old_present \<or> \<not> new_present \<or> cf_old_file_kind f \<noteq> cf_new_file_kind f)
      | ChangeDeleted \<Rightarrow> \<not> (\<not> old_present \<or> new_present)
      | ChangeRenamed \<Rightarrow> \<not> (\<not> old_present \<or> \<not> new_present)
      | ChangeCopied \<Rightarrow> \<not> (\<not> old_present \<or> \<not> new_present)
      | ChangeTypeChanged \<Rightarrow>
          \<not> (\<not> old_present \<or> \<not> new_present \<or> cf_old_file_kind f = cf_new_file_kind f)
          \<and> (case cf_mode_transition f of None \<Rightarrow> False | Some t \<Rightarrow> mt_kind t = ModeTypeChanged)
      | ChangeUntracked \<Rightarrow>
          \<not> (old_present \<or> \<not> new_present \<or> cf_staged f \<or> cf_old_object_id f \<noteq> None)
      | ChangeOther _ \<Rightarrow> True)"

definition changed_file_valid :: "changed_file \<Rightarrow> bool" where
  "changed_file_valid f \<longleftrightarrow>
     change_kind_valid (cf_kind f)
     \<and> change_side_valid (cf_old_path f) (cf_old_file_kind f) (cf_old_mode f) (cf_old_object_id f)
     \<and> change_side_valid (cf_new_path f) (cf_new_file_kind f) (cf_new_mode f) (cf_new_object_id f)
     \<and> (case cf_mode_transition f of
          Some t \<Rightarrow>
            cf_old_path f \<noteq> None \<and> cf_new_path f \<noteq> None \<and> mode_transition_valid t
            \<and> mt_old_mode t = cf_old_mode f \<and> mt_new_mode t = cf_new_mode f
            \<and> \<not> (mt_kind t = ModeTypeChanged \<and> cf_kind f \<noteq> ChangeTypeChanged)
        | None \<Rightarrow>
            \<not> (cf_old_path f \<noteq> None \<and> cf_new_path f \<noteq> None
               \<and> (cf_old_mode f \<noteq> cf_new_mode f \<or> cf_old_file_kind f \<noteq> cf_new_file_kind f)))
     \<and> change_kind_shape f
     \<and> opt_all index_conflict_valid (cf_conflict f)
     \<and> opt_all (\<lambda>r. review_only_valid r
          \<and> \<not> (cf_old_file_kind f \<noteq> FileKindUnknown \<and> cf_new_file_kind f \<noteq> FileKindUnknown))
         (cf_review_only f)
     \<and> (cf_content_class f \<noteq> NoContentClass \<longrightarrow>
          content_class_valid (cf_content_class f)
          \<and> \<not> (cf_new_file_kind f \<noteq> FileKindRegular \<and> cf_old_file_kind f \<noteq> FileKindRegular)
          \<and> is_byte_oriented (cf_content_class f) = cf_binary f)
     \<and> opt_all (\<lambda>t. cf_old_file_kind f = FileKindRegular \<and> text_semantics_valid t) (cf_old_text f)
     \<and> opt_all (\<lambda>t. cf_new_file_kind f = FileKindRegular \<and> text_semantics_valid t) (cf_new_text f)
     \<and> opt_all (\<lambda>r. rename_evidence_valid r
          \<and> \<not> (cf_kind f \<noteq> ChangeRenamed \<and> cf_kind f \<noteq> ChangeCopied)
          \<and> (case (cf_old_path f, cf_new_path f) of
               (Some p, Some q) \<Rightarrow> rename_matches_paths r p q
             | _ \<Rightarrow> False)
          \<and> re_kind r = cf_kind f)
         (cf_rename f)"

lemma changed_file_transition:
  assumes "changed_file_valid f" "cf_old_path f = Some p" "cf_new_path f = Some q"
    and "cf_old_mode f \<noteq> cf_new_mode f"
  shows "\<exists>t u. cf_mode_transition f = Some t \<and> mt_kind t = mt_kind u
    \<and> new_mode_transition (cf_old_mode f) (cf_new_mode f) = Inr u"
  using assms
  by (auto simp: changed_file_valid_def mode_transition_valid_def split: option.splits sum.splits)

text \<open>
  In a valid change whose two sides are present and of known kind, a difference of the modes
  is always witnessed by a mode transition between exactly those modes, and the two sides are of
  different file kinds exactly when the change is recorded as a type change: a rename, copy or
  modification can never hide one.
\<close>

theorem changed_file_type_change:
  assumes "changed_file_valid f" "cf_old_path f = Some p" "cf_new_path f = Some q"
    and "cf_old_file_kind f \<noteq> FileKindUnknown" "cf_new_file_kind f \<noteq> FileKindUnknown"
  shows "(cf_old_mode f \<noteq> cf_new_mode f \<longrightarrow> cf_mode_transition f \<noteq> None)
    \<and> (cf_old_file_kind f \<noteq> cf_new_file_kind f \<longleftrightarrow> cf_kind f = ChangeTypeChanged)"
proof -
  have kinds: "git_mode_class_file_kind (classify_git_mode (cf_old_mode f)) = cf_old_file_kind f"
    "git_mode_class_file_kind (classify_git_mode (cf_new_mode f)) = cf_new_file_kind f"
    using assms by (auto simp: changed_file_valid_def change_side_valid_def)
  have shape: "cf_kind f = ChangeTypeChanged \<Longrightarrow> cf_old_file_kind f \<noteq> cf_new_file_kind f"
    using assms(1) by (simp add: changed_file_valid_def change_kind_shape_def)
  have "cf_kind f = ChangeTypeChanged" if diff: "cf_old_file_kind f \<noteq> cf_new_file_kind f"
  proof -
    have "cf_old_mode f \<noteq> cf_new_mode f" using diff kinds by metis
    with changed_file_transition [OF assms(1-3)] obtain t u
      where t: "cf_mode_transition f = Some t" "mt_kind t = mt_kind u"
        and u: "new_mode_transition (cf_old_mode f) (cf_new_mode f) = Inr u" by blast
    have "mt_kind t = ModeTypeChanged"
      using new_mode_transition_kinds [OF u] diff kinds t(2) by (simp add: is_type_change_def)
    with t assms(1) show ?thesis by (simp add: changed_file_valid_def)
  qed
  with shape changed_file_transition [OF assms(1-3)] show ?thesis by auto
qed

subsection \<open>Tree entries\<close>

record tree_entry =
  ten_path :: repo_path
  ten_name :: repo_path
  ten_parent :: repo_path
  ten_kind :: file_kind
  ten_mode :: nat
  ten_mode_class :: git_mode_class
  ten_object_id :: "object_id option"
  ten_review_only :: "review_only_evidence option"
  ten_lazy_child :: bool
  ten_changed_summary :: "changed_file option"

definition tree_entry_valid :: "tree_entry \<Rightarrow> bool" where
  "tree_entry_valid e \<longleftrightarrow>
     valid_repo_path (ten_path e) \<and> valid_repo_path (ten_name e)
     \<and> CHR ''/'' \<notin> set (ten_name e)
     \<and> (ten_parent e \<noteq> [] \<longrightarrow> valid_repo_path (ten_parent e))
     \<and> (if ten_parent e \<noteq> [] then ten_parent e @ ''/'' @ ten_name e else ten_name e) = ten_path e
     \<and> file_kind_valid (ten_kind e)
     \<and> \<not> (ten_kind e = FileKindUnknown \<and> ten_mode e \<noteq> 0)
     \<and> \<not> (ten_kind e \<noteq> FileKindUnknown \<and> \<not> git_mode_ok (ten_mode e))
     \<and> \<not> (ten_kind e \<noteq> FileKindUnknown
           \<and> git_mode_class_file_kind (classify_git_mode (ten_mode e)) \<noteq> ten_kind e)
     \<and> (ten_mode_class e \<noteq> ModeClassOther [] \<longrightarrow>
          git_mode_class_valid (ten_mode_class e)
          \<and> ten_mode_class e = classify_git_mode (ten_mode e))
     \<and> \<not> (ten_lazy_child e \<and> ten_kind e \<noteq> FileKindDirectory)
     \<and> opt_all present_object_id (ten_object_id e)
     \<and> opt_all (\<lambda>r. review_only_valid r \<and> ten_kind e = FileKindUnknown) (ten_review_only e)
     \<and> opt_all changed_file_valid (ten_changed_summary e)"

text \<open>The name of a valid entry is the last component of its path.\<close>

lemma tree_entry_last_component:
  assumes "tree_entry_valid e"
  shows "last (split_on (CHR ''/'') (ten_path e)) = ten_name e"
proof -
  have free: "split_on (CHR ''/'') (ten_name e) = [ten_name e]"
    using assms by (simp add: tree_entry_valid_def split_on_free)
  have "last (split_on (CHR ''/'') (p @ CHR ''/'' # ten_name e)) = ten_name e" for p
    by (simp add: split_on_join free)
  then have "last (split_on (CHR ''/'')
      (if ten_parent e \<noteq> [] then ten_parent e @ ''/'' @ ten_name e else ten_name e)) = ten_name e"
    by (simp add: free)
  with assms show ?thesis
    by (simp add: tree_entry_valid_def)
qed

lemma changed_file_type_change_witness:
  "\<exists>f p q. changed_file_valid f \<and> cf_old_path f = Some p \<and> cf_new_path f = Some q
    \<and> cf_old_file_kind f \<noteq> FileKindUnknown \<and> cf_new_file_kind f \<noteq> FileKindUnknown
    \<and> cf_kind f = ChangeTypeChanged \<and> cf_old_file_kind f \<noteq> cf_new_file_kind f"
proof -
  have "is_ok (new_mode_transition 33188 40960)"
    unfolding new_mode_transition_ok git_mode_ok_iff by simp
  then obtain t where t: "new_mode_transition 33188 40960 = Inr t"
    by (cases "new_mode_transition 33188 40960") auto
  let ?f = "\<lparr>cf_old_path = Some ''a'', cf_new_path = Some ''a'', cf_kind = ChangeTypeChanged,
    cf_old_file_kind = FileKindRegular, cf_new_file_kind = FileKindSymlink, cf_old_mode = 33188,
    cf_new_mode = 40960, cf_old_object_id = None, cf_new_object_id = None, cf_review_only = None,
    cf_mode_transition = Some t, cf_content_class = NoContentClass, cf_old_text = None,
    cf_new_text = None, cf_binary = False, cf_staged = False, cf_unstaged = True,
    cf_conflict = None, cf_rename = None\<rparr>"
  have "CHR ''a'' \<noteq> NUL" by (simp add: ctl_iff)
  moreover have "mt_kind t = ModeTypeChanged"
    using new_mode_transition_kind [OF t] by (simp add: classify_git_mode_def)
  ultimately have "changed_file_valid ?f"
    using new_mode_transition_valid [OF t] new_mode_transition_fields [OF t]
    by (simp add: changed_file_valid_def change_side_valid_def change_kind_shape_def
        valid_repo_path_def file_kind_valid_def change_kind_valid_def git_mode_ok_iff
        classify_git_mode_def git_mode_class_file_kind_def)
  with changed_file_type_change [of ?f "''a''" "''a''"] show ?thesis
    by (intro exI [of _ ?f] exI [of _ "''a''"]) simp
qed

end
