(* ===== verification/Diffs.thy ===== *)
theory Diffs
  imports Changes
begin

text \<open>
  Structured diffs: \<^verbatim>\<open>internal/domain/repository/diff.go\<close>. Line numbers are optional
  integers; the validator of a hunk walks its lines with the two running line numbers.
\<close>

definition max_int64 :: int where "max_int64 = 2 ^ 63 - 1"

datatype diff_side = DiffBase | DiffHead | DiffSideOther bytes

datatype diff_line_kind =
    DiffLineContext | DiffLineAdded | DiffLineDeleted | DiffLineNoNewline | DiffLineOther bytes

definition diff_line_kind_valid :: "diff_line_kind \<Rightarrow> bool" where
  "diff_line_kind_valid k = (case k of DiffLineOther _ \<Rightarrow> False | _ \<Rightarrow> True)"

type_synonym patch_artifact_id = bytes

record patch_byte_range =
  pb_artifact_id :: patch_artifact_id
  pb_offset :: int
  pb_length :: int
  pb_sha256 :: bytes

definition patch_byte_range_valid :: "patch_byte_range \<Rightarrow> bool" where
  "patch_byte_range_valid r \<longleftrightarrow>
     required_text (pb_artifact_id r) \<and> 0 \<le> pb_offset r \<and> 0 \<le> pb_length r
     \<and> \<not> pb_offset r > max_int64 - pb_length r \<and> valid_sha256 (pb_sha256 r)"

definition patch_byte_range_matches :: "patch_byte_range \<Rightarrow> patch_artifact_id \<Rightarrow> int \<Rightarrow> bytes \<Rightarrow> bool" where
  "patch_byte_range_matches r aid sz digest \<longleftrightarrow>
     patch_byte_range_valid r \<and> 0 \<le> sz \<and> pb_artifact_id r = aid \<and> \<not> pb_offset r > sz
     \<and> \<not> pb_length r > sz - pb_offset r \<and> valid_sha256 digest \<and> equal_fold (pb_sha256 r) digest"

lemma patch_byte_range_inside:
  "patch_byte_range_matches r aid sz digest \<Longrightarrow> 0 \<le> pb_offset r \<and> pb_offset r + pb_length r \<le> sz"
  by (simp add: patch_byte_range_matches_def patch_byte_range_valid_def)

record diff_line =
  dl_kind :: diff_line_kind
  dl_base_line :: "int option"
  dl_head_line :: "int option"
  dl_text :: bytes
  dl_terminator :: line_terminator
  dl_no_newline_base :: bool
  dl_no_newline_head :: bool

definition positive_line :: "int option \<Rightarrow> bool" where
  "positive_line l = (case l of None \<Rightarrow> False | Some n \<Rightarrow> n > 0)"

abbreviation NoTerminator :: line_terminator where
  "NoTerminator \<equiv> TerminatorOther []"

definition diff_line_valid :: "diff_line \<Rightarrow> bool" where
  "diff_line_valid l \<longleftrightarrow>
     diff_line_kind_valid (dl_kind l)
     \<and> (case dl_kind l of
          DiffLineContext \<Rightarrow> positive_line (dl_base_line l) \<and> positive_line (dl_head_line l)
        | DiffLineAdded \<Rightarrow> dl_base_line l = None \<and> positive_line (dl_head_line l)
        | DiffLineDeleted \<Rightarrow> positive_line (dl_base_line l) \<and> dl_head_line l = None
        | DiffLineNoNewline \<Rightarrow> dl_base_line l = None \<and> dl_head_line l = None
        | DiffLineOther _ \<Rightarrow>
            \<not> (dl_terminator l \<noteq> NoTerminator \<and> \<not> line_terminator_valid (dl_terminator l)))
     \<and> \<not> (dl_kind l \<noteq> DiffLineNoNewline \<and> dl_terminator l \<noteq> NoTerminator
           \<and> \<not> line_terminator_valid (dl_terminator l))"

record diff_hunk =
  dh_id :: bytes
  dh_base_start :: int
  dh_base_count :: int
  dh_head_start :: int
  dh_head_count :: int
  dh_header :: bytes
  dh_lines :: "diff_line list"

definition valid_hunk_range :: "int \<Rightarrow> int \<Rightarrow> bool" where
  "valid_hunk_range start count \<longleftrightarrow> start \<ge> 0 \<and> count \<ge> 0 \<and> (count = 0 \<or> start > 0)"

text \<open>
  The loop over the lines: the next base and head line and the two counts; \<open>None\<close> is the
  error.
\<close>

fun hunk_lines_walk :: "int \<times> int \<times> int \<times> int \<Rightarrow> diff_line list \<Rightarrow> (int \<times> int) option" where
  "hunk_lines_walk (base_line, head_line, base_count, head_count) [] = Some (base_count, head_count)"
| "hunk_lines_walk (base_line, head_line, base_count, head_count) (l # ls) =
     (if \<not> diff_line_valid l then None
      else
        (case dl_kind l of
           DiffLineContext \<Rightarrow>
             if dl_base_line l \<noteq> Some base_line \<or> dl_head_line l \<noteq> Some head_line then None
             else hunk_lines_walk (base_line + 1, head_line + 1, base_count + 1, head_count + 1) ls
         | DiffLineAdded \<Rightarrow>
             if dl_head_line l \<noteq> Some head_line then None
             else hunk_lines_walk (base_line, head_line + 1, base_count, head_count + 1) ls
         | DiffLineDeleted \<Rightarrow>
             if dl_base_line l \<noteq> Some base_line then None
             else hunk_lines_walk (base_line + 1, head_line, base_count + 1, head_count) ls
         | _ \<Rightarrow> hunk_lines_walk (base_line, head_line, base_count, head_count) ls))"

definition diff_hunk_valid :: "diff_hunk \<Rightarrow> bool" where
  "diff_hunk_valid h \<longleftrightarrow>
     required_text (dh_id h) \<and> valid_hunk_range (dh_base_start h) (dh_base_count h)
     \<and> valid_hunk_range (dh_head_start h) (dh_head_count h)
     \<and> hunk_lines_walk (dh_base_start h, dh_head_start h, 0, 0) (dh_lines h)
         = Some (dh_base_count h, dh_head_count h)"

record file_diff =
  fd_file :: changed_file
  fd_hunks :: "diff_hunk list"
  fd_binary_patch :: "patch_byte_range option"
  fd_binary_complete :: bool

definition file_diff_valid :: "file_diff \<Rightarrow> bool" where
  "file_diff_valid d \<longleftrightarrow>
     changed_file_valid (fd_file d)
     \<and> opt_all (\<lambda>b. cf_binary (fd_file d) \<and> fd_hunks d = [] \<and> patch_byte_range_valid b)
         (fd_binary_patch d)
     \<and> \<not> (fd_binary_complete d \<and> \<not> cf_binary (fd_file d))
     \<and> \<not> (cf_binary (fd_file d) \<and> fd_hunks d \<noteq> [])
     \<and> list_all diff_hunk_valid (fd_hunks d)"

subsection \<open>What a valid hunk numbers\<close>

text \<open>
  The base and head lines of a hunk, in order: a valid hunk numbers each side consecutively from
  its start, with as many lines as its header announces.
\<close>

definition base_numbers :: "diff_line list \<Rightarrow> int list" where
  "base_numbers ls = concat (map (\<lambda>l. case dl_base_line l of None \<Rightarrow> [] | Some n \<Rightarrow> [n]) ls)"

definition head_numbers :: "diff_line list \<Rightarrow> int list" where
  "head_numbers ls = concat (map (\<lambda>l. case dl_head_line l of None \<Rightarrow> [] | Some n \<Rightarrow> [n]) ls)"

lemma numbers_simps [simp]:
  "base_numbers [] = []" "head_numbers [] = []"
  "base_numbers (l # ls) = (case dl_base_line l of None \<Rightarrow> [] | Some n \<Rightarrow> [n]) @ base_numbers ls"
  "head_numbers (l # ls) = (case dl_head_line l of None \<Rightarrow> [] | Some n \<Rightarrow> [n]) @ head_numbers ls"
  by (simp_all add: base_numbers_def head_numbers_def)

text \<open>The three kinds of steps the walk can take.\<close>

lemma hunk_lines_walk_Cons [consumes 1, case_names both added deleted marker]:
  assumes "hunk_lines_walk (b, h, bc, hc) (l # ls) = Some r"
  obtains "dl_base_line l = Some b" "dl_head_line l = Some h"
      "hunk_lines_walk (b + 1, h + 1, bc + 1, hc + 1) ls = Some r"
  | "dl_base_line l = None" "dl_head_line l = Some h"
      "hunk_lines_walk (b, h + 1, bc, hc + 1) ls = Some r"
  | "dl_base_line l = Some b" "dl_head_line l = None"
      "hunk_lines_walk (b + 1, h, bc + 1, hc) ls = Some r"
  | "dl_base_line l = None" "dl_head_line l = None"
      "hunk_lines_walk (b, h, bc, hc) ls = Some r"
  using assms
  by (cases "dl_kind l") (auto simp: diff_line_valid_def diff_line_kind_valid_def split: if_splits)

lemma hunk_lines_walk_count:
  "hunk_lines_walk (b, h, bc, hc) ls = Some (bn, hn) \<Longrightarrow> bc \<le> bn \<and> hc \<le> hn"
proof (induction ls arbitrary: b h bc hc)
  case (Cons l ls)
  from Cons.prems show ?case
    by (cases rule: hunk_lines_walk_Cons) (use Cons.IH in fastforce)+
qed simp

lemma hunk_lines_walk_numbers:
  "hunk_lines_walk (b, h, bc, hc) ls = Some (bn, hn) \<Longrightarrow>
   base_numbers ls = [b .. b + (bn - bc) - 1] \<and> head_numbers ls = [h .. h + (hn - hc) - 1]"
proof (induction ls arbitrary: b h bc hc)
  case (Cons l ls)
  note base = upto_rec1 [of b "b + (bn - bc) - 1"] and head = upto_rec1 [of h "h + (hn - hc) - 1"]
  from Cons.prems show ?case
  proof (cases rule: hunk_lines_walk_Cons)
    case both
    from Cons.IH [OF both(3)] hunk_lines_walk_count [OF both(3)] show ?thesis
      using both(1,2) base head by (simp add: algebra_simps)
  next
    case added
    from Cons.IH [OF added(3)] hunk_lines_walk_count [OF added(3)] show ?thesis
      using added(1,2) head by (simp add: algebra_simps)
  next
    case deleted
    from Cons.IH [OF deleted(3)] hunk_lines_walk_count [OF deleted(3)] show ?thesis
      using deleted(1,2) base by (simp add: algebra_simps)
  next
    case marker
    from Cons.IH [OF marker(3)] show ?thesis using marker(1,2) by simp
  qed
qed simp

text \<open>
  The lines of a valid hunk number each side consecutively: the base line numbers are exactly
  those from the base start on, as many as the base count says, and likewise for the head side.
\<close>

theorem diff_hunk_valid_numbers:
  assumes "diff_hunk_valid h"
  shows "base_numbers (dh_lines h) = [dh_base_start h .. dh_base_start h + dh_base_count h - 1]
    \<and> head_numbers (dh_lines h) = [dh_head_start h .. dh_head_start h + dh_head_count h - 1]
    \<and> int (length (base_numbers (dh_lines h))) = dh_base_count h
    \<and> int (length (head_numbers (dh_lines h))) = dh_head_count h"
  using assms hunk_lines_walk_numbers [of _ _ 0 0]
  by (fastforce simp: diff_hunk_valid_def valid_hunk_range_def)

lemma diff_hunk_valid_numbers_witness:
  "let h = \<lparr>dh_id = ''hunk-1'', dh_base_start = 1, dh_base_count = 2, dh_head_start = 1,
     dh_head_count = 2, dh_header = [], dh_lines =
       [\<lparr>dl_kind = DiffLineContext, dl_base_line = Some 1, dl_head_line = Some 1, dl_text = ''a'',
          dl_terminator = TerminatorLF, dl_no_newline_base = False, dl_no_newline_head = False\<rparr>,
        \<lparr>dl_kind = DiffLineDeleted, dl_base_line = Some 2, dl_head_line = None, dl_text = ''b'',
          dl_terminator = TerminatorLF, dl_no_newline_base = False, dl_no_newline_head = False\<rparr>,
        \<lparr>dl_kind = DiffLineAdded, dl_base_line = None, dl_head_line = Some 2, dl_text = ''c'',
          dl_terminator = TerminatorLF, dl_no_newline_base = False, dl_no_newline_head = False\<rparr>]\<rparr>
   in diff_hunk_valid h \<and> base_numbers (dh_lines h) = [1 .. 2]
      \<and> head_numbers (dh_lines h) = [1 .. 2]"
proof -
  let ?l = "\<lambda>k b h t. \<lparr>dl_kind = k, dl_base_line = b, dl_head_line = h, dl_text = t,
    dl_terminator = TerminatorLF, dl_no_newline_base = False, dl_no_newline_head = False\<rparr>"
  let ?h = "\<lparr>dh_id = ''hunk-1'', dh_base_start = 1, dh_base_count = 2, dh_head_start = 1,
     dh_head_count = 2, dh_header = [], dh_lines =
       [?l DiffLineContext (Some 1) (Some 1) ''a'', ?l DiffLineDeleted (Some 2) None ''b'',
        ?l DiffLineAdded None (Some 2) ''c'']\<rparr>"
  have "diff_hunk_valid ?h" by code_simp
  with diff_hunk_valid_numbers [OF this] show ?thesis by simp
qed

end
