(* ===== verification/Patch_Text.thy ===== *)
theory Patch_Text
  imports Diffs
begin

text \<open>
  The text formats of a Git patch: the pure parsing functions of \<^verbatim>\<open>internal/diff/parser.go\<close> for
  quoted paths, header paths, file modes, object identities, similarity scores and hunk headers.
  The reference printers at the end of each section are the forms Git writes; the round-trip
  theorems say the parsers read them back.
\<close>

subsection \<open>Errors\<close>

text \<open>
  The sentinel errors of \<^verbatim>\<open>validate.go\<close>, without their messages, and the errors that pass
  through from the context, the source and the validated file diff.
\<close>

datatype patch_error =
    ErrInvalidPatchSource | ErrPatchMalformed | ErrPatchTruncated | ErrPatchLimit
  | ErrPatchUnsupported | ErrPatchSink | ErrContext bytes | ErrInvalidDiff

subsection \<open>Quoted paths\<close>

definition DQ :: char where "DQ = CHR 0x22"
definition BSL :: char where "BSL = CHR 0x5C"

lemma quote_bytes [simp]: "byte DQ = 34" "byte BSL = 92"
  by (simp_all add: DQ_def BSL_def byte_def)

lemma DQ_BSL [simp]: "DQ \<noteq> BSL" "BSL \<noteq> DQ"
  by (simp_all add: DQ_def BSL_def)

text \<open>The one-letter escapes, and the octal digits.\<close>

definition simple_escape :: "char \<Rightarrow> char option" where
  "simple_escape c =
     (if c = CHR ''a'' then Some (mk_byte 7)
      else if c = CHR ''b'' then Some (mk_byte 8)
      else if c = CHR ''f'' then Some (mk_byte 12)
      else if c = CHR ''n'' then Some (mk_byte 10)
      else if c = CHR ''r'' then Some (mk_byte 13)
      else if c = CHR ''t'' then Some (mk_byte 9)
      else if c = CHR ''v'' then Some (mk_byte 11)
      else if c = BSL then Some BSL
      else if c = DQ then Some DQ
      else None)"

definition is_octal :: "char \<Rightarrow> bool" where
  "is_octal c \<longleftrightarrow> 48 \<le> byte c \<and> byte c \<le> 55"

text \<open>
  The loop of \<^verbatim>\<open>decodeCQuoted\<close>: the rest of the value, the decoded bytes and the index. An
  octal escape takes at most three digits and its value is truncated to a byte.
\<close>

function unquote_from :: "bytes \<Rightarrow> bytes \<Rightarrow> nat \<Rightarrow> (patch_error, bytes \<times> nat) result" where
  "unquote_from [] acc i = Inl ErrPatchMalformed"
| "unquote_from (c # cs) acc i =
     (if c = DQ then Inr (acc, i + 1)
      else if c \<noteq> BSL then unquote_from cs (acc @ [c]) (i + 1)
      else
        (case cs of
           [] \<Rightarrow> Inl ErrPatchMalformed
         | e # es \<Rightarrow>
             (case simple_escape e of
                Some b \<Rightarrow> unquote_from es (acc @ [b]) (i + 2)
              | None \<Rightarrow>
                  if is_octal e then
                    (let more = takeWhile is_octal (take 2 es);
                         v = foldl (\<lambda>v d. v * 8 + (byte d - 48)) (byte e - 48) more in
                     if v = 0 then Inl ErrPatchMalformed
                     else unquote_from (drop (length more) es) (acc @ [mk_byte v]) (i + 2 + length more))
                  else Inl ErrPatchMalformed)))"
  by pat_completeness auto
termination
  by (relation "measure (\<lambda>(s, _, _). length s)") auto

declare unquote_from.simps(2) [simp del]

definition decode_c_quoted :: "bytes \<Rightarrow> (patch_error, bytes \<times> nat) result" where
  "decode_c_quoted value =
     (case value of
        [] \<Rightarrow> Inl ErrPatchMalformed
      | c # cs \<Rightarrow> if c \<noteq> DQ then Inl ErrPatchMalformed else unquote_from cs [] 1)"

text \<open>
  The reference quoter: control bytes, the quote, the backslash and bytes above the ASCII range are
  escaped, the last as three octal digits.
\<close>

definition octal3 :: "nat \<Rightarrow> bytes" where
  "octal3 v = [digit_char (v div 64), digit_char (v div 8 mod 8), digit_char (v mod 8)]"

definition quote_byte :: "char \<Rightarrow> bytes" where
  "quote_byte c =
     (if c = DQ \<or> c = BSL then [BSL, c]
      else if byte c = 10 then [BSL, CHR ''n'']
      else if byte c = 9 then [BSL, CHR ''t'']
      else if byte c < 32 \<or> 127 \<le> byte c then BSL # octal3 (byte c)
      else [c])"

definition c_quote :: "bytes \<Rightarrow> bytes" where
  "c_quote s = DQ # concat (map quote_byte s) @ [DQ]"

lemma octal_digit: "d < 8 \<Longrightarrow> is_octal (digit_char d) \<and> byte (digit_char d) - 48 = d
    \<and> simple_escape (digit_char d) = None"
proof -
  assume d: "d < 8"
  have "digit_char d \<noteq> c" if "byte c < 48 \<or> 55 < byte c" for c
    using that d digit_char_byte [of d] by auto
  then show ?thesis
    using d digit_char_byte [of d] by (simp add: is_octal_def simple_escape_def byte_def DQ_def BSL_def)
qed

lemma unquote_octal_digits:
  assumes "is_octal a" "is_octal b" "is_octal c" "simple_escape a = None"
    and "v = ((byte a - 48) * 8 + (byte b - 48)) * 8 + (byte c - 48)" "v \<noteq> 0"
  shows "unquote_from (BSL # a # b # c # rest) acc i = unquote_from rest (acc @ [mk_byte v]) (i + 4)"
proof -
  have more: "takeWhile is_octal (take 2 (b # c # rest)) = [b, c]"
    using assms(2,3) by (simp add: numeral_2_eq_2)
  have val: "foldl (\<lambda>v d. v * 8 + (byte d - 48)) (byte a - 48) [b, c] = v"
    using assms(5) by simp
  have rest: "drop (length [b, c]) (b # c # rest) = rest" "i + 2 + length [b, c] = i + 4"
    by simp_all
  show ?thesis
    by (simp only: unquote_from.simps(2) [of BSL "a # b # c # rest" acc i] DQ_BSL list.case assms(1,4)
        option.case Let_def more val rest assms(6) simp_thms if_True if_False)
qed

lemma unquote_octal:
  assumes "0 < v" "v < 512"
  shows "unquote_from (BSL # octal3 v @ rest) acc i = unquote_from rest (acc @ [mk_byte v]) (i + 4)"
proof -
  have small: "v div 64 < 8" "v div 8 mod 8 < 8" "v mod 8 < 8" using assms by auto
  have "v div 64 * 8 + v div 8 mod 8 = v div 8"
    using div_mult_mod_eq [of "v div 8" 8] by (simp add: div_mult2_eq [symmetric])
  then have "(v div 64 * 8 + v div 8 mod 8) * 8 + v mod 8 = v"
    using div_mult_mod_eq [of v 8] by simp
  then show ?thesis
    unfolding octal3_def append.simps
    using assms octal_digit [OF small(1)] octal_digit [OF small(2)] octal_digit [OF small(3)]
    by (intro unquote_octal_digits) (simp_all only: simp_thms)
qed

lemma plain_not_special:
  "c \<noteq> DQ \<Longrightarrow> c \<noteq> BSL \<Longrightarrow> unquote_from (c # rest) acc i = unquote_from rest (acc @ [c]) (i + 1)"
  by (simp add: unquote_from.simps(2))

lemma unquote_simple:
  "simple_escape e = Some b \<Longrightarrow>
   unquote_from (BSL # e # rest) acc i = unquote_from rest (acc @ [b]) (i + 2)"
  using unquote_from.simps(2) [of BSL "e # rest" acc i] by simp

lemma simple_escapes:
  "simple_escape DQ = Some DQ" "simple_escape BSL = Some BSL"
  "simple_escape (CHR ''n'') = Some LF" "simple_escape (CHR ''t'') = Some TAB"
  by (simp_all add: simple_escape_def DQ_def BSL_def LF_def TAB_def)

lemma byte_is: "byte c = byte d \<Longrightarrow> c = d"
  by simp

lemma unquote_byte:
  assumes "c \<noteq> NUL"
  shows "unquote_from (quote_byte c @ rest) acc i
    = unquote_from rest (acc @ [c]) (i + length (quote_byte c))"
proof -
  have c: "0 < byte c" "byte c < 512"
    using assms byte_is [of c NUL] less_trans [OF byte_bound [of c], of 512] by auto
  consider "c = DQ \<or> c = BSL" | "c = LF" | "c = TAB"
    | "c \<noteq> DQ" "c \<noteq> BSL" "c \<noteq> LF" "c \<noteq> TAB" "byte c < 32 \<or> 127 \<le> byte c"
    | "c \<noteq> DQ" "c \<noteq> BSL" "c \<noteq> LF" "c \<noteq> TAB" "\<not> (byte c < 32 \<or> 127 \<le> byte c)"
    by blast
  then show ?thesis
  proof cases
    case 1
    then show ?thesis using simple_escapes by (auto simp: quote_byte_def unquote_simple)
  next
    case 2
    then show ?thesis
      using byte_is [of LF DQ] byte_is [of LF BSL] by (simp add: quote_byte_def unquote_simple simple_escapes)
  next
    case 3
    then show ?thesis
      using byte_is [of TAB DQ] byte_is [of TAB BSL] by (simp add: quote_byte_def unquote_simple simple_escapes)
  next
    case 4
    then have "quote_byte c = BSL # octal3 (byte c)"
      using byte_is [of c LF] byte_is [of c TAB] by (auto simp: quote_byte_def)
    moreover have "length (quote_byte c) = 4"
      using calculation by (simp add: octal3_def)
    ultimately show ?thesis
      using unquote_octal [OF c, of rest acc i] by (simp only: append.simps mk_byte_byte)
  next
    case 5
    then have "quote_byte c = [c]"
      by (auto simp: quote_byte_def)
    with 5 show ?thesis by (simp add: plain_not_special)
  qed
qed

lemma unquote_bytes:
  "NUL \<notin> set s \<Longrightarrow> unquote_from (concat (map quote_byte s) @ rest) acc i
    = unquote_from rest (acc @ s) (i + length (concat (map quote_byte s)))"
proof (induction s arbitrary: acc i)
  case (Cons c s)
  then have "c \<noteq> NUL" by auto
  with Cons show ?case
    using unquote_byte [of c "concat (map quote_byte s) @ rest" acc i] by (simp add: add.assoc)
qed simp

text \<open>
  Whatever bytes a path consists of, NUL excepted, decoding the quoted form of the path gives
  back exactly its bytes and the length of the quoted form, and nothing that follows is consumed.
\<close>

theorem decode_c_quoted_roundtrip:
  assumes "NUL \<notin> set s"
  shows "decode_c_quoted (c_quote s @ rest) = Inr (s, length (c_quote s))"
  using unquote_bytes [OF assms, of "DQ # rest" "[]" 1]
  by (simp add: decode_c_quoted_def c_quote_def unquote_from.simps(2) [of DQ])

lemma decode_c_quoted_roundtrip_witness:
  "decode_c_quoted (c_quote (''a b'' @ [LF, DQ, mk_byte 195]) @ '' x'')
    = Inr (''a b'' @ [LF, DQ, mk_byte 195], length (c_quote (''a b'' @ [LF, DQ, mk_byte 195])))"
proof -
  have "NUL \<notin> set (''a b'' @ [LF, DQ, mk_byte 195])"
    by (simp add: ctl_iff)
  then show ?thesis by (rule decode_c_quoted_roundtrip)
qed

text \<open>
  The guard against NUL in a quoted path tests the value of an octal escape before it is cut to
  a byte: every three-digit escape of a value from 256 to 511 is accepted as the byte of its low
  eight bits, so that the escape 400 yields a NUL byte.
\<close>

theorem decode_c_quoted_wraps:
  "decode_c_quoted ([DQ, BSL] @ octal3 (256 + v mod 256) @ [DQ]) = Inr ([mk_byte v], 6)"
proof -
  have "mk_byte (256 + v mod 256) = mk_byte v"
    by (simp add: mk_byte_def)
  then show ?thesis
    using unquote_octal [of "256 + v mod 256" "[DQ]" "[]" 1]
    by (simp add: decode_c_quoted_def unquote_from.simps(2) [of DQ])
qed


subsection \<open>Header paths\<close>

definition blank :: "char \<Rightarrow> bool" where
  "blank c \<longleftrightarrow> c = CHR '' '' \<or> c = TAB"

definition take_quoted_token :: "bytes \<Rightarrow> (patch_error, bytes \<times> bytes) result" where
  "take_quoted_token value =
     (let value = dropWhile blank value in
      if \<not> has_prefix [DQ] value then Inl ErrPatchMalformed
      else
        bind_result (decode_c_quoted value) (\<lambda>(decoded, consumed). Inr (decoded, drop consumed value)))"

definition diff_git_prefix :: bytes where "diff_git_prefix = ''diff --git ''"

definition parse_git_header_paths :: "bytes \<Rightarrow> (patch_error, bytes \<times> bytes) result" where
  "parse_git_header_paths line =
     (if \<not> has_prefix diff_git_prefix line then Inl ErrPatchMalformed
      else
        (let value = drop (length diff_git_prefix) line in
         if has_prefix [DQ] value then
           bind_result (take_quoted_token value) (\<lambda>(old_value, rest).
             (case take_quoted_token rest of
                Inl _ \<Rightarrow> Inl ErrPatchMalformed
              | Inr (new_value, rest) \<Rightarrow>
                  if trim_space rest \<noteq> [] then Inl ErrPatchMalformed
                  else Inr (old_value, new_value)))
         else
           (case last_index_of '' b/'' value of
              None \<Rightarrow> Inl ErrPatchMalformed
            | Some separator \<Rightarrow>
                if \<not> has_prefix ''a/'' value \<or> separator = 0 \<or> separator + 1 \<ge> length value
                then Inl ErrPatchMalformed
                else Inr (take separator value, drop (separator + 1) value))))"

text \<open>A path line of \<^verbatim>\<open>/dev/null\<close> is the absent path \<open>None\<close>.\<close>

definition parse_repo_path :: "bytes \<Rightarrow> bytes \<Rightarrow> bool \<Rightarrow> (patch_error, repo_path option) result" where
  "parse_repo_path raw prefix quoted =
     bind_result
       (if quoted \<or> raw \<noteq> [] \<and> hd raw = DQ then
          (case decode_c_quoted raw of
             Inl _ \<Rightarrow> Inl ErrPatchMalformed
           | Inr (decoded, consumed) \<Rightarrow>
               if trim_space (drop consumed raw) \<noteq> [] then Inl ErrPatchMalformed else Inr decoded)
        else Inr raw)
       (\<lambda>raw.
          if raw = ''/dev/null'' then Inr None
          else
            (let raw = (if prefix \<noteq> [] \<and> has_prefix prefix raw then drop (length prefix) raw else raw) in
             (case new_repo_path raw of Inl _ \<Rightarrow> Inl ErrPatchMalformed | Inr path \<Rightarrow> Inr (Some path))))"

definition parse_patch_path_line :: "bytes \<Rightarrow> bytes \<Rightarrow> (patch_error, repo_path option) result" where
  "parse_patch_path_line raw prefix =
     (let raw = takeWhile (\<lambda>c. c \<noteq> TAB) raw in
      parse_repo_path raw prefix (raw \<noteq> [] \<and> hd raw = DQ))"

lemma parse_repo_path_valid: "parse_repo_path raw prefix q = Inr (Some p) \<Longrightarrow> valid_repo_path p"
  by (auto simp: parse_repo_path_def Let_def new_repo_path_iff split: if_splits sum.splits)

lemma take_quoted_token_quote:
  assumes "NUL \<notin> set s"
  shows "take_quoted_token (replicate n (CHR '' '') @ c_quote s @ rest) = Inr (s, rest)"
proof -
  have "dropWhile blank (replicate n (CHR '' '') @ c_quote s @ rest) = c_quote s @ rest"
    by (induction n) (simp_all add: blank_def c_quote_def ctl_iff, simp add: DQ_def)
  moreover have "has_prefix [DQ] (c_quote s @ rest)"
    by (simp add: c_quote_def has_prefix_def)
  moreover have "decode_c_quoted (c_quote s @ rest) = Inr (s, length (c_quote s))"
    using unquote_bytes [OF assms, of "DQ # rest" "[]" 1]
    by (simp add: decode_c_quoted_def c_quote_def unquote_from.simps(2) [of DQ])
  ultimately show ?thesis
    by (simp add: take_quoted_token_def Let_def)
qed

text \<open>
  The section header of a patch is read back when Git quotes both of its paths, and it is
  rejected when Git quotes only the old one: the second path is then required to be quoted too,
  although Git quotes each path by itself.
\<close>

theorem parse_git_header_quoted:
  assumes "NUL \<notin> set p" "NUL \<notin> set q"
  shows "parse_git_header_paths (diff_git_prefix @ c_quote (''a/'' @ p) @ '' '' @ c_quote (''b/'' @ q))
      = Inr (''a/'' @ p, ''b/'' @ q)
    \<and> parse_git_header_paths (diff_git_prefix @ c_quote (''a/'' @ p) @ '' b/'' @ r)
      = Inl ErrPatchMalformed"
proof -
  have nul: "NUL \<notin> set (''a/'' @ p)" "NUL \<notin> set (''b/'' @ q)"
    using assms by (simp_all add: ctl_iff)
  have dq: "has_prefix [DQ] (c_quote s @ t)" for s t by (simp add: has_prefix_def c_quote_def)
  have "take_quoted_token ('' b/'' @ r) = Inl ErrPatchMalformed"
    by (simp add: take_quoted_token_def blank_def has_prefix_def DQ_def Let_def ctl_iff)
  then show ?thesis
    using take_quoted_token_quote [OF nul(1), of 0 "'' '' @ c_quote (''b/'' @ q)"]
      take_quoted_token_quote [OF nul(1), of 0 "'' b/'' @ r"]
      take_quoted_token_quote [OF nul(2), of 1 "[]"] dq
    by (simp add: parse_git_header_paths_def Let_def trim_space_plain)
qed

lemma parse_git_header_quoted_witness:
  "parse_git_header_paths (diff_git_prefix @ c_quote (''a/'' @ [mk_byte 195]) @ '' '' @ c_quote (''b/'' @ ''y''))
      = Inr (''a/'' @ [mk_byte 195], ''b/'' @ ''y'')
    \<and> parse_git_header_paths (diff_git_prefix @ c_quote (''a/'' @ [mk_byte 195]) @ '' b/'' @ ''y'')
      = Inl ErrPatchMalformed"
proof -
  have "NUL \<notin> set [mk_byte 195]" "NUL \<notin> set ''y''"
    by (simp_all add: ctl_iff)
  then show ?thesis by (rule parse_git_header_quoted)
qed

subsection \<open>Modes, objects and similarity scores\<close>

definition parse_mode :: "bytes \<Rightarrow> (patch_error, nat) result" where
  "parse_mode raw =
     (if raw = [] then Inl ErrPatchMalformed
      else (case parse_uint 8 32 raw of
              None \<Rightarrow> Inl ErrPatchMalformed
            | Some v \<Rightarrow> if v = 0 \<or> \<not> git_mode_ok v then Inl ErrPatchMalformed else Inr v))"

definition is_hex_rune :: "nat \<Rightarrow> bool" where
  "is_hex_rune r \<longleftrightarrow> (48 \<le> r \<and> r \<le> 57) \<or> (97 \<le> r \<and> r \<le> 102) \<or> (65 \<le> r \<and> r \<le> 70)"

definition parse_patch_object :: "bytes \<Rightarrow> (patch_error, object_id option) result" where
  "parse_patch_object raw =
     (if raw = [] then Inl ErrPatchMalformed
      else if list_all (\<lambda>c. c = CHR ''0'') raw then Inr None
      else if \<not> list_all is_hex_rune (runes raw) then Inl ErrPatchMalformed
      else (case new_object_id raw of Inl _ \<Rightarrow> Inl ErrPatchMalformed | Inr oid \<Rightarrow> Inr (Some oid)))"

definition parse_similarity_percent :: "bytes \<Rightarrow> (patch_error, nat) result" where
  "parse_similarity_percent value =
     (let value = trim_space value in
      if length value \<noteq> 4 \<or> value ! 3 \<noteq> CHR ''%'' then Inl ErrPatchMalformed
      else (case parse_int 10 64 (take 3 value) of
              None \<Rightarrow> Inl ErrPatchMalformed
            | Some parsed \<Rightarrow>
                if parsed < 60 \<or> parsed > 100 then Inl ErrPatchMalformed else Inr (nat parsed)))"

definition mode_kind :: "nat \<Rightarrow> file_kind" where
  "mode_kind mode = git_mode_class_file_kind (classify_git_mode mode)"

lemma parse_mode_ok: "parse_mode raw = Inr m \<Longrightarrow> git_mode_ok m \<and> m \<noteq> 0"
  by (auto simp: parse_mode_def split: if_splits option.splits)

lemma parse_mode_digits: "git_mode_ok m \<Longrightarrow> parse_mode (digits 8 m) = Inr m"
  by (auto simp: parse_mode_def parse_uint_digits git_mode_ok_iff)

lemma parse_patch_object_present:
  "parse_patch_object raw = Inr (Some oid) \<Longrightarrow> present_object_id oid"
  by (auto simp: parse_patch_object_def present_object_id_def new_object_id_def split: if_splits)

lemma digits_length_gt: "k < length (digits 10 n) \<longleftrightarrow> k = 0 \<or> 10 ^ k \<le> n"
proof (induction k arbitrary: n)
  case 0
  then show ?case by simp
next
  case (Suc k)
  have "Suc k < length (digits 10 n) \<longleftrightarrow> 10 \<le> n \<and> k < length (digits 10 (n div 10))"
    using digits_length [of n] by simp
  also have "\<dots> \<longleftrightarrow> 10 \<le> n \<and> (k = 0 \<or> 10 ^ k \<le> n div 10)"
    by (simp add: Suc.IH)
  also have "10 ^ k \<le> n div 10 \<longleftrightarrow> 10 ^ Suc k \<le> n"
    by (simp add: less_eq_div_iff_mult_less_eq mult.commute)
  finally show ?case
    by (auto intro: order_trans [of 10 "10 ^ Suc k" n])
qed

lemma digits_length_3: "length (digits 10 n) = 3 \<longleftrightarrow> 100 \<le> n \<and> n < 1000"
  using digits_length_gt [of 2 n] digits_length_gt [of 3 n] by (simp add: not_le) linarith

text \<open>
  Of the similarity scores Git prints, a number from 0 to 100 and a percent sign, the parser
  accepts only 100: the score of every rename or copy with a change in it is rejected as
  malformed.
\<close>

theorem parse_similarity_only_100:
  "parse_similarity_percent (format_uint n @ ''%'')
    = (if n = 100 then Inr 100 else Inl ErrPatchMalformed)"
proof -
  have plain: "plain_text (format_uint n @ ''%'')"
    using digits_plain [of 10 n] by (simp add: format_uint_def byte_def)
  show ?thesis
  proof (cases "100 \<le> n \<and> n < 1000")
    case True
    then have len: "length (format_uint n) = 3" by (simp add: format_uint_def digits_length_3)
    have "parse_int 10 64 (format_uint n) = Some (int n)"
      unfolding format_uint_def using True by (intro parse_int_digits) simp
    then show ?thesis
      using True len by (simp add: parse_similarity_percent_def trim_space_plain [OF plain] nth_append)
  next
    case False
    then have "length (format_uint n) \<noteq> 3" by (simp add: format_uint_def digits_length_3)
    with False show ?thesis
      by (auto simp: parse_similarity_percent_def trim_space_plain [OF plain])
  qed
qed

subsection \<open>Hunk headers\<close>

definition parse_hunk_range :: "bytes \<Rightarrow> char \<Rightarrow> (patch_error, int \<times> int) result" where
  "parse_hunk_range value prefix =
     (if length value < 2 \<or> hd value \<noteq> prefix then Inl ErrPatchMalformed
      else
        (let parts = split_on (CHR '','') (tl value) in
         if length parts > 2 \<or> parts ! 0 = [] then Inl ErrPatchMalformed
         else
           (case parse_int 10 32 (parts ! 0) of
              None \<Rightarrow> Inl ErrPatchMalformed
            | Some start \<Rightarrow>
                if start < 0 then Inl ErrPatchMalformed
                else
                  bind_result
                    (if length parts = 2 then
                       (case parse_int 10 32 (parts ! 1) of
                          None \<Rightarrow> Inl ErrPatchMalformed
                        | Some count \<Rightarrow> if count < 0 then Inl ErrPatchMalformed else Inr count)
                     else Inr 1)
                    (\<lambda>count.
                       if count > 0 \<and> start = 0 then Inl ErrPatchMalformed
                       else Inr (start, count)))))"

definition parse_hunk_header :: "bytes \<Rightarrow> (patch_error, int \<times> int \<times> int \<times> int) result" where
  "parse_hunk_header line =
     (if \<not> has_prefix ''@@ '' line then Inl ErrPatchMalformed
      else
        (let body = drop 3 line in
         (case index_of '' @@'' body of
            None \<Rightarrow> Inl ErrPatchMalformed
          | Some end \<Rightarrow>
              (let fs = split_fields (take end body) in
               if length fs \<noteq> 2 then Inl ErrPatchMalformed
               else
                 bind_result (parse_hunk_range (fs ! 0) (CHR ''-'')) (\<lambda>(base_start, base_count).
                   bind_result (parse_hunk_range (fs ! 1) (CHR ''+'')) (\<lambda>(head_start, head_count).
                     Inr (base_start, base_count, head_start, head_count)))))))"

lemma parse_hunk_range_valid:
  "parse_hunk_range v c = Inr (s, n) \<Longrightarrow> valid_hunk_range s n"
  by (auto simp: parse_hunk_range_def valid_hunk_range_def Let_def
      split: if_splits option.splits)

lemma parse_hunk_header_valid:
  "parse_hunk_header line = Inr (bs, bc, hs, hc) \<Longrightarrow> valid_hunk_range bs bc \<and> valid_hunk_range hs hc"
  by (auto simp: parse_hunk_header_def Let_def dest: parse_hunk_range_valid
      split: if_splits option.splits)

text \<open>The header Git prints: each side as start and count, the count left out when it is one.\<close>

definition print_hunk_range :: "char \<Rightarrow> nat \<Rightarrow> nat \<Rightarrow> bytes" where
  "print_hunk_range c start count =
     c # digits 10 start @ (if count = 1 then [] else CHR '','' # digits 10 count)"

definition print_hunk_header :: "nat \<Rightarrow> nat \<Rightarrow> nat \<Rightarrow> nat \<Rightarrow> bytes \<Rightarrow> bytes" where
  "print_hunk_header bs bc hs hc tail =
     ''@@ '' @ print_hunk_range (CHR ''-'') bs bc @ '' '' @ print_hunk_range (CHR ''+'') hs hc
     @ '' @@'' @ tail"

definition hunk_numbers_ok :: "nat \<Rightarrow> nat \<Rightarrow> bool" where
  "hunk_numbers_ok start count \<longleftrightarrow>
     start < 2 ^ 31 \<and> count < 2 ^ 31 \<and> (count = 0 \<or> start \<noteq> 0)"

lemma comma_digits: "CHR '','' \<notin> set (digits 10 n)" "CHR '' '' \<notin> set (digits 10 n)"
  using digits_digit [of 10 _ n] by fastforce+

lemma parse_print_hunk_range:
  assumes "hunk_numbers_ok s n"
  shows "parse_hunk_range (print_hunk_range c s n) c = Inr (int s, int n)"
proof -
  have ints: "parse_int 10 32 (digits 10 s) = Some (int s)" "parse_int 10 32 (digits 10 n) = Some (int n)"
    using assms by (auto intro!: parse_int_digits simp: hunk_numbers_ok_def)
  have "0 < length (digits 10 s)" by simp
  then have len: "\<not> length (print_hunk_range c s n) < 2"
    unfolding print_hunk_range_def by simp
  have "split_on (CHR '','') (tl (print_hunk_range c s n))
      = (if n = 1 then [digits 10 s] else [digits 10 s, digits 10 n])"
    using comma_digits(1)
    by (simp add: print_hunk_range_def split_on_free split_on_append)
  with len ints assms show ?thesis
    by (auto simp: parse_hunk_range_def hunk_numbers_ok_def Let_def print_hunk_range_def)
qed

lemma print_hunk_range_plain:
  "33 \<le> byte c \<Longrightarrow> byte c < 127 \<Longrightarrow> plain_text (print_hunk_range c s n)"
  by (simp add: print_hunk_range_def digits_plain)

lemma index_of_skip:
  "x \<notin> set s \<Longrightarrow> index_of (x # sep) (s @ t) = map_option ((+) (length s)) (index_of (x # sep) t)"
  by (induction s; cases "index_of (x # sep) t") (auto simp: has_prefix_def)

lemma plain_no_blank: "plain_text s \<Longrightarrow> CHR '' '' \<notin> set s"
  by (auto simp: plain_text_def list_all_iff)

lemma parse_print_hunk_header:
  assumes "hunk_numbers_ok bs bc" "hunk_numbers_ok hs hc"
  shows "parse_hunk_header (print_hunk_header bs bc hs hc tail) = Inr (int bs, int bc, int hs, int hc)"
proof -
  let ?b = "print_hunk_range (CHR ''-'') bs bc"
  let ?h = "print_hunk_range (CHR ''+'') hs hc"
  have plain: "plain_text ?b" "plain_text ?h" by (simp_all add: print_hunk_range_plain)
  have ne: "?b \<noteq> []" "?h \<noteq> []" by (simp_all add: print_hunk_range_def)
  obtain h where h: "?h = CHR ''+'' # h" by (simp add: print_hunk_range_def)
  have body: "drop 3 (print_hunk_header bs bc hs hc tail) = ?b @ CHR '' '' # ?h @ '' @@'' @ tail"
    by (simp add: print_hunk_header_def)
  have "index_of '' @@'' (?h @ '' @@'' @ tail) = Some (length ?h)"
    using index_of_skip [OF plain_no_blank [OF plain(2)]] by (simp add: has_prefix_def)
  then have "index_of '' @@'' (CHR '' '' # ?h @ '' @@'' @ tail) = Some (Suc (length ?h))"
    by (simp add: has_prefix_def h)
  then have "index_of '' @@'' (?b @ CHR '' '' # ?h @ '' @@'' @ tail) = Some (length (?b @ CHR '' '' # ?h))"
    using index_of_skip [OF plain_no_blank [OF plain(1)]] by simp
  moreover have "has_prefix ''@@ '' (print_hunk_header bs bc hs hc tail)"
    by (simp add: print_hunk_header_def has_prefix_def)
  moreover have "take (length (?b @ CHR '' '' # ?h)) (?b @ CHR '' '' # ?h @ '' @@'' @ tail)
      = ?b @ CHR '' '' # ?h"
    by simp
  ultimately show ?thesis
    using fields_two [OF plain(1) ne(1) plain(2) ne(2)] parse_print_hunk_range [OF assms(1)]
      parse_print_hunk_range [OF assms(2)]
    by (simp add: parse_hunk_header_def body Let_def del: append_Cons)
qed

text \<open>
  C33. Every hunk header Git can print for ranges below two to the power of 31 is parsed back to
  its four numbers, with a count that was left out read as one, whatever section heading follows.
\<close>

theorem parse_hunk_header_roundtrip:
  assumes "hunk_numbers_ok bs bc" "hunk_numbers_ok hs hc"
  shows "parse_hunk_header (print_hunk_header bs bc hs hc tail) = Inr (int bs, int bc, int hs, int hc)"
  using assms by (rule parse_print_hunk_header)

lemma parse_hunk_header_roundtrip_witness:
  "parse_hunk_header (print_hunk_header 12 3 0 0 '' int main'') = Inr (12, 3, 0, 0)"
  using parse_hunk_header_roundtrip [of 12 3 0 0 "'' int main''"] by (simp add: hunk_numbers_ok_def)

end
