(* ===== verification/Patch_Section.thy ===== *)
theory Patch_Section
  imports Patch_Text
begin

text \<open>
  One file section of a patch: the limits and index records of \<^verbatim>\<open>internal/diff/validate.go\<close> and
  the section builder of \<^verbatim>\<open>parser.go\<close>. The builder is a state record; \<open>consume\<close> is the step it
  takes on one line, with every early return of the source as an error value.
\<close>

subsection \<open>Limits\<close>

definition PatchIndexVersion :: nat where "PatchIndexVersion = 1"

record patch_limits =
  pl_max_patch_bytes :: int
  pl_max_file_bytes :: int
  pl_max_binary_bytes :: int
  pl_max_line_bytes :: int
  pl_max_header_bytes :: int
  pl_max_files :: int
  pl_max_hunks :: int
  pl_max_rows :: int

definition default_patch_limits :: patch_limits where
  "default_patch_limits =
     \<lparr>pl_max_patch_bytes = 256 * 1024 * 1024, pl_max_file_bytes = 16 * 1024 * 1024,
      pl_max_binary_bytes = 256 * 1024 * 1024, pl_max_line_bytes = 1024 * 1024,
      pl_max_header_bytes = 64 * 1024, pl_max_files = 100000, pl_max_hunks = 500000,
      pl_max_rows = 10000000\<rparr>"

definition default_or :: "int \<Rightarrow> int \<Rightarrow> int" where
  "default_or v d = (if v \<noteq> 0 then v else d)"

definition with_defaults :: "patch_limits \<Rightarrow> patch_limits" where
  "with_defaults l =
     (let d = default_patch_limits in
      \<lparr>pl_max_patch_bytes = default_or (pl_max_patch_bytes l) (pl_max_patch_bytes d),
       pl_max_file_bytes = default_or (pl_max_file_bytes l) (pl_max_file_bytes d),
       pl_max_binary_bytes = default_or (pl_max_binary_bytes l) (pl_max_binary_bytes d),
       pl_max_line_bytes = default_or (pl_max_line_bytes l) (pl_max_line_bytes d),
       pl_max_header_bytes = default_or (pl_max_header_bytes l) (pl_max_header_bytes d),
       pl_max_files = default_or (pl_max_files l) (pl_max_files d),
       pl_max_hunks = default_or (pl_max_hunks l) (pl_max_hunks d),
       pl_max_rows = default_or (pl_max_rows l) (pl_max_rows d)\<rparr>)"

definition patch_limits_valid :: "patch_limits \<Rightarrow> bool" where
  "patch_limits_valid l \<longleftrightarrow>
     \<not> (pl_max_patch_bytes l \<le> 0 \<or> pl_max_file_bytes l \<le> 0 \<or> pl_max_binary_bytes l \<le> 0
        \<or> pl_max_line_bytes l \<le> 0 \<or> pl_max_header_bytes l \<le> 0 \<or> pl_max_files l \<le> 0
        \<or> pl_max_hunks l \<le> 0 \<or> pl_max_rows l \<le> 0)
     \<and> \<not> (pl_max_line_bytes l > 2 ^ 31 - 1 \<or> pl_max_header_bytes l > 2 ^ 31 - 1)"

lemma default_patch_limits_valid: "patch_limits_valid default_patch_limits"
  by (simp add: patch_limits_valid_def default_patch_limits_def)

subsection \<open>Index records\<close>

definition is_lower_hex :: "nat \<Rightarrow> bool" where
  "is_lower_hex r \<longleftrightarrow> (48 \<le> r \<and> r \<le> 57) \<or> (97 \<le> r \<and> r \<le> 102)"

definition lower_sha256 :: "bytes \<Rightarrow> bool" where
  "lower_sha256 v \<longleftrightarrow> length v = 64 \<and> list_all is_lower_hex (runes v)"

lemma lower_sha256_hex [simp]: "lower_sha256 (sha256_hex data)"
proof -
  have hex: "list_all (\<lambda>c. 48 \<le> byte c \<and> byte c \<le> 57 \<or> 97 \<le> byte c \<and> byte c \<le> 102) (sha256_hex data)"
    using sha256_hex_lower by (auto simp: list_all_iff)
  then have "list_all (\<lambda>c. byte c < 128) (sha256_hex data)"
    by (auto simp: list_all_iff)
  with ascii_runes [OF this] hex show ?thesis
    by (simp add: lower_sha256_def sha256_hex_length is_lower_hex_def list_all_iff)
qed

record patch_hunk_index =
  ph_version :: nat
  ph_id :: bytes
  ph_offset :: int
  ph_length :: int
  ph_base_start :: int
  ph_base_count :: int
  ph_head_start :: int
  ph_head_count :: int
  ph_rows :: int
  ph_sha256 :: bytes

definition patch_hunk_index_valid :: "patch_hunk_index \<Rightarrow> bool" where
  "patch_hunk_index_valid h \<longleftrightarrow>
     ph_version h = PatchIndexVersion \<and> ph_id h \<noteq> [] \<and> \<not> ph_offset h < 0 \<and> \<not> ph_length h \<le> 0
     \<and> \<not> ph_base_start h < 0 \<and> \<not> ph_base_count h < 0 \<and> \<not> ph_head_start h < 0
     \<and> \<not> ph_head_count h < 0 \<and> \<not> ph_rows h < 0 \<and> lower_sha256 (ph_sha256 h)"

record patch_index_entry =
  pe_version :: nat
  pe_source_id :: bytes
  pe_index :: int
  pe_offset :: int
  pe_length :: int
  pe_header_length :: int
  pe_file :: changed_file
  pe_binary :: bool
  pe_binary_complete :: bool
  pe_binary_offset :: int
  pe_sha256 :: bytes
  pe_hunks :: "patch_hunk_index list"

definition patch_index_entry_valid :: "patch_index_entry \<Rightarrow> bool" where
  "patch_index_entry_valid e \<longleftrightarrow>
     pe_version e = PatchIndexVersion \<and> pe_source_id e \<noteq> [] \<and> \<not> pe_index e < 0
     \<and> \<not> pe_offset e < 0 \<and> \<not> pe_length e \<le> 0 \<and> \<not> pe_header_length e \<le> 0
     \<and> \<not> pe_header_length e > pe_length e \<and> changed_file_valid (pe_file e)
     \<and> lower_sha256 (pe_sha256 e)
     \<and> pe_binary e = cf_binary (pe_file e)
     \<and> \<not> (pe_binary_complete e \<and> \<not> pe_binary e)
     \<and> (if pe_binary e then
          \<not> (pe_binary_offset e < pe_offset e \<or> pe_binary_offset e - pe_offset e \<ge> pe_length e)
        else pe_binary_offset e = 0)
     \<and> list_all (\<lambda>h. patch_hunk_index_valid h \<and> \<not> ph_offset h < pe_offset e
          \<and> \<not> (ph_offset h - pe_offset e > pe_length e
               \<or> ph_length h > pe_length e - (ph_offset h - pe_offset e)))
         (pe_hunks e)"

record patch_index_identity =
  pi_version :: nat
  pi_source_id :: bytes
  pi_size :: int
  pi_sha256 :: bytes
  pi_file_count :: int
  pi_hunk_count :: int
  pi_row_count :: int

definition patch_index_identity_valid :: "patch_index_identity \<Rightarrow> bool" where
  "patch_index_identity_valid i \<longleftrightarrow>
     pi_version i = PatchIndexVersion \<and> pi_source_id i \<noteq> [] \<and> \<not> pi_size i < 0
     \<and> lower_sha256 (pi_sha256 i) \<and> \<not> pi_file_count i < 0 \<and> \<not> pi_hunk_count i < 0
     \<and> \<not> pi_row_count i < 0"

subsection \<open>The builder\<close>

record patch_line =
  pln_offset :: int
  pln_end :: int
  pln_text :: bytes
  pln_terminated :: bool

record hunk_builder =
  hb_index :: patch_hunk_index
  hb_header :: bytes
  hb_base_seen :: int
  hb_head_seen :: int
  hb_rows :: int
  hb_lines :: "diff_line list"
  hb_collect :: bool
  hb_last_content_index :: int
  hb_last_content_kind :: diff_line_kind
  hb_base_no_newline_seen :: bool
  hb_head_no_newline_seen :: bool

record section_builder =
  sb_start :: int
  sb_header_len :: int
  sb_last_end :: int
  sb_old_path :: "repo_path option"
  sb_new_path :: "repo_path option"
  sb_rename_from :: "repo_path option"
  sb_rename_to :: "repo_path option"
  sb_copy_from :: "repo_path option"
  sb_copy_to :: "repo_path option"
  sb_old_mode :: nat
  sb_new_mode :: nat
  sb_index_mode :: nat
  sb_old_mode_set :: bool
  sb_new_mode_set :: bool
  sb_index_mode_set :: bool
  sb_old_object :: "object_id option"
  sb_new_object :: "object_id option"
  sb_binary :: bool
  sb_binary_start :: int
  sb_binary_complete :: bool
  sb_metadata_bytes :: int
  sb_hunk :: "hunk_builder option"
  sb_hunks :: "patch_hunk_index list"
  sb_diff_hunks :: "diff_hunk list"
  sb_collect :: bool
  sb_total_rows :: int
  sb_similarity_percent :: nat
  sb_similarity_set :: bool

type_synonym section_result = "(patch_error, section_builder) result"

definition new_section :: "patch_line \<Rightarrow> patch_limits \<Rightarrow> bool \<Rightarrow> section_result" where
  "new_section line limits collect =
     bind_result (parse_git_header_paths (pln_text line)) (\<lambda>(old_raw, new_raw).
     bind_result (parse_repo_path old_raw ''a/'' False) (\<lambda>old_path.
     bind_result (parse_repo_path new_raw ''b/'' False) (\<lambda>new_path.
       if pln_end line - pln_offset line > pl_max_header_bytes limits then Inl ErrPatchLimit
       else Inr
         \<lparr>sb_start = pln_offset line, sb_header_len = pln_end line - pln_offset line,
          sb_last_end = pln_end line, sb_old_path = old_path, sb_new_path = new_path,
          sb_rename_from = None, sb_rename_to = None, sb_copy_from = None, sb_copy_to = None,
          sb_old_mode = 0, sb_new_mode = 0, sb_index_mode = 0, sb_old_mode_set = False,
          sb_new_mode_set = False, sb_index_mode_set = False, sb_old_object = None,
          sb_new_object = None, sb_binary = False, sb_binary_start = -1,
          sb_binary_complete = False, sb_metadata_bytes = pln_end line - pln_offset line,
          sb_hunk = None, sb_hunks = [], sb_diff_hunks = [], sb_collect = collect,
          sb_total_rows = 0, sb_similarity_percent = 0, sb_similarity_set = False\<rparr>)))"

subsection \<open>Lines of a hunk\<close>

definition no_newline_marker :: bytes where
  "no_newline_marker = BSL # '' No newline at end of file''"

definition diff_line_of :: "diff_line_kind \<Rightarrow> bytes \<Rightarrow> hunk_builder \<Rightarrow> diff_line" where
  "diff_line_of kind line_text h =
     (let crlf = line_text \<noteq> [] \<and> last line_text = CR;
          base = hb_base_seen h + ph_base_start (hb_index h);
          head = hb_head_seen h + ph_head_start (hb_index h) in
      \<lparr>dl_kind = kind,
       dl_base_line = (if kind = DiffLineContext \<or> kind = DiffLineDeleted then Some base else None),
       dl_head_line = (if kind = DiffLineContext \<or> kind = DiffLineAdded then Some head else None),
       dl_text = (if crlf then butlast line_text else line_text),
       dl_terminator = (if crlf then TerminatorCRLF else TerminatorLF),
       dl_no_newline_base = False, dl_no_newline_head = False\<rparr>)"

definition line_kind :: "bytes \<Rightarrow> diff_line_kind" where
  "line_kind text =
     (if hd text = CHR ''+'' then DiffLineAdded
      else if hd text = CHR ''-'' then DiffLineDeleted
      else DiffLineContext)"

text \<open>The text is not empty: the caller has looked at its first byte.\<close>

definition consume_diff_line :: "section_builder \<Rightarrow> bytes \<Rightarrow> patch_limits \<Rightarrow> section_result" where
  "consume_diff_line b text limits =
     (case sb_hunk b of
        None \<Rightarrow> Inl ErrPatchMalformed
      | Some h \<Rightarrow>
          if sb_total_rows b = max_int64 then Inl ErrPatchLimit
          else
            (let kind = line_kind text;
                 line = diff_line_of kind (tl text) h;
                 b = b\<lparr>sb_total_rows := sb_total_rows b + 1\<rparr>;
                 h = h\<lparr>hb_rows := hb_rows h + 1,
                       hb_base_seen := hb_base_seen h
                         + (if kind = DiffLineContext \<or> kind = DiffLineDeleted then 1 else 0),
                       hb_head_seen := hb_head_seen h
                         + (if kind = DiffLineContext \<or> kind = DiffLineAdded then 1 else 0)\<rparr>
             in if hb_base_seen h > ph_base_count (hb_index h)
                   \<or> hb_head_seen h > ph_head_count (hb_index h) then Inl ErrPatchMalformed
                else
                  (let h = h\<lparr>hb_last_content_kind := kind\<rparr>;
                       h = (if sb_collect b
                            then h\<lparr>hb_last_content_index := int (length (hb_lines h)),
                                   hb_lines := hb_lines h @ [line]\<rparr>
                            else h)
                   in if sb_total_rows b > pl_max_rows limits then Inl ErrPatchLimit
                      else Inr (b\<lparr>sb_hunk := Some h\<rparr>))))"

definition no_newline_line :: "bool \<Rightarrow> bool \<Rightarrow> diff_line" where
  "no_newline_line base head =
     \<lparr>dl_kind = DiffLineNoNewline, dl_base_line = None, dl_head_line = None,
      dl_text = no_newline_marker, dl_terminator = NoTerminator, dl_no_newline_base = base,
      dl_no_newline_head = head\<rparr>"

definition mark_no_newline :: "bool \<Rightarrow> bool \<Rightarrow> diff_line \<Rightarrow> diff_line" where
  "mark_no_newline base head l =
     l\<lparr>dl_terminator := TerminatorNone, dl_no_newline_base := base, dl_no_newline_head := head\<rparr>"

definition consume_no_newline_marker :: "section_builder \<Rightarrow> section_result" where
  "consume_no_newline_marker b =
     (case sb_hunk b of
        None \<Rightarrow> Inl ErrPatchMalformed
      | Some h \<Rightarrow>
          (let kind = hb_last_content_kind h;
               base = (kind = DiffLineDeleted \<or> kind = DiffLineContext);
               head = (kind = DiffLineAdded \<or> kind = DiffLineContext) in
           if \<not> base \<and> \<not> head then Inl ErrPatchMalformed
           else if base \<and> hb_base_no_newline_seen h \<or> head \<and> hb_head_no_newline_seen h
             then Inl ErrPatchMalformed
           else if sb_collect b
                \<and> (hb_last_content_index h < 0
                   \<or> hb_last_content_index h \<ge> int (length (hb_lines h)))
             then Inl ErrPatchMalformed
           else
             (let i = nat (hb_last_content_index h);
                  lines =
                    (if sb_collect b then
                       (hb_lines h)[i := mark_no_newline base head (hb_lines h ! i)]
                       @ [no_newline_line base head]
                     else hb_lines h)
              in Inr (b\<lparr>sb_hunk := Some (h\<lparr>hb_lines := lines,
                   hb_base_no_newline_seen := hb_base_no_newline_seen h \<or> base,
                   hb_head_no_newline_seen := hb_head_no_newline_seen h \<or> head\<rparr>)\<rparr>))))"

definition start_hunk :: "section_builder \<Rightarrow> patch_line \<Rightarrow> patch_limits \<Rightarrow> section_result" where
  "start_hunk b line limits =
     (if int (length (sb_hunks b)) \<ge> pl_max_hunks limits then Inl ErrPatchLimit
      else
        bind_result (parse_hunk_header (pln_text line))
          (\<lambda>(base_start, base_count, head_start, head_count).
             Inr (b\<lparr>sb_hunk := Some
               \<lparr>hb_index =
                  \<lparr>ph_version = PatchIndexVersion, ph_id = sha256_hex (pln_text line),
                   ph_offset = pln_offset line, ph_length = 0, ph_base_start = base_start,
                   ph_base_count = base_count, ph_head_start = head_start,
                   ph_head_count = head_count, ph_rows = 0, ph_sha256 = []\<rparr>,
                hb_header = pln_text line, hb_base_seen = 0, hb_head_seen = 0, hb_rows = 0,
                hb_lines = [], hb_collect = sb_collect b, hb_last_content_index = -1,
                hb_last_content_kind = DiffLineOther [], hb_base_no_newline_seen = False,
                hb_head_no_newline_seen = False\<rparr>\<rparr>)))"

definition hunk_of :: "hunk_builder \<Rightarrow> diff_hunk" where
  "hunk_of h =
     \<lparr>dh_id = ph_id (hb_index h), dh_base_start = ph_base_start (hb_index h),
      dh_base_count = ph_base_count (hb_index h), dh_head_start = ph_head_start (hb_index h),
      dh_head_count = ph_head_count (hb_index h), dh_header = hb_header h,
      dh_lines = hb_lines h\<rparr>"

definition finish_hunk :: "section_builder \<Rightarrow> int \<Rightarrow> patch_limits \<Rightarrow> section_result" where
  "finish_hunk b end_offset limits =
     (case sb_hunk b of
        None \<Rightarrow> Inr b
      | Some h \<Rightarrow>
          if hb_base_seen h \<noteq> ph_base_count (hb_index h)
             \<or> hb_head_seen h \<noteq> ph_head_count (hb_index h) then Inl ErrPatchMalformed
          else if end_offset \<le> ph_offset (hb_index h) then Inl ErrPatchMalformed
          else
            (let index = (hb_index h)\<lparr>ph_length := end_offset - ph_offset (hb_index h),
                           ph_rows := hb_rows h\<rparr> in
             if sb_collect b \<and> \<not> diff_hunk_valid (hunk_of h) then Inl ErrPatchMalformed
             else
               (let b = b\<lparr>sb_diff_hunks :=
                            (if sb_collect b then sb_diff_hunks b @ [hunk_of h]
                             else sb_diff_hunks b),
                          sb_hunks := sb_hunks b @ [index], sb_hunk := None\<rparr>
                in if int (length (sb_hunks b)) > pl_max_hunks limits then Inl ErrPatchLimit
                   else Inr b)))"

subsection \<open>Metadata lines\<close>

definition consume_index :: "section_builder \<Rightarrow> bytes \<Rightarrow> section_result" where
  "consume_index b value =
     (let fs = split_fields value in
      if length fs < 1 \<or> length fs > 2 then Inl ErrPatchMalformed
      else
        (let parts = split_sub ''..'' (fs ! 0) in
         if length parts \<noteq> 2 then Inl ErrPatchMalformed
         else
           bind_result (parse_patch_object (parts ! 0)) (\<lambda>old_object.
           bind_result (parse_patch_object (parts ! 1)) (\<lambda>new_object.
             (let b = b\<lparr>sb_old_object := old_object, sb_new_object := new_object\<rparr> in
              if length fs = 2 then
                bind_result (parse_mode (fs ! 1))
                  (\<lambda>mode. Inr (b\<lparr>sb_index_mode := mode, sb_index_mode_set := True\<rparr>))
              else Inr b)))))"

definition after :: "bytes \<Rightarrow> bytes \<Rightarrow> bytes" where
  "after prefix text = drop (length prefix) text"

definition extended_path :: "bytes \<Rightarrow> (patch_error, repo_path option) result" where
  "extended_path raw = parse_repo_path raw [] (raw \<noteq> [] \<and> hd raw = DQ)"

definition section_prefixes :: "bytes list" where
  "section_prefixes =
     [''@@ '', ''old mode '', ''new mode '', ''new file mode '', ''deleted file mode '', ''index '',
      ''rename from '', ''rename to '', ''copy from '', ''copy to '', ''--- '', ''+++ '',
      ''Binary files '', ''GIT binary patch'']"

definition is_section_record :: "bytes \<Rightarrow> bool" where
  "is_section_record text \<longleftrightarrow> list_ex (\<lambda>p. has_prefix p text) section_prefixes"

definition combined_diff :: "bytes \<Rightarrow> bool" where
  "combined_diff text \<longleftrightarrow> has_prefix ''diff --cc '' text \<or> has_prefix ''diff --combined '' text"

definition consume_metadata :: "section_builder \<Rightarrow> patch_line \<Rightarrow> patch_limits \<Rightarrow> section_result" where
  "consume_metadata b line limits =
     (let text = pln_text line;
          b = b\<lparr>sb_metadata_bytes := sb_metadata_bytes b + (pln_end line - pln_offset line)\<rparr> in
      if sb_metadata_bytes b > pl_max_header_bytes limits then Inl ErrPatchLimit
      else if has_prefix ''@@ '' text then start_hunk b line limits
      else if text = ''GIT binary patch'' then
        Inr (b\<lparr>sb_binary := True, sb_binary_start := pln_offset line, sb_binary_complete := True\<rparr>)
      else if has_prefix ''Binary files '' text then
        Inr (b\<lparr>sb_binary := True, sb_binary_start := pln_offset line\<rparr>)
      else if has_prefix ''old mode '' text then
        bind_result (parse_mode (after ''old mode '' text))
          (\<lambda>mode. Inr (b\<lparr>sb_old_mode := mode, sb_old_mode_set := True\<rparr>))
      else if has_prefix ''new mode '' text then
        bind_result (parse_mode (after ''new mode '' text))
          (\<lambda>mode. Inr (b\<lparr>sb_new_mode := mode, sb_new_mode_set := True\<rparr>))
      else if has_prefix ''new file mode '' text then
        bind_result (parse_mode (after ''new file mode '' text))
          (\<lambda>mode. Inr (b\<lparr>sb_new_mode := mode, sb_new_mode_set := True, sb_old_path := None\<rparr>))
      else if has_prefix ''deleted file mode '' text then
        bind_result (parse_mode (after ''deleted file mode '' text))
          (\<lambda>mode. Inr (b\<lparr>sb_old_mode := mode, sb_old_mode_set := True, sb_new_path := None\<rparr>))
      else if has_prefix ''index '' text then consume_index b (after ''index '' text)
      else if has_prefix ''rename from '' text then
        bind_result (extended_path (after ''rename from '' text)) (\<lambda>p. Inr (b\<lparr>sb_rename_from := p\<rparr>))
      else if has_prefix ''rename to '' text then
        bind_result (extended_path (after ''rename to '' text)) (\<lambda>p. Inr (b\<lparr>sb_rename_to := p\<rparr>))
      else if has_prefix ''copy from '' text then
        bind_result (extended_path (after ''copy from '' text)) (\<lambda>p. Inr (b\<lparr>sb_copy_from := p\<rparr>))
      else if has_prefix ''copy to '' text then
        bind_result (extended_path (after ''copy to '' text)) (\<lambda>p. Inr (b\<lparr>sb_copy_to := p\<rparr>))
      else if has_prefix ''--- '' text then
        bind_result (parse_patch_path_line (drop 4 text) ''a/'') (\<lambda>p. Inr (b\<lparr>sb_old_path := p\<rparr>))
      else if has_prefix ''+++ '' text then
        bind_result (parse_patch_path_line (drop 4 text) ''b/'') (\<lambda>p. Inr (b\<lparr>sb_new_path := p\<rparr>))
      else if has_prefix ''similarity index '' text then
        bind_result (parse_similarity_percent (after ''similarity index '' text))
          (\<lambda>v. Inr (b\<lparr>sb_similarity_percent := v, sb_similarity_set := True\<rparr>))
      else if has_prefix ''dissimilarity index '' text then Inr b
      else Inl ErrPatchMalformed)"

definition consume_outside :: "section_builder \<Rightarrow> patch_line \<Rightarrow> patch_limits \<Rightarrow> section_result" where
  "consume_outside b line limits =
     (if sb_binary b then
        (if combined_diff (pln_text line) then Inl ErrPatchUnsupported else Inr b)
      else consume_metadata b line limits)"

text \<open>
  The step on one line. A record line inside a hunk closes the hunk and is then handled again, this
  time outside of it.
\<close>

definition consume :: "section_builder \<Rightarrow> patch_line \<Rightarrow> patch_limits \<Rightarrow> section_result" where
  "consume b line limits =
     (let b = b\<lparr>sb_last_end := pln_end line\<rparr>; text = pln_text line in
      case sb_hunk b of
        None \<Rightarrow> consume_outside b line limits
      | Some _ \<Rightarrow>
          if text \<noteq> [] \<and> (hd text = CHR '' '' \<or> hd text = CHR ''+'' \<or> hd text = CHR ''-'')
            then consume_diff_line b text limits
          else if text = no_newline_marker then consume_no_newline_marker b
          else if is_section_record text then
            bind_result (finish_hunk b (pln_offset line) limits)
              (\<lambda>b. consume_outside (b\<lparr>sb_last_end := pln_end line\<rparr>) line limits)
          else Inl ErrPatchMalformed)"

fun consume_all :: "section_builder \<Rightarrow> patch_line list \<Rightarrow> patch_limits \<Rightarrow> section_result" where
  "consume_all b [] limits = Inr b"
| "consume_all b (l # ls) limits = bind_result (consume b l limits) (\<lambda>b. consume_all b ls limits)"

subsection \<open>The changed file of a section\<close>

definition pick :: "'a option \<Rightarrow> 'a option \<Rightarrow> 'a option" where
  "pick preferred otherwise = (case preferred of None \<Rightarrow> otherwise | Some _ \<Rightarrow> preferred)"

definition section_old_path :: "section_builder \<Rightarrow> repo_path option" where
  "section_old_path b = pick (sb_copy_from b) (pick (sb_rename_from b) (sb_old_path b))"

definition section_new_path :: "section_builder \<Rightarrow> repo_path option" where
  "section_new_path b = pick (sb_copy_to b) (pick (sb_rename_to b) (sb_new_path b))"

definition section_mode :: "repo_path option \<Rightarrow> bool \<Rightarrow> nat \<Rightarrow> nat \<Rightarrow> nat" where
  "section_mode path mode_set mode index_mode =
     (let m = (if \<not> mode_set then index_mode else mode) in
      if path \<noteq> None \<and> m = 0 then 33188 else m)"

definition section_kind :: "section_builder \<Rightarrow> file_kind \<Rightarrow> file_kind \<Rightarrow> change_kind" where
  "section_kind b old_kind new_kind =
     (if section_old_path b = None \<and> section_new_path b \<noteq> None then ChangeAdded
      else if section_old_path b \<noteq> None \<and> section_new_path b = None then ChangeDeleted
      else if sb_rename_from b \<noteq> None \<or> sb_rename_to b \<noteq> None then ChangeRenamed
      else if sb_copy_from b \<noteq> None \<or> sb_copy_to b \<noteq> None then ChangeCopied
      else if old_kind \<noteq> new_kind then ChangeTypeChanged
      else ChangeModified)"

definition opaque_hunks :: "diff_hunk list \<Rightarrow> bool" where
  "opaque_hunks hs \<longleftrightarrow>
     list_ex (\<lambda>h. list_ex (\<lambda>l. NUL \<in> set (dl_text l) \<or> \<not> utf8_valid (dl_text l)) (dh_lines h)) hs"

text \<open>
  The result carries the builder: a section whose lines turn out not to be text is turned into a
  binary one.
\<close>

definition changed_file_of ::
    "section_builder \<Rightarrow> section_builder \<times> (patch_error, changed_file) result" where
  "changed_file_of b =
     (let old_path = section_old_path b; new_path = section_new_path b;
          old_mode = section_mode old_path (sb_old_mode_set b) (sb_old_mode b) (sb_index_mode b);
          new_mode = section_mode new_path (sb_new_mode_set b) (sb_new_mode b) (sb_index_mode b);
          old_kind = mode_kind old_mode; new_kind = mode_kind new_mode;
          kind = section_kind b old_kind new_kind;
          file = \<lparr>cf_old_path = old_path, cf_new_path = new_path, cf_kind = kind,
            cf_old_file_kind = old_kind, cf_new_file_kind = new_kind, cf_old_mode = old_mode,
            cf_new_mode = new_mode, cf_old_object_id = sb_old_object b,
            cf_new_object_id = sb_new_object b, cf_review_only = None, cf_mode_transition = None,
            cf_content_class = NoContentClass, cf_old_text = None, cf_new_text = None,
            cf_binary = sb_binary b, cf_staged = False, cf_unstaged = False, cf_conflict = None,
            cf_rename = None\<rparr>;
          moved = (kind = ChangeRenamed \<or> kind = ChangeCopied);
          regular = (old_kind = FileKindRegular \<or> new_kind = FileKindRegular);
          transition =
            (if old_path \<noteq> None \<and> new_path \<noteq> None \<and> (old_mode \<noteq> new_mode \<or> old_kind \<noteq> new_kind)
             then
               (case new_mode_transition old_mode new_mode of
                  Inl _ \<Rightarrow> Inl ErrPatchMalformed
                | Inr t \<Rightarrow>
                    if mt_kind t = ModeTypeChanged \<and> moved then Inl ErrPatchMalformed
                    else Inr (file\<lparr>cf_mode_transition := Some t,
                           cf_kind := (if mt_kind t = ModeTypeChanged then ChangeTypeChanged else kind)\<rparr>))
             else Inr file)
      in case transition of
           Inl e \<Rightarrow> (b, Inl e)
         | Inr file \<Rightarrow>
             (let opaque = (\<not> sb_binary b \<and> regular \<and> opaque_hunks (sb_diff_hunks b));
                  file = (if sb_binary b \<and> regular then file\<lparr>cf_content_class := ContentClassRegularBinary\<rparr>
                          else if regular \<and> sb_diff_hunks b \<noteq> [] then
                            file\<lparr>cf_content_class :=
                              (if opaque then ContentClassOpaqueBytes else ContentClassRegularTextUTF8),
                              cf_binary := cf_binary file \<or> opaque\<rparr>
                          else file);
                  b = (if opaque then b\<lparr>sb_binary := True, sb_binary_start := sb_start b,
                         sb_diff_hunks := [], sb_hunks := []\<rparr> else b);
                  renamed =
                    (if moved then
                       (if \<not> sb_similarity_set b then Inl ErrPatchMalformed
                        else
                          (case new_rename_evidence 1 (sb_similarity_percent b) kind
                                  (the old_path) (the new_path) of
                             Inl _ \<Rightarrow> Inl ErrPatchMalformed
                           | Inr e \<Rightarrow> Inr (file\<lparr>cf_rename := Some e\<rparr>)))
                     else Inr file)
              in case renamed of
                   Inl e \<Rightarrow> (b, Inl e)
                 | Inr file \<Rightarrow>
                     (b, if changed_file_valid file then Inr file else Inl ErrPatchMalformed)))"

definition binary_offset :: "section_builder \<Rightarrow> int \<Rightarrow> int" where
  "binary_offset b end_offset =
     (if sb_binary_start b \<ge> sb_start b \<and> sb_binary_start b < end_offset then sb_binary_start b
      else sb_start b)"


subsection \<open>The open hunk\<close>

lemma hunk_lines_walk_append:
  "hunk_lines_walk (b, h, bc, hc) ls = Some (bn, hn) \<Longrightarrow>
   hunk_lines_walk (b, h, bc, hc) (ls @ ms) = hunk_lines_walk (b + (bn - bc), h + (hn - hc), bn, hn) ms"
proof (induction ls arbitrary: b h bc hc)
  case (Cons l ls)
  then show ?case
    by (cases "dl_kind l") (auto simp: algebra_simps split: if_splits)
qed simp

lemma mark_no_newline_simps [simp]:
  "dl_kind (mark_no_newline x y l) = dl_kind l"
  "dl_base_line (mark_no_newline x y l) = dl_base_line l"
  "dl_head_line (mark_no_newline x y l) = dl_head_line l"
  "dl_terminator (mark_no_newline x y l) = TerminatorNone"
  by (simp_all add: mark_no_newline_def)

lemma diff_line_valid_mark: "diff_line_valid l \<Longrightarrow> diff_line_valid (mark_no_newline x y l)"
  by (auto simp: diff_line_valid_def line_terminator_valid_def diff_line_kind_valid_def
      split: diff_line_kind.splits)

lemma hunk_lines_walk_mark:
  "hunk_lines_walk s ls = Some r \<Longrightarrow> i < length ls \<Longrightarrow>
   hunk_lines_walk s (ls[i := mark_no_newline x y (ls ! i)]) = Some r"
proof (induction ls arbitrary: s i)
  case (Cons l ls)
  obtain b h bc hc where s: "s = (b, h, bc, hc)" by (cases s)
  show ?case
  proof (cases i)
    case 0
    with Cons.prems s diff_line_valid_mark [of l x y] show ?thesis
      by (auto split: if_splits diff_line_kind.splits)
  next
    case (Suc j)
    with Cons s show ?thesis by (auto split: if_splits diff_line_kind.splits)
  qed
qed simp

definition content_lines :: "diff_line list \<Rightarrow> nat" where
  "content_lines ls = length (filter (\<lambda>l. dl_kind l \<noteq> DiffLineNoNewline) ls)"

lemma content_lines_append [simp]: "content_lines (ls @ ms) = content_lines ls + content_lines ms"
  by (simp add: content_lines_def)

lemma content_lines_mark:
  "i < length ls \<Longrightarrow> content_lines (ls[i := mark_no_newline x y (ls ! i)]) = content_lines ls"
  by (induction ls arbitrary: i) (auto simp: content_lines_def nth_Cons split: nat.splits)

text \<open>
  The invariant of an open hunk: its ranges are valid, the lines seen stay within them, and the
  collected lines number both sides consecutively up to the lines seen.
\<close>

definition hunk_inv :: "bool \<Rightarrow> hunk_builder \<Rightarrow> bool" where
  "hunk_inv collect h \<longleftrightarrow>
     valid_hunk_range (ph_base_start (hb_index h)) (ph_base_count (hb_index h))
     \<and> valid_hunk_range (ph_head_start (hb_index h)) (ph_head_count (hb_index h))
     \<and> ph_version (hb_index h) = PatchIndexVersion
     \<and> (\<exists>text. ph_id (hb_index h) = sha256_hex text)
     \<and> 0 \<le> hb_base_seen h \<and> hb_base_seen h \<le> ph_base_count (hb_index h)
     \<and> 0 \<le> hb_head_seen h \<and> hb_head_seen h \<le> ph_head_count (hb_index h)
     \<and> 0 \<le> hb_rows h
     \<and> (collect \<longrightarrow>
          hunk_lines_walk (ph_base_start (hb_index h), ph_head_start (hb_index h), 0, 0) (hb_lines h)
            = Some (hb_base_seen h, hb_head_seen h)
          \<and> hb_rows h = int (content_lines (hb_lines h)))"

definition section_inv :: "section_builder \<Rightarrow> bool" where
  "section_inv b \<longleftrightarrow> opt_all (hunk_inv (sb_collect b)) (sb_hunk b)"

lemma start_hunk_inv [preserved]: "start_hunk b line limits = Inr b' \<Longrightarrow> section_inv b'"
  by (auto simp: start_hunk_def section_inv_def hunk_inv_def content_lines_def valid_hunk_range_def
      dest!: parse_hunk_header_valid split: if_splits)

lemma diff_line_of_walk:
  assumes "hunk_inv True h" "kind \<in> {DiffLineContext, DiffLineAdded, DiffLineDeleted}"
    and "kind \<noteq> DiffLineAdded \<longrightarrow> hb_base_seen h < ph_base_count (hb_index h)"
    and "kind \<noteq> DiffLineDeleted \<longrightarrow> hb_head_seen h < ph_head_count (hb_index h)"
  shows "hunk_lines_walk (ph_base_start (hb_index h) + hb_base_seen h,
      ph_head_start (hb_index h) + hb_head_seen h, hb_base_seen h, hb_head_seen h)
      [diff_line_of kind t h]
    = Some (hb_base_seen h + (if kind = DiffLineAdded then 0 else 1),
        hb_head_seen h + (if kind = DiffLineDeleted then 0 else 1))"
  using assms
  by (auto simp: hunk_inv_def diff_line_of_def diff_line_valid_def diff_line_kind_valid_def
      positive_line_def valid_hunk_range_def line_terminator_valid_def Let_def)

lemma consume_diff_line_inv [preserved]:
  assumes "consume_diff_line b text limits = Inr b'" "section_inv b"
  shows "section_inv b'"
proof -
  obtain h where h: "sb_hunk b = Some h" using assms(1) by (auto simp: consume_diff_line_def split: option.splits)
  let ?k = "line_kind text"
  have k: "?k \<in> {DiffLineContext, DiffLineAdded, DiffLineDeleted}" by (simp add: line_kind_def)
  have inv: "hunk_inv (sb_collect b) h" using assms(2) h by (simp add: section_inv_def)
  have room: "?k \<noteq> DiffLineAdded \<longrightarrow> hb_base_seen h < ph_base_count (hb_index h)"
    "?k \<noteq> DiffLineDeleted \<longrightarrow> hb_head_seen h < ph_head_count (hb_index h)"
    using assms(1) h k by (auto simp: consume_diff_line_def Let_def split: if_splits)
  show ?thesis
  proof (cases "sb_collect b")
    case True
    with diff_line_of_walk [OF _ k room, of "tl text"] inv h assms(1) k show ?thesis
      by (auto simp: consume_diff_line_def section_inv_def hunk_inv_def Let_def
          hunk_lines_walk_append content_lines_def diff_line_of_def split: if_splits)
  next
    case False
    with inv h assms(1) k show ?thesis
      by (auto simp: consume_diff_line_def section_inv_def hunk_inv_def Let_def split: if_splits)
  qed
qed


lemma hunk_lines_walk_marker:
  "hunk_lines_walk s ls = Some r \<Longrightarrow> hunk_lines_walk s (ls @ [no_newline_line x y]) = Some r"
proof -
  assume walk: "hunk_lines_walk s ls = Some r"
  obtain b h bc hc where s: "s = (b, h, bc, hc)" by (cases s)
  obtain bn hn where r: "r = (bn, hn)" by (cases r)
  have "diff_line_valid (no_newline_line x y)"
    by (simp add: diff_line_valid_def diff_line_kind_valid_def no_newline_line_def)
  then show ?thesis
    using walk by (simp add: s r hunk_lines_walk_append) (simp add: no_newline_line_def)
qed

lemma consume_no_newline_marker_inv [preserved]:
  assumes "consume_no_newline_marker b = Inr b'" "section_inv b"
  shows "section_inv b'"
proof -
  obtain h where h: "sb_hunk b = Some h"
    using assms(1) by (auto simp: consume_no_newline_marker_def split: option.splits)
  have inv: "hunk_inv (sb_collect b) h" using assms(2) h by (simp add: section_inv_def)
  have marker: "content_lines [no_newline_line x y] = 0" for x y
    by (simp add: content_lines_def no_newline_line_def)
  show ?thesis
    using assms(1) inv h
    by (auto simp: consume_no_newline_marker_def section_inv_def hunk_inv_def Let_def marker
        content_lines_mark split: if_splits intro!: hunk_lines_walk_marker hunk_lines_walk_mark)
qed

lemma finish_hunk_none: "finish_hunk b e limits = Inr b' \<Longrightarrow> sb_hunk b' = None \<and> sb_collect b' = sb_collect b"
  by (auto simp: finish_hunk_def Let_def split: option.splits if_splits)

lemma section_inv_None: "sb_hunk b = None \<Longrightarrow> section_inv b"
  by (simp add: section_inv_def)

lemma consume_index_hunk: "consume_index b v = Inr b' \<Longrightarrow> sb_hunk b' = sb_hunk b"
  by (auto simp: consume_index_def Let_def split: if_splits)

lemma consume_index_inv: "consume_index b v = Inr b' \<Longrightarrow> sb_hunk b = None \<Longrightarrow> section_inv b'"
  by (simp add: consume_index_hunk section_inv_None)

lemma consume_metadata_inv:
  assumes "consume_metadata b line limits = Inr b'" "sb_hunk b = None"
  shows "section_inv b'"
  using assms
  by (auto simp: consume_metadata_def Let_def split: if_splits
      intro: start_hunk_inv consume_index_inv section_inv_None)

lemma consume_inv [preserved]:
  assumes "consume b line limits = Inr b'" "section_inv b"
  shows "section_inv b'"
proof -
  let ?b = "b\<lparr>sb_last_end := pln_end line\<rparr>"
  have inv: "section_inv ?b" using assms(2) by (simp add: section_inv_def)
  have outside: "section_inv b''" if "consume_outside c line limits = Inr b''" "sb_hunk c = None" for c b''
    using that by (auto simp: consume_outside_def section_inv_None split: if_splits
        dest: consume_metadata_inv)
  show ?thesis
  proof (cases "sb_hunk b")
    case None
    with assms(1) outside [of ?b] show ?thesis by (simp add: consume_def Let_def)
  next
    case (Some h)
    with assms(1) inv show ?thesis
      by (auto simp: consume_def Let_def split: if_splits dest!: finish_hunk_none
          intro: consume_diff_line_inv consume_no_newline_marker_inv outside)
  qed
qed

lemma consume_all_inv: "consume_all b ls limits = Inr b' \<Longrightarrow> section_inv b \<Longrightarrow> section_inv b'"
  by (induction ls arbitrary: b) (auto intro: consume_inv)

lemma new_section_inv: "new_section line limits collect = Inr b \<Longrightarrow> section_inv b"
  by (auto simp: new_section_def section_inv_def split: if_splits)

lemma hunk_of_valid:
  assumes "hunk_inv True h" "hb_base_seen h = ph_base_count (hb_index h)"
    "hb_head_seen h = ph_head_count (hb_index h)"
  shows "diff_hunk_valid (hunk_of h)"
  using assms sha256_hex_not_Nil [THEN not_sym]
  by (auto simp: diff_hunk_valid_def hunk_of_def hunk_inv_def sha256_hex_valid_text)

text \<open>
  Closing a hunk can only fail for one of three reasons: its header promised other line counts
  than were seen, its byte range is empty, or there are too many hunks. The validation of the hunk
  that was built never fails: whatever lines the section consumed, the collected hunk numbers its
  lines as its header says, its digest identity is well formed, and its row count is the number of
  its content lines.
\<close>

theorem finish_hunk_correct:
  assumes "new_section first limits collect = Inr b0" "consume_all b0 ls limits = Inr b"
    and "sb_hunk b = Some h"
  shows "if hb_base_seen h \<noteq> ph_base_count (hb_index h) \<or> hb_head_seen h \<noteq> ph_head_count (hb_index h)
            \<or> end_offset \<le> ph_offset (hb_index h)
    then finish_hunk b end_offset limits = Inl ErrPatchMalformed
    else if int (length (sb_hunks b)) \<ge> pl_max_hunks limits
    then finish_hunk b end_offset limits = Inl ErrPatchLimit
    else (\<exists>b'. finish_hunk b end_offset limits = Inr b' \<and> sb_hunk b' = None
      \<and> ph_offset (last (sb_hunks b')) + ph_length (last (sb_hunks b')) = end_offset
      \<and> (sb_collect b \<longrightarrow> diff_hunk_valid (last (sb_diff_hunks b'))
          \<and> dh_lines (last (sb_diff_hunks b')) = hb_lines h
          \<and> ph_rows (last (sb_hunks b')) = int (content_lines (hb_lines h))))"
proof -
  have "section_inv b"
    using consume_all_inv [OF assms(2) new_section_inv [OF assms(1)]] .
  then have inv: "hunk_inv (sb_collect b) h" using assms(3) by (simp add: section_inv_def)
  show ?thesis
    using assms(3) inv hunk_of_valid [of h]
    by (auto simp: finish_hunk_def Let_def hunk_of_def hunk_inv_def)
qed


lemma finish_hunk_correct_witness:
  "\<exists>first ls b0 b h. new_section first default_patch_limits True = Inr b0
    \<and> consume_all b0 ls default_patch_limits = Inr b \<and> sb_hunk b = Some h \<and> length (hb_lines h) = 2
    \<and> is_ok (finish_hunk b 41 default_patch_limits)"
proof -
  let ?L = default_patch_limits
  let ?ln = "\<lambda>s e t. \<lparr>pln_offset = s, pln_end = e, pln_text = t, pln_terminated = True\<rparr>"
  let ?first = "?ln 0 23 ''diff --git a/x b/x''"
  let ?ls = "[?ln 23 35 (print_hunk_header 1 1 1 1 []), ?ln 35 38 ''-a'', ?ln 38 41 ''+b'']"
  have header: "parse_git_header_paths ''diff --git a/x b/x'' = Inr (''a/x'', ''b/x'')"
    "parse_repo_path ''a/x'' ''a/'' False = Inr (Some ''x'')"
    "parse_repo_path ''b/x'' ''b/'' False = Inr (Some ''x'')"
    by code_simp+
  then obtain b0 where b0: "new_section ?first ?L True = Inr b0"
    and f: "sb_hunk b0 = None" "sb_binary b0 = False" "sb_metadata_bytes b0 = 23" "sb_hunks b0 = []"
      "sb_collect b0 = True" "sb_total_rows b0 = 0"
    by (simp add: new_section_def default_patch_limits_def)
  have hunk: "parse_hunk_header (print_hunk_header 1 1 1 1 []) = Inr (1, 1, 1, 1)"
    "has_prefix ''@@ '' (print_hunk_header 1 1 1 1 [])"
    using parse_print_hunk_header [of 1 1 1 1 "[]"]
    by (simp_all add: hunk_numbers_ok_def print_hunk_header_def has_prefix_def)
  obtain b1 h1 where b1: "consume b0 (?ln 23 35 (print_hunk_header 1 1 1 1 [])) ?L = Inr b1"
    and h1: "sb_hunk b1 = Some h1" "hb_base_seen h1 = 0" "hb_head_seen h1 = 0" "hb_lines h1 = []"
      "ph_base_count (hb_index h1) = 1" "ph_head_count (hb_index h1) = 1"
      "ph_offset (hb_index h1) = 23" "sb_hunks b1 = []" "sb_collect b1" "sb_total_rows b1 = 0"
    using f hunk
    by (simp add: consume_def consume_outside_def consume_metadata_def start_hunk_def Let_def
        default_patch_limits_def)
  obtain b2 h2 where b2: "consume b1 (?ln 35 38 ''-a'') ?L = Inr b2"
    and h2: "sb_hunk b2 = Some h2" "hb_base_seen h2 = 1" "hb_head_seen h2 = 0" "length (hb_lines h2) = 1"
      "ph_base_count (hb_index h2) = 1" "ph_head_count (hb_index h2) = 1"
      "ph_offset (hb_index h2) = 23" "sb_hunks b2 = []" "sb_collect b2" "sb_total_rows b2 = 1"
    using h1
    by (simp add: consume_def consume_diff_line_def Let_def default_patch_limits_def max_int64_def
        line_kind_def)
  obtain b h where b3: "consume b2 (?ln 38 41 ''+b'') ?L = Inr b" and bh: "sb_hunk b = Some h" "sb_hunks b = []"
    and h: "hb_base_seen h = 1" "hb_head_seen h = 1" "ph_base_count (hb_index h) = 1"
      "ph_head_count (hb_index h) = 1" "ph_offset (hb_index h) = 23" "length (hb_lines h) = 2"
    using h2
    by (simp add: consume_def consume_diff_line_def Let_def default_patch_limits_def max_int64_def
        line_kind_def)
  have b: "consume_all b0 ?ls ?L = Inr b" using b1 b2 b3 by simp
  have "is_ok (finish_hunk b 41 ?L)"
    using finish_hunk_correct [OF b0 b bh(1), of 41] h bh(2)
    by (auto simp: default_patch_limits_def is_ok_def)
  with b0 b bh(1) h(6) show ?thesis by blast
qed

end
