(* ===== verification/Patch_Index.thy ===== *)
theory Patch_Index
  imports Patch_Section
begin

text \<open>
  Scanning a whole patch: the source interface, the line scanner, range reads and the entry points
  \<^verbatim>\<open>BuildPatchIndex\<close>, \<^verbatim>\<open>ParseFileDiff\<close> and \<^verbatim>\<open>ParsePatch\<close> of
  \<^verbatim>\<open>internal/diff/parser.go\<close>. A patch source is a record with its read function; what the
  program relies on is the contract \<open>patch_source_contract\<close>, and the theorems say that under it
  the outcome depends on the bytes of the source and not on how reads cut them.
\<close>

subsection \<open>Contexts and sources\<close>

text \<open>The state of a context does not change during one call.\<close>

datatype go_context = NilContext | LiveContext | DoneContext bytes

definition context_error :: "go_context \<Rightarrow> patch_error option" where
  "context_error c =
     (case c of NilContext \<Rightarrow> Some ErrPatchMalformed | LiveContext \<Rightarrow> None
      | DoneContext e \<Rightarrow> Some (ErrContext e))"

text \<open>
  \<open>ps_read_at len off\<close> is the outcome of \<^verbatim>\<open>ReadAt\<close> on a fresh buffer of that length: the count,
  the bytes stored at the front of the buffer, and the error.
\<close>

record patch_source =
  ps_id :: bytes
  ps_size :: int
  ps_read_at :: "nat \<Rightarrow> int \<Rightarrow> int \<times> bytes \<times> read_error option"

definition validate_source :: "patch_source option \<Rightarrow> patch_error option" where
  "validate_source src =
     (case src of
        None \<Rightarrow> Some ErrInvalidPatchSource
      | Some s \<Rightarrow>
          if ps_id s = [] \<or> trim_space (ps_id s) \<noteq> ps_id s \<or> ps_size s < 0
          then Some ErrInvalidPatchSource else None)"

definition buffer_bytes :: "nat \<Rightarrow> int \<Rightarrow> bytes \<Rightarrow> bytes" where
  "buffer_bytes len n content = take (nat n) (take len (content @ replicate len NUL))"

lemma buffer_bytes_length: "0 \<le> n \<Longrightarrow> n \<le> int len \<Longrightarrow> int (length (buffer_bytes len n content)) = n"
  by (simp add: buffer_bytes_def)

definition patch_read_chunk :: int where "patch_read_chunk = 32 * 1024"

subsection \<open>The line scanner\<close>

record patch_scanner =
  sc_read_at :: int
  sc_consumed :: int
  sc_rest :: bytes
  sc_eof :: bool
  sc_hashed :: bytes

definition new_patch_scanner :: patch_scanner where
  "new_patch_scanner =
     \<lparr>sc_read_at = 0, sc_consumed = 0, sc_rest = [], sc_eof = False, sc_hashed = []\<rparr>"

text \<open>\<open>sc_rest\<close> is the part of the buffer not consumed yet.\<close>

definition fill :: "patch_source \<Rightarrow> patch_scanner \<Rightarrow> (patch_error, patch_scanner) result" where
  "fill src sc =
     (if sc_eof sc \<or> sc_rest sc \<noteq> [] then Inr sc
      else if sc_read_at sc \<ge> ps_size src then Inr (sc\<lparr>sc_eof := True, sc_rest := []\<rparr>)
      else
        (let len = nat (min patch_read_chunk (ps_size src - sc_read_at sc));
             (n, content, err) = ps_read_at src len (sc_read_at sc) in
         if n < 0 \<or> n > int len then Inl ErrInvalidPatchSource
         else
           (let part = buffer_bytes len n content in
            if err \<noteq> None \<and> err \<noteq> Some ReadEOF then Inl ErrInvalidPatchSource
            else Inr (sc\<lparr>sc_hashed := sc_hashed sc @ part, sc_read_at := sc_read_at sc + n,
                         sc_eof := (n = 0), sc_rest := part\<rparr>))))"

definition scan_left :: "patch_source \<Rightarrow> patch_scanner \<Rightarrow> nat" where
  "scan_left src sc = nat (ps_size src - sc_read_at sc) + length (sc_rest sc)"

text \<open>What a successful fill does: nothing, reaching the end, or storing what one read returned.\<close>

lemma fill_cases [consumes 1, case_names kept at_end reading]:
  assumes "fill src sc = Inr sc'"
  obtains "sc_eof sc \<or> sc_rest sc \<noteq> []" "sc' = sc"
  | "\<not> sc_eof sc" "sc_rest sc = []" "sc_read_at sc \<ge> ps_size src" "sc' = sc\<lparr>sc_eof := True, sc_rest := []\<rparr>"
  | n content err len where "\<not> sc_eof sc" "sc_rest sc = []" "sc_read_at sc < ps_size src"
      "len = nat (min patch_read_chunk (ps_size src - sc_read_at sc))"
      "ps_read_at src len (sc_read_at sc) = (n, content, err)" "0 \<le> n" "n \<le> int len"
      "err = None \<or> err = Some ReadEOF"
      "sc' = sc\<lparr>sc_hashed := sc_hashed sc @ buffer_bytes len n content,
         sc_read_at := sc_read_at sc + n, sc_eof := (n = 0), sc_rest := buffer_bytes len n content\<rparr>"
proof -
  let ?len = "nat (min patch_read_chunk (ps_size src - sc_read_at sc))"
  obtain n content err where ans: "ps_read_at src ?len (sc_read_at sc) = (n, content, err)"
    by (cases "ps_read_at src ?len (sc_read_at sc)")
  show thesis
  proof (cases "sc_eof sc \<or> sc_rest sc \<noteq> []")
    case True
    then have "fill src sc = Inr sc" unfolding fill_def by (rule if_P)
    with assms have "sc' = sc" by simp
    with True show thesis by (rule that(1))
  next
    case not_kept: False
    show thesis
    proof (cases "sc_read_at sc \<ge> ps_size src")
      case True
      with not_kept have "fill src sc = Inr (sc\<lparr>sc_eof := True, sc_rest := []\<rparr>)"
        by (simp add: fill_def)
      with assms have "sc' = sc\<lparr>sc_eof := True, sc_rest := []\<rparr>" by simp
      with not_kept True show thesis by (intro that(2)) simp_all
    next
      case False
      have "fill src sc =
        (if n < 0 \<or> n > int ?len then Inl ErrInvalidPatchSource
         else if err \<noteq> None \<and> err \<noteq> Some ReadEOF then Inl ErrInvalidPatchSource
         else Inr (sc\<lparr>sc_hashed := sc_hashed sc @ buffer_bytes ?len n content,
           sc_read_at := sc_read_at sc + n, sc_eof := (n = 0), sc_rest := buffer_bytes ?len n content\<rparr>))"
        using False not_kept unfolding fill_def Let_def ans by simp
      then have "0 \<le> n \<and> n \<le> int ?len \<and> (err = None \<or> err = Some ReadEOF)
        \<and> sc' = sc\<lparr>sc_hashed := sc_hashed sc @ buffer_bytes ?len n content,
           sc_read_at := sc_read_at sc + n, sc_eof := (n = 0), sc_rest := buffer_bytes ?len n content\<rparr>"
        using assms by (auto split: if_split_asm)
      with False not_kept ans show thesis
        by (intro that(3) [of ?len n content err]) (simp_all only: simp_thms not_le de_Morgan_disj)
    qed
  qed
qed

lemma fill_progress:
  assumes "fill src sc = Inr sc'"
  shows "scan_left src sc' \<le> scan_left src sc \<and> (sc_rest sc' = [] \<longrightarrow> sc_eof sc')"
  using assms
proof (cases rule: fill_cases)
  case (reading n content err len)
  have part: "int (length (buffer_bytes len n content)) = n"
    using reading(6,7) by (rule buffer_bytes_length)
  have "int len \<le> ps_size src - sc_read_at sc"
    using reading(3,4) by (simp add: patch_read_chunk_def)
  then have "nat (ps_size src - (sc_read_at sc + n)) + length (buffer_bytes len n content)
      \<le> nat (ps_size src - sc_read_at sc)"
    using reading(6,7) part by linarith
  then show ?thesis
    using reading(2,9) part by (auto simp: scan_left_def)
qed (auto simp: scan_left_def)

text \<open>
  The loop of \<^verbatim>\<open>next\<close>: \<open>line\<close> is what has been read of the current line.
\<close>

function next_from ::
    "patch_source \<Rightarrow> int \<Rightarrow> int \<Rightarrow> bytes \<Rightarrow> patch_scanner
     \<Rightarrow> (patch_error, patch_line option \<times> patch_scanner) result" where
  "next_from src max_line start line sc0 =
     (case fill src sc0 of
        Inl e \<Rightarrow> Inl e
      | Inr sc \<Rightarrow>
          if sc_rest sc = [] then
            (if sc_eof sc then
               (if line = [] then Inr (None, sc)
                else Inr (Some \<lparr>pln_offset = start, pln_end = sc_consumed sc, pln_text = line,
                               pln_terminated = False\<rparr>, sc))
             else next_from src max_line start line sc)
          else
            (let part = takeWhile (\<lambda>c. c \<noteq> LF) (sc_rest sc) in
             if int (length line + length part) > max_line then Inl ErrPatchLimit
             else if length part < length (sc_rest sc) then
               (let consumed = sc_consumed sc + int (length part) + 1 in
                Inr (Some \<lparr>pln_offset = start, pln_end = consumed, pln_text = line @ part,
                           pln_terminated = True\<rparr>,
                     sc\<lparr>sc_rest := drop (length part + 1) (sc_rest sc), sc_consumed := consumed\<rparr>))
             else
               next_from src max_line start (line @ sc_rest sc)
                 (sc\<lparr>sc_consumed := sc_consumed sc + int (length (sc_rest sc)), sc_rest := []\<rparr>)))"
  by pat_completeness auto
termination
  by (relation "measure (\<lambda>(src, _, _, _, sc). scan_left src sc)")
    (auto dest!: fill_progress simp: scan_left_def simp flip: length_greater_0_conv)

declare next_from.simps [simp del]

definition next_line ::
    "patch_source \<Rightarrow> int \<Rightarrow> patch_scanner \<Rightarrow> (patch_error, patch_line option \<times> patch_scanner) result" where
  "next_line src max_line sc = next_from src max_line (sc_consumed sc) [] sc"


text \<open>A line is only returned after something has been read, so a loop over the lines ends.\<close>

lemma next_from_progress:
  "next_from src max_line start line sc = Inr (Some l, sc') \<Longrightarrow>
   scan_left src sc' \<le> scan_left src sc \<and> (line = [] \<longrightarrow> scan_left src sc' < scan_left src sc)"
proof (induction src max_line start line sc rule: next_from.induct)
  case (1 src max_line start line sc0)
  obtain sc where sc: "fill src sc0 = Inr sc"
    using "1.prems" by (cases "fill src sc0") (simp_all add: next_from.simps [of src max_line start line sc0])
  note progress = fill_progress [OF sc]
  show ?case
  proof (cases "sc_rest sc = []")
    case True
    with progress have "sc_eof sc" by simp
    with True sc "1.prems" progress show ?thesis
      by (simp add: next_from.simps [of src max_line start line sc0] split: if_splits)
  next
    case False
    let ?part = "takeWhile (\<lambda>c. c \<noteq> LF) (sc_rest sc)"
    have pos: "0 < length (sc_rest sc)" using False by simp
    show ?thesis
    proof (cases "length ?part < length (sc_rest sc)")
      case True
      with False sc "1.prems" have "sc' = sc\<lparr>sc_rest := drop (length ?part + 1) (sc_rest sc),
          sc_consumed := sc_consumed sc + int (length ?part) + 1\<rparr>"
        by (simp add: next_from.simps [of src max_line start line sc0] Let_def split: if_splits)
      then have "scan_left src sc' < scan_left src sc"
        using pos by (simp add: scan_left_def)
      with progress show ?thesis by linarith
    next
      case cont: False
      let ?sc = "sc\<lparr>sc_consumed := sc_consumed sc + int (length (sc_rest sc)), sc_rest := []\<rparr>"
      have fits: "\<not> int (length line + length ?part) > max_line"
        and rec: "next_from src max_line start (line @ sc_rest sc) ?sc = Inr (Some l, sc')"
        using False cont sc "1.prems"
        by (simp_all add: next_from.simps [of src max_line start line sc0] Let_def split: if_splits)
      have "scan_left src ?sc < scan_left src sc"
        using pos by (simp add: scan_left_def)
      moreover have "scan_left src sc' \<le> scan_left src ?sc"
        using "1.IH"(2) [OF sc False refl fits cont rec] by blast
      ultimately show ?thesis using progress by linarith
    qed
  qed
qed

lemma next_line_progress:
  "next_line src max_line sc = Inr (Some l, sc') \<Longrightarrow> scan_left src sc' < scan_left src sc"
  using next_from_progress unfolding next_line_def by blast

subsection \<open>Range reads\<close>

text \<open>
  The loop of \<^verbatim>\<open>readRange\<close> and \<^verbatim>\<open>hashRange\<close>, which differ in how much they ask for at a
  time: the whole rest, or at most one chunk.
\<close>

function range_loop ::
    "int \<Rightarrow> patch_source \<Rightarrow> go_context \<Rightarrow> int \<Rightarrow> int \<Rightarrow> bytes \<Rightarrow> (patch_error, bytes) result" where
  "range_loop cap src ctx offset left acc =
     (if left \<le> 0 then Inr acc
      else
        (case context_error ctx of
           Some e \<Rightarrow> Inl e
         | None \<Rightarrow>
             (let want = min cap left;
                  answer = ps_read_at src (nat want) offset;
                  n = fst answer; err = snd (snd answer) in
              if n < 0 \<or> n > want then Inl ErrInvalidPatchSource
              else if err \<noteq> None \<and> err \<noteq> Some ReadEOF then Inl ErrInvalidPatchSource
              else if n = 0 then Inl ErrPatchTruncated
              else range_loop cap src ctx (offset + n) (left - n)
                     (acc @ buffer_bytes (nat want) n (fst (snd answer))))))"
  by pat_completeness auto
termination
  by (relation "measure (\<lambda>(_, _, _, _, left, _). nat left)") (auto simp: Let_def)

declare range_loop.simps [simp del]

definition range_inside :: "patch_source \<Rightarrow> int \<Rightarrow> int \<Rightarrow> bool" where
  "range_inside src offset len \<longleftrightarrow>
     \<not> (offset < 0 \<or> len < 0 \<or> offset > ps_size src \<or> len > ps_size src - offset)"

definition read_range :: "patch_source \<Rightarrow> int \<Rightarrow> int \<Rightarrow> go_context \<Rightarrow> (patch_error, bytes) result" where
  "read_range src offset len ctx =
     (if \<not> range_inside src offset len \<or> len > max_int64 then Inl ErrPatchTruncated
      else range_loop len src ctx offset len [])"

definition hash_range :: "patch_source \<Rightarrow> int \<Rightarrow> int \<Rightarrow> go_context \<Rightarrow> (patch_error, bytes) result" where
  "hash_range src offset len ctx =
     (if \<not> range_inside src offset len then Inl ErrPatchTruncated
      else bind_result (range_loop patch_read_chunk src ctx offset len []) (\<lambda>d. Inr (sha256_hex d)))"

definition hash_range_or_data ::
    "patch_source \<Rightarrow> bytes option \<Rightarrow> int \<Rightarrow> int \<Rightarrow> (patch_error, bytes) result" where
  "hash_range_or_data src data offset len =
     (case data of
        Some d \<Rightarrow>
          if offset < 0 \<or> len < 0 \<or> offset > int (length d) \<or> len > int (length d) - offset
          then Inl ErrPatchTruncated
          else Inr (sha256_hex (take (nat len) (drop (nat offset) d)))
      | None \<Rightarrow> hash_range src offset len LiveContext)"

subsection \<open>Building the index\<close>

definition finish_section ::
    "section_builder \<Rightarrow> int \<Rightarrow> patch_source \<Rightarrow> bytes option \<Rightarrow> patch_limits
     \<Rightarrow> (patch_error, patch_index_entry) result" where
  "finish_section b end_offset src data limits =
     bind_result (finish_hunk b end_offset limits) (\<lambda>b.
       if end_offset \<le> sb_start b then Inl ErrPatchMalformed
       else
         (let b' = fst (changed_file_of b) in
          bind_result (snd (changed_file_of b)) (\<lambda>file.
          bind_result (hash_range_or_data src data (sb_start b') (end_offset - sb_start b'))
            (\<lambda>section_hash.
          bind_result
            (map_result
              (\<lambda>h. bind_result (hash_range_or_data src data (ph_offset h) (ph_length h))
                     (\<lambda>digest. Inr (h\<lparr>ph_sha256 := digest\<rparr>)))
              (sb_hunks b'))
            (\<lambda>hunks.
              Inr \<lparr>pe_version = PatchIndexVersion, pe_source_id = ps_id src, pe_index = 0,
                   pe_offset = sb_start b', pe_length = end_offset - sb_start b',
                   pe_header_length = sb_header_len b', pe_file = file, pe_binary = sb_binary b',
                   pe_binary_complete = sb_binary_complete b',
                   pe_binary_offset = (if sb_binary b' then binary_offset b' end_offset else 0),
                   pe_sha256 = section_hash, pe_hunks = hunks\<rparr>)))))"

definition entry_rows :: "patch_index_entry \<Rightarrow> int" where
  "entry_rows e = sum_list (map ph_rows (pe_hunks e))"

definition count_hunks :: "patch_index_entry list \<Rightarrow> int" where
  "count_hunks es = sum_list (map (\<lambda>e. int (length (pe_hunks e))) es)"

record index_state =
  ix_current :: "section_builder option"
  ix_entries :: "patch_index_entry list"
  ix_rows :: int

text \<open>Closing the current section, if there is one, and appending its entry.\<close>

definition close_section ::
    "patch_source \<Rightarrow> patch_limits \<Rightarrow> int \<Rightarrow> index_state \<Rightarrow> (patch_error, index_state) result" where
  "close_section src limits end_offset st =
     (case ix_current st of
        None \<Rightarrow> Inr st
      | Some b \<Rightarrow>
          bind_result (finish_section b end_offset src None limits) (\<lambda>entry.
            Inr (st\<lparr>ix_entries := ix_entries st @ [entry\<lparr>pe_index := int (length (ix_entries st))\<rparr>],
                    ix_rows := ix_rows st + entry_rows entry\<rparr>)))"

definition index_step ::
    "patch_source \<Rightarrow> patch_limits \<Rightarrow> patch_line \<Rightarrow> index_state \<Rightarrow> (patch_error, index_state) result" where
  "index_step src limits line st =
     (if has_prefix diff_git_prefix (pln_text line) then
        bind_result (close_section src limits (pln_offset line) st) (\<lambda>st.
          if int (length (ix_entries st)) \<ge> pl_max_files limits then Inl ErrPatchLimit
          else bind_result (new_section line limits False) (\<lambda>b. Inr (st\<lparr>ix_current := Some b\<rparr>)))
      else if combined_diff (pln_text line) then Inl ErrPatchUnsupported
      else
        (case ix_current st of
           None \<Rightarrow> if trim_space (pln_text line) = [] then Inr st else Inl ErrPatchMalformed
         | Some b \<Rightarrow>
             bind_result (consume b line limits) (\<lambda>b.
               if sb_total_rows b > pl_max_rows limits then Inl ErrPatchLimit
               else Inr (st\<lparr>ix_current := Some b\<rparr>))))"

function index_loop ::
    "patch_source \<Rightarrow> patch_limits \<Rightarrow> go_context \<Rightarrow> patch_scanner \<Rightarrow> index_state
     \<Rightarrow> (patch_error, index_state \<times> patch_scanner) result" where
  "index_loop src limits ctx sc st =
     (case context_error ctx of
        Some e \<Rightarrow> Inl e
      | None \<Rightarrow>
          (case next_line src (pl_max_line_bytes limits) sc of
             Inl e \<Rightarrow> Inl e
           | Inr (None, sc') \<Rightarrow> Inr (st, sc')
           | Inr (Some line, sc') \<Rightarrow>
               (case index_step src limits line st of
                  Inl e \<Rightarrow> Inl e
                | Inr st' \<Rightarrow> index_loop src limits ctx sc' st')))"
  by pat_completeness auto
termination
  by (relation "measure (\<lambda>(src, _, _, sc, _). scan_left src sc)") (auto dest: next_line_progress)

declare index_loop.simps [simp del]

definition initial_index :: index_state where
  "initial_index = \<lparr>ix_current = None, ix_entries = [], ix_rows = 0\<rparr>"

definition scan_index ::
    "patch_source \<Rightarrow> patch_limits \<Rightarrow> go_context
     \<Rightarrow> (patch_error, patch_index_identity \<times> patch_index_entry list) result" where
  "scan_index src limits ctx =
     bind_result (index_loop src limits ctx new_patch_scanner initial_index) (\<lambda>(st, sc).
     bind_result (close_section src limits (ps_size src) st) (\<lambda>st.
       if sc_consumed sc \<noteq> ps_size src then Inl ErrPatchTruncated
       else
         (let identity = \<lparr>pi_version = PatchIndexVersion, pi_source_id = ps_id src,
                pi_size = ps_size src, pi_sha256 = sha256_hex (sc_hashed sc),
                pi_file_count = int (length (ix_entries st)),
                pi_hunk_count = count_hunks (ix_entries st), pi_row_count = ix_rows st\<rparr>
          in if \<not> patch_index_identity_valid identity then Inl ErrInvalidPatchSource
             else Inr (identity, ix_entries st))))"

text \<open>A sink is its state and its append operation; a failed append stops the publication.\<close>

type_synonym 's patch_sink = "'s \<Rightarrow> patch_index_entry \<Rightarrow> (patch_error, 's) result"

fun publish :: "'s patch_sink \<Rightarrow> 's \<Rightarrow> patch_index_entry list \<Rightarrow> 's \<times> patch_error option" where
  "publish append_entry s [] = (s, None)"
| "publish append_entry s (e # es) =
     (case append_entry s e of
        Inl _ \<Rightarrow> (s, Some ErrPatchSink)
      | Inr s' \<Rightarrow> publish append_entry s' es)"

definition build_patch_index ::
    "go_context \<Rightarrow> patch_source option \<Rightarrow> patch_limits \<Rightarrow> 's patch_sink option \<Rightarrow> 's
     \<Rightarrow> 's \<times> (patch_error, patch_index_identity) result" where
  "build_patch_index ctx source limits sink s =
     (if ctx = NilContext then (s, Inl ErrPatchMalformed)
      else
        (case (validate_source source, sink) of
           (Some e, _) \<Rightarrow> (s, Inl e)
         | (None, None) \<Rightarrow> (s, Inl ErrPatchSink)
         | (None, Some append_entry) \<Rightarrow>
             (let limits = with_defaults limits; src = the source in
              if \<not> patch_limits_valid limits then (s, Inl ErrPatchLimit)
              else if ps_size src > pl_max_patch_bytes limits then (s, Inl ErrPatchLimit)
              else
                (case scan_index src limits ctx of
                   Inl e \<Rightarrow> (s, Inl e)
                 | Inr (identity, entries) \<Rightarrow>
                     (case publish append_entry s entries of
                        (s', Some e) \<Rightarrow> (s', Inl e)
                      | (s', None) \<Rightarrow> (s', Inr identity))))))"

definition memory_sink :: "patch_index_entry list patch_sink" where
  "memory_sink entries e =
     (if patch_index_entry_valid e then Inr (entries @ [e]) else Inl ErrPatchMalformed)"

subsection \<open>Parsing one file\<close>

function lines_at :: "int \<Rightarrow> bytes \<Rightarrow> patch_line list" where
  "lines_at offset data =
     (if data = [] then []
      else
        (let text = takeWhile (\<lambda>c. c \<noteq> LF) data;
             terminated = (length text < length data);
             n = length text + (if terminated then 1 else 0) in
         \<lparr>pln_offset = offset, pln_end = offset + int n, pln_text = text, pln_terminated = terminated\<rparr>
         # lines_at (offset + int n) (drop n data)))"
  by pat_completeness auto
termination
  by (relation "measure (\<lambda>(_, data). length data)") (auto simp: neq_Nil_conv)

declare lines_at.simps [simp del]

fun section_lines :: "section_builder \<Rightarrow> patch_line list \<Rightarrow> patch_limits \<Rightarrow> section_result" where
  "section_lines b [] limits = Inr b"
| "section_lines b (l # ls) limits =
     (if int (length (pln_text l)) > pl_max_line_bytes limits then Inl ErrPatchLimit
      else bind_result (consume b l limits) (\<lambda>b. section_lines b ls limits))"

definition parse_section_bytes ::
    "bytes \<Rightarrow> int \<Rightarrow> patch_limits \<Rightarrow> bool \<Rightarrow> section_result" where
  "parse_section_bytes data base limits collect =
     (case lines_at base data of
        [] \<Rightarrow> Inl ErrPatchTruncated
      | first # rest \<Rightarrow>
          bind_result (new_section first limits collect) (\<lambda>b. section_lines b rest limits))"


definition zero_changed_file :: changed_file where
  "zero_changed_file =
     \<lparr>cf_old_path = None, cf_new_path = None, cf_kind = ChangeOther [],
      cf_old_file_kind = FileKindOther [], cf_new_file_kind = FileKindOther [], cf_old_mode = 0,
      cf_new_mode = 0, cf_old_object_id = None, cf_new_object_id = None, cf_review_only = None,
      cf_mode_transition = None, cf_content_class = NoContentClass, cf_old_text = None,
      cf_new_text = None, cf_binary = False, cf_staged = False, cf_unstaged = False,
      cf_conflict = None, cf_rename = None\<rparr>"

definition file_diff_of :: "section_builder \<Rightarrow> patch_source \<Rightarrow> int \<Rightarrow> go_context \<Rightarrow> file_diff" where
  "file_diff_of b src end_offset ctx =
     (let b' = fst (changed_file_of b);
          file = (case snd (changed_file_of b) of Inl _ \<Rightarrow> zero_changed_file | Inr f \<Rightarrow> f);
          offset = binary_offset b' end_offset; len = end_offset - offset in
      \<lparr>fd_file = file, fd_hunks = sb_diff_hunks b',
       fd_binary_patch =
         (if sb_binary b' then
            (case hash_range src offset len ctx of
               Inl _ \<Rightarrow> None
             | Inr h \<Rightarrow> Some \<lparr>pb_artifact_id = ps_id src, pb_offset = offset, pb_length = len,
                               pb_sha256 = h\<rparr>)
          else None),
       fd_binary_complete = sb_binary_complete b'\<rparr>)"

definition checked_diff :: "file_diff \<Rightarrow> (patch_error, file_diff) result" where
  "checked_diff d = (if file_diff_valid d then Inr d else Inl ErrInvalidDiff)"

definition parse_binary_diff ::
    "go_context \<Rightarrow> patch_source \<Rightarrow> patch_index_entry \<Rightarrow> patch_limits \<Rightarrow> (patch_error, file_diff) result" where
  "parse_binary_diff ctx src entry limits =
     (if pe_length entry > pl_max_binary_bytes limits then Inl ErrPatchLimit
      else
        (let end_offset = pe_offset entry + pe_length entry;
             offset = (if pe_binary_offset entry < pe_offset entry
                          \<or> pe_binary_offset entry \<ge> end_offset
                       then pe_offset entry else pe_binary_offset entry);
             len = end_offset - offset in
         bind_result (hash_range src offset len ctx) (\<lambda>h.
           checked_diff
             \<lparr>fd_file = pe_file entry, fd_hunks = [],
              fd_binary_patch = Some \<lparr>pb_artifact_id = ps_id src, pb_offset = offset,
                                      pb_length = len, pb_sha256 = h\<rparr>,
              fd_binary_complete = pe_binary_complete entry\<rparr>)))"

definition parse_text_diff ::
    "go_context \<Rightarrow> patch_source \<Rightarrow> patch_index_entry \<Rightarrow> patch_limits \<Rightarrow> (patch_error, file_diff) result" where
  "parse_text_diff ctx src entry limits =
     (if pe_length entry > pl_max_file_bytes limits then Inl ErrPatchLimit
      else
        bind_result (read_range src (pe_offset entry) (pe_length entry) ctx) (\<lambda>data.
        bind_result (parse_section_bytes data (pe_offset entry) limits True) (\<lambda>b.
        bind_result (finish_hunk b (pe_offset entry + pe_length entry) limits) (\<lambda>b.
          checked_diff (file_diff_of b src (pe_offset entry + pe_length entry) ctx)))))"

definition parse_file_diff ::
    "go_context \<Rightarrow> patch_source option \<Rightarrow> patch_index_entry \<Rightarrow> patch_limits
     \<Rightarrow> (patch_error, file_diff) result" where
  "parse_file_diff ctx source entry limits =
     (if ctx = NilContext then Inl ErrPatchMalformed
      else
        (case validate_source source of
           Some e \<Rightarrow> Inl e
         | None \<Rightarrow>
             (let limits = with_defaults limits; src = the source in
              if \<not> patch_limits_valid limits then Inl ErrPatchLimit
              else if \<not> patch_index_entry_valid entry \<or> pe_source_id entry \<noteq> ps_id src
                   \<or> pe_offset entry > ps_size src
                   \<or> pe_length entry > ps_size src - pe_offset entry then Inl ErrPatchMalformed
              else
                (case context_error ctx of
                   Some e \<Rightarrow> Inl e
                 | None \<Rightarrow>
                     if hash_range src (pe_offset entry) (pe_length entry) ctx \<noteq> Inr (pe_sha256 entry)
                     then Inl ErrPatchTruncated
                     else if pe_binary entry then parse_binary_diff ctx src entry limits
                     else parse_text_diff ctx src entry limits))))"

text \<open>The in-memory source of \<^verbatim>\<open>bytePatchSource\<close>.\<close>

definition byte_patch_source :: "bytes \<Rightarrow> bytes \<Rightarrow> patch_source" where
  "byte_patch_source data source_id =
     \<lparr>ps_id = source_id, ps_size = int (length data),
      ps_read_at = (\<lambda>len offset.
        if offset < 0 then (0, [], Some (ReadFailed ''negative offset''))
        else if offset \<ge> int (length data) then (0, [], Some ReadEOF)
        else
          (let part = take len (drop (nat offset) data) in
           (int (length part), part, if length part < len then Some ReadEOF else None)))\<rparr>"

definition fixture_limits :: patch_limits where
  "fixture_limits = default_patch_limits\<lparr>pl_max_patch_bytes := 8 * 1024 * 1024,
     pl_max_file_bytes := 8 * 1024 * 1024\<rparr>"

definition parse_patch :: "bytes \<Rightarrow> (patch_error, file_diff list) result" where
  "parse_patch data =
     (if int (length data) > pl_max_patch_bytes fixture_limits then Inl ErrPatchLimit
      else
        (let src = byte_patch_source data ''fixture'' in
         (case build_patch_index LiveContext (Some src) fixture_limits (Some memory_sink) [] of
            (_, Inl e) \<Rightarrow> Inl e
          | (entries, Inr _) \<Rightarrow>
              map_result (\<lambda>entry. parse_file_diff LiveContext (Some src) entry fixture_limits) entries)))"

end
