(* ===== verification/Patch_Source.thy ===== *)
theory Patch_Source
  imports Patch_Index
begin

text \<open>
  The outcome of scanning and parsing a patch does not depend on how its source answers reads: the
  contract of \<^verbatim>\<open>PatchSource\<close> as a locale, the scanner and the range reads proved against
  it, and the consequences for \<^verbatim>\<open>BuildPatchIndex\<close> and \<^verbatim>\<open>ParseFileDiff\<close>.
\<close>

subsection \<open>The contract of a source\<close>

text \<open>
  What the program relies on when it reads a patch artifact: a fixed byte sequence, of which every
  read inside it returns a non-empty piece, possibly shorter than asked for, and no error but the
  end of input.
\<close>

text \<open>
  The state of the scanner on a given byte sequence: the buffer holds the bytes after the consumed
  ones, and everything read so far has been hashed.
\<close>

definition scan_inv :: "bytes \<Rightarrow> patch_scanner \<Rightarrow> bool" where
  "scan_inv data sc \<longleftrightarrow>
     0 \<le> sc_consumed sc \<and> sc_read_at sc = sc_consumed sc + int (length (sc_rest sc))
     \<and> sc_read_at sc \<le> int (length data)
     \<and> sc_rest sc = take (length (sc_rest sc)) (drop (nat (sc_consumed sc)) data)
     \<and> sc_hashed sc = take (nat (sc_read_at sc)) data
     \<and> (sc_eof sc \<longrightarrow> sc_rest sc = [] \<and> sc_read_at sc = int (length data))"

lemma new_patch_scanner_inv: "scan_inv data new_patch_scanner"
  by (simp add: scan_inv_def new_patch_scanner_def)

text \<open>
  What \<^verbatim>\<open>next\<close> returns in terms of the bytes that are left, and how many it takes:
  the line up to the next line feed, whole or refused.
\<close>

definition line_text :: "bytes \<Rightarrow> bytes" where
  "line_text rest = takeWhile (\<lambda>c. c \<noteq> LF) rest"

definition line_taken :: "bytes \<Rightarrow> nat" where
  "line_taken rest =
     length (line_text rest) + (if length (line_text rest) < length rest then 1 else 0)"

definition next_outcome ::
    "int \<Rightarrow> int \<Rightarrow> bytes \<Rightarrow> int \<Rightarrow> bytes \<Rightarrow> (patch_error, patch_line option) result" where
  "next_outcome max_line start line pos rest =
     (if rest = [] then
        Inr (if line = [] then None
             else Some \<lparr>pln_offset = start, pln_end = pos, pln_text = line, pln_terminated = False\<rparr>)
      else if int (length line + length (line_text rest)) > max_line then Inl ErrPatchLimit
      else Inr (Some \<lparr>pln_offset = start, pln_end = pos + int (line_taken rest),
                      pln_text = line @ line_text rest,
                      pln_terminated = (length (line_text rest) < length rest)\<rparr>))"

lemma line_taken_le: "line_taken rest \<le> length rest"
  using length_takeWhile_le [of "\<lambda>c. c \<noteq> LF" rest] by (simp add: line_taken_def line_text_def)

lemma line_text_append:
  "LF \<notin> set part \<Longrightarrow> line_text (part @ rest) = part @ line_text rest"
  unfolding line_text_def by (rule takeWhile_append2) auto

lemma line_taken_append:
  "LF \<notin> set part \<Longrightarrow> line_taken (part @ rest) = length part + line_taken rest"
  by (simp add: line_taken_def line_text_append)

lemma line_text_whole: "LF \<notin> set part \<Longrightarrow> line_text part = part"
  unfolding line_text_def by (induction part) auto

lemma next_outcome_append:
  assumes "LF \<notin> set part" "part \<noteq> []"
  shows "next_outcome max_line start line pos (part @ rest) =
    (if int (length line + length part) > max_line then Inl ErrPatchLimit
     else next_outcome max_line start (line @ part) (pos + int (length part)) rest)"
  using assms line_text_whole [OF assms(1)]
  by (cases "rest = []")
    (simp_all add: next_outcome_def line_text_append line_taken_append line_taken_def [of part] add.assoc)

lemma line_text_found:
  assumes "LF \<in> set part"
  shows "line_text (part @ rest) = line_text part" "length (line_text part) < length part"
proof -
  show "line_text (part @ rest) = line_text part"
    using assms by (simp add: line_text_def)
  have "takeWhile (\<lambda>c. c \<noteq> LF) part \<noteq> part"
    using assms by (metis set_takeWhileD)
  then show "length (line_text part) < length part"
    by (metis line_text_def append_take_drop_id leI length_takeWhile_le order.antisym
        take_all takeWhile_eq_take)
qed

locale patch_source_contract =
  fixes src :: patch_source and data :: bytes
  assumes size: "ps_size src = int (length data)"
    and read: "0 < len \<Longrightarrow> 0 \<le> off \<Longrightarrow> off < int (length data) \<Longrightarrow>
      \<exists>n content err. ps_read_at src len off = (int n, content, err)
        \<and> 0 < n \<and> n \<le> len \<and> take n content = take n (drop (nat off) data)
        \<and> nat off + n \<le> length data \<and> (err = None \<or> err = Some ReadEOF)"
begin

lemma read_bytes:
  assumes "0 < len" "0 \<le> off" "off < int (length data)"
  obtains n content err where "ps_read_at src len off = (int n, content, err)" "0 < n" "n \<le> len"
    "nat off + n \<le> length data" "buffer_bytes len (int n) content = take n (drop (nat off) data)"
    "err = None \<or> err = Some ReadEOF"
proof -
  obtain n content err where r: "ps_read_at src len off = (int n, content, err)" "0 < n" "n \<le> len"
    "take n content = take n (drop (nat off) data)" "nat off + n \<le> length data"
    "err = None \<or> err = Some ReadEOF"
    using read [OF assms] by blast
  have "length (take n content) = n" using r(4,5) by simp
  then have "buffer_bytes len (int n) content = take n content"
    using r(3) by (simp add: buffer_bytes_def min_def split: if_splits)
  with r show thesis by (intro that) simp_all
qed

lemma range_loop_eq:
  "0 < cap \<Longrightarrow> 0 \<le> off \<Longrightarrow> 0 \<le> left \<Longrightarrow> off + left \<le> int (length data) \<Longrightarrow>
   range_loop cap src LiveContext off left acc = Inr (acc @ take (nat left) (drop (nat off) data))"
proof (induction "nat left" arbitrary: off left acc rule: less_induct)
  case less
  show ?case
  proof (cases "left = 0")
    case True
    then show ?thesis by (simp add: range_loop.simps [of cap src LiveContext off 0 acc])
  next
    case False
    obtain want where want: "want = min cap left" by simp
    have len: "0 < nat want" "0 \<le> off" "off < int (length data)" using less.prems False want by auto
    obtain n content err where ans: "ps_read_at src (nat want) off = (int n, content, err)" "0 < n"
        "n \<le> nat want" "nat off + n \<le> length data"
        "buffer_bytes (nat want) (int n) content = take n (drop (nat off) data)"
        "err = None \<or> err = Some ReadEOF"
      using read_bytes [OF len] by metis
    have n: "\<not> int n > want" "int n \<le> left" using ans(3) len(1) want by linarith+
    have step: "range_loop cap src LiveContext off left acc
        = range_loop cap src LiveContext (off + int n) (left - int n) (acc @ take n (drop (nat off) data))"
      using ans(6,1,2,5) n less.prems False
      by (elim disjE) (simp_all add: range_loop.simps [of cap src LiveContext off left acc]
          context_error_def Let_def want [symmetric])
    have "range_loop cap src LiveContext (off + int n) (left - int n) (acc @ take n (drop (nat off) data))
        = Inr ((acc @ take n (drop (nat off) data)) @ take (nat (left - int n)) (drop (nat (off + int n)) data))"
      using less.prems n ans(2) by (intro less.hyps) auto
    also have "nat (off + int n) = nat off + n" using less.prems by simp
    also have "nat left = n + nat (left - int n)" using n by simp
    then have "take n (drop (nat off) data) @ take (nat (left - int n)) (drop (nat off + n) data)
        = take (nat left) (drop (nat off) data)"
      by (simp add: take_add add.commute)
    ultimately show ?thesis using step by simp
  qed
qed

lemma hash_range_eq:
  "hash_range src off len LiveContext =
     (if \<not> range_inside src off len then Inl ErrPatchTruncated
      else Inr (sha256_hex (take (nat len) (drop (nat off) data))))"
  using range_loop_eq [of patch_read_chunk off len "[]"]
  by (auto simp: hash_range_def range_inside_def size patch_read_chunk_def)

lemma read_range_eq:
  "read_range src off len LiveContext =
     (if \<not> range_inside src off len \<or> len > max_int64 then Inl ErrPatchTruncated
      else Inr (take (nat len) (drop (nat off) data)))"
  using range_loop_eq [of len off len "[]"]
  by (cases "len = 0") (auto simp: read_range_def range_inside_def size range_loop.simps [of 0])

lemma fill_spec:
  assumes "scan_inv data sc"
  shows "\<exists>sc'. fill src sc = Inr sc' \<and> scan_inv data sc' \<and> sc_consumed sc' = sc_consumed sc
    \<and> (sc_rest sc' = [] \<longleftrightarrow> sc_consumed sc = int (length data))"
proof (cases "sc_eof sc \<or> sc_rest sc \<noteq> []")
  case True
  then show ?thesis
    using assms by (auto simp: fill_def scan_inv_def)
next
  case not_kept: False
  show ?thesis
  proof (cases "sc_read_at sc \<ge> ps_size src")
    case True
    with not_kept assms show ?thesis by (auto simp: fill_def scan_inv_def size)
  next
    case False
    let ?len = "nat (min patch_read_chunk (ps_size src - sc_read_at sc))"
    let ?off = "sc_read_at sc"
    have off: "0 < ?len" "0 \<le> ?off" "?off < int (length data)"
      using False assms by (auto simp: scan_inv_def size patch_read_chunk_def)
    obtain n content err where ans: "ps_read_at src ?len ?off = (int n, content, err)" "0 < n" "n \<le> ?len"
        "nat ?off + n \<le> length data" "buffer_bytes ?len (int n) content = take n (drop (nat ?off) data)"
        "err = None \<or> err = Some ReadEOF"
      using read_bytes [OF off] by metis
    let ?part = "take n (drop (nat ?off) data)"
    let ?sc = "sc\<lparr>sc_hashed := sc_hashed sc @ ?part, sc_read_at := ?off + int n, sc_eof := False,
      sc_rest := ?part\<rparr>"
    have "int n \<le> int ?len" using ans(3) by (simp only: of_nat_le_iff)
    then have "fill src sc = Inr ?sc"
      unfolding fill_def Let_def ans(1) prod.case ans(5)
      using not_kept False ans(2,6) by (auto simp del: of_nat_le_iff int_nat_eq)
    moreover have "length ?part = n" using ans(4) by simp
    moreover have "take (nat ?off) data @ ?part = take (nat (?off + int n)) data"
      using off(2) by (simp add: take_add nat_add_distrib)
    ultimately show ?thesis
      using assms not_kept ans(2,4) off(2,3) by (auto simp: scan_inv_def)
  qed
qed

lemma scan_inv_split:
  assumes "scan_inv data sc"
  shows "drop (nat (sc_consumed sc)) data = sc_rest sc @ drop (nat (sc_read_at sc)) data"
proof -
  let ?rest = "drop (nat (sc_consumed sc)) data"
  have "sc_rest sc = take (length (sc_rest sc)) ?rest"
    "nat (sc_read_at sc) = length (sc_rest sc) + nat (sc_consumed sc)"
    using assms by (auto simp: scan_inv_def)
  then have "drop (nat (sc_read_at sc)) data = drop (length (sc_rest sc)) ?rest" by simp
  with \<open>sc_rest sc = take (length (sc_rest sc)) ?rest\<close> show ?thesis
    by (metis append_take_drop_id)
qed

lemma scan_inv_take:
  assumes "scan_inv data sc" "k \<le> length (sc_rest sc)" "\<not> sc_eof sc"
  shows "scan_inv data (sc\<lparr>sc_consumed := sc_consumed sc + int k, sc_rest := drop k (sc_rest sc)\<rparr>)"
proof -
  have at: "nat (sc_consumed sc + int k) = k + nat (sc_consumed sc)"
    using assms(1) by (simp add: scan_inv_def nat_add_distrib add.commute)
  have rest: "sc_rest sc = take (length (sc_rest sc)) (drop (nat (sc_consumed sc)) data)"
    using assms(1) by (simp add: scan_inv_def)
  have "drop k (sc_rest sc) = drop k (take (length (sc_rest sc)) (drop (nat (sc_consumed sc)) data))"
    using rest by (rule arg_cong)
  also have "\<dots> = take (length (sc_rest sc) - k) (drop (k + nat (sc_consumed sc)) data)"
    by (simp add: drop_take)
  finally have cut: "drop k (sc_rest sc)
      = take (length (sc_rest sc) - k) (drop (k + nat (sc_consumed sc)) data)" .
  have tail: "drop k (sc_rest sc)
      = take (length (drop k (sc_rest sc))) (drop (k + nat (sc_consumed sc)) data)"
    unfolding length_drop by (rule cut)
  let ?sc = "sc\<lparr>sc_consumed := sc_consumed sc + int k, sc_rest := drop k (sc_rest sc)\<rparr>"
  have fields: "sc_rest ?sc = drop k (sc_rest sc)" "nat (sc_consumed ?sc) = k + nat (sc_consumed sc)"
    by (simp_all add: at)
  have "sc_rest ?sc = take (length (sc_rest ?sc)) (drop (nat (sc_consumed ?sc)) data)"
    unfolding fields by (rule tail)
  moreover have "0 \<le> sc_consumed ?sc" "sc_read_at ?sc = sc_consumed ?sc + int (length (sc_rest ?sc))"
    "sc_read_at ?sc \<le> int (length data)" "sc_hashed ?sc = take (nat (sc_read_at ?sc)) data"
    using assms by (simp_all add: scan_inv_def of_nat_diff)
  moreover have "\<not> sc_eof ?sc" using assms(3) by simp
  ultimately show ?thesis unfolding scan_inv_def by blast
qed

lemma next_from_spec:
  "scan_inv data sc \<Longrightarrow>
   (case next_outcome max_line start line (sc_consumed sc) (drop (nat (sc_consumed sc)) data) of
      Inl e \<Rightarrow> next_from src max_line start line sc = Inl e
    | Inr l \<Rightarrow>
        (\<exists>sc'. next_from src max_line start line sc = Inr (l, sc') \<and> scan_inv data sc'
           \<and> sc_consumed sc' = sc_consumed sc + int (line_taken (drop (nat (sc_consumed sc)) data))))"
proof (induction "scan_left src sc" arbitrary: sc line rule: less_induct)
  case less
  let ?rest = "drop (nat (sc_consumed sc)) data"
  obtain sc1 where fill: "fill src sc = Inr sc1" "scan_inv data sc1" "sc_consumed sc1 = sc_consumed sc"
      "sc_rest sc1 = [] \<longleftrightarrow> sc_consumed sc = int (length data)"
    using fill_spec [OF less.prems] by blast
  note left = fill_progress [OF fill(1)]
  note unfolded = next_from.simps [of src max_line start line sc]
  have rest: "?rest = sc_rest sc1 @ drop (nat (sc_read_at sc1)) data"
    using scan_inv_split [OF fill(2)] fill(3) by simp
  show ?case
  proof (cases "sc_rest sc1 = []")
    case True
    with fill(4) have "?rest = []" by simp
    moreover from True left have "sc_eof sc1" by simp
    ultimately show ?thesis
      using True fill by (simp add: next_outcome_def line_taken_def line_text_def unfolded)
  next
    case not_end: False
    then have eof: "\<not> sc_eof sc1" using fill(2) by (auto simp: scan_inv_def)
    show ?thesis
    proof (cases "LF \<in> set (sc_rest sc1)")
      case True
      note found = line_text_found [OF True]
      let ?k = "length (line_text (sc_rest sc1)) + 1"
      let ?sc = "sc1\<lparr>sc_consumed := sc_consumed sc1 + int ?k, sc_rest := drop ?k (sc_rest sc1)\<rparr>"
      have "next_from src max_line start line sc =
          (if int (length line + length (line_text (sc_rest sc1))) > max_line then Inl ErrPatchLimit
           else Inr (Some \<lparr>pln_offset = start, pln_end = sc_consumed sc1 + int ?k,
             pln_text = line @ line_text (sc_rest sc1), pln_terminated = True\<rparr>, ?sc))"
        using not_end found(2) fill(1)
        by (simp add: unfolded Let_def line_text_def [symmetric] add.assoc)
      moreover have "scan_inv data ?sc"
        using fill(2) found(2) eof by (intro scan_inv_take) auto
      moreover have "line_text ?rest = line_text (sc_rest sc1)" "line_taken ?rest = ?k" "?rest \<noteq> []"
        using found not_end by (auto simp: rest line_taken_def)
      moreover from this have "length (line_text ?rest) < length ?rest" using found(2) rest by simp
      ultimately show ?thesis
        using fill(3) by (simp add: next_outcome_def del: length_drop)
    next
      case False
      note whole = line_text_whole [OF False]
      let ?sc = "sc1\<lparr>sc_consumed := sc_consumed sc1 + int (length (sc_rest sc1)), sc_rest := []\<rparr>"
      have step: "next_from src max_line start line sc =
          (if int (length line + length (sc_rest sc1)) > max_line then Inl ErrPatchLimit
           else next_from src max_line start (line @ sc_rest sc1) ?sc)"
        using not_end whole fill(1) by (simp add: unfolded Let_def line_text_def [symmetric])
      have inv: "scan_inv data ?sc"
        using scan_inv_take [OF fill(2) _ eof, of "length (sc_rest sc1)"] by simp
      have "scan_left src ?sc < scan_left src sc"
        using left not_end by (simp add: scan_left_def flip: length_greater_0_conv)
      note IH = less.hyps [OF this inv, of "line @ sc_rest sc1"]
      have "nat (sc_consumed ?sc) = nat (sc_read_at sc1)"
        using fill(2) by (simp add: scan_inv_def)
      then have "drop (nat (sc_consumed ?sc)) data = drop (nat (sc_read_at sc1)) data" by simp
      with IH step False not_end fill(3) show ?thesis
        by (simp add: rest next_outcome_append line_taken_append add.assoc split: sum.splits)
    qed
  qed
qed

lemma next_line_spec:
  assumes "scan_inv data sc"
  shows "case next_outcome max_line (sc_consumed sc) [] (sc_consumed sc) (drop (nat (sc_consumed sc)) data) of
      Inl e \<Rightarrow> next_line src max_line sc = Inl e
    | Inr l \<Rightarrow>
        (\<exists>sc'. next_line src max_line sc = Inr (l, sc') \<and> scan_inv data sc'
           \<and> sc_consumed sc' = sc_consumed sc + int (line_taken (drop (nat (sc_consumed sc)) data)))"
  unfolding next_line_def by (rule next_from_spec [OF assms])

end

text \<open>The index loop over lines already cut.\<close>

fun index_lines ::
    "patch_source \<Rightarrow> patch_limits \<Rightarrow> patch_line list \<Rightarrow> index_state \<Rightarrow> (patch_error, index_state) result" where
  "index_lines src limits [] st = Inr st"
| "index_lines src limits (l # ls) st =
     (if int (length (pln_text l)) > pl_max_line_bytes limits then Inl ErrPatchLimit
      else bind_result (index_step src limits l st) (index_lines src limits ls))"

lemma lines_at_step:
  "rest \<noteq> [] \<Longrightarrow>
   lines_at pos rest =
     \<lparr>pln_offset = pos, pln_end = pos + int (line_taken rest), pln_text = line_text rest,
      pln_terminated = (length (line_text rest) < length rest)\<rparr>
     # lines_at (pos + int (line_taken rest)) (drop (line_taken rest) rest)"
  by (simp add: lines_at.simps [of pos rest] Let_def line_taken_def line_text_def)

context patch_source_contract
begin

lemma index_loop_spec:
  "scan_inv data sc \<Longrightarrow>
   (case index_lines src limits (lines_at (sc_consumed sc) (drop (nat (sc_consumed sc)) data)) st of
      Inl e \<Rightarrow> index_loop src limits LiveContext sc st = Inl e
    | Inr st' \<Rightarrow>
        (\<exists>sc'. index_loop src limits LiveContext sc st = Inr (st', sc')
           \<and> sc_consumed sc' = int (length data) \<and> sc_hashed sc' = data))"
proof (induction "scan_left src sc" arbitrary: sc st rule: less_induct)
  case less
  let ?rest = "drop (nat (sc_consumed sc)) data"
  note unfolded = index_loop.simps [of src limits LiveContext sc st] context_error_def
  note line = next_line_spec [OF less.prems, of "pl_max_line_bytes limits"]
  have pos: "0 \<le> sc_consumed sc" "sc_consumed sc \<le> int (length data)"
    using less.prems by (auto simp: scan_inv_def)
  show ?case
  proof (cases "?rest = []")
    case True
    then obtain sc' where sc': "next_line src (pl_max_line_bytes limits) sc = Inr (None, sc')"
        "scan_inv data sc'" "sc_consumed sc' = sc_consumed sc"
      using line by (auto simp: next_outcome_def line_taken_def line_text_def)
    have "sc_consumed sc = int (length data)" using True pos by simp
    moreover from this sc' have "sc_hashed sc' = data" by (auto simp: scan_inv_def)
    ultimately show ?thesis
      using True sc' by (simp add: unfolded lines_at.simps [of _ "[]"])
  next
    case False
    let ?line = "\<lparr>pln_offset = sc_consumed sc, pln_end = sc_consumed sc + int (line_taken ?rest),
      pln_text = line_text ?rest, pln_terminated = (length (line_text ?rest) < length ?rest)\<rparr>"
    show ?thesis
    proof (cases "int (length (line_text ?rest)) > pl_max_line_bytes limits")
      case True
      then show ?thesis
        using line False by (simp add: unfolded lines_at_step next_outcome_def del: drop_drop)
    next
      case fits: False
      then obtain sc' where sc': "next_line src (pl_max_line_bytes limits) sc = Inr (Some ?line, sc')"
          "scan_inv data sc'" "sc_consumed sc' = sc_consumed sc + int (line_taken ?rest)"
        using line False by (auto simp: next_outcome_def)
      have rest': "drop (nat (sc_consumed sc')) data = drop (line_taken ?rest) ?rest"
        using pos sc'(3) by (simp add: nat_add_distrib add.commute)
      have lines: "lines_at (sc_consumed sc) ?rest
          = ?line # lines_at (sc_consumed sc') (drop (nat (sc_consumed sc')) data)"
        by (simp only: lines_at_step [OF False] rest' sc'(3) [symmetric])
      have walk: "index_lines src limits (lines_at (sc_consumed sc) ?rest) st =
          bind_result (index_step src limits ?line st)
            (index_lines src limits (lines_at (sc_consumed sc') (drop (nat (sc_consumed sc')) data)))"
        using fits unfolding lines by simp
      have step: "index_loop src limits LiveContext sc st =
          bind_result (index_step src limits ?line st) (index_loop src limits LiveContext sc')"
        using sc'(1) by (simp add: unfolded bind_result_def split: sum.splits)
      have IH: "case index_lines src limits
          (lines_at (sc_consumed sc') (drop (nat (sc_consumed sc')) data)) st1 of
          Inl e \<Rightarrow> index_loop src limits LiveContext sc' st1 = Inl e
        | Inr st' \<Rightarrow>
            (\<exists>sc2. index_loop src limits LiveContext sc' st1 = Inr (st', sc2)
               \<and> sc_consumed sc2 = int (length data) \<and> sc_hashed sc2 = data)" for st1
        by (rule less.hyps [OF next_line_progress [OF sc'(1)] sc'(2)])
      show ?thesis
      proof (cases "index_step src limits ?line st")
        case (Inr st1)
        have lines: "index_lines src limits (lines_at (sc_consumed sc) ?rest) st
            = index_lines src limits (lines_at (sc_consumed sc') (drop (nat (sc_consumed sc')) data)) st1"
          using walk Inr by simp
        have loop: "index_loop src limits LiveContext sc st = index_loop src limits LiveContext sc' st1"
          using step Inr by simp
        show ?thesis unfolding lines loop by (rule IH)
      qed (simp add: walk step)
    qed
  qed
qed

end

lemma byte_patch_source_contract: "patch_source_contract (byte_patch_source data i) data"
proof
  show "ps_size (byte_patch_source data i) = int (length data)" by (simp add: byte_patch_source_def)
next
  fix len :: nat and off :: int
  assume *: "0 < len" "0 \<le> off" "off < int (length data)"
  let ?part = "take len (drop (nat off) data)"
  have "ps_read_at (byte_patch_source data i) len off
      = (int (length ?part), ?part, if length ?part < len then Some ReadEOF else None)"
    using * by (simp add: byte_patch_source_def Let_def)
  moreover have "0 < length ?part" "length ?part \<le> len" "nat off + length ?part \<le> length data"
    "take (length ?part) ?part = take (length ?part) (drop (nat off) data)"
    using * by auto
  ultimately show "\<exists>n content err. ps_read_at (byte_patch_source data i) len off = (int n, content, err)
      \<and> 0 < n \<and> n \<le> len \<and> take n content = take n (drop (nat off) data)
      \<and> nat off + n \<le> length data \<and> (err = None \<or> err = Some ReadEOF)"
    by (intro exI [of _ "length ?part"] exI [of _ ?part]
        exI [of _ "if length ?part < len then Some ReadEOF else None"]) (simp only: if_split, simp)
qed

interpretation bytes_read: patch_source_contract "byte_patch_source data i" data for data i
  by (rule byte_patch_source_contract)

text \<open>What the scanner computes, in terms of the lines of the patch.\<close>

definition index_of_bytes :: "bytes \<Rightarrow> patch_limits \<Rightarrow> bytes \<Rightarrow> (patch_error, index_state) result" where
  "index_of_bytes i limits data =
     bind_result (index_lines (byte_patch_source data i) limits (lines_at 0 data) initial_index)
       (close_section (byte_patch_source data i) limits (int (length data)))"

text \<open>Two sources with the same bytes and the same identity.\<close>

context patch_source_contract
begin

abbreviation plain_source :: patch_source where
  "plain_source \<equiv> byte_patch_source data (ps_id src)"

lemma plain_source_fields: "ps_id plain_source = ps_id src" "ps_size plain_source = ps_size src"
  by (simp_all add: byte_patch_source_def size)

lemma hash_range_plain:
  "hash_range src off len LiveContext = hash_range plain_source off len LiveContext"
  unfolding hash_range_eq bytes_read.hash_range_eq
  by (simp add: range_inside_def plain_source_fields)

lemma read_range_plain:
  "read_range src off len LiveContext = read_range plain_source off len LiveContext"
  unfolding read_range_eq bytes_read.read_range_eq
  by (simp add: range_inside_def plain_source_fields)

lemma finish_section_plain:
  "finish_section b e src None limits = finish_section b e plain_source None limits"
  unfolding finish_section_def hash_range_or_data_def option.case hash_range_plain plain_source_fields
  by (rule refl)

lemma index_step_plain: "index_step src limits l st = index_step plain_source limits l st"
  unfolding index_step_def close_section_def finish_section_plain by (rule refl)

lemma index_lines_plain: "index_lines src limits ls st = index_lines plain_source limits ls st"
proof (induction ls arbitrary: st)
  case (Cons l ls)
  have "index_lines src limits ls = index_lines plain_source limits ls"
    using Cons by (simp add: fun_eq_iff)
  then show ?case by (simp add: index_step_plain)
qed simp

lemma scan_index_spec:
  "scan_index src limits LiveContext =
     bind_result (index_of_bytes (ps_id src) limits data) (\<lambda>st.
       (let identity = \<lparr>pi_version = PatchIndexVersion, pi_source_id = ps_id src,
              pi_size = int (length data), pi_sha256 = sha256_hex data,
              pi_file_count = int (length (ix_entries st)),
              pi_hunk_count = count_hunks (ix_entries st), pi_row_count = ix_rows st\<rparr>
        in if \<not> patch_index_identity_valid identity then Inl ErrInvalidPatchSource
           else Inr (identity, ix_entries st)))"
proof -
  have close: "close_section src limits e st = close_section plain_source limits e st" for e st
    unfolding close_section_def finish_section_plain by (rule refl)
  have loop: "case index_lines plain_source limits (lines_at 0 data) initial_index of
      Inl e \<Rightarrow> index_loop src limits LiveContext new_patch_scanner initial_index = Inl e
    | Inr st' \<Rightarrow>
        (\<exists>sc'. index_loop src limits LiveContext new_patch_scanner initial_index = Inr (st', sc')
           \<and> sc_consumed sc' = int (length data) \<and> sc_hashed sc' = data)"
    using index_loop_spec [OF new_patch_scanner_inv, of limits initial_index]
    by (simp add: new_patch_scanner_def index_lines_plain)
  show ?thesis
  proof (cases "index_lines plain_source limits (lines_at 0 data) initial_index")
    case (Inl e)
    with loop show ?thesis by (simp add: scan_index_def index_of_bytes_def)
  next
    case (Inr st)
    then obtain sc where "index_loop src limits LiveContext new_patch_scanner initial_index = Inr (st, sc)"
        "sc_consumed sc = int (length data)" "sc_hashed sc = data"
      using loop by auto
    with Inr show ?thesis
      by (cases "close_section plain_source limits (int (length data)) st")
        (simp_all add: scan_index_def index_of_bytes_def size close)
  qed
qed

lemma scan_index_plain: "scan_index src limits ctx = scan_index plain_source limits ctx"
proof (cases ctx)
  case LiveContext
  then show ?thesis
    by (simp only: scan_index_spec bytes_read.scan_index_spec plain_source_fields)
qed (simp_all add: scan_index_def index_loop.simps [of src] index_loop.simps [of plain_source]
    context_error_def)

lemma validate_plain: "validate_source (Some src) = validate_source (Some plain_source)"
  by (simp add: validate_source_def plain_source_fields)

lemma build_plain:
  "build_patch_index ctx (Some src) limits sink s = build_patch_index ctx (Some plain_source) limits sink s"
  by (simp add: build_patch_index_def validate_plain plain_source_fields scan_index_plain Let_def
      split: option.splits)

lemma file_diff_plain: "file_diff_of b src e LiveContext = file_diff_of b plain_source e LiveContext"
  unfolding file_diff_of_def hash_range_plain plain_source_fields by (rule refl)

lemma parse_plain:
  "parse_file_diff ctx (Some src) entry limits = parse_file_diff ctx (Some plain_source) entry limits"
proof (cases ctx)
  case LiveContext
  have binary: "parse_binary_diff LiveContext src e l = parse_binary_diff LiveContext plain_source e l" for e l
    unfolding parse_binary_diff_def hash_range_plain plain_source_fields by (rule refl)
  have plain_text: "parse_text_diff LiveContext src e l = parse_text_diff LiveContext plain_source e l" for e l
    unfolding parse_text_diff_def read_range_plain file_diff_plain by (rule refl)
  show ?thesis
    unfolding LiveContext parse_file_diff_def Let_def option.sel validate_plain plain_source_fields
      hash_range_plain binary plain_text
    by (rule refl)
qed (auto simp: parse_file_diff_def validate_plain plain_source_fields context_error_def Let_def
    split: option.splits)

end

text \<open>
  C31. Building the index of a patch and parsing one of its files give the same outcome for every
  source that holds the same bytes under the same identity, however it cuts its answers into pieces:
  the same error, or the same published entries, identity and file diff, for every context, limits
  and sink. This rests on the line scanner returning exactly the lines of the bytes, across the ends
  of its reads.
\<close>

theorem patch_reads_irrelevant:
  assumes "patch_source_contract src data"
  shows "build_patch_index ctx (Some src) limits sink s
      = build_patch_index ctx (Some (byte_patch_source data (ps_id src))) limits sink s
    \<and> parse_file_diff ctx (Some src) entry limits
      = parse_file_diff ctx (Some (byte_patch_source data (ps_id src))) entry limits"
  by (rule conjI [OF patch_source_contract.build_plain [OF assms]
        patch_source_contract.parse_plain [OF assms]])

text \<open>A source that answers every read with one byte.\<close>

definition bytewise_source :: "bytes \<Rightarrow> bytes \<Rightarrow> patch_source" where
  "bytewise_source data i =
     \<lparr>ps_id = i, ps_size = int (length data),
      ps_read_at = (\<lambda>len off. (1, [data ! nat off], None))\<rparr>"

lemma bytewise_contract: "patch_source_contract (bytewise_source data i) data"
proof
  show "ps_size (bytewise_source data i) = int (length data)" by (simp add: bytewise_source_def)
next
  fix len :: nat and off :: int
  assume *: "0 < len" "0 \<le> off" "off < int (length data)"
  have off: "nat off < length data" using * by simp
  have one: "take 1 [data ! nat off] = take 1 (drop (nat off) data)"
    using off hd_drop_conv_nth [OF off] by (cases "drop (nat off) data") simp_all
  have answer: "ps_read_at (bytewise_source data i) len off = (int 1, [data ! nat off], None)"
    by (simp add: bytewise_source_def)
  show "\<exists>n content err. ps_read_at (bytewise_source data i) len off = (int n, content, err)
      \<and> 0 < n \<and> n \<le> len \<and> take n content = take n (drop (nat off) data)
      \<and> nat off + n \<le> length data \<and> (err = None \<or> err = Some ReadEOF)"
    using answer one off *(1)
    by (intro exI [of _ 1] exI [of _ "[data ! nat off]"] exI [of _ None] conjI) simp_all
qed

lemma patch_reads_irrelevant_witness:
  "build_patch_index LiveContext (Some (bytewise_source ''diff --git a/x b/x'' ''p''))
      default_patch_limits (Some memory_sink) []
    = build_patch_index LiveContext (Some (byte_patch_source ''diff --git a/x b/x'' ''p''))
        default_patch_limits (Some memory_sink) []"
proof -
  have "ps_id (bytewise_source ''diff --git a/x b/x'' ''p'') = ''p''" by (simp add: bytewise_source_def)
  then show ?thesis
    using patch_reads_irrelevant [OF bytewise_contract [of "''diff --git a/x b/x''" "''p''"],
        where ctx = LiveContext and limits = default_patch_limits and sink = "Some memory_sink"
          and s = "[]"]
    by simp
qed

end
