(* ===== verification/Patch_Entries.thy ===== *)
theory Patch_Entries
  imports Patch_Source
begin

text \<open>
  What a published patch index says about its patch: its entries cut the bytes into consecutive
  sections, each from one \<^verbatim>\<open>diff --git\<close> line to the next, with the digests of those bytes.
\<close>

subsection \<open>The start of a section never moves\<close>

lemma start_hunk_start: "start_hunk b l limits = Inr b' \<Longrightarrow> sb_start b' = sb_start b"
  by (auto simp: start_hunk_def split: if_splits)

lemma consume_index_start: "consume_index b v = Inr b' \<Longrightarrow> sb_start b' = sb_start b"
  by (auto simp: consume_index_def Let_def split: if_splits)

lemma consume_metadata_start: "consume_metadata b l limits = Inr b' \<Longrightarrow> sb_start b' = sb_start b"
  by (auto simp: consume_metadata_def Let_def split: if_splits
      dest!: start_hunk_start consume_index_start)

lemma consume_outside_start: "consume_outside b l limits = Inr b' \<Longrightarrow> sb_start b' = sb_start b"
  by (auto simp: consume_outside_def split: if_splits dest: consume_metadata_start)

lemma finish_hunk_start: "finish_hunk b e limits = Inr b' \<Longrightarrow> sb_start b' = sb_start b"
  by (auto simp: finish_hunk_def Let_def split: option.splits if_splits)

lemma consume_diff_line_start: "consume_diff_line b t limits = Inr b' \<Longrightarrow> sb_start b' = sb_start b"
  by (auto simp: consume_diff_line_def Let_def split: option.splits if_splits)

lemma consume_no_newline_marker_start: "consume_no_newline_marker b = Inr b' \<Longrightarrow> sb_start b' = sb_start b"
  by (auto simp: consume_no_newline_marker_def Let_def split: option.splits if_splits)

lemmas section_start = consume_diff_line_start consume_no_newline_marker_start
  consume_outside_start finish_hunk_start

lemma consume_start: "consume b l limits = Inr b' \<Longrightarrow> sb_start b' = sb_start b"
  by (auto simp: consume_def Let_def split: option.splits if_splits dest!: section_start)

lemma new_section_start: "new_section l limits c = Inr b \<Longrightarrow> sb_start b = pln_offset l"
  by (auto simp: new_section_def split: if_splits)

lemma start_cases:
  "(\<And>f. sb_start (fst (g f)) = s) \<Longrightarrow> sb_start b = s \<Longrightarrow>
   sb_start (fst (case r of Inl e \<Rightarrow> (b, h e) | Inr f \<Rightarrow> g f)) = s"
  by (cases r) simp_all

lemma changed_file_start: "sb_start (fst (changed_file_of b)) = sb_start b"
  unfolding changed_file_of_def Let_def by (intro start_cases) simp_all

subsection \<open>Sections in a row\<close>

definition slice :: "bytes \<Rightarrow> int \<Rightarrow> int \<Rightarrow> bytes" where
  "slice data off len = take (nat len) (drop (nat off) data)"

definition entry_covers :: "bytes \<Rightarrow> bytes \<Rightarrow> patch_index_entry \<Rightarrow> bool" where
  "entry_covers i data e \<longleftrightarrow>
     0 \<le> pe_offset e \<and> 0 < pe_length e \<and> pe_source_id e = i
     \<and> has_prefix diff_git_prefix (drop (nat (pe_offset e)) data)
     \<and> pe_sha256 e = sha256_hex (slice data (pe_offset e) (pe_length e))
     \<and> (\<forall>h \<in> set (pe_hunks e). ph_sha256 h = sha256_hex (slice data (ph_offset h) (ph_length h)))"

fun adjacent :: "int \<Rightarrow> patch_index_entry list \<Rightarrow> int \<Rightarrow> bool" where
  "adjacent start [] stop = (start = stop)"
| "adjacent start (e # es) stop =
     (pe_offset e = start \<and> adjacent (start + pe_length e) es stop)"

lemma adjacent_snoc:
  "adjacent start (es @ [e]) stop \<longleftrightarrow>
     adjacent start es (pe_offset e) \<and> pe_offset e + pe_length e = stop"
  by (induction es arbitrary: start) auto

lemma hash_slice:
  "hash_range_or_data (byte_patch_source data i) None off len = Inr d \<Longrightarrow>
   d = sha256_hex (slice data off len) \<and> 0 \<le> off \<and> 0 \<le> len \<and> off + len \<le> int (length data)"
  by (auto simp: hash_range_or_data_def bytes_read.hash_range_eq range_inside_def slice_def
      bytes_read.size split: if_splits)

lemma finish_section_entry:
  assumes "finish_section b e (byte_patch_source data i) None limits = Inr entry"
  shows "pe_offset entry = sb_start b \<and> pe_length entry = e - sb_start b \<and> sb_start b < e
    \<and> 0 \<le> sb_start b \<and> e \<le> int (length data)
    \<and> pe_source_id entry = i \<and> pe_sha256 entry = sha256_hex (slice data (sb_start b) (e - sb_start b))
    \<and> (\<forall>h \<in> set (pe_hunks entry). ph_sha256 h = sha256_hex (slice data (ph_offset h) (ph_length h)))"
proof -
  let ?src = "byte_patch_source data i"
  let ?digested = "\<lambda>h. bind_result (hash_range_or_data ?src None (ph_offset h) (ph_length h))
      (\<lambda>digest. Inr (h\<lparr>ph_sha256 := digest\<rparr>))"
  obtain b1 where b1: "finish_hunk b e limits = Inr b1"
    using assms by (cases "finish_hunk b e limits") (simp_all add: finish_section_def)
  let ?b = "fst (changed_file_of b1)"
  have start: "sb_start ?b = sb_start b" "sb_start b1 = sb_start b"
    using finish_hunk_start [OF b1] changed_file_start [of b1] by simp_all
  obtain f section_hash hunks where ok: "\<not> e \<le> sb_start b"
      "hash_range_or_data ?src None (sb_start b) (e - sb_start b) = Inr section_hash"
      "map_result ?digested (sb_hunks ?b) = Inr hunks"
      "entry = \<lparr>pe_version = PatchIndexVersion, pe_source_id = ps_id ?src, pe_index = 0,
         pe_offset = sb_start b, pe_length = e - sb_start b, pe_header_length = sb_header_len ?b,
         pe_file = f, pe_binary = sb_binary ?b, pe_binary_complete = sb_binary_complete ?b,
         pe_binary_offset = (if sb_binary ?b then binary_offset ?b e else 0),
         pe_sha256 = section_hash, pe_hunks = hunks\<rparr>"
    using assms b1 start by (auto simp: finish_section_def Let_def split: if_splits)
  have "ph_sha256 h = sha256_hex (slice data (ph_offset h) (ph_length h))" if "h \<in> set hunks" for h
    using map_result_set [OF ok(3) that] by (auto dest: hash_slice)
  with hash_slice [OF ok(2)] ok(1,4) show ?thesis by (simp add: byte_patch_source_def)
qed

subsection \<open>The lines of the patch\<close>

lemma lines_at_mem:
  "l \<in> set (lines_at pos rest) \<Longrightarrow>
   \<exists>k. pln_offset l = pos + int k \<and> k < length rest \<and> pln_text l = line_text (drop k rest)"
proof (induction "length rest" arbitrary: pos rest rule: less_induct)
  case less
  have rest: "rest \<noteq> []" using less.prems by (auto simp: lines_at.simps [of pos "[]"])
  have taken: "0 < line_taken rest" using rest by (cases rest) (auto simp: line_taken_def line_text_def)
  from less.prems consider "l = \<lparr>pln_offset = pos, pln_end = pos + int (line_taken rest),
        pln_text = line_text rest, pln_terminated = (length (line_text rest) < length rest)\<rparr>"
    | "l \<in> set (lines_at (pos + int (line_taken rest)) (drop (line_taken rest) rest))"
    unfolding lines_at_step [OF rest] by auto
  then show ?case
  proof cases
    case 1
    with rest show ?thesis by (intro exI [of _ 0]) simp
  next
    case 2
    have "length (drop (line_taken rest) rest) < length rest" using taken rest by simp
    from less.hyps [OF this 2] obtain k where "pln_offset l = pos + int (line_taken rest) + int k"
        "k < length (drop (line_taken rest) rest)"
        "pln_text l = line_text (drop k (drop (line_taken rest) rest))" by blast
    then show ?thesis by (intro exI [of _ "line_taken rest + k"]) (auto simp: add.commute)
  qed
qed

lemma line_at_offset:
  assumes "l \<in> set (lines_at 0 data)" "has_prefix p (pln_text l)"
  shows "0 \<le> pln_offset l" "has_prefix p (drop (nat (pln_offset l)) data)"
proof -
  obtain k where k: "pln_offset l = int k" "pln_text l = line_text (drop k data)"
    using lines_at_mem [OF assms(1)] by auto
  then show "0 \<le> pln_offset l" by simp
  have "drop k data = line_text (drop k data) @ dropWhile (\<lambda>c. c \<noteq> LF) (drop k data)"
    by (simp add: line_text_def)
  moreover obtain t where "line_text (drop k data) = p @ t"
    using assms(2) k(2) unfolding has_prefix_def by (metis append_take_drop_id)
  ultimately have "drop k data = p @ t @ dropWhile (\<lambda>c. c \<noteq> LF) (drop k data)" by simp
  then show "has_prefix p (drop (nat (pln_offset l)) data)"
    using k(1) unfolding has_prefix_def by (metis append_eq_conv_conj nat_int)
qed

subsection \<open>The invariant of the index\<close>

definition blank_line :: "patch_line \<Rightarrow> bool" where
  "blank_line l \<longleftrightarrow> trim_space (pln_text l) = []"

text \<open>Nothing but blank lines before the line that starts at \<open>start\<close>.\<close>

definition opens_at :: "patch_line list \<Rightarrow> int \<Rightarrow> bool" where
  "opens_at ls start \<longleftrightarrow>
     (\<exists>pre l post. ls = pre @ l # post \<and> list_all blank_line pre \<and> pln_offset l = start)"

lemma opens_at_append: "opens_at ls start \<Longrightarrow> opens_at (ls @ ms) start"
  unfolding opens_at_def by (metis append.assoc append_Cons)

definition entries_good :: "bytes \<Rightarrow> bytes \<Rightarrow> patch_index_entry list \<Rightarrow> bool" where
  "entries_good i data es \<longleftrightarrow>
     list_all (entry_covers i data) es \<and> map pe_index es = map int [0..<length es]"

definition index_inv :: "bytes \<Rightarrow> bytes \<Rightarrow> patch_line list \<Rightarrow> index_state \<Rightarrow> bool" where
  "index_inv i data ls st \<longleftrightarrow>
     entries_good i data (ix_entries st) \<and> ix_rows st = sum_list (map entry_rows (ix_entries st))
     \<and> (case ix_current st of
          None \<Rightarrow> ix_entries st = [] \<and> list_all blank_line ls
        | Some b \<Rightarrow>
            has_prefix diff_git_prefix (drop (nat (sb_start b)) data)
            \<and> (\<exists>start. opens_at ls start \<and> adjacent start (ix_entries st) (sb_start b)))"

lemma initial_index_inv: "index_inv i data [] initial_index"
  by (simp add: index_inv_def initial_index_def entries_good_def)

lemma close_section_inv:
  assumes "close_section (byte_patch_source data i) limits e st = Inr st'" "index_inv i data ls st"
  shows "entries_good i data (ix_entries st')
    \<and> ix_rows st' = sum_list (map entry_rows (ix_entries st'))
    \<and> (if ix_current st = None then ix_entries st' = [] \<and> list_all blank_line ls
       else \<exists>start. opens_at ls start \<and> adjacent start (ix_entries st') e)"
proof (cases "ix_current st")
  case None
  with assms show ?thesis by (auto simp: close_section_def index_inv_def)
next
  case (Some b)
  with assms(1) obtain entry where entry: "finish_section b e (byte_patch_source data i) None limits = Inr entry"
    and st': "st' = st\<lparr>ix_entries := ix_entries st @ [entry\<lparr>pe_index := int (length (ix_entries st))\<rparr>],
                    ix_rows := ix_rows st + entry_rows entry\<rparr>"
    by (auto simp: close_section_def)
  from assms(2) Some obtain start where start: "opens_at ls start" "adjacent start (ix_entries st) (sb_start b)"
    and begins: "has_prefix diff_git_prefix (drop (nat (sb_start b)) data)"
    by (auto simp: index_inv_def)
  have "entry_covers i data (entry\<lparr>pe_index := n\<rparr>)" for n
    using finish_section_entry [OF entry] begins by (simp add: entry_covers_def)
  then have "entries_good i data (ix_entries st')"
    using assms(2) by (simp add: st' index_inv_def entries_good_def)
  moreover have "ix_rows st' = sum_list (map entry_rows (ix_entries st'))"
    using assms(2) by (simp add: st' index_inv_def entry_rows_def)
  moreover have "adjacent start (ix_entries st') e"
    using finish_section_entry [OF entry] start(2) by (simp add: st' adjacent_snoc)
  ultimately show ?thesis using Some start(1) by auto
qed

lemma index_step_inv:
  assumes "index_step (byte_patch_source data i) limits l st = Inr st'" "index_inv i data ls st"
    and "l \<in> set (lines_at 0 data)"
  shows "index_inv i data (ls @ [l]) st'"
proof (cases "has_prefix diff_git_prefix (pln_text l)")
  case True
  with assms(1) obtain st1 b where
      closed: "close_section (byte_patch_source data i) limits (pln_offset l) st = Inr st1"
    and b: "new_section l limits False = Inr b" and st': "st' = st1\<lparr>ix_current := Some b\<rparr>"
    by (auto simp: index_step_def split: if_splits)
  note before = close_section_inv [OF closed assms(2)]
  have at: "sb_start b = pln_offset l" using new_section_start [OF b] .
  have "\<exists>start. opens_at (ls @ [l]) start \<and> adjacent start (ix_entries st1) (pln_offset l)"
  proof (cases "ix_current st = None")
    case True
    with before have "opens_at (ls @ [l]) (pln_offset l)" "ix_entries st1 = []"
      by (auto simp: opens_at_def)
    then show ?thesis by (intro exI [of _ "pln_offset l"]) simp
  next
    case False
    with before show ?thesis by (auto intro: opens_at_append)
  qed
  with before line_at_offset [OF assms(3) True] show ?thesis
    by (simp add: index_inv_def st' at)
next
  case False
  show ?thesis
  proof (cases "ix_current st")
    case None
    with False assms(1,2) show ?thesis
      by (auto simp: index_step_def index_inv_def blank_line_def split: if_splits)
  next
    case (Some b)
    with False assms(1) obtain b' where b': "consume b l limits = Inr b'" "st' = st\<lparr>ix_current := Some b'\<rparr>"
      by (auto simp: index_step_def split: if_splits)
    with assms(2) Some consume_start [OF b'(1)] show ?thesis
      by (auto simp: index_inv_def intro: opens_at_append)
  qed
qed

lemma index_lines_inv:
  "index_lines (byte_patch_source data i) limits ms st = Inr st' \<Longrightarrow> index_inv i data ls st \<Longrightarrow>
   set ms \<subseteq> set (lines_at 0 data) \<Longrightarrow> index_inv i data (ls @ ms) st'"
proof (induction ms arbitrary: ls st)
  case (Cons l ms)
  then obtain st1 where st1: "index_step (byte_patch_source data i) limits l st = Inr st1"
      "index_lines (byte_patch_source data i) limits ms st1 = Inr st'"
    by (auto split: if_splits)
  have "index_inv i data (ls @ [l]) st1"
    using index_step_inv [OF st1(1) Cons.prems(2)] Cons.prems(3) by simp
  from Cons.IH [OF st1(2) this] Cons.prems(3) show ?case by simp
qed simp

lemma index_of_bytes_good:
  assumes "index_of_bytes i limits data = Inr st"
  shows "entries_good i data (ix_entries st)"
    "ix_rows st = sum_list (map entry_rows (ix_entries st))"
    "ix_entries st = [] \<and> list_all blank_line (lines_at 0 data)
     \<or> (\<exists>start. opens_at (lines_at 0 data) start \<and> adjacent start (ix_entries st) (int (length data)))"
proof -
  obtain st1 where lines: "index_lines (byte_patch_source data i) limits (lines_at 0 data) initial_index = Inr st1"
    and closed: "close_section (byte_patch_source data i) limits (int (length data)) st1 = Inr st"
    using assms by (auto simp: index_of_bytes_def)
  have "index_inv i data (lines_at 0 data) st1"
    using index_lines_inv [OF lines initial_index_inv order_refl] by simp
  note ends = close_section_inv [OF closed this]
  show "entries_good i data (ix_entries st)" "ix_rows st = sum_list (map entry_rows (ix_entries st))"
    using ends by simp_all
  show "ix_entries st = [] \<and> list_all blank_line (lines_at 0 data)
     \<or> (\<exists>start. opens_at (lines_at 0 data) start \<and> adjacent start (ix_entries st) (int (length data)))"
    using ends by (cases "ix_current st1 = None") auto
qed

subsection \<open>The published index\<close>

lemma publish_memory_step:
  "publish memory_sink acc (e # es) =
     (if patch_index_entry_valid e then publish memory_sink (acc @ [e]) es else (acc, Some ErrPatchSink))"
  by (simp add: memory_sink_def [of acc e])

lemma publish_memory:
  "publish memory_sink acc es = (out, None) \<Longrightarrow> out = acc @ es \<and> list_all patch_index_entry_valid es"
proof (induction es arbitrary: acc)
  case (Cons e es)
  then have step: "patch_index_entry_valid e" "publish memory_sink (acc @ [e]) es = (out, None)"
    unfolding publish_memory_step by (simp_all split: if_split_asm)
  from Cons.IH [OF step(2)] step(1) show ?case by simp
qed simp

text \<open>
  C32. When the index of a patch is published, its entries are numbered from zero and cut the whole
  rest of the patch after leading blank lines into consecutive non-empty sections, each beginning
  with a \<^verbatim>\<open>diff --git\<close> line; every entry and every hunk in it carries the digest of
  exactly its own bytes and passes its own validation; and the identity has the size and digest of
  the patch and the number of its files, hunks and rows.
\<close>

theorem patch_index_tiles:
  assumes "patch_source_contract src data"
    and "build_patch_index LiveContext (Some src) limits (Some memory_sink) [] = (entries, Inr identity)"
  shows "list_all (entry_covers (ps_id src) data) entries \<and> list_all patch_index_entry_valid entries
    \<and> map pe_index entries = map int [0..<length entries]
    \<and> (entries = [] \<and> list_all blank_line (lines_at 0 data)
       \<or> (\<exists>start. opens_at (lines_at 0 data) start \<and> adjacent start entries (int (length data))))
    \<and> pi_size identity = int (length data) \<and> pi_sha256 identity = sha256_hex data
    \<and> pi_file_count identity = int (length entries) \<and> pi_hunk_count identity = count_hunks entries
    \<and> pi_row_count identity = sum_list (map entry_rows entries)"
proof -
  obtain es where scan: "scan_index src (with_defaults limits) LiveContext = Inr (identity, es)"
    and out: "publish memory_sink [] es = (entries, None)"
    using assms(2)
    by (auto simp: build_patch_index_def Let_def split: option.splits if_splits sum.splits prod.splits)
  obtain st where st: "index_of_bytes (ps_id src) (with_defaults limits) data = Inr st"
      "es = ix_entries st" "pi_size identity = int (length data)" "pi_sha256 identity = sha256_hex data"
      "pi_file_count identity = int (length es)" "pi_hunk_count identity = count_hunks es"
      "pi_row_count identity = ix_rows st"
    using scan unfolding patch_source_contract.scan_index_spec [OF assms(1)]
    by (auto simp: Let_def split: if_splits)
  have "entries = es" "list_all patch_index_entry_valid es" using publish_memory [OF out] by simp_all
  with st index_of_bytes_good [OF st(1)] show ?thesis by (simp add: entries_good_def)
qed

subsection \<open>A patch with one file\<close>

definition sample_patch :: bytes where
  "sample_patch = ''diff --git a/x b/x'' @ [LF]"

lemma sample_lines:
  "lines_at 0 sample_patch =
     [\<lparr>pln_offset = 0, pln_end = 19, pln_text = ''diff --git a/x b/x'', pln_terminated = True\<rparr>]"
  by code_simp

lemma sample_length: "length sample_patch = 19"
  by (simp add: sample_patch_def)

lemma sample_open:
  "\<exists>b. index_lines src default_patch_limits (lines_at 0 sample_patch) initial_index
      = Inr (initial_index\<lparr>ix_current := Some b\<rparr>)
    \<and> new_section \<lparr>pln_offset = 0, pln_end = 19, pln_text = ''diff --git a/x b/x'', pln_terminated = True\<rparr>
        default_patch_limits False = Inr b"
proof -
  have parts: "parse_git_header_paths ''diff --git a/x b/x'' = Inr (''a/x'', ''b/x'')"
    "parse_repo_path ''a/x'' ''a/'' False = Inr (Some ''x'')"
    "parse_repo_path ''b/x'' ''b/'' False = Inr (Some ''x'')"
    "has_prefix diff_git_prefix ''diff --git a/x b/x''"
    by code_simp+
  show ?thesis
    using parts
    by (simp add: sample_lines index_step_def close_section_def initial_index_def new_section_def
        default_patch_limits_def)
qed

definition sample_change :: changed_file where
  "sample_change =
     \<lparr>cf_old_path = Some ''x'', cf_new_path = Some ''x'', cf_kind = ChangeModified,
      cf_old_file_kind = FileKindRegular, cf_new_file_kind = FileKindRegular, cf_old_mode = 33188,
      cf_new_mode = 33188, cf_old_object_id = None, cf_new_object_id = None, cf_review_only = None,
      cf_mode_transition = None, cf_content_class = NoContentClass, cf_old_text = None,
      cf_new_text = None, cf_binary = False, cf_staged = False, cf_unstaged = False,
      cf_conflict = None, cf_rename = None\<rparr>"

lemma sample_change_valid: "changed_file_valid sample_change"
proof -
  have "CHR ''x'' \<noteq> NUL" by (simp add: ctl_iff)
  then show ?thesis
    by (simp add: sample_change_def changed_file_valid_def change_side_valid_def change_kind_shape_def
        valid_repo_path_def file_kind_valid_def change_kind_valid_def git_mode_ok_iff
        classify_git_mode_def git_mode_class_file_kind_def)
qed

lemma sample_section_change:
  assumes "new_section \<lparr>pln_offset = 0, pln_end = 19, pln_text = ''diff --git a/x b/x'',
      pln_terminated = True\<rparr> default_patch_limits False = Inr b"
  shows "sb_hunk b = None" "sb_hunks b = []" "sb_start b = 0" "sb_header_len b = 19"
    "sb_binary b = False" "sb_binary_complete b = False"
    "changed_file_of b = (b, Inr sample_change)"
proof -
  have parts: "parse_git_header_paths ''diff --git a/x b/x'' = Inr (''a/x'', ''b/x'')"
    "parse_repo_path ''a/x'' ''a/'' False = Inr (Some ''x'')"
    "parse_repo_path ''b/x'' ''b/'' False = Inr (Some ''x'')"
    by code_simp+
  have kind: "mode_kind 33188 = FileKindRegular"
    by (simp add: mode_kind_def classify_git_mode_def git_mode_class_file_kind_def)
  note b = assms [unfolded new_section_def patch_line.select_convs parts bind_result_simps prod.case]
  show "sb_hunk b = None" "sb_hunks b = []" "sb_start b = 0" "sb_header_len b = 19"
    "sb_binary b = False" "sb_binary_complete b = False"
    using b by (auto split: if_splits)
  have paths: "section_old_path b = Some ''x''" "section_new_path b = Some ''x''"
    and modes: "section_mode (Some ''x'') (sb_old_mode_set b) (sb_old_mode b) (sb_index_mode b) = 33188"
      "section_mode (Some ''x'') (sb_new_mode_set b) (sb_new_mode b) (sb_index_mode b) = 33188"
    and kind': "section_kind b FileKindRegular FileKindRegular = ChangeModified"
    and rest: "sb_old_object b = None" "sb_new_object b = None" "sb_diff_hunks b = []"
    using b by (auto simp: section_old_path_def section_new_path_def pick_def section_mode_def
        section_kind_def split: if_splits)
  show "changed_file_of b = (b, Inr sample_change)"
    unfolding changed_file_of_def Let_def paths modes kind kind' rest \<open>sb_binary b = False\<close>
    using sample_change_valid by (simp add: opaque_hunks_def sample_change_def)
qed

lemma sample_index:
  "\<exists>st. index_of_bytes ''p'' default_patch_limits sample_patch = Inr st
    \<and> length (ix_entries st) = 1 \<and> list_all patch_index_entry_valid (ix_entries st)
    \<and> 0 \<le> ix_rows st"
proof -
  let ?src = "byte_patch_source sample_patch ''p''"
  obtain b where b: "index_lines ?src default_patch_limits (lines_at 0 sample_patch) initial_index
        = Inr (initial_index\<lparr>ix_current := Some b\<rparr>)"
    and new: "new_section \<lparr>pln_offset = 0, pln_end = 19, pln_text = ''diff --git a/x b/x'',
        pln_terminated = True\<rparr> default_patch_limits False = Inr b"
    using sample_open by blast
  note parts = sample_section_change [OF new]
  have "finish_hunk b 19 default_patch_limits = Inr b" using parts(1) by (simp add: finish_hunk_def)
  moreover have "hash_range_or_data ?src None 0 19 = Inr (sha256_hex sample_patch)"
    using sample_length
    by (simp add: hash_range_or_data_def bytes_read.hash_range_eq range_inside_def bytes_read.size)
  ultimately have entry: "finish_section b 19 ?src None default_patch_limits =
      Inr \<lparr>pe_version = PatchIndexVersion, pe_source_id = ''p'', pe_index = 0, pe_offset = 0,
        pe_length = 19, pe_header_length = 19, pe_file = sample_change, pe_binary = False,
        pe_binary_complete = False, pe_binary_offset = 0, pe_sha256 = sha256_hex sample_patch,
        pe_hunks = []\<rparr>"
    using parts by (simp add: finish_section_def byte_patch_source_def)
  have binary: "cf_binary sample_change = False" by (simp add: sample_change_def)
  show ?thesis
    unfolding index_of_bytes_def b bind_result_simps
    using entry sample_change_valid binary
    by (simp add: close_section_def sample_length initial_index_def patch_index_entry_valid_def
        entry_rows_def)
qed

lemma publish_valid:
  "list_all patch_index_entry_valid es \<Longrightarrow> publish memory_sink acc es = (acc @ es, None)"
proof (induction es arbitrary: acc)
  case (Cons e es)
  then show ?case using Cons.IH [of "acc @ [e]"] by (simp add: publish_memory_step del: publish.simps(2))
qed simp

lemma with_defaults_default: "with_defaults default_patch_limits = default_patch_limits"
  by (simp add: with_defaults_def default_patch_limits_def default_or_def)

lemma patch_index_tiles_witness:
  "\<exists>entries identity. build_patch_index LiveContext (Some (byte_patch_source sample_patch ''p''))
      default_patch_limits (Some memory_sink) [] = (entries, Inr identity)
    \<and> length entries = 1 \<and> list_all (entry_covers ''p'' sample_patch) entries"
proof -
  let ?src = "byte_patch_source sample_patch ''p''"
  obtain st where st: "index_of_bytes ''p'' default_patch_limits sample_patch = Inr st"
      "length (ix_entries st) = 1" "list_all patch_index_entry_valid (ix_entries st)" "0 \<le> ix_rows st"
    using sample_index by blast
  have id: "ps_id ?src = ''p''" "ps_size ?src = 19"
    by (simp_all add: byte_patch_source_def sample_length)
  have count: "0 \<le> count_hunks es" for es
    unfolding count_hunks_def by (rule sum_list_nonneg) auto
  obtain identity where identity: "scan_index ?src default_patch_limits LiveContext
      = Inr (identity, ix_entries st)"
    using st count [of "ix_entries st", THEN leD]
    by (simp add: bytes_read.scan_index_spec id sample_length patch_index_identity_valid_def)
  have "validate_source (Some ?src) = None"
    unfolding validate_source_def by (simp add: id trim_space_def) code_simp
  then have built: "build_patch_index LiveContext (Some ?src) default_patch_limits (Some memory_sink) []
      = (ix_entries st, Inr identity)"
    using identity publish_valid [OF st(3), of "[]"] id default_patch_limits_valid
    by (simp add: build_patch_index_def with_defaults_default) (simp add: default_patch_limits_def)
  from patch_index_tiles [OF byte_patch_source_contract built] built st(2) id show ?thesis
    by (intro exI [of _ "ix_entries st"] exI [of _ identity]) simp
qed

end
