(* ===== verification/Review_Domain.thy ===== *)
theory Review_Domain
  imports Repo_Core
begin

text \<open>
  The aggregates of \<^verbatim>\<open>internal/domain/review\<close>: status axes, messages, threads and sessions,
  with the methods that change them. A pointer receiver is an option, a method returns the new value
  of its receiver or the error with which it leaves the receiver as it was. What the three
  lifecycles have in common is the locale \<open>lifecycle\<close>.
\<close>

subsection \<open>Status axes\<close>

datatype resolution_state = ResolutionOpen | ResolutionResolved | ResolutionOther bytes

datatype conversation_state =
    ConversationIdle | ConversationStreaming | ConversationAwaitingRuntimeApproval
  | ConversationFailed | ConversationOther bytes

datatype proposal_state =
    ProposalNone | ProposalGenerating | ProposalReady | ProposalStale | ProposalApplying
  | ProposalApplied | ProposalRejected | ProposalFailed | ProposalStateOther bytes

datatype anchor_state =
    AnchorValid | AnchorRelocated | AnchorAmbiguous | AnchorOrphaned | AnchorStateOther bytes

datatype read_state = ThreadRead | ThreadUnread | ReadStateOther bytes

datatype message_status =
    MessagePending | MessageStreaming | MessageCompleted | MessageFailed | MessageCancelled
  | MessageStatusOther bytes

datatype message_role = RoleUser | RoleAssistant | RoleSystem | RoleTool | RoleOther bytes

text \<open>Failure phases and error codes are only ever used as text.\<close>

type_synonym failure_phase = bytes
type_synonym error_code = bytes

definition resolution_valid :: "resolution_state \<Rightarrow> bool" where
  "resolution_valid s \<longleftrightarrow> s \<in> {ResolutionOpen, ResolutionResolved}"

definition conversation_valid :: "conversation_state \<Rightarrow> bool" where
  "conversation_valid s \<longleftrightarrow>
     s \<in> {ConversationIdle, ConversationStreaming, ConversationAwaitingRuntimeApproval,
          ConversationFailed}"

definition proposal_state_valid :: "proposal_state \<Rightarrow> bool" where
  "proposal_state_valid s \<longleftrightarrow>
     s \<in> {ProposalNone, ProposalGenerating, ProposalReady, ProposalStale, ProposalApplying,
          ProposalApplied, ProposalRejected, ProposalFailed}"

definition anchor_state_valid :: "anchor_state \<Rightarrow> bool" where
  "anchor_state_valid s \<longleftrightarrow> s \<in> {AnchorValid, AnchorRelocated, AnchorAmbiguous, AnchorOrphaned}"

definition read_state_valid :: "read_state \<Rightarrow> bool" where
  "read_state_valid s \<longleftrightarrow> s \<in> {ThreadRead, ThreadUnread}"

definition message_status_valid :: "message_status \<Rightarrow> bool" where
  "message_status_valid s \<longleftrightarrow>
     s \<in> {MessagePending, MessageStreaming, MessageCompleted, MessageFailed, MessageCancelled}"

definition message_role_valid :: "message_role \<Rightarrow> bool" where
  "message_role_valid r \<longleftrightarrow> r \<in> {RoleUser, RoleAssistant, RoleSystem, RoleTool}"

datatype review_error =
    ErrInvalidReviewSession | ErrInvalidReviewThread | ErrInvalidCodeAnchor | ErrInvalidMessage
  | ErrInvalidStatusTransition | ErrInvalidReconcileInput | ErrInvalidReconcileOutcome
  | ErrInvalidProposal | ErrInvalidProposalTransition

subsection \<open>Field checks\<close>

definition valid_review_id :: "bytes \<Rightarrow> bool" where
  "valid_review_id v \<longleftrightarrow> v \<noteq> []"

definition valid_metadata :: "bytes \<Rightarrow> bool" where
  "valid_metadata v \<longleftrightarrow> v \<noteq> [] \<and> utf8_valid v"

definition valid_optional_metadata :: "bytes \<Rightarrow> bool" where
  "valid_optional_metadata v \<longleftrightarrow> v = [] \<or> utf8_valid v"

definition valid_content :: "bytes \<Rightarrow> bool" where
  "valid_content v \<longleftrightarrow> utf8_valid v"

definition valid_transition_time :: "instant \<Rightarrow> instant \<Rightarrow> bool" where
  "valid_transition_time previous next_time \<longleftrightarrow>
     \<not> is_zero_time next_time \<and> \<not> before next_time previous"

lemma valid_content_append: "valid_content a \<Longrightarrow> valid_content b \<Longrightarrow> valid_content (a @ b)"
  by (simp add: valid_content_def utf8_valid_scan scan_utf8_append)

lemma metadata_optional: "valid_metadata v \<Longrightarrow> valid_optional_metadata v"
  by (simp add: valid_metadata_def valid_optional_metadata_def)

subsection \<open>Lifecycles\<close>

text \<open>
  The contract of the aggregates: a step only succeeds on a valid value and yields one, it never
  moves the clock of the aggregate back or touches its identity, and it always fails on a value that
  is frozen. A refused step leaves the value as it was.
\<close>

definition advance :: "('op \<Rightarrow> 's \<Rightarrow> ('e, 's) result) \<Rightarrow> 's \<Rightarrow> 'op \<Rightarrow> 's" where
  "advance step s op = (case step op s of Inl _ \<Rightarrow> s | Inr t \<Rightarrow> t)"

definition run_ops :: "('op \<Rightarrow> 's \<Rightarrow> ('e, 's) result) \<Rightarrow> 'op list \<Rightarrow> 's \<Rightarrow> 's" where
  "run_ops step ops s = foldl (advance step) s ops"

lemma run_ops_simps [simp]:
  "run_ops step [] s = s"
  "run_ops step (op # ops) s = run_ops step ops (advance step s op)"
  by (simp_all add: run_ops_def)

locale lifecycle =
  fixes valid :: "'s \<Rightarrow> bool" and frozen :: "'s \<Rightarrow> bool" and updated :: "'s \<Rightarrow> instant"
    and ident :: "'s \<Rightarrow> 'i" and step :: "'op \<Rightarrow> 's \<Rightarrow> ('e, 's) result"
  assumes step_needs: "step op s = Inr t \<Longrightarrow> valid s \<and> \<not> frozen s"
    and step_keeps: "step op s = Inr t \<Longrightarrow> valid t \<and> updated s \<le> updated t \<and> ident t = ident s"
begin

lemma advance_keeps: "valid s \<Longrightarrow> valid (advance step s op) \<and> updated s \<le> updated (advance step s op)
    \<and> ident (advance step s op) = ident s"
  using step_keeps by (auto simp: advance_def split: sum.split)

lemma advance_frozen: "frozen s \<Longrightarrow> advance step s op = s"
  using step_needs by (auto simp: advance_def split: sum.split)

lemma run_keeps: "valid s \<Longrightarrow> valid (run_ops step ops s) \<and> updated s \<le> updated (run_ops step ops s)
    \<and> ident (run_ops step ops s) = ident s"
proof (induction ops arbitrary: s)
  case (Cons op ops)
  note first = advance_keeps [OF Cons.prems, of op]
  then have "valid (advance step s op)" by blast
  from Cons.IH [OF this] first show ?case unfolding run_ops_simps by auto
qed simp

lemma run_frozen: "frozen s \<Longrightarrow> run_ops step ops s = s"
  by (induction ops) (simp_all add: advance_frozen)

lemma run_invariant:
  assumes "\<And>op s t. step op s = Inr t \<Longrightarrow> P s \<Longrightarrow> P t" "P s"
  shows "P (run_ops step ops s)"
  using assms(2)
proof (induction ops arbitrary: s)
  case (Cons op ops)
  have "P (advance step s op)"
    using assms(1) Cons.prems by (auto simp: advance_def split: sum.split)
  with Cons.IH show ?case by simp
qed simp

end

subsection \<open>Messages\<close>

record message =
  msg_id :: message_id
  msg_thread_id :: review_thread_id
  msg_role :: message_role
  msg_content :: bytes
  msg_provider_id :: bytes
  msg_status :: message_status
  msg_ordinal :: nat
  msg_created_at :: instant
  msg_updated_at :: instant
  msg_completed_at :: "instant option"
  msg_failure_phase :: failure_phase
  msg_error_code :: error_code

definition message_terminal :: "message \<Rightarrow> bool" where
  "message_terminal m \<longleftrightarrow> msg_status m \<in> {MessageCompleted, MessageFailed, MessageCancelled}"

definition message_valid :: "message \<Rightarrow> bool" where
  "message_valid m \<longleftrightarrow>
     valid_review_id (msg_id m) \<and> valid_review_id (msg_thread_id m) \<and> message_role_valid (msg_role m)
     \<and> message_status_valid (msg_status m) \<and> msg_ordinal m \<noteq> 0 \<and> \<not> is_zero_time (msg_created_at m)
     \<and> \<not> is_zero_time (msg_updated_at m) \<and> \<not> before (msg_updated_at m) (msg_created_at m)
     \<and> valid_content (msg_content m) \<and> valid_optional_metadata (msg_provider_id m)
     \<and> valid_optional_metadata (msg_failure_phase m) \<and> valid_optional_metadata (msg_error_code m)
     \<and> message_terminal m = (msg_completed_at m \<noteq> None)
     \<and> opt_all (\<lambda>t. \<not> is_zero_time t \<and> \<not> before t (msg_created_at m) \<and> \<not> before t (msg_updated_at m))
         (msg_completed_at m)"

definition new_message :: "message \<Rightarrow> (review_error, message) result" where
  "new_message m = (if message_valid m then Inr m else Inl ErrInvalidMessage)"

definition new_pending_message ::
    "message_id \<Rightarrow> review_thread_id \<Rightarrow> message_role \<Rightarrow> nat \<Rightarrow> instant \<Rightarrow> (review_error, message) result" where
  "new_pending_message i thread role ordinal now =
     new_message
       \<lparr>msg_id = i, msg_thread_id = thread, msg_role = role, msg_content = [], msg_provider_id = [],
        msg_status = MessagePending, msg_ordinal = ordinal, msg_created_at = now,
        msg_updated_at = now, msg_completed_at = None, msg_failure_phase = [], msg_error_code = []\<rparr>"

text \<open>The shape all methods of the package share: a guard on the receiver, then the change.\<close>

definition guarded :: "('a \<Rightarrow> bool) \<Rightarrow> ('a \<Rightarrow> 'a) \<Rightarrow> 'a option \<Rightarrow> (review_error, 'a) result" where
  "guarded ok change receiver =
     (case receiver of
        None \<Rightarrow> Inl ErrInvalidStatusTransition
      | Some x \<Rightarrow> if ok x then Inr (change x) else Inl ErrInvalidStatusTransition)"

lemma guarded_simps [simp]:
  "guarded ok change None = Inl ErrInvalidStatusTransition"
  "guarded ok change (Some x) = Inr y \<longleftrightarrow> ok x \<and> y = change x"
  "guarded ok change (Some x) = Inl e \<longleftrightarrow> \<not> ok x \<and> e = ErrInvalidStatusTransition"
  by (auto simp: guarded_def)

definition begin_streaming :: "instant \<Rightarrow> message option \<Rightarrow> (review_error, message) result" where
  "begin_streaming now =
     guarded
       (\<lambda>m. message_valid m \<and> msg_status m = MessagePending
          \<and> valid_transition_time (msg_updated_at m) now)
       (\<lambda>m. m\<lparr>msg_status := MessageStreaming, msg_updated_at := now\<rparr>)"

definition append_content :: "bytes \<Rightarrow> instant \<Rightarrow> message option \<Rightarrow> (review_error, message) result" where
  "append_content delta now =
     guarded
       (\<lambda>m. message_valid m \<and> msg_status m = MessageStreaming
          \<and> valid_transition_time (msg_updated_at m) now \<and> valid_content delta)
       (\<lambda>m. m\<lparr>msg_content := msg_content m @ delta, msg_updated_at := now\<rparr>)"

definition message_active :: "message \<Rightarrow> bool" where
  "message_active m \<longleftrightarrow> msg_status m = MessagePending \<or> msg_status m = MessageStreaming"

definition complete_message :: "instant \<Rightarrow> message option \<Rightarrow> (review_error, message) result" where
  "complete_message now =
     guarded
       (\<lambda>m. message_valid m \<and> message_active m \<and> valid_transition_time (msg_updated_at m) now)
       (\<lambda>m. m\<lparr>msg_status := MessageCompleted, msg_updated_at := now, msg_completed_at := Some now\<rparr>)"

definition fail_message ::
    "failure_phase \<Rightarrow> error_code \<Rightarrow> instant \<Rightarrow> message option \<Rightarrow> (review_error, message) result" where
  "fail_message phase code now =
     guarded
       (\<lambda>m. message_valid m \<and> message_active m \<and> valid_metadata phase \<and> valid_metadata code
          \<and> valid_transition_time (msg_updated_at m) now)
       (\<lambda>m. m\<lparr>msg_status := MessageFailed, msg_failure_phase := phase, msg_error_code := code,
              msg_updated_at := now, msg_completed_at := Some now\<rparr>)"

definition cancel_message :: "instant \<Rightarrow> message option \<Rightarrow> (review_error, message) result" where
  "cancel_message now =
     guarded
       (\<lambda>m. message_valid m \<and> message_active m \<and> valid_transition_time (msg_updated_at m) now)
       (\<lambda>m. m\<lparr>msg_status := MessageCancelled, msg_updated_at := now, msg_completed_at := Some now\<rparr>)"

datatype message_op =
    OpBeginStreaming instant | OpAppendContent bytes instant | OpComplete instant
  | OpFail failure_phase error_code instant | OpCancel instant

fun message_step :: "message_op \<Rightarrow> message \<Rightarrow> (review_error, message) result" where
  "message_step (OpBeginStreaming now) m = begin_streaming now (Some m)"
| "message_step (OpAppendContent delta now) m = append_content delta now (Some m)"
| "message_step (OpComplete now) m = complete_message now (Some m)"
| "message_step (OpFail phase code now) m = fail_message phase code now (Some m)"
| "message_step (OpCancel now) m = cancel_message now (Some m)"

lemmas message_op_defs = begin_streaming_def append_content_def complete_message_def
  fail_message_def cancel_message_def message_active_def

lemma message_time: "message_valid m \<Longrightarrow> 0 \<noteq> msg_updated_at m \<and> msg_created_at m \<le> msg_updated_at m"
  by (auto simp: message_valid_def time_defs)

lemma message_step_needs: "message_step op m = Inr n \<Longrightarrow> message_valid m \<and> \<not> message_terminal m"
  by (cases op) (auto simp: message_op_defs message_terminal_def)

lemma message_step_valid: "message_step op m = Inr n \<Longrightarrow> message_valid n"
proof -
  assume step: "message_step op m = Inr n"
  then have "message_valid m" using message_step_needs by blast
  with step show "message_valid n"
    by (cases op)
      (auto simp: message_op_defs message_valid_def message_terminal_def message_status_valid_def
        valid_transition_time_def time_defs metadata_optional intro: valid_content_append)
qed

lemma message_step_time: "message_step op m = Inr n \<Longrightarrow> msg_updated_at m \<le> msg_updated_at n"
  by (cases op) (auto simp: message_op_defs valid_transition_time_def time_defs)

definition message_ident :: "message \<Rightarrow> message_id \<times> review_thread_id \<times> message_role \<times> nat \<times> instant" where
  "message_ident m = (msg_id m, msg_thread_id m, msg_role m, msg_ordinal m, msg_created_at m)"

lemma message_step_ident: "message_step op m = Inr n \<Longrightarrow> message_ident n = message_ident m"
  by (cases op) (auto simp: message_op_defs message_ident_def)

interpretation message_life: lifecycle message_valid message_terminal msg_updated_at message_ident message_step
  by unfold_locales (auto dest: message_step_needs message_step_valid message_step_time message_step_ident)

lemma message_step_content:
  "message_step op m = Inr n \<Longrightarrow> take (length (msg_content m)) (msg_content n) = msg_content m"
  by (cases op) (auto simp: message_op_defs)

text \<open>
  C37. A message stays valid under every sequence of operations, accepted or refused: its identity,
  role, ordinal and creation time never change, its clock never runs back, what has been streamed
  is never rewritten but only extended, and once completed, failed or cancelled nothing changes it
  any more.
\<close>

theorem message_lifecycle:
  assumes "message_valid m"
  shows "let n = run_ops message_step ops m in
    message_valid n \<and> message_ident n = message_ident m \<and> msg_updated_at m \<le> msg_updated_at n
    \<and> (\<exists>more. msg_content n = msg_content m @ more)
    \<and> (message_terminal m \<longrightarrow> n = m)
    \<and> (message_terminal n \<longrightarrow> run_ops message_step later n = n)"
proof -
  let ?n = "run_ops message_step ops m"
  have "take (length (msg_content m)) (msg_content ?n) = msg_content m"
  proof (rule message_life.run_invariant)
    fix op s t
    assume step: "message_step op s = Inr t" and s: "take (length (msg_content m)) (msg_content s) = msg_content m"
    from message_step_content [OF step] obtain d where "msg_content t = msg_content s @ d"
      by (metis append_take_drop_id)
    moreover have "length (msg_content m) \<le> length (msg_content s)" using s by (metis length_take min.cobounded1)
    ultimately show "take (length (msg_content m)) (msg_content t) = msg_content m" using s by simp
  qed simp
  then have "\<exists>more. msg_content ?n = msg_content m @ more" by (metis append_take_drop_id)
  then show ?thesis
    using message_life.run_keeps [OF assms, of ops] message_life.run_frozen by (simp add: Let_def)
qed

lemma message_lifecycle_witness:
  "\<exists>m. new_pending_message ''m'' ''t'' RoleUser 1 5 = Inr m
    \<and> (let n = run_ops message_step [OpBeginStreaming 6, OpAppendContent ''hi'' 7, OpComplete 8] m in
       message_valid n \<and> msg_content n = ''hi'' \<and> message_terminal n
       \<and> run_ops message_step [OpCancel 9] n = n)"
proof -
  have utf: "utf8_valid ''hi''" "utf8_valid []" by code_simp+
  obtain m where m: "new_pending_message ''m'' ''t'' RoleUser 1 5 = Inr m"
    by (simp add: new_pending_message_def new_message_def message_valid_def valid_review_id_def
        message_role_valid_def message_status_valid_def valid_content_def utf
        valid_optional_metadata_def message_terminal_def time_defs)
  then have valid: "message_valid m" "msg_status m = MessagePending" "msg_updated_at m = 5" "msg_content m = []"
      "msg_created_at m = 5"
    by (auto simp: new_pending_message_def new_message_def split: if_splits)
  let ?ops = "[OpBeginStreaming 6, OpAppendContent ''hi'' 7, OpComplete 8]"
  let ?m1 = "m\<lparr>msg_status := MessageStreaming, msg_updated_at := 6\<rparr>"
  let ?m2 = "?m1\<lparr>msg_content := ''hi'', msg_updated_at := 7\<rparr>"
  let ?m3 = "?m2\<lparr>msg_status := MessageCompleted, msg_updated_at := 8, msg_completed_at := Some 8\<rparr>"
  have s1: "message_step (OpBeginStreaming 6) m = Inr ?m1"
    using valid by (simp add: message_op_defs valid_transition_time_def time_defs)
  have s2: "message_step (OpAppendContent ''hi'' 7) ?m1 = Inr ?m2"
    using valid message_step_valid [OF s1]
    by (simp add: message_op_defs valid_transition_time_def time_defs valid_content_def utf)
  have s3: "message_step (OpComplete 8) ?m2 = Inr ?m3"
    using valid message_step_valid [OF s2]
    by (simp add: message_op_defs valid_transition_time_def time_defs)
  have run: "run_ops message_step ?ops m = ?m3"
    using s1 s2 s3 by (simp add: advance_def del: message_step.simps)
  have "message_terminal ?m3" by (simp add: message_terminal_def)
  with message_lifecycle [OF valid(1), of ?ops "[OpCancel 9]"] run m show ?thesis
    by (auto simp: Let_def)
qed

end
