(* ===== verification/Fingerprints.thy ===== *)
theory Fingerprints
  imports Review_Domain Diffs
begin

text \<open>
  The text evidence of anchors: normalisation and hashing of selections, contexts and candidates
  (\<^verbatim>\<open>internal/domain/review/fingerprint.go\<close>).
\<close>

subsection \<open>Normalisation\<close>

fun crlf_to_lf :: "bytes \<Rightarrow> bytes" where
  "crlf_to_lf [] = []"
| "crlf_to_lf [c] = [c]"
| "crlf_to_lf (c # d # cs) =
     (if c = CR \<and> d = LF then LF # crlf_to_lf cs else c # crlf_to_lf (d # cs))"

definition cr_to_lf :: "bytes \<Rightarrow> bytes" where
  "cr_to_lf = map (\<lambda>c. if c = CR then LF else c)"

definition normalize_anchor_text :: "bytes \<Rightarrow> bytes" where
  "normalize_anchor_text v =
     join_with [LF] (map trim_right_space (split_on LF (cr_to_lf (crlf_to_lf v))))"

definition plain_line :: "bytes \<Rightarrow> bool" where
  "plain_line l \<longleftrightarrow> LF \<notin> set l \<and> CR \<notin> set l"

lemma cr_to_lf_free: "CR \<notin> set s \<Longrightarrow> cr_to_lf s = s"
  unfolding cr_to_lf_def by (induction s) auto

lemma cr_to_lf_append [simp]: "cr_to_lf (a @ b) = cr_to_lf a @ cr_to_lf b"
  by (simp add: cr_to_lf_def)

lemma crlf_to_lf_free: "CR \<notin> set s \<Longrightarrow> crlf_to_lf s = s"
  by (induction s rule: crlf_to_lf.induct) auto

lemma crlf_to_lf_line: "CR \<notin> set l \<Longrightarrow> crlf_to_lf (l @ s) = l @ crlf_to_lf s"
proof (induction l)
  case (Cons c l)
  then show ?case by (cases "l @ s") auto
qed simp

lemma crlf_to_lf_CRLF: "crlf_to_lf (CR # LF # s) = LF # crlf_to_lf s"
  by simp

lemma crlf_to_lf_CR: "s = [] \<or> hd s \<noteq> LF \<Longrightarrow> crlf_to_lf (CR # s) = CR # crlf_to_lf s"
  by (cases s) auto

lemma join_with_Cons: "ls \<noteq> [] \<Longrightarrow> join_with t (l # ls) = l @ t @ join_with t ls"
  by (cases ls) auto

lemma hd_join_plain:
  "list_all plain_line ls \<Longrightarrow> join_with [CR] ls = [] \<or> hd (join_with [CR] ls) \<noteq> LF"
proof (cases ls)
  case (Cons l ls')
  assume "list_all plain_line ls"
  with Cons show ?thesis
    by (cases ls'; cases l) (auto simp: plain_line_def)
qed simp

lemma line_endings_unified:
  assumes "list_all plain_line ls" "t \<in> {[LF], [CR, LF], [CR]}"
  shows "cr_to_lf (crlf_to_lf (join_with t ls)) = join_with [LF] ls"
  using assms(1)
proof (induction ls)
  case (Cons l ls)
  have l: "CR \<notin> set l" "cr_to_lf l = l" using Cons.prems by (simp_all add: plain_line_def cr_to_lf_free)
  show ?case
  proof (cases "ls = []")
    case True
    then show ?thesis using l by (simp add: crlf_to_lf_free)
  next
    case False
    have rest: "cr_to_lf (crlf_to_lf (join_with t ls)) = join_with [LF] ls" using Cons by simp
    have tail: "cr_to_lf (crlf_to_lf (t @ join_with t ls)) = LF # cr_to_lf (crlf_to_lf (join_with t ls))"
    proof -
      consider "t = [LF]" | "t = [CR, LF]" | "t = [CR]" using assms(2) by blast
      then show ?thesis
      proof cases
        case 1
        have "CR \<notin> set [LF]" by simp
        from crlf_to_lf_line [OF this, of "join_with t ls"] 1 show ?thesis by (simp add: cr_to_lf_def)
      next
        case 2
        then show ?thesis by (simp add: cr_to_lf_def)
      next
        case 3
        with Cons.prems hd_join_plain [of ls] show ?thesis
          by (simp add: crlf_to_lf_CR) (simp add: cr_to_lf_def)
      qed
    qed
    show ?thesis
      using l rest tail False by (simp add: join_with_Cons crlf_to_lf_line)
  qed
qed (simp add: cr_to_lf_def)

lemma split_join_lines:
  "list_all (\<lambda>l. LF \<notin> set l) ls \<Longrightarrow> ls \<noteq> [] \<Longrightarrow> split_on LF (join_with [LF] ls) = ls"
proof (induction ls)
  case (Cons l ls)
  show ?case
  proof (cases "ls = []")
    case True
    with Cons.prems show ?thesis by (simp add: split_on_free)
  next
    case False
    with Cons have "split_on LF (join_with [LF] ls) = ls" by simp
    with Cons.prems False show ?thesis by (simp add: join_with_Cons split_on_join split_on_free)
  qed
qed simp

lemma normalize_lines:
  assumes "list_all plain_line ls" "ls \<noteq> []" "t \<in> {[LF], [CR, LF], [CR]}"
  shows "normalize_anchor_text (join_with t ls) = join_with [LF] (map trim_right_space ls)"
proof -
  have "list_all (\<lambda>l. LF \<notin> set l) ls" using assms(1) by (auto simp: list_all_iff plain_line_def)
  then show ?thesis
    using line_endings_unified [OF assms(1,3)] split_join_lines assms(2)
    by (simp add: normalize_anchor_text_def)
qed

lemma trim_right_plain: "plain_line l \<Longrightarrow> plain_line (trim_right_space l)"
proof -
  assume l: "plain_line l"
  obtain t where "l = trim_right_space l @ t" using trim_right_space_prefix by blast
  then have "set (trim_right_space l) \<subseteq> set l" by (metis Un_upper1 set_append)
  with l show ?thesis by (auto simp: plain_line_def)
qed

lemma join_with_set: "l \<in> set ls \<Longrightarrow> set l \<subseteq> set (join_with t ls)"
proof (induction ls)
  case (Cons k ls)
  then show ?case by (cases "ls = []") (auto simp: join_with_Cons)
qed simp

lemma normalize_parts:
  "\<exists>ls. normalize_anchor_text v = join_with [LF] (map trim_right_space ls) \<and> list_all plain_line ls \<and> ls \<noteq> []"
proof -
  let ?s = "cr_to_lf (crlf_to_lf v)"
  have "CR \<notin> set ?s" by (auto simp: cr_to_lf_def)
  moreover have "set l \<subseteq> set ?s" if "l \<in> set (split_on LF ?s)" for l
    using that by (metis join_split_on join_with_set)
  ultimately have "list_all plain_line (split_on LF ?s)"
    using split_on_parts_free [of _ LF ?s] by (auto simp: list_all_iff plain_line_def)
  then show ?thesis by (intro exI [of _ "split_on LF ?s"]) (simp add: normalize_anchor_text_def)
qed

lemma normalize_idem [simp]: "normalize_anchor_text (normalize_anchor_text v) = normalize_anchor_text v"
proof -
  obtain ls where ls: "normalize_anchor_text v = join_with [LF] (map trim_right_space ls)"
    "list_all plain_line ls" "ls \<noteq> []" using normalize_parts by blast
  have "list_all plain_line (map trim_right_space ls)"
    using ls(2) trim_right_plain by (auto simp: list_all_iff)
  from normalize_lines [OF this, of "[LF]"] ls show ?thesis by (simp add: comp_def)
qed

subsection \<open>Hashed evidence\<close>

definition AnchorFingerprintVersion :: nat where "AnchorFingerprintVersion = 1"

text \<open>
  Every hashed field is written with its length in front and closed by a NUL byte; the functions
  named \<open>preimage\<close> are the bytes that reach the hash.
\<close>

definition fingerprint_part :: "bytes \<Rightarrow> bytes" where
  "fingerprint_part v = itoa (int (length v)) @ [NUL] @ v @ [NUL]"

definition fingerprint_parts :: "bytes list \<Rightarrow> bytes" where
  "fingerprint_parts vs = concat (map fingerprint_part vs)"

definition selection_preimage :: "bytes \<Rightarrow> bytes" where
  "selection_preimage v = fingerprint_parts [''nudge-anchor-selection-v1'', normalize_anchor_text v]"

definition fingerprint_selection :: "bytes \<Rightarrow> bytes" where
  "fingerprint_selection v = sha256_hex (selection_preimage v)"

definition context_preimage :: "bytes list \<Rightarrow> bytes" where
  "context_preimage ls =
     fingerprint_parts (''nudge-anchor-context-v1'' # map normalize_anchor_text ls)"

definition fingerprint_context :: "bytes list \<Rightarrow> bytes" where
  "fingerprint_context ls = (if ls = [] then [] else sha256_hex (context_preimage ls))"

definition fingerprint_captured_content :: "bytes list \<Rightarrow> bytes" where
  "fingerprint_captured_content ls =
     sha256_hex (fingerprint_parts (''nudge-captured-content-v1'' # map normalize_anchor_text ls))"

definition legacy_fingerprint_selection :: "bytes \<Rightarrow> repo_path \<Rightarrow> int \<Rightarrow> int \<Rightarrow> bytes \<Rightarrow> bytes" where
  "legacy_fingerprint_selection side path start stop v =
     sha256_hex (fingerprint_parts
       [''nudge-anchor-selection-v1'', side, path, itoa start, itoa stop, normalize_anchor_text v])"

definition legacy_context_payload :: "(int \<times> bytes) list \<Rightarrow> bytes" where
  "legacy_context_payload ls =
     join_with [LF] (map (\<lambda>(line, text). itoa line @ '':'' @ normalize_anchor_text text) ls)"

definition legacy_fingerprint_context :: "(int \<times> bytes) list \<Rightarrow> bytes" where
  "legacy_fingerprint_context ls =
     (if ls = [] then []
      else sha256_hex (fingerprint_parts [''nudge-anchor-context-v1'', legacy_context_payload ls]))"

definition valid_fingerprint_text :: "bytes \<Rightarrow> bool" where
  "valid_fingerprint_text v \<longleftrightarrow> utf8_valid v \<and> 0 \<notin> set (runes v)"

lemma fingerprint_part_alt: "fingerprint_part v = rename_part v"
  by (simp add: fingerprint_part_def rename_part_def itoa_def format_uint_def)

lemma fingerprint_parts_simps [simp]:
  "fingerprint_parts [] = []"
  "fingerprint_parts (v # vs) = rename_part v @ fingerprint_parts vs"
  by (simp_all add: fingerprint_parts_def fingerprint_part_alt)

lemma rename_part_not_Nil [simp]: "rename_part v \<noteq> []"
  by (simp add: rename_part_def)

lemma fingerprint_parts_inj: "fingerprint_parts vs = fingerprint_parts ws \<longleftrightarrow> vs = ws"
proof (induction vs arbitrary: ws)
  case Nil
  then show ?case by (cases ws) auto
next
  case (Cons v vs)
  then show ?case by (cases ws) (auto simp: rename_part_inj)
qed

lemma itoa_inj: "itoa i = itoa j \<longleftrightarrow> i = j"
proof
  have digit: "digits 10 n = digits 10 m \<longleftrightarrow> n = m" for m n
    using format_uint_inj by (simp add: format_uint_def)
  have minus: "mk_byte 45 \<notin> set (digits 10 n)" for n
    using digits_digit [of 10 "mk_byte 45" n] by auto
  then have sign: "mk_byte 45 # a \<noteq> digits 10 n" for a n by (metis list.set_intros(1))
  assume "itoa i = itoa j"
  then show "i = j"
    using sign sign [symmetric] by (auto simp: itoa_def digit split: if_splits)
qed simp

lemma fingerprint_selection_metadata: "valid_metadata (fingerprint_selection v)"
  by (simp add: fingerprint_selection_def valid_metadata_def sha256_hex_not_Nil sha256_hex_utf8)

text \<open>
  The fingerprint of a selection does not depend on how its lines end, in LF, CRLF or CR, nor
  on trailing whitespace; and it depends on everything else: two selections, or two lists of context
  lines, feed the same bytes to the hash only if their normalised texts are the same.
\<close>

theorem anchor_fingerprints:
  assumes "list_all plain_line ls" "list_all plain_line ms" "ls \<noteq> []"
    and "map trim_right_space ls = map trim_right_space ms"
    and "t \<in> {[LF], [CR, LF], [CR]}" "u \<in> {[LF], [CR, LF], [CR]}"
  shows "fingerprint_selection (join_with t ls) = fingerprint_selection (join_with u ms)
    \<and> (selection_preimage v = selection_preimage w \<longleftrightarrow> normalize_anchor_text v = normalize_anchor_text w)
    \<and> (context_preimage vs = context_preimage ws
        \<longleftrightarrow> map normalize_anchor_text vs = map normalize_anchor_text ws)"
proof -
  have "ms \<noteq> []" using assms(3,4) by auto
  then have "normalize_anchor_text (join_with t ls) = normalize_anchor_text (join_with u ms)"
    using normalize_lines [OF assms(1,3,5)] normalize_lines [OF assms(2) _ assms(6)] assms(4) by simp
  then have "fingerprint_selection (join_with t ls) = fingerprint_selection (join_with u ms)"
    by (simp only: fingerprint_selection_def selection_preimage_def)
  then show ?thesis
    unfolding selection_preimage_def context_preimage_def fingerprint_parts_inj by simp
qed

lemma anchor_fingerprints_witness:
  "fingerprint_selection (join_with [CR, LF] [''a '', ''b''])
    = fingerprint_selection (join_with [LF] [''a'', ''b''])"
proof -
  have "list_all plain_line [''a '', ''b'']" "list_all plain_line [''a'', ''b'']"
    by (simp_all add: plain_line_def ctl_iff)
  moreover have "map trim_right_space [''a '', ''b''] = map trim_right_space [''a'', ''b'']"
    by (simp add: trim_right_space.simps decode_last_rune_def is_space_def)
  ultimately have lines: "list_all plain_line [''a '', ''b'']" "list_all plain_line [''a'', ''b'']"
    "map trim_right_space [''a '', ''b''] = map trim_right_space [''a'', ''b'']" by blast+
  from conjunct1 [OF anchor_fingerprints [OF lines(1,2) _ lines(3), of "[CR, LF]" "[LF]"]]
  show ?thesis by simp
qed

end
