(* ===== verification/Anchors.thy ===== *)
theory Anchors
  imports Fingerprints
begin

text \<open>
  Anchors and the inputs and outcomes of their reconciliation
  (\<^verbatim>\<open>internal/domain/review/anchor.go\<close> and \<^verbatim>\<open>reconcile.go\<close>).
\<close>

subsection \<open>Anchors\<close>

record relocation_metadata =
  rl_previous_path :: repo_path
  rl_previous_start_line :: int
  rl_previous_end_line :: int
  rl_reason :: bytes
  rl_reconciled_at :: instant

definition relocation_valid :: "relocation_metadata \<Rightarrow> bool" where
  "relocation_valid r \<longleftrightarrow>
     valid_repo_path (rl_previous_path r) \<and> \<not> rl_previous_start_line r \<le> 0
     \<and> \<not> rl_previous_end_line r < rl_previous_start_line r \<and> valid_metadata (rl_reason r)
     \<and> \<not> is_zero_time (rl_reconciled_at r)"

datatype anchor_version_method =
    AnchorVersionMethodLegacy | AnchorVersionMethodInitial | AnchorVersionMethodReconciled
  | AnchorVersionMethodManual | AnchorVersionMethodOther bytes

definition anchor_version_method_valid :: "anchor_version_method \<Rightarrow> bool" where
  "anchor_version_method_valid m \<longleftrightarrow>
     m \<in> {AnchorVersionMethodLegacy, AnchorVersionMethodInitial, AnchorVersionMethodReconciled,
          AnchorVersionMethodManual}"

record code_anchor =
  an_path :: repo_path
  an_previous_path :: repo_path
  an_side :: diff_side
  an_start_line :: int
  an_end_line :: int
  an_target_generation :: nat
  an_base :: snapshot_ref
  an_head :: snapshot_ref
  an_hunk_fingerprint :: bytes
  an_selection_hash :: bytes
  an_selected_text :: bytes
  an_before_context_hash :: bytes
  an_after_context_hash :: bytes
  an_fingerprint_version :: nat
  an_state :: anchor_state
  an_created_at :: instant
  an_relocation :: "relocation_metadata option"

definition diff_side_known :: "diff_side \<Rightarrow> bool" where
  "diff_side_known s \<longleftrightarrow> s = DiffBase \<or> s = DiffHead"

definition code_anchor_valid :: "code_anchor \<Rightarrow> bool" where
  "code_anchor_valid a \<longleftrightarrow>
     valid_repo_path (an_path a)
     \<and> (an_previous_path a = [] \<or> valid_repo_path (an_previous_path a))
     \<and> diff_side_known (an_side a)
     \<and> \<not> an_start_line a \<le> 0 \<and> \<not> an_end_line a < an_start_line a \<and> an_target_generation a \<noteq> 0
     \<and> snapshot_ref_valid (an_base a) \<and> snapshot_ref_valid (an_head a)
     \<and> (an_fingerprint_version a = 0 \<or> an_fingerprint_version a = AnchorFingerprintVersion)
     \<and> valid_metadata (an_hunk_fingerprint a) \<and> valid_metadata (an_selection_hash a)
     \<and> valid_optional_metadata (an_before_context_hash a)
     \<and> valid_optional_metadata (an_after_context_hash a)
     \<and> valid_content (an_selected_text a)
     \<and> opt_all relocation_valid (an_relocation a)"

definition new_code_anchor :: "code_anchor \<Rightarrow> (review_error, code_anchor) result" where
  "new_code_anchor a = (if code_anchor_valid a then Inr a else Inl ErrInvalidCodeAnchor)"

subsection \<open>Candidates\<close>

definition AnchorReconciliationAlgorithmVersion :: nat where
  "AnchorReconciliationAlgorithmVersion = 1"

definition MaxAnchorReconciliationCandidates :: nat where
  "MaxAnchorReconciliationCandidates = 20"

definition AnchorReconciliationWindow :: int where
  "AnchorReconciliationWindow = 200"

definition MaxAnchorCandidateEvidenceBytes :: nat where
  "MaxAnchorCandidateEvidenceBytes = 256 * 1024"

datatype evidence_tier =
    EvidenceTierExactGeneration | EvidenceTierExactContextAtLine | EvidenceTierContextWindow
  | EvidenceTierContextFile | EvidenceTierSelectionWindow | EvidenceTierSelectionFile
  | EvidenceTierLineDiff | EvidenceTierOverflow | EvidenceTierOther bytes

definition valid_evidence_tier :: "evidence_tier \<Rightarrow> bool" where
  "valid_evidence_tier t \<longleftrightarrow> (case t of EvidenceTierOther _ \<Rightarrow> False | _ \<Rightarrow> True)"

record anchor_candidate =
  ac_generation :: nat
  ac_source_path :: repo_path
  ac_path :: repo_path
  ac_side :: diff_side
  ac_start_line :: int
  ac_end_line :: int
  ac_content_fingerprint :: bytes
  ac_selected_text :: bytes
  ac_before_context :: "bytes list"
  ac_after_context :: "bytes list"
  ac_tier :: evidence_tier
  ac_reason :: bytes

definition anchor_candidate_valid :: "anchor_candidate \<Rightarrow> bool" where
  "anchor_candidate_valid c \<longleftrightarrow>
     ac_generation c \<noteq> 0 \<and> diff_side_known (ac_side c) \<and> \<not> ac_start_line c \<le> 0
     \<and> \<not> ac_end_line c < ac_start_line c \<and> valid_evidence_tier (ac_tier c)
     \<and> valid_metadata (ac_reason c) \<and> valid_fingerprint_text (ac_content_fingerprint c)
     \<and> valid_content (ac_selected_text c) \<and> valid_repo_path (ac_path c)
     \<and> (ac_source_path c = [] \<or> valid_repo_path (ac_source_path c))
     \<and> \<not> length (ac_selected_text c) > MaxAnchorCandidateEvidenceBytes
     \<and> list_all valid_content (ac_before_context c @ ac_after_context c)
     \<and> \<not> sum_list (map length (ac_before_context c @ ac_after_context c))
           > MaxAnchorCandidateEvidenceBytes"

definition diff_side_string :: "diff_side \<Rightarrow> bytes" where
  "diff_side_string s = (case s of DiffBase \<Rightarrow> ''base'' | DiffHead \<Rightarrow> ''head'' | DiffSideOther t \<Rightarrow> t)"

definition candidate_preimage :: "anchor_candidate \<Rightarrow> bytes" where
  "candidate_preimage c =
     fingerprint_parts
       [''nudge-anchor-candidate-v1'', format_uint (ac_generation c), ac_source_path c, ac_path c,
        diff_side_string (ac_side c), itoa (ac_start_line c), itoa (ac_end_line c),
        ac_content_fingerprint c]"

definition anchor_candidate_fingerprint :: "anchor_candidate \<Rightarrow> bytes" where
  "anchor_candidate_fingerprint c = sha256_hex (candidate_preimage c)"

subsection \<open>Captured evidence\<close>

record captured_file =
  cp_path :: repo_path
  cp_side :: diff_side
  cp_content_identity :: bytes
  cp_lines :: "bytes list"

definition captured_file_valid :: "captured_file \<Rightarrow> bool" where
  "captured_file_valid f \<longleftrightarrow>
     valid_repo_path (cp_path f) \<and> diff_side_known (cp_side f)
     \<and> valid_fingerprint_text (cp_content_identity f) \<and> list_all valid_fingerprint_text (cp_lines f)"

record path_identity =
  pid_old_path :: repo_path
  pid_new_path :: repo_path
  pid_side :: diff_side
  pid_old_content :: bytes
  pid_new_content :: bytes

definition path_identity_valid :: "path_identity \<Rightarrow> bool" where
  "path_identity_valid p \<longleftrightarrow>
     valid_repo_path (pid_old_path p) \<and> valid_repo_path (pid_new_path p)
     \<and> diff_side_known (pid_side p) \<and> valid_fingerprint_text (pid_old_content p)
     \<and> valid_fingerprint_text (pid_new_content p)"

record rename_mapping =
  rm_old_path :: repo_path
  rm_new_path :: repo_path
  rm_side :: diff_side
  rm_similarity_percent :: nat
  rm_kind :: change_kind
  rm_evidence_hash :: bytes

definition rename_mapping_valid :: "rename_mapping \<Rightarrow> bool" where
  "rename_mapping_valid m \<longleftrightarrow>
     valid_repo_path (rm_old_path m) \<and> valid_repo_path (rm_new_path m)
     \<and> rm_old_path m \<noteq> rm_new_path m \<and> diff_side_known (rm_side m)
     \<and> (rm_similarity_percent m \<noteq> 0 \<or> rm_kind m \<noteq> ChangeOther [] \<or> rm_evidence_hash m \<noteq> [] \<longrightarrow>
          \<not> (rm_similarity_percent m < 60 \<or> rm_similarity_percent m > 100
             \<or> rm_kind m \<noteq> ChangeRenamed \<and> rm_kind m \<noteq> ChangeCopied
             \<or> length (rm_evidence_hash m) \<noteq> 64))"

record rename_policy_evidence =
  rp_version :: nat
  rp_similarity_percent :: nat
  rp_max_delete_sources :: int
  rp_max_add_targets :: int
  rp_detect_changed_source_copies :: bool
  rp_find_copies_harder :: bool
  rp_outcome :: bytes
  rp_delete_candidates :: int
  rp_add_candidates :: int
  rp_flags :: "bytes list"
  rp_evidence_hash :: bytes

definition rename_policy_valid :: "rename_policy_evidence \<Rightarrow> bool" where
  "rename_policy_valid e \<longleftrightarrow>
     rp_version e = 1 \<and> rp_similarity_percent e = 60 \<and> rp_max_delete_sources e = 1000
     \<and> rp_max_add_targets e = 1000 \<and> rp_detect_changed_source_copies e
     \<and> \<not> rp_find_copies_harder e
     \<and> rp_outcome e \<in> {''complete'', ''rename_detection_limited'', ''skipped''}
     \<and> \<not> rp_delete_candidates e < 0 \<and> \<not> rp_add_candidates e < 0
     \<and> \<not> rp_delete_candidates e > rp_max_delete_sources e
     \<and> \<not> rp_add_candidates e > rp_max_add_targets e
     \<and> \<not> (rp_outcome e = ''rename_detection_limited''
          \<and> rp_delete_candidates e < rp_max_delete_sources e
          \<and> rp_add_candidates e < rp_max_add_targets e)
     \<and> (rp_evidence_hash e \<noteq> [] \<longrightarrow> rp_flags e \<noteq> [] \<and> length (rp_evidence_hash e) = 64)
     \<and> (rp_evidence_hash e \<noteq> [] \<longrightarrow>
          rename_policy_evidence_hash (rp_version e) (rp_similarity_percent e)
            (rp_max_delete_sources e) (rp_max_add_targets e) (rp_detect_changed_source_copies e)
            (rp_find_copies_harder e) (rp_outcome e) (rp_delete_candidates e)
            (rp_add_candidates e) (rp_flags e) = rp_evidence_hash e)"

definition rename_policy_complete :: "rename_policy_evidence \<Rightarrow> bool" where
  "rename_policy_complete e \<longleftrightarrow>
     rename_policy_valid e \<and> rp_outcome e = ''complete'' \<and> rp_flags e \<noteq> []
     \<and> length (rp_evidence_hash e) = 64"

definition zero_rename_policy :: rename_policy_evidence where
  "zero_rename_policy =
     \<lparr>rp_version = 0, rp_similarity_percent = 0, rp_max_delete_sources = 0, rp_max_add_targets = 0,
      rp_detect_changed_source_copies = False, rp_find_copies_harder = False, rp_outcome = [],
      rp_delete_candidates = 0, rp_add_candidates = 0, rp_flags = [], rp_evidence_hash = []\<rparr>"

definition rename_policy_present :: "rename_policy_evidence \<Rightarrow> bool" where
  "rename_policy_present e \<longleftrightarrow>
     rp_version e \<noteq> 0 \<or> rp_similarity_percent e \<noteq> 0 \<or> rp_max_delete_sources e \<noteq> 0
     \<or> rp_max_add_targets e \<noteq> 0 \<or> rp_detect_changed_source_copies e \<or> rp_find_copies_harder e
     \<or> rp_outcome e \<noteq> [] \<or> rp_delete_candidates e \<noteq> 0 \<or> rp_add_candidates e \<noteq> 0
     \<or> rp_flags e \<noteq> [] \<or> rp_evidence_hash e \<noteq> []"

lemma rename_policy_present_iff: "rename_policy_present e \<longleftrightarrow> e \<noteq> zero_rename_policy"
  by (cases e) (auto simp: rename_policy_present_def zero_rename_policy_def)

record generation_transition =
  gt_from_capture :: capture_id
  gt_to_capture :: capture_id
  gt_from_generation :: nat
  gt_to_generation :: nat
  gt_changed_paths :: "path_identity list"
  gt_rename_mappings :: "rename_mapping list"
  gt_rename_evidence :: rename_policy_evidence
  gt_from_rename_evidence :: rename_policy_evidence
  gt_to_rename_evidence :: rename_policy_evidence
  gt_new_base :: snapshot_ref
  gt_new_head :: snapshot_ref

definition snapshot_given :: "snapshot_ref \<Rightarrow> bool" where
  "snapshot_given r \<longleftrightarrow> sr_kind r \<noteq> SnapshotOther []"

definition generation_transition_valid :: "generation_transition \<Rightarrow> bool" where
  "generation_transition_valid t \<longleftrightarrow>
     gt_from_generation t \<noteq> 0 \<and> \<not> gt_to_generation t \<le> gt_from_generation t
     \<and> gt_from_capture t \<noteq> [] \<and> gt_to_capture t \<noteq> []
     \<and> is_ok (new_id (gt_from_capture t)) \<and> is_ok (new_id (gt_to_capture t))
     \<and> (snapshot_given (gt_new_base t) \<longrightarrow> snapshot_ref_valid (gt_new_base t))
     \<and> (snapshot_given (gt_new_head t) \<longrightarrow> snapshot_ref_valid (gt_new_head t))
     \<and> list_all path_identity_valid (gt_changed_paths t)
     \<and> list_all rename_mapping_valid (gt_rename_mappings t)
     \<and> list_all (\<lambda>e. rename_policy_present e \<longrightarrow> rename_policy_valid e)
         [gt_rename_evidence t, gt_from_rename_evidence t, gt_to_rename_evidence t]"

subsection \<open>Inputs and outcomes\<close>

record reconcile_input =
  ri_anchor :: code_anchor
  ri_transition :: generation_transition
  ri_new_content :: captured_file
  ri_previous_content :: "captured_file option"
  ri_now :: instant

definition reconcile_input_valid :: "reconcile_input \<Rightarrow> bool" where
  "reconcile_input_valid i \<longleftrightarrow>
     code_anchor_valid (ri_anchor i) \<and> generation_transition_valid (ri_transition i)
     \<and> captured_file_valid (ri_new_content i) \<and> \<not> is_zero_time (ri_now i)
     \<and> an_target_generation (ri_anchor i) = gt_from_generation (ri_transition i)
     \<and> cp_side (ri_new_content i) = an_side (ri_anchor i)
     \<and> opt_all (\<lambda>p. captured_file_valid p \<and> cp_path p = an_path (ri_anchor i)
          \<and> cp_side p = an_side (ri_anchor i)) (ri_previous_content i)"

record reconcile_outcome =
  ro_anchor :: code_anchor
  ro_candidates :: "anchor_candidate list"
  ro_state :: anchor_state
  ro_reason :: bytes
  ro_algorithm_version :: nat
  ro_candidate_overflow :: bool

definition reconcile_outcome_valid :: "reconcile_outcome \<Rightarrow> bool" where
  "reconcile_outcome_valid r \<longleftrightarrow>
     code_anchor_valid (ro_anchor r) \<and> anchor_state_valid (ro_state r)
     \<and> an_state (ro_anchor r) = ro_state r \<and> valid_metadata (ro_reason r)
     \<and> ro_algorithm_version r = AnchorReconciliationAlgorithmVersion
     \<and> \<not> length (ro_candidates r) > MaxAnchorReconciliationCandidates
     \<and> list_all anchor_candidate_valid (ro_candidates r)
     \<and> (ro_state r \<noteq> AnchorAmbiguous \<longrightarrow> ro_candidates r = [] \<and> \<not> ro_candidate_overflow r)"

record proposal_staleness_input =
  si_thread_id :: review_thread_id
  si_proposal_id :: proposal_id
  si_from_generation :: nat
  si_to_generation :: nat
  si_reason :: bytes

record reconcile_report =
  rr_id :: operation_id
  rr_algorithm_version :: nat
  rr_from_generation :: nat
  rr_to_generation :: nat
  rr_relocated :: "review_thread_id list"
  rr_ambiguous :: "review_thread_id list"
  rr_orphaned :: "review_thread_id list"
  rr_unchanged :: "review_thread_id list"
  rr_proposal_staleness :: "proposal_staleness_input list"

text \<open>The nested loop over the four lists with one shared set.\<close>

fun distinct_ids :: "bytes set \<Rightarrow> bytes list \<Rightarrow> bool" where
  "distinct_ids seen [] = True"
| "distinct_ids seen (i # is) = (i \<noteq> [] \<and> i \<notin> seen \<and> distinct_ids (insert i seen) is)"

lemma distinct_ids_iff:
  "distinct_ids seen is \<longleftrightarrow> distinct is \<and> set is \<inter> seen = {} \<and> [] \<notin> set is"
  by (induction "is" arbitrary: seen) auto

definition reconcile_report_valid :: "reconcile_report \<Rightarrow> bool" where
  "reconcile_report_valid r \<longleftrightarrow>
     rr_id r \<noteq> [] \<and> rr_algorithm_version r = AnchorReconciliationAlgorithmVersion
     \<and> rr_from_generation r \<noteq> 0 \<and> \<not> rr_to_generation r \<le> rr_from_generation r
     \<and> is_ok (new_id (rr_id r))
     \<and> distinct_ids {} (rr_relocated r @ rr_ambiguous r @ rr_orphaned r @ rr_unchanged r)
     \<and> list_all (\<lambda>s. si_thread_id s \<noteq> [] \<and> si_proposal_id s \<noteq> []
          \<and> si_from_generation s = rr_from_generation r
          \<and> si_to_generation s = rr_to_generation r \<and> valid_metadata (si_reason s))
         (rr_proposal_staleness r)"

end
