(* ===== verification/Line_Diff.thy ===== *)
theory Line_Diff
  imports Fingerprints
begin

text \<open>
  The line diff of \<^verbatim>\<open>internal/app/reconcile_anchors.go\<close>: furthest reaching paths per edit
  distance, and the equal lines read off their trace. A Go map from diagonals to positions is a
  function that is zero where the map has no entry, which is what reading a missing key gives.
\<close>

subsection \<open>The search\<close>

type_synonym frontier = "int \<Rightarrow> int"

definition same_line :: "bytes list \<Rightarrow> bytes list \<Rightarrow> int \<Rightarrow> int \<Rightarrow> bool" where
  "same_line old new x y \<longleftrightarrow>
     normalize_anchor_text (old ! nat x) = normalize_anchor_text (new ! nat y)"

function snake :: "bytes list \<Rightarrow> bytes list \<Rightarrow> int \<Rightarrow> int \<Rightarrow> int \<times> int" where
  "snake old new x y =
     (if x < int (length old) \<and> y < int (length new) \<and> same_line old new x y
      then snake old new (x + 1) (y + 1) else (x, y))"
  by pat_completeness auto
termination
  by (relation "measure (\<lambda>(old, _, x, _). nat (int (length old) - x))") auto

declare snake.simps [simp del]

definition goes_down :: "int \<Rightarrow> int \<Rightarrow> frontier \<Rightarrow> bool" where
  "goes_down distance diagonal v \<longleftrightarrow>
     diagonal = - distance \<or> diagonal \<noteq> distance \<and> v (diagonal - 1) < v (diagonal + 1)"

text \<open>One edit distance: the answer is the frontier, and whether the end was reached.\<close>

function myers_row ::
    "bytes list \<Rightarrow> bytes list \<Rightarrow> frontier \<Rightarrow> int \<Rightarrow> int \<Rightarrow> frontier \<Rightarrow> frontier \<times> bool" where
  "myers_row old new v distance diagonal current =
     (if diagonal > distance then (current, False)
      else
        (let x0 = (if goes_down distance diagonal v then v (diagonal + 1) else v (diagonal - 1) + 1);
             (x, y) = snake old new x0 (x0 - diagonal);
             current = current(diagonal := x)
         in if x \<ge> int (length old) \<and> y \<ge> int (length new) then (current, True)
            else myers_row old new v distance (diagonal + 2) current))"
  by pat_completeness auto
termination
  by (relation "measure (\<lambda>(_, _, _, distance, diagonal, _). nat (distance - diagonal + 1))") auto

declare myers_row.simps [simp del]

function back_snake :: "int \<Rightarrow> int \<Rightarrow> int \<Rightarrow> int \<Rightarrow> (int \<times> int) list" where
  "back_snake x y px py =
     (if x > px \<and> y > py then (x, y) # back_snake (x - 1) (y - 1) px py else [])"
  by pat_completeness auto
termination
  by (relation "measure (\<lambda>(x, _, px, _). nat (x - px))") auto

declare back_snake.simps [simp del]

fun unwind :: "frontier list \<Rightarrow> nat \<Rightarrow> int \<Rightarrow> int \<Rightarrow> (int \<times> int) list" where
  "unwind trace 0 x y = []"
| "unwind trace (Suc d) x y =
     (let previous = trace ! d;
          diagonal = x - y;
          pd = (if goes_down (int (Suc d)) diagonal previous then diagonal + 1 else diagonal - 1);
          px = previous pd;
          py = px - pd
      in back_snake x y px py @ unwind trace d px py)"

definition reconstruct_line_pairs ::
    "frontier list \<Rightarrow> bytes list \<Rightarrow> bytes list \<Rightarrow> (int \<times> int) list" where
  "reconstruct_line_pairs trace old new =
     (if trace = [] then []
      else rev (unwind trace (length trace - 1) (int (length old)) (int (length new))))"

function myers_loop ::
    "bytes list \<Rightarrow> bytes list \<Rightarrow> int \<Rightarrow> frontier \<Rightarrow> frontier list \<Rightarrow> (int \<times> int) list" where
  "myers_loop old new distance v trace =
     (if distance > int (length old) + int (length new) then []
      else
        (let (current, finished) = myers_row old new v distance (- distance) (\<lambda>_. 0) in
         if finished then reconstruct_line_pairs (trace @ [current]) old new
         else myers_loop old new (distance + 1) current (trace @ [current])))"
  by pat_completeness auto
termination
  by (relation "measure (\<lambda>(old, new, distance, _, _).
      nat (int (length old) + int (length new) + 1 - distance))") auto

declare myers_loop.simps [simp del]

definition myers_equal_lines :: "bytes list \<Rightarrow> bytes list \<Rightarrow> (int \<times> int) list" where
  "myers_equal_lines old new =
     (if old = [] \<or> new = [] then [] else myers_loop old new 0 ((\<lambda>_. 0)(1 := 0)) [])"

subsection \<open>Equal files\<close>

lemma snake_equal:
  "0 \<le> x \<Longrightarrow> x \<le> int (length old) \<Longrightarrow> length new = length old \<Longrightarrow>
   (\<And>k. x \<le> k \<Longrightarrow> k < int (length old) \<Longrightarrow> same_line old new k k) \<Longrightarrow>
   snake old new x x = (int (length old), int (length old))"
proof (induction "nat (int (length old) - x)" arbitrary: x rule: less_induct)
  case less
  show ?case
  proof (cases "x = int (length old)")
    case True
    then show ?thesis by (simp add: snake.simps [of old new "int (length old)"])
  next
    case False
    with less.prems have "snake old new (x + 1) (x + 1) = (int (length old), int (length old))"
      by (intro less.hyps) auto
    with False less.prems show ?thesis by (simp add: snake.simps [of old new x x])
  qed
qed

lemma myers_equal:
  assumes "map normalize_anchor_text old = map normalize_anchor_text new"
  shows "myers_equal_lines old new = []"
proof (cases "old = []")
  case False
  have len: "length new = length old" using assms by (metis length_map)
  have same: "same_line old new k k" if "0 \<le> k" "k < int (length old)" for k
  proof -
    have "map normalize_anchor_text old ! nat k = map normalize_anchor_text new ! nat k"
      using assms by simp
    with that len show ?thesis by (simp add: same_line_def)
  qed
  have "snake old new 0 0 = (int (length old), int (length old))"
    using same len by (intro snake_equal) auto
  then have "snd (myers_row old new v 0 0 c)" if "v 1 = 0" for v c
    using that len by (simp add: myers_row.simps [of old new v 0 0 c] goes_down_def)
  then obtain c where "myers_row old new ((\<lambda>_. 0)(1 := 0)) 0 0 (\<lambda>_. 0) = (c, True)"
    by (metis fun_upd_same prod.collapse)
  then have "myers_loop old new 0 ((\<lambda>_. 0)(1 := 0)) [] = reconstruct_line_pairs [c] old new"
    by (simp add: myers_loop.simps [of old new 0])
  then show ?thesis by (simp add: myers_equal_lines_def reconstruct_line_pairs_def)
qed (simp add: myers_equal_lines_def)

text \<open>
  The line diff of two files that agree up to line endings and trailing space reports no equal
  line at all: the trace is read back down to distance one only, so that the lines the search skips
  before the first difference (here all of them) are never paired.
\<close>

theorem line_diff_loses_prefix:
  assumes "map normalize_anchor_text old = map normalize_anchor_text new"
  shows "myers_equal_lines old new = []"
  using assms by (rule myers_equal)

lemma line_diff_loses_prefix_witness: "myers_equal_lines [''a'', ''b''] [''a'', ''b''] = []"
  by (rule line_diff_loses_prefix) simp

end
