(* ===== verification/Reconcile_Anchors.thy ===== *)
theory Reconcile_Anchors
  imports Anchors Line_Diff "HOL-Library.Product_Lexorder"
begin

text \<open>
  Relocation of one anchor in a newly captured file (\<^verbatim>\<open>internal/app/reconcile_anchors.go\<close>):
  the ordered tiers of evidence, the three kinds of outcome and the line diff of the last tier.
\<close>

subsection \<open>Scope of the search\<close>

definition complete_rename_mappings :: "rename_mapping list \<Rightarrow> bool" where
  "complete_rename_mappings ms \<longleftrightarrow>
     ms \<noteq> []
     \<and> list_all (\<lambda>m. \<not> (\<not> rename_mapping_valid m \<or> rm_similarity_percent m < 60
          \<or> rm_kind m \<noteq> ChangeRenamed \<and> rm_kind m \<noteq> ChangeCopied
          \<or> length (rm_evidence_hash m) \<noteq> 64)) ms"

definition same_rename_policy :: "rename_policy_evidence \<Rightarrow> rename_policy_evidence \<Rightarrow> bool" where
  "same_rename_policy l r \<longleftrightarrow>
     rp_version l = rp_version r \<and> rp_similarity_percent l = rp_similarity_percent r
     \<and> rp_max_delete_sources l = rp_max_delete_sources r
     \<and> rp_max_add_targets l = rp_max_add_targets r
     \<and> rp_detect_changed_source_copies l = rp_detect_changed_source_copies r
     \<and> rp_find_copies_harder l = rp_find_copies_harder r \<and> rp_outcome l = rp_outcome r
     \<and> rp_delete_candidates l = rp_delete_candidates r
     \<and> rp_add_candidates l = rp_add_candidates r \<and> rp_evidence_hash l = rp_evidence_hash r
     \<and> rp_flags l = rp_flags r"

definition rename_mappings_allowed :: "generation_transition \<Rightarrow> bool" where
  "rename_mappings_allowed t \<longleftrightarrow>
     gt_rename_mappings t \<noteq> []
     \<and> (if rename_policy_complete (gt_rename_evidence t)
        then complete_rename_mappings (gt_rename_mappings t)
        else rename_policy_complete (gt_from_rename_evidence t)
          \<and> rename_policy_complete (gt_to_rename_evidence t)
          \<and> same_rename_policy (gt_from_rename_evidence t) (gt_to_rename_evidence t)
          \<and> complete_rename_mappings (gt_rename_mappings t))"

fun mapped_path :: "repo_path \<Rightarrow> repo_path \<Rightarrow> rename_mapping list \<Rightarrow> repo_path option" where
  "mapped_path old mapped [] = Some mapped"
| "mapped_path old mapped (m # ms) =
     (if rm_old_path m \<noteq> old then mapped_path old mapped ms
      else if mapped \<noteq> [] then None
      else mapped_path old (rm_new_path m) ms)"

definition reconciliation_path :: "reconcile_input \<Rightarrow> repo_path option" where
  "reconciliation_path i =
     (let old = an_path (ri_anchor i); new = cp_path (ri_new_content i) in
      if new = old then Some old
      else if \<not> rename_mappings_allowed (ri_transition i) then None
      else
        (case mapped_path old [] (gt_rename_mappings (ri_transition i)) of
           None \<Rightarrow> None
         | Some mapped \<Rightarrow> if mapped = new then Some mapped else None))"

definition content_identity_matches :: "reconcile_input \<Rightarrow> repo_path \<Rightarrow> captured_file \<Rightarrow> bool" where
  "content_identity_matches i path content \<longleftrightarrow>
     cp_content_identity content \<noteq> []
     \<and> list_ex (\<lambda>p. pid_old_path p = an_path (ri_anchor i) \<and> pid_new_path p = path
          \<and> pid_old_content p \<noteq> [] \<and> pid_old_content p = pid_new_content p
          \<and> pid_new_content p = cp_content_identity content)
         (gt_changed_paths (ri_transition i))"

subsection \<open>Evidence at a position\<close>

text \<open>Lines are counted from one; \<open>text_range lines a b\<close> joins the lines from \<open>a\<close> to \<open>b\<close>.\<close>

definition text_range :: "bytes list \<Rightarrow> int \<Rightarrow> int \<Rightarrow> bytes" where
  "text_range lines first final =
     join_with [LF] (take (nat (final - first + 1)) (drop (nat (first - 1)) lines))"

definition context_lines :: "bytes list \<Rightarrow> int \<Rightarrow> bool \<Rightarrow> bytes list" where
  "context_lines lines edge forward =
     (if \<not> forward then
        (let first = max 0 (edge - 1 - 3) in take (nat (edge - 1 - first)) (drop (nat first) lines))
      else
        (let final = min (edge + 3) (int (length lines)) in
         take (nat (final - edge)) (drop (nat edge) lines)))"

definition selection_matches :: "code_anchor \<Rightarrow> bytes \<Rightarrow> bool" where
  "selection_matches a selected \<longleftrightarrow>
     (if an_selected_text a \<noteq> []
      then normalize_anchor_text (an_selected_text a) = normalize_anchor_text selected
      else an_selection_hash a = fingerprint_selection selected
        \<or> an_selection_hash a
          = legacy_fingerprint_selection (diff_side_string (an_side a)) (an_path a)
              (an_start_line a) (an_end_line a) selected)"

definition legacy_context_hash :: "code_anchor \<Rightarrow> bytes list \<Rightarrow> int \<Rightarrow> bool \<Rightarrow> bytes" where
  "legacy_context_hash a lines edge forward =
     (let vs = context_lines lines edge forward in
      legacy_fingerprint_context
        (map (\<lambda>(k, v). (if forward then an_end_line a + 1 + int k
                        else an_start_line a - int (length vs) + int k, v))
          (zip [0..<length vs] vs)))"

definition context_matches :: "code_anchor \<Rightarrow> bytes list \<Rightarrow> int \<Rightarrow> int \<Rightarrow> bool" where
  "context_matches a lines first final \<longleftrightarrow>
     (an_before_context_hash a \<noteq> [] \<longrightarrow>
        an_before_context_hash a = fingerprint_context (context_lines lines first False)
        \<or> an_before_context_hash a = legacy_context_hash a lines first False)
     \<and> (an_after_context_hash a \<noteq> [] \<longrightarrow>
        an_after_context_hash a = fingerprint_context (context_lines lines final True)
        \<or> an_after_context_hash a = legacy_context_hash a lines final True)"

definition has_context_evidence :: "code_anchor \<Rightarrow> bool" where
  "has_context_evidence a \<longleftrightarrow> an_before_context_hash a \<noteq> [] \<or> an_after_context_hash a \<noteq> []"

definition within_anchor_window :: "int \<Rightarrow> int \<Rightarrow> bool" where
  "within_anchor_window original candidate \<longleftrightarrow> \<bar>candidate - original\<bar> \<le> AnchorReconciliationWindow"

subsection \<open>Candidates\<close>

definition candidate_content_fingerprint :: "captured_file \<Rightarrow> bytes" where
  "candidate_content_fingerprint content =
     (if cp_content_identity content \<noteq> [] then cp_content_identity content
      else fingerprint_captured_content (cp_lines content))"

definition make_anchor_candidate ::
    "code_anchor \<Rightarrow> captured_file \<Rightarrow> nat \<Rightarrow> int \<Rightarrow> int \<Rightarrow> evidence_tier \<Rightarrow> bytes \<Rightarrow> anchor_candidate" where
  "make_anchor_candidate a content generation first final tier reason =
     \<lparr>ac_generation = generation, ac_source_path = an_path a, ac_path = cp_path content,
      ac_side = cp_side content, ac_start_line = first, ac_end_line = final,
      ac_content_fingerprint = candidate_content_fingerprint content,
      ac_selected_text =
        (if first > 0 \<and> final \<ge> first \<and> final \<le> int (length (cp_lines content))
         then text_range (cp_lines content) first final else []),
      ac_before_context = context_lines (cp_lines content) first False,
      ac_after_context = context_lines (cp_lines content) final True,
      ac_tier = tier, ac_reason = reason\<rparr>"

definition cap_candidates :: "anchor_candidate list \<Rightarrow> anchor_candidate list \<times> bool" where
  "cap_candidates cs =
     (let sorted = sort_key (\<lambda>c. (ac_path c, diff_side_string (ac_side c), ac_start_line c)) cs in
      if length sorted \<le> MaxAnchorReconciliationCandidates then (sorted, False)
      else (take MaxAnchorReconciliationCandidates sorted, True))"

definition matching_starts :: "captured_file \<Rightarrow> int \<Rightarrow> (int \<Rightarrow> bytes \<Rightarrow> bool) \<Rightarrow> int list" where
  "matching_starts content count matches =
     filter (\<lambda>start. matches start (text_range (cp_lines content) start (start + count - 1)))
       [1..int (length (cp_lines content)) - count + 1]"

definition first_candidates ::
    "reconcile_input \<Rightarrow> captured_file \<Rightarrow> int \<Rightarrow> (int \<Rightarrow> bytes \<Rightarrow> bool) \<Rightarrow> evidence_tier \<Rightarrow> bytes
     \<Rightarrow> anchor_candidate list \<times> bool \<times> bool" where
  "first_candidates i content count matches tier reason =
     (let cs = map (\<lambda>start. make_anchor_candidate (ri_anchor i) content
                     (gt_to_generation (ri_transition i)) start (start + count - 1) tier reason)
                 (matching_starts content count matches);
          (retained, overflow) = cap_candidates cs
      in (retained, cs \<noteq> [], overflow))"

definition old_count :: "code_anchor \<Rightarrow> int" where
  "old_count a = an_end_line a - an_start_line a + 1"

definition candidate_at ::
    "reconcile_input \<Rightarrow> captured_file \<Rightarrow> int \<Rightarrow> evidence_tier \<Rightarrow> bytes \<Rightarrow> anchor_candidate option" where
  "candidate_at i content start tier reason =
     (let count = old_count (ri_anchor i) in
      if start \<le> 0 \<or> start + count - 1 > int (length (cp_lines content)) then None
      else if \<not> selection_matches (ri_anchor i) (text_range (cp_lines content) start (start + count - 1))
      then None
      else Some (make_anchor_candidate (ri_anchor i) content (gt_to_generation (ri_transition i))
             start (start + count - 1) tier reason))"

subsection \<open>Outcomes\<close>

text \<open>What the three outcomes have in common: the anchor moved to the new generation.\<close>

definition rebased_anchor :: "reconcile_input \<Rightarrow> anchor_state \<Rightarrow> code_anchor" where
  "rebased_anchor i state =
     (let t = ri_transition i; a = ri_anchor i in
      a\<lparr>an_target_generation := gt_to_generation t, an_state := state,
        an_fingerprint_version := AnchorFingerprintVersion,
        an_base := (if snapshot_given (gt_new_base t) then gt_new_base t else an_base a),
        an_head := (if snapshot_given (gt_new_head t) then gt_new_head t else an_head a)\<rparr>)"

definition relocation_of :: "reconcile_input \<Rightarrow> bytes \<Rightarrow> relocation_metadata" where
  "relocation_of i reason =
     \<lparr>rl_previous_path = an_path (ri_anchor i), rl_previous_start_line = an_start_line (ri_anchor i),
      rl_previous_end_line = an_end_line (ri_anchor i), rl_reason = reason,
      rl_reconciled_at = ri_now i\<rparr>"

text \<open>The shared end: the new anchor and the outcome are both validated.\<close>

definition checked_outcome ::
    "code_anchor \<Rightarrow> anchor_candidate list \<Rightarrow> bool \<Rightarrow> anchor_state \<Rightarrow> bytes
     \<Rightarrow> (review_error, reconcile_outcome) result" where
  "checked_outcome a candidates overflow state reason =
     bind_result (new_code_anchor a) (\<lambda>validated.
       (let r = \<lparr>ro_anchor = validated, ro_candidates = candidates, ro_state = state,
                 ro_reason = reason,
                 ro_algorithm_version = AnchorReconciliationAlgorithmVersion,
                 ro_candidate_overflow = overflow\<rparr>
        in if reconcile_outcome_valid r then Inr r else Inl ErrInvalidReconcileOutcome))"

definition orphaned_outcome :: "reconcile_input \<Rightarrow> bytes \<Rightarrow> (review_error, reconcile_outcome) result" where
  "orphaned_outcome i reason =
     checked_outcome ((rebased_anchor i AnchorOrphaned)\<lparr>an_relocation := Some (relocation_of i reason)\<rparr>)
       [] False AnchorOrphaned reason"

definition ambiguous_outcome ::
    "reconcile_input \<Rightarrow> anchor_candidate list \<Rightarrow> bool \<Rightarrow> bytes \<Rightarrow> (review_error, reconcile_outcome) result" where
  "ambiguous_outcome i candidates overflow reason =
     checked_outcome ((rebased_anchor i AnchorAmbiguous)\<lparr>an_relocation := Some (relocation_of i reason)\<rparr>)
       candidates overflow AnchorAmbiguous reason"

definition same_place :: "code_anchor \<Rightarrow> anchor_candidate \<Rightarrow> bool" where
  "same_place a c \<longleftrightarrow>
     ac_path c = an_path a \<and> ac_start_line c = an_start_line a \<and> ac_end_line c = an_end_line a"

definition relocated_anchor ::
    "reconcile_input \<Rightarrow> captured_file \<Rightarrow> anchor_candidate \<Rightarrow> anchor_state \<Rightarrow> bytes \<Rightarrow> code_anchor" where
  "relocated_anchor i content c state reason =
     (let a = rebased_anchor i state; old = ri_anchor i; lines = cp_lines content in
      a\<lparr>an_previous_path := (if ac_path c \<noteq> an_path old then an_path old else an_previous_path a),
        an_path := ac_path c, an_start_line := ac_start_line c, an_end_line := ac_end_line c,
        an_selection_hash := fingerprint_selection (text_range lines (ac_start_line c) (ac_end_line c)),
        an_before_context_hash :=
          (if an_before_context_hash a \<noteq> []
           then fingerprint_context (context_lines lines (ac_start_line c) False)
           else an_before_context_hash a),
        an_after_context_hash :=
          (if an_after_context_hash a \<noteq> []
           then fingerprint_context (context_lines lines (ac_end_line c) True)
           else an_after_context_hash a),
        an_relocation :=
          (if state \<noteq> AnchorValid \<or> \<not> same_place old c then Some (relocation_of i reason)
           else an_relocation a)\<rparr>)"

definition relocated_outcome ::
    "reconcile_input \<Rightarrow> captured_file \<Rightarrow> anchor_candidate \<Rightarrow> anchor_state \<Rightarrow> bytes
     \<Rightarrow> (review_error, reconcile_outcome) result" where
  "relocated_outcome i content c state reason =
     checked_outcome (relocated_anchor i content c state reason) [] False state reason"

definition outcome_from_candidates ::
    "reconcile_input \<Rightarrow> captured_file \<Rightarrow> anchor_candidate list \<Rightarrow> bool \<Rightarrow> bytes
     \<Rightarrow> (review_error, reconcile_outcome) result" where
  "outcome_from_candidates i content candidates overflow reason =
     (case candidates of
        [] \<Rightarrow> orphaned_outcome i ''anchor_evidence_not_found''
      | [c] \<Rightarrow>
          relocated_outcome i content c
            (if same_place (ri_anchor i) c then AnchorValid else AnchorRelocated) reason
      | _ \<Rightarrow> ambiguous_outcome i candidates overflow reason)"

subsection \<open>The line diff tier\<close>

fun consecutive_from :: "int \<Rightarrow> int \<Rightarrow> (int \<times> int) list \<Rightarrow> bool" where
  "consecutive_from x y [] = True"
| "consecutive_from x y ((a, b) # ps) = (a = x \<and> b = y \<and> consecutive_from (x + 1) (y + 1) ps)"

definition line_diff_candidate ::
    "reconcile_input \<Rightarrow> captured_file \<Rightarrow> int \<Rightarrow> anchor_candidate list option" where
  "line_diff_candidate i content count =
     (case ri_previous_content i of
        None \<Rightarrow> None
      | Some previous \<Rightarrow>
          if cp_path previous \<noteq> an_path (ri_anchor i) \<or> cp_lines previous = [] then None
          else
            (let pairs = myers_equal_lines (cp_lines previous) (cp_lines content);
                 mapped = filter (\<lambda>(x, _). an_start_line (ri_anchor i) \<le> x
                                   \<and> x \<le> an_end_line (ri_anchor i)) pairs
             in if int (length mapped) \<noteq> count then None
                else
                  (let (x, y) = hd mapped in
                   if \<not> consecutive_from (x + 1) (y + 1) (tl mapped) then None
                   else if y \<le> 0 \<or> y + count - 1 > int (length (cp_lines content))
                        \<or> \<not> selection_matches (ri_anchor i)
                             (text_range (cp_lines content) y (y + count - 1)) then None
                   else if \<not> context_matches (ri_anchor i) (cp_lines content) y (y + count - 1)
                     then None
                   else Some [make_anchor_candidate (ri_anchor i) content
                           (gt_to_generation (ri_transition i)) y (y + count - 1)
                           EvidenceTierLineDiff ''versioned_line_diff''])))"

subsection \<open>The tiers\<close>

record search_tier =
  st_matches :: "int \<Rightarrow> bytes \<Rightarrow> bool"
  st_tier :: evidence_tier
  st_reason :: bytes

definition search_tiers :: "reconcile_input \<Rightarrow> captured_file \<Rightarrow> search_tier list" where
  "search_tiers i content =
     (let a = ri_anchor i; lines = cp_lines content; n = old_count a in
      [\<lparr>st_matches = (\<lambda>start s. has_context_evidence a \<and> start = an_start_line a
           \<and> selection_matches a s \<and> context_matches a lines start (start + n - 1)),
        st_tier = EvidenceTierExactContextAtLine,
        st_reason = ''selected_and_context_at_original_line''\<rparr>,
       \<lparr>st_matches = (\<lambda>start s. has_context_evidence a
           \<and> within_anchor_window (an_start_line a) start
           \<and> selection_matches a s \<and> context_matches a lines start (start + n - 1)),
        st_tier = EvidenceTierContextWindow,
        st_reason = ''selected_and_context_within_window''\<rparr>,
       \<lparr>st_matches = (\<lambda>start s. has_context_evidence a
           \<and> selection_matches a s \<and> context_matches a lines start (start + n - 1)),
        st_tier = EvidenceTierContextFile, st_reason = ''selected_and_context_in_file''\<rparr>,
       \<lparr>st_matches = (\<lambda>start s. within_anchor_window (an_start_line a) start \<and> selection_matches a s),
        st_tier = EvidenceTierSelectionWindow,
        st_reason = ''unique_selected_range_within_window''\<rparr>,
       \<lparr>st_matches = (\<lambda>_ s. selection_matches a s), st_tier = EvidenceTierSelectionFile,
        st_reason = ''unique_selected_range_in_file''\<rparr>])"

fun search_from ::
    "reconcile_input \<Rightarrow> captured_file \<Rightarrow> search_tier list \<Rightarrow> (review_error, reconcile_outcome) result" where
  "search_from i content [] =
     (case line_diff_candidate i content (old_count (ri_anchor i)) of
        Some cs \<Rightarrow> outcome_from_candidates i content cs False ''versioned_line_diff''
      | None \<Rightarrow> orphaned_outcome i ''anchor_evidence_not_found'')"
| "search_from i content (t # ts) =
     (case first_candidates i content (old_count (ri_anchor i)) (st_matches t) (st_tier t) (st_reason t) of
        (cs, found, overflow) \<Rightarrow>
          if found then outcome_from_candidates i content cs overflow (st_reason t)
          else search_from i content ts)"

definition reconcile_anchor :: "reconcile_input \<Rightarrow> (review_error, reconcile_outcome) result" where
  "reconcile_anchor i =
     (if \<not> reconcile_input_valid i then Inl ErrInvalidReconcileInput
      else
        (case reconciliation_path i of
           None \<Rightarrow> orphaned_outcome i ''scoped_path_unavailable''
         | Some path \<Rightarrow>
             (let content = ri_new_content i; a = ri_anchor i in
              if old_count a \<le> 0 \<or> old_count a > int (length (cp_lines content))
              then orphaned_outcome i ''selected_range_not_present''
              else
                (case (if content_identity_matches i path content \<and> path = an_path a
                       then candidate_at i content (an_start_line a) EvidenceTierExactGeneration
                              ''exact_content_identity''
                       else None) of
                   Some c \<Rightarrow> relocated_outcome i content c AnchorValid ''exact_content_identity''
                 | None \<Rightarrow> search_from i content (search_tiers i content)))))"

subsection \<open>Positions\<close>

text \<open>
  The places of the new file where the selection of the anchor stands; the specification of the
  search is stated over them.
\<close>

definition selected_at :: "reconcile_input \<Rightarrow> int \<Rightarrow> bool" where
  "selected_at i start \<longleftrightarrow>
     selection_matches (ri_anchor i)
       (text_range (cp_lines (ri_new_content i)) start (start + old_count (ri_anchor i) - 1))"

definition selection_places :: "reconcile_input \<Rightarrow> int list" where
  "selection_places i =
     filter (selected_at i)
       [1..int (length (cp_lines (ri_new_content i))) - old_count (ri_anchor i) + 1]"

definition places_of :: "reconcile_input \<Rightarrow> search_tier \<Rightarrow> int list" where
  "places_of i t = matching_starts (ri_new_content i) (old_count (ri_anchor i)) (st_matches t)"

lemma tier_places: "t \<in> set (search_tiers i (ri_new_content i)) \<Longrightarrow> set (places_of i t) \<subseteq> set (selection_places i)"
  by (auto simp: search_tiers_def places_of_def matching_starts_def selection_places_def selected_at_def Let_def)

lemma last_tier_places:
  "places_of i (last (search_tiers i (ri_new_content i))) = selection_places i"
  by (simp add: search_tiers_def places_of_def matching_starts_def selection_places_def selected_at_def Let_def
      cong: filter_cong)

definition candidate_of :: "reconcile_input \<Rightarrow> search_tier \<Rightarrow> int \<Rightarrow> anchor_candidate" where
  "candidate_of i t start =
     make_anchor_candidate (ri_anchor i) (ri_new_content i) (gt_to_generation (ri_transition i)) start
       (start + old_count (ri_anchor i) - 1) (st_tier t) (st_reason t)"

lemma sorted_places: "sorted (filter P [a..b])" "distinct (filter P [a..b :: int])"
  by (simp_all add: sorted_wrt_filter)

lemma cap_candidates_places:
  assumes "sorted xs"
  shows "cap_candidates (map (candidate_of i t) xs) =
    (map (candidate_of i t) (take MaxAnchorReconciliationCandidates xs),
     MaxAnchorReconciliationCandidates < length xs)"
proof -
  let ?key = "\<lambda>c. (ac_path c, diff_side_string (ac_side c), ac_start_line c)"
  have "sorted (map ?key (map (candidate_of i t) xs))"
    using assms
    by (induction xs) (auto simp: candidate_of_def make_anchor_candidate_def)
  then have "sort_key ?key (map (candidate_of i t) xs) = map (candidate_of i t) xs"
    by (rule sort_key_id_if_sorted)
  then show ?thesis by (simp add: cap_candidates_def Let_def take_map)
qed

lemma first_candidates_places:
  "first_candidates i (ri_new_content i) (old_count (ri_anchor i)) (st_matches t) (st_tier t) (st_reason t) =
    (map (candidate_of i t) (take MaxAnchorReconciliationCandidates (places_of i t)), places_of i t \<noteq> [],
     MaxAnchorReconciliationCandidates < length (places_of i t))"
proof -
  have "sorted (places_of i t)" by (simp add: places_of_def matching_starts_def sorted_places)
  from cap_candidates_places [OF this, of i t] show ?thesis
    by (simp add: first_candidates_def places_of_def candidate_of_def [abs_def] Let_def)
qed

lemma line_diff_place:
  assumes "line_diff_candidate i (ri_new_content i) (old_count (ri_anchor i)) = Some cs"
  shows "\<exists>y. y \<in> set (selection_places i)"
proof -
  have "\<exists>y. \<not> y \<le> 0 \<and> \<not> y + old_count (ri_anchor i) - 1 > int (length (cp_lines (ri_new_content i)))
      \<and> selected_at i y"
    (is "\<exists>y. ?P y")
    using assms unfolding line_diff_candidate_def Let_def selected_at_def
    by (auto split: option.splits if_splits prod.splits simp del: not_le not_less)
  then obtain y where "?P y" ..
  then have "y \<in> set (selection_places i)" by (simp add: selection_places_def)
  then show ?thesis ..
qed

lemma search_from_find:
  "search_from i (ri_new_content i) ts =
     (case find (\<lambda>t. places_of i t \<noteq> []) ts of
        None \<Rightarrow> search_from i (ri_new_content i) []
      | Some t \<Rightarrow>
          outcome_from_candidates i (ri_new_content i)
            (map (candidate_of i t) (take MaxAnchorReconciliationCandidates (places_of i t)))
            (MaxAnchorReconciliationCandidates < length (places_of i t)) (st_reason t))"
  by (induction ts) (simp_all add: first_candidates_places del: search_from.simps(1))

text \<open>The search, with the tier of the line diff gone: it is only reached when nothing matches.\<close>

lemma search_tiers_outcome:
  "search_from i (ri_new_content i) (search_tiers i (ri_new_content i)) =
     (case find (\<lambda>t. places_of i t \<noteq> []) (search_tiers i (ri_new_content i)) of
        None \<Rightarrow> orphaned_outcome i ''anchor_evidence_not_found''
      | Some t \<Rightarrow>
          outcome_from_candidates i (ri_new_content i)
            (map (candidate_of i t) (take MaxAnchorReconciliationCandidates (places_of i t)))
            (MaxAnchorReconciliationCandidates < length (places_of i t)) (st_reason t))"
proof (cases "find (\<lambda>t. places_of i t \<noteq> []) (search_tiers i (ri_new_content i))")
  case None
  have "last (search_tiers i (ri_new_content i)) \<in> set (search_tiers i (ri_new_content i))"
    by (rule last_in_set) (simp add: search_tiers_def Let_def)
  then have "places_of i (last (search_tiers i (ri_new_content i))) = []"
    using None by (auto simp: find_None_iff)
  then have "selection_places i = []" by (simp add: last_tier_places)
  then have "line_diff_candidate i (ri_new_content i) (old_count (ri_anchor i)) = None"
    using line_diff_place by (metis list.set(1) empty_iff option.exhaust)
  with None show ?thesis by (simp add: search_from_find [of i "search_tiers i (ri_new_content i)"])
qed (simp add: search_from_find)

lemma found_tier:
  assumes "find (\<lambda>t. places_of i t \<noteq> []) (search_tiers i (ri_new_content i)) = Some t"
  shows "t \<in> set (search_tiers i (ri_new_content i))" "places_of i t \<noteq> []"
  using assms by (auto simp: find_Some_iff)

lemma no_tier:
  "find (\<lambda>t. places_of i t \<noteq> []) (search_tiers i (ri_new_content i)) = None \<longleftrightarrow> selection_places i = []"
proof
  assume "find (\<lambda>t. places_of i t \<noteq> []) (search_tiers i (ri_new_content i)) = None"
  moreover have "last (search_tiers i (ri_new_content i)) \<in> set (search_tiers i (ri_new_content i))"
    by (rule last_in_set) (simp add: search_tiers_def Let_def)
  ultimately show "selection_places i = []"
    using last_tier_places [of i] by (auto simp: find_None_iff)
next
  assume "selection_places i = []"
  then show "find (\<lambda>t. places_of i t \<noteq> []) (search_tiers i (ri_new_content i)) = None"
    using tier_places [of _ i] by (force simp: find_None_iff)
qed

lemma checked_outcome_result:
  "checked_outcome a cs ov state reason = Inr r \<Longrightarrow>
   r = \<lparr>ro_anchor = a, ro_candidates = cs, ro_state = state, ro_reason = reason,
        ro_algorithm_version = AnchorReconciliationAlgorithmVersion, ro_candidate_overflow = ov\<rparr>
   \<and> reconcile_outcome_valid r"
  by (auto simp: checked_outcome_def new_code_anchor_def Let_def split: if_splits)

subsection \<open>What a reconciliation means\<close>

definition places_moved :: "code_anchor \<Rightarrow> code_anchor \<Rightarrow> bool" where
  "places_moved a b \<longleftrightarrow>
     an_path b \<noteq> an_path a \<or> an_start_line b \<noteq> an_start_line a \<or> an_end_line b \<noteq> an_end_line a"

definition settled_at :: "reconcile_input \<Rightarrow> code_anchor \<Rightarrow> bool" where
  "settled_at i b \<longleftrightarrow>
     an_path b = cp_path (ri_new_content i) \<and> an_start_line b \<in> set (selection_places i)
     \<and> an_end_line b = an_start_line b + old_count (ri_anchor i) - 1"

definition outcome_meaning :: "reconcile_input \<Rightarrow> reconcile_outcome \<Rightarrow> bool" where
  "outcome_meaning i r \<longleftrightarrow>
     (let a = ri_anchor i; b = ro_anchor r in
      an_state b = ro_state r \<and> an_target_generation b = gt_to_generation (ri_transition i)
      \<and> (case ro_state r of
           AnchorValid \<Rightarrow> settled_at i b \<and> \<not> places_moved a b
         | AnchorRelocated \<Rightarrow> settled_at i b \<and> places_moved a b
         | AnchorAmbiguous \<Rightarrow>
             \<not> places_moved a b \<and> 2 \<le> length (ro_candidates r)
             \<and> sorted (map ac_start_line (ro_candidates r)) \<and> distinct (map ac_start_line (ro_candidates r))
             \<and> list_all (\<lambda>c. ac_path c = cp_path (ri_new_content i)
                  \<and> ac_start_line c \<in> set (selection_places i)
                  \<and> ac_end_line c = ac_start_line c + old_count a - 1) (ro_candidates r)
             \<and> (ro_candidate_overflow r \<longrightarrow> length (ro_candidates r) = MaxAnchorReconciliationCandidates)
         | AnchorOrphaned \<Rightarrow>
             \<not> places_moved a b
             \<and> (reconciliation_path i = None
                \<or> old_count a > int (length (cp_lines (ri_new_content i)))
                \<or> selection_places i = [])
         | AnchorStateOther _ \<Rightarrow> False))"

lemma rebased_anchor_place [simp]:
  "an_path (rebased_anchor i s) = an_path (ri_anchor i)"
  "an_start_line (rebased_anchor i s) = an_start_line (ri_anchor i)"
  "an_end_line (rebased_anchor i s) = an_end_line (ri_anchor i)"
  "an_state (rebased_anchor i s) = s"
  "an_target_generation (rebased_anchor i s) = gt_to_generation (ri_transition i)"
  "an_previous_path (rebased_anchor i s) = an_previous_path (ri_anchor i)"
  "an_relocation (rebased_anchor i s) = an_relocation (ri_anchor i)"
  by (simp_all add: rebased_anchor_def Let_def)

lemma relocated_anchor_place [simp]:
  "an_path (relocated_anchor i content c s r) = ac_path c"
  "an_start_line (relocated_anchor i content c s r) = ac_start_line c"
  "an_end_line (relocated_anchor i content c s r) = ac_end_line c"
  "an_state (relocated_anchor i content c s r) = s"
  "an_target_generation (relocated_anchor i content c s r) = gt_to_generation (ri_transition i)"
  by (simp_all add: relocated_anchor_def Let_def)

lemma candidate_of_fields [simp]:
  "ac_path (candidate_of i t k) = cp_path (ri_new_content i)" "ac_start_line (candidate_of i t k) = k"
  "ac_end_line (candidate_of i t k) = k + old_count (ri_anchor i) - 1"
  by (simp_all add: candidate_of_def make_anchor_candidate_def)

lemma orphaned_meaning:
  assumes "orphaned_outcome i reason = Inr r"
    and "reconciliation_path i = None \<or> old_count (ri_anchor i) > int (length (cp_lines (ri_new_content i)))
      \<or> selection_places i = []"
  shows "outcome_meaning i r"
  using assms(2) checked_outcome_result [OF assms(1) [unfolded orphaned_outcome_def]]
  by (simp add: outcome_meaning_def places_moved_def Let_def)

lemma single_meaning:
  assumes "relocated_outcome i (ri_new_content i) c state reason = Inr r"
    and "state = (if same_place (ri_anchor i) c then AnchorValid else AnchorRelocated)"
    and "ac_path c = cp_path (ri_new_content i)" "ac_start_line c \<in> set (selection_places i)"
      "ac_end_line c = ac_start_line c + old_count (ri_anchor i) - 1"
  shows "outcome_meaning i r"
  using assms(2-) checked_outcome_result [OF assms(1) [unfolded relocated_outcome_def]]
  by (auto simp: outcome_meaning_def settled_at_def places_moved_def same_place_def Let_def)

lemma places_sorted: "sorted (places_of i t)" "distinct (places_of i t)"
  by (simp_all add: places_of_def matching_starts_def sorted_places)

lemma candidates_meaning:
  assumes "outcome_from_candidates i (ri_new_content i)
      (map (candidate_of i t) (take MaxAnchorReconciliationCandidates (places_of i t)))
      (MaxAnchorReconciliationCandidates < length (places_of i t)) reason = Inr r"
    and "t \<in> set (search_tiers i (ri_new_content i))" "places_of i t \<noteq> []"
  shows "outcome_meaning i r"
proof -
  let ?ks = "take MaxAnchorReconciliationCandidates (places_of i t)"
  have ks: "?ks \<noteq> []" "set ?ks \<subseteq> set (selection_places i)" "sorted ?ks" "distinct ?ks"
    using assms(3) tier_places [OF assms(2)] places_sorted [of i t]
    by (auto simp: MaxAnchorReconciliationCandidates_def dest: in_set_takeD intro: sorted_wrt_take)
  show ?thesis
  proof (cases "\<exists>k. ?ks = [k]")
    case True
    then obtain k where k: "?ks = [k]" ..
    from ks k have place: "k \<in> set (selection_places i)" by simp
    have moved: "relocated_outcome i (ri_new_content i) (candidate_of i t k)
        (if same_place (ri_anchor i) (candidate_of i t k) then AnchorValid else AnchorRelocated) reason = Inr r"
      using assms(1) k by (simp add: outcome_from_candidates_def)
    show ?thesis
      by (rule single_meaning [OF moved refl]) (simp_all only: candidate_of_fields place)
  next
    case False
    then obtain k l rest where k: "?ks = k # l # rest"
      using ks(1) by (metis list.exhaust)
    then have amb: "ambiguous_outcome i (map (candidate_of i t) ?ks)
        (MaxAnchorReconciliationCandidates < length (places_of i t)) reason = Inr r"
      using assms(1) by (simp add: outcome_from_candidates_def)
    have len: "2 \<le> length ?ks" using k by simp
    have starts: "map ac_start_line (map (candidate_of i t) ?ks) = ?ks" by (simp add: comp_def)
    from checked_outcome_result [OF amb [unfolded ambiguous_outcome_def]] ks len starts show ?thesis
      by (auto simp: outcome_meaning_def places_moved_def Let_def list_all_iff)
  qed
qed

lemma old_count_pos: "code_anchor_valid a \<Longrightarrow> 1 \<le> old_count a"
  by (simp add: code_anchor_valid_def old_count_def)

lemma reconcile_anchor_meaning:
  assumes "reconcile_anchor i = Inr r"
  shows "outcome_meaning i r"
proof -
  have valid: "reconcile_input_valid i" using assms by (auto simp: reconcile_anchor_def split: if_splits)
  then have count: "1 \<le> old_count (ri_anchor i)" by (simp add: reconcile_input_valid_def old_count_pos)
  show ?thesis
  proof (cases "reconciliation_path i")
    case None
    with assms valid show ?thesis
      by (intro orphaned_meaning [of i "''scoped_path_unavailable''"]) (simp_all add: reconcile_anchor_def)
  next
    case path: (Some path)
    show ?thesis
    proof (cases "old_count (ri_anchor i) > int (length (cp_lines (ri_new_content i)))")
      case True
      with assms valid path show ?thesis
        by (intro orphaned_meaning [of i "''selected_range_not_present''"]) (simp_all add: reconcile_anchor_def)
    next
      case fits: False
      let ?exact = "if content_identity_matches i path (ri_new_content i) \<and> path = an_path (ri_anchor i)
        then candidate_at i (ri_new_content i) (an_start_line (ri_anchor i)) EvidenceTierExactGeneration
          ''exact_content_identity'' else None"
      have outcome: "(case ?exact of
            Some c \<Rightarrow> relocated_outcome i (ri_new_content i) c AnchorValid ''exact_content_identity''
          | None \<Rightarrow> search_from i (ri_new_content i) (search_tiers i (ri_new_content i))) = Inr r"
        using assms valid path fits count by (simp add: reconcile_anchor_def Let_def)
      show ?thesis
      proof (cases ?exact)
        case (Some c)
        then have same: "path = an_path (ri_anchor i)"
          and c: "candidate_at i (ri_new_content i) (an_start_line (ri_anchor i)) EvidenceTierExactGeneration
            ''exact_content_identity'' = Some c"
          by (auto split: if_splits)
        have new: "cp_path (ri_new_content i) = path"
          using path by (auto simp: reconciliation_path_def Let_def split: if_splits option.splits)
        have place: "an_start_line (ri_anchor i) \<in> set (selection_places i)"
          and ac: "ac_path c = cp_path (ri_new_content i)" "ac_start_line c = an_start_line (ri_anchor i)"
            "ac_end_line c = an_start_line (ri_anchor i) + old_count (ri_anchor i) - 1"
          using c by (auto simp: candidate_at_def make_anchor_candidate_def selection_places_def
              selected_at_def Let_def split: if_splits)
        have "same_place (ri_anchor i) c" using ac same new by (simp add: same_place_def old_count_def)
        then have state: "AnchorValid = (if same_place (ri_anchor i) c then AnchorValid else AnchorRelocated)"
          by simp
        have "relocated_outcome i (ri_new_content i) c AnchorValid ''exact_content_identity'' = Inr r"
          using outcome Some by simp
        from single_meaning [OF this state ac(1)] ac(2,3) place show ?thesis by simp
      next
        case None
        have searched: "search_from i (ri_new_content i) (search_tiers i (ri_new_content i)) = Inr r"
          using outcome unfolding None by simp
        show ?thesis
        proof (cases "find (\<lambda>t. places_of i t \<noteq> []) (search_tiers i (ri_new_content i))")
          case None
          with searched no_tier [of i] show ?thesis
            by (intro orphaned_meaning [of i "''anchor_evidence_not_found''"])
              (simp_all add: search_tiers_outcome)
        next
          case (Some t)
          with searched found_tier [OF Some] show ?thesis
            by (intro candidates_meaning [of i t "st_reason t"]) (simp_all add: search_tiers_outcome)
        qed
      qed
    qed
  qed
qed

text \<open>
  C29. A reconciled anchor always means what its state says. A valid anchor has not moved and its
  selected text stands at its lines in the new file; a relocated anchor has moved, to lines of the
  new file where its selected text stands; an ambiguous anchor has not moved and lists between two
  and twenty different such places in order; an orphaned anchor has not moved, and it is only
  reported when the file is out of scope, too short, or does not contain the selected text at all.
\<close>

theorem reconcile_anchor_correct:
  assumes "reconcile_anchor i = Inr r"
  shows "outcome_meaning i r"
  using assms by (rule reconcile_anchor_meaning)

lemma orphaned_reason:
  "orphaned_outcome i reason = Inr r \<Longrightarrow> ro_reason r = reason \<and> ro_state r = AnchorOrphaned"
  unfolding orphaned_outcome_def by (drule checked_outcome_result) simp

lemma candidates_reason:
  assumes "outcome_from_candidates i content cs ov reason = Inr r" "cs \<noteq> []"
  shows "ro_reason r = reason"
    and "ro_state r \<noteq> AnchorAmbiguous \<Longrightarrow> \<exists>c. cs = [c] \<and> an_start_line (ro_anchor r) = ac_start_line c"
proof -
  from assms(2) obtain c cs' where cs: "cs = c # cs'" by (cases cs) simp_all
  show "ro_reason r = reason"
    using assms(1) cs
    by (cases cs') (auto simp: outcome_from_candidates_def relocated_outcome_def ambiguous_outcome_def
        dest!: checked_outcome_result)
  show "\<exists>c. cs = [c] \<and> an_start_line (ro_anchor r) = ac_start_line c" if "ro_state r \<noteq> AnchorAmbiguous"
    using assms(1) cs that
    by (cases cs') (auto simp: outcome_from_candidates_def relocated_outcome_def ambiguous_outcome_def
        dest!: checked_outcome_result)
qed

lemma tier_reasons:
  assumes "t \<in> set (search_tiers i content)"
  shows "st_reason t \<noteq> ''versioned_line_diff''"
    and "st_reason t = ''unique_selected_range_in_file'' \<Longrightarrow> t = last (search_tiers i content)"
  using assms by (auto simp: search_tiers_def Let_def)

lemma reconcile_reason:
  assumes "reconcile_anchor i = Inr r"
  shows "ro_reason r \<noteq> ''versioned_line_diff''"
    and "ro_reason r = ''unique_selected_range_in_file'' \<Longrightarrow> ro_state r \<noteq> AnchorAmbiguous \<Longrightarrow>
      selection_places i = [an_start_line (ro_anchor r)]"
proof -
  have "ro_reason r \<noteq> ''versioned_line_diff''
    \<and> (ro_reason r = ''unique_selected_range_in_file'' \<and> ro_state r \<noteq> AnchorAmbiguous \<longrightarrow>
        selection_places i = [an_start_line (ro_anchor r)])"
  proof -
    have valid: "reconcile_input_valid i" using assms by (auto simp: reconcile_anchor_def split: if_splits)
    consider reason where "orphaned_outcome i reason = Inr r"
        "reason \<in> {''scoped_path_unavailable'', ''selected_range_not_present'', ''anchor_evidence_not_found''}"
      | c where "relocated_outcome i (ri_new_content i) c AnchorValid ''exact_content_identity'' = Inr r"
      | t where "find (\<lambda>t. places_of i t \<noteq> []) (search_tiers i (ri_new_content i)) = Some t"
          "outcome_from_candidates i (ri_new_content i)
            (map (candidate_of i t) (take MaxAnchorReconciliationCandidates (places_of i t)))
            (MaxAnchorReconciliationCandidates < length (places_of i t)) (st_reason t) = Inr r"
      using assms valid
      by (auto simp: reconcile_anchor_def Let_def search_tiers_outcome
          split: option.splits if_splits)
    then show ?thesis
    proof cases
      case 1
      then show ?thesis using orphaned_reason [OF 1(1)] by auto
    next
      case 2
      then show ?thesis using checked_outcome_result [OF 2 [unfolded relocated_outcome_def]] by simp
    next
      case (3 t)
      note tier = found_tier [OF 3(1)]
      let ?ks = "take MaxAnchorReconciliationCandidates (places_of i t)"
      have cs: "map (candidate_of i t) ?ks \<noteq> []"
        using tier(2) by (simp add: MaxAnchorReconciliationCandidates_def)
      note reason = candidates_reason [OF 3(2) cs]
      have "selection_places i = [an_start_line (ro_anchor r)]"
        if unique: "st_reason t = ''unique_selected_range_in_file''" "ro_state r \<noteq> AnchorAmbiguous"
      proof -
        have places: "places_of i t = selection_places i"
          using tier_reasons(2) [OF tier(1) unique(1)] last_tier_places by simp
        obtain c where c: "map (candidate_of i t) ?ks = [c]"
          "an_start_line (ro_anchor r) = ac_start_line c" using reason(2) [OF unique(2)] by metis
        then obtain k where "?ks = [k]" "c = candidate_of i t k" by (cases ?ks) auto
        moreover from this have "places_of i t = [k]"
          by (cases "places_of i t"; cases "tl (places_of i t)")
            (auto simp: MaxAnchorReconciliationCandidates_def)
        ultimately show ?thesis using c(2) places by simp
      qed
      with reason(1) tier_reasons(1) [OF tier(1)] show ?thesis by simp
    qed
  qed
  then show "ro_reason r \<noteq> ''versioned_line_diff''"
    and "ro_reason r = ''unique_selected_range_in_file'' \<Longrightarrow> ro_state r \<noteq> AnchorAmbiguous \<Longrightarrow>
      selection_places i = [an_start_line (ro_anchor r)]" by blast+
qed

text \<open>
  The last tier, the versioned line diff, never decides an anchor: it demands the selected text
  at the place it maps the anchor to, and then an earlier tier has found that place already. Where
  an anchor is settled because its selection is unique in the file, it really is the only place.
\<close>

theorem line_diff_tier_unreachable:
  assumes "reconcile_anchor i = Inr r"
  shows "ro_reason r \<noteq> ''versioned_line_diff''
    \<and> (ro_reason r = ''unique_selected_range_in_file'' \<and> ro_state r \<noteq> AnchorAmbiguous \<longrightarrow>
        selection_places i = [an_start_line (ro_anchor r)])"
  using reconcile_reason [OF assms] by blast

end
