(* ===== verification/Reconcile_Total.thy ===== *)
theory Reconcile_Total
  imports Reconcile_Anchors
begin

text \<open>
  Reconciliation always returns: the anchors and outcomes it builds pass the validation at its end,
  so that on valid inputs the only possible failure is evidence that is too large.
\<close>

subsection \<open>Texts\<close>

lemma utf8_valid_Nil [simp]: "utf8_valid []"
  by (simp add: utf8_valid_scan)

lemma valid_content_Nil [simp]: "valid_content []"
  by (simp add: valid_content_def)

lemma valid_content_LF [simp]: "valid_content [LF]"
  by (simp add: valid_content_def utf8_valid_scan scan_utf8_ascii)

lemma valid_content_join: "list_all valid_content ls \<Longrightarrow> valid_content (join_with [LF] ls)"
proof (induction ls)
  case (Cons l ls)
  then show ?case
    using valid_content_append [of "[LF]" "join_with [LF] ls"]
    by (cases "ls = []") (auto simp: join_with_Cons intro!: valid_content_append)
qed simp

lemma join_with_length: "length (join_with [LF] ls) \<le> sum_list (map (\<lambda>l. length l + 1) ls)"
proof (induction ls)
  case (Cons l ls)
  then show ?case by (cases "ls = []") (auto simp: join_with_Cons)
qed simp

definition line_bytes_total :: "bytes list \<Rightarrow> nat" where
  "line_bytes_total ls = sum_list (map (\<lambda>l. length l + 1) ls)"

lemma line_bytes_total_part: "line_bytes_total (take m (drop n ls)) \<le> line_bytes_total ls"
proof -
  have "line_bytes_total ls = line_bytes_total (take n ls) + line_bytes_total (take m (drop n ls))
      + line_bytes_total (drop m (drop n ls))"
    unfolding line_bytes_total_def
    by (simp only: sum_list_append [symmetric] map_append [symmetric] append_take_drop_id append.assoc)
  then show ?thesis by linarith
qed

lemma text_range_length: "length (text_range ls a b) \<le> line_bytes_total ls"
  unfolding text_range_def line_bytes_total_def
  using join_with_length line_bytes_total_part [unfolded line_bytes_total_def] le_trans by blast

lemma list_all_part: "list_all P ls \<Longrightarrow> list_all P (take m (drop n ls))"
  by (auto simp: list_all_iff dest: in_set_takeD in_set_dropD)

lemma fingerprint_text_content: "valid_fingerprint_text v \<Longrightarrow> valid_content v"
  by (simp add: valid_fingerprint_text_def valid_content_def)

lemma text_range_content: "list_all valid_content ls \<Longrightarrow> valid_content (text_range ls a b)"
  unfolding text_range_def by (intro valid_content_join list_all_part)

lemma context_lines_part: "\<exists>m n. context_lines ls e f = take m (drop n ls)"
  unfolding context_lines_def Let_def by (auto split: if_split)

lemma context_lines_content: "list_all valid_content ls \<Longrightarrow> list_all valid_content (context_lines ls e f)"
  using context_lines_part [of ls e f] list_all_part by metis

text \<open>The lines before and after one selection are disjoint parts of the file.\<close>

lemma context_bytes:
  assumes "1 \<le> first" "first \<le> final"
  shows "sum_list (map length (context_lines ls first False @ context_lines ls final True))
    \<le> line_bytes_total ls"
proof -
  let ?p = "take (nat (first - 1)) ls" and ?q = "drop (nat final) ls"
  have bytes: "sum_list (map length xs) \<le> line_bytes_total xs" for xs :: "bytes list"
    unfolding line_bytes_total_def by (intro sum_list_mono) simp
  have before: "context_lines ls first False = drop (nat (max 0 (first - 4))) ?p"
    using assms by (auto simp: context_lines_def Let_def drop_take nat_diff_distrib max_def)
  have after: "\<exists>m. context_lines ls final True = take m ?q"
    by (auto simp: context_lines_def Let_def)
  have le: "line_bytes_total (drop n xs) \<le> line_bytes_total xs" "line_bytes_total (take n xs) \<le> line_bytes_total xs"
    for n and xs :: "bytes list"
    using line_bytes_total_part [of "length xs" n xs] line_bytes_total_part [of n 0 xs] by simp_all
  have "ls = ?p @ drop (nat (first - 1)) ls" by simp
  then have split: "line_bytes_total ls = line_bytes_total ?p + line_bytes_total (drop (nat (first - 1)) ls)"
    unfolding line_bytes_total_def by (metis map_append sum_list_append)
  have "?q = drop (nat final - nat (first - 1)) (drop (nat (first - 1)) ls)"
    using assms by simp
  then have "line_bytes_total ?q \<le> line_bytes_total (drop (nat (first - 1)) ls)" using le(1) by metis
  moreover obtain m where "context_lines ls final True = take m ?q" using after by blast
  ultimately show ?thesis
    using split before bytes [of "context_lines ls first False"] bytes [of "context_lines ls final True"]
      le(1) [of "nat (max 0 (first - 4))" ?p] le(2) [of m ?q]
    by simp
qed

lemma plain_metadata: "v \<noteq> [] \<Longrightarrow> list_all (\<lambda>c. byte c < 128) v \<Longrightarrow> valid_metadata v"
  using ascii_runes by (simp add: valid_metadata_def)

subsection \<open>Anchors and candidates\<close>

lemma sha256_fingerprint_text: "valid_fingerprint_text (sha256_hex v)"
proof -
  have "list_all (\<lambda>c. byte c < 128) (sha256_hex v)"
    using sha256_hex_lower by (fastforce simp: list_all_iff)
  from ascii_runes [OF this] have "runes (sha256_hex v) = map byte (sha256_hex v)" by blast
  moreover have "0 \<notin> byte ` set (sha256_hex v)" using sha256_hex_lower by fastforce
  ultimately show ?thesis by (simp add: valid_fingerprint_text_def)
qed

lemma sha256_metadata [simp]: "valid_metadata (sha256_hex v)"
  by (simp add: valid_metadata_def)

lemma fingerprint_context_metadata [simp]: "valid_optional_metadata (fingerprint_context ls)"
  by (simp add: fingerprint_context_def valid_optional_metadata_def)

lemma rebased_anchor_valid:
  assumes "reconcile_input_valid i"
  shows "code_anchor_valid (rebased_anchor i s)"
  using assms
  by (auto simp: reconcile_input_valid_def code_anchor_valid_def rebased_anchor_def Let_def
      generation_transition_valid_def)

lemma relocation_of_valid:
  "reconcile_input_valid i \<Longrightarrow> valid_metadata reason \<Longrightarrow> relocation_valid (relocation_of i reason)"
  by (simp add: relocation_valid_def relocation_of_def reconcile_input_valid_def code_anchor_valid_def)

lemma relocated_anchor_valid:
  assumes "reconcile_input_valid i" "valid_metadata reason" "valid_repo_path (ac_path c)"
    "1 \<le> ac_start_line c" "ac_start_line c \<le> ac_end_line c"
  shows "code_anchor_valid (relocated_anchor i content c s reason)"
proof -
  let ?a = "rebased_anchor i s" and ?r = "relocated_anchor i content c s reason"
  have a: "code_anchor_valid ?a" and old: "valid_repo_path (an_path (ri_anchor i))"
    using assms(1) rebased_anchor_valid by (simp_all add: reconcile_input_valid_def code_anchor_valid_def)
  have "opt_all relocation_valid (an_relocation ?r)"
    using a relocation_of_valid [OF assms(1,2)]
    by (simp add: relocated_anchor_def code_anchor_valid_def Let_def)
  moreover have "an_previous_path ?r = [] \<or> valid_repo_path (an_previous_path ?r)"
    using a old by (simp add: relocated_anchor_def code_anchor_valid_def Let_def)
  moreover have "valid_metadata (an_selection_hash ?r)" "valid_optional_metadata (an_before_context_hash ?r)"
    "valid_optional_metadata (an_after_context_hash ?r)"
    using a by (simp_all add: relocated_anchor_def code_anchor_valid_def Let_def fingerprint_selection_metadata
        valid_optional_metadata_def [of "[]"])
  moreover have "an_side ?r = an_side ?a" "an_base ?r = an_base ?a" "an_head ?r = an_head ?a"
    "an_fingerprint_version ?r = an_fingerprint_version ?a" "an_selected_text ?r = an_selected_text ?a"
    "an_hunk_fingerprint ?r = an_hunk_fingerprint ?a" "an_target_generation ?r = an_target_generation ?a"
    by (simp_all add: relocated_anchor_def Let_def)
  ultimately show ?thesis
    using a assms(3-5) by (simp add: code_anchor_valid_def)
qed

lemma orphaned_anchor_valid:
  assumes "reconcile_input_valid i" "valid_metadata reason"
  shows "code_anchor_valid ((rebased_anchor i s)\<lparr>an_relocation := Some (relocation_of i reason)\<rparr>)"
  using rebased_anchor_valid [OF assms(1), of s] relocation_of_valid [OF assms]
  by (simp add: code_anchor_valid_def)

lemma candidate_of_valid:
  assumes "reconcile_input_valid i" "valid_evidence_tier (st_tier t)" "valid_metadata (st_reason t)"
    "1 \<le> k" "line_bytes_total (cp_lines (ri_new_content i)) \<le> MaxAnchorCandidateEvidenceBytes"
  shows "anchor_candidate_valid (candidate_of i t k)"
proof -
  let ?ls = "cp_lines (ri_new_content i)" and ?e = "k + old_count (ri_anchor i) - 1"
  have captured: "captured_file_valid (ri_new_content i)" and count: "1 \<le> old_count (ri_anchor i)"
    using assms(1) by (simp_all add: reconcile_input_valid_def old_count_pos)
  have content: "list_all valid_content ?ls"
    using captured fingerprint_text_content by (auto simp: captured_file_valid_def list_all_iff)
  have gen: "gt_to_generation (ri_transition i) \<noteq> 0"
    using assms(1) by (simp add: reconcile_input_valid_def generation_transition_valid_def)
  have bytes: "sum_list (map length (context_lines ?ls k False @ context_lines ?ls ?e True))
      \<le> MaxAnchorCandidateEvidenceBytes"
    using context_bytes [of k ?e ?ls] assms(4,5) count by linarith
  have selected: "length (text_range ?ls k ?e) \<le> MaxAnchorCandidateEvidenceBytes"
    using text_range_length [of ?ls k ?e] assms(5) by linarith
  have print: "valid_fingerprint_text (candidate_content_fingerprint (ri_new_content i))"
    using captured
    by (simp add: candidate_content_fingerprint_def captured_file_valid_def
        fingerprint_captured_content_def sha256_fingerprint_text)
  show ?thesis
    using assms(1-4) captured count gen bytes selected print text_range_content [OF content, of k ?e]
      context_lines_content [OF content]
    by (simp add: anchor_candidate_valid_def candidate_of_def make_anchor_candidate_def
        captured_file_valid_def reconcile_input_valid_def code_anchor_valid_def)
qed

subsection \<open>Totality\<close>

lemma checked_outcome_total:
  assumes "code_anchor_valid a" "an_state a = state" "anchor_state_valid state" "valid_metadata reason"
    "length cs \<le> MaxAnchorReconciliationCandidates" "list_all anchor_candidate_valid cs"
    "state \<noteq> AnchorAmbiguous \<Longrightarrow> cs = [] \<and> \<not> ov"
  shows "is_ok (checked_outcome a cs ov state reason)"
  using assms by (auto simp: checked_outcome_def new_code_anchor_def reconcile_outcome_valid_def Let_def)

lemma orphaned_total:
  "reconcile_input_valid i \<Longrightarrow> valid_metadata reason \<Longrightarrow> is_ok (orphaned_outcome i reason)"
  unfolding orphaned_outcome_def
  by (rule checked_outcome_total) (simp_all add: orphaned_anchor_valid anchor_state_valid_def)

lemma ambiguous_total:
  "reconcile_input_valid i \<Longrightarrow> valid_metadata reason \<Longrightarrow> length cs \<le> MaxAnchorReconciliationCandidates \<Longrightarrow>
   list_all anchor_candidate_valid cs \<Longrightarrow> is_ok (ambiguous_outcome i cs ov reason)"
  unfolding ambiguous_outcome_def
  by (rule checked_outcome_total) (simp_all add: orphaned_anchor_valid anchor_state_valid_def)

lemma relocated_total:
  "reconcile_input_valid i \<Longrightarrow> valid_metadata reason \<Longrightarrow> valid_repo_path (ac_path c) \<Longrightarrow>
   1 \<le> ac_start_line c \<Longrightarrow> ac_start_line c \<le> ac_end_line c \<Longrightarrow> s = AnchorValid \<or> s = AnchorRelocated \<Longrightarrow>
   is_ok (relocated_outcome i content c s reason)"
  unfolding relocated_outcome_def
  by (rule checked_outcome_total) (auto simp: relocated_anchor_valid anchor_state_valid_def)

lemma tier_valid:
  assumes "t \<in> set (search_tiers i content)"
  shows "valid_evidence_tier (st_tier t)" "valid_metadata (st_reason t)"
proof -
  show "valid_evidence_tier (st_tier t)" "valid_metadata (st_reason t)"
    using assms by (auto simp: search_tiers_def valid_evidence_tier_def plain_metadata Let_def)
qed

text \<open>Every place a tier finds is inside the new file, so its candidates and its outcome are valid.\<close>

lemma candidates_total:
  assumes "reconcile_input_valid i" "t \<in> set (search_tiers i (ri_new_content i))" "places_of i t \<noteq> []"
    "line_bytes_total (cp_lines (ri_new_content i)) \<le> MaxAnchorCandidateEvidenceBytes"
  shows "is_ok (outcome_from_candidates i (ri_new_content i)
    (map (candidate_of i t) (take MaxAnchorReconciliationCandidates (places_of i t))) ov (st_reason t))"
proof -
  let ?ks = "take MaxAnchorReconciliationCandidates (places_of i t)"
  have count: "1 \<le> old_count (ri_anchor i)" and path: "valid_repo_path (cp_path (ri_new_content i))"
    using assms(1) by (simp_all add: reconcile_input_valid_def old_count_pos captured_file_valid_def)
  have pos: "1 \<le> k" if "k \<in> set ?ks" for k
    using tier_places [OF assms(2)] in_set_takeD [OF that] by (auto simp: selection_places_def)
  have valid: "list_all anchor_candidate_valid (map (candidate_of i t) ?ks)"
    using pos candidate_of_valid [OF assms(1) tier_valid [OF assms(2)] _ assms(4)] by (auto simp: list_all_iff)
  from assms(3) have "?ks \<noteq> []" by (simp add: MaxAnchorReconciliationCandidates_def)
  then consider k where "?ks = [k]" | k l ms where "?ks = k # l # ms" by (metis list.exhaust)
  then show ?thesis
  proof cases
    case (1 k)
    then have "is_ok (relocated_outcome i (ri_new_content i) (candidate_of i t k)
        (if same_place (ri_anchor i) (candidate_of i t k) then AnchorValid else AnchorRelocated) (st_reason t))"
      using pos [of k] count path
      by (intro relocated_total [OF assms(1) tier_valid(2) [OF assms(2)]]) simp_all
    with 1 show ?thesis by (simp add: outcome_from_candidates_def)
  next
    case (2 k l ms)
    have "is_ok (ambiguous_outcome i (map (candidate_of i t) ?ks) ov (st_reason t))"
      using valid by (intro ambiguous_total [OF assms(1) tier_valid(2) [OF assms(2)]]) simp_all
    with 2 show ?thesis by (simp add: outcome_from_candidates_def)
  qed
qed

lemma exact_total:
  assumes "reconcile_input_valid i"
    "candidate_at i (ri_new_content i) (an_start_line (ri_anchor i)) EvidenceTierExactGeneration reason = Some c"
    "valid_metadata reason"
  shows "is_ok (relocated_outcome i (ri_new_content i) c AnchorValid reason)"
  using assms old_count_pos [of "ri_anchor i"]
  by (intro relocated_total)
    (auto simp: candidate_at_def make_anchor_candidate_def Let_def reconcile_input_valid_def
      captured_file_valid_def code_anchor_valid_def split: if_splits)

lemma reconcile_total_aux:
  assumes "reconcile_input_valid i"
    "line_bytes_total (cp_lines (ri_new_content i)) \<le> MaxAnchorCandidateEvidenceBytes"
  shows "is_ok (reconcile_anchor i)"
proof -
  have reasons: "valid_metadata ''scoped_path_unavailable''" "valid_metadata ''selected_range_not_present''"
    "valid_metadata ''anchor_evidence_not_found''" "valid_metadata ''exact_content_identity''"
    by (simp_all add: plain_metadata)
  note orphaned = orphaned_total [OF assms(1)]
  have searched: "is_ok (search_from i (ri_new_content i) (search_tiers i (ri_new_content i)))"
    using orphaned [OF reasons(3)] candidates_total [OF assms(1) found_tier assms(2)]
    by (auto simp: search_tiers_outcome split: option.split)
  show ?thesis
    using assms(1) orphaned [OF reasons(1)] orphaned [OF reasons(2)] searched
      exact_total [OF assms(1) _ reasons(4)]
    by (auto simp: reconcile_anchor_def Let_def split: option.split)
qed

text \<open>
  C30. Reconciliation never fails on a valid input whose new file has at most 256 KiB of text: every
  anchor, candidate and outcome it builds passes the validation it ends with, whichever tier decides.
\<close>

theorem reconcile_anchor_total:
  assumes "reconcile_input_valid i"
    and "line_bytes_total (cp_lines (ri_new_content i)) \<le> MaxAnchorCandidateEvidenceBytes"
  shows "\<exists>r. reconcile_anchor i = Inr r"
  using reconcile_total_aux [OF assms] by (cases "reconcile_anchor i") simp_all

subsection \<open>A sample\<close>

definition sample_reconcile_input :: reconcile_input where
  "sample_reconcile_input =
     (let empty = \<lparr>sr_kind = SnapshotEmpty, sr_object_id = [], sr_worktree_id = [], sr_fingerprint = []\<rparr> in
      \<lparr>ri_anchor =
         \<lparr>an_path = ''f'', an_previous_path = [], an_side = DiffHead, an_start_line = 1, an_end_line = 1,
          an_target_generation = 1, an_base = empty, an_head = empty, an_hunk_fingerprint = ''h'',
          an_selection_hash = ''s'', an_selected_text = ''x'', an_before_context_hash = [],
          an_after_context_hash = [], an_fingerprint_version = 0, an_state = AnchorValid,
          an_created_at = 1, an_relocation = None\<rparr>,
       ri_transition =
         \<lparr>gt_from_capture = ''c'', gt_to_capture = ''d'', gt_from_generation = 1, gt_to_generation = 2,
          gt_changed_paths = [], gt_rename_mappings = [], gt_rename_evidence = zero_rename_policy,
          gt_from_rename_evidence = zero_rename_policy, gt_to_rename_evidence = zero_rename_policy,
          gt_new_base = empty, gt_new_head = empty\<rparr>,
       ri_new_content =
         \<lparr>cp_path = ''f'', cp_side = DiffHead, cp_content_identity = [], cp_lines = [''y'', ''x'']\<rparr>,
       ri_previous_content = None, ri_now = 1\<rparr>)"

lemma sample_valid: "reconcile_input_valid sample_reconcile_input"
proof -
  have "valid_metadata ''h''" "valid_metadata ''s''" "valid_metadata ''x''" by (simp_all add: plain_metadata)
  moreover have "valid_fingerprint_text []" "valid_fingerprint_text ''x''" "valid_fingerprint_text ''y''"
    by code_simp+
  ultimately show ?thesis
    by (simp add: sample_reconcile_input_def reconcile_input_valid_def code_anchor_valid_def Let_def
        generation_transition_valid_def captured_file_valid_def diff_side_known_def valid_repo_path_def
        snapshot_ref_valid_def snapshot_given_def rename_policy_present_iff new_id_def validate_id_def
        valid_metadata_def valid_optional_metadata_def valid_content_def is_zero_time_def ctl_iff)
qed

lemma sample_bytes:
  "line_bytes_total (cp_lines (ri_new_content sample_reconcile_input)) \<le> MaxAnchorCandidateEvidenceBytes"
  by (simp add: sample_reconcile_input_def line_bytes_total_def MaxAnchorCandidateEvidenceBytes_def Let_def)

lemma sample_reconciles: "\<exists>r. reconcile_anchor sample_reconcile_input = Inr r"
  using reconcile_total_aux [OF sample_valid sample_bytes]
  by (cases "reconcile_anchor sample_reconcile_input") simp_all

lemma reconcile_anchor_total_witness: "\<exists>r. reconcile_anchor sample_reconcile_input = Inr r"
  by (rule reconcile_anchor_total [OF sample_valid sample_bytes])

lemma reconcile_anchor_correct_witness:
  "\<exists>r. reconcile_anchor sample_reconcile_input = Inr r \<and> outcome_meaning sample_reconcile_input r"
  using sample_reconciles reconcile_anchor_correct by blast

lemma line_diff_tier_unreachable_witness:
  "\<exists>r. reconcile_anchor sample_reconcile_input = Inr r \<and> ro_reason r \<noteq> ''versioned_line_diff''"
  using sample_reconciles line_diff_tier_unreachable by blast

end
