(* ===== verification/Threads.thy ===== *)
theory Threads
  imports Anchors
begin

text \<open>
  Review threads and sessions (\<^verbatim>\<open>internal/domain/review/thread.go\<close>, \<^verbatim>\<open>session.go\<close> and the
  composed status of \<^verbatim>\<open>status.go\<close>): five independent status axes, each changed by its own
  operation, and an append-only list of messages.
\<close>

subsection \<open>Threads\<close>

record thread_status =
  st_resolution :: resolution_state
  st_conversation :: conversation_state
  st_proposal :: proposal_state
  st_anchor :: anchor_state
  st_read :: read_state
  st_failure_phase :: failure_phase
  st_error_code :: error_code

record review_thread =
  th_id :: review_thread_id
  th_session_id :: review_session_id
  th_anchor :: code_anchor
  th_title :: bytes
  th_resolution :: resolution_state
  th_conversation :: conversation_state
  th_proposal :: proposal_state
  th_read :: read_state
  th_provider_conversation_id :: "provider_conversation_id option"
  th_latest_proposal_id :: "proposal_id option"
  th_messages :: "message_id list"
  th_failure_phase :: failure_phase
  th_error_code :: error_code
  th_created_at :: instant
  th_updated_at :: instant

definition thread_valid :: "review_thread \<Rightarrow> bool" where
  "thread_valid t \<longleftrightarrow>
     valid_review_id (th_id t) \<and> valid_review_id (th_session_id t) \<and> \<not> is_zero_time (th_created_at t)
     \<and> \<not> is_zero_time (th_updated_at t) \<and> \<not> before (th_updated_at t) (th_created_at t)
     \<and> code_anchor_valid (th_anchor t)
     \<and> resolution_valid (th_resolution t) \<and> conversation_valid (th_conversation t)
     \<and> proposal_state_valid (th_proposal t) \<and> anchor_state_valid (an_state (th_anchor t))
     \<and> read_state_valid (th_read t)
     \<and> (th_title t \<noteq> [] \<longrightarrow> valid_content (th_title t))
     \<and> opt_all valid_review_id (th_provider_conversation_id t)
     \<and> opt_all valid_review_id (th_latest_proposal_id t)
     \<and> distinct_ids {} (th_messages t)
     \<and> valid_optional_metadata (th_failure_phase t) \<and> valid_optional_metadata (th_error_code t)"

definition new_review_thread :: "review_thread \<Rightarrow> (review_error, review_thread) result" where
  "new_review_thread t = (if thread_valid t then Inr t else Inl ErrInvalidReviewThread)"

definition new_open_review_thread ::
    "review_thread_id \<Rightarrow> review_session_id \<Rightarrow> code_anchor \<Rightarrow> instant \<Rightarrow> (review_error, review_thread) result" where
  "new_open_review_thread i session anchor now =
     new_review_thread
       \<lparr>th_id = i, th_session_id = session, th_anchor = anchor, th_title = [],
        th_resolution = ResolutionOpen, th_conversation = ConversationIdle,
        th_proposal = ProposalNone, th_read = ThreadUnread, th_provider_conversation_id = None,
        th_latest_proposal_id = None, th_messages = [], th_failure_phase = [], th_error_code = [],
        th_created_at = now, th_updated_at = now\<rparr>"

definition thread_status_of :: "review_thread \<Rightarrow> thread_status" where
  "thread_status_of t =
     \<lparr>st_resolution = th_resolution t, st_conversation = th_conversation t,
      st_proposal = th_proposal t, st_anchor = an_state (th_anchor t), st_read = th_read t,
      st_failure_phase = th_failure_phase t, st_error_code = th_error_code t\<rparr>"

subsection \<open>Operations\<close>

text \<open>Every method checks the receiver, its argument and the clock, in this order.\<close>

definition thread_ready :: "bool \<Rightarrow> instant \<Rightarrow> review_thread \<Rightarrow> bool" where
  "thread_ready argument now t \<longleftrightarrow>
     thread_valid t \<and> argument \<and> \<not> is_zero_time now \<and> \<not> before now (th_updated_at t)"

definition set_resolution ::
    "resolution_state \<Rightarrow> instant \<Rightarrow> review_thread option \<Rightarrow> (review_error, review_thread) result" where
  "set_resolution state now =
     guarded (thread_ready (resolution_valid state) now)
       (\<lambda>t. t\<lparr>th_resolution := state, th_updated_at := now\<rparr>)"

definition resolve_thread :: "instant \<Rightarrow> review_thread option \<Rightarrow> (review_error, review_thread) result" where
  "resolve_thread now = set_resolution ResolutionResolved now"

definition reopen_thread :: "instant \<Rightarrow> review_thread option \<Rightarrow> (review_error, review_thread) result" where
  "reopen_thread now = set_resolution ResolutionOpen now"

definition set_read ::
    "read_state \<Rightarrow> instant \<Rightarrow> review_thread option \<Rightarrow> (review_error, review_thread) result" where
  "set_read state now =
     guarded (thread_ready (read_state_valid state) now)
       (\<lambda>t. t\<lparr>th_read := state, th_updated_at := now\<rparr>)"

definition mark_read :: "instant \<Rightarrow> review_thread option \<Rightarrow> (review_error, review_thread) result" where
  "mark_read now = set_read ThreadRead now"

definition mark_unread :: "instant \<Rightarrow> review_thread option \<Rightarrow> (review_error, review_thread) result" where
  "mark_unread now = set_read ThreadUnread now"

definition set_conversation ::
    "conversation_state \<Rightarrow> failure_phase \<Rightarrow> error_code \<Rightarrow> instant \<Rightarrow> review_thread option
     \<Rightarrow> (review_error, review_thread) result" where
  "set_conversation state phase code now =
     guarded
       (thread_ready
         (conversation_valid state \<and> valid_optional_metadata phase \<and> valid_optional_metadata code) now)
       (\<lambda>t. t\<lparr>th_conversation := state, th_failure_phase := phase, th_error_code := code,
              th_updated_at := now\<rparr>)"

definition set_proposal ::
    "proposal_state \<Rightarrow> proposal_id option \<Rightarrow> instant \<Rightarrow> review_thread option
     \<Rightarrow> (review_error, review_thread) result" where
  "set_proposal state proposal now =
     guarded
       (thread_ready (proposal_state_valid state \<and> opt_all valid_review_id proposal) now)
       (\<lambda>t. t\<lparr>th_proposal := state, th_latest_proposal_id := proposal, th_updated_at := now\<rparr>)"

definition set_anchor_state ::
    "anchor_state \<Rightarrow> instant \<Rightarrow> review_thread option \<Rightarrow> (review_error, review_thread) result" where
  "set_anchor_state state now =
     guarded (thread_ready (anchor_state_valid state) now)
       (\<lambda>t. t\<lparr>th_anchor := (th_anchor t)\<lparr>an_state := state\<rparr>, th_updated_at := now\<rparr>)"

definition attach_provider_conversation ::
    "provider_conversation_id \<Rightarrow> instant \<Rightarrow> review_thread option \<Rightarrow> (review_error, review_thread) result" where
  "attach_provider_conversation i now =
     guarded (thread_ready (valid_review_id i) now)
       (\<lambda>t. t\<lparr>th_provider_conversation_id := Some i, th_updated_at := now\<rparr>)"

definition append_message_id ::
    "message_id \<Rightarrow> instant \<Rightarrow> review_thread option \<Rightarrow> (review_error, review_thread) result" where
  "append_message_id i now =
     guarded (\<lambda>t. thread_ready (valid_review_id i) now t \<and> i \<notin> set (th_messages t))
       (\<lambda>t. t\<lparr>th_messages := th_messages t @ [i], th_updated_at := now\<rparr>)"

datatype thread_op =
    OpResolve instant | OpReopen instant | OpMarkRead instant | OpMarkUnread instant
  | OpSetConversation conversation_state failure_phase error_code instant
  | OpSetProposal proposal_state "proposal_id option" instant
  | OpSetAnchorState anchor_state instant
  | OpAttachConversation provider_conversation_id instant
  | OpAppendMessage message_id instant

fun thread_step :: "thread_op \<Rightarrow> review_thread \<Rightarrow> (review_error, review_thread) result" where
  "thread_step (OpResolve now) t = resolve_thread now (Some t)"
| "thread_step (OpReopen now) t = reopen_thread now (Some t)"
| "thread_step (OpMarkRead now) t = mark_read now (Some t)"
| "thread_step (OpMarkUnread now) t = mark_unread now (Some t)"
| "thread_step (OpSetConversation s p c now) t = set_conversation s p c now (Some t)"
| "thread_step (OpSetProposal s i now) t = set_proposal s i now (Some t)"
| "thread_step (OpSetAnchorState s now) t = set_anchor_state s now (Some t)"
| "thread_step (OpAttachConversation i now) t = attach_provider_conversation i now (Some t)"
| "thread_step (OpAppendMessage i now) t = append_message_id i now (Some t)"

lemmas thread_op_defs = resolve_thread_def reopen_thread_def set_resolution_def mark_read_def
  mark_unread_def set_read_def set_conversation_def set_proposal_def set_anchor_state_def
  attach_provider_conversation_def append_message_id_def

lemma thread_step_needs: "thread_step op t = Inr u \<Longrightarrow> thread_valid t"
  by (cases op) (auto simp: thread_op_defs thread_ready_def)

lemma code_anchor_state [simp]: "code_anchor_valid (a\<lparr>an_state := s\<rparr>) = code_anchor_valid a"
  by (simp add: code_anchor_valid_def)

lemma distinct_ids_snoc:
  "distinct_ids {} (is @ [i]) \<longleftrightarrow> distinct_ids {} is \<and> i \<noteq> [] \<and> i \<notin> set is"
  by (auto simp: distinct_ids_iff)

lemma thread_step_valid: "thread_step op t = Inr u \<Longrightarrow> thread_valid u"
proof -
  assume step: "thread_step op t = Inr u"
  then have "thread_valid t" by (rule thread_step_needs)
  with step show "thread_valid u"
    by (cases op)
      (auto simp: thread_op_defs thread_ready_def thread_valid_def resolution_valid_def
        read_state_valid_def distinct_ids_snoc valid_review_id_def time_defs)
qed

lemma thread_step_time: "thread_step op t = Inr u \<Longrightarrow> th_updated_at t \<le> th_updated_at u"
  by (cases op) (auto simp: thread_op_defs thread_ready_def time_defs)

text \<open>What no operation touches: the identity, and the anchor apart from its state.\<close>

definition thread_ident ::
    "review_thread \<Rightarrow> review_thread_id \<times> review_session_id \<times> bytes \<times> instant \<times> code_anchor" where
  "thread_ident t =
     (th_id t, th_session_id t, th_title t, th_created_at t, (th_anchor t)\<lparr>an_state := AnchorValid\<rparr>)"

lemma thread_step_ident: "thread_step op t = Inr u \<Longrightarrow> thread_ident u = thread_ident t"
  by (cases op) (auto simp: thread_op_defs thread_ident_def)

interpretation thread_life: lifecycle thread_valid "\<lambda>_. False" th_updated_at thread_ident thread_step
  by unfold_locales (auto dest: thread_step_needs thread_step_valid thread_step_time thread_step_ident)

lemma thread_step_messages:
  "thread_step op t = Inr u \<Longrightarrow> take (length (th_messages t)) (th_messages u) = th_messages t"
  by (cases op) (auto simp: thread_op_defs)

lemma thread_messages_grow: "\<exists>more. th_messages (run_ops thread_step ops t) = th_messages t @ more"
proof -
  have "take (length (th_messages t)) (th_messages (run_ops thread_step ops t)) = th_messages t"
  proof (rule thread_life.run_invariant)
    fix op s u
    assume step: "thread_step op s = Inr u" and s: "take (length (th_messages t)) (th_messages s) = th_messages t"
    from thread_step_messages [OF step] obtain d where "th_messages u = th_messages s @ d"
      by (metis append_take_drop_id)
    moreover have "length (th_messages t) \<le> length (th_messages s)" using s by (metis length_take min.cobounded1)
    ultimately show "take (length (th_messages t)) (th_messages u) = th_messages t" using s by simp
  qed simp
  then show ?thesis by (metis append_take_drop_id)
qed

subsection \<open>The axes\<close>

datatype thread_axis = AxisResolution | AxisConversation | AxisProposal | AxisAnchor | AxisRead

fun op_axis :: "thread_op \<Rightarrow> thread_axis option" where
  "op_axis (OpResolve _) = Some AxisResolution"
| "op_axis (OpReopen _) = Some AxisResolution"
| "op_axis (OpMarkRead _) = Some AxisRead"
| "op_axis (OpMarkUnread _) = Some AxisRead"
| "op_axis (OpSetConversation _ _ _ _) = Some AxisConversation"
| "op_axis (OpSetProposal _ _ _) = Some AxisProposal"
| "op_axis (OpSetAnchorState _ _) = Some AxisAnchor"
| "op_axis (OpAttachConversation _ _) = None"
| "op_axis (OpAppendMessage _ _) = None"

definition axis_agrees :: "thread_axis \<Rightarrow> thread_status \<Rightarrow> thread_status \<Rightarrow> bool" where
  "axis_agrees ax s t =
     (case ax of
        AxisResolution \<Rightarrow> st_resolution s = st_resolution t
      | AxisConversation \<Rightarrow> st_conversation s = st_conversation t
          \<and> st_failure_phase s = st_failure_phase t \<and> st_error_code s = st_error_code t
      | AxisProposal \<Rightarrow> st_proposal s = st_proposal t
      | AxisAnchor \<Rightarrow> st_anchor s = st_anchor t
      | AxisRead \<Rightarrow> st_read s = st_read t)"

lemma step_axis:
  "thread_step op t = Inr u \<Longrightarrow> op_axis op \<noteq> Some ax \<Longrightarrow>
   axis_agrees ax (thread_status_of u) (thread_status_of t)"
  by (cases op; cases ax) (auto simp: thread_op_defs axis_agrees_def thread_status_of_def)

lemma axis_agrees_refl [simp]: "axis_agrees ax s s"
  by (cases ax) (simp_all add: axis_agrees_def)

lemma axis_agrees_trans: "axis_agrees ax s t \<Longrightarrow> axis_agrees ax t u \<Longrightarrow> axis_agrees ax s u"
  by (cases ax) (simp_all add: axis_agrees_def)

lemma run_axis:
  "list_all (\<lambda>op. op_axis op \<noteq> Some ax) ops \<Longrightarrow>
   axis_agrees ax (thread_status_of (run_ops thread_step ops t)) (thread_status_of t)"
proof (induction ops arbitrary: t)
  case (Cons op ops)
  have "axis_agrees ax (thread_status_of (advance thread_step t op)) (thread_status_of t)"
    using Cons.prems step_axis by (auto simp: advance_def split: sum.split)
  with Cons show ?case using axis_agrees_trans by fastforce
qed simp

text \<open>
  C38. Whatever operations are tried on a review thread, in any order and refused or not, the thread
  stays valid, keeps its identity and the place of its anchor, its clock never runs back and its
  messages are only appended to, without duplicates; and a status axis that none of the operations
  is about keeps its value.
\<close>

theorem thread_lifecycle:
  assumes "thread_valid t"
  shows "let u = run_ops thread_step ops t in
    thread_valid u \<and> thread_ident u = thread_ident t \<and> th_updated_at t \<le> th_updated_at u
    \<and> (\<exists>more. th_messages u = th_messages t @ more) \<and> distinct (th_messages u)
    \<and> (\<forall>ax. (\<forall>op\<in>set ops. op_axis op \<noteq> Some ax) \<longrightarrow>
         axis_agrees ax (thread_status_of u) (thread_status_of t))"
proof -
  have "thread_valid (run_ops thread_step ops t)" using thread_life.run_keeps [OF assms] by blast
  then have "distinct (th_messages (run_ops thread_step ops t))"
    by (simp add: thread_valid_def distinct_ids_iff)
  then show ?thesis
    using thread_life.run_keeps [OF assms, of ops] thread_messages_grow [of ops t] run_axis [of _ ops t]
    by (simp add: Let_def list_all_iff)
qed

subsection \<open>Sessions\<close>

record review_session =
  se_id :: review_session_id
  se_repository_id :: repository_id
  se_target_spec :: target_spec
  se_target :: resolved_target
  se_created_at :: instant
  se_updated_at :: instant
  se_closed_at :: "instant option"

definition session_valid :: "review_session \<Rightarrow> bool" where
  "session_valid s \<longleftrightarrow>
     valid_review_id (se_id s) \<and> valid_review_id (se_repository_id s)
     \<and> \<not> is_zero_time (se_created_at s) \<and> \<not> is_zero_time (se_updated_at s)
     \<and> \<not> before (se_updated_at s) (se_created_at s)
     \<and> target_spec_valid (se_target_spec s) \<and> resolved_target_valid (se_target s)
     \<and> rt_spec (se_target s) = se_target_spec s
     \<and> opt_all (\<lambda>c. \<not> is_zero_time c \<and> \<not> before c (se_updated_at s)) (se_closed_at s)"

definition new_review_session :: "review_session \<Rightarrow> (review_error, review_session) result" where
  "new_review_session s = (if session_valid s then Inr s else Inl ErrInvalidReviewSession)"

definition new_open_review_session ::
    "review_session_id \<Rightarrow> repository_id \<Rightarrow> target_spec \<Rightarrow> resolved_target \<Rightarrow> instant
     \<Rightarrow> (review_error, review_session) result" where
  "new_open_review_session i repository spec target now =
     new_review_session
       \<lparr>se_id = i, se_repository_id = repository, se_target_spec = spec, se_target = target,
        se_created_at = now, se_updated_at = now, se_closed_at = None\<rparr>"

definition close_session :: "instant \<Rightarrow> review_session option \<Rightarrow> (review_error, review_session) result" where
  "close_session now =
     guarded
       (\<lambda>s. session_valid s \<and> \<not> is_zero_time now \<and> \<not> before now (se_updated_at s)
          \<and> opt_all (\<lambda>c. \<not> before now c) (se_closed_at s))
       (\<lambda>s. s\<lparr>se_updated_at := now, se_closed_at := Some now\<rparr>)"

definition session_step :: "instant \<Rightarrow> review_session \<Rightarrow> (review_error, review_session) result" where
  "session_step now s = close_session now (Some s)"

definition session_ident ::
    "review_session \<Rightarrow> review_session_id \<times> repository_id \<times> target_spec \<times> resolved_target \<times> instant" where
  "session_ident s = (se_id s, se_repository_id s, se_target_spec s, se_target s, se_created_at s)"

interpretation session_life:
  lifecycle session_valid "\<lambda>_. False" se_updated_at session_ident session_step
  by unfold_locales
    (auto simp: session_step_def close_session_def session_valid_def session_ident_def time_defs)

definition closed_now :: "review_session \<Rightarrow> bool" where
  "closed_now s \<longleftrightarrow> se_closed_at s = Some (se_updated_at s)"

lemma close_all:
  assumes "session_valid s" "sorted ts" "list_all (\<lambda>t. se_updated_at s \<le> t) ts" "ts \<noteq> []"
    "opt_all (\<lambda>c. c \<le> hd ts) (se_closed_at s)" "list_all (\<lambda>t. \<not> is_zero_time t) ts"
  shows "closed_now (run_ops session_step ts s) \<and> se_updated_at (run_ops session_step ts s) = last ts"
  using assms
proof (induction ts arbitrary: s)
  case (Cons t ts)
  let ?u = "s\<lparr>se_updated_at := t, se_closed_at := Some t\<rparr>"
  have step: "session_step t s = Inr ?u"
    using Cons.prems
    by (auto simp: session_step_def close_session_def session_valid_def time_defs opt_all_iff)
  then have valid: "session_valid ?u" using session_life.step_keeps by blast
  show ?case
  proof (cases "ts = []")
    case True
    with step show ?thesis by (simp add: advance_def closed_now_def)
  next
    case False
    with Cons.IH [OF valid] Cons.prems(2,6) step show ?thesis
      by (auto simp: advance_def list_all_iff)
  qed
qed simp

text \<open>
  Closing a review session is idempotent: closing it at any number of times that do not run back
  succeeds every time and leaves the session closed at the last of them, and whatever times are
  tried the session stays valid for the same repository and target.
\<close>

theorem session_closing:
  assumes "session_valid s"
  shows "session_valid (run_ops session_step ts s)
    \<and> session_ident (run_ops session_step ts s) = session_ident s
    \<and> (ts \<noteq> [] \<and> list_all (\<lambda>t. \<not> is_zero_time t) ts \<and> sorted (se_updated_at s # ts) \<and> opt_all (\<lambda>c. c \<le> hd ts) (se_closed_at s) \<longrightarrow>
         closed_now (run_ops session_step ts s) \<and> se_updated_at (run_ops session_step ts s) = last ts)"
  using session_life.run_keeps [OF assms, of ts] close_all [OF assms, of ts] by (auto simp: list_all_iff)

definition sample_thread_anchor :: code_anchor where
  "sample_thread_anchor =
     (let empty = \<lparr>sr_kind = SnapshotEmpty, sr_object_id = [], sr_worktree_id = [], sr_fingerprint = []\<rparr> in
      \<lparr>an_path = ''f'', an_previous_path = [], an_side = DiffHead, an_start_line = 1, an_end_line = 1,
       an_target_generation = 1, an_base = empty, an_head = empty, an_hunk_fingerprint = ''h'',
       an_selection_hash = ''s'', an_selected_text = [], an_before_context_hash = [],
       an_after_context_hash = [], an_fingerprint_version = 0, an_state = AnchorValid,
       an_created_at = 1, an_relocation = None\<rparr>)"

lemma sample_thread_anchor_valid: "code_anchor_valid sample_thread_anchor"
proof -
  have "utf8_valid ''h''" "utf8_valid ''s''" "utf8_valid []" by code_simp+
  then show ?thesis
    by (simp add: sample_thread_anchor_def code_anchor_valid_def valid_repo_path_def diff_side_known_def
        snapshot_ref_valid_def valid_metadata_def valid_optional_metadata_def valid_content_def ctl_iff Let_def)
qed

lemma sample_thread_anchor_state: "an_state sample_thread_anchor = AnchorValid"
  by (simp add: sample_thread_anchor_def Let_def)

lemma thread_lifecycle_witness:
  "\<exists>t. new_open_review_thread ''t'' ''s'' sample_thread_anchor 5 = Inr t
    \<and> (let u = run_ops thread_step [OpAppendMessage ''m'' 6, OpResolve 4, OpMarkRead 7] t in
       thread_valid u \<and> th_messages u = [''m''] \<and> th_resolution u = ResolutionOpen
       \<and> axis_agrees AxisResolution (thread_status_of u) (thread_status_of t))"
proof -
  obtain t where t: "new_open_review_thread ''t'' ''s'' sample_thread_anchor 5 = Inr t"
    by (simp add: new_open_review_thread_def new_review_thread_def thread_valid_def valid_review_id_def
        resolution_valid_def conversation_valid_def proposal_state_valid_def read_state_valid_def
        valid_optional_metadata_def sample_thread_anchor_valid anchor_state_valid_def
        sample_thread_anchor_state time_defs)
  then have valid: "thread_valid t" "th_updated_at t = 5" "th_messages t = []" "th_resolution t = ResolutionOpen"
    by (auto simp: new_open_review_thread_def new_review_thread_def split: if_splits)
  let ?ops = "[OpAppendMessage ''m'' 6, OpResolve 4, OpMarkRead 7]"
  let ?t1 = "t\<lparr>th_messages := [''m''], th_updated_at := 6\<rparr>"
  have s1: "thread_step (OpAppendMessage ''m'' 6) t = Inr ?t1"
    using valid by (simp add: thread_op_defs thread_ready_def valid_review_id_def time_defs)
  have s2: "thread_step (OpResolve 4) ?t1 = Inl ErrInvalidStatusTransition"
    by (simp add: thread_op_defs thread_ready_def time_defs)
  have s3: "thread_step (OpMarkRead 7) ?t1 = Inr (?t1\<lparr>th_read := ThreadRead, th_updated_at := 7\<rparr>)"
    using thread_step_valid [OF s1] by (simp add: thread_op_defs thread_ready_def read_state_valid_def time_defs)
  have run: "run_ops thread_step ?ops t = ?t1\<lparr>th_read := ThreadRead, th_updated_at := 7\<rparr>"
    using s1 s2 s3 by (simp add: advance_def del: thread_step.simps)
  have "axis_agrees AxisResolution (thread_status_of (run_ops thread_step ?ops t)) (thread_status_of t)"
    using run by (simp add: axis_agrees_def thread_status_of_def)
  with thread_lifecycle [OF valid(1), of ?ops] run valid t show ?thesis by (simp add: Let_def)
qed

definition sample_session :: review_session where
  "sample_session =
     (let empty = \<lparr>sr_kind = SnapshotEmpty, sr_object_id = [], sr_worktree_id = [], sr_fingerprint = []\<rparr>;
          spec = \<lparr>ts_kind = TargetLocal, ts_commit_expression = [], ts_parent_expression = [],
                  ts_base_branch = []\<rparr> in
      \<lparr>se_id = ''s'', se_repository_id = ''r'', se_target_spec = spec,
       se_target =
         \<lparr>rt_spec = spec, rt_generation = 1, rt_base = empty,
          rt_head = \<lparr>sr_kind = SnapshotWorkingTree, sr_object_id = [], sr_worktree_id = ''w'',
                     sr_fingerprint = ''f''\<rparr>,
          rt_resolved_commit = [], rt_resolved_parent = [], rt_parent_label = [],
          rt_resolved_base_ref = [], rt_merge_base = [], rt_base_branch_source = [],
          rt_branch_ref = [], rt_base_branch_ref = [], rt_dirty_worktree = False,
          rt_no_fetch_warning = False, rt_editable = False, rt_edit_destination = None,
          rt_fingerprint = [], rt_resolved_at = 1\<rparr>,
       se_created_at = 1, se_updated_at = 2, se_closed_at = None\<rparr>)"

lemma sample_session_valid: "session_valid sample_session"
proof -
  have "required_text ''f''" "optional_text []" by code_simp+
  then show ?thesis
    by (simp add: sample_session_def session_valid_def resolved_target_valid_def resolved_target_shape_def
        target_spec_valid_def snapshot_ref_valid_def valid_review_id_def time_defs Let_def)
qed

lemma session_closing_witness: "closed_now (run_ops session_step [3, 3, 5] sample_session)"
  using session_closing [OF sample_session_valid, of "[3, 3, 5]"]
  by (simp add: sample_session_def Let_def time_defs)

end
