(* ===== verification/Proposal_States.thy ===== *)
theory Proposal_States
  imports Review_Domain
begin

text \<open>
  The four state machines of \<^verbatim>\<open>internal/domain/review/proposal_state.go\<close> and the small enumerations
  beside them. Each machine is the source's table of allowed moves; a locale states what the tables
  promise, and the histories of a machine are the sequences of states its table allows.
\<close>

subsection \<open>Histories of a state machine\<close>

inductive history :: "('s \<Rightarrow> 's \<Rightarrow> bool) \<Rightarrow> 's \<Rightarrow> 's list \<Rightarrow> 's \<Rightarrow> bool" for can where
  history_here: "history can s [] s"
| history_step: "can s t \<Longrightarrow> history can t ts u \<Longrightarrow> history can s (t # ts) u"

inductive_simps history_Nil [simp]: "history can s [] t"
inductive_simps history_Cons [simp]: "history can s (t # ts) u"
inductive_cases history_elim: "history can s ts u"

lemma history_last: "history can s ts u \<Longrightarrow> u = (if ts = [] then s else last ts)"
  by (induction rule: history.induct) auto

locale state_machine =
  fixes known :: "'s \<Rightarrow> bool" and final :: "'s \<Rightarrow> bool" and can :: "'s \<Rightarrow> 's \<Rightarrow> bool"
  assumes can_known: "known s \<Longrightarrow> can s t \<Longrightarrow> known t"
    and final_stays: "final s \<Longrightarrow> can s t \<Longrightarrow> t = s"
    and can_finish: "known s \<Longrightarrow> \<exists>ts u. history can s ts u \<and> final u"
begin

lemma history_known: "history can s ts u \<Longrightarrow> known s \<Longrightarrow> known u \<and> list_all known ts"
  by (induction rule: history.induct) (auto dest: can_known)

lemma history_final: "history can s ts u \<Longrightarrow> final s \<Longrightarrow> u = s \<and> set ts \<subseteq> {s}"
  by (induction rule: history.induct) (auto dest: final_stays)

text \<open>A region that can only be left through a gate keeps every history inside, up to a gate.\<close>

lemma history_gate:
  assumes "history can s ts u" "s \<in> region" "u \<notin> region"
    and "\<And>x y. x \<in> region \<Longrightarrow> can x y \<Longrightarrow> y \<in> region \<or> y \<in> gate"
  shows "\<exists>g\<in>gate. g \<in> set ts"
  using assms
proof (induction rule: history.induct)
  case (history_step s t ts u)
  then show ?case by (cases "t \<in> region") auto
qed simp

lemma history_closed:
  assumes "history can s ts u" "s \<in> region"
    and "\<And>x y. x \<in> region \<Longrightarrow> can x y \<Longrightarrow> y \<in> region"
  shows "u \<in> region \<and> set ts \<subseteq> region"
  using assms(1,2)
proof (induction rule: history.induct)
  case (history_step s t ts u)
  then show ?case using assms(3) by auto
qed simp

end

subsection \<open>Workspaces\<close>

datatype workspace_state =
    WorkspaceCreating | WorkspaceReady | WorkspaceTurnRunning | WorkspaceResultReady
  | WorkspaceResetting | WorkspaceRepairRequired | WorkspaceRemoved | WorkspaceOther bytes

definition workspace_state_valid :: "workspace_state \<Rightarrow> bool" where
  "workspace_state_valid s \<longleftrightarrow> (case s of WorkspaceOther _ \<Rightarrow> False | _ \<Rightarrow> True)"

definition workspace_can :: "workspace_state \<Rightarrow> workspace_state \<Rightarrow> bool" where
  "workspace_can s next_state \<longleftrightarrow>
     (if s = next_state then s \<noteq> WorkspaceRemoved
      else
        (case s of
           WorkspaceCreating \<Rightarrow>
             next_state \<in> {WorkspaceReady, WorkspaceRepairRequired, WorkspaceRemoved}
         | WorkspaceReady \<Rightarrow>
             next_state \<in> {WorkspaceTurnRunning, WorkspaceResetting, WorkspaceRepairRequired,
                           WorkspaceRemoved}
         | WorkspaceTurnRunning \<Rightarrow>
             next_state \<in> {WorkspaceResultReady, WorkspaceResetting, WorkspaceRepairRequired}
         | WorkspaceResultReady \<Rightarrow>
             next_state \<in> {WorkspaceReady, WorkspaceResetting, WorkspaceRepairRequired}
         | WorkspaceResetting \<Rightarrow>
             next_state \<in> {WorkspaceReady, WorkspaceRepairRequired, WorkspaceRemoved}
         | WorkspaceRepairRequired \<Rightarrow> next_state \<in> {WorkspaceResetting, WorkspaceRemoved}
         | WorkspaceRemoved \<Rightarrow> False
         | WorkspaceOther _ \<Rightarrow> False))"

lemma workspace_can_finish:
  assumes "workspace_state_valid s"
  shows "\<exists>ts. history workspace_can s ts WorkspaceRemoved"
proof -
  have "history workspace_can s
      (case s of WorkspaceRemoved \<Rightarrow> [] | WorkspaceTurnRunning \<Rightarrow> [WorkspaceResetting, WorkspaceRemoved]
       | WorkspaceResultReady \<Rightarrow> [WorkspaceResetting, WorkspaceRemoved] | _ \<Rightarrow> [WorkspaceRemoved])
      WorkspaceRemoved"
    using assms by (cases s) (simp_all add: workspace_can_def workspace_state_valid_def)
  then show ?thesis by blast
qed

interpretation workspaces:
  state_machine workspace_state_valid "\<lambda>s. s = WorkspaceRemoved" workspace_can
proof unfold_locales
  show "workspace_state_valid t" if "workspace_state_valid s" "workspace_can s t" for s t
    using that by (cases s) (auto simp: workspace_can_def workspace_state_valid_def split: if_splits)
qed (auto simp: workspace_can_def workspace_can_finish split: if_splits)

text \<open>
  A removed workspace admits no transition at all, every other workspace can still be removed,
  and no workspace is removed under a running turn: between a running turn and the removal it has
  been reset, has been marked for repair, or has become ready again with its result accounted for.
\<close>

theorem workspace_lifecycle:
  "\<not> workspace_can WorkspaceRemoved t
   \<and> (workspace_state_valid s \<longrightarrow> (\<exists>ts. history workspace_can s ts WorkspaceRemoved))
   \<and> (history workspace_can WorkspaceTurnRunning ts WorkspaceRemoved \<longrightarrow>
        WorkspaceResetting \<in> set ts \<or> WorkspaceRepairRequired \<in> set ts
        \<or> WorkspaceResultReady \<in> set ts \<and> WorkspaceReady \<in> set ts)"
proof (intro conjI impI)
  show "\<not> workspace_can WorkspaceRemoved t" by (simp add: workspace_can_def)
  show "\<exists>ts. history workspace_can s ts WorkspaceRemoved" if "workspace_state_valid s"
    using workspace_can_finish [OF that] by blast
next
  assume run: "history workspace_can WorkspaceTurnRunning ts WorkspaceRemoved"
  have "\<exists>g\<in>{WorkspaceResetting, WorkspaceRepairRequired, WorkspaceResultReady}. g \<in> set ts"
    by (rule workspaces.history_gate [OF run, of "{WorkspaceTurnRunning}"])
      (auto simp: workspace_can_def split: if_splits)
  moreover have "\<exists>g\<in>{WorkspaceResetting, WorkspaceRepairRequired, WorkspaceReady}. g \<in> set ts"
    by (rule workspaces.history_gate [OF run, of "{WorkspaceTurnRunning, WorkspaceResultReady}"])
      (auto simp: workspace_can_def split: if_splits)
  ultimately show "WorkspaceResetting \<in> set ts \<or> WorkspaceRepairRequired \<in> set ts
      \<or> WorkspaceResultReady \<in> set ts \<and> WorkspaceReady \<in> set ts" by auto
qed

lemma workspace_lifecycle_witness:
  "\<exists>ts. history workspace_can WorkspaceTurnRunning ts WorkspaceRemoved
    \<and> (WorkspaceResetting \<in> set ts \<or> WorkspaceRepairRequired \<in> set ts
        \<or> WorkspaceResultReady \<in> set ts \<and> WorkspaceReady \<in> set ts)"
proof -
  have "history workspace_can WorkspaceTurnRunning
      [WorkspaceResultReady, WorkspaceReady, WorkspaceRemoved] WorkspaceRemoved"
    by (simp add: workspace_can_def)
  with workspace_lifecycle show ?thesis by blast
qed

subsection \<open>Proposal versions\<close>

datatype proposal_status =
    ProposalVersionDeriving | ProposalVersionReady | ProposalVersionStale | ProposalVersionRejected
  | ProposalVersionApplying | ProposalVersionApplied | ProposalVersionFailed
  | ProposalStatusOther bytes

definition proposal_status_valid :: "proposal_status \<Rightarrow> bool" where
  "proposal_status_valid s \<longleftrightarrow> (case s of ProposalStatusOther _ \<Rightarrow> False | _ \<Rightarrow> True)"

definition proposal_can :: "proposal_status \<Rightarrow> proposal_status \<Rightarrow> bool" where
  "proposal_can s next_status \<longleftrightarrow>
     (if s = next_status then s = ProposalVersionDeriving \<or> s = ProposalVersionFailed
      else
        (case s of
           ProposalVersionDeriving \<Rightarrow>
             next_status \<in> {ProposalVersionReady, ProposalVersionStale, ProposalVersionRejected,
                            ProposalVersionFailed}
         | ProposalVersionReady \<Rightarrow>
             next_status \<in> {ProposalVersionStale, ProposalVersionRejected, ProposalVersionApplying}
         | ProposalVersionStale \<Rightarrow> next_status = ProposalVersionRejected
         | ProposalVersionApplying \<Rightarrow>
             next_status \<in> {ProposalVersionApplied, ProposalVersionFailed, ProposalVersionStale}
         | ProposalVersionFailed \<Rightarrow> next_status = ProposalVersionDeriving
         | ProposalVersionRejected \<Rightarrow> False
         | ProposalVersionApplied \<Rightarrow> False
         | ProposalStatusOther _ \<Rightarrow> False))"

lemma proposal_can_finish:
  assumes "proposal_status_valid s"
  shows "\<exists>ts u. history proposal_can s ts u \<and> (u = ProposalVersionRejected \<or> u = ProposalVersionApplied)"
proof -
  have "history proposal_can s
      (case s of ProposalVersionRejected \<Rightarrow> [] | ProposalVersionApplied \<Rightarrow> []
       | ProposalVersionApplying \<Rightarrow> [ProposalVersionApplied]
       | ProposalVersionFailed \<Rightarrow> [ProposalVersionDeriving, ProposalVersionRejected]
       | _ \<Rightarrow> [ProposalVersionRejected])
      (if s = ProposalVersionApplying \<or> s = ProposalVersionApplied then ProposalVersionApplied
       else ProposalVersionRejected)"
    using assms by (cases s) (simp_all add: proposal_can_def proposal_status_valid_def)
  then show ?thesis by (intro exI conjI) (assumption, simp)
qed

interpretation proposals:
  state_machine proposal_status_valid "\<lambda>s. s = ProposalVersionRejected \<or> s = ProposalVersionApplied"
    proposal_can
proof unfold_locales
  show "proposal_status_valid t" if "proposal_status_valid s" "proposal_can s t" for s t
    using that by (cases s) (auto simp: proposal_can_def proposal_status_valid_def split: if_splits)
qed (auto simp: proposal_can_def proposal_can_finish split: if_splits)

lemma applied_from:
  "proposal_can x ProposalVersionApplied \<Longrightarrow> x = ProposalVersionApplying"
  "proposal_can x ProposalVersionApplying \<Longrightarrow> x = ProposalVersionReady"
  by (cases x; simp add: proposal_can_def)+

text \<open>
  C40. A proposal version is only ever applied out of the applying state, and that is only entered
  from ready; a stale version is never applied, it can only be rejected; rejected and applied are
  final; and every version can still be brought to one of the two.
\<close>

theorem proposal_lifecycle:
  "(history proposal_can s ts ProposalVersionApplied
      \<and> s \<notin> {ProposalVersionApplied, ProposalVersionApplying} \<longrightarrow>
      ProposalVersionApplying \<in> set ts \<and> (s = ProposalVersionReady \<or> ProposalVersionReady \<in> set ts))
   \<and> (history proposal_can ProposalVersionStale ts u \<longrightarrow> u = ProposalVersionStale \<or> u = ProposalVersionRejected)
   \<and> (s = ProposalVersionApplied \<or> s = ProposalVersionRejected \<longrightarrow> \<not> proposal_can s u)
   \<and> (proposal_status_valid s \<longrightarrow>
        (\<exists>ts u. history proposal_can s ts u \<and> (u = ProposalVersionRejected \<or> u = ProposalVersionApplied)))"
proof (intro conjI impI)
  assume *: "history proposal_can s ts ProposalVersionApplied
    \<and> s \<notin> {ProposalVersionApplied, ProposalVersionApplying}"
  then have "\<exists>g\<in>{ProposalVersionApplying}. g \<in> set ts"
    by (intro proposals.history_gate [of s ts ProposalVersionApplied "- {ProposalVersionApplied, ProposalVersionApplying}"])
      (auto dest: applied_from)
  moreover have "\<exists>g\<in>{ProposalVersionReady}. g \<in> set ts" if "s \<noteq> ProposalVersionReady"
    using * that
    by (intro proposals.history_gate [of s ts ProposalVersionApplied
        "- {ProposalVersionApplied, ProposalVersionApplying, ProposalVersionReady}"])
      (auto dest: applied_from)
  ultimately show "ProposalVersionApplying \<in> set ts"
    and "s = ProposalVersionReady \<or> ProposalVersionReady \<in> set ts" by auto
next
  assume "history proposal_can ProposalVersionStale ts u"
  then have "u \<in> {ProposalVersionStale, ProposalVersionRejected} \<and> set ts \<subseteq> {ProposalVersionStale, ProposalVersionRejected}"
    by (rule proposals.history_closed) (auto simp: proposal_can_def split: if_splits)
  then show "u = ProposalVersionStale \<or> u = ProposalVersionRejected" by simp
next
  show "\<not> proposal_can s u" if "s = ProposalVersionApplied \<or> s = ProposalVersionRejected"
    using that by (auto simp: proposal_can_def)
qed (rule proposal_can_finish)

lemma proposal_lifecycle_witness:
  "\<exists>ts. history proposal_can ProposalVersionFailed ts ProposalVersionApplied
    \<and> ProposalVersionApplying \<in> set ts \<and> ProposalVersionReady \<in> set ts"
proof -
  have "history proposal_can ProposalVersionFailed
      [ProposalVersionDeriving, ProposalVersionReady, ProposalVersionApplying, ProposalVersionApplied]
      ProposalVersionApplied"
    by (simp add: proposal_can_def)
  with proposal_lifecycle [of ProposalVersionFailed] show ?thesis by blast
qed

subsection \<open>Attempts and their results\<close>

datatype attempt_outcome =
    ProposalAttemptDeriving | ProposalAttemptVersionPublished | ProposalAttemptNoChangesResetting
  | ProposalAttemptNoChanges | ProposalAttemptFailed | ProposalAttemptOther bytes

definition attempt_outcome_valid :: "attempt_outcome \<Rightarrow> bool" where
  "attempt_outcome_valid s \<longleftrightarrow> (case s of ProposalAttemptOther _ \<Rightarrow> False | _ \<Rightarrow> True)"

definition attempt_can :: "attempt_outcome \<Rightarrow> attempt_outcome \<Rightarrow> bool" where
  "attempt_can o1 o2 \<longleftrightarrow>
     (if o1 = o2 then o1 = ProposalAttemptDeriving \<or> o1 = ProposalAttemptNoChangesResetting
      else
        (case o1 of
           ProposalAttemptDeriving \<Rightarrow>
             o2 \<in> {ProposalAttemptVersionPublished, ProposalAttemptNoChangesResetting,
                    ProposalAttemptFailed}
         | ProposalAttemptNoChangesResetting \<Rightarrow>
             o2 \<in> {ProposalAttemptNoChanges, ProposalAttemptFailed}
         | ProposalAttemptVersionPublished \<Rightarrow> False
         | ProposalAttemptNoChanges \<Rightarrow> False
         | ProposalAttemptFailed \<Rightarrow> False
         | ProposalAttemptOther _ \<Rightarrow> False))"

datatype result_disposition =
    ProposalResultNone | ProposalResultPresent | ProposalResultDiscarding | ProposalResultDiscarded
  | ProposalResultOther bytes

definition result_disposition_valid :: "result_disposition \<Rightarrow> bool" where
  "result_disposition_valid s \<longleftrightarrow> (case s of ProposalResultOther _ \<Rightarrow> False | _ \<Rightarrow> True)"

definition disposition_can :: "result_disposition \<Rightarrow> result_disposition \<Rightarrow> bool" where
  "disposition_can d1 d2 \<longleftrightarrow>
     (if d1 = d2 then d1 = ProposalResultDiscarding \<or> d1 = ProposalResultDiscarded
      else d1 = ProposalResultPresent \<and> d2 = ProposalResultDiscarding
        \<or> d1 = ProposalResultDiscarding \<and> d2 = ProposalResultDiscarded)"

definition attempt_final :: "attempt_outcome \<Rightarrow> bool" where
  "attempt_final s \<longleftrightarrow>
     s \<in> {ProposalAttemptVersionPublished, ProposalAttemptNoChanges, ProposalAttemptFailed}"

interpretation attempts: state_machine attempt_outcome_valid attempt_final attempt_can
proof unfold_locales
  show "attempt_outcome_valid t" if "attempt_outcome_valid s" "attempt_can s t" for s t
    using that by (cases s) (auto simp: attempt_can_def attempt_outcome_valid_def split: if_splits)
  show "\<exists>ts u. history attempt_can s ts u \<and> attempt_final u" if known: "attempt_outcome_valid s" for s
  proof (cases "attempt_final s")
    case True
    then show ?thesis using history_here by metis
  next
    case False
    with known have "history attempt_can s [ProposalAttemptFailed] ProposalAttemptFailed"
      by (cases s) (simp_all add: attempt_can_def attempt_final_def attempt_outcome_valid_def)
    then show ?thesis using attempt_final_def by blast
  qed
qed (auto simp: attempt_can_def attempt_final_def split: if_splits)

definition disposition_final :: "result_disposition \<Rightarrow> bool" where
  "disposition_final s \<longleftrightarrow> s = ProposalResultNone \<or> s = ProposalResultDiscarded"

interpretation dispositions: state_machine result_disposition_valid disposition_final disposition_can
proof unfold_locales
  show "result_disposition_valid t" if "result_disposition_valid s" "disposition_can s t" for s t
    using that by (auto simp: disposition_can_def result_disposition_valid_def split: if_splits)
  show "\<exists>ts u. history disposition_can s ts u \<and> disposition_final u" if known: "result_disposition_valid s" for s
  proof -
    have "history disposition_can s
        (case s of ProposalResultPresent \<Rightarrow> [ProposalResultDiscarding, ProposalResultDiscarded]
         | ProposalResultDiscarding \<Rightarrow> [ProposalResultDiscarded] | _ \<Rightarrow> [])
        (if s = ProposalResultNone then ProposalResultNone else ProposalResultDiscarded)"
      using known by (cases s) (simp_all add: disposition_can_def result_disposition_valid_def)
    then show ?thesis by (intro exI conjI) (assumption, simp add: disposition_final_def)
  qed
qed (auto simp: disposition_can_def disposition_final_def split: if_splits)

lemma no_changes_from: "attempt_can x ProposalAttemptNoChanges \<Longrightarrow> x = ProposalAttemptNoChangesResetting"
  by (cases x) (simp_all add: attempt_can_def)

text \<open>
  An attempt reports that nothing changed only after its result was reset, its published, empty
  and failed outcomes admit no transition, and every attempt can still reach one of them; a result
  that is being discarded is discarded next and never becomes present again.
\<close>

theorem attempt_lifecycle:
  "(history attempt_can ProposalAttemptDeriving ts ProposalAttemptNoChanges \<longrightarrow>
      ProposalAttemptNoChangesResetting \<in> set ts)
   \<and> (attempt_final s \<longrightarrow> \<not> attempt_can s t)
   \<and> (attempt_outcome_valid s \<longrightarrow> (\<exists>ts u. history attempt_can s ts u \<and> attempt_final u))
   \<and> (history disposition_can ProposalResultDiscarding ds d \<longrightarrow>
      d = ProposalResultDiscarding \<or> d = ProposalResultDiscarded)"
proof (intro conjI impI)
  assume "history attempt_can ProposalAttemptDeriving ts ProposalAttemptNoChanges"
  then have "\<exists>g\<in>{ProposalAttemptNoChangesResetting}. g \<in> set ts"
    by (rule attempts.history_gate
        [of _ _ _ "- {ProposalAttemptNoChanges, ProposalAttemptNoChangesResetting}"])
      (auto dest: no_changes_from)
  then show "ProposalAttemptNoChangesResetting \<in> set ts" by simp
next
  show "\<not> attempt_can s t" if "attempt_final s"
    using that by (auto simp: attempt_can_def attempt_final_def)
next
  assume "history disposition_can ProposalResultDiscarding ds d"
  then have "d \<in> {ProposalResultDiscarding, ProposalResultDiscarded}
      \<and> set ds \<subseteq> {ProposalResultDiscarding, ProposalResultDiscarded}"
    by (rule dispositions.history_closed) (auto simp: disposition_can_def split: if_splits)
  then show "d = ProposalResultDiscarding \<or> d = ProposalResultDiscarded" by simp
qed (rule attempts.can_finish)

lemma attempt_lifecycle_witness:
  "\<exists>ts. history attempt_can ProposalAttemptDeriving ts ProposalAttemptNoChanges
    \<and> ProposalAttemptNoChangesResetting \<in> set ts"
proof -
  have "history attempt_can ProposalAttemptDeriving
      [ProposalAttemptNoChangesResetting, ProposalAttemptNoChanges] ProposalAttemptNoChanges"
    by (simp add: attempt_can_def)
  with attempt_lifecycle show ?thesis by blast
qed

subsection \<open>Reasons, phases and scope\<close>

datatype stale_reason =
    StaleReasonValid | StaleReasonPathPreconditionChanged | StaleReasonDestinationKindChanged
  | StaleReasonDestinationChanged | StaleReasonTargetHeadChanged | StaleReasonTargetGenerationChanged
  | StaleReasonProposalSuperseded | StaleReasonProposalApplied | StaleReasonWorkspaceBaselineMismatch
  | StaleReasonIsolationLost | StaleReasonUnsupportedCapability | StaleReasonAnchorNeedsConfirmation
  | StaleReasonOther bytes

definition stale_reason_valid :: "stale_reason \<Rightarrow> bool" where
  "stale_reason_valid r \<longleftrightarrow> (case r of StaleReasonOther _ \<Rightarrow> False | _ \<Rightarrow> True)"

definition is_stale :: "stale_reason \<Rightarrow> bool" where
  "is_stale r \<longleftrightarrow> r \<noteq> StaleReasonValid"

datatype proposal_failure_phase =
    ProposalFailureNone | ProposalFailureValidation | ProposalFailureWorkspace
  | ProposalFailureProvider | ProposalFailureReset | ProposalFailureDerivation
  | ProposalFailurePersistence | ProposalFailurePatch | ProposalFailureDestination
  | ProposalFailureOther bytes

definition proposal_failure_phase_valid :: "proposal_failure_phase \<Rightarrow> bool" where
  "proposal_failure_phase_valid p \<longleftrightarrow> (case p of ProposalFailureOther _ \<Rightarrow> False | _ \<Rightarrow> True)"

datatype proposal_scope = ProposalScopeFocused | ProposalScopeBroader | ProposalScopeOther bytes

definition proposal_scope_valid :: "proposal_scope \<Rightarrow> bool" where
  "proposal_scope_valid s \<longleftrightarrow> s = ProposalScopeFocused \<or> s = ProposalScopeBroader"

end
