(* ===== verification/Proposals.thy ===== *)
theory Proposals
  imports Proposal_States Changes "HOL-Library.Multiset"
begin

text \<open>
  Proposals (\<^verbatim>\<open>internal/domain/review/proposal.go\<close>): the confirmed intent, the isolated workspace,
  attempts, the immutable versions with their files, and the aggregate that is loaded for one
  lineage.
\<close>

subsection \<open>Limits and small validators\<close>

definition MaxProposalSummaryBytes :: nat where "MaxProposalSummaryBytes = 64 * 1024"
definition MaxProposalExpectedPaths :: nat where "MaxProposalExpectedPaths = 5000"
definition MaxProposalExpectedPathBytes :: nat where "MaxProposalExpectedPathBytes = 16 * 1024"
definition MaxProposalExpectedPathTotalBytes :: nat where "MaxProposalExpectedPathTotalBytes = 512 * 1024"
definition MaxProposalFiles :: nat where "MaxProposalFiles = 5000"

datatype proposal_error =
    ErrInvalidProposal | ErrInvalidProposalTransition | ErrProposalImmutable | ErrProposalConflict

definition valid_sha256_text :: "bytes \<Rightarrow> bool" where
  "valid_sha256_text v \<longleftrightarrow> \<not> (length v \<noteq> 64 \<or> \<not> utf8_valid v) \<and> hex_decode v \<noteq> None"

definition equal_hex_digest :: "bytes \<Rightarrow> bytes \<Rightarrow> bool" where
  "equal_hex_digest v digest \<longleftrightarrow>
     (case hex_decode v of
        None \<Rightarrow> False
      | Some decoded \<Rightarrow> length decoded = length digest \<and> decoded = digest)"

text \<open>A pointer that must not point to an empty identity, or to version zero.\<close>

abbreviation present_id :: "bytes option \<Rightarrow> bool" where
  "present_id i \<equiv> i \<noteq> Some []"

type_synonym version_number = nat

subsection \<open>Provenance and intent\<close>

record generation_provenance =
  gp_session_id :: review_session_id
  gp_generation :: nat
  gp_capture_id :: "capture_id option"
  gp_base :: snapshot_ref
  gp_head :: snapshot_ref

definition provenance_valid :: "generation_provenance \<Rightarrow> bool" where
  "provenance_valid p \<longleftrightarrow>
     gp_session_id p \<noteq> [] \<and> gp_generation p \<noteq> 0 \<and> snapshot_ref_valid (gp_base p)
     \<and> snapshot_ref_valid (gp_head p) \<and> present_id (gp_capture_id p)
     \<and> \<not> (sr_kind (gp_head p) = SnapshotWorkingTree \<and> gp_capture_id p = None)"

record proposal_intent =
  pi_id :: proposal_id
  pi_thread_id :: review_thread_id
  pi_summary :: bytes
  pi_expected_paths :: "repo_path list"
  pi_anchor_version_id :: nat
  pi_confirmed_against :: generation_provenance
  pi_confirmed_at :: instant

text \<open>The loop over the paths, with the bytes so far, the keys seen and the previous key.\<close>

fun intent_paths_ok :: "nat \<Rightarrow> repo_path_key set \<Rightarrow> repo_path_key option \<Rightarrow> repo_path list \<Rightarrow> bool" where
  "intent_paths_ok total_bytes seen previous [] = True"
| "intent_paths_ok total_bytes seen previous (p # ps) =
     (if \<not> valid_repo_path p \<or> length p > MaxProposalExpectedPathBytes then False
      else if total_bytes + length p > MaxProposalExpectedPathTotalBytes then False
      else if path_key p \<in> seen \<or> \<not> opt_all (\<lambda>q. q < path_key p) previous then False
      else intent_paths_ok (total_bytes + length p) (insert (path_key p) seen) (Some (path_key p)) ps)"

definition intent_valid :: "proposal_intent \<Rightarrow> bool" where
  "intent_valid i \<longleftrightarrow>
     pi_id i \<noteq> [] \<and> pi_thread_id i \<noteq> [] \<and> pi_summary i \<noteq> [] \<and> utf8_valid (pi_summary i)
     \<and> \<not> length (pi_summary i) > MaxProposalSummaryBytes \<and> pi_anchor_version_id i \<noteq> 0
     \<and> \<not> is_zero_time (pi_confirmed_at i)
     \<and> provenance_valid (pi_confirmed_against i)
     \<and> \<not> length (pi_expected_paths i) > MaxProposalExpectedPaths
     \<and> intent_paths_ok 0 {} None (pi_expected_paths i)"

definition new_proposal_intent :: "proposal_intent \<Rightarrow> (proposal_error, proposal_intent) result" where
  "new_proposal_intent i = (if intent_valid i then Inr i else Inl ErrInvalidProposal)"

definition sort_proposal_paths :: "repo_path list \<Rightarrow> repo_path list" where
  "sort_proposal_paths ps = sort_key path_key ps"

text \<open>The set of the loop is redundant: strictly increasing keys never repeat.\<close>

lemma intent_paths_spec:
  assumes "opt_all (\<lambda>q. \<forall>k\<in>seen. k \<le> q) previous" "previous = None \<Longrightarrow> seen = {}"
    "b \<le> MaxProposalExpectedPathTotalBytes"
  shows "intent_paths_ok b seen previous ps \<longleftrightarrow>
    list_all (\<lambda>p. valid_repo_path p \<and> length p \<le> MaxProposalExpectedPathBytes) ps
    \<and> sorted_wrt (<) (map path_key ps) \<and> opt_all (\<lambda>q. \<forall>p\<in>set ps. q < path_key p) previous
    \<and> b + sum_list (map length ps) \<le> MaxProposalExpectedPathTotalBytes"
  using assms
proof (induction ps arbitrary: b seen previous)
  case (Cons p ps)
  have fresh: "path_key p \<notin> seen" if "opt_all (\<lambda>q. q < path_key p) previous"
    using that Cons.prems(1,2) by (cases previous) auto
  show ?case
  proof (cases "valid_repo_path p \<and> length p \<le> MaxProposalExpectedPathBytes
      \<and> b + length p \<le> MaxProposalExpectedPathTotalBytes \<and> opt_all (\<lambda>q. q < path_key p) previous")
    case True
    then have upper: "opt_all (\<lambda>q. \<forall>k\<in>insert (path_key p) seen. k \<le> q) (Some (path_key p))"
      using Cons.prems(1,2) by (cases previous) (auto intro: order.strict_implies_order le_less_trans)
    have rest: "intent_paths_ok b seen previous (p # ps) \<longleftrightarrow>
        intent_paths_ok (b + length p) (insert (path_key p) seen) (Some (path_key p)) ps"
      using True fresh by simp
    have below: "(\<forall>x\<in>set ps. path_key p < path_key x) \<Longrightarrow> q < path_key p \<Longrightarrow>
        \<forall>x\<in>set ps. q < path_key x" for q
      by (meson less_trans)
    have step: "intent_paths_ok (b + length p) (insert (path_key p) seen) (Some (path_key p)) ps \<longleftrightarrow>
        list_all (\<lambda>p. valid_repo_path p \<and> length p \<le> MaxProposalExpectedPathBytes) ps
        \<and> sorted_wrt (<) (map path_key ps) \<and> opt_all (\<lambda>q. \<forall>p\<in>set ps. q < path_key p) (Some (path_key p))
        \<and> b + length p + sum_list (map length ps) \<le> MaxProposalExpectedPathTotalBytes"
      using True by (intro Cons.IH upper) simp_all
    show ?thesis unfolding rest step
      using True below by (cases previous) (auto simp: add.assoc)
  next
    case False
    then show ?thesis using fresh by (cases previous) auto
  qed
qed (simp add: opt_all_iff)

text \<open>
  An intent's list of expected paths is accepted exactly when it has at most five thousand valid
  paths of at most 16 KiB each and 512 KiB together, in strictly increasing byte order (so without a
  duplicate); and sorting a draft without duplicates within these bounds makes it acceptable.
\<close>

theorem intent_paths_correct:
  "(intent_paths_ok 0 {} None ps \<longleftrightarrow>
      list_all (\<lambda>p. valid_repo_path p \<and> length p \<le> MaxProposalExpectedPathBytes) ps
      \<and> sorted_wrt (<) (map path_key ps)
      \<and> sum_list (map length ps) \<le> MaxProposalExpectedPathTotalBytes)
   \<and> (distinct ps \<and> list_all (\<lambda>p. valid_repo_path p \<and> length p \<le> MaxProposalExpectedPathBytes) ps
      \<and> sum_list (map length ps) \<le> MaxProposalExpectedPathTotalBytes \<longrightarrow>
      intent_paths_ok 0 {} None (sort_proposal_paths ps))"
proof -
  have spec: "intent_paths_ok 0 {} None qs \<longleftrightarrow>
      list_all (\<lambda>p. valid_repo_path p \<and> length p \<le> MaxProposalExpectedPathBytes) qs
      \<and> sorted_wrt (<) (map path_key qs) \<and> sum_list (map length qs) \<le> MaxProposalExpectedPathTotalBytes"
    for qs using intent_paths_spec [of "{}" None 0 qs] by simp
  have id: "path_key = (\<lambda>p. p)" by (simp add: path_key_def fun_eq_iff)
  have "sum_list (map length (sort_proposal_paths ps)) = sum_list (map length ps)"
    by (metis mset_map mset_sort sort_proposal_paths_def sum_mset_sum_list)
  moreover have "sorted_wrt (<) (map path_key (sort_proposal_paths ps))" if "distinct ps"
    using that by (simp add: sort_proposal_paths_def id strict_sorted_iff)
  moreover have "set (sort_proposal_paths ps) = set ps" by (simp add: sort_proposal_paths_def)
  ultimately show ?thesis using spec by (auto simp: list_all_iff)
qed

lemma intent_paths_correct_witness:
  "intent_paths_ok 0 {} None (sort_proposal_paths [''b'', ''a''])
    \<and> \<not> intent_paths_ok 0 {} None [''b'', ''a'']"
proof -
  have bytes: "valid_repo_path ''a''" "valid_repo_path ''b''"
    by (simp_all add: valid_repo_path_def ctl_iff)
  have "\<not> intent_paths_ok 0 {} None [''b'', ''a'']"
    using intent_paths_correct [of "[''b'', ''a'']"] by (simp add: path_key_def less_char_def)
  then show ?thesis
    using intent_paths_correct [of "[''b'', ''a'']"] bytes
    by (simp add: MaxProposalExpectedPathBytes_def MaxProposalExpectedPathTotalBytes_def)
qed

subsection \<open>Workspaces\<close>

record snapshot_identity =
  sn_id :: review_snapshot_id
  sn_ref :: snapshot_ref
  sn_manifest_hash :: bytes

definition snapshot_identity_valid :: "snapshot_identity \<Rightarrow> bool" where
  "snapshot_identity_valid s \<longleftrightarrow>
     sn_id s \<noteq> [] \<and> snapshot_ref_valid (sn_ref s) \<and> valid_sha256_text (sn_manifest_hash s)"

record workspace_roots =
  wr_baseline :: bytes
  wr_admin :: bytes
  wr_result :: bytes
  wr_destination :: bytes

definition workspace_roots_valid :: "bool \<Rightarrow> workspace_roots \<Rightarrow> bool" where
  "workspace_roots_valid required r \<longleftrightarrow>
     list_all (\<lambda>v. \<not> (v = [] \<and> required \<or> v \<noteq> [] \<and> \<not> utf8_valid v))
       [wr_baseline r, wr_admin r, wr_result r, wr_destination r]"

record proposal_workspace =
  pw_id :: workspace_id
  pw_repository_id :: repository_id
  pw_worktree_id :: worktree_id
  pw_session_id :: review_session_id
  pw_source_thread_id :: review_thread_id
  pw_source_generation :: generation_provenance
  pw_roots :: workspace_roots
  pw_policy_version :: nat
  pw_state :: workspace_state
  pw_created_at :: instant
  pw_updated_at :: instant

definition workspace_valid :: "proposal_workspace \<Rightarrow> bool" where
  "workspace_valid w \<longleftrightarrow>
     pw_id w \<noteq> [] \<and> pw_repository_id w \<noteq> [] \<and> pw_worktree_id w \<noteq> [] \<and> pw_session_id w \<noteq> []
     \<and> pw_source_thread_id w \<noteq> [] \<and> pw_policy_version w \<noteq> 0 \<and> \<not> is_zero_time (pw_created_at w)
     \<and> \<not> is_zero_time (pw_updated_at w) \<and> \<not> before (pw_updated_at w) (pw_created_at w)
     \<and> provenance_valid (pw_source_generation w)
     \<and> gp_session_id (pw_source_generation w) = pw_session_id w
     \<and> workspace_state_valid (pw_state w)
     \<and> workspace_roots_valid (pw_state w \<noteq> WorkspaceCreating) (pw_roots w)"

definition workspace_transition ::
    "workspace_state \<Rightarrow> proposal_workspace option \<Rightarrow> (proposal_error, proposal_workspace) result" where
  "workspace_transition next_state receiver =
     (case receiver of
        None \<Rightarrow> Inl ErrInvalidProposalTransition
      | Some w \<Rightarrow>
          if \<not> workspace_valid w \<or> \<not> workspace_state_valid next_state
             \<or> \<not> workspace_can (pw_state w) next_state
          then Inl ErrInvalidProposalTransition
          else Inr (w\<lparr>pw_state := next_state\<rparr>))"

definition sample_provenance :: generation_provenance where
  "sample_provenance =
     (let empty = \<lparr>sr_kind = SnapshotEmpty, sr_object_id = [], sr_worktree_id = [], sr_fingerprint = []\<rparr> in
      \<lparr>gp_session_id = ''s'', gp_generation = 1, gp_capture_id = None, gp_base = empty, gp_head = empty\<rparr>)"

definition sample_workspace :: "workspace_roots \<Rightarrow> workspace_state \<Rightarrow> proposal_workspace" where
  "sample_workspace roots state =
     \<lparr>pw_id = ''w'', pw_repository_id = ''r'', pw_worktree_id = ''t'', pw_session_id = ''s'',
      pw_source_thread_id = ''h'', pw_source_generation = sample_provenance, pw_roots = roots,
      pw_policy_version = 1, pw_state = state, pw_created_at = 1, pw_updated_at = 1\<rparr>"

lemma sample_provenance_valid: "provenance_valid sample_provenance" "gp_session_id sample_provenance = ''s''"
  by (simp_all add: sample_provenance_def provenance_valid_def snapshot_ref_valid_def Let_def)

lemma sample_workspace_valid:
  "workspace_valid (sample_workspace roots state) \<longleftrightarrow>
     workspace_state_valid state \<and> workspace_roots_valid (state \<noteq> WorkspaceCreating) roots"
  by (simp add: sample_workspace_def workspace_valid_def sample_provenance_valid time_defs)

text \<open>
  A workspace transition is accepted exactly on a valid workspace and along its state machine,
  changes the state alone, and its result is again valid with one exception: a workspace that leaves
  the creating state before all four of its roots are known is accepted but no longer valid.
\<close>

theorem workspace_transition_correct:
  assumes "workspace_transition next_state (Some w) = Inr v"
  shows "workspace_valid w \<and> workspace_can (pw_state w) next_state \<and> v = w\<lparr>pw_state := next_state\<rparr>
    \<and> (workspace_valid v \<longleftrightarrow> next_state = WorkspaceCreating \<or> workspace_roots_valid True (pw_roots w))
    \<and> (pw_state w \<noteq> WorkspaceCreating \<longrightarrow> workspace_valid v)"
proof -
  from assms have w: "workspace_valid w" "workspace_state_valid next_state"
      "workspace_can (pw_state w) next_state" "v = w\<lparr>pw_state := next_state\<rparr>"
    by (auto simp: workspace_transition_def split: if_splits)
  have "pw_state w = WorkspaceCreating" if "next_state = WorkspaceCreating"
    using w(3) that by (cases "pw_state w") (auto simp: workspace_can_def split: if_splits)
  moreover have "workspace_roots_valid True r \<Longrightarrow> workspace_roots_valid q r" for q r
    by (auto simp: workspace_roots_valid_def)
  ultimately show ?thesis using w
    by (cases "next_state = WorkspaceCreating"; cases "pw_state w = WorkspaceCreating")
      (simp_all add: workspace_valid_def)
qed

lemma workspace_transition_correct_witness:
  "\<exists>v. workspace_transition WorkspaceReady
      (Some (sample_workspace \<lparr>wr_baseline = [], wr_admin = [], wr_result = [], wr_destination = []\<rparr>
        WorkspaceCreating)) = Inr v \<and> \<not> workspace_valid v"
proof -
  let ?r = "\<lparr>wr_baseline = [], wr_admin = [], wr_result = [], wr_destination = []\<rparr>"
  let ?w = "sample_workspace ?r WorkspaceCreating"
  have "workspace_valid ?w"
    by (simp add: sample_workspace_valid workspace_state_valid_def workspace_roots_valid_def)
  then have "workspace_transition WorkspaceReady (Some ?w) = Inr (?w\<lparr>pw_state := WorkspaceReady\<rparr>)"
    by (simp add: workspace_transition_def workspace_state_valid_def workspace_can_def sample_workspace_def)
  from workspace_transition_correct [OF this] this show ?thesis
    by (auto simp: sample_workspace_def workspace_roots_valid_def)
qed

subsection \<open>Proposals and attempts\<close>

record proposal =
  pr_id :: proposal_id
  pr_workspace_id :: workspace_id
  pr_thread_id :: review_thread_id
  pr_status :: proposal_status
  pr_current_version :: "version_number option"
  pr_applying_operation_id :: "operation_id option"
  pr_created_at :: instant
  pr_updated_at :: instant

definition proposal_valid :: "proposal \<Rightarrow> bool" where
  "proposal_valid p \<longleftrightarrow>
     pr_id p \<noteq> [] \<and> pr_workspace_id p \<noteq> [] \<and> pr_thread_id p \<noteq> [] \<and> proposal_status_valid (pr_status p)
     \<and> \<not> is_zero_time (pr_created_at p) \<and> \<not> is_zero_time (pr_updated_at p)
     \<and> \<not> before (pr_updated_at p) (pr_created_at p) \<and> pr_current_version p \<noteq> Some 0
     \<and> \<not> (pr_status p = ProposalVersionApplying \<and> pr_applying_operation_id p = None)
     \<and> present_id (pr_applying_operation_id p)"

record proposal_attempt =
  at_id :: operation_id
  at_proposal_id :: proposal_id
  at_workspace_id :: workspace_id
  at_thread_id :: review_thread_id
  at_provider_conversation_id :: "provider_conversation_id option"
  at_provider_turn_id :: "provider_turn_id option"
  at_provider_conversation_ref :: bytes
  at_provider_turn_ref :: bytes
  at_source_generation :: generation_provenance
  at_baseline :: "snapshot_identity option"
  at_result :: "snapshot_identity option"
  at_version_number :: "version_number option"
  at_outcome :: attempt_outcome
  at_result_disposition :: result_disposition
  at_failure_phase :: proposal_failure_phase
  at_reason :: bytes
  at_result_disposition_reason :: bytes
  at_started_at :: instant
  at_finished_at :: "instant option"
  at_result_disposition_changed_at :: "instant option"

definition attempt_valid :: "proposal_attempt \<Rightarrow> bool" where
  "attempt_valid a \<longleftrightarrow>
     at_id a \<noteq> [] \<and> at_proposal_id a \<noteq> [] \<and> at_workspace_id a \<noteq> [] \<and> at_thread_id a \<noteq> []
     \<and> provenance_valid (at_source_generation a) \<and> attempt_outcome_valid (at_outcome a)
     \<and> result_disposition_valid (at_result_disposition a)
     \<and> proposal_failure_phase_valid (at_failure_phase a) \<and> \<not> is_zero_time (at_started_at a)
     \<and> utf8_valid (at_reason a) \<and> utf8_valid (at_result_disposition_reason a)
     \<and> utf8_valid (at_provider_conversation_ref a) \<and> utf8_valid (at_provider_turn_ref a)
     \<and> present_id (at_provider_conversation_id a) \<and> present_id (at_provider_turn_id a)
     \<and> opt_all snapshot_identity_valid (at_baseline a) \<and> opt_all snapshot_identity_valid (at_result a)
     \<and> at_version_number a \<noteq> Some 0
     \<and> opt_all (\<lambda>t. \<not> is_zero_time t \<and> \<not> before t (at_started_at a)) (at_finished_at a)
     \<and> opt_all (\<lambda>t. \<not> is_zero_time t \<and> \<not> before t (at_started_at a))
         (at_result_disposition_changed_at a)
     \<and> \<not> (at_outcome a = ProposalAttemptVersionPublished \<and> at_version_number a = None)
     \<and> \<not> (at_outcome a = ProposalAttemptNoChanges
          \<and> (at_version_number a \<noteq> None \<or> at_provider_turn_id a = None \<or> at_baseline a = None
             \<or> at_result a = None \<or> at_result_disposition a \<noteq> ProposalResultDiscarded))
     \<and> \<not> (at_outcome a = ProposalAttemptDeriving \<and> at_finished_at a \<noteq> None)"

record destination_constraints =
  dc_target_kind :: target_kind
  dc_worktree_id :: worktree_id
  dc_expected_head :: object_id
  dc_expected_fingerprint :: bytes

definition destination_valid :: "destination_constraints \<Rightarrow> bool" where
  "destination_valid d \<longleftrightarrow>
     dc_worktree_id d \<noteq> []
     \<and> (case dc_target_kind d of
          TargetLocal \<Rightarrow>
            dc_expected_head d = [] \<and> dc_expected_fingerprint d \<noteq> []
            \<and> utf8_valid (dc_expected_fingerprint d)
        | TargetOther _ \<Rightarrow> False
        | _ \<Rightarrow>
            dc_expected_head d \<noteq> [] \<and> is_ok (new_object_id (dc_expected_head d))
            \<and> dc_expected_fingerprint d = [])"

end
