(* ===== verification/Proposal_Versions.thy ===== *)
theory Proposal_Versions
  imports Proposals
begin

text \<open>
  The immutable versions of a proposal (the second half of
  \<^verbatim>\<open>internal/domain/review/proposal.go\<close>): proposed files, the patch with its artifact, and the
  aggregate of one lineage.
\<close>

subsection \<open>Proposed files\<close>

record proposed_file =
  pf_path :: repo_path
  pf_old_path :: "repo_path option"
  pf_old_kind :: file_kind
  pf_kind :: file_kind
  pf_old_mode :: nat
  pf_mode :: nat
  pf_mode_transition :: "mode_transition option"
  pf_symlink :: "symlink_evidence option"
  pf_content_bytes :: nat
  pf_content_hash :: bytes
  pf_old_content_bytes :: nat
  pf_old_content_hash :: bytes
  pf_content_class :: content_class
  pf_old_content_class :: content_class
  pf_text :: "text_semantics option"
  pf_old_text :: "text_semantics option"
  pf_added :: bool
  pf_deleted :: bool
  pf_copied :: bool
  pf_type_changed :: bool
  pf_binary :: bool

definition mode_class_for_file_kind :: "file_kind \<Rightarrow> git_mode_class" where
  "mode_class_for_file_kind k =
     (case k of
        FileKindRegular \<Rightarrow> ModeRegularNonExecutable
      | FileKindSymlink \<Rightarrow> ModeSymlink
      | FileKindGitlink \<Rightarrow> ModeGitlink
      | FileKindDirectory \<Rightarrow> ModeTree
      | _ \<Rightarrow> ModeUnsupported)"

definition mode_matches_file_kind :: "nat \<Rightarrow> file_kind \<Rightarrow> bool" where
  "mode_matches_file_kind mode kind \<longleftrightarrow>
     (let c = classify_git_mode mode in
      if kind = FileKindRegular then c = ModeRegularNonExecutable \<or> c = ModeRegularExecutable
      else c = mode_class_for_file_kind kind)"

text \<open>The first condition of the validator: each side on its own.\<close>

definition proposed_sides_ok :: "proposed_file \<Rightarrow> bool" where
  "proposed_sides_ok f \<longleftrightarrow>
     valid_repo_path (pf_path f) \<and> pf_kind f \<noteq> FileKindGitlink \<and> pf_old_kind f \<noteq> FileKindGitlink
     \<and> \<not> (pf_added f \<and> pf_deleted f)
     \<and> \<not> (pf_deleted f
          \<and> (pf_mode f \<noteq> 0 \<or> pf_kind f \<noteq> FileKindUnknown \<or> pf_content_bytes f \<noteq> 0
             \<or> pf_content_class f \<noteq> NoContentClass \<or> pf_text f \<noteq> None
             \<or> pf_mode_transition f \<noteq> None \<or> pf_symlink f \<noteq> None))
     \<and> \<not> (\<not> pf_deleted f
          \<and> (\<not> file_kind_valid (pf_kind f) \<or> pf_kind f = FileKindUnknown \<or> \<not> git_mode_ok (pf_mode f)))
     \<and> opt_all valid_repo_path (pf_old_path f)
     \<and> \<not> (pf_old_path f = None
          \<and> (pf_old_kind f \<noteq> FileKindOther [] \<or> pf_old_mode f \<noteq> 0 \<or> pf_old_content_bytes f \<noteq> 0
             \<or> pf_old_content_hash f \<noteq> [] \<or> pf_old_content_class f \<noteq> NoContentClass
             \<or> pf_old_text f \<noteq> None \<or> pf_mode_transition f \<noteq> None))
     \<and> \<not> (pf_old_path f \<noteq> None
          \<and> (\<not> file_kind_valid (pf_old_kind f) \<or> pf_old_kind f = FileKindUnknown
             \<or> \<not> git_mode_ok (pf_old_mode f)))
     \<and> \<not> (pf_content_hash f \<noteq> [] \<and> \<not> valid_sha256_text (pf_content_hash f))
     \<and> \<not> (pf_old_content_hash f \<noteq> [] \<and> \<not> valid_sha256_text (pf_old_content_hash f))
     \<and> \<not> (pf_content_class f \<noteq> NoContentClass \<and> \<not> content_class_valid (pf_content_class f))
     \<and> \<not> (pf_old_content_class f \<noteq> NoContentClass \<and> \<not> content_class_valid (pf_old_content_class f))"

text \<open>The rest: how the two sides, the flags and the evidence fit together.\<close>

definition proposed_evidence_ok :: "proposed_file \<Rightarrow> bool" where
  "proposed_evidence_ok f \<longleftrightarrow>
     \<not> (pf_content_class f \<noteq> NoContentClass \<and> is_byte_oriented (pf_content_class f) \<and> \<not> pf_binary f)
     \<and> \<not> (pf_old_content_class f \<noteq> NoContentClass \<and> is_byte_oriented (pf_old_content_class f)
          \<and> \<not> pf_binary f)
     \<and> opt_all (\<lambda>t. pf_content_class f = ContentClassRegularTextUTF8 \<and> text_semantics_valid t
          \<and> te_byte_length t = pf_content_bytes f \<and> te_sha256 t = pf_content_hash f) (pf_text f)
     \<and> opt_all (\<lambda>t. pf_old_content_class f = ContentClassRegularTextUTF8 \<and> text_semantics_valid t
          \<and> te_byte_length t = pf_old_content_bytes f \<and> te_sha256 t = pf_old_content_hash f)
         (pf_old_text f)"

definition proposed_file_valid :: "proposed_file \<Rightarrow> bool" where
  "proposed_file_valid f \<longleftrightarrow>
     proposed_sides_ok f
     \<and> \<not> (pf_added f \<and> pf_old_path f \<noteq> None \<or> pf_deleted f \<and> pf_old_path f \<noteq> None)
     \<and> (case pf_mode_transition f of
          Some t \<Rightarrow>
            pf_old_path f \<noteq> None \<and> mode_transition_valid t \<and> mt_old_mode t = pf_old_mode f
            \<and> mt_new_mode t = pf_mode f
            \<and> \<not> (mt_kind t = ModeTypeChanged \<and> \<not> pf_type_changed f)
        | None \<Rightarrow>
            \<not> (pf_old_path f \<noteq> None \<and> (pf_old_mode f \<noteq> pf_mode f \<or> pf_old_kind f \<noteq> pf_kind f)))
     \<and> \<not> (pf_old_path f \<noteq> None \<and> \<not> mode_matches_file_kind (pf_old_mode f) (pf_old_kind f)
          \<or> \<not> pf_deleted f \<and> \<not> mode_matches_file_kind (pf_mode f) (pf_kind f))
     \<and> opt_all (\<lambda>e. pf_kind f = FileKindSymlink \<and> symlink_evidence_valid e
          \<and> se_path_key e = path_key (pf_path f) \<and> se_target_hash e = pf_content_hash f
          \<and> se_target_length e = pf_content_bytes f) (pf_symlink f)
     \<and> \<not> (pf_copied f
          \<and> (pf_old_path f = None \<or> pf_added f \<or> pf_deleted f \<or> pf_type_changed f
             \<or> pf_old_content_hash f = []))
     \<and> proposed_evidence_ok f"

lemma mode_matches_kind:
  "git_mode_ok m \<Longrightarrow> mode_matches_file_kind m k \<Longrightarrow> git_mode_class_file_kind (classify_git_mode m) = k"
  by (auto simp: mode_matches_file_kind_def git_mode_ok_iff classify_git_mode_def
      mode_class_for_file_kind_def git_mode_class_file_kind_def Let_def
      split: if_splits file_kind.splits)

lemma proposed_kinds:
  assumes "proposed_file_valid f"
  shows "\<not> pf_deleted f \<Longrightarrow> git_mode_ok (pf_mode f)
      \<and> git_mode_class_file_kind (classify_git_mode (pf_mode f)) = pf_kind f"
    and "pf_old_path f \<noteq> None \<Longrightarrow> git_mode_ok (pf_old_mode f) \<and> \<not> pf_deleted f
      \<and> git_mode_class_file_kind (classify_git_mode (pf_old_mode f)) = pf_old_kind f"
proof -
  have sides: "proposed_sides_ok f" using assms by (simp add: proposed_file_valid_def)
  show "git_mode_ok (pf_mode f) \<and> git_mode_class_file_kind (classify_git_mode (pf_mode f)) = pf_kind f"
    if "\<not> pf_deleted f"
    using assms sides that mode_matches_kind by (simp add: proposed_file_valid_def proposed_sides_ok_def)
  show "git_mode_ok (pf_old_mode f) \<and> \<not> pf_deleted f
      \<and> git_mode_class_file_kind (classify_git_mode (pf_old_mode f)) = pf_old_kind f"
    if "pf_old_path f \<noteq> None"
    using assms sides that mode_matches_kind by (simp add: proposed_file_valid_def proposed_sides_ok_def)
qed

lemma proposed_transition:
  assumes "proposed_file_valid f" "pf_old_path f \<noteq> None" "pf_old_mode f \<noteq> pf_mode f"
  shows "\<exists>t u. pf_mode_transition f = Some t \<and> mt_kind t = mt_kind u
    \<and> new_mode_transition (pf_old_mode f) (pf_mode f) = Inr u
    \<and> (mt_kind t = ModeTypeChanged \<longrightarrow> pf_type_changed f)"
  using assms
  by (auto simp: proposed_file_valid_def mode_transition_valid_def split: option.splits sum.splits)

text \<open>
  A valid proposed file is never a submodule: a file that is kept has a regular file, a link or a
  directory as its kind and a supported mode of that kind. A deletion carries no new state and no old
  path. Where the file had an old path, any difference of the modes is recorded by a transition
  between exactly these modes, and any difference of the kinds is declared as a type change, so that
  a copy never hides one.
\<close>

theorem proposed_file_shape:
  assumes "proposed_file_valid f"
  shows "(\<not> pf_deleted f \<longrightarrow>
      pf_kind f \<in> {FileKindRegular, FileKindSymlink, FileKindDirectory}
      \<and> git_mode_class_file_kind (classify_git_mode (pf_mode f)) = pf_kind f)
    \<and> (pf_deleted f \<longrightarrow> pf_old_path f = None \<and> pf_mode f = 0 \<and> pf_content_bytes f = 0 \<and> \<not> pf_copied f)
    \<and> (pf_old_path f \<noteq> None \<longrightarrow>
        (pf_old_mode f \<noteq> pf_mode f \<longrightarrow>
           opt_all (\<lambda>t. mt_old_mode t = pf_old_mode f \<and> mt_new_mode t = pf_mode f) (pf_mode_transition f)
           \<and> pf_mode_transition f \<noteq> None)
        \<and> (pf_old_kind f \<noteq> pf_kind f \<longrightarrow> pf_type_changed f \<and> \<not> pf_copied f))"
proof (intro conjI impI)
  have sides: "proposed_sides_ok f" using assms by (simp add: proposed_file_valid_def)
  note kinds = proposed_kinds [OF assms]
  show "pf_kind f \<in> {FileKindRegular, FileKindSymlink, FileKindDirectory}" if "\<not> pf_deleted f"
    using sides that
    by (cases "pf_kind f") (simp_all add: proposed_sides_ok_def file_kind_valid_def)
  show "git_mode_class_file_kind (classify_git_mode (pf_mode f)) = pf_kind f" if "\<not> pf_deleted f"
    using kinds(1) that by simp
  show "pf_mode f = 0" "pf_content_bytes f = 0" "pf_old_path f = None" "\<not> pf_copied f" if "pf_deleted f"
    using assms sides that by (auto simp: proposed_file_valid_def proposed_sides_ok_def)
  assume old: "pf_old_path f \<noteq> None"
  show "opt_all (\<lambda>t. mt_old_mode t = pf_old_mode f \<and> mt_new_mode t = pf_mode f) (pf_mode_transition f)"
    using assms by (cases "pf_mode_transition f") (auto simp: proposed_file_valid_def)
  show "pf_mode_transition f \<noteq> None" if "pf_old_mode f \<noteq> pf_mode f"
    using proposed_transition [OF assms old that] by auto
  show typed: "pf_type_changed f" if diff: "pf_old_kind f \<noteq> pf_kind f"
  proof -
    have modes: "pf_old_mode f \<noteq> pf_mode f" using diff kinds old by metis
    from proposed_transition [OF assms old this] obtain t u :: mode_transition
      where t: "mt_kind t = mt_kind u" "mt_kind t = ModeTypeChanged \<longrightarrow> pf_type_changed f"
        and u: "new_mode_transition (pf_old_mode f) (pf_mode f) = Inr u" by metis
    have "mt_kind t = ModeTypeChanged"
      using new_mode_transition_kinds [OF u] diff kinds old t(1) by (simp add: is_type_change_def)
    with t show ?thesis by blast
  qed
  show "\<not> pf_copied f" if "pf_old_kind f \<noteq> pf_kind f"
    using typed [OF that] assms by (auto simp: proposed_file_valid_def)
qed

definition sample_proposed_file :: proposed_file where
  "sample_proposed_file =
     \<lparr>pf_path = ''f'', pf_old_path = None, pf_old_kind = FileKindOther [], pf_kind = FileKindRegular,
      pf_old_mode = 0, pf_mode = 33188, pf_mode_transition = None, pf_symlink = None,
      pf_content_bytes = 0, pf_content_hash = [], pf_old_content_bytes = 0, pf_old_content_hash = [],
      pf_content_class = NoContentClass, pf_old_content_class = NoContentClass, pf_text = None,
      pf_old_text = None, pf_added = True, pf_deleted = False, pf_copied = False,
      pf_type_changed = False, pf_binary = False\<rparr>"

lemma sample_proposed_file_valid: "proposed_file_valid sample_proposed_file"
  by (simp add: sample_proposed_file_def proposed_file_valid_def proposed_sides_ok_def
      proposed_evidence_ok_def file_kind_valid_def git_mode_ok_iff mode_matches_file_kind_def
      classify_git_mode_def valid_repo_path_def ctl_iff)

lemma proposed_file_shape_witness:
  "pf_kind sample_proposed_file \<in> {FileKindRegular, FileKindSymlink, FileKindDirectory}"
  using proposed_file_shape [OF sample_proposed_file_valid] by (simp add: sample_proposed_file_def)

subsection \<open>Patches\<close>

record patch_artifact =
  pa_artifact_id :: bytes
  pa_spool_id :: bytes
  pa_manifest_hash :: bytes
  pa_patch_format_version :: nat
  pa_rename_policy_version :: nat
  pa_conversion_policy_version :: nat
  pa_patch_sha256 :: bytes
  pa_patch_bytes :: nat
  pa_index_hash :: bytes
  pa_file_count :: nat
  pa_hunk_count :: nat
  pa_row_count :: nat
  pa_binary_files :: nat

definition no_artifact :: patch_artifact where
  "no_artifact =
     \<lparr>pa_artifact_id = [], pa_spool_id = [], pa_manifest_hash = [], pa_patch_format_version = 0,
      pa_rename_policy_version = 0, pa_conversion_policy_version = 0, pa_patch_sha256 = [],
      pa_patch_bytes = 0, pa_index_hash = [], pa_file_count = 0, pa_hunk_count = 0,
      pa_row_count = 0, pa_binary_files = 0\<rparr>"

definition patch_artifact_valid :: "patch_artifact \<Rightarrow> bool" where
  "patch_artifact_valid r \<longleftrightarrow>
     pa_artifact_id r \<noteq> [] \<and> pa_spool_id r \<noteq> [] \<and> valid_sha256_text (pa_manifest_hash r)
     \<and> pa_patch_format_version r \<noteq> 0 \<and> pa_rename_policy_version r \<noteq> 0
     \<and> pa_conversion_policy_version r \<noteq> 0 \<and> valid_sha256_text (pa_patch_sha256 r)
     \<and> pa_patch_bytes r \<noteq> 0 \<and> valid_sha256_text (pa_index_hash r) \<and> pa_file_count r \<noteq> 0
     \<and> \<not> pa_binary_files r > pa_file_count r"

record proposed_patch =
  pv_proposal_id :: proposal_id
  pv_workspace_id :: workspace_id
  pv_thread_id :: review_thread_id
  pv_attempt_id :: operation_id
  pv_provider_conversation_ref :: bytes
  pv_provider_turn_ref :: bytes
  pv_source_generation :: generation_provenance
  pv_baseline :: snapshot_identity
  pv_result :: snapshot_identity
  pv_destination :: destination_constraints
  pv_version :: version_number
  pv_patch_format :: bytes
  pv_patch_bytes :: bytes
  pv_patch_sha256 :: bytes
  pv_artifact :: patch_artifact
  pv_files :: "proposed_file list"
  pv_preconditions :: "path_precondition list"
  pv_scope :: proposal_scope
  pv_scope_reason :: bytes
  pv_status :: proposal_status
  pv_status_reason :: bytes
  pv_status_changed_at :: "instant option"
  pv_created_at :: instant

text \<open>The patch is either held inline with its digest, or adopted as an artifact.\<close>

definition patch_content_ok :: "proposed_patch \<Rightarrow> bool" where
  "patch_content_ok p \<longleftrightarrow>
     (if pv_artifact p = no_artifact then
        pv_patch_bytes p \<noteq> [] \<and> equal_hex_digest (pv_patch_sha256 p) (sha256 (pv_patch_bytes p))
      else
        patch_artifact_valid (pv_artifact p) \<and> pv_patch_bytes p = []
        \<and> pa_patch_sha256 (pv_artifact p) = pv_patch_sha256 p \<and> pa_patch_bytes (pv_artifact p) \<noteq> 0)"

text \<open>Both loops of the validator: every element passes and no path repeats.\<close>

fun unique_paths :: "('a \<Rightarrow> bool) \<Rightarrow> ('a \<Rightarrow> repo_path) \<Rightarrow> repo_path_key set \<Rightarrow> 'a list \<Rightarrow> bool" where
  "unique_paths ok path seen [] = True"
| "unique_paths ok path seen (x # xs) =
     (ok x \<and> path_key (path x) \<notin> seen \<and> unique_paths ok path (insert (path_key (path x)) seen) xs)"

definition proposed_patch_valid :: "proposed_patch \<Rightarrow> bool" where
  "proposed_patch_valid p \<longleftrightarrow>
     pv_proposal_id p \<noteq> [] \<and> pv_workspace_id p \<noteq> [] \<and> pv_thread_id p \<noteq> [] \<and> pv_attempt_id p \<noteq> []
     \<and> provenance_valid (pv_source_generation p) \<and> snapshot_identity_valid (pv_baseline p)
     \<and> snapshot_identity_valid (pv_result p) \<and> destination_valid (pv_destination p)
     \<and> pv_version p \<noteq> 0 \<and> utf8_valid (pv_patch_format p) \<and> pv_patch_format p \<noteq> []
     \<and> valid_sha256_text (pv_patch_sha256 p) \<and> proposal_scope_valid (pv_scope p)
     \<and> utf8_valid (pv_scope_reason p) \<and> utf8_valid (pv_status_reason p)
     \<and> proposal_status_valid (pv_status p) \<and> \<not> is_zero_time (pv_created_at p)
     \<and> opt_all (\<lambda>t. \<not> is_zero_time t \<and> \<not> before t (pv_created_at p)) (pv_status_changed_at p)
     \<and> sn_id (pv_baseline p) \<noteq> sn_id (pv_result p)
     \<and> patch_content_ok p
     \<and> \<not> (pv_files p = [] \<or> length (pv_files p) > MaxProposalFiles)
     \<and> unique_paths proposed_file_valid pf_path {} (pv_files p)
     \<and> unique_paths (\<lambda>c. path_precondition_valid c \<and> pp_kind c \<noteq> FileKindGitlink) pp_path {}
         (pv_preconditions p)"

definition new_proposed_patch :: "proposed_patch \<Rightarrow> (proposal_error, proposed_patch) result" where
  "new_proposed_patch p = (if proposed_patch_valid p then Inr p else Inl ErrInvalidProposal)"

lemma unique_paths_iff:
  "unique_paths ok path seen xs \<longleftrightarrow>
     list_all ok xs \<and> distinct (map path xs) \<and> path ` set xs \<inter> seen = {}"
  by (induction xs arbitrary: seen) (auto simp: path_key_def)

subsection \<open>The aggregate\<close>

record proposal_aggregate =
  ag_workspace :: proposal_workspace
  ag_intent :: proposal_intent
  ag_proposal :: proposal
  ag_attempts :: "proposal_attempt list"
  ag_versions :: "proposed_patch list"

definition attempt_belongs :: "proposal_aggregate \<Rightarrow> proposal_attempt \<Rightarrow> bool" where
  "attempt_belongs a t \<longleftrightarrow>
     attempt_valid t \<and> at_proposal_id t = pr_id (ag_proposal a)
     \<and> at_workspace_id t = pw_id (ag_workspace a)
     \<and> at_thread_id t = pw_source_thread_id (ag_workspace a)"

definition version_belongs :: "proposal_aggregate \<Rightarrow> proposed_patch \<Rightarrow> bool" where
  "version_belongs a v \<longleftrightarrow>
     proposed_patch_valid v \<and> pv_proposal_id v = pr_id (ag_proposal a)
     \<and> pv_workspace_id v = pw_id (ag_workspace a)
     \<and> pv_thread_id v = pw_source_thread_id (ag_workspace a)"

text \<open>The loop over the versions, with the numbers seen and the count of ready ones.\<close>

fun check_versions ::
    "proposal_aggregate \<Rightarrow> version_number set \<Rightarrow> nat \<Rightarrow> proposed_patch list \<Rightarrow> (version_number set \<times> nat) option" where
  "check_versions a numbers ready [] = Some (numbers, ready)"
| "check_versions a numbers ready (v # vs) =
     (if \<not> version_belongs a v then None
      else if pv_version v \<in> numbers then None
      else check_versions a (insert (pv_version v) numbers)
             (if pv_status v = ProposalVersionReady then ready + 1 else ready) vs)"

definition aggregate_valid :: "proposal_aggregate \<Rightarrow> bool" where
  "aggregate_valid a \<longleftrightarrow>
     workspace_valid (ag_workspace a) \<and> intent_valid (ag_intent a) \<and> proposal_valid (ag_proposal a)
     \<and> pi_id (ag_intent a) = pr_id (ag_proposal a)
     \<and> pr_workspace_id (ag_proposal a) = pw_id (ag_workspace a)
     \<and> pr_thread_id (ag_proposal a) = pw_source_thread_id (ag_workspace a)
     \<and> pi_thread_id (ag_intent a) = pw_source_thread_id (ag_workspace a)
     \<and> list_all (attempt_belongs a) (ag_attempts a)
     \<and> (case check_versions a {} 0 (ag_versions a) of
          None \<Rightarrow> False
        | Some (numbers, ready) \<Rightarrow>
            \<not> ready > 1
            \<and> (case pr_current_version (ag_proposal a) of
                 None \<Rightarrow> True
               | Some n \<Rightarrow> n \<in> numbers))"

record proposal_transition =
  px_proposal_id :: proposal_id
  px_version :: version_number
  px_status :: proposal_status
  px_failure_phase :: proposal_failure_phase
  px_reason :: bytes
  px_apply_operation_id :: operation_id
  px_changed_at :: instant

definition proposal_transition_valid :: "proposal_transition \<Rightarrow> bool" where
  "proposal_transition_valid t \<longleftrightarrow>
     px_proposal_id t \<noteq> [] \<and> px_version t \<noteq> 0 \<and> proposal_status_valid (px_status t)
     \<and> proposal_failure_phase_valid (px_failure_phase t)
     \<and> \<not> (px_status t = ProposalVersionApplying \<and> px_apply_operation_id t = [])
     \<and> utf8_valid (px_reason t) \<and> \<not> is_zero_time (px_changed_at t)"

definition ready_versions :: "proposed_patch list \<Rightarrow> nat" where
  "ready_versions vs = length (filter (\<lambda>v. pv_status v = ProposalVersionReady) vs)"

lemma check_versions_iff:
  "check_versions a numbers ready vs = Some (ns, r) \<longleftrightarrow>
     list_all (version_belongs a) vs \<and> distinct (map pv_version vs) \<and> pv_version ` set vs \<inter> numbers = {}
     \<and> ns = numbers \<union> pv_version ` set vs \<and> r = ready + ready_versions vs"
  by (induction vs arbitrary: numbers ready) (auto simp: ready_versions_def)

lemma aggregate_valid_iff:
  "aggregate_valid a \<longleftrightarrow>
     workspace_valid (ag_workspace a) \<and> intent_valid (ag_intent a) \<and> proposal_valid (ag_proposal a)
     \<and> pi_id (ag_intent a) = pr_id (ag_proposal a)
     \<and> pr_workspace_id (ag_proposal a) = pw_id (ag_workspace a)
     \<and> pr_thread_id (ag_proposal a) = pw_source_thread_id (ag_workspace a)
     \<and> pi_thread_id (ag_intent a) = pw_source_thread_id (ag_workspace a)
     \<and> list_all (attempt_belongs a) (ag_attempts a)
     \<and> list_all (version_belongs a) (ag_versions a) \<and> distinct (map pv_version (ag_versions a))
     \<and> ready_versions (ag_versions a) \<le> 1
     \<and> opt_all (\<lambda>n. \<exists>v\<in>set (ag_versions a). pv_version v = n) (pr_current_version (ag_proposal a))"
proof -
  have "(case check_versions a {} 0 (ag_versions a) of
          None \<Rightarrow> False
        | Some (numbers, ready) \<Rightarrow>
            \<not> ready > 1
            \<and> (case pr_current_version (ag_proposal a) of None \<Rightarrow> True | Some n \<Rightarrow> n \<in> numbers))
    \<longleftrightarrow> list_all (version_belongs a) (ag_versions a) \<and> distinct (map pv_version (ag_versions a))
     \<and> ready_versions (ag_versions a) \<le> 1
     \<and> opt_all (\<lambda>n. \<exists>v\<in>set (ag_versions a). pv_version v = n) (pr_current_version (ag_proposal a))"
    (is "?l \<longleftrightarrow> ?r")
  proof (cases "check_versions a {} 0 (ag_versions a)")
    case None
    then have "\<not> (list_all (version_belongs a) (ag_versions a) \<and> distinct (map pv_version (ag_versions a)))"
      using check_versions_iff [of a "{}" 0 "ag_versions a" "pv_version ` set (ag_versions a)"
          "ready_versions (ag_versions a)"] by auto
    with None show ?thesis by auto
  next
    case (Some nr)
    then obtain ns r where nr: "nr = (ns, r)" "check_versions a {} 0 (ag_versions a) = Some (ns, r)"
      by (cases nr) simp
    from iffD1 [OF check_versions_iff nr(2)] have "ns = pv_version ` set (ag_versions a)"
        "r = ready_versions (ag_versions a)" "list_all (version_belongs a) (ag_versions a)"
        "distinct (map pv_version (ag_versions a))" by simp_all
    with nr(2) show ?thesis
      by (cases "pr_current_version (ag_proposal a)") auto
  qed
  then show ?thesis unfolding aggregate_valid_def by (simp only: conj_assoc)
qed

text \<open>
  A proposal aggregate is valid exactly when its workspace, intent and proposal are, all name the
  same lineage, every attempt and version is valid and belongs to it, no version number is used
  twice, at most one version is ready, and the current version is one of those retained.
\<close>

theorem aggregate_correct:
  "aggregate_valid a \<longleftrightarrow>
     workspace_valid (ag_workspace a) \<and> intent_valid (ag_intent a) \<and> proposal_valid (ag_proposal a)
     \<and> pi_id (ag_intent a) = pr_id (ag_proposal a)
     \<and> pr_workspace_id (ag_proposal a) = pw_id (ag_workspace a)
     \<and> pr_thread_id (ag_proposal a) = pw_source_thread_id (ag_workspace a)
     \<and> pi_thread_id (ag_intent a) = pw_source_thread_id (ag_workspace a)
     \<and> list_all (attempt_belongs a) (ag_attempts a)
     \<and> list_all (version_belongs a) (ag_versions a) \<and> distinct (map pv_version (ag_versions a))
     \<and> ready_versions (ag_versions a) \<le> 1
     \<and> opt_all (\<lambda>n. \<exists>v\<in>set (ag_versions a). pv_version v = n) (pr_current_version (ag_proposal a))"
  by (rule aggregate_valid_iff)

text \<open>
  A valid proposed patch carries its content in exactly one way, and its digest is that of the
  content: inline bytes hash to it, and an adopted artifact states it and leaves no inline bytes. Its
  files are valid, between one and five thousand, and no path occurs twice.
\<close>

theorem proposed_patch_content:
  assumes "proposed_patch_valid p"
  shows "(pv_artifact p = no_artifact \<longleftrightarrow> pv_patch_bytes p \<noteq> [])
    \<and> (pv_patch_bytes p \<noteq> [] \<longrightarrow> hex_decode (pv_patch_sha256 p) = Some (sha256 (pv_patch_bytes p)))
    \<and> (pv_patch_bytes p = [] \<longrightarrow> pa_patch_sha256 (pv_artifact p) = pv_patch_sha256 p)
    \<and> 1 \<le> length (pv_files p) \<and> length (pv_files p) \<le> MaxProposalFiles
    \<and> list_all proposed_file_valid (pv_files p) \<and> distinct (map pf_path (pv_files p))"
  using assms
  by (auto simp: proposed_patch_valid_def patch_content_ok_def equal_hex_digest_def unique_paths_iff
      Suc_le_eq split: if_splits option.splits)

definition sample_patch :: proposed_patch where
  "sample_patch =
     (let identity = (\<lambda>i. \<lparr>sn_id = i,
            sn_ref = \<lparr>sr_kind = SnapshotEmpty, sr_object_id = [], sr_worktree_id = [], sr_fingerprint = []\<rparr>,
            sn_manifest_hash = replicate 64 (CHR ''0'')\<rparr>) in
      \<lparr>pv_proposal_id = ''p'', pv_workspace_id = ''w'', pv_thread_id = ''t'', pv_attempt_id = ''a'',
       pv_provider_conversation_ref = [], pv_provider_turn_ref = [],
       pv_source_generation = sample_provenance, pv_baseline = identity ''b'', pv_result = identity ''r'',
       pv_destination = \<lparr>dc_target_kind = TargetLocal, dc_worktree_id = ''w'', dc_expected_head = [],
         dc_expected_fingerprint = ''f''\<rparr>,
       pv_version = 1, pv_patch_format = ''f'', pv_patch_bytes = ''x'',
       pv_patch_sha256 = sha256_hex ''x'', pv_artifact = no_artifact, pv_files = [sample_proposed_file],
       pv_preconditions = [], pv_scope = ProposalScopeFocused, pv_scope_reason = [],
       pv_status = ProposalVersionReady, pv_status_reason = [], pv_status_changed_at = None,
       pv_created_at = 1\<rparr>)"

lemma sample_patch_valid: "proposed_patch_valid sample_patch"
proof -
  have "utf8_valid []" "utf8_valid ''f''" by code_simp+
  moreover have "valid_sha256_text (replicate 64 (CHR ''0''))" by code_simp
  moreover have "valid_sha256_text (sha256_hex ''x'')"
    by (simp add: valid_sha256_text_def sha256_hex_length sha256_hex_utf8 sha256_hex_decode)
  moreover have "equal_hex_digest (sha256_hex ''x'') (sha256 ''x'')"
    by (simp add: equal_hex_digest_def sha256_hex_decode)
  ultimately show ?thesis
    by (simp add: sample_patch_def proposed_patch_valid_def patch_content_ok_def sample_provenance_valid
        snapshot_identity_valid_def snapshot_ref_valid_def destination_valid_def proposal_scope_valid_def
        proposal_status_valid_def time_defs sample_proposed_file_valid MaxProposalFiles_def Let_def)
qed

lemma proposed_patch_content_witness:
  "hex_decode (pv_patch_sha256 sample_patch) = Some (sha256 (pv_patch_bytes sample_patch))"
  using proposed_patch_content [OF sample_patch_valid] by (simp add: sample_patch_def Let_def)

end
