(* ===== verification/Go_Path.thy ===== *)
theory Go_Path
  imports Go_Text
begin

text \<open>
  The part of Go's \<^verbatim>\<open>path/filepath\<close> the program uses, for Unix paths: \<^verbatim>\<open>IsAbs\<close>, \<^verbatim>\<open>Clean\<close> and
  \<^verbatim>\<open>Rel\<close>, over the components of a path.
\<close>

abbreviation SLASH :: char where "SLASH \<equiv> CHR ''/''"

definition is_abs :: "bytes \<Rightarrow> bool" where
  "is_abs p \<longleftrightarrow> has_prefix [SLASH] p"

text \<open>The components kept so far are in reverse order.\<close>

fun clean_comps :: "bool \<Rightarrow> bytes list \<Rightarrow> bytes list \<Rightarrow> bytes list" where
  "clean_comps rooted out [] = rev out"
| "clean_comps rooted out (c # cs) =
     (if c = [] \<or> c = ''.'' then clean_comps rooted out cs
      else if c = ''..'' then
        (if out \<noteq> [] \<and> hd out \<noteq> ''..'' then clean_comps rooted (tl out) cs
         else if rooted then clean_comps rooted out cs
         else clean_comps rooted (''..'' # out) cs)
      else clean_comps rooted (c # out) cs)"

definition clean_parts :: "bytes \<Rightarrow> bytes list" where
  "clean_parts p = clean_comps (is_abs p) [] (split_on SLASH p)"

definition clean_path :: "bytes \<Rightarrow> bytes" where
  "clean_path p =
     (if p = [] then ''.''
      else if is_abs p then SLASH # join_with [SLASH] (clean_parts p)
      else if clean_parts p = [] then ''.'' else join_with [SLASH] (clean_parts p))"

definition path_comps :: "bytes \<Rightarrow> bytes list" where
  "path_comps p =
     (let q = (if is_abs p then tl p else p) in if q = [] then [] else split_on SLASH q)"

fun rel_comps :: "bytes list \<Rightarrow> bytes list \<Rightarrow> bytes list option" where
  "rel_comps (b # bs) (t # ts) =
     (if b = t then rel_comps bs ts
      else if b = ''..'' then None
      else Some (replicate (length (b # bs)) ''..'' @ t # ts))"
| "rel_comps bs ts = Some (replicate (length bs) ''..'' @ ts)"

definition rel_path :: "bytes \<Rightarrow> bytes \<Rightarrow> bytes option" where
  "rel_path base target =
     (let b = clean_path base; t = clean_path target in
      if t = b then Some ''.''
      else
        (let b = (if b = ''.'' then [] else b) in
         if is_abs b \<noteq> is_abs t then None
         else map_option (join_with [SLASH]) (rel_comps (path_comps b) (path_comps t))))"

subsection \<open>Clean paths\<close>

definition clean_comp :: "bytes \<Rightarrow> bool" where
  "clean_comp c \<longleftrightarrow> c \<noteq> [] \<and> c \<noteq> ''.'' \<and> c \<noteq> ''..'' \<and> SLASH \<notin> set c"

lemma clean_comps_rooted:
  "list_all clean_comp out \<Longrightarrow> list_all (\<lambda>c. SLASH \<notin> set c) cs \<Longrightarrow>
   list_all clean_comp (clean_comps True out cs)"
proof (induction cs arbitrary: out)
  case (Cons c cs)
  have "list_all clean_comp (tl out)" using Cons.prems(1) by (cases out) simp_all
  moreover have "clean_comp c" if "c \<noteq> []" "c \<noteq> ''.''" "c \<noteq> ''..''"
    using Cons.prems that by (simp add: clean_comp_def)
  ultimately show ?case using Cons.prems Cons.IH [of out] Cons.IH [of "tl out"] Cons.IH [of "c # out"]
    by simp
qed (simp add: list_all_iff)

lemma clean_parts_abs: "is_abs p \<Longrightarrow> list_all clean_comp (clean_parts p)"
  unfolding clean_parts_def using clean_comps_rooted [of "[]" "split_on SLASH p"] split_on_parts_free
  by (simp add: list_all_iff)

lemma is_abs_Cons [simp]: "is_abs (SLASH # p)"
  by (simp add: is_abs_def has_prefix_def)

lemma split_join_comps:
  "cs \<noteq> [] \<Longrightarrow> list_all (\<lambda>c. SLASH \<notin> set c) cs \<Longrightarrow> split_on SLASH (join_with [SLASH] cs) = cs"
proof (induction cs)
  case (Cons c cs)
  then show ?case by (cases cs) (simp_all add: split_on_free split_on_append)
qed simp

lemma clean_path_rooted: "is_abs p \<Longrightarrow> clean_path p = SLASH # join_with [SLASH] (clean_parts p)"
  by (cases p) (simp_all add: clean_path_def is_abs_def has_prefix_def)

lemma path_comps_clean:
  assumes "is_abs p"
  shows "path_comps (clean_path p) = clean_parts p"
proof -
  note clean = clean_path_rooted [OF assms]
  have free: "list_all (\<lambda>c. SLASH \<notin> set c) (clean_parts p)"
    using clean_parts_abs [OF assms] by (auto simp: list_all_iff clean_comp_def)
  show ?thesis
  proof (cases "clean_parts p")
    case (Cons c cs)
    then have "c \<noteq> []" using clean_parts_abs [OF assms] by (simp add: clean_comp_def)
    with Cons have "join_with [SLASH] (clean_parts p) \<noteq> []" by (cases cs) simp_all
    with split_join_comps [OF _ free] Cons clean show ?thesis by (simp add: path_comps_def)
  qed (simp add: clean path_comps_def)
qed

lemma clean_path_abs: "is_abs p \<Longrightarrow> is_abs (clean_path p)"
  by (simp add: clean_path_rooted)

lemma clean_path_eq:
  assumes "is_abs p" "is_abs q"
  shows "clean_path p = clean_path q \<longleftrightarrow> clean_parts p = clean_parts q"
  using path_comps_clean [OF assms(1)] path_comps_clean [OF assms(2)]
    clean_path_rooted [OF assms(1)] clean_path_rooted [OF assms(2)] by metis

subsection \<open>Containment\<close>

text \<open>The test the program makes on a relative path: it does not lead out of the base.\<close>

definition inside_rel :: "bytes \<Rightarrow> bool" where
  "inside_rel rel \<longleftrightarrow> rel = ''.'' \<or> rel \<noteq> ''..'' \<and> \<not> has_prefix ''../'' rel"

lemma join_head:
  "SLASH \<notin> set c \<Longrightarrow> has_prefix ''../'' (join_with [SLASH] (c # cs)) \<longleftrightarrow> c = ''..'' \<and> cs \<noteq> []"
proof (cases cs)
  case (Cons d ds)
  assume free: "SLASH \<notin> set c"
  have "has_prefix ''../'' (c @ SLASH # x) \<longleftrightarrow> c = ''..''" for x
    using free by (cases c; cases "tl c"; cases "tl (tl c)") (auto simp: has_prefix_def)
  with Cons show ?thesis by simp
next
  case Nil
  assume free: "SLASH \<notin> set c"
  then have "\<not> has_prefix ''../'' c"
    by (cases c; cases "tl c"; cases "tl (tl c)") (auto simp: has_prefix_def)
  with Nil show ?thesis by simp
qed

lemma inside_join:
  assumes "list_all (\<lambda>c. SLASH \<notin> set c) cs" "cs \<noteq> []" "hd cs \<noteq> ''..''"
  shows "inside_rel (join_with [SLASH] cs)"
proof -
  from assms(2) obtain d ds where cs: "cs = d # ds" by (cases cs) simp_all
  have "join_with [SLASH] cs = ''..'' \<Longrightarrow> d = ''..''"
    using cs assms(1) by (cases ds) (auto simp: append_eq_Cons_conv)
  then show ?thesis using assms cs join_head [of d ds] by (auto simp: inside_rel_def)
qed

lemma outside_join:
  "list_all (\<lambda>c. SLASH \<notin> set c) cs \<Longrightarrow> \<not> inside_rel (join_with [SLASH] (''..'' # cs))"
  using join_head [of "''..''" cs] by (cases cs) (auto simp: inside_rel_def)

lemma rel_comps_split:
  assumes "list_all clean_comp bs"
  shows "\<exists>ks bs' ts'. bs = ks @ bs' \<and> ts = ks @ ts' \<and> (bs' = [] \<or> ts' = [] \<or> hd bs' \<noteq> hd ts')
    \<and> rel_comps bs ts = Some (replicate (length bs') ''..'' @ ts')"
  using assms
proof (induction bs ts rule: rel_comps.induct)
  case (1 b bs t ts)
  show ?case
  proof (cases "b = t")
    case True
    with 1 obtain ks bs' ts' where "bs = ks @ bs'" "ts = ks @ ts'"
      "bs' = [] \<or> ts' = [] \<or> hd bs' \<noteq> hd ts'" "rel_comps bs ts = Some (replicate (length bs') ''..'' @ ts')"
      by auto
    with True show ?thesis by (intro exI [of _ "b # ks"] exI [of _ bs'] exI [of _ ts']) simp
  next
    case False
    with 1 show ?thesis
      by (intro exI [of _ "[]"] exI [of _ "b # bs"] exI [of _ "t # ts"]) (simp add: clean_comp_def)
  qed
qed simp_all

lemma rel_path_inside:
  assumes "is_abs base" "is_abs target"
  shows "\<exists>rel. rel_path base target = Some rel
    \<and> (inside_rel rel \<longleftrightarrow> (\<exists>rest. clean_parts target = clean_parts base @ rest))"
proof (cases "clean_path target = clean_path base")
  case True
  then show ?thesis
    using clean_path_eq [OF assms(2,1)] by (simp add: rel_path_def inside_rel_def)
next
  case False
  let ?b = "clean_parts base" and ?t = "clean_parts target"
  have clean: "list_all clean_comp ?b" "list_all clean_comp ?t"
    using assms by (simp_all add: clean_parts_abs)
  obtain ks bs ts where k: "?b = ks @ bs" "?t = ks @ ts" "bs = [] \<or> ts = [] \<or> hd bs \<noteq> hd ts"
    "rel_comps ?b ?t = Some (replicate (length bs) ''..'' @ ts)"
    using rel_comps_split [OF clean(1), of ?t] by (elim exE conjE) (rule that)
  have abs: "is_abs (clean_path base)" "is_abs (clean_path target)" using assms by (simp_all add: clean_path_abs)
  have "clean_path base \<noteq> ''.''" using clean_path_rooted [OF assms(1)] by simp
  then have rel: "rel_path base target = Some (join_with [SLASH] (replicate (length bs) ''..'' @ ts))"
    using False abs k(4) assms by (simp add: rel_path_def path_comps_clean)
  have free: "list_all (\<lambda>c. SLASH \<notin> set c) (replicate n ''..'' @ ts)" for n
  proof -
    have "list_all clean_comp ts" using clean(2) unfolding k(2) by simp
    then have "list_all (\<lambda>c. SLASH \<notin> set c) ts" by (rule list.pred_mono_strong) (simp add: clean_comp_def)
    then show ?thesis by (auto simp: list_all_iff set_replicate_conv_if)
  qed
  show ?thesis
  proof (cases bs)
    case Nil
    have "ts \<noteq> []" using False k(1,2) Nil clean_path_eq [OF assms(2,1)] by auto
    moreover from this have "hd ts \<noteq> ''..''"
      using clean(2) unfolding k(2) by (cases ts) (simp_all add: clean_comp_def)
    ultimately have "inside_rel (join_with [SLASH] ts)"
      using inside_join free [of 0] by simp
    with rel Nil k show ?thesis by simp
  next
    case (Cons x xs)
    have "\<not> inside_rel (join_with [SLASH] (replicate (length bs) ''..'' @ ts))"
      using outside_join [OF free [of "length xs"]] Cons by simp
    moreover have "\<nexists>rest. ?t = ?b @ rest" using k(1-3) Cons by (cases ts) auto
    ultimately show ?thesis using rel by blast
  qed
qed

end
