(* ===== verification/Provider.thy ===== *)
theory Provider
  imports Review_Domain Go_Path
begin

text \<open>
  The provider port (\<^verbatim>\<open>internal/provider\<close>): permission policies of a turn and the containment of
  their roots, one-shot runtime approvals, and the validation and order of provider events.
\<close>

subsection \<open>Values\<close>

type_synonym correlation_id = bytes
type_synonym provider_conversation_ref = bytes
type_synonym provider_turn_ref = bytes
type_synonym provider_request_id = bytes

datatype turn_mode = TurnDiscuss | TurnPropose | TurnModeOther bytes

datatype filesystem_mode =
    FilesystemPromptOnly | FilesystemReviewSnapshot | FilesystemProposalResult | FilesystemOther bytes

definition NetworkDisabled :: nat where "NetworkDisabled = 1"

datatype runtime_approval_policy =
    RuntimeApprovalsDisabled | RuntimeApprovalsExplicit | RuntimeApprovalsOther bytes

datatype permission_root = PermissionRoot (root_path: bytes)

record containment_evidence =
  ce_canonical_read :: bool
  ce_canonical_write :: bool
  ce_no_symlink_escape :: bool
  ce_no_junction_escape :: bool
  ce_no_mount_escape :: bool
  ce_no_hard_link_alias :: bool
  ce_handles_quiescent :: bool

definition no_containment :: containment_evidence where
  "no_containment =
     \<lparr>ce_canonical_read = False, ce_canonical_write = False, ce_no_symlink_escape = False,
      ce_no_junction_escape = False, ce_no_mount_escape = False, ce_no_hard_link_alias = False,
      ce_handles_quiescent = False\<rparr>"

record permission_policy =
  tp_filesystem :: filesystem_mode
  tp_readable_roots :: "permission_root list"
  tp_writable_roots :: "permission_root list"
  tp_runtime_roots :: "permission_root list"
  tp_proposal_result_root :: permission_root
  tp_containment :: containment_evidence
  tp_network :: nat
  tp_runtime_approvals :: runtime_approval_policy

record provider_capabilities =
  pc_resume_conversation :: bool
  pc_streaming :: bool
  pc_steering :: bool
  pc_runtime_approvals :: bool
  pc_writable_workspace :: bool
  pc_read_only_filesystem :: bool
  pc_exact_read_roots :: bool
  pc_account_login :: bool
  pc_rate_limits :: bool

record start_conversation_request =
  sc_thread_id :: review_thread_id
  sc_operation_id :: operation_id
  sc_correlation_id :: correlation_id
  sc_mode :: turn_mode
  sc_working_dir :: bytes
  sc_permissions :: permission_policy

record turn_request =
  tr_thread_id :: review_thread_id
  tr_operation_id :: operation_id
  tr_mode :: turn_mode
  tr_prompt :: bytes
  tr_working_dir :: bytes
  tr_permissions :: permission_policy
  tr_correlation_id :: correlation_id

datatype runtime_approval_kind =
    RuntimeApprovalCommand | RuntimeApprovalFile | RuntimeApprovalTool | RuntimeApprovalNetwork
  | RuntimeApprovalKindOther bytes

record approval_scope =
  as_kind :: runtime_approval_kind
  as_executable :: bytes
  as_arguments_digest :: bytes
  as_path :: permission_root
  as_tool :: bytes

datatype approval_decision = ApprovalAllowOnce | ApprovalDeny | ApprovalDecisionOther bytes

record approval_request =
  ar_request_id :: provider_request_id
  ar_thread_id :: review_thread_id
  ar_operation_id :: operation_id
  ar_correlation_id :: correlation_id
  ar_turn_ref :: provider_turn_ref
  ar_scope :: approval_scope
  ar_expires_at :: instant

record approval_response =
  rs_request_id :: provider_request_id
  rs_thread_id :: review_thread_id
  rs_operation_id :: operation_id
  rs_correlation_id :: correlation_id
  rs_turn_ref :: provider_turn_ref
  rs_scope :: approval_scope
  rs_decision :: approval_decision

subsection \<open>Limits and texts\<close>

datatype provider_error =
    ErrInvalidProviderValue | ErrInvalidPermission | ErrInvalidApproval | ErrApprovalExpired
  | ErrApprovalDuplicate | ErrApprovalCancelled | ErrApprovalStale | ErrApprovalScopeMismatch
  | ErrInvalidEvent | ErrEventOutOfOrder

record validation_limits =
  vl_opaque_ref_bytes :: nat
  vl_method_bytes :: nat
  vl_display_bytes :: nat
  vl_human_error_bytes :: nat
  vl_path_bytes :: nat
  vl_prompt_bytes :: nat
  vl_turn_content_bytes :: nat
  vl_coalescing_key_bytes :: nat
  vl_max_roots :: nat

definition default_validation_limits :: validation_limits where
  "default_validation_limits =
     \<lparr>vl_opaque_ref_bytes = 4 * 1024, vl_method_bytes = 256, vl_display_bytes = 1024,
      vl_human_error_bytes = 64 * 1024, vl_path_bytes = 32 * 1024,
      vl_prompt_bytes = 2 * 1024 * 1024, vl_turn_content_bytes = 32 * 1024 * 1024,
      vl_coalescing_key_bytes = 256, vl_max_roots = 64\<rparr>"

definition limits_valid :: "validation_limits \<Rightarrow> bool" where
  "limits_valid l \<longleftrightarrow>
     \<not> (vl_opaque_ref_bytes l = 0 \<or> vl_method_bytes l = 0 \<or> vl_display_bytes l = 0
        \<or> vl_human_error_bytes l = 0 \<or> vl_path_bytes l = 0 \<or> vl_prompt_bytes l = 0
        \<or> vl_turn_content_bytes l = 0 \<or> vl_coalescing_key_bytes l = 0 \<or> vl_max_roots l = 0)"

lemma default_limits_valid [simp]: "limits_valid default_validation_limits"
  by (simp add: limits_valid_def default_validation_limits_def)

definition bounded_text :: "bytes \<Rightarrow> nat \<Rightarrow> bool \<Rightarrow> bool" where
  "bounded_text v maximum allow_empty \<longleftrightarrow>
     \<not> (\<not> allow_empty \<and> v = [])
     \<and> \<not> (\<not> utf8_valid v \<or> length v > maximum \<or> NUL \<in> set v)"

definition opaque_text :: "bytes \<Rightarrow> validation_limits \<Rightarrow> bool" where
  "opaque_text v l = bounded_text v (vl_opaque_ref_bytes l) False"

definition local_id_text :: "bytes \<Rightarrow> validation_limits \<Rightarrow> bool" where
  "local_id_text v l = bounded_text v (vl_opaque_ref_bytes l) False"

definition turn_mode_valid :: "turn_mode \<Rightarrow> bool" where
  "turn_mode_valid m \<longleftrightarrow> \<not> (m \<noteq> TurnDiscuss \<and> m \<noteq> TurnPropose)"

text \<open>The validators of the four opaque references are the same function.\<close>

definition opaque_ref_valid :: "bytes \<Rightarrow> bool" where
  "opaque_ref_valid v = opaque_text v default_validation_limits"

subsection \<open>Permission policies\<close>

definition permission_root_valid :: "validation_limits \<Rightarrow> permission_root \<Rightarrow> bool" where
  "permission_root_valid l r \<longleftrightarrow>
     limits_valid l \<and> bounded_text (root_path r) (vl_path_bytes l) False \<and> is_abs (root_path r)
     \<and> clean_path (root_path r) \<noteq> ''.''"

definition valid_for_read :: "containment_evidence \<Rightarrow> bool" where
  "valid_for_read e \<longleftrightarrow>
     ce_canonical_read e \<and> ce_no_symlink_escape e \<and> ce_no_junction_escape e \<and> ce_no_mount_escape e
     \<and> ce_no_hard_link_alias e \<and> ce_handles_quiescent e"

definition valid_for_write :: "containment_evidence \<Rightarrow> bool" where
  "valid_for_write e \<longleftrightarrow> valid_for_read e \<and> ce_canonical_write e"

fun roots_ok :: "validation_limits \<Rightarrow> bytes set \<Rightarrow> permission_root list \<Rightarrow> bool" where
  "roots_ok l seen [] = True"
| "roots_ok l seen (r # rs) =
     (permission_root_valid l r \<and> clean_path (root_path r) \<notin> seen
      \<and> roots_ok l (insert (clean_path (root_path r)) seen) rs)"

definition valid_root_set :: "validation_limits \<Rightarrow> permission_root list \<Rightarrow> bool" where
  "valid_root_set l rs \<longleftrightarrow> \<not> length rs > vl_max_roots l \<and> roots_ok l {} rs"

definition path_within :: "bytes \<Rightarrow> bytes \<Rightarrow> bool" where
  "path_within root child \<longleftrightarrow>
     (case rel_path (clean_path root) (clean_path child) of
        None \<Rightarrow> False
      | Some rel \<Rightarrow> rel = ''.'' \<or> rel \<noteq> ''..'' \<and> \<not> has_prefix (''..'' @ [SLASH]) rel)"

definition path_within_any :: "permission_root list \<Rightarrow> bytes \<Rightarrow> bool" where
  "path_within_any roots child \<longleftrightarrow> list_ex (\<lambda>r. path_within (root_path r) child) roots"

definition policy_valid :: "validation_limits \<Rightarrow> permission_policy \<Rightarrow> bool" where
  "policy_valid l p \<longleftrightarrow>
     limits_valid l
     \<and> tp_filesystem p \<in> {FilesystemPromptOnly, FilesystemReviewSnapshot, FilesystemProposalResult}
     \<and> \<not> (tp_network p \<noteq> NetworkDisabled
          \<or> tp_runtime_approvals p \<noteq> RuntimeApprovalsDisabled
            \<and> tp_runtime_approvals p \<noteq> RuntimeApprovalsExplicit)
     \<and> valid_root_set l (tp_readable_roots p) \<and> valid_root_set l (tp_writable_roots p)
     \<and> valid_root_set l (tp_runtime_roots p)
     \<and> (case tp_filesystem p of
          FilesystemPromptOnly \<Rightarrow>
            tp_readable_roots p = [] \<and> tp_writable_roots p = []
            \<and> root_path (tp_proposal_result_root p) = [] \<and> tp_containment p = no_containment
        | FilesystemReviewSnapshot \<Rightarrow>
            tp_readable_roots p \<noteq> [] \<and> tp_writable_roots p = [] \<and> tp_runtime_roots p = []
            \<and> valid_for_read (tp_containment p) \<and> root_path (tp_proposal_result_root p) = []
        | FilesystemProposalResult \<Rightarrow>
            tp_writable_roots p \<noteq> [] \<and> root_path (tp_proposal_result_root p) \<noteq> []
            \<and> valid_for_write (tp_containment p)
            \<and> permission_root_valid l (tp_proposal_result_root p)
            \<and> list_all (\<lambda>r. path_within (root_path (tp_proposal_result_root p)) (root_path r))
                (tp_writable_roots p)
        | FilesystemOther _ \<Rightarrow> True)"

definition mode_permissions_valid :: "turn_mode \<Rightarrow> permission_policy \<Rightarrow> validation_limits \<Rightarrow> bool" where
  "mode_permissions_valid m p l \<longleftrightarrow>
     turn_mode_valid m \<and> policy_valid l p
     \<and> \<not> (m = TurnDiscuss \<and> tp_filesystem p = FilesystemProposalResult)
     \<and> \<not> (m = TurnPropose \<and> tp_filesystem p \<noteq> FilesystemProposalResult)"

definition working_dir_valid :: "bytes \<Rightarrow> permission_policy \<Rightarrow> validation_limits \<Rightarrow> bool" where
  "working_dir_valid dir p l \<longleftrightarrow>
     (if dir = [] then tp_filesystem p = FilesystemPromptOnly
      else
        bounded_text dir (vl_path_bytes l) False \<and> is_abs dir
        \<and> (case tp_filesystem p of
             FilesystemPromptOnly \<Rightarrow> path_within_any (tp_runtime_roots p) dir
           | FilesystemReviewSnapshot \<Rightarrow> path_within_any (tp_readable_roots p) dir
           | FilesystemProposalResult \<Rightarrow>
               path_within (root_path (tp_proposal_result_root p)) dir
               \<and> path_within_any (tp_writable_roots p) dir
           | FilesystemOther _ \<Rightarrow> False))"

definition start_conversation_valid :: "start_conversation_request \<Rightarrow> bool" where
  "start_conversation_valid r \<longleftrightarrow>
     (let l = default_validation_limits in
      local_id_text (sc_thread_id r) l \<and> local_id_text (sc_operation_id r) l
      \<and> opaque_ref_valid (sc_correlation_id r)
      \<and> mode_permissions_valid (sc_mode r) (sc_permissions r) l
      \<and> working_dir_valid (sc_working_dir r) (sc_permissions r) l)"

definition turn_request_valid :: "turn_request \<Rightarrow> bool" where
  "turn_request_valid r \<longleftrightarrow>
     (let l = default_validation_limits in
      local_id_text (tr_thread_id r) l \<and> local_id_text (tr_operation_id r) l
      \<and> opaque_ref_valid (tr_correlation_id r)
      \<and> mode_permissions_valid (tr_mode r) (tr_permissions r) l
      \<and> bounded_text (tr_prompt r) (vl_prompt_bytes l) False
      \<and> working_dir_valid (tr_working_dir r) (tr_permissions r) l)"

definition steering_input_valid :: "bytes \<Rightarrow> bool" where
  "steering_input_valid v = bounded_text v (vl_prompt_bytes default_validation_limits) False"

subsection \<open>Containment\<close>

lemma clean_comps_clean:
  "list_all clean_comp cs \<Longrightarrow> clean_comps True out cs = rev out @ cs"
  by (induction cs arbitrary: out) (simp_all add: clean_comp_def)

lemma clean_parts_idem:
  assumes "is_abs p"
  shows "clean_parts (clean_path p) = clean_parts p"
proof -
  note clean = clean_parts_abs [OF assms]
  have free: "list_all (\<lambda>c. SLASH \<notin> set c) (clean_parts p)"
    using clean by (rule list.pred_mono_strong) (simp add: clean_comp_def)
  have "split_on SLASH (clean_path p) = [] # (if clean_parts p = [] then [[]] else clean_parts p)"
    using split_join_comps [OF _ free] by (simp add: clean_path_rooted [OF assms])
  then show ?thesis
    using clean_comps_clean [OF clean, of "[]"] clean_path_abs [OF assms]
    by (simp add: clean_parts_def [of "clean_path p"])
qed

text \<open>The check on two absolute paths is exactly containment of their components.\<close>

lemma path_within_iff:
  assumes "is_abs root" "is_abs child"
  shows "path_within root child \<longleftrightarrow> (\<exists>rest. clean_parts child = clean_parts root @ rest)"
proof -
  obtain rel where "rel_path (clean_path root) (clean_path child) = Some rel"
    "inside_rel rel \<longleftrightarrow> (\<exists>rest. clean_parts (clean_path child) = clean_parts (clean_path root) @ rest)"
    using rel_path_inside [OF clean_path_abs [OF assms(1)] clean_path_abs [OF assms(2)]]
    by (elim exE conjE) (rule that)
  then show ?thesis
    by (simp add: path_within_def inside_rel_def clean_parts_idem assms)
qed

lemma roots_ok_abs: "roots_ok l seen rs \<Longrightarrow> r \<in> set rs \<Longrightarrow> is_abs (root_path r)"
  by (induction rs arbitrary: seen) (auto simp: permission_root_valid_def)

definition within_parts :: "permission_root \<Rightarrow> bytes \<Rightarrow> bool" where
  "within_parts r p \<longleftrightarrow> (\<exists>rest. clean_parts p = clean_parts (root_path r) @ rest)"

lemma policy_roots_abs:
  assumes "policy_valid l p"
  shows "r \<in> set (tp_readable_roots p) \<union> set (tp_writable_roots p) \<union> set (tp_runtime_roots p) \<Longrightarrow>
    is_abs (root_path r)"
  using assms roots_ok_abs unfolding policy_valid_def valid_root_set_def by blast

lemma path_within_any_parts:
  assumes "path_within_any rs dir" "is_abs dir" "\<And>r. r \<in> set rs \<Longrightarrow> is_abs (root_path r)"
  shows "\<exists>r\<in>set rs. within_parts r dir"
  using assms path_within_iff by (auto simp: path_within_any_def list_ex_iff within_parts_def)

lemma policy_writable:
  assumes "policy_valid l p" "r \<in> set (tp_writable_roots p)"
  shows "tp_filesystem p = FilesystemProposalResult"
    "within_parts (tp_proposal_result_root p) (root_path r)"
proof -
  show fs: "tp_filesystem p = FilesystemProposalResult"
    using assms by (cases "tp_filesystem p") (auto simp: policy_valid_def)
  have "is_abs (root_path r)" using policy_roots_abs [OF assms(1)] assms(2) by blast
  with assms fs show "within_parts (tp_proposal_result_root p) (root_path r)"
    using path_within_iff
    by (auto simp: policy_valid_def permission_root_valid_def list_all_iff within_parts_def)
qed

lemma working_dir_inside:
  assumes "policy_valid l p" "working_dir_valid dir p l" "dir \<noteq> []"
  shows "\<exists>r\<in>set (tp_readable_roots p) \<union> set (tp_writable_roots p) \<union> set (tp_runtime_roots p).
    within_parts r dir"
proof -
  have abs: "is_abs dir" using assms(2,3) by (simp add: working_dir_valid_def)
  have "\<exists>rs. rs \<in> {tp_readable_roots p, tp_writable_roots p, tp_runtime_roots p} \<and> path_within_any rs dir"
    using assms(2,3) by (auto simp: working_dir_valid_def split: filesystem_mode.splits)
  then show ?thesis
    using path_within_any_parts [OF _ abs] policy_roots_abs [OF assms(1)] by blast
qed

text \<open>
  A turn the validator admits never has network access and never writes outside the isolated
  result: a discussion has no writable root at all, every writable root of a proposal lies inside
  the result root component by component, and the working directory lies inside one of the roots
  the turn was given.
\<close>

theorem turn_request_contained:
  assumes "turn_request_valid r"
  shows "let p = tr_permissions r in
    tp_network p = NetworkDisabled
    \<and> (tr_mode r = TurnDiscuss \<longrightarrow> tp_writable_roots p = [])
    \<and> (tr_mode r = TurnPropose \<longrightarrow> valid_for_write (tp_containment p))
    \<and> (\<forall>w\<in>set (tp_writable_roots p). within_parts (tp_proposal_result_root p) (root_path w))
    \<and> (tr_working_dir r \<noteq> [] \<longrightarrow>
        (\<exists>x\<in>set (tp_readable_roots p) \<union> set (tp_writable_roots p) \<union> set (tp_runtime_roots p).
          within_parts x (tr_working_dir r)))"
proof -
  let ?p = "tr_permissions r"
  have valid: "policy_valid default_validation_limits ?p" "working_dir_valid (tr_working_dir r) ?p default_validation_limits"
      and mode: "tr_mode r = TurnDiscuss \<Longrightarrow> tp_filesystem ?p \<noteq> FilesystemProposalResult"
        "tr_mode r = TurnPropose \<Longrightarrow> tp_filesystem ?p = FilesystemProposalResult"
    using assms by (simp_all add: turn_request_valid_def mode_permissions_valid_def Let_def)
  have "tp_writable_roots ?p = []" if "tr_mode r = TurnDiscuss"
    using policy_writable(1) [OF valid(1)] mode(1) [OF that] by (cases "tp_writable_roots ?p") auto
  moreover have "valid_for_write (tp_containment ?p)" if "tr_mode r = TurnPropose"
    using mode(2) [OF that] valid(1) by (simp add: policy_valid_def)
  moreover have "tp_network ?p = NetworkDisabled" using valid(1) by (simp add: policy_valid_def)
  ultimately show ?thesis
    using policy_writable(2) [OF valid(1)] working_dir_inside [OF valid] by (simp add: Let_def)
qed

definition sample_turn_request :: turn_request where
  "sample_turn_request =
     \<lparr>tr_thread_id = ''t'', tr_operation_id = ''o'', tr_mode = TurnPropose, tr_prompt = ''p'',
      tr_working_dir = ''/r/a'',
      tr_permissions =
        \<lparr>tp_filesystem = FilesystemProposalResult, tp_readable_roots = [],
         tp_writable_roots = [PermissionRoot ''/r/./a''], tp_runtime_roots = [],
         tp_proposal_result_root = PermissionRoot ''/r'',
         tp_containment =
           \<lparr>ce_canonical_read = True, ce_canonical_write = True, ce_no_symlink_escape = True,
            ce_no_junction_escape = True, ce_no_mount_escape = True, ce_no_hard_link_alias = True,
            ce_handles_quiescent = True\<rparr>,
         tp_network = NetworkDisabled, tp_runtime_approvals = RuntimeApprovalsDisabled\<rparr>,
      tr_correlation_id = ''c''\<rparr>"

lemma sample_turn_request_valid: "turn_request_valid sample_turn_request"
proof -
  have ascii: "utf8_valid v" if "list_all (\<lambda>c. byte c < 128) v" for v
    using ascii_runes that by blast
  show ?thesis
    by (simp add: sample_turn_request_def turn_request_valid_def mode_permissions_valid_def
        policy_valid_def valid_root_set_def permission_root_valid_def limits_valid_def
        default_validation_limits_def bounded_text_def opaque_ref_valid_def opaque_text_def
        local_id_text_def turn_mode_valid_def working_dir_valid_def valid_for_write_def
        valid_for_read_def path_within_any_def path_within_def rel_path_def path_comps_def
        clean_path_def clean_parts_def is_abs_def has_prefix_def ascii ctl_iff Let_def)
qed

lemma turn_request_contained_witness:
  "within_parts (PermissionRoot ''/r'') ''/r/./a''"
  using turn_request_contained [OF sample_turn_request_valid]
  by (simp add: sample_turn_request_def Let_def)

subsection \<open>Runtime approvals\<close>

definition approval_scope_valid :: "validation_limits \<Rightarrow> approval_scope \<Rightarrow> bool" where
  "approval_scope_valid l s \<longleftrightarrow>
     limits_valid l
     \<and> (case as_kind s of
          RuntimeApprovalCommand \<Rightarrow>
            bounded_text (as_executable s) (vl_path_bytes l) False \<and> is_abs (as_executable s)
            \<and> opaque_text (as_arguments_digest s) l \<and> root_path (as_path s) = [] \<and> as_tool s = []
        | RuntimeApprovalFile \<Rightarrow>
            permission_root_valid l (as_path s) \<and> as_executable s = []
            \<and> as_arguments_digest s = [] \<and> as_tool s = []
        | RuntimeApprovalTool \<Rightarrow>
            bounded_text (as_tool s) (vl_method_bytes l) False \<and> as_executable s = []
            \<and> as_arguments_digest s = [] \<and> root_path (as_path s) = []
        | RuntimeApprovalNetwork \<Rightarrow> False
        | RuntimeApprovalKindOther _ \<Rightarrow> False)"

definition approval_request_valid_at :: "instant \<Rightarrow> approval_request \<Rightarrow> bool" where
  "approval_request_valid_at now r \<longleftrightarrow>
     (let l = default_validation_limits in
      limits_valid l \<and> opaque_text (ar_request_id r) l \<and> local_id_text (ar_thread_id r) l
      \<and> local_id_text (ar_operation_id r) l \<and> opaque_ref_valid (ar_correlation_id r)
      \<and> opaque_ref_valid (ar_turn_ref r) \<and> approval_scope_valid l (ar_scope r)
      \<and> \<not> is_zero_time (ar_expires_at r) \<and> before now (ar_expires_at r))"

definition validate_against ::
    "approval_response \<Rightarrow> approval_request \<Rightarrow> instant \<Rightarrow> (provider_error, unit) result" where
  "validate_against r q now =
     (let l = default_validation_limits in
      if \<not> opaque_text (rs_request_id r) l then Inl ErrInvalidApproval
      else if \<not> local_id_text (rs_thread_id r) l then Inl ErrInvalidApproval
      else if \<not> local_id_text (rs_operation_id r) l then Inl ErrInvalidApproval
      else if \<not> opaque_ref_valid (rs_correlation_id r) \<or> \<not> opaque_ref_valid (rs_turn_ref r)
        \<or> \<not> approval_scope_valid l (rs_scope r)
        \<or> rs_decision r \<noteq> ApprovalAllowOnce \<and> rs_decision r \<noteq> ApprovalDeny
      then Inl ErrInvalidApproval
      else if \<not> before now (ar_expires_at q) then Inl ErrApprovalExpired
      else if rs_request_id r \<noteq> ar_request_id q \<or> rs_thread_id r \<noteq> ar_thread_id q
        \<or> rs_operation_id r \<noteq> ar_operation_id q \<or> rs_correlation_id r \<noteq> ar_correlation_id q
        \<or> rs_turn_ref r \<noteq> ar_turn_ref q
      then Inl ErrApprovalStale
      else if rs_scope r \<noteq> ar_scope q then Inl ErrApprovalScopeMismatch
      else Inr ())"

datatype approval_state = ApprovalPending | ApprovalResolved | ApprovalCanceled | ApprovalStateOther bytes

record approval_details =
  ad_exact_command_args :: bytes
  ad_network_target :: bytes
  ad_tool_name :: bytes
  ad_requested_scope :: bytes

record runtime_approval =
  ra_request :: approval_request
  ra_state :: approval_state
  ra_decision :: approval_decision
  ra_details :: approval_details

definition no_details :: approval_details where
  "no_details =
     \<lparr>ad_exact_command_args = [], ad_network_target = [], ad_tool_name = [], ad_requested_scope = []\<rparr>"

definition new_runtime_approval ::
    "approval_request \<Rightarrow> instant \<Rightarrow> (provider_error, runtime_approval) result" where
  "new_runtime_approval q now =
     (if \<not> approval_request_valid_at now q then Inl ErrInvalidApproval
      else Inr \<lparr>ra_request = q, ra_state = ApprovalPending, ra_decision = ApprovalDecisionOther [],
                ra_details = no_details\<rparr>)"

definition response_validation ::
    "approval_response \<Rightarrow> instant \<Rightarrow> runtime_approval option \<Rightarrow> (provider_error, unit) result" where
  "response_validation r now receiver =
     (case receiver of
        None \<Rightarrow> Inl ErrInvalidApproval
      | Some a \<Rightarrow>
          if ra_state a = ApprovalStateOther [] then Inl ErrInvalidApproval
          else validate_against r (ra_request a) now)"

definition respond_approval ::
    "approval_response \<Rightarrow> instant \<Rightarrow> runtime_approval option \<Rightarrow> (provider_error, runtime_approval) result" where
  "respond_approval r now receiver =
     (case receiver of
        None \<Rightarrow> Inl ErrInvalidApproval
      | Some a \<Rightarrow>
          if ra_state a = ApprovalStateOther [] then Inl ErrInvalidApproval
          else if ra_state a = ApprovalCanceled then Inl ErrApprovalCancelled
          else if ra_state a = ApprovalResolved then Inl ErrApprovalDuplicate
          else bind_result (response_validation r now (Some a))
            (\<lambda>_. Inr (a\<lparr>ra_state := ApprovalResolved, ra_decision := rs_decision r\<rparr>)))"

definition cancel_approval ::
    "runtime_approval option \<Rightarrow> (provider_error, runtime_approval) result" where
  "cancel_approval receiver =
     (case receiver of
        None \<Rightarrow> Inl ErrInvalidApproval
      | Some a \<Rightarrow>
          if ra_state a = ApprovalStateOther [] then Inl ErrInvalidApproval
          else if ra_state a = ApprovalResolved then Inl ErrApprovalDuplicate
          else if ra_state a = ApprovalCanceled then Inl ErrApprovalCancelled
          else Inr (a\<lparr>ra_state := ApprovalCanceled\<rparr>))"

datatype approval_op = OpRespond approval_response instant | OpCancelApproval

fun approval_step :: "approval_op \<Rightarrow> runtime_approval \<Rightarrow> (provider_error, runtime_approval) result" where
  "approval_step (OpRespond r now) a = respond_approval r now (Some a)"
| "approval_step OpCancelApproval a = cancel_approval (Some a)"

definition approval_settled :: "runtime_approval \<Rightarrow> bool" where
  "approval_settled a \<longleftrightarrow> ra_state a \<in> {ApprovalResolved, ApprovalCanceled, ApprovalStateOther []}"

lemma approval_step_result:
  assumes "approval_step op a = Inr b"
  shows "\<not> approval_settled a \<and> ra_request b = ra_request a
    \<and> (case op of
        OpRespond r now \<Rightarrow> validate_against r (ra_request a) now = Inr ()
          \<and> ra_state b = ApprovalResolved \<and> ra_decision b = rs_decision r
      | OpCancelApproval \<Rightarrow> ra_state b = ApprovalCanceled)"
  using assms
  by (cases op) (auto simp: respond_approval_def cancel_approval_def response_validation_def
      approval_settled_def bind_result_Inr_iff split: if_splits)

interpretation approval_life:
  lifecycle "\<lambda>_. True" approval_settled "\<lambda>_. 0" ra_request approval_step
  by unfold_locales (auto dest: approval_step_result)

text \<open>The operations of a sequence that were accepted, in order.\<close>

fun accepted_ops :: "('op \<Rightarrow> 's \<Rightarrow> ('e, 's) result) \<Rightarrow> 'op list \<Rightarrow> 's \<Rightarrow> 'op list" where
  "accepted_ops step [] s = []"
| "accepted_ops step (op # ops) s =
     (case step op s of
        Inl _ \<Rightarrow> accepted_ops step ops s
      | Inr t \<Rightarrow> op # accepted_ops step ops t)"

lemma accepted_settled: "approval_settled a \<Longrightarrow> accepted_ops approval_step ops a = []"
  using approval_life.step_needs by (induction ops) (auto split: sum.splits)

lemma accepted_approval:
  assumes "ra_state a = ApprovalPending"
  shows "(case accepted_ops approval_step ops a of
      [] \<Rightarrow> run_ops approval_step ops a = a
    | [OpRespond r now] \<Rightarrow>
        ra_state (run_ops approval_step ops a) = ApprovalResolved
        \<and> ra_decision (run_ops approval_step ops a) = rs_decision r
        \<and> validate_against r (ra_request a) now = Inr ()
    | [OpCancelApproval] \<Rightarrow> ra_state (run_ops approval_step ops a) = ApprovalCanceled
    | _ \<Rightarrow> False)"
  using assms
proof (induction ops arbitrary: a)
  case (Cons op ops)
  show ?case
  proof (cases "approval_step op a")
    case (Inl e)
    then have same: "accepted_ops approval_step (op # ops) a = accepted_ops approval_step ops a"
      "run_ops approval_step (op # ops) a = run_ops approval_step ops a"
      by (simp_all add: advance_def)
    from Cons.IH [OF Cons.prems] show ?thesis unfolding same .
  next
    case (Inr b)
    note step = approval_step_result [OF Inr]
    then have settled: "approval_settled b" by (auto simp: approval_settled_def split: approval_op.splits)
    from accepted_settled [OF settled] approval_life.run_frozen [OF settled] step Inr show ?thesis
      by (cases op) (simp_all add: advance_def)
  qed
qed simp

text \<open>
  C39. A runtime approval is answered at most once. Out of any sequence of responses and
  cancellations tried on a pending approval none or one is accepted: without one the approval stays
  as it was, a response resolves it with its decision and only if it repeats every identity and the
  exact scope of the request before its expiry, and a cancellation cancels it.
\<close>

theorem approval_one_shot:
  assumes "new_runtime_approval q start = Inr a"
  shows "let b = run_ops approval_step ops a in
    ra_request b = q
    \<and> (case accepted_ops approval_step ops a of
        [] \<Rightarrow> b = a
      | [OpRespond r now] \<Rightarrow>
          ra_state b = ApprovalResolved \<and> ra_decision b = rs_decision r
          \<and> ra_decision b \<in> {ApprovalAllowOnce, ApprovalDeny}
          \<and> now < ar_expires_at q \<and> rs_request_id r = ar_request_id q \<and> rs_thread_id r = ar_thread_id q
          \<and> rs_operation_id r = ar_operation_id q \<and> rs_correlation_id r = ar_correlation_id q
          \<and> rs_turn_ref r = ar_turn_ref q \<and> rs_scope r = ar_scope q
      | [OpCancelApproval] \<Rightarrow> ra_state b = ApprovalCanceled
      | _ \<Rightarrow> False)"
proof -
  from assms have a: "ra_state a = ApprovalPending" "ra_request a = q"
    by (auto simp: new_runtime_approval_def split: if_splits)
  have against: "validate_against r q now = Inr () \<Longrightarrow>
      rs_decision r \<in> {ApprovalAllowOnce, ApprovalDeny} \<and> now < ar_expires_at q
      \<and> rs_request_id r = ar_request_id q \<and> rs_thread_id r = ar_thread_id q
      \<and> rs_operation_id r = ar_operation_id q \<and> rs_correlation_id r = ar_correlation_id q
      \<and> rs_turn_ref r = ar_turn_ref q \<and> rs_scope r = ar_scope q"
    for r now by (auto simp: validate_against_def time_defs Let_def split: if_splits)
  have "ra_request (run_ops approval_step ops a) = q" using approval_life.run_keeps [where s = a and ops = ops] a by simp
  with accepted_approval [OF a(1), of ops] a(2) against show ?thesis
    by (auto simp: Let_def split: list.splits approval_op.splits)
qed

definition sample_approval_request :: approval_request where
  "sample_approval_request =
     \<lparr>ar_request_id = ''q'', ar_thread_id = ''t'', ar_operation_id = ''o'', ar_correlation_id = ''c'',
      ar_turn_ref = ''r'',
      ar_scope = \<lparr>as_kind = RuntimeApprovalTool, as_executable = [], as_arguments_digest = [],
        as_path = PermissionRoot [], as_tool = ''x''\<rparr>,
      ar_expires_at = 10\<rparr>"

definition sample_approval_response :: approval_response where
  "sample_approval_response =
     \<lparr>rs_request_id = ''q'', rs_thread_id = ''t'', rs_operation_id = ''o'', rs_correlation_id = ''c'',
      rs_turn_ref = ''r'', rs_scope = ar_scope sample_approval_request, rs_decision = ApprovalDeny\<rparr>"

lemma approval_one_shot_witness:
  "\<exists>a. new_runtime_approval sample_approval_request 1 = Inr a
    \<and> (let b = run_ops approval_step [OpRespond sample_approval_response 2, OpCancelApproval] a in
       ra_state b = ApprovalResolved \<and> ra_decision b = ApprovalDeny)"
proof -
  have ascii: "utf8_valid v" if "list_all (\<lambda>c. byte c < 128) v" for v
    using ascii_runes that by blast
  have scope: "approval_scope_valid default_validation_limits (ar_scope sample_approval_request)"
    by (simp add: sample_approval_request_def approval_scope_valid_def bounded_text_def
        default_validation_limits_def limits_valid_def ascii ctl_iff)
  note checks = bounded_text_def opaque_ref_valid_def opaque_text_def local_id_text_def ascii ctl_iff
    time_defs Let_def
  have "approval_request_valid_at 1 sample_approval_request"
    using scope by (simp add: approval_request_valid_at_def checks)
      (simp add: sample_approval_request_def default_validation_limits_def ascii ctl_iff)
  then obtain a where a: "new_runtime_approval sample_approval_request 1 = Inr a"
    by (simp add: new_runtime_approval_def)
  then have pending: "ra_state a = ApprovalPending" "ra_request a = sample_approval_request"
    by (auto simp: new_runtime_approval_def split: if_splits)
  have "validate_against sample_approval_response sample_approval_request 2 = Inr ()"
    using scope
    by (simp add: validate_against_def checks sample_approval_response_def)
      (simp add: sample_approval_request_def default_validation_limits_def ascii ctl_iff)
  then have "\<exists>b. approval_step (OpRespond sample_approval_response 2) a = Inr b"
    using pending by (simp add: respond_approval_def response_validation_def)
  then obtain b where b: "approval_step (OpRespond sample_approval_response 2) a = Inr b" ..
  have "approval_settled b" using approval_step_result [OF b] by (simp add: approval_settled_def)
  from accepted_settled [OF this, of "[OpCancelApproval]"] b
  have "accepted_ops approval_step [OpRespond sample_approval_response 2, OpCancelApproval] a
      = [OpRespond sample_approval_response 2]"
    by (simp del: approval_step.simps)
  with approval_one_shot [OF a, of "[OpRespond sample_approval_response 2, OpCancelApproval]"] a
  have "let b = run_ops approval_step [OpRespond sample_approval_response 2, OpCancelApproval] a in
      ra_state b = ApprovalResolved \<and> ra_decision b = rs_decision sample_approval_response"
    by (simp add: Let_def del: run_ops_simps accepted_ops.simps)
  then show ?thesis using a by (auto simp: sample_approval_response_def)
qed

subsection \<open>Events\<close>

datatype event_kind =
    EventConnectionChanged | EventCapabilitiesChanged | EventAccountChanged | EventRateLimitChanged
  | EventDisconnected | EventConversationStarted | EventConversationResumed
  | EventConversationFailed | EventTurnStarted | EventTurnDelta | EventTurnCompleted
  | EventTurnFailed | EventMessageStarted | EventMessageDelta | EventMessageCompleted
  | EventCommandStarted | EventCommandCompleted | EventToolActivity | EventFileActivity
  | EventRuntimeApprovalRequested | EventRuntimeApprovalResolved | EventProviderError
  | EventKindOther bytes

record provider_event =
  pe_kind :: event_kind
  pe_sequence :: nat
  pe_thread_id :: review_thread_id
  pe_operation_id :: operation_id
  pe_correlation_id :: correlation_id
  pe_conversation_id :: provider_conversation_id
  pe_conversation_ref :: provider_conversation_ref
  pe_turn_id :: provider_turn_id
  pe_turn_ref :: provider_turn_ref
  pe_item_ref :: bytes
  pe_request_id :: provider_request_id
  pe_capabilities :: provider_capabilities
  pe_status :: bytes
  pe_text :: bytes
  pe_error :: bytes
  pe_expires_at :: instant
  pe_scope :: approval_scope
  pe_approval :: "runtime_approval option"
  pe_decision :: approval_decision
  pe_coalescing_key :: bytes
  pe_coalescible :: bool

definition valid_event_kind :: "event_kind \<Rightarrow> bool" where
  "valid_event_kind k \<longleftrightarrow> (case k of EventKindOther _ \<Rightarrow> False | _ \<Rightarrow> True)"

definition event_needs_turn :: "event_kind \<Rightarrow> bool" where
  "event_needs_turn k \<longleftrightarrow>
     k \<in> {EventTurnStarted, EventTurnDelta, EventTurnCompleted, EventTurnFailed, EventMessageStarted,
          EventMessageDelta, EventMessageCompleted, EventCommandStarted, EventCommandCompleted,
          EventToolActivity, EventFileActivity, EventRuntimeApprovalRequested,
          EventRuntimeApprovalResolved}"

definition event_needs_conversation :: "event_kind \<Rightarrow> bool" where
  "event_needs_conversation k \<longleftrightarrow>
     k \<in> {EventConversationStarted, EventConversationResumed, EventConversationFailed,
          EventTurnStarted, EventTurnDelta, EventTurnCompleted, EventTurnFailed, EventMessageStarted,
          EventMessageDelta, EventMessageCompleted, EventCommandStarted, EventCommandCompleted,
          EventToolActivity, EventFileActivity, EventRuntimeApprovalRequested,
          EventRuntimeApprovalResolved}"

definition event_needs_identity :: "event_kind \<Rightarrow> bool" where
  "event_needs_identity k \<longleftrightarrow>
     k \<in> {EventConversationStarted, EventConversationResumed, EventConversationFailed,
          EventTurnStarted, EventTurnDelta, EventTurnCompleted, EventTurnFailed, EventMessageStarted,
          EventMessageDelta, EventMessageCompleted, EventCommandStarted, EventCommandCompleted,
          EventToolActivity, EventFileActivity, EventRuntimeApprovalRequested,
          EventRuntimeApprovalResolved}"

text \<open>What the kinds of event need on their own.\<close>

definition event_content_ok :: "validation_limits \<Rightarrow> provider_event \<Rightarrow> bool" where
  "event_content_ok l e \<longleftrightarrow>
     (case pe_kind e of
        EventConversationStarted \<Rightarrow> pe_status e \<noteq> []
      | EventConversationResumed \<Rightarrow> pe_status e \<noteq> []
      | EventConversationFailed \<Rightarrow> pe_error e \<noteq> []
      | EventTurnFailed \<Rightarrow> pe_error e \<noteq> []
      | EventProviderError \<Rightarrow> pe_error e \<noteq> []
      | EventTurnDelta \<Rightarrow> pe_text e \<noteq> []
      | EventMessageDelta \<Rightarrow> pe_text e \<noteq> []
      | EventRuntimeApprovalRequested \<Rightarrow>
          pe_request_id e \<noteq> [] \<and> \<not> is_zero_time (pe_expires_at e) \<and> approval_scope_valid l (pe_scope e)
          \<and> (case pe_approval e of
               None \<Rightarrow> False
             | Some a \<Rightarrow>
                 ar_request_id (ra_request a) = pe_request_id e \<and> ar_scope (ra_request a) = pe_scope e
                 \<and> ar_expires_at (ra_request a) = pe_expires_at e
                 \<and> \<not> length (ad_exact_command_args (ra_details a)) > vl_turn_content_bytes l
                 \<and> \<not> length (ad_network_target (ra_details a)) > vl_path_bytes l
                 \<and> \<not> length (ad_tool_name (ra_details a)) > vl_method_bytes l)
      | EventRuntimeApprovalResolved \<Rightarrow>
          pe_request_id e \<noteq> [] \<and> approval_scope_valid l (pe_scope e)
          \<and> (pe_decision e = ApprovalAllowOnce \<or> pe_decision e = ApprovalDeny)
      | _ \<Rightarrow> True)"

definition provider_event_valid :: "validation_limits \<Rightarrow> provider_event \<Rightarrow> bool" where
  "provider_event_valid l e \<longleftrightarrow>
     limits_valid l \<and> valid_event_kind (pe_kind e) \<and> pe_sequence e \<noteq> 0
     \<and> (pe_conversation_id e \<noteq> [] \<longrightarrow> local_id_text (pe_conversation_id e) l)
     \<and> (pe_conversation_ref e \<noteq> [] \<longrightarrow> opaque_ref_valid (pe_conversation_ref e))
     \<and> (pe_turn_id e \<noteq> [] \<longrightarrow> local_id_text (pe_turn_id e) l)
     \<and> (pe_turn_ref e \<noteq> [] \<longrightarrow> opaque_ref_valid (pe_turn_ref e))
     \<and> bounded_text (pe_item_ref e) (vl_opaque_ref_bytes l) True
     \<and> (pe_request_id e \<noteq> [] \<longrightarrow> opaque_ref_valid (pe_request_id e))
     \<and> (pe_correlation_id e \<noteq> [] \<longrightarrow> opaque_ref_valid (pe_correlation_id e))
     \<and> bounded_text (pe_status e) (vl_display_bytes l) True
     \<and> bounded_text (pe_text e) (vl_turn_content_bytes l) True
     \<and> bounded_text (pe_error e) (vl_human_error_bytes l) True
     \<and> bounded_text (pe_coalescing_key e) (vl_coalescing_key_bytes l) True
     \<and> (event_needs_identity (pe_kind e) \<longrightarrow>
          local_id_text (pe_thread_id e) l \<and> local_id_text (pe_operation_id e) l
          \<and> pe_correlation_id e \<noteq> [])
     \<and> (event_needs_conversation (pe_kind e) \<longrightarrow> pe_conversation_id e \<noteq> [] \<and> pe_conversation_ref e \<noteq> [])
     \<and> (event_needs_turn (pe_kind e) \<longrightarrow> pe_turn_id e \<noteq> [] \<and> pe_turn_ref e \<noteq> [])
     \<and> (pe_coalescible e \<longrightarrow> pe_kind e = EventMessageDelta \<and> pe_coalescing_key e \<noteq> [])
     \<and> event_content_ok l e"

text \<open>The cursor of \<^verbatim>\<open>EventOrder\<close> is its last accepted sequence number.\<close>

definition accept_event :: "provider_event \<Rightarrow> nat option \<Rightarrow> (provider_error, nat) result" where
  "accept_event e cursor =
     (case cursor of
        None \<Rightarrow> Inl ErrInvalidEvent
      | Some last_sequence \<Rightarrow>
          if \<not> provider_event_valid default_validation_limits e then Inl ErrInvalidEvent
          else if pe_sequence e \<le> last_sequence then Inl ErrEventOutOfOrder
          else Inr (pe_sequence e))"

lemma accept_event_iff:
  "accept_event e (Some n) = Inr m \<longleftrightarrow>
     provider_event_valid default_validation_limits e \<and> n < pe_sequence e \<and> m = pe_sequence e"
  by (auto simp: accept_event_def)

text \<open>The sequence numbers of the accepted events increase strictly.\<close>

lemma accepted_sequences:
  "sorted_wrt (<) (n # map pe_sequence (accepted_ops (\<lambda>e n. accept_event e (Some n)) es n))"
proof (induction es arbitrary: n)
  case (Cons e es)
  show ?case
  proof (cases "accept_event e (Some n)")
    case (Inl err)
    then show ?thesis using Cons [of n] by simp
  next
    case (Inr m)
    then have "n < m" "m = pe_sequence e" by (simp_all add: accept_event_iff)
    then show ?thesis using Cons [of m] Inr by (auto intro: less_trans)
  qed
qed simp

end
