(* ===== verification/App_State.thy ===== *)
theory App_State
  imports Threads Proposals Provider "HOL-Library.AList"
begin

text \<open>
  The canonical state of the application and what it shows (\<^verbatim>\<open>internal/app/state.go\<close>,
  \<^verbatim>\<open>operation.go\<close>, \<^verbatim>\<open>snapshot.go\<close> and \<^verbatim>\<open>event.go\<close>). The Go map of operations is an association
  list with distinct keys; every observation of it is sorted. The provider status is carried along
  unchanged, so its type is a parameter. Copies made against aliasing are copies of values here.
\<close>

subsection \<open>Operations\<close>

datatype operation_kind =
    OperationOpenRepository | OperationSelectTarget | OperationSelectFile | OperationRefreshTarget
  | OperationRequestProposal | OperationRefreshProposal | OperationApproveProposal
  | OperationRejectProposal | OperationDiscardProposalResult | OperationKindOther bytes

datatype operation_status =
    OperationStatusRunning | OperationStatusCancelling | OperationStatusSucceeded
  | OperationStatusCancelled | OperationStatusFailed | OperationStatusOther bytes

record operation_state =
  os_id :: operation_id
  os_kind :: operation_kind
  os_status :: operation_status
  os_correlation_id :: correlation_id
  os_target_generation :: nat
  os_started_at :: instant
  os_finished_at :: instant
  os_cancellable :: bool
  os_error_code :: error_code
  os_message :: bytes

definition operation_active :: "operation_state \<Rightarrow> bool" where
  "operation_active o1 \<longleftrightarrow>
     os_status o1 = OperationStatusRunning \<or> os_status o1 = OperationStatusCancelling"

type_synonym operations = "(operation_id \<times> operation_state) list"

subsection \<open>Projections\<close>

record tree_entry_summary =
  ts_path :: repo_path
  ts_entry_kind :: file_kind
  ts_mode_class :: git_mode_class
  ts_changed :: bool
  ts_lazy_child :: bool

record changed_file_summary =
  cs_old_path :: repo_path
  cs_new_path :: repo_path
  cs_kind :: change_kind
  cs_old_kind :: file_kind
  cs_new_kind :: file_kind
  cs_old_mode :: nat
  cs_new_mode :: nat
  cs_mode_transition :: "mode_transition option"
  cs_binary :: bool

record thread_summary =
  sm_id :: review_thread_id
  sm_session_id :: review_session_id
  sm_title :: bytes
  sm_status :: bytes
  sm_resolution :: resolution_state
  sm_conversation :: conversation_state
  sm_proposal :: proposal_state
  sm_anchor :: anchor_state
  sm_anchor_side :: diff_side
  sm_anchor_start_line :: int
  sm_anchor_end_line :: int
  sm_read :: read_state
  sm_failure_phase :: failure_phase
  sm_error_code :: error_code
  sm_anchor_path :: repo_path
  sm_unread :: bool
  sm_provider_conversation_id :: "provider_conversation_id option"
  sm_latest_proposal_id :: "proposal_id option"
  sm_updated_at :: instant

record thread_detail =
  td_summary :: thread_summary
  td_message_count :: nat

record thread_cursor =
  tc_session_id :: review_session_id
  tc_revision :: nat
  tc_updated_at :: instant
  tc_id :: review_thread_id
  tc_filter_key :: bytes

record thread_page =
  tg_session_id :: review_session_id
  tg_limit :: nat
  tg_filter_key :: bytes
  tg_cursor :: "thread_cursor option"

record thread_window =
  tw_items :: "thread_summary list"
  tw_query :: thread_page
  tw_next_cursor :: "thread_cursor option"
  tw_total_count :: nat
  tw_revision :: nat

definition empty_thread_window :: thread_window where
  "empty_thread_window =
     \<lparr>tw_items = [],
      tw_query = \<lparr>tg_session_id = [], tg_limit = 0, tg_filter_key = [], tg_cursor = None\<rparr>,
      tw_next_cursor = None, tw_total_count = 0, tw_revision = 0\<rparr>"

record notification =
  nt_level :: bytes
  nt_code :: error_code
  nt_message :: bytes

record repository_state =
  rst_repository :: repository
  rst_worktree :: "worktree_ref option"

definition repository_state_valid :: "repository_state \<Rightarrow> bool" where
  "repository_state_valid s \<longleftrightarrow>
     repository_valid (rst_repository s)
     \<and> opt_all (\<lambda>w. worktree_ref_valid w \<and> wt_repository_id w = rp_id (rst_repository s))
         (rst_worktree s)"

record 'p app_state =
  ap_revision :: nat
  ap_repository :: "repository_state option"
  ap_session_id :: "review_session_id option"
  ap_target :: "resolved_target option"
  ap_tree :: "tree_entry_summary list"
  ap_changed_files :: "changed_file_summary list"
  ap_thread_window :: thread_window
  ap_active_file :: "repo_path option"
  ap_active_thread :: "review_thread_id option"
  ap_active_thread_detail :: "thread_detail option"
  ap_provider :: 'p
  ap_operations :: operations
  ap_notifications :: "notification list"

definition new_state :: "'p \<Rightarrow> 'p app_state" where
  "new_state disconnected =
     \<lparr>ap_revision = 0, ap_repository = None, ap_session_id = None, ap_target = None, ap_tree = [],
      ap_changed_files = [], ap_thread_window = empty_thread_window, ap_active_file = None,
      ap_active_thread = None, ap_active_thread_detail = None, ap_provider = disconnected,
      ap_operations = [], ap_notifications = []\<rparr>"

definition target_generation :: "resolved_target option \<Rightarrow> nat" where
  "target_generation t = (case t of None \<Rightarrow> 0 | Some t \<Rightarrow> rt_generation t)"

subsection \<open>Snapshots\<close>

record repository_summary =
  ry_id :: repository_id
  ry_display_name :: bytes
  ry_worktree_id :: worktree_id
  ry_branch_name :: bytes
  ry_detached :: bool

record target_summary =
  ty_present :: bool
  ty_spec :: target_spec
  ty_generation :: nat
  ty_editable :: bool
  ty_edit_destination :: "worktree_id option"
  ty_fingerprint :: bytes
  ty_dirty_worktree :: bool
  ty_no_fetch_warning :: bool
  ty_base_branch_source :: bytes
  ty_branch_ref :: bytes
  ty_base_branch_ref :: bytes
  ty_base_object_id :: object_id
  ty_parent_label :: bytes
  ty_merge_base :: object_id
  ty_head_object_id :: object_id

record file_view =
  fv_path :: repo_path
  fv_target_generation :: nat

record 'p app_snapshot =
  sp_revision :: nat
  sp_repository :: repository_summary
  sp_session_id :: "review_session_id option"
  sp_target :: target_summary
  sp_tree :: "tree_entry_summary list"
  sp_changed_files :: "changed_file_summary list"
  sp_threads :: "thread_summary list"
  sp_thread_window :: thread_window
  sp_active_thread :: "thread_detail option"
  sp_active_file :: "file_view option"
  sp_provider :: 'p
  sp_operations :: "operation_state list"
  sp_notifications :: "notification list"

definition summarize_repository :: "repository_state option \<Rightarrow> repository_summary" where
  "summarize_repository r =
     (case r of
        None \<Rightarrow> \<lparr>ry_id = [], ry_display_name = [], ry_worktree_id = [], ry_branch_name = [],
                  ry_detached = False\<rparr>
      | Some s \<Rightarrow>
          (case rst_worktree s of
             None \<Rightarrow> \<lparr>ry_id = rp_id (rst_repository s), ry_display_name = rp_display_name (rst_repository s),
                      ry_worktree_id = [], ry_branch_name = [], ry_detached = False\<rparr>
           | Some w \<Rightarrow> \<lparr>ry_id = rp_id (rst_repository s), ry_display_name = rp_display_name (rst_repository s),
                      ry_worktree_id = wt_id w, ry_branch_name = wt_branch_name w,
                      ry_detached = wt_detached w\<rparr>))"

definition summarize_target :: "resolved_target option \<Rightarrow> target_summary" where
  "summarize_target t =
     (case t of
        None \<Rightarrow>
          \<lparr>ty_present = False,
           ty_spec = \<lparr>ts_kind = TargetOther [], ts_commit_expression = [], ts_parent_expression = [],
                     ts_base_branch = []\<rparr>,
           ty_generation = 0, ty_editable = False, ty_edit_destination = None, ty_fingerprint = [],
           ty_dirty_worktree = False, ty_no_fetch_warning = False, ty_base_branch_source = [],
           ty_branch_ref = [], ty_base_branch_ref = [], ty_base_object_id = [],
           ty_parent_label = [], ty_merge_base = [], ty_head_object_id = []\<rparr>
      | Some t \<Rightarrow>
          \<lparr>ty_present = True, ty_spec = rt_spec t, ty_generation = rt_generation t,
           ty_editable = rt_editable t, ty_edit_destination = rt_edit_destination t,
           ty_fingerprint = rt_fingerprint t, ty_dirty_worktree = rt_dirty_worktree t,
           ty_no_fetch_warning = rt_no_fetch_warning t,
           ty_base_branch_source = rt_base_branch_source t, ty_branch_ref = rt_branch_ref t,
           ty_base_branch_ref = rt_base_branch_ref t,
           ty_base_object_id =
             (if ts_kind (rt_spec t) = TargetCommit then sr_object_id (rt_base t)
              else rt_resolved_base_ref t),
           ty_parent_label = rt_parent_label t, ty_merge_base = rt_merge_base t,
           ty_head_object_id = rt_resolved_commit t\<rparr>)"

definition empty_thread_summary :: "review_thread_id \<Rightarrow> thread_summary" where
  "empty_thread_summary i =
     \<lparr>sm_id = i, sm_session_id = [], sm_title = [], sm_status = [],
      sm_resolution = ResolutionOther [], sm_conversation = ConversationOther [],
      sm_proposal = ProposalStateOther [], sm_anchor = AnchorStateOther [],
      sm_anchor_side = DiffSideOther [], sm_anchor_start_line = 0, sm_anchor_end_line = 0,
      sm_read = ReadStateOther [], sm_failure_phase = [], sm_error_code = [], sm_anchor_path = [],
      sm_unread = False, sm_provider_conversation_id = None, sm_latest_proposal_id = None,
      sm_updated_at = 0\<rparr>"

definition snapshot_from_state :: "'p app_state \<Rightarrow> 'p app_snapshot" where
  "snapshot_from_state s =
     \<lparr>sp_revision = ap_revision s, sp_repository = summarize_repository (ap_repository s),
      sp_session_id = ap_session_id s, sp_target = summarize_target (ap_target s),
      sp_tree = ap_tree s, sp_changed_files = ap_changed_files s,
      sp_threads = tw_items (ap_thread_window s), sp_thread_window = ap_thread_window s,
      sp_active_thread =
        (case ap_active_thread_detail s of
           Some d \<Rightarrow> Some d
         | None \<Rightarrow>
             map_option (\<lambda>i. \<lparr>td_summary = empty_thread_summary i, td_message_count = 0\<rparr>)
               (ap_active_thread s)),
      sp_active_file =
        map_option (\<lambda>p. \<lparr>fv_path = p, fv_target_generation = target_generation (ap_target s)\<rparr>)
          (ap_active_file s),
      sp_provider = ap_provider s,
      sp_operations = sort_key os_id (map snd (ap_operations s)),
      sp_notifications = ap_notifications s\<rparr>"

subsection \<open>Events\<close>

record event_head =
  eh_revision :: nat
  eh_operation_id :: operation_id
  eh_correlation_id :: correlation_id
  eh_target_generation :: nat

datatype provider_turn_state =
    ProviderTurnPrepared | ProviderTurnStarted | ProviderTurnSteering | ProviderTurnInterrupted
  | ProviderTurnUnknown | ProviderTurnCompleted | ProviderTurnFailed | ProviderTurnPossibleOrphan
  | ProviderTurnStateOther bytes

text \<open>
  The event structs share their first four fields, which are the head here. The structs that lack
  one of them have the zero value for it in their metadata.
\<close>

datatype event =
    OperationStarted event_head operation_kind
  | OperationCompleted event_head operation_kind
  | RepositoryLoaded event_head repository_state
  | TargetLoaded event_head resolved_target
  | SessionRestored event_head review_session_id bool bytes bool
  | FileSelected event_head repo_path
  | Progress event_head bytes bytes
  | OperationFailed event_head error_code bytes
  | OperationCancelled event_head bytes
  | ApplicationClosed nat
  | ThreadCreated event_head review_session_id review_thread_id message_id bytes repo_path
  | ThreadActivated event_head review_session_id review_thread_id
  | MessageAppended event_head review_session_id review_thread_id message_id message_role message_status
  | ThreadResolutionChanged event_head review_session_id review_thread_id bool
  | ThreadReadChanged event_head review_session_id review_thread_id bool
  | AnchorReattached nat correlation_id nat review_session_id review_thread_id nat repo_path int int bytes
  | TargetReconciled event_head review_session_id nat bytes
  | ProposalValidityProgress event_head nat nat nat bytes
  | ProposalValidityEpochCompleted event_head nat
  | WorkspaceBaselineAdvanced event_head workspace_id
  | ProviderConversationAttached nat provider_conversation_id review_thread_id bytes operation_id correlation_id
  | ProviderTurnStateChanged nat provider_turn_id provider_conversation_id review_thread_id
      provider_turn_state error_code operation_id correlation_id
  | RuntimeApprovalDecisionRequested nat provider_request_id provider_turn_ref approval_decision correlation_id

definition head_at :: "nat \<Rightarrow> event_head \<Rightarrow> event_head" where
  "head_at n h = h\<lparr>eh_revision := n\<rparr>"

fun with_revision :: "nat \<Rightarrow> event \<Rightarrow> event" where
  "with_revision n (OperationStarted h k) = OperationStarted (head_at n h) k"
| "with_revision n (OperationCompleted h k) = OperationCompleted (head_at n h) k"
| "with_revision n (RepositoryLoaded h r) = RepositoryLoaded (head_at n h) r"
| "with_revision n (TargetLoaded h t) = TargetLoaded (head_at n h) t"
| "with_revision n (SessionRestored h s ro p d) = SessionRestored (head_at n h) s ro p d"
| "with_revision n (FileSelected h p) = FileSelected (head_at n h) p"
| "with_revision n (Progress h k m) = Progress (head_at n h) k m"
| "with_revision n (OperationFailed h c m) = OperationFailed (head_at n h) c m"
| "with_revision n (OperationCancelled h r) = OperationCancelled (head_at n h) r"
| "with_revision n (ApplicationClosed _) = ApplicationClosed n"
| "with_revision n (ThreadCreated h s t m title p) = ThreadCreated (head_at n h) s t m title p"
| "with_revision n (ThreadActivated h s t) = ThreadActivated (head_at n h) s t"
| "with_revision n (MessageAppended h s t m ro st) = MessageAppended (head_at n h) s t m ro st"
| "with_revision n (ThreadResolutionChanged h s t r) = ThreadResolutionChanged (head_at n h) s t r"
| "with_revision n (ThreadReadChanged h s t r) = ThreadReadChanged (head_at n h) s t r"
| "with_revision n (AnchorReattached _ c g s t v p a b f) = AnchorReattached n c g s t v p a b f"
| "with_revision n (TargetReconciled h s g p) = TargetReconciled (head_at n h) s g p"
| "with_revision n (ProposalValidityProgress h a b c k) = ProposalValidityProgress (head_at n h) a b c k"
| "with_revision n (ProposalValidityEpochCompleted h e) = ProposalValidityEpochCompleted (head_at n h) e"
| "with_revision n (WorkspaceBaselineAdvanced h w) = WorkspaceBaselineAdvanced (head_at n h) w"
| "with_revision n (ProviderConversationAttached _ c t r op k) = ProviderConversationAttached n c t r op k"
| "with_revision n (ProviderTurnStateChanged _ u c t s e op k) = ProviderTurnStateChanged n u c t s e op k"
| "with_revision n (RuntimeApprovalDecisionRequested _ q t d k) = RuntimeApprovalDecisionRequested n q t d k"

text \<open>The metadata is the head with the coalescing key; a key makes an event coalescible.\<close>

definition bare_head :: "nat \<Rightarrow> operation_id \<Rightarrow> correlation_id \<Rightarrow> nat \<Rightarrow> event_head" where
  "bare_head n op c g =
     \<lparr>eh_revision = n, eh_operation_id = op, eh_correlation_id = c, eh_target_generation = g\<rparr>"

fun event_metadata :: "event \<Rightarrow> event_head \<times> bytes \<times> bool" where
  "event_metadata (OperationStarted h _) = (h, [], False)"
| "event_metadata (OperationCompleted h _) = (h, [], False)"
| "event_metadata (RepositoryLoaded h _) = (h, [], False)"
| "event_metadata (TargetLoaded h _) = (h, [], False)"
| "event_metadata (SessionRestored h _ _ _ _) = (h, [], False)"
| "event_metadata (FileSelected h _) = (h, [], False)"
| "event_metadata (Progress h k _) = (h, k, k \<noteq> [])"
| "event_metadata (OperationFailed h _ _) = (h, [], False)"
| "event_metadata (OperationCancelled h _) = (h, [], False)"
| "event_metadata (ApplicationClosed n) = (bare_head n [] [] 0, [], False)"
| "event_metadata (ThreadCreated h _ _ _ _ _) = (h, [], False)"
| "event_metadata (ThreadActivated h _ _) = (h, [], False)"
| "event_metadata (MessageAppended h _ _ _ _ _) = (h, [], False)"
| "event_metadata (ThreadResolutionChanged h _ _ _) = (h, [], False)"
| "event_metadata (ThreadReadChanged h _ _ _) = (h, [], False)"
| "event_metadata (AnchorReattached n c g _ _ _ _ _ _ _) = (bare_head n [] c g, [], False)"
| "event_metadata (TargetReconciled h _ _ _) = (h, [], False)"
| "event_metadata (ProposalValidityProgress h _ _ _ k) = (h, k, k \<noteq> [])"
| "event_metadata (ProposalValidityEpochCompleted h _) = (h, [], False)"
| "event_metadata (WorkspaceBaselineAdvanced h _) = (h, [], False)"
| "event_metadata (ProviderConversationAttached n _ _ _ op k) = (bare_head n op k 0, [], False)"
| "event_metadata (ProviderTurnStateChanged n _ _ _ _ _ op k) = (bare_head n op k 0, [], False)"
| "event_metadata (RuntimeApprovalDecisionRequested n _ _ _ k) = (bare_head n [] k 0, [], False)"

definition event_revision :: "event \<Rightarrow> nat" where
  "event_revision e = eh_revision (fst (event_metadata e))"

lemma event_revision_with [simp]: "event_revision (with_revision n e) = n"
  by (cases e) (simp_all add: event_revision_def head_at_def bare_head_def)

lemma with_revision_metadata:
  "event_metadata (with_revision n e) = (head_at n (fst (event_metadata e)), snd (event_metadata e))"
  by (cases e) (simp_all add: head_at_def bare_head_def)

subsection \<open>The map of operations\<close>

definition operation_of :: "'p app_state \<Rightarrow> operation_id \<Rightarrow> operation_state option" where
  "operation_of s i = map_of (ap_operations s) i"

definition put_operation :: "operation_id \<Rightarrow> operation_state \<Rightarrow> 'p app_state \<Rightarrow> 'p app_state" where
  "put_operation i o1 s = s\<lparr>ap_operations := AList.update i o1 (ap_operations s)\<rparr>"

lemma operation_of_put [simp]:
  "operation_of (put_operation i o1 s) j = (if i = j then Some o1 else operation_of s j)"
  by (simp add: operation_of_def put_operation_def update_conv')

definition keys_distinct :: "'p app_state \<Rightarrow> bool" where
  "keys_distinct s \<longleftrightarrow> distinct (map fst (ap_operations s))"

lemma keys_distinct_put [simp]: "keys_distinct s \<Longrightarrow> keys_distinct (put_operation i o1 s)"
  by (simp add: keys_distinct_def put_operation_def distinct_update)

lemma operation_of_mem:
  "keys_distinct s \<Longrightarrow> operation_of s i = Some o1 \<longleftrightarrow> (i, o1) \<in> set (ap_operations s)"
  by (simp add: keys_distinct_def operation_of_def)

end
