(* ===== verification/Reducer.thy ===== *)
theory Reducer
  imports App_State
begin

text \<open>
  The reducer, the single owner of the application state (\<^verbatim>\<open>internal/app/reducer.go\<close> with its
  inputs from \<^verbatim>\<open>command.go\<close>, \<^verbatim>\<open>operation.go\<close> and \<^verbatim>\<open>threads.go\<close>). The clock, the source of
  identities and the two persistence-first services are its configuration: the clock and the
  identities are streams, of which the reducer counts the readings, and a service answers a command
  with a commit or an error.
\<close>

subsection \<open>Texts of the application\<close>

definition safe_text :: "bytes \<Rightarrow> bool" where
  "safe_text v \<longleftrightarrow>
     (if v = [] \<or> \<not> utf8_valid v \<or> trim_space v = [] then False
      else list_all (\<lambda>r. \<not> is_control r) (runes v))"

definition safe_optional_text :: "bytes \<Rightarrow> nat \<Rightarrow> bool" where
  "safe_optional_text v maximum \<longleftrightarrow>
     (if v = [] then True
      else if length v > maximum \<or> \<not> utf8_valid v then False
      else if \<not> list_all (\<lambda>r. \<not> is_control r) (runes v) then False
      else trim_space v \<noteq> [])"

definition valid_hex :: "bytes \<Rightarrow> nat \<Rightarrow> bool" where
  "valid_hex v n \<longleftrightarrow>
     length v = n \<and> list_all (\<lambda>r. r \<in> byte ` set ''0123456789abcdefABCDEF'') (runes v)"

definition valid_app_sha256 :: "bytes \<Rightarrow> bool" where
  "valid_app_sha256 v = valid_hex v 64"

definition safe_discussion_text :: "bytes \<Rightarrow> bool \<Rightarrow> bool" where
  "safe_discussion_text v allow_empty \<longleftrightarrow>
     \<not> (\<not> allow_empty \<and> trim_space v = []) \<and> utf8_valid v \<and> NUL \<notin> set v"

subsection \<open>Contexts and guards\<close>

record session_write_guard =
  sg_session_id :: review_session_id
  sg_lease_id :: bytes
  sg_writer_epoch :: nat
  sg_expected_revision :: nat

definition guard_valid :: "session_write_guard \<Rightarrow> bool" where
  "guard_valid g \<longleftrightarrow>
     sg_session_id g \<noteq> [] \<and> sg_lease_id g \<noteq> [] \<and> sg_writer_epoch g \<noteq> 0 \<and> sg_expected_revision g \<noteq> 0"

record discussion_unit =
  du_label :: bytes
  du_text :: bytes
  du_distance :: nat
  du_ordinal :: nat

record discussion_context =
  dx_target :: bytes
  dx_path :: repo_path
  dx_side :: diff_side
  dx_start_line :: int
  dx_end_line :: int
  dx_selected_text :: bytes
  dx_hunk :: bytes
  dx_user_concern :: bytes
  dx_working_dir :: bytes
  dx_related_context :: "discussion_unit list"
  dx_selected_transcript :: "discussion_unit list"

definition discussion_context_valid :: "discussion_context \<Rightarrow> bool" where
  "discussion_context_valid c \<longleftrightarrow>
     safe_discussion_text (dx_target c) False \<and> valid_repo_path (dx_path c) \<and> utf8_valid (dx_path c)
     \<and> (dx_side c = DiffBase \<or> dx_side c = DiffHead) \<and> \<not> dx_start_line c \<le> 0
     \<and> \<not> dx_end_line c < dx_start_line c \<and> safe_discussion_text (dx_user_concern c) False
     \<and> safe_discussion_text (dx_selected_text c) True \<and> safe_discussion_text (dx_hunk c) True
     \<and> (dx_working_dir c \<noteq> [] \<longrightarrow>
          is_abs (dx_working_dir c) \<and> clean_path (dx_working_dir c) = dx_working_dir c
          \<and> safe_discussion_text (dx_working_dir c) False)
     \<and> list_all (\<lambda>u. safe_discussion_text (du_label u) False \<and> safe_discussion_text (du_text u) True)
         (dx_related_context c @ dx_selected_transcript c)"

record proposal_turn_context =
  px_target :: bytes
  px_path :: repo_path
  px_side :: diff_side
  px_start_line :: int
  px_end_line :: int
  px_selected_text :: bytes
  px_hunk :: bytes
  px_user_concern :: bytes
  px_related_context :: "discussion_unit list"
  px_selected_transcript :: "discussion_unit list"

definition turn_discussion_context :: "proposal_turn_context \<Rightarrow> discussion_context" where
  "turn_discussion_context c =
     \<lparr>dx_target = px_target c, dx_path = px_path c, dx_side = px_side c,
      dx_start_line = px_start_line c, dx_end_line = px_end_line c,
      dx_selected_text = px_selected_text c, dx_hunk = px_hunk c,
      dx_user_concern = px_user_concern c, dx_working_dir = [],
      dx_related_context = px_related_context c,
      dx_selected_transcript = px_selected_transcript c\<rparr>"

definition proposal_turn_context_valid :: "proposal_turn_context \<Rightarrow> bool" where
  "proposal_turn_context_valid c = discussion_context_valid (turn_discussion_context c)"

subsection \<open>Inputs\<close>

record request_proposal =
  rq_guard :: session_write_guard
  rq_thread_id :: review_thread_id
  rq_proposal_id :: proposal_id
  rq_conversation_id :: provider_conversation_id
  rq_intent :: proposal_intent
  rq_context :: proposal_turn_context
  rq_operation_id :: operation_id
  rq_correlation_id :: correlation_id

text \<open>
  The eligibility evidence of both commands is read by the proposal services, never by the reducer,
  and is left out. Go compares the two provenances of a refresh by their fields, and the capture identity is a
  pointer: \<open>rf_same_capture_pointer\<close> says whether both point to the same variable.
\<close>

record refresh_proposal = request_proposal +
  rf_version :: version_number
  rf_provenance :: generation_provenance
  rf_same_capture_pointer :: bool
  rf_anchor_confirmed :: bool

record proposal_command =
  pc_guard :: session_write_guard
  pc_thread_id :: review_thread_id
  pc_proposal_id :: proposal_id
  pc_version :: version_number
  pc_reason :: bytes
  pc_operation_id :: operation_id
  pc_correlation_id :: correlation_id

record approve_proposal = proposal_command +
  pc_patch_sha256 :: bytes
  pc_confirmed_review_revision :: nat
  pc_review_completeness_identity :: bytes
  pc_destination :: destination_constraints
  pc_repository :: repository
  pc_worktree :: worktree_ref
  pc_idempotency_key :: bytes

datatype thread_command =
    CreateThread session_write_guard code_anchor bytes correlation_id
  | ActivateThread review_session_id review_thread_id correlation_id
  | ReplyToThread session_write_guard review_thread_id bytes correlation_id
  | ResolveThread session_write_guard review_thread_id bool correlation_id
  | MarkThreadRead session_write_guard review_thread_id correlation_id

datatype command =
    OpenRepository bytes correlation_id
  | SelectTarget target_spec correlation_id
  | RefreshTarget correlation_id
  | SelectFile repo_path correlation_id
  | OpenSession resolved_target bytes bytes correlation_id
  | CloseSession review_session_id correlation_id
  | CancelOperation operation_id correlation_id
  | RespondToRuntimeApproval approval_response correlation_id
  | RequestProposal request_proposal
  | RefreshProposal refresh_proposal
  | CancelProposal session_write_guard operation_id correlation_id
  | RejectProposal proposal_command
  | ApproveProposal approve_proposal
  | DiscardProposalResult session_write_guard proposal_id operation_id bytes operation_id correlation_id
  | Shutdown correlation_id
  | ThreadCommand thread_command
  | ReattachAnchor session_write_guard review_thread_id nat anchor_candidate bytes bytes correlation_id

text \<open>Of the events, those for loaded, failed and cancelled operations are also results.\<close>

datatype reducer_input = Command command | Result event | NilInput

datatype reducer_error =
    ErrReducerClosed | ErrRepositoryNotLoaded | ErrTargetNotLoaded | ErrOperationNotFound
  | ErrOperationNotCancellable | ErrResultDiscarded | ErrInvalidReducerInput
  | ErrEmptyCorrelationID | ErrThreadServiceUnavailable | ErrAnchorReattachmentUnavailable
  | ErrService bytes

subsection \<open>The reducer and its sources\<close>

record thread_commit =
  tm_guard :: session_write_guard
  tm_thread :: review_thread
  tm_message :: "message option"
  tm_events :: "event list"

record reducer_config =
  rc_clock :: "nat \<Rightarrow> instant"
  rc_ids :: "nat \<Rightarrow> bytes"
  rc_threads :: "(thread_command \<Rightarrow> (bytes, thread_commit) result) option"
  rc_reattachment :: "(command \<Rightarrow> (bytes, thread_commit) result) option"

record 'p reducer =
  rd_state :: "'p app_state"
  rd_closed :: bool
  rd_ticks :: nat
  rd_issued :: nat

record 'p commit =
  cm_changed :: bool
  cm_closed :: bool
  cm_snapshot :: "'p app_snapshot option"
  cm_events :: "event list"

record 'p reducer_response =
  re_operation_id :: operation_id
  re_session_guard :: "session_write_guard option"
  re_commit :: "'p commit"

type_synonym 'p outcome = "'p reducer \<times> (reducer_error, 'p reducer_response) result"

definition new_reducer :: "'p \<Rightarrow> 'p reducer" where
  "new_reducer disconnected =
     \<lparr>rd_state = new_state disconnected, rd_closed = False, rd_ticks = 0, rd_issued = 0\<rparr>"

definition read_clock :: "reducer_config \<Rightarrow> 'p reducer \<Rightarrow> instant \<times> 'p reducer" where
  "read_clock cfg r = (rc_clock cfg (rd_ticks r), r\<lparr>rd_ticks := Suc (rd_ticks r)\<rparr>)"

definition next_id :: "reducer_config \<Rightarrow> 'p reducer \<Rightarrow> bytes \<times> 'p reducer" where
  "next_id cfg r = (rc_ids cfg (rd_issued r), r\<lparr>rd_issued := Suc (rd_issued r)\<rparr>)"

definition on_state :: "('p app_state \<Rightarrow> 'p app_state) \<Rightarrow> 'p reducer \<Rightarrow> 'p reducer" where
  "on_state f r = r\<lparr>rd_state := f (rd_state r)\<rparr>"

definition refuse :: "reducer_error \<Rightarrow> 'p reducer \<Rightarrow> 'p outcome" where
  "refuse e r = (r, Inl e)"

definition commit_events :: "operation_id \<Rightarrow> event list \<Rightarrow> 'p reducer \<Rightarrow> 'p reducer \<times> 'p reducer_response" where
  "commit_events op events r =
     (let r = on_state (\<lambda>s. s\<lparr>ap_revision := ap_revision s + 1\<rparr>) r;
          n = ap_revision (rd_state r)
      in (r, \<lparr>re_operation_id = op, re_session_guard = None,
              re_commit = \<lparr>cm_changed = True, cm_closed = rd_closed r,
                           cm_snapshot = Some (snapshot_from_state (rd_state r)),
                           cm_events = map (with_revision n) events\<rparr>\<rparr>))"

definition committed :: "operation_id \<Rightarrow> event list \<Rightarrow> 'p reducer \<Rightarrow> 'p outcome" where
  "committed op events r = (let (r, resp) = commit_events op events r in (r, Inr resp))"

subsection \<open>Operations\<close>

definition finish_operation ::
    "reducer_config \<Rightarrow> operation_status \<Rightarrow> error_code \<Rightarrow> bytes \<Rightarrow> operation_state \<Rightarrow> 'p reducer
     \<Rightarrow> operation_state \<times> 'p reducer" where
  "finish_operation cfg status code message o1 r =
     (let (now, r) = read_clock cfg r in
      (o1\<lparr>os_status := status, os_cancellable := False, os_finished_at := now,
          os_error_code := code, os_message := message\<rparr>, r))"

definition finish_put ::
    "reducer_config \<Rightarrow> operation_status \<Rightarrow> error_code \<Rightarrow> bytes \<Rightarrow> operation_id \<Rightarrow> operation_state
     \<Rightarrow> 'p reducer \<Rightarrow> 'p reducer" where
  "finish_put cfg status code message i o1 r =
     (let (o2, r) = finish_operation cfg status code message o1 r in on_state (put_operation i o2) r)"

definition head_of :: "operation_state \<Rightarrow> event_head" where
  "head_of o1 = bare_head 0 (os_id o1) (os_correlation_id o1) (os_target_generation o1)"

definition CodeCancelled :: error_code where "CodeCancelled = ''cancelled''"

text \<open>Cancelling a list of operations in order; supersession and shutdown share the loop.\<close>

fun cancel_all ::
    "reducer_config \<Rightarrow> bytes \<Rightarrow> operation_id list \<Rightarrow> 'p reducer \<Rightarrow> 'p reducer \<times> event list" where
  "cancel_all cfg reason [] r = (r, [])"
| "cancel_all cfg reason (i # is) r =
     (case operation_of (rd_state r) i of
        None \<Rightarrow> cancel_all cfg reason is r
      | Some o1 \<Rightarrow>
          (let r = finish_put cfg OperationStatusCancelled CodeCancelled reason i o1 r;
               (r, events) = cancel_all cfg reason is r
           in (r, OperationCancelled (head_of o1) reason # events)))"

definition operation_family :: "operation_kind \<Rightarrow> operation_kind" where
  "operation_family k =
     (if k = OperationSelectTarget \<or> k = OperationRefreshTarget then OperationRefreshTarget else k)"

definition superseded_ids :: "operation_kind \<Rightarrow> operation_id \<Rightarrow> 'p app_state \<Rightarrow> operation_id list" where
  "superseded_ids kind replacement s =
     sort (map fst (filter (\<lambda>(i, o1). i \<noteq> replacement \<and> operation_active o1
                              \<and> operation_family (os_kind o1) = operation_family kind)
                     (ap_operations s)))"

definition supersede ::
    "reducer_config \<Rightarrow> operation_kind \<Rightarrow> operation_id \<Rightarrow> 'p reducer \<Rightarrow> 'p reducer \<times> event list" where
  "supersede cfg kind replacement r =
     cancel_all cfg ''operation superseded'' (superseded_ids kind replacement (rd_state r)) r"

definition new_operation ::
    "reducer_config \<Rightarrow> operation_kind \<Rightarrow> correlation_id \<Rightarrow> nat \<Rightarrow> bool \<Rightarrow> 'p reducer
     \<Rightarrow> 'p reducer \<times> (reducer_error, operation_state \<times> event) result" where
  "new_operation cfg kind correlation generation cancellable r =
     (let (raw, r) = next_id cfg r in
      if \<not> is_ok (new_id raw) then (r, Inl ErrInvalidReducerInput)
      else if operation_of (rd_state r) raw \<noteq> None then (r, Inl ErrInvalidReducerInput)
      else
        (let correlation = (if correlation = [] then raw else correlation) in
         if \<not> safe_text correlation then (r, Inl ErrEmptyCorrelationID)
         else
           (let (now, r) = read_clock cfg r;
                o1 = \<lparr>os_id = raw, os_kind = kind, os_status = OperationStatusRunning,
                      os_correlation_id = correlation, os_target_generation = generation,
                      os_started_at = now, os_finished_at = 0, os_cancellable = cancellable,
                      os_error_code = [], os_message = []\<rparr>
            in (on_state (put_operation raw o1) r, Inr (o1, OperationStarted (head_of o1) kind)))))"

definition start_operation ::
    "reducer_config \<Rightarrow> operation_kind \<Rightarrow> correlation_id \<Rightarrow> nat \<Rightarrow> bool \<Rightarrow> 'p reducer \<Rightarrow> 'p outcome" where
  "start_operation cfg kind correlation generation cancellable r =
     (case new_operation cfg kind correlation generation cancellable r of
        (r, Inl e) \<Rightarrow> refuse e r
      | (r, Inr (o1, started)) \<Rightarrow>
          (let (r, events) = supersede cfg kind (os_id o1) r in
           committed (os_id o1) (events @ [started]) r))"

text \<open>A response without a commit.\<close>

definition unchanged_response :: "operation_id \<Rightarrow> 'p reducer_response" where
  "unchanged_response op =
     \<lparr>re_operation_id = op, re_session_guard = None,
      re_commit = \<lparr>cm_changed = False, cm_closed = False, cm_snapshot = None, cm_events = []\<rparr>\<rparr>"

definition cancel_operation :: "reducer_config \<Rightarrow> operation_id \<Rightarrow> 'p reducer \<Rightarrow> 'p outcome" where
  "cancel_operation cfg i r =
     (case operation_of (rd_state r) i of
        None \<Rightarrow> refuse ErrOperationNotFound r
      | Some o1 \<Rightarrow>
          if \<not> operation_active o1 then (r, Inr (unchanged_response (os_id o1)))
          else if \<not> os_cancellable o1 then refuse ErrOperationNotCancellable r
          else committed (os_id o1) [OperationCancelled (head_of o1) ''operation cancelled'']
            (finish_put cfg OperationStatusCancelled CodeCancelled ''operation cancelled'' (os_id o1) o1 r))"

definition shutdown :: "reducer_config \<Rightarrow> 'p reducer \<Rightarrow> 'p outcome" where
  "shutdown cfg r =
     (let ids = sort (map fst (filter (\<lambda>(_, o1). operation_active o1) (ap_operations (rd_state r))));
          (r, events) = cancel_all cfg ''application shutdown'' ids r
      in committed [] (events @ [ApplicationClosed 0]) (r\<lparr>rd_closed := True\<rparr>))"

definition accept_result ::
    "event_head \<Rightarrow> operation_kind list \<Rightarrow> 'p app_state \<Rightarrow> (reducer_error, operation_state) result" where
  "accept_result h allowed s =
     (if eh_operation_id h = [] \<or> \<not> safe_text (eh_correlation_id h) then Inl ErrResultDiscarded
      else
        (case operation_of s (eh_operation_id h) of
           None \<Rightarrow> Inl ErrResultDiscarded
         | Some o1 \<Rightarrow>
             if \<not> operation_active o1 \<or> os_correlation_id o1 \<noteq> eh_correlation_id h
             then Inl ErrResultDiscarded
             else if allowed \<noteq> [] \<and> os_kind o1 \<notin> set allowed then Inl ErrResultDiscarded
             else if os_target_generation o1 \<noteq> 0 \<and> eh_target_generation h < os_target_generation o1
             then Inl ErrResultDiscarded
             else if ap_target s \<noteq> None \<and> eh_target_generation h \<noteq> 0
               \<and> eh_target_generation h < target_generation (ap_target s)
             then Inl ErrResultDiscarded
             else Inr o1))"

subsection \<open>Threads\<close>

definition MaxPageLimit :: nat where "MaxPageLimit = 200"

definition summarize_review_thread :: "review_thread \<Rightarrow> thread_summary" where
  "summarize_review_thread t =
     \<lparr>sm_id = th_id t, sm_session_id = th_session_id t, sm_title = th_title t, sm_status = [],
      sm_resolution = th_resolution t, sm_conversation = th_conversation t,
      sm_proposal = th_proposal t, sm_anchor = an_state (th_anchor t),
      sm_anchor_side = an_side (th_anchor t), sm_anchor_start_line = an_start_line (th_anchor t),
      sm_anchor_end_line = an_end_line (th_anchor t), sm_read = th_read t,
      sm_failure_phase = th_failure_phase t, sm_error_code = th_error_code t,
      sm_anchor_path = an_path (th_anchor t), sm_unread = (th_read t = ThreadUnread),
      sm_provider_conversation_id = th_provider_conversation_id t,
      sm_latest_proposal_id = th_latest_proposal_id t, sm_updated_at = th_updated_at t\<rparr>"

text \<open>The loop over the window replaces the first item with the identity of the summary.\<close>

fun replace_summary :: "thread_summary \<Rightarrow> thread_summary list \<Rightarrow> thread_summary list option" where
  "replace_summary x [] = None"
| "replace_summary x (y # ys) =
     (if sm_id y = sm_id x then Some (x # ys) else map_option ((#) y) (replace_summary x ys))"

definition window_with :: "thread_summary \<Rightarrow> thread_window \<Rightarrow> thread_window" where
  "window_with x w =
     (case replace_summary x (tw_items w) of
        Some items \<Rightarrow> w\<lparr>tw_items := items\<rparr>
      | None \<Rightarrow>
          w\<lparr>tw_total_count := tw_total_count w + 1,
            tw_items := (if length (tw_items w) < MaxPageLimit then tw_items w @ [x] else tw_items w)\<rparr>)"

definition valid_guard :: "session_write_guard \<Rightarrow> session_write_guard option" where
  "valid_guard g = (if guard_valid g then Some g else None)"

definition thread_detail_of :: "'p app_state \<Rightarrow> thread_commit \<Rightarrow> thread_detail" where
  "thread_detail_of s tm =
     (let t = summarize_review_thread (tm_thread tm);
          n = length (th_messages (tm_thread tm));
          n = (case (ap_active_thread s, ap_active_thread_detail s) of
                 (Some i, Some d) \<Rightarrow> if i = sm_id t \<and> td_message_count d > n then td_message_count d else n
               | _ \<Rightarrow> n);
          n = (case tm_message tm of
                 Some m \<Rightarrow> if msg_ordinal m > n then msg_ordinal m else n
               | None \<Rightarrow> n)
      in \<lparr>td_summary = t, td_message_count = n\<rparr>)"

fun activate_threads :: "thread_detail \<Rightarrow> event list \<Rightarrow> 'p app_state \<Rightarrow> 'p app_state" where
  "activate_threads d [] s = s"
| "activate_threads d (ThreadActivated h session i # es) s =
     activate_threads d es (s\<lparr>ap_active_thread := Some i, ap_active_thread_detail := Some d\<rparr>)"
| "activate_threads d (e # es) s = activate_threads d es s"

definition apply_thread_commit :: "thread_commit \<Rightarrow> 'p app_state \<Rightarrow> 'p app_state" where
  "apply_thread_commit tm s =
     (let t = summarize_review_thread (tm_thread tm);
          d = thread_detail_of s tm;
          w = (window_with t (ap_thread_window s))\<lparr>tw_revision := ap_revision s + 1\<rparr>;
          s = activate_threads d (tm_events tm) (s\<lparr>ap_thread_window := w\<rparr>)
      in if ap_active_thread s = Some (sm_id t) then s\<lparr>ap_active_thread_detail := Some d\<rparr> else s)"

definition commit_thread :: "thread_commit \<Rightarrow> 'p reducer \<Rightarrow> 'p outcome" where
  "commit_thread tm r =
     (if tm_events tm = [] then
        (r, Inr \<lparr>re_operation_id = [], re_session_guard = valid_guard (tm_guard tm),
                 re_commit = \<lparr>cm_changed = False, cm_closed = False,
                              cm_snapshot = Some (snapshot_from_state (rd_state r)), cm_events = []\<rparr>\<rparr>)
      else
        (let (r, resp) = commit_events [] (tm_events tm) (on_state (apply_thread_commit tm) r)
         in (r, Inr (resp\<lparr>re_session_guard := valid_guard (tm_guard tm)\<rparr>))))"

text \<open>Both services fail closed when absent.\<close>

definition through_service ::
    "reducer_error \<Rightarrow> ('c \<Rightarrow> (bytes, thread_commit) result) option \<Rightarrow> 'c \<Rightarrow> 'p reducer \<Rightarrow> 'p outcome" where
  "through_service unavailable service c r =
     (case service of
        None \<Rightarrow> refuse unavailable r
      | Some f \<Rightarrow> (case f c of Inl e \<Rightarrow> refuse (ErrService e) r | Inr tm \<Rightarrow> commit_thread tm r))"

subsection \<open>Commands\<close>

definition request_proposal_ok :: "request_proposal \<Rightarrow> bool" where
  "request_proposal_ok q \<longleftrightarrow>
     guard_valid (rq_guard q) \<and> rq_thread_id q \<noteq> [] \<and> rq_proposal_id q \<noteq> []
     \<and> rq_conversation_id q \<noteq> [] \<and> rq_operation_id q \<noteq> [] \<and> rq_correlation_id q \<noteq> []
     \<and> intent_valid (rq_intent q) \<and> pi_id (rq_intent q) = rq_proposal_id q
     \<and> pi_thread_id (rq_intent q) = rq_thread_id q \<and> proposal_turn_context_valid (rq_context q)"

definition refresh_proposal_ok :: "refresh_proposal \<Rightarrow> bool" where
  "refresh_proposal_ok q \<longleftrightarrow>
     guard_valid (rq_guard q) \<and> rq_thread_id q \<noteq> [] \<and> rq_proposal_id q \<noteq> [] \<and> rf_version q \<noteq> 0
     \<and> rq_conversation_id q \<noteq> [] \<and> rq_operation_id q \<noteq> [] \<and> rq_correlation_id q \<noteq> []
     \<and> intent_valid (rq_intent q) \<and> pi_id (rq_intent q) = rq_proposal_id q
     \<and> pi_thread_id (rq_intent q) = rq_thread_id q \<and> provenance_valid (rf_provenance q)
     \<and> rf_provenance q = pi_confirmed_against (rq_intent q)
     \<and> (gp_capture_id (rf_provenance q) \<noteq> None \<longrightarrow> rf_same_capture_pointer q)
     \<and> proposal_turn_context_valid (rq_context q)"

definition proposal_command_ok :: "'a proposal_command_scheme \<Rightarrow> bool" where
  "proposal_command_ok c \<longleftrightarrow>
     guard_valid (pc_guard c) \<and> pc_thread_id c \<noteq> [] \<and> pc_proposal_id c \<noteq> [] \<and> pc_version c \<noteq> 0
     \<and> pc_operation_id c \<noteq> [] \<and> pc_correlation_id c \<noteq> []"

definition approve_proposal_ok :: "approve_proposal \<Rightarrow> bool" where
  "approve_proposal_ok c \<longleftrightarrow>
     proposal_command_ok c \<and> valid_app_sha256 (pc_patch_sha256 c)
     \<and> pc_confirmed_review_revision c \<noteq> 0 \<and> valid_app_sha256 (pc_review_completeness_identity c)
     \<and> destination_valid (pc_destination c) \<and> repository_valid (pc_repository c)
     \<and> worktree_ref_valid (pc_worktree c)
     \<and> wt_repository_id (pc_worktree c) = rp_id (pc_repository c) \<and> safe_text (pc_idempotency_key c)"

definition runtime_response_ok :: "approval_response \<Rightarrow> bool" where
  "runtime_response_ok s \<longleftrightarrow>
     rs_request_id s \<noteq> [] \<and> rs_thread_id s \<noteq> [] \<and> rs_operation_id s \<noteq> []
     \<and> opaque_ref_valid (rs_correlation_id s) \<and> opaque_ref_valid (rs_turn_ref s)
     \<and> \<not> (rs_decision s \<noteq> ApprovalAllowOnce \<and> rs_decision s \<noteq> ApprovalDeny)
     \<and> approval_scope_valid default_validation_limits (rs_scope s)"

text \<open>Selecting a file is an operation that starts and succeeds in one step.\<close>

definition select_file :: "reducer_config \<Rightarrow> repo_path \<Rightarrow> correlation_id \<Rightarrow> 'p reducer \<Rightarrow> 'p outcome" where
  "select_file cfg p correlation r =
     (if ap_repository (rd_state r) = None then refuse ErrRepositoryNotLoaded r
      else if ap_target (rd_state r) = None then refuse ErrTargetNotLoaded r
      else if \<not> valid_repo_path p then refuse ErrInvalidReducerInput r
      else
        (let generation = target_generation (ap_target (rd_state r)) in
         case new_operation cfg OperationSelectFile correlation generation False r of
           (r, Inl e) \<Rightarrow> refuse e r
         | (r, Inr (o1, started)) \<Rightarrow>
             (let r = on_state (\<lambda>s. s\<lparr>ap_active_file := Some p\<rparr>) r;
                  r = finish_put cfg OperationStatusSucceeded [] [] (os_id o1) o1 r
              in committed (os_id o1)
                   [started, FileSelected (head_of o1) p, OperationCompleted (head_of o1) OperationSelectFile]
                   r)))"

fun handle_command :: "reducer_config \<Rightarrow> command \<Rightarrow> 'p reducer \<Rightarrow> 'p outcome" where
  "handle_command cfg (OpenRepository p k) r =
     (if \<not> safe_text p then refuse ErrInvalidReducerInput r
      else start_operation cfg OperationOpenRepository k 0 True r)"
| "handle_command cfg (SelectTarget spec k) r =
     (if ap_repository (rd_state r) = None then refuse ErrRepositoryNotLoaded r
      else if \<not> target_spec_valid spec then refuse ErrInvalidReducerInput r
      else start_operation cfg OperationSelectTarget k (target_generation (ap_target (rd_state r))) True r)"
| "handle_command cfg (RefreshTarget k) r =
     (if ap_repository (rd_state r) = None then refuse ErrRepositoryNotLoaded r
      else if ap_target (rd_state r) = None then refuse ErrTargetNotLoaded r
      else start_operation cfg OperationRefreshTarget k (target_generation (ap_target (rd_state r))) True r)"
| "handle_command cfg (SelectFile p k) r = select_file cfg p k r"
| "handle_command cfg (CancelOperation i k) r = cancel_operation cfg i r"
| "handle_command cfg (RespondToRuntimeApproval s k) r =
     (if \<not> runtime_response_ok s then refuse ErrInvalidReducerInput r
      else committed []
        [RuntimeApprovalDecisionRequested 0 (rs_request_id s) (rs_turn_ref s) (rs_decision s) k] r)"
| "handle_command cfg (RequestProposal q) r =
     (if \<not> request_proposal_ok q then refuse ErrInvalidReducerInput r
      else start_operation cfg OperationRequestProposal (rq_correlation_id q)
        (gp_generation (pi_confirmed_against (rq_intent q))) True r)"
| "handle_command cfg (RefreshProposal q) r =
     (if \<not> refresh_proposal_ok q then refuse ErrInvalidReducerInput r
      else start_operation cfg OperationRefreshProposal (rq_correlation_id q)
        (gp_generation (rf_provenance q)) True r)"
| "handle_command cfg (CancelProposal g attempt k) r =
     (if \<not> guard_valid g \<or> attempt = [] \<or> k = [] then refuse ErrInvalidReducerInput r
      else cancel_operation cfg attempt r)"
| "handle_command cfg (RejectProposal c) r =
     (if \<not> proposal_command_ok c \<or> \<not> safe_optional_text (pc_reason c) 256
      then refuse ErrInvalidReducerInput r
      else start_operation cfg OperationRejectProposal (pc_correlation_id c) 0 False r)"
| "handle_command cfg (ApproveProposal c) r =
     (if \<not> approve_proposal_ok c then refuse ErrInvalidReducerInput r
      else start_operation cfg OperationApproveProposal (pc_correlation_id c) 0 False r)"
| "handle_command cfg (DiscardProposalResult g p attempt reason op k) r =
     (if \<not> guard_valid g \<or> p = [] \<or> attempt = [] \<or> op = [] \<or> k = [] \<or> \<not> safe_optional_text reason 256
      then refuse ErrInvalidReducerInput r
      else start_operation cfg OperationDiscardProposalResult k 0 False r)"
| "handle_command cfg (Shutdown k) r = shutdown cfg r"
| "handle_command cfg (ThreadCommand c) r =
     through_service ErrThreadServiceUnavailable (rc_threads cfg) c r"
| "handle_command cfg (ReattachAnchor g t v c f k2 k) r =
     through_service ErrAnchorReattachmentUnavailable (rc_reattachment cfg)
       (ReattachAnchor g t v c f k2 k) r"
| "handle_command cfg (OpenSession t mode persistence k) r = refuse ErrInvalidReducerInput r"
| "handle_command cfg (CloseSession i k) r = refuse ErrInvalidReducerInput r"

subsection \<open>Results\<close>

definition clear_repository_projections :: "repository_state \<Rightarrow> 'p app_state \<Rightarrow> 'p app_state" where
  "clear_repository_projections repo s =
     s\<lparr>ap_repository := Some repo, ap_session_id := None, ap_target := None, ap_active_file := None,
       ap_active_thread := None, ap_active_thread_detail := None,
       ap_thread_window := empty_thread_window, ap_tree := [], ap_changed_files := []\<rparr>"

fun handle_result :: "reducer_config \<Rightarrow> event \<Rightarrow> 'p reducer \<Rightarrow> 'p outcome" where
  "handle_result cfg (RepositoryLoaded h repo) r =
     (if \<not> repository_state_valid repo then refuse ErrInvalidReducerInput r
      else
        (case accept_result h [OperationOpenRepository] (rd_state r) of
           Inl e \<Rightarrow> refuse e r
         | Inr o1 \<Rightarrow>
             committed (os_id o1)
               [RepositoryLoaded h repo, OperationCompleted (head_of o1) (os_kind o1)]
               (finish_put cfg OperationStatusSucceeded [] [] (os_id o1) o1
                  (on_state (clear_repository_projections repo) r))))"
| "handle_result cfg (TargetLoaded h t) r =
     (if eh_target_generation h = 0 \<or> rt_generation t \<noteq> eh_target_generation h
      then refuse ErrInvalidReducerInput r
      else if \<not> resolved_target_valid t then refuse ErrInvalidReducerInput r
      else
        (case accept_result h [OperationSelectTarget, OperationRefreshTarget] (rd_state r) of
           Inl e \<Rightarrow> refuse e r
         | Inr o1 \<Rightarrow>
             committed (os_id o1)
               [TargetLoaded h t,
                OperationCompleted ((head_of o1)\<lparr>eh_target_generation := eh_target_generation h\<rparr>)
                  (os_kind o1)]
               (finish_put cfg OperationStatusSucceeded [] [] (os_id o1) o1
                  (on_state (\<lambda>s. s\<lparr>ap_target := Some t, ap_active_file := None\<rparr>) r))))"
| "handle_result cfg (OperationFailed h code message) r =
     (if code = [] \<or> \<not> safe_text message then refuse ErrInvalidReducerInput r
      else
        (case accept_result h [] (rd_state r) of
           Inl e \<Rightarrow> refuse e r
         | Inr o1 \<Rightarrow>
             committed (os_id o1) [OperationFailed h code message]
               (finish_put cfg OperationStatusFailed code message (os_id o1) o1 r)))"
| "handle_result cfg (OperationCancelled h reason) r =
     (if \<not> safe_text reason then refuse ErrInvalidReducerInput r
      else
        (case accept_result h [] (rd_state r) of
           Inl e \<Rightarrow> refuse e r
         | Inr o1 \<Rightarrow>
             committed (os_id o1) [OperationCancelled h reason]
               (finish_put cfg OperationStatusCancelled CodeCancelled reason (os_id o1) o1 r)))"
| "handle_result cfg _ r = refuse ErrInvalidReducerInput r"

definition handle :: "reducer_config \<Rightarrow> reducer_input \<Rightarrow> 'p reducer \<Rightarrow> 'p outcome" where
  "handle cfg input r =
     (case input of
        NilInput \<Rightarrow> refuse ErrInvalidReducerInput r
      | Command c \<Rightarrow> if rd_closed r then refuse ErrReducerClosed r else handle_command cfg c r
      | Result e \<Rightarrow> if rd_closed r then refuse ErrReducerClosed r else handle_result cfg e r)"

text \<open>
  A run is a list of inputs, each with the answers that the clock, the identities and the services
  give while it is handled.
\<close>

definition run_reducer :: "(reducer_config \<times> reducer_input) list \<Rightarrow> 'p reducer \<Rightarrow> 'p reducer" where
  "run_reducer inputs r = fold (\<lambda>(cfg, input) r. fst (handle cfg input r)) inputs r"

end
