(* ===== verification/Reducer_Steps.thy ===== *)
theory Reducer_Steps
  imports Reducer
begin

text \<open>
  What the reducer keeps. Every input changes the table of operations by one of a few table steps;
  the properties of the table follow from these steps by cases, and those of whole runs by
  induction on the inputs.
\<close>

subsection \<open>Parts of the reducer\<close>

lemma rd_on_state [simp]:
  "rd_state (on_state f r) = f (rd_state r)" "rd_closed (on_state f r) = rd_closed r"
  by (simp_all add: on_state_def)

type_synonym table = "operation_id \<Rightarrow> operation_state option"

definition ended :: "operation_state \<Rightarrow> operation_state \<Rightarrow> bool" where
  "ended a b \<longleftrightarrow>
     \<not> operation_active b \<and> \<not> os_cancellable b \<and> os_id b = os_id a \<and> os_kind b = os_kind a
     \<and> os_correlation_id b = os_correlation_id a \<and> os_target_generation b = os_target_generation a
     \<and> os_started_at b = os_started_at a"

lemma ended_trans: "ended a b \<Longrightarrow> ended b c \<Longrightarrow> ended a c"
  by (simp add: ended_def)

definition final_status :: "operation_status \<Rightarrow> bool" where
  "final_status st \<longleftrightarrow> st \<noteq> OperationStatusRunning \<and> st \<noteq> OperationStatusCancelling"

lemma finish_put_state:
  assumes "final_status st"
  obtains b where "ended a b" "os_status b = st"
    and "rd_state (finish_put cfg st code message i a r) = put_operation i b (rd_state r)"
    and "rd_closed (finish_put cfg st code message i a r) = rd_closed r"
proof -
  let ?b = "fst (finish_operation cfg st code message a r)"
  have "ended a ?b" "os_status ?b = st"
    using assms
    by (simp_all add: finish_operation_def read_clock_def ended_def operation_active_def
        final_status_def)
  then show ?thesis
    by (rule that) (simp_all add: finish_put_def finish_operation_def read_clock_def)
qed

lemma final_statuses [simp]:
  "final_status OperationStatusSucceeded" "final_status OperationStatusFailed"
  "final_status OperationStatusCancelled"
  by (simp_all add: final_status_def)

lemma put_operation_parts [simp]:
  "ap_revision (put_operation i b s) = ap_revision s" "ap_target (put_operation i b s) = ap_target s"
  "ap_repository (put_operation i b s) = ap_repository s"
  by (simp_all add: put_operation_def)

text \<open>The state apart from its operations.\<close>

definition same_rest :: "'p app_state \<Rightarrow> 'p app_state \<Rightarrow> bool" where
  "same_rest s s' \<longleftrightarrow> s' = s\<lparr>ap_operations := ap_operations s'\<rparr>"

lemma same_rest_refl [simp]: "same_rest s s"
  by (simp add: same_rest_def)

lemma same_rest_trans: "same_rest s t \<Longrightarrow> same_rest t u \<Longrightarrow> same_rest s u"
  unfolding same_rest_def by (metis app_state.update_convs(12) app_state.surjective)

lemma same_rest_put [simp]: "same_rest s (put_operation i b s)"
  by (simp add: same_rest_def put_operation_def)

lemma same_rest_parts:
  assumes "same_rest s s'"
  shows "ap_revision s' = ap_revision s" "ap_target s' = ap_target s"
  using arg_cong [of _ _ ap_revision, OF assms [unfolded same_rest_def]]
    arg_cong [of _ _ ap_target, OF assms [unfolded same_rest_def]] by simp_all

subsection \<open>Loops of cancellations\<close>

definition touches :: "operation_id set \<Rightarrow> 'p app_state \<Rightarrow> 'p app_state \<Rightarrow> bool" where
  "touches S s s' \<longleftrightarrow>
     same_rest s s' \<and> (keys_distinct s \<longrightarrow> keys_distinct s')
     \<and> (\<forall>j. if j \<in> S then rel_option ended (operation_of s j) (operation_of s' j)
             else operation_of s' j = operation_of s j)"

lemma touches_none: "touches {} s s"
  by (simp add: touches_def)

lemma touches_one:
  assumes "operation_of s i = Some a" "ended a b"
  shows "touches {i} s (put_operation i b s)"
  using assms by (simp add: touches_def)

lemma touches_absent: "operation_of s i = None \<Longrightarrow> touches S s s' \<Longrightarrow> touches (insert i S) s s'"
  unfolding touches_def by (metis insert_iff option.rel_distinct(1) option.rel_sel option.simps(3) option.exhaust)

lemma touches_trans:
  assumes "touches S s t" "touches T t u"
  shows "touches (S \<union> T) s u"
proof -
  have "if j \<in> S \<union> T then rel_option ended (operation_of s j) (operation_of u j)
        else operation_of u j = operation_of s j" for j
    using assms(1) [unfolded touches_def, THEN conjunct2, THEN conjunct2, rule_format, of j]
      assms(2) [unfolded touches_def, THEN conjunct2, THEN conjunct2, rule_format, of j]
    by (cases "operation_of s j"; cases "operation_of t j"; cases "operation_of u j")
      (auto split: if_splits dest: ended_trans)
  then show ?thesis
    using assms same_rest_trans by (auto simp: touches_def)
qed

lemma cancel_all_touches:
  "touches (set is) (rd_state r) (rd_state (fst (cancel_all cfg reason is r)))
   \<and> rd_closed (fst (cancel_all cfg reason is r)) = rd_closed r"
proof (induction "is" arbitrary: r)
  case Nil
  show ?case by (simp add: touches_none)
next
  case (Cons i "is")
  show ?case
  proof (cases "operation_of (rd_state r) i")
    case None
    then show ?thesis using Cons.IH [of r] by (simp add: touches_absent)
  next
    case (Some a)
    obtain b where b: "ended a b"
      "rd_state (finish_put cfg OperationStatusCancelled CodeCancelled reason i a r)
         = put_operation i b (rd_state r)"
      "rd_closed (finish_put cfg OperationStatusCancelled CodeCancelled reason i a r) = rd_closed r"
      by (rule finish_put_state [OF final_statuses(3)])
    have "touches {i} (rd_state r)
        (rd_state (finish_put cfg OperationStatusCancelled CodeCancelled reason i a r))"
      using touches_one [OF Some b(1)] b(2) by simp
    from touches_trans [OF this Cons.IH [THEN conjunct1]]
    show ?thesis using Some b(3) Cons.IH by (simp add: Let_def case_prod_beta)
  qed
qed

subsection \<open>Table steps\<close>

definition in_family :: "operation_kind \<Rightarrow> operation_state \<Rightarrow> bool" where
  "in_family k a \<longleftrightarrow> operation_active a \<and> operation_family (os_kind a) = operation_family k"

inductive table_step :: "table \<Rightarrow> table \<Rightarrow> bool" where
  table_same: "table_step t t"
| table_started:
    "\<lbrakk>t i = None; t' i = Some a; os_id a = i; operation_active a;
      \<And>j. j \<noteq> i \<Longrightarrow>
        (if \<exists>b. t j = Some b \<and> in_family (os_kind a) b then rel_option ended (t j) (t' j)
         else t' j = t j)\<rbrakk> \<Longrightarrow> table_step t t'"
| table_at_once: "\<lbrakk>t i = None; os_id a = i; \<not> operation_active a; \<not> os_cancellable a\<rbrakk>
    \<Longrightarrow> table_step t (t(i \<mapsto> a))"
| table_ended: "\<lbrakk>t i = Some a; operation_active a; ended a b\<rbrakk> \<Longrightarrow> table_step t (t(i \<mapsto> b))"
| table_stopped:
    "(\<And>j. if \<exists>b. t j = Some b \<and> operation_active b then rel_option ended (t j) (t' j)
          else t' j = t j) \<Longrightarrow> table_step t t'"

abbreviation table_of :: "'p reducer \<Rightarrow> table" where
  "table_of r \<equiv> operation_of (rd_state r)"

text \<open>The table is a map: one entry for each identity, kept under its own identity.\<close>

definition table_ok :: "'p reducer \<Rightarrow> bool" where
  "table_ok r \<longleftrightarrow>
     keys_distinct (rd_state r) \<and> (\<forall>i a. table_of r i = Some a \<longrightarrow> os_id a = i)"

lemma table_okD: "table_ok r \<Longrightarrow> table_of r i = Some a \<Longrightarrow> os_id a = i"
  by (simp add: table_ok_def)

text \<open>What a handler gives: an error and the same state, or the same reducer, or a commit.\<close>

definition unchanged_outcome :: "'p reducer \<Rightarrow> 'p outcome \<Rightarrow> bool" where
  "unchanged_outcome r out \<longleftrightarrow>
     (case snd out of
        Inl e \<Rightarrow> rd_state (fst out) = rd_state r \<and> rd_closed (fst out) = rd_closed r
      | Inr resp \<Rightarrow>
          fst out = r \<and> \<not> cm_changed (re_commit resp) \<and> \<not> cm_closed (re_commit resp)
          \<and> cm_events (re_commit resp) = [])"

definition commit_outcome :: "'p reducer \<Rightarrow> 'p outcome \<Rightarrow> bool" where
  "commit_outcome r out \<longleftrightarrow>
     (case snd out of
        Inl e \<Rightarrow> False
      | Inr resp \<Rightarrow>
          (let s = rd_state (fst out); c = re_commit resp in
           ap_revision s = ap_revision (rd_state r) + 1 \<and> cm_changed c
           \<and> cm_closed c = rd_closed (fst out) \<and> cm_snapshot c = Some (snapshot_from_state s)
           \<and> (\<forall>e\<in>set (cm_events c). event_revision e = ap_revision s)))"

definition all_ended :: "'p reducer \<Rightarrow> bool" where
  "all_ended r \<longleftrightarrow> (\<forall>i a. table_of r i = Some a \<longrightarrow> \<not> operation_active a)"

definition good_step :: "'p reducer \<Rightarrow> 'p outcome \<Rightarrow> bool" where
  "good_step r out \<longleftrightarrow>
     (unchanged_outcome r out \<or> commit_outcome r out)
     \<and> keys_distinct (rd_state (fst out)) \<and> table_step (table_of r) (table_of (fst out))
     \<and> (rd_closed (fst out) = rd_closed r \<or> rd_closed (fst out) \<and> all_ended (fst out))"

lemma refuse_good:
  assumes "table_ok r" "rd_state r' = rd_state r" "rd_closed r' = rd_closed r"
  shows "good_step r (refuse e r')"
  using assms by (simp add: good_step_def refuse_def unchanged_outcome_def table_same table_ok_def)

lemma unchanged_good:
  assumes "table_ok r" "\<not> cm_changed (re_commit resp)" "cm_events (re_commit resp) = []"
    and "\<not> cm_closed (re_commit resp)"
  shows "good_step r (r, Inr resp)"
  using assms by (simp add: good_step_def unchanged_outcome_def table_same table_ok_def)

lemma table_of_next_revision [simp]:
  "operation_of (s\<lparr>ap_revision := n\<rparr>) = operation_of s"
  "keys_distinct (s\<lparr>ap_revision := n\<rparr>) = keys_distinct s"
  by (simp_all add: operation_of_def fun_eq_iff keys_distinct_def)

lemma committed_parts:
  "rd_state (fst (committed op es r)) = (rd_state r)\<lparr>ap_revision := ap_revision (rd_state r) + 1\<rparr>"
  "rd_closed (fst (committed op es r)) = rd_closed r"
  by (simp_all add: committed_def commit_events_def Let_def)

lemma committed_outcome:
  "ap_revision (rd_state r1) = ap_revision (rd_state r) \<Longrightarrow> commit_outcome r (committed op es r1)"
  by (auto simp: commit_outcome_def committed_def commit_events_def Let_def)

lemma committed_good:
  assumes "ap_revision (rd_state r1) = ap_revision (rd_state r)" "keys_distinct (rd_state r1)"
    and "table_step (table_of r) (table_of r1)"
    and "rd_closed r1 = rd_closed r \<or> rd_closed r1 \<and> all_ended r1"
  shows "good_step r (committed op es r1)"
  using assms by (simp add: good_step_def committed_outcome committed_parts all_ended_def)

subsection \<open>The handlers\<close>

lemma new_operation_cases:
  assumes "new_operation cfg kind k g c r = (r1, out)"
  obtains (failed) e where "out = Inl e" "rd_state r1 = rd_state r" "rd_closed r1 = rd_closed r"
  | (started) o1 where "out = Inr (o1, OperationStarted (head_of o1) kind)"
      "table_of r (os_id o1) = None" "os_kind o1 = kind" "operation_active o1"
      "os_id o1 \<noteq> []" "os_target_generation o1 = g" "os_cancellable o1 = c"
      "k \<noteq> [] \<longrightarrow> os_correlation_id o1 = k" "safe_text (os_correlation_id o1)"
      "rd_state r1 = put_operation (os_id o1) o1 (rd_state r)" "rd_closed r1 = rd_closed r"
proof -
  have ok: "is_ok (new_id v) \<longleftrightarrow> v \<noteq> []" for v
    by (simp add: new_id_def validate_id_def)
  show ?thesis
    using assms failed started
    by (auto simp: new_operation_def next_id_def read_clock_def Let_def operation_active_def ok
        split: if_splits)
qed

lemma superseded_set:
  assumes "keys_distinct s"
  shows "set (superseded_ids kind i s) = {j. j \<noteq> i \<and> (\<exists>b. operation_of s j = Some b \<and> in_family kind b)}"
  by (force simp: superseded_ids_def in_family_def operation_of_mem [OF assms])

lemma start_operation_good:
  assumes ok: "table_ok r"
  shows "good_step r (start_operation cfg kind k g c r)"
proof -
  obtain r1 out where new: "new_operation cfg kind k g c r = (r1, out)"
    by fastforce
  from new show ?thesis
  proof (cases rule: new_operation_cases)
    case (failed e)
    then show ?thesis using new ok by (simp add: start_operation_def refuse_good)
  next
    case (started o1)
    let ?i = "os_id o1"
    let ?r2 = "fst (supersede cfg kind ?i r1)"
    have distinct: "keys_distinct (rd_state r1)"
      using ok started by (simp add: table_ok_def)
    have t: "touches {j. j \<noteq> ?i \<and> (\<exists>b. table_of r1 j = Some b \<and> in_family kind b)} (rd_state r1) (rd_state ?r2)"
      using cancel_all_touches [of "superseded_ids kind ?i (rd_state r1)" r1 cfg]
      by (simp add: supersede_def superseded_set [OF distinct])
    have at: "if j \<noteq> ?i \<and> (\<exists>b. table_of r1 j = Some b \<and> in_family kind b)
        then rel_option ended (table_of r1 j) (table_of ?r2 j) else table_of ?r2 j = table_of r1 j" for j
      using t by (simp add: touches_def)
    have "table_step (table_of r) (table_of ?r2)"
    proof (rule table_started)
      show "table_of r ?i = None" "operation_active o1" "os_id o1 = ?i" using started by simp_all
      show "table_of ?r2 ?i = Some o1" using at [of ?i] started by simp
      fix j assume j: "j \<noteq> ?i"
      have same: "table_of r1 j = table_of r j" using j started(10) by simp
      show "if \<exists>b. table_of r j = Some b \<and> in_family (os_kind o1) b
          then rel_option ended (table_of r j) (table_of ?r2 j) else table_of ?r2 j = table_of r j"
        using at [of j] j by (simp only: same started(3) simp_thms)
    qed
    moreover have "ap_revision (rd_state ?r2) = ap_revision (rd_state r)" "keys_distinct (rd_state ?r2)"
      using t distinct started same_rest_parts(1) [of "rd_state r1" "rd_state ?r2"]
      by (simp_all add: touches_def)
    moreover have "rd_closed ?r2 = rd_closed r"
      unfolding supersede_def started(11) [symmetric] by (rule cancel_all_touches [THEN conjunct2])
    ultimately show ?thesis
      using new started by (simp add: start_operation_def case_prod_beta Let_def committed_good)
  qed
qed

lemma finish_good:
  assumes ok: "table_ok r" and found: "table_of r i = Some a" "operation_active a"
    and final: "final_status st"
    and same: "ap_operations (f (rd_state r)) = ap_operations (rd_state r)"
      "ap_revision (f (rd_state r)) = ap_revision (rd_state r)"
  shows "good_step r (committed op es (finish_put cfg st code message (os_id a) a (on_state f r)))"
proof -
  obtain b where b: "ended a b"
    "rd_state (finish_put cfg st code message (os_id a) a (on_state f r))
       = put_operation (os_id a) b (rd_state (on_state f r))"
    "rd_closed (finish_put cfg st code message (os_id a) a (on_state f r)) = rd_closed (on_state f r)"
    by (rule finish_put_state [OF final])
  have t: "operation_of (f (rd_state r)) = table_of r" "keys_distinct (f (rd_state r))"
    using ok same(1) by (simp_all add: operation_of_def fun_eq_iff keys_distinct_def table_ok_def)
  have i: "os_id a = i" using table_okD [OF ok found(1)] .
  have put: "operation_of (put_operation i b (f (rd_state r))) = (table_of r)(i \<mapsto> b)"
    using t(1) by (simp add: fun_eq_iff)
  show ?thesis
    using b t i same(2) put table_ended [where t = "table_of r" and i = i, OF found b(1)] by (simp add: committed_good)
qed

lemma on_state_id [simp]: "on_state (\<lambda>s. s) r = r"
  by (simp add: on_state_def)

lemma cancel_operation_good:
  assumes ok: "table_ok r"
  shows "good_step r (cancel_operation cfg i r)"
  using finish_good [OF ok, of i _ OperationStatusCancelled "\<lambda>s. s"] ok
  by (simp add: cancel_operation_def refuse_good unchanged_good unchanged_response_def
      split: option.split)

lemma shutdown_good:
  assumes ok: "table_ok r"
  shows "good_step r (shutdown cfg r)"
proof -
  let ?ids = "sort (map fst (filter (\<lambda>(_, o1). operation_active o1) (ap_operations (rd_state r))))"
  define r2 where "r2 = fst (cancel_all cfg ''application shutdown'' ?ids r)"
  have distinct: "keys_distinct (rd_state r)" using ok by (simp add: table_ok_def)
  have ids: "set ?ids = {j. \<exists>b. table_of r j = Some b \<and> operation_active b}"
    by (force simp: operation_of_mem [OF distinct])
  have t: "touches {j. \<exists>b. table_of r j = Some b \<and> operation_active b} (rd_state r) (rd_state r2)"
    unfolding r2_def ids [symmetric] by (rule cancel_all_touches [THEN conjunct1])
  have at: "if \<exists>b. table_of r j = Some b \<and> operation_active b
      then rel_option ended (table_of r j) (table_of r2 j) else table_of r2 j = table_of r j" for j
    using t by (simp add: touches_def)
  have step: "table_step (table_of r) (table_of r2)"
    using table_stopped [of "table_of r" "table_of r2"] at by blast
  have "ap_revision (rd_state r2) = ap_revision (rd_state r)" "keys_distinct (rd_state r2)"
    using t distinct same_rest_parts(1) [of "rd_state r" "rd_state r2"] by (simp_all add: touches_def)
  moreover have "\<not> operation_active a" if "table_of r2 j = Some a" for j a
  proof (cases "\<exists>b. table_of r j = Some b \<and> operation_active b")
    case True
    then have "rel_option ended (table_of r j) (Some a)" using at [of j] by (simp add: that)
    then show ?thesis by (cases "table_of r j") (simp_all add: ended_def)
  next
    case False
    then have "table_of r j = Some a" using at [of j] that by (simp only: if_False)
    then show ?thesis using False by blast
  qed
  ultimately show ?thesis
    using step
    unfolding shutdown_def r2_def [symmetric] case_prod_beta Let_def
    by (intro committed_good) (auto simp: all_ended_def)
qed

lemma select_file_good:
  assumes ok: "table_ok r"
  shows "good_step r (select_file cfg p k r)"
proof (cases "ap_repository (rd_state r) = None \<or> ap_target (rd_state r) = None \<or> \<not> valid_repo_path p")
  case True
  then show ?thesis using refuse_good [OF ok] by (auto simp: select_file_def)
next
  case False
  let ?g = "target_generation (ap_target (rd_state r))"
  obtain r1 out where new: "new_operation cfg OperationSelectFile k ?g False r = (r1, out)"
    by fastforce
  from new show ?thesis
  proof (cases rule: new_operation_cases)
    case (failed e)
    then show ?thesis using new False ok by (simp add: select_file_def refuse_good)
  next
    case (started o1)
    let ?r1 = "on_state (\<lambda>s. s\<lparr>ap_active_file := Some p\<rparr>) r1"
    let ?r2 = "finish_put cfg OperationStatusSucceeded [] [] (os_id o1) o1 ?r1"
    obtain b where b: "ended o1 b" "rd_state ?r2 = put_operation (os_id o1) b (rd_state ?r1)"
      "rd_closed ?r2 = rd_closed ?r1"
      by (rule finish_put_state [OF final_statuses(1)])
    have t: "operation_of (s\<lparr>ap_active_file := Some p\<rparr>) = operation_of s"
      "keys_distinct (s\<lparr>ap_active_file := Some p\<rparr>) = keys_distinct s" for s :: "'a app_state"
      by (simp_all add: operation_of_def fun_eq_iff keys_distinct_def)
    have "table_of ?r2 = (table_of r)(os_id o1 \<mapsto> b)"
      using b(2) started(10) t by (simp add: fun_eq_iff)
    moreover have "table_step (table_of r) ((table_of r)(os_id o1 \<mapsto> b))"
      using b(1) started(2) by (intro table_at_once) (simp_all add: ended_def)
    moreover have "ap_revision (rd_state ?r2) = ap_revision (rd_state r)" "keys_distinct (rd_state ?r2)"
      using b(2) started(10) ok t by (simp_all add: table_ok_def)
    moreover have "rd_closed ?r2 = rd_closed r" using b(3) started(11) by simp
    ultimately show ?thesis
      using new False started(1) by (auto simp: select_file_def Let_def committed_good)
  qed
qed

lemma activate_threads_parts:
  "ap_revision (activate_threads d es s) = ap_revision s
   \<and> ap_operations (activate_threads d es s) = ap_operations s
   \<and> ap_target (activate_threads d es s) = ap_target s"
  by (induction d es s rule: activate_threads.induct) simp_all

lemma apply_thread_commit_parts:
  "ap_revision (apply_thread_commit tm s) = ap_revision s"
  "ap_operations (apply_thread_commit tm s) = ap_operations s"
  "ap_target (apply_thread_commit tm s) = ap_target s"
  by (simp_all add: apply_thread_commit_def Let_def activate_threads_parts)

lemma commit_thread_good:
  assumes ok: "table_ok r"
  shows "good_step r (commit_thread tm r)"
proof (cases "tm_events tm = []")
  case True
  then show ?thesis using unchanged_good [OF ok] by (simp add: commit_thread_def)
next
  case False
  let ?r1 = "on_state (apply_thread_commit tm) r"
  have same: "table_of ?r1 = table_of r"
    by (simp add: fun_eq_iff operation_of_def apply_thread_commit_parts)
  have "good_step r (committed [] (tm_events tm) ?r1)"
    using ok table_same [of "table_of r"]
    by (intro committed_good; simp only: same)
      (simp_all add: apply_thread_commit_parts table_ok_def keys_distinct_def)
  moreover have "fst (commit_thread tm r) = fst (committed [] (tm_events tm) ?r1)"
    using False by (simp add: commit_thread_def committed_def case_prod_beta Let_def)
  moreover have "commit_outcome r (commit_thread tm r)"
    using False committed_outcome [of ?r1 r "[]" "tm_events tm"]
    by (simp add: commit_outcome_def commit_thread_def committed_def case_prod_beta Let_def
        apply_thread_commit_parts)
  ultimately show ?thesis by (simp add: good_step_def)
qed

lemma through_service_good:
  "table_ok r \<Longrightarrow> good_step r (through_service e service c r)"
  by (simp add: through_service_def refuse_good commit_thread_good split: option.split sum.split)

lemma accept_result_cases:
  assumes "accept_result h allowed s = Inr a"
  shows "operation_of s (eh_operation_id h) = Some a" "operation_active a"
    "os_correlation_id a = eh_correlation_id h" "allowed = [] \<or> os_kind a \<in> set allowed"
    "os_target_generation a = 0 \<or> os_target_generation a \<le> eh_target_generation h"
    "ap_target s = None \<or> eh_target_generation h = 0
     \<or> target_generation (ap_target s) \<le> eh_target_generation h"
    "eh_operation_id h \<noteq> []" "safe_text (eh_correlation_id h)"
  using assms by (auto simp: accept_result_def split: if_splits option.splits)

lemma accept_result_error: "accept_result h allowed s = Inl e \<Longrightarrow> e = ErrResultDiscarded"
  by (auto simp: accept_result_def split: if_splits option.splits)

lemma handle_result_good:
  assumes ok: "table_ok r"
  shows "good_step r (handle_result cfg e r)"
proof -
  have finish: "good_step r (committed op es (finish_put cfg st code message (os_id a) a (on_state f r)))"
    if "accept_result h allowed (rd_state r) = Inr a" "final_status st"
      "ap_operations (f (rd_state r)) = ap_operations (rd_state r)"
      "ap_revision (f (rd_state r)) = ap_revision (rd_state r)" for op es st code message a f h allowed
    using ok accept_result_cases(1,2) [OF that(1)] that(2-4) by (rule finish_good)
  note here = finish [where f = "\<lambda>s. s", simplified]
  show ?thesis
    using ok
    by (cases "(cfg, e, r)" rule: handle_result.cases)
      (auto simp: refuse_good finish here clear_repository_projections_def split: sum.split)
qed

lemma handle_command_good:
  assumes ok: "table_ok r"
  shows "good_step r (handle_command cfg c r)"
  using ok
  by (cases c) (simp_all add: refuse_good start_operation_good select_file_good cancel_operation_good
      shutdown_good through_service_good committed_good table_same table_ok_def)

lemma handle_good: "table_ok r \<Longrightarrow> good_step r (handle cfg input r)"
  by (simp add: handle_def refuse_good handle_command_good handle_result_good split: reducer_input.split)

subsection \<open>Closing\<close>

lemma rd_closed_finish_put: "rd_closed (finish_put cfg st code message i a r) = rd_closed r"
  by (simp add: finish_put_def finish_operation_def read_clock_def)

lemma rd_closed_new_operation: "rd_closed (fst (new_operation cfg kind k g c r)) = rd_closed r"
proof -
  obtain r1 out where new: "new_operation cfg kind k g c r = (r1, out)" by fastforce
  then have "rd_closed r1 = rd_closed r" by (cases rule: new_operation_cases) simp_all
  with new show ?thesis by simp
qed

lemma rd_closed_cancel_all: "rd_closed (fst (cancel_all cfg reason is r)) = rd_closed r"
  by (rule cancel_all_touches [THEN conjunct2])

lemma rd_closed_start: "rd_closed (fst (start_operation cfg kind k g c r)) = rd_closed r"
  using rd_closed_new_operation [of cfg kind k g c r]
  by (cases "new_operation cfg kind k g c r"; cases "snd (new_operation cfg kind k g c r)")
    (auto simp: start_operation_def refuse_def supersede_def committed_parts rd_closed_cancel_all
      case_prod_beta Let_def)

lemma rd_closed_select_file: "rd_closed (fst (select_file cfg p k r)) = rd_closed r"
  using rd_closed_new_operation
    [of cfg OperationSelectFile k "target_generation (ap_target (rd_state r))" False r]
  by (auto simp: select_file_def refuse_def committed_parts rd_closed_finish_put Let_def
      split: prod.splits sum.splits)

lemma rd_closed_commit_thread: "rd_closed (fst (commit_thread tm r)) = rd_closed r"
  by (simp add: commit_thread_def commit_events_def Let_def)

lemma closes_only_on_shutdown:
  assumes "rd_closed (fst (handle cfg input r))" "\<not> rd_closed r"
  shows "\<exists>k. input = Command (Shutdown k)"
proof (cases input)
  case (Command c)
  show ?thesis
  proof (rule ccontr)
    assume other: "\<nexists>k. input = Command (Shutdown k)"
    have "rd_closed (fst (handle_command cfg c r)) = rd_closed r"
    proof (cases c)
      case (CancelOperation i k)
      then show ?thesis
        by (simp add: cancel_operation_def refuse_def committed_parts rd_closed_finish_put split: option.split)
    next
      case (CancelProposal g i k)
      then show ?thesis
        by (simp add: cancel_operation_def refuse_def committed_parts rd_closed_finish_put split: option.split)
    qed (use other Command in \<open>simp_all add: refuse_def rd_closed_start rd_closed_select_file
        committed_parts through_service_def rd_closed_commit_thread split: option.split sum.split\<close>)
    then show False using assms Command by (simp add: handle_def)
  qed
next
  case (Result e)
  have "rd_closed (fst (handle_result cfg e r)) = rd_closed r"
    by (cases "(cfg, e, r)" rule: handle_result.cases)
      (simp_all add: refuse_def committed_parts rd_closed_finish_put split: sum.split)
  then show ?thesis using assms Result by (simp add: handle_def)
next
  case NilInput
  then show ?thesis using assms by (simp add: handle_def refuse_def)
qed

subsection \<open>The invariant of runs\<close>

definition reducer_ok :: "'p reducer \<Rightarrow> bool" where
  "reducer_ok r \<longleftrightarrow>
     table_ok r
     \<and> (\<forall>i a. table_of r i = Some a \<longrightarrow> \<not> operation_active a \<longrightarrow> \<not> os_cancellable a)
     \<and> (\<forall>i j a b. table_of r i = Some a \<longrightarrow> table_of r j = Some b \<longrightarrow> operation_active a
          \<longrightarrow> in_family (os_kind a) b \<longrightarrow> i = j)
     \<and> (rd_closed r \<longrightarrow> all_ended r)"

lemma ended_or_same:
  assumes "if \<exists>c. x = Some c \<and> P c then rel_option ended x y else y = x" "y = Some b"
  obtains (same) "x = Some b" "\<not> P b" | (ended) a where "x = Some a" "P a" "ended a b"
proof (cases x)
  case None
  then show thesis using assms by simp
next
  case (Some a)
  show thesis
  proof (cases "P a")
    case True
    then have "ended a b" using assms Some by simp
    with Some True show thesis by (rule ended)
  next
    case False
    then have "x = Some b" using assms Some by simp
    then show thesis using False Some same by simp
  qed
qed

lemma table_step_cases_at:
  assumes "table_step t t'" "t' j = Some b"
  obtains (kept) "t j = Some b"
  | (new) "t j = None" "os_id b = j" "\<not> operation_active b \<Longrightarrow> \<not> os_cancellable b"
      "\<And>k c. k \<noteq> j \<Longrightarrow> t' k = Some c \<Longrightarrow> operation_active b \<Longrightarrow> \<not> in_family (os_kind b) c"
  | (ended) a where "t j = Some a" "operation_active a" "ended a b"
  using assms(1)
proof (cases rule: table_step.cases)
  case table_same
  then show thesis using assms(2) by (intro kept) simp
next
  case (table_started i a)
  show thesis
  proof (cases "j = i")
    case True
    have "\<not> in_family (os_kind a) c" if "k \<noteq> i" "t' k = Some c" for k c
      by (rule ended_or_same [OF table_started(5) [OF that(1)] that(2)])
        (simp_all add: ended_def in_family_def)
    with True table_started(1-4) assms(2) show thesis by (intro new) simp_all
  next
    case False
    show thesis
      by (rule ended_or_same [OF table_started(5) [OF False] assms(2)])
        (simp_all add: kept ended in_family_def)
  qed
next
  case (table_at_once i a)
  show thesis
  proof (cases "j = i")
    case True
    then show thesis using table_at_once assms(2) by (intro new) simp_all
  next
    case False
    then show thesis using table_at_once assms(2) by (intro kept) simp
  qed
next
  case (table_ended i a b')
  show thesis
  proof (cases "j = i")
    case True
    then show thesis using table_ended assms(2) by (intro ended) simp_all
  next
    case False
    then show thesis using table_ended assms(2) by (intro kept) simp
  qed
next
  case table_stopped
  show thesis
    by (rule ended_or_same [OF table_stopped [of j] assms(2)]) (simp_all add: kept ended)
qed

lemma table_ok_step:
  assumes "table_ok r" "good_step r out"
  shows "table_ok (fst out)"
proof -
  have step: "table_step (table_of r) (table_of (fst out))" using assms(2) by (simp add: good_step_def)
  have "os_id b = j" if "table_of (fst out) j = Some b" for j b
    using step that
    by (cases rule: table_step_cases_at) (use assms(1) in \<open>auto simp: table_ok_def ended_def\<close>)
  then show ?thesis using assms(2) by (simp add: table_ok_def good_step_def)
qed

lemma reducer_ok_step:
  assumes ok: "reducer_ok r" and step: "good_step r out" and same: "rd_closed r \<Longrightarrow> fst out = r"
  shows "reducer_ok (fst out)"
proof -
  let ?r = "fst out"
  have table: "table_step (table_of r) (table_of ?r)" using step by (simp add: good_step_def)
  have t_ok: "table_ok r" using ok by (simp add: reducer_ok_def)
  have settled: "\<not> os_cancellable b" if "table_of ?r j = Some b" "\<not> operation_active b" for j b
    using table that(1)
    by (cases rule: table_step_cases_at)
      (use ok that(2) in \<open>auto simp: reducer_ok_def ended_def\<close>)
  have active: "table_of r j = Some b \<or> table_of r j = None" "table_of r j = None \<Longrightarrow> k \<noteq> j \<Longrightarrow>
      table_of ?r k = Some c \<Longrightarrow> \<not> in_family (os_kind b) c"
    if "table_of ?r j = Some b" "operation_active b" for j b k c
    using table that(1) by (cases rule: table_step_cases_at; use that(2) in \<open>force simp: ended_def\<close>)+
  have one: "i = j" if "table_of ?r i = Some a" "table_of ?r j = Some b" "operation_active a"
      "in_family (os_kind a) b" for i j a b
  proof (rule ccontr)
    assume "i \<noteq> j"
    have b: "operation_active b" "in_family (os_kind b) a"
      using that(3,4) by (simp_all add: in_family_def)
    have "table_of r i = Some a"
      using active(1) [OF that(1,3)] active(2) [OF that(1,3) _ \<open>i \<noteq> j\<close> [symmetric] that(2)] that(4)
      by blast
    moreover have "table_of r j = Some b"
      using active(1) [OF that(2) b(1)] active(2) [OF that(2) b(1) _ \<open>i \<noteq> j\<close> that(1)] b(2) by blast
    ultimately show False
      using ok that(3,4) \<open>i \<noteq> j\<close> unfolding reducer_ok_def by blast
  qed
  have closed: "all_ended ?r" if "rd_closed ?r"
  proof (cases "rd_closed r")
    case True
    then show ?thesis using ok same by (simp add: reducer_ok_def)
  next
    case False
    then show ?thesis using step that by (simp add: good_step_def)
  qed
  show ?thesis
    unfolding reducer_ok_def using table_ok_step [OF t_ok step] settled one closed by blast
qed

lemma handle_closed:
  "rd_closed r \<Longrightarrow>
     handle cfg input r = (r, Inl (if input = NilInput then ErrInvalidReducerInput else ErrReducerClosed))"
  by (simp add: handle_def refuse_def split: reducer_input.split)

lemma reducer_ok_handle:
  assumes "reducer_ok r"
  shows "reducer_ok (fst (handle cfg input r))"
proof (rule reducer_ok_step [OF assms])
  show "good_step r (handle cfg input r)" using assms by (simp add: handle_good reducer_ok_def)
  show "rd_closed r \<Longrightarrow> fst (handle cfg input r) = r" by (simp add: handle_closed)
qed

lemma run_reducer_append:
  "run_reducer (xs @ ys) r = run_reducer ys (run_reducer xs r)"
  by (simp add: run_reducer_def)

lemma run_reducer_Cons: "run_reducer (x # xs) r = run_reducer xs (fst (handle (fst x) (snd x) r))"
  by (simp add: run_reducer_def case_prod_beta)

lemma run_reducer_Nil [simp]: "run_reducer [] r = r"
  by (simp add: run_reducer_def)

lemma new_reducer_ok: "reducer_ok (new_reducer d)"
  by (simp add: reducer_ok_def table_ok_def new_reducer_def new_state_def operation_of_def
      keys_distinct_def)

lemma reducer_ok_run: "reducer_ok r \<Longrightarrow> reducer_ok (run_reducer inputs r)"
  by (induction inputs arbitrary: r) (simp_all add: run_reducer_Cons reducer_ok_handle)

subsection \<open>The ledger, an abstract specification\<close>

text \<open>
  What a client may rely on: a ledger of the operations under way, each with its family, correlation
  and target generation. An operation joins it under a fresh identity and takes the place of the
  operation of its family; an operation leaves it once; shutdown empties it. Nothing else happens.
\<close>

record ledger_entry =
  le_family :: operation_kind
  le_correlation :: correlation_id
  le_generation :: nat

type_synonym ledger = "operation_id \<Rightarrow> ledger_entry option"

inductive ledger_step :: "ledger \<Rightarrow> ledger \<Rightarrow> bool" where
  ledger_idle: "ledger_step m m"
| ledger_join: "m i = None \<Longrightarrow>
    ledger_step m
      ((\<lambda>j. if \<exists>x. m j = Some x \<and> le_family x = le_family e then None else m j)(i \<mapsto> e))"
| ledger_leave: "m i = Some e \<Longrightarrow> ledger_step m (m(i := None))"
| ledger_stop: "ledger_step m (\<lambda>_. None)"

definition ledger_of :: "table \<Rightarrow> ledger" where
  "ledger_of t =
     (\<lambda>i. case t i of
        None \<Rightarrow> None
      | Some a \<Rightarrow>
          if operation_active a
          then Some \<lparr>le_family = operation_family (os_kind a), le_correlation = os_correlation_id a,
                     le_generation = os_target_generation a\<rparr>
          else None)"

lemma ledger_of_ended: "rel_option ended x y \<Longrightarrow> y = Some b \<Longrightarrow> \<not> operation_active b"
  by (cases x) (simp_all add: ended_def)

lemma table_step_ledger:
  assumes "table_step t t'"
  shows "ledger_step (ledger_of t) (ledger_of t')"
  using assms
proof (cases rule: table_step.cases)
  case table_same
  then show ?thesis by (simp add: ledger_idle)
next
  case (table_started i a)
  define e where "e = \<lparr>le_family = operation_family (os_kind a), le_correlation = os_correlation_id a,
                     le_generation = os_target_generation a\<rparr>"
  have "ledger_of t' = (\<lambda>j. if \<exists>x. ledger_of t j = Some x \<and> le_family x = le_family e then None
      else ledger_of t j)(i \<mapsto> e)" (is "_ = ?m")
  proof
    fix j
    show "ledger_of t' j = ?m j"
    proof (cases "j = i")
      case True
      then show ?thesis using table_started by (simp add: ledger_of_def e_def)
    next
      case False
      then show ?thesis
        using table_started(5) [OF False]
        by (cases "t j"; cases "t' j")
          (auto simp: ledger_of_def in_family_def e_def ended_def split: if_splits)
    qed
  qed
  moreover have "ledger_of t i = None" using table_started(1) by (simp add: ledger_of_def)
  then have "ledger_step (ledger_of t) ?m" by (rule ledger_join)
  ultimately show ?thesis by simp
next
  case (table_at_once i a)
  then have "ledger_of t' = ledger_of t" by (auto simp: ledger_of_def)
  then show ?thesis by (simp add: ledger_idle)
next
  case (table_ended i a b)
  then have "ledger_of t' = (ledger_of t)(i := None)" "ledger_of t i \<noteq> None"
    by (auto simp: ledger_of_def ended_def)
  then show ?thesis using ledger_leave by fastforce
next
  case table_stopped
  have "ledger_of t' j = None" for j
  proof (cases "t' j")
    case (Some b)
    show ?thesis
      by (rule ended_or_same [OF table_stopped [of j] Some])
        (simp_all add: ledger_of_def Some ended_def)
  qed (simp add: ledger_of_def)
  then have "ledger_of t' = (\<lambda>_. None)" by (rule ext)
  then show ?thesis by (simp add: ledger_stop)
qed

text \<open>
  C1. Over every sequence of inputs, whatever the clock, the identities and the services answer:
  each operation is kept under its own identity, an operation that ended is no longer cancellable,
  at most one operation of a family (a target is selected or refreshed) is under way, and none is
  after shutdown; and the next input is a step of the ledger. So the reducer refines the ledger.
\<close>

theorem reducer_refines_ledger:
  "reducer_ok (run_reducer inputs (new_reducer d))
   \<and> ledger_step (ledger_of (table_of (run_reducer inputs (new_reducer d))))
       (ledger_of (table_of (run_reducer (inputs @ [x]) (new_reducer d))))"
proof
  let ?r = "run_reducer inputs (new_reducer d)"
  show ok: "reducer_ok ?r" by (rule reducer_ok_run [OF new_reducer_ok])
  have "table_step (table_of ?r) (table_of (run_reducer (inputs @ [x]) (new_reducer d)))"
    using handle_good [of ?r "fst x" "snd x"] ok
    by (simp add: run_reducer_append run_reducer_Cons good_step_def reducer_ok_def)
  then show "ledger_step (ledger_of (table_of ?r))
      (ledger_of (table_of (run_reducer (inputs @ [x]) (new_reducer d))))"
    by (rule table_step_ledger)
qed

subsection \<open>One input\<close>

lemma table_step_settled:
  assumes "table_step t t'" "t j = Some a" "\<not> operation_active a"
  shows "t' j = Some a"
  using assms(1)
proof (cases rule: table_step.cases)
  case (table_started i b)
  have "j \<noteq> i" using table_started(1) assms(2) by auto
  from table_started(5) [OF this] show ?thesis using assms(2,3) by (simp add: in_family_def)
next
  case table_stopped
  from table_stopped [of j] show ?thesis using assms(2,3) by simp
qed (use assms(2,3) in auto)

text \<open>Nothing of the past changes: ended operations stay, and the revision never falls.\<close>

definition history_kept :: "'p reducer \<Rightarrow> 'p reducer \<Rightarrow> bool" where
  "history_kept r r' \<longleftrightarrow>
     (\<forall>i a. table_of r i = Some a \<longrightarrow> \<not> operation_active a \<longrightarrow> table_of r' i = Some a)
     \<and> ap_revision (rd_state r) \<le> ap_revision (rd_state r') \<and> (rd_closed r \<longrightarrow> r' = r)"

lemma history_kept_trans:
  "history_kept r s \<Longrightarrow> history_kept s t \<Longrightarrow> history_kept r t"
  unfolding history_kept_def by auto

lemma history_kept_handle:
  assumes "table_ok r"
  shows "history_kept r (fst (handle cfg input r))"
proof -
  let ?out = "handle cfg input r"
  have step: "good_step r ?out" by (rule handle_good [OF assms])
  have "table_step (table_of r) (table_of (fst ?out))" using step by (simp add: good_step_def)
  then have "\<forall>i a. table_of r i = Some a \<longrightarrow> \<not> operation_active a \<longrightarrow> table_of (fst ?out) i = Some a"
    using table_step_settled by blast
  moreover have "ap_revision (rd_state r) \<le> ap_revision (rd_state (fst ?out))"
    using step by (auto simp: good_step_def unchanged_outcome_def commit_outcome_def Let_def
        split: sum.splits)
  ultimately show ?thesis using handle_closed [of r cfg input] by (simp add: history_kept_def)
qed

lemma history_kept_run: "reducer_ok r \<Longrightarrow> history_kept r (run_reducer inputs r)"
proof (induction inputs arbitrary: r)
  case Nil
  show ?case by (simp add: history_kept_def)
next
  case (Cons x xs)
  have "history_kept r (fst (handle (fst x) (snd x) r))"
    using Cons.prems by (simp add: history_kept_handle reducer_ok_def)
  then show ?case
    using history_kept_trans Cons.IH [OF reducer_ok_handle [OF Cons.prems]]
    by (metis run_reducer_Cons)
qed

text \<open>
  C6. In every state that inputs lead to, the next input gives an error and leaves the state as it
  was, or answers without a commit and without events, or commits: the revision goes up by one and
  all of the events and the snapshot carry it. After shutdown an input gives the closed error.
  Later inputs never change an operation that ended.
\<close>

theorem handle_contract:
  "(let r = run_reducer inputs (new_reducer d); out = handle cfg input r in
    (unchanged_outcome r out \<or> commit_outcome r out)
    \<and> (if rd_closed r \<and> input \<noteq> NilInput then out = (r, Inl ErrReducerClosed) else True)
    \<and> history_kept r (run_reducer (inputs @ later) (new_reducer d)))"
proof -
  let ?r = "run_reducer inputs (new_reducer d)"
  have ok: "reducer_ok ?r" by (rule reducer_ok_run [OF new_reducer_ok])
  have "good_step ?r (handle cfg input ?r)" using ok by (simp add: handle_good reducer_ok_def)
  then show ?thesis
    using handle_closed [of ?r cfg input] history_kept_run [OF ok, of later]
    by (simp add: good_step_def run_reducer_append Let_def)
qed

subsection \<open>Results\<close>

definition result_head :: "event \<Rightarrow> event_head" where
  "result_head e = fst (event_metadata e)"

definition result_kinds :: "event \<Rightarrow> operation_kind list" where
  "result_kinds e =
     (case e of
        RepositoryLoaded _ _ \<Rightarrow> [OperationOpenRepository]
      | TargetLoaded _ _ \<Rightarrow> [OperationSelectTarget, OperationRefreshTarget]
      | _ \<Rightarrow> [])"

lemma result_parts:
  assumes "handle_result cfg e r = (r', Inr resp)"
  obtains a f st code message es where
    "accept_result (result_head e) (result_kinds e) (rd_state r) = Inr a"
    "(r', Inr resp) = committed (os_id a) es (finish_put cfg st code message (os_id a) a (on_state f r))"
    "final_status st" "ap_operations (f (rd_state r)) = ap_operations (rd_state r)"
    "ap_target (f (rd_state r)) =
       (case e of RepositoryLoaded _ _ \<Rightarrow> None | TargetLoaded _ t \<Rightarrow> Some t
        | _ \<Rightarrow> ap_target (rd_state r))"
    "case e of TargetLoaded h t \<Rightarrow> rt_generation t = eh_target_generation h \<and> rt_generation t \<noteq> 0
     | _ \<Rightarrow> True"
    "case e of RepositoryLoaded _ _ \<Rightarrow> True | TargetLoaded _ _ \<Rightarrow> True | OperationFailed _ _ _ \<Rightarrow> True
     | OperationCancelled _ _ \<Rightarrow> True | _ \<Rightarrow> False"
proof (cases "(cfg, e, r)" rule: handle_result.cases)
  case (1 cfg' h repo q)
  then obtain a where a: "accept_result (result_head e) (result_kinds e) (rd_state r) = Inr a"
    and eq: "(r', Inr resp) = committed (os_id a) [RepositoryLoaded h repo, OperationCompleted (head_of a) (os_kind a)]
      (finish_put cfg OperationStatusSucceeded [] [] (os_id a) a (on_state (clear_repository_projections repo) r))"
    using assms by (auto simp: refuse_def result_head_def result_kinds_def split: if_splits sum.splits)
  show ?thesis
    by (rule that [OF a eq])
      (use 1 assms in \<open>auto simp: clear_repository_projections_def refuse_def split: if_splits\<close>)
next
  case (2 cfg' h t q)
  then obtain a where a: "accept_result (result_head e) (result_kinds e) (rd_state r) = Inr a"
    and eq: "(r', Inr resp) = committed (os_id a)
      [TargetLoaded h t, OperationCompleted ((head_of a)\<lparr>eh_target_generation := eh_target_generation h\<rparr>) (os_kind a)]
      (finish_put cfg OperationStatusSucceeded [] [] (os_id a) a
        (on_state (\<lambda>s. s\<lparr>ap_target := Some t, ap_active_file := None\<rparr>) r))"
    using assms by (auto simp: refuse_def result_head_def result_kinds_def split: if_splits sum.splits)
  show ?thesis
    by (rule that [OF a eq])
      (use 2 assms in \<open>auto simp: refuse_def split: if_splits\<close>)
next
  case (3 cfg' h code message q)
  then obtain a where a: "accept_result (result_head e) (result_kinds e) (rd_state r) = Inr a"
    and eq: "(r', Inr resp) = committed (os_id a) [OperationFailed h code message]
      (finish_put cfg OperationStatusFailed code message (os_id a) a r)"
    using assms by (auto simp: refuse_def result_head_def result_kinds_def split: if_splits sum.splits)
  show ?thesis
    by (rule that [where f = "\<lambda>s. s", unfolded on_state_id, OF a eq])
      (use 3 assms in \<open>auto simp: refuse_def split: if_splits\<close>)
next
  case (4 cfg' h reason q)
  then obtain a where a: "accept_result (result_head e) (result_kinds e) (rd_state r) = Inr a"
    and eq: "(r', Inr resp) = committed (os_id a) [OperationCancelled h reason]
      (finish_put cfg OperationStatusCancelled CodeCancelled reason (os_id a) a r)"
    using assms by (auto simp: refuse_def result_head_def result_kinds_def split: if_splits sum.splits)
  show ?thesis
    by (rule that [where f = "\<lambda>s. s", unfolded on_state_id, OF a eq])
      (use 4 assms in \<open>auto simp: refuse_def split: if_splits\<close>)
qed (use assms in \<open>simp_all add: refuse_def\<close>)

lemma accept_result_inactive:
  "(\<And>b. operation_of s (eh_operation_id h) = Some b \<Longrightarrow> \<not> operation_active b) \<Longrightarrow>
     accept_result h allowed s = Inl ErrResultDiscarded"
  by (auto simp: accept_result_def split: option.split)

lemma result_discarded_again:
  assumes "handle_result cfg e r = (r', Inr resp)"
    and "\<And>b. table_of q (eh_operation_id (result_head e)) = Some b \<Longrightarrow> \<not> operation_active b"
  shows "handle_result cfg' e q = (q, Inl ErrResultDiscarded)"
proof (cases "(cfg, e, r)" rule: handle_result.cases)
  case (1 c h repo p)
  then show ?thesis
    using assms accept_result_inactive [of "rd_state q" h "[OperationOpenRepository]"]
    by (auto simp: refuse_def result_head_def split: if_splits)
next
  case (2 c h t p)
  then show ?thesis
    using assms accept_result_inactive [of "rd_state q" h "[OperationSelectTarget, OperationRefreshTarget]"]
    by (auto simp: refuse_def result_head_def split: if_splits)
next
  case (3 c h code message p)
  then show ?thesis
    using assms accept_result_inactive [of "rd_state q" h "[]"]
    by (auto simp: refuse_def result_head_def split: if_splits)
next
  case (4 c h reason p)
  then show ?thesis
    using assms accept_result_inactive [of "rd_state q" h "[]"]
    by (auto simp: refuse_def result_head_def split: if_splits)
qed (use assms(1) in \<open>simp_all add: refuse_def\<close>)

lemma result_step:
  assumes res: "handle_result cfg e r = (r', Inr resp)" and ok: "table_ok r"
  obtains a b where "accept_result (result_head e) (result_kinds e) (rd_state r) = Inr a"
    "ended a b" "table_of r' = (table_of r)(os_id a \<mapsto> b)" "os_id a = eh_operation_id (result_head e)"
    "rd_closed r' = rd_closed r"
    "case e of RepositoryLoaded _ _ \<Rightarrow> ap_target (rd_state r') = None
     | _ \<Rightarrow> target_generation (ap_target (rd_state r)) \<le> target_generation (ap_target (rd_state r'))"
  using res
proof (cases rule: result_parts)
  case (1 a f st code message es)
  obtain b where b: "ended a b"
    "rd_state (finish_put cfg st code message (os_id a) a (on_state f r))
       = put_operation (os_id a) b (rd_state (on_state f r))"
    "rd_closed (finish_put cfg st code message (os_id a) a (on_state f r)) = rd_closed (on_state f r)"
    by (rule finish_put_state [OF 1(3)])
  have r': "r' = fst (committed (os_id a) es (finish_put cfg st code message (os_id a) a (on_state f r)))"
    using arg_cong [OF 1(2), of fst] by simp
  have t: "operation_of (f (rd_state r)) = table_of r"
    using 1(4) by (simp add: operation_of_def fun_eq_iff)
  have i: "os_id a = eh_operation_id (result_head e)"
    using table_okD [OF ok accept_result_cases(1) [OF 1(1)]] .
  have target: "ap_target (rd_state r') = ap_target (f (rd_state r))"
    using b(2) by (simp add: r' committed_parts)
  have "case e of RepositoryLoaded _ _ \<Rightarrow> ap_target (rd_state r') = None
     | _ \<Rightarrow> target_generation (ap_target (rd_state r)) \<le> target_generation (ap_target (rd_state r'))"
    unfolding target 1(5) using accept_result_cases(6) [OF 1(1)] 1(6)
    by (cases e) (auto simp: target_generation_def result_head_def)
  with 1(1) b(1) show thesis
    using b(2,3) t i by (intro that) (simp_all add: r' committed_parts fun_eq_iff)
qed

text \<open>No result for an operation that has ended is ever accepted again.\<close>

lemma result_refused_later:
  assumes ok: "reducer_ok r" and ended: "table_of r i = Some a" "\<not> operation_active a"
    and e: "eh_operation_id (result_head e) = i"
  shows "\<not> is_ok (snd (handle cfg (Result e) (run_reducer later r)))"
proof -
  let ?q = "run_reducer later r"
  have ok_q: "table_ok ?q" using reducer_ok_run [OF ok] by (simp add: reducer_ok_def)
  have kept: "table_of ?q i = Some a" using history_kept_run [OF ok, of later] ended by (simp add: history_kept_def)
  show ?thesis
  proof (cases "handle cfg (Result e) ?q")
    case (Pair q' out)
    show ?thesis
    proof (cases out)
      case (Inr resp)
      then have res: "handle_result cfg e ?q = (q', Inr resp)"
        using Pair by (auto simp: handle_def refuse_def split: if_splits)
      show ?thesis
        using result_discarded_again [OF res, of ?q cfg] kept ended(2) e res by auto
    qed (simp add: Pair)
  qed
qed

text \<open>
  C7. A result is taken once. It belongs to an operation that is under way, with its correlation
  and, where the result says what was loaded, of the kind that loads it, and the operation ends with it.
  From then on, after any further inputs, no result for that operation is accepted again: the
  same one is discarded, or refused because the reducer has closed. The generation of
  the loaded target does not fall with a result, except that loading a repository clears the target.
\<close>

theorem result_accepted_once:
  assumes "r = run_reducer inputs (new_reducer d)" "handle cfg (Result e) r = (r', Inr resp)"
  shows "(\<exists>a. table_of r (eh_operation_id (result_head e)) = Some a \<and> operation_active a
           \<and> os_correlation_id a = eh_correlation_id (result_head e)
           \<and> (result_kinds e = [] \<or> os_kind a \<in> set (result_kinds e))
           \<and> ledger_of (table_of r') = (ledger_of (table_of r))(os_id a := None))
         \<and> (case e of RepositoryLoaded _ _ \<Rightarrow> ap_target (rd_state r') = None
            | _ \<Rightarrow> target_generation (ap_target (rd_state r)) \<le> target_generation (ap_target (rd_state r')))
         \<and> (let q = run_reducer later r' in
              handle cfg' (Result e) q = (q, Inl (if rd_closed q then ErrReducerClosed else ErrResultDiscarded))
              \<and> (eh_operation_id (result_head e') = eh_operation_id (result_head e) \<longrightarrow>
                   \<not> is_ok (snd (handle cfg' (Result e') q))))"
proof -
  have ok_r: "reducer_ok r" unfolding assms(1) by (rule reducer_ok_run [OF new_reducer_ok])
  then have ok: "table_ok r" by (simp add: reducer_ok_def)
  have ok_r': "reducer_ok r'" using reducer_ok_handle [OF ok_r, of cfg "Result e"] assms(2) by simp
  have res: "handle_result cfg e r = (r', Inr resp)"
    using assms(2) by (auto simp: handle_def refuse_def split: if_splits)
  from res ok show ?thesis
  proof (cases rule: result_step)
    case (1 a b)
    note accepted = accept_result_cases [OF 1(1)]
    have ended: "table_of r' (eh_operation_id (result_head e)) = Some b" "\<not> operation_active b"
      using 1(2-4) by (simp_all add: ended_def)
    have "ledger_of (table_of r') = (ledger_of (table_of r))(os_id a := None)"
      using 1(2,3) by (auto simp: ledger_of_def ended_def)
    moreover have "handle cfg' (Result e) q = (q, Inl (if rd_closed q then ErrReducerClosed else ErrResultDiscarded))"
      if q: "q = run_reducer later r'" for q
    proof -
      have "table_of q (eh_operation_id (result_head e)) = Some b"
        using history_kept_run [OF ok_r', of later] ended unfolding q by (simp add: history_kept_def)
      then show ?thesis
        using result_discarded_again [OF res, of q cfg'] ended(2) by (simp add: handle_def refuse_def)
    qed
    moreover have "\<not> is_ok (snd (handle cfg' (Result e') (run_reducer later r')))"
      if "eh_operation_id (result_head e') = eh_operation_id (result_head e)"
      by (rule result_refused_later [OF ok_r' ended that])
    ultimately show ?thesis using accepted(1-4) 1(6) by (simp add: Let_def)
  qed
qed

subsection \<open>A run\<close>

definition sample_config :: reducer_config where
  "sample_config =
     \<lparr>rc_clock = (\<lambda>n. int n + 1), rc_ids = (\<lambda>n. replicate (Suc n) (CHR ''o'')), rc_threads = None,
      rc_reattachment = None\<rparr>"

lemma plain_safe_text:
  assumes "plain_text v" "v \<noteq> []"
  shows "safe_text v"
proof -
  have ascii: "list_all (\<lambda>c. byte c < 128) v" "list_all (\<lambda>c. \<not> is_control (byte c)) v"
    using assms(1) by (auto simp: plain_text_def list_all_iff is_control_def)
  have "list_all (\<lambda>r. \<not> is_control r) (map byte v)"
    using ascii(2) by (simp add: list.pred_map comp_def)
  then show ?thesis
    using ascii_runes [OF ascii(1)] assms by (simp add: safe_text_def trim_space_plain)
qed

lemma sample_texts: "safe_text ''/a''" "safe_text ''o''" "safe_text ''failed''"
  by (rule plain_safe_text; simp add: plain_text_def)+

lemmas handling = run_reducer_Cons handle_def start_operation_def new_operation_def next_id_def
  read_clock_def sample_config_def new_id_def validate_id_def supersede_def superseded_ids_def
  on_state_def committed_def commit_events_def finish_put_def finish_operation_def accept_result_def
  new_reducer_def new_state_def operation_of_def put_operation_def operation_active_def
  operation_family_def bare_head_def head_of_def Let_def

definition opened :: "unit reducer" where
  "opened = run_reducer [(sample_config, Command (OpenRepository ''/a'' []))] (new_reducer ())"

lemma opened_eval:
  "ap_operations (rd_state opened) =
     [(''o'', \<lparr>os_id = ''o'', os_kind = OperationOpenRepository, os_status = OperationStatusRunning,
               os_correlation_id = ''o'', os_target_generation = 0, os_started_at = 1,
               os_finished_at = 0, os_cancellable = True, os_error_code = [], os_message = []\<rparr>)]"
  by (simp add: opened_def handling sample_texts)

definition failure :: event where
  "failure = OperationFailed (bare_head 0 ''o'' ''o'' 0) ''x'' ''failed''"

lemma failure_accepted: "is_ok (snd (handle sample_config (Result failure) opened))"
proof -
  have "\<not> rd_closed opened" by (simp add: opened_def handling sample_texts)
  moreover have "ap_target (rd_state opened) = None" by (simp add: opened_def handling sample_texts)
  ultimately show ?thesis
    by (simp add: handle_def failure_def sample_texts accept_result_def operation_of_def opened_eval
        bare_head_def operation_active_def committed_def case_prod_beta)
qed

lemma failure_open: "\<not> rd_closed (fst (handle sample_config (Result failure) opened))"
proof -
  have "\<not> rd_closed opened" by (simp add: opened_def handling sample_texts)
  then show ?thesis
    using closes_only_on_shutdown [of sample_config "Result failure" opened] by auto
qed

lemma result_accepted_once_witness:
  "let q = fst (handle sample_config (Result failure) opened) in
   handle sample_config (Result failure) q = (q, Inl ErrResultDiscarded)
   \<and> \<not> is_ok (snd (handle sample_config (Result (OperationCancelled (bare_head 0 ''o'' ''o'' 0) ''late'')) q))"
proof -
  let ?q = "fst (handle sample_config (Result failure) opened)"
  let ?late = "OperationCancelled (bare_head 0 ''o'' ''o'' 0) ''late''"
  obtain resp where "handle sample_config (Result failure) opened = (?q, Inr resp)"
    using failure_accepted
    by (cases "snd (handle sample_config (Result failure) opened)") (auto simp: prod_eq_iff)
  note once = result_accepted_once [OF opened_def this, of "[]" sample_config ?late, unfolded run_reducer_def]
  have "eh_operation_id (result_head ?late) = eh_operation_id (result_head failure)"
    by (simp add: result_head_def failure_def)
  then show ?thesis using once failure_open by (simp add: Let_def)
qed

end
