(* ===== verification/Event_Stream.thy ===== *)
theory Event_Stream
  imports App_State "HOL-Library.Sublist"
begin

text \<open>
  The two streams a frontend reads (\<^verbatim>\<open>snapshotSubscription\<close> and \<^verbatim>\<open>eventSubscription\<close> of
  \<^verbatim>\<open>internal/app/client.go\<close>). Three parties interleave: the actor that commits, the goroutine that
  moves queued events to the stream, and the frontend that receives. A section under the mutex is
  one step, and so is an operation on a channel.
\<close>

subsection \<open>The snapshot stream\<close>

record 's snapshot_subscription =
  ss_stream :: "'s option"
  ss_closed :: bool

definition new_snapshot_subscription :: "'s \<Rightarrow> 's snapshot_subscription" where
  "new_snapshot_subscription initial = \<lparr>ss_stream = Some initial, ss_closed = False\<rparr>"

text \<open>With room the snapshot goes in; otherwise the old one is taken out first.\<close>

definition offer_snapshot :: "'s \<Rightarrow> 's snapshot_subscription \<Rightarrow> 's snapshot_subscription" where
  "offer_snapshot snapshot u =
     (if ss_closed u then u
      else if ss_stream u = None then u\<lparr>ss_stream := Some snapshot\<rparr>
      else (let u = u\<lparr>ss_stream := None\<rparr> in u\<lparr>ss_stream := Some snapshot\<rparr>))"

definition close_snapshots :: "'s snapshot_subscription \<Rightarrow> 's snapshot_subscription" where
  "close_snapshots u = (if \<not> ss_closed u then u\<lparr>ss_closed := True\<rparr> else u)"

subsection \<open>The event stream\<close>

datatype client_error = ErrClientClosed | ErrConsumerTooSlow

text \<open>
  Where the goroutine is: at the top of its loop, waiting for a signal, sending an event, or ended.
  What the actor still has to do after its section under the mutex: nothing, signal, or stop and
  signal. The stream is the buffer of the channel; \<open>es_wake\<close> is the one-place wake channel.
\<close>

datatype pump = PumpLoop | PumpWaiting | PumpSending event | PumpDone

datatype due = NothingDue | SignalDue | StopDue

record event_subscription =
  es_capacity :: nat
  es_queue :: "event list"
  es_stream :: "event list"
  es_pump :: pump
  es_wake :: bool
  es_stopped :: bool
  es_closed :: bool
  es_error :: "client_error option"
  es_due :: due

definition new_event_subscription :: "nat \<Rightarrow> event_subscription" where
  "new_event_subscription capacity =
     \<lparr>es_capacity = capacity, es_queue = [], es_stream = [], es_pump = PumpLoop, es_wake = False,
      es_stopped = False, es_closed = False, es_error = None, es_due = NothingDue\<rparr>"

definition coalescing_key :: "event \<Rightarrow> bytes option" where
  "coalescing_key e =
     (let (_, key, coalescible) = event_metadata e in
      if coalescible \<and> key \<noteq> [] then Some key else None)"

text \<open>The loop from the end of the queue to its front replaces the first event with the key.\<close>

fun replace_last :: "bytes \<Rightarrow> event \<Rightarrow> event list \<Rightarrow> event list option" where
  "replace_last key e [] = None"
| "replace_last key e (x # xs) =
     (case replace_last key e xs of
        Some ys \<Rightarrow> Some (x # ys)
      | None \<Rightarrow>
          (let (_, queued, coalescible) = event_metadata x in
           if coalescible \<and> queued = key then Some (e # xs) else None))"

definition enqueue :: "event \<Rightarrow> event_subscription \<Rightarrow> event_subscription" where
  "enqueue e s =
     (if es_closed s then s
      else if length (es_queue s) < es_capacity s
      then s\<lparr>es_queue := es_queue s @ [e], es_due := SignalDue\<rparr>
      else
        (case coalescing_key e of
           Some key \<Rightarrow>
             (case replace_last key e (es_queue s) of
                Some queue \<Rightarrow> s\<lparr>es_queue := queue, es_due := SignalDue\<rparr>
              | None \<Rightarrow> s)
         | None \<Rightarrow>
             s\<lparr>es_closed := True, es_error := Some ErrConsumerTooSlow, es_due := StopDue\<rparr>))"

definition close_events :: "event_subscription \<Rightarrow> event_subscription" where
  "close_events s = s\<lparr>es_closed := True, es_due := StopDue\<rparr>"

definition stop :: "event_subscription \<Rightarrow> event_subscription" where
  "stop s = s\<lparr>es_stopped := True, es_due := SignalDue\<rparr>"

definition signal :: "event_subscription \<Rightarrow> event_subscription" where
  "signal s = s\<lparr>es_wake := True, es_due := NothingDue\<rparr>"

definition pump_loop :: "event_subscription \<Rightarrow> event_subscription" where
  "pump_loop s =
     (if es_closed s then s\<lparr>es_pump := PumpDone\<rparr>
      else
        (case es_queue s of
           e # queue \<Rightarrow> s\<lparr>es_queue := queue, es_pump := PumpSending e\<rparr>
         | [] \<Rightarrow> s\<lparr>es_pump := PumpWaiting\<rparr>))"

subsection \<open>Interleavings\<close>

text \<open>
  A system is the subscription with two histories: the events offered to it while it was open, and
  those the frontend has received. When both channels of a \<^verbatim>\<open>select\<close> are ready, either is taken.
\<close>

record event_system =
  ev_sub :: event_subscription
  ev_offered :: "event list"
  ev_received :: "event list"

definition on_sub ::
    "(event_subscription \<Rightarrow> event_subscription) \<Rightarrow> event_system \<Rightarrow> event_system" where
  "on_sub f y = y\<lparr>ev_sub := f (ev_sub y)\<rparr>"

abbreviation sub_pump :: "event_system \<Rightarrow> pump" where
  "sub_pump y \<equiv> es_pump (ev_sub y)"

inductive actor_step :: "event_system \<Rightarrow> event_system \<Rightarrow> bool" where
  actor_enqueues: "es_due (ev_sub y) = NothingDue \<Longrightarrow>
    actor_step y ((on_sub (enqueue e) y)
      \<lparr>ev_offered := (if es_closed (ev_sub y) then ev_offered y else ev_offered y @ [e])\<rparr>)"
| actor_closes: "es_due (ev_sub y) = NothingDue \<Longrightarrow> actor_step y (on_sub close_events y)"
| actor_stops: "es_due (ev_sub y) = StopDue \<Longrightarrow> actor_step y (on_sub stop y)"
| actor_signals: "es_due (ev_sub y) = SignalDue \<Longrightarrow> actor_step y (on_sub signal y)"

inductive reader_step :: "event_system \<Rightarrow> event_system \<Rightarrow> bool" where
  pump_looks: "sub_pump y = PumpLoop \<Longrightarrow> reader_step y (on_sub pump_loop y)"
| pump_woken: "sub_pump y = PumpWaiting \<Longrightarrow> es_wake (ev_sub y) \<Longrightarrow>
    reader_step y (on_sub (\<lambda>s. s\<lparr>es_wake := False, es_pump := PumpLoop\<rparr>) y)"
| pump_sends: "sub_pump y = PumpSending e \<Longrightarrow>
    length (es_stream (ev_sub y)) < es_capacity (ev_sub y) \<Longrightarrow>
    reader_step y (on_sub (\<lambda>s. s\<lparr>es_stream := es_stream s @ [e], es_pump := PumpLoop\<rparr>) y)"
| pump_stops: "sub_pump y = PumpWaiting \<or> sub_pump y = PumpSending e \<Longrightarrow> es_stopped (ev_sub y) \<Longrightarrow>
    reader_step y (on_sub (\<lambda>s. s\<lparr>es_pump := PumpDone\<rparr>) y)"
| frontend_receives: "es_stream (ev_sub y) = e # stream \<Longrightarrow>
    reader_step y ((on_sub (\<lambda>s. s\<lparr>es_stream := stream\<rparr>) y)\<lparr>ev_received := ev_received y @ [e]\<rparr>)"

definition new_event_system :: "nat \<Rightarrow> event_system" where
  "new_event_system capacity =
     \<lparr>ev_sub = new_event_subscription capacity, ev_offered = [], ev_received = []\<rparr>"

inductive event_reachable :: "nat \<Rightarrow> event_system \<Rightarrow> bool" for capacity where
  event_start: "event_reachable capacity (new_event_system capacity)"
| event_actor: "event_reachable capacity y \<Longrightarrow> actor_step y z \<Longrightarrow> event_reachable capacity z"
| event_reader: "event_reachable capacity y \<Longrightarrow> reader_step y z \<Longrightarrow> event_reachable capacity z"

inductive_cases actor_stepE: "actor_step y z"
inductive_cases reader_stepE: "reader_step y z"

text \<open>No wakeup is lost: a waiting goroutine with work to do has a signal, or gets one.\<close>

definition stream_ok :: "nat \<Rightarrow> event_subscription \<Rightarrow> bool" where
  "stream_ok capacity s \<longleftrightarrow>
     es_capacity s = capacity \<and> length (es_queue s) \<le> capacity \<and> length (es_stream s) \<le> capacity
     \<and> (es_stopped s \<or> es_due s = StopDue \<or> es_pump s = PumpDone \<or> es_error s \<noteq> None \<longrightarrow> es_closed s)
     \<and> (es_closed s \<longrightarrow> es_stopped s \<or> es_due s = StopDue)
     \<and> (es_pump s = PumpWaiting \<and> es_queue s \<noteq> [] \<longrightarrow> es_wake s \<or> es_due s \<noteq> NothingDue)"

subsection \<open>What is never lost\<close>

text \<open>The events without a coalescing key.\<close>

definition essential :: "event list \<Rightarrow> event list" where
  "essential es = filter (\<lambda>e. coalescing_key e = None) es"

lemma essential_simps [simp]:
  "essential [] = []"
  "essential (e # es) = (if coalescing_key e = None then e # essential es else essential es)"
  "essential (es @ fs) = essential es @ essential fs"
  by (simp_all add: essential_def)

lemma replace_last_essential:
  "replace_last key e xs = Some ys \<Longrightarrow> coalescing_key e = Some key \<Longrightarrow>
     essential ys = essential xs \<and> length ys = length xs \<and> set ys \<subseteq> insert e (set xs)"
proof (induction xs arbitrary: ys)
  case (Cons x xs)
  have key: "key \<noteq> []" using Cons.prems(2) by (auto simp: coalescing_key_def Let_def split: prod.splits if_splits)
  show ?case
  proof (cases "replace_last key e xs")
    case None
    then show ?thesis
      using Cons.prems key by (auto simp: coalescing_key_def split: prod.splits if_splits)
  next
    case (Some zs)
    then show ?thesis using Cons by auto
  qed
qed simp

lemma replace_last_length: "replace_last key e xs = Some ys \<Longrightarrow> length ys = length xs"
  by (induction xs arbitrary: ys) (auto split: option.splits prod.splits if_splits)

definition in_flight :: "pump \<Rightarrow> event list" where
  "in_flight p = (case p of PumpSending e \<Rightarrow> [e] | _ \<Rightarrow> [])"

lemma in_flight_simps [simp]:
  "in_flight PumpLoop = []" "in_flight PumpWaiting = []" "in_flight PumpDone = []"
  "in_flight (PumpSending e) = [e]"
  by (simp_all add: in_flight_def)

definition delivered :: "event_system \<Rightarrow> event list" where
  "delivered y = ev_received y @ es_stream (ev_sub y)"

definition pending :: "event_system \<Rightarrow> event list" where
  "pending y = in_flight (sub_pump y) @ es_queue (ev_sub y)"

definition nothing_lost :: "event_system \<Rightarrow> bool" where
  "nothing_lost y \<longleftrightarrow>
     (if es_closed (ev_sub y) then prefix (essential (delivered y)) (essential (ev_offered y))
        \<and> (sub_pump y \<noteq> PumpDone \<longrightarrow>
             prefix (essential (delivered y @ pending y)) (essential (ev_offered y)))
      else sub_pump y \<noteq> PumpDone \<and> essential (delivered y @ pending y) = essential (ev_offered y))"

lemmas event_state = on_sub_def delivered_def pending_def

lemma nothing_lost_prefix:
  assumes "nothing_lost y"
  shows "prefix (essential (delivered y)) (essential (ev_offered y))"
    and "sub_pump y \<noteq> PumpDone \<Longrightarrow> prefix (essential (delivered y @ pending y)) (essential (ev_offered y))"
proof -
  have "prefix (essential (delivered y)) (essential (delivered y @ pending y))" by simp
  then show "prefix (essential (delivered y)) (essential (ev_offered y))"
    using assms by (auto simp: nothing_lost_def simp del: essential_simps split: if_splits)
  show "sub_pump y \<noteq> PumpDone \<Longrightarrow> prefix (essential (delivered y @ pending y)) (essential (ev_offered y))"
    using assms by (auto simp: nothing_lost_def simp del: essential_simps split: if_splits)
qed

lemma enqueue_keeps:
  assumes "nothing_lost y"
  shows "nothing_lost ((on_sub (enqueue e) y)
      \<lparr>ev_offered := (if es_closed (ev_sub y) then ev_offered y else ev_offered y @ [e])\<rparr>)"
proof (cases "es_closed (ev_sub y)")
  case True
  then have "enqueue e (ev_sub y) = ev_sub y" by (simp add: enqueue_def)
  then show ?thesis using assms True by (simp add: nothing_lost_def event_state)
next
  case False
  then have here: "essential (delivered y @ pending y) = essential (ev_offered y)" "sub_pump y \<noteq> PumpDone"
    using assms by (simp_all add: nothing_lost_def)
  show ?thesis
  proof (cases "length (es_queue (ev_sub y)) < es_capacity (ev_sub y)")
    case True
    then show ?thesis
      using here False by (simp add: nothing_lost_def enqueue_def event_state)
  next
    case full: False
    show ?thesis
    proof (cases "coalescing_key e")
      case None
      have "prefix (essential (ev_offered y)) (essential (ev_offered y @ [e]))" by simp
      with None show ?thesis
        using False full nothing_lost_prefix [OF assms] here(2)
        by (simp add: nothing_lost_def enqueue_def on_sub_def delivered_def pending_def)
    next
      case (Some key)
      show ?thesis
      proof (cases "replace_last key e (es_queue (ev_sub y))")
        case None
        then show ?thesis
          using here False full Some by (simp add: nothing_lost_def enqueue_def event_state)
      next
        case replaced: (Some queue)
        then show ?thesis
          using here False full Some replace_last_essential [OF replaced Some]
          by (simp add: nothing_lost_def enqueue_def event_state)
      qed
    qed
  qed
qed

lemma enqueue_ok:
  "stream_ok capacity s \<Longrightarrow> es_due s = NothingDue \<Longrightarrow> stream_ok capacity (enqueue e s)"
proof (cases "es_closed s")
  case False
  moreover assume "stream_ok capacity s" "es_due s = NothingDue"
  ultimately show ?thesis
    by (simp add: stream_ok_def enqueue_def replace_last_length split: option.split)
qed (simp add: enqueue_def)

lemma stream_ok_actor:
  "actor_step y z \<Longrightarrow> stream_ok capacity (ev_sub y) \<Longrightarrow> stream_ok capacity (ev_sub z)"
proof (erule actor_stepE)
  fix e
  assume "stream_ok capacity (ev_sub y)" "es_due (ev_sub y) = NothingDue"
    and z: "z = (on_sub (enqueue e) y)
      \<lparr>ev_offered := (if es_closed (ev_sub y) then ev_offered y else ev_offered y @ [e])\<rparr>"
  from enqueue_ok [OF this(1,2), of e] show ?thesis unfolding z by (simp add: on_sub_def)
qed (auto simp: on_sub_def close_events_def stop_def signal_def stream_ok_def)

lemma stream_ok_reader:
  "reader_step y z \<Longrightarrow> stream_ok capacity (ev_sub y) \<Longrightarrow> stream_ok capacity (ev_sub z)"
  by (erule reader_stepE)
    (auto simp: on_sub_def pump_loop_def stream_ok_def split: list.split)

lemma reachable_stream_ok: "event_reachable capacity y \<Longrightarrow> stream_ok capacity (ev_sub y)"
proof (induction rule: event_reachable.induct)
  case event_start
  show ?case by (simp add: stream_ok_def new_event_system_def new_event_subscription_def)
qed (rule stream_ok_actor stream_ok_reader; assumption)+

lemma nothing_lost_actor:
  assumes "actor_step y z" "nothing_lost y"
  shows "nothing_lost z"
  using assms
proof (cases rule: actor_step.cases)
  case (actor_enqueues e)
  then show ?thesis using enqueue_keeps [OF assms(2)] by simp
next
  case actor_closes
  then show ?thesis
    using nothing_lost_prefix [OF assms(2)]
    by (simp add: nothing_lost_def event_state close_events_def)
qed (auto simp: nothing_lost_def event_state stop_def signal_def)

lemma nothing_lost_reader:
  assumes "reader_step y z" "nothing_lost y" "stream_ok capacity (ev_sub y)"
  shows "nothing_lost z"
  using assms
proof (cases rule: reader_step.cases)
  case pump_looks
  then show ?thesis
    using assms(2) by (auto simp: nothing_lost_def event_state pump_loop_def split: list.splits if_splits)
next
  case (pump_stops e)
  then have "es_closed (ev_sub y)" using assms(3) by (simp add: stream_ok_def)
  then show ?thesis using assms(2) pump_stops by (simp add: nothing_lost_def event_state)
next
  case (pump_sends e)
  have same: "delivered z @ pending z = delivered y @ pending y"
    using pump_sends by (simp add: event_state)
  have "prefix (essential (delivered z @ pending z)) (essential (ev_offered y))"
    unfolding same using nothing_lost_prefix(2) [OF assms(2)] pump_sends(2) by simp
  moreover from this have "prefix (essential (delivered z)) (essential (ev_offered y))"
    using append_prefixD by fastforce
  moreover have fields: "es_closed (ev_sub z) = es_closed (ev_sub y)" "sub_pump z \<noteq> PumpDone"
    "ev_offered z = ev_offered y"
    using pump_sends(1) by (simp_all add: on_sub_def)
  ultimately show ?thesis
    using assms(2) unfolding nothing_lost_def same fields by (auto simp del: essential_simps)
next
  case (frontend_receives e stream)
  then show ?thesis using assms(2) by (auto simp: nothing_lost_def event_state)
next
  case pump_woken
  then show ?thesis using assms(2) by (auto simp: nothing_lost_def event_state)
qed

lemma reachable_nothing_lost: "event_reachable capacity y \<Longrightarrow> nothing_lost y"
proof (induction rule: event_reachable.induct)
  case event_start
  show ?case
    by (simp add: nothing_lost_def new_event_system_def new_event_subscription_def event_state)
next
  case (event_actor y z)
  then show ?case using nothing_lost_actor by blast
next
  case (event_reader y z)
  then show ?case using nothing_lost_reader reachable_stream_ok by blast
qed

definition all_offered :: "event_system \<Rightarrow> bool" where
  "all_offered y \<longleftrightarrow> set (delivered y @ pending y) \<subseteq> set (ev_offered y)"

lemma enqueue_set:
  "set (es_queue (enqueue e s)) \<subseteq> (if es_closed s then set (es_queue s) else insert e (set (es_queue s)))"
proof (cases "es_closed s \<or> length (es_queue s) < es_capacity s \<or> coalescing_key e = None")
  case True
  then show ?thesis by (auto simp: enqueue_def split: option.split)
next
  case False
  then obtain key where key: "coalescing_key e = Some key" by auto
  show ?thesis
  proof (cases "replace_last key e (es_queue s)")
    case None
    then show ?thesis using False key by (auto simp: enqueue_def)
  next
    case (Some queue)
    then show ?thesis using False key replace_last_essential [OF Some key] by (simp add: enqueue_def)
  qed
qed

lemma all_offered_actor:
  assumes "actor_step y z" "all_offered y"
  shows "all_offered z"
  using assms(1)
proof (cases rule: actor_step.cases)
  case (actor_enqueues e)
  have "es_stream (enqueue e (ev_sub y)) = es_stream (ev_sub y)" "es_pump (enqueue e (ev_sub y)) = sub_pump y"
    by (simp_all add: enqueue_def split: option.split)
  with actor_enqueues show ?thesis
    using assms(2) enqueue_set [of e "ev_sub y"]
    by (auto simp: all_offered_def event_state split: if_splits)
qed (use assms(2) in \<open>auto simp: all_offered_def event_state close_events_def stop_def signal_def\<close>)

lemma all_offered_reader:
  assumes "reader_step y z" "all_offered y"
  shows "all_offered z"
  using assms(1)
proof (cases rule: reader_step.cases)
  case pump_looks
  then show ?thesis using assms(2)
    by (auto simp: all_offered_def event_state pump_loop_def split: list.split)
qed (use assms(2) in \<open>auto simp: all_offered_def event_state\<close>)

lemma reachable_all_offered: "event_reachable capacity y \<Longrightarrow> all_offered y"
proof (induction rule: event_reachable.induct)
  case event_start
  show ?case by (simp add: all_offered_def new_event_system_def new_event_subscription_def event_state)
qed (rule all_offered_actor all_offered_reader; assumption)+

text \<open>
  C4. However the actor, the goroutine and the frontend interleave: queue and stream stay within
  the capacity, the frontend receives only events that were offered, it receives the events without
  a coalescing key in their order and without gaps, and while the subscription is open none of them
  is lost: each one is received, in the stream, being sent or queued.
\<close>

theorem event_stream_complete:
  assumes "event_reachable capacity y"
  shows "prefix (essential (ev_received y)) (essential (ev_offered y))
    \<and> set (ev_received y) \<subseteq> set (ev_offered y)
    \<and> length (es_queue (ev_sub y)) \<le> capacity \<and> length (es_stream (ev_sub y)) \<le> capacity
    \<and> (es_closed (ev_sub y) \<or> essential (delivered y @ pending y) = essential (ev_offered y))"
proof -
  have "prefix (essential (ev_received y)) (essential (delivered y))" by (simp add: delivered_def)
  then have "prefix (essential (ev_received y)) (essential (ev_offered y))"
    using nothing_lost_prefix(1) [OF reachable_nothing_lost [OF assms]] prefix_order.trans by blast
  moreover have "set (ev_received y) \<subseteq> set (ev_offered y)"
    using reachable_all_offered [OF assms] by (simp add: all_offered_def delivered_def)
  moreover have "es_closed (ev_sub y) \<or> essential (delivered y @ pending y) = essential (ev_offered y)"
    using reachable_nothing_lost [OF assms] unfolding nothing_lost_def by (metis (full_types))
  ultimately show ?thesis
    using reachable_stream_ok [OF assms] by (simp add: stream_ok_def)
qed

subsection \<open>Delivery\<close>

text \<open>Every step of the goroutine and the frontend uses up some of this.\<close>

definition reader_work :: "event_system \<Rightarrow> nat" where
  "reader_work y =
     5 * length (es_queue (ev_sub y)) + length (es_stream (ev_sub y)) + (if es_wake (ev_sub y) then 2 else 0)
     + (case sub_pump y of PumpLoop \<Rightarrow> 2 | PumpWaiting \<Rightarrow> 1 | PumpSending _ \<Rightarrow> 4 | PumpDone \<Rightarrow> 0)"

lemma reader_step_work:
  assumes "reader_step y z"
  shows "reader_work z < reader_work y"
  using assms
proof (cases rule: reader_step.cases)
  case pump_looks
  then show ?thesis by (auto simp: reader_work_def on_sub_def pump_loop_def split: list.split)
next
  case pump_woken
  then show ?thesis by (simp add: reader_work_def on_sub_def)
next
  case (pump_sends e)
  then show ?thesis by (simp add: reader_work_def on_sub_def)
next
  case (pump_stops e)
  then show ?thesis by (auto simp: reader_work_def on_sub_def)
next
  case (frontend_receives e stream)
  then show ?thesis by (simp add: reader_work_def on_sub_def)
qed

inductive reader_steps :: "event_system \<Rightarrow> nat \<Rightarrow> event_system \<Rightarrow> bool" where
  reader_rest: "reader_steps y 0 y"
| reader_more: "reader_step x y \<Longrightarrow> reader_steps y n z \<Longrightarrow> reader_steps x (Suc n) z"

lemma reader_steps_work: "reader_steps y n z \<Longrightarrow> n + reader_work z \<le> reader_work y"
proof (induction rule: reader_steps.induct)
  case (reader_more x y n z)
  then show ?case using reader_step_work [of x y] by simp
qed simp

lemma reader_step_keeps:
  assumes "reader_step y z" "stream_ok capacity (ev_sub y)" "\<not> es_closed (ev_sub y)"
  shows "\<not> es_closed (ev_sub z)" "es_due (ev_sub z) = es_due (ev_sub y)"
    "delivered z @ pending z = delivered y @ pending y"
  using assms
  by (cases rule: reader_step.cases;
      auto simp: event_state pump_loop_def stream_ok_def split: list.split)+

lemma reader_steps_keeps:
  assumes "reader_steps y n z" "stream_ok capacity (ev_sub y)" "\<not> es_closed (ev_sub y)"
  shows "stream_ok capacity (ev_sub z) \<and> \<not> es_closed (ev_sub z) \<and> es_due (ev_sub z) = es_due (ev_sub y)
    \<and> delivered z @ pending z = delivered y @ pending y"
  using assms
proof (induction rule: reader_steps.induct)
  case (reader_more x y n z)
  show ?case
    using reader_step_keeps [OF reader_more.hyps(1) reader_more.prems]
      reader_more.IH [OF stream_ok_reader [OF reader_more.hyps(1) reader_more.prems(1)]]
    by simp
qed simp

lemma reader_at_rest:
  assumes "\<not> (\<exists>z. reader_step y z)" "stream_ok capacity (ev_sub y)" "\<not> es_closed (ev_sub y)"
    and "es_due (ev_sub y) = NothingDue" "0 < capacity"
  shows "pending y = [] \<and> es_stream (ev_sub y) = []"
proof -
  have stream: "es_stream (ev_sub y) = []"
  proof (rule ccontr)
    assume "es_stream (ev_sub y) \<noteq> []"
    then obtain e stream where "es_stream (ev_sub y) = e # stream" by (cases "es_stream (ev_sub y)") auto
    then show False using frontend_receives assms(1) by blast
  qed
  show ?thesis
  proof (cases "sub_pump y")
    case PumpLoop
    then show ?thesis using pump_looks assms(1) by blast
  next
    case PumpWaiting
    then have "\<not> es_wake (ev_sub y)" using pump_woken assms(1) by blast
    then have "es_queue (ev_sub y) = []" using assms(2,4) PumpWaiting by (simp add: stream_ok_def)
    then show ?thesis using stream PumpWaiting by (simp add: pending_def)
  next
    case (PumpSending e)
    have "length (es_stream (ev_sub y)) < es_capacity (ev_sub y)"
      using stream assms(2,5) by (simp add: stream_ok_def)
    then show ?thesis using pump_sends [OF PumpSending] assms(1) by blast
  next
    case PumpDone
    then show ?thesis using assms(2,3) by (simp add: stream_ok_def)
  qed
qed

text \<open>
  Once the subscription is closed and the actor has stopped it, the goroutine ends, and at most the event
  that it was sending still goes out.
\<close>

definition last_words :: "event_system \<Rightarrow> event_system \<Rightarrow> bool" where
  "last_words y z \<longleftrightarrow>
     es_closed (ev_sub z) \<and> es_stopped (ev_sub z)
     \<and> (\<forall>e. sub_pump z = PumpSending e \<longrightarrow> sub_pump y = PumpSending e \<and> delivered z = delivered y)
     \<and> (delivered z = delivered y \<or> delivered z = delivered y @ in_flight (sub_pump y))"

lemma last_words_step:
  assumes "reader_step z x" "last_words y z"
  shows "last_words y x"
  using assms(1)
proof (cases rule: reader_step.cases)
  case pump_looks
  then show ?thesis using assms(2) by (auto simp: last_words_def event_state pump_loop_def)
next
  case (pump_sends e)
  have "delivered x = delivered z @ [e]" "sub_pump x = PumpLoop" "es_closed (ev_sub x) = es_closed (ev_sub z)"
    "es_stopped (ev_sub x) = es_stopped (ev_sub z)"
    using pump_sends(1) by (simp_all add: event_state)
  then show ?thesis using assms(2) pump_sends(2) by (simp add: last_words_def)
qed (use assms(2) in \<open>auto simp: last_words_def event_state\<close>)

lemma last_words_steps: "reader_steps z n x \<Longrightarrow> last_words y z \<Longrightarrow> last_words y x"
  by (induction rule: reader_steps.induct) (blast intro: last_words_step)+

lemma ended_at_rest:
  assumes "\<not> (\<exists>z'. reader_step z z')" "es_stopped (ev_sub z)"
  shows "sub_pump z = PumpDone \<and> es_stream (ev_sub z) = []"
proof
  show "es_stream (ev_sub z) = []"
    using assms(1) frontend_receives by (cases "es_stream (ev_sub z)") blast+
  show "sub_pump z = PumpDone"
    using assms pump_looks pump_stops by (cases "sub_pump z") blast+
qed

text \<open>The buffer the client gives its event subscription (\<^verbatim>\<open>NewClient\<close>).\<close>

definition defaultEventBuffer :: nat where "defaultEventBuffer = 32"

definition event_buffer :: "int \<Rightarrow> nat" where
  "event_buffer n = (if n \<le> 0 then defaultEventBuffer else nat n)"

lemma event_buffer_pos: "0 < event_buffer n"
  by (simp add: event_buffer_def defaultEventBuffer_def)

text \<open>
  C5. Delivery. Once the actor rests, the goroutine and the frontend of a client come to rest too,
  whatever their order, within a number of steps that depends only on what is queued. When neither can move
  any more and the subscription is still open, the frontend has received all that had been queued.
  If the subscription has been closed, or has closed itself because the frontend was too slow, the goroutine
  has ended, and the frontend has received what was in the stream and at most the one event that was being
  sent; the rest of the queue is dropped.
\<close>

theorem event_stream_delivers:
  assumes "event_reachable (event_buffer buffer) y" "es_due (ev_sub y) = NothingDue" "reader_steps y n z"
  shows "n \<le> reader_work y
    \<and> ((\<exists>z'. reader_step z z')
       \<or> (if es_closed (ev_sub y)
          then sub_pump z = PumpDone
            \<and> (ev_received z = delivered y \<or> ev_received z = delivered y @ in_flight (sub_pump y))
          else ev_received z = delivered y @ pending y))"
proof -
  have ok: "stream_ok (event_buffer buffer) (ev_sub y)" by (rule reachable_stream_ok [OF assms(1)])
  have "ev_received z = delivered y @ pending y"
    if "\<not> (\<exists>z'. reader_step z z')" "\<not> es_closed (ev_sub y)"
    using reader_steps_keeps [OF assms(3) ok that(2)] reader_at_rest [OF that(1), of "event_buffer buffer"]
      assms(2) event_buffer_pos [of buffer]
    by (simp add: delivered_def)
  moreover have "sub_pump z = PumpDone
      \<and> (ev_received z = delivered y \<or> ev_received z = delivered y @ in_flight (sub_pump y))"
    if rest: "\<not> (\<exists>z'. reader_step z z')" and closed: "es_closed (ev_sub y)"
  proof -
    have "last_words y y" using ok closed assms(2) by (auto simp: last_words_def stream_ok_def)
    from last_words_steps [OF assms(3) this] ended_at_rest [OF rest] show ?thesis
      by (simp add: last_words_def delivered_def)
  qed
  ultimately show ?thesis using reader_steps_work [OF assms(3)] by auto
qed

lemma readers_rest: "\<exists>n z. reader_steps y n z \<and> \<not> (\<exists>z'. reader_step z z')"
proof (induction "reader_work y" arbitrary: y rule: less_induct)
  case less
  show ?case
  proof (cases "\<exists>z. reader_step y z")
    case True
    then obtain x where x: "reader_step y x" by blast
    from less [OF reader_step_work [OF x]] obtain n z
      where "reader_steps x n z" "\<not> (\<exists>z'. reader_step z z')" by blast
    with x show ?thesis using reader_more by blast
  qed (use reader_rest in blast)
qed

subsection \<open>Examples\<close>

definition offering :: "event \<Rightarrow> event_system \<Rightarrow> event_system" where
  "offering e y = on_sub signal ((on_sub (enqueue e) y)\<lparr>ev_offered := ev_offered y @ [e]\<rparr>)"

lemma offering_reachable:
  assumes "event_reachable capacity y" "es_due (ev_sub y) = NothingDue" "\<not> es_closed (ev_sub y)"
    and "es_due (enqueue e (ev_sub y)) = SignalDue"
  shows "event_reachable capacity (offering e y)"
proof -
  have "event_reachable capacity ((on_sub (enqueue e) y)\<lparr>ev_offered := ev_offered y @ [e]\<rparr>)"
    using event_actor [OF assms(1) actor_enqueues [OF assms(2), of e]] assms(3) by simp
  then show ?thesis
    unfolding offering_def using assms(4) by (intro event_actor [OF _ actor_signals]) (simp_all add: on_sub_def)
qed

lemmas offering_simps = offering_def on_sub_def enqueue_def signal_def new_event_system_def
  new_event_subscription_def

definition one_event :: event_system where
  "one_event = offering (ApplicationClosed 1) (new_event_system 1)"

lemma one_event_reachable: "event_reachable 1 one_event"
  unfolding one_event_def
  by (rule offering_reachable [OF event_start]) (simp_all add: offering_simps)

lemma one_event_simps [simp]:
  "es_due (ev_sub one_event) = NothingDue" "\<not> es_closed (ev_sub one_event)"
  "delivered one_event = []" "pending one_event = [ApplicationClosed 1]"
  "ev_offered one_event = [ApplicationClosed 1]"
  by (simp_all add: one_event_def offering_simps event_state)

lemma event_stream_complete_witness:
  "prefix (essential (ev_received one_event)) (essential [ApplicationClosed 1])"
  using event_stream_complete [OF one_event_reachable] by (simp del: essential_simps)

lemma event_stream_delivers_witness:
  "\<exists>n z. reader_steps one_event n z \<and> ev_received z = [ApplicationClosed 1]"
proof -
  obtain n z where z: "reader_steps one_event n z" "\<not> (\<exists>z'. reader_step z z')"
    using readers_rest by blast
  have "ev_received z = [ApplicationClosed 1]"
    using event_stream_delivers [of 1, OF _ _ z(1)] one_event_reachable z(2) by (simp add: event_buffer_def)
  with z(1) show ?thesis by blast
qed

text \<open>
  Coalescing keeps the place of the event it replaces, so that a later revision can come before an
  earlier one: the stream is ordered only among events without a key.
\<close>

definition progress_event :: "nat \<Rightarrow> event" where
  "progress_event n = Progress (bare_head n [] [] 0) ''k'' ''m''"

definition three_events :: event_system where
  "three_events = offering (progress_event 3) (offering (ApplicationClosed 2)
     (offering (progress_event 1) (new_event_system 2)))"

lemma coalescing_reorders:
  "event_reachable 2 three_events
   \<and> map event_revision (es_queue (ev_sub three_events)) = [3, 2]"
proof
  show "event_reachable 2 three_events"
    unfolding three_events_def
    by (intro offering_reachable event_start)
      (simp_all add: offering_simps progress_event_def coalescing_key_def)
  show "map event_revision (es_queue (ev_sub three_events)) = [3, 2]"
    by (simp add: three_events_def offering_simps progress_event_def coalescing_key_def
        event_revision_def bare_head_def)
qed

end
