(* ===== verification/Client.thy ===== *)
theory Client
  imports Reducer_Steps Event_Stream
begin

text \<open>
  The application client (\<^verbatim>\<open>internal/app/client.go\<close>): callers put requests into a bounded mailbox, one
  actor hands them to the reducer, publishes the commit and answers. The mutex guards the admission
  of requests and the end of the actor. What the reducer asks of its clock, identities and services
  while it handles a request is part of the step, and so are the services behind the queries.
\<close>

subsection \<open>Requests and answers\<close>

datatype 'q client_query =
    SnapshotQuery | LargeContentRangeQuery 'q | LargeContentWindowQuery 'q | SearchTreeQuery 'q
  | QueryOther

datatype 'q client_request = InputRequest reducer_input | QueryRequest "'q client_query"

datatype client_failure =
    ReducerFailure reducer_error | ErrLargeContentUnavailable | ErrTreeSearchUnavailable
  | ErrInvalidQuery | ServiceFailure bytes

datatype ('p, 'a) query_result = SnapshotResult "'p app_snapshot" | ServiceResult 'a

type_synonym ('p, 'a) client_answer =
  "(client_failure, operation_id + ('p, 'a) query_result) result"

record ('q, 'a) query_ports =
  qp_large_content :: "('q client_query \<Rightarrow> (bytes, 'a) result) option"
  qp_searcher :: "('q client_query \<Rightarrow> (bytes, 'a) result) option"

definition ask_port ::
    "client_failure \<Rightarrow> ('q client_query \<Rightarrow> (bytes, 'a) result) option \<Rightarrow> 'q client_query
     \<Rightarrow> ('p, 'a) client_answer" where
  "ask_port unavailable port q =
     (case port of
        None \<Rightarrow> Inl unavailable
      | Some f \<Rightarrow>
          (case f q of Inl e \<Rightarrow> Inl (ServiceFailure e) | Inr a \<Rightarrow> Inr (Inr (ServiceResult a))))"

definition answer_query ::
    "('q, 'a) query_ports \<Rightarrow> 'p app_state \<Rightarrow> 'q client_query \<Rightarrow> ('p, 'a) client_answer" where
  "answer_query ports s q =
     (case q of
        SnapshotQuery \<Rightarrow> Inr (Inr (SnapshotResult (snapshot_from_state s)))
      | LargeContentRangeQuery _ \<Rightarrow> ask_port ErrLargeContentUnavailable (qp_large_content ports) q
      | LargeContentWindowQuery _ \<Rightarrow> ask_port ErrLargeContentUnavailable (qp_large_content ports) q
      | SearchTreeQuery _ \<Rightarrow> ask_port ErrTreeSearchUnavailable (qp_searcher ports) q
      | QueryOther \<Rightarrow> Inl ErrInvalidQuery)"

subsection \<open>The client\<close>

text \<open>
  Requests are numbered in the order of their admission. \<open>ct_lock\<close> says that \<^verbatim>\<open>Close\<close> holds the
  mutex because the mailbox had no room yet; \<open>ct_ending\<close> that the actor has seen a closing commit.
  The last three fields are history: the requests admitted, the events handed to the event
  subscription, and the answers.
\<close>

record ('p, 'q, 'a) client =
  ct_reducer :: "'p reducer"
  ct_buffer :: nat
  ct_mailbox :: "(nat \<times> 'q client_request) list"
  ct_next :: nat
  ct_accepting :: bool
  ct_lock :: bool
  ct_ending :: bool
  ct_done :: bool
  ct_snapshots :: "'p app_snapshot snapshot_subscription"
  ct_admitted :: "'q client_request list"
  ct_published :: "event list"
  ct_answers :: "(nat \<times> ('p, 'a) client_answer) list"

definition defaultCommandBuffer :: nat where "defaultCommandBuffer = 32"

definition new_client :: "int \<Rightarrow> 'p \<Rightarrow> ('p, 'q, 'a) client" where
  "new_client command_buffer disconnected =
     (let r = new_reducer disconnected in
      \<lparr>ct_reducer = r,
       ct_buffer = (if command_buffer \<le> 0 then defaultCommandBuffer else nat command_buffer),
       ct_mailbox = [], ct_next = 0, ct_accepting = True, ct_lock = False, ct_ending = False,
       ct_done = False, ct_snapshots = new_snapshot_subscription (snapshot_from_state (rd_state r)),
       ct_admitted = [], ct_published = [], ct_answers = []\<rparr>)"

text \<open>The client passes the clock, the identities and the reattachment service on, no thread service.\<close>

definition client_config :: "reducer_config \<Rightarrow> reducer_config" where
  "client_config cfg = cfg\<lparr>rc_threads := None\<rparr>"

definition enter_mailbox ::
    "'q client_request \<Rightarrow> ('p, 'q, 'a) client \<Rightarrow> ('p, 'q, 'a) client" where
  "enter_mailbox q c =
     c\<lparr>ct_mailbox := ct_mailbox c @ [(ct_next c, q)], ct_next := ct_next c + 1,
       ct_admitted := ct_admitted c @ [q]\<rparr>"

definition mailbox_room :: "('p, 'q, 'a) client \<Rightarrow> bool" where
  "mailbox_room c \<longleftrightarrow> length (ct_mailbox c) < ct_buffer c"

definition publish_commit :: "'p commit \<Rightarrow> ('p, 'q, 'a) client \<Rightarrow> ('p, 'q, 'a) client" where
  "publish_commit cm c =
     (if \<not> cm_changed cm then c
      else
        c\<lparr>ct_snapshots := offer_snapshot (the (cm_snapshot cm)) (ct_snapshots c),
          ct_published := ct_published c @ cm_events cm\<rparr>)"

definition answer :: "nat \<Rightarrow> ('p, 'a) client_answer \<Rightarrow> ('p, 'q, 'a) client \<Rightarrow> ('p, 'q, 'a) client" where
  "answer i a c = c\<lparr>ct_answers := ct_answers c @ [(i, a)]\<rparr>"

definition actor_input ::
    "reducer_config \<Rightarrow> nat \<Rightarrow> reducer_input \<Rightarrow> ('p, 'q, 'a) client \<Rightarrow> ('p, 'q, 'a) client" where
  "actor_input cfg i input c =
     (let (r, out) = handle (client_config cfg) input (ct_reducer c);
          c = c\<lparr>ct_reducer := r\<rparr>
      in case out of
           Inl e \<Rightarrow> answer i (Inl (ReducerFailure e)) c
         | Inr resp \<Rightarrow>
             (answer i (Inr (Inl (re_operation_id resp))) (publish_commit (re_commit resp) c))
               \<lparr>ct_ending := cm_closed (re_commit resp)\<rparr>)"

definition actor_takes ::
    "('q, 'a) query_ports \<Rightarrow> reducer_config \<Rightarrow> nat \<Rightarrow> 'q client_request \<Rightarrow> ('p, 'q, 'a) client
     \<Rightarrow> ('p, 'q, 'a) client" where
  "actor_takes ports cfg i request c =
     (case request of
        QueryRequest q \<Rightarrow> answer i (answer_query ports (rd_state (ct_reducer c)) q) c
      | InputRequest input \<Rightarrow> actor_input cfg i input c)"

definition actor_ends :: "('p, 'q, 'a) client \<Rightarrow> ('p, 'q, 'a) client" where
  "actor_ends c =
     c\<lparr>ct_accepting := False, ct_ending := False, ct_done := True,
       ct_snapshots := close_snapshots (ct_snapshots c)\<rparr>"

subsection \<open>Interleavings\<close>

inductive client_step ::
    "('q client_request \<Rightarrow> bool) \<Rightarrow> ('p, 'q, 'a) client \<Rightarrow> ('p, 'q, 'a) client \<Rightarrow> bool"
  for submitted where
  client_submits: "\<lbrakk>submitted q; ct_accepting c; \<not> ct_lock c; mailbox_room c\<rbrakk> \<Longrightarrow>
    client_step submitted c (enter_mailbox q c)"
| client_closes: "\<lbrakk>ct_accepting c; \<not> ct_lock c\<rbrakk> \<Longrightarrow>
    client_step submitted c (c\<lparr>ct_accepting := False, ct_lock := True\<rparr>)"
| client_shuts: "\<lbrakk>ct_lock c; mailbox_room c\<rbrakk> \<Longrightarrow>
    client_step submitted c ((enter_mailbox (InputRequest (Command (Shutdown []))) c)\<lparr>ct_lock := False\<rparr>)"
| client_handles: "\<lbrakk>ct_mailbox c = (i, request) # rest; \<not> ct_ending c; \<not> ct_done c\<rbrakk> \<Longrightarrow>
    client_step submitted c (actor_takes ports cfg i request (c\<lparr>ct_mailbox := rest\<rparr>))"
| client_ends: "\<lbrakk>ct_ending c; \<not> ct_lock c\<rbrakk> \<Longrightarrow> client_step submitted c (actor_ends c)"
| client_shows: "ss_stream (ct_snapshots c) = Some s \<Longrightarrow>
    client_step submitted c (c\<lparr>ct_snapshots := (ct_snapshots c)\<lparr>ss_stream := None\<rparr>\<rparr>)"

inductive_cases client_stepE: "client_step submitted c c'"

inductive client_steps ::
    "('q client_request \<Rightarrow> bool) \<Rightarrow> ('p, 'q, 'a) client \<Rightarrow> nat \<Rightarrow> ('p, 'q, 'a) client \<Rightarrow> bool"
  for submitted where
  client_rest: "client_steps submitted c 0 c"
| client_more: "client_steps submitted c n c' \<Longrightarrow> client_step submitted c' c'' \<Longrightarrow>
    client_steps submitted c (Suc n) c''"

subsection \<open>Order and consistency\<close>

definition reached :: "'p \<Rightarrow> 'p reducer \<Rightarrow> bool" where
  "reached d r \<longleftrightarrow> (\<exists>inputs. r = run_reducer inputs (new_reducer d))"

lemma reachedI: "reached d (run_reducer inputs (new_reducer d))"
  by (auto simp: reached_def)

definition client_ok :: "'p \<Rightarrow> ('p, 'q, 'a) client \<Rightarrow> bool" where
  "client_ok d c \<longleftrightarrow>
     reached d (ct_reducer c)
     \<and> map fst (ct_answers c) @ map fst (ct_mailbox c) = [0..<ct_next c]
     \<and> length (ct_mailbox c) \<le> ct_buffer c \<and> 0 < ct_buffer c
     \<and> ss_stream (ct_snapshots c) \<in> {None, Some (snapshot_from_state (rd_state (ct_reducer c)))}
     \<and> (ss_closed (ct_snapshots c) \<longleftrightarrow> ct_done c)
     \<and> sorted (map event_revision (ct_published c))
     \<and> list_all (\<lambda>e. event_revision e \<le> ap_revision (rd_state (ct_reducer c))) (ct_published c)
     \<and> (rd_closed (ct_reducer c) \<longleftrightarrow> ct_ending c \<or> ct_done c) \<and> \<not> (ct_ending c \<and> ct_done c)
     \<and> (ct_lock c \<or> ct_done c \<longrightarrow> \<not> ct_accepting c)"

lemma reached_new: "reached d (new_reducer d)"
  using reachedI [of d "[]"] by (simp add: run_reducer_def)

lemma new_client_ok: "client_ok d (new_client buffer d)"
  by (simp add: client_ok_def reached_new new_client_def Let_def new_snapshot_subscription_def
      defaultCommandBuffer_def) (simp add: new_reducer_def)

lemma run_reducer_snoc:
  "run_reducer (xs @ [(cfg, x)]) r = fst (handle cfg x (run_reducer xs r))"
  by (simp add: run_reducer_append run_reducer_Cons)

lemma reached_handle:
  assumes "reached d r"
  shows "reached d (fst (handle cfg x r))"
proof -
  obtain inputs where "r = run_reducer inputs (new_reducer d)" using assms by (auto simp: reached_def)
  then show ?thesis using reachedI [of d "inputs @ [(cfg, x)]"] by (simp add: run_reducer_snoc)
qed

lemma handle_outcome:
  assumes "reached d r"
  shows "unchanged_outcome r (handle cfg x r) \<or> commit_outcome r (handle cfg x r)"
proof -
  obtain inputs where "r = run_reducer inputs (new_reducer d)" using assms by (auto simp: reached_def)
  then have "table_ok r" using reducer_ok_run [OF new_reducer_ok, of inputs d] by (simp add: reducer_ok_def)
  from handle_good [OF this] show ?thesis by (simp add: good_step_def)
qed

lemma published_grows:
  assumes "sorted (map f es)" "list_all (\<lambda>e. f e \<le> n) es" "\<forall>e\<in>set fs. f e = Suc n"
  shows "sorted (map f (es @ fs)) \<and> list_all (\<lambda>e. f e \<le> Suc n) (es @ fs)"
proof -
  have "sorted (map f fs)" using assms(3) by (induction fs) auto
  then show ?thesis using assms by (fastforce simp: list_all_iff sorted_append)
qed

lemma actor_input_ok:
  assumes ok: "client_ok d c" and mailbox: "ct_mailbox c = (i, q) # rest"
    and open_c: "\<not> ct_ending c" "\<not> ct_done c"
  shows "client_ok d (actor_input cfg i input (c\<lparr>ct_mailbox := rest\<rparr>))"
proof -
  let ?r = "ct_reducer c"
  obtain r out where step: "handle (client_config cfg) input ?r = (r, out)" by fastforce
  have run: "reached d ?r" "\<not> rd_closed ?r"
    using ok open_c unfolding client_ok_def by blast+
  have here: "reached d r"
    using step reached_handle [OF run(1), of "client_config cfg" input] by simp
  have ids: "map fst (ct_answers c) @ i # map fst rest = [0..<ct_next c]"
    using ok mailbox by (simp add: client_ok_def)
  have out: "unchanged_outcome ?r (r, out) \<or> commit_outcome ?r (r, out)"
    using handle_outcome [OF run(1), of "client_config cfg" input] step by simp
  show ?thesis
  proof (cases out)
    case (Inl e)
    then have "rd_state r = rd_state ?r" "rd_closed r = rd_closed ?r"
      using out by (simp_all add: unchanged_outcome_def commit_outcome_def)
    then show ?thesis
      using ok mailbox ids here step Inl
      by (simp add: client_ok_def actor_input_def answer_def)
  next
    case (Inr resp)
    show ?thesis
    proof (cases "cm_changed (re_commit resp)")
      case False
      then have "r = ?r" "\<not> cm_closed (re_commit resp)"
        using out Inr by (simp_all add: unchanged_outcome_def commit_outcome_def Let_def)
      then show ?thesis
        using ok mailbox ids here step Inr False run(2) open_c
        by (simp add: client_ok_def actor_input_def answer_def publish_commit_def)
    next
      case True
      then have commit: "commit_outcome ?r (r, Inr resp)"
        using out Inr by (simp add: unchanged_outcome_def)
      have "ss_stream (offer_snapshot s u) = Some s" if "\<not> ss_closed u" for s and u :: "'a app_snapshot snapshot_subscription"
        using that by (simp add: offer_snapshot_def Let_def)
      moreover have "ss_closed (offer_snapshot s u) = ss_closed u" for s and u :: "'a app_snapshot snapshot_subscription"
        by (simp add: offer_snapshot_def Let_def)
      moreover have "sorted (map event_revision (ct_published c @ cm_events (re_commit resp)))
          \<and> list_all (\<lambda>e. event_revision e \<le> Suc (ap_revision (rd_state ?r)))
              (ct_published c @ cm_events (re_commit resp))"
        using ok commit by (intro published_grows) (simp_all add: client_ok_def commit_outcome_def Let_def)
      ultimately show ?thesis
        using ok mailbox ids here step Inr True commit open_c
        by (simp add: client_ok_def actor_input_def answer_def publish_commit_def commit_outcome_def Let_def)
    qed
  qed
qed

lemma client_step_ok:
  assumes "client_step submitted c c'" "client_ok d c"
  shows "client_ok d c'"
  using assms(1)
proof (cases rule: client_step.cases)
  case (client_submits q)
  then show ?thesis using assms(2) by (simp add: client_ok_def enter_mailbox_def mailbox_room_def)
next
  case client_closes
  then show ?thesis using assms(2) by (simp add: client_ok_def)
next
  case client_shuts
  then show ?thesis using assms(2) by (simp add: client_ok_def enter_mailbox_def mailbox_room_def)
next
  case (client_handles i request rest ports cfg)
  show ?thesis
  proof (cases request)
    case (InputRequest input)
    then show ?thesis
      using actor_input_ok [OF assms(2) client_handles(2-4)] client_handles(1)
      by (simp add: actor_takes_def)
  next
    case (QueryRequest q)
    have "map fst (ct_answers c) @ i # map fst rest = [0..<ct_next c]"
      using assms(2) client_handles(2) by (simp add: client_ok_def)
    then show ?thesis
      using QueryRequest client_handles assms(2) by (simp add: client_ok_def actor_takes_def answer_def)
  qed
next
  case client_ends
  then show ?thesis using assms(2) by (simp add: client_ok_def actor_ends_def close_snapshots_def)
next
  case (client_shows s)
  then show ?thesis using assms(2) by (simp add: client_ok_def)
qed

lemma client_steps_ok: "client_steps submitted c n c' \<Longrightarrow> client_ok d c \<Longrightarrow> client_ok d c'"
  by (induction rule: client_steps.induct) (simp_all add: client_step_ok)

subsection \<open>One request after the other\<close>

text \<open>
  What the client promises its callers, without a mailbox, an actor or interleavings: a reducer that takes
  one request after the other. Each is served with the readings and the ports of its own moment.
\<close>

type_synonym ('q, 'a) moment = "('q, 'a) query_ports \<times> reducer_config"

fun served_answer ::
    "('q, 'a) moment \<Rightarrow> 'q client_request \<Rightarrow> 'p reducer \<Rightarrow> ('p, 'a) client_answer" where
  "served_answer (ports, cfg) (QueryRequest q) r = answer_query ports (rd_state r) q"
| "served_answer (ports, cfg) (InputRequest x) r =
     (case snd (handle (client_config cfg) x r) of
        Inl e \<Rightarrow> Inl (ReducerFailure e)
      | Inr resp \<Rightarrow> Inr (Inl (re_operation_id resp)))"

fun served_events :: "('q, 'a) moment \<Rightarrow> 'q client_request \<Rightarrow> 'p reducer \<Rightarrow> event list" where
  "served_events m (QueryRequest q) r = []"
| "served_events m (InputRequest x) r =
     (case snd (handle (client_config (snd m)) x r) of
        Inl e \<Rightarrow> []
      | Inr resp \<Rightarrow> cm_events (re_commit resp))"

fun served_reducer :: "('q, 'a) moment \<Rightarrow> 'q client_request \<Rightarrow> 'p reducer \<Rightarrow> 'p reducer" where
  "served_reducer m (QueryRequest q) r = r"
| "served_reducer m (InputRequest x) r = fst (handle (client_config (snd m)) x r)"

fun serve ::
    "(('q, 'a) moment \<times> 'q client_request) list \<Rightarrow> 'p reducer
     \<Rightarrow> ('p, 'a) client_answer list \<times> event list \<times> 'p reducer" where
  "serve [] r = ([], [], r)"
| "serve ((m, q) # ms) r =
     (let (answers, events, r') = serve ms (served_reducer m q r) in
      (served_answer m q r # answers, served_events m q r @ events, r'))"

lemma serve_snoc:
  "serve (ms @ [(m, q)]) r =
     (let (answers, events, r') = serve ms r in
      (answers @ [served_answer m q r'], events @ served_events m q r', served_reducer m q r'))"
  by (induction ms arbitrary: r) (auto simp: Let_def case_prod_beta)

text \<open>The answers so far are those of the requests admitted first; the others are in the mailbox, in order.\<close>

definition in_order :: "'p \<Rightarrow> ('p, 'q, 'a) client \<Rightarrow> bool" where
  "in_order d c \<longleftrightarrow>
     (let k = length (ct_answers c) in
      length (ct_admitted c) = ct_next c \<and> k \<le> ct_next c
      \<and> map fst (ct_answers c) = [0..<k] \<and> ct_mailbox c = zip [k..<ct_next c] (drop k (ct_admitted c))
      \<and> (\<exists>moments. length moments = k
           \<and> serve (zip moments (take k (ct_admitted c))) (new_reducer d)
               = (map snd (ct_answers c), ct_published c, ct_reducer c)))"

lemma in_order_new: "in_order d (new_client buffer d)"
  by (simp add: in_order_def new_client_def Let_def)

lemma in_order_cong:
  assumes "in_order d c" "ct_answers c' = ct_answers c" "ct_admitted c' = ct_admitted c" "ct_next c' = ct_next c"
    "ct_mailbox c' = ct_mailbox c" "ct_published c' = ct_published c" "ct_reducer c' = ct_reducer c"
  shows "in_order d c'"
  using assms(1) by (simp add: in_order_def assms(2-7))

lemma in_order_enter:
  assumes "in_order d c"
  shows "in_order d (enter_mailbox q c)"
proof -
  let ?k = "length (ct_answers c)"
  have k: "?k \<le> ct_next c" "length (ct_admitted c) = ct_next c"
    using assms by (simp_all add: in_order_def Let_def)
  have "zip [?k..<ct_next c] (drop ?k (ct_admitted c)) @ [(ct_next c, q)]
      = zip [?k..<Suc (ct_next c)] (drop ?k (ct_admitted c @ [q]))"
    using k by (simp add: zip_append)
  with assms k show ?thesis by (simp add: in_order_def enter_mailbox_def Let_def)
qed

lemma actor_takes_serves:
  assumes "reached d (ct_reducer c)"
  shows "ct_answers (actor_takes ports cfg i q c) = ct_answers c @ [(i, served_answer (ports, cfg) q (ct_reducer c))]
    \<and> ct_published (actor_takes ports cfg i q c) = ct_published c @ served_events (ports, cfg) q (ct_reducer c)
    \<and> ct_reducer (actor_takes ports cfg i q c) = served_reducer (ports, cfg) q (ct_reducer c)
    \<and> ct_admitted (actor_takes ports cfg i q c) = ct_admitted c"
proof (cases q)
  case (InputRequest x)
  obtain r out where step: "handle (client_config cfg) x (ct_reducer c) = (r, out)" by fastforce
  show ?thesis
  proof (cases out)
    case (Inl e)
    then show ?thesis using InputRequest step by (simp add: actor_takes_def actor_input_def answer_def)
  next
    case (Inr resp)
    have "cm_events (re_commit resp) = []" if "\<not> cm_changed (re_commit resp)"
      using handle_outcome [OF assms, of "client_config cfg" x] step Inr that
      by (simp add: unchanged_outcome_def commit_outcome_def Let_def)
    then show ?thesis
      using InputRequest step Inr
      by (cases "cm_changed (re_commit resp)")
        (simp_all add: actor_takes_def actor_input_def answer_def publish_commit_def)
  qed
qed (simp add: actor_takes_def answer_def)

lemma actor_takes_parts:
  "ct_mailbox (actor_takes ports cfg i q c) = ct_mailbox c"
  "ct_accepting (actor_takes ports cfg i q c) = ct_accepting c"
  "ct_lock (actor_takes ports cfg i q c) = ct_lock c"
  "ct_done (actor_takes ports cfg i q c) = ct_done c"
  "ct_next (actor_takes ports cfg i q c) = ct_next c"
  "ct_admitted (actor_takes ports cfg i q c) = ct_admitted c"
  by (simp_all add: actor_takes_def actor_input_def answer_def publish_commit_def case_prod_beta Let_def
      split: client_request.split sum.split)

lemma in_order_takes:
  assumes ordered: "in_order d c" and reached: "reached d (ct_reducer c)"
    and mailbox: "ct_mailbox c = (i, q) # rest"
  shows "in_order d (actor_takes ports cfg i q (c\<lparr>ct_mailbox := rest\<rparr>))"
proof -
  let ?k = "length (ct_answers c)" and ?c = "c\<lparr>ct_mailbox := rest\<rparr>"
  let ?m = "(ports, cfg)" and ?r = "ct_reducer c"
  obtain moments where here: "length (ct_admitted c) = ct_next c" "?k \<le> ct_next c"
      "map fst (ct_answers c) = [0..<?k]" "ct_mailbox c = zip [?k..<ct_next c] (drop ?k (ct_admitted c))"
      "length moments = ?k"
      "serve (zip moments (take ?k (ct_admitted c))) (new_reducer d) = (map snd (ct_answers c), ct_published c, ?r)"
    using ordered by (auto simp: in_order_def Let_def)
  have k: "?k < ct_next c" using mailbox here(2,4) by (cases "?k = ct_next c") auto
  then have split: "[?k..<ct_next c] = ?k # [Suc ?k..<ct_next c]"
      "drop ?k (ct_admitted c) = ct_admitted c ! ?k # drop (Suc ?k) (ct_admitted c)"
    using here(1) by (simp_all add: upt_conv_Cons Cons_nth_drop_Suc)
  then have front: "i = ?k" "q = ct_admitted c ! ?k" "rest = zip [Suc ?k..<ct_next c] (drop (Suc ?k) (ct_admitted c))"
    using mailbox here(4) by auto
  have "zip (moments @ [?m]) (take (Suc ?k) (ct_admitted c)) = zip moments (take ?k (ct_admitted c)) @ [(?m, q)]"
    using here(1,5) k front(2) by (simp add: take_Suc_conv_app_nth zip_append)
  then have "serve (zip (moments @ [?m]) (take (Suc ?k) (ct_admitted c))) (new_reducer d)
      = (map snd (ct_answers c) @ [served_answer ?m q ?r], ct_published c @ served_events ?m q ?r, served_reducer ?m q ?r)"
    using here(6) by (simp add: serve_snoc)
  then have "\<exists>moments. length moments = Suc ?k
      \<and> serve (zip moments (take (Suc ?k) (ct_admitted c))) (new_reducer d)
          = (map snd (ct_answers c) @ [served_answer ?m q ?r], ct_published c @ served_events ?m q ?r, served_reducer ?m q ?r)"
    using here(5) by (intro exI [of _ "moments @ [?m]"]) simp
  then show ?thesis
    using here(1,3) k front(1,3) actor_takes_serves [of d ?c ports cfg i q] reached actor_takes_parts [of ports cfg i q ?c]
    by (simp add: in_order_def Let_def)
qed

lemma in_order_step:
  assumes "client_step submitted c c'" "client_ok d c" "in_order d c"
  shows "in_order d c'"
  using assms(1)
proof (cases rule: client_step.cases)
  case (client_submits q)
  then show ?thesis using in_order_enter [OF assms(3)] by simp
next
  case client_shuts
  then show ?thesis
    using in_order_cong [OF in_order_enter [OF assms(3)]] by (metis client.select_convs client.surjective client.update_convs(6))
next
  case (client_handles i q rest ports cfg)
  have "reached d (ct_reducer c)" using assms(2) by (simp add: client_ok_def)
  then show ?thesis using in_order_takes [OF assms(3) _ client_handles(2)] client_handles(1) by simp
qed (use in_order_cong [OF assms(3)] in \<open>simp_all add: actor_ends_def\<close>)

lemma in_order_steps:
  assumes "client_steps submitted c n c'" "client_ok d c" "in_order d c"
  shows "client_ok d c' \<and> in_order d c'"
  using assms by (induction rule: client_steps.induct) (auto intro: client_step_ok in_order_step)

text \<open>Only what was submitted, and the shutdown of \<^verbatim>\<open>Close\<close>, is ever admitted.\<close>

definition admissible :: "('q client_request \<Rightarrow> bool) \<Rightarrow> ('p, 'q, 'a) client \<Rightarrow> bool" where
  "admissible submitted c \<longleftrightarrow>
     list_all (\<lambda>q. submitted q \<or> q = InputRequest (Command (Shutdown []))) (ct_admitted c)"

lemma admissible_steps:
  assumes "client_steps submitted c n c'" "admissible submitted c"
  shows "admissible submitted c'"
  using assms
proof (induction rule: client_steps.induct)
  case (client_more c n c' c'')
  have "admissible submitted c'" by (rule client_more.IH [OF client_more.prems])
  with client_more.hyps(2) show ?case
    by (cases rule: client_step.cases) (auto simp: admissible_def enter_mailbox_def actor_ends_def actor_takes_parts)
qed simp

text \<open>
  C2. However callers, the closing caller, the actor and the frontend interleave, the client behaves
  as if one reducer took one request after the other, in the order of their admission. Only submitted requests and
  the shutdown of the closing caller are admitted. The answers given so far are, in order and one for each, exactly
  what that reducer answers to the requests admitted first; the events handed to the event subscription and the
  state of the reducer are those it then has; and the requests without an answer wait in the mailbox, in order. A
  snapshot waiting in the stream is the current one, and revisions of published events never go back.
\<close>

theorem client_linear:
  assumes "client_steps submitted (new_client buffer d) n c"
  shows "list_all (\<lambda>q. submitted q \<or> q = InputRequest (Command (Shutdown []))) (ct_admitted c)
    \<and> (let k = length (ct_answers c) in
       map fst (ct_answers c) = [0..<k] \<and> ct_mailbox c = zip [k..<length (ct_admitted c)] (drop k (ct_admitted c))
       \<and> k \<le> length (ct_admitted c)
       \<and> (\<exists>moments. length moments = k
            \<and> serve (zip moments (take k (ct_admitted c))) (new_reducer d)
                = (map snd (ct_answers c), ct_published c, ct_reducer c)))
    \<and> length (ct_mailbox c) \<le> ct_buffer c
    \<and> ss_stream (ct_snapshots c) \<in> {None, Some (snapshot_from_state (rd_state (ct_reducer c)))}
    \<and> sorted (map event_revision (ct_published c))"
proof -
  have "admissible submitted (new_client buffer d)" by (simp add: admissible_def new_client_def Let_def)
  then have "admissible submitted c" by (rule admissible_steps [OF assms])
  with in_order_steps [OF assms new_client_ok in_order_new] show ?thesis
    unfolding client_ok_def in_order_def admissible_def Let_def by auto
qed

subsection \<open>Closing\<close>

definition shutdown_request :: "'q client_request \<Rightarrow> bool" where
  "shutdown_request q \<longleftrightarrow> (\<exists>k. q = InputRequest (Command (Shutdown k)))"

text \<open>Only \<^verbatim>\<open>Close\<close> shuts the client down: its request is the last one.\<close>

definition closing_ok :: "('p, 'q, 'a) client \<Rightarrow> bool" where
  "closing_ok c \<longleftrightarrow>
     (if ct_accepting c \<or> ct_lock c
      then \<not> ct_ending c \<and> \<not> ct_done c \<and> list_all (\<lambda>(_, q). \<not> shutdown_request q) (ct_mailbox c)
      else if ct_ending c \<or> ct_done c then ct_mailbox c = []
      else ct_mailbox c \<noteq> [] \<and> shutdown_request (snd (last (ct_mailbox c)))
        \<and> list_all (\<lambda>(_, q). \<not> shutdown_request q) (butlast (ct_mailbox c)))"

lemma actor_takes_ending:
  assumes ok: "client_ok d c" and open_c: "\<not> ct_ending c" "\<not> ct_done c"
    and ending: "ct_ending (actor_takes ports cfg i q (c\<lparr>ct_mailbox := rest\<rparr>))"
  shows "shutdown_request q"
proof (cases q)
  case (InputRequest input)
  let ?r = "ct_reducer c"
  have run: "reached d ?r" "\<not> rd_closed ?r"
    using ok open_c unfolding client_ok_def by blast+
  obtain r out where step: "handle (client_config cfg) input ?r = (r, out)" by fastforce
  then obtain resp where resp: "out = Inr resp" "cm_closed (re_commit resp)"
    using ending InputRequest open_c
    by (cases out) (simp_all add: actor_takes_def actor_input_def answer_def Let_def)
  then have "rd_closed r"
    using handle_outcome [OF run(1), of "client_config cfg" input] step
    by (auto simp: unchanged_outcome_def commit_outcome_def Let_def)
  then show ?thesis
    using closes_only_on_shutdown [of "client_config cfg" input ?r] run(2) step InputRequest
    by (auto simp: shutdown_request_def)
next
  case (QueryRequest query)
  then show ?thesis using ending open_c by (simp add: actor_takes_def answer_def)
qed

lemma shutdown_ends:
  assumes ok: "client_ok d c" and open_c: "\<not> ct_ending c" "\<not> ct_done c" and "shutdown_request q"
  shows "ct_ending (actor_takes ports cfg i q (c\<lparr>ct_mailbox := rest\<rparr>))"
proof -
  have open_r: "\<not> rd_closed (ct_reducer c)" using ok open_c unfolding client_ok_def by blast
  then show ?thesis
    using assms(4)
    by (auto simp: shutdown_request_def actor_takes_def actor_input_def handle_def shutdown_def
        committed_def commit_events_def answer_def publish_commit_def case_prod_beta Let_def)
qed

lemma closing_step:
  assumes "client_step (\<lambda>q. \<not> shutdown_request q) c c'" "client_ok d c" "closing_ok c"
  shows "closing_ok c'"
  using assms(1)
proof (cases rule: client_step.cases)
  case (client_handles i request rest ports cfg)
  let ?c = "c\<lparr>ct_mailbox := rest\<rparr>"
  note open_c = client_handles(3,4)
  have ending: "ct_ending (actor_takes ports cfg i request ?c) \<longleftrightarrow> shutdown_request request"
    using actor_takes_ending [OF assms(2) open_c] shutdown_ends [OF assms(2) open_c] by blast
  show ?thesis
  proof (cases "ct_accepting c \<or> ct_lock c")
    case True
    then have "\<not> shutdown_request request" "list_all (\<lambda>(_, q). \<not> shutdown_request q) rest"
      using assms(3) client_handles(2) by (simp_all add: closing_ok_def)
    then show ?thesis
      using True ending open_c client_handles(1) by (simp add: closing_ok_def actor_takes_parts)
  next
    case False
    then have pre: "list_all (\<lambda>(_, q). \<not> shutdown_request q) (butlast ((i, request) # rest))"
      using assms(3) client_handles(2) open_c by (simp add: closing_ok_def)
    show ?thesis
    proof (cases "rest = []")
      case True
      then show ?thesis
        using False ending open_c client_handles(1,2) assms(3)
        by (simp add: closing_ok_def actor_takes_parts)
    next
      case more: False
      then show ?thesis
        using False ending open_c client_handles(1,2) pre assms(3)
        by (simp add: closing_ok_def actor_takes_parts)
    qed
  qed
next
  case (client_submits q)
  then show ?thesis using assms(3) by (simp add: closing_ok_def enter_mailbox_def)
next
  case client_closes
  then show ?thesis using assms(3) by (simp add: closing_ok_def)
next
  case client_shuts
  then have "\<not> ct_accepting c" using assms(2) by (simp add: client_ok_def)
  then show ?thesis
    using client_shuts assms(3) by (simp add: closing_ok_def enter_mailbox_def shutdown_request_def)
next
  case client_ends
  then show ?thesis using assms(3) by (simp add: closing_ok_def actor_ends_def split: if_splits)
next
  case (client_shows s)
  then show ?thesis using assms(3) by (simp add: closing_ok_def)
qed

definition close_work :: "('p, 'q, 'a) client \<Rightarrow> nat" where
  "close_work c =
     4 * length (ct_mailbox c) + (if ct_lock c then 5 else 0) + (if ct_ending c then 1 else 0)
     + (if ss_stream (ct_snapshots c) \<noteq> None then 1 else 0)"

lemma close_work_step:
  assumes "client_step submitted c c'" "\<not> ct_accepting c"
  shows "close_work c' < close_work c \<and> \<not> ct_accepting c'"
  using assms(1)
proof (cases rule: client_step.cases)
  case (client_handles i request rest ports cfg)
  have "close_work c' \<le> 4 * length rest + (if ct_lock c then 5 else 0) + 2"
    using client_handles(1) by (simp add: close_work_def actor_takes_parts)
  also have "\<dots> < close_work c" using client_handles(2) by (simp add: close_work_def)
  finally show ?thesis using client_handles(1) assms(2) by (simp add: actor_takes_parts)
qed (use assms(2) in \<open>auto simp: close_work_def enter_mailbox_def actor_ends_def close_snapshots_def\<close>)

lemma close_work_steps:
  "client_steps submitted c n c' \<Longrightarrow> \<not> ct_accepting c \<Longrightarrow> n + close_work c' \<le> close_work c \<and> \<not> ct_accepting c'"
proof (induction rule: client_steps.induct)
  case (client_more c n c' c'')
  then show ?case using close_work_step [OF client_more.hyps(2)] by fastforce
qed simp

lemma closing_steps:
  assumes "client_steps (\<lambda>q. \<not> shutdown_request q) c n c'" "client_ok d c" "closing_ok c"
  shows "client_ok d c' \<and> closing_ok c'"
  using assms
  by (induction rule: client_steps.induct) (auto intro: closing_step client_step_ok)

lemma new_client_closing_ok: "closing_ok (new_client buffer d)"
  by (simp add: closing_ok_def new_client_def Let_def)

lemma closing_progress:
  assumes ok: "client_ok d c" "closing_ok c" and closed: "\<not> ct_accepting c" "\<not> ct_done c"
  shows "\<exists>c'. client_step submitted c c'"
proof -
  have takes: ?thesis if some: "ct_mailbox c \<noteq> []" and "\<not> ct_ending c"
  proof -
    obtain i request rest where "ct_mailbox c = (i, request) # rest"
      using some by (cases "ct_mailbox c") auto
    then show ?thesis using client_handles that(2) closed(2) by blast
  qed
  show ?thesis
  proof (cases "ct_lock c")
    case True
    then have "\<not> ct_ending c" using ok(2) by (simp add: closing_ok_def)
    show ?thesis
    proof (cases "mailbox_room c")
      case room: True
      show ?thesis using client_shuts [OF True room] by blast
    next
      case False
      then have "ct_mailbox c \<noteq> []" using ok(1) by (auto simp: mailbox_room_def client_ok_def)
      then show ?thesis using takes \<open>\<not> ct_ending c\<close> by blast
    qed
  next
    case False
    show ?thesis
    proof (cases "ct_ending c")
      case True
      then show ?thesis using client_ends False by blast
    next
      case open_c: False
      then have "ct_mailbox c \<noteq> []" using ok(2) False closed by (simp add: closing_ok_def)
      then show ?thesis using takes open_c by blast
    qed
  qed
qed

text \<open>
  C3. Closing ends. If \<^verbatim>\<open>Close\<close> alone shuts the client down, then once it has been called every
  order of steps is finite, bounded by the work left in the mailbox; and where no step is possible any
  more the actor has ended and every request admitted has been answered, that of \<^verbatim>\<open>Close\<close> included.
\<close>

theorem client_close_completes:
  assumes "client_steps (\<lambda>q. \<not> shutdown_request q) (new_client buffer d) m c" "\<not> ct_accepting c"
    and "client_steps (\<lambda>q. \<not> shutdown_request q) c n c'"
  shows "n \<le> close_work c
    \<and> ((\<exists>c''. client_step (\<lambda>q. \<not> shutdown_request q) c' c'')
       \<or> ct_done c' \<and> map fst (ct_answers c') = [0..<ct_next c'])"
proof -
  have ok: "client_ok d c" "closing_ok c"
    using closing_steps [OF assms(1) new_client_ok new_client_closing_ok] by blast+
  have ok': "client_ok d c'" "closing_ok c'" using closing_steps [OF assms(3) ok] by blast+
  have closed: "\<not> ct_accepting c'" "n \<le> close_work c"
    using close_work_steps [OF assms(3,2)] by auto
  show ?thesis
  proof (cases "ct_done c'")
    case True
    then have "ct_mailbox c' = []" using ok'(2) closed(1) by (auto simp: closing_ok_def split: if_splits)
    then show ?thesis using ok'(1) True closed(2) by (simp add: client_ok_def)
  next
    case False
    then show ?thesis using closing_progress [OF ok' closed(1) False] closed(2) by blast
  qed
qed

subsection \<open>Examples\<close>

text \<open>
  A caller that dispatches a shutdown itself may leave the caller of \<^verbatim>\<open>Close\<close> waiting for ever: its
  request is admitted behind the other one, the actor ends, and no step answers it any more.
\<close>

definition left_behind :: "('p, 'q, 'a) client \<Rightarrow> bool" where
  "left_behind c \<longleftrightarrow> ct_done c \<and> \<not> ct_accepting c \<and> \<not> ct_lock c \<and> \<not> ct_ending c"

lemma left_behind_step:
  assumes "client_step submitted c c'" "left_behind c"
  shows "left_behind c' \<and> ct_answers c' = ct_answers c \<and> ct_mailbox c' = ct_mailbox c"
  using assms(1) by (cases rule: client_step.cases) (use assms(2) in \<open>auto simp: left_behind_def\<close>)

lemma left_behind_steps:
  "client_steps submitted c n c' \<Longrightarrow> left_behind c \<Longrightarrow>
     left_behind c' \<and> ct_answers c' = ct_answers c \<and> ct_mailbox c' = ct_mailbox c"
  by (induction rule: client_steps.induct) (auto dest: left_behind_step)

definition shut_request :: "'q client_request" where
  "shut_request = InputRequest (Command (Shutdown []))"

definition idle_client :: "(unit, unit, unit) client" where
  "idle_client = new_client 0 ()"

definition no_ports :: "(unit, unit) query_ports" where
  "no_ports = \<lparr>qp_large_content = None, qp_searcher = None\<rparr>"

definition closing_client :: "(unit, unit, unit) client" where
  "closing_client =
     (enter_mailbox (InputRequest (Command (Shutdown [])))
        (idle_client\<lparr>ct_accepting := False, ct_lock := True\<rparr>))\<lparr>ct_lock := False\<rparr>"

lemmas client_simps = idle_client_def new_client_def enter_mailbox_def mailbox_room_def
  defaultCommandBuffer_def Let_def

lemma closing_client_steps: "client_steps submitted idle_client 2 closing_client"
proof -
  have "client_step submitted idle_client (idle_client\<lparr>ct_accepting := False, ct_lock := True\<rparr>)"
    by (rule client_closes) (simp_all add: client_simps)
  moreover have "client_step submitted (idle_client\<lparr>ct_accepting := False, ct_lock := True\<rparr>) closing_client"
    unfolding closing_client_def by (rule client_shuts) (simp_all add: client_simps)
  ultimately show ?thesis
    using client_more [OF client_more [OF client_rest]] by (simp add: numeral_2_eq_2)
qed

lemma closing_rests:
  assumes "client_steps submitted c n c'" "\<not> ct_accepting c'"
  shows "\<exists>n c''. client_steps submitted c n c'' \<and> \<not> (\<exists>c3. client_step submitted c'' c3)"
  using assms
proof (induction "close_work c'" arbitrary: n c' rule: less_induct)
  case less
  show ?case
  proof (cases "\<exists>c''. client_step submitted c' c''")
    case True
    then obtain c'' where step: "client_step submitted c' c''" by blast
    show ?thesis
      using less(1) [OF _ client_more [OF less(2) step]] close_work_step [OF step less(3)] by blast
  qed (use less(2) in blast)
qed

lemma client_close_completes_witness:
  "\<exists>n c'. client_steps (\<lambda>q. \<not> shutdown_request q) closing_client n c'
     \<and> ct_done c' \<and> map fst (ct_answers c') = [0..<ct_next c']"
proof -
  have closed: "\<not> ct_accepting closing_client" by (simp add: closing_client_def client_simps)
  obtain n c' where c': "client_steps (\<lambda>q. \<not> shutdown_request q) closing_client n c'"
    "\<not> (\<exists>c3. client_step (\<lambda>q. \<not> shutdown_request q) c' c3)"
    using closing_rests [OF client_rest closed] by blast
  then show ?thesis
    using client_close_completes [OF closing_client_steps [unfolded idle_client_def] closed c'(1)] by blast
qed

definition asked_to_shut :: "(unit, unit, unit) client" where
  "asked_to_shut = enter_mailbox shut_request idle_client"

definition asked_twice :: "(unit, unit, unit) client" where
  "asked_twice =
     (enter_mailbox shut_request (asked_to_shut\<lparr>ct_accepting := False, ct_lock := True\<rparr>))\<lparr>ct_lock := False\<rparr>"

definition shut_once :: "(unit, unit, unit) client" where
  "shut_once = actor_takes no_ports sample_config 0 shut_request
     (asked_twice\<lparr>ct_mailbox := [(1, shut_request)]\<rparr>)"

lemma asked_twice_steps: "client_steps (\<lambda>_. True) idle_client 3 asked_twice"
proof -
  have "client_step (\<lambda>_. True) idle_client asked_to_shut"
    unfolding asked_to_shut_def by (rule client_submits) (simp_all add: client_simps)
  moreover have "client_step (\<lambda>_. True) asked_to_shut (asked_to_shut\<lparr>ct_accepting := False, ct_lock := True\<rparr>)"
    by (rule client_closes) (simp_all add: asked_to_shut_def client_simps)
  moreover have "client_step (\<lambda>_. True) (asked_to_shut\<lparr>ct_accepting := False, ct_lock := True\<rparr>) asked_twice"
    unfolding asked_twice_def shut_request_def
    by (rule client_shuts) (simp_all add: asked_to_shut_def client_simps)
  ultimately show ?thesis
    using client_more [OF client_more [OF client_more [OF client_rest]]] by (simp add: numeral_3_eq_3)
qed

lemma asked_twice_eval:
  "ct_mailbox asked_twice = [(0, shut_request), (1, shut_request)]"
  "\<not> ct_ending asked_twice" "\<not> ct_done asked_twice" "\<not> ct_accepting asked_twice"
  "\<not> ct_lock asked_twice" "ct_next asked_twice = 2" "ct_answers asked_twice = []"
  "ct_admitted asked_twice = [shut_request, shut_request]"
  by (simp_all add: asked_twice_def asked_to_shut_def client_simps)

lemma shut_once_eval:
  "\<not> ct_lock shut_once" "ct_next shut_once = 2" "map fst (ct_answers shut_once) = [0]"
  "ct_admitted shut_once = [shut_request, shut_request]"
  using asked_twice_eval
  by (simp_all add: shut_once_def actor_takes_parts)
    (simp add: actor_takes_def actor_input_def shut_request_def answer_def publish_commit_def
      case_prod_beta Let_def split: sum.split)

lemma shut_once_step: "client_step (\<lambda>_. True) asked_twice shut_once"
  unfolding shut_once_def by (rule client_handles [OF asked_twice_eval(1-3)])

lemma client_linear_witness:
  "\<exists>m. serve [(m, shut_request :: unit client_request)] (new_reducer ())
       = (map snd (ct_answers shut_once), ct_published shut_once, ct_reducer shut_once)
     \<and> ct_mailbox shut_once = [(1, shut_request)]"
proof -
  have k: "length (ct_answers shut_once) = 1"
    using arg_cong [OF shut_once_eval(3), of length] by simp
  note linear = client_linear [OF client_more [OF asked_twice_steps shut_once_step, unfolded idle_client_def]]
  obtain ms where ms: "length ms = (1 :: nat)"
    "serve (zip ms (take 1 [shut_request, shut_request :: unit client_request])) (new_reducer ())
       = (map snd (ct_answers shut_once), ct_published shut_once, ct_reducer shut_once)"
    using linear unfolding k shut_once_eval(4) Let_def by blast
  obtain m where "ms = [m]" using ms(1) by (cases ms) auto
  moreover have "ct_mailbox shut_once = [(1, shut_request)]"
    using linear unfolding k shut_once_eval(4) Let_def by (simp add: numeral_2_eq_2)
  ultimately show ?thesis using ms(2) by (intro exI [of _ m]) simp
qed

lemma close_waits_forever:
  "\<exists>c n. client_steps (\<lambda>_. True) idle_client n c \<and> ct_next c = 2
     \<and> (\<forall>m c'. client_steps (\<lambda>_. True) c m c' \<longrightarrow> map fst (ct_answers c') = [0])"
proof -
  have ok: "client_ok () asked_twice"
    by (rule client_steps_ok [OF asked_twice_steps]) (simp add: idle_client_def new_client_ok)
  have ending: "ct_ending shut_once"
    unfolding shut_once_def
    by (rule shutdown_ends [OF ok asked_twice_eval(2,3)]) (simp add: shut_request_def shutdown_request_def)
  have "client_step (\<lambda>_. True) shut_once (actor_ends shut_once)"
    by (rule client_ends [OF ending shut_once_eval(1)])
  from client_more [OF client_more [OF asked_twice_steps shut_once_step] this]
  have "client_steps (\<lambda>_. True) idle_client (Suc (Suc 3)) (actor_ends shut_once)" .
  moreover have "left_behind (actor_ends shut_once)"
    using shut_once_eval(1) by (simp add: left_behind_def actor_ends_def)
  then have "map fst (ct_answers c') = [0]"
    if "client_steps (\<lambda>_. True) (actor_ends shut_once) m c'" for m c'
    using left_behind_steps [OF that] shut_once_eval(3) by (simp add: actor_ends_def)
  moreover have "ct_next (actor_ends shut_once) = 2" using shut_once_eval(2) by (simp add: actor_ends_def)
  ultimately show ?thesis by blast
qed

text \<open>Without a thread service every thread command of a frontend is refused.\<close>

lemma thread_commands_refused:
  "\<not> rd_closed r \<Longrightarrow>
     handle (client_config cfg) (Command (ThreadCommand c)) r = (r, Inl ErrThreadServiceUnavailable)"
  by (simp add: handle_def through_service_def client_config_def refuse_def)

end
