(* ===== verification/Capacity.thy ===== *)
theory Capacity
  imports Repo_Core "HOL-Library.Word"
begin

text \<open>
  Checked capacity arithmetic: \<^verbatim>\<open>internal/capacity/arithmetic.go\<close> and the quantities
  \<^verbatim>\<open>ByteSize\<close> and \<^verbatim>\<open>Count\<close> of \<^verbatim>\<open>internal/app/resource_policy.go\<close>.

  Every quantity is kept at the width of the source, so an addition wraps unless a guard of the
  code rules it out. The lemmas show that the guards are exactly right: a checked operation returns
  the sum or product of the unbounded naturals when that fits in 64 bits, and the overflow error
  otherwise.
\<close>

type_synonym u64 = "64 word"

text \<open>
  What a store shared by several processes has to show: an invariant of its first state that every
  atomic operation keeps. It then holds however the operations interleave.
\<close>

locale store_invariant =
  fixes start :: 's and step :: "'s \<Rightarrow> 's \<Rightarrow> bool" and inv :: "'s \<Rightarrow> bool"
  assumes starts: "inv start"
    and steps: "inv s \<Longrightarrow> step s t \<Longrightarrow> inv t"
begin

lemma reachable: "step\<^sup>*\<^sup>* start s \<Longrightarrow> inv s"
  by (induction rule: rtranclp_induct) (auto intro: starts steps)

end

definition MaxUint64 :: u64 where "MaxUint64 = 18446744073709551615"

datatype capacity_error = ErrCapacityInvalid | ErrCapacityOverflow

subsection \<open>Sums and products of bytes\<close>

fun add_loop :: "u64 \<Rightarrow> u64 list \<Rightarrow> (capacity_error, u64) result" where
  "add_loop acc [] = Inr acc"
| "add_loop acc (v # vs) =
     (if v > MaxUint64 - acc then Inl ErrCapacityOverflow else add_loop (acc + v) vs)"

definition capacity_add :: "u64 list \<Rightarrow> (capacity_error, u64) result" where
  "capacity_add vs = (if vs = [] then Inl ErrCapacityInvalid else add_loop 0 vs)"

definition capacity_mul :: "u64 \<Rightarrow> u64 \<Rightarrow> (capacity_error, u64) result" where
  "capacity_mul v count =
     (if count \<noteq> 0 \<and> v > MaxUint64 div count then Inl ErrCapacityOverflow else Inr (v * count))"

text \<open>The charge of one volume: nine classes, the protected reserve among them.\<close>

record peak_bytes =
  pk_inputs :: u64
  pk_temporaries :: u64
  pk_finals :: u64
  pk_copy_on_write :: u64
  pk_database_wal :: u64
  pk_atomic_output :: u64
  pk_concurrent_reservations :: u64
  pk_reserve :: u64
  pk_retained_delta :: u64

definition peak_classes :: "'a peak_bytes_scheme \<Rightarrow> u64 list" where
  "peak_classes p =
     [pk_inputs p, pk_temporaries p, pk_finals p, pk_copy_on_write p, pk_database_wal p,
      pk_atomic_output p, pk_concurrent_reservations p, pk_reserve p, pk_retained_delta p]"

definition volume_charge :: "'a peak_bytes_scheme \<Rightarrow> (capacity_error, u64) result" where
  "volume_charge p = capacity_add (peak_classes p)"

subsection \<open>Byte sizes and counts of the application\<close>

datatype limit_error = ErrInvalidResourcePolicy | ErrLimitArithmeticOverflow | ErrLimitExceeded

definition byte_size_add :: "u64 \<Rightarrow> u64 \<Rightarrow> (limit_error, u64) result" where
  "byte_size_add b other =
     (if other > MaxUint64 - b then Inl ErrLimitArithmeticOverflow else Inr (b + other))"

definition byte_size_mul :: "u64 \<Rightarrow> u64 \<Rightarrow> (limit_error, u64) result" where
  "byte_size_mul b count =
     (if count \<noteq> 0 \<and> b > MaxUint64 div count then Inl ErrLimitArithmeticOverflow
      else Inr (b * count))"

definition count_add :: "u64 \<Rightarrow> u64 \<Rightarrow> (limit_error, u64) result" where
  "count_add c other =
     (if other > MaxUint64 - c then Inl ErrLimitArithmeticOverflow else Inr (c + other))"

subsection \<open>The guards against the unbounded naturals\<close>

lemma unat_less_64: "unat (a :: u64) < 2 ^ 64"
  using unsigned_less [of a] by simp

lemma unat_MaxUint64: "unat MaxUint64 = 2 ^ 64 - 1"
  by (simp add: MaxUint64_def)

lemma add_guard: "v > MaxUint64 - t \<longleftrightarrow> unat t + unat v \<ge> 2 ^ 64"
proof -
  have "t \<le> MaxUint64"
    using unat_less_64 [of t] by (simp add: word_le_nat_alt unat_MaxUint64)
  then have "unat (MaxUint64 - t) = 2 ^ 64 - 1 - unat t"
    by (simp only: unat_sub unat_MaxUint64)
  then show ?thesis
    using unat_less_64 [of t] by (simp add: word_less_nat_alt) linarith
qed

lemma unat_add_fits: "unat t + unat v < 2 ^ 64 \<Longrightarrow> unat ((t :: u64) + v) = unat t + unat v"
  by (simp add: unat_word_ariths)

lemma mul_guard:
  assumes "count \<noteq> 0"
  shows "v > MaxUint64 div count \<longleftrightarrow> unat v * unat count \<ge> 2 ^ 64"
proof -
  have pos: "0 < unat count"
    using assms by (simp add: unat_gt_0)
  have "v > MaxUint64 div count \<longleftrightarrow> (2 ^ 64 - 1) div unat count < unat v"
    by (simp add: word_less_nat_alt unat_div unat_MaxUint64)
  also have "\<dots> \<longleftrightarrow> 2 ^ 64 - 1 < unat v * unat count"
    using div_less_iff_less_mult [OF pos, of "2 ^ 64 - 1" "unat v"] by simp
  also have "\<dots> \<longleftrightarrow> unat v * unat count \<ge> 2 ^ 64"
    by auto
  finally show ?thesis .
qed

lemma add_loop_exact:
  "add_loop t vs =
     (if unat t + sum_list (map unat vs) < 2 ^ 64
      then Inr (t + sum_list vs) else Inl ErrCapacityOverflow)"
proof (induction vs arbitrary: t)
  case Nil
  then show ?case using unat_less_64 [of t] by simp
next
  case (Cons v vs)
  show ?case
  proof (cases "unat t + unat v < 2 ^ 64")
    case True
    then show ?thesis
      using add_guard [of t v] by (simp add: Cons.IH unat_add_fits add.assoc)
  next
    case False
    then show ?thesis
      using add_guard [of t v] by simp
  qed
qed

lemma unat_sum_fits:
  "sum_list (map unat vs) < 2 ^ 64 \<Longrightarrow> unat (sum_list (vs :: u64 list)) = sum_list (map unat vs)"
proof (induction vs)
  case (Cons v vs)
  then have tail: "unat (sum_list vs) = sum_list (map unat vs)"
    by simp
  then have "unat v + unat (sum_list vs) < 2 ^ 64"
    using Cons.prems by simp
  then show ?case
    by (simp add: unat_add_fits tail)
qed simp

lemma volume_charge_exact:
  "volume_charge p =
     (if sum_list (map unat (peak_classes p)) < 2 ^ 64
      then Inr (sum_list (peak_classes p)) else Inl ErrCapacityOverflow)"
  by (simp only: volume_charge_def capacity_add_def add_loop_exact) (simp add: peak_classes_def)

lemma byte_size_add_exact:
  "byte_size_add b c =
     (if unat b + unat c < 2 ^ 64 then Inr (b + c) else Inl ErrLimitArithmeticOverflow)"
  by (simp add: byte_size_add_def add_guard not_less)

text \<open>
  C28. Checked arithmetic is exact: a sum of sizes is the sum of the naturals when that is below
  2^64 and the overflow error when it is not, whatever the order of the summands and however early
  the overflow happens; the same for a product. No result of it has wrapped.
\<close>

theorem capacity_arithmetic_exact:
  "(case capacity_add (v # vs) of
      Inr acc \<Rightarrow> unat acc = sum_list (map unat (v # vs))
    | Inl e \<Rightarrow> e = ErrCapacityOverflow \<and> 2 ^ 64 \<le> sum_list (map unat (v # vs)))
   \<and> (case capacity_mul a n of
      Inr q \<Rightarrow> unat q = unat a * unat n
    | Inl e \<Rightarrow> e = ErrCapacityOverflow \<and> 2 ^ 64 \<le> unat a * unat n)"
proof
  show "case capacity_add (v # vs) of
      Inr acc \<Rightarrow> unat acc = sum_list (map unat (v # vs))
    | Inl e \<Rightarrow> e = ErrCapacityOverflow \<and> 2 ^ 64 \<le> sum_list (map unat (v # vs))"
    using unat_sum_fits [of "v # vs"]
    by (simp add: capacity_add_def add_loop_exact [of 0 "v # vs"] del: add_loop.simps)
  show "case capacity_mul a n of
      Inr q \<Rightarrow> unat q = unat a * unat n
    | Inl e \<Rightarrow> e = ErrCapacityOverflow \<and> 2 ^ 64 \<le> unat a * unat n"
  proof (cases "n = 0")
    case False
    then show ?thesis
      by (auto simp: capacity_mul_def mul_guard not_le unat_word_ariths)
  qed (simp add: capacity_mul_def)
qed

end
