(* ===== verification/Resource_Policy.thy ===== *)
theory Resource_Policy
  imports Capacity
begin

text \<open>
  The resource policy: \<^verbatim>\<open>internal/app/resource_policy.go\<close>. One record per limit record of the
  source with its \<^verbatim>\<open>validate\<close>, the concrete default policy, the tuning that may only lower
  work limits and raise reserves, the pressure classes and the admission of one observation. Byte
  sizes and counts are 64-bit words, a duration is an integer in nanoseconds.
\<close>

definition CurrentResourcePolicyVersion :: nat where "CurrentResourcePolicyVersion = 1"

definition KiB :: u64 where "KiB = 1024"
definition MiB :: u64 where "MiB = 1024 * KiB"
definition GiB :: u64 where "GiB = 1024 * MiB"

text \<open>The units of package \<^verbatim>\<open>time\<close>.\<close>

definition Second :: int where "Second = 1000000000"
definition Minute :: int where "Minute = 60 * Second"

subsection \<open>The limits and their guards\<close>

record page_limits =
  pl_default :: u64
  pl_hard :: u64

definition page_limits_valid :: "page_limits \<Rightarrow> bool" where
  "page_limits_valid x \<longleftrightarrow>
     pl_default x \<noteq> 0
     \<and> pl_hard x \<noteq> 0
     \<and> pl_default x \<le> pl_hard x"

record tree_search_limits =
  ts_query_bytes :: u64
  ts_page :: page_limits
  ts_match_ranges :: u64
  ts_cursor_bytes :: u64
  ts_entry_ceiling :: u64
  ts_batch_entries :: u64
  ts_deadline :: int

definition tree_search_limits_valid :: "tree_search_limits \<Rightarrow> bool" where
  "tree_search_limits_valid x \<longleftrightarrow>
     ts_query_bytes x \<noteq> 0
     \<and> page_limits_valid (ts_page x)
     \<and> ts_match_ranges x \<noteq> 0
     \<and> ts_cursor_bytes x \<noteq> 0
     \<and> ts_entry_ceiling x \<noteq> 0
     \<and> ts_batch_entries x \<noteq> 0
     \<and> ts_batch_entries x \<le> ts_entry_ceiling x
     \<and> pl_hard (ts_page x) \<le> ts_entry_ceiling x
     \<and> 0 < ts_deadline x"

record diff_limits =
  dl_highlight_bytes :: u64
  dl_automatic_open_bytes :: u64

definition diff_limits_valid :: "diff_limits \<Rightarrow> bool" where
  "diff_limits_valid x \<longleftrightarrow>
     dl_highlight_bytes x \<noteq> 0
     \<and> dl_automatic_open_bytes x \<noteq> 0
     \<and> dl_highlight_bytes x \<le> dl_automatic_open_bytes x"

record large_content_limits =
  lc_explicit_open_bytes :: u64
  lc_read_bytes :: u64
  lc_line_segment_bytes :: u64
  lc_line_segment_cells :: u64
  lc_line_window_lines :: u64
  lc_line_window_bytes :: u64
  lc_index_bytes :: u64
  lc_checkpoint_interval :: u64
  lc_deadline :: int

definition large_content_limits_valid :: "u64 \<Rightarrow> large_content_limits \<Rightarrow> bool" where
  "large_content_limits_valid automatic_open x \<longleftrightarrow>
     lc_explicit_open_bytes x \<noteq> 0
     \<and> lc_read_bytes x \<noteq> 0
     \<and> lc_line_segment_bytes x \<noteq> 0
     \<and> lc_line_segment_cells x \<noteq> 0
     \<and> lc_line_window_lines x \<noteq> 0
     \<and> lc_line_window_bytes x \<noteq> 0
     \<and> lc_index_bytes x \<noteq> 0
     \<and> lc_checkpoint_interval x \<noteq> 0
     \<and> 0 < lc_deadline x
     \<and> automatic_open \<le> lc_explicit_open_bytes x
     \<and> lc_read_bytes x \<le> lc_explicit_open_bytes x
     \<and> lc_line_segment_bytes x \<le> lc_read_bytes x
     \<and> lc_line_window_bytes x \<le> lc_explicit_open_bytes x
     \<and> lc_checkpoint_interval x \<le> lc_explicit_open_bytes x"

record process_limits =
  pr_max_output_bytes :: u64
  pr_max_stderr_bytes :: u64

definition process_limits_valid :: "process_limits \<Rightarrow> bool" where
  "process_limits_valid x \<longleftrightarrow>
     pr_max_output_bytes x \<noteq> 0
     \<and> pr_max_stderr_bytes x \<noteq> 0"

record metadata_cache_limits =
  mc_max_entries :: u64
  mc_max_bytes :: u64

definition metadata_cache_limits_valid :: "metadata_cache_limits \<Rightarrow> bool" where
  "metadata_cache_limits_valid x \<longleftrightarrow>
     mc_max_entries x \<noteq> 0
     \<and> mc_max_bytes x \<noteq> 0"

record document_limits =
  dc_max_bytes :: u64
  dc_max_depth :: u64
  dc_max_entries :: u64
  dc_max_scalar_bytes :: u64

definition document_limits_valid :: "document_limits \<Rightarrow> bool" where
  "document_limits_valid x \<longleftrightarrow>
     dc_max_bytes x \<noteq> 0
     \<and> dc_max_depth x \<noteq> 0
     \<and> dc_max_entries x \<noteq> 0
     \<and> dc_max_scalar_bytes x \<noteq> 0
     \<and> dc_max_scalar_bytes x \<le> dc_max_bytes x"

record input_limits =
  in_proposal_summary_bytes :: u64
  in_expected_raw_path_count :: u64
  in_expected_raw_path_bytes :: u64
  in_expected_raw_path_total_bytes :: u64
  in_repo_path_bytes :: u64
  in_revision_bytes :: u64
  in_executable_path_bytes :: u64
  in_git_record_bytes :: u64
  in_config :: document_limits
  in_theme :: document_limits

definition input_limits_valid :: "input_limits \<Rightarrow> bool" where
  "input_limits_valid x \<longleftrightarrow>
     in_proposal_summary_bytes x \<noteq> 0
     \<and> in_expected_raw_path_count x \<noteq> 0
     \<and> in_expected_raw_path_bytes x \<noteq> 0
     \<and> in_expected_raw_path_total_bytes x \<noteq> 0
     \<and> in_repo_path_bytes x \<noteq> 0
     \<and> in_revision_bytes x \<noteq> 0
     \<and> in_executable_path_bytes x \<noteq> 0
     \<and> in_git_record_bytes x \<noteq> 0
     \<and> in_expected_raw_path_bytes x \<le> in_expected_raw_path_total_bytes x
     \<and> document_limits_valid (in_config x)
     \<and> document_limits_valid (in_theme x)"

record provider_scalar_limits =
  ps_opaque_ref_bytes :: u64
  ps_method_bytes :: u64
  ps_display_bytes :: u64
  ps_human_error_bytes :: u64
  ps_url_bytes :: u64
  ps_host_bytes :: u64
  ps_command_arg_count :: u64
  ps_command_arg_bytes :: u64
  ps_command_args_total_bytes :: u64
  ps_metadata_key_bytes :: u64
  ps_metadata_scalar_bytes :: u64
  ps_metadata_members :: u64
  ps_metadata_list_elements :: u64
  ps_metadata_depth :: u64
  ps_other_array_elements :: u64

definition provider_scalar_limits_valid :: "provider_scalar_limits \<Rightarrow> bool" where
  "provider_scalar_limits_valid x \<longleftrightarrow>
     ps_opaque_ref_bytes x \<noteq> 0
     \<and> ps_method_bytes x \<noteq> 0
     \<and> ps_display_bytes x \<noteq> 0
     \<and> ps_human_error_bytes x \<noteq> 0
     \<and> ps_url_bytes x \<noteq> 0
     \<and> ps_host_bytes x \<noteq> 0
     \<and> ps_command_arg_count x \<noteq> 0
     \<and> ps_command_arg_bytes x \<noteq> 0
     \<and> ps_command_args_total_bytes x \<noteq> 0
     \<and> ps_command_arg_bytes x \<le> ps_command_args_total_bytes x
     \<and> ps_metadata_key_bytes x \<noteq> 0
     \<and> ps_metadata_scalar_bytes x \<noteq> 0
     \<and> ps_metadata_members x \<noteq> 0
     \<and> ps_metadata_list_elements x \<noteq> 0
     \<and> ps_metadata_depth x \<noteq> 0
     \<and> ps_other_array_elements x \<noteq> 0"

record provider_limits =
  pv_serialized_turn_input_bytes :: u64
  pv_concern_bytes :: u64
  pv_selected_anchor_bytes :: u64
  pv_hunk_context_bytes :: u64
  pv_selected_transcript_bytes :: u64
  pv_max_frame_bytes :: u64
  pv_diagnostic_stderr_bytes :: u64
  pv_max_git_stdout_bytes :: u64
  pv_queue_events :: u64
  pv_queue_resident_bytes :: u64
  pv_coalesced_chunk_bytes :: u64
  pv_normalized_message_bytes :: u64
  pv_turn_content_bytes :: u64
  pv_scalars :: provider_scalar_limits
  pv_network_allowed :: bool

text \<open>The four parts of a turn are added one after the other, each addition checked.\<close>

definition provider_turn_fits :: "provider_limits \<Rightarrow> bool" where
  "provider_turn_fits x =
     (case bind_result (byte_size_add (pv_concern_bytes x) (pv_selected_anchor_bytes x)) (\<lambda>t.
        bind_result (byte_size_add t (pv_hunk_context_bytes x)) (\<lambda>t.
          byte_size_add t (pv_selected_transcript_bytes x)))
      of Inl _ \<Rightarrow> False | Inr t \<Rightarrow> t \<le> pv_serialized_turn_input_bytes x)"

definition provider_limits_valid :: "provider_limits \<Rightarrow> bool" where
  "provider_limits_valid x \<longleftrightarrow>
     pv_serialized_turn_input_bytes x \<noteq> 0
     \<and> pv_concern_bytes x \<noteq> 0
     \<and> pv_selected_anchor_bytes x \<noteq> 0
     \<and> pv_hunk_context_bytes x \<noteq> 0
     \<and> pv_selected_transcript_bytes x \<noteq> 0
     \<and> pv_max_frame_bytes x \<noteq> 0
     \<and> pv_diagnostic_stderr_bytes x \<noteq> 0
     \<and> pv_max_git_stdout_bytes x \<noteq> 0
     \<and> pv_queue_events x \<noteq> 0
     \<and> pv_queue_resident_bytes x \<noteq> 0
     \<and> pv_coalesced_chunk_bytes x \<noteq> 0
     \<and> pv_normalized_message_bytes x \<noteq> 0
     \<and> pv_turn_content_bytes x \<noteq> 0
     \<and> \<not> pv_network_allowed x
     \<and> pv_concern_bytes x \<le> pv_serialized_turn_input_bytes x
     \<and> pv_selected_anchor_bytes x \<le> pv_serialized_turn_input_bytes x
     \<and> pv_hunk_context_bytes x \<le> pv_serialized_turn_input_bytes x
     \<and> pv_selected_transcript_bytes x \<le> pv_serialized_turn_input_bytes x
     \<and> pv_coalesced_chunk_bytes x \<le> pv_queue_resident_bytes x
     \<and> pv_normalized_message_bytes x \<le> pv_turn_content_bytes x
     \<and> provider_turn_fits x
     \<and> provider_scalar_limits_valid (pv_scalars x)"

record symlink_limits =
  sy_tracked_blob_bytes :: u64
  sy_inline_preview_bytes :: u64
  sy_immutable_range_bytes :: u64
  sy_native_action_bytes :: u64
  sy_lexical_components :: u64
  sy_normalized_relative_depth :: u64
  sy_referent_follow_hops :: u64
  sy_nul_allowed :: bool

definition symlink_limits_valid :: "u64 \<Rightarrow> symlink_limits \<Rightarrow> bool" where
  "symlink_limits_valid file_bytes x \<longleftrightarrow>
     sy_tracked_blob_bytes x \<noteq> 0
     \<and> sy_inline_preview_bytes x \<noteq> 0
     \<and> sy_immutable_range_bytes x \<noteq> 0
     \<and> sy_native_action_bytes x \<noteq> 0
     \<and> sy_lexical_components x \<noteq> 0
     \<and> sy_normalized_relative_depth x \<noteq> 0
     \<and> sy_referent_follow_hops x = 0
     \<and> \<not> sy_nul_allowed x
     \<and> sy_inline_preview_bytes x \<le> sy_native_action_bytes x
     \<and> sy_native_action_bytes x \<le> sy_tracked_blob_bytes x
     \<and> sy_tracked_blob_bytes x \<le> file_bytes"

record artifact_limits =
  ar_proposal_files :: u64
  ar_proposal_file_bytes :: u64
  ar_complete_patch_bytes :: u64
  ar_published_delta_bytes :: u64
  ar_capture_entries :: u64
  ar_capture_delta_bytes :: u64
  ar_snapshot_entries :: u64
  ar_snapshot_bytes :: u64
  ar_snapshot_deadline :: int

definition artifact_limits_valid :: "artifact_limits \<Rightarrow> bool" where
  "artifact_limits_valid x \<longleftrightarrow>
     ar_proposal_files x \<noteq> 0
     \<and> ar_proposal_file_bytes x \<noteq> 0
     \<and> ar_complete_patch_bytes x \<noteq> 0
     \<and> ar_published_delta_bytes x \<noteq> 0
     \<and> ar_capture_entries x \<noteq> 0
     \<and> ar_capture_delta_bytes x \<noteq> 0
     \<and> ar_snapshot_entries x \<noteq> 0
     \<and> ar_snapshot_bytes x \<noteq> 0
     \<and> 0 < ar_snapshot_deadline x
     \<and> ar_proposal_file_bytes x \<le> ar_complete_patch_bytes x
     \<and> ar_complete_patch_bytes x \<le> ar_published_delta_bytes x
     \<and> ar_capture_delta_bytes x \<le> ar_snapshot_bytes x"

record storage_limits =
  st_minimum_free_bytes :: u64
  st_recovery_file_bytes :: u64
  st_repository_soft_bytes :: u64
  st_repository_hard_bytes :: u64
  st_global_soft_bytes :: u64
  st_global_hard_bytes :: u64

definition storage_limits_valid :: "storage_limits \<Rightarrow> bool" where
  "storage_limits_valid x \<longleftrightarrow>
     st_minimum_free_bytes x \<noteq> 0
     \<and> st_recovery_file_bytes x \<noteq> 0
     \<and> st_repository_soft_bytes x \<noteq> 0
     \<and> st_repository_hard_bytes x \<noteq> 0
     \<and> st_global_soft_bytes x \<noteq> 0
     \<and> st_global_hard_bytes x \<noteq> 0
     \<and> st_recovery_file_bytes x \<le> st_minimum_free_bytes x
     \<and> st_repository_soft_bytes x \<le> st_repository_hard_bytes x
     \<and> st_global_soft_bytes x \<le> st_global_hard_bytes x"

record batch_limits =
  ba_anchor_count :: u64
  ba_anchor_paths :: u64
  ba_anchor_source_bytes :: u64
  ba_anchor_evidence_bytes :: u64
  ba_proposal_summaries :: u64
  ba_proposal_paths :: u64
  ba_proposal_evidence_bytes :: u64

definition batch_limits_valid :: "batch_limits \<Rightarrow> bool" where
  "batch_limits_valid x \<longleftrightarrow>
     ba_anchor_count x \<noteq> 0
     \<and> ba_anchor_paths x \<noteq> 0
     \<and> ba_anchor_source_bytes x \<noteq> 0
     \<and> ba_anchor_evidence_bytes x \<noteq> 0
     \<and> ba_proposal_summaries x \<noteq> 0
     \<and> ba_proposal_paths x \<noteq> 0
     \<and> ba_proposal_evidence_bytes x \<noteq> 0"

record resource_policy =
  rp_version :: nat
  rp_tree_page :: page_limits
  rp_tree_search :: tree_search_limits
  rp_history_page :: page_limits
  rp_history_page_encoded_bytes :: u64
  rp_metadata_cache :: metadata_cache_limits
  rp_diff :: diff_limits
  rp_large_content :: large_content_limits
  rp_process :: process_limits
  rp_input :: input_limits
  rp_provider :: provider_limits
  rp_symlink :: symlink_limits
  rp_artifact :: artifact_limits
  rp_storage :: storage_limits
  rp_batch :: batch_limits

definition resource_policy_valid :: "resource_policy \<Rightarrow> bool" where
  "resource_policy_valid x \<longleftrightarrow>
     rp_version x = CurrentResourcePolicyVersion
     \<and> page_limits_valid (rp_tree_page x)
     \<and> tree_search_limits_valid (rp_tree_search x)
     \<and> page_limits_valid (rp_history_page x)
     \<and> rp_history_page_encoded_bytes x \<noteq> 0
     \<and> metadata_cache_limits_valid (rp_metadata_cache x)
     \<and> diff_limits_valid (rp_diff x)
     \<and> large_content_limits_valid (dl_automatic_open_bytes (rp_diff x)) (rp_large_content x)
     \<and> process_limits_valid (rp_process x)
     \<and> input_limits_valid (rp_input x)
     \<and> provider_limits_valid (rp_provider x)
     \<and> artifact_limits_valid (rp_artifact x)
     \<and> storage_limits_valid (rp_storage x)
     \<and> batch_limits_valid (rp_batch x)
     \<and> symlink_limits_valid (ar_proposal_file_bytes (rp_artifact x)) (rp_symlink x)"

definition default_resource_policy :: resource_policy where
  "default_resource_policy =
     \<lparr> rp_version = CurrentResourcePolicyVersion,
     rp_tree_page = \<lparr> pl_default = 200,
       pl_hard = 1000 \<rparr>,
     rp_tree_search = \<lparr> ts_query_bytes = 4 * KiB,
       ts_page = \<lparr> pl_default = 50,
         pl_hard = 200 \<rparr>,
       ts_match_ranges = 1024,
       ts_cursor_bytes = 4 * KiB,
       ts_entry_ceiling = 100000,
       ts_batch_entries = 256,
       ts_deadline = 5 * Second \<rparr>,
     rp_history_page = \<lparr> pl_default = 100,
       pl_hard = 200 \<rparr>,
     rp_history_page_encoded_bytes = 4 * MiB,
     rp_metadata_cache = \<lparr> mc_max_entries = 50000,
       mc_max_bytes = 64 * MiB \<rparr>,
     rp_diff = \<lparr> dl_highlight_bytes = 1000000,
       dl_automatic_open_bytes = 2000000 \<rparr>,
     rp_large_content = \<lparr> lc_explicit_open_bytes = 256 * MiB,
       lc_read_bytes = 256 * KiB,
       lc_line_segment_bytes = 64 * KiB,
       lc_line_segment_cells = 8192,
       lc_line_window_lines = 4096,
       lc_line_window_bytes = 4 * MiB,
       lc_index_bytes = 8 * MiB,
       lc_checkpoint_interval = 1 * MiB,
       lc_deadline = 30 * Second \<rparr>,
     rp_process = \<lparr> pr_max_output_bytes = 256 * MiB,
       pr_max_stderr_bytes = 1 * MiB \<rparr>,
     rp_input = \<lparr> in_proposal_summary_bytes = 64 * KiB,
       in_expected_raw_path_count = 5000,
       in_expected_raw_path_bytes = 16 * KiB,
       in_expected_raw_path_total_bytes = 512 * KiB,
       in_repo_path_bytes = 16 * KiB,
       in_revision_bytes = 4 * KiB,
       in_executable_path_bytes = 32 * KiB,
       in_git_record_bytes = 1 * MiB,
       in_config = \<lparr> dc_max_bytes = 1 * MiB,
         dc_max_depth = 16,
         dc_max_entries = 4096,
         dc_max_scalar_bytes = 64 * KiB \<rparr>,
       in_theme = \<lparr> dc_max_bytes = 256 * KiB,
         dc_max_depth = 8,
         dc_max_entries = 512,
         dc_max_scalar_bytes = 8 * KiB \<rparr> \<rparr>,
     rp_provider = \<lparr> pv_serialized_turn_input_bytes = 2 * MiB,
       pv_concern_bytes = 64 * KiB,
       pv_selected_anchor_bytes = 256 * KiB,
       pv_hunk_context_bytes = 512 * KiB,
       pv_selected_transcript_bytes = 1 * MiB,
       pv_max_frame_bytes = 16 * MiB,
       pv_diagnostic_stderr_bytes = 1 * MiB,
       pv_max_git_stdout_bytes = 256 * MiB,
       pv_queue_events = 512,
       pv_queue_resident_bytes = 32 * MiB,
       pv_coalesced_chunk_bytes = 256 * KiB,
       pv_normalized_message_bytes = 8 * MiB,
       pv_turn_content_bytes = 32 * MiB,
       pv_scalars = \<lparr> ps_opaque_ref_bytes = 4 * KiB,
         ps_method_bytes = 256,
         ps_display_bytes = 1 * KiB,
         ps_human_error_bytes = 64 * KiB,
         ps_url_bytes = 8 * KiB,
         ps_host_bytes = 1 * KiB,
         ps_command_arg_count = 256,
         ps_command_arg_bytes = 32 * KiB,
         ps_command_args_total_bytes = 256 * KiB,
         ps_metadata_key_bytes = 256,
         ps_metadata_scalar_bytes = 16 * KiB,
         ps_metadata_members = 256,
         ps_metadata_list_elements = 1024,
         ps_metadata_depth = 32,
         ps_other_array_elements = 4096 \<rparr>,
       pv_network_allowed = False \<rparr>,
     rp_symlink = \<lparr> sy_tracked_blob_bytes = 32 * MiB,
       sy_inline_preview_bytes = 4 * KiB,
       sy_immutable_range_bytes = 64 * KiB,
       sy_native_action_bytes = 32 * KiB,
       sy_lexical_components = 256,
       sy_normalized_relative_depth = 128,
       sy_referent_follow_hops = 0,
       sy_nul_allowed = False \<rparr>,
     rp_artifact = \<lparr> ar_proposal_files = 5000,
       ar_proposal_file_bytes = 32 * MiB,
       ar_complete_patch_bytes = 256 * MiB,
       ar_published_delta_bytes = 1 * GiB,
       ar_capture_entries = 100000,
       ar_capture_delta_bytes = 2 * GiB,
       ar_snapshot_entries = 250000,
       ar_snapshot_bytes = 8 * GiB,
       ar_snapshot_deadline = 5 * Minute \<rparr>,
     rp_storage = \<lparr> st_minimum_free_bytes = 2 * GiB,
       st_recovery_file_bytes = 256 * MiB,
       st_repository_soft_bytes = 32 * GiB,
       st_repository_hard_bytes = 64 * GiB,
       st_global_soft_bytes = 128 * GiB,
       st_global_hard_bytes = 256 * GiB \<rparr>,
     rp_batch = \<lparr> ba_anchor_count = 100,
       ba_anchor_paths = 32,
       ba_anchor_source_bytes = 64 * MiB,
       ba_anchor_evidence_bytes = 4 * MiB,
       ba_proposal_summaries = 100,
       ba_proposal_paths = 1000,
       ba_proposal_evidence_bytes = 4 * MiB \<rparr> \<rparr>"

lemmas policy_guards =
  page_limits_valid_def tree_search_limits_valid_def diff_limits_valid_def
  large_content_limits_valid_def process_limits_valid_def metadata_cache_limits_valid_def
  document_limits_valid_def input_limits_valid_def provider_scalar_limits_valid_def
  provider_turn_fits_def provider_limits_valid_def symlink_limits_valid_def
  artifact_limits_valid_def storage_limits_valid_def batch_limits_valid_def
  resource_policy_valid_def

subsection \<open>Tuning\<close>

record policy_tuning =
  pt_tree_page_default :: "u64 option"
  pt_history_page_default :: "u64 option"
  pt_highlight_bytes :: "u64 option"
  pt_automatic_open_bytes :: "u64 option"
  pt_provider_queue_events :: "u64 option"
  pt_provider_queue_resident_bytes :: "u64 option"
  pt_minimum_free_bytes :: "u64 option"
  pt_recovery_file_bytes :: "u64 option"

text \<open>
  One block of \<^verbatim>\<open>WithTuning\<close>: a value that is not set keeps the current one, a work limit
  may only go down and not to zero, a reserve may only go up.
\<close>

definition lower_limit :: "u64 option \<Rightarrow> u64 \<Rightarrow> (limit_error, u64) result" where
  "lower_limit tuned current =
     (case tuned of
        None \<Rightarrow> Inr current
      | Some v \<Rightarrow> if v = 0 \<or> v > current then Inl ErrInvalidResourcePolicy else Inr v)"

definition raise_reserve :: "u64 option \<Rightarrow> u64 \<Rightarrow> (limit_error, u64) result" where
  "raise_reserve tuned current =
     (case tuned of
        None \<Rightarrow> Inr current
      | Some v \<Rightarrow> if v < current then Inl ErrInvalidResourcePolicy else Inr v)"

definition tuned_policy ::
  "resource_policy \<Rightarrow> u64 \<Rightarrow> u64 \<Rightarrow> u64 \<Rightarrow> u64 \<Rightarrow> u64 \<Rightarrow> u64 \<Rightarrow> u64 \<Rightarrow> u64 \<Rightarrow> resource_policy" where
  "tuned_policy p tree history highlight open_bytes events resident free recovery =
     p\<lparr>rp_tree_page := (rp_tree_page p)\<lparr>pl_default := tree\<rparr>,
       rp_history_page := (rp_history_page p)\<lparr>pl_default := history\<rparr>,
       rp_diff := (rp_diff p)\<lparr>dl_highlight_bytes := highlight, dl_automatic_open_bytes := open_bytes\<rparr>,
       rp_provider := (rp_provider p)\<lparr>pv_queue_events := events, pv_queue_resident_bytes := resident\<rparr>,
       rp_storage := (rp_storage p)\<lparr>st_minimum_free_bytes := free, st_recovery_file_bytes := recovery\<rparr>\<rparr>"

definition with_tuning ::
  "resource_policy \<Rightarrow> policy_tuning \<Rightarrow> (limit_error, resource_policy) result" where
  "with_tuning p t =
     (if \<not> resource_policy_valid p then Inl ErrInvalidResourcePolicy
      else bind_result (lower_limit (pt_tree_page_default t) (pl_default (rp_tree_page p))) (\<lambda>tree.
       bind_result (lower_limit (pt_history_page_default t) (pl_default (rp_history_page p))) (\<lambda>hist.
       bind_result (lower_limit (pt_highlight_bytes t) (dl_highlight_bytes (rp_diff p))) (\<lambda>high.
       bind_result (lower_limit (pt_automatic_open_bytes t) (dl_automatic_open_bytes (rp_diff p))) (\<lambda>opn.
       bind_result (lower_limit (pt_provider_queue_events t) (pv_queue_events (rp_provider p))) (\<lambda>evs.
       bind_result (lower_limit (pt_provider_queue_resident_bytes t)
                      (pv_queue_resident_bytes (rp_provider p))) (\<lambda>res.
       bind_result (raise_reserve (pt_minimum_free_bytes t) (st_minimum_free_bytes (rp_storage p))) (\<lambda>fre.
       bind_result (raise_reserve (pt_recovery_file_bytes t) (st_recovery_file_bytes (rp_storage p))) (\<lambda>rec.
         let q = tuned_policy p tree hist high opn evs res fre rec
         in if resource_policy_valid q then Inr q else Inl ErrInvalidResourcePolicy)))))))))"

text \<open>What a tuning promises: no work limit is higher, no reserve lower, all else untouched.\<close>

definition no_looser :: "resource_policy \<Rightarrow> resource_policy \<Rightarrow> bool" where
  "no_looser q p \<longleftrightarrow>
     (\<exists>tree history highlight open_bytes events resident free recovery.
        q = tuned_policy p tree history highlight open_bytes events resident free recovery
        \<and> tree \<le> pl_default (rp_tree_page p)
        \<and> history \<le> pl_default (rp_history_page p)
        \<and> highlight \<le> dl_highlight_bytes (rp_diff p)
        \<and> open_bytes \<le> dl_automatic_open_bytes (rp_diff p)
        \<and> events \<le> pv_queue_events (rp_provider p)
        \<and> resident \<le> pv_queue_resident_bytes (rp_provider p)
        \<and> st_minimum_free_bytes (rp_storage p) \<le> free
        \<and> st_recovery_file_bytes (rp_storage p) \<le> recovery)"

subsection \<open>Pressure and admission\<close>

datatype storage_pressure = StoragePressureNone | StoragePressureSoft | StoragePressureHard

definition classify_storage_pressure ::
  "u64 \<Rightarrow> u64 \<Rightarrow> u64 \<Rightarrow> (limit_error, storage_pressure) result" where
  "classify_storage_pressure used soft hard =
     (if soft = 0 \<or> hard = 0 \<or> soft > hard then Inl ErrInvalidResourcePolicy
      else if used \<ge> hard then Inr StoragePressureHard
      else if used \<ge> soft then Inr StoragePressureSoft
      else Inr StoragePressureNone)"

datatype limit_outcome =
    LimitAccepted | LimitNonReady | LimitReviewOnly | LimitPressure | LimitPartialFailed
  | LimitOutcomeOther bytes

definition valid_limit_outcome :: "limit_outcome \<Rightarrow> bool" where
  "valid_limit_outcome outcome \<longleftrightarrow>
     outcome \<in> {LimitNonReady, LimitReviewOnly, LimitPressure, LimitPartialFailed}"

record limit_evidence =
  le_policy_version :: nat
  le_limit :: bytes
  le_configured :: u64
  le_observed :: u64
  le_outcome :: limit_outcome
  le_complete :: bool
  le_prior_state_usable :: bool

definition zero_limit_evidence :: limit_evidence where
  "zero_limit_evidence =
     \<lparr> le_policy_version = 0, le_limit = [], le_configured = 0, le_observed = 0,
       le_outcome = LimitOutcomeOther [], le_complete = False, le_prior_state_usable = False \<rparr>"

text \<open>
  \<^verbatim>\<open>Admit\<close> returns evidence together with the error when a limit is hit, so its result is the
  pair of both.
\<close>

definition policy_admit ::
  "resource_policy \<Rightarrow> bytes \<Rightarrow> u64 \<Rightarrow> u64 \<Rightarrow> limit_outcome \<Rightarrow> bool \<Rightarrow> limit_evidence \<times> limit_error option" where
  "policy_admit p ident observed configured outcome prior =
     (if \<not> resource_policy_valid p \<or> ident = [] \<or> configured = 0 \<or> \<not> valid_limit_outcome outcome
      then (zero_limit_evidence, Some ErrInvalidResourcePolicy)
      else if observed \<le> configured
      then (\<lparr> le_policy_version = rp_version p, le_limit = ident, le_configured = configured,
              le_observed = observed, le_outcome = LimitAccepted, le_complete = True,
              le_prior_state_usable = prior \<rparr>, None)
      else (\<lparr> le_policy_version = rp_version p, le_limit = ident, le_configured = configured,
              le_observed = observed, le_outcome = outcome, le_complete = False,
              le_prior_state_usable = prior \<rparr>, Some ErrLimitExceeded))"

definition policy_binding :: "resource_policy \<Rightarrow> nat" where "policy_binding p = rp_version p"

subsection \<open>Facts of the policy\<close>

lemma default_policy_ok: "resource_policy_valid default_resource_policy"
  by (simp add: policy_guards default_resource_policy_def CurrentResourcePolicyVersion_def
      KiB_def MiB_def GiB_def Second_def Minute_def byte_size_add_def MaxUint64_def)

text \<open>The policy the program starts with satisfies every limit and cross-limit guard.\<close>

theorem default_policy_valid: "resource_policy_valid default_resource_policy"
  by (rule default_policy_ok)

lemma lower_limit_le: "lower_limit tuned current = Inr v \<Longrightarrow> v \<le> current"
  by (auto simp: lower_limit_def split: option.splits if_splits)

lemma raise_reserve_ge: "raise_reserve tuned current = Inr v \<Longrightarrow> current \<le> v"
  by (auto simp: raise_reserve_def split: option.splits if_splits)

lemma untuned_limits [simp]: "lower_limit None v = Inr v" "raise_reserve None v = Inr v"
  by (simp_all add: lower_limit_def raise_reserve_def)

lemma tuned_policy_same:
  "tuned_policy p (pl_default (rp_tree_page p)) (pl_default (rp_history_page p))
     (dl_highlight_bytes (rp_diff p)) (dl_automatic_open_bytes (rp_diff p))
     (pv_queue_events (rp_provider p)) (pv_queue_resident_bytes (rp_provider p))
     (st_minimum_free_bytes (rp_storage p)) (st_recovery_file_bytes (rp_storage p)) = p"
  by (simp add: tuned_policy_def)

definition no_tuning :: policy_tuning where
  "no_tuning =
     \<lparr> pt_tree_page_default = None, pt_history_page_default = None, pt_highlight_bytes = None,
       pt_automatic_open_bytes = None, pt_provider_queue_events = None,
       pt_provider_queue_resident_bytes = None, pt_minimum_free_bytes = None,
       pt_recovery_file_bytes = None \<rparr>"

lemma with_tuning_none: "resource_policy_valid p \<Longrightarrow> with_tuning p no_tuning = Inr p"
  by (simp add: with_tuning_def no_tuning_def tuned_policy_same)

text \<open>
  Tuning is safe: a policy that \<^verbatim>\<open>WithTuning\<close> returns is valid, keeps the version and every
  hard maximum, and is no looser than the one it started from.
\<close>

theorem tuning_never_loosens:
  assumes "with_tuning p t = Inr q"
  shows "resource_policy_valid q \<and> rp_version q = rp_version p \<and> no_looser q p"
proof -
  from assms obtain tree hist high opn evs res fre rec where
    q: "q = tuned_policy p tree hist high opn evs res fre rec" "resource_policy_valid q"
    and lower: "lower_limit (pt_tree_page_default t) (pl_default (rp_tree_page p)) = Inr tree"
      "lower_limit (pt_history_page_default t) (pl_default (rp_history_page p)) = Inr hist"
      "lower_limit (pt_highlight_bytes t) (dl_highlight_bytes (rp_diff p)) = Inr high"
      "lower_limit (pt_automatic_open_bytes t) (dl_automatic_open_bytes (rp_diff p)) = Inr opn"
      "lower_limit (pt_provider_queue_events t) (pv_queue_events (rp_provider p)) = Inr evs"
      "lower_limit (pt_provider_queue_resident_bytes t) (pv_queue_resident_bytes (rp_provider p)) = Inr res"
    and raise: "raise_reserve (pt_minimum_free_bytes t) (st_minimum_free_bytes (rp_storage p)) = Inr fre"
      "raise_reserve (pt_recovery_file_bytes t) (st_recovery_file_bytes (rp_storage p)) = Inr rec"
    by (auto simp: with_tuning_def Let_def split: if_splits)
  have "no_looser q p"
    unfolding no_looser_def q(1)
    using lower [THEN lower_limit_le] raise [THEN raise_reserve_ge] by blast
  then show ?thesis
    using q by (simp add: tuned_policy_def)
qed

theorem tuning_never_loosens_witness:
  "\<exists>q. with_tuning default_resource_policy no_tuning = Inr q \<and> resource_policy_valid q
     \<and> no_looser q default_resource_policy"
  using tuning_never_loosens [of default_resource_policy no_tuning default_resource_policy]
    with_tuning_none [OF default_policy_ok]
  by simp

text \<open>An observation is accepted exactly when it is within the configured limit.\<close>

lemma policy_admit_spec:
  assumes "resource_policy_valid p" "ident \<noteq> []" "configured \<noteq> 0" "valid_limit_outcome outcome"
  shows "le_complete (fst (policy_admit p ident observed configured outcome prior)) \<longleftrightarrow> observed \<le> configured"
    and "snd (policy_admit p ident observed configured outcome prior) =
           (if observed \<le> configured then None else Some ErrLimitExceeded)"
  using assms by (simp_all add: policy_admit_def)

lemma pressure_monotone:
  assumes "classify_storage_pressure used soft hard = Inr StoragePressureHard" "used \<le> used'"
  shows "classify_storage_pressure used' soft hard = Inr StoragePressureHard"
  using assms by (auto simp: classify_storage_pressure_def split: if_splits)

end
