(* ===== verification/Capacity_Plan.thy ===== *)
theory Capacity_Plan
  imports Resource_Policy
begin

text \<open>
  Capacity plans: \<^verbatim>\<open>internal/app/capacity.go\<close>. A plan lists the artifacts an operation will
  create and the peak charge it puts on each volume; \<^verbatim>\<open>ValidateCapacityPlan\<close> admits it under
  a policy and the observed free space. The specification \<open>plan_admissible\<close> says what admission
  means in unbounded arithmetic, and the main theorem that the code decides exactly that.
\<close>

subsection \<open>Plans\<close>

datatype artifact_class =
    ArtifactProposal | ArtifactCompletePatch | ArtifactPublishedDelta | ArtifactCapture
  | ArtifactSnapshot | ArtifactClassOther bytes

fun artifact_class_string :: "artifact_class \<Rightarrow> bytes" where
  "artifact_class_string ArtifactProposal = ''proposal''"
| "artifact_class_string ArtifactCompletePatch = ''complete_patch''"
| "artifact_class_string ArtifactPublishedDelta = ''published_delta''"
| "artifact_class_string ArtifactCapture = ''capture''"
| "artifact_class_string ArtifactSnapshot = ''snapshot''"
| "artifact_class_string (ArtifactClassOther s) = s"

record artifact_estimate =
  ae_class :: artifact_class
  ae_entries :: u64
  ae_bytes :: u64
  ae_largest_item :: u64

datatype volume_mode = VolumeMonitored | VolumeHard | VolumeModeOther bytes

record volume_evidence =
  ve_id :: bytes
  ve_free :: u64
  ve_mode :: volume_mode
  ve_stable :: bool
  ve_observed :: instant

record volume_peak = peak_bytes +
  vp_id :: bytes

record capacity_budget =
  cb_repository_used :: u64
  cb_global_used :: u64

record capacity_plan =
  cp_operation :: bytes
  cp_repository :: "bytes option"
  cp_artifacts :: "artifact_estimate list"
  cp_peaks :: "volume_peak list"
  cp_retained_delta :: u64
  cp_budget :: capacity_budget
  cp_policy_version :: nat

text \<open>The errors of plans and of the reservations built on them.\<close>

datatype plan_error =
    ErrInvalidCapacityPlan
  | ErrPlanLimitExceeded
  | CapacityPressureError bytes u64 u64 volume_mode
  | ErrReservationMismatch
  | ErrReservationNotReady
  | ErrUnknownMarker
  | ErrMarkerNotFound
  | ErrMarkerIO

definition peak_charge :: "volume_peak \<Rightarrow> (plan_error, u64) result" where
  "peak_charge p =
     (case volume_charge p of Inl _ \<Rightarrow> Inl ErrInvalidCapacityPlan | Inr v \<Rightarrow> Inr v)"

subsection \<open>Validation\<close>

definition artifact_within :: "artifact_limits \<Rightarrow> artifact_estimate \<Rightarrow> (plan_error, unit) result" where
  "artifact_within l e =
     (case ae_class e of
        ArtifactProposal \<Rightarrow>
          if ae_entries e = 0 \<or> ae_entries e > ar_proposal_files l \<or> ae_largest_item e = 0
            \<or> ae_largest_item e > ar_proposal_file_bytes l \<or> ae_bytes e > ar_complete_patch_bytes l
          then Inl ErrPlanLimitExceeded else Inr ()
      | ArtifactCompletePatch \<Rightarrow>
          if ae_bytes e > ar_complete_patch_bytes l then Inl ErrPlanLimitExceeded else Inr ()
      | ArtifactPublishedDelta \<Rightarrow>
          if ae_bytes e > ar_published_delta_bytes l then Inl ErrPlanLimitExceeded else Inr ()
      | ArtifactCapture \<Rightarrow>
          if ae_entries e = 0 \<or> ae_entries e > ar_capture_entries l
            \<or> ae_bytes e > ar_capture_delta_bytes l
          then Inl ErrPlanLimitExceeded else Inr ()
      | ArtifactSnapshot \<Rightarrow>
          if ae_entries e = 0 \<or> ae_entries e > ar_snapshot_entries l
            \<or> ae_bytes e > ar_snapshot_bytes l
          then Inl ErrPlanLimitExceeded else Inr ()
      | ArtifactClassOther _ \<Rightarrow> Inl ErrInvalidCapacityPlan)"

fun validate_artifacts ::
  "artifact_limits \<Rightarrow> artifact_class set \<Rightarrow> artifact_estimate list \<Rightarrow> (plan_error, unit) result" where
  "validate_artifacts l seen [] = Inr ()"
| "validate_artifacts l seen (e # es) =
     (if ae_bytes e = 0 \<or> ae_class e = ArtifactClassOther [] then Inl ErrInvalidCapacityPlan
      else if ae_class e \<in> seen then Inl ErrInvalidCapacityPlan
      else bind_result (artifact_within l e) (\<lambda>_. validate_artifacts l (insert (ae_class e) seen) es))"

fun validate_peaks ::
  "storage_limits \<Rightarrow> bytes set \<Rightarrow> volume_peak list \<Rightarrow> (plan_error, unit) result" where
  "validate_peaks s seen [] = Inr ()"
| "validate_peaks s seen (p # ps) =
     (if vp_id p = [] then Inl ErrInvalidCapacityPlan
      else if vp_id p \<in> seen then Inl ErrInvalidCapacityPlan
      else if pk_reserve p < st_minimum_free_bytes s \<or> pk_reserve p < st_recovery_file_bytes s
      then Inl ErrInvalidCapacityPlan
      else bind_result (peak_charge p) (\<lambda>_. validate_peaks s (insert (vp_id p) seen) ps))"

fun sum_retained :: "u64 \<Rightarrow> volume_peak list \<Rightarrow> (plan_error, u64) result" where
  "sum_retained acc [] = Inr acc"
| "sum_retained acc (p # ps) =
     (case byte_size_add acc (pk_retained_delta p) of
        Inl _ \<Rightarrow> Inl ErrInvalidCapacityPlan
      | Inr acc' \<Rightarrow> sum_retained acc' ps)"

text \<open>The map of observations keeps one per volume; a second one is an error.\<close>

fun collect_evidence ::
  "(bytes \<times> volume_evidence) list \<Rightarrow> volume_evidence list \<Rightarrow> (plan_error, (bytes \<times> volume_evidence) list) result" where
  "collect_evidence obs [] = Inr obs"
| "collect_evidence obs (v # vs) =
     (if ve_id v = [] \<or> \<not> ve_stable v \<or> ve_mode v \<noteq> VolumeMonitored \<and> ve_mode v \<noteq> VolumeHard
      then Inl ErrInvalidCapacityPlan
      else if map_of obs (ve_id v) \<noteq> None then Inl ErrInvalidCapacityPlan
      else collect_evidence ((ve_id v, v) # obs) vs)"

fun check_free ::
  "(bytes \<times> volume_evidence) list \<Rightarrow> volume_peak list \<Rightarrow> (plan_error, unit) result" where
  "check_free obs [] = Inr ()"
| "check_free obs (p # ps) =
     (case map_of obs (vp_id p) of
        None \<Rightarrow> Inl ErrInvalidCapacityPlan
      | Some v \<Rightarrow> bind_result (peak_charge p) (\<lambda>charge.
          if ve_free v < charge
          then Inl (CapacityPressureError (vp_id p) charge (ve_free v) (ve_mode v))
          else check_free obs ps))"

text \<open>Usage so far plus the retained growth against one hard budget.\<close>

definition check_budget :: "u64 \<Rightarrow> u64 \<Rightarrow> u64 \<Rightarrow> (plan_error, unit) result" where
  "check_budget used retained hard =
     (case byte_size_add used retained of
        Inl _ \<Rightarrow> Inl ErrInvalidCapacityPlan
      | Inr _ \<Rightarrow> if used + retained > hard then Inl ErrPlanLimitExceeded else Inr ())"

definition validate_capacity_plan ::
  "resource_policy \<Rightarrow> capacity_plan \<Rightarrow> volume_evidence list option \<Rightarrow> (plan_error, unit) result" where
  "validate_capacity_plan policy plan evidence =
     (if \<not> resource_policy_valid policy \<or> cp_operation plan = []
        \<or> cp_policy_version plan \<noteq> rp_version policy \<or> cp_peaks plan = []
        \<or> cp_repository plan = Some []
      then Inl ErrInvalidCapacityPlan
      else if cp_retained_delta plan > st_global_hard_bytes (rp_storage policy)
        \<or> cp_retained_delta plan > st_repository_hard_bytes (rp_storage policy)
      then Inl ErrPlanLimitExceeded
      else bind_result (check_budget (cb_repository_used (cp_budget plan)) (cp_retained_delta plan)
                          (st_repository_hard_bytes (rp_storage policy))) (\<lambda>_.
       bind_result (check_budget (cb_global_used (cp_budget plan)) (cp_retained_delta plan)
                          (st_global_hard_bytes (rp_storage policy))) (\<lambda>_.
       bind_result (validate_artifacts (rp_artifact policy) {} (cp_artifacts plan)) (\<lambda>_.
       bind_result (validate_peaks (rp_storage policy) {} (cp_peaks plan)) (\<lambda>_.
       bind_result (sum_retained 0 (cp_peaks plan)) (\<lambda>retained.
         if retained \<noteq> cp_retained_delta plan then Inl ErrInvalidCapacityPlan
         else case evidence of
                None \<Rightarrow> Inr ()
              | Some vs \<Rightarrow> bind_result (collect_evidence [] vs) (\<lambda>obs.
                  check_free obs (cp_peaks plan))))))))"

subsection \<open>What an admitted plan is\<close>

text \<open>The charge of a volume, its nine classes summed without wrapping.\<close>

definition true_charge :: "'a peak_bytes_scheme \<Rightarrow> nat" where
  "true_charge p = sum_list (map unat (peak_classes p))"

definition evidence_ok :: "volume_evidence list \<Rightarrow> bool" where
  "evidence_ok vs \<longleftrightarrow>
     distinct (map ve_id vs)
     \<and> (\<forall>v \<in> set vs. ve_id v \<noteq> [] \<and> ve_stable v \<and> ve_mode v \<in> {VolumeMonitored, VolumeHard})"

definition plan_admissible ::
  "resource_policy \<Rightarrow> capacity_plan \<Rightarrow> volume_evidence list option \<Rightarrow> bool" where
  "plan_admissible policy plan evidence \<longleftrightarrow>
     resource_policy_valid policy \<and> cp_operation plan \<noteq> []
     \<and> cp_policy_version plan = rp_version policy \<and> cp_peaks plan \<noteq> []
     \<and> cp_repository plan \<noteq> Some []
     \<and> unat (cb_repository_used (cp_budget plan)) + unat (cp_retained_delta plan)
         \<le> unat (st_repository_hard_bytes (rp_storage policy))
     \<and> unat (cb_global_used (cp_budget plan)) + unat (cp_retained_delta plan)
         \<le> unat (st_global_hard_bytes (rp_storage policy))
     \<and> distinct (map ae_class (cp_artifacts plan))
     \<and> (\<forall>e \<in> set (cp_artifacts plan). ae_bytes e \<noteq> 0 \<and> is_ok (artifact_within (rp_artifact policy) e))
     \<and> distinct (map vp_id (cp_peaks plan))
     \<and> (\<forall>p \<in> set (cp_peaks plan).
          vp_id p \<noteq> [] \<and> true_charge p < 2 ^ 64
          \<and> st_minimum_free_bytes (rp_storage policy) \<le> pk_reserve p
          \<and> st_recovery_file_bytes (rp_storage policy) \<le> pk_reserve p)
     \<and> sum_list (map (\<lambda>p. unat (pk_retained_delta p)) (cp_peaks plan)) = unat (cp_retained_delta plan)
     \<and> opt_all (\<lambda>vs. evidence_ok vs \<and>
          (\<forall>p \<in> set (cp_peaks plan).
             \<exists>v \<in> set vs. ve_id v = vp_id p \<and> true_charge p \<le> unat (ve_free v))) evidence"

subsection \<open>Each loop of the validation\<close>

lemma peak_charge_exact:
  "peak_charge p =
     (if true_charge p < 2 ^ 64 then Inr (sum_list (peak_classes p)) else Inl ErrInvalidCapacityPlan)"
  by (simp add: peak_charge_def volume_charge_exact true_charge_def)

lemma peak_charge_value:
  "peak_charge p = Inr c \<longleftrightarrow> true_charge p < 2 ^ 64 \<and> c = sum_list (peak_classes p)"
  by (auto simp: peak_charge_exact)

lemma peak_charge_nat: "peak_charge p = Inr c \<Longrightarrow> unat c = true_charge p"
  using unat_sum_fits [of "peak_classes p"] by (simp add: peak_charge_value true_charge_def)

lemma unit_result_ok: "is_ok (r :: ('e, unit) result) \<longleftrightarrow> r = Inr ()"
  by (cases r) auto

lemma validate_artifacts_iff:
  "validate_artifacts l seen es = Inr () \<longleftrightarrow>
     distinct (map ae_class es) \<and> ae_class ` set es \<inter> seen = {}
     \<and> (\<forall>e \<in> set es. ae_bytes e \<noteq> 0 \<and> is_ok (artifact_within l e))"
proof (induction es arbitrary: seen)
  case (Cons e es)
  have "artifact_within l e = Inr () \<Longrightarrow> ae_class e \<noteq> ArtifactClassOther []"
    by (auto simp: artifact_within_def)
  then show ?case
    by (auto simp: Cons.IH unit_result_ok)
qed simp

lemma validate_peaks_iff:
  "validate_peaks s seen ps = Inr () \<longleftrightarrow>
     distinct (map vp_id ps) \<and> vp_id ` set ps \<inter> seen = {}
     \<and> (\<forall>p \<in> set ps. vp_id p \<noteq> [] \<and> true_charge p < 2 ^ 64
          \<and> st_minimum_free_bytes s \<le> pk_reserve p \<and> st_recovery_file_bytes s \<le> pk_reserve p)"
  by (induction ps arbitrary: seen) (auto simp: peak_charge_value not_less)

lemma sum_retained_exact:
  "sum_retained acc ps =
     (if unat acc + sum_list (map (\<lambda>p. unat (pk_retained_delta p)) ps) < 2 ^ 64
      then Inr (acc + sum_list (map pk_retained_delta ps)) else Inl ErrInvalidCapacityPlan)"
proof (induction ps arbitrary: acc)
  case Nil
  then show ?case using unat_less_64 [of acc] by simp
next
  case (Cons p ps)
  show ?case
  proof (cases "unat acc + unat (pk_retained_delta p) < 2 ^ 64")
    case True
    then show ?thesis
      by (simp add: Cons.IH byte_size_add_exact unat_add_fits add.assoc)
  next
    case False
    then show ?thesis
      by (simp add: byte_size_add_exact)
  qed
qed

lemma sum_retained_iff:
  "sum_retained 0 ps = Inr r \<longleftrightarrow>
     sum_list (map (\<lambda>p. unat (pk_retained_delta p)) ps) = unat r"
proof -
  have "unat (sum_list (map pk_retained_delta ps)) = sum_list (map (\<lambda>p. unat (pk_retained_delta p)) ps)"
    if "sum_list (map (\<lambda>p. unat (pk_retained_delta p)) ps) < 2 ^ 64"
    using unat_sum_fits [of "map pk_retained_delta ps"] that by (simp add: o_def)
  then show ?thesis
    using unat_less_64 [of r] by (auto simp: sum_retained_exact) (metis word_unat_eq_iff)
qed

lemma collect_evidence_iff:
  "collect_evidence obs vs = Inr obs' \<longleftrightarrow>
     evidence_ok vs \<and> ve_id ` set vs \<inter> fst ` set obs = {}
     \<and> obs' = rev (map (\<lambda>v. (ve_id v, v)) vs) @ obs"
  by (induction vs arbitrary: obs obs') (auto simp: evidence_ok_def map_of_eq_None_iff)

lemma map_of_evidence:
  "distinct (map ve_id vs) \<Longrightarrow>
     map_of (rev (map (\<lambda>v. (ve_id v, v)) vs)) i = Some v \<longleftrightarrow> v \<in> set vs \<and> ve_id v = i"
  by (subst map_of_eq_Some_iff) (auto simp: o_def rev_map [symmetric])

lemma check_free_iff:
  assumes "distinct (map ve_id vs)"
  shows "check_free (rev (map (\<lambda>v. (ve_id v, v)) vs)) ps = Inr () \<longleftrightarrow>
     (\<forall>p \<in> set ps. true_charge p < 2 ^ 64 \<and>
        (\<exists>v \<in> set vs. ve_id v = vp_id p \<and> true_charge p \<le> unat (ve_free v)))"
proof (induction ps)
  case (Cons p ps)
  have one: "(\<exists>v. map_of (rev (map (\<lambda>v. (ve_id v, v)) vs)) (vp_id p) = Some v \<and> Q v) \<longleftrightarrow>
      (\<exists>v \<in> set vs. ve_id v = vp_id p \<and> Q v)" for Q
    using map_of_evidence [OF assms] by auto
  have "check_free (rev (map (\<lambda>v. (ve_id v, v)) vs)) (p # ps) = Inr () \<longleftrightarrow>
      (\<exists>v. map_of (rev (map (\<lambda>v. (ve_id v, v)) vs)) (vp_id p) = Some v
         \<and> true_charge p < 2 ^ 64 \<and> true_charge p \<le> unat (ve_free v))
      \<and> check_free (rev (map (\<lambda>v. (ve_id v, v)) vs)) ps = Inr ()"
    using peak_charge_nat [of p]
    by (auto simp: peak_charge_exact word_less_nat_alt not_less split: option.splits)
  then show ?case
    using Cons.IH one by auto
qed simp

lemma check_budget_iff:
  "check_budget used retained hard = Inr () \<longleftrightarrow> unat used + unat retained \<le> unat hard"
  using unat_less_64 [of hard]
  by (auto simp: check_budget_def byte_size_add_exact word_less_nat_alt unat_add_fits not_less)

lemma validate_capacity_plan_iff:
  "validate_capacity_plan policy plan evidence = Inr () \<longleftrightarrow> plan_admissible policy plan evidence"
proof -
  have small: "unat a + unat r \<le> unat h \<Longrightarrow> r \<le> h" for a r h :: u64
    by (simp add: word_le_nat_alt)
  show ?thesis
    unfolding validate_capacity_plan_def plan_admissible_def
    by (cases evidence)
      (auto simp: check_budget_iff validate_artifacts_iff validate_peaks_iff sum_retained_iff
        collect_evidence_iff check_free_iff evidence_ok_def not_less dest: small)
qed

text \<open>
  C25. Admission is exactly the specification: \<^verbatim>\<open>ValidateCapacityPlan\<close> accepts a plan if and only
  if, in unbounded arithmetic, both hard budgets hold after the retained growth, every artifact is
  within its limit, the volumes are distinct with the protected reserve in each charge, the
  retained parts add up, and the free space observed on every volume covers its whole charge.
\<close>

theorem capacity_plan_exact:
  "validate_capacity_plan policy plan evidence = Inr () \<longleftrightarrow> plan_admissible policy plan evidence"
  by (rule validate_capacity_plan_iff)

end
