(* ===== verification/Digest_Frames.thy ===== *)
theory Digest_Frames
  imports Capacity_Plan
begin

text \<open>
  The framing shared by the digests of \<^verbatim>\<open>internal/app/capacity.go\<close>,
  \<^verbatim>\<open>internal/domain/repository/capture.go\<close> and \<^verbatim>\<open>internal/store/sqlite/owned_storage.go\<close>: a
  64-bit integer is written as eight bytes, the highest first, and a string as its length followed
  by its bytes. Frames of Go strings are prefix-free, which the injectivity lemmas of the digest
  preimages rest on. The plan digest is the first of them.
\<close>

definition digest_uint64 :: "u64 \<Rightarrow> bytes" where
  "digest_uint64 v = map (\<lambda>k. mk_byte (unat v div 2 ^ (8 * k))) [7, 6, 5, 4, 3, 2, 1, 0]"

definition digest_string :: "bytes \<Rightarrow> bytes" where
  "digest_string v = digest_uint64 (of_nat (length v)) @ v"

text \<open>A length Go can represent.\<close>

definition go_sized :: "bytes \<Rightarrow> bool" where "go_sized v \<longleftrightarrow> length v < 2 ^ 63"

lemma digest_uint64_length [simp]: "length (digest_uint64 v) = 8"
  by (simp add: digest_uint64_def)

fun be_value :: "bytes \<Rightarrow> nat" where
  "be_value [] = 0"
| "be_value (b # bs) = byte b * 256 ^ length bs + be_value bs"

lemma byte_mk_byte_mod: "byte (mk_byte n) = n mod 256"
  by (simp add: byte_def mk_byte_def)

lemma be_value_digits:
  "be_value (map (\<lambda>k. mk_byte (n div 2 ^ (8 * k))) (rev [0..<m])) = n mod 256 ^ m"
proof (induction m)
  case (Suc m)
  have step: "n mod 256 ^ Suc m = (n div 256 ^ m mod 256) * 256 ^ m + n mod 256 ^ m"
    by (metis mod_mult2_eq mult.commute power_Suc2)
  have "(2 :: nat) ^ (8 * m) = 256 ^ m"
    by (simp add: power_mult)
  then show ?case
    using Suc by (simp only: step) (simp add: byte_mk_byte_mod)
qed simp

lemma be_value_digest: "be_value (digest_uint64 v) = unat v"
proof -
  have "rev [0..<8 :: nat] = [7, 6, 5, 4, 3, 2, 1, 0]"
    by (simp add: upt_conv_Cons)
  then have "be_value (digest_uint64 v) = unat v mod 256 ^ 8"
    using be_value_digits [of "unat v" 8] by (simp only: digest_uint64_def)
  then show ?thesis
    using unat_less_64 [of v] by simp
qed

lemma digest_uint64_inj [simp]: "digest_uint64 v = digest_uint64 w \<longleftrightarrow> v = w"
  using be_value_digest by (metis word_unat_eq_iff)

lemma digest_uint64_frame [simp]:
  "digest_uint64 v @ r = digest_uint64 w @ s \<longleftrightarrow> v = w \<and> r = s"
  by simp

lemma digest_string_frame:
  assumes "go_sized v" "go_sized w"
  shows "digest_string v @ r = digest_string w @ s \<longleftrightarrow> v = w \<and> r = s"
proof -
  have "v = w \<and> r = s" if "digest_string v @ r = digest_string w @ s"
  proof -
    from that have "of_nat (length v) = (of_nat (length w) :: u64)" and rest: "v @ r = w @ s"
      by (simp_all add: digest_string_def)
    then have "unat (of_nat (length v) :: u64) = unat (of_nat (length w) :: u64)"
      by simp
    then have "length v mod 2 ^ 64 = length w mod 2 ^ 64"
      by (simp only: unsigned_of_nat take_bit_eq_mod) simp
    then have "length v = length w"
      using assms by (simp add: go_sized_def)
    with rest show ?thesis by simp
  qed
  then show ?thesis by auto
qed

end
