(* ===== verification/Plan_Digest.thy ===== *)
theory Plan_Digest
  imports Digest_Frames Go_Sha256 "HOL-Library.Multiset"
begin

text \<open>
  The plan digest, the reservation handle and the recheck bounds of
  \<^verbatim>\<open>internal/app/capacity.go\<close>. The digest hashes the framed fields of a plan, its artifacts
  sorted by class and its volumes by identity. \<^verbatim>\<open>sort.Slice\<close> leaves the order of equal keys open;
  the model keeps them in place, and no equal keys are left in a plan that validates.
\<close>

subsection \<open>The preimage\<close>

definition digest_artifact :: "artifact_estimate \<Rightarrow> bytes" where
  "digest_artifact a =
     digest_string (artifact_class_string (ae_class a)) @ digest_uint64 (ae_entries a)
     @ digest_uint64 (ae_bytes a) @ digest_uint64 (ae_largest_item a)"

definition digest_peak :: "volume_peak \<Rightarrow> bytes" where
  "digest_peak p = digest_string (vp_id p) @ concat (map digest_uint64 (peak_classes p))"

definition plan_preimage :: "capacity_plan \<Rightarrow> bytes" where
  "plan_preimage plan =
     digest_string (cp_operation plan)
     @ (case cp_repository plan of
          Some r \<Rightarrow> digest_uint64 1 @ digest_string r
        | None \<Rightarrow> digest_uint64 0)
     @ digest_uint64 (of_nat (cp_policy_version plan))
     @ digest_uint64 (cp_retained_delta plan)
     @ digest_uint64 (cb_repository_used (cp_budget plan))
     @ digest_uint64 (cb_global_used (cp_budget plan))
     @ concat (map digest_artifact
         (sort_key (\<lambda>a. artifact_class_string (ae_class a)) (cp_artifacts plan)))
     @ concat (map digest_peak (sort_key vp_id (cp_peaks plan)))"

fun digest_peaks_ok :: "bytes set \<Rightarrow> volume_peak list \<Rightarrow> (plan_error, unit) result" where
  "digest_peaks_ok seen [] = Inr ()"
| "digest_peaks_ok seen (p # ps) =
     (if vp_id p = [] then Inl ErrInvalidCapacityPlan
      else if vp_id p \<in> seen then Inl ErrInvalidCapacityPlan
      else bind_result (peak_charge p) (\<lambda>_. digest_peaks_ok (insert (vp_id p) seen) ps))"

definition plan_digest :: "capacity_plan \<Rightarrow> (plan_error, bytes) result" where
  "plan_digest plan =
     (if cp_operation plan = [] \<or> cp_policy_version plan = 0 \<or> cp_peaks plan = []
        \<or> cp_repository plan = Some []
      then Inl ErrInvalidCapacityPlan
      else bind_result (digest_peaks_ok {} (cp_peaks plan)) (\<lambda>_.
             Inr (sha256_hex (plan_preimage plan))))"

subsection \<open>Reservation handles\<close>

record recheck_bounds =
  rb_max_bytes :: u64
  rb_max_interval :: int

definition recheck_bounds_valid :: "recheck_bounds \<Rightarrow> bool" where
  "recheck_bounds_valid b \<longleftrightarrow> rb_max_bytes b \<noteq> 0 \<and> 0 < rb_max_interval b"

record reservation =
  rs_marker :: bytes
  rs_operation :: bytes
  rs_repository :: bytes
  rs_plan_digest :: bytes
  rs_policy_version :: nat

definition new_capacity_reservation ::
  "bytes \<Rightarrow> bytes \<Rightarrow> bytes \<Rightarrow> bytes \<Rightarrow> nat \<Rightarrow> (plan_error, reservation) result" where
  "new_capacity_reservation marker operation repository digest version =
     (if marker = [] \<or> operation = [] \<or> digest = [] \<or> version = 0 then Inl ErrInvalidCapacityPlan
      else Inr \<lparr> rs_marker = marker, rs_operation = operation, rs_repository = repository,
                 rs_plan_digest = digest, rs_policy_version = version \<rparr>)"

subsection \<open>What the digest identifies\<close>

lemma digest_peaks_ok_iff:
  "digest_peaks_ok seen ps = Inr () \<longleftrightarrow>
     distinct (map vp_id ps) \<and> vp_id ` set ps \<inter> seen = {}
     \<and> (\<forall>p \<in> set ps. vp_id p \<noteq> [] \<and> true_charge p < 2 ^ 64)"
  by (induction ps arbitrary: seen) (auto simp: peak_charge_value)

text \<open>An admitted plan has a digest.\<close>

lemma admitted_plan_has_digest:
  assumes "plan_admissible policy plan evidence"
  shows "plan_digest plan = Inr (sha256_hex (plan_preimage plan))"
proof -
  have "rp_version policy = 1"
    using assms by (simp add: plan_admissible_def resource_policy_valid_def CurrentResourcePolicyVersion_def)
  moreover have "digest_peaks_ok {} (cp_peaks plan) = Inr ()"
    using assms by (auto simp: plan_admissible_def digest_peaks_ok_iff)
  ultimately show ?thesis
    using assms by (auto simp: plan_digest_def plan_admissible_def)
qed

text \<open>A plan of which every string and number is one Go can hold.\<close>

definition go_plan :: "capacity_plan \<Rightarrow> bool" where
  "go_plan plan \<longleftrightarrow>
     go_sized (cp_operation plan) \<and> opt_all go_sized (cp_repository plan)
     \<and> cp_policy_version plan < 2 ^ 32
     \<and> (\<forall>a \<in> set (cp_artifacts plan). go_sized (artifact_class_string (ae_class a)))
     \<and> (\<forall>p \<in> set (cp_peaks plan). go_sized (vp_id p))"

definition artifact_image :: "artifact_estimate \<Rightarrow> bytes \<times> u64 \<times> u64 \<times> u64" where
  "artifact_image a =
     (artifact_class_string (ae_class a), ae_entries a, ae_bytes a, ae_largest_item a)"

lemma digest_artifact_frame:
  assumes "go_sized (artifact_class_string (ae_class a))"
    "go_sized (artifact_class_string (ae_class b))"
  shows "digest_artifact a @ r = digest_artifact b @ s \<longleftrightarrow> artifact_image a = artifact_image b \<and> r = s"
  using assms by (auto simp: digest_artifact_def artifact_image_def digest_string_frame)

lemma digest_peak_frame:
  assumes "go_sized (vp_id (p :: volume_peak))" "go_sized (vp_id q)"
  shows "digest_peak p @ r = digest_peak q @ s \<longleftrightarrow> p = q \<and> r = s"
  using assms by (auto simp: digest_peak_def peak_classes_def digest_string_frame)

lemma frames_prefix_free:
  assumes "\<And>x y r s. x \<in> set xs \<Longrightarrow> y \<in> set ys \<Longrightarrow>
      enc x @ r = enc y @ s \<longleftrightarrow> img x = img y \<and> r = (s :: bytes)"
    and "length xs = length ys"
  shows "concat (map enc xs) @ r = concat (map enc ys) @ s \<longleftrightarrow> map img xs = map img ys \<and> r = s"
  using assms(2,1)
proof (induction xs ys rule: list_induct2)
  case (Cons x xs y ys)
  then show ?case by simp
qed simp

lemma concat_peaks_inj:
  assumes "\<forall>p \<in> set ps. go_sized (vp_id (p :: volume_peak))" "\<forall>q \<in> set qs. go_sized (vp_id q)"
    and "concat (map digest_peak ps) = concat (map digest_peak qs)"
  shows "ps = qs"
  using assms
proof (induction ps arbitrary: qs)
  case Nil
  then show ?case
    by (cases qs) (simp_all add: digest_peak_def peak_classes_def digest_uint64_def)
next
  case (Cons p ps)
  then obtain q qs' where qs: "qs = q # qs'"
    by (cases qs) (simp_all add: digest_peak_def peak_classes_def digest_uint64_def)
  have "digest_peak p @ concat (map digest_peak ps) = digest_peak q @ concat (map digest_peak qs')"
    using Cons.prems(3) qs by (simp only: list.map concat.simps)
  then have "p = q" "concat (map digest_peak ps) = concat (map digest_peak qs')"
    using digest_peak_frame [of p q] Cons.prems(1,2) qs by (simp_all only: list.set insert_iff) blast+
  then show ?case
    using Cons.IH [of qs'] Cons.prems(1,2) qs by (simp only: list.set insert_iff) blast
qed

lemma map_sort_key_mset:
  "map f (sort_key k xs) = map f (sort_key k ys) \<Longrightarrow> image_mset f (mset xs) = image_mset f (mset ys)"
  by (metis mset_map mset_sort)

text \<open>
  The preimage of a plan digest determines the plan: two plans with equally many artifacts and
  the same preimage agree on the operation, the repository, the policy version, the retained growth,
  both usages, the artifacts and the volumes with every byte class, up to the order in which
  the lists name them.
\<close>

theorem plan_preimage_determines:
  assumes "go_plan p" "go_plan q" "length (cp_artifacts p) = length (cp_artifacts q)"
    and "plan_preimage p = plan_preimage q"
  shows "cp_operation p = cp_operation q \<and> cp_repository p = cp_repository q
    \<and> cp_policy_version p = cp_policy_version q \<and> cp_retained_delta p = cp_retained_delta q
    \<and> cp_budget p = cp_budget q
    \<and> image_mset artifact_image (mset (cp_artifacts p)) = image_mset artifact_image (mset (cp_artifacts q))
    \<and> mset (cp_peaks p) = mset (cp_peaks q)"
proof -
  let ?A = "\<lambda>x. sort_key (\<lambda>a. artifact_class_string (ae_class a)) (cp_artifacts x)"
  let ?P = "\<lambda>x. sort_key vp_id (cp_peaks x)"
  let ?tail = "\<lambda>x. concat (map digest_artifact (?A x)) @ concat (map digest_peak (?P x))"
  have head: "cp_operation p = cp_operation q" "cp_repository p = cp_repository q"
      "(of_nat (cp_policy_version p) :: u64) = of_nat (cp_policy_version q)"
      "cp_retained_delta p = cp_retained_delta q" "cp_budget p = cp_budget q"
    and tail: "?tail p = ?tail q"
    using assms(1,2,4)
    by (auto simp: plan_preimage_def go_plan_def digest_string_frame split: option.splits)
  have version: "cp_policy_version p = cp_policy_version q"
    using assms(1,2) arg_cong [OF head(3), of unat]
    by (simp add: go_plan_def unsigned_of_nat take_bit_eq_mod)
  have "map artifact_image (?A p) = map artifact_image (?A q)
      \<and> concat (map digest_peak (?P p)) = concat (map digest_peak (?P q))"
    using tail assms(1-3)
    by (subst (asm) frames_prefix_free [where img = artifact_image])
      (auto simp: go_plan_def digest_artifact_frame)
  moreover from this have "?P p = ?P q"
    using assms(1,2) by (intro concat_peaks_inj) (auto simp: go_plan_def)
  ultimately show ?thesis
    using head version by (metis map_sort_key_mset mset_sort)
qed

text \<open>
  The two lists are not delimited: a volume whose figures spell an artifact record is read back
  as artifacts. The plans below differ in their artifacts and volumes, both have a digest, and it is
  the same one. The second names no class of the policy, so admission refuses it.
\<close>

definition sample_peak :: "bytes \<Rightarrow> u64 list \<Rightarrow> volume_peak" where
  "sample_peak ident vs =
     \<lparr> pk_inputs = vs ! 0, pk_temporaries = vs ! 1, pk_finals = vs ! 2, pk_copy_on_write = vs ! 3,
       pk_database_wal = vs ! 4, pk_atomic_output = vs ! 5, pk_concurrent_reservations = vs ! 6,
       pk_reserve = vs ! 7, pk_retained_delta = vs ! 8, vp_id = ident \<rparr>"

definition sample_plan :: "artifact_estimate list \<Rightarrow> volume_peak list \<Rightarrow> capacity_plan" where
  "sample_plan es ps =
     \<lparr> cp_operation = ''op'', cp_repository = None, cp_artifacts = es, cp_peaks = ps,
       cp_retained_delta = 3, cp_budget = \<lparr> cb_repository_used = 0, cb_global_used = 0 \<rparr>,
       cp_policy_version = 1 \<rparr>"

definition merged_peak :: volume_peak where
  "merged_peak = sample_peak ''x'' [1, 2, 3, 16, 8680820740569200760, 8680820740569200760, 1, 2, 3]"

definition split_artifacts :: "artifact_estimate list" where
  "split_artifacts =
     [\<lparr> ae_class = ArtifactClassOther ''x'', ae_entries = 1, ae_bytes = 2, ae_largest_item = 3 \<rparr>,
      \<lparr> ae_class = ArtifactClassOther ''xxxxxxxxxxxxxxxx'', ae_entries = 1, ae_bytes = 2,
        ae_largest_item = 3 \<rparr>]"

definition last_peak :: volume_peak where
  "last_peak = sample_peak ''z'' [0, 0, 0, 0, 0, 0, 0, 0, 0]"

lemma plan_digest_merges_lists:
  "plan_preimage (sample_plan [] [merged_peak, last_peak])
     = plan_preimage (sample_plan split_artifacts [last_peak])"
  "digest_peaks_ok {} [merged_peak, last_peak] = Inr ()" "digest_peaks_ok {} [last_peak] = Inr ()"
proof -
  have x: "mk_byte n = CHR ''x''" if "n mod 256 = 120" for n
  proof -
    have "mk_byte n = mk_byte 120"
      using that by (metis char_of_mod_256 mk_byte_def)
    then show ?thesis
      by (simp add: mk_byte_def char_of_def bit_0)
  qed
  show "plan_preimage (sample_plan [] [merged_peak, last_peak])
      = plan_preimage (sample_plan split_artifacts [last_peak])"
    by (simp add: plan_preimage_def sample_plan_def merged_peak_def last_peak_def sample_peak_def
        split_artifacts_def digest_peak_def digest_artifact_def peak_classes_def digest_string_def
        digest_uint64_def sort_key_def x)
  show "digest_peaks_ok {} [merged_peak, last_peak] = Inr ()" "digest_peaks_ok {} [last_peak] = Inr ()"
    by (simp_all add: peak_charge_value merged_peak_def last_peak_def sample_peak_def
        true_charge_def peak_classes_def)
qed

theorem plan_preimage_determines_witness:
  "image_mset artifact_image (mset (cp_artifacts (sample_plan split_artifacts [last_peak])))
     = image_mset artifact_image (mset (cp_artifacts (sample_plan (rev split_artifacts) [last_peak])))"
proof -
  have "plan_preimage (sample_plan split_artifacts [last_peak])
      = plan_preimage (sample_plan (rev split_artifacts) [last_peak])"
    by (simp add: plan_preimage_def sample_plan_def split_artifacts_def sort_key_def)
  then show ?thesis
    using plan_preimage_determines [of "sample_plan split_artifacts [last_peak]"
        "sample_plan (rev split_artifacts) [last_peak]"]
    by (simp add: go_plan_def sample_plan_def split_artifacts_def last_peak_def sample_peak_def
        go_sized_def)
qed

end
