(* ===== verification/Storage_Records.thy ===== *)
theory Storage_Records
  imports Plan_Digest
begin

text \<open>
  The owned-storage records of \<^verbatim>\<open>internal/app/owned_storage.go\<close>: the requests a ledger accepts,
  the artifacts it accounts for and the guards on both.
\<close>

subsection \<open>Texts\<close>

definition bidi_control :: "nat \<Rightarrow> bool" where
  "bidi_control r \<longleftrightarrow>
     r = 1564 \<or> r = 8206 \<or> r = 8207 \<or> 8234 \<le> r \<and> r \<le> 8238 \<or> 8294 \<le> r \<and> r \<le> 8297"

definition stable_text :: "bytes \<Rightarrow> bool" where
  "stable_text v \<longleftrightarrow>
     v \<noteq> [] \<and> rune_error \<notin> set (runes v)
     \<and> (\<forall>r \<in> set (runes v). \<not> is_control r \<and> \<not> bidi_control r)"

definition stable_storage_text :: "bytes \<Rightarrow> bool" where
  "stable_storage_text v \<longleftrightarrow> v \<noteq> [] \<and> length v \<le> 4096 \<and> NUL \<notin> set v \<and> stable_text v"

definition valid_owner_kind :: "bytes \<Rightarrow> bool" where
  "valid_owner_kind v \<longleftrightarrow>
     v \<noteq> [] \<and> length v \<le> 64 \<and> utf8_valid v
     \<and> (\<forall>r \<in> set (runes v). r \<notin> {47, 92, 58, 0, 34, 39} \<and> 32 \<le> r)"

definition hex_rune :: "nat \<Rightarrow> bool" where
  "hex_rune r \<longleftrightarrow> 48 \<le> r \<and> r \<le> 57 \<or> 97 \<le> r \<and> r \<le> 102 \<or> 65 \<le> r \<and> r \<le> 70"

definition storage_sha256_text :: "bytes \<Rightarrow> bool" where
  "storage_sha256_text v \<longleftrightarrow> length v = 64 \<and> (\<forall>r \<in> set (runes v). hex_rune r)"

subsection \<open>Artifacts and their charge\<close>

definition CurrentStorageAccountingVersion :: nat where "CurrentStorageAccountingVersion = 1"

datatype ledger_error =
    ErrStorageLedgerInput | ErrStorageLedgerConflict | ErrStorageLedgerNotFound
  | ErrStoragePublicationBlocked | ErrLedgerConstraint | ErrLedgerIO

datatype storage_class =
    StorageClassDatabaseRows | StorageClassDatabaseWAL | StorageClassCapture
  | StorageClassReviewSnapshot | StorageClassWorkspace | StorageClassProposal
  | StorageClassJournal | StorageClassSpool | StorageClassCache | StorageClassLog
  | StorageClassExport | StorageClassRetainedHistory | StorageClassOther bytes

fun storage_class_string :: "storage_class \<Rightarrow> bytes" where
  "storage_class_string StorageClassDatabaseRows = ''database_rows''"
| "storage_class_string StorageClassDatabaseWAL = ''database_wal''"
| "storage_class_string StorageClassCapture = ''capture''"
| "storage_class_string StorageClassReviewSnapshot = ''review_snapshot''"
| "storage_class_string StorageClassWorkspace = ''workspace''"
| "storage_class_string StorageClassProposal = ''proposal''"
| "storage_class_string StorageClassJournal = ''journal''"
| "storage_class_string StorageClassSpool = ''spool''"
| "storage_class_string StorageClassCache = ''cache''"
| "storage_class_string StorageClassLog = ''log''"
| "storage_class_string StorageClassExport = ''export''"
| "storage_class_string StorageClassRetainedHistory = ''retained_history''"
| "storage_class_string (StorageClassOther s) = s"

definition storage_class_valid :: "storage_class \<Rightarrow> bool" where
  "storage_class_valid c = (case c of StorageClassOther _ \<Rightarrow> False | _ \<Rightarrow> True)"

definition storage_accounting_charge ::
  "nat \<Rightarrow> storage_class \<Rightarrow> u64 \<Rightarrow> u64 \<Rightarrow> (ledger_error, u64) result" where
  "storage_accounting_charge version class logical observed =
     (if version \<noteq> CurrentStorageAccountingVersion \<or> \<not> storage_class_valid class
      then Inl ErrStorageLedgerInput
      else if observed > logical then Inr observed else Inr logical)"

datatype artifact_lifecycle = ArtifactAccepted | ArtifactAccountingUncertain | LifecycleOther bytes

record owned_artifact =
  oa_artifact :: bytes
  oa_owner_kind :: bytes
  oa_owner :: bytes
  oa_operation :: bytes
  oa_reservation :: bytes
  oa_repository :: "bytes option"
  oa_class :: storage_class
  oa_lifecycle :: artifact_lifecycle
  oa_logical :: u64
  oa_observed :: u64
  oa_charged :: u64
  oa_volume :: bytes
  oa_manifest_hash :: bytes
  oa_accounting_version :: nat
  oa_policy_version :: nat
  oa_complete :: bool
  oa_created :: instant

definition owned_artifact_valid :: "owned_artifact \<Rightarrow> bool" where
  "owned_artifact_valid a \<longleftrightarrow>
     stable_storage_text (oa_artifact a) \<and> valid_owner_kind (oa_owner_kind a)
     \<and> stable_storage_text (oa_owner a) \<and> oa_operation a \<noteq> []
     \<and> stable_storage_text (oa_reservation a) \<and> storage_class_valid (oa_class a)
     \<and> oa_lifecycle a \<in> {ArtifactAccepted, ArtifactAccountingUncertain}
     \<and> stable_storage_text (oa_volume a) \<and> storage_sha256_text (oa_manifest_hash a)
     \<and> oa_accounting_version a = CurrentStorageAccountingVersion \<and> oa_policy_version a \<noteq> 0
     \<and> \<not> is_zero_time (oa_created a)
     \<and> (oa_lifecycle a = ArtifactAccepted \<longrightarrow> oa_complete a)
     \<and> (oa_lifecycle a = ArtifactAccountingUncertain \<longrightarrow> \<not> oa_complete a)
     \<and> storage_accounting_charge (oa_accounting_version a) (oa_class a) (oa_logical a) (oa_observed a)
         = Inr (oa_charged a)"

subsection \<open>Requests\<close>

record reservation_record =
  rr_reservation :: reservation
  rr_owner_kind :: bytes
  rr_owner :: bytes
  rr_plan :: capacity_plan
  rr_key :: bytes
  rr_created :: instant

definition reservation_record_valid :: "reservation_record \<Rightarrow> bool" where
  "reservation_record_valid r \<longleftrightarrow>
     rs_marker (rr_reservation r) \<noteq> []
     \<and> rs_operation (rr_reservation r) = cp_operation (rr_plan r)
     \<and> rs_policy_version (rr_reservation r) = cp_policy_version (rr_plan r)
     \<and> rs_plan_digest (rr_reservation r) \<noteq> [] \<and> valid_owner_kind (rr_owner_kind r)
     \<and> stable_storage_text (rr_owner r) \<and> stable_storage_text (rr_key r)
     \<and> \<not> is_zero_time (rr_created r)
     \<and> rs_repository (rr_reservation r)
         = (case cp_repository (rr_plan r) of None \<Rightarrow> [] | Some i \<Rightarrow> i)
     \<and> plan_digest (rr_plan r) = Inr (rs_plan_digest (rr_reservation r))
     \<and> cp_peaks (rr_plan r) \<noteq> []
     \<and> (\<forall>p \<in> set (cp_peaks (rr_plan r)). vp_id p \<noteq> [] \<and> is_ok (peak_charge p))"

record reservation_release =
  rl_reservation :: bytes
  rl_key :: bytes
  rl_expected_revision :: u64

definition reservation_release_valid :: "reservation_release \<Rightarrow> bool" where
  "reservation_release_valid r \<longleftrightarrow>
     stable_storage_text (rl_reservation r) \<and> stable_storage_text (rl_key r)"

record reservation_settlement =
  se_reservation :: bytes
  se_key :: bytes
  se_expected_revision :: u64
  se_artifacts :: "owned_artifact list"

fun settlement_artifacts_ok :: "bytes \<Rightarrow> bytes set \<Rightarrow> owned_artifact list \<Rightarrow> bool" where
  "settlement_artifacts_ok rid seen [] = True"
| "settlement_artifacts_ok rid seen (a # as) =
     (owned_artifact_valid a \<and> oa_reservation a = rid \<and> oa_artifact a \<notin> seen
      \<and> settlement_artifacts_ok rid (insert (oa_artifact a) seen) as)"

definition reservation_settlement_valid :: "reservation_settlement \<Rightarrow> bool" where
  "reservation_settlement_valid s \<longleftrightarrow>
     stable_storage_text (se_reservation s) \<and> stable_storage_text (se_key s)
     \<and> se_artifacts s \<noteq> [] \<and> settlement_artifacts_ok (se_reservation s) {} (se_artifacts s)"

lemma settlement_artifacts_ok_iff:
  "settlement_artifacts_ok rid seen as \<longleftrightarrow>
     distinct (map oa_artifact as) \<and> oa_artifact ` set as \<inter> seen = {}
     \<and> (\<forall>a \<in> set as. owned_artifact_valid a \<and> oa_reservation a = rid)"
  by (induction as arbitrary: seen) auto

subsection \<open>Totals, queries and pressure\<close>

datatype reservation_state = ReservationActive | ReservationConsumed | ReservationReleased

record storage_totals =
  to_repository :: "bytes option"
  to_logical :: u64
  to_observed :: u64
  to_charged :: u64
  to_reserved :: u64
  to_uncertain :: u64
  to_revision :: u64

definition zero_totals :: "bytes option \<Rightarrow> storage_totals" where
  "zero_totals scope =
     \<lparr> to_repository = scope, to_logical = 0, to_observed = 0, to_charged = 0, to_reserved = 0,
       to_uncertain = 0, to_revision = 0 \<rparr>"

definition DefaultStorageLedgerPage :: nat where "DefaultStorageLedgerPage = 100"
definition MaxStorageLedgerPage :: nat where "MaxStorageLedgerPage = 1000"

record ledger_query =
  lq_repository :: "bytes option"
  lq_limit :: nat
  lq_include_reservations :: bool
  lq_include_artifacts :: bool

definition ledger_query_valid :: "ledger_query \<Rightarrow> bool" where
  "ledger_query_valid q \<longleftrightarrow>
     lq_repository q \<noteq> Some [] \<and> lq_limit q \<noteq> 0 \<and> lq_limit q \<le> MaxStorageLedgerPage"

datatype storage_decision =
    StorageDecisionAllowed | StorageDecisionSoftPressure | StorageDecisionHardPressure
  | StorageDecisionAccountingUncertain

record pressure_state =
  ps_repository_pressure :: "storage_pressure option"
  ps_global_pressure :: "storage_pressure option"
  ps_reservation :: storage_decision
  ps_publication :: storage_decision
  ps_uncertain :: bool

text \<open>An artifact is charged the larger of what it declares and what was observed.\<close>

lemma charge_is_max:
  "owned_artifact_valid a \<Longrightarrow> oa_charged a = max (oa_logical a) (oa_observed a)"
  by (auto simp: owned_artifact_valid_def storage_accounting_charge_def max_def split: if_splits)

end
