(* ===== verification/Storage_Ledger.thy ===== *)
theory Storage_Ledger
  imports Storage_Records
begin

text \<open>
  The owned-storage ledger: \<^verbatim>\<open>internal/store/sqlite/owned_storage.go\<close> and the ledger part of the
  repository purge in \<^verbatim>\<open>cleanup.go\<close>. The tables of \<^verbatim>\<open>0002_owned_storage.sql\<close> are the fields of
  a record: rows in insertion order where the code lists or sums them, maps where it only looks up
  a primary key. A statement a constraint of the schema refuses fails the transaction, and a failed
  transaction leaves the ledger as it was.
\<close>

subsection \<open>Tables\<close>

record reservation_row =
  rw_reservation :: bytes
  rw_owner_kind :: bytes
  rw_owner :: bytes
  rw_operation :: bytes
  rw_repository :: "bytes option"
  rw_plan_digest :: bytes
  rw_policy_version :: nat
  rw_accounting_version :: nat
  rw_state :: reservation_state
  rw_retained :: u64
  rw_key :: bytes
  rw_created :: instant

record volume_row =
  vr_reservation :: bytes
  vr_volume :: bytes
  vr_peak :: u64
  vr_retained :: u64

datatype ledger_kind = LedgerReserve | LedgerSettle | LedgerRelease

record ledger =
  lg_reservations :: "reservation_row list"
  lg_volumes :: "volume_row list"
  lg_artifacts :: "owned_artifact list"
  lg_totals :: "bytes option \<Rightarrow> storage_totals option"
  lg_operations :: "ledger_kind \<times> bytes \<Rightarrow> (bytes \<times> bytes) option"

definition empty_ledger :: ledger where
  "empty_ledger =
     \<lparr> lg_reservations = [], lg_volumes = [], lg_artifacts = [], lg_totals = (\<lambda>_. None),
       lg_operations = (\<lambda>_. None) \<rparr>"

type_synonym 'a ledger_result = "(ledger_error, 'a) result"

subsection \<open>Checked sums\<close>

definition MaxInt64 :: u64 where "MaxInt64 = 9223372036854775807"

definition add_storage :: "u64 \<Rightarrow> u64 \<Rightarrow> u64 ledger_result" where
  "add_storage a b = (if b > MaxUint64 - a then Inl ErrStorageLedgerInput else Inr (a + b))"

definition storage_subtract :: "u64 \<Rightarrow> u64 \<Rightarrow> u64 ledger_result" where
  "storage_subtract a b = (if b > a then Inl ErrStorageLedgerConflict else Inr (a - b))"

definition ensure_sqlite_bytes :: "u64 list \<Rightarrow> unit ledger_result" where
  "ensure_sqlite_bytes vs =
     (if \<exists>v \<in> set vs. v > MaxInt64 then Inl ErrStorageLedgerInput else Inr ())"

fun add_all :: "u64 \<Rightarrow> u64 list \<Rightarrow> u64 ledger_result" where
  "add_all acc [] = Inr acc"
| "add_all acc (v # vs) = bind_result (add_storage acc v) (\<lambda>acc'. add_all acc' vs)"

text \<open>The volumes of a plan, with the retained parts adding up to the plan's.\<close>

fun ledger_volumes :: "u64 \<Rightarrow> volume_peak list \<Rightarrow> (u64 \<times> (bytes \<times> u64 \<times> u64) list) ledger_result" where
  "ledger_volumes retained [] = Inr (retained, [])"
| "ledger_volumes retained (p # ps) =
     (case peak_charge p of
        Inl _ \<Rightarrow> Inl ErrStorageLedgerInput
      | Inr charge \<Rightarrow>
          bind_result (add_storage retained (pk_retained_delta p)) (\<lambda>retained'.
          bind_result (ledger_volumes retained' ps) (\<lambda>(acc, vs).
            Inr (acc, (vp_id p, charge, pk_retained_delta p) # vs))))"

definition reservation_volumes :: "capacity_plan \<Rightarrow> (bytes \<times> u64 \<times> u64) list ledger_result" where
  "reservation_volumes plan =
     bind_result (ledger_volumes 0 (cp_peaks plan)) (\<lambda>(retained, vs).
       if retained \<noteq> cp_retained_delta plan then Inl ErrStorageLedgerInput else Inr vs)"

subsection \<open>Totals\<close>

definition load_one_total :: "ledger \<Rightarrow> bytes option \<Rightarrow> storage_totals" where
  "load_one_total g scope =
     (case lg_totals g scope of None \<Rightarrow> zero_totals scope | Some t \<Rightarrow> t\<lparr>to_repository := scope\<rparr>)"

definition load_totals :: "ledger \<Rightarrow> bytes option \<Rightarrow> storage_totals \<times> storage_totals option" where
  "load_totals g repository =
     (load_one_total g None,
      case repository of None \<Rightarrow> None | Some r \<Rightarrow> Some (load_one_total g (Some r)))"

definition save_totals :: "ledger \<Rightarrow> storage_totals \<Rightarrow> ledger ledger_result" where
  "save_totals g t =
     (if \<not> is_ok (ensure_sqlite_bytes [to_logical t, to_observed t, to_charged t, to_reserved t])
        \<or> to_uncertain t > MaxInt64 \<or> to_revision t > MaxInt64
      then Inl ErrStorageLedgerInput
      else Inr (g\<lparr>lg_totals := (lg_totals g)(to_repository t \<mapsto> t)\<rparr>))"

definition save_both :: "ledger \<Rightarrow> storage_totals \<Rightarrow> storage_totals option \<Rightarrow> ledger ledger_result" where
  "save_both g global repository =
     bind_result (save_totals g global) (\<lambda>g.
       case repository of None \<Rightarrow> Inr g | Some t \<Rightarrow> save_totals g t)"

definition next_revision :: "storage_totals \<Rightarrow> storage_totals option \<Rightarrow> u64 ledger_result" where
  "next_revision global repository =
     (let current = (case repository of
                       None \<Rightarrow> to_revision global
                     | Some t \<Rightarrow> if to_revision t > to_revision global then to_revision t
                               else to_revision global)
      in if current = MaxUint64 then Inl ErrStorageLedgerInput else Inr (current + 1))"

text \<open>Both scopes take the same change and the same revision; a failure in either fails both.\<close>

definition update_both ::
  "(storage_totals \<Rightarrow> storage_totals ledger_result) \<Rightarrow> u64 \<Rightarrow> storage_totals \<Rightarrow> storage_totals option \<Rightarrow>
   (storage_totals \<times> storage_totals option) ledger_result" where
  "update_both f revision global repository =
     bind_result (f global) (\<lambda>global'.
       case repository of
         None \<Rightarrow> Inr (global'\<lparr>to_revision := revision\<rparr>, None)
       | Some t \<Rightarrow> bind_result (f t) (\<lambda>t'.
           Inr (global'\<lparr>to_revision := revision\<rparr>, Some (t'\<lparr>to_revision := revision\<rparr>))))"

definition scope_uncertain :: "storage_totals \<Rightarrow> storage_totals option \<Rightarrow> bool" where
  "scope_uncertain global repository \<longleftrightarrow>
     to_uncertain global > 0 \<or> (case repository of None \<Rightarrow> False | Some t \<Rightarrow> to_uncertain t > 0)"

definition growth_within :: "storage_totals \<Rightarrow> u64 \<Rightarrow> u64 \<Rightarrow> unit ledger_result" where
  "growth_within t retained soft =
     bind_result (add_storage (to_charged t) (to_reserved t)) (\<lambda>used.
     bind_result (add_storage used retained) (\<lambda>projected.
       if projected \<ge> soft then Inl ErrStoragePublicationBlocked else Inr ()))"

definition check_growth_allowed ::
  "storage_totals \<Rightarrow> storage_totals option \<Rightarrow> u64 \<Rightarrow> unit ledger_result" where
  "check_growth_allowed global repository retained =
     (if retained = 0 then Inr ()
      else if scope_uncertain global repository then Inl ErrStoragePublicationBlocked
      else bind_result (growth_within global retained
                          (st_global_soft_bytes (rp_storage default_resource_policy))) (\<lambda>_.
        case repository of
          None \<Rightarrow> Inr ()
        | Some t \<Rightarrow> growth_within t retained
                      (st_repository_soft_bytes (rp_storage default_resource_policy))))"

definition settlement_within ::
  "storage_totals \<Rightarrow> u64 \<Rightarrow> u64 \<Rightarrow> u64 \<Rightarrow> u64 \<Rightarrow> unit ledger_result" where
  "settlement_within t reserved added hard soft =
     bind_result (storage_subtract (to_reserved t) reserved) (\<lambda>left.
     bind_result (add_storage (to_charged t) left) (\<lambda>used.
     bind_result (add_storage used added) (\<lambda>used'.
       if used' \<ge> hard \<or> used' \<ge> soft then Inl ErrStoragePublicationBlocked else Inr ())))"

definition check_settlement_allowed ::
  "storage_totals \<Rightarrow> storage_totals option \<Rightarrow> u64 \<Rightarrow> u64 \<Rightarrow> unit ledger_result" where
  "check_settlement_allowed global repository reserved added =
     (let s = rp_storage default_resource_policy in
      if scope_uncertain global repository then Inl ErrStoragePublicationBlocked
      else bind_result (settlement_within global reserved added
                          (st_global_hard_bytes s) (st_global_soft_bytes s)) (\<lambda>_.
        case repository of
          None \<Rightarrow> Inr ()
        | Some t \<Rightarrow> settlement_within t reserved added
                      (st_repository_hard_bytes s) (st_repository_soft_bytes s)))"

subsection \<open>Idempotency\<close>

definition reservation_request_hash :: "reservation_record \<Rightarrow> bytes" where
  "reservation_request_hash r =
     sha256_hex (digest_string (rs_marker (rr_reservation r)) @ digest_string (rr_owner_kind r)
       @ digest_string (rr_owner r) @ digest_string (cp_operation (rr_plan r))
       @ digest_string (rs_plan_digest (rr_reservation r))
       @ digest_uint64 (cp_retained_delta (rr_plan r)))"

definition settlement_request_hash :: "reservation_settlement \<Rightarrow> bytes" where
  "settlement_request_hash s =
     sha256_hex (digest_string (se_reservation s)
       @ concat (map (\<lambda>a. digest_string (oa_artifact a)
            @ digest_string (storage_class_string (oa_class a)) @ digest_uint64 (oa_logical a)
            @ digest_uint64 (oa_observed a) @ digest_uint64 (oa_charged a)
            @ digest_string (oa_manifest_hash a))
          (sort_key oa_artifact (se_artifacts s))))"

definition release_request_hash :: "reservation_release \<Rightarrow> bytes" where
  "release_request_hash r = sha256_hex (digest_string (rl_reservation r))"

text \<open>Whether the request is a replay: the value says if it was handled before.\<close>

definition check_ledger_operation ::
  "ledger \<Rightarrow> ledger_kind \<Rightarrow> bytes \<Rightarrow> bytes \<Rightarrow> bytes \<Rightarrow> bool ledger_result" where
  "check_ledger_operation g kind key rid hash =
     (case lg_operations g (kind, key) of
        None \<Rightarrow> Inr False
      | Some (rid', hash') \<Rightarrow>
          if rid' \<noteq> rid \<or> hash' \<noteq> hash then Inl ErrStorageLedgerConflict else Inr True)"

definition insert_ledger_operation ::
  "ledger \<Rightarrow> ledger_kind \<Rightarrow> bytes \<Rightarrow> bytes \<Rightarrow> bytes \<Rightarrow> ledger ledger_result" where
  "insert_ledger_operation g kind key rid hash =
     (if lg_operations g (kind, key) \<noteq> None then Inl ErrLedgerConstraint
      else Inr (g\<lparr>lg_operations := (lg_operations g)((kind, key) \<mapsto> (rid, hash))\<rparr>))"

definition replay_or ::
  "ledger \<Rightarrow> ledger_kind \<Rightarrow> bytes \<Rightarrow> bytes \<Rightarrow> bytes \<Rightarrow> ledger ledger_result \<Rightarrow> ledger ledger_result" where
  "replay_or g kind key rid hash body =
     bind_result (check_ledger_operation g kind key rid hash) (\<lambda>handled.
       if handled then Inr g else body)"

subsection \<open>Transactions\<close>

text \<open>
  \<^verbatim>\<open>withLedgerTx\<close>: each attempt runs, finds the database busy, or fails; a busy database is tried
  four times. The context may end while the store waits between two attempts.
\<close>

datatype tx_attempt = TxRuns | TxBusy | TxBusyCancelled | TxFails

definition ledgerBusyRetryLimit :: nat where "ledgerBusyRetryLimit = 4"

fun ledger_tx ::
  "nat \<Rightarrow> tx_attempt list \<Rightarrow> (ledger \<Rightarrow> ledger ledger_result) \<Rightarrow> ledger \<Rightarrow> ledger \<times> unit ledger_result" where
  "ledger_tx 0 attempts body g = (g, Inl ErrLedgerIO)"
| "ledger_tx (Suc n) [] body g = (g, Inl ErrLedgerIO)"
| "ledger_tx (Suc n) (TxRuns # _) body g =
     (case body g of Inl e \<Rightarrow> (g, Inl e) | Inr g' \<Rightarrow> (g', Inr ()))"
| "ledger_tx (Suc n) (TxBusy # attempts) body g = ledger_tx n attempts body g"
| "ledger_tx (Suc n) (TxBusyCancelled # _) body g = (g, Inl ErrLedgerIO)"
| "ledger_tx (Suc n) (TxFails # _) body g = (g, Inl ErrLedgerIO)"

record ledger_env =
  en_open :: bool
  en_attempts :: "tx_attempt list"

definition with_ledger_tx ::
  "ledger_env \<Rightarrow> (ledger \<Rightarrow> ledger ledger_result) \<Rightarrow> ledger \<Rightarrow> ledger \<times> unit ledger_result" where
  "with_ledger_tx env body g = ledger_tx ledgerBusyRetryLimit (en_attempts env) body g"

subsection \<open>Recording a reservation\<close>

definition new_reservation_row :: "reservation_record \<Rightarrow> reservation_row" where
  "new_reservation_row r =
     \<lparr> rw_reservation = rs_marker (rr_reservation r), rw_owner_kind = rr_owner_kind r,
       rw_owner = rr_owner r, rw_operation = cp_operation (rr_plan r),
       rw_repository = cp_repository (rr_plan r),
       rw_plan_digest = rs_plan_digest (rr_reservation r),
       rw_policy_version = cp_policy_version (rr_plan r),
       rw_accounting_version = CurrentStorageAccountingVersion, rw_state = ReservationActive,
       rw_retained = cp_retained_delta (rr_plan r), rw_key = rr_key r, rw_created = rr_created r \<rparr>"

definition reserve_more :: "u64 \<Rightarrow> storage_totals \<Rightarrow> storage_totals ledger_result" where
  "reserve_more retained t =
     bind_result (add_storage (to_reserved t) retained) (\<lambda>v. Inr (t\<lparr>to_reserved := v\<rparr>))"

text \<open>The primary key and the unique index on the idempotency key guard the insertion.\<close>

definition insert_reservation ::
  "ledger \<Rightarrow> reservation_row \<Rightarrow> (bytes \<times> u64 \<times> u64) list \<Rightarrow> ledger ledger_result" where
  "insert_reservation g row vs =
     (if rw_reservation row \<in> rw_reservation ` set (lg_reservations g)
        \<or> rw_key row \<in> rw_key ` set (lg_reservations g)
        \<or> \<not> distinct (map fst vs)
      then Inl ErrLedgerConstraint
      else Inr (g\<lparr>lg_reservations := lg_reservations g @ [row],
                  lg_volumes := lg_volumes g @ map (\<lambda>(v, peak, retained).
                     \<lparr> vr_reservation = rw_reservation row, vr_volume = v, vr_peak = peak,
                       vr_retained = retained \<rparr>) vs\<rparr>))"

definition record_body ::
  "reservation_record \<Rightarrow> (bytes \<times> u64 \<times> u64) list \<Rightarrow> ledger \<Rightarrow> ledger ledger_result" where
  "record_body r vs g =
     (let rid = rs_marker (rr_reservation r);
          hash = reservation_request_hash r;
          retained = cp_retained_delta (rr_plan r)
      in replay_or g LedgerReserve (rr_key r) rid hash
       (if rid \<in> rw_reservation ` set (lg_reservations g) then Inl ErrStorageLedgerConflict
        else case load_totals g (cp_repository (rr_plan r)) of (global, repository) \<Rightarrow>
         bind_result (check_growth_allowed global repository retained) (\<lambda>_.
         bind_result (insert_reservation g (new_reservation_row r) vs) (\<lambda>g1.
         bind_result (next_revision global repository) (\<lambda>revision.
         bind_result (update_both (reserve_more retained) revision global repository)
           (\<lambda>(global', repository').
         bind_result (save_both g1 global' repository') (\<lambda>g2.
           insert_ledger_operation g2 LedgerReserve (rr_key r) rid hash)))))))"

definition record_reservation ::
  "ledger_env \<Rightarrow> reservation_record \<Rightarrow> ledger \<Rightarrow> ledger \<times> unit ledger_result" where
  "record_reservation env r g =
     (if \<not> en_open env then (g, Inl ErrLedgerIO)
      else if \<not> reservation_record_valid r then (g, Inl ErrStorageLedgerInput)
      else case reservation_volumes (rr_plan r) of
        Inl e \<Rightarrow> (g, Inl e)
      | Inr vs \<Rightarrow>
          if \<not> is_ok (ensure_sqlite_bytes [cp_retained_delta (rr_plan r)])
            \<or> \<not> is_ok (ensure_sqlite_bytes (concat (map (\<lambda>(v, peak, retained). [peak, retained]) vs)))
          then (g, Inl ErrStorageLedgerInput)
          else with_ledger_tx env (record_body r vs) g)"

subsection \<open>Settling a reservation\<close>

definition load_reservation :: "ledger \<Rightarrow> bytes \<Rightarrow> reservation_row ledger_result" where
  "load_reservation g rid =
     (case find (\<lambda>row. rw_reservation row = rid) (lg_reservations g) of
        None \<Rightarrow> Inl ErrStorageLedgerNotFound
      | Some row \<Rightarrow> Inr row)"

text \<open>\<^verbatim>\<open>GlobalRevision\<close> of a loaded reservation.\<close>

definition global_revision :: "ledger \<Rightarrow> u64" where
  "global_revision g = to_revision (load_one_total g None)"

fun settle_artifacts_match :: "ledger \<Rightarrow> reservation_row \<Rightarrow> owned_artifact list \<Rightarrow> bool" where
  "settle_artifacts_match g row [] = True"
| "settle_artifacts_match g row (a # as) =
     (oa_lifecycle a = ArtifactAccepted \<and> oa_operation a = rw_operation row
      \<and> oa_owner_kind a = rw_owner_kind row \<and> oa_owner a = rw_owner row
      \<and> oa_policy_version a = rw_policy_version row
      \<and> oa_accounting_version a = CurrentStorageAccountingVersion
      \<and> oa_repository a = rw_repository row
      \<and> oa_artifact a \<notin> oa_artifact ` set (lg_artifacts g)
      \<and> settle_artifacts_match g row as)"

definition reserved_too_small :: "storage_totals \<Rightarrow> storage_totals option \<Rightarrow> u64 \<Rightarrow> bool" where
  "reserved_too_small global repository retained \<longleftrightarrow>
     to_reserved global < retained
     \<or> (case repository of None \<Rightarrow> False | Some t \<Rightarrow> to_reserved t < retained)"

definition settle_scope ::
  "u64 \<Rightarrow> u64 \<Rightarrow> u64 \<Rightarrow> u64 \<Rightarrow> storage_totals \<Rightarrow> storage_totals ledger_result" where
  "settle_scope retained logical observed charged t =
     bind_result (add_storage (to_logical t) logical) (\<lambda>l.
     bind_result (add_storage (to_observed t) observed) (\<lambda>ob.
     bind_result (add_storage (to_charged t) charged) (\<lambda>c.
       Inr (t\<lparr>to_reserved := to_reserved t - retained, to_logical := l, to_observed := ob,
              to_charged := c\<rparr>))))"

definition set_reservation_state :: "bytes \<Rightarrow> reservation_state \<Rightarrow> ledger \<Rightarrow> ledger" where
  "set_reservation_state rid s g =
     g\<lparr>lg_reservations := map (\<lambda>row.
        if rw_reservation row = rid \<and> rw_state row = ReservationActive then row\<lparr>rw_state := s\<rparr>
        else row) (lg_reservations g)\<rparr>"

definition settle_body :: "reservation_settlement \<Rightarrow> ledger \<Rightarrow> ledger ledger_result" where
  "settle_body s g =
     (let rid = se_reservation s; hash = settlement_request_hash s in
      replay_or g LedgerSettle (se_key s) rid hash
       (bind_result (load_reservation g rid) (\<lambda>row.
        if rw_state row \<noteq> ReservationActive then Inl ErrStorageLedgerConflict
        else if se_expected_revision s \<noteq> 0 \<and> se_expected_revision s \<noteq> global_revision g
        then Inl ErrStorageLedgerConflict
        else if \<not> settle_artifacts_match g row (se_artifacts s) then Inl ErrStorageLedgerConflict
        else case load_totals g (rw_repository row) of (global, repository) \<Rightarrow>
         if reserved_too_small global repository (rw_retained row) then Inl ErrStorageLedgerConflict
         else
          bind_result (add_all 0 (map oa_logical (se_artifacts s))) (\<lambda>logical.
          bind_result (add_all 0 (map oa_observed (se_artifacts s))) (\<lambda>observed.
          bind_result (add_all 0 (map oa_charged (se_artifacts s))) (\<lambda>charged.
          bind_result (check_settlement_allowed global repository (rw_retained row) charged) (\<lambda>_.
          bind_result (next_revision global repository) (\<lambda>revision.
          bind_result (update_both (settle_scope (rw_retained row) logical observed charged)
                         revision global repository) (\<lambda>(global', repository').
          bind_result (save_both (g\<lparr>lg_artifacts := lg_artifacts g @ se_artifacts s\<rparr>)
                         global' repository') (\<lambda>g2.
            insert_ledger_operation (set_reservation_state rid ReservationConsumed g2)
              LedgerSettle (se_key s) rid hash))))))))))"

definition settle_reservation ::
  "ledger_env \<Rightarrow> reservation_settlement \<Rightarrow> ledger \<Rightarrow> ledger \<times> unit ledger_result" where
  "settle_reservation env s g =
     (if \<not> en_open env then (g, Inl ErrLedgerIO)
      else if \<not> reservation_settlement_valid s then (g, Inl ErrStorageLedgerInput)
      else if \<not> is_ok (ensure_sqlite_bytes
                (concat (map (\<lambda>a. [oa_logical a, oa_observed a, oa_charged a]) (se_artifacts s))))
      then (g, Inl ErrStorageLedgerInput)
      else with_ledger_tx env (settle_body s) g)"

subsection \<open>Releasing a reservation\<close>

definition release_scope :: "u64 \<Rightarrow> storage_totals \<Rightarrow> storage_totals ledger_result" where
  "release_scope retained t = Inr (t\<lparr>to_reserved := to_reserved t - retained\<rparr>)"

definition release_body :: "reservation_release \<Rightarrow> ledger \<Rightarrow> ledger ledger_result" where
  "release_body r g =
     (let rid = rl_reservation r; hash = release_request_hash r in
      replay_or g LedgerRelease (rl_key r) rid hash
       (bind_result (load_reservation g rid) (\<lambda>row.
        if rw_state row = ReservationConsumed then Inl ErrStorageLedgerConflict
        else case load_totals g (rw_repository row) of (global, repository) \<Rightarrow>
         if rl_expected_revision r \<noteq> 0 \<and> rl_expected_revision r \<noteq> global_revision g
         then Inl ErrStorageLedgerConflict
         else if rw_state row = ReservationReleased
         then insert_ledger_operation g LedgerRelease (rl_key r) rid hash
         else if reserved_too_small global repository (rw_retained row)
         then Inl ErrStorageLedgerConflict
         else
          bind_result (next_revision global repository) (\<lambda>revision.
          bind_result (update_both (release_scope (rw_retained row)) revision global repository)
            (\<lambda>(global', repository').
          bind_result (save_both g global' repository') (\<lambda>g2.
            insert_ledger_operation (set_reservation_state rid ReservationReleased g2)
              LedgerRelease (rl_key r) rid hash))))))"

definition release_reservation ::
  "ledger_env \<Rightarrow> reservation_release \<Rightarrow> ledger \<Rightarrow> ledger \<times> unit ledger_result" where
  "release_reservation env r g =
     (if \<not> en_open env then (g, Inl ErrLedgerIO)
      else if \<not> reservation_release_valid r then (g, Inl ErrStorageLedgerInput)
      else with_ledger_tx env (release_body r) g)"

end
