(* ===== verification/Ledger_Safety.thy ===== *)
theory Ledger_Safety
  imports Storage_Ledger
begin

text \<open>
  The ledger's invariant. The totals of every scope are the sums over the rows of that scope,
  although the code only ever adds and subtracts single amounts, and what a scope has charged and
  reserved stays below its soft budget.
\<close>

subsection \<open>Sums over the rows of a scope\<close>

definition scope_covers :: "bytes option \<Rightarrow> bytes option \<Rightarrow> bool" where
  "scope_covers scope repository \<longleftrightarrow> scope = None \<or> scope = repository"

definition active_sum :: "reservation_row list \<Rightarrow> bytes option \<Rightarrow> nat" where
  "active_sum rows scope =
     sum_list (map (\<lambda>r. if rw_state r = ReservationActive \<and> scope_covers scope (rw_repository r)
                       then unat (rw_retained r) else 0) rows)"

definition artifact_sum :: "(owned_artifact \<Rightarrow> u64) \<Rightarrow> owned_artifact list \<Rightarrow> bytes option \<Rightarrow> nat" where
  "artifact_sum f as scope =
     sum_list (map (\<lambda>a. if scope_covers scope (oa_repository a) then unat (f a) else 0) as)"

definition totals_exact :: "ledger \<Rightarrow> bytes option \<Rightarrow> bool" where
  "totals_exact g scope \<longleftrightarrow>
     (let t = load_one_total g scope in
      unat (to_reserved t) = active_sum (lg_reservations g) scope
      \<and> unat (to_logical t) = artifact_sum oa_logical (lg_artifacts g) scope
      \<and> unat (to_observed t) = artifact_sum oa_observed (lg_artifacts g) scope
      \<and> unat (to_charged t) = artifact_sum oa_charged (lg_artifacts g) scope
      \<and> to_uncertain t = 0)"

text \<open>The soft budgets of the default policy: 128 GiB overall, 32 GiB for one repository.\<close>

definition soft_budget :: "bytes option \<Rightarrow> nat" where
  "soft_budget scope = (case scope of None \<Rightarrow> 128 * 2 ^ 30 | Some _ \<Rightarrow> 32 * 2 ^ 30)"

definition scope_used :: "ledger \<Rightarrow> bytes option \<Rightarrow> nat" where
  "scope_used g scope =
     active_sum (lg_reservations g) scope + artifact_sum oa_charged (lg_artifacts g) scope"

definition ledger_ok :: "ledger \<Rightarrow> bool" where
  "ledger_ok g \<longleftrightarrow>
     distinct (map rw_reservation (lg_reservations g)) \<and> distinct (map oa_artifact (lg_artifacts g))
     \<and> (\<forall>scope. totals_exact g scope \<and> scope_used g scope < soft_budget scope)"

lemma active_sum_simps [simp]:
  "active_sum [] scope = 0"
  "active_sum (r # rows) scope =
     (if rw_state r = ReservationActive \<and> scope_covers scope (rw_repository r)
      then unat (rw_retained r) else 0) + active_sum rows scope"
  "active_sum (rows @ rows') scope = active_sum rows scope + active_sum rows' scope"
  by (simp_all add: active_sum_def)

lemma artifact_sum_simps [simp]:
  "artifact_sum f [] scope = 0"
  "artifact_sum f (as @ as') scope = artifact_sum f as scope + artifact_sum f as' scope"
  by (simp_all add: artifact_sum_def)

lemma artifact_sum_same:
  "\<forall>a \<in> set as. oa_repository a = repository \<Longrightarrow>
     artifact_sum f as scope
       = (if scope_covers scope repository then sum_list (map (\<lambda>a. unat (f a)) as) else 0)"
  by (induction as) (auto simp: artifact_sum_def)

lemma empty_ledger_ok: "ledger_ok empty_ledger"
  by (simp add: ledger_ok_def empty_ledger_def totals_exact_def load_one_total_def zero_totals_def
      scope_used_def soft_budget_def split: option.split)

subsection \<open>Exact arithmetic\<close>

lemma add_storage_exact:
  "add_storage a b = (if unat a + unat b < 2 ^ 64 then Inr (a + b) else Inl ErrStorageLedgerInput)"
  by (simp add: add_storage_def add_guard not_less)

lemma add_storage_Inr:
  "add_storage a b = Inr c \<Longrightarrow> unat c = unat a + unat b"
  by (auto simp: add_storage_exact unat_add_fits split: if_splits)

lemma storage_subtract_Inr:
  "storage_subtract a b = Inr c \<Longrightarrow> unat b \<le> unat a \<and> unat c = unat a - unat b"
  by (auto simp: storage_subtract_def word_less_nat_alt unat_sub word_le_nat_alt not_less split: if_splits)

lemma add_all_Inr: "add_all acc vs = Inr c \<Longrightarrow> unat c = unat acc + sum_list (map unat vs)"
  by (induction vs arbitrary: acc) (auto dest: add_storage_Inr)

subsection \<open>Both scopes move together\<close>

lemma load_one_total_scope [simp]: "to_repository (load_one_total g scope) = scope"
  by (simp add: load_one_total_def zero_totals_def split: option.split)

lemma save_totals_Inr:
  "save_totals g t = Inr g' \<Longrightarrow> g' = g\<lparr>lg_totals := (lg_totals g)(to_repository t \<mapsto> t)\<rparr>"
  by (auto simp: save_totals_def split: if_splits)

lemma load_saved:
  "load_one_total (g\<lparr>lg_totals := (lg_totals g)(to_repository t \<mapsto> t)\<rparr>) scope
     = (if scope = to_repository t then t else load_one_total g scope)"
  by (simp add: load_one_total_def)

lemma totals_moved:
  assumes load: "load_totals g r = (global, repository)"
    and upd: "update_both f revision global repository = Inr (global', repository')"
    and save: "save_both g1 global' repository' = Inr g2"
    and same: "lg_totals g1 = lg_totals g"
    and keeps: "\<And>t t'. f t = Inr t' \<Longrightarrow> to_repository t' = to_repository t"
  shows "lg_reservations g2 = lg_reservations g1 \<and> lg_artifacts g2 = lg_artifacts g1
    \<and> lg_operations g2 = lg_operations g1
    \<and> (\<forall>scope. if scope_covers scope r
         then \<exists>t. f (load_one_total g scope) = Inr t \<and> load_one_total g2 scope = t\<lparr>to_revision := revision\<rparr>
         else load_one_total g2 scope = load_one_total g scope)"
proof -
  have loads: "load_one_total g1 scope = load_one_total g scope" for scope
    by (simp add: load_one_total_def same)
  from upd load obtain t where t: "f (load_one_total g None) = Inr t" "global' = t\<lparr>to_revision := revision\<rparr>"
    by (auto simp: update_both_def load_totals_def split: option.splits)
  then have scope_t: "to_repository t = None"
    using keeps by fastforce
  show ?thesis
  proof (cases r)
    case None
    then have "repository' = None"
      using upd load by (auto simp: update_both_def load_totals_def)
    then have "save_totals g1 global' = Inr g2"
      using save by (auto simp: save_both_def)
    from save_totals_Inr [OF this] show ?thesis
      using None t scope_t loads
      by (auto simp: load_saved scope_covers_def load_one_total_def same)
  next
    case (Some i)
    from upd load Some obtain u where
      u: "f (load_one_total g (Some i)) = Inr u" "repository' = Some (u\<lparr>to_revision := revision\<rparr>)"
      by (auto simp: update_both_def load_totals_def)
    then have scope_u: "to_repository u = Some i"
      using keeps by fastforce
    from save u obtain g3 where "save_totals g1 global' = Inr g3"
      and "save_totals g3 (u\<lparr>to_revision := revision\<rparr>) = Inr g2"
      by (auto simp: save_both_def)
    from save_totals_Inr [OF this(1)] save_totals_Inr [OF this(2)] show ?thesis
      using Some t u scope_t scope_u loads
      by (auto simp: scope_covers_def load_one_total_def same)
  qed
qed

subsection \<open>Budgets\<close>

lemma global_budget: "unat (st_global_soft_bytes (rp_storage default_resource_policy)) = soft_budget None"
  by (simp add: default_resource_policy_def GiB_def MiB_def KiB_def soft_budget_def)

lemma repository_budget:
  "unat (st_repository_soft_bytes (rp_storage default_resource_policy)) = soft_budget (Some i)"
  by (simp add: default_resource_policy_def GiB_def MiB_def KiB_def soft_budget_def)

lemma growth_within_Inr:
  "growth_within t retained soft = Inr () \<Longrightarrow>
     unat (to_charged t) + unat (to_reserved t) + unat retained < unat soft"
  by (auto simp: growth_within_def word_less_nat_alt not_le dest!: add_storage_Inr split: if_splits)

lemma growth_allowed:
  assumes "check_growth_allowed global repository retained = Inr ()" "retained \<noteq> 0"
    and "load_totals g r = (global, repository)" "scope_covers scope r"
  shows "unat (to_charged (load_one_total g scope)) + unat (to_reserved (load_one_total g scope))
    + unat retained < soft_budget scope"
proof (cases scope)
  case None
  have "growth_within global retained (st_global_soft_bytes (rp_storage default_resource_policy)) = Inr ()"
    using assms(1,2) by (auto simp: check_growth_allowed_def split: if_splits)
  moreover have "global = load_one_total g None"
    using assms(3) by (simp add: load_totals_def)
  ultimately show ?thesis
    using None growth_within_Inr [of global retained "st_global_soft_bytes (rp_storage default_resource_policy)"]
      global_budget by simp
next
  case (Some i)
  then have "repository = Some (load_one_total g (Some i))"
    using assms(3,4) by (auto simp: load_totals_def scope_covers_def)
  then have "growth_within (load_one_total g (Some i)) retained
      (st_repository_soft_bytes (rp_storage default_resource_policy)) = Inr ()"
    using assms(1,2) by (auto simp: check_growth_allowed_def split: if_splits)
  then show ?thesis
    using Some growth_within_Inr repository_budget [of i] by metis
qed

lemma settlement_within_Inr:
  "settlement_within t reserved added hard soft = Inr () \<Longrightarrow>
     unat reserved \<le> unat (to_reserved t) \<and>
     unat (to_charged t) + unat (to_reserved t) + unat added < unat soft + unat reserved"
  by (auto simp: settlement_within_def word_less_nat_alt not_le
      dest!: add_storage_Inr storage_subtract_Inr split: if_splits)

lemma settlement_allowed:
  assumes "check_settlement_allowed global repository reserved added = Inr ()"
    and "load_totals g r = (global, repository)" "scope_covers scope r"
  shows "unat reserved \<le> unat (to_reserved (load_one_total g scope)) \<and>
    unat (to_charged (load_one_total g scope)) + unat (to_reserved (load_one_total g scope))
      + unat added < soft_budget scope + unat reserved"
proof (cases scope)
  case None
  have "settlement_within global reserved added (st_global_hard_bytes (rp_storage default_resource_policy))
      (st_global_soft_bytes (rp_storage default_resource_policy)) = Inr ()"
    using assms(1) by (auto simp: check_settlement_allowed_def Let_def split: if_splits)
  moreover have "global = load_one_total g None"
    using assms(2) by (simp add: load_totals_def)
  ultimately show ?thesis
    using None settlement_within_Inr [of global reserved added
        "st_global_hard_bytes (rp_storage default_resource_policy)"
        "st_global_soft_bytes (rp_storage default_resource_policy)"] global_budget by simp
next
  case (Some i)
  then have "repository = Some (load_one_total g (Some i))"
    using assms(2,3) by (auto simp: load_totals_def scope_covers_def)
  then have "settlement_within (load_one_total g (Some i)) reserved added
      (st_repository_hard_bytes (rp_storage default_resource_policy))
      (st_repository_soft_bytes (rp_storage default_resource_policy)) = Inr ()"
    using assms(1) by (auto simp: check_settlement_allowed_def Let_def split: if_splits)
  then show ?thesis
    using Some settlement_within_Inr repository_budget [of i] by metis
qed

subsection \<open>Recording keeps the invariant\<close>

lemma ledger_okI:
  assumes "distinct (map rw_reservation (lg_reservations g))" "distinct (map oa_artifact (lg_artifacts g))"
    and "\<And>scope. totals_exact g scope" "\<And>scope. scope_used g scope < soft_budget scope"
  shows "ledger_ok g"
  using assms by (simp add: ledger_ok_def)

lemma ledger_okD:
  assumes "ledger_ok g"
  shows "distinct (map rw_reservation (lg_reservations g))" "distinct (map oa_artifact (lg_artifacts g))"
    "totals_exact g scope" "scope_used g scope < soft_budget scope"
  using assms by (auto simp: ledger_ok_def)

lemma insert_ledger_operation_Inr:
  "insert_ledger_operation g kind key rid hash = Inr g' \<Longrightarrow>
     lg_reservations g' = lg_reservations g \<and> lg_artifacts g' = lg_artifacts g
     \<and> lg_totals g' = lg_totals g \<and> lg_operations g' = (lg_operations g)((kind, key) \<mapsto> (rid, hash))"
  by (auto simp: insert_ledger_operation_def split: if_splits)

lemma ledger_ok_same:
  assumes "ledger_ok g" "lg_reservations g' = lg_reservations g" "lg_artifacts g' = lg_artifacts g"
    "lg_totals g' = lg_totals g"
  shows "ledger_ok g'"
  using assms by (simp add: ledger_ok_def totals_exact_def scope_used_def load_one_total_def)

lemma replay_or_Inr:
  "replay_or g kind key rid hash body = Inr g' \<Longrightarrow>
     g' = g \<and> lg_operations g (kind, key) = Some (rid, hash)
     \<or> body = Inr g' \<and> lg_operations g (kind, key) = None"
  by (auto simp: replay_or_def check_ledger_operation_def split: option.splits if_splits)

lemma used_is_loaded:
  assumes "totals_exact g scope"
  shows "scope_used g scope
    = unat (to_charged (load_one_total g scope)) + unat (to_reserved (load_one_total g scope))"
  using assms by (simp add: totals_exact_def scope_used_def Let_def)

lemma record_body_ok:
  assumes "ledger_ok g" "record_body r vs g = Inr g'"
  shows "ledger_ok g'"
proof -
  let ?rid = "rs_marker (rr_reservation r)" and ?repo = "cp_repository (rr_plan r)"
    and ?retained = "cp_retained_delta (rr_plan r)"
  let ?row = "new_reservation_row r"
  consider "g' = g"
    | global repository g1 revision global' repository' g2 where
        "load_totals g ?repo = (global, repository)" "check_growth_allowed global repository ?retained = Inr ()"
        "insert_reservation g ?row vs = Inr g1" "next_revision global repository = Inr revision"
        "update_both (reserve_more ?retained) revision global repository = Inr (global', repository')"
        "save_both g1 global' repository' = Inr g2"
        "insert_ledger_operation g2 LedgerReserve (rr_key r) ?rid (reservation_request_hash r) = Inr g'"
    using replay_or_Inr [OF assms(2) [unfolded record_body_def Let_def]]
    by (auto split: if_splits prod.splits)
  then show ?thesis
  proof cases
    case 1
    then show ?thesis using assms(1) by simp
  next
    case 2
    have g1: "lg_reservations g1 = lg_reservations g @ [?row]" "lg_artifacts g1 = lg_artifacts g"
        "lg_totals g1 = lg_totals g" "rw_reservation ?row \<notin> rw_reservation ` set (lg_reservations g)"
      using 2(3) by (auto simp: insert_reservation_def split: if_splits)
    have row: "rw_state ?row = ReservationActive" "rw_repository ?row = ?repo" "rw_retained ?row = ?retained"
      by (simp_all add: new_reservation_row_def)
    have keeps: "\<And>t t'. reserve_more ?retained t = Inr t' \<Longrightarrow> to_repository t' = to_repository t"
      by (auto simp: reserve_more_def)
    note moved = totals_moved [OF 2(1,5,6) g1(3) keeps]
    have res: "lg_reservations g2 = lg_reservations g @ [?row]" and art: "lg_artifacts g2 = lg_artifacts g"
      using moved g1 by simp_all
    have "ledger_ok g2"
    proof (rule ledger_okI)
      show "distinct (map rw_reservation (lg_reservations g2))"
        using g1(4) ledger_okD(1) [OF assms(1)] by (simp add: res)
      show "distinct (map oa_artifact (lg_artifacts g2))"
        using ledger_okD(2) [OF assms(1)] by (simp add: art)
      fix scope
      have exact: "totals_exact g scope" and used: "scope_used g scope < soft_budget scope"
        using ledger_okD [OF assms(1)] by auto
      have sums: "active_sum (lg_reservations g2) scope = active_sum (lg_reservations g) scope
          + (if scope_covers scope ?repo then unat ?retained else 0)"
        by (simp add: res row)
      show "totals_exact g2 scope"
      proof (cases "scope_covers scope ?repo")
        case True
        then obtain t where "reserve_more ?retained (load_one_total g scope) = Inr t"
            "load_one_total g2 scope = t\<lparr>to_revision := revision\<rparr>"
          using moved by metis
        then show ?thesis
          using exact sums True art
          by (auto simp: totals_exact_def Let_def reserve_more_def dest!: add_storage_Inr)
      next
        case False
        then have "load_one_total g2 scope = load_one_total g scope"
          using moved by metis
        then show ?thesis
          using exact sums False art by (simp add: totals_exact_def)
      qed
      show "scope_used g2 scope < soft_budget scope"
      proof (cases "scope_covers scope ?repo \<and> ?retained \<noteq> 0")
        case True
        then show ?thesis
          using growth_allowed [OF 2(2) _ 2(1), of scope] used_is_loaded [OF exact] sums art
          unfolding scope_used_def by simp
      next
        case False
        then show ?thesis
          using used sums art by (auto simp: scope_used_def split: if_splits)
      qed
    qed
    then show ?thesis
      using insert_ledger_operation_Inr [OF 2(7)] ledger_ok_same by metis
  qed
qed

subsection \<open>Settling and releasing keep the invariant\<close>

lemma load_reservation_Inr:
  "load_reservation g rid = Inr row \<Longrightarrow> row \<in> set (lg_reservations g) \<and> rw_reservation row = rid"
  by (auto simp: load_reservation_def find_Some_iff split: option.splits)

lemma state_changed_rows:
  assumes "distinct (map rw_reservation rows)" "row \<in> set rows" "rw_reservation row = rid"
    "rw_state row = ReservationActive" "s \<noteq> ReservationActive"
  shows "active_sum (map (\<lambda>row. if rw_reservation row = rid \<and> rw_state row = ReservationActive
            then row\<lparr>rw_state := s\<rparr> else row) rows) scope
      + (if scope_covers scope (rw_repository row) then unat (rw_retained row) else 0)
    = active_sum rows scope"
proof -
  have untouched: "map (\<lambda>row. if rw_reservation row = rid \<and> rw_state row = ReservationActive
            then row\<lparr>rw_state := s\<rparr> else row) xs = xs" if "rid \<notin> rw_reservation ` set xs" for xs
    using that by (intro map_idI) auto
  show ?thesis
    using assms(1,2)
  proof (induction rows)
    case (Cons r rows)
    show ?case
    proof (cases "r = row")
      case True
      then have "rid \<notin> rw_reservation ` set rows"
        using Cons.prems(1) assms(3) by auto
      then show ?thesis
        using True assms(3-5) by (simp add: untouched)
    next
      case False
      then have "row \<in> set rows" "rw_reservation r \<noteq> rid"
        using Cons.prems assms(3) by auto
      then show ?thesis
        using Cons.IH Cons.prems(1) by simp
    qed
  qed simp
qed

lemma state_changed_ids:
  "map rw_reservation (lg_reservations (set_reservation_state rid s g)) = map rw_reservation (lg_reservations g)"
  by (simp add: set_reservation_state_def comp_def if_distrib cong: if_cong)

lemma set_reservation_state_fields [simp]:
  "lg_artifacts (set_reservation_state rid s g) = lg_artifacts g"
  "load_one_total (set_reservation_state rid s g) scope = load_one_total g scope"
  by (simp_all add: set_reservation_state_def load_one_total_def)

text \<open>
  The common step of settling and releasing: the reservation's amount leaves the reserved totals of
  its scopes and the artifacts it turned into enter the others.
\<close>

lemma close_reservation_ok:
  assumes ok: "ledger_ok g"
    and row: "row \<in> set (lg_reservations g)" "rw_reservation row = rid" "rw_state row = ReservationActive"
    and load: "load_totals g (rw_repository row) = (global, repository)"
    and small: "\<not> reserved_too_small global repository (rw_retained row)"
    and upd: "update_both f revision global repository = Inr (global', repository')"
    and save: "save_both (g\<lparr>lg_artifacts := lg_artifacts g @ as\<rparr>) global' repository' = Inr g2"
    and f: "\<And>t t'. f t = Inr t' \<Longrightarrow>
        to_repository t' = to_repository t \<and> to_uncertain t' = to_uncertain t
        \<and> to_reserved t' = to_reserved t - rw_retained row
        \<and> unat (to_logical t') = unat (to_logical t) + sum_list (map (\<lambda>a. unat (oa_logical a)) as)
        \<and> unat (to_observed t') = unat (to_observed t) + sum_list (map (\<lambda>a. unat (oa_observed a)) as)
        \<and> unat (to_charged t') = unat (to_charged t) + sum_list (map (\<lambda>a. unat (oa_charged a)) as)"
    and as: "\<forall>a \<in> set as. oa_repository a = rw_repository row"
      "distinct (map oa_artifact (lg_artifacts g @ as))"
    and budget: "\<And>scope. scope_covers scope (rw_repository row) \<Longrightarrow>
        scope_used g scope + sum_list (map (\<lambda>a. unat (oa_charged a)) as)
          < soft_budget scope + unat (rw_retained row)"
    and s: "s \<noteq> ReservationActive"
  shows "ledger_ok (set_reservation_state rid s g2)"
proof -
  let ?g = "set_reservation_state rid s g2" and ?r = "rw_repository row"
  have keeps: "\<And>t t'. f t = Inr t' \<Longrightarrow> to_repository t' = to_repository t"
    using f by blast
  note moved = totals_moved [OF load upd save _ keeps, simplified]
  have ids: "distinct (map rw_reservation (lg_reservations g))"
    by (rule ledger_okD(1) [OF ok])
  show ?thesis
  proof (rule ledger_okI)
    show "distinct (map rw_reservation (lg_reservations ?g))"
      using ids moved by (simp only: state_changed_ids)
    show "distinct (map oa_artifact (lg_artifacts ?g))"
      using as(2) moved by simp
    fix scope
    have exact: "totals_exact g scope" and used: "scope_used g scope < soft_budget scope"
      using ledger_okD [OF ok] by auto
    have active: "active_sum (lg_reservations ?g) scope
        + (if scope_covers scope ?r then unat (rw_retained row) else 0) = active_sum (lg_reservations g) scope"
      using state_changed_rows [OF ids row s, of scope] moved
      by (simp add: set_reservation_state_def)
    have art: "artifact_sum h (lg_artifacts ?g) scope = artifact_sum h (lg_artifacts g) scope
        + (if scope_covers scope ?r then sum_list (map (\<lambda>a. unat (h a)) as) else 0)" for h
      using moved artifact_sum_same [OF as(1)] by simp
    have fits: "scope_covers scope ?r \<Longrightarrow> rw_retained row \<le> to_reserved (load_one_total g scope)"
      using small load
      by (auto simp: reserved_too_small_def load_totals_def scope_covers_def not_less split: option.splits)
    show "totals_exact ?g scope"
    proof (cases "scope_covers scope ?r")
      case True
      then obtain t where t: "f (load_one_total g scope) = Inr t"
          "load_one_total g2 scope = t\<lparr>to_revision := revision\<rparr>"
        using moved by metis
      have "unat (to_reserved t) + unat (rw_retained row) = unat (to_reserved (load_one_total g scope))"
        using f [OF t(1)] fits [OF True] by (simp add: unat_sub word_le_nat_alt)
      then show ?thesis
        using f [OF t(1)] t(2) exact active art True
        by (simp add: totals_exact_def Let_def)
    next
      case False
      then have "load_one_total g2 scope = load_one_total g scope"
        using moved by metis
      then show ?thesis
        using exact active art False by (simp add: totals_exact_def)
    qed
    show "scope_used ?g scope < soft_budget scope"
    proof (cases "scope_covers scope ?r")
      case True
      then show ?thesis
        using budget [OF True] active art [of oa_charged] by (simp add: scope_used_def)
    next
      case False
      then show ?thesis
        using used active art [of oa_charged] by (simp add: scope_used_def)
    qed
  qed
qed

lemma settle_artifacts_match_iff:
  "settle_artifacts_match g row as \<longleftrightarrow>
     (\<forall>a \<in> set as. oa_lifecycle a = ArtifactAccepted \<and> oa_operation a = rw_operation row
        \<and> oa_owner_kind a = rw_owner_kind row \<and> oa_owner a = rw_owner row
        \<and> oa_policy_version a = rw_policy_version row
        \<and> oa_accounting_version a = CurrentStorageAccountingVersion
        \<and> oa_repository a = rw_repository row
        \<and> oa_artifact a \<notin> oa_artifact ` set (lg_artifacts g))"
  by (induction as) auto

lemma settle_body_ok:
  assumes "ledger_ok g" "settle_body st g = Inr g'" "distinct (map oa_artifact (se_artifacts st))"
  shows "ledger_ok g'"
proof -
  let ?as = "se_artifacts st" and ?rid = "se_reservation st"
  consider "g' = g"
    | row global repository logical observed charged revision global' repository' g2 where
        "load_reservation g ?rid = Inr row" "rw_state row = ReservationActive"
        "settle_artifacts_match g row ?as" "load_totals g (rw_repository row) = (global, repository)"
        "\<not> reserved_too_small global repository (rw_retained row)"
        "add_all 0 (map oa_logical ?as) = Inr logical" "add_all 0 (map oa_observed ?as) = Inr observed"
        "add_all 0 (map oa_charged ?as) = Inr charged"
        "check_settlement_allowed global repository (rw_retained row) charged = Inr ()"
        "update_both (settle_scope (rw_retained row) logical observed charged) revision global repository
           = Inr (global', repository')"
        "save_both (g\<lparr>lg_artifacts := lg_artifacts g @ ?as\<rparr>) global' repository' = Inr g2"
        "insert_ledger_operation (set_reservation_state ?rid ReservationConsumed g2)
           LedgerSettle (se_key st) ?rid (settlement_request_hash st) = Inr g'"
    using replay_or_Inr [OF assms(2) [unfolded settle_body_def Let_def]]
    by (auto split: if_splits prod.splits)
  then show ?thesis
  proof cases
    case 1
    then show ?thesis using assms(1) by simp
  next
    case 2
    have row: "row \<in> set (lg_reservations g)" "rw_reservation row = ?rid"
      using load_reservation_Inr [OF 2(1)] by auto
    have match: "\<forall>a \<in> set ?as. oa_repository a = rw_repository row"
        "\<forall>a \<in> set ?as. oa_artifact a \<notin> oa_artifact ` set (lg_artifacts g)"
      using 2(3) by (auto simp: settle_artifacts_match_iff)
    have new: "oa_artifact ` set (lg_artifacts g) \<inter> oa_artifact ` set ?as = {}"
    proof (rule equals0I)
      fix x
      assume x: "x \<in> oa_artifact ` set (lg_artifacts g) \<inter> oa_artifact ` set ?as"
      then obtain a where a: "x = oa_artifact a" "a \<in> set ?as"
        by (elim IntE imageE)
      from x have "x \<in> oa_artifact ` set (lg_artifacts g)"
        by (rule IntD1)
      then show False
        using bspec [OF match(2) a(2)] a(1) by simp
    qed
    have sums: "unat logical = sum_list (map (\<lambda>a. unat (oa_logical a)) ?as)"
        "unat observed = sum_list (map (\<lambda>a. unat (oa_observed a)) ?as)"
        "unat charged = sum_list (map (\<lambda>a. unat (oa_charged a)) ?as)"
      using add_all_Inr [OF 2(6)] add_all_Inr [OF 2(7)] add_all_Inr [OF 2(8)] by (simp_all add: comp_def)
    have "ledger_ok (set_reservation_state ?rid ReservationConsumed g2)"
    proof (rule close_reservation_ok [OF assms(1) row 2(2,4,5,10,11)])
      show "distinct (map oa_artifact (lg_artifacts g @ ?as))"
        using ledger_okD(2) [OF assms(1)] assms(3) new by simp
      fix scope
      assume "scope_covers scope (rw_repository row)"
      then show "scope_used g scope + sum_list (map (\<lambda>a. unat (oa_charged a)) ?as)
          < soft_budget scope + unat (rw_retained row)"
        using settlement_allowed [OF 2(9,4), of scope] used_is_loaded [OF ledger_okD(3) [OF assms(1)]] sums(3)
        by simp
    qed (use match(1) sums in \<open>auto simp: settle_scope_def dest!: add_storage_Inr\<close>)
    then show ?thesis
      using insert_ledger_operation_Inr [OF 2(12)] ledger_ok_same by metis
  qed
qed

text \<open>What a release that succeeds has done: a replay, a second release, or the first one.\<close>

lemma release_body_cases:
  assumes "release_body rl g = Inr g'"
  shows "g' = g
    \<or> insert_ledger_operation g LedgerRelease (rl_key rl) (rl_reservation rl) (release_request_hash rl) = Inr g'
    \<or> (\<exists>row global repository revision global' repository' g2.
         load_reservation g (rl_reservation rl) = Inr row \<and> rw_state row = ReservationActive
         \<and> load_totals g (rw_repository row) = (global, repository)
         \<and> \<not> reserved_too_small global repository (rw_retained row)
         \<and> update_both (release_scope (rw_retained row)) revision global repository
             = Inr (global', repository')
         \<and> save_both g global' repository' = Inr g2
         \<and> insert_ledger_operation (set_reservation_state (rl_reservation rl) ReservationReleased g2)
             LedgerRelease (rl_key rl) (rl_reservation rl) (release_request_hash rl) = Inr g')"
proof (cases "g' = g")
  case False
  let ?body = "\<lambda>row. if rw_state row = ReservationConsumed then Inl ErrStorageLedgerConflict
        else case load_totals g (rw_repository row) of (global, repository) \<Rightarrow>
         if rl_expected_revision rl \<noteq> 0 \<and> rl_expected_revision rl \<noteq> global_revision g
         then Inl ErrStorageLedgerConflict
         else if rw_state row = ReservationReleased
         then insert_ledger_operation g LedgerRelease (rl_key rl) (rl_reservation rl) (release_request_hash rl)
         else if reserved_too_small global repository (rw_retained row)
         then Inl ErrStorageLedgerConflict
         else
          bind_result (next_revision global repository) (\<lambda>revision.
          bind_result (update_both (release_scope (rw_retained row)) revision global repository)
            (\<lambda>(global', repository').
          bind_result (save_both g global' repository') (\<lambda>g2.
            insert_ledger_operation (set_reservation_state (rl_reservation rl) ReservationReleased g2)
              LedgerRelease (rl_key rl) (rl_reservation rl) (release_request_hash rl))))"
  from replay_or_Inr [OF assms [unfolded release_body_def Let_def]] False
  obtain row where row: "load_reservation g (rl_reservation rl) = Inr row" and body: "?body row = Inr g'"
    by auto
  obtain global repository where load: "load_totals g (rw_repository row) = (global, repository)"
    by force
  show ?thesis
  proof (cases "rw_state row")
    case ReservationActive
    then show ?thesis
      using body row load by (auto split: if_splits prod.splits)
  qed (use body load in \<open>auto split: if_splits\<close>)
qed simp

lemma release_body_ok:
  assumes "ledger_ok g" "release_body rl g = Inr g'"
  shows "ledger_ok g'"
proof -
  let ?rid = "rl_reservation rl"
  consider "g' = g"
    | "insert_ledger_operation g LedgerRelease (rl_key rl) ?rid (release_request_hash rl) = Inr g'"
    | row global repository revision global' repository' g2 where
        "load_reservation g ?rid = Inr row" "rw_state row = ReservationActive"
        "load_totals g (rw_repository row) = (global, repository)"
        "\<not> reserved_too_small global repository (rw_retained row)"
        "update_both (release_scope (rw_retained row)) revision global repository = Inr (global', repository')"
        "save_both g global' repository' = Inr g2"
        "insert_ledger_operation (set_reservation_state ?rid ReservationReleased g2)
           LedgerRelease (rl_key rl) ?rid (release_request_hash rl) = Inr g'"
    using release_body_cases [OF assms(2)] by metis
  then show ?thesis
  proof cases
    case 1
    then show ?thesis using assms(1) by simp
  next
    case 2
    then show ?thesis
      using assms(1) insert_ledger_operation_Inr ledger_ok_same by metis
  next
    case 3
    have row: "row \<in> set (lg_reservations g)" "rw_reservation row = ?rid"
      using load_reservation_Inr [OF 3(1)] by auto
    have same: "g\<lparr>lg_artifacts := lg_artifacts g @ []\<rparr> = g"
      by simp
    have "ledger_ok (set_reservation_state ?rid ReservationReleased g2)"
    proof (rule close_reservation_ok [where as = "[]", OF assms(1) row 3(2,3,4,5)])
      show "save_both (g\<lparr>lg_artifacts := lg_artifacts g @ []\<rparr>) global' repository' = Inr g2"
        using 3(6) by (simp only: same)
      show "distinct (map oa_artifact (lg_artifacts g @ []))"
        using ledger_okD(2) [OF assms(1)] by simp
      fix scope
      show "scope_used g scope + sum_list (map (\<lambda>a. unat (oa_charged a)) [])
          < soft_budget scope + unat (rw_retained row)"
        using ledger_okD(4) [OF assms(1), of scope] by simp
    qed (auto simp: release_scope_def)
    then show ?thesis
      using insert_ledger_operation_Inr [OF 3(7)] ledger_ok_same by metis
  qed
qed

end
