(* ===== verification/Go_Time.thy ===== *)
theory Go_Time
  imports Go_Text
begin

text \<open>
  The textual time of the store: \<^verbatim>\<open>formatTime\<close> of \<^verbatim>\<open>internal/store/sqlite/queries.go\<close> writes
  a UTC time in the layout \<^verbatim>\<open>time.RFC3339Nano\<close>, the trailing zeros of the fraction dropped. An
  instant counts nanoseconds from the start of year 1.
\<close>

subsection \<open>The calendar\<close>

definition leap_year :: "nat \<Rightarrow> bool" where
  "leap_year y \<longleftrightarrow> y mod 4 = 0 \<and> (y mod 100 \<noteq> 0 \<or> y mod 400 = 0)"

definition month_days :: "nat \<Rightarrow> nat list" where
  "month_days y = [31, if leap_year y then 29 else 28, 31, 30, 31, 30, 31, 31, 30, 31, 30, 31]"

fun month_of :: "nat list \<Rightarrow> nat \<Rightarrow> nat \<Rightarrow> nat \<times> nat" where
  "month_of [] m d = (m, d)"
| "month_of (n # ns) m d = (if d < n then (m, d) else month_of ns (m + 1) (d - n))"

text \<open>Year, month and day of a count of days from the first of January of year 1.\<close>

definition civil_date :: "nat \<Rightarrow> nat \<times> nat \<times> nat" where
  "civil_date days =
     (let n400 = days div 146097; d400 = days mod 146097;
          n100 = min 3 (d400 div 36524); d100 = d400 - 36524 * n100;
          n4 = d100 div 1461; d4 = d100 mod 1461;
          n1 = min 3 (d4 div 365); d1 = d4 - 365 * n1;
          year = 400 * n400 + 100 * n100 + 4 * n4 + n1 + 1;
          (month, day) = month_of (month_days year) 1 d1
      in (year, month, day + 1))"

subsection \<open>The layout\<close>

definition pad_number :: "nat \<Rightarrow> nat \<Rightarrow> bytes" where
  "pad_number width n =
     (let s = format_uint n in replicate (width - length s) CHR ''0'' @ s)"

definition fraction_digits :: "nat \<Rightarrow> bytes" where
  "fraction_digits nanos = rev (dropWhile (\<lambda>c. c = CHR ''0'') (rev (pad_number 9 nanos)))"

definition seconds_text :: "nat \<Rightarrow> bytes" where
  "seconds_text s =
     (let (y, m, d) = civil_date (s div 86400); t = s mod 86400 in
      pad_number 4 y @ ''-'' @ pad_number 2 m @ ''-'' @ pad_number 2 d @ ''T''
      @ pad_number 2 (t div 3600) @ '':'' @ pad_number 2 (t div 60 mod 60) @ '':''
      @ pad_number 2 (t mod 60))"

definition format_time :: "int \<Rightarrow> bytes" where
  "format_time t =
     seconds_text (nat (t div 1000000000))
     @ (if t mod 1000000000 = 0 then [] else CHR ''.'' # fraction_digits (nat (t mod 1000000000)))
     @ ''Z''"

lemma append_less_append [simp]: "p @ x < p @ y \<longleftrightarrow> x < (y :: bytes)"
  by (induction p) simp_all

text \<open>
  The texts are not in the order of the times: within one second, a time with a fraction sorts
  before the time without one, since a full stop is smaller than the letter that ends the text.
\<close>

lemma format_time_not_monotone:
  assumes "0 < n" "n < 1000000000"
  shows "format_time (s * 1000000000 + n) < format_time (s * 1000000000)"
proof -
  have "(s * 1000000000 + n) div 1000000000 = s" "(s * 1000000000 + n) mod 1000000000 = n"
    using assms by simp_all
  moreover have "CHR ''.'' < CHR ''Z''"
    by (simp add: less_char_def)
  ultimately show ?thesis
    using assms by (simp add: format_time_def)
qed

end
