(* ===== verification/Ledger_Views.thy ===== *)
theory Ledger_Views
  imports Ledger_Safety Go_Time
begin

text \<open>
  Reading and recomputing the ledger: \<^verbatim>\<open>Snapshot\<close> and its pressure of
  \<^verbatim>\<open>internal/store/sqlite/owned_storage.go\<close>, and the ledger part of the repository purge of
  \<^verbatim>\<open>internal/store/sqlite/cleanup.go\<close>, which recomputes the overall totals from the rows.
\<close>

subsection \<open>Pressure\<close>

definition pressure_of :: "u64 \<Rightarrow> u64 \<Rightarrow> u64 \<Rightarrow> storage_pressure option" where
  "pressure_of used soft hard =
     (case classify_storage_pressure used soft hard of Inl _ \<Rightarrow> None | Inr p \<Rightarrow> Some p)"

definition storage_pressure_state :: "storage_totals \<Rightarrow> storage_totals \<Rightarrow> pressure_state" where
  "storage_pressure_state repository global =
     (let s = rp_storage default_resource_policy;
          repo_used = add_storage (to_charged repository) (to_reserved repository);
          global_used = add_storage (to_charged global) (to_reserved global);
          uncertain = to_uncertain repository > 0 \<or> to_uncertain global > 0
                    \<or> \<not> is_ok repo_used \<or> \<not> is_ok global_used
      in if uncertain
         then \<lparr> ps_repository_pressure = None, ps_global_pressure = None,
                ps_reservation = StorageDecisionAccountingUncertain,
                ps_publication = StorageDecisionAccountingUncertain, ps_uncertain = True \<rparr>
         else
           (let used = (\<lambda>r. case r of Inl _ \<Rightarrow> 0 | Inr v \<Rightarrow> v);
                rp = pressure_of (used repo_used) (st_repository_soft_bytes s) (st_repository_hard_bytes s);
                gp = pressure_of (used global_used) (st_global_soft_bytes s) (st_global_hard_bytes s);
                decision = (if rp = Some StoragePressureHard \<or> gp = Some StoragePressureHard
                            then StorageDecisionHardPressure
                            else if rp = Some StoragePressureSoft \<or> gp = Some StoragePressureSoft
                            then StorageDecisionSoftPressure else StorageDecisionAllowed)
            in \<lparr> ps_repository_pressure = rp, ps_global_pressure = gp, ps_reservation = decision,
                 ps_publication = decision, ps_uncertain = False \<rparr>))"

subsection \<open>Snapshots\<close>

record reservation_summary =
  sm_reservation :: bytes
  sm_owner_kind :: bytes
  sm_owner :: bytes
  sm_operation :: bytes
  sm_repository :: "bytes option"
  sm_state :: reservation_state
  sm_retained :: u64
  sm_created :: instant

definition summary_of :: "reservation_row \<Rightarrow> reservation_summary" where
  "summary_of r =
     \<lparr> sm_reservation = rw_reservation r, sm_owner_kind = rw_owner_kind r, sm_owner = rw_owner r,
       sm_operation = rw_operation r, sm_repository = rw_repository r, sm_state = rw_state r,
       sm_retained = rw_retained r, sm_created = rw_created r \<rparr>"

text \<open>
  \<open>ORDER BY created_at ASC, id ASC\<close>: the time is compared as its text. The query asks for one row
  more than the limit, and a row beyond the limit makes the answer incomplete.
\<close>

definition in_repository :: "bytes option \<Rightarrow> bytes option \<Rightarrow> bool" where
  "in_repository query repository \<longleftrightarrow> query = None \<or> repository = query"

definition active_rows :: "ledger \<Rightarrow> bytes option \<Rightarrow> reservation_row list" where
  "active_rows g query =
     filter (\<lambda>r. rw_state r = ReservationActive \<and> in_repository query (rw_repository r))
       (lg_reservations g)"

definition list_reservations :: "ledger \<Rightarrow> bytes option \<Rightarrow> nat \<Rightarrow> reservation_summary list \<times> bool" where
  "list_reservations g query limit =
     (let rows = sort_key (\<lambda>r. format_time (rw_created r)) (sort_key rw_reservation (active_rows g query))
      in (map summary_of (take limit rows), length rows \<le> limit))"

definition list_artifacts ::
  "ledger \<Rightarrow> bytes option \<Rightarrow> nat \<Rightarrow> (owned_artifact list \<times> bool) ledger_result" where
  "list_artifacts g query limit =
     (let rows = sort_key (\<lambda>a. format_time (oa_created a)) (sort_key oa_artifact
                   (filter (\<lambda>a. in_repository query (oa_repository a)) (lg_artifacts g)))
      in if list_all owned_artifact_valid (take limit rows)
         then Inr (take limit rows, length rows \<le> limit) else Inl ErrLedgerIO)"

record ledger_snapshot =
  sn_revision :: u64
  sn_repository :: storage_totals
  sn_global :: storage_totals
  sn_pressure :: pressure_state
  sn_active_reservations :: nat
  sn_reservations :: "reservation_summary list"
  sn_artifacts :: "owned_artifact list"
  sn_complete :: bool

definition ledger_snapshot_of :: "ledger_env \<Rightarrow> ledger_query \<Rightarrow> ledger \<Rightarrow> ledger_snapshot ledger_result" where
  "ledger_snapshot_of env q0 g =
     (let q = (if lq_limit q0 = 0 then q0\<lparr>lq_limit := DefaultStorageLedgerPage\<rparr> else q0) in
      if \<not> en_open env then Inl ErrLedgerIO
      else if \<not> ledger_query_valid q then Inl ErrStorageLedgerInput
      else case load_totals g (lq_repository q) of (global, repository) \<Rightarrow>
        (let repo = (case repository of None \<Rightarrow> zero_totals None | Some t \<Rightarrow> t);
             (rows, rows_complete) =
               (if lq_include_reservations q then list_reservations g (lq_repository q) (lq_limit q)
                else ([], True));
             active = (if lq_include_reservations q then length (active_rows g (lq_repository q)) else 0)
         in bind_result
              (if lq_include_artifacts q then list_artifacts g (lq_repository q) (lq_limit q)
               else Inr ([], True)) (\<lambda>(as, as_complete).
            Inr \<lparr> sn_revision = to_revision global, sn_repository = repo, sn_global = global,
                  sn_pressure = storage_pressure_state repo global, sn_active_reservations = active,
                  sn_reservations = rows, sn_artifacts = as,
                  sn_complete = rows_complete \<and> as_complete \<rparr>)))"

subsection \<open>Purging a repository\<close>

definition artifact_total :: "(owned_artifact \<Rightarrow> u64) \<Rightarrow> ledger \<Rightarrow> nat" where
  "artifact_total f g = sum_list (map (\<lambda>a. unat (f a)) (lg_artifacts g))"

definition active_total :: "ledger \<Rightarrow> nat" where
  "active_total g =
     sum_list (map (\<lambda>r. unat (rw_retained r))
       (filter (\<lambda>r. rw_state r = ReservationActive) (lg_reservations g)))"

definition uncertain_total :: "ledger \<Rightarrow> nat" where
  "uncertain_total g =
     length (filter (\<lambda>a. oa_lifecycle a = ArtifactAccountingUncertain) (lg_artifacts g))"

text \<open>\<open>SUM\<close> of 64-bit integers fails on overflow.\<close>

definition refresh_global_totals :: "ledger \<Rightarrow> ledger ledger_result" where
  "refresh_global_totals g =
     (if artifact_total oa_logical g \<ge> 2 ^ 63 \<or> artifact_total oa_observed g \<ge> 2 ^ 63
        \<or> artifact_total oa_charged g \<ge> 2 ^ 63 \<or> active_total g \<ge> 2 ^ 63
      then Inl ErrLedgerIO
      else Inr (g\<lparr>lg_totals := (lg_totals g)(None \<mapsto>
        \<lparr> to_repository = None, to_logical = of_nat (artifact_total oa_logical g),
          to_observed = of_nat (artifact_total oa_observed g),
          to_charged = of_nat (artifact_total oa_charged g), to_reserved = of_nat (active_total g),
          to_uncertain = of_nat (uncertain_total g),
          to_revision = (case lg_totals g None of None \<Rightarrow> 1 | Some t \<Rightarrow> to_revision t + 1) \<rparr>)\<rparr>))"

definition purge_rows :: "bytes \<Rightarrow> ledger \<Rightarrow> ledger" where
  "purge_rows r g =
     (let ids = rw_reservation ` {row \<in> set (lg_reservations g). rw_repository row = Some r} in
      g\<lparr>lg_volumes := filter (\<lambda>v. vr_reservation v \<notin> ids) (lg_volumes g),
        lg_operations := (\<lambda>k. case lg_operations g k of
            None \<Rightarrow> None
          | Some (rid, h) \<Rightarrow> if rid \<in> ids then None else Some (rid, h)),
        lg_artifacts := filter (\<lambda>a. oa_repository a \<noteq> Some r) (lg_artifacts g),
        lg_reservations := filter (\<lambda>row. rw_repository row \<noteq> Some r) (lg_reservations g),
        lg_totals := (lg_totals g)(Some r := None)\<rparr>)"

text \<open>A remaining artifact that refers to a deleted reservation breaks a foreign key.\<close>

definition artifacts_owned :: "ledger \<Rightarrow> bool" where
  "artifacts_owned g \<longleftrightarrow>
     (\<forall>a \<in> set (lg_artifacts g). oa_reservation a \<in> rw_reservation ` set (lg_reservations g))"

definition purge_repository :: "bytes \<Rightarrow> ledger \<Rightarrow> ledger \<times> unit ledger_result" where
  "purge_repository r g =
     (if \<not> artifacts_owned (purge_rows r g) then (g, Inl ErrLedgerConstraint)
      else case refresh_global_totals (purge_rows r g) of
        Inl e \<Rightarrow> (g, Inl e)
      | Inr g' \<Rightarrow> (g', Inr ()))"

end
