(* ===== verification/Reservations.thy ===== *)
theory Reservations
  imports Plan_Digest Go_Path
begin

text \<open>
  Capacity reservations: \<^verbatim>\<open>internal/capacitystore/manager.go\<close>. A reservation is a marker file in a
  protected directory; every process that reserves, rechecks or releases holds the global lock, so
  an operation of the model is atomic. The directory is the list of its entries in the order
  \<^verbatim>\<open>os.ReadDir\<close> gives, each a marker the strict decoder accepts or anything else. The environment
  of an operation says whether the locks were acquired, the nonce drawn, the clock and whether the
  file operations went through.
\<close>

subsection \<open>Markers\<close>

definition markerVersion :: nat where "markerVersion = 1"

record marker_record =
  mr_version :: nat
  mr_operation :: bytes
  mr_repository :: bytes
  mr_plan_digest :: bytes
  mr_nonce :: bytes
  mr_policy_version :: nat
  mr_phase :: bytes
  mr_created_unix_nano :: int
  mr_volumes :: "volume_peak list"

text \<open>
  \<^verbatim>\<open>encoding/json\<close> replaces every invalid byte of a string by the replacement character, so a
  marker is read back with its strings repaired.
\<close>

definition json_string :: "bytes \<Rightarrow> bytes" where
  "json_string s =
     concat (map (\<lambda>(r, b). if r = rune_error \<and> length b = 1
                          then [mk_byte 239, mk_byte 191, mk_byte 189] else b) (rune_chunks s))"

definition json_marker :: "marker_record \<Rightarrow> marker_record" where
  "json_marker r =
     r\<lparr>mr_operation := json_string (mr_operation r), mr_repository := json_string (mr_repository r),
       mr_plan_digest := json_string (mr_plan_digest r), mr_nonce := json_string (mr_nonce r),
       mr_phase := json_string (mr_phase r),
       mr_volumes := map (\<lambda>v. v\<lparr>vp_id := json_string (vp_id v)\<rparr>) (mr_volumes r)\<rparr>"

datatype marker_file = MarkerFile marker_record | ForeignEntry

type_synonym marker_dir = "(bytes \<times> marker_file) list"

text \<open>\<^verbatim>\<open>filepath.Base\<close> for Unix paths.\<close>

definition base_name :: "bytes \<Rightarrow> bytes" where
  "base_name p =
     (if p = [] then ''.''
      else let q = rev (dropWhile (\<lambda>c. c = SLASH) (rev p))
           in if q = [] then [SLASH] else last (split_on SLASH q))"

definition valid_marker_name :: "bytes \<Rightarrow> bool" where
  "valid_marker_name name \<longleftrightarrow>
     length name = 37 \<and> base_name name = name \<and> drop 32 name = ''.json''
     \<and> hex_decode (take 32 name) \<noteq> None"

definition marker_record_from_plan ::
  "capacity_plan \<Rightarrow> bytes \<Rightarrow> bytes \<Rightarrow> nat \<Rightarrow> int \<Rightarrow> marker_record" where
  "marker_record_from_plan plan digest nonce version now =
     \<lparr> mr_version = markerVersion, mr_operation = cp_operation plan,
       mr_repository = (case cp_repository plan of None \<Rightarrow> [] | Some r \<Rightarrow> r),
       mr_plan_digest = digest, mr_nonce = nonce, mr_policy_version = version,
       mr_phase = ''reserved'', mr_created_unix_nano = now, mr_volumes = cp_peaks plan \<rparr>"

fun marker_volumes_ok :: "bytes set \<Rightarrow> volume_peak list \<Rightarrow> bool" where
  "marker_volumes_ok seen [] = True"
| "marker_volumes_ok seen (v # vs) =
     (vp_id v \<noteq> [] \<and> vp_id v \<notin> seen \<and> is_ok (peak_charge v)
      \<and> marker_volumes_ok (insert (vp_id v) seen) vs)"

definition validate_marker :: "marker_record \<Rightarrow> bool" where
  "validate_marker r \<longleftrightarrow>
     mr_version r = markerVersion \<and> mr_operation r \<noteq> [] \<and> mr_plan_digest r \<noteq> [] \<and> mr_nonce r \<noteq> []
     \<and> mr_policy_version r = CurrentResourcePolicyVersion \<and> mr_phase r = ''reserved''
     \<and> 0 < mr_created_unix_nano r \<and> mr_volumes r \<noteq> [] \<and> marker_volumes_ok {} (mr_volumes r)"

text \<open>Anything in the directory that is not a well-formed marker stops every operation.\<close>

fun load_markers :: "marker_dir \<Rightarrow> (plan_error, marker_record list) result" where
  "load_markers [] = Inr []"
| "load_markers ((name, f) # rest) =
     (if \<not> valid_marker_name name then Inl ErrUnknownMarker
      else case f of
        ForeignEntry \<Rightarrow> Inl ErrUnknownMarker
      | MarkerFile r \<Rightarrow>
          if \<not> validate_marker r \<or> mr_nonce r @ ''.json'' \<noteq> name then Inl ErrUnknownMarker
          else bind_result (load_markers rest) (\<lambda>rs. Inr (r # rs)))"

definition find_marker :: "marker_record list \<Rightarrow> bytes \<Rightarrow> marker_record option" where
  "find_marker rs name =
     (if valid_marker_name name then find (\<lambda>r. mr_nonce r @ ''.json'' = name) rs else None)"

definition volume_in_marker :: "marker_record list \<Rightarrow> bytes \<Rightarrow> bytes \<Rightarrow> bool" where
  "volume_in_marker rs name volume \<longleftrightarrow>
     (\<exists>r \<in> set rs. mr_nonce r @ ''.json'' = name \<and> volume \<in> vp_id ` set (mr_volumes r))"

subsection \<open>Space\<close>

text \<open>
  The Go maps keyed by volume are association lists in the order of first insertion. Go visits
  them in any order, which only decides the error reported when several volumes fail.
\<close>

fun put_assoc :: "'k \<Rightarrow> 'v \<Rightarrow> ('k \<times> 'v) list \<Rightarrow> ('k \<times> 'v) list" where
  "put_assoc k v [] = [(k, v)]"
| "put_assoc k v ((k', v') # rest) =
     (if k = k' then (k, v) # rest else (k', v') # put_assoc k v rest)"

definition assoc_or_zero :: "(bytes \<times> u64) list \<Rightarrow> bytes \<Rightarrow> u64" where
  "assoc_or_zero m k = (case map_of m k of None \<Rightarrow> 0 | Some v \<Rightarrow> v)"

fun add_charges ::
  "(bytes \<times> u64) list \<Rightarrow> volume_peak list \<Rightarrow> (plan_error, (bytes \<times> u64) list) result" where
  "add_charges active [] = Inr active"
| "add_charges active (v # vs) =
     (case peak_charge v of
        Inl _ \<Rightarrow> Inl ErrUnknownMarker
      | Inr charge \<Rightarrow>
          (case byte_size_add (assoc_or_zero active (vp_id v)) charge of
             Inl _ \<Rightarrow> Inl ErrUnknownMarker
           | Inr acc \<Rightarrow> add_charges (put_assoc (vp_id v) acc active) vs))"

fun plan_charges ::
  "(bytes \<times> u64) list \<Rightarrow> volume_peak list \<Rightarrow> (plan_error, (bytes \<times> u64) list) result" where
  "plan_charges m [] = Inr m"
| "plan_charges m (p # ps) =
     bind_result (peak_charge p) (\<lambda>charge. plan_charges (put_assoc (vp_id p) charge m) ps)"

fun check_active ::
  "(bytes \<Rightarrow> volume_evidence option) \<Rightarrow> (bytes \<times> u64) list \<Rightarrow> (plan_error, unit) result" where
  "check_active free [] = Inr ()"
| "check_active free ((vol, charge) # rest) =
     (case free vol of
        None \<Rightarrow> Inl ErrReservationNotReady
      | Some ob \<Rightarrow>
          if charge > ve_free ob
          then Inl (CapacityPressureError vol charge (ve_free ob) (ve_mode ob))
          else check_active free rest)"

fun check_plan ::
  "(bytes \<Rightarrow> volume_evidence option) \<Rightarrow> (bytes \<times> u64) list \<Rightarrow> (bytes \<Rightarrow> bool) \<Rightarrow>
   (bytes \<times> u64) list \<Rightarrow> (plan_error, unit) result" where
  "check_plan free active owned [] = Inr ()"
| "check_plan free active owned ((vol, charge) # rest) =
     (case free vol of
        None \<Rightarrow> Inl ErrInvalidCapacityPlan
      | Some ob \<Rightarrow>
          if owned vol then check_plan free active owned rest
          else case byte_size_add (assoc_or_zero active vol) charge of
                 Inl _ \<Rightarrow> Inl ErrInvalidCapacityPlan
               | Inr required \<Rightarrow>
                   if required > ve_free ob
                   then Inl (CapacityPressureError vol required (ve_free ob) (ve_mode ob))
                   else check_plan free active owned rest)"

definition check_space ::
  "capacity_plan \<Rightarrow> volume_evidence list \<Rightarrow> marker_record list \<Rightarrow> reservation option \<Rightarrow>
   (plan_error, unit) result" where
  "check_space plan evidence markers owner =
     (let free = map_of (rev (map (\<lambda>v. (ve_id v, v)) evidence));
          owned = (\<lambda>vol. case owner of None \<Rightarrow> False
                        | Some r \<Rightarrow> volume_in_marker markers (rs_marker r) vol)
      in bind_result (add_charges [] (concat (map mr_volumes markers))) (\<lambda>active.
         bind_result (plan_charges [] (cp_peaks plan)) (\<lambda>charges.
         bind_result (check_active free active) (\<lambda>_. check_plan free active owned charges))))"

subsection \<open>Operations\<close>

datatype write_outcome = Written | WriteUndone | WriteLeftPartial | WriteLeftWhole

datatype remove_outcome = Removed | RemovedUnsynced | RemoveFailed

record marker_env =
  me_present :: bool
  me_locked :: bool
  me_listed :: bool
  me_nonce :: "bytes option"
  me_now :: int
  me_write :: write_outcome
  me_remove :: remove_outcome

definition repository_text :: "capacity_plan \<Rightarrow> bytes" where
  "repository_text plan = (case cp_repository plan of None \<Rightarrow> [] | Some r \<Rightarrow> r)"

text \<open>The locks and the listing come before every decision on the directory.\<close>

definition locked_markers :: "marker_env \<Rightarrow> marker_dir \<Rightarrow> (plan_error, marker_record list) result" where
  "locked_markers env d =
     (if \<not> me_locked env \<or> \<not> me_listed env then Inl ErrMarkerIO else load_markers d)"

text \<open>
  A failed write is taken back by removing the file; when that fails too, a partial or the whole
  marker stays behind.
\<close>

definition write_marker ::
  "marker_env \<Rightarrow> marker_dir \<Rightarrow> bytes \<Rightarrow> marker_record \<Rightarrow> marker_dir \<times> (plan_error, unit) result" where
  "write_marker env d name r =
     (if name \<in> fst ` set d then (d, Inl ErrMarkerIO)
      else case me_write env of
        Written \<Rightarrow> (insort_key fst (name, MarkerFile (json_marker r)) d, Inr ())
      | WriteUndone \<Rightarrow> (d, Inl ErrMarkerIO)
      | WriteLeftPartial \<Rightarrow> (insort_key fst (name, ForeignEntry) d, Inl ErrMarkerIO)
      | WriteLeftWhole \<Rightarrow> (insort_key fst (name, MarkerFile (json_marker r)) d, Inl ErrMarkerIO))"

definition remove_marker ::
  "marker_env \<Rightarrow> marker_dir \<Rightarrow> bytes \<Rightarrow> marker_dir \<times> (plan_error, unit) result" where
  "remove_marker env d name =
     (if \<not> valid_marker_name name then (d, Inl ErrReservationMismatch)
      else case map_of d name of
        None \<Rightarrow> (d, Inl ErrMarkerNotFound)
      | Some ForeignEntry \<Rightarrow> (d, Inl ErrUnknownMarker)
      | Some (MarkerFile _) \<Rightarrow>
          (case me_remove env of
             Removed \<Rightarrow> (filter (\<lambda>e. fst e \<noteq> name) d, Inr ())
           | RemovedUnsynced \<Rightarrow> (filter (\<lambda>e. fst e \<noteq> name) d, Inl ErrMarkerIO)
           | RemoveFailed \<Rightarrow> (d, Inl ErrMarkerIO)))"

definition new_nonce :: "marker_env \<Rightarrow> (plan_error, bytes) result" where
  "new_nonce env = (case me_nonce env of None \<Rightarrow> Inl ErrMarkerIO | Some b \<Rightarrow> Inr (hex_encode b))"

definition evidence_list :: "volume_evidence list option \<Rightarrow> volume_evidence list" where
  "evidence_list e = (case e of None \<Rightarrow> [] | Some vs \<Rightarrow> vs)"

text \<open>Everything \<^verbatim>\<open>Reserve\<close> decides before it writes: the digest and the nonce of the marker.\<close>

definition reserve_decision ::
  "marker_env \<Rightarrow> marker_dir \<Rightarrow> capacity_plan \<Rightarrow> resource_policy \<Rightarrow> volume_evidence list option \<Rightarrow>
   (plan_error, bytes \<times> bytes) result" where
  "reserve_decision env d plan policy evidence =
     (if \<not> me_present env then Inl ErrInvalidCapacityPlan
      else bind_result (validate_capacity_plan policy plan evidence) (\<lambda>_.
       bind_result (plan_digest plan) (\<lambda>digest.
       bind_result (locked_markers env d) (\<lambda>markers.
       bind_result (check_space plan (evidence_list evidence) markers None) (\<lambda>_.
       bind_result (new_nonce env) (\<lambda>nonce. Inr (digest, nonce)))))))"

definition reserve ::
  "marker_env \<Rightarrow> marker_dir \<Rightarrow> capacity_plan \<Rightarrow> resource_policy \<Rightarrow> volume_evidence list option \<Rightarrow>
   marker_dir \<times> (plan_error, reservation) result" where
  "reserve env d plan policy evidence =
     (case reserve_decision env d plan policy evidence of
        Inl e \<Rightarrow> (d, Inl e)
      | Inr (digest, nonce) \<Rightarrow>
          (let name = nonce @ ''.json'';
               r = marker_record_from_plan plan digest nonce (rp_version policy) (me_now env)
           in case write_marker env d name r of
                (d', Inl e) \<Rightarrow> (d', Inl e)
              | (d', Inr _) \<Rightarrow>
                  (d', new_capacity_reservation name (cp_operation plan) (repository_text plan)
                         digest (rp_version policy))))"

definition validate_handle ::
  "reservation \<Rightarrow> capacity_plan \<Rightarrow> resource_policy \<Rightarrow> (plan_error, bytes) result" where
  "validate_handle r plan policy =
     (if rs_marker r = [] \<or> rs_operation r \<noteq> cp_operation plan
        \<or> rs_policy_version r \<noteq> rp_version policy \<or> \<not> valid_marker_name (rs_marker r)
      then Inl ErrReservationMismatch
      else if rs_repository r \<noteq> repository_text plan then Inl ErrReservationMismatch
      else case plan_digest plan of
        Inl _ \<Rightarrow> Inl ErrReservationMismatch
      | Inr digest \<Rightarrow> if digest \<noteq> rs_plan_digest r then Inl ErrReservationMismatch else Inr digest)"

definition verify_marker_owner ::
  "marker_record \<Rightarrow> reservation \<Rightarrow> capacity_plan \<Rightarrow> (plan_error, unit) result" where
  "verify_marker_owner m r plan =
     (if mr_operation m \<noteq> rs_operation r \<or> mr_repository m \<noteq> repository_text plan
        \<or> mr_plan_digest m \<noteq> rs_plan_digest r \<or> mr_nonce m @ ''.json'' \<noteq> rs_marker r
      then Inl ErrReservationMismatch else Inr ())"

text \<open>What \<^verbatim>\<open>Release\<close> and \<^verbatim>\<open>Reconcile\<close> check before they remove a marker.\<close>

definition owned_marker ::
  "marker_env \<Rightarrow> marker_dir \<Rightarrow> reservation \<Rightarrow> capacity_plan \<Rightarrow> resource_policy \<Rightarrow>
   (plan_error, unit) result" where
  "owned_marker env d r plan policy =
     bind_result (validate_handle r plan policy) (\<lambda>_.
     bind_result (locked_markers env d) (\<lambda>markers.
       case find_marker markers (rs_marker r) of
         None \<Rightarrow> Inl ErrMarkerNotFound
       | Some m \<Rightarrow> verify_marker_owner m r plan))"

definition release ::
  "marker_env \<Rightarrow> marker_dir \<Rightarrow> reservation \<Rightarrow> capacity_plan \<Rightarrow> resource_policy \<Rightarrow>
   marker_dir \<times> (plan_error, unit) result" where
  "release env d r plan policy =
     (if \<not> me_present env then (d, Inl ErrReservationNotReady)
      else case owned_marker env d r plan policy of
        Inl e \<Rightarrow> (d, Inl e)
      | Inr _ \<Rightarrow> remove_marker env d (rs_marker r))"

record reconciliation_proof =
  rc_owner_lock_reconciled :: bool
  rc_operation_journal_done :: bool

definition reconcile ::
  "marker_env \<Rightarrow> marker_dir \<Rightarrow> reservation \<Rightarrow> capacity_plan \<Rightarrow> resource_policy \<Rightarrow>
   reconciliation_proof \<Rightarrow> marker_dir \<times> (plan_error, unit) result" where
  "reconcile env d r plan policy prf =
     (if \<not> me_present env \<or> \<not> rc_owner_lock_reconciled prf \<or> \<not> rc_operation_journal_done prf
      then (d, Inl ErrReservationNotReady)
      else case owned_marker env d r plan policy of
        Inl e \<Rightarrow> (d, Inl e)
      | Inr _ \<Rightarrow> remove_marker env d (rs_marker r))"

subsection \<open>Rechecks\<close>

datatype check_status =
    CapacityCheckAdmitted | CapacityCheckPressure | CapacityCheckRecovery | CapacityCheckUnset

record capacity_check =
  cc_status :: check_status
  cc_policy_version :: nat
  cc_observed :: instant
  cc_volumes :: "volume_evidence list"

definition zero_capacity_check :: capacity_check where
  "zero_capacity_check =
     \<lparr> cc_status = CapacityCheckUnset, cc_policy_version = 0, cc_observed = 0, cc_volumes = [] \<rparr>"

definition check_answer ::
  "marker_env \<Rightarrow> check_status \<Rightarrow> resource_policy \<Rightarrow> volume_evidence list option \<Rightarrow> capacity_check" where
  "check_answer env s policy evidence =
     \<lparr> cc_status = s, cc_policy_version = rp_version policy, cc_observed = me_now env,
       cc_volumes = evidence_list evidence \<rparr>"

definition is_pressure :: "plan_error \<Rightarrow> bool" where
  "is_pressure e = (case e of CapacityPressureError _ _ _ _ \<Rightarrow> True | _ \<Rightarrow> False)"

definition pressure_answer ::
  "marker_env \<Rightarrow> resource_policy \<Rightarrow> volume_evidence list option \<Rightarrow> plan_error \<Rightarrow>
   capacity_check \<times> plan_error option" where
  "pressure_answer env policy evidence e =
     (if is_pressure e then check_answer env CapacityCheckPressure policy evidence
      else zero_capacity_check, Some e)"

definition recheck ::
  "marker_env \<Rightarrow> marker_dir \<Rightarrow> reservation \<Rightarrow> capacity_plan \<Rightarrow> resource_policy \<Rightarrow>
   recheck_bounds \<Rightarrow> volume_evidence list option \<Rightarrow> capacity_check \<times> plan_error option" where
  "recheck env d r plan policy bounds evidence =
     (if \<not> me_present env then (zero_capacity_check, Some ErrReservationNotReady)
      else if \<not> recheck_bounds_valid bounds then (zero_capacity_check, Some ErrInvalidCapacityPlan)
      else case validate_handle r plan policy of
        Inl e \<Rightarrow> (zero_capacity_check, Some e)
      | Inr digest \<Rightarrow>
         (case validate_capacity_plan policy plan evidence of
            Inl e \<Rightarrow> pressure_answer env policy evidence e
          | Inr _ \<Rightarrow>
             (case locked_markers env d of
                Inl e \<Rightarrow> (zero_capacity_check, Some e)
              | Inr markers \<Rightarrow>
                 (case find_marker markers (rs_marker r) of
                    None \<Rightarrow> (zero_capacity_check, Some ErrMarkerNotFound)
                  | Some m \<Rightarrow>
                     if mr_plan_digest m \<noteq> digest \<or> mr_operation m \<noteq> cp_operation plan
                       \<or> mr_phase m \<noteq> ''reserved''
                     then (zero_capacity_check, Some ErrReservationMismatch)
                     else
                       (case check_space plan (evidence_list evidence) markers (Some r) of
                          Inl e \<Rightarrow> pressure_answer env policy evidence e
                        | Inr _ \<Rightarrow> (check_answer env CapacityCheckAdmitted policy evidence, None))))))"

end
