(* ===== verification/Reservation_Safety.thy ===== *)
theory Reservation_Safety
  imports Reservations
begin

text \<open>
  What the reservation markers guarantee. The charge a directory commits on a volume is the sum
  of the true charges of its markers; no sequence of reservations, releases and reconciliations of
  any number of processes commits more on a volume than the space that was observed there.
\<close>

subsection \<open>Charges committed by a directory\<close>

definition charge_on :: "bytes \<Rightarrow> volume_peak list \<Rightarrow> nat" where
  "charge_on vol vs = sum_list (map (\<lambda>v. if vp_id v = vol then true_charge v else 0) vs)"

fun marker_volumes :: "marker_file \<Rightarrow> volume_peak list" where
  "marker_volumes (MarkerFile r) = mr_volumes r"
| "marker_volumes ForeignEntry = []"

definition dir_charge :: "marker_dir \<Rightarrow> bytes \<Rightarrow> nat" where
  "dir_charge d vol = sum_list (map (\<lambda>e. charge_on vol (marker_volumes (snd e))) d)"

lemma charge_on_simps [simp]:
  "charge_on vol [] = 0"
  "charge_on vol (v # vs) = (if vp_id v = vol then true_charge v else 0) + charge_on vol vs"
  "charge_on vol (vs @ ws) = charge_on vol vs + charge_on vol ws"
  by (simp_all add: charge_on_def)

lemma charge_on_absent: "vol \<notin> vp_id ` set vs \<Longrightarrow> charge_on vol vs = 0"
  by (induction vs) auto

lemma charge_on_distinct:
  "distinct (map vp_id vs) \<Longrightarrow> v \<in> set vs \<Longrightarrow> charge_on (vp_id v) vs = true_charge v"
  by (induction vs) (auto simp: charge_on_absent)

lemma sum_list_insort: "sum_list (map f (insort_key k x xs)) = f x + (sum_list (map f xs) :: nat)"
  by (induction xs) auto

lemma dir_charge_insort [simp]:
  "dir_charge (insort_key fst (name, f) d) vol = charge_on vol (marker_volumes f) + dir_charge d vol"
  by (simp add: dir_charge_def sum_list_insort)

lemma dir_charge_filter: "dir_charge (filter P d) vol \<le> dir_charge d vol"
  unfolding dir_charge_def by (induction d) auto

subsection \<open>The listing\<close>

fun entry_ok :: "bytes \<times> marker_file \<Rightarrow> bool" where
  "entry_ok (name, ForeignEntry) = False"
| "entry_ok (name, MarkerFile r) =
     (valid_marker_name name \<and> validate_marker r \<and> mr_nonce r @ ''.json'' = name)"

fun record_of :: "bytes \<times> marker_file \<Rightarrow> marker_record" where
  "record_of (name, MarkerFile r) = r"
| "record_of (name, ForeignEntry) = undefined"

lemma load_markers_iff:
  "load_markers d = Inr rs \<longleftrightarrow> (\<forall>e \<in> set d. entry_ok e) \<and> rs = map record_of d"
proof (induction d arbitrary: rs)
  case (Cons e d)
  obtain name f where "e = (name, f)" by force
  then show ?case
    using Cons.IH by (cases f) auto
qed auto

lemma entry_ok_volumes: "entry_ok e \<Longrightarrow> mr_volumes (record_of e) = marker_volumes (snd e)"
  by (cases e rule: entry_ok.cases) auto

lemma load_markers_charge:
  assumes "load_markers d = Inr rs"
  shows "charge_on vol (concat (map mr_volumes rs)) = dir_charge d vol"
proof -
  have "charge_on vol (concat (map mr_volumes (map record_of d))) = dir_charge d vol"
    if "\<forall>e \<in> set d. entry_ok e"
    using that unfolding dir_charge_def by (induction d) (simp_all add: entry_ok_volumes)
  then show ?thesis
    using assms by (simp add: load_markers_iff)
qed

subsection \<open>The space check\<close>

lemma map_of_put_assoc: "map_of (put_assoc k v m) = (map_of m)(k \<mapsto> v)"
  by (induction k v m rule: put_assoc.induct) (auto simp: fun_eq_iff)

lemma put_assoc_keys: "fst ` set (put_assoc k v m) = insert k (fst ` set m)"
  by (induction k v m rule: put_assoc.induct) auto

lemma put_assoc_distinct: "distinct (map fst m) \<Longrightarrow> distinct (map fst (put_assoc k v m))"
  by (induction k v m rule: put_assoc.induct) (auto simp: put_assoc_keys)

lemma assoc_or_zero_put:
  "assoc_or_zero (put_assoc k v m) k' = (if k' = k then v else assoc_or_zero m k')"
  by (simp add: assoc_or_zero_def map_of_put_assoc)

lemma add_charges_sound:
  assumes "add_charges active vs = Inr active'" "distinct (map fst active)"
  shows "unat (assoc_or_zero active' vol) = unat (assoc_or_zero active vol) + charge_on vol vs
    \<and> fst ` set active' = fst ` set active \<union> vp_id ` set vs \<and> distinct (map fst active')"
  using assms
proof (induction vs arbitrary: active)
  case (Cons v vs)
  from Cons.prems(1) obtain c where c: "peak_charge v = Inr c"
    by (auto split: sum.splits)
  let ?next = "put_assoc (vp_id v) (assoc_or_zero active (vp_id v) + c) active"
  from Cons.prems(1) c
  have fits: "unat (assoc_or_zero active (vp_id v)) + unat c < 2 ^ 64"
    and rest: "add_charges ?next vs = Inr active'"
    by (auto simp: byte_size_add_exact split: sum.splits if_splits)
  have "distinct (map fst ?next)"
    by (rule put_assoc_distinct [OF Cons.prems(2)])
  from Cons.IH [OF rest this] show ?case
    using unat_add_fits [OF fits] peak_charge_nat [OF c]
    by (auto simp: assoc_or_zero_put put_assoc_keys)
qed simp

lemma plan_charges_sound:
  assumes "plan_charges m ps = Inr m'" "distinct (map vp_id ps)" "vp_id ` set ps \<inter> fst ` set m = {}"
    "distinct (map fst m)"
  shows "distinct (map fst m') \<and>
     (\<forall>k c. (k, c) \<in> set m' \<longleftrightarrow>
        (k, c) \<in> set m \<or> (\<exists>p \<in> set ps. vp_id p = k \<and> peak_charge p = Inr c))"
  using assms
proof (induction ps arbitrary: m)
  case (Cons p ps)
  then obtain c where c: "peak_charge p = Inr c"
    and rest: "plan_charges (put_assoc (vp_id p) c m) ps = Inr m'"
    by auto
  have new: "set (put_assoc (vp_id p) c m) = insert (vp_id p, c) (set m)"
    using Cons.prems(3) by (induction "vp_id p" c m rule: put_assoc.induct) auto
  have "distinct (map fst m') \<and>
     (\<forall>k c'. (k, c') \<in> set m' \<longleftrightarrow>
        (k, c') \<in> set (put_assoc (vp_id p) c m) \<or> (\<exists>p \<in> set ps. vp_id p = k \<and> peak_charge p = Inr c'))"
    using Cons.prems by (intro Cons.IH [OF rest])
      (auto simp: put_assoc_keys put_assoc_distinct)
  then show ?case
    using new c by auto
qed auto

lemma check_active_iff:
  "check_active free m = Inr () \<longleftrightarrow>
     (\<forall>(k, c) \<in> set m. \<exists>ob. free k = Some ob \<and> c \<le> ve_free ob)"
  by (induction m) (auto simp: not_less split: option.splits if_splits)

lemma check_plan_iff:
  "check_plan free active owned m = Inr () \<longleftrightarrow>
     (\<forall>(k, c) \<in> set m. \<exists>ob. free k = Some ob \<and>
        (owned k \<or> unat (assoc_or_zero active k) + unat c \<le> unat (ve_free ob)))"
proof (induction m)
  case (Cons e m)
  obtain k c where e: "e = (k, c)" by force
  have "unat (assoc_or_zero active k) + unat c < 2 ^ 64"
    if "unat (assoc_or_zero active k) + unat c \<le> unat (ve_free ob)" for ob
    using that unat_less_64 [of "ve_free ob"] by linarith
  then show ?case
    using Cons.IH e
    by (auto simp: byte_size_add_exact word_less_nat_alt not_less unat_add_fits
        split: option.splits if_splits)
qed simp

lemma assoc_or_zero_mem: "distinct (map fst m) \<Longrightarrow> (k, c) \<in> set m \<Longrightarrow> assoc_or_zero m k = c"
  by (simp add: assoc_or_zero_def)

text \<open>
  A space check that passes leaves room on every volume for the markers and the plan together.
\<close>

lemma check_space_sound:
  assumes check: "check_space plan vs markers None = Inr ()"
    and ids: "distinct (map vp_id (cp_peaks plan))" "distinct (map ve_id vs)"
    and used: "charge_on vol (concat (map mr_volumes markers)) + charge_on vol (cp_peaks plan) \<noteq> 0"
  shows "\<exists>v \<in> set vs. ve_id v = vol \<and>
     charge_on vol (concat (map mr_volumes markers)) + charge_on vol (cp_peaks plan) \<le> unat (ve_free v)"
proof -
  let ?free = "map_of (rev (map (\<lambda>v. (ve_id v, v)) vs))"
  let ?vols = "concat (map mr_volumes markers)"
  from check obtain active charges where
    active: "add_charges [] ?vols = Inr active" and charges: "plan_charges [] (cp_peaks plan) = Inr charges"
    and ok: "check_active ?free active = Inr ()" "check_plan ?free active (\<lambda>_. False) charges = Inr ()"
    by (auto simp: check_space_def Let_def)
  have sums: "unat (assoc_or_zero active vol) = charge_on vol ?vols"
    and keys: "fst ` set active = vp_id ` set ?vols" and dist: "distinct (map fst active)"
    using add_charges_sound [OF active] by (simp_all add: assoc_or_zero_def)
  have plan: "(k, c) \<in> set charges \<longleftrightarrow> (\<exists>p \<in> set (cp_peaks plan). vp_id p = k \<and> peak_charge p = Inr c)" for k c
    using plan_charges_sound [OF charges ids(1)] by simp
  have all_charged: "\<exists>c. peak_charge p = Inr c" if "p \<in> set (cp_peaks plan)" for p
  proof -
    have "plan_charges m ps = Inr m' \<Longrightarrow> p \<in> set ps \<Longrightarrow> \<exists>c. peak_charge p = Inr c" for m ps m'
      by (induction ps arbitrary: m) auto
    then show ?thesis using charges that by blast
  qed
  show ?thesis
  proof (cases "vol \<in> vp_id ` set (cp_peaks plan)")
    case True
    then obtain p where p: "p \<in> set (cp_peaks plan)" "vp_id p = vol" by auto
    then obtain c where c: "peak_charge p = Inr c" using all_charged by blast
    then have "(vol, c) \<in> set charges" using p plan by auto
    then obtain ob where "?free vol = Some ob" "charge_on vol ?vols + unat c \<le> unat (ve_free ob)"
      using ok(2) sums by (auto simp: check_plan_iff)
    then show ?thesis
      using map_of_evidence [OF ids(2)] charge_on_distinct [OF ids(1) p(1)] peak_charge_nat [OF c] p(2)
      by auto
  next
    case False
    then have none: "charge_on vol (cp_peaks plan) = 0" by (rule charge_on_absent)
    then have "charge_on vol ?vols \<noteq> 0"
      using used by simp
    then have "vol \<in> fst ` set active"
      unfolding keys by (rule contrapos_np) (rule charge_on_absent)
    then obtain c where "(vol, c) \<in> set active" by auto
    then have c: "assoc_or_zero active vol = c"
      by (rule assoc_or_zero_mem [OF dist])
    from \<open>(vol, c) \<in> set active\<close> obtain ob where ob: "?free vol = Some ob" "c \<le> ve_free ob"
      using ok(1) unfolding check_active_iff by blast
    then have "unat c \<le> unat (ve_free ob)"
      by (simp only: word_le_nat_alt)
    then show ?thesis
      using ob(1) map_of_evidence [OF ids(2), of vol ob] sums none c by auto
  qed
qed

subsection \<open>Markers survive their file\<close>

lemma json_string_valid: "utf8_valid s \<Longrightarrow> json_string s = s"
proof -
  assume valid: "utf8_valid s"
  have "json_string s = concat (map snd (rune_chunks s))"
    using valid
  proof (induction s rule: utf8_valid.induct)
    case 1
    then show ?case by (simp add: json_string_def)
  next
    case (2 c cs)
    let ?s = "c # cs"
    have size: "rune_size ?s \<le> length ?s" "0 < rune_size ?s"
      using rune_size_le_length [of ?s] rune_size_pos by simp_all
    have not_bad: "\<not> (rune_size ?s = 1 \<and> 128 \<le> byte c)" and rest: "utf8_valid (drop (rune_size ?s) ?s)"
      using "2.prems" by (simp_all add: utf8_valid.simps(2) split: if_splits)
    have good: "\<not> (fst (decode_rune ?s) = rune_error \<and> length (take (rune_size ?s) ?s) = 1)"
    proof (cases "byte c < 128")
      case True
      then have "fst (decode_rune ?s) = byte c"
        using rune_chunks_ascii_Cons [of c cs] by (simp add: rune_chunks.simps(2))
      then show ?thesis using True by (simp add: rune_error_def)
    next
      case False
      then show ?thesis using not_bad size by simp
    qed
    have "json_string (drop (rune_size ?s) ?s) = concat (map snd (rune_chunks (drop (rune_size ?s) ?s)))"
      using "2.IH" not_bad rest by blast
    moreover have "json_string ?s = take (rune_size ?s) ?s @ json_string (drop (rune_size ?s) ?s)"
      using good by (simp only: json_string_def rune_chunks.simps(2) list.map concat.simps
          case_prod_conv if_False)
    ultimately show ?case
      by (simp only: rune_chunks.simps(2) list.map concat.simps snd_conv)
  qed
  then show ?thesis
    by (simp only: rune_chunks_concat)
qed

text \<open>The texts of a plan that JSON keeps.\<close>

definition plan_texts_utf8 :: "capacity_plan \<Rightarrow> bool" where
  "plan_texts_utf8 plan \<longleftrightarrow>
     utf8_valid (cp_operation plan) \<and> opt_all utf8_valid (cp_repository plan)
     \<and> (\<forall>p \<in> set (cp_peaks plan). utf8_valid (vp_id p))"

lemma hex_encode_utf8: "utf8_valid (hex_encode b)"
  using hex_encode_valid_text [of b] by (simp add: valid_text_code)

lemma reserved_utf8: "utf8_valid ''reserved''"
  by (rule ascii_runes [THEN conjunct1]) (simp add: byte_def)

lemma json_marker_plan:
  assumes "plan_texts_utf8 plan" "plan_digest plan = Inr digest"
  shows "json_marker (marker_record_from_plan plan digest (hex_encode b) version now)
    = marker_record_from_plan plan digest (hex_encode b) version now"
proof -
  have "utf8_valid digest"
    using assms(2) by (auto simp: plan_digest_def split: if_splits)
  moreover have "map (\<lambda>v. v\<lparr>vp_id := json_string (vp_id v)\<rparr>) (cp_peaks plan) = cp_peaks plan"
    using assms(1) by (intro map_idI) (simp add: plan_texts_utf8_def json_string_valid)
  moreover have "json_string [] = []"
    by (simp add: json_string_def)
  ultimately show ?thesis
    using assms(1)
    by (cases "cp_repository plan")
      (simp_all add: json_marker_def marker_record_from_plan_def plan_texts_utf8_def json_string_valid
        hex_encode_utf8 reserved_utf8)
qed

subsection \<open>One reservation\<close>

lemma reserve_decisionD:
  assumes "reserve_decision env d plan policy evidence = Inr (digest, nonce)"
  shows "plan_admissible policy plan evidence" "plan_digest plan = Inr digest"
    "\<exists>b. me_nonce env = Some b \<and> nonce = hex_encode b"
    "\<exists>rs. load_markers d = Inr rs \<and> check_space plan (evidence_list evidence) rs None = Inr ()"
  using assms
  by (auto simp: reserve_decision_def validate_capacity_plan_iff new_nonce_def locked_markers_def
      split: if_splits option.splits)

lemma evidence_list_distinct:
  "plan_admissible policy plan evidence \<Longrightarrow> distinct (map ve_id (evidence_list evidence))"
  by (auto simp: plan_admissible_def evidence_list_def evidence_ok_def split: option.splits)

text \<open>What a reservation may leave behind still fits: its own marker, or what was there before.\<close>

lemma reserve_commits:
  assumes "plan_texts_utf8 plan"
  shows "dir_charge (fst (reserve env d plan policy evidence)) vol \<le> dir_charge d vol
    \<or> (\<exists>v \<in> set (evidence_list evidence). ve_id v = vol \<and>
         dir_charge (fst (reserve env d plan policy evidence)) vol \<le> unat (ve_free v))"
proof (cases "reserve_decision env d plan policy evidence")
  case (Inl e)
  then show ?thesis by (simp add: reserve_def)
next
  case (Inr dn)
  obtain digest nonce where dn: "dn = (digest, nonce)" by force
  note decided = reserve_decisionD [OF Inr [unfolded dn]]
  obtain b where nonce: "nonce = hex_encode b" using decided(3) by blast
  obtain rs where rs: "load_markers d = Inr rs"
      "check_space plan (evidence_list evidence) rs None = Inr ()"
    using decided(4) by blast
  have ids: "distinct (map vp_id (cp_peaks plan))"
    using decided(1) by (simp add: plan_admissible_def)
  let ?r = "marker_record_from_plan plan digest nonce (rp_version policy) (me_now env)"
  let ?d' = "fst (reserve env d plan policy evidence)"
  have json: "json_marker ?r = ?r"
    unfolding nonce by (rule json_marker_plan [OF assms decided(2)])
  have "?d' \<in> {d, insort_key fst (nonce @ ''.json'', MarkerFile ?r) d,
      insort_key fst (nonce @ ''.json'', ForeignEntry) d}"
    using Inr dn json
    by (auto simp: reserve_def Let_def write_marker_def split: write_outcome.splits)
  then have charge: "dir_charge ?d' vol \<le> dir_charge d vol
      \<or> dir_charge ?d' vol = charge_on vol (cp_peaks plan) + dir_charge d vol"
    by (auto simp: marker_record_from_plan_def)
  show ?thesis
  proof (cases "dir_charge ?d' vol \<le> dir_charge d vol")
    case False
    then have "dir_charge ?d' vol = charge_on vol (cp_peaks plan) + dir_charge d vol"
      using charge by blast
    then show ?thesis
      using False check_space_sound [OF rs(2) ids evidence_list_distinct [OF decided(1)], of vol]
        load_markers_charge [OF rs(1), of vol]
      by (simp add: add.commute)
  qed simp
qed

text \<open>
  A reservation never overcommits: when \<^verbatim>\<open>Reserve\<close> returns a handle, the markers of the
  directory, the new one among them, charge every volume at most the free space observed there, and
  a volume that carries a charge has been observed.
\<close>

theorem reserve_never_overcommits:
  assumes "reserve env d plan policy evidence = (d', Inr r)" "plan_texts_utf8 plan"
    and "dir_charge d' vol \<noteq> 0"
  shows "\<exists>v \<in> set (evidence_list evidence). ve_id v = vol \<and> dir_charge d' vol \<le> unat (ve_free v)"
proof -
  from assms(1) obtain digest nonce where
    dn: "reserve_decision env d plan policy evidence = Inr (digest, nonce)"
    by (auto simp: reserve_def split: sum.splits)
  note decided = reserve_decisionD [OF dn]
  obtain b where nonce: "nonce = hex_encode b" using decided(3) by blast
  obtain rs where rs: "load_markers d = Inr rs"
      "check_space plan (evidence_list evidence) rs None = Inr ()"
    using decided(4) by blast
  have json: "json_marker (marker_record_from_plan plan digest nonce version now)
      = marker_record_from_plan plan digest nonce version now" for version now
    unfolding nonce by (rule json_marker_plan [OF assms(2) decided(2)])
  have "d' = insort_key fst (nonce @ ''.json'',
      MarkerFile (marker_record_from_plan plan digest nonce (rp_version policy) (me_now env))) d"
    using assms(1) dn json
    by (auto simp: reserve_def Let_def write_marker_def split: write_outcome.splits if_splits)
  then have "dir_charge d' vol = charge_on vol (concat (map mr_volumes rs)) + charge_on vol (cp_peaks plan)"
    using load_markers_charge [OF rs(1), of vol] by (simp add: marker_record_from_plan_def)
  moreover have "distinct (map vp_id (cp_peaks plan))"
    using decided(1) by (simp add: plan_admissible_def)
  ultimately show ?thesis
    using check_space_sound [OF rs(2) _ evidence_list_distinct [OF decided(1)], of vol] assms(3)
    by simp
qed

subsection \<open>Any number of processes\<close>

lemma remove_marker_charge: "dir_charge (fst (remove_marker env d name)) vol \<le> dir_charge d vol"
  using dir_charge_filter
  by (simp add: remove_marker_def split: option.splits marker_file.splits remove_outcome.splits)

lemma release_charge: "dir_charge (fst (release env d r plan policy)) vol \<le> dir_charge d vol"
  using remove_marker_charge by (simp add: release_def split: sum.splits)

lemma reconcile_charge: "dir_charge (fst (reconcile env d r plan policy pf)) vol \<le> dir_charge d vol"
  using remove_marker_charge by (simp add: reconcile_def split: sum.splits)

text \<open>
  One operation of one process. The observed free space never exceeds \<open>room\<close>, the size of the
  volume.
\<close>

inductive marker_step :: "(bytes \<Rightarrow> nat) \<Rightarrow> marker_dir \<Rightarrow> marker_dir \<Rightarrow> bool" for room where
  step_reserve:
    "plan_texts_utf8 plan
     \<Longrightarrow> (\<And>v. v \<in> set (evidence_list evidence) \<Longrightarrow> unat (ve_free v) \<le> room (ve_id v))
     \<Longrightarrow> marker_step room d (fst (reserve env d plan policy evidence))"
| step_release: "marker_step room d (fst (release env d r plan policy))"
| step_reconcile: "marker_step room d (fst (reconcile env d r plan policy pf))"

lemma marker_step_fits:
  assumes "\<forall>vol. dir_charge d vol \<le> room vol" "marker_step room d d'"
  shows "\<forall>vol. dir_charge d' vol \<le> room vol"
proof
  fix vol
  from assms(2) show "dir_charge d' vol \<le> room vol"
  proof cases
    case (step_reserve plan evidence env policy)
    then show ?thesis
      using reserve_commits [of plan env d policy evidence vol] assms(1) by (fastforce intro: le_trans)
  next
    case (step_release env r plan policy)
    then show ?thesis
      using release_charge assms(1) le_trans by blast
  next
    case (step_reconcile env r plan policy pf)
    then show ?thesis
      using reconcile_charge assms(1) le_trans by blast
  qed
qed

interpretation markers:
  store_invariant "[]" "marker_step room" "\<lambda>d. \<forall>vol. dir_charge d vol \<le> room vol" for room
  by unfold_locales (simp add: dir_charge_def, rule marker_step_fits)

text \<open>
  C24. Reservations of any number of processes, admitted, released, reconciled and interrupted in any
  order, never commit more on a volume than the volume has room for.
\<close>

theorem reservations_fit_volumes:
  assumes "(marker_step room)\<^sup>*\<^sup>* [] d"
  shows "dir_charge d vol \<le> room vol"
  using markers.reachable [OF assms] by blast

subsection \<open>Owners\<close>

lemma owned_markerD:
  assumes "owned_marker env d r plan policy = Inr ()"
  shows "\<exists>m. (rs_marker r, MarkerFile m) \<in> set d \<and> (\<forall>e \<in> set d. entry_ok e)
    \<and> mr_operation m = rs_operation r \<and> mr_repository m = rs_repository r
    \<and> plan_digest plan = Inr (mr_plan_digest m)"
proof -
  from assms obtain digest rs m where
    handle: "validate_handle r plan policy = Inr digest" and rs: "load_markers d = Inr rs"
    and found: "find_marker rs (rs_marker r) = Some m" and owner: "verify_marker_owner m r plan = Inr ()"
    by (auto simp: owned_marker_def locked_markers_def split: option.splits if_splits)
  have entries: "\<forall>e \<in> set d. entry_ok e" "rs = map record_of d"
    using rs by (simp_all add: load_markers_iff)
  have "m \<in> set rs" "mr_nonce m @ ''.json'' = rs_marker r"
    using found by (auto simp: find_marker_def find_Some_iff split: if_splits)
  then obtain e where e: "e \<in> set d" "record_of e = m"
    using entries(2) by auto
  then have "e = (rs_marker r, MarkerFile m)"
    using entries(1) \<open>mr_nonce m @ ''.json'' = rs_marker r\<close> by (cases e rule: entry_ok.cases) auto
  then show ?thesis
    using e entries(1) handle owner
    by (auto simp: validate_handle_def verify_marker_owner_def split: sum.splits if_splits)
qed

text \<open>
  Only the owner's marker goes: when a release or a reconciliation changes the directory, every
  entry was a well-formed marker, and exactly the entry named by the handle is gone, a marker of the
  same operation and repository whose digest is that of the plan presented.
\<close>

theorem only_owner_marker_removed:
  assumes "d' \<noteq> d"
    and "d' = fst (release env d r plan policy) \<or> d' = fst (reconcile env d r plan policy pf)"
  shows "d' = filter (\<lambda>e. fst e \<noteq> rs_marker r) d
    \<and> (\<exists>m. (rs_marker r, MarkerFile m) \<in> set d \<and> mr_operation m = rs_operation r
         \<and> mr_repository m = rs_repository r \<and> plan_digest plan = Inr (mr_plan_digest m))"
proof -
  have owned: "owned_marker env d r plan policy = Inr ()" and gone: "d' = fst (remove_marker env d (rs_marker r))"
    using assms by (auto simp: release_def reconcile_def split: sum.splits if_splits)
  have "d' = filter (\<lambda>e. fst e \<noteq> rs_marker r) d"
    using gone assms(1)
    by (auto simp: remove_marker_def split: if_splits option.splits marker_file.splits remove_outcome.splits)
  then show ?thesis
    using owned_markerD [OF owned] by blast
qed

text \<open>A reconciliation without both proofs removes nothing; neither does anything when a foreign entry is present.\<close>

lemma reconcile_needs_proof:
  "\<not> (rc_owner_lock_reconciled pf \<and> rc_operation_journal_done pf)
   \<Longrightarrow> reconcile env d r plan policy pf = (d, Inl ErrReservationNotReady)"
  by (auto simp: reconcile_def)

subsection \<open>Reserve, then release\<close>

lemma base_name_plain: "p \<noteq> [] \<Longrightarrow> SLASH \<notin> set p \<Longrightarrow> base_name p = p"
proof -
  assume p: "p \<noteq> []" "SLASH \<notin> set p"
  then have "dropWhile (\<lambda>c. c = SLASH) (rev p) = rev p"
    by (cases p rule: rev_cases) auto
  then show ?thesis
    using p by (simp add: base_name_def split_on_free)
qed

lemma valid_nonce_name:
  assumes "length b = 16"
  shows "valid_marker_name (hex_encode b @ ''.json'')"
proof -
  have "byte SLASH = 47"
    by (simp add: byte_def)
  then have "SLASH \<notin> set (hex_encode b)"
    using hex_encode_lower [of SLASH b] by auto
  then have "base_name (hex_encode b @ ''.json'') = hex_encode b @ ''.json''"
    by (intro base_name_plain) simp_all
  then show ?thesis
    using assms by (simp add: valid_marker_name_def hex_decode_encode)
qed

lemma insort_facts:
  assumes "name \<notin> fst ` set d"
  shows "map_of (insort_key fst (name, f) d) name = Some f"
    and "filter (\<lambda>e. fst e \<noteq> name) (insort_key fst (name, f) d) = d"
  using assms by (induction d) (auto simp: filter_id_conv)

lemma find_inserted:
  assumes "\<forall>e \<in> set d. entry_ok e" "name \<notin> fst ` set d" "mr_nonce m @ ''.json'' = name"
  shows "find (\<lambda>r. mr_nonce r @ ''.json'' = name) (map record_of (insort_key fst (name, MarkerFile m) d)) = Some m"
  using assms(1,2)
proof (induction d)
  case Nil
  then show ?case using assms(3) by simp
next
  case (Cons e d)
  then have "mr_nonce (record_of e) @ ''.json'' \<noteq> name"
    by (cases e rule: entry_ok.cases) auto
  then show ?case
    using Cons assms(3) by simp
qed

lemma marker_volumes_ok_iff:
  "marker_volumes_ok seen vs \<longleftrightarrow>
     distinct (map vp_id vs) \<and> vp_id ` set vs \<inter> seen = {}
     \<and> (\<forall>v \<in> set vs. vp_id v \<noteq> [] \<and> true_charge v < 2 ^ 64)"
  by (induction vs arbitrary: seen) (auto simp: peak_charge_exact)

lemma planned_marker_valid:
  assumes "plan_admissible policy plan evidence" "plan_digest plan = Inr digest" "0 < now" "nonce \<noteq> []"
  shows "validate_marker (marker_record_from_plan plan digest nonce (rp_version policy) now)"
  using assms
  by (auto simp: validate_marker_def marker_record_from_plan_def plan_admissible_def
      marker_volumes_ok_iff plan_digest_def resource_policy_valid_def split: if_splits)

lemma reserve_release:
  assumes "reserve env d plan policy evidence = (d', Inr r)" "plan_texts_utf8 plan"
    and "me_nonce env = Some b" "length b = 16" "0 < me_now env"
    and "me_present env'" "me_locked env'" "me_listed env'" "me_remove env' = Removed"
  shows "release env' d' r plan policy = (d, Inr ())"
proof -
  let ?name = "hex_encode b @ ''.json''"
  from assms(1) obtain digest nonce where
    dn: "reserve_decision env d plan policy evidence = Inr (digest, nonce)"
    by (auto simp: reserve_def split: sum.splits)
  note decided = reserve_decisionD [OF dn]
  have nonce: "nonce = hex_encode b" using decided(3) assms(3) by simp
  let ?m = "marker_record_from_plan plan digest (hex_encode b) (rp_version policy) (me_now env)"
  have entries: "\<forall>e \<in> set d. entry_ok e"
    using decided(4) by (auto simp: load_markers_iff)
  have new: "?name \<notin> fst ` set d" and d': "d' = insort_key fst (?name, MarkerFile ?m) d"
    and r: "new_capacity_reservation ?name (cp_operation plan) (repository_text plan) digest (rp_version policy) = Inr r"
    using assms(1) dn json_marker_plan [OF assms(2) decided(2)] nonce
    by (auto simp: reserve_def Let_def write_marker_def split: write_outcome.splits if_splits)
  have name_ok: "valid_marker_name ?name"
    by (rule valid_nonce_name [OF assms(4)])
  have "hex_encode b \<noteq> []"
    using assms(4) by (cases b) auto
  then have m_ok: "validate_marker ?m"
    using planned_marker_valid [OF decided(1,2) assms(5)] by simp
  have m: "mr_nonce ?m = hex_encode b" "mr_operation ?m = cp_operation plan"
      "mr_repository ?m = repository_text plan" "mr_plan_digest ?m = digest"
    by (simp_all add: marker_record_from_plan_def repository_text_def)
  have rs: "load_markers d' = Inr (map record_of d')"
    using entries name_ok m_ok m(1) by (auto simp: load_markers_iff d' set_insort_key)
  have fields: "rs_marker r = ?name" "rs_operation r = cp_operation plan"
      "rs_repository r = repository_text plan" "rs_plan_digest r = digest"
      "rs_policy_version r = rp_version policy"
    using r by (auto simp: new_capacity_reservation_def split: if_splits)
  have "find_marker (map record_of d') ?name = Some ?m"
    using find_inserted [OF entries new, of ?m] m(1) name_ok by (simp add: find_marker_def d')
  then have "owned_marker env' d' r plan policy = Inr ()"
    using assms(7,8) rs fields name_ok decided(2) m
    by (simp add: owned_marker_def validate_handle_def locked_markers_def verify_marker_owner_def)
  moreover have "remove_marker env' d' ?name = (d, Inr ())"
    using name_ok assms(9) insort_facts [OF new] by (simp add: remove_marker_def d')
  ultimately show ?thesis
    using assms(6) fields(1) by (simp add: release_def)
qed

text \<open>
  A reservation can always be given back: the handle \<^verbatim>\<open>Reserve\<close> returned is accepted by
  \<^verbatim>\<open>Release\<close> under the same plan and policy, whatever process presents it, and the directory is
  then the one before the reservation.
\<close>

theorem reserve_release_roundtrip:
  assumes "reserve env d plan policy evidence = (d', Inr r)" "plan_texts_utf8 plan"
    and "me_nonce env = Some b" "length b = 16" "0 < me_now env"
    and "me_present env'" "me_locked env'" "me_listed env'" "me_remove env' = Removed"
  shows "release env' d' r plan policy = (d, Inr ())"
  using assms by (rule reserve_release)

subsection \<open>A concrete reservation\<close>

definition example_plan :: capacity_plan where
  "example_plan =
     \<lparr> cp_operation = ''op'', cp_repository = Some ''repo'', cp_artifacts = [],
       cp_peaks = [sample_peak ''v'' [0, 0, 0, 0, 0, 0, 0, 2147483648, 0]],
       cp_retained_delta = 0, cp_budget = \<lparr> cb_repository_used = 0, cb_global_used = 0 \<rparr>,
       cp_policy_version = 1 \<rparr>"

definition example_evidence :: volume_evidence where
  "example_evidence =
     \<lparr> ve_id = ''v'', ve_free = 4294967296, ve_mode = VolumeMonitored, ve_stable = True,
       ve_observed = 1 \<rparr>"

definition example_env :: marker_env where
  "example_env =
     \<lparr> me_present = True, me_locked = True, me_listed = True, me_nonce = Some (replicate 16 CHR ''n''),
       me_now = 1, me_write = Written, me_remove = Removed \<rparr>"

definition example_marker :: marker_record where
  "example_marker =
     marker_record_from_plan example_plan (sha256_hex (plan_preimage example_plan))
       (hex_encode (replicate 16 CHR ''n'')) (rp_version default_resource_policy) 1"

definition example_dir :: marker_dir where
  "example_dir = [(hex_encode (replicate 16 CHR ''n'') @ ''.json'', MarkerFile example_marker)]"

lemma example_admissible:
  "plan_admissible default_resource_policy example_plan (Some [example_evidence])"
  using default_policy_ok
  by (simp add: plan_admissible_def example_plan_def example_evidence_def evidence_ok_def
      sample_peak_def true_charge_def peak_classes_def default_resource_policy_def
      CurrentResourcePolicyVersion_def KiB_def MiB_def GiB_def)

lemma ascii_utf8: "list_all (\<lambda>c. byte c < 128) s \<Longrightarrow> utf8_valid s"
  by (simp add: ascii_runes)

lemma example_texts: "plan_texts_utf8 example_plan"
  by (simp add: plan_texts_utf8_def example_plan_def sample_peak_def ascii_utf8 byte_def)

lemma example_digest: "plan_digest example_plan = Inr (sha256_hex (plan_preimage example_plan))"
  by (rule admitted_plan_has_digest [OF example_admissible])

lemma example_space: "check_space example_plan [example_evidence] [] None = Inr ()"
  by (simp add: check_space_def example_plan_def example_evidence_def sample_peak_def Let_def
      peak_charge_exact true_charge_def peak_classes_def byte_size_add_exact assoc_or_zero_def)

lemma example_reserve:
  "\<exists>r. reserve example_env [] example_plan default_resource_policy (Some [example_evidence]) = (example_dir, Inr r)"
proof -
  have env: "me_present example_env" "me_locked example_env" "me_listed example_env"
      "me_nonce example_env = Some (replicate 16 CHR ''n'')" "me_write example_env = Written"
      "me_now example_env = 1"
    by (simp_all add: example_env_def)
  have valid: "validate_capacity_plan default_resource_policy example_plan (Some [example_evidence]) = Inr ()"
    by (simp only: validate_capacity_plan_iff example_admissible)
  have decided: "reserve_decision example_env [] example_plan default_resource_policy (Some [example_evidence])
      = Inr (sha256_hex (plan_preimage example_plan), hex_encode (replicate 16 CHR ''n''))"
    using env valid example_space
    by (simp add: reserve_decision_def example_digest locked_markers_def evidence_list_def new_nonce_def
        del: hex_encode.simps replicate.simps)
  have version: "rp_version default_resource_policy \<noteq> 0" and operation: "cp_operation example_plan = ''op''"
    by (simp_all add: default_resource_policy_def CurrentResourcePolicyVersion_def example_plan_def)
  have "json_marker example_marker = example_marker"
    unfolding example_marker_def by (rule json_marker_plan [OF example_texts example_digest])
  then show ?thesis
    using env decided version operation
    by (simp add: reserve_def Let_def write_marker_def example_dir_def new_capacity_reservation_def
        example_marker_def [symmetric] del: hex_encode.simps replicate.simps)
qed

theorem reserve_never_overcommits_witness:
  "dir_charge example_dir ''v'' = 2147483648 \<and> dir_charge example_dir ''v'' \<le> unat (ve_free example_evidence)"
proof -
  have charge: "dir_charge example_dir ''v'' = 2147483648"
    by (simp add: dir_charge_def example_dir_def example_marker_def marker_record_from_plan_def
        example_plan_def sample_peak_def true_charge_def peak_classes_def)
  obtain r where
    "reserve example_env [] example_plan default_resource_policy (Some [example_evidence]) = (example_dir, Inr r)"
    using example_reserve by blast
  from reserve_never_overcommits [OF this example_texts, of "''v''"] charge show ?thesis
    by (simp add: evidence_list_def)
qed

lemma example_reachable: "(marker_step (\<lambda>_. 4294967296))\<^sup>*\<^sup>* [] example_dir"
proof -
  have "marker_step (\<lambda>_. 4294967296) []
      (fst (reserve example_env [] example_plan default_resource_policy (Some [example_evidence])))"
    by (rule step_reserve [OF example_texts]) (simp add: evidence_list_def example_evidence_def)
  moreover obtain r where
    "reserve example_env [] example_plan default_resource_policy (Some [example_evidence]) = (example_dir, Inr r)"
    using example_reserve by blast
  ultimately show ?thesis by (simp add: r_into_rtranclp)
qed

theorem reservations_fit_volumes_witness:
  "example_dir \<noteq> [] \<and> dir_charge example_dir ''v'' \<le> 4294967296"
  using reservations_fit_volumes [OF example_reachable, of "''v''"] by (simp add: example_dir_def)

theorem reserve_release_roundtrip_witness:
  "\<exists>r. release example_env example_dir r example_plan default_resource_policy = ([], Inr ())"
proof -
  obtain r where
    "reserve example_env [] example_plan default_resource_policy (Some [example_evidence]) = (example_dir, Inr r)"
    using example_reserve by blast
  from reserve_release_roundtrip [OF this example_texts, of _ example_env] show ?thesis
    by (auto simp: example_env_def)
qed

lemma example_release:
  "\<exists>r. release example_env example_dir r example_plan default_resource_policy = ([], Inr ())"
proof -
  obtain r where
    "reserve example_env [] example_plan default_resource_policy (Some [example_evidence]) = (example_dir, Inr r)"
    using example_reserve by blast
  from reserve_release [OF this example_texts, of _ example_env] show ?thesis
    by (auto simp: example_env_def)
qed

theorem only_owner_marker_removed_witness:
  "\<exists>name m. (name, MarkerFile m) \<in> set example_dir \<and> plan_digest example_plan = Inr (mr_plan_digest m)"
proof -
  obtain r where "release example_env example_dir r example_plan default_resource_policy = ([], Inr ())"
    using example_release by blast
  then have "fst (release example_env example_dir r example_plan default_resource_policy) \<noteq> example_dir"
    by (simp add: example_dir_def)
  from only_owner_marker_removed [OF this] show ?thesis by blast
qed

end
