(* ===== verification/Ledger_Runs.thy ===== *)
theory Ledger_Runs
  imports Ledger_Views Reservation_Safety
begin

text \<open>
  Runs of the ledger: any sequence of recordings, settlements, releases and purges, each against a
  database that may be closed, busy or failing. The invariant of the rows and the totals holds after
  every one of them.
\<close>

datatype ledger_op =
    OpRecord reservation_record | OpSettle reservation_settlement | OpRelease reservation_release
  | OpPurge bytes

fun ledger_step :: "ledger_env \<Rightarrow> ledger_op \<Rightarrow> ledger \<Rightarrow> ledger \<times> unit ledger_result" where
  "ledger_step env (OpRecord r) g = record_reservation env r g"
| "ledger_step env (OpSettle s) g = settle_reservation env s g"
| "ledger_step env (OpRelease r) g = release_reservation env r g"
| "ledger_step env (OpPurge i) g = purge_repository i g"

definition ledger_run :: "(ledger_env \<times> ledger_op) list \<Rightarrow> ledger \<Rightarrow> ledger" where
  "ledger_run steps g = fold (\<lambda>(env, op) g. fst (ledger_step env op g)) steps g"

subsection \<open>The rows\<close>

text \<open>Every artifact is accepted, valid and owned by a reservation of its repository.\<close>

definition rows_ok :: "ledger \<Rightarrow> bool" where
  "rows_ok g \<longleftrightarrow>
     (\<forall>a \<in> set (lg_artifacts g). owned_artifact_valid a \<and> oa_lifecycle a = ArtifactAccepted
        \<and> (oa_reservation a, oa_repository a)
            \<in> (\<lambda>r. (rw_reservation r, rw_repository r)) ` set (lg_reservations g))"

definition ledger_inv :: "ledger \<Rightarrow> bool" where
  "ledger_inv g \<longleftrightarrow> ledger_ok g \<and> rows_ok g"

lemma ledger_tx_cases:
  "ledger_tx n attempts body g = (g', res) \<Longrightarrow>
     g' = g \<and> (\<exists>e. res = Inl e) \<or> body g = Inr g' \<and> res = Inr ()"
  by (induction n attempts body g rule: ledger_tx.induct) (auto split: sum.splits)

lemma rows_ok_same:
  "rows_ok g \<Longrightarrow> lg_reservations g' = lg_reservations g \<Longrightarrow> lg_artifacts g' = lg_artifacts g \<Longrightarrow> rows_ok g'"
  by (simp add: rows_ok_def)

text \<open>What each operation does to the rows when it goes through.\<close>

lemma save_both_rows:
  "save_both g global repository = Inr g' \<Longrightarrow>
     lg_reservations g' = lg_reservations g \<and> lg_artifacts g' = lg_artifacts g"
  by (auto simp: save_both_def dest!: save_totals_Inr split: option.splits)

lemma record_body_rows:
  assumes "record_body r vs g = Inr g'"
  shows "lg_artifacts g' = lg_artifacts g \<and>
    (lg_reservations g' = lg_reservations g \<or>
     lg_reservations g' = lg_reservations g @ [new_reservation_row r])"
proof (cases "g' = g")
  case False
  with replay_or_Inr [OF assms [unfolded record_body_def Let_def]]
  obtain global repository g1 global' repository' g2 hash where
    "insert_reservation g (new_reservation_row r) vs = Inr g1"
    "save_both g1 global' repository' = Inr g2"
    "insert_ledger_operation g2 LedgerReserve (rr_key r) (rs_marker (rr_reservation r)) hash = Inr g'"
    by (auto split: if_splits prod.splits)
  then show ?thesis
    using save_both_rows insert_ledger_operation_Inr
    by (auto simp: insert_reservation_def split: if_splits)
qed simp

lemma settle_body_rows:
  assumes "settle_body s g = Inr g'"
  shows "g' = g \<or> (\<exists>row. load_reservation g (se_reservation s) = Inr row
    \<and> rw_state row = ReservationActive \<and> settle_artifacts_match g row (se_artifacts s)
    \<and> lg_artifacts g' = lg_artifacts g @ se_artifacts s
    \<and> lg_reservations g' = lg_reservations (set_reservation_state (se_reservation s) ReservationConsumed g))"
proof (cases "g' = g")
  case False
  with replay_or_Inr [OF assms [unfolded settle_body_def Let_def]]
  obtain row global' repository' g2 hash where
    "load_reservation g (se_reservation s) = Inr row" "rw_state row = ReservationActive"
    "settle_artifacts_match g row (se_artifacts s)"
    "save_both (g\<lparr>lg_artifacts := lg_artifacts g @ se_artifacts s\<rparr>) global' repository' = Inr g2"
    "insert_ledger_operation (set_reservation_state (se_reservation s) ReservationConsumed g2)
       LedgerSettle (se_key s) (se_reservation s) hash = Inr g'"
    by (auto split: if_splits prod.splits)
  then show ?thesis
    using save_both_rows insert_ledger_operation_Inr by (fastforce simp: set_reservation_state_def)
qed simp

lemma release_body_rows:
  assumes "release_body r g = Inr g'"
  shows "lg_artifacts g' = lg_artifacts g \<and>
    (lg_reservations g' = lg_reservations g \<or>
     lg_reservations g' = lg_reservations (set_reservation_state (rl_reservation r) ReservationReleased g))"
  using release_body_cases [OF assms] save_both_rows insert_ledger_operation_Inr
  by (fastforce simp: set_reservation_state_def)

lemma state_changed_owners:
  "(\<lambda>r. (rw_reservation r, rw_repository r)) ` set (lg_reservations (set_reservation_state rid s g))
     = (\<lambda>r. (rw_reservation r, rw_repository r)) ` set (lg_reservations g)"
proof -
  have "map (\<lambda>r. (rw_reservation r, rw_repository r)) (lg_reservations (set_reservation_state rid s g))
      = map (\<lambda>r. (rw_reservation r, rw_repository r)) (lg_reservations g)"
    by (simp add: set_reservation_state_def comp_def if_distrib cong: if_cong)
  then show ?thesis
    by (metis list.set_map)
qed

subsection \<open>Each operation keeps the invariant\<close>

lemma record_inv:
  assumes "ledger_inv g"
  shows "ledger_inv (fst (record_reservation env r g))"
proof -
  have "ledger_inv g'" if "record_body r vs g = Inr g'" for vs g'
    using assms that record_body_ok record_body_rows [OF that]
    by (auto simp: ledger_inv_def rows_ok_def)
  then show ?thesis
    using assms ledger_tx_cases
    by (simp add: record_reservation_def with_ledger_tx_def split: sum.split)
      (metis prod.collapse)
qed

lemma settle_inv:
  assumes "ledger_inv g"
  shows "ledger_inv (fst (settle_reservation env s g))"
proof -
  have "ledger_inv g'" if "settle_body s g = Inr g'" and "reservation_settlement_valid s" for g'
  proof -
    have valid: "distinct (map oa_artifact (se_artifacts s))"
        "\<forall>a \<in> set (se_artifacts s). owned_artifact_valid a \<and> oa_reservation a = se_reservation s"
      using that(2) by (auto simp: reservation_settlement_valid_def settlement_artifacts_ok_iff)
    have "rows_ok g'"
      using settle_body_rows [OF that(1)]
    proof (elim disjE exE conjE)
      fix row
      assume row: "load_reservation g (se_reservation s) = Inr row"
          "settle_artifacts_match g row (se_artifacts s)"
          "lg_artifacts g' = lg_artifacts g @ se_artifacts s"
          "lg_reservations g' = lg_reservations (set_reservation_state (se_reservation s) ReservationConsumed g)"
      have owner: "(se_reservation s, rw_repository row)
          \<in> (\<lambda>r. (rw_reservation r, rw_repository r)) ` set (lg_reservations g)"
        using load_reservation_Inr [OF row(1)] by force
      show ?thesis
        using assms row(2) valid(2) owner
        unfolding rows_ok_def row(3,4) state_changed_owners ledger_inv_def
        by (auto simp: settle_artifacts_match_iff)
    qed (use assms in \<open>simp add: ledger_inv_def\<close>)
    then show ?thesis
      using settle_body_ok [OF _ that(1) valid(1)] assms by (simp add: ledger_inv_def)
  qed
  then show ?thesis
    using assms ledger_tx_cases
    by (simp add: settle_reservation_def with_ledger_tx_def split: sum.split)
      (metis prod.collapse)
qed

lemma release_inv:
  assumes "ledger_inv g"
  shows "ledger_inv (fst (release_reservation env r g))"
proof -
  have "ledger_inv g'" if "release_body r g = Inr g'" for g'
  proof -
    have "(\<lambda>r. (rw_reservation r, rw_repository r)) ` set (lg_reservations g')
        = (\<lambda>r. (rw_reservation r, rw_repository r)) ` set (lg_reservations g)"
      using release_body_rows [OF that] by (elim conjE disjE) (simp_all only: state_changed_owners)
    then show ?thesis
      using assms release_body_ok [OF _ that] release_body_rows [OF that]
      unfolding ledger_inv_def rows_ok_def by simp
  qed
  then show ?thesis
    using assms ledger_tx_cases
    by (simp add: release_reservation_def with_ledger_tx_def split: sum.split)
      (metis prod.collapse)
qed

subsection \<open>Purging recomputes what is there\<close>

lemma sum_list_filter_if:
  "sum_list (map (\<lambda>x. if P x then f x else (0 :: nat)) xs) = sum_list (map f (filter P xs))"
  by (induction xs) auto

lemma active_total_sum: "active_total g = active_sum (lg_reservations g) None"
  by (simp add: active_total_def active_sum_def scope_covers_def sum_list_filter_if)

lemma artifact_total_sum: "artifact_total f g = artifact_sum f (lg_artifacts g) None"
  by (simp add: artifact_total_def artifact_sum_def scope_covers_def)

lemma artifact_sum_mono:
  "\<forall>a \<in> set as. unat (f a) \<le> unat (h a) \<Longrightarrow> artifact_sum f as scope \<le> artifact_sum h as scope"
  unfolding artifact_sum_def by (intro sum_list_mono) auto

lemma unat_of_small: "n < 2 ^ 63 \<Longrightarrow> unat (of_nat n :: u64) = n"
  by (simp add: unsigned_of_nat take_bit_eq_mod)

lemma of_nat_unat_u64: "of_nat (unat (w :: u64)) = w"
  by simp

text \<open>The sums over the rows fit, so that the totals can be rewritten from them.\<close>

lemma small_sums:
  assumes "rows_ok g" "scope_used g None < soft_budget None"
  shows "artifact_total oa_logical g < 2 ^ 63 \<and> artifact_total oa_observed g < 2 ^ 63
    \<and> artifact_total oa_charged g < 2 ^ 63 \<and> active_total g < 2 ^ 63 \<and> uncertain_total g = 0"
proof -
  have charged: "artifact_total oa_charged g < 2 ^ 37" and active: "active_total g < 2 ^ 37"
    using assms(2) by (simp_all add: scope_used_def artifact_total_sum active_total_sum soft_budget_def)
  have "\<forall>a \<in> set (lg_artifacts g). unat (oa_logical a) \<le> unat (oa_charged a)
      \<and> unat (oa_observed a) \<le> unat (oa_charged a)"
    using assms(1) charge_is_max by (auto simp: rows_ok_def word_le_nat_alt [symmetric])
  then have "artifact_total oa_logical g \<le> artifact_total oa_charged g"
      "artifact_total oa_observed g \<le> artifact_total oa_charged g"
    unfolding artifact_total_sum by (simp_all add: artifact_sum_mono)
  moreover have "uncertain_total g = 0"
    using assms(1) by (auto simp: uncertain_total_def rows_ok_def filter_empty_conv)
  ultimately show ?thesis
    using charged active by simp
qed

lemma totals_of_rows [simp]:
  "active_total (g\<lparr>lg_totals := x\<rparr>) = active_total g"
  "artifact_total f (g\<lparr>lg_totals := x\<rparr>) = artifact_total f g"
  by (simp_all add: active_total_def artifact_total_def)

lemma totals_up_to_revision:
  "to_repository a = to_repository b \<Longrightarrow> to_logical a = to_logical b \<Longrightarrow> to_observed a = to_observed b
   \<Longrightarrow> to_charged a = to_charged b \<Longrightarrow> to_reserved a = to_reserved b
   \<Longrightarrow> to_uncertain a = to_uncertain b \<Longrightarrow> (a :: storage_totals) = b\<lparr>to_revision := to_revision a\<rparr>"
  by simp

lemma refresh_rows:
  assumes "rows_ok g" "scope_used g None < soft_budget None"
  shows "\<exists>g'. refresh_global_totals g = Inr g' \<and> lg_reservations g' = lg_reservations g
    \<and> lg_artifacts g' = lg_artifacts g \<and> totals_exact g' None
    \<and> (\<forall>scope. scope \<noteq> None \<longrightarrow> load_one_total g' scope = load_one_total g scope)"
  using small_sums [OF assms]
  by (simp add: refresh_global_totals_def totals_exact_def Let_def load_one_total_def
      artifact_total_sum [symmetric] active_total_sum [symmetric] unat_of_small)

text \<open>On exact totals the recomputation changes nothing but the revision.\<close>

lemma refresh_exact:
  assumes "rows_ok g" "totals_exact g None" "scope_used g None < soft_budget None"
  shows "\<exists>g' revision. refresh_global_totals g = Inr g'
    \<and> load_one_total g' None = (load_one_total g None)\<lparr>to_revision := revision\<rparr>"
proof -
  have "to_logical (load_one_total g None) = of_nat (artifact_total oa_logical g)"
      "to_observed (load_one_total g None) = of_nat (artifact_total oa_observed g)"
      "to_charged (load_one_total g None) = of_nat (artifact_total oa_charged g)"
      "to_reserved (load_one_total g None) = of_nat (active_total g)"
      "to_uncertain (load_one_total g None) = 0"
    using assms(2) unfolding totals_exact_def Let_def artifact_total_sum active_total_sum
    by (metis of_nat_unat_u64)+
  note fields = this
  obtain g' where g': "refresh_global_totals g = Inr g'"
      "to_repository (load_one_total g' None) = None"
      "to_logical (load_one_total g' None) = of_nat (artifact_total oa_logical g)"
      "to_observed (load_one_total g' None) = of_nat (artifact_total oa_observed g)"
      "to_charged (load_one_total g' None) = of_nat (artifact_total oa_charged g)"
      "to_reserved (load_one_total g' None) = of_nat (active_total g)"
      "to_uncertain (load_one_total g' None) = 0"
    using small_sums [OF assms(1,3)] by (simp add: refresh_global_totals_def load_one_total_def)
  have "load_one_total g' None = (load_one_total g None)\<lparr>to_revision := to_revision (load_one_total g' None)\<rparr>"
    by (rule totals_up_to_revision) (simp_all only: g' fields load_one_total_scope)
  then show ?thesis
    using g'(1) by blast
qed

lemma active_sum_filter:
  "active_sum (filter (\<lambda>row. rw_repository row \<noteq> Some r) rows) scope \<le> active_sum rows scope"
  "scope \<noteq> None \<Longrightarrow> scope \<noteq> Some r \<Longrightarrow>
     active_sum (filter (\<lambda>row. rw_repository row \<noteq> Some r) rows) scope = active_sum rows scope"
  "active_sum (filter (\<lambda>row. rw_repository row \<noteq> Some r) rows) (Some r) = 0"
  by (induction rows) (auto simp: scope_covers_def)

lemma artifact_sum_Cons:
  "artifact_sum f (a # as) scope
     = (if scope_covers scope (oa_repository a) then unat (f a) else 0) + artifact_sum f as scope"
  by (simp add: artifact_sum_def)

lemma artifact_sum_filter:
  "artifact_sum f (filter (\<lambda>a. oa_repository a \<noteq> Some r) as) scope \<le> artifact_sum f as scope"
  "scope \<noteq> None \<Longrightarrow> scope \<noteq> Some r \<Longrightarrow>
     artifact_sum f (filter (\<lambda>a. oa_repository a \<noteq> Some r) as) scope = artifact_sum f as scope"
  "artifact_sum f (filter (\<lambda>a. oa_repository a \<noteq> Some r) as) (Some r) = 0"
  by (induction as) (auto simp: scope_covers_def artifact_sum_Cons)

lemma purge_rows_fields:
  "lg_reservations (purge_rows r g) = filter (\<lambda>row. rw_repository row \<noteq> Some r) (lg_reservations g)"
  "lg_artifacts (purge_rows r g) = filter (\<lambda>a. oa_repository a \<noteq> Some r) (lg_artifacts g)"
  "scope \<noteq> Some r \<Longrightarrow> load_one_total (purge_rows r g) scope = load_one_total g scope"
  "load_one_total (purge_rows r g) (Some r) = zero_totals (Some r)"
  by (simp_all add: purge_rows_def Let_def load_one_total_def)

lemma purge_rows_ok: "rows_ok g \<Longrightarrow> rows_ok (purge_rows r g)"
  by (fastforce simp: rows_ok_def purge_rows_fields)

lemma purge_used: "scope_used (purge_rows r g) scope \<le> scope_used g scope"
  by (simp add: scope_used_def purge_rows_fields add_mono active_sum_filter(1) artifact_sum_filter(1))

lemma purge_totals:
  assumes "totals_exact g scope" "scope \<noteq> None"
  shows "totals_exact (purge_rows r g) scope"
  using assms
  by (cases "scope = Some r")
    (simp_all add: totals_exact_def Let_def purge_rows_fields zero_totals_def active_sum_filter(2,3)
      artifact_sum_filter(2,3))

lemma purge_inv:
  assumes "ledger_inv g"
  shows "ledger_inv (fst (purge_repository r g))"
proof -
  let ?p = "purge_rows r g"
  have ok: "ledger_ok g" "rows_ok g"
    using assms by (simp_all add: ledger_inv_def)
  have rows: "rows_ok ?p"
    by (rule purge_rows_ok [OF ok(2)])
  have used: "scope_used ?p scope < soft_budget scope" for scope
    using purge_used [of r g scope] ledger_okD(4) [OF ok(1), of scope] by (rule le_less_trans)
  obtain g' where g': "refresh_global_totals ?p = Inr g'" "lg_reservations g' = lg_reservations ?p"
      "lg_artifacts g' = lg_artifacts ?p" "totals_exact g' None"
      "\<forall>scope. scope \<noteq> None \<longrightarrow> load_one_total g' scope = load_one_total ?p scope"
    using refresh_rows [OF rows used] by blast
  have "ledger_ok g'"
  proof (rule ledger_okI)
    show "distinct (map rw_reservation (lg_reservations g'))"
      using ledger_okD(1) [OF ok(1)] by (simp add: g'(2) purge_rows_fields distinct_map_filter)
    show "distinct (map oa_artifact (lg_artifacts g'))"
      using ledger_okD(2) [OF ok(1)] by (simp add: g'(3) purge_rows_fields distinct_map_filter)
    fix scope
    show "scope_used g' scope < soft_budget scope"
      using used by (simp add: scope_used_def g'(2,3))
    show "totals_exact g' scope"
    proof (cases "scope = None")
      case False
      then show ?thesis
        using purge_totals [OF ledger_okD(3) [OF ok(1)] False] g'(2,3,5)
        by (simp add: totals_exact_def)
    qed (use g'(4) in simp)
  qed
  moreover have "rows_ok g'"
    using rows g'(2,3) by (rule rows_ok_same)
  ultimately show ?thesis
    using g'(1) assms by (simp add: purge_repository_def ledger_inv_def)
qed

subsection \<open>Every run\<close>

lemma ledger_step_inv: "ledger_inv g \<Longrightarrow> ledger_inv (fst (ledger_step env op g))"
  using record_inv settle_inv release_inv purge_inv by (cases op) simp_all

lemma empty_ledger_inv: "ledger_inv empty_ledger"
  using empty_ledger_ok by (simp add: ledger_inv_def rows_ok_def empty_ledger_def)

interpretation ledgers:
  store_invariant empty_ledger "\<lambda>g g'. \<exists>env op. g' = fst (ledger_step env op g)" ledger_inv
  by unfold_locales (rule empty_ledger_inv, auto simp: ledger_step_inv)

lemma ledger_run_steps:
  "(\<lambda>g g'. \<exists>env op. g' = fst (ledger_step env op g))\<^sup>*\<^sup>* g (ledger_run steps g)"
proof (induction steps arbitrary: g)
  case (Cons step steps)
  obtain env op where "step = (env, op)" by force
  then show ?case
    using Cons.IH [of "fst (ledger_step env op g)"]
    by (auto simp: ledger_run_def intro: converse_rtranclp_into_rtranclp)
qed (simp add: ledger_run_def)

lemma reachable_inv: "ledger_inv (ledger_run steps empty_ledger)"
  by (rule ledgers.reachable [OF ledger_run_steps])

text \<open>The hard budgets of the policy that the ledger is checked against.\<close>

definition hard_budget :: "bytes option \<Rightarrow> nat" where
  "hard_budget scope =
     (let policy = rp_storage default_resource_policy in
      case scope of
        None \<Rightarrow> unat (st_global_hard_bytes policy)
      | Some _ \<Rightarrow> unat (st_repository_hard_bytes policy))"

lemma soft_below_hard: "soft_budget scope < hard_budget scope"
  by (cases scope) (simp_all add: hard_budget_def soft_budget_def default_resource_policy_def GiB_def MiB_def KiB_def)

text \<open>
  C23. The ledger never exceeds its budget: after any sequence of recordings, settlements, releases
  and purges, failed and busy transactions included, the totals of every scope are the exact
  sums of its rows, no counter has wrapped, and what is charged and reserved is below the hard budgets
  of the policy, the one for all repositories and the one for each.
\<close>

theorem ledger_within_budget:
  "totals_exact (ledger_run steps empty_ledger) scope
   \<and> scope_used (ledger_run steps empty_ledger) scope < hard_budget scope"
proof -
  have "totals_exact (ledger_run steps empty_ledger) scope"
    and "scope_used (ledger_run steps empty_ledger) scope < soft_budget scope"
    using reachable_inv [of steps] ledger_okD(3,4) by (simp_all add: ledger_inv_def)
  then show ?thesis using soft_below_hard [of scope] by simp
qed

text \<open>
  C27. The maintained totals are the recomputed ones: in every reachable ledger, the recomputation
  the purge performs succeeds and changes the overall totals in nothing but the revision.
\<close>

theorem recomputation_agrees:
  "\<exists>g' revision. refresh_global_totals (ledger_run steps empty_ledger) = Inr g'
    \<and> load_one_total g' None
        = (load_one_total (ledger_run steps empty_ledger) None)\<lparr>to_revision := revision\<rparr>"
  using reachable_inv [of steps] ledger_okD(3,4) by (intro refresh_exact) (auto simp: ledger_inv_def)

text \<open>
  The budgets are refused at the soft limit in both directions, so that no ledger the operations
  reach reports any pressure.
\<close>

lemma no_pressure_reachable:
  "ps_publication (storage_pressure_state (load_one_total (ledger_run steps empty_ledger) (Some r))
      (load_one_total (ledger_run steps empty_ledger) None)) = StorageDecisionAllowed"
proof -
  let ?g = "ledger_run steps empty_ledger"
  have exact: "totals_exact ?g scope" and used: "scope_used ?g scope < soft_budget scope" for scope
    using reachable_inv [of steps] ledger_okD(3,4) by (auto simp: ledger_inv_def)
  have small: "unat (to_charged (load_one_total ?g scope)) + unat (to_reserved (load_one_total ?g scope))
      < soft_budget scope" for scope
    using used [of scope] used_is_loaded [OF exact] by simp
  have bound: "soft_budget scope < 2 ^ 64" for scope
    by (simp add: soft_budget_def split: option.split)
  have ok: "add_storage (to_charged (load_one_total ?g scope)) (to_reserved (load_one_total ?g scope))
      = Inr (to_charged (load_one_total ?g scope) + to_reserved (load_one_total ?g scope))" for scope
    using small [of scope] bound [of scope] by (simp add: add_storage_exact)
  have below: "unat (to_charged (load_one_total ?g scope) + to_reserved (load_one_total ?g scope))
      < soft_budget scope" for scope
    using small [of scope] bound [of scope] by (simp add: unat_add_fits)
  have "to_charged (load_one_total ?g None) + to_reserved (load_one_total ?g None)
      < st_global_soft_bytes (rp_storage default_resource_policy)"
    using below [of None] global_budget by (simp add: word_less_nat_alt)
  moreover have "to_charged (load_one_total ?g (Some r)) + to_reserved (load_one_total ?g (Some r))
      < st_repository_soft_bytes (rp_storage default_resource_policy)"
    using below [of "Some r"] repository_budget [of r] by (simp add: word_less_nat_alt)
  moreover have "storage_limits_valid (rp_storage default_resource_policy)"
    using default_policy_ok by (simp add: resource_policy_valid_def)
  moreover have "to_uncertain (load_one_total ?g scope) = 0" for scope
    using exact by (simp add: totals_exact_def Let_def)
  ultimately show ?thesis
    unfolding storage_pressure_state_def Let_def ok
    by (auto simp: pressure_of_def classify_storage_pressure_def storage_limits_valid_def)
qed

subsection \<open>Replays and closed reservations\<close>

definition is_purge :: "ledger_op \<Rightarrow> bool" where
  "is_purge op = (case op of OpPurge _ \<Rightarrow> True | _ \<Rightarrow> False)"

definition purge_free :: "(ledger_env \<times> ledger_op) list \<Rightarrow> bool" where
  "purge_free steps \<longleftrightarrow> (\<forall>(env, op) \<in> set steps. \<not> is_purge op)"

text \<open>The database is open and the first attempt of the transaction runs.\<close>

definition tx_available :: "ledger_env \<Rightarrow> bool" where
  "tx_available env \<longleftrightarrow> en_open env \<and> (\<exists>rest. en_attempts env = TxRuns # rest)"

fun op_entry :: "ledger_op \<Rightarrow> (ledger_kind \<times> bytes) \<times> bytes \<times> bytes" where
  "op_entry (OpRecord r) =
     ((LedgerReserve, rr_key r), rs_marker (rr_reservation r), reservation_request_hash r)"
| "op_entry (OpSettle s) = ((LedgerSettle, se_key s), se_reservation s, settlement_request_hash s)"
| "op_entry (OpRelease r) = ((LedgerRelease, rl_key r), rl_reservation r, release_request_hash r)"
| "op_entry (OpPurge i) = undefined"

lemma save_both_operations:
  "save_both g global repository = Inr g' \<Longrightarrow> lg_operations g' = lg_operations g"
  by (auto simp: save_both_def dest!: save_totals_Inr split: option.splits)

lemma replay_keeps:
  assumes "replay_or g kind key rid hash body = Inr g'"
    and "\<And>g'. body = Inr g' \<Longrightarrow> lg_operations g' = (lg_operations g)((kind, key) \<mapsto> (rid, hash))"
  shows "lg_operations g' (kind, key) = Some (rid, hash)
    \<and> (\<forall>k v. lg_operations g k = Some v \<longrightarrow> lg_operations g' k = Some v)"
  using replay_or_Inr [OF assms(1)] assms(2) by fastforce

lemma record_body_operations:
  assumes "record_body r vs g = Inr g'"
  shows "lg_operations g' (LedgerReserve, rr_key r)
      = Some (rs_marker (rr_reservation r), reservation_request_hash r)
    \<and> (\<forall>k v. lg_operations g k = Some v \<longrightarrow> lg_operations g' k = Some v)"
  by (rule replay_keeps [OF assms [unfolded record_body_def Let_def]])
    (auto simp: insert_reservation_def dest!: save_both_operations insert_ledger_operation_Inr
      split: if_splits prod.splits)

lemma settle_body_operations:
  assumes "settle_body s g = Inr g'"
  shows "lg_operations g' (LedgerSettle, se_key s) = Some (se_reservation s, settlement_request_hash s)
    \<and> (\<forall>k v. lg_operations g k = Some v \<longrightarrow> lg_operations g' k = Some v)"
  by (rule replay_keeps [OF assms [unfolded settle_body_def Let_def]])
    (auto simp: set_reservation_state_def dest!: save_both_operations insert_ledger_operation_Inr
      split: if_splits prod.splits)

lemma release_body_operations:
  assumes "release_body r g = Inr g'"
  shows "lg_operations g' (LedgerRelease, rl_key r) = Some (rl_reservation r, release_request_hash r)
    \<and> (\<forall>k v. lg_operations g k = Some v \<longrightarrow> lg_operations g' k = Some v)"
  by (rule replay_keeps [OF assms [unfolded release_body_def Let_def]])
    (auto simp: set_reservation_state_def dest!: save_both_operations insert_ledger_operation_Inr
      split: if_splits prod.splits)

lemma step_body:
  assumes "\<not> is_purge op" "ledger_step env op g = (g', res)"
  shows "g' = g \<and> (\<exists>e. res = Inl e)
    \<or> res = Inr () \<and> lg_operations g' (fst (op_entry op)) = Some (snd (op_entry op))
      \<and> (\<forall>k v. lg_operations g k = Some v \<longrightarrow> lg_operations g' k = Some v)"
proof (cases op)
  case (OpRecord r)
  then show ?thesis
    using assms(2) record_body_operations
    by (auto simp: record_reservation_def with_ledger_tx_def dest!: ledger_tx_cases
        split: sum.splits if_splits)
next
  case (OpSettle s)
  then show ?thesis
    using assms(2) settle_body_operations
    by (auto simp: settle_reservation_def with_ledger_tx_def dest!: ledger_tx_cases split: if_splits)
next
  case (OpRelease r)
  then show ?thesis
    using assms(2) release_body_operations
    by (auto simp: release_reservation_def with_ledger_tx_def dest!: ledger_tx_cases split: if_splits)
qed (use assms(1) in \<open>simp add: is_purge_def\<close>)

lemma operations_persist:
  assumes "lg_operations g k = Some v" "purge_free steps"
  shows "lg_operations (ledger_run steps g) k = Some v"
  using assms
proof (induction steps arbitrary: g)
  case (Cons step steps)
  obtain env op where step: "step = (env, op)" by force
  obtain g' res where g': "ledger_step env op g = (g', res)" by force
  have "lg_operations g' k = Some v"
  proof -
    have "\<not> is_purge op"
      using Cons.prems(2) step by (simp add: purge_free_def)
    from step_body [OF this g'] show ?thesis
      using Cons.prems(1) by blast
  qed
  then show ?case
    using Cons.IH [of g'] Cons.prems(2) step g' by (simp add: ledger_run_def purge_free_def)
qed (simp add: ledger_run_def)

lemma replayed:
  assumes "lg_operations g (kind, key) = Some (rid, hash)"
  shows "replay_or g kind key rid hash body = Inr g"
  using assms by (simp add: replay_or_def check_ledger_operation_def)

lemma tx_runs:
  assumes "tx_available env" "body g = Inr g"
  shows "with_ledger_tx env body g = (g, Inr ())"
  using assms by (auto simp: with_ledger_tx_def tx_available_def ledgerBusyRetryLimit_def eval_nat_numeral)

text \<open>
  C26. Requests are idempotent: a request that went through once goes through again at any later time
  before a purge, whatever other requests ran in between, and leaves the ledger as it is.
\<close>

theorem ledger_replay_harmless:
  assumes "ledger_step env op g = (g', Inr ())" "\<not> is_purge op" "purge_free steps" "tx_available env'"
  shows "ledger_step env' op (ledger_run steps g') = (ledger_run steps g', Inr ())"
proof -
  let ?g = "ledger_run steps g'"
  have entry: "lg_operations ?g (fst (op_entry op)) = Some (snd (op_entry op))"
    using step_body [OF assms(2,1)] operations_persist [OF _ assms(3)] by simp
  have isopen: "en_open env'"
    using assms(4) by (simp add: tx_available_def)
  show ?thesis
  proof (cases op)
    case (OpRecord r)
    then have "record_body r vs ?g = Inr ?g" for vs
      using entry by (simp add: record_body_def Let_def replayed)
    then show ?thesis
      using OpRecord assms(1) isopen tx_runs [OF assms(4)]
      by (auto simp: record_reservation_def split: sum.splits if_splits)
  next
    case (OpSettle s)
    then have "settle_body s ?g = Inr ?g"
      using entry by (simp add: settle_body_def Let_def replayed)
    then show ?thesis
      using OpSettle assms(1) isopen tx_runs [OF assms(4)]
      by (auto simp: settle_reservation_def split: if_splits)
  next
    case (OpRelease r)
    then have "release_body r ?g = Inr ?g"
      using entry by (simp add: release_body_def Let_def replayed)
    then show ?thesis
      using OpRelease assms(1) isopen tx_runs [OF assms(4)]
      by (auto simp: release_reservation_def split: if_splits)
  qed (use assms(2) in \<open>simp add: is_purge_def\<close>)
qed

lemma closed_row_stays:
  "row \<in> set (lg_reservations g) \<Longrightarrow> rw_state row \<noteq> ReservationActive \<Longrightarrow>
     row \<in> set (lg_reservations (set_reservation_state rid s g))"
  by (force simp: set_reservation_state_def)

lemma step_keeps_closed:
  assumes "\<not> is_purge op" "row \<in> set (lg_reservations g)" "rw_state row \<noteq> ReservationActive"
  shows "row \<in> set (lg_reservations (fst (ledger_step env op g)))"
proof (cases op)
  case (OpRecord r)
  have "row \<in> set (lg_reservations g')" if "record_body r vs g = Inr g'" for vs g'
    using record_body_rows [OF that] assms(2) by auto
  then show ?thesis
    using OpRecord assms(2) ledger_tx_cases
    by (simp add: record_reservation_def with_ledger_tx_def split: sum.split) (metis prod.collapse)
next
  case (OpSettle s)
  have "row \<in> set (lg_reservations g')" if "settle_body s g = Inr g'" for g'
    using settle_body_rows [OF that] assms(2) closed_row_stays [OF assms(2,3)] by auto
  then show ?thesis
    using OpSettle assms(2) ledger_tx_cases
    by (simp add: settle_reservation_def with_ledger_tx_def) (metis prod.collapse)
next
  case (OpRelease r)
  have "row \<in> set (lg_reservations g')" if "release_body r g = Inr g'" for g'
    using release_body_rows [OF that] assms(2) closed_row_stays [OF assms(2,3)] by auto
  then show ?thesis
    using OpRelease assms(2) ledger_tx_cases
    by (simp add: release_reservation_def with_ledger_tx_def) (metis prod.collapse)
qed (use assms(1) in \<open>simp add: is_purge_def\<close>)

text \<open>A consumed or released reservation never changes again.\<close>

lemma closed_reservation_final:
  assumes "row \<in> set (lg_reservations g)" "rw_state row \<noteq> ReservationActive" "purge_free steps"
  shows "row \<in> set (lg_reservations (ledger_run steps g))"
  using assms
proof (induction steps arbitrary: g)
  case (Cons step steps)
  obtain env op where step: "step = (env, op)" by force
  show ?case
    using Cons.IH [of "fst (ledger_step env op g)"] step_keeps_closed Cons.prems step
    by (simp add: ledger_run_def purge_free_def)
qed (simp add: ledger_run_def)

subsection \<open>A concrete request\<close>

definition ledger_plan :: capacity_plan where
  "ledger_plan =
     \<lparr> cp_operation = ''op'', cp_repository = Some ''repo'', cp_artifacts = [],
       cp_peaks = [sample_peak ''v'' [0, 0, 0, 0, 0, 0, 0, 2147483648, 5]],
       cp_retained_delta = 5, cp_budget = \<lparr> cb_repository_used = 0, cb_global_used = 0 \<rparr>,
       cp_policy_version = 1 \<rparr>"

definition ledger_request :: reservation_record where
  "ledger_request =
     \<lparr> rr_reservation = \<lparr> rs_marker = ''m'', rs_operation = ''op'', rs_repository = ''repo'',
         rs_plan_digest = sha256_hex (plan_preimage ledger_plan), rs_policy_version = 1 \<rparr>,
       rr_owner_kind = ''capture'', rr_owner = ''o'', rr_plan = ledger_plan, rr_key = ''k'', rr_created = 1 \<rparr>"

definition ready_env :: ledger_env where
  "ready_env = \<lparr> en_open = True, en_attempts = [TxRuns] \<rparr>"

lemma ascii_texts:
  assumes "list_all (\<lambda>c. byte c < 128) s"
  shows "runes s = map byte s" "utf8_valid s"
  using ascii_runes [OF assms] by simp_all

lemma ledger_request_valid: "reservation_record_valid ledger_request"
proof -
  have charge: "is_ok (peak_charge p)" if "p \<in> set (cp_peaks ledger_plan)" for p
    using that by (simp add: ledger_plan_def sample_peak_def peak_charge_exact true_charge_def peak_classes_def)
  have digest: "plan_digest ledger_plan = Inr (sha256_hex (plan_preimage ledger_plan))"
  proof -
    have "digest_peaks_ok {} (cp_peaks ledger_plan) = Inr ()"
      by (simp add: ledger_plan_def sample_peak_def peak_charge_value true_charge_def peak_classes_def)
    then show ?thesis
      by (simp add: plan_digest_def) (simp add: ledger_plan_def)
  qed
  have texts: "stable_storage_text ''o''" "stable_storage_text ''k''" "valid_owner_kind ''capture''"
    by (simp_all add: stable_storage_text_def stable_text_def valid_owner_kind_def ascii_texts byte_def
        rune_error_def is_control_def bidi_control_def NUL_def mk_byte_def char_of_def)
  show ?thesis
    unfolding reservation_record_valid_def
    using charge digest texts
    by (simp add: ledger_request_def) (simp add: ledger_plan_def sample_peak_def is_zero_time_def)
qed

lemma ledger_request_accepted:
  "\<exists>g. ledger_step ready_env (OpRecord ledger_request) empty_ledger = (g, Inr ()) \<and> lg_reservations g \<noteq> []"
proof -
  have volumes: "reservation_volumes (rr_plan ledger_request) = Inr [(''v'', 2147483653, 5)]"
    by (simp add: reservation_volumes_def ledger_request_def ledger_plan_def sample_peak_def
        peak_charge_exact true_charge_def peak_classes_def add_storage_exact)
  have retained: "cp_retained_delta (rr_plan ledger_request) = 5"
      "cp_repository (rr_plan ledger_request) = Some ''repo''"
    by (simp_all add: ledger_request_def ledger_plan_def)
  have small: "is_ok (ensure_sqlite_bytes [5])" "is_ok (ensure_sqlite_bytes [2147483653, 5])"
    by (simp_all add: ensure_sqlite_bytes_def MaxInt64_def)
  have budgets: "st_global_soft_bytes (rp_storage default_resource_policy) = 137438953472"
      "st_repository_soft_bytes (rp_storage default_resource_policy) = 34359738368"
    by (simp_all add: default_resource_policy_def GiB_def MiB_def KiB_def)
  have "\<exists>g. record_body ledger_request [(''v'', 2147483653, 5)] empty_ledger = Inr g \<and> lg_reservations g \<noteq> []"
    using retained budgets
    by (simp add: record_body_def Let_def replay_or_def check_ledger_operation_def empty_ledger_def
        load_totals_def load_one_total_def zero_totals_def check_growth_allowed_def scope_uncertain_def
        growth_within_def add_storage_exact insert_reservation_def next_revision_def update_both_def
        reserve_more_def save_both_def save_totals_def ensure_sqlite_bytes_def MaxInt64_def MaxUint64_def
        insert_ledger_operation_def)
  then show ?thesis
    using volumes retained small ledger_request_valid
    by (auto simp: record_reservation_def ready_env_def with_ledger_tx_def ledgerBusyRetryLimit_def
        eval_nat_numeral)
qed

theorem ledger_replay_harmless_witness:
  "\<exists>g. lg_reservations g \<noteq> [] \<and> ledger_step ready_env (OpRecord ledger_request) g = (g, Inr ())"
proof -
  obtain g where g: "ledger_step ready_env (OpRecord ledger_request) empty_ledger = (g, Inr ())"
      "lg_reservations g \<noteq> []"
    using ledger_request_accepted by blast
  from ledger_replay_harmless [OF g(1), of "[]" ready_env] g(2) show ?thesis
    by (auto simp: is_purge_def purge_free_def ledger_run_def tx_available_def ready_env_def)
qed

end
