(* ===== verification/Capture_Evidence.thy ===== *)
theory Capture_Evidence
  imports Digest_Frames Changes
begin

text \<open>
  What one capture of the local changes has observed (\<^verbatim>\<open>domain/repository/capture.go\<close>): artifacts and
  the blobs they hold, the index with its flags, the policies, the entries, and the candidate with
  the fingerprint that identifies it. The numbers are as wide as in Go; \<^verbatim>\<open>uint64\<close> values are naturals.
\<close>

subsection \<open>Texts of enumerations\<close>

fun file_kind_text :: "file_kind \<Rightarrow> bytes" where
  "file_kind_text FileKindRegular = ''regular''"
| "file_kind_text FileKindSymlink = ''symlink''"
| "file_kind_text FileKindGitlink = ''gitlink''"
| "file_kind_text FileKindDirectory = ''directory''"
| "file_kind_text FileKindUnknown = ''unknown''"
| "file_kind_text (FileKindOther b) = b"

fun content_class_text :: "content_class \<Rightarrow> bytes" where
  "content_class_text ContentClassRegularTextUTF8 = ''regular_text_utf8''"
| "content_class_text ContentClassRegularBinary = ''regular_binary''"
| "content_class_text ContentClassOpaqueBytes = ''opaque_bytes''"
| "content_class_text (ContentClassOther b) = b"

fun text_encoding_text :: "text_encoding \<Rightarrow> bytes" where
  "text_encoding_text TextUTF8 = ''utf8''"
| "text_encoding_text TextUTF8BOM = ''utf8_bom''"
| "text_encoding_text TextEncodingUnknown = ''unsupported_or_invalid''"
| "text_encoding_text (TextEncodingOther b) = b"

fun metadata_level_text :: "metadata_level \<Rightarrow> bytes" where
  "metadata_level_text ReviewMetadataComplete = ''complete''"
| "metadata_level_text ReviewMetadataPathOnly = ''path_only''"
| "metadata_level_text (MetadataLevelOther b) = b"

definition valid_capture_text :: "bytes \<Rightarrow> bool" where
  "valid_capture_text v \<longleftrightarrow> v \<noteq> [] \<and> NUL \<notin> set v \<and> trim_space v = v"

definition valid_capture_sha256 :: "bytes \<Rightarrow> bool" where
  "valid_capture_sha256 v \<longleftrightarrow> length v = 64 \<and> hex_decode v \<noteq> None"

text \<open>The conversion of an unsigned number to Go's \<^verbatim>\<open>int\<close>.\<close>

definition int_of_uint64 :: "nat \<Rightarrow> int" where
  "int_of_uint64 n = (if n < 2 ^ 63 then int n else int n - 2 ^ 64)"

subsection \<open>Artifacts and blobs\<close>

datatype artifact_kind = CaptureArtifactPatch | CaptureArtifactBlobs | CaptureArtifactOther bytes

record capture_artifact =
  ca_kind :: artifact_kind
  ca_spool_id :: bytes
  ca_manifest_hash :: bytes
  ca_relative_path :: bytes
  ca_bytes :: nat
  ca_entries :: nat
  ca_content_sha256 :: bytes
  ca_verified_at :: instant

definition capture_artifact_valid :: "capture_artifact \<Rightarrow> bool" where
  "capture_artifact_valid a \<longleftrightarrow>
     \<not> (ca_spool_id a = [] \<or> \<not> valid_capture_text (ca_spool_id a)
        \<or> \<not> valid_capture_sha256 (ca_manifest_hash a) \<or> ca_relative_path a = []
        \<or> \<not> valid_capture_text (ca_relative_path a) \<or> is_zero_time (ca_verified_at a))
     \<and> (case ca_kind a of
          CaptureArtifactPatch \<Rightarrow> \<not> (ca_entries a \<noteq> 1 \<or> \<not> valid_capture_sha256 (ca_content_sha256 a))
        | CaptureArtifactBlobs \<Rightarrow>
            (if ca_entries a = 0 then \<not> (ca_bytes a \<noteq> 0 \<or> ca_content_sha256 a \<noteq> [])
             else \<not> (ca_bytes a = 0 \<or> ca_entries a \<noteq> 1 \<and> ca_content_sha256 a \<noteq> []
                     \<or> ca_entries a = 1 \<and> ca_content_sha256 a \<noteq> []
                       \<and> \<not> valid_capture_sha256 (ca_content_sha256 a)))
        | CaptureArtifactOther _ \<Rightarrow> False)"

datatype blob_side =
    CaptureBlobBase | CaptureBlobIndex | CaptureBlobWorkingTree
  | CaptureBlobStage1 | CaptureBlobStage2 | CaptureBlobStage3 | CaptureBlobOther bytes

fun blob_side_text :: "blob_side \<Rightarrow> bytes" where
  "blob_side_text CaptureBlobBase = ''base''"
| "blob_side_text CaptureBlobIndex = ''index''"
| "blob_side_text CaptureBlobWorkingTree = ''working_tree''"
| "blob_side_text CaptureBlobStage1 = ''stage1''"
| "blob_side_text CaptureBlobStage2 = ''stage2''"
| "blob_side_text CaptureBlobStage3 = ''stage3''"
| "blob_side_text (CaptureBlobOther b) = b"

record blob_ref =
  bl_side :: blob_side
  bl_path :: repo_path
  bl_artifact :: capture_artifact
  bl_content_class :: content_class
  bl_text_semantics :: "text_semantics option"

definition blob_ref_valid :: "blob_ref \<Rightarrow> bool" where
  "blob_ref_valid b \<longleftrightarrow>
     (case bl_side b of CaptureBlobOther _ \<Rightarrow> False | _ \<Rightarrow> True)
     \<and> \<not> (\<not> valid_repo_path (bl_path b) \<or> \<not> capture_artifact_valid (bl_artifact b)
          \<or> ca_kind (bl_artifact b) \<noteq> CaptureArtifactBlobs \<or> ca_bytes (bl_artifact b) = 0
          \<or> ca_entries (bl_artifact b) \<noteq> 1 \<or> \<not> valid_capture_sha256 (ca_content_sha256 (bl_artifact b)))
     \<and> (bl_content_class b = NoContentClass \<or> content_class_valid (bl_content_class b))
     \<and> opt_all (\<lambda>t. bl_content_class b = ContentClassRegularTextUTF8 \<and> text_semantics_valid t
          \<and> te_byte_length t = ca_bytes (bl_artifact b)
          \<and> te_sha256 t = ca_content_sha256 (bl_artifact b)) (bl_text_semantics b)"

subsection \<open>The index\<close>

datatype index_flag =
    CaptureIndexAssumeUnchanged | CaptureIndexSkipWorktree | CaptureIndexFSMonitorValid
  | CaptureIndexIntentToAdd | CaptureIndexSparse | CaptureIndexOther bytes

fun index_flag_text :: "index_flag \<Rightarrow> bytes" where
  "index_flag_text CaptureIndexAssumeUnchanged = ''assume_unchanged''"
| "index_flag_text CaptureIndexSkipWorktree = ''skip_worktree''"
| "index_flag_text CaptureIndexFSMonitorValid = ''fsmonitor_valid''"
| "index_flag_text CaptureIndexIntentToAdd = ''intent_to_add''"
| "index_flag_text CaptureIndexSparse = ''sparse''"
| "index_flag_text (CaptureIndexOther b) = b"

definition valid_index_flag :: "index_flag \<Rightarrow> bool" where
  "valid_index_flag f = (case f of CaptureIndexOther _ \<Rightarrow> False | _ \<Rightarrow> True)"

record index_entry =
  ix_path :: repo_path
  ix_stage :: "8 word"
  ix_mode :: "32 word"
  ix_object_id :: object_id
  ix_flags :: "index_flag list"

definition index_entry_valid :: "index_entry \<Rightarrow> bool" where
  "index_entry_valid e \<longleftrightarrow>
     valid_repo_path (ix_path e) \<and> \<not> ix_stage e > 3 \<and> ix_mode e \<noteq> 0 \<and> ix_object_id e \<noteq> []
     \<and> is_ok (new_object_id (ix_object_id e))
     \<and> list_all valid_index_flag (ix_flags e) \<and> distinct (ix_flags e)"

record index_evidence =
  ie_exists :: bool
  ie_bytes :: nat
  ie_sha256 :: bytes
  ie_entries :: "index_entry list"
  ie_sparse :: bool
  ie_before_sha256 :: bytes
  ie_after_sha256 :: bytes

definition index_entry_key :: "index_entry \<Rightarrow> bytes" where
  "index_entry_key e = ix_path e @ [NUL] @ format_uint (unat (ix_stage e))"

definition index_evidence_valid :: "index_evidence \<Rightarrow> bool" where
  "index_evidence_valid i \<longleftrightarrow>
     (if ie_exists i
      then \<not> (\<not> valid_capture_sha256 (ie_sha256 i) \<or> ie_sha256 i \<noteq> ie_before_sha256 i
              \<or> ie_sha256 i \<noteq> ie_after_sha256 i)
      else \<not> (ie_bytes i \<noteq> 0 \<or> ie_sha256 i \<noteq> [] \<or> ie_before_sha256 i \<noteq> [] \<or> ie_after_sha256 i \<noteq> []
              \<or> ie_entries i \<noteq> []))
     \<and> list_all index_entry_valid (ie_entries i) \<and> distinct (map index_entry_key (ie_entries i))"

definition index_entry_frame :: "index_entry \<Rightarrow> bytes" where
  "index_entry_frame e =
     digest_string (ix_path e) @ digest_uint64 (ucast (ix_stage e)) @ digest_uint64 (ucast (ix_mode e))
     @ digest_string (ix_object_id e) @ concat (map (digest_string \<circ> index_flag_text) (ix_flags e))"

definition index_entries_fingerprint :: "index_entry list \<Rightarrow> bytes" where
  "index_entries_fingerprint es = sha256_hex (concat (map index_entry_frame es))"

subsection \<open>Policies and consistency\<close>

record policy_evidence =
  py_machine_git_version :: nat
  py_rename_version :: nat
  py_rename_outcome :: bytes
  py_delete_candidates :: nat
  py_add_candidates :: nat
  py_similarity_percent :: nat
  py_max_delete_sources :: nat
  py_max_add_targets :: nat
  py_detect_copies :: bool
  py_find_copies_harder :: bool
  py_rename_flags :: "bytes list"
  py_rename_hash :: bytes
  py_patch_format_version :: nat
  py_conversion_version :: nat
  py_conversion_decision :: bytes
  py_conversion_reason :: bytes
  py_conversion_fingerprint :: bytes
  py_attributes_changed :: bool
  py_resource_policy_version :: nat

definition policy_evidence_valid :: "policy_evidence \<Rightarrow> bool" where
  "policy_evidence_valid p \<longleftrightarrow>
     \<not> (py_machine_git_version p = 0 \<or> py_rename_version p = 0 \<or> py_patch_format_version p = 0
        \<or> py_conversion_version p = 0 \<or> py_resource_policy_version p = 0 \<or> py_rename_outcome p = []
        \<or> \<not> valid_capture_text (py_rename_outcome p)
        \<or> py_conversion_decision p \<noteq> ''byte_neutral'' \<and> py_conversion_decision p \<noteq> ''review_only''
        \<or> \<not> valid_capture_sha256 (py_conversion_fingerprint p))
     \<and> \<not> (py_conversion_decision p = ''byte_neutral'' \<and> py_conversion_reason p \<noteq> []
          \<or> py_conversion_decision p = ''review_only'' \<and> \<not> valid_capture_text (py_conversion_reason p))
     \<and> (py_rename_hash p \<noteq> [] \<longrightarrow>
          \<not> (py_rename_flags p = [] \<or> py_similarity_percent p \<noteq> 60 \<or> py_max_delete_sources p \<noteq> 1000
             \<or> py_max_add_targets p \<noteq> 1000 \<or> \<not> py_detect_copies p \<or> py_find_copies_harder p
             \<or> \<not> valid_capture_sha256 (py_rename_hash p))
          \<and> rename_policy_evidence_hash (py_rename_version p) (py_similarity_percent p)
              (int_of_uint64 (py_max_delete_sources p)) (int_of_uint64 (py_max_add_targets p))
              (py_detect_copies p) (py_find_copies_harder p) (py_rename_outcome p)
              (int_of_uint64 (py_delete_candidates p)) (int_of_uint64 (py_add_candidates p))
              (py_rename_flags p)
            = py_rename_hash p)"

record consistency_evidence =
  cn_head_token :: bytes
  cn_index_token :: bytes
  cn_status_token :: bytes
  cn_flags_token :: bytes
  cn_filesystem_token :: bytes
  cn_aggregate_token :: bytes

definition consistency_valid :: "consistency_evidence \<Rightarrow> bool" where
  "consistency_valid c \<longleftrightarrow>
     list_all valid_capture_sha256
       [cn_head_token c, cn_index_token c, cn_status_token c, cn_flags_token c, cn_filesystem_token c,
        cn_aggregate_token c]"

subsection \<open>Entries and candidates\<close>

record capture_entry =
  ce_change :: changed_file
  ce_blobs :: "blob_ref list"

definition capture_entry_valid :: "capture_entry \<Rightarrow> bool" where
  "capture_entry_valid e \<longleftrightarrow>
     changed_file_valid (ce_change e) \<and> list_all blob_ref_valid (ce_blobs e)
     \<and> distinct (map bl_side (ce_blobs e))"

record capture_base =
  cb_object_format :: bytes
  cb_object_id :: object_id
  cb_unborn :: bool

definition capture_base_valid :: "capture_base \<Rightarrow> bool" where
  "capture_base_valid b \<longleftrightarrow>
     \<not> (cb_object_format b = [] \<or> \<not> valid_capture_text (cb_object_format b) \<or> cb_object_id b = [])
     \<and> is_ok (new_object_id (cb_object_id b)) \<and> \<not> list_all (\<lambda>c. c = CHR ''0'') (cb_object_id b)"

definition LocalCaptureCandidateVersion :: nat where "LocalCaptureCandidateVersion = 1"

record capture_candidate =
  cc_version :: nat
  cc_repository_id :: repository_id
  cc_worktree_id :: worktree_id
  cc_base :: capture_base
  cc_index :: index_evidence
  cc_entries :: "capture_entry list"
  cc_patch :: capture_artifact
  cc_blob_spool :: capture_artifact
  cc_policy :: policy_evidence
  cc_consistency :: consistency_evidence
  cc_fingerprint :: bytes
  cc_entry_count :: nat
  cc_total_bytes :: nat
  cc_captured_at :: instant

definition valid_for_fingerprint :: "capture_candidate \<Rightarrow> bool" where
  "valid_for_fingerprint c \<longleftrightarrow>
     \<not> (cc_version c \<noteq> LocalCaptureCandidateVersion \<or> cc_repository_id c = [] \<or> cc_worktree_id c = [])
     \<and> capture_base_valid (cc_base c) \<and> index_evidence_valid (cc_index c)
     \<and> policy_evidence_valid (cc_policy c)
     \<and> (let k = cc_consistency c in
        list_all valid_capture_sha256
          [cn_head_token k, cn_index_token k, cn_status_token k, cn_flags_token k, cn_filesystem_token k])
     \<and> list_all capture_entry_valid (cc_entries c)"

definition digest_bool :: "bool \<Rightarrow> bytes" where
  "digest_bool b = digest_uint64 (if b then 1 else 0)"

abbreviation digest_nat :: "nat \<Rightarrow> bytes" where
  "digest_nat n \<equiv> digest_uint64 (of_nat n)"

definition text_semantics_frame :: "text_semantics option \<Rightarrow> bytes" where
  "text_semantics_frame v =
     (case v of
        None \<Rightarrow> digest_uint64 0
      | Some t \<Rightarrow>
          digest_uint64 1 @ digest_string (text_encoding_text (te_encoding t))
          @ digest_nat (te_byte_length t) @ digest_string (te_sha256 t) @ digest_bool (te_has_bom t)
          @ digest_nat (le_lf_count (te_endings t)) @ digest_nat (le_crlf_count (te_endings t))
          @ digest_nat (le_cr_count (te_endings t)) @ digest_bool (le_final_lf (te_endings t))
          @ digest_bool (le_mixed (te_endings t)) @ digest_bool (te_empty t))"

definition review_only_frame :: "review_only_evidence option \<Rightarrow> bytes" where
  "review_only_frame v =
     (case v of
        None \<Rightarrow> digest_uint64 0
      | Some r \<Rightarrow>
          digest_uint64 1 @ digest_string (special_kind_string (ro_special_kind r))
          @ digest_string (metadata_level_text (ro_metadata_level r)) @ digest_string (ro_metadata_hash r)
          @ digest_string (ro_reason_code r) @ digest_string (ro_evidence_version r))"

definition opt_frame :: "('a \<Rightarrow> bytes) \<Rightarrow> 'a option \<Rightarrow> bytes" where
  "opt_frame f v = (case v of None \<Rightarrow> [] | Some x \<Rightarrow> f x)"

definition blob_frame :: "blob_ref \<Rightarrow> bytes" where
  "blob_frame b =
     digest_string (blob_side_text (bl_side b)) @ digest_string (ca_content_sha256 (bl_artifact b))
     @ digest_string (content_class_text (bl_content_class b)) @ text_semantics_frame (bl_text_semantics b)"

definition change_frame :: "changed_file \<Rightarrow> bytes" where
  "change_frame f =
     digest_string (change_kind_string (cf_kind f))
     @ opt_frame digest_string (cf_old_path f) @ opt_frame digest_string (cf_new_path f)
     @ digest_nat (cf_old_mode f) @ digest_nat (cf_new_mode f)
     @ digest_string (file_kind_text (cf_old_file_kind f)) @ digest_string (file_kind_text (cf_new_file_kind f))
     @ (case cf_mode_transition f of
          Some t \<Rightarrow>
            digest_string (mt_evidence_hash t) @ digest_string (mt_policy_version t)
            @ digest_string (mode_transition_kind_string (mt_kind t))
        | None \<Rightarrow> digest_string [] @ digest_string [] @ digest_string [])
     @ opt_frame digest_string (cf_old_object_id f) @ opt_frame digest_string (cf_new_object_id f)
     @ review_only_frame (cf_review_only f)
     @ digest_bool (cf_staged f) @ digest_bool (cf_unstaged f) @ digest_bool (cf_binary f)
     @ digest_string (content_class_text (cf_content_class f))
     @ text_semantics_frame (cf_old_text f) @ text_semantics_frame (cf_new_text f)
     @ opt_frame (\<lambda>c. digest_string (ic_code c)) (cf_conflict f)
     @ opt_frame (\<lambda>r. digest_nat (re_policy_version r) @ digest_nat (re_similarity_percent r)
         @ digest_string (change_kind_string (re_kind r)) @ digest_string (re_evidence_hash r)) (cf_rename f)"

definition policy_frame :: "policy_evidence \<Rightarrow> bytes" where
  "policy_frame p =
     digest_nat (py_machine_git_version p) @ digest_nat (py_rename_version p)
     @ digest_nat (py_delete_candidates p) @ digest_nat (py_add_candidates p)
     @ digest_nat (py_similarity_percent p) @ digest_nat (py_max_delete_sources p)
     @ digest_nat (py_max_add_targets p) @ digest_bool (py_detect_copies p)
     @ digest_bool (py_find_copies_harder p) @ concat (map digest_string (py_rename_flags p))
     @ digest_string (py_rename_hash p) @ digest_nat (py_patch_format_version p)
     @ digest_nat (py_conversion_version p) @ digest_string (py_conversion_decision p)
     @ digest_string (py_conversion_reason p) @ digest_string (py_conversion_fingerprint p)
     @ digest_bool (py_attributes_changed p) @ digest_nat (py_resource_policy_version p)
     @ digest_string (py_rename_outcome p)"

definition capture_preimage :: "capture_candidate \<Rightarrow> bytes" where
  "capture_preimage c =
     digest_string (format_uint (cc_version c)) @ digest_string (cc_repository_id c)
     @ digest_string (cc_worktree_id c) @ digest_string (cb_object_format (cc_base c))
     @ digest_string (cb_object_id (cc_base c)) @ digest_bool (cb_unborn (cc_base c))
     @ digest_string (ie_sha256 (cc_index c))
     @ digest_string (index_entries_fingerprint (ie_entries (cc_index c)))
     @ (let k = cc_consistency c in
        digest_string (cn_head_token k) @ digest_string (cn_index_token k) @ digest_string (cn_status_token k)
        @ digest_string (cn_flags_token k) @ digest_string (cn_filesystem_token k))
     @ policy_frame (cc_policy c) @ digest_string (ca_content_sha256 (cc_patch c))
     @ concat (map (\<lambda>e. change_frame (ce_change e) @ concat (map blob_frame (ce_blobs e))) (cc_entries c))"

definition fingerprint_value :: "capture_candidate \<Rightarrow> bytes option" where
  "fingerprint_value c =
     (if valid_for_fingerprint c then Some (sha256_hex (capture_preimage c)) else None)"

definition capture_entry_path :: "capture_entry \<Rightarrow> bytes" where
  "capture_entry_path e =
     (case cf_new_path (ce_change e) of
        Some p \<Rightarrow> p
      | None \<Rightarrow> (case cf_old_path (ce_change e) of Some p \<Rightarrow> p | None \<Rightarrow> []))"

text \<open>The loop over the entries, with the previous path, which is empty before the first.\<close>

fun entries_in_order :: "bytes \<Rightarrow> capture_entry list \<Rightarrow> bool" where
  "entries_in_order previous [] = True"
| "entries_in_order previous (e # es) =
     (if \<not> capture_entry_valid e then False
      else
        (let path = capture_entry_path e in
         if path = [] \<or> previous \<noteq> [] \<and> path \<le> previous then False else entries_in_order path es))"

definition capture_candidate_valid :: "capture_candidate \<Rightarrow> bool" where
  "capture_candidate_valid c \<longleftrightarrow>
     \<not> (cc_version c \<noteq> LocalCaptureCandidateVersion \<or> cc_repository_id c = [] \<or> cc_worktree_id c = []
        \<or> is_zero_time (cc_captured_at c) \<or> \<not> valid_capture_sha256 (cc_fingerprint c))
     \<and> \<not> (\<not> capture_base_valid (cc_base c) \<or> \<not> index_evidence_valid (cc_index c)
          \<or> \<not> policy_evidence_valid (cc_policy c) \<or> \<not> consistency_valid (cc_consistency c)
          \<or> \<not> capture_artifact_valid (cc_patch c) \<or> ca_kind (cc_patch c) \<noteq> CaptureArtifactPatch
          \<or> \<not> capture_artifact_valid (cc_blob_spool c)
          \<or> ca_kind (cc_blob_spool c) \<noteq> CaptureArtifactBlobs)
     \<and> length (cc_entries c) = cc_entry_count c
     \<and> \<not> (ca_bytes (cc_patch c) > max_uint64 - ca_bytes (cc_blob_spool c)
          \<or> cc_total_bytes c \<noteq> ca_bytes (cc_patch c) + ca_bytes (cc_blob_spool c))
     \<and> entries_in_order [] (cc_entries c)
     \<and> fingerprint_value c = Some (cc_fingerprint c)"

definition sorted_entries :: "capture_candidate \<Rightarrow> capture_entry list" where
  "sorted_entries c = sort_key capture_entry_path (cc_entries c)"

end
