(* ===== verification/Capture_Facts.thy ===== *)
theory Capture_Facts
  imports Capture_Evidence
begin

text \<open>
  What the fingerprints of a capture identify, and what a valid candidate promises.
\<close>

subsection \<open>The index fingerprint\<close>

lemma NUL_mk_byte: "mk_byte 0 = NUL"
  by (simp add: NUL_def)

lemma NUL_char: "NUL = CHR 0x00"
  by code_simp

lemma widened:
  fixes m :: "32 word" and b :: "8 word"
  shows "unat (ucast m :: u64) = unat m" "unat (ucast b :: u64) = unat b"
  using unsigned_less [of m, where 'a = nat] unsigned_less [of b, where 'a = nat]
  by (simp_all add: unsigned_ucast_eq take_bit_eq_mod)

lemma mode_starts_with_NUL:
  fixes m :: "32 word"
  shows "\<exists>r. digest_uint64 (ucast m) = NUL # r"
proof -
  have "unat (ucast m :: u64) < 2 ^ 32"
    using unsigned_less [of m, where 'a = nat] by (simp add: widened)
  then have "unat (ucast m :: u64) div 2 ^ 56 = 0" by simp
  then show ?thesis by (simp add: digest_uint64_def NUL_mk_byte)
qed

definition plain_string :: "bytes \<Rightarrow> bool" where
  "plain_string v \<longleftrightarrow> go_sized v \<and> v \<noteq> [] \<and> NUL \<notin> set v"

definition sized_entry :: "index_entry \<Rightarrow> bool" where
  "sized_entry e \<longleftrightarrow> index_entry_valid e \<and> go_sized (ix_path e) \<and> go_sized (ix_object_id e)"

lemma flag_plain: "valid_index_flag f \<Longrightarrow> plain_string (index_flag_text f)"
  by (cases f) (simp_all add: valid_index_flag_def plain_string_def go_sized_def NUL_char)

lemma flag_text_inj: "valid_index_flag f \<Longrightarrow> valid_index_flag g \<Longrightarrow> index_flag_text f = index_flag_text g \<Longrightarrow> f = g"
  by (cases f; cases g) (simp_all add: valid_index_flag_def)

lemma sized_entry_flags: "sized_entry e \<Longrightarrow> list_all valid_index_flag (ix_flags e)"
  by (simp add: sized_entry_def index_entry_valid_def)

lemma path_plain: "sized_entry e \<Longrightarrow> plain_string (ix_path e)"
  by (simp add: sized_entry_def index_entry_valid_def valid_repo_path_def plain_string_def)

definition flags_frame :: "index_flag list \<Rightarrow> bytes" where
  "flags_frame fs = concat (map (digest_string \<circ> index_flag_text) fs)"

lemma flags_frame_simps [simp]:
  "flags_frame [] = []"
  "flags_frame (f # fs) = digest_string (index_flag_text f) @ flags_frame fs"
  by (simp_all add: flags_frame_def)

definition entries_frame :: "index_entry list \<Rightarrow> bytes" where
  "entries_frame es = concat (map index_entry_frame es)"

lemma entries_frame_simps [simp]:
  "entries_frame [] = []"
  "entries_frame (e # es) =
     digest_string (ix_path e) @ digest_uint64 (ucast (ix_stage e)) @ digest_uint64 (ucast (ix_mode e))
     @ digest_string (ix_object_id e) @ flags_frame (ix_flags e) @ entries_frame es"
  by (simp_all add: entries_frame_def index_entry_frame_def flags_frame_def)

lemma digest_nonempty [simp]: "digest_uint64 v \<noteq> []" "digest_string w \<noteq> []"
  by (simp_all add: digest_string_def digest_uint64_def)

text \<open>What follows an entry begins with a plain string, which the stage of an entry never looks like.\<close>

lemma after_entry:
  assumes "list_all valid_index_flag fs" "list_all sized_entry es"
  shows "flags_frame fs @ entries_frame es = []
    \<or> (\<exists>v r. plain_string v \<and> flags_frame fs @ entries_frame es = digest_string v @ r)"
proof (cases fs)
  case (Cons f fs')
  then show ?thesis using assms flag_plain [of f] by auto
next
  case Nil
  then show ?thesis
  proof (cases es)
    case (Cons e es')
    then show ?thesis using assms Nil path_plain [of e] by auto
  qed simp
qed

lemma stage_not_plain:
  assumes "digest_uint64 s @ digest_uint64 (ucast (m :: 32 word)) @ r = digest_string v @ t" "plain_string v"
  shows False
proof -
  have "digest_uint64 (ucast m) @ r = v @ t" using assms(1) by (simp add: digest_string_def)
  moreover obtain q where "digest_uint64 (ucast m) = NUL # q" using mode_starts_with_NUL by blast
  ultimately show False using assms(2) by (cases v) (auto simp: plain_string_def)
qed

lemma entry_not_flag:
  assumes "sized_entry e" "list_all valid_index_flag (g # gs)" "list_all sized_entry es'"
  shows "entries_frame (e # es) \<noteq> flags_frame (g # gs) @ entries_frame es'"
proof
  assume "entries_frame (e # es) = flags_frame (g # gs) @ entries_frame es'"
  then have "digest_string (ix_path e) @ digest_uint64 (ucast (ix_stage e)) @ digest_uint64 (ucast (ix_mode e))
        @ digest_string (ix_object_id e) @ flags_frame (ix_flags e) @ entries_frame es
      = digest_string (index_flag_text g) @ flags_frame gs @ entries_frame es'"
    by simp
  then have "digest_uint64 (ucast (ix_stage e)) @ digest_uint64 (ucast (ix_mode e))
        @ digest_string (ix_object_id e) @ flags_frame (ix_flags e) @ entries_frame es
      = flags_frame gs @ entries_frame es'"
    using path_plain [OF assms(1)] flag_plain [of g] assms(2)
    by (simp add: digest_string_frame plain_string_def)
  moreover have "flags_frame gs @ entries_frame es' = []
      \<or> (\<exists>v r. plain_string v \<and> flags_frame gs @ entries_frame es' = digest_string v @ r)"
    using after_entry assms(2,3) by simp
  ultimately show False
    using stage_not_plain [of "ucast (ix_stage e)" "ix_mode e"] digest_uint64_length
    by (metis append_is_Nil_conv length_0_conv zero_neq_numeral)
qed

lemma flags_frame_split:
  assumes "flags_frame fs @ entries_frame es = flags_frame gs @ entries_frame es'"
    "list_all valid_index_flag fs" "list_all valid_index_flag gs"
    "list_all sized_entry es" "list_all sized_entry es'"
  shows "fs = gs \<and> entries_frame es = entries_frame es'"
  using assms
proof (induction fs arbitrary: gs)
  case Nil
  show ?case
  proof (cases gs)
    case (Cons g gs')
    have False
    proof (cases es)
      case Nil
      with \<open>flags_frame [] @ _ = _\<close> Cons show False by simp
    next
      case (Cons e es0)
      with Nil.prems entry_not_flag [of e g gs' es' es0] \<open>gs = g # gs'\<close> show False by auto
    qed
    then show ?thesis ..
  qed (use Nil in simp)
next
  case (Cons f fs')
  show ?case
  proof (cases gs)
    case Nil
    have False
    proof (cases es')
      case Nil
      with Cons.prems(1) \<open>gs = []\<close> show False by simp
    next
      case (Cons e es0)
      with Cons.prems entry_not_flag [of e f fs' es es0] \<open>gs = []\<close> show False by auto
    qed
    then show ?thesis ..
  next
    case (Cons g gs')
    have "digest_string (index_flag_text f) @ flags_frame fs' @ entries_frame es
        = digest_string (index_flag_text g) @ flags_frame gs' @ entries_frame es'"
      using Cons.prems(1) Cons by simp
    then have "index_flag_text f = index_flag_text g"
        "flags_frame fs' @ entries_frame es = flags_frame gs' @ entries_frame es'"
      using flag_plain [of f] flag_plain [of g] Cons Cons.prems(2,3)
      by (simp_all add: digest_string_frame plain_string_def)
    then show ?thesis
      using Cons.IH [of gs'] flag_text_inj [of f g] Cons Cons.prems(2-5) by simp
  qed
qed

lemma entries_frame_inj:
  assumes "entries_frame es = entries_frame es'" "list_all sized_entry es" "list_all sized_entry es'"
  shows "es = es'"
  using assms
proof (induction es arbitrary: es')
  case Nil
  then show ?case by (cases es') auto
next
  case (Cons e es)
  show ?case
  proof (cases es')
    case Nil
    with Cons show ?thesis by auto
  next
    case (Cons e' es0)
    note valid = Cons.prems(2,3) [unfolded Cons]
    have sizes: "go_sized (ix_path e)" "go_sized (ix_path e')" "go_sized (ix_object_id e)" "go_sized (ix_object_id e')"
      using valid by (simp_all add: sized_entry_def)
    have "digest_string (ix_path e) @ digest_uint64 (ucast (ix_stage e)) @ digest_uint64 (ucast (ix_mode e))
          @ digest_string (ix_object_id e) @ flags_frame (ix_flags e) @ entries_frame es
        = digest_string (ix_path e') @ digest_uint64 (ucast (ix_stage e')) @ digest_uint64 (ucast (ix_mode e'))
          @ digest_string (ix_object_id e') @ flags_frame (ix_flags e') @ entries_frame es0"
      using Cons.prems(1) Cons by simp
    then have parts: "ix_path e = ix_path e'" "(ucast (ix_stage e) :: u64) = ucast (ix_stage e')"
        "(ucast (ix_mode e) :: u64) = ucast (ix_mode e')" "ix_object_id e = ix_object_id e'"
      and rest: "flags_frame (ix_flags e) @ entries_frame es = flags_frame (ix_flags e') @ entries_frame es0"
      using sizes by (simp_all add: digest_string_frame)
    have "ix_flags e = ix_flags e' \<and> entries_frame es = entries_frame es0"
      by (rule flags_frame_split [OF rest]) (use valid sized_entry_flags in simp_all)
    moreover have "ix_stage e = ix_stage e'" "ix_mode e = ix_mode e'"
      using parts(2,3) [THEN arg_cong [of _ _ unat]] by (simp_all add: widened word_unat_eq_iff)
    ultimately show ?thesis using Cons.IH [of es0] parts valid Cons by simp
  qed
qed

text \<open>
  The fingerprint of the entries of an index is taken over a text that determines the entries: their
  paths, stages, modes, objects and flags, although the flags are neither counted nor terminated.
\<close>

theorem index_fingerprint_exact:
  assumes "index_evidence_valid i" "index_evidence_valid j"
    "\<forall>e \<in> set (ie_entries i) \<union> set (ie_entries j). go_sized (ix_path e) \<and> go_sized (ix_object_id e)"
  shows "concat (map index_entry_frame (ie_entries i)) = concat (map index_entry_frame (ie_entries j))
    \<longleftrightarrow> ie_entries i = ie_entries j"
proof -
  have "list_all sized_entry (ie_entries i)" "list_all sized_entry (ie_entries j)"
    using assms by (auto simp: index_evidence_valid_def sized_entry_def list_all_iff)
  then show ?thesis using entries_frame_inj by (auto simp: entries_frame_def)
qed

subsection \<open>The candidate\<close>

lemma entries_in_order_sorted:
  "entries_in_order previous es \<Longrightarrow>
     sorted_wrt (<) (map capture_entry_path es) \<and> (\<forall>e \<in> set es. capture_entry_valid e \<and> capture_entry_path e \<noteq> []
       \<and> (previous \<noteq> [] \<longrightarrow> previous < capture_entry_path e))"
proof (induction previous es rule: entries_in_order.induct)
  case (2 previous e es)
  then have step: "capture_entry_valid e" "capture_entry_path e \<noteq> []"
      "previous = [] \<or> previous < capture_entry_path e" "entries_in_order (capture_entry_path e) es"
    by (auto simp: Let_def not_le split: if_splits)
  with 2 have "sorted_wrt (<) (map capture_entry_path es) \<and> (\<forall>e' \<in> set es. capture_entry_valid e'
      \<and> capture_entry_path e' \<noteq> [] \<and> capture_entry_path e < capture_entry_path e')"
    by (auto simp: Let_def split: if_splits)
  with step show ?case by (auto intro: less_trans)
qed simp

text \<open>
  The entries of a valid candidate are in strictly increasing order of their paths, so that no path
  occurs twice and the defensive sorting of a traversal changes nothing; the sizes add up below the
  64-bit limit.
\<close>

theorem candidate_entries_sorted:
  assumes "capture_candidate_valid c"
  shows "sorted_wrt (<) (map capture_entry_path (cc_entries c))"
    "distinct (map capture_entry_path (cc_entries c))"
    "sorted_entries c = cc_entries c"
    "cc_total_bytes c = ca_bytes (cc_patch c) + ca_bytes (cc_blob_spool c)"
proof -
  show order: "sorted_wrt (<) (map capture_entry_path (cc_entries c))"
    using assms entries_in_order_sorted by (auto simp: capture_candidate_valid_def)
  then show "distinct (map capture_entry_path (cc_entries c))"
    by (simp add: strict_sorted_iff)
  from order show "sorted_entries c = cc_entries c"
    by (simp add: sorted_entries_def sorted_sort_id strict_sorted_iff sort_key_id_if_sorted)
  show "cc_total_bytes c = ca_bytes (cc_patch c) + ca_bytes (cc_blob_spool c)"
    using assms by (simp add: capture_candidate_valid_def)
qed

text \<open>
  The fingerprint does not say to which side of a change an object belongs: a change that knows only
  the old object and one that knows only the new one are valid, different and framed alike.
\<close>

lemma fingerprint_merges_sides:
  assumes "changed_file_valid f" "cf_kind f = ChangeModified"
    "cf_old_object_id f = Some x" "cf_new_object_id f = None"
  shows "changed_file_valid (f\<lparr>cf_old_object_id := None, cf_new_object_id := Some x\<rparr>)"
    "f\<lparr>cf_old_object_id := None, cf_new_object_id := Some x\<rparr> \<noteq> f"
    "change_frame (f\<lparr>cf_old_object_id := None, cf_new_object_id := Some x\<rparr>) = change_frame f"
proof -
  let ?g = "f\<lparr>cf_old_object_id := None, cf_new_object_id := Some x\<rparr>"
  have "cf_old_object_id ?g \<noteq> cf_old_object_id f" using assms(3) by simp
  then show "?g \<noteq> f" by metis
  show "change_frame ?g = change_frame f"
    using assms(3,4) by (simp add: change_frame_def opt_frame_def)
  have sides: "change_side_valid (cf_old_path f) (cf_old_file_kind f) (cf_old_mode f) (Some x)"
      "change_side_valid (cf_new_path f) (cf_new_file_kind f) (cf_new_mode f) None"
      "cf_old_path f \<noteq> None" "cf_new_path f \<noteq> None"
    using assms unfolding changed_file_valid_def change_kind_shape_def by (auto simp: Let_def)
  then have "change_side_valid (cf_old_path f) (cf_old_file_kind f) (cf_old_mode f) None"
      "change_side_valid (cf_new_path f) (cf_new_file_kind f) (cf_new_mode f) (Some x)"
    by (auto simp: change_side_valid_def)
  then show "changed_file_valid ?g"
    using assms by (cases "cf_mode_transition f") (auto simp: changed_file_valid_def change_kind_shape_def)
qed

end
