(* ===== verification/Apply_Evidence.thy ===== *)
theory Apply_Evidence
  imports Capture_Evidence Proposal_Versions Reducer
begin

text \<open>
  What is observed of the destination of an approved proposal before and after its patch is applied,
  and the durable operation that carries it: the values and validators of
  \<^verbatim>\<open>internal/app/apply_preflight.go\<close> and \<^verbatim>\<open>internal/app/apply_execution.go\<close>. The evidence is identified
  by a digest of its JSON text; that text is a parameter, because it also tells a nil slice from an
  empty one, which the lists of the model do not.
\<close>

subsection \<open>Enumerations\<close>

datatype apply_phase =
    ApplyPrepared | ApplyMutating | ApplyVerifying | ApplyRetrySafe | ApplyApplied | ApplyFailedClean
  | ApplyRepairRequired | ApplyPhaseOther bytes

definition apply_phase_valid :: "apply_phase \<Rightarrow> bool" where
  "apply_phase_valid p = (case p of ApplyPhaseOther _ \<Rightarrow> False | _ \<Rightarrow> True)"

datatype apply_failure =
    FailureNone | FailureMutationClean | FailureVerificationUnavailable | FailureMixedState
  | FailureUnexpectedPath | FailureIndexChanged | FailureGlobalChanged | FailureUnsupported
  | FailureRetrySafe | FailureOther bytes

definition apply_failure_valid :: "apply_failure \<Rightarrow> bool" where
  "apply_failure_valid c = (case c of FailureOther _ \<Rightarrow> False | _ \<Rightarrow> True)"

datatype observation_state =
    ObservedBaseline | ObservedResult | ObservedMixed | ObservedUncertain | ObservedOther bytes

definition observation_state_valid :: "observation_state \<Rightarrow> bool" where
  "observation_state_valid s = (case s of ObservedOther _ \<Rightarrow> False | _ \<Rightarrow> True)"

datatype apply_class =
    ClassApplied | ClassFailedClean | ClassRetrySafe | ClassRepairRequired | ClassOther bytes

definition apply_class_valid :: "apply_class \<Rightarrow> bool" where
  "apply_class_valid c = (case c of ClassOther _ \<Rightarrow> False | _ \<Rightarrow> True)"

subsection \<open>The destination before\<close>

record capability_evidence =
  ab_version :: nat
  ab_registered_support :: bool
  ab_containment :: bool
  ab_native_executor :: bool
  ab_no_unmerged :: bool
  ab_no_unsupported_flags :: bool
  ab_byte_neutral :: bool

definition capability_valid :: "capability_evidence \<Rightarrow> bool" where
  "capability_valid e \<longleftrightarrow>
     \<not> (ab_version e = 0 \<or> \<not> ab_registered_support e \<or> \<not> ab_containment e \<or> \<not> ab_native_executor e
        \<or> \<not> ab_no_unmerged e \<or> \<not> ab_no_unsupported_flags e \<or> \<not> ab_byte_neutral e)"

record destination_evidence =
  de_version :: nat
  de_repository_id :: repository_id
  de_worktree_id :: worktree_id
  de_target_kind :: target_kind
  de_head :: object_id
  de_branch_name :: bytes
  de_detached :: bool
  de_tree_fingerprint :: bytes
  de_index :: index_evidence
  de_paths :: "path_precondition list"
  de_conversion_version :: nat
  de_conversion_fingerprint :: bytes
  de_attributes_changed :: bool
  de_capability :: capability_evidence
  de_global_fingerprint :: bytes
  de_observed_at :: instant
  de_evidence_hash :: bytes

definition ApplyEvidenceVersion :: nat where "ApplyEvidenceVersion = 1"

definition apply_preconditions_valid :: "path_precondition list \<Rightarrow> bool" where
  "apply_preconditions_valid ps = unique_paths path_precondition_valid pp_path {} ps"

definition target_known :: "target_kind \<Rightarrow> bool" where
  "target_known k \<longleftrightarrow> k = TargetLocal \<or> k = TargetCommit \<or> k = TargetBranch"

definition destination_evidence_hash :: "(destination_evidence \<Rightarrow> bytes) \<Rightarrow> destination_evidence \<Rightarrow> bytes" where
  "destination_evidence_hash json e = sha256_hex (json (e\<lparr>de_observed_at := 0, de_evidence_hash := []\<rparr>))"

definition destination_evidence_valid :: "(destination_evidence \<Rightarrow> bytes) \<Rightarrow> destination_evidence \<Rightarrow> bool" where
  "destination_evidence_valid json e \<longleftrightarrow>
     \<not> (de_version e \<noteq> ApplyEvidenceVersion \<or> de_repository_id e = [] \<or> de_worktree_id e = []
        \<or> \<not> target_known (de_target_kind e) \<or> \<not> index_evidence_valid (de_index e)
        \<or> \<not> capability_valid (de_capability e) \<or> is_zero_time (de_observed_at e)
        \<or> \<not> valid_app_sha256 (de_tree_fingerprint e) \<or> \<not> valid_app_sha256 (de_conversion_fingerprint e)
        \<or> \<not> valid_app_sha256 (de_global_fingerprint e) \<or> \<not> valid_app_sha256 (de_evidence_hash e))
     \<and> (de_head e = [] \<or> is_ok (new_object_id (de_head e)))
     \<and> (de_branch_name e = [] \<or> utf8_valid (de_branch_name e))
     \<and> de_conversion_version e \<noteq> 0
     \<and> apply_preconditions_valid (de_paths e)
     \<and> de_evidence_hash e = destination_evidence_hash json e"

subsection \<open>The destination after\<close>

record path_evidence =
  ae_path :: repo_path
  ae_exists :: bool
  ae_kind :: file_kind
  ae_mode :: nat
  ae_content_bytes :: nat
  ae_content_hash :: bytes
  ae_content_class :: content_class
  ae_text_semantics :: "text_semantics option"
  ae_symlink_target_hash :: bytes
  ae_symlink_evidence :: "symlink_evidence option"
  ae_native_alias :: "native_alias_evidence option"
  ae_native_path :: "native_path_evidence option"

definition evidence_precondition :: "path_evidence \<Rightarrow> path_precondition" where
  "evidence_precondition p =
     \<lparr>pp_path = ae_path p, pp_must_exist = ae_exists p, pp_kind = ae_kind p, pp_mode = ae_mode p,
      pp_content_bytes = ae_content_bytes p, pp_content_hash = ae_content_hash p,
      pp_content_class = ae_content_class p, pp_text_semantics = ae_text_semantics p,
      pp_symlink_target_hash = ae_symlink_target_hash p, pp_symlink_evidence = ae_symlink_evidence p,
      pp_native_alias = ae_native_alias p, pp_native_path = ae_native_path p\<rparr>"

definition path_evidence_valid :: "path_evidence \<Rightarrow> bool" where
  "path_evidence_valid p \<longleftrightarrow>
     valid_repo_path (ae_path p) \<and> ae_kind p \<noteq> FileKindGitlink
     \<and> path_precondition_valid (evidence_precondition p)"

record verification_evidence =
  ve_version :: nat
  ve_operation_id :: operation_id
  ve_repository_id :: repository_id
  ve_worktree_id :: worktree_id
  ve_target_kind :: target_kind
  ve_state :: observation_state
  ve_paths :: "path_evidence list"
  ve_unexpected_paths :: "repo_path list"
  ve_head :: object_id
  ve_branch_name :: bytes
  ve_detached :: bool
  ve_tree_fingerprint :: bytes
  ve_index :: index_evidence
  ve_conversion_version :: nat
  ve_conversion_fingerprint :: bytes
  ve_attributes_changed :: bool
  ve_capability :: capability_evidence
  ve_global_fingerprint :: bytes
  ve_observed_at :: instant
  ve_evidence_hash :: bytes

definition ApplyVerificationEvidenceVersion :: nat where "ApplyVerificationEvidenceVersion = 1"

definition no_index :: index_evidence where
  "no_index =
     \<lparr>ie_exists = False, ie_bytes = 0, ie_sha256 = [], ie_entries = [], ie_sparse = False,
      ie_before_sha256 = [], ie_after_sha256 = []\<rparr>"

definition no_verification :: verification_evidence where
  "no_verification =
     \<lparr>ve_version = 0, ve_operation_id = [], ve_repository_id = [], ve_worktree_id = [],
      ve_target_kind = TargetOther [], ve_state = ObservedOther [], ve_paths = [], ve_unexpected_paths = [],
      ve_head = [], ve_branch_name = [], ve_detached = False, ve_tree_fingerprint = [], ve_index = no_index,
      ve_conversion_version = 0, ve_conversion_fingerprint = [], ve_attributes_changed = False,
      ve_capability = \<lparr>ab_version = 0, ab_registered_support = False, ab_containment = False,
        ab_native_executor = False, ab_no_unmerged = False, ab_no_unsupported_flags = False,
        ab_byte_neutral = False\<rparr>,
      ve_global_fingerprint = [], ve_observed_at = 0, ve_evidence_hash = []\<rparr>"

definition verification_evidence_hash :: "(verification_evidence \<Rightarrow> bytes) \<Rightarrow> verification_evidence \<Rightarrow> bytes" where
  "verification_evidence_hash json e = sha256_hex (json (e\<lparr>ve_observed_at := 0, ve_evidence_hash := []\<rparr>))"

text \<open>The paths are checked after each other against one set of keys: observed ones, then unexpected ones.\<close>

definition verification_evidence_valid :: "(verification_evidence \<Rightarrow> bytes) \<Rightarrow> verification_evidence \<Rightarrow> bool" where
  "verification_evidence_valid json e \<longleftrightarrow>
     \<not> (ve_version e \<noteq> ApplyVerificationEvidenceVersion \<or> ve_operation_id e = [] \<or> ve_repository_id e = []
        \<or> ve_worktree_id e = [] \<or> \<not> target_known (ve_target_kind e) \<or> \<not> observation_state_valid (ve_state e)
        \<or> \<not> index_evidence_valid (ve_index e) \<or> \<not> capability_valid (ve_capability e)
        \<or> is_zero_time (ve_observed_at e) \<or> \<not> valid_app_sha256 (ve_tree_fingerprint e)
        \<or> ve_conversion_version e = 0 \<or> \<not> valid_app_sha256 (ve_conversion_fingerprint e)
        \<or> \<not> valid_app_sha256 (ve_global_fingerprint e) \<or> \<not> valid_app_sha256 (ve_evidence_hash e))
     \<and> (ve_head e = [] \<or> is_ok (new_object_id (ve_head e)))
     \<and> (ve_branch_name e = [] \<or> safe_text (ve_branch_name e))
     \<and> unique_paths path_evidence_valid ae_path {} (ve_paths e)
     \<and> unique_paths valid_repo_path (\<lambda>p. p) (path_key ` ae_path ` set (ve_paths e)) (ve_unexpected_paths e)
     \<and> ve_evidence_hash e = verification_evidence_hash json e"

subsection \<open>The operation\<close>

record evidence_json =
  ej_destination :: "destination_evidence \<Rightarrow> bytes"
  ej_verification :: "verification_evidence \<Rightarrow> bytes"

record apply_operation =
  ao_version :: nat
  ao_id :: operation_id
  ao_session_id :: review_session_id
  ao_proposal_id :: proposal_id
  ao_workspace_id :: workspace_id
  ao_thread_id :: review_thread_id
  ao_proposal_version :: version_number
  ao_idempotency_key :: bytes
  ao_review_revision :: nat
  ao_session_revision :: nat
  ao_patch_sha256 :: bytes
  ao_patch_bytes :: nat
  ao_artifact :: patch_artifact
  ao_destination :: destination_constraints
  ao_baseline :: snapshot_identity
  ao_result :: snapshot_identity
  ao_preconditions :: "path_precondition list"
  ao_evidence :: destination_evidence
  ao_policy_version :: nat
  ao_phase :: apply_phase
  ao_failure :: apply_failure
  ao_verification :: verification_evidence
  ao_created_at :: instant
  ao_prepared_at :: instant
  ao_completed_at :: "instant option"

definition ApplyOperationVersion :: nat where "ApplyOperationVersion = 1"

definition terminal_phase :: "apply_phase \<Rightarrow> bool" where
  "terminal_phase p \<longleftrightarrow> p = ApplyApplied \<or> p = ApplyFailedClean \<or> p = ApplyRepairRequired"

text \<open>What the phase says about the outcome fields.\<close>

definition operation_outcome_valid :: "evidence_json \<Rightarrow> apply_operation \<Rightarrow> bool" where
  "operation_outcome_valid json o' \<longleftrightarrow>
     (if terminal_phase (ao_phase o')
      then \<not> (ao_completed_at o' = None \<or> \<not> verification_evidence_valid (ej_verification json) (ao_verification o')
              \<or> ao_failure o' = FailureNone \<and> ao_phase o' \<noteq> ApplyApplied)
      else if ao_phase o' = ApplyRetrySafe
      then \<not> (ao_completed_at o' \<noteq> None \<or> \<not> verification_evidence_valid (ej_verification json) (ao_verification o')
              \<or> ao_failure o' \<noteq> FailureRetrySafe)
      else \<not> (ao_completed_at o' \<noteq> None \<or> ve_version (ao_verification o') \<noteq> 0 \<or> ao_failure o' \<noteq> FailureNone))"

definition apply_operation_valid :: "evidence_json \<Rightarrow> apply_operation \<Rightarrow> bool" where
  "apply_operation_valid json o' \<longleftrightarrow>
     \<not> (ao_version o' \<noteq> ApplyOperationVersion \<or> ao_id o' = [] \<or> ao_session_id o' = [] \<or> ao_proposal_id o' = []
        \<or> ao_workspace_id o' = [] \<or> ao_thread_id o' = [] \<or> ao_proposal_version o' = 0
        \<or> \<not> safe_text (ao_idempotency_key o') \<or> ao_review_revision o' = 0 \<or> ao_session_revision o' = 0
        \<or> \<not> valid_app_sha256 (ao_patch_sha256 o') \<or> ao_patch_bytes o' = 0
        \<or> ao_artifact o' \<noteq> no_artifact \<and> \<not> patch_artifact_valid (ao_artifact o')
        \<or> ao_artifact o' \<noteq> no_artifact
          \<and> (pa_patch_sha256 (ao_artifact o') \<noteq> ao_patch_sha256 o' \<or> pa_patch_bytes (ao_artifact o') \<noteq> ao_patch_bytes o')
        \<or> \<not> destination_valid (ao_destination o') \<or> \<not> snapshot_identity_valid (ao_baseline o')
        \<or> \<not> snapshot_identity_valid (ao_result o')
        \<or> \<not> destination_evidence_valid (ej_destination json) (ao_evidence o') \<or> ao_policy_version o' = 0
        \<or> \<not> apply_phase_valid (ao_phase o') \<or> \<not> apply_failure_valid (ao_failure o')
        \<or> is_zero_time (ao_created_at o') \<or> is_zero_time (ao_prepared_at o')
        \<or> before (ao_prepared_at o') (ao_created_at o'))
     \<and> opt_all (\<lambda>t. \<not> (is_zero_time t \<or> before t (ao_prepared_at o'))) (ao_completed_at o')
     \<and> operation_outcome_valid json o'
     \<and> \<not> (de_repository_id (ao_evidence o') = [] \<or> de_worktree_id (ao_evidence o') \<noteq> dc_worktree_id (ao_destination o')
          \<or> de_target_kind (ao_evidence o') \<noteq> dc_target_kind (ao_destination o')
          \<or> dc_target_kind (ao_destination o') = TargetLocal
            \<and> de_tree_fingerprint (ao_evidence o') \<noteq> dc_expected_fingerprint (ao_destination o')
          \<or> dc_target_kind (ao_destination o') \<noteq> TargetLocal
            \<and> de_head (ao_evidence o') \<noteq> dc_expected_head (ao_destination o')
          \<or> \<not> capability_valid (de_capability (ao_evidence o'))
          \<or> de_evidence_hash (ao_evidence o') \<noteq> destination_evidence_hash (ej_destination json) (ao_evidence o'))
     \<and> apply_preconditions_valid (ao_preconditions o')"

definition operation_evidence_hash :: "evidence_json \<Rightarrow> apply_operation \<Rightarrow> bytes" where
  "operation_evidence_hash json o' =
     (if \<not> destination_evidence_valid (ej_destination json) (ao_evidence o') then []
      else de_evidence_hash (ao_evidence o'))"

end
