(* ===== verification/Session_Keys.thy ===== *)
theory Session_Keys
  imports Threads Go_Sha256
begin

text \<open>
  The compatibility identity of a review session (\<^verbatim>\<open>internal/domain/review/session_key.go\<close>) and
  the text under which the store files it: \<^verbatim>\<open>encoding/json\<close> of the key, hashed.
\<close>

subsection \<open>JSON texts\<close>

definition quote_char :: char where
  "quote_char = CHR 0x22"

definition backslash :: char where
  "backslash = CHR 0x5C"

definition json_safe :: "nat \<Rightarrow> bool" where
  "json_safe b \<longleftrightarrow> 32 \<le> b \<and> b \<notin> {34, 92, 60, 62, 38}"

definition json_ascii_escape :: "char \<Rightarrow> bytes" where
  "json_ascii_escape c =
     (let b = byte c in
      if b = 92 \<or> b = 34 then [backslash, c]
      else if b = 8 then [backslash, CHR ''b'']
      else if b = 12 then [backslash, CHR ''f'']
      else if b = 10 then [backslash, CHR ''n'']
      else if b = 13 then [backslash, CHR ''r'']
      else if b = 9 then [backslash, CHR ''t'']
      else backslash # ''u00'' @ [hex_digit (b div 16), hex_digit (b mod 16)])"

text \<open>One rune with the bytes it was decoded from; the separators U+2028 and U+2029 are escaped.\<close>

definition json_unit :: "nat \<times> bytes \<Rightarrow> bytes" where
  "json_unit = (\<lambda>(r, b).
     if length b = 1 \<and> byte (hd b) < 128
     then (if json_safe (byte (hd b)) then b else json_ascii_escape (hd b))
     else if r = rune_error \<and> length b = 1 then backslash # ''ufffd''
     else if b = [mk_byte 226, mk_byte 128, mk_byte 168] then backslash # ''u2028''
     else if b = [mk_byte 226, mk_byte 128, mk_byte 169] then backslash # ''u2029''
     else b)"

definition json_text :: "bytes \<Rightarrow> bytes" where
  "json_text s = quote_char # concat (map json_unit (rune_chunks s)) @ [quote_char]"

definition json_field :: "bytes \<Rightarrow> bytes \<Rightarrow> bytes" where
  "json_field name v = json_text name @ CHR '':'' # v"

definition json_object :: "(bytes \<times> bytes) list \<Rightarrow> bytes" where
  "json_object members =
     CHR 0x7B # join_with [CHR '',''] (map (\<lambda>(name, v). json_field name v) members) @ [CHR 0x7D]"

subsection \<open>Keys\<close>

fun snapshot_kind_string :: "snapshot_kind \<Rightarrow> bytes" where
  "snapshot_kind_string SnapshotCommit = ''commit''"
| "snapshot_kind_string SnapshotTree = ''tree''"
| "snapshot_kind_string SnapshotWorkingTree = ''working_tree''"
| "snapshot_kind_string SnapshotEmpty = ''empty''"
| "snapshot_kind_string (SnapshotOther s) = s"

fun target_kind_string :: "target_kind \<Rightarrow> bytes" where
  "target_kind_string TargetLocal = ''local''"
| "target_kind_string TargetCommit = ''commit''"
| "target_kind_string TargetBranch = ''branch''"
| "target_kind_string (TargetOther s) = s"

definition json_snapshot_ref :: "snapshot_ref \<Rightarrow> bytes" where
  "json_snapshot_ref r = json_object
     [(''Kind'', json_text (snapshot_kind_string (sr_kind r))), (''ObjectID'', json_text (sr_object_id r)),
      (''WorktreeID'', json_text (sr_worktree_id r)), (''Fingerprint'', json_text (sr_fingerprint r))]"

record session_key =
  sk_repository_id :: repository_id
  sk_worktree_id :: worktree_id
  sk_target_kind :: target_kind
  sk_frozen_commit :: object_id
  sk_base_identity :: bytes
  sk_branch_identity :: bytes

definition session_key_valid :: "session_key \<Rightarrow> bool" where
  "session_key_valid k \<longleftrightarrow>
     valid_review_id (sk_repository_id k) \<and> sk_base_identity k \<noteq> [] \<and> valid_metadata (sk_base_identity k)
     \<and> (case sk_target_kind k of
          TargetLocal \<Rightarrow>
            sk_worktree_id k \<noteq> [] \<and> sk_frozen_commit k = [] \<and> sk_branch_identity k = []
        | TargetCommit \<Rightarrow>
            sk_frozen_commit k \<noteq> [] \<and> sk_worktree_id k = [] \<and> sk_branch_identity k = []
        | TargetBranch \<Rightarrow>
            sk_worktree_id k \<noteq> [] \<and> sk_frozen_commit k \<noteq> [] \<and> sk_branch_identity k \<noteq> []
            \<and> valid_metadata (sk_branch_identity k)
        | TargetOther _ \<Rightarrow> False)"

definition new_session_key :: "session_key \<Rightarrow> (review_error, session_key) result" where
  "new_session_key k = (if session_key_valid k then Inr k else Inl ErrInvalidReviewSession)"

definition session_key_worktree :: "resolved_target \<Rightarrow> target_kind \<Rightarrow> worktree_id" where
  "session_key_worktree t kind =
     (case (if kind = TargetCommit then None else rt_edit_destination t) of
        Some w \<Rightarrow> w
      | None \<Rightarrow> if sr_kind (rt_head t) = SnapshotWorkingTree then sr_worktree_id (rt_head t) else [])"

definition session_key_base :: "resolved_target \<Rightarrow> target_kind \<Rightarrow> bytes" where
  "session_key_base t kind =
     (if kind = TargetBranch then
        json_object [(''Base'', json_snapshot_ref (rt_base t)),
          (''ResolvedBaseRef'', json_text (rt_resolved_base_ref t)),
          (''MergeBase'', json_text (rt_merge_base t))]
      else if kind = TargetCommit then
        json_object [(''Base'', json_snapshot_ref (rt_base t)),
          (''ResolvedParent'', json_text (rt_resolved_parent t)),
          (''ParentLabel'', json_text (rt_parent_label t))]
      else json_snapshot_ref (rt_base t))"

definition session_key_for :: "review_session \<Rightarrow> (review_error, session_key) result" where
  "session_key_for s =
     (if \<not> session_valid s then Inl ErrInvalidReviewSession
      else
        (let t = se_target s; kind = ts_kind (se_target_spec s) in
         new_session_key
           \<lparr>sk_repository_id = se_repository_id s, sk_worktree_id = session_key_worktree t kind,
            sk_target_kind = kind, sk_frozen_commit = rt_resolved_commit t,
            sk_base_identity = session_key_base t kind,
            sk_branch_identity = (if kind = TargetBranch then rt_branch_ref t else [])\<rparr>))"

text \<open>The store compares keys by the hash of their JSON text.\<close>

definition session_key_json :: "session_key \<Rightarrow> bytes" where
  "session_key_json k = json_object
     [(''RepositoryID'', json_text (sk_repository_id k)), (''WorktreeID'', json_text (sk_worktree_id k)),
      (''TargetKind'', json_text (target_kind_string (sk_target_kind k))),
      (''FrozenCommit'', json_text (sk_frozen_commit k)),
      (''BaseIdentity'', json_text (sk_base_identity k)),
      (''BranchIdentity'', json_text (sk_branch_identity k))]"

definition session_key_hash :: "session_key \<Rightarrow> bytes" where
  "session_key_hash k = sha256_hex (session_key_json k)"

subsection \<open>JSON texts are uniquely read\<close>

definition plain_unit :: "nat \<times> bytes \<Rightarrow> bool" where
  "plain_unit = (\<lambda>(r, b). b \<noteq> [] \<and> full_rune b \<and> decode_rune b = (r, length b)
     \<and> \<not> (length b = 1 \<and> 128 \<le> byte (hd b)))"

lemma valid_chunk:
  assumes "utf8_valid (c # cs)"
  shows "plain_unit (fst (decode_rune (c # cs)), take (rune_size (c # cs)) (c # cs))"
    and "utf8_valid (drop (rune_size (c # cs)) (c # cs))"
proof -
  let ?n = "lead_size (byte c)"
  have ok: "\<not> (rune_size (c # cs) = 1 \<and> 128 \<le> byte c)" "utf8_valid (drop (rune_size (c # cs)) (c # cs))"
    using assms by (simp_all add: utf8_valid.simps(2) split: if_splits)
  show "utf8_valid (drop (rune_size (c # cs)) (c # cs))" by (rule ok(2))
  have size: "rune_size (c # cs) = ?n"
  proof (cases "128 \<le> byte c")
    case False
    then show ?thesis by (simp add: rune_size_def Let_def lead_size_ascii)
  next
    case True
    with ok(1) have "rune_size (c # cs) \<noteq> 1" by simp
    then show ?thesis
      using lead_size_range [of "byte c"] by (auto simp: rune_size_def Let_def split: if_splits)
  qed
  then have le: "?n \<le> Suc (length cs)" using rune_size_le_length [of "c # cs"] by simp
  define b where "b = take ?n (c # cs)"
  have pos: "1 \<le> ?n" using lead_size_range by blast
  then have b: "b = c # take (?n - 1) cs" by (cases ?n) (simp_all add: b_def)
  then have len: "length b = ?n" using le pos by simp
  have full: "full_rune b" unfolding b using le pos by (simp add: Let_def)
  have "decode_rune (b @ drop ?n (c # cs)) = decode_rune b" using full by (rule decode_rune_append)
  then have "decode_rune b = decode_rune (c # cs)" by (simp only: b_def append_take_drop_id)
  then have "decode_rune b = (fst (decode_rune (c # cs)), length b)"
    using size len by (simp only: rune_size_def) (metis prod.collapse)
  moreover have "hd b = c" "b \<noteq> []" by (simp_all add: b)
  ultimately have "plain_unit (fst (decode_rune (c # cs)), b)"
    using full ok(1) len size by (simp only: plain_unit_def prod.case) simp
  then show "plain_unit (fst (decode_rune (c # cs)), take (rune_size (c # cs)) (c # cs))"
    by (simp only: size b_def)
qed

definition unescape_char :: "char \<Rightarrow> char" where
  "unescape_char k =
     (if k = CHR ''b'' then mk_byte 8 else if k = CHR ''f'' then mk_byte 12
      else if k = CHR ''n'' then mk_byte 10 else if k = CHR ''r'' then mk_byte 13
      else if k = CHR ''t'' then mk_byte 9 else k)"

lemma byte_is_lit: "byte c = n \<Longrightarrow> c = mk_byte n"
  by (metis mk_byte_byte)

lemma json_ascii_escape_cases:
  "(\<exists>k. json_ascii_escape c = [backslash, k] \<and> k \<noteq> CHR ''u'' \<and> unescape_char k = c)
   \<or> json_ascii_escape c = backslash # ''u00'' @ [hex_digit (byte c div 16), hex_digit (byte c mod 16)]"
proof (cases "byte c \<in> {92, 34, 8, 12, 10, 13, 9}")
  case True
  then obtain k where "(byte c, k) \<in> {(92, mk_byte 92), (34, mk_byte 34), (8, CHR ''b''), (12, CHR ''f''),
      (10, CHR ''n''), (13, CHR ''r''), (9, CHR ''t'')}" by auto
  then have "json_ascii_escape c = [backslash, k]" "k \<noteq> CHR ''u''" "unescape_char k = c"
    by (auto simp: json_ascii_escape_def Let_def unescape_char_def simp flip: byte_eq_iff)
  then show ?thesis by blast
next
  case False
  then show ?thesis by (simp add: json_ascii_escape_def Let_def)
qed

lemma hex_digit_inject: "i < 16 \<Longrightarrow> j < 16 \<Longrightarrow> hex_digit i = hex_digit j \<Longrightarrow> i = j"
  by (metis hex_value_digit option.inject)

lemma json_ascii_escape_prefix:
  assumes "byte c < 128" "byte d < 128" "json_ascii_escape c @ x = json_ascii_escape d @ y"
  shows "c = d \<and> x = y"
proof -
  have small: "byte c div 16 < 16" "byte d div 16 < 16" using assms(1,2) by simp_all
  have split: "c = d" if "byte c div 16 = byte d div 16" "byte c mod 16 = byte d mod 16"
    using that by (metis byte_eq_iff div_mult_mod_eq)
  consider k where "json_ascii_escape c = [backslash, k]" "k \<noteq> CHR ''u''" "unescape_char k = c"
    | "json_ascii_escape c = backslash # ''u00'' @ [hex_digit (byte c div 16), hex_digit (byte c mod 16)]"
    using json_ascii_escape_cases [of c] by blast
  then show ?thesis
  proof cases
    case 1
    then show ?thesis using assms(3) json_ascii_escape_cases [of d] by auto
  next
    case 2
    then show ?thesis
      using assms(3) json_ascii_escape_cases [of d] split small hex_digit_inject [OF small]
        hex_digit_inject [of "byte c mod 16" "byte d mod 16"] by auto
  qed
qed

lemma escape_hd: "\<exists>u. json_ascii_escape c = backslash # u"
  using json_ascii_escape_cases [of c] by auto

lemma escape_not_separator:
  "byte c < 128 \<Longrightarrow> json_ascii_escape c @ x \<noteq> backslash # ''u2028'' @ y
   \<and> json_ascii_escape c @ x \<noteq> backslash # ''u2029'' @ y"
  using json_ascii_escape_cases [of c] by auto

lemma json_unit_cases:
  assumes "plain_unit (r, b)"
  obtains (raw) "json_unit (r, b) = b" "hd b \<noteq> quote_char" "hd b \<noteq> backslash"
    | (escaped) c where "b = [c]" "byte c < 128" "json_unit (r, b) = json_ascii_escape c"
    | (line) "b = [mk_byte 226, mk_byte 128, mk_byte 168]" "json_unit (r, b) = backslash # ''u2028''"
    | (para) "b = [mk_byte 226, mk_byte 128, mk_byte 169]" "json_unit (r, b) = backslash # ''u2029''"
proof (cases "length b = 1 \<and> byte (hd b) < 128")
  case True
  then obtain c where b: "b = [c]" "byte c < 128" by (cases b) auto
  show thesis
  proof (cases "json_safe (byte c)")
    case True
    then show thesis
      using b by (intro raw) (auto simp: json_unit_def json_safe_def quote_char_def backslash_def)
  next
    case False
    then show thesis using b by (intro escaped [of c]) (simp_all add: json_unit_def)
  qed
next
  case False
  have b: "b \<noteq> []" "length b \<noteq> 1" using assms False by (auto simp: plain_unit_def)
  have "128 \<le> byte (hd b)"
  proof (rule ccontr)
    assume "\<not> 128 \<le> byte (hd b)"
    then have "decode_rune b = (byte (hd b), 1)" using b by (cases b) (simp_all add: Let_def)
    then show False using assms b by (simp add: plain_unit_def)
  qed
  then have hd: "hd b \<noteq> quote_char" "hd b \<noteq> backslash"
    by (auto simp: quote_char_def backslash_def)
  show thesis
  proof (cases "b = [mk_byte 226, mk_byte 128, mk_byte 168] \<or> b = [mk_byte 226, mk_byte 128, mk_byte 169]")
    case True
    moreover have "mk_byte 169 \<noteq> mk_byte 168" by (simp flip: byte_eq_iff)
    ultimately show thesis using line para by (auto simp: json_unit_def)
  next
    case neither: False
    then show thesis using False b hd by (intro raw) (auto simp: json_unit_def)
  qed
qed

lemma plain_unit_prefix:
  assumes "plain_unit (r, b)" "plain_unit (q, d)" "b @ x = d @ y"
  shows "b = d"
proof -
  have "length b = length d"
    using assms decode_rune_append [of b x] decode_rune_append [of d y] by (simp add: plain_unit_def)
  then show ?thesis using assms(3) by simp
qed

lemma json_unit_hd:
  assumes "plain_unit (r, b)"
  obtains h u where "json_unit (r, b) = h # u" "h \<noteq> quote_char"
  using assms
proof (cases rule: json_unit_cases)
  case raw
  have "b \<noteq> []" using assms by (simp add: plain_unit_def)
  with raw show ?thesis by (intro that [of "hd b" "tl b"]) simp_all
next
  case (escaped c)
  then show ?thesis using escape_hd [of c] that by (auto simp: backslash_def quote_char_def)
qed (use that in \<open>auto simp: backslash_def quote_char_def\<close>)

lemma json_unit_prefix:
  assumes b: "plain_unit (r, b)" and d: "plain_unit (q, d)"
    and eq: "json_unit (r, b) @ x = json_unit (q, d) @ y"
  shows "b = d \<and> x = y"
proof -
  have ne: "b \<noteq> []" "d \<noteq> []" using b d by (auto simp: plain_unit_def)
  have hds: "hd (u @ v) = hd u" if "u \<noteq> []" for u v :: bytes using that by simp
  show ?thesis
    using b
  proof (cases rule: json_unit_cases)
    case raw
    with ne have "hd (json_unit (q, d) @ y) \<noteq> backslash" using eq by (metis hds)
    moreover obtain h u where "json_unit (q, d) = h # u" using json_unit_hd [OF d] .
    ultimately have first: "hd (json_unit (q, d)) \<noteq> backslash" by simp
    with d have "json_unit (q, d) = d"
    proof (cases rule: json_unit_cases)
      case (escaped c)
      then show ?thesis using escape_hd [of c] first by auto
    qed auto
    then show ?thesis using plain_unit_prefix [OF b d, of x y] eq raw by simp
  next
    case (escaped c)
    obtain u where u: "json_ascii_escape c = backslash # u" using escape_hd by blast
    show ?thesis
      using d
    proof (cases rule: json_unit_cases)
      case raw
      then show ?thesis using eq escaped u ne by (cases d) auto
    next
      case (escaped e)
      then show ?thesis
        using eq \<open>b = [c]\<close> \<open>json_unit (r, b) = json_ascii_escape c\<close>
          json_ascii_escape_prefix [OF \<open>byte c < 128\<close> \<open>byte e < 128\<close>] by simp
    next
      case line
      then show ?thesis using eq escaped escape_not_separator by simp
    next
      case para
      then show ?thesis using eq escaped escape_not_separator by simp
    qed
  next
    case line
    show ?thesis
      using d
    proof (cases rule: json_unit_cases)
      case raw
      then show ?thesis using eq line ne by (cases d) auto
    next
      case (escaped e)
      then show ?thesis using eq line escape_not_separator [of e y x] by simp
    qed (use eq line in simp_all)
  next
    case para
    show ?thesis
      using d
    proof (cases rule: json_unit_cases)
      case raw
      then show ?thesis using eq para ne by (cases d) auto
    next
      case (escaped e)
      then show ?thesis using eq para escape_not_separator [of e y x] by simp
    qed (use eq para in simp_all)
  qed
qed

lemma json_chunks_hd:
  assumes "utf8_valid (c # cs)"
  obtains h u where "concat (map json_unit (rune_chunks (c # cs))) = h # u" "h \<noteq> quote_char"
proof -
  obtain h u where "json_unit (fst (decode_rune (c # cs)), take (rune_size (c # cs)) (c # cs)) = h # u"
      "h \<noteq> quote_char"
    using json_unit_hd [OF valid_chunk(1) [OF assms]] .
  then show thesis
    by (intro that [of h "u @ concat (map json_unit (rune_chunks (drop (rune_size (c # cs)) (c # cs))))"])
      (simp_all only: rune_chunks.simps(2) list.map concat.simps append_Cons not_False_eq_True)
qed

lemma json_chunks_inject:
  "utf8_valid s \<Longrightarrow> utf8_valid t \<Longrightarrow>
   concat (map json_unit (rune_chunks s)) @ quote_char # x
   = concat (map json_unit (rune_chunks t)) @ quote_char # y \<Longrightarrow> s = t \<and> x = y"
proof (induction s arbitrary: t rule: rune_chunks.induct)
  case 1
  show ?case
  proof (cases t)
    case (Cons d ds)
    then show ?thesis using 1 json_chunks_hd [of d ds] by (metis append_Cons append_Nil list.inject concat.simps(1) list.map(1) rune_chunks.simps(1))
  qed (use 1 in simp)
next
  case (2 c cs)
  let ?s = "c # cs"
  note s = valid_chunk [OF 2(2)]
  show ?case
  proof (cases t)
    case Nil
    then show ?thesis using 2(4) json_chunks_hd [OF 2(2)] by (metis append_Cons append_Nil list.inject concat.simps(1) list.map(1) rune_chunks.simps(1))
  next
    case (Cons d ds)
    let ?t = "d # ds"
    note t = valid_chunk [of d ds]
    have t: "plain_unit (fst (decode_rune ?t), take (rune_size ?t) ?t)" "utf8_valid (drop (rune_size ?t) ?t)"
      using t 2(3) Cons by simp_all
    have eq: "take (rune_size ?s) ?s = take (rune_size ?t) ?t
        \<and> concat (map json_unit (rune_chunks (drop (rune_size ?s) ?s))) @ quote_char # x
          = concat (map json_unit (rune_chunks (drop (rune_size ?t) ?t))) @ quote_char # y"
      using 2(4) Cons by (intro json_unit_prefix [OF s(1) t(1)]) (simp only: rune_chunks.simps(2)
        list.map concat.simps append_assoc)
    with 2(1) [OF s(2) t(2)] have "drop (rune_size ?s) ?s = drop (rune_size ?t) ?t \<and> x = y" by blast
    with eq show ?thesis using Cons by (metis append_take_drop_id)
  qed
qed

lemma json_text_inject:
  assumes "utf8_valid s" "utf8_valid t" "json_text s @ x = json_text t @ y"
  shows "s = t \<and> x = y"
  using json_chunks_inject [OF assms(1,2), of x y] assms(3) by (simp add: json_text_def)

subsection \<open>What a key says\<close>

lemma json_text_append_iff:
  "utf8_valid a \<Longrightarrow> utf8_valid b \<Longrightarrow> json_text a @ x = json_text b @ y \<longleftrightarrow> a = b \<and> x = y"
  using json_text_inject by blast

lemma json_field_append_iff:
  "utf8_valid a \<Longrightarrow> utf8_valid b \<Longrightarrow>
   json_field n (json_text a) @ x = json_field n (json_text b) @ y \<longleftrightarrow> a = b \<and> x = y"
  by (simp add: json_field_def json_text_append_iff)

lemma json_field_iff:
  "utf8_valid a \<Longrightarrow> utf8_valid b \<Longrightarrow> json_field n (json_text a) = json_field n (json_text b) \<longleftrightarrow> a = b"
  using json_field_append_iff [of a b n "[]" "[]"] by simp

text \<open>The snapshots a target starts from are commits, trees or empty.\<close>

definition base_ref_ok :: "snapshot_ref \<Rightarrow> bool" where
  "base_ref_ok r \<longleftrightarrow> snapshot_ref_valid r \<and> sr_kind r \<noteq> SnapshotWorkingTree"

lemma base_ref_texts:
  assumes "base_ref_ok r"
  shows "utf8_valid (snapshot_kind_string (sr_kind r))" "utf8_valid (sr_object_id r)"
    "utf8_valid (sr_worktree_id r)" "utf8_valid (sr_fingerprint r)"
  using assms
  by (cases "sr_kind r"; auto simp: base_ref_ok_def snapshot_ref_valid_def valid_text_def
        ascii_runes byte_def)+

lemma snapshot_kind_string_inject:
  "base_ref_ok r \<Longrightarrow> base_ref_ok q \<Longrightarrow>
   snapshot_kind_string (sr_kind r) = snapshot_kind_string (sr_kind q) \<longleftrightarrow> sr_kind r = sr_kind q"
  by (cases "sr_kind r"; cases "sr_kind q") (simp_all add: base_ref_ok_def snapshot_ref_valid_def)

lemma snapshot_ref_eq_iff: "r = q \<longleftrightarrow> sr_kind r = sr_kind q \<and> sr_object_id r = sr_object_id q
    \<and> sr_worktree_id r = sr_worktree_id q \<and> sr_fingerprint r = sr_fingerprint (q :: snapshot_ref)"
  by (cases r; cases q) simp

lemma json_snapshot_ref_append_iff:
  assumes "base_ref_ok r" "base_ref_ok q"
  shows "json_snapshot_ref r @ x = json_snapshot_ref q @ y \<longleftrightarrow> r = q \<and> x = y"
  using base_ref_texts [OF assms(1)] base_ref_texts [OF assms(2)]
  by (simp add: json_snapshot_ref_def json_object_def json_field_append_iff snapshot_ref_eq_iff
      snapshot_kind_string_inject [OF assms])

lemma json_field_ref_append_iff:
  "base_ref_ok r \<Longrightarrow> base_ref_ok q \<Longrightarrow>
   json_field n (json_snapshot_ref r) @ x = json_field n (json_snapshot_ref q) @ y \<longleftrightarrow> r = q \<and> x = y"
  by (simp add: json_field_def json_snapshot_ref_append_iff)

lemma valid_text_utf8: "valid_text v \<Longrightarrow> utf8_valid v"
  by (simp add: valid_text_def)

lemma target_base_ok:
  assumes "resolved_target_valid t" "ts_kind (rt_spec t) \<in> {TargetLocal, TargetCommit, TargetBranch}"
  shows "base_ref_ok (rt_base t)"
proof -
  have "snapshot_ref_valid (rt_base t)" "resolved_target_shape t"
    using assms(1) by (simp_all add: resolved_target_valid_def)
  then show ?thesis
    using assms(2) by (auto simp: base_ref_ok_def resolved_target_shape_def)
qed

lemma target_texts:
  assumes "resolved_target_valid t"
  shows "utf8_valid (rt_resolved_parent t)" "utf8_valid (rt_parent_label t)"
    "utf8_valid (rt_resolved_base_ref t)" "utf8_valid (rt_merge_base t)" "utf8_valid (rt_resolved_commit t)"
    "utf8_valid (rt_branch_ref t)"
  using assms unfolding resolved_target_valid_def new_object_id_ok
  by (metis valid_text_utf8 utf8_valid.simps(1))+

lemma session_key_base_inject:
  assumes "resolved_target_valid t" "resolved_target_valid u" "ts_kind (rt_spec t) = kind"
    "ts_kind (rt_spec u) = kind" "kind \<in> {TargetLocal, TargetCommit, TargetBranch}"
    "session_key_base t kind = session_key_base u kind"
  shows "rt_base t = rt_base u
    \<and> (kind = TargetCommit \<longrightarrow> rt_resolved_parent t = rt_resolved_parent u \<and> rt_parent_label t = rt_parent_label u)
    \<and> (kind = TargetBranch \<longrightarrow> rt_resolved_base_ref t = rt_resolved_base_ref u \<and> rt_merge_base t = rt_merge_base u)"
proof -
  have refs: "base_ref_ok (rt_base t)" "base_ref_ok (rt_base u)"
    using assms target_base_ok by auto
  note facts = json_field_ref_append_iff [OF refs] target_texts [OF assms(1)] target_texts [OF assms(2)]
  note eq = assms(6)
  consider "kind = TargetLocal" | "kind = TargetCommit" | "kind = TargetBranch" using assms(5) by blast
  then show ?thesis
  proof cases
    case 1
    then show ?thesis using eq json_snapshot_ref_append_iff [OF refs, of "[]" "[]"]
      by (simp add: session_key_base_def)
  qed (use eq facts in \<open>simp_all add: session_key_base_def json_object_def json_field_append_iff json_field_iff\<close>)
qed


text \<open>
  The text that is hashed separates keys: two keys made for sessions have the same JSON text only if
  they are equal.
\<close>

definition key_texts_ok :: "session_key \<Rightarrow> bool" where
  "key_texts_ok k \<longleftrightarrow> utf8_valid (sk_repository_id k) \<and> utf8_valid (sk_worktree_id k) \<and> utf8_valid (sk_frozen_commit k)"

lemma target_kind_string_inject:
  "session_key_valid k \<Longrightarrow> session_key_valid l \<Longrightarrow>
   target_kind_string (sk_target_kind k) = target_kind_string (sk_target_kind l) \<longleftrightarrow>
   sk_target_kind k = sk_target_kind l"
  by (cases "sk_target_kind k"; cases "sk_target_kind l") (simp_all add: session_key_valid_def)

lemma session_key_texts:
  assumes "session_key_valid k"
  shows "utf8_valid (target_kind_string (sk_target_kind k))" "utf8_valid (sk_base_identity k)"
    "utf8_valid (sk_branch_identity k)"
  using assms
  by (cases "sk_target_kind k"; simp add: session_key_valid_def valid_metadata_def ascii_runes byte_def)+

lemma session_key_json_inject:
  assumes "session_key_valid k" "session_key_valid l" "key_texts_ok k" "key_texts_ok l"
    "session_key_json k = session_key_json l"
  shows "k = l"
  using assms(3-5) session_key_texts [OF assms(1)] session_key_texts [OF assms(2)]
  by (intro session_key.equality)
    (simp_all add: session_key_json_def json_object_def json_field_append_iff json_field_iff key_texts_ok_def
      target_kind_string_inject [OF assms(1,2)])

lemma session_key_for_Inr:
  assumes "session_key_for s = Inr k"
  shows "session_valid s" "session_key_valid k" "sk_repository_id k = se_repository_id s"
    "sk_target_kind k = ts_kind (se_target_spec s)" "sk_frozen_commit k = rt_resolved_commit (se_target s)"
    "sk_worktree_id k = session_key_worktree (se_target s) (ts_kind (se_target_spec s))"
    "sk_base_identity k = session_key_base (se_target s) (ts_kind (se_target_spec s))"
    "sk_branch_identity k =
       (if ts_kind (se_target_spec s) = TargetBranch then rt_branch_ref (se_target s) else [])"
  using assms by (auto simp: session_key_for_def Let_def new_session_key_def split: if_splits)

text \<open>
  C22. Sessions are restored by their key, and the key says enough: two sessions with the same key
  text review the same kind of target of the same repository, in the same worktree, at the same
  commit and from the same base; a commit review has the same parent, a branch review the same
  branch and merge base. A key exists exactly for a valid session of a known target kind that has
  the worktree that its kind needs.
\<close>

theorem session_key_identifies:
  assumes "session_key_for s = Inr k" "session_key_for u = Inr l"
    "utf8_valid (se_repository_id s)" "utf8_valid (se_repository_id u)"
    "utf8_valid (sk_worktree_id k)" "utf8_valid (sk_worktree_id l)"
    "session_key_json k = session_key_json l"
  shows "k = l \<and> se_repository_id s = se_repository_id u
    \<and> ts_kind (se_target_spec s) = ts_kind (se_target_spec u)
    \<and> rt_resolved_commit (se_target s) = rt_resolved_commit (se_target u)
    \<and> rt_base (se_target s) = rt_base (se_target u)
    \<and> (ts_kind (se_target_spec s) = TargetCommit \<longrightarrow>
         rt_resolved_parent (se_target s) = rt_resolved_parent (se_target u))
    \<and> (ts_kind (se_target_spec s) = TargetBranch \<longrightarrow>
         rt_branch_ref (se_target s) = rt_branch_ref (se_target u)
         \<and> rt_merge_base (se_target s) = rt_merge_base (se_target u))"
proof -
  note s = session_key_for_Inr [OF assms(1)] and u = session_key_for_Inr [OF assms(2)]
  have targets: "resolved_target_valid (se_target s)" "resolved_target_valid (se_target u)"
    "rt_spec (se_target s) = se_target_spec s" "rt_spec (se_target u) = se_target_spec u"
    using s(1) u(1) by (simp_all add: session_valid_def)
  have "key_texts_ok k" "key_texts_ok l"
    using assms(3-6) s u target_texts(5) [OF targets(1)] target_texts(5) [OF targets(2)]
    by (simp_all add: key_texts_ok_def)
  then have kl: "k = l"
    using session_key_json_inject [OF s(2) u(2)] assms(7) by blast
  have kind: "ts_kind (se_target_spec s) \<in> {TargetLocal, TargetCommit, TargetBranch}"
    using s(2,4) by (auto simp: session_key_valid_def split: target_kind.splits)
  show ?thesis
    using kl s u session_key_base_inject [OF targets(1,2) _ _ kind] targets by auto
qed

lemma utf8_append: "utf8_valid a \<Longrightarrow> utf8_valid b \<Longrightarrow> utf8_valid (a @ b)"
  by (simp add: utf8_valid_scan scan_utf8_append)

lemma utf8_ascii_Cons: "byte c < 128 \<Longrightarrow> utf8_valid (c # s) = utf8_valid s"
  by (simp add: utf8_valid.simps(2) ascii_rune_size)

lemma json_escape_ascii: "byte c < 128 \<Longrightarrow> list_all (\<lambda>c. byte c < 128) (json_ascii_escape c)"
  by (auto simp: json_ascii_escape_def Let_def hex_digit_def backslash_def)

lemma json_unit_utf8:
  assumes "plain_unit (r, b)" "utf8_valid b"
  shows "utf8_valid (json_unit (r, b))"
  using assms(1)
proof (cases rule: json_unit_cases)
  case (escaped c)
  then show ?thesis using json_escape_ascii [of c] by (simp add: ascii_runes)
qed (use assms(2) in \<open>simp_all add: ascii_runes backslash_def\<close>)

lemma plain_unit_utf8: "plain_unit (r, b) \<Longrightarrow> utf8_valid b"
  by (cases b) (auto simp: plain_unit_def utf8_valid.simps(2) rune_size_def simp del: decode_rune.simps)

lemma json_chunks_utf8: "utf8_valid s \<Longrightarrow> utf8_valid (concat (map json_unit (rune_chunks s)))"
proof (induction s rule: rune_chunks.induct)
  case (2 c cs)
  note chunk = valid_chunk [OF 2(2)]
  have "utf8_valid (take (rune_size (c # cs)) (c # cs))"
    using chunk(1) by (rule plain_unit_utf8)
  then show ?case
    using 2(1) [OF chunk(2)] json_unit_utf8 [OF chunk(1)] by (simp add: rune_chunks.simps(2) utf8_append)
qed simp

lemma json_text_utf8: "utf8_valid s \<Longrightarrow> utf8_valid (json_text s)"
  unfolding json_text_def
  by (simp add: utf8_ascii_Cons quote_char_def utf8_append json_chunks_utf8 ascii_runes)

lemma session_key_base_utf8:
  assumes "resolved_target_valid t" "ts_kind (rt_spec t) \<in> {TargetLocal, TargetCommit, TargetBranch}"
  shows "utf8_valid (session_key_base t kind) \<and> session_key_base t kind \<noteq> []"
proof -
  have names: "utf8_valid n \<Longrightarrow> utf8_valid v \<Longrightarrow> utf8_valid (json_field n v)" for n v
    by (simp add: json_field_def utf8_append json_text_utf8 utf8_ascii_Cons)
  note texts = base_ref_texts [OF target_base_ok [OF assms]] target_texts [OF assms(1)]
  have "utf8_valid (json_snapshot_ref (rt_base t))"
    by (simp add: json_snapshot_ref_def json_object_def texts json_text_utf8 names utf8_append utf8_ascii_Cons ascii_runes)
  then show ?thesis
    by (simp add: session_key_base_def json_object_def json_snapshot_ref_def
        texts json_text_utf8 names utf8_append utf8_ascii_Cons ascii_runes)
qed

lemma session_key_exists_iff:
  "is_ok (session_key_for s) \<longleftrightarrow>
     session_valid s \<and>
     (case ts_kind (se_target_spec s) of
        TargetLocal \<Rightarrow> session_key_worktree (se_target s) TargetLocal \<noteq> [] \<and> rt_resolved_commit (se_target s) = []
      | TargetCommit \<Rightarrow> True
      | TargetBranch \<Rightarrow> session_key_worktree (se_target s) TargetBranch \<noteq> []
      | TargetOther _ \<Rightarrow> False)"
proof (cases "session_valid s")
  case True
  let ?t = "se_target s" and ?kind = "ts_kind (se_target_spec s)"
  have t: "resolved_target_valid ?t" "rt_spec ?t = se_target_spec s" "valid_review_id (se_repository_id s)"
    using True by (simp_all add: session_valid_def)
  then have shape: "resolved_target_shape ?t" by (simp add: resolved_target_valid_def)
  show ?thesis
  proof (cases "?kind \<in> {TargetLocal, TargetCommit, TargetBranch}")
    case kind: True
    have base: "utf8_valid (session_key_base ?t ?kind)" "session_key_base ?t ?kind \<noteq> []"
      using session_key_base_utf8 [OF t(1)] kind t(2) by auto
    from kind show ?thesis
      using True t base shape target_texts(6) [OF t(1)]
      by (auto simp: session_key_for_def Let_def new_session_key_def session_key_valid_def
          valid_metadata_def resolved_target_shape_def session_key_worktree_def split: option.splits)
  next
    case False
    then show ?thesis
      by (cases ?kind)
        (simp_all add: session_key_for_def Let_def new_session_key_def session_key_valid_def)
  qed
qed (simp add: session_key_for_def)

lemma session_key_identifies_witness:
  "\<exists>k. session_key_for sample_session = Inr k
     \<and> session_key_for (sample_session\<lparr>se_id := ''u'', se_updated_at := 9\<rparr>) = Inr k
     \<and> rt_base (se_target (sample_session\<lparr>se_id := ''u'', se_updated_at := 9\<rparr>)) = rt_base (se_target sample_session)"
proof -
  let ?u = "sample_session\<lparr>se_id := ''u'', se_updated_at := 9\<rparr>"
  have valid: "session_valid ?u"
    using sample_session_valid
    by (simp add: session_valid_def sample_session_def Let_def time_defs valid_review_id_def utf8_valid.simps)
  have "is_ok (session_key_for sample_session)" "is_ok (session_key_for ?u)"
    using sample_session_valid valid
    by (simp_all add: session_key_exists_iff session_key_worktree_def sample_session_def Let_def)
  then obtain k l where k: "session_key_for sample_session = Inr k" and l: "session_key_for ?u = Inr l"
    by (cases "session_key_for sample_session"; cases "session_key_for ?u") auto
  have "sk_worktree_id k = ''w''" "sk_worktree_id l = ''w''"
    using session_key_for_Inr [OF k] session_key_for_Inr [OF l]
    by (simp_all add: session_key_worktree_def sample_session_def Let_def)
  moreover have same: "k = l"
    using k l sample_session_valid valid by (simp add: session_key_for_def)
  moreover have "utf8_valid ''w''" "utf8_valid (se_repository_id sample_session)"
    by (simp_all add: sample_session_def Let_def utf8_ascii_Cons)
  ultimately show ?thesis
    using k l session_key_identifies [OF l k] by simp
qed

end
