(* ===== verification/Review_Tables.thy ===== *)
theory Review_Tables
  imports Reducer Session_Keys Go_Time
begin

text \<open>
  The review store (\<^verbatim>\<open>internal/store/sqlite/queries.go\<close>): the tables of sessions, threads, anchor
  versions and messages, the writer fence and the transactions on them. A table is the list of its
  rows under their primary keys, a violated key is a constraint error, and a transaction that fails
  leaves the tables as they were. A column of JSON holds the value it encodes, a column of time the
  instant; the counters do not reach the 64-bit limit.
\<close>

subsection \<open>Rows\<close>

datatype store_error =
    StoreInput | StoreClosed | StoreNotFound | StoreLeaseLost | StoreRevisionConflict | StoreCorrupt
  | StoreBindingChanged | StoreTargetConflict | StoreCandidateStale | StorePageItemTooLarge
  | StoreConstraint | StoreIO bytes

record session_row =
  sw_repository_id :: repository_id
  sw_worktree_id :: "worktree_id option"
  sw_target_kind :: target_kind
  sw_key_hash :: bytes
  sw_session :: review_session
  sw_generation :: nat
  sw_active_operation :: "operation_id option"
  sw_revision :: nat
  sw_writer_epoch :: nat
  sw_writer_lease :: bytes
  sw_created_at :: instant
  sw_updated_at :: instant
  sw_closed_at :: "instant option"

record generation_row =
  gw_capture_id :: "bytes option"
  gw_fingerprint :: bytes
  gw_manifest_hash :: bytes
  gw_accepted_at :: instant

record thread_row =
  hr_session_id :: review_session_id
  hr_title :: bytes
  hr_resolution :: resolution_state
  hr_conversation :: conversation_state
  hr_proposal :: proposal_state
  hr_read :: read_state
  hr_provider_conversation_id :: "provider_conversation_id option"
  hr_latest_proposal_id :: "proposal_id option"
  hr_failure_phase :: failure_phase
  hr_error_code :: error_code
  hr_anchor_version :: nat
  hr_created_at :: instant
  hr_updated_at :: instant

record anchor_version =
  av_thread_id :: review_thread_id
  av_version :: nat
  av_anchor :: code_anchor
  av_method :: anchor_version_method
  av_previous_version :: nat
  av_candidate :: "anchor_candidate option"
  av_actor :: bytes
  av_created_at :: instant

text \<open>A row of the anchor history holds either a bare anchor or a full version record.\<close>

datatype stored_anchor = StoredAnchor code_anchor | StoredVersion anchor_version

record anchor_row =
  aw_stored :: stored_anchor
  aw_created_at :: instant

record message_row =
  ms_thread_id :: review_thread_id
  ms_role :: message_role
  ms_content :: bytes
  ms_provider_id :: bytes
  ms_status :: message_status
  ms_ordinal :: nat
  ms_body_length :: nat
  ms_body_sha256 :: bytes
  ms_failure_phase :: failure_phase
  ms_error_code :: error_code
  ms_created_at :: instant
  ms_updated_at :: instant
  ms_completed_at :: "instant option"

record body_chunk =
  bc_sha256 :: bytes
  bc_bytes :: bytes

record body_identity =
  bi_message_id :: message_id
  bi_chunk_count :: nat
  bi_byte_length :: nat
  bi_sha256 :: bytes
  bi_terminal_status :: message_status
  bi_failure_phase :: failure_phase
  bi_error_code :: error_code
  bi_completed_at :: instant

record review_tables =
  tb_repositories :: "(repository_id \<times> repository) list"
  tb_worktrees :: "(worktree_id \<times> worktree_ref) list"
  tb_sessions :: "(review_session_id \<times> session_row) list"
  tb_generations :: "((review_session_id \<times> nat) \<times> generation_row) list"
  tb_threads :: "(review_thread_id \<times> thread_row) list"
  tb_anchors :: "((review_thread_id \<times> nat) \<times> anchor_row) list"
  tb_messages :: "(message_id \<times> message_row) list"
  tb_chunks :: "((message_id \<times> nat) \<times> body_chunk) list"
  tb_identities :: "(message_id \<times> body_identity) list"

definition empty_tables :: review_tables where
  "empty_tables =
     \<lparr>tb_repositories = [], tb_worktrees = [], tb_sessions = [], tb_generations = [], tb_threads = [],
      tb_anchors = [], tb_messages = [], tb_chunks = [], tb_identities = []\<rparr>"

subsection \<open>Statements\<close>

definition insert_row :: "'k \<Rightarrow> 'r \<Rightarrow> ('k \<times> 'r) list \<Rightarrow> (store_error, ('k \<times> 'r) list) result" where
  "insert_row k r rows = (if map_of rows k = None then Inr (rows @ [(k, r)]) else Inl StoreConstraint)"

definition select_row :: "'k \<Rightarrow> ('k \<times> 'r) list \<Rightarrow> (store_error, 'r) result" where
  "select_row k rows = (case map_of rows k of None \<Rightarrow> Inl StoreNotFound | Some r \<Rightarrow> Inr r)"

definition update_row :: "'k \<Rightarrow> ('r \<Rightarrow> 'r) \<Rightarrow> ('k \<times> 'r) list \<Rightarrow> ('k \<times> 'r) list" where
  "update_row k f rows = map (\<lambda>(i, r). if i = k then (i, f r) else (i, r)) rows"

definition upsert_row :: "'k \<Rightarrow> ('r option \<Rightarrow> 'r) \<Rightarrow> ('k \<times> 'r) list \<Rightarrow> ('k \<times> 'r) list" where
  "upsert_row k f rows =
     (if map_of rows k = None then rows @ [(k, f None)] else update_row k (\<lambda>r. f (Some r)) rows)"

lemma insert_row_Inr:
  "insert_row k r rows = Inr rows' \<longleftrightarrow> map_of rows k = None \<and> rows' = rows @ [(k, r)]"
  by (auto simp: insert_row_def)

declare map_of_append [simp del]

lemma map_of_snoc [simp]:
  "map_of (rows @ [(k, r)]) i = (case map_of rows i of None \<Rightarrow> if i = k then Some r else None | Some x \<Rightarrow> Some x)"
  by (simp add: map_of_append map_add_def split: option.split)

lemma map_of_update_row [simp]:
  "map_of (update_row k f rows) i = (if i = k then map_option f (map_of rows i) else map_of rows i)"
  by (induction rows) (auto simp: update_row_def)

lemma map_of_upsert_row [simp]:
  "map_of (upsert_row k f rows) i = (if i = k then Some (f (map_of rows k)) else map_of rows i)"
  by (auto simp: upsert_row_def map_add_def split: option.split)

lemma select_row_Inr [simp]: "select_row k rows = Inr r \<longleftrightarrow> map_of rows k = Some r"
  by (auto simp: select_row_def split: option.splits)

lemma select_row_Inl: "select_row k rows = Inl e \<longleftrightarrow> map_of rows k = None \<and> e = StoreNotFound"
  by (auto simp: select_row_def split: option.splits)

lemma keys_update_row [simp]: "map fst (update_row k f rows) = map fst rows"
  by (induction rows) (auto simp: update_row_def)

end
