(* ===== verification/Review_Store.thy ===== *)
theory Review_Store
  imports Review_Tables
begin

text \<open>
  Repositories, sessions and the writer fence of the review store. Every write runs in a database
  transaction; what the database refuses before the transaction is committed, or on committing it,
  is the environment of the operation.
\<close>

subsection \<open>Transactions\<close>

record review_store =
  rv_tables :: review_tables
  rv_closed :: bool
  rv_max_message_bytes :: nat

record tx_env =
  te_begin :: "store_error option"
  te_commit :: "store_error option"

definition in_tx ::
    "tx_env \<Rightarrow> (review_tables \<Rightarrow> (store_error, review_tables \<times> 'a) result) \<Rightarrow> review_store
     \<Rightarrow> review_store \<times> (store_error, 'a) result" where
  "in_tx env body s =
     (case te_begin env of
        Some e \<Rightarrow> (s, Inl e)
      | None \<Rightarrow>
          (case body (rv_tables s) of
             Inl e \<Rightarrow> (s, Inl e)
           | Inr (tb, a) \<Rightarrow>
               (case te_commit env of
                  Some e \<Rightarrow> (s, Inl e)
                | None \<Rightarrow> (s\<lparr>rv_tables := tb\<rparr>, Inr a))))"

lemma in_tx_Inr:
  "in_tx env body s = (s', Inr a) \<longleftrightarrow>
     te_begin env = None \<and> te_commit env = None
     \<and> (\<exists>tb. body (rv_tables s) = Inr (tb, a) \<and> s' = s\<lparr>rv_tables := tb\<rparr>)"
  by (auto simp: in_tx_def split: option.splits sum.splits)

lemma in_tx_Inl: "in_tx env body s = (s', Inl e) \<Longrightarrow> s' = s"
  by (auto simp: in_tx_def split: option.splits sum.splits)

subsection \<open>Repositories\<close>

definition repository_binding_kept :: "review_tables \<Rightarrow> repository \<Rightarrow> bool" where
  "repository_binding_kept tb repo =
     (case map_of (tb_repositories tb) (rp_id repo) of
        None \<Rightarrow> True
      | Some r \<Rightarrow>
          rb_common_git_dir_identity (rp_binding r) = rb_common_git_dir_identity (rp_binding repo)
          \<and> rb_object_format (rp_binding r) = rb_object_format (rp_binding repo))"

definition worktree_binding_kept :: "review_tables \<Rightarrow> worktree_ref \<Rightarrow> bool" where
  "worktree_binding_kept tb w =
     (case map_of (tb_worktrees tb) (wt_id w) of
        None \<Rightarrow> True
      | Some r \<Rightarrow>
          wb_root_identity (wt_binding r) = wb_root_identity (wt_binding w)
          \<and> wb_git_dir_identity (wt_binding r) = wb_git_dir_identity (wt_binding w)
          \<and> wb_object_format (wt_binding r) = wb_object_format (wt_binding w))"

text \<open>The remotes are not persisted, and the creation time is that of the first row.\<close>

definition repository_row :: "repository \<Rightarrow> repository option \<Rightarrow> repository" where
  "repository_row repo old =
     repo\<lparr>rp_remotes := [], rp_created_at := (case old of None \<Rightarrow> rp_created_at repo | Some r \<Rightarrow> rp_created_at r)\<rparr>"

definition upsert_repository ::
    "tx_env \<Rightarrow> repository \<Rightarrow> worktree_ref \<Rightarrow> review_store \<Rightarrow> review_store \<times> (store_error, unit) result" where
  "upsert_repository env repo w s =
     (if rv_closed s then (s, Inl StoreClosed)
      else if \<not> repository_valid repo \<or> \<not> worktree_ref_valid w \<or> wt_repository_id w \<noteq> rp_id repo
      then (s, Inl StoreInput)
      else in_tx env
        (\<lambda>tb. if \<not> repository_binding_kept tb repo \<or> \<not> worktree_binding_kept tb w
              then Inl StoreBindingChanged
              else Inr
                (tb\<lparr>tb_repositories := upsert_row (rp_id repo) (repository_row repo) (tb_repositories tb),
                    tb_worktrees := upsert_row (wt_id w) (\<lambda>_. w\<lparr>wt_upstream := None\<rparr>) (tb_worktrees tb)\<rparr>, ()))
        s)"

subsection \<open>Sessions\<close>

definition nullable_id :: "bytes \<Rightarrow> bytes option" where
  "nullable_id v = (if v = [] then None else Some v)"

definition session_row_of :: "review_session \<Rightarrow> session_key \<Rightarrow> bytes \<Rightarrow> session_row" where
  "session_row_of session key lease =
     \<lparr>sw_repository_id = se_repository_id session, sw_worktree_id = nullable_id (sk_worktree_id key),
      sw_target_kind = ts_kind (se_target_spec session), sw_key_hash = session_key_hash key,
      sw_session = session, sw_generation = rt_generation (se_target session),
      sw_active_operation = None, sw_revision = 1, sw_writer_epoch = 1, sw_writer_lease = lease,
      sw_created_at = se_created_at session, sw_updated_at = se_updated_at session,
      sw_closed_at = None\<rparr>"

definition create_session_tx ::
    "review_session \<Rightarrow> session_key \<Rightarrow> bytes \<Rightarrow> review_tables
     \<Rightarrow> (store_error, review_tables \<times> session_write_guard) result" where
  "create_session_tx session key lease tb =
     bind_result
       (if sk_worktree_id key = [] then Inr ()
        else bind_result (select_row (sk_worktree_id key) (tb_worktrees tb))
          (\<lambda>w. if wt_repository_id w \<noteq> se_repository_id session then Inl StoreInput else Inr ()))
       (\<lambda>_.
          if map_of (tb_repositories tb) (se_repository_id session) = None then Inl StoreConstraint
          else
            bind_result (insert_row (se_id session) (session_row_of session key lease) (tb_sessions tb))
              (\<lambda>sessions.
                 bind_result
                   (insert_row (se_id session, rt_generation (se_target session))
                      \<lparr>gw_capture_id = None, gw_fingerprint = rt_fingerprint (se_target session),
                       gw_manifest_hash = [], gw_accepted_at = se_created_at session\<rparr>
                      (tb_generations tb))
                   (\<lambda>generations.
                      Inr (tb\<lparr>tb_sessions := sessions, tb_generations := generations\<rparr>,
                           \<lparr>sg_session_id = se_id session, sg_lease_id = lease, sg_writer_epoch = 1,
                            sg_expected_revision = 1\<rparr>))))"

definition create_session ::
    "tx_env \<Rightarrow> review_session \<Rightarrow> bytes \<Rightarrow> review_store
     \<Rightarrow> review_store \<times> (store_error, session_write_guard) result" where
  "create_session env session lease s =
     (if rv_closed s then (s, Inl StoreClosed)
      else if lease = [] then (s, Inl StoreInput)
      else
        (case session_key_for session of
           Inl _ \<Rightarrow> (s, Inl StoreInput)
         | Inr key \<Rightarrow> in_tx env (create_session_tx session key lease) s))"

definition claim_session_writer ::
    "tx_env \<Rightarrow> review_session_id \<Rightarrow> bytes \<Rightarrow> review_store
     \<Rightarrow> review_store \<times> (store_error, session_write_guard) result" where
  "claim_session_writer env i lease s =
     (if rv_closed s then (s, Inl StoreClosed)
      else if i = [] \<or> lease = [] then (s, Inl StoreInput)
      else in_tx env
        (\<lambda>tb. bind_result (select_row i (tb_sessions tb))
           (\<lambda>r. if sw_closed_at r \<noteq> None then Inl StoreRevisionConflict
                else Inr
                  (tb\<lparr>tb_sessions := update_row i
                        (\<lambda>r. r\<lparr>sw_writer_epoch := sw_writer_epoch r + 1, sw_writer_lease := lease,
                               sw_revision := sw_revision r + 1\<rparr>) (tb_sessions tb)\<rparr>,
                   \<lparr>sg_session_id = i, sg_lease_id = lease, sg_writer_epoch = sw_writer_epoch r + 1,
                    sg_expected_revision = sw_revision r + 1\<rparr>)))
        s)"

text \<open>
  The order of the query for a compatible session: the newest first, by the text of its time, then
  by its identity.
\<close>

definition session_row_before ::
    "review_session_id \<times> session_row \<Rightarrow> review_session_id \<times> session_row \<Rightarrow> bool" where
  "session_row_before p q \<longleftrightarrow>
     format_time (sw_updated_at (snd q)) < format_time (sw_updated_at (snd p))
     \<or> format_time (sw_updated_at (snd q)) = format_time (sw_updated_at (snd p)) \<and> fst p < fst q"

definition first_session_row :: "(review_session_id \<times> session_row) list \<Rightarrow> session_row option" where
  "first_session_row rows =
     (case rows of
        [] \<Rightarrow> None
      | r # rs \<Rightarrow> Some (snd (foldl (\<lambda>b r. if session_row_before r b then r else b) r rs)))"

definition find_compatible_session ::
    "session_key \<Rightarrow> review_store \<Rightarrow> (store_error, review_session) result" where
  "find_compatible_session key s =
     (if rv_closed s then Inl StoreClosed
      else if \<not> session_key_valid key then Inl StoreInput
      else
        (case first_session_row
            (filter (\<lambda>(i, r). sw_repository_id r = sk_repository_id key
               \<and> sw_target_kind r = sk_target_kind key \<and> sw_key_hash r = session_key_hash key
               \<and> sw_closed_at r = None) (tb_sessions (rv_tables s))) of
           None \<Rightarrow> Inl StoreNotFound
         | Some r \<Rightarrow>
             if \<not> session_valid (sw_session r) then Inl StoreCorrupt
             else if sw_generation r = 0 \<or> sw_generation r \<noteq> rt_generation (se_target (sw_session r))
             then Inl StoreCorrupt
             else Inr (sw_session r)))"

subsection \<open>The fence\<close>

definition verify_guard :: "review_tables \<Rightarrow> session_write_guard \<Rightarrow> (store_error, unit) result" where
  "verify_guard tb g =
     bind_result (select_row (sg_session_id g) (tb_sessions tb))
       (\<lambda>r. if sw_closed_at r \<noteq> None then Inl StoreLeaseLost
            else if sw_writer_lease r \<noteq> sg_lease_id g \<or> sw_writer_epoch r \<noteq> sg_writer_epoch g
            then Inl StoreLeaseLost
            else if sw_revision r \<noteq> sg_expected_revision g then Inl StoreRevisionConflict
            else Inr ())"

definition guard_matches :: "review_tables \<Rightarrow> session_write_guard \<Rightarrow> bool" where
  "guard_matches tb g =
     (case map_of (tb_sessions tb) (sg_session_id g) of
        None \<Rightarrow> False
      | Some r \<Rightarrow> sw_writer_lease r = sg_lease_id g \<and> sw_writer_epoch r = sg_writer_epoch g
          \<and> sw_revision r = sg_expected_revision g)"

definition bump_revision :: "review_session_id \<Rightarrow> review_tables \<Rightarrow> review_tables" where
  "bump_revision i tb =
     tb\<lparr>tb_sessions := update_row i (\<lambda>r. r\<lparr>sw_revision := sw_revision r + 1\<rparr>) (tb_sessions tb)\<rparr>"

definition next_guard :: "session_write_guard \<Rightarrow> session_write_guard" where
  "next_guard g = g\<lparr>sg_expected_revision := sg_expected_revision g + 1\<rparr>"

definition fenced_body ::
    "session_write_guard \<Rightarrow> (review_tables \<Rightarrow> (store_error, review_tables) result) \<Rightarrow> review_tables
     \<Rightarrow> (store_error, review_tables \<times> session_write_guard) result" where
  "fenced_body g body tb =
     bind_result (verify_guard tb g)
       (\<lambda>_. bind_result (body tb)
          (\<lambda>tb. if \<not> guard_matches tb g then Inl StoreLeaseLost
                else Inr (bump_revision (sg_session_id g) tb, next_guard g)))"

definition with_session_tx ::
    "tx_env \<Rightarrow> session_write_guard \<Rightarrow> (review_tables \<Rightarrow> (store_error, review_tables) result) \<Rightarrow> review_store
     \<Rightarrow> review_store \<times> (store_error, session_write_guard) result" where
  "with_session_tx env g body s =
     (if rv_closed s then (s, Inl StoreClosed)
      else if \<not> guard_valid g then (s, Inl StoreInput)
      else in_tx env (fenced_body g body) s)"

end
