(* ===== verification/Apply_Journal.thy ===== *)
theory Apply_Journal
  imports Apply_Evidence Review_Store
begin

text \<open>
  The journal of apply operations (\<^verbatim>\<open>internal/store/sqlite/apply_operation_queries.go\<close>): one row per
  operation beside the tables of the review store, written under the fence of a session. The proposal
  tables, which only answer whether a proposal belongs to the session, are a reading of the transaction.
\<close>

subsection \<open>State and transactions\<close>

datatype apply_error =
    ErrInvalidApplyPreflight | ErrApplyOperationConflict | ErrApplyOperationNotFound | ErrApplyStale
  | ErrApplyUnsupported | ErrApplyPatchCheckFailed | ErrApplyPreflightUnavailable | ErrApplyPreflightRace
  | ErrApplyOperationAlreadyClosed | ErrApplyExecutionInvalid | ErrApplyMutationFailed
  | ErrApplyVerificationFailed | ErrApplyJournalUnavailable
  | ApplyStoreError store_error | ApplyForeignError bytes | ApplyJoined apply_error apply_error

text \<open>A row has the columns that queries compare, and the operation as its JSON column.\<close>

record journal_row =
  jr_session_id :: review_session_id
  jr_key :: bytes
  jr_proposal_id :: proposal_id
  jr_proposal_version :: version_number
  jr_phase :: apply_phase
  jr_operation :: apply_operation

type_synonym journal_table = "(operation_id \<times> journal_row) list"

record journal_store =
  js_review :: review_store
  js_rows :: journal_table

definition row_of_operation :: "apply_operation \<Rightarrow> journal_row" where
  "row_of_operation o' =
     \<lparr>jr_session_id = ao_session_id o', jr_key = ao_idempotency_key o', jr_proposal_id = ao_proposal_id o',
      jr_proposal_version = ao_proposal_version o', jr_phase = ao_phase o', jr_operation = o'\<rparr>"

text \<open>The transaction of a session around a body on the journal: the steps of \<^verbatim>\<open>WithSessionTx\<close>.\<close>

definition journal_tx ::
    "tx_env \<Rightarrow> session_write_guard \<Rightarrow> (journal_table \<Rightarrow> (apply_error, journal_table) result) \<Rightarrow> journal_store
     \<Rightarrow> journal_store \<times> (apply_error, session_write_guard) result" where
  "journal_tx env g body s =
     (if rv_closed (js_review s) then (s, Inl (ApplyStoreError StoreClosed))
      else if \<not> guard_valid g then (s, Inl (ApplyStoreError StoreInput))
      else
        (case te_begin env of
           Some e \<Rightarrow> (s, Inl (ApplyStoreError e))
         | None \<Rightarrow>
             (case verify_guard (rv_tables (js_review s)) g of
                Inl e \<Rightarrow> (s, Inl (ApplyStoreError e))
              | Inr _ \<Rightarrow>
                  (case body (js_rows s) of
                     Inl e \<Rightarrow> (s, Inl e)
                   | Inr rows \<Rightarrow>
                       if \<not> guard_matches (rv_tables (js_review s)) g
                       then (s, Inl (ApplyStoreError StoreLeaseLost))
                       else
                         (case te_commit env of
                            Some e \<Rightarrow> (s, Inl (ApplyStoreError e))
                          | None \<Rightarrow>
                              (\<lparr>js_review = (js_review s)\<lparr>rv_tables :=
                                  bump_revision (sg_session_id g) (rv_tables (js_review s))\<rparr>, js_rows = rows\<rparr>,
                               Inr (next_guard g)))))))"

subsection \<open>Reading\<close>

definition decode_operation :: "evidence_json \<Rightarrow> journal_row \<Rightarrow> (apply_error, apply_operation) result" where
  "decode_operation json r =
     (if apply_operation_valid json (jr_operation r) then Inr (jr_operation r)
      else Inl (ApplyStoreError StoreCorrupt))"

definition find_row :: "(operation_id \<times> journal_row \<Rightarrow> bool) \<Rightarrow> journal_table \<Rightarrow> journal_row option" where
  "find_row p rows = map_option snd (find p rows)"

definition by_id :: "operation_id \<Rightarrow> operation_id \<times> journal_row \<Rightarrow> bool" where
  "by_id i = (\<lambda>(j, r). j = i)"

definition by_key :: "review_session_id \<Rightarrow> bytes \<Rightarrow> operation_id \<times> journal_row \<Rightarrow> bool" where
  "by_key sid k = (\<lambda>(_, r). jr_session_id r = sid \<and> jr_key r = k)"

definition by_proposal :: "proposal_id \<Rightarrow> version_number \<Rightarrow> operation_id \<times> journal_row \<Rightarrow> bool" where
  "by_proposal pid v = (\<lambda>(_, r). jr_proposal_id r = pid \<and> jr_proposal_version r = v)"

definition query_operation ::
    "evidence_json \<Rightarrow> (operation_id \<times> journal_row \<Rightarrow> bool) \<Rightarrow> journal_store \<Rightarrow> (apply_error, apply_operation) result" where
  "query_operation json p s =
     (case find_row p (js_rows s) of
        None \<Rightarrow> Inl ErrApplyOperationNotFound
      | Some r \<Rightarrow> decode_operation json r)"

definition load_operation ::
    "evidence_json \<Rightarrow> operation_id \<Rightarrow> journal_store \<Rightarrow> (apply_error, apply_operation) result" where
  "load_operation json i s =
     (if rv_closed (js_review s) then Inl (ApplyStoreError StoreClosed)
      else if i = [] then Inl ErrInvalidApplyPreflight
      else query_operation json (by_id i) s)"

definition load_operation_by_key ::
    "evidence_json \<Rightarrow> review_session_id \<Rightarrow> bytes \<Rightarrow> journal_store \<Rightarrow> (apply_error, apply_operation) result" where
  "load_operation_by_key json sid k s =
     (if rv_closed (js_review s) then Inl (ApplyStoreError StoreClosed)
      else if sid = [] \<or> k = [] then Inl ErrInvalidApplyPreflight
      else query_operation json (by_key sid k) s)"

definition load_operation_for_proposal ::
    "evidence_json \<Rightarrow> proposal_id \<Rightarrow> version_number \<Rightarrow> journal_store \<Rightarrow> (apply_error, apply_operation) result" where
  "load_operation_for_proposal json pid v s =
     (if rv_closed (js_review s) then Inl (ApplyStoreError StoreClosed)
      else if pid = [] \<or> v = 0 then Inl ErrInvalidApplyPreflight
      else query_operation json (by_proposal pid v) s)"

subsection \<open>Writing\<close>

text \<open>
  Within a transaction a row that is found answers with the comparison to the new operation, and one
  that is not lets the next query run. The database refuses what would break a key.
\<close>

definition compare_found ::
    "evidence_json \<Rightarrow> (operation_id \<times> journal_row \<Rightarrow> bool) \<Rightarrow> apply_operation \<Rightarrow> journal_table
     \<Rightarrow> (apply_error, journal_table) result \<Rightarrow> (apply_error, journal_table) result" where
  "compare_found json p o' rows otherwise =
     (case find_row p rows of
        None \<Rightarrow> otherwise
      | Some r \<Rightarrow>
          bind_result (decode_operation json r)
            (\<lambda>existing. if existing = o' then Inr rows else Inl ErrApplyOperationConflict))"

definition insert_operation :: "apply_operation \<Rightarrow> journal_table \<Rightarrow> (apply_error, journal_table) result" where
  "insert_operation o' rows =
     (if find_row (by_id (ao_id o')) rows \<noteq> None
         \<or> find_row (by_key (ao_session_id o') (ao_idempotency_key o')) rows \<noteq> None
         \<or> find_row (by_proposal (ao_proposal_id o') (ao_proposal_version o')) rows \<noteq> None
      then Inl (ApplyStoreError StoreConstraint)
      else Inr (rows @ [(ao_id o', row_of_operation o')]))"

definition prepare_operation ::
    "evidence_json \<Rightarrow> review_session_id \<Rightarrow> (proposal_id \<Rightarrow> workspace_id \<Rightarrow> review_thread_id \<Rightarrow> apply_error option)
     \<Rightarrow> apply_operation \<Rightarrow> journal_table \<Rightarrow> (apply_error, journal_table) result" where
  "prepare_operation json sid owner o' rows =
     (if \<not> apply_operation_valid json o' \<or> ao_session_id o' \<noteq> sid \<or> ao_phase o' \<noteq> ApplyPrepared
      then Inl ErrInvalidApplyPreflight
      else
        (case owner (ao_proposal_id o') (ao_workspace_id o') (ao_thread_id o') of
           Some e \<Rightarrow> Inl e
         | None \<Rightarrow>
             compare_found json (by_id (ao_id o')) o' rows
               (compare_found json (by_key (ao_session_id o') (ao_idempotency_key o')) o' rows
                 (compare_found json (by_proposal (ao_proposal_id o') (ao_proposal_version o')) o' rows
                   (insert_operation o' rows)))))"

definition lineage :: "apply_operation \<Rightarrow> apply_operation" where
  "lineage o' =
     o'\<lparr>ao_phase := ApplyPrepared, ao_failure := FailureNone, ao_verification := no_verification,
       ao_completed_at := None\<rparr>"

definition same_lineage :: "apply_operation \<Rightarrow> apply_operation \<Rightarrow> bool" where
  "same_lineage a b \<longleftrightarrow> lineage a = lineage b"

definition valid_apply_transition :: "apply_phase \<Rightarrow> apply_phase \<Rightarrow> bool" where
  "valid_apply_transition from' to' =
     (case from' of
        ApplyPrepared \<Rightarrow> to' = ApplyMutating
      | ApplyMutating \<Rightarrow>
          to' = ApplyVerifying \<or> to' = ApplyRetrySafe \<or> to' = ApplyApplied \<or> to' = ApplyFailedClean
          \<or> to' = ApplyRepairRequired
      | ApplyVerifying \<Rightarrow>
          to' = ApplyRetrySafe \<or> to' = ApplyApplied \<or> to' = ApplyFailedClean \<or> to' = ApplyRepairRequired
      | ApplyRetrySafe \<Rightarrow> to' = ApplyMutating
      | _ \<Rightarrow> False)"

definition update_operation :: "apply_operation \<Rightarrow> journal_table \<Rightarrow> journal_table" where
  "update_operation o' rows =
     map (\<lambda>(i, r). if i = ao_id o' then (i, r\<lparr>jr_phase := ao_phase o', jr_operation := o'\<rparr>) else (i, r)) rows"

definition transition_operation ::
    "evidence_json \<Rightarrow> review_session_id \<Rightarrow> apply_operation \<Rightarrow> journal_table \<Rightarrow> (apply_error, journal_table) result" where
  "transition_operation json sid o' rows =
     (if \<not> apply_operation_valid json o' \<or> ao_session_id o' \<noteq> sid then Inl ErrInvalidApplyPreflight
      else
        (case find_row (by_id (ao_id o')) rows of
           None \<Rightarrow> Inl ErrApplyOperationNotFound
         | Some r \<Rightarrow>
             bind_result (decode_operation json r) (\<lambda>existing.
               if existing = o' then Inr rows
               else if \<not> same_lineage existing o' \<or> \<not> valid_apply_transition (ao_phase existing) (ao_phase o')
               then Inl ErrApplyOperationConflict
               else if jr_phase r \<noteq> ao_phase existing then Inl ErrApplyOperationConflict
               else Inr (update_operation o' rows))))"

end
