(* ===== verification/Apply_Execution.thy ===== *)
theory Apply_Execution
  imports Apply_Journal "HOL-Library.AList"
begin

text \<open>
  The execution of a prepared apply operation (\<^verbatim>\<open>internal/app/apply_execution.go\<close>): one call mutates the
  destination at most once, between two journal phases, and lets an independent observation decide the
  outcome; a call that finds an interrupted operation only observes. What the destination, the patch
  store, the proposal tables and the clock answer is the environment of the call. Every invocation of
  the mutator is logged with the journal and the operation at that moment.
\<close>

subsection \<open>The patch as a stream\<close>

text \<open>What is compared of a stored patch artifact, and whether it passes its validation.\<close>

record artifact_facts =
  ak_valid :: bool
  ak_id :: bytes
  ak_proposal_id :: proposal_id
  ak_workspace_id :: workspace_id
  ak_attempt_id :: operation_id
  ak_patch_sha256 :: bytes
  ak_bytes :: nat
  ak_spool_id :: bytes
  ak_index_hash :: bytes
  ak_file_count :: nat
  ak_hunk_count :: nat
  ak_row_count :: nat
  ak_binary_files :: nat
  ak_manifest_hash :: bytes
  ak_format_version :: nat
  ak_rename_version :: nat
  ak_conversion_version :: nat
  ak_conversion_fingerprint :: bytes

datatype apply_stream = InlineStream bytes | ArtifactStream artifact_facts

definition patch_size :: "proposed_patch \<Rightarrow> nat" where
  "patch_size p =
     (if pv_artifact p \<noteq> no_artifact then pa_patch_bytes (pv_artifact p) else length (pv_patch_bytes p))"

definition artifact_matches :: "proposed_patch \<Rightarrow> artifact_facts \<Rightarrow> bool" where
  "artifact_matches p a \<longleftrightarrow>
     \<not> (\<not> ak_valid a \<or> ak_id a \<noteq> pa_artifact_id (pv_artifact p) \<or> ak_proposal_id a \<noteq> pv_proposal_id p
        \<or> ak_workspace_id a \<noteq> pv_workspace_id p \<or> ak_attempt_id a \<noteq> pv_attempt_id p
        \<or> ak_patch_sha256 a \<noteq> pv_patch_sha256 p \<or> ak_bytes a \<noteq> pa_patch_bytes (pv_artifact p)
        \<or> ak_spool_id a \<noteq> pa_spool_id (pv_artifact p) \<or> ak_index_hash a \<noteq> pa_index_hash (pv_artifact p)
        \<or> ak_file_count a \<noteq> pa_file_count (pv_artifact p) \<or> ak_hunk_count a \<noteq> pa_hunk_count (pv_artifact p)
        \<or> ak_row_count a \<noteq> pa_row_count (pv_artifact p) \<or> ak_binary_files a \<noteq> pa_binary_files (pv_artifact p))
     \<and> \<not> (ak_manifest_hash a \<noteq> pa_manifest_hash (pv_artifact p)
          \<or> ak_format_version a \<noteq> pa_patch_format_version (pv_artifact p)
          \<or> ak_rename_version a \<noteq> pa_rename_policy_version (pv_artifact p)
          \<or> ak_conversion_version a \<noteq> pa_conversion_policy_version (pv_artifact p))"

definition patch_stream ::
    "(operation_id \<Rightarrow> (apply_error, artifact_facts) result) option \<Rightarrow> proposed_patch
     \<Rightarrow> (apply_error, apply_stream \<times> nat \<times> bytes) result" where
  "patch_stream artifacts p =
     (if pv_artifact p = no_artifact
      then (if length (pv_patch_bytes p) \<noteq> patch_size p \<or> sha256_hex (pv_patch_bytes p) \<noteq> pv_patch_sha256 p
            then Inl ErrApplyStale
            else Inr (InlineStream (pv_patch_bytes p), 1, []))
      else
        (case artifacts of
           None \<Rightarrow> Inl ErrApplyPreflightUnavailable
         | Some find' \<Rightarrow>
             bind_result (find' (pv_attempt_id p)) (\<lambda>a.
               if \<not> artifact_matches p a then Inl ErrApplyStale
               else Inr (ArtifactStream a, ak_conversion_version a, ak_conversion_fingerprint a))))"

subsection \<open>Comparing what is observed\<close>

text \<open>Go's maps from paths are association lists with distinct keys.\<close>

definition key_map :: "('a \<Rightarrow> repo_path) \<Rightarrow> 'a list \<Rightarrow> (repo_path_key \<times> 'a) list" where
  "key_map path xs = foldl (\<lambda>m x. AList.update (path_key (path x)) x m) [] xs"

record expected_path =
  ex_exists :: bool
  ex_kind :: file_kind
  ex_mode :: nat
  ex_content_bytes :: nat
  ex_content_hash :: bytes
  ex_content_class :: content_class
  ex_text :: "text_semantics option"
  ex_symlink :: "symlink_evidence option"

definition expected_absent :: expected_path where
  "expected_absent =
     \<lparr>ex_exists = False, ex_kind = FileKindOther [], ex_mode = 0, ex_content_bytes = 0, ex_content_hash = [],
      ex_content_class = NoContentClass, ex_text = None, ex_symlink = None\<rparr>"

text \<open>What one file of the proposal expects of its path, and then of its old path.\<close>

definition file_expectations :: "proposed_file \<Rightarrow> (repo_path_key \<times> expected_path) list" where
  "file_expectations f =
     (path_key (pf_path f),
      \<lparr>ex_exists = \<not> pf_deleted f, ex_kind = pf_kind f, ex_mode = pf_mode f,
       ex_content_bytes = pf_content_bytes f, ex_content_hash = pf_content_hash f,
       ex_content_class = pf_content_class f, ex_text = pf_text f, ex_symlink = pf_symlink f\<rparr>)
     # (case pf_old_path f of
          None \<Rightarrow> []
        | Some old \<Rightarrow>
            if old = pf_path f then []
            else if pf_copied f
            then [(path_key old,
                   \<lparr>ex_exists = True, ex_kind = pf_old_kind f, ex_mode = pf_old_mode f,
                    ex_content_bytes = pf_old_content_bytes f, ex_content_hash = pf_old_content_hash f,
                    ex_content_class = pf_old_content_class f, ex_text = pf_old_text f, ex_symlink = None\<rparr>)]
            else [(path_key old, expected_absent)])"

definition expected_paths :: "proposed_file list \<Rightarrow> (repo_path_key \<times> expected_path) list" where
  "expected_paths fs = foldl (\<lambda>m (k, e). AList.update k e m) [] (concat (map file_expectations fs))"

definition same_symlink_evidence :: "symlink_evidence option \<Rightarrow> symlink_evidence option \<Rightarrow> bool" where
  "same_symlink_evidence a b = (a = b)"

definition observed_as_expected :: "path_evidence option \<Rightarrow> expected_path \<Rightarrow> bool" where
  "observed_as_expected observed want =
     (case observed of
        None \<Rightarrow> False
      | Some p \<Rightarrow>
          if ae_exists p \<noteq> ex_exists want then False
          else if \<not> ex_exists want then True
          else
            (let observed_hash = (if ex_kind want = FileKindSymlink then ae_symlink_target_hash p else ae_content_hash p)
             in \<not> (ae_kind p \<noteq> ex_kind want \<or> ae_mode p \<noteq> ex_mode want
                   \<or> ex_content_class want \<noteq> NoContentClass
                     \<and> (ae_content_bytes p \<noteq> ex_content_bytes want \<or> ae_content_class p \<noteq> ex_content_class want
                        \<or> ex_text want \<noteq> None \<and> ae_text_semantics p \<noteq> ex_text want)
                   \<or> ex_content_hash want \<noteq> [] \<and> observed_hash \<noteq> ex_content_hash want
                   \<or> ex_symlink want \<noteq> None
                     \<and> \<not> same_symlink_evidence (ae_symlink_evidence p) (ex_symlink want))))"

definition result_paths_match :: "(repo_path_key \<times> path_evidence) list \<Rightarrow> proposed_file list \<Rightarrow> bool" where
  "result_paths_match actual fs \<longleftrightarrow>
     length actual = length (expected_paths fs)
     \<and> list_all (\<lambda>(k, want). observed_as_expected (map_of actual k) want) (expected_paths fs)"

definition same_preconditions :: "path_precondition list \<Rightarrow> path_precondition list \<Rightarrow> bool" where
  "same_preconditions l r \<longleftrightarrow> length l = length r \<and> sort_key pp_path l = sort_key pp_path r"

definition baseline_paths_match :: "(repo_path_key \<times> path_evidence) list \<Rightarrow> path_precondition list \<Rightarrow> bool" where
  "baseline_paths_match actual expected \<longleftrightarrow>
     length actual = length expected \<and> same_preconditions (map (evidence_precondition \<circ> snd) actual) expected"

definition classify_verification ::
    "evidence_json \<Rightarrow> apply_operation \<Rightarrow> proposed_patch \<Rightarrow> verification_evidence \<Rightarrow> apply_class \<times> apply_failure" where
  "classify_verification json o' p e =
     (if \<not> verification_evidence_valid (ej_verification json) e \<or> ve_operation_id e \<noteq> ao_id o'
         \<or> ve_repository_id e \<noteq> de_repository_id (ao_evidence o')
         \<or> ve_worktree_id e \<noteq> de_worktree_id (ao_evidence o')
         \<or> ve_target_kind e \<noteq> dc_target_kind (ao_destination o')
         \<or> ve_conversion_version e \<noteq> de_conversion_version (ao_evidence o')
         \<or> ve_conversion_fingerprint e \<noteq> de_conversion_fingerprint (ao_evidence o')
         \<or> ve_attributes_changed e \<or> ve_capability e \<noteq> de_capability (ao_evidence o')
         \<or> ve_index e \<noteq> de_index (ao_evidence o') \<or> ve_head e \<noteq> de_head (ao_evidence o')
         \<or> ve_branch_name e \<noteq> de_branch_name (ao_evidence o') \<or> ve_detached e \<noteq> de_detached (ao_evidence o')
         \<or> ve_unexpected_paths e \<noteq> []
      then (ClassRepairRequired, FailureGlobalChanged)
      else
        (let actual = key_map ae_path (ve_paths e);
             result_matches = result_paths_match actual (pv_files p);
             baseline_matches = baseline_paths_match actual (ao_preconditions o')
         in if ve_state e = ObservedResult \<and> result_matches then (ClassApplied, FailureNone)
            else if ve_state e = ObservedBaseline \<and> baseline_matches
                    \<and> ve_tree_fingerprint e = de_tree_fingerprint (ao_evidence o')
            then (ClassRetrySafe, FailureRetrySafe)
            else (ClassRepairRequired, FailureMixedState)))"

subsection \<open>Requests, readings and results\<close>

record mutation_request =
  mr_repository :: repository
  mr_worktree :: worktree_ref
  mr_patch_sha256 :: bytes
  mr_patch_bytes :: nat
  mr_policy_version :: nat
  mr_stream :: apply_stream

record verification_request =
  vr_operation :: apply_operation
  vr_proposal :: proposed_patch
  vr_repository :: repository
  vr_worktree :: worktree_ref

definition verification_request_valid :: "evidence_json \<Rightarrow> verification_request \<Rightarrow> bool" where
  "verification_request_valid json r \<longleftrightarrow>
     \<not> (\<not> apply_operation_valid json (vr_operation r) \<or> \<not> proposed_patch_valid (vr_proposal r)
        \<or> \<not> repository_valid (vr_repository r) \<or> \<not> worktree_ref_valid (vr_worktree r)
        \<or> wt_repository_id (vr_worktree r) \<noteq> rp_id (vr_repository r)
        \<or> ao_proposal_id (vr_operation r) \<noteq> pv_proposal_id (vr_proposal r)
        \<or> ao_proposal_version (vr_operation r) \<noteq> pv_version (vr_proposal r)
        \<or> ao_patch_sha256 (vr_operation r) \<noteq> pv_patch_sha256 (vr_proposal r)
        \<or> de_repository_id (ao_evidence (vr_operation r)) \<noteq> rp_id (vr_repository r)
        \<or> de_worktree_id (ao_evidence (vr_operation r)) \<noteq> wt_id (vr_worktree r))"

record execution_request =
  xr_guard :: session_write_guard
  xr_operation_id :: operation_id
  xr_proposal_id :: proposal_id
  xr_proposal_version :: version_number
  xr_patch_sha256 :: bytes
  xr_repository :: repository
  xr_worktree :: worktree_ref
  xr_lease :: bool
  xr_authorize_retry :: bool

definition execution_request_valid :: "execution_request \<Rightarrow> bool" where
  "execution_request_valid r \<longleftrightarrow>
     \<not> (\<not> guard_valid (xr_guard r) \<or> xr_operation_id r = [] \<or> xr_proposal_id r = [] \<or> xr_proposal_version r = 0
        \<or> \<not> valid_app_sha256 (xr_patch_sha256 r) \<or> \<not> repository_valid (xr_repository r)
        \<or> \<not> worktree_ref_valid (xr_worktree r) \<or> wt_repository_id (xr_worktree r) \<noteq> rp_id (xr_repository r))"

record execution_result =
  xs_operation :: apply_operation
  xs_class :: apply_class
  xs_guard :: session_write_guard

definition execution_result_valid :: "evidence_json \<Rightarrow> execution_result \<Rightarrow> bool" where
  "execution_result_valid json x \<longleftrightarrow>
     \<not> (\<not> apply_operation_valid json (xs_operation x) \<or> \<not> apply_class_valid (xs_class x)
        \<or> \<not> guard_valid (xs_guard x))"

text \<open>The three transactions of a call are the start, the end of the mutation and the outcome.\<close>

record execute_env =
  xe_lock :: "apply_error option"
  xe_proposal :: "(apply_error, proposal_aggregate) result"
  xe_artifacts :: "(operation_id \<Rightarrow> (apply_error, artifact_facts) result) option"
  xe_start :: tx_env
  xe_mutated :: tx_env
  xe_outcome :: tx_env
  xe_mutate :: "mutation_request \<Rightarrow> apply_error option"
  xe_verify :: "verification_request \<Rightarrow> verification_evidence \<times> apply_error option"
  xe_clock :: instant

type_synonym mutation_log = "(journal_store \<times> apply_operation \<times> mutation_request) list"
type_synonym apply_state = "journal_store \<times> mutation_log"

definition proposal_version_of :: "proposal_aggregate \<Rightarrow> version_number \<Rightarrow> proposed_patch option" where
  "proposal_version_of a v = find (\<lambda>p. pv_version p = v) (ag_versions a)"

definition version_can_apply :: "proposal_status \<Rightarrow> bool" where
  "version_can_apply s \<longleftrightarrow> s = ProposalVersionReady \<or> s = ProposalVersionApplying"

definition execution_identity_ok :: "evidence_json \<Rightarrow> apply_operation \<Rightarrow> execution_request \<Rightarrow> bool" where
  "execution_identity_ok json o' r \<longleftrightarrow>
     \<not> (\<not> apply_operation_valid json o' \<or> ao_id o' \<noteq> xr_operation_id r
        \<or> ao_session_id o' \<noteq> sg_session_id (xr_guard r) \<or> ao_proposal_id o' \<noteq> xr_proposal_id r
        \<or> ao_proposal_version o' \<noteq> xr_proposal_version r \<or> ao_patch_sha256 o' \<noteq> xr_patch_sha256 r
        \<or> de_repository_id (ao_evidence o') \<noteq> rp_id (xr_repository r)
        \<or> de_worktree_id (ao_evidence o') \<noteq> wt_id (xr_worktree r))"

definition load_apply_proposal ::
    "execute_env \<Rightarrow> apply_operation \<Rightarrow> (apply_error, proposed_patch) result" where
  "load_apply_proposal env o' =
     bind_result (xe_proposal env) (\<lambda>a.
       if \<not> aggregate_valid a \<or> pw_session_id (ag_workspace a) \<noteq> ao_session_id o'
          \<or> pw_repository_id (ag_workspace a) \<noteq> de_repository_id (ao_evidence o')
          \<or> pw_worktree_id (ag_workspace a) \<noteq> de_worktree_id (ao_evidence o')
       then Inl ErrApplyStale
       else
         (case proposal_version_of a (ao_proposal_version o') of
            None \<Rightarrow> Inl ErrApplyStale
          | Some p \<Rightarrow>
              if \<not> version_can_apply (pv_status p) \<or> pv_patch_sha256 p \<noteq> ao_patch_sha256 o'
                 \<or> pv_workspace_id p \<noteq> ao_workspace_id o' \<or> pv_thread_id p \<noteq> ao_thread_id o'
                 \<or> pv_artifact p \<noteq> ao_artifact o'
              then Inl ErrApplyStale
              else if \<not> proposed_patch_valid p then Inl ErrApplyStale else Inr p))"

subsection \<open>The steps of a call\<close>

definition journal_transition ::
    "evidence_json \<Rightarrow> tx_env \<Rightarrow> session_write_guard \<Rightarrow> apply_operation \<Rightarrow> journal_store
     \<Rightarrow> journal_store \<times> (apply_error, session_write_guard) result" where
  "journal_transition json tx g o' s =
     (case journal_tx tx g (transition_operation json (sg_session_id g) o') s of
        (s, Inl e) \<Rightarrow> (s, Inl (ApplyJoined ErrApplyJournalUnavailable e))
      | (s, Inr g) \<Rightarrow> (s, Inr g))"

definition verify_and_classify ::
    "evidence_json \<Rightarrow> execute_env \<Rightarrow> execution_request \<Rightarrow> apply_operation \<Rightarrow> proposed_patch
     \<Rightarrow> (apply_error, verification_evidence \<times> apply_class \<times> apply_failure) result" where
  "verify_and_classify json env r o' p =
     (case xe_verify env \<lparr>vr_operation = o', vr_proposal = p, vr_repository = xr_repository r,
                         vr_worktree = xr_worktree r\<rparr> of
        (e, err) \<Rightarrow>
          if \<not> verification_evidence_valid (ej_verification json) e
          then (case err of
                  Some x \<Rightarrow> Inl (ApplyJoined ErrApplyVerificationFailed x)
                | None \<Rightarrow> Inl ErrApplyVerificationFailed)
          else if err \<noteq> None then Inr (e, ClassRepairRequired, FailureVerificationUnavailable)
          else
            (case classify_verification json o' p e of
               (c, f) \<Rightarrow>
                 Inr (e, c, if c = ClassRepairRequired \<and> f = FailureNone then FailureMixedState else f)))"

definition persist_classification ::
    "evidence_json \<Rightarrow> execute_env \<Rightarrow> session_write_guard \<Rightarrow> apply_operation \<Rightarrow> verification_evidence \<Rightarrow> apply_class
     \<Rightarrow> apply_failure \<Rightarrow> journal_store \<Rightarrow> journal_store \<times> (apply_error, execution_result) result" where
  "persist_classification json env g o' e c f s =
     (if \<not> verification_evidence_valid (ej_verification json) e \<or> \<not> apply_class_valid c
      then (s, Inl ErrApplyVerificationFailed)
      else if is_zero_time (xe_clock env) then (s, Inl ErrApplyExecutionInvalid)
      else
        (case (case c of
                 ClassApplied \<Rightarrow> Some ApplyApplied
               | ClassFailedClean \<Rightarrow> Some ApplyFailedClean
               | ClassRepairRequired \<Rightarrow> Some ApplyRepairRequired
               | _ \<Rightarrow> None) of
           None \<Rightarrow> (s, Inl ErrApplyExecutionInvalid)
         | Some phase \<Rightarrow>
             let o' = o'\<lparr>ao_verification := e, ao_failure := f, ao_completed_at := Some (xe_clock env),
                         ao_phase := phase\<rparr>
             in (case journal_transition json (xe_outcome env) g o' s of
                   (s, Inl err) \<Rightarrow> (s, Inl err)
                 | (s, Inr g) \<Rightarrow> (s, Inr \<lparr>xs_operation = o', xs_class = c, xs_guard = g\<rparr>))))"

definition recover_nonterminal ::
    "evidence_json \<Rightarrow> execute_env \<Rightarrow> execution_request \<Rightarrow> apply_operation \<Rightarrow> proposed_patch \<Rightarrow> journal_store
     \<Rightarrow> journal_store \<times> (apply_error, execution_result) result" where
  "recover_nonterminal json env r o' p s =
     (case verify_and_classify json env r o' p of
        Inl err \<Rightarrow> (s, Inl err)
      | Inr (e, c, f) \<Rightarrow>
          if c = ClassRetrySafe
          then
            (let o' = o'\<lparr>ao_phase := ApplyRetrySafe, ao_failure := FailureRetrySafe, ao_verification := e\<rparr>
             in (case journal_transition json (xe_outcome env) (xr_guard r) o' s of
                   (s, Inl err) \<Rightarrow> (s, Inl err)
                 | (s, Inr g) \<Rightarrow> (s, Inr \<lparr>xs_operation = o', xs_class = c, xs_guard = g\<rparr>)))
          else persist_classification json env (xr_guard r) o' e c f s)"

text \<open>After a failed mutation; the caller always passes \<^verbatim>\<open>cleanFailure\<close> as true.\<close>

definition classify_after_mutation ::
    "evidence_json \<Rightarrow> execute_env \<Rightarrow> execution_request \<Rightarrow> apply_operation \<Rightarrow> proposed_patch \<Rightarrow> apply_error \<Rightarrow> bool
     \<Rightarrow> journal_store \<Rightarrow> journal_store \<times> (apply_error, execution_result) result" where
  "classify_after_mutation json env r o' p mutation_error clean_failure s =
     (case verify_and_classify json env r o' p of
        Inl err \<Rightarrow> (s, Inl (ApplyJoined ErrApplyMutationFailed (ApplyJoined mutation_error err)))
      | Inr (e, c, f) \<Rightarrow>
          if c = ClassApplied
          then persist_classification json env (xr_guard r) o' e ClassApplied FailureNone s
          else if clean_failure \<and> (c = ClassFailedClean \<or> c = ClassRetrySafe)
          then persist_classification json env (xr_guard r) o' e ClassFailedClean FailureMutationClean s
          else persist_classification json env (xr_guard r) o' e ClassRepairRequired
                 (if f = FailureNone then FailureMixedState else f) s)"

definition verify_and_terminalize ::
    "evidence_json \<Rightarrow> execute_env \<Rightarrow> execution_request \<Rightarrow> apply_operation \<Rightarrow> proposed_patch \<Rightarrow> bool
     \<Rightarrow> journal_store \<Rightarrow> journal_store \<times> (apply_error, execution_result) result" where
  "verify_and_terminalize json env r o' p recovery s =
     (case verify_and_classify json env r o' p of
        Inl err \<Rightarrow> (s, Inl err)
      | Inr (e, c, f) \<Rightarrow>
          if c = ClassRetrySafe \<and> \<not> recovery
          then persist_classification json env (xr_guard r) o' e ClassFailedClean FailureMutationClean s
          else persist_classification json env (xr_guard r) o' e c f s)"

definition class_of_phase :: "apply_phase \<Rightarrow> apply_class" where
  "class_of_phase p =
     (case p of
        ApplyApplied \<Rightarrow> ClassApplied
      | ApplyFailedClean \<Rightarrow> ClassFailedClean
      | ApplyRetrySafe \<Rightarrow> ClassRetrySafe
      | _ \<Rightarrow> ClassRepairRequired)"

definition start_mutation :: "apply_operation \<Rightarrow> apply_operation" where
  "start_mutation o' =
     o'\<lparr>ao_phase := ApplyMutating, ao_failure := FailureNone, ao_verification := no_verification,
       ao_completed_at := None\<rparr>"

text \<open>From the journal phase \<^verbatim>\<open>mutating\<close> on: the mutation, and what follows it.\<close>

definition mutate_and_settle ::
    "evidence_json \<Rightarrow> execute_env \<Rightarrow> execution_request \<Rightarrow> apply_operation \<Rightarrow> proposed_patch \<Rightarrow> mutation_request
     \<Rightarrow> journal_store \<Rightarrow> journal_store \<times> (apply_error, execution_result) result" where
  "mutate_and_settle json env r o' p m s =
     (case xe_mutate env m of
        Some err \<Rightarrow> classify_after_mutation json env r o' p err True s
      | None \<Rightarrow>
          let o' = o'\<lparr>ao_phase := ApplyVerifying\<rparr> in
          (case journal_transition json (xe_mutated env) (xr_guard r) o' s of
             (s, Inl err) \<Rightarrow> (s, Inl err)
           | (s, Inr g) \<Rightarrow> verify_and_terminalize json env (r\<lparr>xr_guard := g\<rparr>) o' p False s))"

definition execute_apply ::
    "evidence_json \<Rightarrow> execute_env \<Rightarrow> execution_request \<Rightarrow> apply_state
     \<Rightarrow> apply_state \<times> (apply_error, execution_result) result" where
  "execute_apply json env r = (\<lambda>(s, log).
     if \<not> execution_request_valid r then ((s, log), Inl ErrApplyExecutionInvalid)
     else if \<not> xr_lease r \<and> xe_lock env \<noteq> None then ((s, log), Inl (the (xe_lock env)))
     else
       (case load_operation json (xr_operation_id r) s of
          Inl err \<Rightarrow> ((s, log), Inl err)
        | Inr o' \<Rightarrow>
            if \<not> execution_identity_ok json o' r then ((s, log), Inl ErrApplyStale)
            else if terminal_phase (ao_phase o')
            then ((s, log), Inr \<lparr>xs_operation = o', xs_class = class_of_phase (ao_phase o'), xs_guard = xr_guard r\<rparr>)
            else
              (case load_apply_proposal env o' of
                 Inl err \<Rightarrow> ((s, log), Inl err)
               | Inr p \<Rightarrow>
                   if ao_phase o' = ApplyMutating \<or> ao_phase o' = ApplyVerifying
                   then (case recover_nonterminal json env r o' p s of (s, res) \<Rightarrow> ((s, log), res))
                   else if ao_phase o' = ApplyRetrySafe \<and> \<not> xr_authorize_retry r
                   then ((s, log), Inr \<lparr>xs_operation = o', xs_class = ClassRetrySafe, xs_guard = xr_guard r\<rparr>)
                   else
                     (case patch_stream (xe_artifacts env) p of
                        Inl err \<Rightarrow> ((s, log), Inl err)
                      | Inr (stream, version, _) \<Rightarrow>
                          let o' = start_mutation o' in
                          (case journal_transition json (xe_start env) (xr_guard r) o' s of
                             (s, Inl err) \<Rightarrow> ((s, log), Inl err)
                           | (s, Inr g) \<Rightarrow>
                               let m = \<lparr>mr_repository = xr_repository r, mr_worktree = xr_worktree r,
                                        mr_patch_sha256 = ao_patch_sha256 o', mr_patch_bytes = ao_patch_bytes o',
                                        mr_policy_version = version, mr_stream = stream\<rparr>
                               in (case mutate_and_settle json env (r\<lparr>xr_guard := g\<rparr>) o' p m s of
                                     (s', res) \<Rightarrow> ((s', log @ [(s, o', m)]), res)))))))"

end
