(* ===== verification/Session_Writes.thy ===== *)
theory Session_Writes
  imports Review_Store
begin

text \<open>
  What a session transaction may write: the session itself, its threads with their anchor history,
  and its messages; and how a thread is read back. \<open>sid\<close> is the session of the transaction.
\<close>

subsection \<open>Sessions\<close>

definition generation_step_ok :: "session_row \<Rightarrow> review_session \<Rightarrow> (store_error, unit) result" where
  "generation_step_ok row session =
     (let current = sw_session row; t = se_target session in
      if sw_generation row = rt_generation t
      then (if rt_fingerprint (se_target current) \<noteq> rt_fingerprint t then Inl StoreTargetConflict
            else Inr ())
      else if sw_generation row + 1 \<noteq> rt_generation t
              \<or> rt_fingerprint (se_target current) = rt_fingerprint t
      then Inl StoreRevisionConflict else Inr ())"

definition save_session ::
    "review_session_id \<Rightarrow> review_session \<Rightarrow> review_tables \<Rightarrow> (store_error, review_tables) result" where
  "save_session sid session tb =
     (if \<not> session_valid session \<or> se_id session \<noteq> sid then Inl StoreInput
      else
        (case session_key_for session of
           Inl _ \<Rightarrow> Inl StoreInput
         | Inr key \<Rightarrow>
             bind_result (select_row sid (tb_sessions tb))
               (\<lambda>row.
                  if sw_closed_at row \<noteq> None \<or> sw_repository_id row \<noteq> se_repository_id session
                     \<or> sw_key_hash row \<noteq> session_key_hash key
                  then Inl StoreTargetConflict
                  else if sk_worktree_id key \<noteq> [] \<and> sw_worktree_id row \<noteq> Some (sk_worktree_id key)
                  then Inl StoreTargetConflict
                  else if \<not> session_valid (sw_session row) \<or> sw_generation row = 0 then Inl StoreCorrupt
                  else
                    bind_result (generation_step_ok row session)
                      (\<lambda>_.
                         bind_result
                           (if sw_generation row < rt_generation (se_target session)
                            then insert_row (sid, rt_generation (se_target session))
                              \<lparr>gw_capture_id = None, gw_fingerprint = rt_fingerprint (se_target session),
                               gw_manifest_hash = [], gw_accepted_at = se_updated_at session\<rparr>
                              (tb_generations tb)
                            else Inr (tb_generations tb))
                           (\<lambda>generations.
                              Inr (tb\<lparr>tb_generations := generations,
                                      tb_sessions := update_row sid
                                        (\<lambda>r. r\<lparr>sw_session := session,
                                               sw_generation := rt_generation (se_target session),
                                               sw_closed_at := se_closed_at session,
                                               sw_updated_at := se_updated_at session\<rparr>)
                                        (tb_sessions tb)\<rparr>))))))"

subsection \<open>Anchor versions\<close>

definition MaxAnchorReattachmentActorBytes :: nat where
  "MaxAnchorReattachmentActorBytes = 128"

definition valid_reattachment_actor :: "bytes \<Rightarrow> bool" where
  "valid_reattachment_actor a \<longleftrightarrow>
     a \<noteq> [] \<and> length a \<le> MaxAnchorReattachmentActorBytes \<and> NUL \<notin> set a"

definition anchor_version_valid :: "anchor_version \<Rightarrow> bool" where
  "anchor_version_valid r \<longleftrightarrow>
     av_thread_id r \<noteq> [] \<and> av_version r \<noteq> 0 \<and> code_anchor_valid (av_anchor r)
     \<and> anchor_version_method_valid (av_method r) \<and> \<not> is_zero_time (av_created_at r)
     \<and> \<not> (av_version r \<le> av_previous_version r \<and> av_previous_version r \<noteq> 0)
     \<and> \<not> (av_method r = AnchorVersionMethodManual
          \<and> (av_previous_version r = 0 \<or> av_candidate r = None \<or> av_actor r = []))
     \<and> opt_all (\<lambda>c. anchor_candidate_valid c \<and> ac_generation c = an_target_generation (av_anchor r)
          \<and> anchor_candidate_fingerprint c \<noteq> []) (av_candidate r)
     \<and> (av_actor r \<noteq> [] \<longrightarrow> valid_reattachment_actor (av_actor r))"

definition legacy_version :: "review_thread_id \<Rightarrow> nat \<Rightarrow> code_anchor \<Rightarrow> instant \<Rightarrow> anchor_version" where
  "legacy_version tid version anchor created =
     \<lparr>av_thread_id = tid, av_version = version, av_anchor = anchor, av_method = AnchorVersionMethodLegacy,
      av_previous_version = 0, av_candidate = None, av_actor = [], av_created_at = created\<rparr>"

text \<open>A full record that does not validate is then read as a bare anchor, which it is not.\<close>

fun decode_stored_anchor ::
    "review_thread_id \<Rightarrow> nat \<Rightarrow> stored_anchor \<Rightarrow> instant \<Rightarrow> (store_error, anchor_version) result" where
  "decode_stored_anchor tid version (StoredVersion r) created =
     (let r' = r\<lparr>av_thread_id := tid, av_version := version, av_created_at := created\<rparr> in
      if av_method r \<noteq> AnchorVersionMethodOther [] \<and> code_anchor_valid (av_anchor r) \<and> anchor_version_valid r'
      then Inr r' else Inl StoreCorrupt)"
| "decode_stored_anchor tid version (StoredAnchor a) created =
     (if \<not> code_anchor_valid a \<or> \<not> anchor_version_valid (legacy_version tid version a created)
      then Inl StoreCorrupt else Inr (legacy_version tid version a created))"

subsection \<open>Threads\<close>

definition thread_row_of :: "review_thread \<Rightarrow> nat \<Rightarrow> thread_row" where
  "thread_row_of t version =
     \<lparr>hr_session_id = th_session_id t, hr_title = th_title t, hr_resolution = th_resolution t,
      hr_conversation = th_conversation t, hr_proposal = th_proposal t, hr_read = th_read t,
      hr_provider_conversation_id = th_provider_conversation_id t,
      hr_latest_proposal_id = th_latest_proposal_id t, hr_failure_phase = th_failure_phase t,
      hr_error_code = th_error_code t, hr_anchor_version = version,
      hr_created_at = th_created_at t, hr_updated_at = th_updated_at t\<rparr>"

definition anchor_row_of :: "code_anchor \<Rightarrow> anchor_row" where
  "anchor_row_of a = \<lparr>aw_stored = StoredAnchor a, aw_created_at = an_created_at a\<rparr>"

definition save_thread ::
    "review_session_id \<Rightarrow> review_thread \<Rightarrow> review_tables \<Rightarrow> (store_error, review_tables) result" where
  "save_thread sid t tb =
     (if \<not> thread_valid t \<or> th_session_id t \<noteq> sid then Inl StoreInput
      else
        (case map_of (tb_threads tb) (th_id t) of
           None \<Rightarrow>
             bind_result (insert_row (th_id t) (thread_row_of t 1) (tb_threads tb))
               (\<lambda>threads.
                  bind_result (insert_row (th_id t, 1) (anchor_row_of (th_anchor t)) (tb_anchors tb))
                    (\<lambda>anchors. Inr (tb\<lparr>tb_threads := threads, tb_anchors := anchors\<rparr>)))
         | Some row \<Rightarrow>
             if hr_session_id row \<noteq> sid \<or> hr_created_at row \<noteq> th_created_at t then Inl StoreInput
             else
               (case map_of (tb_anchors tb) (th_id t, hr_anchor_version row) of
                  None \<Rightarrow> Inl StoreCorrupt
                | Some stored \<Rightarrow>
                    bind_result
                      (decode_stored_anchor (th_id t) (hr_anchor_version row) (aw_stored stored) (hr_created_at row))
                      (\<lambda>existing.
                         let same = (av_anchor existing = th_anchor t);
                             version = (if same then hr_anchor_version row else hr_anchor_version row + 1)
                         in bind_result
                              (if same then Inr (tb_anchors tb)
                               else insert_row (th_id t, version) (anchor_row_of (th_anchor t)) (tb_anchors tb))
                              (\<lambda>anchors.
                                 Inr (tb\<lparr>tb_anchors := anchors,
                                         tb_threads := update_row (th_id t) (\<lambda>_. thread_row_of t version)
                                           (tb_threads tb)\<rparr>))))))"

text \<open>The identities of the messages are not part of the row of a thread.\<close>

definition thread_of_row :: "review_thread_id \<Rightarrow> thread_row \<Rightarrow> code_anchor \<Rightarrow> review_thread" where
  "thread_of_row i row anchor =
     \<lparr>th_id = i, th_session_id = hr_session_id row, th_anchor = anchor, th_title = hr_title row,
      th_resolution = hr_resolution row, th_conversation = hr_conversation row,
      th_proposal = hr_proposal row, th_read = hr_read row,
      th_provider_conversation_id = hr_provider_conversation_id row,
      th_latest_proposal_id = hr_latest_proposal_id row, th_messages = [],
      th_failure_phase = hr_failure_phase row, th_error_code = hr_error_code row,
      th_created_at = hr_created_at row, th_updated_at = hr_updated_at row\<rparr>"

definition load_thread_row :: "review_tables \<Rightarrow> review_thread_id \<Rightarrow> (store_error, review_thread) result" where
  "load_thread_row tb i =
     bind_result (select_row i (tb_threads tb))
       (\<lambda>row. bind_result (select_row (i, hr_anchor_version row) (tb_anchors tb))
          (\<lambda>stored. bind_result (decode_stored_anchor i (hr_anchor_version row) (aw_stored stored) (hr_created_at row))
             (\<lambda>v. let t = thread_of_row i row (av_anchor v) in
                  if thread_valid t then Inr t else Inl StoreCorrupt)))"

definition load_thread :: "review_store \<Rightarrow> review_thread_id \<Rightarrow> (store_error, review_thread) result" where
  "load_thread s i = (if rv_closed s then Inl StoreClosed else load_thread_row (rv_tables s) i)"

subsection \<open>Manual anchors\<close>

record anchor_version_write =
  vw_thread_id :: review_thread_id
  vw_generation :: nat
  vw_previous_anchor :: code_anchor
  vw_anchor :: code_anchor
  vw_method :: anchor_version_method
  vw_candidate :: anchor_candidate
  vw_candidate_fingerprint :: bytes
  vw_actor :: bytes
  vw_created_at :: instant

definition anchor_version_write_valid :: "anchor_version_write \<Rightarrow> bool" where
  "anchor_version_write_valid w \<longleftrightarrow>
     vw_thread_id w \<noteq> [] \<and> vw_generation w \<noteq> 0 \<and> code_anchor_valid (vw_previous_anchor w)
     \<and> code_anchor_valid (vw_anchor w) \<and> an_target_generation (vw_anchor w) = vw_generation w
     \<and> vw_method w = AnchorVersionMethodManual \<and> anchor_candidate_valid (vw_candidate w)
     \<and> ac_generation (vw_candidate w) = vw_generation w
     \<and> vw_candidate_fingerprint w = anchor_candidate_fingerprint (vw_candidate w)
     \<and> \<not> is_zero_time (vw_created_at w) \<and> valid_reattachment_actor (vw_actor w)"

definition manual_version :: "anchor_version_write \<Rightarrow> nat \<Rightarrow> anchor_version" where
  "manual_version w current =
     \<lparr>av_thread_id = vw_thread_id w, av_version = current + 1, av_anchor = vw_anchor w,
      av_method = vw_method w, av_previous_version = current, av_candidate = Some (vw_candidate w),
      av_actor = vw_actor w, av_created_at = vw_created_at w\<rparr>"

definition append_anchor_version ::
    "review_session_id \<Rightarrow> anchor_version_write \<Rightarrow> review_tables
     \<Rightarrow> (store_error, review_tables \<times> anchor_version) result" where
  "append_anchor_version sid w tb =
     (if \<not> anchor_version_write_valid w then Inl StoreInput
      else
        bind_result (select_row sid (tb_sessions tb)) (\<lambda>session.
        if sw_generation session \<noteq> vw_generation w then Inl StoreRevisionConflict
        else bind_result (select_row (vw_thread_id w) (tb_threads tb)) (\<lambda>row.
        if hr_session_id row \<noteq> sid then Inl StoreInput
        else
          (case map_of (tb_anchors tb) (vw_thread_id w, hr_anchor_version row) of
             None \<Rightarrow> Inl StoreCorrupt
           | Some stored \<Rightarrow>
               bind_result
                 (decode_stored_anchor (vw_thread_id w) (hr_anchor_version row) (aw_stored stored)
                   (aw_created_at stored))
                 (\<lambda>current.
                    let r = manual_version w (hr_anchor_version row) in
                    if av_anchor current \<noteq> vw_previous_anchor w
                       \<or> an_target_generation (av_anchor current) \<noteq> vw_generation w
                    then Inl StoreCandidateStale
                    else if \<not> anchor_version_valid r then Inl StoreInput
                    else
                      bind_result (insert_row (vw_thread_id w, av_version r)
                          \<lparr>aw_stored = StoredVersion r, aw_created_at = av_created_at r\<rparr> (tb_anchors tb))
                        (\<lambda>anchors.
                           Inr (tb\<lparr>tb_anchors := anchors,
                                   tb_threads := update_row (vw_thread_id w)
                                     (\<lambda>t. t\<lparr>hr_anchor_version := av_version r,
                                            hr_updated_at := av_created_at r\<rparr>) (tb_threads tb)\<rparr>, r)))))))"

subsection \<open>Messages\<close>

definition message_row_of :: "message \<Rightarrow> instant \<Rightarrow> message_row" where
  "message_row_of m created =
     \<lparr>ms_thread_id = msg_thread_id m, ms_role = msg_role m, ms_content = msg_content m,
      ms_provider_id = msg_provider_id m, ms_status = msg_status m, ms_ordinal = msg_ordinal m,
      ms_body_length = length (msg_content m), ms_body_sha256 = sha256_hex (msg_content m),
      ms_failure_phase = msg_failure_phase m, ms_error_code = msg_error_code m,
      ms_created_at = created, ms_updated_at = msg_updated_at m, ms_completed_at = msg_completed_at m\<rparr>"

text \<open>An ordinal is taken once in a thread.\<close>

definition ordinal_taken :: "review_tables \<Rightarrow> message \<Rightarrow> bool" where
  "ordinal_taken tb m \<longleftrightarrow>
     list_ex (\<lambda>(i, r). i \<noteq> msg_id m \<and> ms_thread_id r = msg_thread_id m \<and> ms_ordinal r = msg_ordinal m)
       (tb_messages tb)"

definition save_message ::
    "review_session_id \<Rightarrow> nat \<Rightarrow> message \<Rightarrow> review_tables \<Rightarrow> (store_error, review_tables) result" where
  "save_message sid maximum m tb =
     (if \<not> message_valid m \<or> length (msg_content m) > maximum then Inl StoreInput
      else
        bind_result (select_row (msg_thread_id m) (tb_threads tb)) (\<lambda>t.
        if hr_session_id t \<noteq> sid then Inl StoreInput
        else
          (case map_of (tb_messages tb) (msg_id m) of
             Some old \<Rightarrow>
               if ms_thread_id old \<noteq> msg_thread_id m then Inl StoreInput
               else if ordinal_taken tb m then Inl StoreConstraint
               else Inr (tb\<lparr>tb_messages := update_row (msg_id m)
                      (\<lambda>_. message_row_of m (ms_created_at old)) (tb_messages tb)\<rparr>)
           | None \<Rightarrow>
               if ordinal_taken tb m then Inl StoreConstraint
               else
                 bind_result (insert_row (msg_id m) (message_row_of m (msg_created_at m)) (tb_messages tb))
                   (\<lambda>messages. Inr (tb\<lparr>tb_messages := messages\<rparr>)))))"

end
