(* ===== verification/Session_Laws.thy ===== *)
theory Session_Laws
  imports Session_Writes
begin

text \<open>
  What is written is read back: the laws of the transaction's writes that the services rely on.
\<close>

lemma thread_valid_no_messages: "thread_valid t \<Longrightarrow> thread_valid (t\<lparr>th_messages := []\<rparr>)"
  by (simp add: thread_valid_def)

lemma thread_of_row_of [simp]:
  "thread_of_row (th_id t) (thread_row_of t n) (th_anchor t) = t\<lparr>th_messages := []\<rparr>"
  by (simp add: thread_of_row_def thread_row_of_def)

lemma thread_row_of_simps [simp]:
  "hr_session_id (thread_row_of t n) = th_session_id t" "hr_anchor_version (thread_row_of t n) = n"
  "hr_created_at (thread_row_of t n) = th_created_at t"
  by (simp_all add: thread_row_of_def)

lemma decode_new_anchor:
  "tid \<noteq> [] \<Longrightarrow> version \<noteq> 0 \<Longrightarrow> created \<noteq> 0 \<Longrightarrow> code_anchor_valid a \<Longrightarrow>
   decode_stored_anchor tid version (aw_stored (anchor_row_of a)) created
   = Inr (legacy_version tid version a created)"
  by (simp add: anchor_row_of_def anchor_version_valid_def legacy_version_def
      anchor_version_method_valid_def time_defs)

lemma legacy_version_anchor [simp]: "av_anchor (legacy_version tid n a c) = a"
  by (simp add: legacy_version_def)

lemma load_thread_row_Inr:
  assumes "load_thread_row tb i = Inr t"
  shows "thread_valid t" "th_id t = i" "th_messages t = []"
  using assms by (auto simp: load_thread_row_def Let_def thread_of_row_def split: if_splits)

lemma thread_valid_facts:
  "thread_valid t \<Longrightarrow> th_id t \<noteq> [] \<and> th_created_at t \<noteq> 0 \<and> code_anchor_valid (th_anchor t)"
  by (simp add: thread_valid_def valid_review_id_def time_defs)

text \<open>A saved thread is what is loaded, apart from the identities of its messages.\<close>

lemma save_thread_loads:
  assumes "save_thread sid t tb = Inr tb'"
  shows "load_thread_row tb' (th_id t) = Inr (t\<lparr>th_messages := []\<rparr>)"
proof -
  have ok: "thread_valid t" "th_session_id t = sid"
    using assms by (auto simp: save_thread_def split: if_splits)
  note t = thread_valid_facts [OF ok(1)] thread_valid_no_messages [OF ok(1)]
  have loads: "load_thread_row tb' (th_id t) = Inr (t\<lparr>th_messages := []\<rparr>)"
    if "map_of (tb_threads tb') (th_id t) = Some (thread_row_of t n)"
      "map_of (tb_anchors tb') (th_id t, n) = Some stored"
      "decode_stored_anchor (th_id t) n (aw_stored stored) (th_created_at t) = Inr v"
      "av_anchor v = th_anchor t" for n stored v
    using that t(2) by (simp add: load_thread_row_def select_row_def)
  show ?thesis
  proof (cases "map_of (tb_threads tb) (th_id t)")
    case None
    then have "map_of (tb_threads tb') (th_id t) = Some (thread_row_of t 1)"
        "map_of (tb_anchors tb') (th_id t, 1) = Some (anchor_row_of (th_anchor t))"
      using assms ok by (auto simp: save_thread_def insert_row_Inr)
    then show ?thesis using t decode_new_anchor by (intro loads) (auto simp: legacy_version_anchor)
  next
    case (Some row)
    then obtain stored existing where row: "hr_created_at row = th_created_at t" "hr_session_id row = sid"
        "map_of (tb_anchors tb) (th_id t, hr_anchor_version row) = Some stored"
        "decode_stored_anchor (th_id t) (hr_anchor_version row) (aw_stored stored) (th_created_at t) = Inr existing"
      using assms ok by (auto simp: save_thread_def split: if_splits option.splits)
    show ?thesis
    proof (cases "av_anchor existing = th_anchor t")
      case True
      then have "tb_anchors tb' = tb_anchors tb"
          "map_of (tb_threads tb') (th_id t) = Some (thread_row_of t (hr_anchor_version row))"
        using assms ok row Some by (auto simp: save_thread_def Let_def)
      with True row show ?thesis by (intro loads) auto
    next
      case False
      then have "map_of (tb_threads tb') (th_id t) = Some (thread_row_of t (hr_anchor_version row + 1))"
          "map_of (tb_anchors tb') (th_id t, hr_anchor_version row + 1) = Some (anchor_row_of (th_anchor t))"
        using assms ok row Some by (auto simp: save_thread_def Let_def insert_row_Inr)
      then show ?thesis using t decode_new_anchor by (intro loads) (auto simp: legacy_version_anchor)
    qed
  qed
qed

lemma load_thread_row_cong:
  assumes "map_of (tb_threads tb') i = map_of (tb_threads tb) i"
    and "\<And>n. map_of (tb_anchors tb') (i, n) = map_of (tb_anchors tb) (i, n)"
  shows "load_thread_row tb' i = load_thread_row tb i"
  by (simp add: load_thread_row_def select_row_def assms)

lemma save_thread_other:
  assumes "save_thread sid t tb = Inr tb'" "i \<noteq> th_id t"
  shows "load_thread_row tb' i = load_thread_row tb i"
  by (rule load_thread_row_cong; use assms in
      \<open>auto simp: save_thread_def insert_row_Inr Let_def split: if_splits option.splits\<close>)

lemma save_message_tables:
  "save_message sid maximum m tb = Inr tb' \<Longrightarrow>
   tb_threads tb' = tb_threads tb \<and> tb_anchors tb' = tb_anchors tb \<and> tb_sessions tb' = tb_sessions tb"
  by (auto simp: save_message_def insert_row_Inr split: if_splits option.splits)

lemma save_message_row:
  "save_message sid maximum m tb = Inr tb' \<Longrightarrow>
   \<exists>created. map_of (tb_messages tb') (msg_id m) = Some (message_row_of m created)"
  by (auto simp: save_message_def insert_row_Inr split: if_splits option.splits)

lemma save_message_others:
  "save_message sid maximum m tb = Inr tb' \<Longrightarrow> i \<noteq> msg_id m \<Longrightarrow>
   map_of (tb_messages tb') i = map_of (tb_messages tb) i"
  by (auto simp: save_message_def insert_row_Inr split: if_splits option.splits)

lemma bump_revision_tables [simp]:
  "tb_threads (bump_revision i tb) = tb_threads tb" "tb_anchors (bump_revision i tb) = tb_anchors tb"
  "tb_messages (bump_revision i tb) = tb_messages tb" "tb_chunks (bump_revision i tb) = tb_chunks tb"
  "tb_identities (bump_revision i tb) = tb_identities tb"
  "load_thread_row (bump_revision i tb) j = load_thread_row tb j"
  by (simp_all add: bump_revision_def load_thread_row_def)

text \<open>Anchors are never rewritten: every write only adds rows to the history.\<close>

lemma save_thread_history:
  "save_thread sid t tb = Inr tb' \<Longrightarrow> \<exists>more. tb_anchors tb' = tb_anchors tb @ more"
  by (auto simp: save_thread_def insert_row_Inr Let_def split: if_splits option.splits)

lemma append_version_history:
  "append_anchor_version sid w tb = Inr (tb', r) \<Longrightarrow> \<exists>more. tb_anchors tb' = tb_anchors tb @ more"
  by (auto simp: append_anchor_version_def insert_row_Inr Let_def split: if_splits option.splits)

lemma append_version_loads:
  assumes "append_anchor_version sid w tb = Inr (tb', r)" "load_thread_row tb (vw_thread_id w) = Inr t"
    "th_created_at t \<le> vw_created_at w" "anchor_state_valid (an_state (vw_anchor w))"
  shows "load_thread_row tb' (vw_thread_id w)
    = Inr (t\<lparr>th_anchor := vw_anchor w, th_updated_at := vw_created_at w\<rparr>)"
proof -
  obtain row stored where row: "map_of (tb_threads tb) (vw_thread_id w) = Some row"
      "map_of (tb_anchors tb) (vw_thread_id w, hr_anchor_version row) = Some stored"
      "t = thread_of_row (vw_thread_id w) row (th_anchor t)" "thread_valid t"
    using assms(2) by (auto simp: load_thread_row_def Let_def thread_of_row_def split: if_splits)
  let ?r = "manual_version w (hr_anchor_version row)"
  have new: "anchor_version_valid ?r" "anchor_version_write_valid w"
      "tb_threads tb' = update_row (vw_thread_id w)
         (\<lambda>t. t\<lparr>hr_anchor_version := av_version ?r, hr_updated_at := av_created_at ?r\<rparr>) (tb_threads tb)"
      "map_of (tb_anchors tb') (vw_thread_id w, av_version ?r)
         = Some \<lparr>aw_stored = StoredVersion ?r, aw_created_at = av_created_at ?r\<rparr>"
    using assms(1) row(1,2)
    by (auto simp: append_anchor_version_def Let_def insert_row_Inr split: if_splits option.splits)
  have r: "av_thread_id ?r = vw_thread_id w" "av_version ?r = hr_anchor_version row + 1" "av_anchor ?r = vw_anchor w"
      "av_method ?r = AnchorVersionMethodManual" "av_created_at ?r = vw_created_at w"
    using new(2) by (simp_all add: manual_version_def anchor_version_write_valid_def)
  have created: "hr_created_at row = th_created_at t" by (subst row(3)) (simp add: thread_of_row_def)
  let ?r' = "?r\<lparr>av_thread_id := vw_thread_id w, av_version := av_version ?r, av_created_at := hr_created_at row\<rparr>"
  have "hr_created_at row \<noteq> 0" using row(4) created by (simp add: thread_valid_def time_defs)
  then have "anchor_version_valid ?r'"
    using new(1) r(1) by (simp add: anchor_version_valid_def time_defs)
  then have decoded: "decode_stored_anchor (vw_thread_id w) (av_version ?r) (StoredVersion ?r) (hr_created_at row) = Inr ?r'"
    using new(1) r(4) by (simp add: Let_def anchor_version_valid_def)
  have "thread_valid (t\<lparr>th_anchor := vw_anchor w, th_updated_at := vw_created_at w\<rparr>)"
    using row(4) assms(3,4) new(2)
    by (auto simp: thread_valid_def anchor_version_write_valid_def time_defs)
  moreover have "thread_of_row (vw_thread_id w)
      (row\<lparr>hr_anchor_version := av_version ?r, hr_updated_at := av_created_at ?r\<rparr>) (vw_anchor w)
    = t\<lparr>th_anchor := vw_anchor w, th_updated_at := vw_created_at w\<rparr>"
    using r(5) by (subst row(3)) (simp add: thread_of_row_def)
  ultimately show ?thesis
    using row(1) new(3,4) r decoded by (simp add: load_thread_row_def select_row_def)
qed

end
