(* ===== verification/Paging.thy ===== *)
theory Paging
  imports Session_Laws "HOL-Library.Product_Lexorder"
begin

text \<open>
  The keyset pages of the review store (\<^verbatim>\<open>ListThreadSummaries\<close> and \<^verbatim>\<open>ListMessages\<close> of
  \<^verbatim>\<open>internal/store/sqlite/queries.go\<close>) and the loop that reads a whole listing page by page. Rows
  are ordered by the text of their time, then by their identity; a page is cut by its limit and by
  the bytes of its encoded items, whose sizes are parameters.
\<close>

subsection \<open>Pages\<close>

definition DefaultPageLimit :: nat where "DefaultPageLimit = 100"
definition MaxPageEncodedBytes :: nat where "MaxPageEncodedBytes = 4 * 1024 * 1024"

type_synonym page_key = "bytes \<times> bytes"

record page_request =
  pq_limit :: nat
  pq_cursor :: "(nat \<times> page_key) option"

text \<open>
  A cursor carries the revision it was read at; \<^verbatim>\<open>Validate\<close> replaces the limit zero by the default.
\<close>

definition page_limit :: "page_request \<Rightarrow> nat" where
  "page_limit q = (if pq_limit q = 0 then DefaultPageLimit else pq_limit q)"

definition page_request_valid :: "page_request \<Rightarrow> bool" where
  "page_request_valid q \<longleftrightarrow>
     \<not> page_limit q > MaxPageLimit
     \<and> opt_all (\<lambda>(revision, key). revision \<noteq> 0 \<and> snd key \<noteq> []) (pq_cursor q)"

record 'i page_result =
  px_items :: "'i list"
  px_next :: "(nat \<times> page_key) option"
  px_revision :: nat
  px_has_more :: bool

record 'i page_codec =
  pk_key :: "'i \<Rightarrow> page_key"
  pk_ok :: "'i \<Rightarrow> bool"
  pk_item_bytes :: "'i \<Rightarrow> nat"
  pk_list_bytes :: "'i list \<Rightarrow> nat"

definition page_fits :: "'i page_codec \<Rightarrow> 'i list \<Rightarrow> 'i \<Rightarrow> bool" where
  "page_fits k items x \<longleftrightarrow> \<not> pk_list_bytes k items + pk_item_bytes k x > MaxPageEncodedBytes"

fun fill_page :: "'i page_codec \<Rightarrow> nat \<Rightarrow> 'i list \<Rightarrow> 'i list \<Rightarrow> (store_error, 'i list \<times> bool) result" where
  "fill_page k limit items [] = Inr (items, False)"
| "fill_page k limit items (x # xs) =
     (if length items \<ge> limit then Inr (items, True)
      else if \<not> pk_ok k x then Inl StoreCorrupt
      else if \<not> page_fits k items x then
        (if items = [] then Inl StorePageItemTooLarge else Inr (items, True))
      else fill_page k limit (items @ [x]) xs)"

definition rows_after :: "'i page_codec \<Rightarrow> 'i list \<Rightarrow> page_key option \<Rightarrow> 'i list" where
  "rows_after k rows cursor =
     (let sorted_rows = sort_key (pk_key k) rows in
      case cursor of None \<Rightarrow> sorted_rows | Some c \<Rightarrow> filter (\<lambda>r. c < pk_key k r) sorted_rows)"

definition list_page ::
    "'i page_codec \<Rightarrow> 'i list \<Rightarrow> nat \<Rightarrow> page_request \<Rightarrow> (store_error, 'i page_result) result" where
  "list_page k rows revision q =
     (if \<not> page_request_valid q then Inl StoreInput
      else if \<not> opt_all (\<lambda>(r, _). r = revision) (pq_cursor q) then Inl StoreRevisionConflict
      else
        bind_result
          (fill_page k (page_limit q) []
            (take (page_limit q + 1) (rows_after k rows (map_option snd (pq_cursor q)))))
          (\<lambda>(items, further). Inr
             \<lparr>px_items = items,
              px_next = (if further \<and> items \<noteq> [] then Some (revision, pk_key k (last items)) else None),
              px_revision = revision, px_has_more = further\<rparr>))"

subsection \<open>A page is a prefix of what is left\<close>

lemma fill_page_prefix:
  "fill_page k limit items xs = Inr (page, further) \<Longrightarrow> length items \<le> limit \<Longrightarrow>
   \<exists>n \<le> length xs. page = items @ take n xs \<and> (further \<longleftrightarrow> n < length xs) \<and> length page \<le> limit
     \<and> (0 < limit \<and> items = [] \<and> xs \<noteq> [] \<longrightarrow> 0 < n)"
proof (induction k limit items xs rule: fill_page.induct)
  case (2 k limit items x xs)
  show ?case
  proof (cases "limit \<le> length items \<or> \<not> page_fits k items x")
    case True
    then have "page = items" "further" "0 < limit \<Longrightarrow> items \<noteq> []"
      using 2(2) by (auto split: if_splits)
    then show ?thesis using 2(3) by (intro exI [of _ 0]) auto
  next
    case False
    then have go: "\<not> limit \<le> length items" "pk_ok k x" "page_fits k items x"
      "fill_page k limit (items @ [x]) xs = Inr (page, further)"
      using 2(2) by (simp_all split: if_splits)
    then obtain n where "n \<le> length xs" "page = (items @ [x]) @ take n xs" "further \<longleftrightarrow> n < length xs"
        "length page \<le> limit"
      using 2(1) [of ] by auto
    then show ?thesis by (intro exI [of _ "Suc n"]) simp
  qed
qed auto

lemma fill_page_ok:
  "\<forall>x \<in> set xs. pk_ok k x \<and> page_fits k [] x \<Longrightarrow> (items = [] \<Longrightarrow> limit \<noteq> 0) \<Longrightarrow> is_ok (fill_page k limit items xs)"
  by (induction k limit items xs rule: fill_page.induct) auto

subsection \<open>Reading all pages\<close>

text \<open>The loop asks for pages of the largest size, from the start, until one has no more.\<close>

definition page_step :: "'i page_codec \<Rightarrow> 'i list \<Rightarrow> nat \<Rightarrow> page_key option \<Rightarrow> (store_error, 'i page_result) result" where
  "page_step k rows revision cursor =
     list_page k rows revision
       \<lparr>pq_limit = MaxPageLimit, pq_cursor = map_option (\<lambda>c. (revision, c)) cursor\<rparr>"

lemma page_step_Inr:
  assumes "page_step k rows revision cursor = Inr p"
  shows "\<exists>n. px_items p = take n (rows_after k rows cursor)
    \<and> (px_has_more p \<longleftrightarrow> n < length (rows_after k rows cursor))
    \<and> px_next p = (if px_has_more p then Some (revision, pk_key k (last (px_items p))) else None)
    \<and> (rows_after k rows cursor \<noteq> [] \<longrightarrow> 0 < n)"
proof -
  let ?left = "rows_after k rows cursor"
  have shown: "map_option snd (map_option (\<lambda>c. (revision, c)) cursor) = cursor" by (cases cursor) simp_all
  obtain items further where fill: "fill_page k MaxPageLimit [] (take (Suc MaxPageLimit) ?left) = Inr (items, further)"
    and p: "px_items p = items" "px_has_more p = further"
      "px_next p = (if further \<and> items \<noteq> [] then Some (revision, pk_key k (last items)) else None)"
    using assms by (auto simp: page_step_def list_page_def page_limit_def shown MaxPageLimit_def split: if_splits)
  have le0: "length ([] :: 'a list) \<le> MaxPageLimit" by simp
  let ?xs = "take (Suc MaxPageLimit) ?left"
  from fill_page_prefix [OF fill le0] obtain n where n: "n \<le> length ?xs" "items = [] @ take n ?xs"
      "further \<longleftrightarrow> n < length ?xs" "length items \<le> MaxPageLimit" "0 < MaxPageLimit \<and> ?xs \<noteq> [] \<longrightarrow> 0 < n"
    by blast
  have le: "n \<le> MaxPageLimit" using n(1,2,4) by simp
  then have "items = take n ?left" "further \<longleftrightarrow> n < length ?left"
    using n(1-3) by auto
  moreover have "?left \<noteq> [] \<longrightarrow> 0 < n" using n(5) by (simp add: MaxPageLimit_def)
  moreover have "further \<Longrightarrow> items \<noteq> []" using calculation by auto
  ultimately show ?thesis using p by (intro exI [of _ n]) auto
qed

lemma rows_after_shrinks:
  assumes "r \<in> set (rows_after k rows cursor)"
  shows "length (rows_after k rows (Some (pk_key k r))) < length (rows_after k rows cursor)"
proof -
  let ?c = "pk_key k r"
  have "rows_after k rows (Some ?c) = filter (\<lambda>x. ?c < pk_key k x) (rows_after k rows cursor)"
    using assms by (cases cursor) (auto simp: rows_after_def Let_def intro!: filter_cong)
  moreover have "length (filter (\<lambda>x. ?c < pk_key k x) (rows_after k rows cursor)) < length (rows_after k rows cursor)"
    using assms by (intro length_filter_less [of r]) auto
  ultimately show ?thesis by simp
qed

function collect_pages :: "'i page_codec \<Rightarrow> 'i list \<Rightarrow> nat \<Rightarrow> page_key option \<Rightarrow> (store_error, 'i list) result" where
  "collect_pages k rows revision cursor =
     (case page_step k rows revision cursor of
        Inl e \<Rightarrow> Inl e
      | Inr p \<Rightarrow>
          if \<not> px_has_more p then Inr (px_items p)
          else
            (case px_next p of
               None \<Rightarrow> Inl StoreCorrupt
             | Some (_, c) \<Rightarrow>
                 bind_result (collect_pages k rows revision (Some c)) (\<lambda>items. Inr (px_items p @ items))))"
  by pat_completeness auto
termination
proof (relation "measure (\<lambda>(k, rows, revision, cursor). length (rows_after k rows cursor))", simp, clarsimp)
  fix k :: "'i page_codec" and rows revision cursor p r a b
  assume step: "page_step k rows revision cursor = Inr p" "px_has_more p" "px_next p = Some (r, a, b)"
  obtain n where n: "px_items p = take n (rows_after k rows cursor)" "n < length (rows_after k rows cursor)" "0 < n"
      "(a, b) = pk_key k (last (px_items p))"
    using page_step_Inr [OF step(1)] step(2,3) by auto
  then have "px_items p \<noteq> []" by auto
  then have "last (px_items p) \<in> set (take n (rows_after k rows cursor))"
    using last_in_set n(1) by metis
  then have "last (px_items p) \<in> set (rows_after k rows cursor)" by (rule in_set_takeD)
  from rows_after_shrinks [OF this]
  show "length (rows_after k rows (Some (a, b))) < length (rows_after k rows cursor)" by (simp add: n(4))
qed

declare collect_pages.simps [simp del]

lemma sorted_keys_filter:
  "sorted_wrt (<) (map f ys) \<Longrightarrow> 0 < n \<Longrightarrow> n \<le> length ys \<Longrightarrow>
   filter (\<lambda>y. f (ys ! (n - 1)) < (f y :: page_key)) ys = drop n ys"
proof (induction ys arbitrary: n)
  case (Cons y ys)
  obtain m where n: "n = Suc m" using Cons.prems(2) by (cases n) auto
  show ?case
  proof (cases "m = 0")
    case True
    then show ?thesis using Cons.prems(1) n by (auto simp: filter_id_conv)
  next
    case False
    then have "ys ! (m - 1) \<in> set ys" using Cons.prems(3) n by simp
    then have "\<not> f (ys ! (m - 1)) < f y" using Cons.prems(1) by (auto simp: less_not_sym)
    then show ?thesis using Cons n False by (simp add: nth_Cons')
  qed
qed simp

lemma sorted_rows:
  assumes "distinct (map (pk_key k) rows)"
  shows "sorted_wrt (<) (map (pk_key k) (rows_after k rows cursor))"
proof -
  have sorted: "sorted_wrt (<) (map (pk_key k) (sort_key (pk_key k) rows))"
    using assms by (simp add: strict_sorted_iff distinct_map)
  show ?thesis
  proof (cases cursor)
    case (Some c)
    have "sorted_wrt (\<lambda>x y. pk_key k x < pk_key k y) (sort_key (pk_key k) rows)"
      using sorted by (simp add: sorted_wrt_map)
    then show ?thesis using Some by (simp add: rows_after_def Let_def sorted_wrt_map sorted_wrt_filter)
  qed (use sorted in \<open>simp add: rows_after_def Let_def\<close>)
qed

definition page_rows_ok :: "'i page_codec \<Rightarrow> 'i list \<Rightarrow> bool" where
  "page_rows_ok k rows \<longleftrightarrow>
     distinct (map (pk_key k) rows)
     \<and> (\<forall>x \<in> set rows. pk_ok k x \<and> page_fits k [] x \<and> snd (pk_key k x) \<noteq> [])"

lemma page_step_ok:
  assumes "page_rows_ok k rows" "revision \<noteq> 0" "opt_all (\<lambda>c. snd c \<noteq> []) cursor"
  shows "is_ok (page_step k rows revision cursor)"
proof -
  have "\<forall>x \<in> set (take (Suc MaxPageLimit) (rows_after k rows cursor)). pk_ok k x \<and> page_fits k [] x"
    using assms(1) by (auto simp: page_rows_ok_def rows_after_def Let_def dest!: in_set_takeD split: option.splits)
  then have "is_ok (fill_page k MaxPageLimit [] (take (Suc MaxPageLimit) (rows_after k rows cursor)))"
    by (rule fill_page_ok) (simp add: MaxPageLimit_def)
  moreover have "map_option snd (map_option (\<lambda>c. (revision, c)) cursor) = cursor" by (cases cursor) simp_all
  ultimately show ?thesis
    using assms(2,3)
    by (cases "fill_page k MaxPageLimit [] (take (Suc MaxPageLimit) (rows_after k rows cursor))")
      (auto simp: page_step_def list_page_def page_request_valid_def page_limit_def MaxPageLimit_def
        opt_all_iff split: prod.split)
qed

lemma collect_pages_all:
  assumes "page_rows_ok k rows" "revision \<noteq> 0" "opt_all (\<lambda>c. snd c \<noteq> []) cursor"
  shows "collect_pages k rows revision cursor = Inr (rows_after k rows cursor)"
  using assms
proof (induction k rows revision cursor rule: collect_pages.induct)
  case (1 k rows revision cursor)
  let ?left = "rows_after k rows cursor"
  obtain p where p: "page_step k rows revision cursor = Inr p"
    using page_step_ok [OF 1(2-4)] by (cases "page_step k rows revision cursor") auto
  from page_step_Inr [OF p] obtain n where n: "px_items p = take n ?left" "px_has_more p \<longleftrightarrow> n < length ?left"
      "px_next p = (if px_has_more p then Some (revision, pk_key k (last (px_items p))) else None)"
      "?left \<noteq> [] \<longrightarrow> 0 < n" by blast
  show ?case
  proof (cases "px_has_more p")
    case False
    then show ?thesis using p n by (simp add: collect_pages.simps)
  next
    case True
    then have bounds: "0 < n" "n < length ?left" using n by auto
    let ?c = "pk_key k (last (px_items p))"
    have last: "last (px_items p) = ?left ! (n - 1)"
    proof -
      have "length (take n ?left) = n" "take n ?left \<noteq> []" using bounds by auto
      then have "last (take n ?left) = take n ?left ! (n - 1)" using last_conv_nth by metis
      then show ?thesis using bounds(1) by (simp add: n(1))
    qed
    have "sorted_wrt (<) (map (pk_key k) ?left)" using 1(2) by (intro sorted_rows) (simp add: page_rows_ok_def)
    from sorted_keys_filter [OF this bounds(1)] bounds(2)
    have rest: "filter (\<lambda>y. ?c < pk_key k y) ?left = drop n ?left" by (simp add: last)
    have "?left ! (n - 1) \<in> set ?left" using bounds by simp
    then have member: "last (px_items p) \<in> set ?left" by (simp add: last)
    then have row: "last (px_items p) \<in> set rows"
      by (auto simp: rows_after_def Let_def split: option.splits)
    have "rows_after k rows (Some ?c) = filter (\<lambda>y. ?c < pk_key k y) ?left"
      using member by (cases cursor) (auto simp: rows_after_def Let_def intro!: filter_cong)
    moreover have "collect_pages k rows revision (Some ?c) = Inr (rows_after k rows (Some ?c))"
      using 1(1) [OF p, of "(revision, ?c)" revision ?c] True n(3) 1(2,3) row
      by (simp add: page_rows_ok_def)
    ultimately show ?thesis
      using p True n(1,3) rest by (subst collect_pages.simps) simp
  qed
qed

text \<open>
  C21. A client that follows the cursors of a list reads every row of it exactly once, in the order of
  their keys, whatever the sizes of the rows make of the pages, and it comes to an end.
\<close>

theorem pages_complete:
  assumes "page_rows_ok k rows" "revision \<noteq> 0"
  shows "collect_pages k rows revision None = Inr (sort_key (pk_key k) rows)"
  using collect_pages_all [OF assms, of None] by (simp add: rows_after_def)

lemma pages_complete_witness:
  "collect_pages \<lparr>pk_key = (\<lambda>i. (i, i)), pk_ok = (\<lambda>_. True), pk_item_bytes = (\<lambda>_. MaxPageEncodedBytes),
      pk_list_bytes = (\<lambda>xs. length xs)\<rparr> [''c'', ''a'', ''b''] 7 None
   = Inr [''a'', ''b'', ''c'']"
proof -
  let ?k = "\<lparr>pk_key = (\<lambda>i. (i, i)), pk_ok = (\<lambda>_. True), pk_item_bytes = (\<lambda>_. MaxPageEncodedBytes),
      pk_list_bytes = (\<lambda>xs. length xs)\<rparr>"
  have "page_rows_ok ?k [''c'', ''a'', ''b'']" by (simp add: page_rows_ok_def page_fits_def)
  from pages_complete [OF this, of 7] show ?thesis by simp
qed

end
