(* ===== verification/Message_Bodies.thy ===== *)
theory Message_Bodies
  imports Session_Laws Links
begin

text \<open>
  Streamed message bodies (\<^verbatim>\<open>internal/app/review_store.go\<close> and \<^verbatim>\<open>internal/store/sqlite/queries.go\<close>):
  immutable chunks under the ordinals 1, 2, \dots, the identity that freezes a finished body, and
  reads of a range of it.
\<close>

subsection \<open>Requests\<close>

definition MaxMessageBodyRange :: nat where "MaxMessageBodyRange = 256 * 1024"
definition MaxMessageBodyChunk :: nat where "MaxMessageBodyChunk = 256 * 1024"
definition MaxStreamedMessageBytes :: nat where "MaxStreamedMessageBytes = 8 * 1024 * 1024"

record chunk_write =
  cw_message_id :: message_id
  cw_ordinal :: nat
  cw_bytes :: bytes
  cw_hash :: bytes
  cw_total_length :: nat
  cw_total_sha256 :: bytes

definition chunk_write_valid :: "chunk_write \<Rightarrow> bool" where
  "chunk_write_valid c \<longleftrightarrow>
     cw_message_id c \<noteq> [] \<and> cw_ordinal c \<noteq> 0 \<and> cw_bytes c \<noteq> []
     \<and> \<not> length (cw_bytes c) > MaxMessageBodyChunk \<and> cw_total_length c \<noteq> 0
     \<and> \<not> cw_total_length c > MaxStreamedMessageBytes \<and> \<not> cw_total_length c < length (cw_bytes c)
     \<and> valid_app_sha256 (cw_hash c) \<and> valid_app_sha256 (cw_total_sha256 c)
     \<and> equal_fold (sha256_hex (cw_bytes c)) (cw_hash c)"

definition valid_provider_metadata_optional :: "bytes \<Rightarrow> nat \<Rightarrow> bool" where
  "valid_provider_metadata_optional v maximum \<longleftrightarrow>
     v = [] \<or> utf8_valid v \<and> length v \<le> maximum \<and> NUL \<notin> set v \<and> CR \<notin> set v \<and> LF \<notin> set v"

definition body_identity_valid :: "body_identity \<Rightarrow> bool" where
  "body_identity_valid i \<longleftrightarrow>
     bi_message_id i \<noteq> [] \<and> \<not> bi_byte_length i > MaxStreamedMessageBytes \<and> valid_app_sha256 (bi_sha256 i)
     \<and> \<not> is_zero_time (bi_completed_at i)
     \<and> bi_terminal_status i \<in> {MessageCompleted, MessageFailed, MessageCancelled}
     \<and> \<not> (bi_byte_length i = 0 \<and> bi_chunk_count i \<noteq> 0) \<and> \<not> (bi_byte_length i > 0 \<and> bi_chunk_count i = 0)
     \<and> valid_provider_metadata_optional (bi_failure_phase i) 64
     \<and> valid_provider_metadata_optional (bi_error_code i) 64"

record body_range =
  br_message_id :: message_id
  br_expected_length :: nat
  br_expected_sha256 :: bytes
  br_offset :: nat
  br_length :: nat

definition body_range_valid :: "body_range \<Rightarrow> bool" where
  "body_range_valid r \<longleftrightarrow>
     br_message_id r \<noteq> [] \<and> br_expected_length r \<noteq> 0 \<and> length (br_expected_sha256 r) = 64
     \<and> \<not> br_offset r > br_expected_length r \<and> \<not> br_length r > MaxMessageBodyRange
     \<and> \<not> br_length r > br_expected_length r - br_offset r"

record body_part =
  bp_message_id :: message_id
  bp_offset :: nat
  bp_bytes :: bytes
  bp_total_length :: nat
  bp_sha256 :: bytes
  bp_complete :: bool

subsection \<open>Chunks\<close>

text \<open>The chunks of a message in the order of their ordinals.\<close>

definition numbered_chunks :: "review_tables \<Rightarrow> message_id \<Rightarrow> (nat \<times> body_chunk) list" where
  "numbered_chunks tb i =
     sort_key fst (map (\<lambda>((_, n), c). (n, c)) (filter (\<lambda>((j, _), _). j = i) (tb_chunks tb)))"

definition message_chunks :: "review_tables \<Rightarrow> message_id \<Rightarrow> body_chunk list" where
  "message_chunks tb i = map snd (numbered_chunks tb i)"

definition message_body :: "review_tables \<Rightarrow> message_id \<Rightarrow> bytes" where
  "message_body tb i = concat (map bc_bytes (message_chunks tb i))"

definition highest_ordinal :: "review_tables \<Rightarrow> message_id \<Rightarrow> nat" where
  "highest_ordinal tb i = foldr max (map fst (numbered_chunks tb i)) 0"

definition message_body_digest :: "review_tables \<Rightarrow> message_id \<Rightarrow> (store_error, bytes \<times> nat) result" where
  "message_body_digest tb i =
     (let body = message_body tb i in
      if length body > MaxStreamedMessageBytes then Inl StoreInput else Inr (sha256_hex body, length body))"

definition message_owner :: "review_tables \<Rightarrow> message_id \<Rightarrow> (store_error, review_session_id \<times> message_row) result" where
  "message_owner tb i =
     bind_result (select_row i (tb_messages tb))
       (\<lambda>m. bind_result (select_row (ms_thread_id m) (tb_threads tb)) (\<lambda>t. Inr (hr_session_id t, m)))"

definition append_body_chunk ::
    "review_session_id \<Rightarrow> chunk_write \<Rightarrow> instant \<Rightarrow> review_tables \<Rightarrow> (store_error, review_tables) result" where
  "append_body_chunk sid c now tb =
     (if \<not> chunk_write_valid c then Inl StoreInput
      else
        bind_result (message_owner tb (cw_message_id c)) (\<lambda>(owner, m).
        if owner \<noteq> sid \<or> ms_body_length m + length (cw_bytes c) \<noteq> cw_total_length c then Inl StoreInput
        else
          (case map_of (tb_chunks tb) (cw_message_id c, cw_ordinal c) of
             Some old \<Rightarrow>
               if \<not> equal_fold (bc_sha256 old) (cw_hash c) \<or> bc_bytes old \<noteq> cw_bytes c then Inl StoreCorrupt
               else Inr tb
           | None \<Rightarrow>
               if highest_ordinal tb (cw_message_id c) + 1 \<noteq> cw_ordinal c then Inl StoreInput
               else
                 bind_result
                   (insert_row (cw_message_id c, cw_ordinal c)
                      \<lparr>bc_sha256 = cw_hash c, bc_bytes = cw_bytes c\<rparr> (tb_chunks tb))
                   (\<lambda>chunks.
                      let tb = tb\<lparr>tb_chunks := chunks\<rparr> in
                      bind_result (message_body_digest tb (cw_message_id c))
                        (\<lambda>(digest, len).
                           if len \<noteq> cw_total_length c \<or> \<not> equal_fold digest (cw_total_sha256 c)
                           then Inl StoreCorrupt
                           else Inr (tb\<lparr>tb_messages := update_row (cw_message_id c)
                                  (\<lambda>m. m\<lparr>ms_body_length := len, ms_body_sha256 := digest,
                                         ms_updated_at := now\<rparr>) (tb_messages tb)\<rparr>))))))"

subsection \<open>Finished bodies\<close>

definition finalize_body ::
    "review_session_id \<Rightarrow> body_identity \<Rightarrow> review_tables \<Rightarrow> (store_error, review_tables) result" where
  "finalize_body sid i tb =
     (if \<not> body_identity_valid i then Inl StoreInput
      else
        bind_result (message_owner tb (bi_message_id i)) (\<lambda>(owner, m).
        if owner \<noteq> sid then Inl StoreInput
        else if map_of (tb_identities tb) (bi_message_id i) \<noteq> None then Inl StoreCorrupt
        else
          bind_result (message_body_digest tb (bi_message_id i)) (\<lambda>(digest, len).
          if length (message_chunks tb (bi_message_id i)) \<noteq> bi_chunk_count i \<or> len \<noteq> bi_byte_length i
             \<or> \<not> equal_fold digest (bi_sha256 i)
          then Inl StoreCorrupt
          else
            bind_result (insert_row (bi_message_id i) i (tb_identities tb)) (\<lambda>identities.
            Inr (tb\<lparr>tb_identities := identities,
                    tb_messages := update_row (bi_message_id i)
                      (\<lambda>m. m\<lparr>ms_status := bi_terminal_status i, ms_body_length := bi_byte_length i,
                             ms_body_sha256 := bi_sha256 i, ms_failure_phase := bi_failure_phase i,
                             ms_error_code := bi_error_code i, ms_updated_at := bi_completed_at i,
                             ms_completed_at := Some (bi_completed_at i)\<rparr>) (tb_messages tb)\<rparr>)))))"

subsection \<open>Reading a range\<close>

text \<open>What one chunk, which starts at \<open>cursor\<close>, adds to the range.\<close>

definition chunk_slice :: "nat \<Rightarrow> nat \<Rightarrow> nat \<Rightarrow> bytes \<Rightarrow> bytes" where
  "chunk_slice off len cursor chunk =
     (if cursor + length chunk \<le> off \<or> off + len \<le> cursor then []
      else
        (let start = (if off > cursor then off - cursor else 0);
             stop = (if off + len < cursor + length chunk then off + len - cursor else length chunk)
         in take (stop - start) (drop start chunk)))"

fun collect_range :: "nat \<Rightarrow> nat \<Rightarrow> nat \<Rightarrow> body_chunk list \<Rightarrow> (store_error, bytes \<times> nat) result" where
  "collect_range off len cursor [] = Inr ([], cursor)"
| "collect_range off len cursor (c # cs) =
     (if \<not> equal_fold (sha256_hex (bc_bytes c)) (bc_sha256 c) then Inl StoreCorrupt
      else
        bind_result (collect_range off len (cursor + length (bc_bytes c)) cs)
          (\<lambda>(data, n). Inr (chunk_slice off len cursor (bc_bytes c) @ data, n)))"

definition read_message_body :: "review_store \<Rightarrow> body_range \<Rightarrow> (store_error, body_part) result" where
  "read_message_body s r =
     (if rv_closed s then Inl StoreClosed
      else if \<not> body_range_valid r \<or> \<not> valid_sha256 (br_expected_sha256 r) then Inl StoreInput
      else
        (let tb = rv_tables s; chunks = message_chunks tb (br_message_id r) in
         bind_result (select_row (br_message_id r) (tb_messages tb)) (\<lambda>m.
         if ms_body_length m \<noteq> br_expected_length r
            \<or> \<not> equal_fold (ms_body_sha256 m) (br_expected_sha256 r)
         then Inl StoreCorrupt
         else
           bind_result
             (if chunks \<noteq> [] then
                bind_result (collect_range (br_offset r) (br_length r) 0 chunks)
                  (\<lambda>(data, n).
                     if n \<noteq> ms_body_length m
                        \<or> \<not> equal_fold (sha256_hex (message_body tb (br_message_id r))) (ms_body_sha256 m)
                     then Inl StoreCorrupt else Inr data)
              else Inr (take (br_length r) (drop (br_offset r) (ms_content m))))
             (\<lambda>data.
                if length data \<noteq> br_length r then Inl StoreCorrupt
                else Inr \<lparr>bp_message_id = br_message_id r, bp_offset = br_offset r, bp_bytes = data,
                          bp_total_length = ms_body_length m, bp_sha256 = ms_body_sha256 m,
                          bp_complete = (br_offset r + br_length r = ms_body_length m)\<rparr>))))"

subsection \<open>A range of the body\<close>

lemma chunk_slice_eq: "chunk_slice off len cursor c = drop (off - cursor) (take (off + len - cursor) c)"
  by (auto simp: chunk_slice_def Let_def drop_take min_def simp flip: length_greater_0_conv)

lemma slice_append:
  "drop a (take b (x @ y)) = drop a (take b x) @ drop (a - length x) (take (b - length x) y)"
  by (cases "b \<le> length x") simp_all

lemma collect_range_exact:
  "collect_range off len cursor cs = Inr (data, n) \<Longrightarrow>
   n = cursor + length (concat (map bc_bytes cs))
   \<and> data = drop (off - cursor) (take (off + len - cursor) (concat (map bc_bytes cs)))"
proof (induction cs arbitrary: cursor data n)
  case (Cons c cs)
  then obtain rest where rest: "collect_range off len (cursor + length (bc_bytes c)) cs = Inr (rest, n)"
      "data = chunk_slice off len cursor (bc_bytes c) @ rest"
    by (auto split: if_splits)
  from Cons.IH [OF rest(1)] rest(2) show ?case
    by (simp only: list.map concat.simps slice_append chunk_slice_eq diff_diff_left) simp
qed simp

lemma collect_range_ok:
  "\<forall>c \<in> set cs. equal_fold (sha256_hex (bc_bytes c)) (bc_sha256 c) \<Longrightarrow>
   \<exists>data n. collect_range off len cursor cs = Inr (data, n)"
proof (induction cs arbitrary: cursor)
  case (Cons c cs)
  then obtain data n where "collect_range off len (cursor + length (bc_bytes c)) cs = Inr (data, n)"
    by (metis list.set_intros(2))
  with Cons.prems show ?case by simp
qed simp

definition stored_body :: "review_tables \<Rightarrow> message_id \<Rightarrow> bytes" where
  "stored_body tb i =
     (if message_chunks tb i \<noteq> [] then message_body tb i
      else (case map_of (tb_messages tb) i of None \<Rightarrow> [] | Some m \<Rightarrow> ms_content m))"

lemma read_body_slice:
  assumes "read_message_body s r = Inr p"
  shows "bp_bytes p = take (br_length r) (drop (br_offset r) (stored_body (rv_tables s) (br_message_id r)))
    \<and> length (bp_bytes p) = br_length r
    \<and> bp_total_length p = br_expected_length r
    \<and> (bp_complete p \<longleftrightarrow> br_offset r + br_length r = br_expected_length r)"
proof -
  let ?tb = "rv_tables s" and ?i = "br_message_id r"
  obtain m where m: "map_of (tb_messages ?tb) ?i = Some m" "ms_body_length m = br_expected_length r"
    and data: "(if message_chunks ?tb ?i \<noteq> [] then
        (\<exists>n. collect_range (br_offset r) (br_length r) 0 (message_chunks ?tb ?i) = Inr (bp_bytes p, n))
      else bp_bytes p = take (br_length r) (drop (br_offset r) (ms_content m)))"
    and len: "length (bp_bytes p) = br_length r" "bp_total_length p = ms_body_length m"
      "bp_complete p = (br_offset r + br_length r = ms_body_length m)"
    using assms by (auto simp: read_message_body_def Let_def split: if_splits)
  show ?thesis
  proof (cases "message_chunks ?tb ?i = []")
    case True
    then show ?thesis using m data len by (simp add: stored_body_def)
  next
    case False
    then obtain n where "collect_range (br_offset r) (br_length r) 0 (message_chunks ?tb ?i) = Inr (bp_bytes p, n)"
      using data by auto
    from collect_range_exact [OF this] False m len show ?thesis
      by (simp add: stored_body_def message_body_def drop_take)
  qed
qed

text \<open>
  C20. A range that is read is exactly that part of the body, whatever the chunks it was stored in:
  the bytes from the offset on, as many as asked for, and marked complete exactly when the range
  reaches the end.
\<close>

theorem read_body_exact:
  assumes "read_message_body s r = Inr p"
  shows "bp_bytes p = take (br_length r) (drop (br_offset r) (stored_body (rv_tables s) (br_message_id r)))
    \<and> length (bp_bytes p) = br_length r
    \<and> bp_total_length p = br_expected_length r
    \<and> (bp_complete p \<longleftrightarrow> br_offset r + br_length r = br_expected_length r)"
  using assms by (rule read_body_slice)

subsection \<open>Appending\<close>

lemma insort_key_snoc:
  "f a < f x \<Longrightarrow> insort_key f a (ys @ [x]) = insort_key f a ys @ [x]"
  by (induction ys) auto

lemma sort_key_snoc:
  assumes "\<forall>y \<in> set xs. f y < f x"
  shows "sort_key f (xs @ [x]) = sort_key f xs @ [x]"
proof -
  have "foldr (insort_key f) xs (ys @ [x]) = foldr (insort_key f) xs ys @ [x]" for ys
    using assms by (induction xs) (auto simp: insort_key_snoc)
  from this [of "[]"] show ?thesis by (simp add: sort_key_def)
qed

lemma highest_ordinal_ge: "(n, c) \<in> set (numbered_chunks tb i) \<Longrightarrow> n \<le> highest_ordinal tb i"
proof -
  have "x \<in> set ns \<Longrightarrow> x \<le> foldr max ns 0" for x and ns :: "nat list"
    by (induction ns) auto
  then show "(n, c) \<in> set (numbered_chunks tb i) \<Longrightarrow> n \<le> highest_ordinal tb i"
    by (force simp: highest_ordinal_def)
qed

lemma numbered_chunks_insert:
  assumes "highest_ordinal tb i < n"
  shows "numbered_chunks (tb\<lparr>tb_chunks := tb_chunks tb @ [((i, n), c)]\<rparr>) i = numbered_chunks tb i @ [(n, c)]"
proof -
  let ?xs = "map (\<lambda>((_, n), c). (n, c)) (filter (\<lambda>((j, _), _). j = i) (tb_chunks tb))"
  have "fst y < n" if "y \<in> set ?xs" for y
  proof -
    from that have "(fst y, snd y) \<in> set (numbered_chunks tb i)" by (simp add: numbered_chunks_def)
    from highest_ordinal_ge [OF this] assms show ?thesis by simp
  qed
  then show ?thesis using sort_key_snoc [of ?xs fst "(n, c)"] by (simp add: numbered_chunks_def)
qed

lemma numbered_chunks_other:
  "j \<noteq> i \<Longrightarrow> numbered_chunks (tb\<lparr>tb_chunks := tb_chunks tb @ [((i, n), c)]\<rparr>) j = numbered_chunks tb j"
  by (simp add: numbered_chunks_def)


lemma message_owner_Inr:
  "message_owner tb i = Inr (owner, m) \<longleftrightarrow>
     map_of (tb_messages tb) i = Some m
     \<and> (\<exists>t. map_of (tb_threads tb) (ms_thread_id m) = Some t \<and> hr_session_id t = owner)"
  by (auto simp: message_owner_def)

lemma append_body_chunk_new:
  assumes "append_body_chunk sid c now tb = Inr tb'" "map_of (tb_chunks tb) (cw_message_id c, cw_ordinal c) = None"
  shows "chunk_write_valid c"
    "numbered_chunks tb' (cw_message_id c)
       = numbered_chunks tb (cw_message_id c) @ [(cw_ordinal c, \<lparr>bc_sha256 = cw_hash c, bc_bytes = cw_bytes c\<rparr>)]"
    "cw_ordinal c = highest_ordinal tb (cw_message_id c) + 1"
    "\<And>j. j \<noteq> cw_message_id c \<Longrightarrow> numbered_chunks tb' j = numbered_chunks tb j"
    "\<exists>m. map_of (tb_messages tb) (cw_message_id c) = Some m
       \<and> ms_body_length m + length (cw_bytes c) = cw_total_length c
       \<and> length (message_body tb' (cw_message_id c)) = cw_total_length c
       \<and> tb_messages tb' = update_row (cw_message_id c)
           (\<lambda>m. m\<lparr>ms_body_length := cw_total_length c,
                  ms_body_sha256 := sha256_hex (message_body tb' (cw_message_id c)), ms_updated_at := now\<rparr>)
           (tb_messages tb)"
    "equal_fold (sha256_hex (message_body tb' (cw_message_id c))) (cw_total_sha256 c)"
    "tb_identities tb' = tb_identities tb" "tb_threads tb' = tb_threads tb" "tb_anchors tb' = tb_anchors tb"
    "tb_sessions tb' = tb_sessions tb"
proof -
  let ?i = "cw_message_id c" and ?row = "\<lparr>bc_sha256 = cw_hash c, bc_bytes = cw_bytes c\<rparr>"
  define mid where "mid = tb\<lparr>tb_chunks := tb_chunks tb @ [((?i, cw_ordinal c), ?row)]\<rparr>"
  obtain m where m: "chunk_write_valid c" "map_of (tb_messages tb) ?i = Some m"
      "ms_body_length m + length (cw_bytes c) = cw_total_length c"
      "highest_ordinal tb ?i + 1 = cw_ordinal c"
      "length (message_body mid ?i) = cw_total_length c"
      "equal_fold (sha256_hex (message_body mid ?i)) (cw_total_sha256 c)"
      "tb' = mid\<lparr>tb_messages := update_row ?i
           (\<lambda>m. m\<lparr>ms_body_length := cw_total_length c, ms_body_sha256 := sha256_hex (message_body mid ?i),
                  ms_updated_at := now\<rparr>) (tb_messages tb)\<rparr>"
    using assms
    by (auto simp: append_body_chunk_def message_owner_Inr insert_row_Inr message_body_digest_def Let_def mid_def
        split: if_splits)
  have same: "numbered_chunks tb' j = numbered_chunks mid j" for j
    by (simp add: m(7) numbered_chunks_def)
  then have body: "message_body tb' ?i = message_body mid ?i"
    by (simp add: message_body_def message_chunks_def)
  show "chunk_write_valid c" by (rule m(1))
  show "numbered_chunks tb' ?i = numbered_chunks tb ?i @ [(cw_ordinal c, ?row)]"
    using m(4) unfolding same mid_def by (intro numbered_chunks_insert) simp
  show "cw_ordinal c = highest_ordinal tb ?i + 1" using m(4) by simp
  show "numbered_chunks tb' j = numbered_chunks tb j" if "j \<noteq> ?i" for j
    using that unfolding same mid_def by (rule numbered_chunks_other)
  show "\<exists>m. map_of (tb_messages tb) ?i = Some m \<and> ms_body_length m + length (cw_bytes c) = cw_total_length c
       \<and> length (message_body tb' ?i) = cw_total_length c
       \<and> tb_messages tb' = update_row ?i
           (\<lambda>m. m\<lparr>ms_body_length := cw_total_length c,
                  ms_body_sha256 := sha256_hex (message_body tb' ?i), ms_updated_at := now\<rparr>)
           (tb_messages tb)"
    using m(2,3,5,7) unfolding body by simp
  show "equal_fold (sha256_hex (message_body tb' ?i)) (cw_total_sha256 c)" using m(6) body by simp
  show "tb_identities tb' = tb_identities tb" "tb_threads tb' = tb_threads tb" "tb_anchors tb' = tb_anchors tb"
    "tb_sessions tb' = tb_sessions tb"
    by (simp_all add: m(7) mid_def)
qed

lemma append_body_chunk_old:
  "append_body_chunk sid c now tb = Inr tb' \<Longrightarrow>
   map_of (tb_chunks tb) (cw_message_id c, cw_ordinal c) = Some old \<Longrightarrow> tb' = tb"
  by (auto simp: append_body_chunk_def split: if_splits)

text \<open>What makes a stored body readable.\<close>

definition body_consistent :: "review_tables \<Rightarrow> message_id \<Rightarrow> bool" where
  "body_consistent tb i \<longleftrightarrow>
     (\<forall>c \<in> set (message_chunks tb i). equal_fold (sha256_hex (bc_bytes c)) (bc_sha256 c))
     \<and> (\<exists>m. map_of (tb_messages tb) i = Some m \<and> ms_body_length m = length (stored_body tb i)
          \<and> equal_fold (ms_body_sha256 m) (sha256_hex (stored_body tb i)))"

lemma equal_fold_sym: "equal_fold a b \<Longrightarrow> equal_fold b a"
  by (simp add: equal_fold_def)

lemma equal_fold_trans: "equal_fold a b \<Longrightarrow> equal_fold b c \<Longrightarrow> equal_fold a c"
  by (simp add: equal_fold_def)

lemma append_keeps_consistent:
  assumes "append_body_chunk sid c now tb = Inr tb'" "body_consistent tb i"
  shows "body_consistent tb' i"
proof (cases "map_of (tb_chunks tb) (cw_message_id c, cw_ordinal c)")
  case (Some old)
  with append_body_chunk_old [OF assms(1)] assms(2) show ?thesis by simp
next
  case None
  note new = append_body_chunk_new [OF assms(1) None]
  show ?thesis
  proof (cases "i = cw_message_id c")
    case True
    have chunks: "message_chunks tb' i = message_chunks tb i @ [\<lparr>bc_sha256 = cw_hash c, bc_bytes = cw_bytes c\<rparr>]"
      using new(2) True by (simp add: message_chunks_def)
    then have "stored_body tb' i = message_body tb' i" by (simp add: stored_body_def)
    moreover have "equal_fold (sha256_hex (cw_bytes c)) (cw_hash c)"
      using new(1) by (simp add: chunk_write_valid_def)
    ultimately show ?thesis
      using new(5) assms(2) True chunks by (auto simp: body_consistent_def equal_fold_def)
  next
    case False
    then have "message_chunks tb' i = message_chunks tb i" using new(4) by (simp add: message_chunks_def)
    moreover have "map_of (tb_messages tb') i = map_of (tb_messages tb) i" using new(5) False by auto
    ultimately have "stored_body tb' i = stored_body tb i" "message_chunks tb' i = message_chunks tb i"
        "map_of (tb_messages tb') i = map_of (tb_messages tb) i"
      by (simp_all add: stored_body_def message_body_def)
    then show ?thesis using assms(2) by (simp add: body_consistent_def)
  qed
qed

lemma finalize_body_Inr:
  assumes "finalize_body sid ident tb = Inr tb'"
  shows "body_identity_valid ident" "map_of (tb_identities tb) (bi_message_id ident) = None"
    "map_of (tb_identities tb') (bi_message_id ident) = Some ident"
    "tb_chunks tb' = tb_chunks tb" "length (message_chunks tb (bi_message_id ident)) = bi_chunk_count ident"
    "length (message_body tb (bi_message_id ident)) = bi_byte_length ident"
    "equal_fold (sha256_hex (message_body tb (bi_message_id ident))) (bi_sha256 ident)"
    "tb_threads tb' = tb_threads tb" "tb_anchors tb' = tb_anchors tb" "tb_sessions tb' = tb_sessions tb"
    "tb_messages tb' = update_row (bi_message_id ident)
       (\<lambda>m. m\<lparr>ms_status := bi_terminal_status ident, ms_body_length := bi_byte_length ident,
              ms_body_sha256 := bi_sha256 ident, ms_failure_phase := bi_failure_phase ident,
              ms_error_code := bi_error_code ident, ms_updated_at := bi_completed_at ident,
              ms_completed_at := Some (bi_completed_at ident)\<rparr>) (tb_messages tb)"
    "map_of (tb_messages tb) (bi_message_id ident) \<noteq> None"
  using assms
  by (auto simp: finalize_body_def message_owner_Inr message_body_digest_def insert_row_Inr Let_def split: if_splits)

lemma chunks_eq: "tb_chunks tb' = tb_chunks tb \<Longrightarrow> message_chunks tb' i = message_chunks tb i"
  by (simp add: message_chunks_def numbered_chunks_def)

lemma finalize_keeps_consistent:
  assumes "finalize_body sid ident tb = Inr tb'" "body_consistent tb i"
    "message_chunks tb i = [] \<Longrightarrow> stored_body tb i = []"
  shows "body_consistent tb' i"
proof -
  note f = finalize_body_Inr [OF assms(1)]
  have chunks: "message_chunks tb' j = message_chunks tb j" for j using f(4) by (rule chunks_eq)
  have body: "stored_body tb' i = stored_body tb i"
    unfolding stored_body_def message_body_def chunks by (simp add: f(11) split: option.split)
  show ?thesis
  proof (cases "i = bi_message_id ident")
    case True
    have "stored_body tb i = message_body tb i"
      using assms(3) by (cases "message_chunks tb i = []") (simp_all add: stored_body_def message_body_def)
    then show ?thesis
      using assms(2) f(6,7,11,12) True unfolding body_consistent_def chunks body
      by (auto intro: equal_fold_sym)
  next
    case False
    then show ?thesis using assms(2) f(11) unfolding body_consistent_def chunks body by simp
  qed
qed

text \<open>A consistent body can be read, at any range and whatever the case of the digest given.\<close>

lemma read_consistent:
  assumes "body_consistent (rv_tables s) (br_message_id r)" "\<not> rv_closed s" "body_range_valid r"
    "valid_sha256 (br_expected_sha256 r)"
    "br_expected_length r = length (stored_body (rv_tables s) (br_message_id r))"
    "equal_fold (br_expected_sha256 r) (sha256_hex (stored_body (rv_tables s) (br_message_id r)))"
  shows "\<exists>p. read_message_body s r = Inr p"
proof -
  let ?tb = "rv_tables s" and ?i = "br_message_id r"
  obtain m where m: "map_of (tb_messages ?tb) ?i = Some m" "ms_body_length m = length (stored_body ?tb ?i)"
      "equal_fold (ms_body_sha256 m) (sha256_hex (stored_body ?tb ?i))"
    using assms(1) by (auto simp: body_consistent_def)
  have same: "equal_fold (ms_body_sha256 m) (br_expected_sha256 r)"
    using m(3) assms(6) by (simp add: equal_fold_def)
  have fits: "br_offset r + br_length r \<le> length (stored_body ?tb ?i)"
    using assms(3,5) by (auto simp: body_range_valid_def)
  show ?thesis
  proof (cases "message_chunks ?tb ?i = []")
    case True
    then show ?thesis
      using assms(2-5) m same fits by (simp add: read_message_body_def Let_def stored_body_def)
  next
    case False
    then have body: "stored_body ?tb ?i = message_body ?tb ?i" by (simp add: stored_body_def)
    obtain data n where got: "collect_range (br_offset r) (br_length r) 0 (message_chunks ?tb ?i) = Inr (data, n)"
      using collect_range_ok assms(1) by (metis body_consistent_def)
    from collect_range_exact [OF got]
    have "n = length (message_body ?tb ?i)" "length data = br_length r"
      using fits by (simp_all add: message_body_def body)
    then show ?thesis
      using assms(2-5) m same False got body
      by (simp add: read_message_body_def Let_def equal_fold_def)
  qed
qed

subsection \<open>Two surprises\<close>

text \<open>
  The test of the total length comes before the test for an accepted chunk: the same write again is
  refused as invalid, not recognised.
\<close>

lemma chunk_replay_refused:
  assumes "append_body_chunk sid c now tb = Inr tb'" "map_of (tb_chunks tb) (cw_message_id c, cw_ordinal c) = None"
  shows "append_body_chunk sid c later tb' = Inl StoreInput"
proof -
  note new = append_body_chunk_new [OF assms]
  obtain m where "map_of (tb_messages tb') (cw_message_id c) = Some m" "ms_body_length m = cw_total_length c"
    using new(5) by auto
  moreover have "cw_bytes c \<noteq> []" using new(1) by (simp add: chunk_write_valid_def)
  moreover have "\<exists>owner m'. message_owner tb (cw_message_id c) = Inr (owner, m')"
    using assms by (auto simp: append_body_chunk_def split: if_splits)
  ultimately show ?thesis
    using new(1,5,8) by (auto simp: append_body_chunk_def message_owner_def select_row_def bind_result_def split: option.splits)
qed

text \<open>
  Appending looks neither at the identity nor at the status of the message: a finished body still
  grows, and its identity then no longer describes it.
\<close>

lemma append_ignores_identity:
  "append_body_chunk sid c now (tb\<lparr>tb_identities := x\<rparr>)
   = map_sum id (\<lambda>tb. tb\<lparr>tb_identities := x\<rparr>) (append_body_chunk sid c now tb)"
proof -
  have chunks: "numbered_chunks (u\<lparr>tb_identities := x\<rparr>) = numbered_chunks u" for u
    by (simp add: numbered_chunks_def fun_eq_iff)
  have "message_body_digest (u\<lparr>tb_identities := x\<rparr>) = message_body_digest u"
      "highest_ordinal (u\<lparr>tb_identities := x\<rparr>) = highest_ordinal u"
      "message_owner (u\<lparr>tb_identities := x\<rparr>) = message_owner u" for u
    by (simp_all add: message_body_digest_def message_body_def message_chunks_def highest_ordinal_def chunks
        message_owner_def fun_eq_iff)
  note same = this
  have swap: "message_body_digest (tb\<lparr>tb_identities := x, tb_chunks := y\<rparr>)
      = message_body_digest (tb\<lparr>tb_chunks := y\<rparr>)" for y
    by (simp add: message_body_digest_def message_body_def message_chunks_def numbered_chunks_def fun_eq_iff)
  show ?thesis
    unfolding append_body_chunk_def same
    by (auto simp: bind_result_def insert_row_def Let_def swap split: sum.split option.split)
qed

lemma finished_body_grows:
  assumes "append_body_chunk sid c now tb = Inr tb'" "map_of (tb_chunks tb) (cw_message_id c, cw_ordinal c) = None"
    "map_of (tb_identities tb) (cw_message_id c) = Some ident"
    "bi_byte_length ident = length (message_body tb (cw_message_id c))"
  shows "map_of (tb_identities tb') (cw_message_id c) = Some ident
    \<and> bi_byte_length ident < length (message_body tb' (cw_message_id c))"
proof -
  note new = append_body_chunk_new [OF assms(1,2)]
  have "cw_bytes c \<noteq> []" using new(1) by (simp add: chunk_write_valid_def)
  then show ?thesis using new(2,7) assms(3,4) by (simp add: message_body_def message_chunks_def)
qed

definition sample_store :: review_store where
  "sample_store =
     \<lparr>rv_tables = empty_tables
        \<lparr>tb_sessions := [(''s'',
           \<lparr>sw_repository_id = ''r'', sw_worktree_id = Some ''w'', sw_target_kind = TargetLocal,
            sw_key_hash = ''k'', sw_session = sample_session, sw_generation = 1,
            sw_active_operation = None, sw_revision = 4, sw_writer_epoch = 2, sw_writer_lease = ''l'',
            sw_created_at = 1, sw_updated_at = 2, sw_closed_at = None\<rparr>)],
         tb_messages := [(''m'',
           \<lparr>ms_thread_id = ''t'', ms_role = RoleUser, ms_content = ''hello'', ms_provider_id = [],
            ms_status = MessageCompleted, ms_ordinal = 1, ms_body_length = 5,
            ms_body_sha256 = sha256_hex ''hello'', ms_failure_phase = [],
            ms_error_code = [], ms_created_at = 1, ms_updated_at = 1, ms_completed_at = Some 1\<rparr>)]\<rparr>,
      rv_closed = False, rv_max_message_bytes = 100\<rparr>"

lemma read_body_exact_witness:
  "read_message_body sample_store
     \<lparr>br_message_id = ''m'', br_expected_length = 5, br_expected_sha256 = sha256_hex ''hello'',
      br_offset = 1, br_length = 3\<rparr>
   = Inr \<lparr>bp_message_id = ''m'', bp_offset = 1, bp_bytes = ''ell'', bp_total_length = 5,
          bp_sha256 = sha256_hex ''hello'', bp_complete = False\<rparr>
   \<and> ''ell'' = take 3 (drop 1 (stored_body (rv_tables sample_store) ''m''))"
proof -
  let ?r = "\<lparr>br_message_id = ''m'', br_expected_length = 5, br_expected_sha256 = sha256_hex ''hello'',
      br_offset = 1, br_length = 3\<rparr>"
  let ?p = "\<lparr>bp_message_id = ''m'', bp_offset = 1, bp_bytes = ''ell'', bp_total_length = 5,
          bp_sha256 = sha256_hex ''hello'', bp_complete = False\<rparr>"
  have "read_message_body sample_store ?r = Inr ?p"
    by (simp add: read_message_body_def sample_store_def empty_tables_def body_range_valid_def select_row_def
        message_chunks_def numbered_chunks_def sha256_hex_length MaxMessageBodyRange_def equal_fold_def)
  with read_body_exact [of sample_store ?r ?p] show ?thesis by simp
qed

end
