(* ===== verification/Session_Fence.thy ===== *)
theory Session_Fence
  imports Message_Bodies
begin

text \<open>
  The writer fence over whole runs of the store. A transaction may do any sequence of writes; a run
  interleaves transactions of any guards with the creation and the claiming of sessions.
\<close>

subsection \<open>Runs\<close>

inductive tx_write :: "review_session_id \<Rightarrow> nat \<Rightarrow> review_tables \<Rightarrow> review_tables \<Rightarrow> bool" for sid maximum where
  write_session: "save_session sid session tb = Inr tb' \<Longrightarrow> tx_write sid maximum tb tb'"
| write_thread: "save_thread sid t tb = Inr tb' \<Longrightarrow> tx_write sid maximum tb tb'"
| write_message: "save_message sid maximum m tb = Inr tb' \<Longrightarrow> tx_write sid maximum tb tb'"
| write_anchor: "append_anchor_version sid w tb = Inr (tb', v) \<Longrightarrow> tx_write sid maximum tb tb'"
| write_chunk: "append_body_chunk sid c now tb = Inr tb' \<Longrightarrow> tx_write sid maximum tb tb'"
| write_identity: "finalize_body sid i tb = Inr tb' \<Longrightarrow> tx_write sid maximum tb tb'"

definition session_body ::
    "session_write_guard \<Rightarrow> review_store \<Rightarrow> (review_tables \<Rightarrow> (store_error, review_tables) result) \<Rightarrow> bool" where
  "session_body g s body \<longleftrightarrow>
     (\<forall>tb tb'. body tb = Inr tb' \<longrightarrow> (tx_write (sg_session_id g) (rv_max_message_bytes s))\<^sup>*\<^sup>* tb tb')"

inductive store_step :: "review_store \<Rightarrow> review_store \<Rightarrow> bool" where
  step_repository: "upsert_repository env repo w s = (s', r) \<Longrightarrow> store_step s s'"
| step_create: "create_session env session lease s = (s', r) \<Longrightarrow> store_step s s'"
| step_claim: "claim_session_writer env i lease s = (s', r) \<Longrightarrow> store_step s s'"
| step_commit: "session_body g s body \<Longrightarrow> with_session_tx env g body s = (s', r) \<Longrightarrow> store_step s s'"
| step_close: "store_step s (s\<lparr>rv_closed := True\<rparr>)"

subsection \<open>The fence only moves forward\<close>

definition session_fence :: "review_tables \<Rightarrow> review_session_id \<Rightarrow> (nat \<times> bytes \<times> nat) option" where
  "session_fence tb i =
     map_option (\<lambda>r. (sw_writer_epoch r, sw_writer_lease r, sw_revision r)) (map_of (tb_sessions tb) i)"

fun fence_le :: "nat \<times> bytes \<times> nat \<Rightarrow> nat \<times> bytes \<times> nat \<Rightarrow> bool" where
  "fence_le (e, l, n) (e', l', n') \<longleftrightarrow>
     (e', l', n') = (e, l, n) \<or> n < n' \<and> e \<le> e' \<and> (e' = e \<longrightarrow> l' = l)"

lemma fence_le_refl [simp]: "fence_le f f"
  by (cases f) simp

lemma fence_le_trans: "fence_le f g \<Longrightarrow> fence_le g h \<Longrightarrow> fence_le f h"
  by (cases f; cases g; cases h) auto

lemma save_session_fence:
  "save_session sid x tb = Inr tb' \<Longrightarrow> session_fence tb' i = session_fence tb i"
  by (auto simp: save_session_def session_fence_def option.map_comp comp_def insert_row_Inr
      split: if_splits sum.splits)

lemma same_sessions_fence: "tb_sessions tb' = tb_sessions tb \<Longrightarrow> session_fence tb' i = session_fence tb i"
  by (simp add: session_fence_def)

lemma save_thread_sessions: "save_thread sid t tb = Inr tb' \<Longrightarrow> tb_sessions tb' = tb_sessions tb"
  by (auto simp: save_thread_def insert_row_Inr Let_def split: if_splits option.splits)

lemma append_version_sessions:
  "append_anchor_version sid w tb = Inr (tb', v) \<Longrightarrow> tb_sessions tb' = tb_sessions tb"
  by (auto simp: append_anchor_version_def insert_row_Inr Let_def split: if_splits option.splits)

lemma append_chunk_sessions: "append_body_chunk sid c now tb = Inr tb' \<Longrightarrow> tb_sessions tb' = tb_sessions tb"
  using append_body_chunk_old [of sid c now tb tb'] append_body_chunk_new(10) [of sid c now tb tb']
  by (cases "map_of (tb_chunks tb) (cw_message_id c, cw_ordinal c)") simp_all

lemma tx_write_fence: "tx_write sid maximum tb tb' \<Longrightarrow> session_fence tb' i = session_fence tb i"
proof (induction rule: tx_write.induct)
  case (write_session x tb tb')
  then show ?case by (rule save_session_fence)
next
  case (write_message m tb tb')
  then show ?case using save_message_tables by (intro same_sessions_fence) blast
next
  case (write_identity x tb tb')
  then show ?case by (intro same_sessions_fence) (rule finalize_body_Inr(10))
qed (auto intro: same_sessions_fence dest: save_thread_sessions append_version_sessions append_chunk_sessions)

lemma tx_run_fence: "(tx_write sid maximum)\<^sup>*\<^sup>* tb tb' \<Longrightarrow> session_fence tb' i = session_fence tb i"
  by (induction rule: rtranclp_induct) (simp_all add: tx_write_fence)

lemma verify_guard_ok:
  "verify_guard tb g = Inr () \<longleftrightarrow>
     (\<exists>r. map_of (tb_sessions tb) (sg_session_id g) = Some r \<and> sw_closed_at r = None)
     \<and> session_fence tb (sg_session_id g) = Some (sg_writer_epoch g, sg_lease_id g, sg_expected_revision g)"
  by (cases "map_of (tb_sessions tb) (sg_session_id g)")
    (auto simp: verify_guard_def session_fence_def select_row_def split: if_splits)

lemma guard_matches_fence:
  "guard_matches tb g \<longleftrightarrow>
     session_fence tb (sg_session_id g) = Some (sg_writer_epoch g, sg_lease_id g, sg_expected_revision g)"
  by (auto simp: guard_matches_def session_fence_def split: option.splits)

lemma bump_revision_fence:
  "session_fence (bump_revision i tb) j =
     (if j = i then map_option (\<lambda>(e, l, n). (e, l, n + 1)) (session_fence tb i) else session_fence tb j)"
  by (simp add: bump_revision_def session_fence_def option.map_comp comp_def)

lemma with_session_tx_Inr:
  "with_session_tx env g body s = (s', Inr g') \<longleftrightarrow>
     \<not> rv_closed s \<and> guard_valid g \<and> te_begin env = None \<and> te_commit env = None
     \<and> verify_guard (rv_tables s) g = Inr ()
     \<and> (\<exists>tb. body (rv_tables s) = Inr tb \<and> guard_matches tb g \<and> g' = next_guard g
          \<and> s' = s\<lparr>rv_tables := bump_revision (sg_session_id g) tb\<rparr>)"
  by (auto simp: with_session_tx_def in_tx_Inr fenced_body_def)

lemma with_session_tx_Inl: "with_session_tx env g body s = (s', Inl e) \<Longrightarrow> s' = s"
  by (auto simp: with_session_tx_def dest: in_tx_Inl split: if_splits)

lemma claim_Inr:
  assumes "claim_session_writer env i lease s = (s', Inr g)"
  shows "\<exists>e l n. session_fence (rv_tables s) i = Some (e, l, n)
    \<and> session_fence (rv_tables s') i = Some (e + 1, lease, n + 1)
    \<and> g = \<lparr>sg_session_id = i, sg_lease_id = lease, sg_writer_epoch = e + 1, sg_expected_revision = n + 1\<rparr>
    \<and> (\<forall>j. j \<noteq> i \<longrightarrow> session_fence (rv_tables s') j = session_fence (rv_tables s) j)"
  using assms
  by (auto simp: claim_session_writer_def in_tx_Inr session_fence_def split: if_splits)

lemma create_fence:
  assumes "create_session env session lease s = (s', Inr g)"
  shows "session_fence (rv_tables s) (se_id session) = None"
    "j \<noteq> se_id session \<Longrightarrow> session_fence (rv_tables s') j = session_fence (rv_tables s) j"
    "session_fence (rv_tables s') (se_id session) = Some (1, lease, 1)"
proof -
  obtain key tb where tb: "create_session_tx session key lease (rv_tables s) = Inr (tb, g)" "rv_tables s' = tb"
    using assms by (auto simp: create_session_def in_tx_Inr split: if_splits sum.splits)
  from tb(1) have "map_of (tb_sessions (rv_tables s)) (se_id session) = None
      \<and> tb_sessions tb = tb_sessions (rv_tables s) @ [(se_id session, session_row_of session key lease)]"
    by (auto simp: create_session_tx_def insert_row_Inr split: if_splits)
  then have none: "map_of (tb_sessions (rv_tables s)) (se_id session) = None"
    and new: "tb_sessions tb = tb_sessions (rv_tables s) @ [(se_id session, session_row_of session key lease)]"
    by blast+
  show "session_fence (rv_tables s) (se_id session) = None" using none by (simp add: session_fence_def)
  show "session_fence (rv_tables s') j = session_fence (rv_tables s) j" if "j \<noteq> se_id session"
    using that by (simp add: session_fence_def tb(2) new split: option.split)
  show "session_fence (rv_tables s') (se_id session) = Some (1, lease, 1)"
    using none by (simp add: session_fence_def tb(2) new session_row_of_def)
qed

lemma upsert_sessions:
  "upsert_repository env repo w s = (s', r) \<Longrightarrow> tb_sessions (rv_tables s') = tb_sessions (rv_tables s)"
  by (cases r) (auto simp: upsert_repository_def in_tx_Inr dest: in_tx_Inl split: if_splits)

lemma store_step_fence:
  assumes "store_step s s'" "session_fence (rv_tables s) i = Some f"
  shows "\<exists>f'. session_fence (rv_tables s') i = Some f' \<and> fence_le f f'"
  using assms
proof (induction rule: store_step.induct)
  case (step_repository env repo w s s' r)
  then have "session_fence (rv_tables s') i = session_fence (rv_tables s) i"
    by (intro same_sessions_fence) (rule upsert_sessions)
  then show ?case using step_repository.prems by simp
next
  case (step_create env session lease s s' r)
  show ?case
  proof (cases r)
    case (Inl e)
    then have "s' = s" using step_create(1)
      by (auto simp: create_session_def dest: in_tx_Inl split: if_splits sum.splits)
    then show ?thesis using step_create by simp
  next
    case (Inr g)
    note created = create_fence [OF step_create(1) [unfolded Inr]]
    have "i \<noteq> se_id session" using created(1) step_create(2) by auto
    then show ?thesis using created(2) [of i] step_create(2) by simp
  qed
next
  case (step_claim env j lease s s' r)
  show ?case
  proof (cases r)
    case (Inl e)
    then have "s' = s" using step_claim(1)
      by (auto simp: claim_session_writer_def dest: in_tx_Inl split: if_splits)
    then show ?thesis using step_claim by simp
  next
    case (Inr g)
    from claim_Inr [OF step_claim(1) [unfolded Inr]] obtain e l n where
      "session_fence (rv_tables s) j = Some (e, l, n)"
      "session_fence (rv_tables s') j = Some (e + 1, lease, n + 1)"
      "\<forall>k. k \<noteq> j \<longrightarrow> session_fence (rv_tables s') k = session_fence (rv_tables s) k" by blast
    then show ?thesis using step_claim(2) by (cases "i = j") auto
  qed
next
  case (step_commit g s body env s' r)
  show ?case
  proof (cases r)
    case (Inl e)
    then have "s' = s" using step_commit(2) with_session_tx_Inl by blast
    then show ?thesis using step_commit.prems by simp
  next
    case (Inr g')
    then obtain tb where tb: "body (rv_tables s) = Inr tb" "s' = s\<lparr>rv_tables := bump_revision (sg_session_id g) tb\<rparr>"
      using step_commit(2) by (auto simp: with_session_tx_Inr)
    have "(tx_write (sg_session_id g) (rv_max_message_bytes s))\<^sup>*\<^sup>* (rv_tables s) tb"
      using step_commit(1) tb(1) by (simp add: session_body_def)
    then have "session_fence tb j = session_fence (rv_tables s) j" for j by (rule tx_run_fence)
    then show ?thesis using step_commit.prems tb(2) by (cases f) (auto simp: bump_revision_fence)
  qed
next
  case (step_close s)
  then show ?case by simp
qed

lemma store_run_fence:
  "store_step\<^sup>*\<^sup>* s s' \<Longrightarrow> session_fence (rv_tables s) i = Some f \<Longrightarrow>
   \<exists>f'. session_fence (rv_tables s') i = Some f' \<and> fence_le f f'"
proof (induction rule: rtranclp_induct)
  case (step y z)
  then obtain g where g: "session_fence (rv_tables y) i = Some g" "fence_le f g" by blast
  from store_step_fence [OF step(2) g(1)] fence_le_trans [OF g(2)] show ?case by blast
qed auto

lemma old_fence_refused:
  assumes "session_fence (rv_tables s) (sg_session_id g) = Some (e, l, n)"
    "sg_expected_revision g < n \<or> sg_writer_epoch g < e"
  shows "\<exists>err. with_session_tx env g body s = (s, Inl err)"
proof (cases "with_session_tx env g body s")
  case (Pair s' r)
  have "\<not> verify_guard (rv_tables s) g = Inr ()" using assms by (auto simp: verify_guard_ok)
  then have "\<nexists>g'. r = Inr g'" using Pair by (auto simp: with_session_tx_Inr)
  then obtain err where "r = Inl err" by (cases r) auto
  then show ?thesis using Pair with_session_tx_Inl by fastforce
qed

text \<open>
  C8. The writer fence of the store: whatever happens afterwards, in any order and by any writers, a
  guard under which a transaction was committed never commits again, and once a session has been
  claimed no guard that was current before commits any more; a refused transaction changes nothing.
\<close>

theorem writer_fence:
  assumes "store_step\<^sup>*\<^sup>* s1 s2"
  shows "(with_session_tx env g body s = (s1, Inr g') \<and> session_body g s body \<longrightarrow>
      (\<exists>e. with_session_tx env2 g body2 s2 = (s2, Inl e)))
    \<and> (claim_session_writer env (sg_session_id g) lease s = (s1, Inr g') \<and> verify_guard (rv_tables s) g = Inr () \<longrightarrow>
      (\<exists>e. with_session_tx env2 g body2 s2 = (s2, Inl e)))"
proof (intro conjI impI; elim conjE)
  assume commit: "with_session_tx env g body s = (s1, Inr g')" "session_body g s body"
  then obtain tb where tb: "guard_matches tb g" "s1 = s\<lparr>rv_tables := bump_revision (sg_session_id g) tb\<rparr>"
    by (auto simp: with_session_tx_Inr)
  then have "session_fence (rv_tables s1) (sg_session_id g)
      = Some (sg_writer_epoch g, sg_lease_id g, sg_expected_revision g + 1)"
    by (simp add: bump_revision_fence guard_matches_fence)
  from store_run_fence [OF assms this] obtain e l n where
    "session_fence (rv_tables s2) (sg_session_id g) = Some (e, l, n)" "sg_expected_revision g < n"
    by auto
  then show "\<exists>e. with_session_tx env2 g body2 s2 = (s2, Inl e)" by (metis old_fence_refused)
next
  assume claim: "claim_session_writer env (sg_session_id g) lease s = (s1, Inr g')"
    "verify_guard (rv_tables s) g = Inr ()"
  from claim_Inr [OF claim(1)] claim(2) have "session_fence (rv_tables s1) (sg_session_id g)
      = Some (sg_writer_epoch g + 1, lease, sg_expected_revision g + 1)"
    by (auto simp: verify_guard_ok)
  from store_run_fence [OF assms this] obtain e l n where
    "session_fence (rv_tables s2) (sg_session_id g) = Some (e, l, n)" "sg_expected_revision g < n"
    by auto
  then show "\<exists>e. with_session_tx env2 g body2 s2 = (s2, Inl e)" by (metis old_fence_refused)
qed

lemma writer_fence_witness:
  "\<exists>s1 g' e. claim_session_writer \<lparr>te_begin = None, te_commit = None\<rparr> ''s'' ''new'' sample_store = (s1, Inr g')
     \<and> store_step\<^sup>*\<^sup>* s1 (s1\<lparr>rv_closed := True\<rparr>)
     \<and> with_session_tx \<lparr>te_begin = None, te_commit = None\<rparr>
         \<lparr>sg_session_id = ''s'', sg_lease_id = ''l'', sg_writer_epoch = 2, sg_expected_revision = 4\<rparr> Inr
         (s1\<lparr>rv_closed := True\<rparr>) = (s1\<lparr>rv_closed := True\<rparr>, Inl e)"
proof -
  let ?env = "\<lparr>te_begin = None, te_commit = None\<rparr>"
  let ?g = "\<lparr>sg_session_id = ''s'', sg_lease_id = ''l'', sg_writer_epoch = 2, sg_expected_revision = 4\<rparr>"
  have guard: "verify_guard (rv_tables sample_store) ?g = Inr ()"
    by (simp add: verify_guard_def sample_store_def select_row_def)
  have "is_ok (snd (claim_session_writer ?env ''s'' ''new'' sample_store))"
    by (simp add: claim_session_writer_def sample_store_def select_row_def in_tx_def)
  then obtain s1 g' where claim: "claim_session_writer ?env ''s'' ''new'' sample_store = (s1, Inr g')"
    by (cases "claim_session_writer ?env ''s'' ''new'' sample_store"; cases "snd (claim_session_writer ?env ''s'' ''new'' sample_store)")
      auto
  have run: "store_step\<^sup>*\<^sup>* s1 (s1\<lparr>rv_closed := True\<rparr>)" by (blast intro: step_close)
  then show ?thesis
    using writer_fence [OF run, of ?env ?g Inr sample_store g' ?env Inr "''new''"] claim guard by auto
qed

end
