(* ===== verification/Thread_Service.thy ===== *)
theory Thread_Service
  imports Paging Session_Fence
begin

text \<open>
  The use cases of review threads (\<^verbatim>\<open>internal/app/threads.go\<close>, \<^verbatim>\<open>messages.go\<close>): they read
  through the review store, build the new state with the domain's operations and commit it in one
  fenced transaction. What they need of the store is the locale \<open>thread_store\<close>, which the model
  of the SQLite store is shown to provide.
\<close>

subsection \<open>Comments\<close>

definition MaxCommentBytes :: nat where "MaxCommentBytes = 64 * 1024"
definition MaxAnchorSelectionBytes :: nat where "MaxAnchorSelectionBytes = 256 * 1024"

datatype thread_error =
    ThreadCommentEmpty | ThreadCommentTooLarge | ThreadCommentInvalid | ThreadAnchorInvalid
  | ThreadAnchorEvidenceTooLarge | ThreadNotOwned | ThreadIDCollision
  | ThreadStore store_error | ThreadDomain review_error

fun crlf_to_lf :: "bytes \<Rightarrow> bytes" where
  "crlf_to_lf [] = []"
| "crlf_to_lf [c] = [c]"
| "crlf_to_lf (c # d # cs) =
     (if c = CR \<and> d = LF then LF # crlf_to_lf cs else c # crlf_to_lf (d # cs))"

definition cr_to_lf :: "bytes \<Rightarrow> bytes" where
  "cr_to_lf s = map (\<lambda>c. if c = CR then LF else c) s"

definition blank_line :: "bytes \<Rightarrow> bool" where
  "blank_line l \<longleftrightarrow> trim_space l = []"

definition comment_rune_ok :: "nat \<Rightarrow> bool" where
  "comment_rune_ok r \<longleftrightarrow> r = 10 \<or> r = 9 \<or> \<not> (r < 32 \<or> r = 127 \<or> 128 \<le> r \<and> r \<le> 159)"

definition normalize_thread_comment :: "bytes \<Rightarrow> (thread_error, bytes) result" where
  "normalize_thread_comment v =
     (if \<not> utf8_valid v then Inl ThreadCommentInvalid
      else
        (let v = cr_to_lf (crlf_to_lf v) in
         if length v > MaxCommentBytes then Inl ThreadCommentTooLarge
         else
           (let kept = rev (dropWhile blank_line (rev (dropWhile blank_line (split_on LF v)))) in
            if kept = [] then Inl ThreadCommentEmpty
            else
              (let v = join_with [LF] kept in
               if list_all comment_rune_ok (runes v) then Inr v else Inl ThreadCommentInvalid))))"

text \<open>The title is the first line with text, cut to 120 runes.\<close>

definition text_of_chunks :: "(nat \<times> bytes) list \<Rightarrow> bytes" where
  "text_of_chunks chunks =
     concat (map (\<lambda>(r, b). if r = rune_error \<and> length b = 1
                           then [mk_byte 239, mk_byte 191, mk_byte 189] else b) chunks)"

definition derive_thread_title :: "bytes \<Rightarrow> bytes" where
  "derive_thread_title comment =
     (case find (\<lambda>l. l \<noteq> []) (map trim_space (split_on LF comment)) of
        None \<Rightarrow> []
      | Some line \<Rightarrow> text_of_chunks (take 120 (rune_chunks line)))"

definition validate_thread_anchor :: "code_anchor \<Rightarrow> (thread_error, unit) result" where
  "validate_thread_anchor a =
     (if \<not> code_anchor_valid a then Inl ThreadAnchorInvalid
      else if length (an_selected_text a) > MaxAnchorSelectionBytes then Inl ThreadAnchorEvidenceTooLarge
      else Inr ())"

subsection \<open>The use cases\<close>

text \<open>
  The readings a use case makes, in its order: the clock is read once, the identities are those the
  source gives next. A use case is a function of the store's operations.
\<close>

record thread_env =
  ev_now :: instant
  ev_first_id :: bytes
  ev_second_id :: bytes

record 's thread_port =
  tp_load :: "'s \<Rightarrow> review_thread_id \<Rightarrow> (store_error, review_thread) result"
  tp_next_ordinal :: "'s \<Rightarrow> review_thread_id \<Rightarrow> (store_error, nat) result"
  tp_commit :: "session_write_guard \<Rightarrow> review_thread \<Rightarrow> message option \<Rightarrow> 's
    \<Rightarrow> 's \<times> (store_error, session_write_guard) result"

definition lift_store :: "(store_error, 'a) result \<Rightarrow> (thread_error, 'a) result" where
  "lift_store = map_sum ThreadStore id"

definition lift_domain :: "(review_error, 'a) result \<Rightarrow> (thread_error, 'a) result" where
  "lift_domain = map_sum ThreadDomain id"

definition thread_head :: "correlation_id \<Rightarrow> review_thread \<Rightarrow> event_head" where
  "thread_head k t = \<lparr>eh_revision = 0, eh_operation_id = [], eh_correlation_id = k,
     eh_target_generation = an_target_generation (th_anchor t)\<rparr>"

definition new_thread_and_message_ids :: "thread_env \<Rightarrow> (thread_error, bytes \<times> bytes) result" where
  "new_thread_and_message_ids env =
     (if \<not> is_ok (new_id (ev_first_id env)) then Inl ThreadIDCollision
      else if \<not> is_ok (new_id (ev_second_id env)) \<or> ev_second_id env = ev_first_id env
      then Inl ThreadIDCollision
      else Inr (ev_first_id env, ev_second_id env))"

definition text_message ::
    "message_id \<Rightarrow> review_thread_id \<Rightarrow> nat \<Rightarrow> bytes \<Rightarrow> instant \<Rightarrow> (thread_error, message) result" where
  "text_message i thread ordinal content now =
     bind_result (lift_domain (new_pending_message i thread RoleUser ordinal now))
       (\<lambda>m. lift_domain (new_message (m\<lparr>msg_content := content\<rparr>)))"

definition commit_with ::
    "'s thread_port \<Rightarrow> session_write_guard \<Rightarrow> review_thread \<Rightarrow> message option \<Rightarrow> event list \<Rightarrow> 's
     \<Rightarrow> 's \<times> (thread_error, thread_commit) result" where
  "commit_with port g t m events s =
     (case tp_commit port g t m s of
        (s', Inl e) \<Rightarrow> (s', Inl (ThreadStore e))
      | (s', Inr g') \<Rightarrow> (s', Inr \<lparr>tm_guard = g', tm_thread = t, tm_message = m, tm_events = events\<rparr>))"

definition create_thread ::
    "'s thread_port \<Rightarrow> thread_env \<Rightarrow> session_write_guard \<Rightarrow> code_anchor \<Rightarrow> bytes \<Rightarrow> correlation_id \<Rightarrow> 's
     \<Rightarrow> 's \<times> (thread_error, thread_commit) result" where
  "create_thread port env g anchor comment k s =
     (if \<not> guard_valid g then (s, Inl (ThreadStore StoreInput))
      else
        (case bind_result (normalize_thread_comment comment) (\<lambda>text.
              bind_result (validate_thread_anchor anchor) (\<lambda>_.
              if is_zero_time (ev_now env) then Inl (ThreadStore StoreInput)
              else bind_result (new_thread_and_message_ids env) (\<lambda>(tid, mid).
              bind_result (lift_domain (new_open_review_thread tid (sg_session_id g) anchor (ev_now env))) (\<lambda>t.
              bind_result (text_message mid tid 1 text (ev_now env)) (\<lambda>m.
              bind_result (lift_domain (append_message_id (msg_id m) (ev_now env)
                  (Some (t\<lparr>th_title := derive_thread_title text\<rparr>)))) (\<lambda>t.
              Inr (t, m))))))) of
           Inl e \<Rightarrow> (s, Inl e)
         | Inr (t, m) \<Rightarrow>
             commit_with port g t (Some m)
               [ThreadCreated (thread_head k t) (th_session_id t) (th_id t) (msg_id m) (th_title t)
                  (an_path (th_anchor t))] s))"

definition activate_thread ::
    "'s thread_port \<Rightarrow> review_session_id \<Rightarrow> review_thread_id \<Rightarrow> correlation_id \<Rightarrow> session_write_guard \<Rightarrow> 's
     \<Rightarrow> 's \<times> (thread_error, thread_commit) result" where
  "activate_thread port sid tid k zero_guard s =
     (if sid = [] \<or> tid = [] then (s, Inl (ThreadStore StoreInput))
      else
        (case tp_load port s tid of
           Inl e \<Rightarrow> (s, Inl (ThreadStore e))
         | Inr t \<Rightarrow>
             if th_session_id t \<noteq> sid then (s, Inl ThreadNotOwned)
             else (s, Inr \<lparr>tm_guard = zero_guard, tm_thread = t, tm_message = None,
                           tm_events = [ThreadActivated (thread_head k t) (th_session_id t) (th_id t)]\<rparr>)))"

definition load_owned_thread ::
    "'s thread_port \<Rightarrow> review_session_id \<Rightarrow> review_thread_id \<Rightarrow> 's \<Rightarrow> (thread_error, review_thread) result" where
  "load_owned_thread port sid tid s =
     (if tid = [] then Inl (ThreadStore StoreInput)
      else bind_result (lift_store (tp_load port s tid))
        (\<lambda>t. if th_session_id t \<noteq> sid then Inl ThreadNotOwned else Inr t))"

definition resolve_review_thread ::
    "'s thread_port \<Rightarrow> thread_env \<Rightarrow> session_write_guard \<Rightarrow> review_thread_id \<Rightarrow> bool \<Rightarrow> correlation_id \<Rightarrow> 's
     \<Rightarrow> 's \<times> (thread_error, thread_commit) result" where
  "resolve_review_thread port env g tid resolved k s =
     (if \<not> guard_valid g then (s, Inl (ThreadStore StoreInput))
      else
        (case bind_result (load_owned_thread port (sg_session_id g) tid s) (\<lambda>t.
              lift_domain (if resolved then resolve_thread (ev_now env) (Some t)
                           else reopen_thread (ev_now env) (Some t))) of
           Inl e \<Rightarrow> (s, Inl e)
         | Inr t \<Rightarrow>
             commit_with port g t None
               [ThreadResolutionChanged (thread_head k t) (th_session_id t) (th_id t) resolved] s))"

definition mark_review_thread_read ::
    "'s thread_port \<Rightarrow> thread_env \<Rightarrow> session_write_guard \<Rightarrow> review_thread_id \<Rightarrow> correlation_id \<Rightarrow> 's
     \<Rightarrow> 's \<times> (thread_error, thread_commit) result" where
  "mark_review_thread_read port env g tid k s =
     (if \<not> guard_valid g then (s, Inl (ThreadStore StoreInput))
      else
        (case load_owned_thread port (sg_session_id g) tid s of
           Inl e \<Rightarrow> (s, Inl e)
         | Inr t \<Rightarrow>
             if th_read t = ThreadRead
             then (s, Inr \<lparr>tm_guard = g, tm_thread = t, tm_message = None, tm_events = []\<rparr>)
             else
               (case lift_domain (mark_read (ev_now env) (Some t)) of
                  Inl e \<Rightarrow> (s, Inl e)
                | Inr t \<Rightarrow>
                    commit_with port g t None
                      [ThreadReadChanged (thread_head k t) (th_session_id t) (th_id t) True] s)))"

definition reply_to_thread ::
    "'s thread_port \<Rightarrow> thread_env \<Rightarrow> session_write_guard \<Rightarrow> review_thread_id \<Rightarrow> bytes \<Rightarrow> correlation_id \<Rightarrow> 's
     \<Rightarrow> 's \<times> (thread_error, thread_commit) result" where
  "reply_to_thread port env g tid text k s =
     (if \<not> guard_valid g then (s, Inl (ThreadStore StoreInput))
      else
        (case bind_result (normalize_thread_comment text) (\<lambda>text.
              bind_result (load_owned_thread port (sg_session_id g) tid s) (\<lambda>t.
              bind_result (lift_store (tp_next_ordinal port s (th_id t))) (\<lambda>ordinal.
              if \<not> is_ok (new_id (ev_first_id env)) then Inl ThreadIDCollision
              else if is_zero_time (ev_now env) then Inl (ThreadStore StoreInput)
              else bind_result (text_message (ev_first_id env) (th_id t) ordinal text (ev_now env)) (\<lambda>m.
              bind_result (lift_domain (append_message_id (msg_id m) (ev_now env) (Some t))) (\<lambda>t.
              Inr (t, m)))))) of
           Inl e \<Rightarrow> (s, Inl e)
         | Inr (t, m) \<Rightarrow>
             commit_with port g t (Some m)
               [MessageAppended (thread_head k t) (th_session_id t) (th_id t) (msg_id m) (msg_role m)
                  (msg_status m)] s))"

text \<open>The commands of the reducer, each with its use case; the guard of an activation is unset.\<close>

fun run_thread_command ::
    "'s thread_port \<Rightarrow> thread_env \<Rightarrow> thread_command \<Rightarrow> 's \<Rightarrow> 's \<times> (thread_error, thread_commit) result" where
  "run_thread_command port env (CreateThread g anchor comment k) s = create_thread port env g anchor comment k s"
| "run_thread_command port env (ActivateThread sid tid k) s =
     activate_thread port sid tid k
       \<lparr>sg_session_id = [], sg_lease_id = [], sg_writer_epoch = 0, sg_expected_revision = 0\<rparr> s"
| "run_thread_command port env (ReplyToThread g tid text k) s = reply_to_thread port env g tid text k s"
| "run_thread_command port env (ResolveThread g tid resolved k) s =
     resolve_review_thread port env g tid resolved k s"
| "run_thread_command port env (MarkThreadRead g tid k) s = mark_review_thread_read port env g tid k s"

end
