(* ===== verification/Thread_Contract.thy ===== *)
theory Thread_Contract
  imports Thread_Service
begin

text \<open>
  What the thread use cases rely on, the locale \<open>thread_store\<close>; what they guarantee in turn; and the
  review store as a provider of the contract.
\<close>

subsection \<open>The contract\<close>

definition outcome_ok ::
    "('s \<Rightarrow> review_thread_id \<Rightarrow> (store_error, review_thread) result) \<Rightarrow> 's
     \<Rightarrow> 's \<times> (thread_error, thread_commit) result \<Rightarrow> bool" where
  "outcome_ok load s out \<longleftrightarrow>
     (case out of
        (s', Inl e) \<Rightarrow> s' = s
      | (s', Inr tm) \<Rightarrow>
          load s' (th_id (tm_thread tm)) = Inr ((tm_thread tm)\<lparr>th_messages := []\<rparr>)
          \<and> (\<forall>i. i \<noteq> th_id (tm_thread tm) \<longrightarrow> load s' i = load s i))"

lemma lift_store_Inr [simp]: "lift_store r = Inr x \<longleftrightarrow> r = Inr x"
  by (cases r) (simp_all add: lift_store_def)

lemma lift_domain_Inr [simp]: "lift_domain r = Inr x \<longleftrightarrow> r = Inr x"
  by (cases r) (simp_all add: lift_domain_def)

text \<open>The operation of the domain that a command on an existing thread amounts to.\<close>

fun thread_op_of :: "thread_env \<Rightarrow> thread_command \<Rightarrow> (review_thread_id \<times> thread_op) option" where
  "thread_op_of env (ResolveThread g tid resolved k) =
     Some (tid, if resolved then OpResolve (ev_now env) else OpReopen (ev_now env))"
| "thread_op_of env (MarkThreadRead g tid k) = Some (tid, OpMarkRead (ev_now env))"
| "thread_op_of env (ReplyToThread g tid v k) = Some (tid, OpAppendMessage (ev_first_id env) (ev_now env))"
| "thread_op_of env _ = None"

text \<open>
  A refused commit changes nothing; an accepted one advances the guard, is read back, apart from the
  identities of the messages, and leaves every other thread alone; what is read is valid.
\<close>

locale thread_store =
  fixes port :: "'s thread_port"
  assumes commit_refused: "tp_commit port g t m s = (s', Inl e) \<Longrightarrow> s' = s"
    and commit_guard: "tp_commit port g t m s = (s', Inr g') \<Longrightarrow> g' = next_guard g"
    and commit_loads:
      "tp_commit port g t m s = (s', Inr g') \<Longrightarrow> tp_load port s' (th_id t) = Inr (t\<lparr>th_messages := []\<rparr>)"
    and commit_frame:
      "tp_commit port g t m s = (s', Inr g') \<Longrightarrow> i \<noteq> th_id t \<Longrightarrow> tp_load port s' i = tp_load port s i"
    and load_valid: "tp_load port s i = Inr t \<Longrightarrow> thread_valid t \<and> th_id t = i \<and> th_messages t = []"
begin

lemma outcome_Inl [simp]: "outcome_ok (tp_load port) s (s, Inl e)"
  by (simp add: outcome_ok_def)

lemma commit_with_ok: "outcome_ok (tp_load port) s (commit_with port g t m events s)"
  using commit_refused [of g t m s] commit_loads [of g t m s] commit_frame [of g t m s]
  by (auto simp: outcome_ok_def commit_with_def split: prod.split sum.split)

lemma loaded_ok:
  "tp_load port s i = Inr t \<Longrightarrow>
   outcome_ok (tp_load port) s (s, Inr \<lparr>tm_guard = g, tm_thread = t, tm_message = None, tm_events = es\<rparr>)"
  using load_valid [of s i t] by (cases t) (auto simp: outcome_ok_def)

lemma load_owned: "load_owned_thread port sid tid s = Inr t \<longleftrightarrow>
    tid \<noteq> [] \<and> tp_load port s tid = Inr t \<and> th_session_id t = sid"
  by (auto simp: load_owned_thread_def)

theorem run_command_ok: "outcome_ok (tp_load port) s (run_thread_command port env c s)"
proof (cases c)
  case (CreateThread g anchor v k)
  then show ?thesis by (auto simp: create_thread_def commit_with_ok split: sum.split prod.split)
next
  case (ActivateThread sid tid k)
  then show ?thesis by (auto simp: activate_thread_def loaded_ok split: sum.split)
next
  case (ReplyToThread g tid v k)
  then show ?thesis by (auto simp: reply_to_thread_def commit_with_ok split: sum.split prod.split)
next
  case (ResolveThread g tid resolved k)
  then show ?thesis by (auto simp: resolve_review_thread_def commit_with_ok split: sum.split)
next
  case (MarkThreadRead g tid k)
  then show ?thesis
    by (auto simp: mark_review_thread_read_def commit_with_ok load_owned loaded_ok split: sum.split)
qed

lemma commit_with_Inr:
  "commit_with port g t m es s = (s', Inr tm) \<Longrightarrow> tm_thread tm = t \<and> tm_guard tm = next_guard g"
  using commit_guard [of g t m s] by (auto simp: commit_with_def split: prod.splits sum.splits)

lemma command_is_step:
  assumes "run_thread_command port env c s = (s', Inr tm)" "thread_op_of env c = Some (tid, op)"
  shows "\<exists>t. tp_load port s tid = Inr t
    \<and> (thread_step op t = Inr (tm_thread tm) \<or> tm_thread tm = t \<and> tm_events tm = [] \<and> s' = s)"
proof (cases c)
  case (ReplyToThread g i v k)
  then show ?thesis
    using assms
    by (auto simp: reply_to_thread_def load_owned text_message_def new_pending_message_def new_message_def
        dest!: commit_with_Inr split: if_splits sum.splits)
next
  case (ResolveThread g i resolved k)
  then show ?thesis
    using assms
    by (auto simp: resolve_review_thread_def load_owned dest!: commit_with_Inr split: if_splits sum.splits)
next
  case (MarkThreadRead g i k)
  then show ?thesis
    using assms
    by (auto simp: mark_review_thread_read_def load_owned dest!: commit_with_Inr split: if_splits sum.splits)
qed (use assms in simp_all)

lemma command_axes:
  assumes "run_thread_command port env c s = (s', Inr tm)" "thread_op_of env c = Some (tid, op)"
  shows "\<exists>t. tp_load port s tid = Inr t \<and> thread_ident (tm_thread tm) = thread_ident t
    \<and> (\<forall>ax. op_axis op \<noteq> Some ax \<longrightarrow> axis_agrees ax (thread_status_of (tm_thread tm)) (thread_status_of t))"
  using command_is_step [OF assms] step_axis thread_step_ident by fastforce

end

subsection \<open>The store provides it\<close>

definition thread_tx ::
    "review_thread \<Rightarrow> message option \<Rightarrow> review_session_id \<Rightarrow> nat \<Rightarrow> review_tables
     \<Rightarrow> (store_error, review_tables) result" where
  "thread_tx t m sid maximum tb =
     bind_result (save_thread sid t tb)
       (\<lambda>tb. case m of None \<Rightarrow> Inr tb | Some m \<Rightarrow> save_message sid maximum m tb)"

record message_sizes =
  mz_item :: "message_id \<times> message_row \<Rightarrow> nat"
  mz_list :: "(message_id \<times> message_row) list \<Rightarrow> nat"

definition message_codec :: "message_sizes \<Rightarrow> (message_id \<times> message_row) page_codec" where
  "message_codec z =
     \<lparr>pk_key = (\<lambda>(i, r). (format_time (ms_updated_at r), i)),
      pk_ok = (\<lambda>(i, r). ms_ordinal r \<noteq> 0 \<and> valid_sha256 (ms_body_sha256 r) \<and> message_role_valid (ms_role r)
         \<and> message_status_valid (ms_status r)),
      pk_item_bytes = mz_item z, pk_list_bytes = mz_list z\<rparr>"

definition thread_messages :: "review_tables \<Rightarrow> review_thread_id \<Rightarrow> (message_id \<times> message_row) list" where
  "thread_messages tb tid = filter (\<lambda>(_, r). ms_thread_id r = tid) (tb_messages tb)"

definition thread_revision :: "review_tables \<Rightarrow> review_thread_id \<Rightarrow> (store_error, nat) result" where
  "thread_revision tb tid =
     bind_result (select_row tid (tb_threads tb))
       (\<lambda>t. map_sum id sw_revision (select_row (hr_session_id t) (tb_sessions tb)))"

definition list_messages ::
    "message_sizes \<Rightarrow> review_store \<Rightarrow> review_thread_id \<Rightarrow> page_request
     \<Rightarrow> (store_error, (message_id \<times> message_row) page_result) result" where
  "list_messages z s tid q =
     (if rv_closed s then Inl StoreClosed
      else if tid = [] \<or> \<not> page_request_valid q then Inl StoreInput
      else bind_result (thread_revision (rv_tables s) tid)
        (\<lambda>revision. list_page (message_codec z) (thread_messages (rv_tables s) tid) revision q))"

text \<open>The ordinal of the next message: all pages are read.\<close>

definition next_message_ordinal ::
    "message_sizes \<Rightarrow> review_store \<Rightarrow> review_thread_id \<Rightarrow> (store_error, nat) result" where
  "next_message_ordinal z s tid =
     (if rv_closed s then Inl StoreClosed
      else if tid = [] then Inl StoreInput
      else bind_result (thread_revision (rv_tables s) tid) (\<lambda>revision.
        bind_result (collect_pages (message_codec z) (thread_messages (rv_tables s) tid) revision None)
          (\<lambda>items.
             let highest = foldr max (map (ms_ordinal \<circ> snd) items) 0 in
             if highest = 2 ^ 64 - 1 then Inl StoreInput else Inr (highest + 1))))"

definition store_port :: "tx_env \<Rightarrow> message_sizes \<Rightarrow> review_store thread_port" where
  "store_port env z =
     \<lparr>tp_load = load_thread, tp_next_ordinal = next_message_ordinal z,
      tp_commit = (\<lambda>g t m s.
        with_session_tx env g (thread_tx t m (sg_session_id g) (rv_max_message_bytes s)) s)\<rparr>"

lemma save_message_load [simp]:
  "save_message sid maximum m tb = Inr tb' \<Longrightarrow> load_thread_row tb' i = load_thread_row tb i"
  by (intro load_thread_row_cong) (auto dest: save_message_tables)

lemma thread_tx_loads:
  assumes "thread_tx t m sid maximum tb = Inr tb'"
  shows "load_thread_row tb' (th_id t) = Inr (t\<lparr>th_messages := []\<rparr>)"
    "i \<noteq> th_id t \<Longrightarrow> load_thread_row tb' i = load_thread_row tb i"
  using assms save_thread_loads save_thread_other
  by (auto simp: thread_tx_def split: option.splits)

interpretation sqlite: thread_store "store_port env z" for env z
proof unfold_locales
  fix g t m s s' e
  assume "tp_commit (store_port env z) g t m s = (s', Inl e)"
  then show "s' = s" by (simp add: store_port_def with_session_tx_Inl)
next
  fix g t m s s' g' i
  assume commit: "tp_commit (store_port env z) g t m s = (s', Inr g')"
  then show "g' = next_guard g" by (auto simp: store_port_def with_session_tx_Inr)
  from commit show "tp_load (store_port env z) s' (th_id t) = Inr (t\<lparr>th_messages := []\<rparr>)"
    using thread_tx_loads(1) by (auto simp: store_port_def with_session_tx_Inr load_thread_def)
  assume "i \<noteq> th_id t"
  with commit show "tp_load (store_port env z) s' i = tp_load (store_port env z) s i"
    using thread_tx_loads(2) by (auto simp: store_port_def with_session_tx_Inr load_thread_def)
next
  fix s i t
  assume "tp_load (store_port env z) s i = Inr t"
  then show "thread_valid t \<and> th_id t = i \<and> th_messages t = []"
    using load_thread_row_Inr by (auto simp: store_port_def load_thread_def split: if_splits)
qed

text \<open>
  C9. A thread command on the store either fails and changes nothing, or the thread it answers with
  is what the store now holds under its identity, while every other thread is as before. A command
  on an existing thread keeps its identity, title and anchor and every status axis but its own.
\<close>

theorem thread_commands_durable:
  "(case run_thread_command (store_port env z) ev c s of
      (s', Inl e) \<Rightarrow> s' = s
    | (s', Inr tm) \<Rightarrow>
        load_thread s' (th_id (tm_thread tm)) = Inr ((tm_thread tm)\<lparr>th_messages := []\<rparr>)
        \<and> (\<forall>i. i = th_id (tm_thread tm) \<or> load_thread s' i = load_thread s i)
        \<and> (case thread_op_of ev c of
             None \<Rightarrow> True
           | Some (tid, op) \<Rightarrow>
               \<exists>t. load_thread s tid = Inr t \<and> thread_ident (tm_thread tm) = thread_ident t
                 \<and> (\<forall>ax. op_axis op = Some ax
                      \<or> axis_agrees ax (thread_status_of (tm_thread tm)) (thread_status_of t))))"
proof (cases "run_thread_command (store_port env z) ev c s")
  case (Pair s' r)
  have load: "tp_load (store_port env z) = load_thread" by (simp add: store_port_def)
  show ?thesis
  proof (cases r)
    case (Inl e)
    then show ?thesis using sqlite.run_command_ok [of env z s ev c] Pair by (simp add: outcome_ok_def)
  next
    case (Inr tm)
    have "case thread_op_of ev c of None \<Rightarrow> True | Some (tid, op) \<Rightarrow>
        \<exists>t. load_thread s tid = Inr t \<and> thread_ident (tm_thread tm) = thread_ident t
          \<and> (\<forall>ax. op_axis op = Some ax \<or> axis_agrees ax (thread_status_of (tm_thread tm)) (thread_status_of t))"
      using sqlite.command_axes [of env z ev c s s' tm] Pair Inr load
      by (fastforce split: option.split)
    then show ?thesis
      using sqlite.run_command_ok [of env z s ev c] Pair Inr load by (auto simp: outcome_ok_def)
  qed
qed

end
