(* ===== verification/Provider_Stream.thy ===== *)
theory Provider_Stream
  imports Thread_Contract Provider
begin

text \<open>
  The processor of provider events (\<^verbatim>\<open>internal/app/provider_events.go\<close>): it turns the events of a
  turn into messages whose bodies are stored in chunks while they arrive, and into a bounded queue of
  activities for the display. It is fed by one owner, so that an event is handled as one function of
  the store and of the processor.
\<close>

subsection \<open>Streams\<close>

type_synonym stream_key = "review_thread_id \<times> provider_turn_id \<times> bytes"

text \<open>The running digest of a stream is that of its content: every part is written to both.\<close>

record message_stream =
  mt_message :: message
  mt_content :: bytes
  mt_length :: nat
  mt_chunk_count :: nat
  mt_last_updated :: instant
  mt_terminal :: bool

record provider_activity =
  ac_kind :: event_kind
  ac_thread_id :: review_thread_id
  ac_turn_id :: provider_turn_id
  ac_message_id :: message_id
  ac_item_ref :: bytes
  ac_status :: bytes

text \<open>The map of streams has one entry per key. The queue holds what the display has not taken.\<close>

record event_processor =
  pp_streams :: "(stream_key \<times> message_stream) list"
  pp_activity :: "provider_activity list"
  pp_buffer :: nat
  pp_durable :: bool

datatype event_error =
    ErrProviderMessageOrder | ErrProviderMessageLimit
  | EventStoreError store_error | EventDomainError review_error

text \<open>
  The readings of one call: the clock, the transactions and the clock of the database by how often
  they have been asked, the next identity, the order in which Go walks its map, and what
  \<^verbatim>\<open>unicode.ToLower\<close> does outside ASCII.
\<close>

record event_env =
  ee_clock :: "nat \<Rightarrow> instant"
  ee_tx :: "nat \<Rightarrow> tx_env"
  ee_store_clock :: "nat \<Rightarrow> instant"
  ee_id :: bytes
  ee_sizes :: message_sizes
  ee_order :: "stream_key list \<Rightarrow> stream_key list"
  ee_lower :: "bytes \<Rightarrow> bytes"

record event_commit =
  ec_guard :: session_write_guard
  ec_activity :: provider_activity
  ec_message :: "message option"
  ec_identity :: "body_identity option"

definition event_key :: "provider_event \<Rightarrow> stream_key" where
  "event_key e = (pe_thread_id e, pe_turn_id e, pe_item_ref e)"

definition put_stream :: "stream_key \<Rightarrow> message_stream \<Rightarrow> event_processor \<Rightarrow> event_processor" where
  "put_stream k st p = p\<lparr>pp_streams := (k, st) # filter (\<lambda>(j, _). j \<noteq> k) (pp_streams p)\<rparr>"

definition drop_stream :: "stream_key \<Rightarrow> event_processor \<Rightarrow> event_processor" where
  "drop_stream k p = p\<lparr>pp_streams := filter (\<lambda>(j, _). j \<noteq> k) (pp_streams p)\<rparr>"

definition publish_activity :: "provider_activity \<Rightarrow> event_processor \<Rightarrow> event_processor" where
  "publish_activity a p =
     (if length (pp_activity p) < pp_buffer p then p\<lparr>pp_activity := pp_activity p @ [a]\<rparr> else p)"

definition event_activity :: "provider_event \<Rightarrow> message_id \<Rightarrow> bytes \<Rightarrow> provider_activity" where
  "event_activity e i status =
     \<lparr>ac_kind = pe_kind e, ac_thread_id = pe_thread_id e, ac_turn_id = pe_turn_id e, ac_message_id = i,
      ac_item_ref = pe_item_ref e, ac_status = status\<rparr>"

fun message_status_text :: "message_status \<Rightarrow> bytes" where
  "message_status_text MessagePending = ''pending''"
| "message_status_text MessageStreaming = ''streaming''"
| "message_status_text MessageCompleted = ''completed''"
| "message_status_text MessageFailed = ''failed''"
| "message_status_text MessageCancelled = ''cancelled''"
| "message_status_text (MessageStatusOther b) = b"

subsection \<open>Parts of a text\<close>

text \<open>A part ends at the last start of a rune within the limit, or at the limit when there is none.\<close>

fun back_to_rune :: "bytes \<Rightarrow> nat \<Rightarrow> nat" where
  "back_to_rune v 0 = 0"
| "back_to_rune v (Suc n) =
     (if Suc n < length v \<and> \<not> rune_start (v ! Suc n) then back_to_rune v n else Suc n)"

definition part_end :: "nat \<Rightarrow> bytes \<Rightarrow> nat" where
  "part_end limit v =
     (if length v > limit
      then (if back_to_rune v limit = 0 then limit else back_to_rune v limit)
      else length v)"

lemma back_to_rune_le: "back_to_rune v n \<le> n"
  by (induction v n rule: back_to_rune.induct) auto

lemma part_end_bounds:
  assumes "0 < limit" "v \<noteq> []"
  shows "0 < part_end limit v" "part_end limit v \<le> length v" "part_end limit v \<le> limit"
  using assms back_to_rune_le [of v limit] by (auto simp: part_end_def)

function split_message_bytes :: "nat \<Rightarrow> bytes \<Rightarrow> bytes list" where
  "split_message_bytes limit v =
     (if v = [] \<or> limit = 0 then []
      else take (part_end limit v) v # split_message_bytes limit (drop (part_end limit v) v))"
  by pat_completeness auto
termination
  by (relation "measure (\<lambda>(_, v). length v)") (use part_end_bounds in \<open>auto simp: not_less\<close>)

declare split_message_bytes.simps [simp del]

lemma split_message_bytes_concat: "0 < limit \<Longrightarrow> concat (split_message_bytes limit v) = v"
  by (induction limit v rule: split_message_bytes.induct) (subst split_message_bytes.simps, auto)

lemma split_message_bytes_parts:
  "0 < limit \<Longrightarrow> x \<in> set (split_message_bytes limit v) \<Longrightarrow> x \<noteq> [] \<and> length x \<le> limit"
proof (induction limit v rule: split_message_bytes.induct)
  case (1 limit v)
  show ?case
  proof (cases "v = []")
    case True
    with 1 show ?thesis by (simp add: split_message_bytes.simps)
  next
    case False
    note bounds = part_end_bounds [OF 1(2) False]
    from 1(3) False 1(2) have "x = take (part_end limit v) v
        \<or> x \<in> set (split_message_bytes limit (drop (part_end limit v) v))"
      by (subst (asm) split_message_bytes.simps) auto
    then show ?thesis using 1 False bounds by auto
  qed
qed

subsection \<open>Starting a message\<close>

definition bounded_error_code :: "(bytes \<Rightarrow> bytes) \<Rightarrow> bytes \<Rightarrow> bytes \<Rightarrow> bytes" where
  "bounded_error_code lower v fallback =
     (if v = [] then fallback
      else
        (let v = (let t = trim_space v in
                  if list_all (\<lambda>c. byte c < 128) t then map ascii_lower t else lower t)
         in if length v > 64 then fallback else v))"

definition event_ordinal ::
    "event_env \<Rightarrow> review_thread_id \<Rightarrow> review_store \<Rightarrow> event_processor \<Rightarrow> (store_error, nat) result" where
  "event_ordinal env tid s p =
     (if \<not> pp_durable p
      then Inr ((foldr max (map (msg_ordinal \<circ> mt_message \<circ> snd)
                   (filter (\<lambda>((j, _), _). j = tid) (pp_streams p))) 0 + 1) mod 2 ^ 64)
      else if rv_closed s then Inl StoreClosed
      else if tid = [] then Inl StoreInput
      else bind_result (thread_revision (rv_tables s) tid) (\<lambda>revision.
        bind_result (collect_pages (message_codec (ee_sizes env)) (thread_messages (rv_tables s) tid) revision None)
          (\<lambda>items. Inr ((foldr max (map (ms_ordinal \<circ> snd) items) 0 + 1) mod 2 ^ 64))))"

definition streaming_message ::
    "event_env \<Rightarrow> provider_event \<Rightarrow> nat \<Rightarrow> (event_error, message) result" where
  "streaming_message env e ordinal =
     (if \<not> is_ok (new_id (ee_id env)) then Inl ErrProviderMessageOrder
      else bind_result (map_sum EventDomainError id
             (new_pending_message (ee_id env) (pe_thread_id e) RoleAssistant ordinal (ee_clock env 0)))
        (\<lambda>m. map_sum EventDomainError id
           (begin_streaming (ee_clock env 0) (Some (m\<lparr>msg_provider_id := pe_item_ref e\<rparr>)))))"

definition store_started ::
    "event_env \<Rightarrow> session_write_guard \<Rightarrow> provider_event \<Rightarrow> message \<Rightarrow> review_store
     \<Rightarrow> review_store \<times> (event_error, session_write_guard) result" where
  "store_started env g e m s =
     (case bind_result (map_sum EventStoreError id (load_thread s (pe_thread_id e)))
             (\<lambda>t. map_sum EventDomainError id (append_message_id (msg_id m) (ee_clock env 0) (Some t))) of
        Inl err \<Rightarrow> (s, Inl err)
      | Inr t \<Rightarrow>
          (case with_session_tx (ee_tx env 0) g
                  (thread_tx t (Some m) (sg_session_id g) (rv_max_message_bytes s)) s of
             (s, Inl err) \<Rightarrow> (s, Inl (EventStoreError err))
           | (s, Inr g) \<Rightarrow> (s, Inr g)))"

definition start_message ::
    "event_env \<Rightarrow> session_write_guard \<Rightarrow> provider_event \<Rightarrow> review_store \<times> event_processor
     \<Rightarrow> (review_store \<times> event_processor) \<times> (event_error, event_commit) result" where
  "start_message env g e = (\<lambda>(s, p).
     if pe_thread_id e = [] \<or> pe_turn_id e = [] \<or> pe_item_ref e = []
     then ((s, p), Inl ErrProviderMessageOrder)
     else if map_of (pp_streams p) (event_key e) \<noteq> None
     then ((s, p), Inr \<lparr>ec_guard = g, ec_activity = event_activity e [] ''duplicate'',
                       ec_message = None, ec_identity = None\<rparr>)
     else
       (case bind_result (map_sum EventStoreError id (event_ordinal env (pe_thread_id e) s p))
               (streaming_message env e) of
          Inl err \<Rightarrow> ((s, p), Inl err)
        | Inr m \<Rightarrow>
            (case (if pp_durable p then store_started env g e m s else (s, Inr g)) of
               (s, Inl err) \<Rightarrow> ((s, p), Inl err)
             | (s, Inr g) \<Rightarrow>
                 let a = event_activity e (msg_id m) ''streaming'';
                     st = \<lparr>mt_message = m, mt_content = [], mt_length = 0, mt_chunk_count = 0,
                           mt_last_updated = ee_clock env 0, mt_terminal = False\<rparr>
                 in ((s, publish_activity a (put_stream (event_key e) st p)),
                     Inr \<lparr>ec_guard = g, ec_activity = a, ec_message = Some m, ec_identity = None\<rparr>))))"

subsection \<open>Appending and finishing\<close>

definition extend_stream :: "instant \<Rightarrow> bytes \<Rightarrow> message_stream \<Rightarrow> message_stream" where
  "extend_stream now part st =
     st\<lparr>mt_content := mt_content st @ part, mt_length := mt_length st + length part,
        mt_chunk_count := mt_chunk_count st + 1, mt_last_updated := now\<rparr>"

definition stream_chunk :: "bytes \<Rightarrow> message_stream \<Rightarrow> chunk_write" where
  "stream_chunk part st =
     \<lparr>cw_message_id = msg_id (mt_message st), cw_ordinal = mt_chunk_count st, cw_bytes = part,
      cw_hash = sha256_hex part, cw_total_length = mt_length st,
      cw_total_sha256 = sha256_hex (mt_content st)\<rparr>"

text \<open>The stream has taken a part before the store is asked to, and keeps it when the store refuses.\<close>

fun append_parts ::
    "event_env \<Rightarrow> bool \<Rightarrow> nat \<Rightarrow> session_write_guard \<Rightarrow> bytes list \<Rightarrow> message_stream \<Rightarrow> review_store
     \<Rightarrow> review_store \<times> message_stream \<times> (store_error, session_write_guard) result" where
  "append_parts env durable n g [] st s = (s, st, Inr g)"
| "append_parts env durable n g (part # parts) st s =
     (let st = extend_stream (ee_clock env n) part st in
      if \<not> durable then append_parts env durable (n + 1) g parts st s
      else
        (case with_session_tx (ee_tx env n) g
                (append_body_chunk (sg_session_id g) (stream_chunk part st) (ee_store_clock env n)) s of
           (s, Inl err) \<Rightarrow> (s, st, Inl err)
         | (s, Inr g) \<Rightarrow> append_parts env durable (n + 1) g parts st s))"

definition append_message ::
    "event_env \<Rightarrow> session_write_guard \<Rightarrow> provider_event \<Rightarrow> review_store \<times> event_processor
     \<Rightarrow> (review_store \<times> event_processor) \<times> (event_error, event_commit) result" where
  "append_message env g e = (\<lambda>(s, p).
     case map_of (pp_streams p) (event_key e) of
       None \<Rightarrow> ((s, p), Inl ErrProviderMessageOrder)
     | Some st \<Rightarrow>
         if mt_terminal st then ((s, p), Inl ErrProviderMessageOrder)
         else if mt_length st + length (pe_text e) > MaxStreamedMessageBytes
         then ((s, p), Inl ErrProviderMessageLimit)
         else
           (case append_parts env (pp_durable p) 0 g (split_message_bytes MaxMessageBodyChunk (pe_text e)) st s of
              (s, st, r) \<Rightarrow>
                let p = put_stream (event_key e) st p in
                (case r of
                   Inl err \<Rightarrow> ((s, p), Inl (EventStoreError err))
                 | Inr g \<Rightarrow>
                     let a = event_activity e (msg_id (mt_message st)) ''streaming'' in
                     ((s, publish_activity a p),
                      Inr \<lparr>ec_guard = g, ec_activity = a, ec_message = None, ec_identity = None\<rparr>))))"

definition finish_change ::
    "message_status \<Rightarrow> failure_phase \<Rightarrow> error_code \<Rightarrow> instant \<Rightarrow> message \<Rightarrow> (review_error, message) result" where
  "finish_change status phase code now m =
     (case status of
        MessageCompleted \<Rightarrow> complete_message now (Some m)
      | MessageFailed \<Rightarrow> fail_message phase code now (Some m)
      | MessageCancelled \<Rightarrow> cancel_message now (Some m)
      | _ \<Rightarrow> Inr m)"

definition stream_identity ::
    "message_status \<Rightarrow> failure_phase \<Rightarrow> error_code \<Rightarrow> instant \<Rightarrow> message_stream \<Rightarrow> body_identity" where
  "stream_identity status phase code now st =
     \<lparr>bi_message_id = msg_id (mt_message st), bi_chunk_count = mt_chunk_count st,
      bi_byte_length = mt_length st, bi_sha256 = sha256_hex (mt_content st),
      bi_terminal_status = status, bi_failure_phase = phase, bi_error_code = code,
      bi_completed_at = now\<rparr>"

text \<open>The message has ended in memory before the store records it; only then the stream is dropped.\<close>

definition finish_message ::
    "event_env \<Rightarrow> nat \<Rightarrow> session_write_guard \<Rightarrow> provider_event \<Rightarrow> message_status \<Rightarrow> failure_phase \<Rightarrow> error_code
     \<Rightarrow> review_store \<times> event_processor
     \<Rightarrow> (review_store \<times> event_processor) \<times> (event_error, event_commit) result" where
  "finish_message env n g e status phase code = (\<lambda>(s, p).
     case map_of (pp_streams p) (event_key e) of
       None \<Rightarrow> ((s, p), Inl ErrProviderMessageOrder)
     | Some st \<Rightarrow>
         if mt_terminal st then ((s, p), Inl ErrProviderMessageOrder)
         else
           (case finish_change status phase code (ee_clock env n) (mt_message st) of
              Inl err \<Rightarrow> ((s, p), Inl (EventDomainError err))
            | Inr m \<Rightarrow>
                let st = st\<lparr>mt_message := m\<rparr>;
                    ident = stream_identity status phase code (ee_clock env n) st
                in
                  (case (if pp_durable p
                         then with_session_tx (ee_tx env n) g (finalize_body (sg_session_id g) ident) s
                         else (s, Inr g)) of
                     (s, Inl err) \<Rightarrow> ((s, put_stream (event_key e) st p), Inl (EventStoreError err))
                   | (s, Inr g) \<Rightarrow>
                       let a = event_activity e (msg_id m) (message_status_text status) in
                       ((s, publish_activity a (drop_stream (event_key e) p)),
                        Inr \<lparr>ec_guard = g, ec_activity = a, ec_message = Some m, ec_identity = Some ident\<rparr>))))"

text \<open>The end of several messages: each as if it had ended on its own.\<close>

definition completed_event :: "provider_event \<Rightarrow> stream_key \<Rightarrow> provider_event" where
  "completed_event e = (\<lambda>(tid, turn, item).
     e\<lparr>pe_kind := EventMessageCompleted, pe_thread_id := tid, pe_turn_id := turn, pe_item_ref := item\<rparr>)"

fun finish_all ::
    "event_env \<Rightarrow> nat \<Rightarrow> session_write_guard \<Rightarrow> provider_event \<Rightarrow> message_status \<Rightarrow> failure_phase \<Rightarrow> error_code
     \<Rightarrow> stream_key list \<Rightarrow> review_store \<times> event_processor
     \<Rightarrow> (review_store \<times> event_processor) \<times> (event_error, session_write_guard) result" where
  "finish_all env n g e status phase code [] sp = (sp, Inr g)"
| "finish_all env n g e status phase code (k # ks) sp =
     (case finish_message env n g (completed_event e k) status phase code sp of
        (sp, Inl err) \<Rightarrow> (sp, Inl err)
      | (sp, Inr c) \<Rightarrow> finish_all env (n + 1) (ec_guard c) e status phase code ks sp)"

definition finish_keys ::
    "event_env \<Rightarrow> session_write_guard \<Rightarrow> provider_event \<Rightarrow> message_status \<Rightarrow> failure_phase \<Rightarrow> error_code
     \<Rightarrow> (stream_key \<Rightarrow> bool) \<Rightarrow> provider_activity \<Rightarrow> review_store \<times> event_processor
     \<Rightarrow> (review_store \<times> event_processor) \<times> (event_error, event_commit) result" where
  "finish_keys env g e status phase code chosen a = (\<lambda>(s, p).
     case finish_all env 0 g e status phase code
            (ee_order env (filter chosen (map fst (pp_streams p)))) (s, p) of
       (sp, Inl err) \<Rightarrow> (sp, Inl err)
     | ((s, p), Inr g) \<Rightarrow>
         ((s, publish_activity a p),
          Inr \<lparr>ec_guard = g, ec_activity = a, ec_message = None, ec_identity = None\<rparr>))"

definition finish_turn_messages ::
    "event_env \<Rightarrow> session_write_guard \<Rightarrow> provider_event \<Rightarrow> message_status \<Rightarrow> failure_phase \<Rightarrow> error_code
     \<Rightarrow> review_store \<times> event_processor
     \<Rightarrow> (review_store \<times> event_processor) \<times> (event_error, event_commit) result" where
  "finish_turn_messages env g e status phase code =
     finish_keys env g e status phase code
       (\<lambda>(tid, turn, _). tid = pe_thread_id e \<and> turn = pe_turn_id e)
       ((event_activity e [] (message_status_text status))\<lparr>ac_item_ref := []\<rparr>)"

definition finish_disconnected ::
    "event_env \<Rightarrow> session_write_guard \<Rightarrow> provider_event \<Rightarrow> review_store \<times> event_processor
     \<Rightarrow> (review_store \<times> event_processor) \<times> (event_error, event_commit) result" where
  "finish_disconnected env g e =
     finish_keys env g e MessageFailed ''provider'' ''provider_disconnected'' (\<lambda>_. True)
       \<lparr>ac_kind = pe_kind e, ac_thread_id = [], ac_turn_id = [], ac_message_id = [], ac_item_ref = [],
        ac_status = ''disconnected''\<rparr>"

subsection \<open>Handling events\<close>

definition handle_event ::
    "event_env \<Rightarrow> session_write_guard \<Rightarrow> provider_event \<Rightarrow> review_store \<times> event_processor
     \<Rightarrow> (review_store \<times> event_processor) \<times> (event_error, event_commit) result" where
  "handle_event env g e sp =
     (if \<not> provider_event_valid default_validation_limits e then (sp, Inl ErrProviderMessageOrder)
      else
        (case pe_kind e of
           EventMessageStarted \<Rightarrow> start_message env g e sp
         | EventMessageDelta \<Rightarrow> append_message env g e sp
         | EventMessageCompleted \<Rightarrow> finish_message env 0 g e MessageCompleted [] [] sp
         | EventTurnCompleted \<Rightarrow> finish_turn_messages env g e MessageCompleted [] [] sp
         | EventTurnFailed \<Rightarrow>
             finish_turn_messages env g e
               (if pe_status e = ''interrupted'' \<or> pe_status e = ''cancelled'' then MessageCancelled else MessageFailed)
               ''provider'' (bounded_error_code (ee_lower env) (pe_error e) ''provider_turn_failed'') sp
         | EventDisconnected \<Rightarrow> finish_disconnected env g e sp
         | _ \<Rightarrow>
             (let a = event_activity e [] (pe_status e) in
              (case sp of (s, p) \<Rightarrow>
                ((s, publish_activity a p),
                 Inr \<lparr>ec_guard = g, ec_activity = a, ec_message = None, ec_identity = None\<rparr>)))))"

text \<open>The loop over a source of events: the first error ends it.\<close>

fun run_events ::
    "session_write_guard \<Rightarrow> (event_env \<times> provider_event) list \<Rightarrow> review_store \<times> event_processor
     \<Rightarrow> (review_store \<times> event_processor) \<times> (event_error, session_write_guard) result" where
  "run_events g [] sp = (sp, Inr g)"
| "run_events g ((env, e) # es) sp =
     (case handle_event env g e sp of
        (sp, Inl err) \<Rightarrow> (sp, Inl err)
      | (sp, Inr c) \<Rightarrow> run_events (ec_guard c) es sp)"

end
