(* ===== verification/Transcripts.thy ===== *)
theory Transcripts
  imports Provider_Stream
begin

text \<open>
  What a run of provider events amounts to: a transcript, the list of messages with their texts. The
  processor and the store together are shown to hold exactly the transcript of the events handled.
\<close>

declare map_of_append [simp del]

subsection \<open>Transcripts\<close>

record transcript_entry =
  en_key :: stream_key
  en_id :: message_id
  en_text :: bytes
  en_open :: bool

definition has_open :: "stream_key \<Rightarrow> transcript_entry list \<Rightarrow> bool" where
  "has_open k t \<longleftrightarrow> list_ex (\<lambda>x. en_open x \<and> en_key x = k) t"

definition close_entries :: "(stream_key \<Rightarrow> bool) \<Rightarrow> transcript_entry list \<Rightarrow> transcript_entry list" where
  "close_entries chosen t = map (\<lambda>x. if chosen (en_key x) then x\<lparr>en_open := False\<rparr> else x) t"

definition extend_entry :: "stream_key \<Rightarrow> bytes \<Rightarrow> transcript_entry \<Rightarrow> transcript_entry" where
  "extend_entry k b x = (if en_open x \<and> en_key x = k then x\<lparr>en_text := en_text x @ b\<rparr> else x)"

definition transcript_step ::
    "message_id \<Rightarrow> provider_event \<Rightarrow> transcript_entry list \<Rightarrow> transcript_entry list" where
  "transcript_step i e t =
     (case pe_kind e of
        EventMessageStarted \<Rightarrow>
          if has_open (event_key e) t then t
          else t @ [\<lparr>en_key = event_key e, en_id = i, en_text = [], en_open = True\<rparr>]
      | EventMessageDelta \<Rightarrow> map (extend_entry (event_key e) (pe_text e)) t
      | EventMessageCompleted \<Rightarrow> close_entries (\<lambda>k. k = event_key e) t
      | EventTurnCompleted \<Rightarrow> close_entries (\<lambda>(tid, turn, _). tid = pe_thread_id e \<and> turn = pe_turn_id e) t
      | EventTurnFailed \<Rightarrow> close_entries (\<lambda>(tid, turn, _). tid = pe_thread_id e \<and> turn = pe_turn_id e) t
      | EventDisconnected \<Rightarrow> close_entries (\<lambda>_. True) t
      | _ \<Rightarrow> t)"

subsection \<open>Bodies in the tables\<close>

definition same_body :: "review_tables \<Rightarrow> review_tables \<Rightarrow> message_id \<Rightarrow> bool" where
  "same_body tb tb' i \<longleftrightarrow>
     numbered_chunks tb' i = numbered_chunks tb i
     \<and> map_of (tb_messages tb') i = map_of (tb_messages tb) i
     \<and> map_of (tb_identities tb') i = map_of (tb_identities tb) i"

definition streamed_body :: "review_tables \<Rightarrow> message_id \<Rightarrow> bytes \<Rightarrow> bool" where
  "streamed_body tb i b \<longleftrightarrow>
     message_body tb i = b \<and> body_consistent tb i
     \<and> (\<exists>m. map_of (tb_messages tb) i = Some m \<and> ms_content m = [])"

definition open_body :: "review_tables \<Rightarrow> message_stream \<Rightarrow> bool" where
  "open_body tb st \<longleftrightarrow>
     (let i = msg_id (mt_message st) in
      streamed_body tb i (mt_content st) \<and> highest_ordinal tb i = mt_chunk_count st
      \<and> mt_length st = length (mt_content st) \<and> map_of (tb_identities tb) i = None)"

definition finished_body :: "review_tables \<Rightarrow> message_id \<Rightarrow> bytes \<Rightarrow> bool" where
  "finished_body tb i b \<longleftrightarrow>
     streamed_body tb i b
     \<and> (\<exists>ident. map_of (tb_identities tb) i = Some ident \<and> bi_byte_length ident = length b
          \<and> bi_sha256 ident = sha256_hex b)"

text \<open>The foreign keys of the schema: chunks and identities belong to messages.\<close>

definition bodies_owned :: "review_tables \<Rightarrow> bool" where
  "bodies_owned tb \<longleftrightarrow>
     (\<forall>i. map_of (tb_messages tb) i = None \<longrightarrow>
        numbered_chunks tb i = [] \<and> map_of (tb_identities tb) i = None)"

lemma same_body_facts:
  assumes "same_body tb tb' i"
  shows "streamed_body tb' i = streamed_body tb i" "finished_body tb' i = finished_body tb i"
    "msg_id (mt_message st) = i \<Longrightarrow> open_body tb' st = open_body tb st"
  using assms
  by (simp_all add: same_body_def streamed_body_def finished_body_def open_body_def body_consistent_def
      message_chunks_def message_body_def stored_body_def highest_ordinal_def Let_def fun_eq_iff)

lemma streamed_stored: "streamed_body tb i b \<Longrightarrow> stored_body tb i = b"
  by (auto simp: streamed_body_def stored_body_def message_body_def)

lemma numbered_bump [simp]: "numbered_chunks (bump_revision j tb) i = numbered_chunks tb i"
  by (simp add: numbered_chunks_def)

lemma same_body_bump [simp]:
  "same_body tb (bump_revision j tb') i = same_body tb tb' i"
  "same_body (bump_revision j tb) tb' i = same_body tb tb' i"
  by (simp_all add: same_body_def)

lemma bodies_owned_bump [simp]: "bodies_owned (bump_revision j tb) = bodies_owned tb"
  by (simp add: bodies_owned_def)

lemma body_predicates_bump [simp]:
  "streamed_body (bump_revision j tb) i b = streamed_body tb i b"
  "finished_body (bump_revision j tb) i b = finished_body tb i b"
  "open_body (bump_revision j tb) st = open_body tb st"
  using same_body_facts [of tb "bump_revision j tb"] by (simp_all add: same_body_def)

subsection \<open>What the three transactions do to them\<close>

lemma append_chunk_bodies:
  assumes "append_body_chunk sid (stream_chunk part (extend_stream now part st)) later tb = Inr tb'"
    "open_body tb st" "bodies_owned tb"
  shows "open_body tb' (extend_stream now part st)" "bodies_owned tb'"
    "i \<noteq> msg_id (mt_message st) \<Longrightarrow> same_body tb tb' i"
proof -
  let ?st = "extend_stream now part st" and ?i = "msg_id (mt_message st)"
  let ?c = "stream_chunk part ?st"
  have c: "cw_message_id ?c = ?i" "cw_ordinal ?c = highest_ordinal tb ?i + 1" "cw_bytes ?c = part"
    using assms(2) by (simp_all add: stream_chunk_def extend_stream_def open_body_def Let_def)
  have none: "map_of (tb_chunks tb) (cw_message_id ?c, cw_ordinal ?c) = None"
  proof (rule ccontr)
    assume "map_of (tb_chunks tb) (cw_message_id ?c, cw_ordinal ?c) \<noteq> None"
    then obtain old where "((?i, cw_ordinal ?c), old) \<in> set (tb_chunks tb)"
      using c(1) by (auto dest: map_of_SomeD)
    then have "(cw_ordinal ?c, old) \<in> set (numbered_chunks tb ?i)"
      by (force simp: numbered_chunks_def)
    from highest_ordinal_ge [OF this] c(2) show False by simp
  qed
  note new = append_body_chunk_new [OF assms(1) none]
  have chunks: "numbered_chunks tb' ?i = numbered_chunks tb ?i
      @ [(cw_ordinal ?c, \<lparr>bc_sha256 = cw_hash ?c, bc_bytes = part\<rparr>)]"
    using new(2) c by simp
  have body: "message_body tb' ?i = mt_content ?st"
    using assms(2) chunks
    by (simp add: message_body_def message_chunks_def open_body_def streamed_body_def Let_def extend_stream_def)
  have "foldr max ns n = max n (foldr max ns 0)" for ns and n :: nat
    by (induction ns) auto
  from this [of "map fst (numbered_chunks tb ?i)" "cw_ordinal ?c"]
  have "highest_ordinal tb' ?i = max (cw_ordinal ?c) (highest_ordinal tb ?i)"
    unfolding highest_ordinal_def chunks by simp
  then have highest: "highest_ordinal tb' ?i = mt_chunk_count ?st"
    using c(2) assms(2) by (simp add: open_body_def Let_def extend_stream_def)
  have row: "\<exists>m. map_of (tb_messages tb') ?i = Some m \<and> ms_content m = []"
    using new(5) assms(2) c(1) by (auto simp: open_body_def streamed_body_def Let_def)
  have "body_consistent tb' ?i"
    using append_keeps_consistent [OF assms(1)] assms(2)
    by (simp add: open_body_def streamed_body_def Let_def)
  then show "open_body tb' ?st"
    using body highest row assms(2) new(7)
    by (simp add: open_body_def streamed_body_def Let_def extend_stream_def)
  show same: "same_body tb tb' i" if "i \<noteq> ?i" for i
    using that new(4) [of i] new(5,7) c(1) by (auto simp: same_body_def)
  show "bodies_owned tb'"
    unfolding bodies_owned_def
  proof (intro allI impI)
    fix i
    assume gone: "map_of (tb_messages tb') i = None"
    then have "i \<noteq> ?i" using row by auto
    from same [OF this] gone assms(3)
    show "numbered_chunks tb' i = [] \<and> map_of (tb_identities tb') i = None"
      by (simp add: same_body_def bodies_owned_def)
  qed
qed

lemma finalize_bodies:
  assumes "finalize_body sid (stream_identity status phase code now st) tb = Inr tb'"
    "open_body tb st" "bodies_owned tb"
  shows "finished_body tb' (msg_id (mt_message st)) (mt_content st)" "bodies_owned tb'"
    "i \<noteq> msg_id (mt_message st) \<Longrightarrow> same_body tb tb' i"
proof -
  let ?i = "msg_id (mt_message st)" and ?id = "stream_identity status phase code now st"
  have i: "bi_message_id ?id = ?i" by (simp add: stream_identity_def)
  note f = finalize_body_Inr [OF assms(1), unfolded i]
  have chunks: "numbered_chunks tb' j = numbered_chunks tb j" for j
    by (simp add: numbered_chunks_def f(4))
  have streamed: "streamed_body tb ?i (mt_content st)" using assms(2) by (simp add: open_body_def Let_def)
  have "body_consistent tb' ?i"
  proof (rule finalize_keeps_consistent [OF assms(1)])
    show "body_consistent tb ?i" using streamed by (simp add: streamed_body_def)
    show "stored_body tb ?i = []" if "message_chunks tb ?i = []"
      using that streamed by (auto simp: stored_body_def streamed_body_def)
  qed
  moreover have "message_body tb' ?i = mt_content st"
    using streamed chunks by (simp add: streamed_body_def message_body_def message_chunks_def)
  moreover have row: "\<exists>m. map_of (tb_messages tb') ?i = Some m \<and> ms_content m = []"
    using streamed by (auto simp: f(11) streamed_body_def)
  ultimately show "finished_body tb' ?i (mt_content st)"
    using f(3) assms(2)
    by (auto simp: finished_body_def streamed_body_def stream_identity_def open_body_def Let_def)
  have idents: "map_of (tb_identities tb') j = map_of (tb_identities tb) j" if "j \<noteq> ?i" for j
    using assms(1) that
    by (auto simp: finalize_body_def message_owner_Inr message_body_digest_def insert_row_Inr i Let_def
        split: if_splits option.split)
  show same: "same_body tb tb' i" if "i \<noteq> ?i" for i
    using that chunks idents by (simp add: same_body_def f(11))
  show "bodies_owned tb'"
    unfolding bodies_owned_def
  proof (intro allI impI)
    fix j
    assume gone: "map_of (tb_messages tb') j = None"
    then have "j \<noteq> ?i" using row by auto
    from same [OF this] gone assms(3)
    show "numbered_chunks tb' j = [] \<and> map_of (tb_identities tb') j = None"
      by (simp add: same_body_def bodies_owned_def)
  qed
qed

lemma save_thread_bodies:
  "save_thread sid t tb = Inr tb' \<Longrightarrow>
   tb_messages tb' = tb_messages tb \<and> tb_chunks tb' = tb_chunks tb \<and> tb_identities tb' = tb_identities tb"
  by (auto simp: save_thread_def Let_def split: if_splits option.splits)

lemma save_message_bodies:
  "save_message sid maximum m tb = Inr tb' \<Longrightarrow> tb_chunks tb' = tb_chunks tb \<and> tb_identities tb' = tb_identities tb"
  by (auto simp: save_message_def split: if_splits option.splits)

lemma start_bodies:
  assumes "thread_tx t (Some m) sid maximum tb = Inr tb'" "map_of (tb_messages tb) (msg_id m) = None"
    "msg_content m = []" "bodies_owned tb"
  shows "open_body tb' \<lparr>mt_message = m, mt_content = [], mt_length = 0, mt_chunk_count = 0,
      mt_last_updated = now, mt_terminal = False\<rparr>"
    "bodies_owned tb'" "i \<noteq> msg_id m \<Longrightarrow> same_body tb tb' i"
proof -
  obtain mid where mid: "save_thread sid t tb = Inr mid" "save_message sid maximum m mid = Inr tb'"
    using assms(1) by (auto simp: thread_tx_def)
  note a = save_thread_bodies [OF mid(1)] and b = save_message_bodies [OF mid(2)]
  from save_message_row [OF mid(2)] obtain created where
    row: "map_of (tb_messages tb') (msg_id m) = Some (message_row_of m created)" by blast
  have chunks: "numbered_chunks tb' j = numbered_chunks tb j" for j
    using a b by (simp add: numbered_chunks_def)
  have empty: "numbered_chunks tb (msg_id m) = []" "map_of (tb_identities tb) (msg_id m) = None"
    using assms(2,4) by (simp_all add: bodies_owned_def)
  show "open_body tb' \<lparr>mt_message = m, mt_content = [], mt_length = 0, mt_chunk_count = 0,
      mt_last_updated = now, mt_terminal = False\<rparr>"
    using row chunks empty assms(3) a b
    by (simp add: open_body_def streamed_body_def body_consistent_def message_body_def message_chunks_def
        stored_body_def highest_ordinal_def message_row_of_def equal_fold_def)
  show same: "same_body tb tb' i" if "i \<noteq> msg_id m" for i
    using that chunks a b save_message_others [OF mid(2) that] by (simp add: same_body_def)
  show "bodies_owned tb'"
    unfolding bodies_owned_def
  proof (intro allI impI)
    fix j
    assume gone: "map_of (tb_messages tb') j = None"
    then have "j \<noteq> msg_id m" using row by auto
    from same [OF this] gone assms(4)
    show "numbered_chunks tb' j = [] \<and> map_of (tb_identities tb') j = None"
      by (simp add: same_body_def bodies_owned_def)
  qed
qed

subsection \<open>The processor holds the transcript\<close>

definition holds_entry :: "review_tables \<Rightarrow> event_processor \<Rightarrow> transcript_entry \<Rightarrow> bool" where
  "holds_entry tb p x \<longleftrightarrow>
     (if en_open x
      then (\<exists>st. map_of (pp_streams p) (en_key x) = Some st \<and> msg_id (mt_message st) = en_id x
              \<and> mt_content st = en_text x \<and> open_body tb st)
      else finished_body tb (en_id x) (en_text x))"

definition transcript_of ::
    "message_id set \<Rightarrow> review_store \<Rightarrow> event_processor \<Rightarrow> transcript_entry list \<Rightarrow> bool" where
  "transcript_of known s p t \<longleftrightarrow>
     \<not> rv_closed s \<and> pp_durable p \<and> bodies_owned (rv_tables s)
     \<and> distinct (map en_id t)
     \<and> (\<forall>i. map_of (tb_messages (rv_tables s)) i \<noteq> None \<longrightarrow> i \<in> known \<union> en_id ` set t)
     \<and> (\<forall>x \<in> set t. holds_entry (rv_tables s) p x)
     \<and> (\<forall>k. map_of (pp_streams p) k \<noteq> None \<longrightarrow> (\<exists>x \<in> set t. en_open x \<and> en_key x = k))"

lemma same_body_refl [simp]: "same_body tb tb i"
  by (simp add: same_body_def)

lemma same_body_trans: "same_body a b i \<Longrightarrow> same_body b c i \<Longrightarrow> same_body a c i"
  by (simp add: same_body_def)

lemma holds_entry_same:
  assumes "holds_entry tb p x" "same_body tb tb' (en_id x)"
    "en_open x \<Longrightarrow> map_of (pp_streams p') (en_key x) = map_of (pp_streams p) (en_key x)"
  shows "holds_entry tb' p' x"
  using assms same_body_facts [OF assms(2)] by (auto simp: holds_entry_def split: if_splits)

lemma entry_unique:
  assumes "transcript_of known s p t" "x \<in> set t" "y \<in> set t" "en_id x = en_id y"
  shows "x = y"
  using assms by (auto simp: transcript_of_def distinct_map inj_on_def)

lemma open_entry_unique:
  assumes "transcript_of known s p t" "x \<in> set t" "y \<in> set t" "en_open x" "en_open y" "en_key x = en_key y"
  shows "x = y"
proof -
  have "holds_entry (rv_tables s) p x" "holds_entry (rv_tables s) p y"
    using assms by (auto simp: transcript_of_def)
  then have "en_id x = en_id y" using assms(4-6) by (auto simp: holds_entry_def)
  with entry_unique assms show ?thesis by blast
qed

lemma open_entry_at:
  assumes "transcript_of known s p t" "map_of (pp_streams p) k = Some st"
  obtains x where "x \<in> set t" "en_open x" "en_key x = k" "msg_id (mt_message st) = en_id x"
    "mt_content st = en_text x" "open_body (rv_tables s) st"
proof -
  have "map_of (pp_streams p) k \<noteq> None \<longrightarrow> (\<exists>x \<in> set t. en_open x \<and> en_key x = k)"
    using assms(1) unfolding transcript_of_def by blast
  then obtain x where x: "x \<in> set t" "en_open x" "en_key x = k" using assms(2) by auto
  then have "holds_entry (rv_tables s) p x" using assms(1) by (auto simp: transcript_of_def)
  with x assms(2) that show ?thesis by (auto simp: holds_entry_def)
qed

lemma put_stream_map [simp]:
  "map_of (pp_streams (put_stream k st p)) j = (if j = k then Some st else map_of (pp_streams p) j)"
proof -
  have "j \<noteq> k \<Longrightarrow> map_of (filter (\<lambda>(j, _). j \<noteq> k) xs) j = map_of xs j" for xs :: "(stream_key \<times> message_stream) list"
    by (induction xs) auto
  then show ?thesis by (simp add: put_stream_def)
qed

lemma drop_stream_map [simp]:
  "map_of (pp_streams (drop_stream k p)) j = (if j = k then None else map_of (pp_streams p) j)"
proof -
  have "map_of (filter (\<lambda>(j, _). j \<noteq> k) xs) j = (if j = k then None else map_of xs j)"
    for xs :: "(stream_key \<times> message_stream) list"
    by (induction xs) auto
  then show ?thesis by (simp add: drop_stream_def)
qed

lemma publish_activity_keeps [simp]:
  "pp_streams (publish_activity a p) = pp_streams p" "pp_durable (publish_activity a p) = pp_durable p"
  by (simp_all add: publish_activity_def)

lemma stream_update_durable [simp]:
  "pp_durable (put_stream k st p) = pp_durable p" "pp_durable (drop_stream k p) = pp_durable p"
  by (simp_all add: put_stream_def drop_stream_def)

lemma transcript_of_publish [simp]:
  "transcript_of known s (publish_activity a p) t = transcript_of known s p t"
  by (simp add: transcript_of_def holds_entry_def)

lemma transcript_ofI:
  assumes "transcript_of known s p t" "\<not> rv_closed s'" "pp_durable p'" "bodies_owned (rv_tables s')"
    "map en_id t' = map en_id t"
    "\<And>i. i \<notin> en_id ` set t \<Longrightarrow> same_body (rv_tables s) (rv_tables s') i"
    "\<And>x. x \<in> set t' \<Longrightarrow> holds_entry (rv_tables s') p' x"
    "\<And>k. map_of (pp_streams p') k \<noteq> None \<Longrightarrow> \<exists>x \<in> set t'. en_open x \<and> en_key x = k"
  shows "transcript_of known s' p' t'"
proof -
  have ids: "en_id ` set t' = en_id ` set t" using assms(5) by (metis list.set_map)
  have "i \<in> known \<union> en_id ` set t" if "map_of (tb_messages (rv_tables s')) i \<noteq> None" for i
  proof (rule ccontr)
    assume out: "i \<notin> known \<union> en_id ` set t"
    then have "same_body (rv_tables s) (rv_tables s') i" using assms(6) by blast
    then have "map_of (tb_messages (rv_tables s)) i \<noteq> None" using that by (simp add: same_body_def)
    with out assms(1) show False unfolding transcript_of_def by blast
  qed
  moreover have "distinct (map en_id t')" using assms(1,5) by (simp add: transcript_of_def)
  ultimately show ?thesis
    unfolding transcript_of_def ids using assms(2-4,7,8) by blast
qed

lemma append_parts_bodies:
  assumes "append_parts env True n g parts st s = (s', st', Inr g')" "open_body (rv_tables s) st"
    "bodies_owned (rv_tables s)" "\<not> rv_closed s"
  shows "open_body (rv_tables s') st' \<and> bodies_owned (rv_tables s') \<and> \<not> rv_closed s'
    \<and> mt_message st' = mt_message st \<and> mt_content st' = mt_content st @ concat parts
    \<and> (\<forall>i. i \<noteq> msg_id (mt_message st) \<longrightarrow> same_body (rv_tables s) (rv_tables s') i)"
  using assms
proof (induction parts arbitrary: n g st s)
  case (Cons part parts)
  let ?st = "extend_stream (ee_clock env n) part st"
  obtain s1 g1 where tx: "with_session_tx (ee_tx env n) g
      (append_body_chunk (sg_session_id g) (stream_chunk part ?st) (ee_store_clock env n)) s = (s1, Inr g1)"
    and rest: "append_parts env True (n + 1) g1 parts ?st s1 = (s', st', Inr g')"
    using Cons.prems(1) by (auto simp: Let_def split: prod.splits sum.splits)
  obtain tb where tb: "append_body_chunk (sg_session_id g) (stream_chunk part ?st) (ee_store_clock env n) (rv_tables s) = Inr tb"
      "s1 = s\<lparr>rv_tables := bump_revision (sg_session_id g) tb\<rparr>"
    using tx by (auto simp: with_session_tx_Inr)
  note new = append_chunk_bodies [OF tb(1) Cons.prems(2,3)]
  have same: "mt_message ?st = mt_message st" "mt_content ?st = mt_content st @ part"
    by (simp_all add: extend_stream_def)
  from Cons.IH [OF rest] new tb(2) Cons.prems(4) same show ?case
    by (auto intro: same_body_trans)
qed simp

lemma append_message_transcript:
  assumes "append_message env g e (s, p) = ((s', p'), Inr c)" "transcript_of known s p t"
  shows "transcript_of known s' p' (map (extend_entry (event_key e) (pe_text e)) t)"
proof -
  let ?k = "event_key e" and ?parts = "split_message_bytes MaxMessageBodyChunk (pe_text e)"
  have durable: "pp_durable p" using assms(2) by (simp add: transcript_of_def)
  obtain st st' where st: "map_of (pp_streams p) ?k = Some st"
      "append_parts env True 0 g ?parts st s = (s', st', Inr (ec_guard c))"
      "pp_streams p' = pp_streams (put_stream ?k st' p)" "pp_durable p' = pp_durable p"
    using assms(1) durable
    by (auto simp: append_message_def Let_def split: option.splits if_splits prod.splits sum.splits)
  from open_entry_at [OF assms(2) st(1)] obtain x where x: "x \<in> set t" "en_open x" "en_key x = ?k"
      "msg_id (mt_message st) = en_id x" "mt_content st = en_text x" "open_body (rv_tables s) st" .
  have "concat ?parts = pe_text e" by (rule split_message_bytes_concat) (simp add: MaxMessageBodyChunk_def)
  with append_parts_bodies [OF st(2) x(6)] assms(2)
  have new: "open_body (rv_tables s') st'" "bodies_owned (rv_tables s')" "\<not> rv_closed s'"
      "mt_message st' = mt_message st" "mt_content st' = mt_content st @ pe_text e"
      "\<And>i. i \<noteq> en_id x \<Longrightarrow> same_body (rv_tables s) (rv_tables s') i"
    by (auto simp: transcript_of_def x(4))
  have ids: "en_id (extend_entry ?k (pe_text e) y) = en_id y" "en_open (extend_entry ?k (pe_text e) y) = en_open y"
      "en_key (extend_entry ?k (pe_text e) y) = en_key y" for y
    by (simp_all add: extend_entry_def)
  have holds: "holds_entry (rv_tables s') p' (extend_entry ?k (pe_text e) y)" if y: "y \<in> set t" for y
  proof (cases "y = x")
    case True
    then show ?thesis using x new st(3) by (simp add: extend_entry_def holds_entry_def)
  next
    case False
    then have "\<not> (en_open y \<and> en_key y = ?k)" using open_entry_unique [OF assms(2) y x(1)] x by auto
    moreover have "en_id y \<noteq> en_id x" using entry_unique [OF assms(2) y x(1)] False by auto
    moreover have "holds_entry (rv_tables s) p y" using assms(2) y by (simp add: transcript_of_def)
    ultimately show ?thesis
      using holds_entry_same [of "rv_tables s" p y "rv_tables s'" p'] new(6) st(3)
      by (auto simp: extend_entry_def)
  qed
  show ?thesis
  proof (rule transcript_ofI [OF assms(2)])
    show "map en_id (map (extend_entry ?k (pe_text e)) t) = map en_id t" by (simp add: ids comp_def)
    show "same_body (rv_tables s) (rv_tables s') i" if "i \<notin> en_id ` set t" for i
      using that x(1) new(6) by blast
    show "holds_entry (rv_tables s') p' y" if "y \<in> set (map (extend_entry ?k (pe_text e)) t)" for y
      using that holds by auto
    show "\<exists>y \<in> set (map (extend_entry ?k (pe_text e)) t). en_open y \<and> en_key y = k"
      if "map_of (pp_streams p') k \<noteq> None" for k
    proof -
      have "map_of (pp_streams p) k \<noteq> None" using that st(1,3) by (auto split: if_splits)
      then obtain st0 where "map_of (pp_streams p) k = Some st0" by blast
      from open_entry_at [OF assms(2) this] obtain y where "y \<in> set t" "en_open y" "en_key y = k" .
      then show ?thesis using ids by auto
    qed
  qed (use new durable st(4) in auto)
qed

end
