(* ===== verification/Transcript_Runs.thy ===== *)
theory Transcript_Runs
  imports Transcripts
begin

text \<open>Runs of provider events hold the transcript, and what has ended can be read back.\<close>

declare map_of_append [simp del]

subsection \<open>The end of messages\<close>

lemma finish_change_id: "finish_change status phase code now m = Inr m' \<Longrightarrow> msg_id m' = msg_id m"
  by (auto simp: finish_change_def message_op_defs split: message_status.splits)

lemma close_entries_ids [simp]: "map en_id (close_entries chosen t) = map en_id t"
  by (simp add: close_entries_def)

lemma close_entries_open:
  "y \<in> set (close_entries chosen t) \<longleftrightarrow>
     (\<exists>x \<in> set t. y = (if chosen (en_key x) then x\<lparr>en_open := False\<rparr> else x))"
  by (auto simp: close_entries_def)

lemma finish_message_transcript:
  assumes "finish_message env n g e status phase code (s, p) = ((s', p'), Inr c)" "transcript_of known s p t"
  shows "transcript_of known s' p' (close_entries (\<lambda>k. k = event_key e) t)"
    "map_of (pp_streams p') j = (if j = event_key e then None else map_of (pp_streams p) j)"
proof -
  let ?k = "event_key e"
  have durable: "pp_durable p" using assms(2) by (simp add: transcript_of_def)
  obtain st m where st: "map_of (pp_streams p) ?k = Some st"
      "finish_change status phase code (ee_clock env n) (mt_message st) = Inr m"
      "with_session_tx (ee_tx env n) g
         (finalize_body (sg_session_id g) (stream_identity status phase code (ee_clock env n) (st\<lparr>mt_message := m\<rparr>))) s
       = (s', Inr (ec_guard c))"
      "pp_streams p' = pp_streams (drop_stream ?k p)" "pp_durable p' = pp_durable p"
    using assms(1) durable
    by (auto simp: finish_message_def Let_def split: option.splits if_splits prod.splits sum.splits)
  let ?st = "st\<lparr>mt_message := m\<rparr>"
  from open_entry_at [OF assms(2) st(1)] obtain x where x: "x \<in> set t" "en_open x" "en_key x = ?k"
      "msg_id (mt_message st) = en_id x" "mt_content st = en_text x" "open_body (rv_tables s) st" .
  have id: "msg_id (mt_message ?st) = en_id x" using finish_change_id [OF st(2)] x(4) by simp
  have open_st: "open_body (rv_tables s) ?st" using x(4,6) id by (simp add: open_body_def Let_def)
  have owned: "bodies_owned (rv_tables s)" "\<not> rv_closed s" using assms(2) by (simp_all add: transcript_of_def)
  obtain tb where tb: "finalize_body (sg_session_id g) (stream_identity status phase code (ee_clock env n) ?st) (rv_tables s) = Inr tb"
      "s' = s\<lparr>rv_tables := bump_revision (sg_session_id g) tb\<rparr>"
    using st(3) by (auto simp: with_session_tx_Inr)
  note new = finalize_bodies [OF tb(1) open_st owned(1), unfolded id]
  show streams: "map_of (pp_streams p') j = (if j = ?k then None else map_of (pp_streams p) j)" for j
    by (simp add: st(4))
  show "transcript_of known s' p' (close_entries (\<lambda>k. k = ?k) t)"
  proof (rule transcript_ofI [OF assms(2)])
    show "same_body (rv_tables s) (rv_tables s') i" if "i \<notin> en_id ` set t" for i
      using that x(1) new(3) tb(2) by auto
    show "holds_entry (rv_tables s') p' z" if z: "z \<in> set (close_entries (\<lambda>k. k = ?k) t)" for z
    proof -
      from z obtain y where y: "y \<in> set t" "z = (if en_key y = ?k then y\<lparr>en_open := False\<rparr> else y)"
        by (auto simp: close_entries_open)
      show ?thesis
      proof (cases "y = x")
        case True
        then show ?thesis using y x(3,5) new(1) tb(2) by (simp add: holds_entry_def)
      next
        case False
        then have other: "en_id y \<noteq> en_id x" using entry_unique [OF assms(2) y(1) x(1)] by auto
        have shut: "en_key y = ?k \<Longrightarrow> \<not> en_open y"
          using open_entry_unique [OF assms(2) y(1) x(1)] x False by auto
        have "holds_entry (rv_tables s) p y" using assms(2) y(1) by (simp add: transcript_of_def)
        then have "holds_entry (rv_tables s') p' y"
        proof (rule holds_entry_same)
          show "same_body (rv_tables s) (rv_tables s') (en_id y)" using new(3) [OF other] tb(2) by simp
          show "map_of (pp_streams p') (en_key y) = map_of (pp_streams p) (en_key y)" if "en_open y"
            using that shut streams by auto
        qed
        then show ?thesis using y(2) shut by (auto simp: holds_entry_def)
      qed
    qed
    show "\<exists>z \<in> set (close_entries (\<lambda>k. k = ?k) t). en_open z \<and> en_key z = k"
      if k: "map_of (pp_streams p') k \<noteq> None" for k
    proof -
      have "k \<noteq> ?k" "map_of (pp_streams p) k \<noteq> None" using k streams by (auto split: if_splits)
      then obtain st0 where "k \<noteq> ?k" "map_of (pp_streams p) k = Some st0" by blast
      moreover from open_entry_at [OF assms(2) this(2)] obtain y where "y \<in> set t" "en_open y" "en_key y = k" .
      ultimately show ?thesis by (intro bexI [of _ y]) (auto simp: close_entries_open)
    qed
  qed (use new(2) tb(2) owned durable st(5) in auto)
qed

lemma close_entries_twice:
  "close_entries chosen (close_entries other t) = close_entries (\<lambda>k. other k \<or> chosen k) t"
  by (auto simp: close_entries_def)

lemma completed_event_key: "event_key (completed_event e k) = k"
  by (simp add: event_key_def completed_event_def split: prod.split)

lemma finish_all_transcript:
  assumes "finish_all env n g e status phase code ks (s, p) = ((s', p'), Inr g')" "transcript_of known s p t"
  shows "transcript_of known s' p' (close_entries (\<lambda>k. k \<in> set ks) t)"
  using assms
proof (induction ks arbitrary: n g s p t)
  case Nil
  then show ?case by (simp add: close_entries_def)
next
  case (Cons k ks)
  obtain s1 p1 c where one: "finish_message env n g (completed_event e k) status phase code (s, p) = ((s1, p1), Inr c)"
      "finish_all env (n + 1) (ec_guard c) e status phase code ks (s1, p1) = ((s', p'), Inr g')"
    using Cons.prems(1) by (auto split: prod.splits sum.splits)
  from finish_message_transcript(1) [OF one(1) Cons.prems(2)]
  have "transcript_of known s1 p1 (close_entries (\<lambda>j. j = k) t)" by (simp add: completed_event_key)
  from Cons.IH [OF one(2) this] show ?case
    by (simp add: close_entries_twice)
qed

text \<open>Closing what has no stream closes nothing.\<close>

lemma close_entries_live:
  assumes "transcript_of known s p t"
  shows "close_entries (\<lambda>k. chosen k \<and> map_of (pp_streams p) k \<noteq> None) t = close_entries chosen t"
proof -
  have "\<not> en_open x \<or> map_of (pp_streams p) (en_key x) \<noteq> None" if "x \<in> set t" for x
  proof -
    have "holds_entry (rv_tables s) p x" using assms that by (simp add: transcript_of_def)
    then show ?thesis by (cases "en_open x") (auto simp: holds_entry_def)
  qed
  moreover have "x\<lparr>en_open := False\<rparr> = x" if "\<not> en_open x" for x using that by (cases x) simp
  ultimately have "(if chosen (en_key x) \<and> map_of (pp_streams p) (en_key x) \<noteq> None then x\<lparr>en_open := False\<rparr> else x)
      = (if chosen (en_key x) then x\<lparr>en_open := False\<rparr> else x)" if "x \<in> set t" for x
    using that by metis
  then show ?thesis by (simp add: close_entries_def)
qed

lemma finish_keys_transcript:
  assumes "finish_keys env g e status phase code chosen a (s, p) = ((s', p'), Inr c)" "transcript_of known s p t"
    "\<And>ks. set (ee_order env ks) = set ks"
  shows "transcript_of known s' p' (close_entries chosen t)"
proof -
  let ?ks = "ee_order env (filter chosen (map fst (pp_streams p)))"
  obtain p1 where all: "finish_all env 0 g e status phase code ?ks (s, p) = ((s', p1), Inr (ec_guard c))"
      "p' = publish_activity a p1"
    using assms(1) by (auto simp: finish_keys_def split: prod.splits sum.splits)
  have "k \<in> set ?ks \<longleftrightarrow> chosen k \<and> map_of (pp_streams p) k \<noteq> None" for k
    unfolding assms(3) by (auto simp: map_of_eq_None_iff)
  then have "(\<lambda>k. k \<in> set ?ks) = (\<lambda>k. chosen k \<and> map_of (pp_streams p) k \<noteq> None)" by (simp only:)
  with finish_all_transcript [OF all(1) assms(2)] close_entries_live [OF assms(2), of chosen] all(2)
  show ?thesis by simp
qed

subsection \<open>The start of a message\<close>

lemma has_open_iff:
  assumes "transcript_of known s p t"
  shows "has_open k t \<longleftrightarrow> map_of (pp_streams p) k \<noteq> None"
proof
  assume "has_open k t"
  then obtain x where x: "x \<in> set t" "en_open x" "en_key x = k" by (auto simp: has_open_def list_ex_iff)
  then have "holds_entry (rv_tables s) p x" using assms by (simp add: transcript_of_def)
  with x show "map_of (pp_streams p) k \<noteq> None" by (auto simp: holds_entry_def)
next
  assume "map_of (pp_streams p) k \<noteq> None"
  then obtain st where "map_of (pp_streams p) k = Some st" by blast
  from open_entry_at [OF assms this] show "has_open k t" by (auto simp: has_open_def list_ex_iff)
qed

lemma map_sum_Inr: "map_sum f id r = Inr x \<longleftrightarrow> r = Inr x"
  by (cases r) auto

lemma streaming_message_Inr:
  "streaming_message env e ordinal = Inr m \<Longrightarrow> msg_id m = ee_id env \<and> msg_content m = []"
  by (auto simp: streaming_message_def new_pending_message_def new_message_def begin_streaming_def map_sum_Inr
      split: if_splits sum.splits)

lemma store_started_Inr:
  assumes "store_started env g e m s = (s', Inr g')"
  obtains t tb where "thread_tx t (Some m) (sg_session_id g) (rv_max_message_bytes s) (rv_tables s) = Inr tb"
    "s' = s\<lparr>rv_tables := bump_revision (sg_session_id g) tb\<rparr>"
  using assms by (auto simp: store_started_def with_session_tx_Inr split: sum.splits prod.splits)

lemma start_message_transcript:
  assumes "start_message env g e (s, p) = ((s', p'), Inr c)" "transcript_of known s p t"
    "has_open (event_key e) t \<or> ee_id env \<notin> known \<union> en_id ` set t"
  shows "transcript_of known s' p'
    (if has_open (event_key e) t then t
     else t @ [\<lparr>en_key = event_key e, en_id = ee_id env, en_text = [], en_open = True\<rparr>])"
proof (cases "has_open (event_key e) t")
  case True
  then have "map_of (pp_streams p) (event_key e) \<noteq> None" using has_open_iff [OF assms(2)] by simp
  then have "(s', p') = (s, p)" using assms(1) by (auto simp: start_message_def split: if_splits)
  with True assms(2) show ?thesis by simp
next
  case False
  let ?k = "event_key e" and ?x = "\<lparr>en_key = event_key e, en_id = ee_id env, en_text = [], en_open = True\<rparr>"
  have durable: "pp_durable p" "\<not> rv_closed s" "bodies_owned (rv_tables s)"
    using assms(2) by (simp_all add: transcript_of_def)
  have none: "map_of (pp_streams p) ?k = None" using False has_open_iff [OF assms(2)] by simp
  obtain ordinal m where m: "streaming_message env e ordinal = Inr m"
      "store_started env g e m s = (s', Inr (ec_guard c))"
      "p' = publish_activity (event_activity e (msg_id m) ''streaming'')
         (put_stream ?k \<lparr>mt_message = m, mt_content = [], mt_length = 0, mt_chunk_count = 0,
            mt_last_updated = ee_clock env 0, mt_terminal = False\<rparr> p)"
    using assms(1) none durable(1)
    by (auto simp: start_message_def Let_def split: if_splits prod.splits sum.splits)
  from store_started_Inr [OF m(2)] obtain th tb where
    tx: "thread_tx th (Some m) (sg_session_id g) (rv_max_message_bytes s) (rv_tables s) = Inr tb"
    and s': "s' = s\<lparr>rv_tables := bump_revision (sg_session_id g) tb\<rparr>" .
  note id = streaming_message_Inr [OF m(1)]
  have out: "ee_id env \<notin> known \<union> en_id ` set t" using assms(3) False by blast
  then have "map_of (tb_messages (rv_tables s)) (ee_id env) = None"
    using assms(2) unfolding transcript_of_def by blast
  with id start_bodies [OF tx _ _ durable(3)] have
    new: "open_body tb \<lparr>mt_message = m, mt_content = [], mt_length = 0, mt_chunk_count = 0,
        mt_last_updated = ee_clock env 0, mt_terminal = False\<rparr>" "bodies_owned tb"
      "\<And>i. i \<noteq> ee_id env \<Longrightarrow> same_body (rv_tables s) tb i"
    by auto
  have old: "holds_entry (rv_tables s') p' y" if y: "y \<in> set t" for y
  proof (rule holds_entry_same)
    show held: "holds_entry (rv_tables s) p y" using assms(2) y by (simp add: transcript_of_def)
    have "en_id y \<noteq> ee_id env" using out y by (metis UnCI imageI)
    then show "same_body (rv_tables s) (rv_tables s') (en_id y)" using new(3) s' by simp
    show "map_of (pp_streams p') (en_key y) = map_of (pp_streams p) (en_key y)" if "en_open y"
      using that held none by (auto simp: m(3) holds_entry_def)
  qed
  have "holds_entry (rv_tables s') p' ?x" using new(1) id s' by (simp add: holds_entry_def m(3))
  moreover have "i \<in> known \<union> en_id ` set (t @ [?x])" if "map_of (tb_messages (rv_tables s')) i \<noteq> None" for i
  proof (cases "i = ee_id env")
    case False
    from new(3) [OF this] that s' have "map_of (tb_messages (rv_tables s)) i \<noteq> None" by (simp add: same_body_def)
    then have "i \<in> known \<union> en_id ` set t" using assms(2) unfolding transcript_of_def by blast
    then show ?thesis by auto
  qed simp
  moreover have "\<exists>y \<in> set (t @ [?x]). en_open y \<and> en_key y = k" if "map_of (pp_streams p') k \<noteq> None" for k
  proof (cases "k = ?k")
    case False
    then have "map_of (pp_streams p) k \<noteq> None" using that by (simp add: m(3))
    then show ?thesis using has_open_iff [OF assms(2), of k] by (auto simp: has_open_def list_ex_iff)
  qed simp
  moreover have "distinct (map en_id (t @ [?x]))" using assms(2) out by (auto simp: transcript_of_def)
  ultimately have "transcript_of known s' p' (t @ [?x])"
    unfolding transcript_of_def using old durable new(2) s' m(3) by auto
  with False show ?thesis by simp
qed

subsection \<open>Runs\<close>

definition transcript_after ::
    "(event_env \<times> provider_event) list \<Rightarrow> transcript_entry list \<Rightarrow> transcript_entry list" where
  "transcript_after es t = fold (\<lambda>(env, e). transcript_step (ee_id env) e) es t"

lemma transcript_step_ids: "\<exists>rest. map en_id (transcript_step i e t) = map en_id t @ rest"
proof -
  have "map en_id (map (extend_entry k b) t) = map en_id t" for k b by (simp add: extend_entry_def comp_def)
  then show ?thesis by (auto simp: transcript_step_def simp del: map_map split: event_kind.split)
qed

lemma transcript_after_ids: "\<exists>rest. map en_id (transcript_after es t) = map en_id t @ rest"
proof (induction es arbitrary: t)
  case (Cons x es)
  obtain env e where x: "x = (env, e)" by (cases x)
  from Cons.IH [of "transcript_step (ee_id env) e t"] transcript_step_ids [of "ee_id env" e t] show ?case
    by (auto simp: transcript_after_def x)
qed (simp add: transcript_after_def)

definition fresh_transcript :: "message_id set \<Rightarrow> transcript_entry list \<Rightarrow> bool" where
  "fresh_transcript known t \<longleftrightarrow> distinct (map en_id t) \<and> known \<inter> set (map en_id t) = {}"

lemma fresh_transcript_prefix:
  "fresh_transcript known t' \<Longrightarrow> map en_id t' = map en_id t @ rest \<Longrightarrow> fresh_transcript known t"
  by (simp only: fresh_transcript_def) (auto simp del: set_map)

lemma handle_event_transcript:
  assumes "handle_event env g e (s, p) = ((s', p'), Inr c)" "transcript_of known s p t"
    "\<And>ks. set (ee_order env ks) = set ks" "fresh_transcript known (transcript_step (ee_id env) e t)"
  shows "transcript_of known s' p' (transcript_step (ee_id env) e t)"
proof -
  have quiet: "transcript_of known s' p' t" if "s' = s" "p' = publish_activity a p" for a
    using that assms(2) by simp
  have valid: "provider_event_valid default_validation_limits e"
    using assms(1) by (auto simp: handle_event_def split: if_splits)
  show ?thesis
  proof (cases "pe_kind e")
    case EventMessageStarted
    have "has_open (event_key e) t \<or> ee_id env \<notin> known \<union> en_id ` set t"
      using assms(4) EventMessageStarted
      by (auto simp: fresh_transcript_def transcript_step_def split: if_splits)
    with start_message_transcript [of env g e s p s' p' c known t] assms(1,2) valid EventMessageStarted
    show ?thesis by (simp add: handle_event_def transcript_step_def)
  next
    case EventMessageDelta
    with append_message_transcript [of env g e s p s' p' c known t] assms(1,2) valid
    show ?thesis by (simp add: handle_event_def transcript_step_def)
  next
    case EventMessageCompleted
    with finish_message_transcript(1) [of env 0 g e MessageCompleted "[]" "[]" s p s' p' c known t] assms(1,2) valid
    show ?thesis by (simp add: handle_event_def transcript_step_def)
  next
    case EventTurnCompleted
    with finish_keys_transcript [OF _ assms(2,3)] assms(1) valid
    show ?thesis by (simp add: handle_event_def transcript_step_def finish_turn_messages_def)
  next
    case EventTurnFailed
    with finish_keys_transcript [OF _ assms(2,3)] assms(1) valid
    show ?thesis by (simp add: handle_event_def transcript_step_def finish_turn_messages_def)
  next
    case EventDisconnected
    with finish_keys_transcript [OF _ assms(2,3)] assms(1) valid
    show ?thesis by (simp add: handle_event_def transcript_step_def finish_disconnected_def)
  qed (use assms(1) valid quiet in \<open>auto simp: handle_event_def transcript_step_def Let_def\<close>)
qed

lemma run_events_transcript:
  assumes "run_events g es (s, p) = ((s', p'), Inr g')" "transcript_of known s p t"
    "\<forall>(env, e) \<in> set es. \<forall>ks. set (ee_order env ks) = set ks"
    "fresh_transcript known (transcript_after es t)"
  shows "transcript_of known s' p' (transcript_after es t)"
  using assms
proof (induction es arbitrary: g s p t)
  case Nil
  then show ?case by (simp add: transcript_after_def)
next
  case (Cons x es)
  obtain env e where x: "x = (env, e)" by (cases x)
  let ?t = "transcript_step (ee_id env) e t"
  have after: "transcript_after (x # es) t = transcript_after es ?t" by (simp add: transcript_after_def x)
  obtain s1 p1 c where one: "handle_event env g e (s, p) = ((s1, p1), Inr c)"
      "run_events (ec_guard c) es (s1, p1) = ((s', p'), Inr g')"
    using Cons.prems(1) by (auto simp: x split: prod.splits sum.splits)
  obtain rest where "map en_id (transcript_after es ?t) = map en_id ?t @ rest"
    using transcript_after_ids by blast
  then have "fresh_transcript known ?t" using fresh_transcript_prefix Cons.prems(4) after by metis
  then have "transcript_of known s1 p1 ?t"
    using handle_event_transcript [OF one(1) Cons.prems(2)] Cons.prems(3) x by simp
  with Cons.IH [OF one(2)] Cons.prems(3,4) after show ?case by simp
qed

text \<open>
  C18. The events of a provider are kept exactly. The processor refines a transcript, in which a start
  adds a message, a delta extends the text of the one open message of its turn and item, and the
  end of a message, of a turn or of the connection closes what it names. After any run of handled
  events, cut into any deltas, every open message is held with its text both in memory and in the
  stored chunks; every closed one has a frozen identity with the length and digest of its text, and
  each of its ranges is read back as that part of the text.
\<close>

theorem events_refine_transcript:
  assumes "run_events g es (s, p) = ((s', p'), Inr g')" "transcript_of known s p t"
    "\<forall>(env, e) \<in> set es. \<forall>ks. set (ee_order env ks) = set ks"
    "fresh_transcript known (transcript_after es t)"
  shows "transcript_of known s' p' (transcript_after es t)
    \<and> (\<forall>x \<in> set (transcript_after es t).
         message_body (rv_tables s') (en_id x) = en_text x
         \<and> (en_open x
            \<or> (\<forall>off len. body_range_valid \<lparr>br_message_id = en_id x, br_expected_length = length (en_text x),
                   br_expected_sha256 = sha256_hex (en_text x), br_offset = off, br_length = len\<rparr> \<longrightarrow>
                (\<exists>part. read_message_body s' \<lparr>br_message_id = en_id x, br_expected_length = length (en_text x),
                     br_expected_sha256 = sha256_hex (en_text x), br_offset = off, br_length = len\<rparr> = Inr part
                   \<and> bp_bytes part = take len (drop off (en_text x))))))"
proof -
  let ?t = "transcript_after es t"
  have run: "transcript_of known s' p' ?t" by (rule run_events_transcript [OF assms])
  have "streamed_body (rv_tables s') (en_id x) (en_text x)" if "x \<in> set ?t" for x
  proof -
    have "holds_entry (rv_tables s') p' x" using run that by (simp add: transcript_of_def)
    then show ?thesis by (auto simp: holds_entry_def open_body_def finished_body_def Let_def split: if_splits)
  qed
  then have streamed: "streamed_body (rv_tables s') (en_id x) (en_text x)" if "x \<in> set ?t" for x
    using that by blast
  have "\<exists>part. read_message_body s' r = Inr part \<and> bp_bytes part = take (br_length r) (drop (br_offset r) (en_text x))"
    if x: "x \<in> set ?t" and r: "body_range_valid r" "br_message_id r = en_id x"
      "br_expected_length r = length (en_text x)" "br_expected_sha256 r = sha256_hex (en_text x)" for x r
  proof -
    have body: "streamed_body (rv_tables s') (en_id x) (en_text x)" using streamed x by blast
    have "\<exists>part. read_message_body s' r = Inr part"
    proof (rule read_consistent)
      show "body_consistent (rv_tables s') (br_message_id r)" using body by (simp add: r streamed_body_def)
      show "\<not> rv_closed s'" using run by (simp add: transcript_of_def)
      show "br_expected_length r = length (stored_body (rv_tables s') (br_message_id r))"
        "equal_fold (br_expected_sha256 r) (sha256_hex (stored_body (rv_tables s') (br_message_id r)))"
        using streamed_stored [OF body] r by (simp_all add: equal_fold_def)
    qed (use r in simp_all)
    then show ?thesis using read_body_slice streamed_stored [OF body] r(2) by metis
  qed
  from this [of _ "\<lparr>br_message_id = i, br_expected_length = n, br_expected_sha256 = d, br_offset = off, br_length = len\<rparr>"
      for i n d off len]
  show ?thesis using run streamed by (auto simp: streamed_body_def)
qed

subsection \<open>An instance\<close>

definition sample_event :: "event_kind \<Rightarrow> bytes \<Rightarrow> provider_event" where
  "sample_event kind text' =
     \<lparr>pe_kind = kind, pe_sequence = 1, pe_thread_id = ''t'', pe_operation_id = ''o'', pe_correlation_id = ''c'',
      pe_conversation_id = ''v'', pe_conversation_ref = ''r'', pe_turn_id = ''u'', pe_turn_ref = ''f'',
      pe_item_ref = ''i'', pe_request_id = [],
      pe_capabilities = \<lparr>pc_resume_conversation = False, pc_streaming = True, pc_steering = False,
        pc_runtime_approvals = False, pc_writable_workspace = False, pc_read_only_filesystem = True,
        pc_exact_read_roots = True, pc_account_login = False, pc_rate_limits = False\<rparr>,
      pe_status = [], pe_text = text', pe_error = [], pe_expires_at = 0,
      pe_scope = ar_scope sample_approval_request, pe_approval = None, pe_decision = ApprovalDeny,
      pe_coalescing_key = [], pe_coalescible = False\<rparr>"

definition sample_event_env :: event_env where
  "sample_event_env =
     \<lparr>ee_clock = (\<lambda>_. 9), ee_tx = (\<lambda>_. \<lparr>te_begin = None, te_commit = None\<rparr>), ee_store_clock = (\<lambda>_. 9),
      ee_id = ''n'', ee_sizes = \<lparr>mz_item = (\<lambda>_. 0), mz_list = (\<lambda>_. 0)\<rparr>, ee_order = (\<lambda>ks. ks), ee_lower = (\<lambda>b. b)\<rparr>"

definition streaming_store :: review_store where
  "streaming_store = sample_store
     \<lparr>rv_tables := (rv_tables sample_store)
        \<lparr>tb_threads := [(''t'',
           \<lparr>hr_session_id = ''s'', hr_title = ''title'', hr_resolution = ResolutionOpen,
            hr_conversation = ConversationStreaming, hr_proposal = ProposalNone, hr_read = ThreadRead,
            hr_provider_conversation_id = None, hr_latest_proposal_id = None, hr_failure_phase = [],
            hr_error_code = [], hr_anchor_version = 1, hr_created_at = 1, hr_updated_at = 1\<rparr>)],
         tb_messages := [(''m'',
           \<lparr>ms_thread_id = ''t'', ms_role = RoleAssistant, ms_content = [], ms_provider_id = ''i'',
            ms_status = MessageStreaming, ms_ordinal = 1, ms_body_length = 0, ms_body_sha256 = sha256_hex [],
            ms_failure_phase = [], ms_error_code = [], ms_created_at = 1, ms_updated_at = 1,
            ms_completed_at = None\<rparr>)]\<rparr>\<rparr>"

definition sample_stream :: message_stream where
  "sample_stream =
     \<lparr>mt_message = \<lparr>msg_id = ''m'', msg_thread_id = ''t'', msg_role = RoleAssistant, msg_content = [],
        msg_provider_id = ''i'', msg_status = MessageStreaming, msg_ordinal = 1, msg_created_at = 1,
        msg_updated_at = 1, msg_completed_at = None, msg_failure_phase = [], msg_error_code = []\<rparr>,
      mt_content = [], mt_length = 0, mt_chunk_count = 0, mt_last_updated = 1, mt_terminal = False\<rparr>"

definition sample_processor :: event_processor where
  "sample_processor =
     \<lparr>pp_streams = [((''t'', ''u'', ''i''), sample_stream)], pp_activity = [], pp_buffer = 2, pp_durable = True\<rparr>"

lemma sample_transcript:
  "transcript_of {} streaming_store sample_processor
     [\<lparr>en_key = (''t'', ''u'', ''i''), en_id = ''m'', en_text = [], en_open = True\<rparr>]"
  by (simp add: transcript_of_def holds_entry_def open_body_def streamed_body_def body_consistent_def
      bodies_owned_def numbered_chunks_def message_chunks_def message_body_def stored_body_def
      highest_ordinal_def streaming_store_def sample_store_def empty_tables_def sample_processor_def
      sample_stream_def equal_fold_def)

lemma sample_event_valid:
  "provider_event_valid default_validation_limits (sample_event EventMessageDelta ''hi'')"
  "provider_event_valid default_validation_limits (sample_event EventMessageCompleted [])"
proof -
  have utf: "utf8_valid ''t''" "utf8_valid ''o''" "utf8_valid ''c''" "utf8_valid ''v''" "utf8_valid ''r''"
    "utf8_valid ''u''" "utf8_valid ''f''" "utf8_valid ''i''" "utf8_valid ''hi''" "utf8_valid []"
    by (simp_all add: utf8_ascii_Cons)
  have nul: "NUL = CHR 0x00" by code_simp
  have limits: "limits_valid default_validation_limits" by simp
  show "provider_event_valid default_validation_limits (sample_event EventMessageDelta ''hi'')"
    "provider_event_valid default_validation_limits (sample_event EventMessageCompleted [])"
    using utf limits
    by (simp_all add: nul provider_event_valid_def sample_event_def valid_event_kind_def local_id_text_def
        bounded_text_def opaque_ref_valid_def opaque_text_def event_content_ok_def
        default_validation_limits_def event_needs_identity_def)
qed

lemma hex_byte:
  assumes "48 \<le> n \<and> n \<le> 57 \<or> 97 \<le> n \<and> n \<le> (102 :: nat)"
  shows "n \<in> byte ` set ''0123456789abcdefABCDEF''"
proof -
  have "set [48..<58] \<union> set [97..<103] \<subseteq> byte ` set ''0123456789abcdefABCDEF''" by code_simp
  moreover have "n \<in> set [48..<58] \<union> set [97..<103]"
    using assms unfolding set_upt Un_iff atLeastLessThan_iff by linarith
  ultimately show ?thesis by blast
qed

lemma sha256_app [simp]: "valid_app_sha256 (sha256_hex b)"
proof -
  have hex: "list_all (\<lambda>c. 48 \<le> byte c \<and> byte c \<le> 57 \<or> 97 \<le> byte c \<and> byte c \<le> 102) (sha256_hex b)"
    using sha256_hex_lower by (auto simp: list_all_iff)
  then have "list_all (\<lambda>c. byte c < 128) (sha256_hex b)" by (auto simp: list_all_iff)
  with ascii_runes [OF this] hex hex_byte show ?thesis
    by (simp add: valid_app_sha256_def valid_hex_def list_all_iff del: set_simps)
qed

lemma sample_append:
  "\<exists>tb. append_body_chunk ''s'' (stream_chunk ''hi'' (extend_stream 9 ''hi'' sample_stream)) 9
     (rv_tables streaming_store) = Inr tb"
  by (simp add: append_body_chunk_def stream_chunk_def extend_stream_def sample_stream_def streaming_store_def
      sample_store_def empty_tables_def chunk_write_valid_def MaxMessageBodyChunk_def MaxStreamedMessageBytes_def
      equal_fold_def message_owner_def select_row_def highest_ordinal_def numbered_chunks_def
      insert_row_def message_body_digest_def message_body_def message_chunks_def)

lemma sample_appended:
  "\<exists>s1 p1 c. handle_event sample_event_env
       \<lparr>sg_session_id = ''s'', sg_lease_id = ''l'', sg_writer_epoch = 2, sg_expected_revision = 4\<rparr>
       (sample_event EventMessageDelta ''hi'') (streaming_store, sample_processor) = ((s1, p1), Inr c)
     \<and> sg_session_id (ec_guard c) = ''s''"
proof -
  let ?g = "\<lparr>sg_session_id = ''s'', sg_lease_id = ''l'', sg_writer_epoch = 2, sg_expected_revision = 4\<rparr>"
  obtain tb where tb: "append_body_chunk ''s'' (stream_chunk ''hi'' (extend_stream 9 ''hi'' sample_stream)) 9
     (rv_tables streaming_store) = Inr tb" using sample_append by blast
  have "split_message_bytes MaxMessageBodyChunk ''hi'' = [''hi'']"
    by (simp add: split_message_bytes.simps part_end_def MaxMessageBodyChunk_def)
  moreover have "verify_guard (rv_tables streaming_store) ?g = Inr ()"
    by (simp add: verify_guard_def streaming_store_def sample_store_def select_row_def)
  moreover have "guard_matches tb ?g"
    using append_chunk_sessions [OF tb]
    by (simp add: guard_matches_def streaming_store_def sample_store_def)
  ultimately have "with_session_tx \<lparr>te_begin = None, te_commit = None\<rparr> ?g
      (append_body_chunk ''s'' (stream_chunk ''hi'' (extend_stream 9 ''hi'' sample_stream)) 9) streaming_store
    = (streaming_store\<lparr>rv_tables := bump_revision ''s'' tb\<rparr>, Inr (next_guard ?g))"
    using tb by (simp add: with_session_tx_Inr guard_valid_def streaming_store_def sample_store_def)
  then show ?thesis
    using sample_event_valid(1) \<open>split_message_bytes MaxMessageBodyChunk ''hi'' = [''hi'']\<close>
    by (simp add: handle_event_def append_message_def sample_event_def event_key_def sample_processor_def
        sample_stream_def sample_event_env_def MaxStreamedMessageBytes_def Let_def next_guard_def)
qed

lemma events_refine_transcript_witness:
  "\<exists>s1 p1 g1. run_events \<lparr>sg_session_id = ''s'', sg_lease_id = ''l'', sg_writer_epoch = 2, sg_expected_revision = 4\<rparr>
       [(sample_event_env, sample_event EventMessageDelta ''hi'')] (streaming_store, sample_processor) = ((s1, p1), Inr g1)
     \<and> message_body (rv_tables s1) ''m'' = ''hi''"
proof -
  let ?g = "\<lparr>sg_session_id = ''s'', sg_lease_id = ''l'', sg_writer_epoch = 2, sg_expected_revision = 4\<rparr>"
  let ?es = "[(sample_event_env, sample_event EventMessageDelta ''hi'')]"
  let ?t = "[\<lparr>en_key = (''t'', ''u'', ''i''), en_id = ''m'', en_text = [], en_open = True\<rparr>]"
  obtain s1 p1 g1 where run: "run_events ?g ?es (streaming_store, sample_processor) = ((s1, p1), Inr g1)"
    using sample_appended by auto
  have after: "transcript_after ?es ?t = [\<lparr>en_key = (''t'', ''u'', ''i''), en_id = ''m'', en_text = ''hi'', en_open = True\<rparr>]"
    by (simp add: transcript_after_def transcript_step_def extend_entry_def event_key_def sample_event_def)
  have "\<forall>(env, e) \<in> set ?es. \<forall>ks. set (ee_order env ks) = set ks" by (simp add: sample_event_env_def)
  moreover have "fresh_transcript {} (transcript_after ?es ?t)" by (simp add: after fresh_transcript_def)
  ultimately show ?thesis
    using events_refine_transcript [OF run sample_transcript] run after by auto
qed

subsection \<open>Three surprises\<close>

lemma refused_body:
  assumes "body (rv_tables s) = Inl e"
  shows "\<exists>err. with_session_tx env g body s = (s, Inl err)"
proof (cases "with_session_tx env g body s")
  case (Pair s' r)
  have "\<nexists>g'. r = Inr g'" using Pair assms by (auto simp: with_session_tx_Inr)
  then obtain err where "r = Inl err" by (cases r) auto
  with Pair show ?thesis using with_session_tx_Inl by blast
qed

text \<open>
  The error text of a failed turn becomes the error code of its messages. A text with a line break is
  refused by the store as a code, but the message has ended in memory: the failure is never recorded,
  and the message can never be ended again.
\<close>

lemma failure_never_recorded:
  assumes "map_of (pp_streams p) (event_key e) = Some st" "\<not> mt_terminal st" "pp_durable p"
    "message_valid (mt_message st)" "message_active (mt_message st)"
    "valid_transition_time (msg_updated_at (mt_message st)) (ee_clock env n)"
    "valid_metadata code" "LF \<in> set code" "\<not> rv_closed s"
  shows "\<exists>p' err. finish_message env n g e MessageFailed ''provider'' code (s, p) = ((s, p'), Inl err)
    \<and> (\<forall>env n g status phase code. status \<in> {MessageCompleted, MessageFailed, MessageCancelled} \<longrightarrow>
         finish_message env n g e status phase code (s, p') = ((s, p'), Inl (EventDomainError ErrInvalidStatusTransition)))"
proof -
  let ?now = "ee_clock env n"
  let ?m = "(mt_message st)\<lparr>msg_status := MessageFailed, msg_failure_phase := ''provider'', msg_error_code := code,
      msg_updated_at := ?now, msg_completed_at := Some ?now\<rparr>"
  let ?st = "st\<lparr>mt_message := ?m\<rparr>"
  have phase: "valid_metadata ''provider''" by (simp add: valid_metadata_def utf8_ascii_Cons)
  have ended: "finish_change MessageFailed ''provider'' code ?now (mt_message st) = Inr ?m"
    using assms(4-7) phase by (simp add: finish_change_def fail_message_def)
  have "\<not> body_identity_valid (stream_identity MessageFailed ''provider'' code ?now ?st)"
    using assms(7,8) by (auto simp: body_identity_valid_def stream_identity_def valid_provider_metadata_optional_def)
  then have "finalize_body sid (stream_identity MessageFailed ''provider'' code ?now ?st) tb = Inl StoreInput" for sid tb
    by (simp add: finalize_body_def)
  then obtain err where "with_session_tx (ee_tx env n) g
      (finalize_body (sg_session_id g) (stream_identity MessageFailed ''provider'' code ?now ?st)) s = (s, Inl err)"
    using refused_body by blast
  then have "finish_message env n g e MessageFailed ''provider'' code (s, p)
      = ((s, put_stream (event_key e) ?st p), Inl (EventStoreError err))"
    using assms(1-3) ended by (simp add: finish_message_def Let_def)
  moreover have "finish_message env' n' g' e status ph c (s, put_stream (event_key e) ?st p)
      = ((s, put_stream (event_key e) ?st p), Inl (EventDomainError ErrInvalidStatusTransition))"
    if "status \<in> {MessageCompleted, MessageFailed, MessageCancelled}" for env' n' g' status ph c
    using that assms(2)
    by (auto simp: finish_message_def finish_change_def message_op_defs guarded_def)
  ultimately show ?thesis by blast
qed

text \<open>After a part the store has refused, the stream can never store another one.\<close>

lemma refused_part_ends_stream:
  assumes "open_body tb st" "lost \<noteq> []"
  shows "\<nexists>tb'. append_body_chunk sid
      (stream_chunk part (extend_stream t2 part (extend_stream t1 lost st))) now tb = Inr tb'"
proof
  let ?c = "stream_chunk part (extend_stream t2 part (extend_stream t1 lost st))"
  assume "\<exists>tb'. append_body_chunk sid ?c now tb = Inr tb'"
  then obtain m where "map_of (tb_messages tb) (cw_message_id ?c) = Some m"
      "ms_body_length m + length (cw_bytes ?c) = cw_total_length ?c"
    by (auto simp: append_body_chunk_def message_owner_Inr split: if_splits)
  moreover have streamed: "streamed_body tb (msg_id (mt_message st)) (mt_content st)"
      "mt_length st = length (mt_content st)"
    using assms(1) by (simp_all add: open_body_def Let_def)
  then obtain m' where "map_of (tb_messages tb) (msg_id (mt_message st)) = Some m'" "ms_body_length m' = mt_length st"
    using streamed_stored [OF streamed(1)] by (auto simp: streamed_body_def body_consistent_def)
  ultimately show False using assms(2) by (simp add: stream_chunk_def extend_stream_def)
qed

text \<open>Without persistence the text of a message reaches nobody: what ends is the empty message.\<close>

lemma text_lost_without_persistence:
  assumes "\<not> pp_durable p" "map_of (pp_streams p) (event_key e) = Some st"
    "finish_message env n g e status phase code (s, p) = ((s', p'), Inr c)"
  shows "\<exists>m. ec_message c = Some m \<and> msg_content m = msg_content (mt_message st)"
    "append_parts env False n g parts st s = (s, st', r) \<Longrightarrow> mt_message st' = mt_message st"
proof -
  have "finish_change status phase code now m = Inr m' \<Longrightarrow> msg_content m' = msg_content m" for now m m'
    by (auto simp: finish_change_def message_op_defs split: message_status.splits)
  then show "\<exists>m. ec_message c = Some m \<and> msg_content m = msg_content (mt_message st)"
    using assms by (auto simp: finish_message_def Let_def split: if_splits sum.splits)
  show "append_parts env False n g parts st s = (s, st', r) \<Longrightarrow> mt_message st' = mt_message st"
    by (induction parts arbitrary: n st) (auto simp: Let_def extend_stream_def)
qed

end
