(* ===== verification/Apply_Laws.thy ===== *)
theory Apply_Laws
  imports Apply_Execution Transcript_Runs
begin

text \<open>
  Laws of the apply journal: what a transaction leaves of it, how a row moves, and that its rows stay
  well formed and only ever advance along the table of phases.
\<close>

subsection \<open>Rows\<close>

lemma find_row_Some: "find_row p rows = Some r \<Longrightarrow> \<exists>i. (i, r) \<in> set rows \<and> p (i, r)"
  by (induction rows) (auto simp: find_row_def split: if_splits)

lemma find_row_None: "find_row p rows = None \<longleftrightarrow> (\<forall>x \<in> set rows. \<not> p x)"
  by (auto simp: find_row_def find_None_iff)

lemma query_pairs [simp]:
  "by_key sid k (i, r) \<longleftrightarrow> jr_session_id r = sid \<and> jr_key r = k"
  "by_proposal pid v (i, r) \<longleftrightarrow> jr_proposal_id r = pid \<and> jr_proposal_version r = v"
  by (simp_all add: by_key_def by_proposal_def)

lemma find_row_by_id [simp]: "find_row (by_id i) rows = map_of rows i"
  by (induction rows) (auto simp: find_row_def by_id_def)

lemma update_operation_map:
  "map_of (update_operation o' rows) i =
     (if i = ao_id o' then map_option (\<lambda>r. r\<lparr>jr_phase := ao_phase o', jr_operation := o'\<rparr>) (map_of rows i)
      else map_of rows i)"
  by (induction rows) (auto simp: update_operation_def)

lemma update_operation_keys [simp]: "map fst (update_operation o' rows) = map fst rows"
  by (induction rows) (auto simp: update_operation_def)

lemma decode_Inr [simp]:
  "decode_operation json r = Inr o' \<longleftrightarrow> jr_operation r = o' \<and> apply_operation_valid json o'"
  by (auto simp: decode_operation_def)

lemma load_operation_Inr:
  "load_operation json i s = Inr o' \<longleftrightarrow>
     \<not> rv_closed (js_review s) \<and> i \<noteq> [] \<and> (\<exists>r. map_of (js_rows s) i = Some r \<and> jr_operation r = o')
     \<and> apply_operation_valid json o'"
  by (auto simp: load_operation_def query_operation_def split: option.splits)

subsection \<open>Transactions\<close>

lemma journal_tx_Inr:
  "journal_tx env g body s = (s', Inr g') \<longleftrightarrow>
     \<not> rv_closed (js_review s) \<and> guard_valid g \<and> te_begin env = None \<and> te_commit env = None
     \<and> verify_guard (rv_tables (js_review s)) g = Inr () \<and> guard_matches (rv_tables (js_review s)) g
     \<and> (\<exists>rows. body (js_rows s) = Inr rows
          \<and> s' = \<lparr>js_review = (js_review s)\<lparr>rv_tables := bump_revision (sg_session_id g) (rv_tables (js_review s))\<rparr>,
                  js_rows = rows\<rparr>)
     \<and> g' = next_guard g"
  by (auto simp: journal_tx_def split: option.splits sum.splits)

lemma journal_tx_Inl: "journal_tx env g body s = (s', Inl e) \<Longrightarrow> s' = s"
  by (auto simp: journal_tx_def split: option.splits sum.splits if_splits)

lemma journal_transition_Inl: "journal_transition json env g o' s = (s', Inl e) \<Longrightarrow> s' = s"
  by (auto simp: journal_transition_def dest: journal_tx_Inl split: prod.splits sum.splits)

lemma journal_transition_Inr:
  "journal_transition json env g o' s = (s', Inr g') \<longleftrightarrow>
     journal_tx env g (transition_operation json (sg_session_id g) o') s = (s', Inr g')"
  by (auto simp: journal_transition_def split: prod.splits sum.splits)

lemma transition_Inr:
  assumes "transition_operation json sid o' rows = Inr rows'"
  obtains r where "apply_operation_valid json o'" "ao_session_id o' = sid" "map_of rows (ao_id o') = Some r"
    "apply_operation_valid json (jr_operation r)"
    "rows' = rows \<and> jr_operation r = o'
     \<or> rows' = update_operation o' rows \<and> same_lineage (jr_operation r) o'
       \<and> valid_apply_transition (ao_phase (jr_operation r)) (ao_phase o') \<and> jr_phase r = ao_phase (jr_operation r)"
  using assms by (auto simp: transition_operation_def split: if_splits option.splits)

lemma same_lineage_fields:
  assumes "same_lineage a b"
  shows "ao_id a = ao_id b" "ao_session_id a = ao_session_id b" "ao_idempotency_key a = ao_idempotency_key b"
    "ao_proposal_id a = ao_proposal_id b" "ao_proposal_version a = ao_proposal_version b"
    "ao_patch_sha256 a = ao_patch_sha256 b" "ao_preconditions a = ao_preconditions b" "ao_evidence a = ao_evidence b"
    "ao_destination a = ao_destination b" "ao_workspace_id a = ao_workspace_id b" "ao_thread_id a = ao_thread_id b"
    "ao_artifact a = ao_artifact b"
  using arg_cong [OF assms [unfolded same_lineage_def], of ao_id]
    arg_cong [OF assms [unfolded same_lineage_def], of ao_session_id]
    arg_cong [OF assms [unfolded same_lineage_def], of ao_idempotency_key]
    arg_cong [OF assms [unfolded same_lineage_def], of ao_proposal_id]
    arg_cong [OF assms [unfolded same_lineage_def], of ao_proposal_version]
    arg_cong [OF assms [unfolded same_lineage_def], of ao_patch_sha256]
    arg_cong [OF assms [unfolded same_lineage_def], of ao_preconditions]
    arg_cong [OF assms [unfolded same_lineage_def], of ao_evidence]
    arg_cong [OF assms [unfolded same_lineage_def], of ao_destination]
    arg_cong [OF assms [unfolded same_lineage_def], of ao_workspace_id]
    arg_cong [OF assms [unfolded same_lineage_def], of ao_thread_id]
    arg_cong [OF assms [unfolded same_lineage_def], of ao_artifact]
  by (simp_all add: lineage_def)

lemma same_lineage_refl [simp]: "same_lineage a a"
  by (simp add: same_lineage_def)

lemma same_lineage_trans: "same_lineage a b \<Longrightarrow> same_lineage b c \<Longrightarrow> same_lineage a c"
  by (simp add: same_lineage_def)

lemma same_lineage_updates [simp]:
  "same_lineage a (a\<lparr>ao_phase := x, ao_failure := f, ao_verification := v\<rparr>)"
  "same_lineage a (a\<lparr>ao_phase := x\<rparr>)"
  "same_lineage a (a\<lparr>ao_phase := x, ao_failure := f, ao_verification := v, ao_completed_at := c\<rparr>)"
  "same_lineage a (start_mutation a)"
  by (simp_all add: same_lineage_def lineage_def start_mutation_def)

subsection \<open>Well-formed rows\<close>

definition row_wf :: "evidence_json \<Rightarrow> operation_id \<Rightarrow> journal_row \<Rightarrow> bool" where
  "row_wf json i r \<longleftrightarrow>
     apply_operation_valid json (jr_operation r) \<and> ao_id (jr_operation r) = i
     \<and> r = row_of_operation (jr_operation r)"

definition journal_wf :: "evidence_json \<Rightarrow> journal_table \<Rightarrow> bool" where
  "journal_wf json rows \<longleftrightarrow>
     distinct (map fst rows) \<and> (\<forall>(i, r) \<in> set rows. row_wf json i r)
     \<and> distinct (map (\<lambda>(_, r). (jr_session_id r, jr_key r)) rows)
     \<and> distinct (map (\<lambda>(_, r). (jr_proposal_id r, jr_proposal_version r)) rows)"

lemma journal_wf_empty [simp]: "journal_wf json []"
  by (simp add: journal_wf_def)

lemma row_moved:
  assumes "row_wf json (ao_id o') r" "same_lineage (jr_operation r) o'"
  shows "r\<lparr>jr_phase := ao_phase o', jr_operation := o'\<rparr> = row_of_operation o'"
  using assms(1) same_lineage_fields [OF assms(2)]
  by (cases r) (simp add: row_wf_def row_of_operation_def)

lemma update_operation_columns:
  assumes "\<And>r. f (r\<lparr>jr_phase := ao_phase o', jr_operation := o'\<rparr>) = f r"
  shows "map (\<lambda>(_, r). f r) (update_operation o' rows) = map (\<lambda>(_, r). f r) rows"
  using assms by (induction rows) (auto simp: update_operation_def)

lemma transition_wf:
  assumes "transition_operation json sid o' rows = Inr rows'" "journal_wf json rows"
  shows "journal_wf json rows'"
  using assms(1)
proof (rule transition_Inr)
  fix r
  assume o': "apply_operation_valid json o'" and r: "map_of rows (ao_id o') = Some r"
    and moved: "rows' = rows \<and> jr_operation r = o'
      \<or> rows' = update_operation o' rows \<and> same_lineage (jr_operation r) o'
        \<and> valid_apply_transition (ao_phase (jr_operation r)) (ao_phase o') \<and> jr_phase r = ao_phase (jr_operation r)"
  show ?thesis
  proof (cases "rows' = rows")
    case False
    then have rows': "rows' = update_operation o' rows" "same_lineage (jr_operation r) o'" using moved by auto
    have distinct: "distinct (map fst rows)" and all_rows: "\<And>i q. (i, q) \<in> set rows \<Longrightarrow> row_wf json i q"
      using assms(2) by (auto simp: journal_wf_def)
    have "row_wf json i q" if "(i, q) \<in> set (update_operation o' rows)" for i q
    proof -
      from that obtain q0 where q0: "(i, q0) \<in> set rows"
          "q = (if i = ao_id o' then q0\<lparr>jr_phase := ao_phase o', jr_operation := o'\<rparr> else q0)"
        by (auto simp: update_operation_def split: if_splits)
      show ?thesis
      proof (cases "i = ao_id o'")
        case True
        then have "q0 = r" using q0 r distinct by (simp add: map_of_eq_Some_iff)
        then have "q = row_of_operation o'" using q0 True row_moved [OF all_rows rows'(2)] r by (simp add: map_of_SomeD)
        then show ?thesis using o' True by (simp add: row_wf_def row_of_operation_def)
      qed (use q0 all_rows in simp)
    qed
    moreover have "map (\<lambda>(_, r). (jr_session_id r, jr_key r)) (update_operation o' rows)
        = map (\<lambda>(_, r). (jr_session_id r, jr_key r)) rows"
      "map (\<lambda>(_, r). (jr_proposal_id r, jr_proposal_version r)) (update_operation o' rows)
        = map (\<lambda>(_, r). (jr_proposal_id r, jr_proposal_version r)) rows"
      by (rule update_operation_columns, simp)+
    ultimately show ?thesis using assms(2) rows'(1) by (auto simp: journal_wf_def)
  qed (use assms(2) in simp)
qed

lemma compare_found_Inr:
  "compare_found json p o' rows otherwise = Inr rows' \<Longrightarrow>
     rows' = rows \<or> find_row p rows = None \<and> otherwise = Inr rows'"
  by (auto simp: compare_found_def split: option.splits if_splits)

lemma prepare_Inr:
  assumes "prepare_operation json sid owner o' rows = Inr rows'"
  shows "rows' = rows
    \<or> apply_operation_valid json o' \<and> ao_session_id o' = sid \<and> ao_phase o' = ApplyPrepared
      \<and> map_of rows (ao_id o') = None
      \<and> find_row (by_key (ao_session_id o') (ao_idempotency_key o')) rows = None
      \<and> find_row (by_proposal (ao_proposal_id o') (ao_proposal_version o')) rows = None
      \<and> rows' = rows @ [(ao_id o', row_of_operation o')]"
  using assms
  by (auto simp: prepare_operation_def insert_operation_def dest!: compare_found_Inr split: if_splits option.splits)

lemma prepare_wf:
  assumes "prepare_operation json sid owner o' rows = Inr rows'" "journal_wf json rows"
  shows "journal_wf json rows'"
  using prepare_Inr [OF assms(1)] assms(2)
  by (fastforce simp: journal_wf_def row_wf_def row_of_operation_def find_row_None map_of_eq_None_iff)

end
