(* ===== verification/Apply_Preflight.thy ===== *)
theory Apply_Preflight
  imports Apply_Laws
begin

text \<open>
  The preparation of an apply operation (\<^verbatim>\<open>internal/app/apply_preflight.go\<close>): a proposal version is
  compared with the destination before and after Git's own check of its patch, and the operation is
  recorded while the lock of the destination is held. The lock, the inspector, the checker, the
  proposal tables and the clock are the environment of the call.
\<close>

subsection \<open>Requests\<close>

record preflight_request =
  fr_guard :: session_write_guard
  fr_operation_id :: operation_id
  fr_proposal_id :: proposal_id
  fr_proposal_version :: version_number
  fr_review_revision :: nat
  fr_idempotency_key :: bytes
  fr_repository :: repository
  fr_worktree :: worktree_ref

definition preflight_request_valid :: "preflight_request \<Rightarrow> bool" where
  "preflight_request_valid r \<longleftrightarrow>
     \<not> (\<not> guard_valid (fr_guard r) \<or> fr_operation_id r = [] \<or> fr_proposal_id r = [] \<or> fr_proposal_version r = 0
        \<or> fr_review_revision r = 0 \<or> \<not> safe_text (fr_idempotency_key r) \<or> \<not> repository_valid (fr_repository r)
        \<or> \<not> worktree_ref_valid (fr_worktree r) \<or> wt_repository_id (fr_worktree r) \<noteq> rp_id (fr_repository r))"

record inspection_request =
  iq_repository :: repository
  iq_worktree :: worktree_ref
  iq_destination :: destination_constraints
  iq_preconditions :: "path_precondition list"
  iq_conversion_version :: nat
  iq_conversion_fingerprint :: bytes

definition inspection_request_valid :: "inspection_request \<Rightarrow> bool" where
  "inspection_request_valid r \<longleftrightarrow>
     \<not> (\<not> repository_valid (iq_repository r) \<or> \<not> worktree_ref_valid (iq_worktree r)
        \<or> wt_repository_id (iq_worktree r) \<noteq> rp_id (iq_repository r) \<or> \<not> destination_valid (iq_destination r)
        \<or> dc_worktree_id (iq_destination r) \<noteq> wt_id (iq_worktree r) \<or> iq_conversion_version r = 0
        \<or> iq_conversion_fingerprint r \<noteq> [] \<and> \<not> valid_app_sha256 (iq_conversion_fingerprint r))
     \<and> apply_preconditions_valid (iq_preconditions r)"

text \<open>The request of a check has the form of the request of a mutation.\<close>

definition patch_request_valid :: "mutation_request \<Rightarrow> bool" where
  "patch_request_valid r \<longleftrightarrow>
     \<not> (\<not> repository_valid (mr_repository r) \<or> \<not> worktree_ref_valid (mr_worktree r)
        \<or> wt_repository_id (mr_worktree r) \<noteq> rp_id (mr_repository r) \<or> \<not> valid_app_sha256 (mr_patch_sha256 r)
        \<or> mr_patch_bytes r = 0 \<or> mr_policy_version r = 0)"

record preflight_env =
  fe_lock :: "apply_error option"
  fe_proposal :: "(apply_error, proposal_aggregate) result"
  fe_artifacts :: "(operation_id \<Rightarrow> (apply_error, artifact_facts) result) option"
  fe_before :: "inspection_request \<Rightarrow> (apply_error, destination_evidence) result"
  fe_check :: "mutation_request \<Rightarrow> apply_error option"
  fe_after :: "inspection_request \<Rightarrow> (apply_error, destination_evidence) result"
  fe_clock :: instant
  fe_tx :: tx_env
  fe_owner :: "proposal_id \<Rightarrow> workspace_id \<Rightarrow> review_thread_id \<Rightarrow> apply_error option"

record preparation =
  pn_operation :: apply_operation
  pn_guard :: session_write_guard

subsection \<open>Checks\<close>

definition apply_policy_version :: "proposed_patch \<Rightarrow> nat" where "apply_policy_version p = 1"

definition patch_identity_check :: "proposed_patch \<Rightarrow> (apply_error, unit) result" where
  "patch_identity_check p =
     (if \<not> proposed_patch_valid p \<or> \<not> version_can_apply (pv_status p) \<or> pv_preconditions p = []
      then Inl ErrApplyStale
      else if pv_artifact p = no_artifact
      then (if pv_patch_bytes p = [] then Inl ErrApplyUnsupported else Inr ())
      else if pa_patch_sha256 (pv_artifact p) \<noteq> pv_patch_sha256 p \<or> pa_patch_bytes (pv_artifact p) = 0
              \<or> pa_patch_format_version (pv_artifact p) = 0 \<or> pa_rename_policy_version (pv_artifact p) = 0
              \<or> pa_conversion_policy_version (pv_artifact p) = 0
      then Inl ErrApplyUnsupported else Inr ())"

definition inspection_check ::
    "evidence_json \<Rightarrow> destination_evidence \<Rightarrow> proposed_patch \<Rightarrow> worktree_ref \<Rightarrow> inspection_request
     \<Rightarrow> (apply_error, unit) result" where
  "inspection_check json e p w r =
     (if \<not> destination_evidence_valid (ej_destination json) e \<or> de_repository_id e = []
         \<or> de_worktree_id e \<noteq> wt_id w \<or> de_target_kind e \<noteq> dc_target_kind (pv_destination p)
         \<or> \<not> capability_valid (de_capability e)
      then Inl ErrApplyUnsupported
      else if de_conversion_version e \<noteq> iq_conversion_version r
              \<or> iq_conversion_fingerprint r \<noteq> [] \<and> de_conversion_fingerprint e \<noteq> iq_conversion_fingerprint r
      then Inl ErrApplyStale
      else if de_attributes_changed e then Inl ErrApplyUnsupported
      else if dc_target_kind (pv_destination p) = TargetLocal
                \<and> de_tree_fingerprint e \<noteq> dc_expected_fingerprint (pv_destination p)
              \<or> dc_target_kind (pv_destination p) \<noteq> TargetLocal \<and> de_head e \<noteq> dc_expected_head (pv_destination p)
      then Inl ErrApplyStale
      else if \<not> same_preconditions (de_paths e) (pv_preconditions p) then Inl ErrApplyStale
      else if \<not> list_all (\<lambda>x. ix_stage x = 0 \<and> ix_flags x = []) (ie_entries (de_index e))
      then Inl ErrApplyUnsupported else Inr ())"

definition known_operation ::
    "evidence_json \<Rightarrow> preflight_request \<Rightarrow> apply_operation \<Rightarrow> (apply_error, preparation) result" where
  "known_operation json r o' =
     (if \<not> apply_operation_valid json o' \<or> ao_id o' \<noteq> fr_operation_id r \<or> ao_proposal_id o' \<noteq> fr_proposal_id r
         \<or> ao_proposal_version o' \<noteq> fr_proposal_version r \<or> ao_review_revision o' \<noteq> fr_review_revision r
         \<or> ao_session_revision o' > sg_expected_revision (fr_guard r)
         \<or> de_repository_id (ao_evidence o') \<noteq> rp_id (fr_repository r)
         \<or> de_worktree_id (ao_evidence o') \<noteq> wt_id (fr_worktree r)
      then Inl ErrApplyOperationConflict
      else if ao_phase o' \<noteq> ApplyPrepared then Inl ErrApplyOperationAlreadyClosed
      else Inr \<lparr>pn_operation = o', pn_guard = fr_guard r\<rparr>)"

definition preflight_proposal ::
    "preflight_env \<Rightarrow> preflight_request \<Rightarrow> (apply_error, proposed_patch) result" where
  "preflight_proposal env r =
     bind_result (fe_proposal env) (\<lambda>a.
       if \<not> aggregate_valid a \<or> pr_id (ag_proposal a) \<noteq> fr_proposal_id r
          \<or> pw_session_id (ag_workspace a) \<noteq> sg_session_id (fr_guard r)
       then Inl ErrInvalidApplyPreflight
       else if pw_repository_id (ag_workspace a) \<noteq> rp_id (fr_repository r)
               \<or> pw_worktree_id (ag_workspace a) \<noteq> wt_id (fr_worktree r)
       then Inl ErrApplyStale
       else
         (case proposal_version_of a (fr_proposal_version r) of
            None \<Rightarrow> Inl ErrApplyStale
          | Some p \<Rightarrow>
              if \<not> version_can_apply (pv_status p) \<or> pv_version p \<noteq> fr_proposal_version r
                 \<or> dc_worktree_id (pv_destination p) \<noteq> wt_id (fr_worktree r)
              then Inl ErrApplyStale
              else bind_result (patch_identity_check p) (\<lambda>_. Inr p)))"

text \<open>Two observations around the check of the patch.\<close>

definition observe_twice ::
    "evidence_json \<Rightarrow> preflight_env \<Rightarrow> preflight_request \<Rightarrow> proposed_patch \<Rightarrow> (apply_error, destination_evidence) result" where
  "observe_twice json env r p =
     bind_result (patch_stream (fe_artifacts env) p) (\<lambda>(stream, version, fingerprint).
       let q = \<lparr>iq_repository = fr_repository r, iq_worktree = fr_worktree r, iq_destination = pv_destination p,
                iq_preconditions = pv_preconditions p, iq_conversion_version = version,
                iq_conversion_fingerprint = fingerprint\<rparr> in
       bind_result (fe_before env q) (\<lambda>before'.
       bind_result (inspection_check json before' p (fr_worktree r) q) (\<lambda>_.
         case fe_check env \<lparr>mr_repository = fr_repository r, mr_worktree = fr_worktree r,
                mr_patch_sha256 = pv_patch_sha256 p, mr_patch_bytes = patch_size p,
                mr_policy_version = apply_policy_version p, mr_stream = stream\<rparr> of
           Some err \<Rightarrow> Inl err
         | None \<Rightarrow>
             bind_result (fe_after env q) (\<lambda>after'.
             bind_result (inspection_check json after' p (fr_worktree r) q) (\<lambda>_.
               if de_evidence_hash before' \<noteq> de_evidence_hash after' then Inl ErrApplyPreflightRace
               else Inr after')))))"

definition prepared_operation ::
    "preflight_request \<Rightarrow> proposed_patch \<Rightarrow> destination_evidence \<Rightarrow> instant \<Rightarrow> apply_operation" where
  "prepared_operation r p e now =
     \<lparr>ao_version = ApplyOperationVersion, ao_id = fr_operation_id r, ao_session_id = sg_session_id (fr_guard r),
      ao_proposal_id = pv_proposal_id p, ao_workspace_id = pv_workspace_id p, ao_thread_id = pv_thread_id p,
      ao_proposal_version = pv_version p, ao_idempotency_key = fr_idempotency_key r,
      ao_review_revision = fr_review_revision r, ao_session_revision = sg_expected_revision (fr_guard r),
      ao_patch_sha256 = pv_patch_sha256 p, ao_patch_bytes = patch_size p, ao_artifact = pv_artifact p,
      ao_destination = pv_destination p, ao_baseline = pv_baseline p, ao_result = pv_result p,
      ao_preconditions = pv_preconditions p, ao_evidence = e, ao_policy_version = apply_policy_version p,
      ao_phase = ApplyPrepared, ao_failure = FailureNone, ao_verification = no_verification,
      ao_created_at = now, ao_prepared_at = now, ao_completed_at = None\<rparr>"

definition prepare_fresh ::
    "evidence_json \<Rightarrow> preflight_env \<Rightarrow> preflight_request \<Rightarrow> journal_store
     \<Rightarrow> journal_store \<times> (apply_error, preparation) result" where
  "prepare_fresh json env r s =
     (case bind_result (preflight_proposal env r)
             (\<lambda>p. bind_result (observe_twice json env r p) (\<lambda>e. Inr (p, e))) of
        Inl err \<Rightarrow> (s, Inl err)
      | Inr (p, e) \<Rightarrow>
          if is_zero_time (fe_clock env) then (s, Inl ErrInvalidApplyPreflight)
          else
            (let o' = prepared_operation r p e (fe_clock env) in
             if \<not> apply_operation_valid json o' then (s, Inl ErrInvalidApplyPreflight)
             else
               (case journal_tx (fe_tx env) (fr_guard r)
                       (prepare_operation json (sg_session_id (fr_guard r)) (fe_owner env) o') s of
                  (s, Inl err) \<Rightarrow> (s, Inl err)
                | (s, Inr g) \<Rightarrow> (s, Inr \<lparr>pn_operation = o', pn_guard = g\<rparr>))))"

definition prepare_apply ::
    "evidence_json \<Rightarrow> preflight_env \<Rightarrow> preflight_request \<Rightarrow> journal_store
     \<Rightarrow> journal_store \<times> (apply_error, preparation) result" where
  "prepare_apply json env r s =
     (if \<not> preflight_request_valid r then (s, Inl ErrInvalidApplyPreflight)
      else
        (case fe_lock env of
           Some err \<Rightarrow> (s, Inl err)
         | None \<Rightarrow>
             (case load_operation_by_key json (sg_session_id (fr_guard r)) (fr_idempotency_key r) s of
                Inr o' \<Rightarrow> (s, known_operation json r o')
              | Inl err \<Rightarrow>
                  if err \<noteq> ErrApplyOperationNotFound then (s, Inl err)
                  else
                    (case load_operation_for_proposal json (fr_proposal_id r) (fr_proposal_version r) s of
                       Inr _ \<Rightarrow> (s, Inl ErrApplyOperationConflict)
                     | Inl err \<Rightarrow>
                         if err \<noteq> ErrApplyOperationNotFound then (s, Inl err)
                         else prepare_fresh json env r s))))"

end
