(* ===== verification/Apply_Safety.thy ===== *)
theory Apply_Safety
  imports Apply_Laws
begin

text \<open>
  What the outcome of an apply operation means, and how a call moves its row: the destination is only
  ever mutated from a clean slate, and an operation is recorded as applied only when the observed paths
  are the result of its proposal.
\<close>

subsection \<open>The meaning of an observation\<close>

definition globals_kept :: "apply_operation \<Rightarrow> verification_evidence \<Rightarrow> bool" where
  "globals_kept o' e \<longleftrightarrow>
     ve_operation_id e = ao_id o' \<and> ve_repository_id e = de_repository_id (ao_evidence o')
     \<and> ve_worktree_id e = de_worktree_id (ao_evidence o') \<and> ve_target_kind e = dc_target_kind (ao_destination o')
     \<and> ve_index e = de_index (ao_evidence o') \<and> ve_head e = de_head (ao_evidence o')
     \<and> ve_branch_name e = de_branch_name (ao_evidence o') \<and> ve_detached e = de_detached (ao_evidence o')
     \<and> ve_capability e = de_capability (ao_evidence o') \<and> \<not> ve_attributes_changed e
     \<and> ve_unexpected_paths e = []"

definition baseline_observed :: "evidence_json \<Rightarrow> apply_operation \<Rightarrow> verification_evidence \<Rightarrow> bool" where
  "baseline_observed json o' e \<longleftrightarrow>
     verification_evidence_valid (ej_verification json) e \<and> globals_kept o' e
     \<and> ve_tree_fingerprint e = de_tree_fingerprint (ao_evidence o')
     \<and> set (map evidence_precondition (ve_paths e)) = set (ao_preconditions o')"

text \<open>What the files of a proposal expect of a path: the last of them that speaks of it decides.\<close>

definition expectation :: "proposed_file list \<Rightarrow> repo_path_key \<Rightarrow> expected_path option" where
  "expectation fs = map_of (rev (concat (map file_expectations fs)))"

definition result_observed :: "evidence_json \<Rightarrow> apply_operation \<Rightarrow> proposed_patch \<Rightarrow> verification_evidence \<Rightarrow> bool" where
  "result_observed json o' p e \<longleftrightarrow>
     verification_evidence_valid (ej_verification json) e \<and> globals_kept o' e
     \<and> path_key ` ae_path ` set (ve_paths e) = dom (expectation (pv_files p))
     \<and> (\<forall>x \<in> set (ve_paths e). \<exists>want. expectation (pv_files p) (path_key (ae_path x)) = Some want
          \<and> observed_as_expected (Some x) want)"

definition proposal_of_operation :: "apply_operation \<Rightarrow> proposed_patch \<Rightarrow> bool" where
  "proposal_of_operation o' p \<longleftrightarrow>
     proposed_patch_valid p \<and> pv_version p = ao_proposal_version o' \<and> pv_patch_sha256 p = ao_patch_sha256 o'
     \<and> pv_workspace_id p = ao_workspace_id o' \<and> pv_thread_id p = ao_thread_id o' \<and> pv_artifact p = ao_artifact o'"

definition outcome_sound :: "evidence_json \<Rightarrow> apply_operation \<Rightarrow> bool" where
  "outcome_sound json o' \<longleftrightarrow>
     (ao_phase o' = ApplyRetrySafe \<longrightarrow> baseline_observed json o' (ao_verification o'))
     \<and> (ao_phase o' = ApplyApplied \<longrightarrow>
          (\<exists>p. proposal_of_operation o' p \<and> result_observed json o' p (ao_verification o')))"

lemma key_map_distinct:
  assumes "distinct (map path xs)"
  shows "key_map path xs = map (\<lambda>x. (path_key (path x), x)) xs"
proof -
  have "foldl (\<lambda>m x. AList.update (path_key (path x)) x m) m xs = m @ map (\<lambda>x. (path_key (path x), x)) xs"
    if "distinct (map path xs)" "path_key ` path ` set xs \<inter> fst ` set m = {}" for m
    using that
  proof (induction xs arbitrary: m)
    case (Cons x xs)
    have fresh: "path_key (path x) \<notin> fst ` set m" using Cons.prems(2) by auto
    have "AList.update k v m = m @ [(k, v)]" if "k \<notin> fst ` set m" for k v
      using that by (induction m) auto
    then have "foldl (\<lambda>m x. AList.update (path_key (path x)) x m) m (x # xs)
        = foldl (\<lambda>m x. AList.update (path_key (path x)) x m) (m @ [(path_key (path x), x)]) xs"
      using fresh by simp
    also have "\<dots> = (m @ [(path_key (path x), x)]) @ map (\<lambda>x. (path_key (path x), x)) xs"
      using Cons.prems by (intro Cons.IH) (auto simp: path_key_def)
    finally show ?case by simp
  qed simp
  from this [of "[]"] assms show ?thesis by (simp add: key_map_def)
qed

lemma expected_paths_map:
  "map_of (expected_paths fs) = expectation fs" "distinct (map fst (expected_paths fs))"
proof -
  have "map_of (foldl (\<lambda>m (k, e). AList.update k e m) m xs) = map_of m ++ map_of (rev xs)
      \<and> (distinct (map fst m) \<longrightarrow> distinct (map fst (foldl (\<lambda>m (k, e). AList.update k e m) m xs)))" for m xs
    by (induction xs arbitrary: m) (auto simp: update_conv' distinct_update map_add_def fun_eq_iff split: option.splits)
  from this [of "[]" "concat (map file_expectations fs)"] show "map_of (expected_paths fs) = expectation fs" "distinct (map fst (expected_paths fs))"
    by (simp_all add: expected_paths_def expectation_def)
qed

lemma observed_as_expected_None: "\<not> observed_as_expected None want"
  by (simp add: observed_as_expected_def)

lemma observed_paths:
  assumes "verification_evidence_valid json e"
  shows "distinct (map ae_path (ve_paths e))"
    "key_map ae_path (ve_paths e) = map (\<lambda>x. (path_key (ae_path x), x)) (ve_paths e)"
  using assms by (auto simp: verification_evidence_valid_def unique_paths_iff intro!: key_map_distinct)

lemma result_paths_match_iff:
  assumes "verification_evidence_valid json e" "result_paths_match (key_map ae_path (ve_paths e)) fs"
  shows "path_key ` ae_path ` set (ve_paths e) = dom (expectation fs)"
    "x \<in> set (ve_paths e) \<Longrightarrow>
       \<exists>want. expectation fs (path_key (ae_path x)) = Some want \<and> observed_as_expected (Some x) want"
proof -
  let ?actual = "map (\<lambda>x. (path_key (ae_path x), x)) (ve_paths e)"
  note actual = observed_paths [OF assms(1)]
  have distinct: "distinct (map fst ?actual)"
    using actual(1) by (simp add: path_key_def comp_def)
  have len: "length ?actual = length (expected_paths fs)"
    and all_match: "\<And>k want. (k, want) \<in> set (expected_paths fs) \<Longrightarrow> observed_as_expected (map_of ?actual k) want"
    using assms(2) actual(2) by (auto simp: result_paths_match_def list_all_iff)
  have sub: "fst ` set (expected_paths fs) \<subseteq> fst ` set ?actual"
  proof
    fix k assume "k \<in> fst ` set (expected_paths fs)"
    then obtain want where "observed_as_expected (map_of ?actual k) want" using all_match by force
    then have "map_of ?actual k \<noteq> None" by (metis observed_as_expected_None)
    then show "k \<in> fst ` set ?actual" by (simp add: map_of_eq_None_iff)
  qed
  have "card (fst ` set (expected_paths fs)) = card (fst ` set ?actual)"
    using distinct_card [OF distinct] distinct_card [OF expected_paths_map(2) [of fs]] len by (simp add: image_image)
  with sub have "fst ` set (expected_paths fs) = fst ` set ?actual" by (intro card_subset_eq) auto
  moreover have "dom (expectation fs) = fst ` set (expected_paths fs)"
    using expected_paths_map(1) [of fs] by (metis dom_map_of_conv_image_fst)
  ultimately show keys: "path_key ` ae_path ` set (ve_paths e) = dom (expectation fs)"
    by (simp add: image_image)
  assume x: "x \<in> set (ve_paths e)"
  then have "path_key (ae_path x) \<in> dom (expectation fs)" using keys by auto
  then obtain want where want: "expectation fs (path_key (ae_path x)) = Some want" by auto
  then have "(path_key (ae_path x), want) \<in> set (expected_paths fs)"
    by (intro map_of_SomeD) (simp add: expected_paths_map(1))
  from all_match [OF this] have "observed_as_expected (map_of ?actual (path_key (ae_path x))) want" .
  moreover have "map_of ?actual (path_key (ae_path x)) = Some x"
    using distinct x by (intro map_of_is_SomeI) auto
  ultimately show "\<exists>want. expectation fs (path_key (ae_path x)) = Some want \<and> observed_as_expected (Some x) want"
    using want by simp
qed

lemma classify_meaning:
  assumes "classify_verification json o' p e = (c, f)"
  shows "c = ClassApplied \<Longrightarrow> result_observed json o' p e"
    "c = ClassRetrySafe \<Longrightarrow> baseline_observed json o' e"
    "c \<noteq> ClassFailedClean \<and> apply_class_valid c \<and> apply_failure_valid f
       \<and> (c \<noteq> ClassApplied \<longrightarrow> f \<noteq> FailureNone)"
proof -
  let ?actual = "key_map ae_path (ve_paths e)"
  show "result_observed json o' p e" if "c = ClassApplied"
  proof -
    have "verification_evidence_valid (ej_verification json) e" "globals_kept o' e"
        "result_paths_match ?actual (pv_files p)"
      using assms that by (auto simp: classify_verification_def globals_kept_def Let_def split: if_splits)
    then show ?thesis
      using result_paths_match_iff [of "ej_verification json" e "pv_files p"] by (simp add: result_observed_def)
  qed
  show "baseline_observed json o' e" if "c = ClassRetrySafe"
  proof -
    have facts: "verification_evidence_valid (ej_verification json) e" "globals_kept o' e"
        "baseline_paths_match ?actual (ao_preconditions o')"
        "ve_tree_fingerprint e = de_tree_fingerprint (ao_evidence o')"
      using assms that by (auto simp: classify_verification_def globals_kept_def Let_def split: if_splits)
    have "sort_key pp_path (map (evidence_precondition \<circ> snd) ?actual) = sort_key pp_path (ao_preconditions o')"
      using facts(3) by (simp add: baseline_paths_match_def same_preconditions_def)
    then have "set (map (evidence_precondition \<circ> snd) ?actual) = set (ao_preconditions o')"
      by (metis set_sort)
    then show ?thesis
      using facts observed_paths(2) [OF facts(1)] by (simp add: baseline_observed_def image_image)
  qed
  show "c \<noteq> ClassFailedClean \<and> apply_class_valid c \<and> apply_failure_valid f
       \<and> (c \<noteq> ClassApplied \<longrightarrow> f \<noteq> FailureNone)"
    using assms by (auto simp: classify_verification_def apply_class_valid_def apply_failure_valid_def Let_def
        split: if_splits)
qed

subsection \<open>How a call moves the journal\<close>

text \<open>One sound move of one row.\<close>

inductive row_step :: "evidence_json \<Rightarrow> journal_table \<Rightarrow> journal_table \<Rightarrow> bool" for json where
  row_moves:
    "map_of rows (ao_id o') = Some r \<Longrightarrow> apply_operation_valid json o' \<Longrightarrow> same_lineage (jr_operation r) o'
     \<Longrightarrow> valid_apply_transition (ao_phase (jr_operation r)) (ao_phase o') \<Longrightarrow> outcome_sound json o'
     \<Longrightarrow> row_step json rows (update_operation o' rows)"

inductive_cases row_stepE: "row_step json rows rows'"

lemma journal_transition_step:
  assumes "journal_transition json tx g o' s = (s', res)" "outcome_sound json o'"
  shows "js_rows s' = js_rows s \<or> row_step json (js_rows s) (js_rows s')"
proof (cases res)
  case (Inl e)
  then show ?thesis using assms(1) journal_transition_Inl by blast
next
  case (Inr g')
  then have body: "transition_operation json (sg_session_id g) o' (js_rows s) = Inr (js_rows s')"
    using assms(1) by (auto simp: journal_transition_Inr journal_tx_Inr)
  show ?thesis by (rule transition_Inr [OF body]) (use assms(2) in \<open>auto intro: row_moves\<close>)
qed

lemma persist_classification_step:
  assumes "persist_classification json env g o' e c f s = (s', res)"
    "c = ClassApplied \<Longrightarrow> proposal_of_operation o' p \<and> result_observed json o' p e"
  shows "js_rows s' = js_rows s \<or> row_step json (js_rows s) (js_rows s')"
proof -
  let ?phase = "case c of ClassApplied \<Rightarrow> Some ApplyApplied | ClassFailedClean \<Rightarrow> Some ApplyFailedClean
      | ClassRepairRequired \<Rightarrow> Some ApplyRepairRequired | _ \<Rightarrow> None"
  show ?thesis
  proof (cases "s' = s")
    case False
    then obtain phase where phase: "?phase = Some phase"
      using assms(1) by (auto simp: persist_classification_def split: if_splits option.splits)
    let ?o = "o'\<lparr>ao_verification := e, ao_failure := f, ao_completed_at := Some (xe_clock env), ao_phase := phase\<rparr>"
    obtain res' where res': "journal_transition json (xe_outcome env) g ?o s = (s', res')"
      using assms(1) False phase
      by (auto simp: persist_classification_def Let_def split: if_splits prod.splits sum.splits)
    have "outcome_sound json ?o"
      using phase assms(2)
      by (auto simp: outcome_sound_def proposal_of_operation_def result_observed_def globals_kept_def
          split: apply_class.splits)
    then show ?thesis using journal_transition_step [OF res'] by blast
  qed simp
qed

lemma verify_and_classify_meaning:
  assumes "verify_and_classify json env r o' p = Inr (e, c, f)"
  shows "c = ClassApplied \<Longrightarrow> result_observed json o' p e" "c = ClassRetrySafe \<Longrightarrow> baseline_observed json o' e"
    "verification_evidence_valid (ej_verification json) e" "c \<noteq> ClassFailedClean" "apply_class_valid c"
    "apply_failure_valid f" "c \<noteq> ClassApplied \<Longrightarrow> f \<noteq> FailureNone"
  using assms
  by (auto simp: verify_and_classify_def apply_class_valid_def apply_failure_valid_def dest: classify_meaning
      split: prod.splits if_splits option.splits)

lemma recover_step:
  assumes "recover_nonterminal json env r o' p s = (s', res)" "proposal_of_operation o' p"
  shows "js_rows s' = js_rows s \<or> row_step json (js_rows s) (js_rows s')"
proof (cases "verify_and_classify json env r o' p")
  case (Inr v)
  obtain e c f where v: "v = (e, c, f)" by (cases v) auto
  note meaning = verify_and_classify_meaning [OF Inr [unfolded v]]
  show ?thesis
  proof (cases "c = ClassRetrySafe")
    case True
    let ?o = "o'\<lparr>ao_phase := ApplyRetrySafe, ao_failure := FailureRetrySafe, ao_verification := e\<rparr>"
    obtain res' where "journal_transition json (xe_outcome env) (xr_guard r) ?o s = (s', res')"
      using assms(1) Inr v True by (auto simp: recover_nonterminal_def Let_def split: prod.splits sum.splits)
    moreover have "outcome_sound json ?o"
      using meaning(2) True by (simp add: outcome_sound_def baseline_observed_def globals_kept_def)
    ultimately show ?thesis using journal_transition_step by blast
  next
    case False
    then have "persist_classification json env (xr_guard r) o' e c f s = (s', res)"
      using assms(1) Inr v by (simp add: recover_nonterminal_def)
    then show ?thesis by (rule persist_classification_step) (use meaning assms(2) in blast)
  qed
qed (use assms in \<open>simp add: recover_nonterminal_def\<close>)

lemma classify_after_step:
  assumes "classify_after_mutation json env r o' p err clean s = (s', res)" "proposal_of_operation o' p"
  shows "js_rows s' = js_rows s \<or> row_step json (js_rows s) (js_rows s')"
proof (cases "verify_and_classify json env r o' p")
  case (Inr v)
  obtain e c f where v: "v = (e, c, f)" by (cases v) auto
  note meaning = verify_and_classify_meaning [OF Inr [unfolded v]]
  obtain c' f' where c': "persist_classification json env (xr_guard r) o' e c' f' s = (s', res)"
      "c' = ClassApplied \<Longrightarrow> c = ClassApplied"
    using assms(1) Inr v by (auto simp: classify_after_mutation_def split: if_splits)
  show ?thesis by (rule persist_classification_step [OF c'(1)]) (use meaning c'(2) assms(2) in blast)
qed (use assms in \<open>simp add: classify_after_mutation_def\<close>)

lemma terminalize_step:
  assumes "verify_and_terminalize json env r o' p recovery s = (s', res)" "proposal_of_operation o' p"
  shows "js_rows s' = js_rows s \<or> row_step json (js_rows s) (js_rows s')"
proof (cases "verify_and_classify json env r o' p")
  case (Inr v)
  obtain e c f where v: "v = (e, c, f)" by (cases v) auto
  note meaning = verify_and_classify_meaning [OF Inr [unfolded v]]
  obtain c' f' where c': "persist_classification json env (xr_guard r) o' e c' f' s = (s', res)"
      "c' = ClassApplied \<Longrightarrow> c = ClassApplied"
    using assms(1) Inr v by (auto simp: verify_and_terminalize_def split: if_splits)
  show ?thesis by (rule persist_classification_step [OF c'(1)]) (use meaning c'(2) assms(2) in blast)
qed (use assms in \<open>simp add: verify_and_terminalize_def\<close>)

lemma mutate_and_settle_steps:
  assumes "mutate_and_settle json env r o' p m s = (s', res)" "proposal_of_operation o' p"
  shows "(row_step json)\<^sup>*\<^sup>* (js_rows s) (js_rows s')"
proof (cases "xe_mutate env m")
  case (Some err)
  then have "classify_after_mutation json env r o' p err True s = (s', res)"
    using assms(1) by (simp add: mutate_and_settle_def)
  then show ?thesis using classify_after_step assms(2) by (metis r_into_rtranclp rtranclp.rtrancl_refl)
next
  case None
  let ?o = "o'\<lparr>ao_phase := ApplyVerifying\<rparr>"
  obtain s1 res1 where tx: "journal_transition json (xe_mutated env) (xr_guard r) ?o s = (s1, res1)"
    by (cases "journal_transition json (xe_mutated env) (xr_guard r) ?o s") auto
  have "outcome_sound json ?o" by (simp add: outcome_sound_def)
  then have first: "(row_step json)\<^sup>*\<^sup>* (js_rows s) (js_rows s1)"
    using journal_transition_step [OF tx] by auto
  show ?thesis
  proof (cases res1)
    case (Inl e)
    then show ?thesis using assms(1) None tx first by (auto simp: mutate_and_settle_def Let_def)
  next
    case (Inr g)
    then have "verify_and_terminalize json env (r\<lparr>xr_guard := g\<rparr>) ?o p False s1 = (s', res)"
      using assms(1) None tx by (simp add: mutate_and_settle_def Let_def)
    moreover have "proposal_of_operation ?o p" using assms(2) by (simp add: proposal_of_operation_def)
    ultimately have "js_rows s' = js_rows s1 \<or> row_step json (js_rows s1) (js_rows s')"
      by (rule terminalize_step)
    then show ?thesis using first by (auto intro: rtranclp.rtrancl_into_rtrancl)
  qed
qed

lemma load_apply_proposal_Inr: "load_apply_proposal env o' = Inr p \<Longrightarrow> proposal_of_operation o' p"
  by (auto simp: load_apply_proposal_def proposal_of_operation_def proposal_version_of_def find_Some_iff
      split: if_splits option.splits)

text \<open>The whole call: either no mutation, or one, from the journal phase that the first transaction set.\<close>

lemma execute_apply_cases:
  assumes "execute_apply json env r (s, log) = ((s', log'), res)"
  obtains (quiet) "log' = log" "(row_step json)\<^sup>*\<^sup>* (js_rows s) (js_rows s')"
  | (mutates) o' t g p stream version rest where
      "load_operation json (ao_id o') s = Inr o'" "ao_id o' = xr_operation_id r"
      "ao_phase o' = ApplyPrepared \<or> ao_phase o' = ApplyRetrySafe \<and> xr_authorize_retry r"
      "load_apply_proposal env o' = Inr p" "patch_stream (xe_artifacts env) p = Inr (stream, version, rest)"
      "journal_transition json (xe_start env) (xr_guard r) (start_mutation o') s = (t, Inr g)"
      "log' = log @ [(t, start_mutation o',
         \<lparr>mr_repository = xr_repository r, mr_worktree = xr_worktree r, mr_patch_sha256 = ao_patch_sha256 o',
          mr_patch_bytes = ao_patch_bytes o', mr_policy_version = version, mr_stream = stream\<rparr>)]"
      "(row_step json)\<^sup>*\<^sup>* (js_rows t) (js_rows s')"
proof (cases "\<exists>o' p. execution_request_valid r \<and> (xr_lease r \<or> xe_lock env = None)
    \<and> load_operation json (xr_operation_id r) s = Inr o' \<and> execution_identity_ok json o' r
    \<and> \<not> terminal_phase (ao_phase o') \<and> load_apply_proposal env o' = Inr p")
  case False
  then have "log' = log" "s' = s"
    using assms
    by (auto simp: execute_apply_def split: if_splits sum.splits)
  then show ?thesis using quiet by simp
next
  case True
  then obtain o' p where o': "execution_request_valid r" "xr_lease r \<or> xe_lock env = None"
      "load_operation json (xr_operation_id r) s = Inr o'" "execution_identity_ok json o' r"
      "\<not> terminal_phase (ao_phase o')" "load_apply_proposal env o' = Inr p"
    by blast
  have id: "ao_id o' = xr_operation_id r" using o'(4) by (simp add: execution_identity_ok_def)
  have valid: "apply_operation_valid json o'" using o'(4) by (simp add: execution_identity_ok_def)
  note proposal = load_apply_proposal_Inr [OF o'(6)]
  consider (recover) "ao_phase o' = ApplyMutating \<or> ao_phase o' = ApplyVerifying"
    | (wait) "ao_phase o' = ApplyRetrySafe" "\<not> xr_authorize_retry r"
    | (start) "ao_phase o' = ApplyPrepared \<or> ao_phase o' = ApplyRetrySafe \<and> xr_authorize_retry r"
    using o'(5) valid by (cases "ao_phase o'") (auto simp: terminal_phase_def apply_operation_valid_def apply_phase_valid_def)
  then show ?thesis
  proof cases
    case recover
    then have "log' = log" "recover_nonterminal json env r o' p s = (s', res)"
      using assms o' by (auto simp: execute_apply_def split: prod.splits)
    then show ?thesis using quiet recover_step proposal by (metis r_into_rtranclp rtranclp.rtrancl_refl)
  next
    case wait
    then have "log' = log" "s' = s" using assms o' by (auto simp: execute_apply_def)
    then show ?thesis using quiet by simp
  next
    case start
    then have phase: "\<not> (ao_phase o' = ApplyMutating \<or> ao_phase o' = ApplyVerifying)"
        "\<not> (ao_phase o' = ApplyRetrySafe \<and> \<not> xr_authorize_retry r)" by auto
    show ?thesis
    proof (cases "\<exists>v t g. patch_stream (xe_artifacts env) p = Inr v
        \<and> journal_transition json (xe_start env) (xr_guard r) (start_mutation o') s = (t, Inr g)")
      case False
      then have "log' = log" "s' = s"
        using assms o' phase
        by (auto simp: execute_apply_def Let_def dest: journal_transition_Inl split: sum.splits prod.splits)
      then show ?thesis using quiet by simp
    next
      case True
      then obtain stream version rest t g where parts: "patch_stream (xe_artifacts env) p = Inr (stream, version, rest)"
          "journal_transition json (xe_start env) (xr_guard r) (start_mutation o') s = (t, Inr g)"
        by (metis prod_cases3)
      let ?m = "\<lparr>mr_repository = xr_repository r, mr_worktree = xr_worktree r, mr_patch_sha256 = ao_patch_sha256 o',
          mr_patch_bytes = ao_patch_bytes o', mr_policy_version = version, mr_stream = stream\<rparr>"
      have fields: "ao_patch_sha256 (start_mutation o') = ao_patch_sha256 o'" "ao_patch_bytes (start_mutation o') = ao_patch_bytes o'"
        by (simp_all add: start_mutation_def)
      have run: "mutate_and_settle json env (r\<lparr>xr_guard := g\<rparr>) (start_mutation o') p ?m t = (s', res)"
          "log' = log @ [(t, start_mutation o', ?m)]"
        using assms o' phase parts fields by (auto simp: execute_apply_def Let_def split: prod.splits)
      have "proposal_of_operation (start_mutation o') p"
        using proposal by (simp add: proposal_of_operation_def start_mutation_def)
      from mutate_and_settle_steps [OF run(1) this]
      show ?thesis using mutates [OF _ _ _ o'(6) parts run(2)] o'(3) id start by simp
    qed
  qed
qed

end
