(* ===== verification/Apply_Runs.thy ===== *)
theory Apply_Runs
  imports Apply_Safety
begin

text \<open>
  Histories of the apply journal: any number of calls with any readings, interrupted anywhere, with
  preparations and other writers of the review store between them.
\<close>

subsection \<open>Advancing rows\<close>

definition row_next :: "journal_row \<Rightarrow> journal_row \<Rightarrow> bool" where
  "row_next r r' \<longleftrightarrow>
     same_lineage (jr_operation r) (jr_operation r')
     \<and> valid_apply_transition (ao_phase (jr_operation r)) (ao_phase (jr_operation r'))"

definition rows_advance :: "journal_table \<Rightarrow> journal_table \<Rightarrow> bool" where
  "rows_advance rows rows' \<longleftrightarrow>
     (\<forall>i r. map_of rows i = Some r \<longrightarrow> (\<exists>r'. map_of rows' i = Some r' \<and> row_next\<^sup>*\<^sup>* r r'))"

lemma rows_advance_refl [simp]: "rows_advance rows rows"
  by (auto simp: rows_advance_def)

lemma rows_advance_trans: "rows_advance a b \<Longrightarrow> rows_advance b c \<Longrightarrow> rows_advance a c"
  unfolding rows_advance_def by (meson rtranclp_trans)

lemma transition_facts:
  "valid_apply_transition p q \<Longrightarrow> \<not> terminal_phase p \<and> q \<noteq> ApplyPrepared \<and> p \<noteq> q"
  by (cases p) (auto simp: valid_apply_transition_def terminal_phase_def)

lemma row_next_phase: "row_next\<^sup>*\<^sup>* r r' \<Longrightarrow> ao_phase (jr_operation r) \<noteq> ApplyPrepared \<Longrightarrow> ao_phase (jr_operation r') \<noteq> ApplyPrepared"
  by (induction rule: rtranclp_induct) (auto simp: row_next_def dest: transition_facts)

lemma row_next_lineage: "row_next\<^sup>*\<^sup>* r r' \<Longrightarrow> same_lineage (jr_operation r) (jr_operation r')"
  by (induction rule: rtranclp_induct) (auto simp: row_next_def intro: same_lineage_trans)

lemma row_next_terminal: "row_next\<^sup>*\<^sup>* r r' \<Longrightarrow> terminal_phase (ao_phase (jr_operation r)) \<Longrightarrow> r' = r"
  by (erule converse_rtranclpE) (auto simp: row_next_def dest: transition_facts)

lemma row_step_advance: "row_step json rows rows' \<Longrightarrow> rows_advance rows rows'"
  by (erule row_stepE) (auto simp: rows_advance_def update_operation_map row_next_def)

lemma row_steps_advance: "(row_step json)\<^sup>*\<^sup>* rows rows' \<Longrightarrow> rows_advance rows rows'"
  by (induction rule: rtranclp_induct) (auto intro: rows_advance_trans row_step_advance)

definition rows_sound :: "evidence_json \<Rightarrow> journal_table \<Rightarrow> bool" where
  "rows_sound json rows \<longleftrightarrow> journal_wf json rows \<and> (\<forall>i r. map_of rows i = Some r \<longrightarrow> outcome_sound json (jr_operation r))"

lemma rows_sound_empty [simp]: "rows_sound json []"
  by (simp add: rows_sound_def)

lemma wf_row:
  assumes "journal_wf json rows" "map_of rows i = Some r"
  shows "apply_operation_valid json (jr_operation r)" "ao_id (jr_operation r) = i"
    "jr_phase r = ao_phase (jr_operation r)"
proof -
  have row: "row_wf json i r" using assms map_of_SomeD [OF assms(2)] by (auto simp: journal_wf_def)
  then show "apply_operation_valid json (jr_operation r)" "ao_id (jr_operation r) = i" by (simp_all add: row_wf_def)
  from row have "r = row_of_operation (jr_operation r)" by (simp add: row_wf_def)
  from arg_cong [OF this, of jr_phase] show "jr_phase r = ao_phase (jr_operation r)"
    by (simp add: row_of_operation_def)
qed

lemma row_step_sound: "row_step json rows rows' \<Longrightarrow> rows_sound json rows \<Longrightarrow> rows_sound json rows'"
proof (erule row_stepE)
  fix o' r
  assume rows': "rows' = update_operation o' rows" and r: "map_of rows (ao_id o') = Some r"
    and o': "apply_operation_valid json o'" "same_lineage (jr_operation r) o'"
      "valid_apply_transition (ao_phase (jr_operation r)) (ao_phase o')" "outcome_sound json o'"
    and sound: "rows_sound json rows"
  have wf: "journal_wf json rows" using sound by (simp add: rows_sound_def)
  have "jr_operation r \<noteq> o'" using o'(3) transition_facts by auto
  then have "transition_operation json (ao_session_id o') o' rows = Inr rows'"
    using wf_row [OF wf r] r o' rows' by (simp add: transition_operation_def decode_operation_def)
  then have "journal_wf json rows'" using transition_wf wf by blast
  then show ?thesis
    using sound o'(4) rows' by (auto simp: rows_sound_def update_operation_map split: if_splits)
qed

lemma row_steps_sound: "(row_step json)\<^sup>*\<^sup>* rows rows' \<Longrightarrow> rows_sound json rows \<Longrightarrow> rows_sound json rows'"
  by (induction rule: rtranclp_induct) (auto intro: row_step_sound)

lemma prepare_rows:
  assumes "prepare_operation json sid owner o' rows = Inr rows'" "rows_sound json rows"
  shows "rows_sound json rows'" "rows_advance rows rows'"
proof -
  have "rows' = rows \<or> ao_phase o' = ApplyPrepared \<and> map_of rows (ao_id o') = None
      \<and> rows' = rows @ [(ao_id o', row_of_operation o')]"
    using prepare_Inr [OF assms(1)] by auto
  moreover have "journal_wf json rows'" using prepare_wf assms by (auto simp: rows_sound_def)
  ultimately show "rows_sound json rows'" "rows_advance rows rows'"
    using assms(2)
    by (auto simp: rows_sound_def rows_advance_def map_add_def outcome_sound_def row_of_operation_def
        split: option.splits if_splits)
qed

subsection \<open>Histories\<close>

text \<open>
  A call may die between its first transaction and the mutation; a death after the mutation looks as if
  the later transactions had failed.
\<close>

inductive apply_step :: "evidence_json \<Rightarrow> apply_state \<Rightarrow> apply_state \<Rightarrow> bool" for json where
  step_execute: "execute_apply json env r st = (st', res) \<Longrightarrow> apply_step json st st'"
| step_dies:
    "load_operation json i s = Inr o' \<Longrightarrow> ao_phase o' = ApplyPrepared \<or> ao_phase o' = ApplyRetrySafe
     \<Longrightarrow> journal_transition json tx g (start_mutation o') s = (s', res) \<Longrightarrow> apply_step json (s, log) (s', log)"
| step_prepare:
    "journal_tx tx g (prepare_operation json (sg_session_id g) owner o') s = (s', res)
     \<Longrightarrow> apply_step json (s, log) (s', log)"
| step_other: "js_rows s' = js_rows s \<Longrightarrow> apply_step json (s, log) (s', log)"

definition log_sound :: "journal_table \<Rightarrow> mutation_log \<Rightarrow> bool" where
  "log_sound rows log \<longleftrightarrow>
     (\<forall>(t, o', m) \<in> set log. \<exists>r. map_of rows (ao_id o') = Some r \<and> same_lineage o' (jr_operation r)
        \<and> ao_phase (jr_operation r) \<noteq> ApplyPrepared)"

lemma log_sound_advance: "log_sound rows log \<Longrightarrow> rows_advance rows rows' \<Longrightarrow> log_sound rows' log"
  unfolding log_sound_def rows_advance_def
  by (fastforce dest: row_next_phase row_next_lineage intro: same_lineage_trans)

lemma start_moves:
  assumes "journal_transition json tx g (start_mutation o') s = (t, Inr g')" "load_operation json (ao_id o') s = Inr o'"
    "ao_phase o' = ApplyPrepared \<or> ao_phase o' = ApplyRetrySafe"
  shows "row_step json (js_rows s) (js_rows t)"
    "\<exists>r. map_of (js_rows t) (ao_id o') = Some r \<and> jr_operation r = start_mutation o'"
    "load_operation json (ao_id o') t = Inr (start_mutation o')"
proof -
  have id: "ao_id (start_mutation o') = ao_id o'" and phase: "ao_phase (start_mutation o') = ApplyMutating"
    by (simp_all add: start_mutation_def)
  have body: "transition_operation json (sg_session_id g) (start_mutation o') (js_rows s) = Inr (js_rows t)"
      and opened: "\<not> rv_closed (js_review t)"
    using assms(1) by (auto simp: journal_transition_Inr journal_tx_Inr)
  obtain r where r: "map_of (js_rows s) (ao_id o') = Some r" "jr_operation r = o'" "ao_id o' \<noteq> []"
    using assms(2) by (auto simp: load_operation_Inr)
  have sound: "outcome_sound json (start_mutation o')" using phase by (simp add: outcome_sound_def)
  obtain q where q: "apply_operation_valid json (start_mutation o')" "map_of (js_rows s) (ao_id (start_mutation o')) = Some q"
      "js_rows t = js_rows s \<and> jr_operation q = start_mutation o'
       \<or> js_rows t = update_operation (start_mutation o') (js_rows s)
         \<and> same_lineage (jr_operation q) (start_mutation o')
         \<and> valid_apply_transition (ao_phase (jr_operation q)) (ao_phase (start_mutation o'))
         \<and> jr_phase q = ao_phase (jr_operation q)"
    using body by (rule transition_Inr) blast
  have "jr_operation q \<noteq> start_mutation o'"
  proof -
    have "q = r" using q(2) r id by simp
    then have "ao_phase (jr_operation q) \<noteq> ao_phase (start_mutation o')" using r(2) phase assms(3) by auto
    then show ?thesis by auto
  qed
  then have moved: "apply_operation_valid json (start_mutation o')" "js_rows t = update_operation (start_mutation o') (js_rows s)"
      "valid_apply_transition (ao_phase o') ApplyMutating"
    using q r id phase by auto
  show "row_step json (js_rows s) (js_rows t)"
    unfolding moved(2) by (rule row_moves [where r = r]) (use r id phase moved sound in simp_all)
  show row: "\<exists>r. map_of (js_rows t) (ao_id o') = Some r \<and> jr_operation r = start_mutation o'"
    using r id by (simp add: moved(2) update_operation_map)
  show "load_operation json (ao_id o') t = Inr (start_mutation o')"
    using row r opened moved(1) by (simp add: load_operation_Inr)
qed

lemma start_died:
  assumes "journal_transition json tx g (start_mutation o') s = (t, res)" "load_operation json i s = Inr o'"
    "ao_phase o' = ApplyPrepared \<or> ao_phase o' = ApplyRetrySafe" "rows_sound json (js_rows s)"
  shows "rows_sound json (js_rows t)" "rows_advance (js_rows s) (js_rows t)"
proof -
  have "outcome_sound json (start_mutation o')" by (simp add: outcome_sound_def start_mutation_def)
  from journal_transition_step [OF assms(1) this]
  show "rows_sound json (js_rows t)" "rows_advance (js_rows s) (js_rows t)"
    using assms(4) by (auto intro: row_step_sound row_step_advance)
qed

text \<open>One step keeps what the journal and the log promise.\<close>

lemma execute_keeps:
  assumes "execute_apply json env r (s, log) = ((s', log'), res)" "rows_sound json (js_rows s)" "log_sound (js_rows s) log"
  shows "rows_sound json (js_rows s') \<and> rows_advance (js_rows s) (js_rows s') \<and> log_sound (js_rows s') log'"
  using assms(1)
proof (cases rule: execute_apply_cases)
  case quiet
  then show ?thesis
    using assms(2,3) by (auto dest: row_steps_sound row_steps_advance intro: log_sound_advance)
next
  case (mutates o' t g p stream version rest)
  note start = start_moves [OF mutates(6,1)]
  have phase: "ao_phase o' = ApplyPrepared \<or> ao_phase o' = ApplyRetrySafe" using mutates(3) by auto
  have t: "rows_sound json (js_rows t)" "rows_advance (js_rows s) (js_rows t)"
    using start(1) [OF phase] assms(2) row_step_sound row_step_advance by blast+
  have after: "rows_sound json (js_rows s')" "rows_advance (js_rows t) (js_rows s')"
    using mutates(8) t(1) row_steps_sound row_steps_advance by blast+
  obtain q where q: "map_of (js_rows t) (ao_id o') = Some q" "jr_operation q = start_mutation o'"
    using start(2) [OF phase] by blast
  have "log_sound (js_rows t) log'"
    using log_sound_advance [OF assms(3) t(2)] q mutates(7) by (auto simp: log_sound_def start_mutation_def)
  then show ?thesis using after t(2) log_sound_advance rows_advance_trans by blast
qed

lemma apply_step_keeps:
  assumes "apply_step json (s, log) (s', log')" "rows_sound json (js_rows s)" "log_sound (js_rows s) log"
  shows "rows_sound json (js_rows s') \<and> rows_advance (js_rows s) (js_rows s') \<and> log_sound (js_rows s') log'"
  using assms(1)
proof cases
  case (step_execute env r res)
  then show ?thesis using execute_keeps assms(2,3) by blast
next
  case (step_dies i o' tx g res)
  then show ?thesis using start_died assms(2,3) log_sound_advance by blast
next
  case (step_prepare tx g owner o' res)
  show ?thesis
  proof (cases res)
    case (Inl e)
    then show ?thesis using step_prepare assms(2,3) journal_tx_Inl by (metis rows_advance_refl)
  next
    case (Inr g')
    then obtain rows where "prepare_operation json (sg_session_id g) owner o' (js_rows s) = Inr rows" "js_rows s' = rows"
      using step_prepare by (auto simp: journal_tx_Inr)
    then show ?thesis using prepare_rows assms(2,3) step_prepare(1) log_sound_advance by metis
  qed
next
  case step_other
  then show ?thesis using assms(2,3) by simp
qed

lemma apply_steps_keep:
  assumes "(apply_step json)\<^sup>*\<^sup>* (s, log) (s', log')" "rows_sound json (js_rows s)" "log_sound (js_rows s) log"
  shows "rows_sound json (js_rows s') \<and> rows_advance (js_rows s) (js_rows s') \<and> log_sound (js_rows s') log'"
  using assms(1)
proof (induction rule: rtranclp_induct2)
  case refl
  then show ?case using assms(2,3) by simp
next
  case (step a b c d)
  then have next': "rows_sound json (js_rows c) \<and> rows_advance (js_rows a) (js_rows c) \<and> log_sound (js_rows c) d"
    by (intro apply_step_keeps) auto
  with step.IH show ?case using rows_advance_trans by blast
qed

end
