(* ===== verification/Apply_Settling.thy ===== *)
theory Apply_Settling
  imports Apply_Runs
begin

text \<open>
  That a call on a working system comes to an end: an interrupted operation is classified by observation
  alone, and a started one always leaves a durable outcome.
\<close>

definition tx_works :: "tx_env \<Rightarrow> bool" where
  "tx_works tx \<longleftrightarrow> te_begin tx = None \<and> te_commit tx = None"

definition fence_open :: "journal_store \<Rightarrow> session_write_guard \<Rightarrow> bool" where
  "fence_open s g \<longleftrightarrow>
     \<not> rv_closed (js_review s) \<and> guard_valid g \<and> verify_guard (rv_tables (js_review s)) g = Inr ()"

definition operation_row :: "evidence_json \<Rightarrow> journal_store \<Rightarrow> apply_operation \<Rightarrow> bool" where
  "operation_row json s o' \<longleftrightarrow>
     ao_id o' \<noteq> [] \<and> apply_operation_valid json o' \<and> map_of (js_rows s) (ao_id o') = Some (row_of_operation o')"

lemma verify_guard_matches: "verify_guard tb g = Inr () \<Longrightarrow> guard_matches tb g"
  by (auto simp: verify_guard_def guard_matches_def select_row_def split: option.splits if_splits)

lemma fence_advances:
  assumes "verify_guard tb g = Inr ()"
  shows "verify_guard (bump_revision (sg_session_id g) tb) (next_guard g) = Inr ()"
proof -
  obtain q where "map_of (tb_sessions tb) (sg_session_id g) = Some q" "sw_closed_at q = None"
      "sw_writer_lease q = sg_lease_id g" "sw_writer_epoch q = sg_writer_epoch g" "sw_revision q = sg_expected_revision g"
    using assms by (auto simp: verify_guard_def select_row_def split: option.splits if_splits)
  then show ?thesis by (simp add: verify_guard_def bump_revision_def next_guard_def select_row_def)
qed

lemma journal_transition_works:
  assumes "fence_open s g" "tx_works tx" "operation_row json s a" "same_lineage a b"
    "valid_apply_transition (ao_phase a) (ao_phase b)" "apply_operation_valid json b" "ao_session_id a = sg_session_id g"
  shows "\<exists>s'. journal_transition json tx g b s = (s', Inr (next_guard g)) \<and> fence_open s' (next_guard g)
    \<and> operation_row json s' b"
proof -
  note lineage = same_lineage_fields [OF assms(4)]
  let ?s = "\<lparr>js_review = (js_review s)\<lparr>rv_tables := bump_revision (sg_session_id g) (rv_tables (js_review s))\<rparr>,
      js_rows = update_operation b (js_rows s)\<rparr>"
  have "a \<noteq> b" using assms(5) transition_facts by auto
  then have body: "transition_operation json (sg_session_id g) b (js_rows s) = Inr (update_operation b (js_rows s))"
    using assms lineage by (simp add: transition_operation_def operation_row_def row_of_operation_def decode_operation_def)
  have "journal_transition json tx g b s = (?s, Inr (next_guard g))"
    using assms(1,2) body
    by (simp add: journal_transition_Inr journal_tx_Inr fence_open_def tx_works_def verify_guard_matches)
  moreover have "fence_open ?s (next_guard g)"
    using assms(1) fence_advances by (simp add: fence_open_def guard_valid_def next_guard_def)
  moreover have "operation_row json ?s b"
    using assms(3,6) lineage by (simp add: operation_row_def update_operation_map row_of_operation_def)
  ultimately show ?thesis by blast
qed

lemma operation_updated:
  assumes "apply_operation_valid json o'" "apply_phase_valid phase" "apply_failure_valid f"
    "opt_all (\<lambda>t. \<not> (is_zero_time t \<or> before t (ao_prepared_at o'))) c"
    "operation_outcome_valid json (o'\<lparr>ao_phase := phase, ao_failure := f, ao_verification := e, ao_completed_at := c\<rparr>)"
  shows "apply_operation_valid json (o'\<lparr>ao_phase := phase, ao_failure := f, ao_verification := e, ao_completed_at := c\<rparr>)"
  using assms by (simp add: apply_operation_valid_def)

lemma loaded_row: "operation_row json s o' \<Longrightarrow> \<not> rv_closed (js_review s) \<Longrightarrow> load_operation json (ao_id o') s = Inr o'"
  by (simp add: operation_row_def load_operation_Inr row_of_operation_def)

definition clock_works :: "execute_env \<Rightarrow> apply_operation \<Rightarrow> bool" where
  "clock_works env o' \<longleftrightarrow> \<not> is_zero_time (xe_clock env) \<and> \<not> before (xe_clock env) (ao_prepared_at o')"

lemma persist_works:
  assumes "fence_open s g" "tx_works (xe_outcome env)" "operation_row json s o'" "ao_session_id o' = sg_session_id g"
    "ao_phase o' = ApplyMutating \<or> ao_phase o' = ApplyVerifying" "clock_works env o'"
    "verification_evidence_valid (ej_verification json) e" "apply_class_valid c" "c \<noteq> ClassRetrySafe"
    "apply_failure_valid f" "c \<noteq> ClassApplied \<Longrightarrow> f \<noteq> FailureNone"
  shows "\<exists>s' x. persist_classification json env g o' e c f s = (s', Inr x)
    \<and> terminal_phase (ao_phase (xs_operation x)) \<and> load_operation json (ao_id o') s' = Inr (xs_operation x)"
proof -
  obtain phase where phase: "terminal_phase phase" "phase \<noteq> ApplyApplied \<Longrightarrow> c \<noteq> ClassApplied"
      "(case c of ClassApplied \<Rightarrow> Some ApplyApplied | ClassFailedClean \<Rightarrow> Some ApplyFailedClean
        | ClassRepairRequired \<Rightarrow> Some ApplyRepairRequired | _ \<Rightarrow> None) = Some phase"
    using assms(8,9) by (cases c) (auto simp: apply_class_valid_def terminal_phase_def)
  let ?o = "o'\<lparr>ao_verification := e, ao_failure := f, ao_completed_at := Some (xe_clock env), ao_phase := phase\<rparr>"
  have same: "?o = o'\<lparr>ao_phase := phase, ao_failure := f, ao_verification := e, ao_completed_at := Some (xe_clock env)\<rparr>"
    by simp
  have valid: "apply_operation_valid json ?o"
  proof (subst same, rule operation_updated)
    show "apply_operation_valid json o'" using assms(3) by (simp add: operation_row_def)
    show "apply_phase_valid phase" using phase(1) by (auto simp: terminal_phase_def apply_phase_valid_def)
    show "operation_outcome_valid json
        (o'\<lparr>ao_phase := phase, ao_failure := f, ao_verification := e, ao_completed_at := Some (xe_clock env)\<rparr>)"
      using phase(1,2) assms(7,11) by (auto simp: operation_outcome_valid_def)
  qed (use assms(6,10) in \<open>simp_all add: clock_works_def\<close>)
  have "valid_apply_transition (ao_phase o') (ao_phase ?o)"
    using phase(1) assms(5) by (auto simp: valid_apply_transition_def terminal_phase_def)
  then obtain s' where s': "journal_transition json (xe_outcome env) g ?o s = (s', Inr (next_guard g))"
      "fence_open s' (next_guard g)" "operation_row json s' ?o"
    using journal_transition_works [OF assms(1-3) _ _ valid assms(4)] by (auto simp: same_lineage_def lineage_def)
  have "load_operation json (ao_id ?o) s' = Inr ?o"
    using loaded_row [OF s'(3)] s'(2) by (simp add: fence_open_def)
  then show ?thesis
    using s'(1) phase(1,3) assms(6-8)
    by (auto simp: persist_classification_def clock_works_def Let_def)
qed

definition observer_works :: "evidence_json \<Rightarrow> execute_env \<Rightarrow> bool" where
  "observer_works json env \<longleftrightarrow> (\<forall>q. verification_evidence_valid (ej_verification json) (fst (xe_verify env q)))"

lemma verify_works:
  assumes "observer_works json env"
  shows "\<exists>e c f. verify_and_classify json env r o' p = Inr (e, c, f)"
proof -
  let ?q = "\<lparr>vr_operation = o', vr_proposal = p, vr_repository = xr_repository r, vr_worktree = xr_worktree r\<rparr>"
  obtain e err where answer: "xe_verify env ?q = (e, err)" by (cases "xe_verify env ?q") auto
  then have "verification_evidence_valid (ej_verification json) e"
    using assms by (metis observer_works_def fst_conv)
  then show ?thesis
    using answer by (cases "classify_verification json o' p e") (simp add: verify_and_classify_def)
qed

lemma recover_works:
  assumes "fence_open s (xr_guard r)" "tx_works (xe_outcome env)" "operation_row json s o'"
    "ao_session_id o' = sg_session_id (xr_guard r)" "ao_phase o' = ApplyMutating \<or> ao_phase o' = ApplyVerifying"
    "clock_works env o'" "observer_works json env"
  shows "\<exists>s' x. recover_nonterminal json env r o' p s = (s', Inr x)
    \<and> (terminal_phase (ao_phase (xs_operation x)) \<or> ao_phase (xs_operation x) = ApplyRetrySafe)
    \<and> load_operation json (ao_id o') s' = Inr (xs_operation x)"
proof -
  obtain e c f where v: "verify_and_classify json env r o' p = Inr (e, c, f)"
    using verify_works assms(7) by blast
  note meaning = verify_and_classify_meaning [OF v]
  show ?thesis
  proof (cases "c = ClassRetrySafe")
    case False
    then show ?thesis
      using persist_works [OF assms(1-6) meaning(3,5) _ meaning(6,7)] v by (auto simp: recover_nonterminal_def)
  next
    case True
    let ?o = "o'\<lparr>ao_phase := ApplyRetrySafe, ao_failure := FailureRetrySafe, ao_verification := e\<rparr>"
    have none: "ao_completed_at o' = None"
      using assms(3,5) by (auto simp: operation_row_def apply_operation_valid_def operation_outcome_valid_def terminal_phase_def)
    then have same: "?o = o'\<lparr>ao_phase := ApplyRetrySafe, ao_failure := FailureRetrySafe, ao_verification := e, ao_completed_at := None\<rparr>"
      by simp
    have valid: "apply_operation_valid json ?o"
    proof (subst same, rule operation_updated)
      show "apply_operation_valid json o'" using assms(3) by (simp add: operation_row_def)
    qed (use meaning(3) in \<open>simp_all add: apply_phase_valid_def apply_failure_valid_def operation_outcome_valid_def terminal_phase_def\<close>)
    have "valid_apply_transition (ao_phase o') (ao_phase ?o)"
      using assms(5) by (auto simp: valid_apply_transition_def)
    then obtain s' where s': "journal_transition json (xe_outcome env) (xr_guard r) ?o s = (s', Inr (next_guard (xr_guard r)))"
        "fence_open s' (next_guard (xr_guard r))" "operation_row json s' ?o"
      using journal_transition_works [OF assms(1-3) _ _ valid assms(4)] by auto
    have "load_operation json (ao_id ?o) s' = Inr ?o"
      using loaded_row [OF s'(3)] s'(2) by (simp add: fence_open_def)
    then show ?thesis using s'(1) v True by (auto simp: recover_nonterminal_def Let_def)
  qed
qed

lemma terminalize_works:
  assumes "fence_open s (xr_guard r)" "tx_works (xe_outcome env)" "operation_row json s o'"
    "ao_session_id o' = sg_session_id (xr_guard r)" "ao_phase o' = ApplyMutating \<or> ao_phase o' = ApplyVerifying"
    "clock_works env o'" "observer_works json env"
  shows "\<exists>s' x. verify_and_terminalize json env r o' p False s = (s', Inr x)
      \<and> terminal_phase (ao_phase (xs_operation x)) \<and> load_operation json (ao_id o') s' = Inr (xs_operation x)"
    "\<exists>s' x. classify_after_mutation json env r o' p err True s = (s', Inr x)
      \<and> terminal_phase (ao_phase (xs_operation x)) \<and> load_operation json (ao_id o') s' = Inr (xs_operation x)"
proof -
  obtain e c f where v: "verify_and_classify json env r o' p = Inr (e, c, f)"
    using verify_works assms(7) by blast
  note meaning = verify_and_classify_meaning [OF v]
  note settle = persist_works [OF assms(1-6) meaning(3)]
  have clean: "apply_class_valid ClassFailedClean" "apply_failure_valid FailureMutationClean"
      "apply_class_valid ClassApplied" "apply_failure_valid FailureNone"
      "apply_class_valid ClassRepairRequired" "apply_failure_valid FailureMixedState"
    by (simp_all add: apply_class_valid_def apply_failure_valid_def)
  show "\<exists>s' x. verify_and_terminalize json env r o' p False s = (s', Inr x)
      \<and> terminal_phase (ao_phase (xs_operation x)) \<and> load_operation json (ao_id o') s' = Inr (xs_operation x)"
    using v settle [of c f] settle [of ClassFailedClean FailureMutationClean] meaning clean
    by (cases "c = ClassRetrySafe") (auto simp: verify_and_terminalize_def)
  show "\<exists>s' x. classify_after_mutation json env r o' p err True s = (s', Inr x)
      \<and> terminal_phase (ao_phase (xs_operation x)) \<and> load_operation json (ao_id o') s' = Inr (xs_operation x)"
  proof -
    consider "c = ClassApplied" | "c = ClassRetrySafe" | "c = ClassRepairRequired"
      using meaning(4,5) by (cases c) (auto simp: apply_class_valid_def)
    then show ?thesis
    proof cases
      case 1
      then show ?thesis using v settle [of ClassApplied FailureNone] clean by (simp add: classify_after_mutation_def)
    next
      case 2
      then show ?thesis
        using v settle [of ClassFailedClean FailureMutationClean] clean by (simp add: classify_after_mutation_def)
    next
      case 3
      then have "f \<noteq> FailureNone" using meaning(7) by simp
      then show ?thesis
        using v 3 settle [of ClassRepairRequired f] meaning(6) clean by (simp add: classify_after_mutation_def)
    qed
  qed
qed

lemma settle_works:
  assumes "fence_open s (xr_guard r)" "tx_works (xe_mutated env)" "tx_works (xe_outcome env)" "operation_row json s o'"
    "ao_session_id o' = sg_session_id (xr_guard r)" "ao_phase o' = ApplyMutating" "clock_works env o'"
    "observer_works json env"
  shows "\<exists>s' x. mutate_and_settle json env r o' p m s = (s', Inr x)
      \<and> terminal_phase (ao_phase (xs_operation x)) \<and> load_operation json (ao_id o') s' = Inr (xs_operation x)"
proof (cases "xe_mutate env m")
  case (Some err)
  then show ?thesis
    using terminalize_works(2) [OF assms(1,3,4,5) _ assms(7,8)] assms(6) by (simp add: mutate_and_settle_def)
next
  case None
  let ?o = "o'\<lparr>ao_phase := ApplyVerifying\<rparr>" and ?g = "next_guard (xr_guard r)"
  have valid: "apply_operation_valid json ?o"
    using assms(4,6)
    by (simp add: operation_row_def apply_operation_valid_def apply_phase_valid_def apply_failure_valid_def operation_outcome_valid_def
        terminal_phase_def)
  have "valid_apply_transition (ao_phase o') (ao_phase ?o)" using assms(6) by (simp add: valid_apply_transition_def)
  then obtain t where t: "journal_transition json (xe_mutated env) (xr_guard r) ?o s = (t, Inr ?g)"
      "fence_open t ?g" "operation_row json t ?o"
    using journal_transition_works [OF assms(1,2,4) _ _ valid assms(5)] by auto
  have session: "ao_session_id ?o = sg_session_id ?g" using assms(5) by (simp add: next_guard_def)
  have "\<exists>s' x. verify_and_terminalize json env (r\<lparr>xr_guard := ?g\<rparr>) ?o p False t = (s', Inr x)
      \<and> terminal_phase (ao_phase (xs_operation x)) \<and> load_operation json (ao_id ?o) s' = Inr (xs_operation x)"
    by (rule terminalize_works) (use t session assms(3,7,8) in \<open>simp_all add: clock_works_def\<close>)
  then show ?thesis using None t(1) by (simp add: mutate_and_settle_def Let_def)
qed

end
