(* ===== verification/Store_Wellformed.thy ===== *)
theory Store_Wellformed
  imports Transcript_Runs
begin

text \<open>
  The tables of the review store are well formed, and every operation keeps them so: the references
  between them, the histories without gaps, the ordinals without clashes.
\<close>

declare map_of_append [simp del]
declare not_None_eq [iff del]

subsection \<open>Well-formed tables\<close>

definition sessions_wf :: "review_tables \<Rightarrow> bool" where
  "sessions_wf tb \<longleftrightarrow>
     (\<forall>i r. map_of (tb_sessions tb) i = Some r \<longrightarrow>
        map_of (tb_repositories tb) (sw_repository_id r) \<noteq> None
        \<and> opt_all (\<lambda>w. map_of (tb_worktrees tb) w \<noteq> None) (sw_worktree_id r)
        \<and> map_of (tb_generations tb) (i, sw_generation r) \<noteq> None)"

definition anchors_wf :: "review_tables \<Rightarrow> bool" where
  "anchors_wf tb \<longleftrightarrow>
     (\<forall>i r. map_of (tb_threads tb) i = Some r \<longrightarrow>
        map_of (tb_sessions tb) (hr_session_id r) \<noteq> None \<and> hr_anchor_version r \<noteq> 0
        \<and> (\<forall>n. map_of (tb_anchors tb) (i, n) \<noteq> None \<longleftrightarrow> n \<noteq> 0 \<and> n \<le> hr_anchor_version r))
     \<and> (\<forall>i n. map_of (tb_anchors tb) (i, n) \<noteq> None \<longrightarrow> map_of (tb_threads tb) i \<noteq> None)"

definition messages_wf :: "review_tables \<Rightarrow> bool" where
  "messages_wf tb \<longleftrightarrow>
     (\<forall>i m. map_of (tb_messages tb) i = Some m \<longrightarrow>
        map_of (tb_threads tb) (ms_thread_id m) \<noteq> None \<and> ms_ordinal m \<noteq> 0)
     \<and> (\<forall>i j m n. map_of (tb_messages tb) i = Some m \<longrightarrow> map_of (tb_messages tb) j = Some n \<longrightarrow>
          ms_thread_id m = ms_thread_id n \<longrightarrow> ms_ordinal m = ms_ordinal n \<longrightarrow> i = j)"

definition chunks_wf :: "review_tables \<Rightarrow> bool" where
  "chunks_wf tb \<longleftrightarrow>
     bodies_owned tb
     \<and> (\<forall>i. map fst (numbered_chunks tb i) = [1..<Suc (length (numbered_chunks tb i))])"

definition tables_wf :: "review_tables \<Rightarrow> bool" where
  "tables_wf tb \<longleftrightarrow> sessions_wf tb \<and> anchors_wf tb \<and> messages_wf tb \<and> chunks_wf tb"

subsection \<open>Frames\<close>

lemma anchors_wf_frame:
  "anchors_wf tb \<Longrightarrow> tb_threads tb' = tb_threads tb \<Longrightarrow> tb_anchors tb' = tb_anchors tb \<Longrightarrow>
   (\<And>i. map_of (tb_sessions tb) i \<noteq> None \<Longrightarrow> map_of (tb_sessions tb') i \<noteq> None) \<Longrightarrow> anchors_wf tb'"
  unfolding anchors_wf_def by metis

lemma messages_wf_frame:
  "messages_wf tb \<Longrightarrow> tb_messages tb' = tb_messages tb \<Longrightarrow>
   (\<And>i. map_of (tb_threads tb) i \<noteq> None \<Longrightarrow> map_of (tb_threads tb') i \<noteq> None) \<Longrightarrow> messages_wf tb'"
  unfolding messages_wf_def by metis

lemma chunks_wf_frame:
  "chunks_wf tb \<Longrightarrow> tb_chunks tb' = tb_chunks tb \<Longrightarrow> tb_identities tb' = tb_identities tb \<Longrightarrow>
   (\<And>i. map_of (tb_messages tb) i \<noteq> None \<Longrightarrow> map_of (tb_messages tb') i \<noteq> None) \<Longrightarrow> chunks_wf tb'"
  unfolding chunks_wf_def bodies_owned_def numbered_chunks_def by metis

lemma sessions_wf_frame:
  "sessions_wf tb \<Longrightarrow> tb_sessions tb' = tb_sessions tb \<Longrightarrow> tb_generations tb' = tb_generations tb \<Longrightarrow>
   tb_repositories tb' = tb_repositories tb \<Longrightarrow> tb_worktrees tb' = tb_worktrees tb \<Longrightarrow> sessions_wf tb'"
  by (simp add: sessions_wf_def)

lemma bump_revision_wf [simp]: "tables_wf tb \<Longrightarrow> tables_wf (bump_revision i tb)"
proof -
  assume wf: "tables_wf tb"
  let ?tb = "bump_revision i tb"
  have same: "tb_repositories ?tb = tb_repositories tb" "tb_worktrees ?tb = tb_worktrees tb"
      "tb_generations ?tb = tb_generations tb"
      "tb_sessions ?tb = update_row i (\<lambda>r. r\<lparr>sw_revision := sw_revision r + 1\<rparr>) (tb_sessions tb)"
    by (simp_all add: bump_revision_def)
  have "sessions_wf ?tb"
    unfolding sessions_wf_def
  proof (intro allI impI)
    fix j r
    assume "map_of (tb_sessions ?tb) j = Some r"
    then obtain old where old: "map_of (tb_sessions tb) j = Some old" "sw_repository_id r = sw_repository_id old"
        "sw_worktree_id r = sw_worktree_id old" "sw_generation r = sw_generation old"
      by (auto simp: same split: if_splits)
    then show "map_of (tb_repositories ?tb) (sw_repository_id r) \<noteq> None
        \<and> opt_all (\<lambda>w. map_of (tb_worktrees ?tb) w \<noteq> None) (sw_worktree_id r)
        \<and> map_of (tb_generations ?tb) (j, sw_generation r) \<noteq> None"
      using wf by (simp add: same tables_wf_def sessions_wf_def)
  qed
  moreover have "anchors_wf ?tb"
    using wf by - (rule anchors_wf_frame [of tb], auto simp: tables_wf_def same)
  moreover have "messages_wf ?tb" using wf by - (rule messages_wf_frame [of tb], simp_all add: tables_wf_def)
  moreover have "chunks_wf ?tb" using wf by - (rule chunks_wf_frame [of tb], simp_all add: tables_wf_def)
  ultimately show "tables_wf ?tb" by (simp add: tables_wf_def)
qed

subsection \<open>The writes of a transaction\<close>

lemma save_session_wf: "save_session sid session tb = Inr tb' \<Longrightarrow> tables_wf tb \<Longrightarrow> tables_wf tb'"
proof -
  assume save: "save_session sid session tb = Inr tb'" and wf: "tables_wf tb"
  obtain row gens where row: "map_of (tb_sessions tb) sid = Some row" "sw_repository_id row = se_repository_id session"
      "generation_step_ok row session = Inr ()"
      "(if sw_generation row < rt_generation (se_target session)
        then insert_row (sid, rt_generation (se_target session))
          \<lparr>gw_capture_id = None, gw_fingerprint = rt_fingerprint (se_target session),
           gw_manifest_hash = [], gw_accepted_at = se_updated_at session\<rparr> (tb_generations tb)
        else Inr (tb_generations tb)) = Inr gens"
      "tb' = tb\<lparr>tb_generations := gens,
              tb_sessions := update_row sid
                (\<lambda>r. r\<lparr>sw_session := session, sw_generation := rt_generation (se_target session),
                       sw_closed_at := se_closed_at session, sw_updated_at := se_updated_at session\<rparr>)
                (tb_sessions tb)\<rparr>"
    using save by (auto simp: save_session_def split: if_splits sum.splits)
  have grown: "map_of (tb_generations tb) k \<noteq> None \<Longrightarrow> map_of gens k \<noteq> None" for k
    using row(4) by (auto simp: insert_row_Inr split: if_splits option.splits)
  have now: "map_of gens (sid, rt_generation (se_target session)) \<noteq> None"
  proof (cases "sw_generation row < rt_generation (se_target session)")
    case True
    then show ?thesis using row(4) by (auto simp: insert_row_Inr)
  next
    case False
    then have "sw_generation row = rt_generation (se_target session)"
      using row(3) by (auto simp: generation_step_ok_def Let_def split: if_splits)
    moreover have "map_of (tb_generations tb) (sid, sw_generation row) \<noteq> None"
      using wf row(1) by (auto simp: tables_wf_def sessions_wf_def)
    ultimately show ?thesis using grown by auto
  qed
  have "sessions_wf tb'"
    unfolding sessions_wf_def
  proof (intro allI impI)
    fix i r
    assume r: "map_of (tb_sessions tb') i = Some r"
    show "map_of (tb_repositories tb') (sw_repository_id r) \<noteq> None
        \<and> opt_all (\<lambda>w. map_of (tb_worktrees tb') w \<noteq> None) (sw_worktree_id r)
        \<and> map_of (tb_generations tb') (i, sw_generation r) \<noteq> None"
      using wf r row(1) now grown
      by (cases "i = sid") (auto simp: row(5) tables_wf_def sessions_wf_def)
  qed
  moreover have "anchors_wf tb'"
    using wf by - (rule anchors_wf_frame [of tb], auto simp: tables_wf_def row(5))
  moreover have "messages_wf tb'" using wf by - (rule messages_wf_frame [of tb], simp_all add: tables_wf_def row(5))
  moreover have "chunks_wf tb'" using wf by - (rule chunks_wf_frame [of tb], simp_all add: tables_wf_def row(5))
  ultimately show "tables_wf tb'" by (simp add: tables_wf_def)
qed

text \<open>A thread whose anchor history is extended, or which is new with its first version.\<close>

lemma anchors_wf_extend:
  assumes "anchors_wf tb" "map_of (tb_threads tb) i = Some row" "hr_session_id row = hr_session_id row'"
    "hr_anchor_version row' = hr_anchor_version row + 1"
    "\<And>j. map_of (tb_threads tb') j = (if j = i then Some row' else map_of (tb_threads tb) j)"
    "\<And>k. map_of (tb_anchors tb') k \<noteq> None \<longleftrightarrow> k = (i, hr_anchor_version row + 1) \<or> map_of (tb_anchors tb) k \<noteq> None"
    "tb_sessions tb' = tb_sessions tb"
  shows "anchors_wf tb'"
  unfolding anchors_wf_def
proof (intro conjI allI impI)
  fix j r
  assume r: "map_of (tb_threads tb') j = Some r"
  obtain old where old: "map_of (tb_threads tb) j = Some old" "hr_session_id r = hr_session_id old"
      "hr_anchor_version r = (if j = i then hr_anchor_version old + 1 else hr_anchor_version old)"
    using r assms(2-5) by (auto split: if_splits)
  then show "map_of (tb_sessions tb') (hr_session_id r) \<noteq> None"
    using assms(1,7) by (auto simp: anchors_wf_def)
  show "hr_anchor_version r \<noteq> 0" using assms(1) old by (auto simp: anchors_wf_def)
  fix n
  have "map_of (tb_anchors tb) (j, n) \<noteq> None \<longleftrightarrow> n \<noteq> 0 \<and> n \<le> hr_anchor_version old"
    using assms(1) old(1) by (simp add: anchors_wf_def)
  then show "map_of (tb_anchors tb') (j, n) \<noteq> None \<longleftrightarrow> n \<noteq> 0 \<and> n \<le> hr_anchor_version r"
    unfolding assms(6) old(3) using old(1) assms(2) by auto
next
  fix j n
  assume "map_of (tb_anchors tb') (j, n) \<noteq> None"
  then have "j = i \<or> map_of (tb_anchors tb) (j, n) \<noteq> None" unfolding assms(6) by blast
  then show "map_of (tb_threads tb') j \<noteq> None" using assms(1,5) by (auto simp: anchors_wf_def)
qed

lemma anchors_wf_new:
  assumes "anchors_wf tb" "map_of (tb_threads tb) i = None" "map_of (tb_sessions tb) (hr_session_id row) \<noteq> None"
    "hr_anchor_version row = 1"
    "\<And>j. map_of (tb_threads tb') j = (if j = i then Some row else map_of (tb_threads tb) j)"
    "\<And>k. map_of (tb_anchors tb') k \<noteq> None \<longleftrightarrow> k = (i, 1) \<or> map_of (tb_anchors tb) k \<noteq> None"
    "tb_sessions tb' = tb_sessions tb"
  shows "anchors_wf tb'"
proof -
  have none: "map_of (tb_anchors tb) (i, n) = None" for n
    using assms(1,2) unfolding anchors_wf_def by blast
  show ?thesis
    unfolding anchors_wf_def
  proof (intro conjI allI impI)
    fix j r
    assume r: "map_of (tb_threads tb') j = Some r"
    show "map_of (tb_sessions tb') (hr_session_id r) \<noteq> None" "hr_anchor_version r \<noteq> 0"
      using r assms(1,3,4,7) by (auto simp: assms(5) anchors_wf_def split: if_splits)
    show "map_of (tb_anchors tb') (j, n) \<noteq> None \<longleftrightarrow> n \<noteq> 0 \<and> n \<le> hr_anchor_version r" for n
    proof (cases "j = i")
      case True
      then have "r = row" using r by (simp add: assms(5))
      then show ?thesis unfolding assms(6) using none True assms(4) by auto
    next
      case False
      then have "map_of (tb_threads tb) j = Some r" using r by (simp add: assms(5))
      then show ?thesis unfolding assms(6) using False assms(1) by (auto simp: anchors_wf_def)
    qed
  next
    fix j n
    assume "map_of (tb_anchors tb') (j, n) \<noteq> None"
    then have "j = i \<or> map_of (tb_anchors tb) (j, n) \<noteq> None" unfolding assms(6) by blast
    then show "map_of (tb_threads tb') j \<noteq> None" using assms(1,5) by (auto simp: anchors_wf_def)
  qed
qed

lemma save_thread_wf:
  assumes "save_thread sid t tb = Inr tb'" "tables_wf tb" "map_of (tb_sessions tb) sid \<noteq> None"
  shows "tables_wf tb'"
proof -
  have t: "th_session_id t = sid" using assms(1) by (auto simp: save_thread_def split: if_splits)
  have rest: "tb_messages tb' = tb_messages tb" "tb_chunks tb' = tb_chunks tb" "tb_identities tb' = tb_identities tb"
    using save_thread_bodies [OF assms(1)] by simp_all
  have outer: "tb_sessions tb' = tb_sessions tb" "tb_generations tb' = tb_generations tb"
      "tb_repositories tb' = tb_repositories tb" "tb_worktrees tb' = tb_worktrees tb"
    using assms(1) by (auto simp: save_thread_def Let_def split: if_splits option.splits)
  have anchors: "anchors_wf tb"  using assms(2) by (simp add: tables_wf_def)
  have both: "anchors_wf tb' \<and> (\<forall>i. map_of (tb_threads tb) i \<noteq> None \<longrightarrow> map_of (tb_threads tb') i \<noteq> None)"
  proof (cases "map_of (tb_threads tb) (th_id t)")
    case None
    then have "tb_threads tb' = tb_threads tb @ [(th_id t, thread_row_of t 1)]"
        "tb_anchors tb' = tb_anchors tb @ [((th_id t, 1), anchor_row_of (th_anchor t))]"
      using assms(1) by (auto simp: save_thread_def insert_row_Inr split: if_splits)
    then show ?thesis
      using None assms(3) t outer(1)
      by (intro conjI anchors_wf_new [OF anchors None, of "thread_row_of t 1"])
        (auto simp: thread_row_of_def split: option.split)
  next
    case (Some row)
    have existing: "hr_session_id row = sid"
        "tb_anchors tb' = tb_anchors tb
           \<and> tb_threads tb' = update_row (th_id t) (\<lambda>_. thread_row_of t (hr_anchor_version row)) (tb_threads tb)
         \<or> tb_anchors tb' = tb_anchors tb @ [((th_id t, hr_anchor_version row + 1), anchor_row_of (th_anchor t))]
           \<and> tb_threads tb' = update_row (th_id t) (\<lambda>_. thread_row_of t (hr_anchor_version row + 1)) (tb_threads tb)"
      using assms(1) Some by (auto simp: save_thread_def insert_row_Inr Let_def split: if_splits option.splits)
    show ?thesis
    proof (cases "tb_anchors tb' = tb_anchors tb")
      case True
      then have same: "tb_anchors tb' = tb_anchors tb"
          "tb_threads tb' = update_row (th_id t) (\<lambda>_. thread_row_of t (hr_anchor_version row)) (tb_threads tb)"
        using existing(2) by auto
      have "\<exists>old. map_of (tb_threads tb) i = Some old \<and> hr_session_id old = hr_session_id r
          \<and> hr_anchor_version old = hr_anchor_version r" if "map_of (tb_threads tb') i = Some r" for i r
        using that Some existing(1) t by (auto simp: same(2) thread_row_of_def split: if_splits)
      moreover have "map_of (tb_threads tb') i = None \<longleftrightarrow> map_of (tb_threads tb) i = None" for i
        by (simp add: same(2))
      moreover have "anchors_wf tb'"
        unfolding anchors_wf_def same(1) outer(1)
      proof (intro conjI allI impI)
        fix i r
        assume "map_of (tb_threads tb') i = Some r"
        then obtain old where "map_of (tb_threads tb) i = Some old" "hr_session_id r = hr_session_id old"
            "hr_anchor_version r = hr_anchor_version old"
          using calculation(1) by metis
        then show "map_of (tb_sessions tb) (hr_session_id r) \<noteq> None" "hr_anchor_version r \<noteq> 0"
          "\<And>n. map_of (tb_anchors tb) (i, n) \<noteq> None \<longleftrightarrow> n \<noteq> 0 \<and> n \<le> hr_anchor_version r"
          using anchors by (simp_all add: anchors_wf_def)
      next
        fix i n
        assume "map_of (tb_anchors tb) (i, n) \<noteq> None"
        then have "map_of (tb_threads tb) i \<noteq> None" using anchors unfolding anchors_wf_def by blast
        then show "map_of (tb_threads tb') i \<noteq> None" using calculation(2) by simp
      qed
      ultimately show ?thesis by simp
    next
      case False
      then show ?thesis
        using existing Some t outer(1)
        by (intro conjI anchors_wf_extend [OF anchors Some, of "thread_row_of t (hr_anchor_version row + 1)"])
          (auto simp: thread_row_of_def split: option.split)
    qed
  qed
  moreover have "messages_wf tb'"
    using assms(2) both rest by - (rule messages_wf_frame [of tb], auto simp: tables_wf_def)
  moreover have "chunks_wf tb'" using assms(2) rest by - (rule chunks_wf_frame [of tb], auto simp: tables_wf_def)
  moreover have "sessions_wf tb'" using assms(2) outer by - (rule sessions_wf_frame [of tb], auto simp: tables_wf_def)
  ultimately show ?thesis by (simp add: tables_wf_def)
qed

lemma append_version_wf:
  assumes "append_anchor_version sid w tb = Inr (tb', v)" "tables_wf tb"
  shows "tables_wf tb'"
proof -
  have rest: "tb_messages tb' = tb_messages tb" "tb_chunks tb' = tb_chunks tb" "tb_identities tb' = tb_identities tb"
      "tb_sessions tb' = tb_sessions tb" "tb_generations tb' = tb_generations tb"
      "tb_repositories tb' = tb_repositories tb" "tb_worktrees tb' = tb_worktrees tb"
    using assms(1) by (auto simp: append_anchor_version_def Let_def split: if_splits option.splits)
  obtain row where row: "map_of (tb_threads tb) (vw_thread_id w) = Some row"
      "tb_threads tb' = update_row (vw_thread_id w)
         (\<lambda>t. t\<lparr>hr_anchor_version := hr_anchor_version row + 1, hr_updated_at := av_created_at v\<rparr>) (tb_threads tb)"
      "tb_anchors tb' = tb_anchors tb @ [((vw_thread_id w, hr_anchor_version row + 1),
         \<lparr>aw_stored = StoredVersion v, aw_created_at = av_created_at v\<rparr>)]"
    using assms(1)
    by (auto simp: append_anchor_version_def Let_def insert_row_Inr manual_version_def split: if_splits option.splits)
  have anchors: "anchors_wf tb" using assms(2) by (simp add: tables_wf_def)
  have "anchors_wf tb'"
    by (rule anchors_wf_extend [OF anchors row(1), of "row\<lparr>hr_anchor_version := hr_anchor_version row + 1,
          hr_updated_at := av_created_at v\<rparr>"])
      (auto simp: row rest split: option.split)
  moreover have "messages_wf tb'"
    using assms(2) rest row(2) by - (rule messages_wf_frame [of tb], auto simp: tables_wf_def)
  moreover have "chunks_wf tb'" using assms(2) rest by - (rule chunks_wf_frame [of tb], auto simp: tables_wf_def)
  moreover have "sessions_wf tb'" using assms(2) rest by - (rule sessions_wf_frame [of tb], auto simp: tables_wf_def)
  ultimately show ?thesis by (simp add: tables_wf_def)
qed

lemma save_message_wf:
  assumes "save_message sid maximum m tb = Inr tb'" "tables_wf tb"
  shows "tables_wf tb'"
proof -
  note tables = save_message_tables [OF assms(1)] save_message_bodies [OF assms(1)]
  have rest: "tb_generations tb' = tb_generations tb" "tb_repositories tb' = tb_repositories tb"
      "tb_worktrees tb' = tb_worktrees tb"
    using assms(1) by (auto simp: save_message_def split: if_splits option.splits)
  have m: "message_valid m" "map_of (tb_threads tb) (msg_thread_id m) \<noteq> None" "\<not> ordinal_taken tb m"
    using assms(1) by (auto simp: save_message_def split: if_splits option.splits)
  from save_message_row [OF assms(1)] obtain created where
    new: "map_of (tb_messages tb') (msg_id m) = Some (message_row_of m created)" by blast
  note old = save_message_others [OF assms(1)]
  have free: "ms_ordinal n \<noteq> msg_ordinal m"
    if "map_of (tb_messages tb) i = Some n" "i \<noteq> msg_id m" "ms_thread_id n = msg_thread_id m" for i n
    using m(3) map_of_SomeD [OF that(1)] that(2,3) by (force simp: ordinal_taken_def list_ex_iff)
  have row: "ms_thread_id (message_row_of m created) = msg_thread_id m"
      "ms_ordinal (message_row_of m created) = msg_ordinal m"
    by (simp_all add: message_row_of_def)
  have wf: "messages_wf tb" using assms(2) by (simp add: tables_wf_def)
  have "messages_wf tb'"
    unfolding messages_wf_def
  proof (intro conjI allI impI)
    fix i n
    assume n: "map_of (tb_messages tb') i = Some n"
    show "map_of (tb_threads tb') (ms_thread_id n) \<noteq> None" "ms_ordinal n \<noteq> 0"
      using n new old wf m(1,2) tables row
      by (cases "i = msg_id m"; auto simp: messages_wf_def message_valid_def)+
  next
    fix i j n n'
    assume n: "map_of (tb_messages tb') i = Some n" "map_of (tb_messages tb') j = Some n'"
      "ms_thread_id n = ms_thread_id n'" "ms_ordinal n = ms_ordinal n'"
    show "i = j"
    proof (cases "i = msg_id m \<or> j = msg_id m")
      case True
      then show ?thesis using n new old free row by (cases "i = msg_id m"; cases "j = msg_id m") fastforce+
    next
      case False
      then have "map_of (tb_messages tb) i = Some n" "map_of (tb_messages tb) j = Some n'" using n old by auto
      then show ?thesis using wf n(3,4) by (simp add: messages_wf_def)
    qed
  qed
  moreover have "map_of (tb_messages tb') i \<noteq> None" if "map_of (tb_messages tb) i \<noteq> None" for i
    using that new old by (cases "i = msg_id m") auto
  then have "chunks_wf tb'" using assms(2) tables by - (rule chunks_wf_frame [of tb], auto simp: tables_wf_def)
  moreover have "anchors_wf tb'" using assms(2) tables by - (rule anchors_wf_frame [of tb], auto simp: tables_wf_def)
  moreover have "sessions_wf tb'"
    using assms(2) tables rest by - (rule sessions_wf_frame [of tb], auto simp: tables_wf_def)
  ultimately show ?thesis by (simp add: tables_wf_def)
qed

lemma highest_upto: "foldr max [1..<Suc n] 0 = n"
proof -
  have "foldr max [1..<Suc n] m = max n m" for m
    by (induction n arbitrary: m) auto
  from this [of 0] show ?thesis by simp
qed

text \<open>A rewrite of message rows that keeps their threads and ordinals.\<close>

lemma messages_wf_update:
  assumes "messages_wf tb" "tb_messages tb' = update_row i f (tb_messages tb)" "tb_threads tb' = tb_threads tb"
    "\<And>m. ms_thread_id (f m) = ms_thread_id m" "\<And>m. ms_ordinal (f m) = ms_ordinal m"
  shows "messages_wf tb'"
proof -
  have old: "\<exists>o'. map_of (tb_messages tb) j = Some o' \<and> ms_thread_id o' = ms_thread_id m \<and> ms_ordinal o' = ms_ordinal m"
    if "map_of (tb_messages tb') j = Some m" for j m
    using that assms(4,5) by (auto simp: assms(2) split: if_splits)
  show ?thesis
    unfolding messages_wf_def
  proof (intro conjI allI impI)
    fix j m
    assume "map_of (tb_messages tb') j = Some m"
    from old [OF this] show "map_of (tb_threads tb') (ms_thread_id m) \<noteq> None" "ms_ordinal m \<noteq> 0"
      using assms(1,3) unfolding messages_wf_def by metis+
  next
    fix j k m n
    assume "map_of (tb_messages tb') j = Some m" "map_of (tb_messages tb') k = Some n"
      "ms_thread_id m = ms_thread_id n" "ms_ordinal m = ms_ordinal n"
    with old [of j m] old [of k n] show "j = k" using assms(1) unfolding messages_wf_def by metis
  qed
qed

lemma append_chunk_wf:
  assumes "append_body_chunk sid c now tb = Inr tb'" "tables_wf tb"
  shows "tables_wf tb'"
proof (cases "map_of (tb_chunks tb) (cw_message_id c, cw_ordinal c)")
  case (Some old)
  with append_body_chunk_old [OF assms(1)] assms(2) show ?thesis by simp
next
  case None
  note new = append_body_chunk_new [OF assms(1) None]
  let ?i = "cw_message_id c"
  have rest: "tb_generations tb' = tb_generations tb" "tb_repositories tb' = tb_repositories tb"
      "tb_worktrees tb' = tb_worktrees tb"
    using assms(1) by (auto simp: append_body_chunk_def Let_def split: if_splits option.splits)
  from new(5) obtain f where f: "tb_messages tb' = update_row ?i f (tb_messages tb)"
      "\<And>m. ms_thread_id (f m) = ms_thread_id m" "\<And>m. ms_ordinal (f m) = ms_ordinal m"
      "map_of (tb_messages tb) ?i \<noteq> None"
    by fastforce
  have wf: "messages_wf tb" "chunks_wf tb" using assms(2) by (simp_all add: tables_wf_def)
  have "messages_wf tb'" by (rule messages_wf_update [OF wf(1) f(1) new(8)]) (simp_all add: f)
  moreover have "chunks_wf tb'"
  proof -
    have "cw_ordinal c = length (numbered_chunks tb ?i) + 1"
      using new(3) wf(2) highest_upto [of "length (numbered_chunks tb ?i)"]
      by (simp add: chunks_wf_def highest_ordinal_def del: upt_Suc)
    then have "map fst (numbered_chunks tb' i) = [1..<Suc (length (numbered_chunks tb' i))]" for i
      using wf(2) new(2,4) by (cases "i = ?i") (simp_all add: chunks_wf_def)
    moreover have "bodies_owned tb'"
      using wf(2) new(4,7) f(1,4) unfolding chunks_wf_def bodies_owned_def
      by (metis map_of_update_row option.map_disc_iff)
    ultimately show ?thesis by (simp add: chunks_wf_def)
  qed
  moreover have "anchors_wf tb'"
    using assms(2) new(8-10) by - (rule anchors_wf_frame [of tb], auto simp: tables_wf_def)
  moreover have "sessions_wf tb'"
    using assms(2) new(10) rest by - (rule sessions_wf_frame [of tb], auto simp: tables_wf_def)
  ultimately show ?thesis by (simp add: tables_wf_def)
qed

lemma finalize_wf:
  assumes "finalize_body sid ident tb = Inr tb'" "tables_wf tb"
  shows "tables_wf tb'"
proof -
  note f = finalize_body_Inr [OF assms(1)]
  let ?i = "bi_message_id ident"
  have rest: "tb_generations tb' = tb_generations tb" "tb_repositories tb' = tb_repositories tb"
      "tb_worktrees tb' = tb_worktrees tb" "tb_identities tb' = tb_identities tb @ [(?i, ident)]"
    using assms(1) by (auto simp: finalize_body_def insert_row_Inr Let_def split: if_splits)
  have wf: "messages_wf tb" "chunks_wf tb" using assms(2) by (simp_all add: tables_wf_def)
  have "messages_wf tb'" by (rule messages_wf_update [OF wf(1) f(11,8)]) simp_all
  moreover have "chunks_wf tb'"
  proof -
    have same: "numbered_chunks tb' j = numbered_chunks tb j" for j by (simp add: numbered_chunks_def f(4))
    have "bodies_owned tb'"
      unfolding bodies_owned_def
    proof (intro allI impI)
      fix j
      assume "map_of (tb_messages tb') j = None"
      then have "map_of (tb_messages tb) j = None" by (auto simp: f(11) split: if_splits)
      moreover from this have "j \<noteq> ?i" using f(12) by auto
      ultimately show "numbered_chunks tb' j = [] \<and> map_of (tb_identities tb') j = None"
        using wf(2) by (auto simp: chunks_wf_def bodies_owned_def same rest(4))
    qed
    then show ?thesis using wf(2) by (simp add: chunks_wf_def same)
  qed
  moreover have "anchors_wf tb'"
    using assms(2) f(8-10) by - (rule anchors_wf_frame [of tb], auto simp: tables_wf_def)
  moreover have "sessions_wf tb'"
    using assms(2) f(10) rest by - (rule sessions_wf_frame [of tb], auto simp: tables_wf_def)
  ultimately show ?thesis by (simp add: tables_wf_def)
qed

lemmas write_wf = save_session_wf save_message_wf append_version_wf append_chunk_wf finalize_wf

lemma tx_write_wf:
  "tx_write sid maximum tb tb' \<Longrightarrow> tables_wf tb \<Longrightarrow> map_of (tb_sessions tb) sid \<noteq> None \<Longrightarrow> tables_wf tb'"
  by (induction rule: tx_write.induct) (auto intro: write_wf save_thread_wf)

lemma tx_run_wf:
  assumes "(tx_write sid maximum)\<^sup>*\<^sup>* tb tb'" "tables_wf tb" "map_of (tb_sessions tb) sid \<noteq> None"
  shows "tables_wf tb' \<and> map_of (tb_sessions tb') sid \<noteq> None"
  using assms(1)
proof (induction rule: rtranclp_induct)
  case (step y z)
  from tx_write_fence [OF step(2), of sid] step(3) have "map_of (tb_sessions z) sid \<noteq> None"
    by (auto simp: session_fence_def map_option_eq_Some)
  then show ?case using tx_write_wf step by blast
qed (use assms in simp)

subsection \<open>Runs of the store\<close>

lemma in_tx_wf:
  assumes "in_tx env body s = (s', r)" "tables_wf (rv_tables s)"
    "\<And>tb x. body (rv_tables s) = Inr (tb, x) \<Longrightarrow> tables_wf tb"
  shows "tables_wf (rv_tables s')"
  using assms by (auto simp: in_tx_def split: option.splits sum.splits prod.splits)

lemma upsert_wf:
  assumes "tables_wf tb"
  shows "tables_wf (tb\<lparr>tb_repositories := upsert_row i f (tb_repositories tb),
      tb_worktrees := upsert_row w g (tb_worktrees tb)\<rparr>)" (is "tables_wf ?tb")
proof -
  have "sessions_wf ?tb"
    using assms by (fastforce simp: tables_wf_def sessions_wf_def opt_all_def split: option.splits)
  moreover have "anchors_wf ?tb" using assms by - (rule anchors_wf_frame [of tb], auto simp: tables_wf_def)
  moreover have "messages_wf ?tb" using assms by - (rule messages_wf_frame [of tb], auto simp: tables_wf_def)
  moreover have "chunks_wf ?tb" using assms by - (rule chunks_wf_frame [of tb], auto simp: tables_wf_def)
  ultimately show ?thesis by (simp add: tables_wf_def)
qed

lemma claim_wf:
  assumes "tables_wf tb"
  shows "tables_wf (tb\<lparr>tb_sessions := update_row i
      (\<lambda>r. r\<lparr>sw_writer_epoch := e r, sw_writer_lease := lease, sw_revision := n r\<rparr>) (tb_sessions tb)\<rparr>)"
    (is "tables_wf ?tb")
proof -
  have "sessions_wf ?tb"
    unfolding sessions_wf_def
  proof (intro allI impI)
    fix j r
    assume "map_of (tb_sessions ?tb) j = Some r"
    then obtain old where old: "map_of (tb_sessions tb) j = Some old" "sw_repository_id r = sw_repository_id old"
        "sw_worktree_id r = sw_worktree_id old" "sw_generation r = sw_generation old"
      by (auto split: if_splits)
    then show "map_of (tb_repositories ?tb) (sw_repository_id r) \<noteq> None
        \<and> opt_all (\<lambda>w. map_of (tb_worktrees ?tb) w \<noteq> None) (sw_worktree_id r)
        \<and> map_of (tb_generations ?tb) (j, sw_generation r) \<noteq> None"
      using assms by (simp add: tables_wf_def sessions_wf_def)
  qed
  moreover have "anchors_wf ?tb" using assms by - (rule anchors_wf_frame [of tb], auto simp: tables_wf_def)
  moreover have "messages_wf ?tb" using assms by - (rule messages_wf_frame [of tb], auto simp: tables_wf_def)
  moreover have "chunks_wf ?tb" using assms by - (rule chunks_wf_frame [of tb], auto simp: tables_wf_def)
  ultimately show ?thesis by (simp add: tables_wf_def)
qed

lemma create_tx_wf:
  assumes "create_session_tx session key lease tb = Inr (tb', g)" "tables_wf tb"
  shows "tables_wf tb'"
proof -
  have new: "map_of (tb_repositories tb) (se_repository_id session) \<noteq> None"
      "sk_worktree_id key \<noteq> [] \<longrightarrow> map_of (tb_worktrees tb) (sk_worktree_id key) \<noteq> None"
      "map_of (tb_sessions tb) (se_id session) = None"
      "tb_sessions tb' = tb_sessions tb @ [(se_id session, session_row_of session key lease)]"
      "\<exists>row. tb_generations tb' = tb_generations tb @ [((se_id session, rt_generation (se_target session)), row)]"
      "tb_repositories tb' = tb_repositories tb" "tb_worktrees tb' = tb_worktrees tb"
      "tb_threads tb' = tb_threads tb" "tb_anchors tb' = tb_anchors tb" "tb_messages tb' = tb_messages tb"
      "tb_chunks tb' = tb_chunks tb" "tb_identities tb' = tb_identities tb"
    using assms(1) by (auto simp: create_session_tx_def insert_row_Inr split: if_splits)
  from new(5) obtain row where
    gens: "tb_generations tb' = tb_generations tb @ [((se_id session, rt_generation (se_target session)), row)]" by blast
  have "sessions_wf tb'"
    unfolding sessions_wf_def
  proof (intro allI impI)
    fix i r
    assume r: "map_of (tb_sessions tb') i = Some r"
    show "map_of (tb_repositories tb') (sw_repository_id r) \<noteq> None
        \<and> opt_all (\<lambda>w. map_of (tb_worktrees tb') w \<noteq> None) (sw_worktree_id r)
        \<and> map_of (tb_generations tb') (i, sw_generation r) \<noteq> None"
    proof (cases "i = se_id session")
      case True
      then have "r = session_row_of session key lease" using r new(3) by (simp add: new(4))
      then show ?thesis
        using True new(1,2,6,7)
        by (auto simp: gens session_row_of_def nullable_id_def split: option.split)
    next
      case False
      then have "map_of (tb_sessions tb) i = Some r" using r by (simp add: new(4) split: option.splits)
      then show ?thesis
        using assms(2) by (auto simp: tables_wf_def sessions_wf_def new(6,7) gens split: option.split)
    qed
  qed
  moreover have "anchors_wf tb'"
    using assms(2) new(3,4,8,9) by - (rule anchors_wf_frame [of tb], auto simp: tables_wf_def split: option.split)
  moreover have "messages_wf tb'"
    using assms(2) new(8,10) by - (rule messages_wf_frame [of tb], auto simp: tables_wf_def)
  moreover have "chunks_wf tb'" using assms(2) new by - (rule chunks_wf_frame [of tb], auto simp: tables_wf_def)
  ultimately show ?thesis by (simp add: tables_wf_def)
qed

lemma store_step_wf: "store_step s s' \<Longrightarrow> tables_wf (rv_tables s) \<Longrightarrow> tables_wf (rv_tables s')"
proof (induction rule: store_step.induct)
  case (step_repository env repo w s s' r)
  then show ?case
    by (auto simp: upsert_repository_def upsert_wf elim!: in_tx_wf split: if_splits)
next
  case (step_create env session lease s s' r)
  then show ?case
    by (auto simp: create_session_def create_tx_wf elim!: in_tx_wf split: if_splits sum.splits)
next
  case (step_claim env i lease s s' r)
  then show ?case
    by (auto simp: claim_session_writer_def claim_wf elim!: in_tx_wf split: if_splits)
next
  case (step_commit g s body env s' r)
  show ?case
  proof (cases r)
    case (Inl e)
    then have "s' = s" using step_commit(2) with_session_tx_Inl by blast
    then show ?thesis using step_commit.prems by simp
  next
    case (Inr g')
    then obtain tb where tb: "body (rv_tables s) = Inr tb" "s' = s\<lparr>rv_tables := bump_revision (sg_session_id g) tb\<rparr>"
        "verify_guard (rv_tables s) g = Inr ()"
      using step_commit(2) by (auto simp: with_session_tx_Inr)
    have "map_of (tb_sessions (rv_tables s)) (sg_session_id g) \<noteq> None"
      using tb(3) by (auto simp: verify_guard_def)
    with tx_run_wf step_commit(1,3) tb(1) have "tables_wf tb" unfolding session_body_def by blast
    then show ?thesis by (simp add: tb(2))
  qed
qed simp

text \<open>
  C19. The tables of the review store stay well formed, whatever runs on them: every row that a row
  names exists; the anchor versions of a thread are numbered without a gap and its current one is the
  last; no two messages of a thread share an ordinal; the chunks of a message are numbered from one
  without a gap, and bodies belong to messages. It holds of the empty store.
\<close>

theorem store_well_formed:
  assumes "store_step\<^sup>*\<^sup>* s s'" "tables_wf (rv_tables s)"
  shows "tables_wf (rv_tables s')"
  using assms by (induction rule: rtranclp_induct) (auto intro: store_step_wf)

definition linked_store :: review_store where
  "linked_store = streaming_store
     \<lparr>rv_tables := (rv_tables streaming_store)
        \<lparr>tb_repositories := [(''r'',
           \<lparr>rp_id = ''r'', rp_common_git_dir = ''/g'', rp_binding = \<lparr>rb_version = 1, rb_object_format = ''sha1'', rb_common_git_dir = ''/g'',
              rb_common_git_dir_identity = ''n''\<rparr>, rp_display_name = ''d'',
            rp_remotes = [], rp_default_branch = [], rp_created_at = 1, rp_updated_at = 1\<rparr>)],
         tb_worktrees := [(''w'',
           \<lparr>wt_id = ''w'', wt_repository_id = ''r'', wt_root_path = ''/w'', wt_git_dir = ''/g'',
            wt_binding = \<lparr>wb_version = 1, wb_object_format = ''sha1'', wb_root_path = ''/w'', wb_git_dir = ''/g'',
              wb_root_identity = ''n'', wb_git_dir_identity = ''n''\<rparr>, wt_current_object_id = [], wt_branch_name = [],
            wt_detached = False, wt_launch_focus = [], wt_upstream = None\<rparr>)],
         tb_generations := [((''s'', 1),
           \<lparr>gw_capture_id = None, gw_fingerprint = [], gw_manifest_hash = [], gw_accepted_at = 1\<rparr>)],
         tb_anchors := [((''t'', 1), anchor_row_of sample_thread_anchor)]\<rparr>\<rparr>"

lemma linked_store_wf: "tables_wf (rv_tables linked_store)"
  by (auto simp: tables_wf_def sessions_wf_def anchors_wf_def messages_wf_def chunks_wf_def bodies_owned_def
      numbered_chunks_def linked_store_def streaming_store_def sample_store_def empty_tables_def)

lemma linked_append:
  "\<exists>tb. append_body_chunk ''s'' (stream_chunk ''hi'' (extend_stream 9 ''hi'' sample_stream)) 9
     (rv_tables linked_store) = Inr tb"
  by (simp add: append_body_chunk_def stream_chunk_def extend_stream_def sample_stream_def streaming_store_def
      sample_store_def linked_store_def empty_tables_def chunk_write_valid_def MaxMessageBodyChunk_def
      MaxStreamedMessageBytes_def equal_fold_def message_owner_def select_row_def highest_ordinal_def
      numbered_chunks_def insert_row_def message_body_digest_def message_body_def message_chunks_def)

lemma store_well_formed_witness:
  "\<exists>s' g'. with_session_tx \<lparr>te_begin = None, te_commit = None\<rparr>
       \<lparr>sg_session_id = ''s'', sg_lease_id = ''l'', sg_writer_epoch = 2, sg_expected_revision = 4\<rparr>
       (append_body_chunk ''s'' (stream_chunk ''hi'' (extend_stream 9 ''hi'' sample_stream)) 9) linked_store
     = (s', Inr g') \<and> tables_wf (rv_tables s')"
proof -
  let ?env = "\<lparr>te_begin = None, te_commit = None\<rparr>"
  let ?g = "\<lparr>sg_session_id = ''s'', sg_lease_id = ''l'', sg_writer_epoch = 2, sg_expected_revision = 4\<rparr>"
  let ?body = "append_body_chunk ''s'' (stream_chunk ''hi'' (extend_stream 9 ''hi'' sample_stream)) 9"
  obtain tb where tb: "?body (rv_tables linked_store) = Inr tb" using linked_append by blast
  have "verify_guard (rv_tables linked_store) ?g = Inr ()"
    by (simp add: verify_guard_def linked_store_def streaming_store_def sample_store_def select_row_def)
  moreover have "guard_matches tb ?g"
    using append_chunk_sessions [OF tb]
    by (simp add: guard_matches_def linked_store_def streaming_store_def sample_store_def)
  ultimately have tx: "with_session_tx ?env ?g ?body linked_store
      = (linked_store\<lparr>rv_tables := bump_revision ''s'' tb\<rparr>, Inr (next_guard ?g))"
    using tb by (simp add: with_session_tx_Inr guard_valid_def linked_store_def streaming_store_def sample_store_def)
  have "session_body ?g linked_store ?body"
    by (auto simp: session_body_def intro: write_chunk)
  from step_commit [OF this tx] have "store_step\<^sup>*\<^sup>* linked_store (linked_store\<lparr>rv_tables := bump_revision ''s'' tb\<rparr>)"
    by blast
  from store_well_formed [OF this linked_store_wf] tx show ?thesis by blast
qed

end
