(* ===== verification/Apply_Claims.thy ===== *)
theory Apply_Claims
  imports Apply_Settling Store_Wellformed Reducer_Steps
begin

text \<open>
  What the apply journal guarantees over any history, with the instance that its properties are shown on.
\<close>

subsection \<open>An instance\<close>

definition sample_json :: evidence_json where
  "sample_json = \<lparr>ej_destination = (\<lambda>_. []), ej_verification = (\<lambda>_. [])\<rparr>"

definition sample_capability :: capability_evidence where
  "sample_capability =
     \<lparr>ab_version = 1, ab_registered_support = True, ab_containment = True, ab_native_executor = True,
      ab_no_unmerged = True, ab_no_unsupported_flags = True, ab_byte_neutral = True\<rparr>"

definition sample_destination_evidence :: destination_evidence where
  "sample_destination_evidence =
     \<lparr>de_version = 1, de_repository_id = ''r'', de_worktree_id = ''w'', de_target_kind = TargetLocal, de_head = [],
      de_branch_name = [], de_detached = False, de_tree_fingerprint = sha256_hex [], de_index = no_index,
      de_paths = [], de_conversion_version = 1, de_conversion_fingerprint = sha256_hex [],
      de_attributes_changed = False, de_capability = sample_capability, de_global_fingerprint = sha256_hex [],
      de_observed_at = 1, de_evidence_hash = sha256_hex []\<rparr>"

definition sample_verification :: verification_evidence where
  "sample_verification =
     \<lparr>ve_version = 1, ve_operation_id = ''o'', ve_repository_id = ''r'', ve_worktree_id = ''w'',
      ve_target_kind = TargetLocal, ve_state = ObservedBaseline, ve_paths = [], ve_unexpected_paths = [],
      ve_head = [], ve_branch_name = [], ve_detached = False, ve_tree_fingerprint = sha256_hex [],
      ve_index = no_index, ve_conversion_version = 1, ve_conversion_fingerprint = sha256_hex [],
      ve_attributes_changed = False, ve_capability = sample_capability, ve_global_fingerprint = sha256_hex [],
      ve_observed_at = 1, ve_evidence_hash = sha256_hex []\<rparr>"

definition sample_operation :: apply_operation where
  "sample_operation =
     \<lparr>ao_version = 1, ao_id = ''o'', ao_session_id = ''s'', ao_proposal_id = ''p'', ao_workspace_id = ''w'',
      ao_thread_id = ''t'', ao_proposal_version = 1, ao_idempotency_key = ''k'', ao_review_revision = 1,
      ao_session_revision = 1, ao_patch_sha256 = sha256_hex ''x'', ao_patch_bytes = 1, ao_artifact = no_artifact,
      ao_destination = \<lparr>dc_target_kind = TargetLocal, dc_worktree_id = ''w'', dc_expected_head = [],
        dc_expected_fingerprint = sha256_hex []\<rparr>,
      ao_baseline = pv_baseline sample_patch, ao_result = pv_result sample_patch, ao_preconditions = [],
      ao_evidence = sample_destination_evidence, ao_policy_version = 1, ao_phase = ApplyPrepared,
      ao_failure = FailureNone, ao_verification = no_verification, ao_created_at = 1, ao_prepared_at = 1,
      ao_completed_at = None\<rparr>"

definition sample_repository :: repository where
  "sample_repository =
     \<lparr>rp_id = ''r'', rp_common_git_dir = ''/g'', rp_binding = \<lparr>rb_version = 1, rb_object_format = ''sha1'',
        rb_common_git_dir = ''/g'', rb_common_git_dir_identity = ''n''\<rparr>, rp_display_name = ''d'',
      rp_remotes = [], rp_default_branch = [], rp_created_at = 1, rp_updated_at = 1\<rparr>"

definition sample_worktree :: worktree_ref where
  "sample_worktree =
     \<lparr>wt_id = ''w'', wt_repository_id = ''r'', wt_root_path = ''/w'', wt_git_dir = ''/g'',
      wt_binding = \<lparr>wb_version = 1, wb_object_format = ''sha1'', wb_root_path = ''/w'', wb_git_dir = ''/g'',
        wb_root_identity = ''n'', wb_git_dir_identity = ''n''\<rparr>, wt_current_object_id = [], wt_branch_name = [],
      wt_detached = False, wt_launch_focus = [], wt_upstream = None\<rparr>"

definition sample_aggregate :: proposal_aggregate where
  "sample_aggregate =
     \<lparr>ag_workspace = \<lparr>pw_id = ''w'', pw_repository_id = ''r'', pw_worktree_id = ''w'', pw_session_id = ''s'',
        pw_source_thread_id = ''t'', pw_source_generation = sample_provenance,
        pw_roots = \<lparr>wr_baseline = [], wr_admin = [], wr_result = [], wr_destination = []\<rparr>,
        pw_policy_version = 1, pw_state = WorkspaceCreating, pw_created_at = 1, pw_updated_at = 1\<rparr>,
      ag_intent = \<lparr>pi_id = ''p'', pi_thread_id = ''t'', pi_summary = ''x'', pi_expected_paths = [],
        pi_anchor_version_id = 1, pi_confirmed_against = sample_provenance, pi_confirmed_at = 1\<rparr>,
      ag_proposal = \<lparr>pr_id = ''p'', pr_workspace_id = ''w'', pr_thread_id = ''t'', pr_status = ProposalVersionReady,
        pr_current_version = Some 1, pr_applying_operation_id = None, pr_created_at = 1, pr_updated_at = 1\<rparr>,
      ag_attempts = [], ag_versions = [sample_patch]\<rparr>"

definition sample_guard :: session_write_guard where
  "sample_guard = \<lparr>sg_session_id = ''s'', sg_lease_id = ''l'', sg_writer_epoch = 2, sg_expected_revision = 4\<rparr>"

definition sample_execution :: execution_request where
  "sample_execution =
     \<lparr>xr_guard = sample_guard, xr_operation_id = ''o'', xr_proposal_id = ''p'', xr_proposal_version = 1,
      xr_patch_sha256 = sha256_hex ''x'', xr_repository = sample_repository, xr_worktree = sample_worktree,
      xr_lease = True, xr_authorize_retry = False\<rparr>"

definition working_env :: execute_env where
  "working_env =
     (let tx = \<lparr>te_begin = None, te_commit = None\<rparr> in
      \<lparr>xe_lock = None, xe_proposal = Inr sample_aggregate, xe_artifacts = None, xe_start = tx, xe_mutated = tx,
       xe_outcome = tx, xe_mutate = (\<lambda>_. None), xe_verify = (\<lambda>_. (sample_verification, None)), xe_clock = 2\<rparr>)"

definition prepared_journal :: journal_store where
  "prepared_journal = \<lparr>js_review = sample_store, js_rows = [(''o'', row_of_operation sample_operation)]\<rparr>"

lemma sample_evidence_valid:
  "destination_evidence_valid (ej_destination sample_json) sample_destination_evidence"
  "verification_evidence_valid (ej_verification sample_json) sample_verification"
  by (simp_all add: destination_evidence_valid_def verification_evidence_valid_def sample_destination_evidence_def
      sample_verification_def sample_json_def destination_evidence_hash_def verification_evidence_hash_def
      ApplyEvidenceVersion_def ApplyVerificationEvidenceVersion_def target_known_def no_index_def
      index_evidence_valid_def capability_valid_def sample_capability_def apply_preconditions_valid_def
      observation_state_valid_def time_defs)

lemma sample_key: "safe_text ''k''"
  by (rule plain_safe_text) simp_all

lemma sample_operation_valid: "apply_operation_valid sample_json sample_operation"
proof -
  have hashes: "utf8_valid (sha256_hex [])" "sha256_hex [] \<noteq> []"
    using sha256_hex_length [of "[]"] by (auto simp: sha256_hex_utf8)
  have "snapshot_identity_valid (pv_baseline sample_patch)" "snapshot_identity_valid (pv_result sample_patch)"
    using sample_patch_valid by (simp_all add: proposed_patch_valid_def)
  then show ?thesis
    using sample_key hashes sample_evidence_valid
    by (simp add: apply_operation_valid_def sample_operation_def ApplyOperationVersion_def destination_valid_def
        apply_phase_valid_def apply_failure_valid_def operation_outcome_valid_def terminal_phase_def time_defs
        no_verification_def apply_preconditions_valid_def)
      (simp add: sample_destination_evidence_def sample_capability_def capability_valid_def sample_json_def
        destination_evidence_hash_def)
qed

lemma sample_refs_valid: "repository_valid sample_repository" "worktree_ref_valid sample_worktree"
proof -
  have "valid_text ''/g''" "valid_text ''/w''" "valid_text ''d''" "valid_text ''sha1''" by code_simp+
  then show "repository_valid sample_repository" "worktree_ref_valid sample_worktree"
    by (simp_all add: repository_valid_def sample_repository_def repository_binding_valid_def worktree_ref_valid_def
        sample_worktree_def worktree_binding_valid_def time_defs)
qed

lemma sample_aggregate_valid: "aggregate_valid sample_aggregate"
proof -
  have "utf8_valid ''x''" by code_simp
  moreover have "version_belongs sample_aggregate sample_patch"
    using sample_patch_valid by (simp add: version_belongs_def sample_aggregate_def sample_patch_def Let_def)
  ultimately show ?thesis
    by (simp add: aggregate_valid_iff sample_aggregate_def workspace_valid_def intent_valid_def proposal_valid_def
        sample_provenance_valid workspace_state_valid_def workspace_roots_valid_def time_defs
        MaxProposalSummaryBytes_def MaxProposalExpectedPaths_def proposal_status_valid_def ready_versions_def
        sample_patch_def Let_def)
qed

subsection \<open>Every call comes to an end\<close>

definition system_works ::
    "evidence_json \<Rightarrow> execute_env \<Rightarrow> execution_request \<Rightarrow> journal_store \<Rightarrow> apply_operation \<Rightarrow> bool" where
  "system_works json env r s o' \<longleftrightarrow>
     execution_request_valid r \<and> (xr_lease r \<or> xe_lock env = None) \<and> fence_open s (xr_guard r)
     \<and> tx_works (xe_start env) \<and> tx_works (xe_mutated env) \<and> tx_works (xe_outcome env)
     \<and> clock_works env o' \<and> observer_works json env
     \<and> execution_identity_ok json o' r \<and> operation_row json s o'
     \<and> is_ok (load_apply_proposal env o') \<and> (\<forall>p. is_ok (patch_stream (xe_artifacts env) p) \<or> load_apply_proposal env o' \<noteq> Inr p)"

lemma apply_settles_run:
  assumes "system_works json env r s o'"
  shows "\<exists>s' log' x. execute_apply json env r (s, log) = ((s', log'), Inr x)
    \<and> load_operation json (ao_id o') s' = Inr (xs_operation x)
    \<and> (terminal_phase (ao_phase (xs_operation x))
       \<or> ao_phase (xs_operation x) = ApplyRetrySafe
         \<and> (ao_phase o' = ApplyMutating \<or> ao_phase o' = ApplyVerifying
            \<or> ao_phase o' = ApplyRetrySafe \<and> \<not> xr_authorize_retry r))
    \<and> (ao_phase o' = ApplyMutating \<or> ao_phase o' = ApplyVerifying \<longrightarrow> log' = log)
    \<and> (ao_phase o' = ApplyPrepared \<or> ao_phase o' = ApplyRetrySafe \<and> xr_authorize_retry r \<longrightarrow>
         terminal_phase (ao_phase (xs_operation x)) \<and> (\<exists>t m. log' = log @ [(t, start_mutation o', m)]))"
proof -
  have works: "execution_request_valid r" "xr_lease r \<or> xe_lock env = None" "fence_open s (xr_guard r)"
      "tx_works (xe_start env)" "tx_works (xe_mutated env)" "tx_works (xe_outcome env)" "clock_works env o'"
      "observer_works json env" "execution_identity_ok json o' r" "operation_row json s o'"
    using assms by (simp_all add: system_works_def)
  obtain p where p: "load_apply_proposal env o' = Inr p"
    using assms by (auto simp: system_works_def is_ok_def split: sum.splits)
  then have "is_ok (patch_stream (xe_artifacts env) p)" using assms by (auto simp: system_works_def)
  then obtain stream version rest where stream: "patch_stream (xe_artifacts env) p = Inr (stream, version, rest)"
    by (cases "patch_stream (xe_artifacts env) p") auto
  have identity: "ao_id o' = xr_operation_id r" "ao_session_id o' = sg_session_id (xr_guard r)" "apply_operation_valid json o'"
    using works(9) by (simp_all add: execution_identity_ok_def)
  have loaded: "load_operation json (xr_operation_id r) s = Inr o'"
    using loaded_row [OF works(10)] works(3) identity(1) by (simp add: fence_open_def)
  consider (ended) "terminal_phase (ao_phase o')"
    | (recover) "ao_phase o' = ApplyMutating \<or> ao_phase o' = ApplyVerifying"
    | (wait) "ao_phase o' = ApplyRetrySafe" "\<not> xr_authorize_retry r"
    | (start) "ao_phase o' = ApplyPrepared \<or> ao_phase o' = ApplyRetrySafe \<and> xr_authorize_retry r"
    using identity(3) by (cases "ao_phase o'") (auto simp: terminal_phase_def apply_operation_valid_def apply_phase_valid_def)
  then show ?thesis
  proof cases
    case ended
    then have "ao_phase o' \<noteq> ApplyMutating" "ao_phase o' \<noteq> ApplyVerifying" "ao_phase o' \<noteq> ApplyPrepared"
        "ao_phase o' \<noteq> ApplyRetrySafe" by (auto simp: terminal_phase_def)
    then show ?thesis using works(1,2,9) loaded ended identity(1) by (auto simp: execute_apply_def)
  next
    case recover
    then have quiet: "\<not> terminal_phase (ao_phase o')" by (auto simp: terminal_phase_def)
    obtain s' x where "recover_nonterminal json env r o' p s = (s', Inr x)"
        "terminal_phase (ao_phase (xs_operation x)) \<or> ao_phase (xs_operation x) = ApplyRetrySafe"
        "load_operation json (ao_id o') s' = Inr (xs_operation x)"
      using recover_works [OF works(3,6,10) identity(2) recover works(7,8)] by blast
    then show ?thesis using works(1,2,9) loaded p recover quiet by (auto simp: execute_apply_def)
  next
    case wait
    then show ?thesis
      using works(1,2,9) loaded p identity(1) by (auto simp: execute_apply_def terminal_phase_def)
  next
    case start
    then have phase: "\<not> terminal_phase (ao_phase o')" "\<not> (ao_phase o' = ApplyMutating \<or> ao_phase o' = ApplyVerifying)"
        "\<not> (ao_phase o' = ApplyRetrySafe \<and> \<not> xr_authorize_retry r)"
      by (auto simp: terminal_phase_def)
    let ?o = "start_mutation o'" and ?g = "next_guard (xr_guard r)"
    have valid: "apply_operation_valid json ?o"
      using identity(3)
      by (simp add: start_mutation_def apply_operation_valid_def apply_phase_valid_def apply_failure_valid_def
          operation_outcome_valid_def terminal_phase_def no_verification_def)
    have "valid_apply_transition (ao_phase o') (ao_phase ?o)"
      using start by (auto simp: valid_apply_transition_def start_mutation_def)
    then obtain t where t: "journal_transition json (xe_start env) (xr_guard r) ?o s = (t, Inr ?g)"
        "fence_open t ?g" "operation_row json t ?o"
      using journal_transition_works [OF works(3,4,10) _ _ valid identity(2)] by auto
    have fields: "ao_session_id ?o = sg_session_id ?g" "ao_phase ?o = ApplyMutating" "clock_works env ?o" "ao_id ?o = ao_id o'"
        "ao_patch_sha256 ?o = ao_patch_sha256 o'" "ao_patch_bytes ?o = ao_patch_bytes o'"
      using identity(2) works(7) by (simp_all add: start_mutation_def next_guard_def clock_works_def)
    let ?m = "\<lparr>mr_repository = xr_repository r, mr_worktree = xr_worktree r, mr_patch_sha256 = ao_patch_sha256 o',
          mr_patch_bytes = ao_patch_bytes o', mr_policy_version = version, mr_stream = stream\<rparr>"
    have "\<exists>s' x. mutate_and_settle json env (r\<lparr>xr_guard := ?g\<rparr>) ?o p ?m t = (s', Inr x)
        \<and> terminal_phase (ao_phase (xs_operation x)) \<and> load_operation json (ao_id ?o) s' = Inr (xs_operation x)"
      by (rule settle_works) (use t works fields in simp_all)
    then obtain s' x where ended: "mutate_and_settle json env (r\<lparr>xr_guard := ?g\<rparr>) ?o p ?m t = (s', Inr x)"
        "terminal_phase (ao_phase (xs_operation x))" "load_operation json (ao_id o') s' = Inr (xs_operation x)"
      using fields(4) by auto
    have "execute_apply json env r (s, log) = ((s', log @ [(t, ?o, ?m)]), Inr x)"
      using works(1,2,9) loaded p phase stream t(1) ended(1) fields(5,6)
      by (simp add: execute_apply_def Let_def)
    then show ?thesis using ended(2,3) phase(2) by blast
  qed
qed

text \<open>
  C12. A call on a working system always ends with a durable outcome. If the operation is in the journal under
  an open fence, and the transactions, the clock, the observer and the proposal answer, the call leaves the operation
  in the journal in a terminal phase, whatever the mutator answers; or in the phase from which a
  retry is safe. That happens in two cases only: the call found the operation interrupted, and then it only observes,
  whether it authorises a retry or not; or the operation was in that phase already and the call does not authorise a
  retry. A call that finds an operation interrupted never mutates, and one that finds it prepared, or safe to
  retry and authorises that, mutates exactly once and ends it.
\<close>

theorem apply_settles:
  assumes "system_works json env r s o'"
  shows "\<exists>s' log' x. execute_apply json env r (s, log) = ((s', log'), Inr x)
    \<and> load_operation json (ao_id o') s' = Inr (xs_operation x)
    \<and> (terminal_phase (ao_phase (xs_operation x))
       \<or> ao_phase (xs_operation x) = ApplyRetrySafe
         \<and> (ao_phase o' = ApplyMutating \<or> ao_phase o' = ApplyVerifying
            \<or> ao_phase o' = ApplyRetrySafe \<and> \<not> xr_authorize_retry r))
    \<and> (ao_phase o' = ApplyMutating \<or> ao_phase o' = ApplyVerifying \<longrightarrow> log' = log)
    \<and> (ao_phase o' = ApplyPrepared \<or> ao_phase o' = ApplyRetrySafe \<and> xr_authorize_retry r \<longrightarrow>
         terminal_phase (ao_phase (xs_operation x)) \<and> (\<exists>t m. log' = log @ [(t, start_mutation o', m)]))"
  using assms by (rule apply_settles_run)

lemma sample_system: "system_works sample_json working_env sample_execution prepared_journal sample_operation"
proof -
  have request: "execution_request_valid sample_execution"
    using sample_refs_valid
    by (simp add: execution_request_valid_def sample_execution_def sample_guard_def guard_valid_def
        sample_repository_def sample_worktree_def)
  have fence: "fence_open prepared_journal sample_guard"
    by (simp add: fence_open_def prepared_journal_def sample_store_def sample_guard_def guard_valid_def
        verify_guard_def select_row_def empty_tables_def)
  have row: "operation_row sample_json prepared_journal sample_operation"
    using sample_operation_valid by (simp add: operation_row_def prepared_journal_def) (simp add: sample_operation_def)
  have identity: "execution_identity_ok sample_json sample_operation sample_execution"
    using sample_operation_valid
    by (simp add: execution_identity_ok_def)
      (simp add: sample_operation_def sample_execution_def sample_guard_def sample_repository_def
        sample_worktree_def sample_destination_evidence_def)
  have patch: "pv_version sample_patch = 1" "pv_status sample_patch = ProposalVersionReady"
      "pv_patch_sha256 sample_patch = sha256_hex ''x''" "pv_workspace_id sample_patch = ''w''"
      "pv_thread_id sample_patch = ''t''" "pv_artifact sample_patch = no_artifact" "pv_patch_bytes sample_patch = ''x''"
    by (simp_all add: sample_patch_def Let_def)
  have proposal: "load_apply_proposal working_env sample_operation = Inr sample_patch"
    using sample_aggregate_valid sample_patch_valid patch
    by (simp add: load_apply_proposal_def working_env_def Let_def)
      (simp add: sample_aggregate_def sample_operation_def sample_destination_evidence_def proposal_version_of_def
        version_can_apply_def)
  have stream: "patch_stream (xe_artifacts working_env) sample_patch = Inr (InlineStream ''x'', 1, [])"
    using patch by (simp add: patch_stream_def patch_size_def)
  have selected: "xr_guard sample_execution = sample_guard" "xr_lease sample_execution"
    by (simp_all add: sample_execution_def)
  have works: "tx_works (xe_start working_env)" "tx_works (xe_mutated working_env)" "tx_works (xe_outcome working_env)"
      "clock_works working_env sample_operation" "observer_works sample_json working_env"
    using sample_evidence_valid(2)
    by (simp_all add: working_env_def Let_def tx_works_def clock_works_def observer_works_def sample_operation_def time_defs)
  show ?thesis
    using request fence row identity proposal stream works selected by (auto simp: system_works_def)
qed

lemma apply_settles_witness:
  "\<exists>s' log' x. execute_apply sample_json working_env sample_execution (prepared_journal, []) = ((s', log'), Inr x)
     \<and> terminal_phase (ao_phase (xs_operation x))"
proof -
  have "ao_phase sample_operation = ApplyPrepared" by (simp add: sample_operation_def)
  then show ?thesis using apply_settles [OF sample_system, of "[]"] by auto
qed

subsection \<open>Mutations\<close>

text \<open>
  C10. The destination is only ever mutated from a clean slate, and never twice by accident. In any
  history of the journal, with calls interrupted anywhere, a call that mutates the destination does so
  exactly once, with the patch of the operation, and at that moment the journal durably holds the
  operation as mutating. Before, the operation was prepared and had never been mutated; or its last
  observation was that of an untouched baseline, and the caller authorised a retry.
\<close>

theorem mutation_guarded:
  assumes "(apply_step json)\<^sup>*\<^sup>* (s0, []) (s, log)" "js_rows s0 = []"
    "execute_apply json env r (s, log) = ((s', log'), res)" "log' \<noteq> log"
  shows "\<exists>o' t m. log' = log @ [(t, start_mutation o', m)] \<and> load_operation json (xr_operation_id r) s = Inr o'
    \<and> load_operation json (ao_id o') t = Inr (start_mutation o')
    \<and> mr_patch_sha256 m = ao_patch_sha256 o' \<and> (\<forall>b. mr_stream m = InlineStream b \<longrightarrow> sha256_hex b = ao_patch_sha256 o')
    \<and> (ao_phase o' = ApplyPrepared \<and> (\<forall>(t', q, m') \<in> set log. ao_id q \<noteq> ao_id o')
       \<or> ao_phase o' = ApplyRetrySafe \<and> xr_authorize_retry r \<and> baseline_observed json o' (ao_verification o'))"
proof -
  have kept: "rows_sound json (js_rows s)" "log_sound (js_rows s) log"
    using apply_steps_keep [OF assms(1)] assms(2) by (auto simp: log_sound_def)
  from assms(3) show ?thesis
  proof (cases rule: execute_apply_cases)
    case (mutates o' t g p stream version rest)
    have phase: "ao_phase o' = ApplyPrepared \<or> ao_phase o' = ApplyRetrySafe" using mutates(3) by auto
    obtain q where q: "map_of (js_rows s) (ao_id o') = Some q" "jr_operation q = o'"
      using mutates(1) by (auto simp: load_operation_Inr)
    have fresh: "\<forall>(t', q', m') \<in> set log. ao_id q' \<noteq> ao_id o'" if "ao_phase o' = ApplyPrepared"
      using kept(2) q that by (auto simp: log_sound_def)
    have clean: "baseline_observed json o' (ao_verification o')" if "ao_phase o' = ApplyRetrySafe"
      using kept(1) q that by (auto simp: rows_sound_def outcome_sound_def)
    have digest: "sha256_hex b = ao_patch_sha256 o'" if "stream = InlineStream b" for b
      using mutates(5) load_apply_proposal_Inr [OF mutates(4)] that
      by (auto simp: patch_stream_def proposal_of_operation_def split: if_splits option.splits)
    have "load_operation json (ao_id o') t = Inr (start_mutation o')"
      using start_moves(3) [OF mutates(6,1) phase] .
    then show ?thesis using mutates(1,2,3,7) fresh clean digest by auto
  qed (use assms(4) in simp)
qed

lemma sample_history: "(apply_step sample_json)\<^sup>*\<^sup>* (\<lparr>js_review = sample_store, js_rows = []\<rparr>, []) (prepared_journal, [])"
proof -
  let ?s = "\<lparr>js_review = sample_store, js_rows = []\<rparr>" and ?tx = "\<lparr>te_begin = None, te_commit = None\<rparr>"
  have phase: "ao_phase sample_operation = ApplyPrepared" "ao_session_id sample_operation = ''s''" "ao_id sample_operation = ''o''"
    by (simp_all add: sample_operation_def)
  have "prepare_operation sample_json ''s'' (\<lambda>_ _ _. None) sample_operation [] = Inr [(''o'', row_of_operation sample_operation)]"
    using sample_operation_valid phase
    by (simp add: prepare_operation_def compare_found_def insert_operation_def find_row_def)
  moreover have "verify_guard (rv_tables sample_store) sample_guard = Inr ()" "guard_valid sample_guard"
      "\<not> rv_closed sample_store" "sg_session_id sample_guard = ''s''"
    by (simp_all add: sample_store_def sample_guard_def guard_valid_def verify_guard_def select_row_def empty_tables_def)
  ultimately obtain s1 where s1: "journal_tx ?tx sample_guard
      (prepare_operation sample_json (sg_session_id sample_guard) (\<lambda>_ _ _. None) sample_operation) ?s
        = (s1, Inr (next_guard sample_guard))" "js_rows s1 = js_rows prepared_journal"
    using verify_guard_matches by (auto simp: journal_tx_Inr prepared_journal_def)
  have "apply_step sample_json (?s, []) (s1, [])" using s1(1) by (rule step_prepare)
  moreover have "apply_step sample_json (s1, []) (prepared_journal, [])" using s1(2) by (intro step_other) simp
  ultimately show ?thesis by (meson converse_rtranclp_into_rtranclp r_into_rtranclp)
qed

lemma mutation_guarded_witness:
  "\<exists>s' log' res. execute_apply sample_json working_env sample_execution (prepared_journal, []) = ((s', log'), res)
     \<and> (\<exists>o' t m. log' = [(t, start_mutation o', m)] \<and> mr_patch_sha256 m = ao_patch_sha256 o')"
proof -
  have "ao_phase sample_operation = ApplyPrepared" by (simp add: sample_operation_def)
  then obtain s' log' x where run: "execute_apply sample_json working_env sample_execution (prepared_journal, [])
      = ((s', log'), Inr x)" "log' \<noteq> []"
    using apply_settles_run [OF sample_system, of "[]"] by auto
  from mutation_guarded [OF sample_history _ run(1) run(2)] run(1) show ?thesis by auto
qed

text \<open>
  C11. An outcome in the journal means what it says, and an ended operation stays as it is. In any history,
  an operation is recorded as applied only with an observation that shows exactly the paths its proposal
  expects, each as expected, while the index, the head and the branch are those from before; it is
  recorded as safe to retry only with an observation of the untouched baseline. Whatever happens later,
  the operation keeps its identity, its phases follow the table of transitions, and once it has ended
  nothing of it changes.
\<close>

theorem journal_outcomes_sound:
  assumes "(apply_step json)\<^sup>*\<^sup>* (s0, []) (s, log)" "js_rows s0 = []" "load_operation json i s = Inr o'"
    "(apply_step json)\<^sup>*\<^sup>* (s, log) (s', log')"
  shows "(ao_phase o' = ApplyApplied \<longrightarrow>
       (\<exists>p. proposal_of_operation o' p \<and> result_observed json o' p (ao_verification o')))
    \<and> (ao_phase o' = ApplyRetrySafe \<longrightarrow> baseline_observed json o' (ao_verification o'))
    \<and> (\<exists>r. map_of (js_rows s') i = Some r \<and> same_lineage o' (jr_operation r)
         \<and> valid_apply_transition\<^sup>*\<^sup>* (ao_phase o') (ao_phase (jr_operation r))
         \<and> (terminal_phase (ao_phase o') \<longrightarrow> jr_operation r = o'))"
proof -
  have kept: "rows_sound json (js_rows s)" "log_sound (js_rows s) log"
    using apply_steps_keep [OF assms(1)] assms(2) by (auto simp: log_sound_def)
  obtain q where q: "map_of (js_rows s) i = Some q" "jr_operation q = o'"
    using assms(3) by (auto simp: load_operation_Inr)
  have "rows_advance (js_rows s) (js_rows s')" using apply_steps_keep [OF assms(4) kept] by blast
  then obtain r where r: "map_of (js_rows s') i = Some r" "row_next\<^sup>*\<^sup>* q r"
    using q(1) by (auto simp: rows_advance_def)
  have "valid_apply_transition\<^sup>*\<^sup>* (ao_phase (jr_operation q)) (ao_phase (jr_operation r))"
    using r(2) by (induction rule: rtranclp_induct) (auto simp: row_next_def intro: rtranclp.rtrancl_into_rtrancl)
  then show ?thesis
    using kept(1) q r row_next_lineage [OF r(2)] row_next_terminal [OF r(2)]
    by (auto simp: rows_sound_def outcome_sound_def)
qed

lemma journal_outcomes_sound_witness:
  "\<exists>r. map_of (js_rows prepared_journal) ''o'' = Some r \<and> same_lineage sample_operation (jr_operation r)"
proof -
  have "load_operation sample_json ''o'' prepared_journal = Inr sample_operation"
    using sample_operation_valid by (simp add: load_operation_Inr prepared_journal_def sample_store_def row_of_operation_def)
  from journal_outcomes_sound [OF sample_history _ this rtranclp.rtrancl_refl] show ?thesis by auto
qed

subsection \<open>A surprise\<close>

text \<open>
  The check before the operation is prepared runs under the apply policy of the patch; the mutation is
  given the version of the conversion policy in its place, which the mutator refuses when it differs.
\<close>

lemma mutation_policy_version:
  assumes "execute_apply json env r (s, log) = ((s', log @ [(t, o', m)]), res)" "mr_stream m = ArtifactStream a"
  shows "mr_policy_version m = ak_conversion_version a"
  using assms(1)
proof (cases rule: execute_apply_cases)
  case (mutates q t' g p stream version rest)
  then show ?thesis using assms(2)
    by (auto simp: patch_stream_def bind_result_def split: if_splits option.splits sum.splits)
qed simp

end
