(* ===== verification/Apply_Handoff.thy ===== *)
theory Apply_Handoff
  imports Apply_Preflight Apply_Claims
begin

text \<open>
  What a preparation promises, and that the execution accepts what the preparation hands over.
\<close>

definition checked_destination ::
    "evidence_json \<Rightarrow> preflight_env \<Rightarrow> preflight_request \<Rightarrow> apply_operation \<Rightarrow> proposed_patch \<Rightarrow> bool" where
  "checked_destination json env r o' p \<longleftrightarrow>
     proposal_of_operation o' p \<and> ao_preconditions o' = pv_preconditions p \<and> ao_destination o' = pv_destination p
     \<and> same_preconditions (de_paths (ao_evidence o')) (ao_preconditions o')
     \<and> (\<forall>x \<in> set (ie_entries (de_index (ao_evidence o'))). ix_stage x = 0 \<and> ix_flags x = [])
     \<and> \<not> de_attributes_changed (ao_evidence o')
     \<and> (\<exists>q before' m. fe_before env q = Inr before' \<and> fe_after env q = Inr (ao_evidence o')
          \<and> fe_check env m = None \<and> mr_patch_sha256 m = ao_patch_sha256 o'
          \<and> de_evidence_hash before' = de_evidence_hash (ao_evidence o'))"

lemma observe_twice_Inr:
  assumes "observe_twice json env r p = Inr e"
  shows "same_preconditions (de_paths e) (pv_preconditions p)"
    "\<forall>x \<in> set (ie_entries (de_index e)). ix_stage x = 0 \<and> ix_flags x = []" "\<not> de_attributes_changed e"
    "de_worktree_id e = wt_id (fr_worktree r)"
    "\<exists>q before' m. fe_before env q = Inr before' \<and> fe_after env q = Inr e
        \<and> fe_check env m = None \<and> mr_patch_sha256 m = pv_patch_sha256 p \<and> de_evidence_hash before' = de_evidence_hash e"
proof -
  obtain stream version fingerprint where stream: "patch_stream (fe_artifacts env) p = Inr (stream, version, fingerprint)"
    using assms by (auto simp: observe_twice_def)
  let ?q = "\<lparr>iq_repository = fr_repository r, iq_worktree = fr_worktree r, iq_destination = pv_destination p,
        iq_preconditions = pv_preconditions p, iq_conversion_version = version, iq_conversion_fingerprint = fingerprint\<rparr>"
  let ?m = "\<lparr>mr_repository = fr_repository r, mr_worktree = fr_worktree r, mr_patch_sha256 = pv_patch_sha256 p,
        mr_patch_bytes = patch_size p, mr_policy_version = apply_policy_version p, mr_stream = stream\<rparr>"
  have parts: "\<exists>b. fe_before env ?q = Inr b \<and> de_evidence_hash b = de_evidence_hash e" "fe_check env ?m = None"
      "fe_after env ?q = Inr e" "inspection_check json e p (fr_worktree r) ?q = Inr ()"
    using assms stream by (auto simp: observe_twice_def Let_def split: option.splits if_splits)
  from parts(4) show "same_preconditions (de_paths e) (pv_preconditions p)"
      "\<forall>x \<in> set (ie_entries (de_index e)). ix_stage x = 0 \<and> ix_flags x = []" "\<not> de_attributes_changed e"
      "de_worktree_id e = wt_id (fr_worktree r)"
    by (auto simp: inspection_check_def list_all_iff split: if_splits)
  have "mr_patch_sha256 ?m = pv_patch_sha256 p" by simp
  with parts(1-3) show "\<exists>q before' m. fe_before env q = Inr before' \<and> fe_after env q = Inr e
      \<and> fe_check env m = None \<and> mr_patch_sha256 m = pv_patch_sha256 p \<and> de_evidence_hash before' = de_evidence_hash e"
    by blast
qed

lemma preflight_proposal_Inr:
  assumes "preflight_proposal env r = Inr p"
  shows "proposed_patch_valid p" "pv_version p = fr_proposal_version r"
    "\<exists>a. fe_proposal env = Inr a \<and> aggregate_valid a \<and> pr_id (ag_proposal a) = fr_proposal_id r
       \<and> proposal_version_of a (fr_proposal_version r) = Some p \<and> pw_repository_id (ag_workspace a) = rp_id (fr_repository r)"
proof -
  obtain a where a: "fe_proposal env = Inr a"
    using assms by (cases "fe_proposal env") (simp_all add: preflight_proposal_def)
  then have checks: "aggregate_valid a" "pr_id (ag_proposal a) = fr_proposal_id r"
      "pw_repository_id (ag_workspace a) = rp_id (fr_repository r)"
    using assms unfolding preflight_proposal_def by (simp_all split: if_split_asm)
  have rest: "proposal_version_of a (fr_proposal_version r) = Some p" "pv_version p = fr_proposal_version r"
      "patch_identity_check p = Inr ()"
    using assms a checks unfolding preflight_proposal_def by (auto split: if_split_asm option.split_asm)
  then show "proposed_patch_valid p" "pv_version p = fr_proposal_version r"
      "\<exists>a. fe_proposal env = Inr a \<and> aggregate_valid a \<and> pr_id (ag_proposal a) = fr_proposal_id r
       \<and> proposal_version_of a (fr_proposal_version r) = Some p \<and> pw_repository_id (ag_workspace a) = rp_id (fr_repository r)"
    using a checks by (simp_all add: patch_identity_check_def split: if_split_asm)
qed

lemma aggregate_version:
  assumes "aggregate_valid a" "proposal_version_of a v = Some p"
  shows "pv_proposal_id p = pr_id (ag_proposal a)"
proof -
  have "p \<in> set (ag_versions a)" using assms(2) by (auto simp: proposal_version_of_def find_Some_iff)
  then show ?thesis using assms(1) by (auto simp: aggregate_valid_iff list_all_iff version_belongs_def)
qed

lemma prepare_fresh_Inr:
  assumes "prepare_fresh json env r s = (s', Inr x)"
  obtains p e rows where "preflight_proposal env r = Inr p" "observe_twice json env r p = Inr e"
    "pn_operation x = prepared_operation r p e (fe_clock env)" "apply_operation_valid json (pn_operation x)"
    "journal_tx (fe_tx env) (fr_guard r)
       (prepare_operation json (sg_session_id (fr_guard r)) (fe_owner env) (pn_operation x)) s = (s', Inr (pn_guard x))"
  using assms
  by (auto simp: prepare_fresh_def Let_def split: sum.splits if_splits prod.splits)

text \<open>The rows after a preparation hold the operation.\<close>

lemma prepared_row:
  assumes "prepare_operation json sid owner o' rows = Inr rows'" "journal_wf json rows"
    "find_row (by_key (ao_session_id o') (ao_idempotency_key o')) rows = None"
    "find_row (by_proposal (ao_proposal_id o') (ao_proposal_version o')) rows = None"
  shows "map_of rows' (ao_id o') = Some (row_of_operation o')"
proof (cases "map_of rows (ao_id o')")
  case None
  then have "find_row (by_id (ao_id o')) rows = None" by simp
  then have "rows' = rows @ [(ao_id o', row_of_operation o')]"
    using assms by (auto simp: prepare_operation_def compare_found_def insert_operation_def split: if_splits option.splits)
  then show ?thesis using None by (simp add: map_add_def)
next
  case (Some r)
  then have "jr_operation r = o' \<and> rows' = rows"
    using assms(1) by (auto simp: prepare_operation_def compare_found_def split: if_splits option.splits)
  moreover have "r = row_of_operation (jr_operation r)"
    using Some map_of_SomeD assms(2) by (fastforce simp: journal_wf_def row_wf_def)
  ultimately show ?thesis using Some by simp
qed

text \<open>The request by which the caller hands a preparation to the execution.\<close>

definition handoff :: "preflight_request \<Rightarrow> preparation \<Rightarrow> execution_request" where
  "handoff r x =
     \<lparr>xr_guard = pn_guard x, xr_operation_id = ao_id (pn_operation x), xr_proposal_id = ao_proposal_id (pn_operation x),
      xr_proposal_version = ao_proposal_version (pn_operation x), xr_patch_sha256 = ao_patch_sha256 (pn_operation x),
      xr_repository = fr_repository r, xr_worktree = fr_worktree r, xr_lease = True, xr_authorize_retry = True\<rparr>"

text \<open>The rest of the system in which a handed over operation is executed.\<close>

definition execution_env_works :: "evidence_json \<Rightarrow> execute_env \<Rightarrow> apply_operation \<Rightarrow> bool" where
  "execution_env_works json env o' \<longleftrightarrow>
     tx_works (xe_start env) \<and> tx_works (xe_mutated env) \<and> tx_works (xe_outcome env)
     \<and> clock_works env o' \<and> observer_works json env
     \<and> (\<exists>p. load_apply_proposal env o' = Inr p \<and> is_ok (patch_stream (xe_artifacts env) p))"

lemma preparation_facts:
  assumes "prepare_apply json env r s = (s', Inr x)" "rows_sound json (js_rows s)"
  shows "operation_row json s' (pn_operation x) \<and> \<not> rv_closed (js_review s') \<and> ao_phase (pn_operation x) = ApplyPrepared
    \<and> rows_sound json (js_rows s') \<and> (s' = s \<or> fence_open s' (pn_guard x) \<and> (\<exists>p. checked_destination json env r (pn_operation x) p
         \<and> find_row (by_proposal (fr_proposal_id r) (fr_proposal_version r)) (js_rows s) = None))
    \<and> ao_proposal_id (pn_operation x) = fr_proposal_id r \<and> ao_proposal_version (pn_operation x) = fr_proposal_version r
    \<and> ao_session_id (pn_operation x) = sg_session_id (pn_guard x) \<and> guard_valid (pn_guard x)
    \<and> de_worktree_id (ao_evidence (pn_operation x)) = wt_id (fr_worktree r)"
proof -
  have request: "preflight_request_valid r" and lock: "fe_lock env = None"
    using assms(1) by (auto simp: prepare_apply_def split: if_splits option.splits)
  show ?thesis
  proof (cases "load_operation_by_key json (sg_session_id (fr_guard r)) (fr_idempotency_key r) s")
    case (Inr o')
    then have known: "known_operation json r o' = Inr x" "s' = s"
      using assms(1) request lock by (simp_all add: prepare_apply_def)
    obtain q where q: "find_row (by_key (sg_session_id (fr_guard r)) (fr_idempotency_key r)) (js_rows s) = Some q"
        "jr_operation q = o'" "\<not> rv_closed (js_review s)"
      using Inr by (auto simp: load_operation_by_key_def query_operation_def split: if_splits option.splits)
    obtain i where i: "(i, q) \<in> set (js_rows s)" "by_key (sg_session_id (fr_guard r)) (fr_idempotency_key r) (i, q)"
      using find_row_Some [OF q(1)] by blast
    have wf: "journal_wf json (js_rows s)" using assms(2) by (simp add: rows_sound_def)
    then have row: "map_of (js_rows s) i = Some q"
      using i(1) by (simp add: journal_wf_def)
    note facts = wf_row [OF wf row]
    have columns: "ao_session_id o' = sg_session_id (fr_guard r)"
    proof -
      have "q = row_of_operation o'" using wf i(1) q(2) by (auto simp: journal_wf_def row_wf_def)
      from arg_cong [OF this, of jr_session_id] show ?thesis using i(2) by (simp add: row_of_operation_def)
    qed
    have x: "pn_operation x = o'" "pn_guard x = fr_guard r" "ao_phase o' = ApplyPrepared" "ao_proposal_id o' = fr_proposal_id r"
        "ao_proposal_version o' = fr_proposal_version r" "de_worktree_id (ao_evidence o') = wt_id (fr_worktree r)"
      using known(1) by (auto simp: known_operation_def split: if_splits)
    have "ao_id o' \<noteq> []" using facts(1) q(2) by (simp add: apply_operation_valid_def)
    moreover have "q = row_of_operation o'" using wf i(1) q(2) by (auto simp: journal_wf_def row_wf_def)
    ultimately have "operation_row json s o'"
      using row facts q(2) by (simp add: operation_row_def)
    then show ?thesis
      using x known(2) columns q(3) request assms(2) by (simp add: preflight_request_valid_def)
  next
    case (Inl err)
    then have by_key: "err = ErrApplyOperationNotFound"
      using assms(1) request lock by (auto simp: prepare_apply_def split: if_splits)
    then have key: "find_row (by_key (sg_session_id (fr_guard r)) (fr_idempotency_key r)) (js_rows s) = None"
      using Inl by (auto simp: load_operation_by_key_def query_operation_def decode_operation_def
          split: if_splits option.splits)
    obtain err' where proposal: "load_operation_for_proposal json (fr_proposal_id r) (fr_proposal_version r) s = Inl err'"
        "err' = ErrApplyOperationNotFound" "prepare_fresh json env r s = (s', Inr x)"
      using assms(1) request lock Inl by_key by (auto simp: prepare_apply_def split: sum.splits if_splits)
    then have version: "find_row (by_proposal (fr_proposal_id r) (fr_proposal_version r)) (js_rows s) = None"
      by (auto simp: load_operation_for_proposal_def query_operation_def decode_operation_def split: if_splits option.splits)
    from proposal(3) show ?thesis
    proof (rule prepare_fresh_Inr)
      fix p e
      assume p: "preflight_proposal env r = Inr p" and e: "observe_twice json env r p = Inr e"
        and op: "pn_operation x = prepared_operation r p e (fe_clock env)" "apply_operation_valid json (pn_operation x)"
        and tx: "journal_tx (fe_tx env) (fr_guard r)
          (prepare_operation json (sg_session_id (fr_guard r)) (fe_owner env) (pn_operation x)) s = (s', Inr (pn_guard x))"
      note seen = observe_twice_Inr [OF e] and patch = preflight_proposal_Inr [OF p]
      have pid: "pv_proposal_id p = fr_proposal_id r" using patch(3) aggregate_version by metis
      have fields: "ao_session_id (pn_operation x) = sg_session_id (fr_guard r)"
          "ao_idempotency_key (pn_operation x) = fr_idempotency_key r" "ao_proposal_id (pn_operation x) = fr_proposal_id r"
          "ao_proposal_version (pn_operation x) = fr_proposal_version r" "ao_phase (pn_operation x) = ApplyPrepared"
          "ao_evidence (pn_operation x) = e" "ao_id (pn_operation x) \<noteq> []"
        using op patch(2) pid by (simp_all add: prepared_operation_def apply_operation_valid_def)
      have body: "prepare_operation json (sg_session_id (fr_guard r)) (fe_owner env) (pn_operation x) (js_rows s)
            = Inr (js_rows s')" and opened: "\<not> rv_closed (js_review s')" and guard: "pn_guard x = next_guard (fr_guard r)"
        and valid_guard: "guard_valid (fr_guard r)"
        and verified: "verify_guard (rv_tables (js_review s)) (fr_guard r) = Inr ()"
        and tables: "rv_tables (js_review s') = bump_revision (sg_session_id (fr_guard r)) (rv_tables (js_review s))"
        using tx by (auto simp: journal_tx_Inr)
      have row: "map_of (js_rows s') (ao_id (pn_operation x)) = Some (row_of_operation (pn_operation x))"
        by (rule prepared_row [OF body]) (use key version fields assms(2) in \<open>simp_all add: rows_sound_def\<close>)
      have "checked_destination json env r (pn_operation x) p"
        using seen patch(1) op by (simp add: checked_destination_def proposal_of_operation_def prepared_operation_def)
      moreover have "rows_sound json (js_rows s')" using prepare_rows(1) [OF body assms(2)] .
      moreover have "operation_row json s' (pn_operation x)"
        using row fields(7) op(2) by (simp add: operation_row_def)
      moreover have "guard_valid (pn_guard x)" "ao_session_id (pn_operation x) = sg_session_id (pn_guard x)"
        using valid_guard fields(1) guard by (simp_all add: guard_valid_def next_guard_def)
      moreover from this(1) have "fence_open s' (pn_guard x)"
        using opened guard fence_advances [OF verified] tables by (simp add: fence_open_def)
      ultimately show ?thesis using fields version opened seen(4) by blast
    qed
  qed
qed

lemma handed_over:
  assumes "prepare_apply json env r s = (s', Inr x)" "rows_sound json (js_rows s)"
  shows "execution_request_valid (handoff r x)"
    "execution_identity_ok json (pn_operation x) (handoff r x)
       \<longleftrightarrow> de_repository_id (ao_evidence (pn_operation x)) = rp_id (fr_repository r)"
proof -
  note facts = preparation_facts [OF assms]
  have valid: "apply_operation_valid json (pn_operation x)" using facts by (simp add: operation_row_def)
  have request: "preflight_request_valid r"
    using assms(1) by (auto simp: prepare_apply_def split: if_splits)
  show "execution_request_valid (handoff r x)"
    using facts request valid
    by (simp add: execution_request_valid_def handoff_def preflight_request_valid_def apply_operation_valid_def)
  show "execution_identity_ok json (pn_operation x) (handoff r x)
       \<longleftrightarrow> de_repository_id (ao_evidence (pn_operation x)) = rp_id (fr_repository r)"
    using facts valid by (simp add: execution_identity_ok_def handoff_def)
qed

text \<open>
  C13. A preparation means that the destination was checked. After it the journal durably holds the operation as
  prepared, for the requested proposal version. Either it was there before, or it is new: then it was
  observed before and after a passed check of its patch with the same evidence, its paths are exactly the
  preconditions of the proposal, no index entry is unmerged or flagged, no operation of that proposal
  version was in the journal before, and the guard that comes with it is current. The execution recognises
  the operation exactly if the evidence names the requested repository, which the preparation does not
  compare; otherwise it refuses the operation as stale. If it recognises it, the guard is still current
  and the rest of the system works, the execution mutates the destination once and ends the operation.
\<close>

theorem preparation_checked:
  assumes "prepare_apply json env r s = (s', Inr x)" "rows_sound json (js_rows s)"
  shows "load_operation json (ao_id (pn_operation x)) s' = Inr (pn_operation x) \<and> ao_phase (pn_operation x) = ApplyPrepared
    \<and> rows_sound json (js_rows s') \<and> (s' = s \<or> fence_open s' (pn_guard x) \<and> (\<exists>p. checked_destination json env r (pn_operation x) p
         \<and> find_row (by_proposal (fr_proposal_id r) (fr_proposal_version r)) (js_rows s) = None))
    \<and> ao_proposal_id (pn_operation x) = fr_proposal_id r \<and> ao_proposal_version (pn_operation x) = fr_proposal_version r
    \<and> (if de_repository_id (ao_evidence (pn_operation x)) = rp_id (fr_repository r)
       then fence_open s' (pn_guard x) \<and> execution_env_works json xenv (pn_operation x) \<longrightarrow>
         (\<exists>s'' t m y. execute_apply json xenv (handoff r x) (s', log)
              = ((s'', log @ [(t, start_mutation (pn_operation x), m)]), Inr y)
            \<and> load_operation json (ao_id (pn_operation x)) s'' = Inr (xs_operation y)
            \<and> terminal_phase (ao_phase (xs_operation y)))
       else execute_apply json xenv (handoff r x) (s', log) = ((s', log), Inl ErrApplyStale))"
proof -
  let ?o = "pn_operation x" and ?h = "handoff r x"
  note facts = preparation_facts [OF assms] and handed = handed_over [OF assms]
  have loaded: "load_operation json (ao_id ?o) s' = Inr ?o" using facts by (simp add: loaded_row)
  have stale: "execute_apply json xenv ?h (s', log) = ((s', log), Inl ErrApplyStale)"
    if "de_repository_id (ao_evidence ?o) \<noteq> rp_id (fr_repository r)"
    using that handed loaded by (simp add: execute_apply_def) (simp add: handoff_def)
  have "\<exists>s'' t m y. execute_apply json xenv ?h (s', log) = ((s'', log @ [(t, start_mutation ?o, m)]), Inr y)
      \<and> load_operation json (ao_id ?o) s'' = Inr (xs_operation y) \<and> terminal_phase (ao_phase (xs_operation y))"
    if "de_repository_id (ao_evidence ?o) = rp_id (fr_repository r)" "fence_open s' (pn_guard x)"
      "execution_env_works json xenv ?o"
  proof -
    have "system_works json xenv ?h s' ?o"
      using that handed facts by (auto simp: system_works_def execution_env_works_def handoff_def)
    from apply_settles_run [OF this, of log] show ?thesis using facts by auto
  qed
  with stale loaded facts show ?thesis by auto
qed

subsection \<open>A surprise\<close>

text \<open>
  The content that a copied source is expected to have is that of the result, but its mode is that of
  the baseline: when the patch also changes the mode of the source, and the copy sorts after it, the
  result that the patch produces is not recognised.
\<close>

lemma copied_source_mode:
  assumes "pf_copied c" "pf_old_path c = Some (pf_path f)" "pf_path c \<noteq> pf_path f"
    "pf_old_path f = None \<or> pf_old_path f = Some (pf_path f)" "result_paths_match actual [f, c]"
  shows "\<exists>e. map_of actual (path_key (pf_path f)) = Some e \<and> ae_mode e = pf_old_mode c"
proof -
  let ?k = "path_key (pf_path f)"
  have "map_of (expected_paths [f, c]) ?k = Some
      \<lparr>ex_exists = True, ex_kind = pf_old_kind c, ex_mode = pf_old_mode c, ex_content_bytes = pf_old_content_bytes c,
       ex_content_hash = pf_old_content_hash c, ex_content_class = pf_old_content_class c, ex_text = pf_old_text c,
       ex_symlink = None\<rparr>"
    using assms(1-4) by (auto simp: expected_paths_def file_expectations_def AList.update_conv' path_key_def)
  from map_of_SomeD [OF this] have "observed_as_expected (map_of actual ?k)
      \<lparr>ex_exists = True, ex_kind = pf_old_kind c, ex_mode = pf_old_mode c, ex_content_bytes = pf_old_content_bytes c,
       ex_content_hash = pf_old_content_hash c, ex_content_class = pf_old_content_class c, ex_text = pf_old_text c,
       ex_symlink = None\<rparr>"
    using assms(5) by (auto simp: result_paths_match_def list_all_iff)
  then show ?thesis by (auto simp: observed_as_expected_def Let_def split: option.splits if_splits)
qed

subsection \<open>An instance\<close>

definition fresh_precondition :: path_precondition where
  "fresh_precondition =
     \<lparr>pp_path = ''y'', pp_must_exist = False, pp_kind = FileKindUnknown, pp_mode = 0, pp_content_bytes = 0,
      pp_content_hash = [], pp_content_class = NoContentClass, pp_text_semantics = None, pp_symlink_target_hash = [],
      pp_symlink_evidence = None, pp_native_alias = None, pp_native_path = None\<rparr>"

definition fresh_patch :: proposed_patch where
  "fresh_patch = sample_patch\<lparr>pv_preconditions := [fresh_precondition],
     pv_destination := (pv_destination sample_patch)\<lparr>dc_expected_fingerprint := sha256_hex []\<rparr>\<rparr>"

definition fresh_evidence :: destination_evidence where
  "fresh_evidence = sample_destination_evidence\<lparr>de_paths := [fresh_precondition]\<rparr>"

definition fresh_env :: preflight_env where
  "fresh_env =
     \<lparr>fe_lock = None, fe_proposal = Inr (sample_aggregate\<lparr>ag_versions := [fresh_patch]\<rparr>), fe_artifacts = None,
      fe_before = (\<lambda>_. Inr fresh_evidence), fe_check = (\<lambda>_. None), fe_after = (\<lambda>_. Inr fresh_evidence), fe_clock = 1,
      fe_tx = \<lparr>te_begin = None, te_commit = None\<rparr>, fe_owner = (\<lambda>_ _ _. None)\<rparr>"

definition fresh_request :: preflight_request where
  "fresh_request =
     \<lparr>fr_guard = sample_guard, fr_operation_id = ''o'', fr_proposal_id = ''p'', fr_proposal_version = 1,
      fr_review_revision = 1, fr_idempotency_key = ''k'', fr_repository = sample_repository,
      fr_worktree = sample_worktree\<rparr>"

lemma fresh_patch_valid: "proposed_patch_valid fresh_patch"
proof -
  have "valid_repo_path ''y''" by code_simp
  then have "path_precondition_valid fresh_precondition" "pp_kind fresh_precondition \<noteq> FileKindGitlink"
    by (simp_all add: path_precondition_valid_def path_precondition_absent_def fresh_precondition_def)
  moreover have "destination_valid (pv_destination fresh_patch)"
    using sha256_hex_length [of "[]"]
    by (auto simp: destination_valid_def fresh_patch_def sample_patch_def Let_def sha256_hex_utf8)
  ultimately show ?thesis using sample_patch_valid
    by (simp add: proposed_patch_valid_def fresh_patch_def patch_content_ok_def)
qed

lemma fresh_aggregate_valid: "aggregate_valid (sample_aggregate\<lparr>ag_versions := [fresh_patch]\<rparr>)"
  using sample_aggregate_valid fresh_patch_valid
  by (simp add: aggregate_valid_iff version_belongs_def attempt_belongs_def ready_versions_def)
    (simp add: sample_aggregate_def fresh_patch_def sample_patch_def Let_def)

lemma fresh_proposal: "preflight_proposal fresh_env fresh_request = Inr fresh_patch"
proof -
  have fields: "pv_version fresh_patch = 1" "pv_status fresh_patch = ProposalVersionReady"
      "dc_worktree_id (pv_destination fresh_patch) = ''w''" "pv_artifact fresh_patch = no_artifact"
      "pv_patch_bytes fresh_patch = ''x''" "pv_preconditions fresh_patch = [fresh_precondition]"
    by (simp_all add: fresh_patch_def sample_patch_def Let_def)
  have request: "fr_proposal_id fresh_request = ''p''" "sg_session_id (fr_guard fresh_request) = ''s''"
      "rp_id (fr_repository fresh_request) = ''r''" "wt_id (fr_worktree fresh_request) = ''w''"
      "fr_proposal_version fresh_request = 1"
    by (simp_all add: fresh_request_def sample_guard_def sample_repository_def sample_worktree_def)
  have aggregate: "fe_proposal fresh_env = Inr (sample_aggregate\<lparr>ag_versions := [fresh_patch]\<rparr>)"
      "pr_id (ag_proposal sample_aggregate) = ''p''" "pw_session_id (ag_workspace sample_aggregate) = ''s''"
      "pw_repository_id (ag_workspace sample_aggregate) = ''r''" "pw_worktree_id (ag_workspace sample_aggregate) = ''w''"
    by (simp_all add: fresh_env_def sample_aggregate_def)
  have "patch_identity_check fresh_patch = Inr ()"
    using fields fresh_patch_valid by (simp add: patch_identity_check_def version_can_apply_def)
  then show ?thesis
    using fields request aggregate fresh_aggregate_valid
    by (simp add: preflight_proposal_def proposal_version_of_def version_can_apply_def)
qed

lemma fresh_evidence_valid: "destination_evidence_valid (ej_destination sample_json) fresh_evidence"
proof -
  have "apply_preconditions_valid [fresh_precondition]"
    using fresh_patch_valid
    by (simp add: apply_preconditions_valid_def proposed_patch_valid_def fresh_patch_def unique_paths_iff)
  then show ?thesis
    using sample_evidence_valid(1)
    by (simp add: destination_evidence_valid_def fresh_evidence_def destination_evidence_hash_def sample_json_def)
qed

lemma fresh_observed: "observe_twice sample_json fresh_env fresh_request fresh_patch = Inr fresh_evidence"
proof -
  have patch: "pv_artifact fresh_patch = no_artifact" "pv_patch_bytes fresh_patch = ''x''"
      "pv_patch_sha256 fresh_patch = sha256_hex ''x''" "dc_target_kind (pv_destination fresh_patch) = TargetLocal"
      "dc_expected_fingerprint (pv_destination fresh_patch) = sha256_hex []"
      "pv_preconditions fresh_patch = [fresh_precondition]"
    by (simp_all add: fresh_patch_def sample_patch_def Let_def)
  have evidence: "de_repository_id fresh_evidence = ''r''" "de_worktree_id fresh_evidence = ''w''"
      "de_target_kind fresh_evidence = TargetLocal" "de_tree_fingerprint fresh_evidence = sha256_hex []"
      "de_conversion_version fresh_evidence = 1" "\<not> de_attributes_changed fresh_evidence"
      "de_paths fresh_evidence = [fresh_precondition]" "de_index fresh_evidence = no_index"
      "capability_valid (de_capability fresh_evidence)"
    by (simp_all add: fresh_evidence_def sample_destination_evidence_def capability_valid_def sample_capability_def)
  have stream: "patch_stream (fe_artifacts fresh_env) fresh_patch = Inr (InlineStream ''x'', 1, [])"
    using patch by (simp add: patch_stream_def patch_size_def)
  have worktree: "wt_id (fr_worktree fresh_request) = ''w''" by (simp add: fresh_request_def sample_worktree_def)
  have "inspection_check sample_json fresh_evidence fresh_patch (fr_worktree fresh_request) q = Inr ()"
    if "iq_conversion_version q = 1" "iq_conversion_fingerprint q = []" for q
    using that patch evidence worktree fresh_evidence_valid
    by (simp add: inspection_check_def same_preconditions_def no_index_def)
  then show ?thesis
    using stream by (simp add: observe_twice_def Let_def) (simp add: fresh_env_def)
qed

lemma fresh_operation_valid:
  "apply_operation_valid sample_json (prepared_operation fresh_request fresh_patch fresh_evidence 1)"
proof -
  have same: "prepared_operation fresh_request fresh_patch fresh_evidence 1
      = sample_operation\<lparr>ao_session_revision := 4, ao_destination := pv_destination fresh_patch,
          ao_preconditions := [fresh_precondition], ao_evidence := fresh_evidence\<rparr>"
    by (simp add: prepared_operation_def fresh_request_def sample_guard_def fresh_patch_def sample_patch_def
        sample_operation_def ApplyOperationVersion_def apply_policy_version_def patch_size_def Let_def)
  have evidence: "de_repository_id fresh_evidence = ''r''" "de_worktree_id fresh_evidence = ''w''"
      "de_target_kind fresh_evidence = TargetLocal" "de_tree_fingerprint fresh_evidence = sha256_hex []"
      "capability_valid (de_capability fresh_evidence)"
      "de_evidence_hash fresh_evidence = destination_evidence_hash (ej_destination sample_json) fresh_evidence"
    using fresh_evidence_valid
    by (simp_all add: destination_evidence_valid_def)
      (simp_all add: fresh_evidence_def sample_destination_evidence_def)
  have destination: "dc_worktree_id (pv_destination fresh_patch) = ''w''"
      "dc_target_kind (pv_destination fresh_patch) = TargetLocal"
      "dc_expected_fingerprint (pv_destination fresh_patch) = sha256_hex []"
    by (simp_all add: fresh_patch_def sample_patch_def Let_def)
  have "pv_preconditions fresh_patch = [fresh_precondition]" by (simp add: fresh_patch_def)
  then have "apply_preconditions_valid [fresh_precondition]" "destination_valid (pv_destination fresh_patch)"
    using fresh_patch_valid
    by (simp_all add: apply_preconditions_valid_def proposed_patch_valid_def unique_paths_iff)
  moreover have "ao_phase sample_operation = ApplyPrepared" by (simp add: sample_operation_def)
  ultimately show ?thesis
    unfolding same using sample_operation_valid fresh_evidence_valid evidence destination
    by (simp add: apply_operation_valid_def operation_outcome_valid_def terminal_phase_def apply_failure_valid_def)
qed

lemma fresh_run:
  "\<exists>s' x. prepare_apply sample_json fresh_env fresh_request \<lparr>js_review = sample_store, js_rows = []\<rparr> = (s', Inr x)
     \<and> js_rows s' \<noteq> [] \<and> pn_operation x = prepared_operation fresh_request fresh_patch fresh_evidence 1"
proof -
  let ?s = "\<lparr>js_review = sample_store, js_rows = []\<rparr>" and ?o = "prepared_operation fresh_request fresh_patch fresh_evidence 1"
  have request: "preflight_request_valid fresh_request"
    using sample_refs_valid sample_key
    by (simp add: preflight_request_valid_def fresh_request_def)
      (simp add: sample_guard_def guard_valid_def sample_repository_def sample_worktree_def)
  have fields: "fr_guard fresh_request = sample_guard" "fr_idempotency_key fresh_request = ''k''"
      "fr_proposal_id fresh_request = ''p''" "fr_proposal_version fresh_request = 1"
    by (simp_all add: fresh_request_def)
  have env: "fe_lock fresh_env = None" "fe_tx fresh_env = \<lparr>te_begin = None, te_commit = None\<rparr>"
      "fe_owner fresh_env = (\<lambda>_ _ _. None)" "fe_clock fresh_env = 1"
    by (simp_all add: fresh_env_def)
  have guard: "verify_guard (rv_tables sample_store) sample_guard = Inr ()" "guard_valid sample_guard"
      "\<not> rv_closed sample_store" "sg_session_id sample_guard = ''s''"
    by (simp_all add: sample_store_def sample_guard_def guard_valid_def verify_guard_def select_row_def empty_tables_def)
  have "prepare_operation sample_json ''s'' (\<lambda>_ _ _. None) ?o [] = Inr [(ao_id ?o, row_of_operation ?o)]"
    using fresh_operation_valid guard(4) fields(1)
    by (simp add: prepare_operation_def compare_found_def insert_operation_def find_row_def)
      (simp add: prepared_operation_def)
  then obtain s1 where s1: "journal_tx (fe_tx fresh_env) sample_guard
      (prepare_operation sample_json (sg_session_id sample_guard) (fe_owner fresh_env) ?o) ?s
        = (s1, Inr (next_guard sample_guard))" "js_rows s1 = [(ao_id ?o, row_of_operation ?o)]"
    using guard verify_guard_matches env by (auto simp: journal_tx_Inr)
  have "prepare_fresh sample_json fresh_env fresh_request ?s
      = (s1, Inr \<lparr>pn_operation = ?o, pn_guard = next_guard sample_guard\<rparr>)"
    using fresh_proposal fresh_observed fresh_operation_valid s1(1) env(4) fields(1)
    by (simp add: prepare_fresh_def Let_def time_defs)
  then have "prepare_apply sample_json fresh_env fresh_request ?s
      = (s1, Inr \<lparr>pn_operation = ?o, pn_guard = next_guard sample_guard\<rparr>)"
    using request env(1) fields guard(3,4)
    by (simp add: prepare_apply_def load_operation_by_key_def load_operation_for_proposal_def query_operation_def
        find_row_def)
  then show ?thesis using s1(2) by auto
qed

lemma fresh_executes:
  "execution_env_works sample_json (working_env\<lparr>xe_proposal := Inr (sample_aggregate\<lparr>ag_versions := [fresh_patch]\<rparr>)\<rparr>)
     (prepared_operation fresh_request fresh_patch fresh_evidence 1)"
proof -
  let ?env = "working_env\<lparr>xe_proposal := Inr (sample_aggregate\<lparr>ag_versions := [fresh_patch]\<rparr>)\<rparr>"
  let ?o = "prepared_operation fresh_request fresh_patch fresh_evidence 1"
  have patch: "pv_version fresh_patch = 1" "pv_status fresh_patch = ProposalVersionReady"
      "pv_artifact fresh_patch = no_artifact" "pv_patch_bytes fresh_patch = ''x''"
      "pv_patch_sha256 fresh_patch = sha256_hex ''x''" "patch_identity_check fresh_patch = Inr ()"
    using fresh_patch_valid
    by (simp_all add: patch_identity_check_def version_can_apply_def)
      (simp_all add: fresh_patch_def sample_patch_def Let_def)
  have operation: "ao_session_id ?o = ''s''" "de_repository_id (ao_evidence ?o) = ''r''" "ao_evidence ?o = fresh_evidence"
      "de_worktree_id (ao_evidence ?o) = ''w''" "ao_prepared_at ?o = 1"
      "ao_destination ?o = pv_destination fresh_patch"
    by (simp_all add: prepared_operation_def fresh_request_def sample_guard_def fresh_evidence_def
        sample_destination_evidence_def)
  have aggregate: "pw_session_id (ag_workspace sample_aggregate) = ''s''"
      "pw_repository_id (ag_workspace sample_aggregate) = ''r''" "pw_worktree_id (ag_workspace sample_aggregate) = ''w''"
    by (simp_all add: sample_aggregate_def)
  have "load_apply_proposal ?env ?o = Inr fresh_patch"
    using fresh_aggregate_valid fresh_patch_valid patch operation aggregate
    by (simp add: load_apply_proposal_def proposal_version_of_def version_can_apply_def)
      (simp add: prepared_operation_def)
  moreover have "is_ok (patch_stream (xe_artifacts ?env) fresh_patch)"
    using patch by (simp add: patch_stream_def patch_size_def working_env_def Let_def)
  ultimately show ?thesis
    using sample_evidence_valid(2) operation(5)
    by (simp add: execution_env_works_def working_env_def Let_def tx_works_def clock_works_def observer_works_def time_defs)
qed

lemma preparation_checked_witness:
  "\<exists>s' x p. prepare_apply sample_json fresh_env fresh_request \<lparr>js_review = sample_store, js_rows = []\<rparr> = (s', Inr x)
     \<and> ao_phase (pn_operation x) = ApplyPrepared \<and> checked_destination sample_json fresh_env fresh_request (pn_operation x) p
     \<and> (\<exists>env s'' t m y. execute_apply sample_json env (handoff fresh_request x) (s', [])
            = ((s'', [(t, start_mutation (pn_operation x), m)]), Inr y) \<and> terminal_phase (ao_phase (xs_operation y)))"
proof -
  let ?env = "working_env\<lparr>xe_proposal := Inr (sample_aggregate\<lparr>ag_versions := [fresh_patch]\<rparr>)\<rparr>"
  obtain s' x where run: "prepare_apply sample_json fresh_env fresh_request \<lparr>js_review = sample_store, js_rows = []\<rparr>
      = (s', Inr x)" "js_rows s' \<noteq> []" "pn_operation x = prepared_operation fresh_request fresh_patch fresh_evidence 1"
    using fresh_run by blast
  have same: "de_repository_id (ao_evidence (pn_operation x)) = rp_id (fr_repository fresh_request)"
    by (simp add: run(3) prepared_operation_def fresh_evidence_def sample_destination_evidence_def fresh_request_def
        sample_repository_def)
  have works: "execution_env_works sample_json ?env (pn_operation x)" using fresh_executes run(3) by simp
  note checked = preparation_checked [OF run(1), of ?env "[]"]
  have fresh: "s' \<noteq> \<lparr>js_review = sample_store, js_rows = []\<rparr>" using run(2) by auto
  have "ao_phase (pn_operation x) = ApplyPrepared \<and> fence_open s' (pn_guard x)
      \<and> (\<exists>p. checked_destination sample_json fresh_env fresh_request (pn_operation x) p)
      \<and> (\<exists>s'' t m y. execute_apply sample_json ?env (handoff fresh_request x) (s', [])
            = ((s'', [(t, start_mutation (pn_operation x), m)]), Inr y) \<and> terminal_phase (ao_phase (xs_operation y)))"
    using checked fresh same works by simp blast
  with run(1) show ?thesis by blast
qed

end
