(* ===== verification/Workspace_Manifest.thy ===== *)
theory Workspace_Manifest
  imports Capture_Evidence Links Proposal_States
begin

text \<open>
  The manifest that identifies the contents of a trusted workspace root, and the journal of the
  operations that install, reset and advance one (\<^verbatim>\<open>internal/app/proposal_workspace.go\<close>). The phases are
  another instance of the interface of state machines.
\<close>

subsection \<open>Phases and purposes\<close>

datatype workspace_phase =
    WorkspaceBaselineInstalling | WorkspaceResultPreparing | WorkspaceResultResetting | WorkspaceBaselineAdvancing
  | WorkspaceLifecycleReady | WorkspaceLifecycleRepair | WorkspacePhaseOther bytes

definition workspace_phase_valid :: "workspace_phase \<Rightarrow> bool" where
  "workspace_phase_valid p = (case p of WorkspacePhaseOther _ \<Rightarrow> False | _ \<Rightarrow> True)"

definition workspace_phase_can :: "workspace_phase \<Rightarrow> workspace_phase \<Rightarrow> bool" where
  "workspace_phase_can p q =
     (if p = q then p \<noteq> WorkspaceLifecycleReady \<and> p \<noteq> WorkspaceLifecycleRepair
      else
        (case p of
           WorkspaceBaselineInstalling \<Rightarrow> q = WorkspaceResultPreparing \<or> q = WorkspaceLifecycleRepair
         | WorkspaceResultPreparing \<Rightarrow> q = WorkspaceLifecycleReady \<or> q = WorkspaceLifecycleRepair
         | WorkspaceResultResetting \<Rightarrow> q = WorkspaceLifecycleReady \<or> q = WorkspaceLifecycleRepair
         | WorkspaceBaselineAdvancing \<Rightarrow> q = WorkspaceLifecycleReady \<or> q = WorkspaceLifecycleRepair
         | WorkspaceLifecycleReady \<Rightarrow> q = WorkspaceLifecycleRepair
         | _ \<Rightarrow> False))"

definition workspace_phase_final :: "workspace_phase \<Rightarrow> bool" where
  "workspace_phase_final p \<longleftrightarrow> p = WorkspaceLifecycleRepair"

interpretation workspace_phases: state_machine workspace_phase_valid workspace_phase_final workspace_phase_can
proof
  fix s t
  show "workspace_phase_valid s \<Longrightarrow> workspace_phase_can s t \<Longrightarrow> workspace_phase_valid t"
    by (cases s) (auto simp: workspace_phase_valid_def workspace_phase_can_def split: if_splits)
  show "workspace_phase_final s \<Longrightarrow> workspace_phase_can s t \<Longrightarrow> t = s"
    by (auto simp: workspace_phase_final_def workspace_phase_can_def split: if_splits)
  show "workspace_phase_valid s \<Longrightarrow> \<exists>ts u. history workspace_phase_can s ts u \<and> workspace_phase_final u"
  proof (cases "s = WorkspaceLifecycleRepair")
    case True
    then show ?thesis by (auto intro!: exI [of _ "[]"] history.intros simp: workspace_phase_final_def)
  next
    case False
    assume "workspace_phase_valid s"
    then have "workspace_phase_can s WorkspaceLifecycleRepair"
      using False by (cases s) (simp_all add: workspace_phase_valid_def workspace_phase_can_def)
    then show ?thesis
      by (meson history.intros workspace_phase_final_def)
  qed
qed

text \<open>An operation that has ended is never active again, whatever is written later.\<close>

lemma workspace_phase_ends:
  assumes "history workspace_phase_can p ps q" "p = WorkspaceLifecycleReady \<or> p = WorkspaceLifecycleRepair"
  shows "q = WorkspaceLifecycleReady \<or> q = WorkspaceLifecycleRepair"
  using assms by (induction rule: history.induct) (auto simp: workspace_phase_can_def split: if_splits)

datatype workspace_purpose =
    WorkspacePurposeInstallBaseline | WorkspacePurposeResetResult | WorkspacePurposeAdvanceBaseline
  | WorkspacePurposeRefreshBaseline | WorkspacePurposeOther bytes

definition workspace_purpose_valid :: "workspace_purpose \<Rightarrow> bool" where
  "workspace_purpose_valid p = (case p of WorkspacePurposeOther _ \<Rightarrow> False | _ \<Rightarrow> True)"

subsection \<open>Hashes\<close>

definition valid_workspace_hash :: "bytes \<Rightarrow> bool" where
  "valid_workspace_hash v \<longleftrightarrow> length v = 64 \<and> hex_decode v \<noteq> None"

definition valid_workspace_nonce :: "bytes \<Rightarrow> bool" where
  "valid_workspace_nonce v \<longleftrightarrow> length v = 64 \<and> hex_decode v \<noteq> None"

fun symlink_class_text :: "symlink_class \<Rightarrow> bytes" where
  "symlink_class_text SymlinkRelativeContained = ''relative_contained''"
| "symlink_class_text SymlinkAbsolute = ''absolute''"
| "symlink_class_text SymlinkLexicallyEscaping = ''lexically_escaping''"
| "symlink_class_text SymlinkGitAdminAlias = ''git_admin_alias''"
| "symlink_class_text SymlinkUnrepresentable = ''unrepresentable''"
| "symlink_class_text SymlinkContainmentUnknown = ''containment_unknown''"
| "symlink_class_text (SymlinkClassOther b) = b"

text \<open>
  An optional value is written as a mark and, if it is there, its frame. The mark is a number here, and
  a single byte in the hashes of observed results.
\<close>

definition marked :: "(bool \<Rightarrow> bytes) \<Rightarrow> ('a \<Rightarrow> bytes) \<Rightarrow> 'a option \<Rightarrow> bytes" where
  "marked mark f v = (case v of None \<Rightarrow> mark False | Some x \<Rightarrow> mark True @ f x)"

definition symlink_fields :: "symlink_evidence \<Rightarrow> bytes" where
  "symlink_fields e =
     digest_string (se_path_key e) @ digest_string (se_target_hash e) @ digest_nat (se_target_length e)
     @ digest_string (symlink_class_text (se_target_class e)) @ digest_string (se_root_identity e)
     @ digest_string (se_parent_chain_hash e) @ digest_string (se_platform e)
     @ digest_string (se_primitive_version e) @ digest_string (se_reason_code e)"

definition native_path_fields :: "native_path_evidence \<Rightarrow> bytes" where
  "native_path_fields e =
     digest_string (np_repo_path_key e) @ digest_string (np_root_identity e) @ digest_string (np_platform e)
     @ digest_string (np_filesystem_class e) @ digest_string (np_comparison_key_hash e)
     @ digest_string (np_parent_chain_hash e)
     @ digest_string (native_path_disposition_string (np_disposition e)) @ digest_string (np_reason_code e)
     @ digest_string (np_evidence_version e)"

definition text_fields :: "(bool \<Rightarrow> bytes) \<Rightarrow> text_semantics \<Rightarrow> bytes" where
  "text_fields mark t =
     digest_string (text_encoding_text (te_encoding t)) @ digest_nat (te_byte_length t)
     @ digest_string (te_sha256 t) @ mark (te_has_bom t) @ digest_nat (le_lf_count (te_endings t))
     @ digest_nat (le_crlf_count (te_endings t)) @ digest_nat (le_cr_count (te_endings t))
     @ mark (le_final_lf (te_endings t)) @ mark (le_mixed (te_endings t)) @ mark (te_empty t)"

subsection \<open>Entries and manifests\<close>

record manifest_entry =
  mf_path :: bytes
  mf_kind :: file_kind
  mf_mode :: nat
  mf_bytes :: nat
  mf_sha256 :: bytes
  mf_content_class :: content_class
  mf_text :: "text_semantics option"
  mf_link_target :: bytes
  mf_symlink :: "symlink_evidence option"
  mf_native_path :: "native_path_evidence option"

definition repository_mode_kind :: "nat \<Rightarrow> file_kind" where
  "repository_mode_kind mode =
     (case classify_git_mode mode of
        ModeRegularNonExecutable \<Rightarrow> FileKindRegular
      | ModeRegularExecutable \<Rightarrow> FileKindRegular
      | ModeSymlink \<Rightarrow> FileKindSymlink
      | ModeTree \<Rightarrow> FileKindDirectory
      | _ \<Rightarrow> FileKindUnknown)"

text \<open>What a regular file's text evidence and a link's evidence must agree with.\<close>

definition text_of_content :: "content_class \<Rightarrow> nat \<Rightarrow> bytes \<Rightarrow> text_semantics \<Rightarrow> bool" where
  "text_of_content c n h t \<longleftrightarrow>
     c = ContentClassRegularTextUTF8 \<and> text_semantics_valid t \<and> te_byte_length t = n \<and> te_sha256 t = h"

definition symlink_of_content :: "repo_path \<Rightarrow> nat \<Rightarrow> bytes \<Rightarrow> symlink_evidence \<Rightarrow> bool" where
  "symlink_of_content p n h e \<longleftrightarrow>
     symlink_evidence_valid e \<and> se_path_key e = path_key p \<and> se_target_hash e = h \<and> se_target_length e = n"

definition native_path_of :: "repo_path \<Rightarrow> native_path_evidence \<Rightarrow> bool" where
  "native_path_of p n \<longleftrightarrow> native_path_evidence_valid n \<and> np_repo_path_key n = path_key p"

definition manifest_entry_valid :: "manifest_entry \<Rightarrow> bool" where
  "manifest_entry_valid e \<longleftrightarrow>
     valid_repo_path (mf_path e) \<and> git_mode_ok (mf_mode e) \<and> repository_mode_kind (mf_mode e) = mf_kind e
     \<and> opt_all (native_path_of (mf_path e)) (mf_native_path e)
     \<and> (case mf_kind e of
          FileKindDirectory \<Rightarrow>
            mf_bytes e = 0 \<and> mf_sha256 e = [] \<and> mf_content_class e = NoContentClass \<and> mf_text e = None
            \<and> mf_link_target e = []
        | FileKindRegular \<Rightarrow>
            valid_workspace_hash (mf_sha256 e) \<and> mf_link_target e = []
            \<and> (mf_content_class e = NoContentClass \<or> content_class_valid (mf_content_class e))
            \<and> opt_all (text_of_content (mf_content_class e) (mf_bytes e) (mf_sha256 e)) (mf_text e)
        | FileKindSymlink \<Rightarrow>
            mf_link_target e \<noteq> [] \<and> mf_bytes e = length (mf_link_target e) \<and> valid_workspace_hash (mf_sha256 e)
            \<and> length (mf_link_target e) \<le> 33554432 \<and> mf_content_class e = NoContentClass \<and> mf_text e = None
            \<and> opt_all (symlink_of_content (mf_path e) (mf_bytes e) (mf_sha256 e)) (mf_symlink e)
        | _ \<Rightarrow> False)"

record workspace_manifest =
  mn_version :: nat
  mn_entries :: "manifest_entry list"
  mn_hash :: bytes
  mn_total_bytes :: nat

definition WorkspaceManifestVersion :: nat where "WorkspaceManifestVersion = 1"

definition manifest_entry_frame :: "manifest_entry \<Rightarrow> bytes" where
  "manifest_entry_frame e =
     digest_string (mf_path e) @ digest_string (file_kind_text (mf_kind e)) @ digest_nat (mf_mode e)
     @ digest_nat (mf_bytes e) @ digest_string (mf_sha256 e)
     @ digest_string (content_class_text (mf_content_class e))
     @ marked digest_bool (text_fields digest_bool) (mf_text e) @ digest_string (mf_link_target e)
     @ marked digest_bool symlink_fields (mf_symlink e) @ marked digest_bool native_path_fields (mf_native_path e)"

definition workspace_manifest_hash :: "nat \<Rightarrow> manifest_entry list \<Rightarrow> bytes" where
  "workspace_manifest_hash v es = sha256_hex (digest_nat v @ concat (map manifest_entry_frame es))"

text \<open>The bytes of the files, unless their sum exceeds a 64-bit number.\<close>

fun add_bytes :: "('a \<Rightarrow> nat option) \<Rightarrow> nat \<Rightarrow> 'a list \<Rightarrow> nat option" where
  "add_bytes sz acc [] = Some acc"
| "add_bytes sz acc (e # es) =
     (case sz e of
        None \<Rightarrow> add_bytes sz acc es
      | Some n \<Rightarrow> if acc > 2 ^ 64 - 1 - n then None else add_bytes sz (acc + n) es)"

definition manifest_size :: "manifest_entry \<Rightarrow> nat option" where
  "manifest_size e = (if mf_kind e = FileKindDirectory then None else Some (mf_bytes e))"

definition new_workspace_manifest :: "manifest_entry list \<Rightarrow> workspace_manifest option" where
  "new_workspace_manifest entries =
     (let es = sort_key mf_path entries in
      if \<not> list_all manifest_entry_valid es then None
      else
        (case add_bytes manifest_size 0 es of
           None \<Rightarrow> None
         | Some n \<Rightarrow>
             if \<not> distinct_adj (map mf_path es) then None
             else Some \<lparr>mn_version = WorkspaceManifestVersion, mn_entries = es,
                        mn_hash = workspace_manifest_hash WorkspaceManifestVersion es, mn_total_bytes = n\<rparr>))"

definition workspace_manifest_valid :: "workspace_manifest \<Rightarrow> bool" where
  "workspace_manifest_valid m \<longleftrightarrow>
     mn_version m = WorkspaceManifestVersion \<and> valid_workspace_hash (mn_hash m)
     \<and> (case new_workspace_manifest (mn_entries m) of
          None \<Rightarrow> False
        | Some c \<Rightarrow> mn_hash c = mn_hash m \<and> mn_total_bytes c = mn_total_bytes m)"

subsection \<open>The journal\<close>

record workspace_source =
  ws_kind :: bytes
  ws_id :: bytes
  ws_manifest_hash :: bytes
  ws_generation :: nat
  ws_fingerprint :: bytes

definition workspace_source_valid :: "workspace_source \<Rightarrow> bool" where
  "workspace_source_valid s \<longleftrightarrow>
     \<not> (ws_kind s = [] \<or> ws_id s = [] \<or> \<not> valid_workspace_hash (ws_manifest_hash s))
     \<and> \<not> ((ws_generation s = 0) \<noteq> (ws_fingerprint s = [])
          \<or> ws_fingerprint s \<noteq> [] \<and> \<not> valid_workspace_hash (ws_fingerprint s))"

record workspace_lifecycle =
  wl_workspace_id :: workspace_id
  wl_repository_id :: repository_id
  wl_worktree_id :: worktree_id
  wl_session_id :: review_session_id
  wl_thread_id :: review_thread_id
  wl_operation_id :: operation_id
  wl_owner :: bytes
  wl_nonce :: bytes
  wl_marker :: bytes
  wl_purpose :: workspace_purpose
  wl_phase :: workspace_phase
  wl_source :: workspace_source
  wl_baseline :: workspace_manifest
  wl_result :: workspace_manifest
  wl_created_at :: instant
  wl_updated_at :: instant

definition workspace_lifecycle_valid :: "workspace_lifecycle \<Rightarrow> bool" where
  "workspace_lifecycle_valid l \<longleftrightarrow>
     \<not> (wl_workspace_id l = [] \<or> wl_repository_id l = [] \<or> wl_worktree_id l = [] \<or> wl_session_id l = []
        \<or> wl_thread_id l = [] \<or> wl_operation_id l = [] \<or> wl_owner l = [] \<or> wl_marker l = []
        \<or> \<not> valid_workspace_nonce (wl_nonce l) \<or> \<not> workspace_purpose_valid (wl_purpose l)
        \<or> \<not> workspace_phase_valid (wl_phase l) \<or> is_zero_time (wl_created_at l) \<or> is_zero_time (wl_updated_at l)
        \<or> before (wl_updated_at l) (wl_created_at l))
     \<and> (wl_purpose l = WorkspacePurposeInstallBaseline \<or> wl_purpose l = WorkspacePurposeAdvanceBaseline
          \<longrightarrow> workspace_source_valid (wl_source l))
     \<and> (wl_phase l = WorkspaceResultPreparing \<or> wl_phase l = WorkspaceResultResetting
          \<or> wl_phase l = WorkspaceBaselineAdvancing \<or> wl_phase l = WorkspaceLifecycleReady
          \<longrightarrow> workspace_manifest_valid (wl_baseline l))
     \<and> (wl_phase l = WorkspaceLifecycleReady \<longrightarrow> workspace_manifest_valid (wl_result l))"

end
