(* ===== verification/Result_Manifest.thy ===== *)
theory Result_Manifest
  imports Workspace_Manifest Proposal_Versions
begin

text \<open>
  What an agent left behind in the result root, and how it differs from the trusted baseline
  (\<^verbatim>\<open>internal/app/result_snapshot.go\<close>): observed entries and their manifest, the delta with its candidates
  for renames and copies, and the snapshot that binds them to an attempt.
\<close>

subsection \<open>States and reasons\<close>

datatype snapshot_state = ResultSnapshotReady | ResultSnapshotNonReady | SnapshotStateOther bytes

definition snapshot_state_valid :: "snapshot_state \<Rightarrow> bool" where
  "snapshot_state_valid s = (case s of SnapshotStateOther _ \<Rightarrow> False | _ \<Rightarrow> True)"

datatype result_reason =
    ResultReasonNone | ResultReasonUnsupportedEntry | ResultReasonNativeIdentity | ResultReasonSharedIdentity
  | ResultReasonPathAlias | ResultReasonGitAdminPath | ResultReasonRootChanged | ResultReasonResultRace
  | ResultReasonQuiescence | ResultReasonLimit | ResultReasonOther bytes

definition result_reason_valid :: "result_reason \<Rightarrow> bool" where
  "result_reason_valid r = (case r of ResultReasonOther _ \<Rightarrow> False | _ \<Rightarrow> True)"

fun result_reason_text :: "result_reason \<Rightarrow> bytes" where
  "result_reason_text ResultReasonNone = []"
| "result_reason_text ResultReasonUnsupportedEntry = ''unsupported_entry''"
| "result_reason_text ResultReasonNativeIdentity = ''native_identity_unavailable''"
| "result_reason_text ResultReasonSharedIdentity = ''shared_identity''"
| "result_reason_text ResultReasonPathAlias = ''path_alias''"
| "result_reason_text ResultReasonGitAdminPath = ''git_admin_path''"
| "result_reason_text ResultReasonRootChanged = ''root_changed''"
| "result_reason_text ResultReasonResultRace = ''result_race''"
| "result_reason_text ResultReasonQuiescence = ''quiescence_unproven''"
| "result_reason_text ResultReasonLimit = ''limit_exceeded''"
| "result_reason_text (ResultReasonOther b) = b"

definition first_result_reason :: "result_reason \<Rightarrow> result_reason \<Rightarrow> result_reason" where
  "first_result_reason current next' = (if current \<noteq> ResultReasonNone then current else next')"

subsection \<open>Observed entries\<close>

record result_entry =
  oe_path :: bytes
  oe_kind :: file_kind
  oe_mode :: nat
  oe_bytes :: nat
  oe_sha256 :: bytes
  oe_content_class :: content_class
  oe_text :: "text_semantics option"
  oe_link_target :: bytes
  oe_symlink :: "symlink_evidence option"
  oe_native_identity_hash :: bytes
  oe_native_alias :: "native_alias_evidence option"
  oe_native_path :: "native_path_evidence option"
  oe_review_only :: "review_only_evidence option"
  oe_complete :: bool
  oe_reason :: result_reason

definition valid_result_hash :: "bytes \<Rightarrow> bool" where
  "valid_result_hash v \<longleftrightarrow> length v = 64 \<and> hex_decode v \<noteq> None"

definition result_mode_kind :: "nat \<Rightarrow> file_kind" where
  "result_mode_kind mode =
     (case classify_git_mode mode of
        ModeRegularNonExecutable \<Rightarrow> FileKindRegular
      | ModeRegularExecutable \<Rightarrow> FileKindRegular
      | ModeSymlink \<Rightarrow> FileKindSymlink
      | ModeTree \<Rightarrow> FileKindDirectory
      | _ \<Rightarrow> FileKindUnknown)"

definition result_entry_valid :: "result_entry \<Rightarrow> bool" where
  "result_entry_valid e \<longleftrightarrow>
     valid_repo_path (oe_path e) \<and> result_reason_valid (oe_reason e)
     \<and> \<not> (oe_kind e \<noteq> FileKindUnknown \<and> oe_review_only e \<noteq> None)
     \<and> opt_all (native_path_of (oe_path e)) (oe_native_path e)
     \<and> \<not> (oe_kind e \<noteq> FileKindUnknown
          \<and> (\<not> git_mode_ok (oe_mode e) \<or> result_mode_kind (oe_mode e) \<noteq> oe_kind e))
     \<and> (case oe_kind e of
          FileKindDirectory \<Rightarrow>
            oe_mode e \<noteq> 0 \<and> oe_bytes e = 0 \<and> oe_sha256 e = [] \<and> oe_link_target e = []
            \<and> valid_result_hash (oe_native_identity_hash e) \<and> oe_native_alias e = None
        | FileKindRegular \<Rightarrow>
            oe_mode e \<noteq> 0 \<and> valid_result_hash (oe_sha256 e) \<and> oe_link_target e = []
            \<and> (oe_content_class e = NoContentClass \<or> content_class_valid (oe_content_class e))
            \<and> opt_all (text_of_content (oe_content_class e) (oe_bytes e) (oe_sha256 e)) (oe_text e)
            \<and> oe_complete e \<and> valid_result_hash (oe_native_identity_hash e)
            \<and> opt_all native_alias_evidence_valid (oe_native_alias e)
        | FileKindSymlink \<Rightarrow>
            oe_mode e \<noteq> 0 \<and> oe_link_target e \<noteq> [] \<and> oe_bytes e = length (oe_link_target e)
            \<and> valid_result_hash (oe_sha256 e) \<and> oe_content_class e = NoContentClass \<and> oe_text e = None
            \<and> oe_native_identity_hash e = [] \<and> oe_native_alias e = None \<and> oe_complete e
            \<and> opt_all (symlink_of_content (oe_path e) (oe_bytes e) (oe_sha256 e)) (oe_symlink e)
        | FileKindUnknown \<Rightarrow>
            oe_mode e = 0 \<and> oe_bytes e = 0 \<and> oe_sha256 e = [] \<and> oe_content_class e = NoContentClass
            \<and> oe_text e = None \<and> oe_link_target e = [] \<and> oe_native_identity_hash e = []
            \<and> oe_native_alias e = None \<and> oe_native_path e = None \<and> \<not> oe_complete e
            \<and> oe_reason e \<noteq> ResultReasonNone \<and> opt_all review_only_valid (oe_review_only e)
        | _ \<Rightarrow> False)
     \<and> \<not> (\<not> oe_complete e \<and> oe_kind e \<noteq> FileKindUnknown \<and> oe_reason e = ResultReasonNone)"

subsection \<open>The manifest of a result\<close>

record result_manifest =
  om_version :: nat
  om_policy_version :: nat
  om_entries :: "result_entry list"
  om_hash :: bytes
  om_total_bytes :: nat
  om_complete :: bool
  om_reason :: result_reason

definition ResultSnapshotVersion :: nat where "ResultSnapshotVersion = 1"

definition result_bool :: "bool \<Rightarrow> bytes" where
  "result_bool b = [mk_byte (if b then 1 else 0)]"

definition native_alias_fields :: "native_alias_evidence \<Rightarrow> bytes" where
  "native_alias_fields a =
     digest_string (na_platform a) @ digest_string (na_volume_identity_hash a)
     @ digest_string (na_file_identity_hash a) @ digest_nat (na_link_count a)"

definition review_only_fields :: "review_only_evidence \<Rightarrow> bytes" where
  "review_only_fields r =
     digest_string (special_kind_string (ro_special_kind r))
     @ digest_string (metadata_level_text (ro_metadata_level r)) @ digest_string (ro_metadata_hash r)
     @ digest_string (ro_reason_code r) @ digest_string (ro_evidence_version r)"

definition result_entry_frame :: "result_entry \<Rightarrow> bytes" where
  "result_entry_frame e =
     digest_string (oe_path e) @ digest_string (file_kind_text (oe_kind e)) @ digest_nat (oe_mode e)
     @ digest_nat (oe_bytes e) @ digest_string (oe_sha256 e)
     @ digest_string (content_class_text (oe_content_class e))
     @ marked result_bool (text_fields result_bool) (oe_text e) @ digest_string (oe_link_target e)
     @ marked result_bool symlink_fields (oe_symlink e) @ digest_string (oe_native_identity_hash e)
     @ marked result_bool native_alias_fields (oe_native_alias e)
     @ marked result_bool native_path_fields (oe_native_path e)
     @ marked result_bool review_only_fields (oe_review_only e) @ result_bool (oe_complete e)
     @ digest_string (result_reason_text (oe_reason e))"

definition result_manifest_hash :: "result_manifest \<Rightarrow> bytes" where
  "result_manifest_hash m =
     sha256_hex (digest_nat (om_version m) @ digest_nat (om_policy_version m) @ result_bool (om_complete m)
       @ digest_string (result_reason_text (om_reason m)) @ concat (map result_entry_frame (om_entries m)))"

definition result_size :: "result_entry \<Rightarrow> nat option" where
  "result_size e = (if oe_kind e = FileKindDirectory then None else Some (oe_bytes e))"

definition entry_reason :: "result_reason \<Rightarrow> result_entry \<Rightarrow> result_reason" where
  "entry_reason r e =
     (if \<not> oe_complete e \<or> oe_reason e \<noteq> ResultReasonNone then first_result_reason r (oe_reason e) else r)"

definition new_result_manifest ::
    "result_entry list \<Rightarrow> nat \<Rightarrow> bool \<Rightarrow> result_reason \<Rightarrow> result_manifest option" where
  "new_result_manifest entries policy complete reason =
     (if policy = 0 \<or> \<not> result_reason_valid reason \<or> \<not> complete \<and> reason = ResultReasonNone then None
      else
        (let es = sort_key oe_path entries in
         if \<not> list_all result_entry_valid es \<or> \<not> distinct_adj (map oe_path es) then None
         else
           (case add_bytes result_size 0 es of
              None \<Rightarrow> None
            | Some n \<Rightarrow>
                let m = \<lparr>om_version = ResultSnapshotVersion, om_policy_version = policy, om_entries = es, om_hash = [],
                         om_total_bytes = n, om_complete = complete, om_reason = foldl entry_reason reason es\<rparr>
                in Some (m\<lparr>om_hash := result_manifest_hash m\<rparr>))))"

definition result_manifest_valid :: "result_manifest \<Rightarrow> bool" where
  "result_manifest_valid m \<longleftrightarrow>
     om_version m = ResultSnapshotVersion \<and> om_policy_version m \<noteq> 0 \<and> result_reason_valid (om_reason m)
     \<and> valid_result_hash (om_hash m)
     \<and> (case new_result_manifest (om_entries m) (om_policy_version m) (om_complete m) (om_reason m) of
          None \<Rightarrow> False
        | Some c \<Rightarrow> om_hash c = om_hash m \<and> om_total_bytes c = om_total_bytes m)
     \<and> \<not> (\<not> om_complete m \<and> om_reason m = ResultReasonNone)"

subsection \<open>Deltas\<close>

datatype delta_kind =
    ResultDeltaAdded | ResultDeltaDeleted | ResultDeltaContent | ResultDeltaMode | ResultDeltaType | ResultDeltaLink
  | ResultDeltaUnsupported | ResultDeltaOther bytes

definition delta_kind_valid :: "delta_kind \<Rightarrow> bool" where
  "delta_kind_valid k = (case k of ResultDeltaOther _ \<Rightarrow> False | _ \<Rightarrow> True)"

fun delta_kind_text :: "delta_kind \<Rightarrow> bytes" where
  "delta_kind_text ResultDeltaAdded = ''added''"
| "delta_kind_text ResultDeltaDeleted = ''deleted''"
| "delta_kind_text ResultDeltaContent = ''content_changed''"
| "delta_kind_text ResultDeltaMode = ''mode_changed''"
| "delta_kind_text ResultDeltaType = ''type_changed''"
| "delta_kind_text ResultDeltaLink = ''link_changed''"
| "delta_kind_text ResultDeltaUnsupported = ''unsupported''"
| "delta_kind_text (ResultDeltaOther b) = b"

record rename_candidate =
  xc_source :: repo_path
  xc_target :: repo_path
  xc_copy :: bool

definition rename_candidate_valid :: "rename_candidate \<Rightarrow> bool" where
  "rename_candidate_valid c \<longleftrightarrow>
     valid_repo_path (xc_source c) \<and> valid_repo_path (xc_target c) \<and> xc_source c \<noteq> xc_target c"

record delta_entry =
  xd_path :: repo_path
  xd_baseline :: "manifest_entry option"
  xd_result :: "result_entry option"
  xd_mode_transition :: "mode_transition option"
  xd_kinds :: "delta_kind list"
  xd_complete :: bool
  xd_reason :: result_reason
  xd_candidates :: "rename_candidate list"

definition delta_entry_valid :: "delta_entry \<Rightarrow> bool" where
  "delta_entry_valid e \<longleftrightarrow>
     \<not> (\<not> valid_repo_path (xd_path e) \<or> \<not> result_reason_valid (xd_reason e)
        \<or> xd_baseline e = None \<and> xd_result e = None \<or> xd_kinds e = [])
     \<and> list_all delta_kind_valid (xd_kinds e)
     \<and> opt_all manifest_entry_valid (xd_baseline e) \<and> opt_all result_entry_valid (xd_result e)
     \<and> (case xd_mode_transition e of
          Some t \<Rightarrow>
            (case (xd_baseline e, xd_result e) of
               (Some b, Some r) \<Rightarrow> mode_transition_valid t \<and> mt_old_mode t = mf_mode b \<and> mt_new_mode t = oe_mode r
             | _ \<Rightarrow> False)
        | None \<Rightarrow>
            (case (xd_baseline e, xd_result e) of
               (Some b, Some r) \<Rightarrow>
                 \<not> ((mf_mode b \<noteq> oe_mode r \<or> mf_kind b \<noteq> oe_kind r)
                    \<and> (oe_kind r \<noteq> FileKindUnknown \<or> oe_complete r))
             | _ \<Rightarrow> True))
     \<and> list_all rename_candidate_valid (xd_candidates e)
     \<and> \<not> (\<not> xd_complete e \<and> xd_reason e = ResultReasonNone)"

record result_delta =
  xl_version :: nat
  xl_entries :: "delta_entry list"
  xl_candidates :: "rename_candidate list"
  xl_hash :: bytes
  xl_complete :: bool
  xl_reason :: result_reason

definition append_unique_kind :: "delta_kind list \<Rightarrow> delta_kind \<Rightarrow> delta_kind list" where
  "append_unique_kind ks k = (if k \<in> set ks then ks else ks @ [k])"

definition compare_result_entry :: "manifest_entry \<Rightarrow> result_entry \<Rightarrow> delta_kind list" where
  "compare_result_entry b r =
     (let ks = (if mf_kind b \<noteq> oe_kind r then [ResultDeltaType] else [])
          @ (if mf_mode b \<noteq> oe_mode r then [ResultDeltaMode] else [])
          @ (if mf_bytes b \<noteq> oe_bytes r \<or> mf_sha256 b \<noteq> oe_sha256 r
                \<or> mf_content_class b \<noteq> NoContentClass \<and> oe_content_class r \<noteq> NoContentClass
                  \<and> mf_content_class b \<noteq> oe_content_class r
                \<or> mf_text b \<noteq> None \<and> oe_text r \<noteq> None \<and> mf_text b \<noteq> oe_text r
             then [ResultDeltaContent] else [])
          @ (if mf_link_target b \<noteq> oe_link_target r then [ResultDeltaLink] else [])
      in if oe_reason r \<noteq> ResultReasonNone \<or> \<not> oe_complete r then append_unique_kind ks ResultDeltaUnsupported
         else ks)"

subsection \<open>Candidates\<close>

definition manifest_entry_identity :: "manifest_entry \<Rightarrow> bytes" where
  "manifest_entry_identity e =
     (if mf_kind e = FileKindDirectory then [] else file_kind_text (mf_kind e) @ '':'' @ mf_sha256 e)"

definition result_entry_identity :: "result_entry \<Rightarrow> bytes" where
  "result_entry_identity e =
     (if oe_kind e = FileKindDirectory \<or> \<not> oe_complete e then []
      else file_kind_text (oe_kind e) @ '':'' @ oe_sha256 e)"

text \<open>The order of candidates: by source, then by target, and a rename before a copy.\<close>

definition candidate_less :: "rename_candidate \<Rightarrow> rename_candidate \<Rightarrow> bool" where
  "candidate_less a b =
     (if xc_source a = xc_source b
      then if xc_target a = xc_target b then \<not> xc_copy a \<and> xc_copy b else xc_target a < xc_target b
      else xc_source a < xc_source b)"

fun insert_candidate :: "rename_candidate \<Rightarrow> rename_candidate list \<Rightarrow> rename_candidate list" where
  "insert_candidate c [] = [c]"
| "insert_candidate c (d # ds) = (if candidate_less c d then c # d # ds else d # insert_candidate c ds)"

definition sort_candidates :: "rename_candidate list \<Rightarrow> rename_candidate list" where
  "sort_candidates cs = foldl (\<lambda>acc c. insert_candidate c acc) [] cs"

definition rename_candidates :: "delta_entry list \<Rightarrow> rename_candidate list" where
  "rename_candidates es =
     (let single = filter (\<lambda>e. length (xd_kinds e) = 1 \<and> \<not> (xd_result e = None \<and> xd_baseline e = None)) es;
          deleted = filter (\<lambda>e. xd_baseline e \<noteq> None \<and> xd_result e = None) single;
          added = filter (\<lambda>e. xd_result e \<noteq> None \<and> xd_baseline e = None) single;
          retained = filter (\<lambda>e. xd_result e \<noteq> None \<and> xd_baseline e \<noteq> None) single;
          source_id = (\<lambda>e. manifest_entry_identity (the (xd_baseline e)));
          target_id = (\<lambda>e. result_entry_identity (the (xd_result e)))
      in sort_candidates
           (concat (map (\<lambda>s. map (\<lambda>t. \<lparr>xc_source = xd_path s, xc_target = xd_path t, xc_copy = False\<rparr>)
                                (filter (\<lambda>t. source_id s = target_id t) added))
                     (filter (\<lambda>s. source_id s \<noteq> []) deleted))
            @ concat (map (\<lambda>t. map (\<lambda>s. \<lparr>xc_source = xd_path s, xc_target = xd_path t, xc_copy = True\<rparr>)
                                (filter (\<lambda>s. source_id s = target_id t) retained)) added)))"

definition copy_candidates ::
    "manifest_entry list \<Rightarrow> (repo_path_key \<Rightarrow> result_entry option) \<Rightarrow> delta_entry list \<Rightarrow> rename_candidate list" where
  "copy_candidates base observed es =
     concat (map (\<lambda>e.
       case xd_result e of
         Some r \<Rightarrow>
           if xd_kinds e \<noteq> [ResultDeltaAdded] \<or> result_entry_identity r = [] then []
           else map (\<lambda>s. \<lparr>xc_source = mf_path s, xc_target = xd_path e, xc_copy = True\<rparr>)
                  (filter (\<lambda>s. observed (path_key (mf_path s)) \<noteq> None
                     \<and> manifest_entry_identity s = result_entry_identity r \<and> path_key (mf_path s) \<noteq> xd_path e) base)
       | None \<Rightarrow> []) es)"

definition append_unique_candidates :: "rename_candidate list \<Rightarrow> rename_candidate list \<Rightarrow> rename_candidate list" where
  "append_unique_candidates values additions =
     foldl (\<lambda>vs c. if c \<in> set vs then vs else vs @ [c]) values additions"

subsection \<open>The comparison\<close>

text \<open>A map that Go fills entry by entry: the last entry of a path is the one it holds.\<close>

definition entry_map :: "('a \<Rightarrow> repo_path) \<Rightarrow> 'a list \<Rightarrow> repo_path_key \<Rightarrow> 'a option" where
  "entry_map path xs k = find (\<lambda>x. path_key (path x) = k) (rev xs)"

text \<open>One path: an error, nothing when both sides agree, or the entry of the delta.\<close>

definition compare_path ::
    "bool \<Rightarrow> repo_path_key \<Rightarrow> manifest_entry option \<Rightarrow> result_entry option \<Rightarrow> delta_entry option option" where
  "compare_path complete k b r =
     (let transition = (case (b, r) of
            (Some b, Some r) \<Rightarrow>
              if mf_mode b \<noteq> oe_mode r \<or> mf_kind b \<noteq> oe_kind r
              then (case new_mode_transition (mf_mode b) (oe_mode r) of
                      Inr t \<Rightarrow> Some (Some t)
                    | Inl _ \<Rightarrow> if oe_kind r \<noteq> FileKindUnknown \<or> oe_complete r then None else Some None)
              else Some None
          | _ \<Rightarrow> Some None);
          kinds = (case (b, r) of
            (None, _) \<Rightarrow> [ResultDeltaAdded]
          | (_, None) \<Rightarrow> [ResultDeltaDeleted]
          | (Some b, Some r) \<Rightarrow> compare_result_entry b r);
          kinds = (case r of
            None \<Rightarrow> kinds
          | Some r \<Rightarrow> if oe_complete r then kinds else append_unique_kind kinds ResultDeltaUnsupported);
          reason = (case r of None \<Rightarrow> ResultReasonNone | Some r \<Rightarrow> oe_reason r)
      in case transition of
           None \<Rightarrow> None
         | Some t \<Rightarrow>
             if kinds = [] then Some None
             else
               (let e = \<lparr>xd_path = k, xd_baseline = b, xd_result = r, xd_mode_transition = t, xd_kinds = kinds,
                         xd_complete = complete, xd_reason = reason, xd_candidates = []\<rparr>
                in if \<not> delta_entry_valid e then None else Some (Some e)))"

fun compare_paths :: "(repo_path_key \<Rightarrow> delta_entry option option) \<Rightarrow> repo_path_key list \<Rightarrow> delta_entry list option" where
  "compare_paths f [] = Some []"
| "compare_paths f (k # ks) =
     (case f k of
        None \<Rightarrow> None
      | Some e \<Rightarrow>
          (case compare_paths f ks of
             None \<Rightarrow> None
           | Some es \<Rightarrow> Some (case e of None \<Rightarrow> es | Some e \<Rightarrow> e # es)))"

definition mode_transition_fields :: "mode_transition \<Rightarrow> bytes" where
  "mode_transition_fields t =
     digest_string (git_mode_class_string (mt_old_class t)) @ digest_string (git_mode_class_string (mt_new_class t))
     @ digest_string (mode_transition_kind_string (mt_kind t)) @ digest_string (mt_evidence_hash t)
     @ digest_string (mt_policy_version t)"

definition baseline_fields :: "manifest_entry \<Rightarrow> bytes" where
  "baseline_fields b =
     digest_string (mf_path b) @ digest_string (file_kind_text (mf_kind b)) @ digest_nat (mf_mode b)
     @ digest_nat (mf_bytes b) @ digest_string (mf_sha256 b)
     @ digest_string (content_class_text (mf_content_class b))
     @ marked result_bool (text_fields result_bool) (mf_text b) @ digest_string (mf_link_target b)
     @ marked result_bool symlink_fields (mf_symlink b) @ marked result_bool native_path_fields (mf_native_path b)"

definition delta_entry_frame :: "delta_entry \<Rightarrow> bytes" where
  "delta_entry_frame e =
     digest_string (xd_path e) @ marked result_bool baseline_fields (xd_baseline e)
     @ marked result_bool mode_transition_fields (xd_mode_transition e)
     @ marked result_bool result_entry_frame (xd_result e)
     @ concat (map (digest_string \<circ> delta_kind_text) (xd_kinds e)) @ result_bool (xd_complete e)
     @ digest_string (result_reason_text (xd_reason e))"

definition candidate_frame :: "rename_candidate \<Rightarrow> bytes" where
  "candidate_frame c = digest_string (xc_source c) @ digest_string (xc_target c) @ result_bool (xc_copy c)"

definition result_delta_hash :: "result_delta \<Rightarrow> bytes" where
  "result_delta_hash d =
     sha256_hex (digest_nat (xl_version d) @ result_bool (xl_complete d) @ digest_string (result_reason_text (xl_reason d))
       @ concat (map delta_entry_frame (xl_entries d)) @ concat (map candidate_frame (xl_candidates d)))"

definition compare_result_manifest :: "workspace_manifest \<Rightarrow> result_manifest \<Rightarrow> result_delta option" where
  "compare_result_manifest baseline observed =
     (if \<not> workspace_manifest_valid baseline \<or> \<not> result_manifest_valid observed then None
      else
        (let base = entry_map mf_path (mn_entries baseline);
             seen = entry_map oe_path (om_entries observed);
             keys = sort (remdups (map (path_key \<circ> mf_path) (mn_entries baseline)
                       @ map (path_key \<circ> oe_path) (om_entries observed)))
         in case compare_paths (\<lambda>k. compare_path (om_complete observed) k (base k) (seen k)) keys of
              None \<Rightarrow> None
            | Some es \<Rightarrow>
                let d = \<lparr>xl_version = ResultSnapshotVersion, xl_entries = es,
                         xl_candidates = sort_candidates (append_unique_candidates (rename_candidates es)
                           (copy_candidates (mn_entries baseline) seen es)),
                         xl_hash = [], xl_complete = om_complete observed, xl_reason = om_reason observed\<rparr>
                in Some (d\<lparr>xl_hash := result_delta_hash d\<rparr>)))"

definition result_delta_valid :: "result_delta \<Rightarrow> bool" where
  "result_delta_valid d \<longleftrightarrow>
     xl_version d = ResultSnapshotVersion \<and> result_reason_valid (xl_reason d) \<and> valid_result_hash (xl_hash d)
     \<and> list_all delta_entry_valid (xl_entries d) \<and> sorted_wrt (<) (map xd_path (xl_entries d))
     \<and> list_all rename_candidate_valid (xl_candidates d) \<and> result_delta_hash d = xl_hash d"

subsection \<open>Snapshots\<close>

record result_snapshot =
  rz_version :: nat
  rz_id :: bytes
  rz_session_id :: review_session_id
  rz_proposal_id :: proposal_id
  rz_workspace_id :: workspace_id
  rz_worktree_id :: worktree_id
  rz_attempt_id :: operation_id
  rz_thread_id :: review_thread_id
  rz_provider_turn_id :: bytes
  rz_provider_turn_ref :: bytes
  rz_baseline :: snapshot_identity
  rz_result :: snapshot_identity
  rz_manifest :: result_manifest
  rz_delta :: result_delta
  rz_policy_version :: nat
  rz_isolation_version :: nat
  rz_lease_nonce :: bytes
  rz_state :: snapshot_state
  rz_reason :: result_reason
  rz_created_at :: instant

definition result_snapshot_id :: "result_snapshot \<Rightarrow> bytes" where
  "result_snapshot_id s =
     ''result-'' @ sha256_hex
       (digest_string (rz_session_id s) @ digest_string (rz_proposal_id s) @ digest_string (rz_workspace_id s)
        @ digest_string (rz_worktree_id s) @ digest_string (rz_attempt_id s) @ digest_string (om_hash (rz_manifest s))
        @ digest_string (xl_hash (rz_delta s)) @ digest_string (rz_lease_nonce s) @ digest_nat (rz_policy_version s)
        @ digest_nat (rz_isolation_version s))"

definition result_snapshot_valid :: "result_snapshot \<Rightarrow> bool" where
  "result_snapshot_valid s \<longleftrightarrow>
     \<not> (rz_version s \<noteq> ResultSnapshotVersion \<or> rz_id s = [] \<or> rz_session_id s = [] \<or> rz_proposal_id s = []
        \<or> rz_workspace_id s = [] \<or> rz_worktree_id s = [] \<or> rz_attempt_id s = [] \<or> rz_thread_id s = []
        \<or> rz_provider_turn_ref s = [] \<or> \<not> snapshot_identity_valid (rz_baseline s)
        \<or> \<not> snapshot_identity_valid (rz_result s) \<or> \<not> result_manifest_valid (rz_manifest s)
        \<or> \<not> result_delta_valid (rz_delta s) \<or> rz_policy_version s = 0 \<or> rz_isolation_version s = 0
        \<or> rz_lease_nonce s = [] \<or> \<not> snapshot_state_valid (rz_state s) \<or> \<not> result_reason_valid (rz_reason s)
        \<or> is_zero_time (rz_created_at s))
     \<and> \<not> (om_policy_version (rz_manifest s) \<noteq> rz_policy_version s
          \<or> sn_manifest_hash (rz_result s) \<noteq> om_hash (rz_manifest s)
          \<or> sr_kind (sn_ref (rz_result s)) \<noteq> SnapshotWorkingTree
          \<or> sr_worktree_id (sn_ref (rz_result s)) \<noteq> rz_worktree_id s)
     \<and> om_complete (rz_manifest s) = xl_complete (rz_delta s)
     \<and> first_result_reason (om_reason (rz_manifest s)) (xl_reason (rz_delta s)) = rz_reason s
     \<and> \<not> (rz_state s = ResultSnapshotReady
          \<and> (\<not> om_complete (rz_manifest s) \<or> \<not> xl_complete (rz_delta s)
             \<or> om_reason (rz_manifest s) \<noteq> ResultReasonNone \<or> xl_reason (rz_delta s) \<noteq> ResultReasonNone))
     \<and> result_snapshot_id s = rz_id s"

definition new_result_snapshot :: "result_snapshot \<Rightarrow> result_snapshot option" where
  "new_result_snapshot v =
     (let v = (if rz_version v = 0 then v\<lparr>rz_version := ResultSnapshotVersion\<rparr> else v);
          v = (if rz_id v = [] then v\<lparr>rz_id := result_snapshot_id v\<rparr> else v)
      in if \<not> result_snapshot_valid v then None else Some v)"

end
