(* ===== verification/Result_Facts.thy ===== *)
theory Result_Facts
  imports Result_Manifest "HOL-Library.Multiset"
begin

text \<open>What the comparison of a result with its baseline promises: the delta tells exactly what changed.\<close>

subsection \<open>Manifests\<close>

lemma distinct_adj_sorted:
  fixes xs :: "'a::linorder list"
  shows "sorted xs \<Longrightarrow> distinct_adj xs \<Longrightarrow> distinct xs"
proof (induction xs rule: induct_list012)
  case (3 x y zs)
  then show ?case by (auto simp: distinct_adj_Cons)
qed auto

lemma sort_key_distinct: "distinct (map f (sort_key f xs)) \<longleftrightarrow> distinct (map f xs)"
proof -
  have "mset (map f (sort_key f xs)) = mset (map f xs)" by simp
  then show ?thesis by (rule mset_eq_imp_distinct_iff)
qed

lemma find_SomeD: "find P xs = Some x \<Longrightarrow> x \<in> set xs \<and> P x"
  by (induction xs) (auto split: if_splits)

lemma manifest_paths:
  assumes "workspace_manifest_valid m"
  shows "distinct (map mf_path (mn_entries m))" "\<forall>e \<in> set (mn_entries m). manifest_entry_valid e"
proof -
  let ?es = "sort_key mf_path (mn_entries m)"
  have checks: "list_all manifest_entry_valid ?es" "distinct_adj (map mf_path ?es)"
    using assms
    by (auto simp: workspace_manifest_valid_def new_workspace_manifest_def Let_def split: option.splits if_splits)
  have "distinct (map mf_path ?es)" using checks(2) by (intro distinct_adj_sorted) simp_all
  then show "distinct (map mf_path (mn_entries m))" by (simp only: sort_key_distinct)
  show "\<forall>e \<in> set (mn_entries m). manifest_entry_valid e" using checks(1) by (simp add: list_all_iff)
qed

lemma result_paths:
  assumes "result_manifest_valid m"
  shows "distinct (map oe_path (om_entries m))" "\<forall>e \<in> set (om_entries m). result_entry_valid e"
proof -
  let ?es = "sort_key oe_path (om_entries m)"
  have checks: "list_all result_entry_valid ?es" "distinct_adj (map oe_path ?es)"
    using assms
    by (auto simp: result_manifest_valid_def new_result_manifest_def Let_def split: option.splits if_splits)
  have "distinct (map oe_path ?es)" using checks(2) by (intro distinct_adj_sorted) simp_all
  then show "distinct (map oe_path (om_entries m))" by (simp only: sort_key_distinct)
  show "\<forall>e \<in> set (om_entries m). result_entry_valid e" using checks(1) by (simp add: list_all_iff)
qed

lemma entry_map_Some:
  assumes "distinct (map path xs)"
  shows "entry_map path xs k = Some x \<longleftrightarrow> x \<in> set xs \<and> path_key (path x) = k"
proof
  assume "entry_map path xs k = Some x"
  then show "x \<in> set xs \<and> path_key (path x) = k"
    by (auto simp: entry_map_def dest: find_SomeD)
next
  assume x: "x \<in> set xs \<and> path_key (path x) = k"
  then have "entry_map path xs k \<noteq> None" by (auto simp: entry_map_def find_None_iff)
  then obtain y where y: "entry_map path xs k = Some y" by auto
  then have "y \<in> set xs \<and> path_key (path y) = k"
    by (auto simp: entry_map_def dest: find_SomeD)
  with x have "x = y" using assms by (auto simp: path_key_def distinct_map inj_on_def)
  with y show "entry_map path xs k = Some x" by simp
qed

lemma entry_map_None: "entry_map path xs k = None \<longleftrightarrow> k \<notin> path_key ` path ` set xs"
  by (auto simp: entry_map_def find_None_iff)

subsection \<open>One path\<close>

lemma compare_paths_eq:
  "compare_paths f ks =
     (if \<exists>k \<in> set ks. f k = None then None else Some (map the (filter (\<lambda>e. e \<noteq> None) (map (the \<circ> f) ks))))"
  by (induction ks) (auto simp: comp_def split: option.splits)

lemma compare_path_entry:
  assumes "compare_path complete k b r = Some (Some e)"
  shows "xd_path e = k" "xd_baseline e = b" "xd_result e = r" "xd_complete e = complete" "delta_entry_valid e"
    "xd_reason e = (case r of None \<Rightarrow> ResultReasonNone | Some r \<Rightarrow> oe_reason r)"
  using assms by (auto simp: compare_path_def Let_def split: option.splits if_splits)

text \<open>What is compared of the two kinds of entries.\<close>

type_synonym entry_view = "file_kind \<times> nat \<times> nat \<times> bytes \<times> bytes"

definition manifest_view :: "manifest_entry \<Rightarrow> entry_view" where
  "manifest_view b = (mf_kind b, mf_mode b, mf_bytes b, mf_sha256 b, mf_link_target b)"

definition result_view :: "result_entry \<Rightarrow> entry_view" where
  "result_view r = (oe_kind r, oe_mode r, oe_bytes r, oe_sha256 r, oe_link_target r)"

definition same_text_evidence :: "manifest_entry \<Rightarrow> result_entry \<Rightarrow> bool" where
  "same_text_evidence b r \<longleftrightarrow>
     (mf_content_class b = NoContentClass \<or> oe_content_class r = NoContentClass
        \<or> mf_content_class b = oe_content_class r)
     \<and> (mf_text b = None \<or> oe_text r = None \<or> mf_text b = oe_text r)"

lemma compare_result_entry_empty:
  "compare_result_entry b r = [] \<longleftrightarrow>
     manifest_view b = result_view r \<and> same_text_evidence b r \<and> oe_complete r \<and> oe_reason r = ResultReasonNone"
  by (auto simp: compare_result_entry_def manifest_view_def result_view_def same_text_evidence_def Let_def
      append_unique_kind_def)

definition unchanged :: "manifest_entry option \<Rightarrow> result_entry option \<Rightarrow> bool" where
  "unchanged b r =
     (case (b, r) of
        (Some b, Some r) \<Rightarrow>
          manifest_view b = result_view r \<and> same_text_evidence b r \<and> oe_complete r \<and> oe_reason r = ResultReasonNone
      | _ \<Rightarrow> False)"

lemma append_unique_nonempty [simp]: "append_unique_kind ks k \<noteq> []"
  by (auto simp: append_unique_kind_def)

lemma compare_path_None_iff:
  assumes "compare_path complete k b r \<noteq> None"
  shows "compare_path complete k b r = Some None \<longleftrightarrow> unchanged b r"
  using assms
  by (cases b; cases r)
    (auto simp: compare_path_def unchanged_def compare_result_entry_empty Let_def split: option.splits if_splits sum.splits)

subsection \<open>The delta\<close>

definition delta_at :: "result_delta \<Rightarrow> repo_path_key \<Rightarrow> delta_entry option" where
  "delta_at d k = find (\<lambda>e. xd_path e = k) (xl_entries d)"

lemma compare_unfold:
  assumes "compare_result_manifest b r = Some d"
  shows "workspace_manifest_valid b" "result_manifest_valid r"
    "\<exists>ks. sorted_wrt (<) ks \<and> set ks = path_key ` (mf_path ` set (mn_entries b) \<union> oe_path ` set (om_entries r))
       \<and> (\<forall>k \<in> set ks. compare_path (om_complete r) k (entry_map mf_path (mn_entries b) k)
              (entry_map oe_path (om_entries r) k) \<noteq> None)
       \<and> xl_entries d = map the (filter (\<lambda>e. e \<noteq> None) (map (the \<circ> (\<lambda>k. compare_path (om_complete r) k
              (entry_map mf_path (mn_entries b) k) (entry_map oe_path (om_entries r) k))) ks))"
    "xl_version d = ResultSnapshotVersion" "xl_complete d = om_complete r" "xl_reason d = om_reason r"
    "xl_hash d = result_delta_hash d"
    "xl_candidates d = sort_candidates (append_unique_candidates (rename_candidates (xl_entries d))
       (copy_candidates (mn_entries b) (entry_map oe_path (om_entries r)) (xl_entries d)))"
proof -
  let ?f = "\<lambda>k. compare_path (om_complete r) k (entry_map mf_path (mn_entries b) k) (entry_map oe_path (om_entries r) k)"
  let ?ks = "sort (remdups (map (path_key \<circ> mf_path) (mn_entries b) @ map (path_key \<circ> oe_path) (om_entries r)))"
  show "workspace_manifest_valid b" "result_manifest_valid r"
    using assms by (simp_all add: compare_result_manifest_def split: if_splits)
  then obtain es where es: "compare_paths ?f ?ks = Some es" "xl_entries d = es"
    using assms by (auto simp: compare_result_manifest_def Let_def split: option.splits)
  have "sorted_wrt (<) ?ks" by (simp add: strict_sorted_iff)
  moreover have "set ?ks = path_key ` (mf_path ` set (mn_entries b) \<union> oe_path ` set (om_entries r))" by auto
  ultimately show "\<exists>ks. sorted_wrt (<) ks \<and> set ks = path_key ` (mf_path ` set (mn_entries b) \<union> oe_path ` set (om_entries r))
       \<and> (\<forall>k \<in> set ks. ?f k \<noteq> None) \<and> xl_entries d = map the (filter (\<lambda>e. e \<noteq> None) (map (the \<circ> ?f) ks))"
    using es unfolding compare_paths_eq by (intro exI [of _ ?ks]) (auto split: if_splits)
  show "xl_version d = ResultSnapshotVersion" "xl_complete d = om_complete r" "xl_reason d = om_reason r"
    "xl_hash d = result_delta_hash d"
    "xl_candidates d = sort_candidates (append_unique_candidates (rename_candidates (xl_entries d))
       (copy_candidates (mn_entries b) (entry_map oe_path (om_entries r)) (xl_entries d)))"
    using assms by (auto simp: compare_result_manifest_def Let_def result_delta_hash_def split: option.splits if_splits)
qed

lemma delta_paths_sorted:
  assumes "sorted_wrt (<) ks" "\<forall>k \<in> set ks. f k \<noteq> None" "\<And>k e. f k = Some (Some e) \<Longrightarrow> xd_path e = k"
  shows "sorted_wrt (<) (map xd_path (map the (filter (\<lambda>e. e \<noteq> None) (map (the \<circ> f) ks))))"
proof -
  have "map xd_path (map the (filter (\<lambda>e. e \<noteq> None) (map (the \<circ> f) ks)))
      = filter (\<lambda>k. the (f k) \<noteq> None) ks"
    using assms(2,3) by (induction ks) (auto split: option.splits)
  then show ?thesis using assms(1) by (simp add: sorted_wrt_filter)
qed

lemma delta_entries:
  assumes "compare_result_manifest b r = Some d"
  shows "e \<in> set (xl_entries d) \<longleftrightarrow>
      compare_path (om_complete r) (xd_path e) (entry_map mf_path (mn_entries b) (xd_path e))
        (entry_map oe_path (om_entries r) (xd_path e)) = Some (Some e)"
    "sorted_wrt (<) (map xd_path (xl_entries d))"
proof -
  let ?f = "\<lambda>k. compare_path (om_complete r) k (entry_map mf_path (mn_entries b) k) (entry_map oe_path (om_entries r) k)"
  obtain ks where ks: "sorted_wrt (<) ks" "set ks = path_key ` (mf_path ` set (mn_entries b) \<union> oe_path ` set (om_entries r))"
      "\<forall>k \<in> set ks. ?f k \<noteq> None" "xl_entries d = map the (filter (\<lambda>e. e \<noteq> None) (map (the \<circ> ?f) ks))"
    using compare_unfold(3) [OF assms] by blast
  have path: "\<And>k e. ?f k = Some (Some e) \<Longrightarrow> xd_path e = k" by (rule compare_path_entry(1))
  show "sorted_wrt (<) (map xd_path (xl_entries d))"
    unfolding ks(4) by (rule delta_paths_sorted [OF ks(1,3) path])
  show "e \<in> set (xl_entries d) \<longleftrightarrow> ?f (xd_path e) = Some (Some e)"
  proof
    assume "e \<in> set (xl_entries d)"
    then obtain k where "k \<in> set ks" "the (?f k) = Some e" unfolding ks(4) by auto
    with ks(3) have "?f k = Some (Some e)" by (metis option.collapse)
    with path show "?f (xd_path e) = Some (Some e)" by metis
  next
    assume e: "?f (xd_path e) = Some (Some e)"
    have "xd_path e \<in> set ks"
    proof (rule ccontr)
      assume "xd_path e \<notin> set ks"
      then have "entry_map mf_path (mn_entries b) (xd_path e) = None" "entry_map oe_path (om_entries r) (xd_path e) = None"
        unfolding ks(2) entry_map_None by auto
      with compare_path_entry(2,3,5) [OF e] show False by (simp add: delta_entry_valid_def)
    qed
    with e show "e \<in> set (xl_entries d)" unfolding ks(4) by force
  qed
qed

lemma delta_at_Some:
  assumes "compare_result_manifest b r = Some d"
  shows "delta_at d k = Some e \<longleftrightarrow>
    compare_path (om_complete r) k (entry_map mf_path (mn_entries b) k) (entry_map oe_path (om_entries r) k) = Some (Some e)"
proof
  assume "delta_at d k = Some e"
  then have "e \<in> set (xl_entries d)" "xd_path e = k" by (auto simp: delta_at_def dest: find_SomeD)
  then show "compare_path (om_complete r) k (entry_map mf_path (mn_entries b) k) (entry_map oe_path (om_entries r) k)
      = Some (Some e)"
    using delta_entries(1) [OF assms] by blast
next
  assume e: "compare_path (om_complete r) k (entry_map mf_path (mn_entries b) k) (entry_map oe_path (om_entries r) k)
      = Some (Some e)"
  then have path: "xd_path e = k" by (rule compare_path_entry(1))
  with e have "e \<in> set (xl_entries d)" using delta_entries(1) [OF assms] by blast
  moreover have "distinct (map xd_path (xl_entries d))"
    using delta_entries(2) [OF assms] by (simp add: strict_sorted_iff)
  ultimately show "delta_at d k = Some e"
  proof -
    obtain y where y: "delta_at d k = Some y"
      using \<open>e \<in> set (xl_entries d)\<close> path by (cases "delta_at d k") (auto simp: delta_at_def find_None_iff)
    then have "y \<in> set (xl_entries d)" "xd_path y = k" by (auto simp: delta_at_def dest: find_SomeD)
    with \<open>e \<in> set (xl_entries d)\<close> path \<open>distinct _\<close> have "y = e" by (auto simp: distinct_map inj_on_def)
    with y show ?thesis by simp
  qed
qed

lemma path_compared:
  assumes "compare_result_manifest b r = Some d"
    "entry_map mf_path (mn_entries b) k \<noteq> None \<or> entry_map oe_path (om_entries r) k \<noteq> None"
  shows "compare_path (om_complete r) k (entry_map mf_path (mn_entries b) k) (entry_map oe_path (om_entries r) k) \<noteq> None"
proof -
  obtain ks where "set ks = path_key ` (mf_path ` set (mn_entries b) \<union> oe_path ` set (om_entries r))"
      "\<forall>k \<in> set ks. compare_path (om_complete r) k (entry_map mf_path (mn_entries b) k)
         (entry_map oe_path (om_entries r) k) \<noteq> None"
    using compare_unfold(3) [OF assms(1)] by blast
  moreover have "k \<in> path_key ` (mf_path ` set (mn_entries b) \<union> oe_path ` set (om_entries r))"
    using assms(2) entry_map_None [of mf_path "mn_entries b" k] entry_map_None [of oe_path "om_entries r" k]
    by (metis image_Un UnI1 UnI2)
  ultimately show ?thesis by blast
qed

text \<open>Candidates lie between two different paths of the delta or the baseline.\<close>

lemma set_insert_candidate [simp]: "set (insert_candidate c cs) = insert c (set cs)"
  by (induction cs) auto

lemma set_sort_candidates [simp]: "set (sort_candidates cs) = set cs"
proof -
  have "set (foldl (\<lambda>acc c. insert_candidate c acc) acc cs) = set acc \<union> set cs" for acc
    by (induction cs arbitrary: acc) auto
  then show ?thesis by (simp add: sort_candidates_def)
qed

lemma set_append_unique [simp]: "set (append_unique_candidates vs cs) = set vs \<union> set cs"
proof -
  have "set (foldl (\<lambda>vs c. if c \<in> set vs then vs else vs @ [c]) vs cs) = set vs \<union> set cs"
    by (induction cs arbitrary: vs) auto
  then show ?thesis by (simp add: append_unique_candidates_def)
qed

lemma rename_candidate_between:
  assumes "c \<in> set (rename_candidates es)"
  obtains s t where "s \<in> set es" "t \<in> set es" "xc_source c = xd_path s" "xc_target c = xd_path t"
    "xd_baseline s \<noteq> None" "xd_baseline t = None"
  using assms by (fastforce simp: rename_candidates_def Let_def)

lemma copy_candidate_between:
  assumes "c \<in> set (copy_candidates base seen es)"
  obtains s t where "s \<in> set base" "t \<in> set es" "xc_source c = mf_path s" "xc_target c = xd_path t"
    "mf_path s \<noteq> xd_path t"
  using assms by (fastforce simp: copy_candidates_def path_key_def split: option.splits if_splits)

lemma candidates_valid:
  assumes "compare_result_manifest b r = Some d" "c \<in> set (xl_candidates d)"
  shows "rename_candidate_valid c"
proof -
  have valid: "delta_entry_valid e" if "e \<in> set (xl_entries d)" for e
    using delta_entries(1) [OF assms(1)] that compare_path_entry(5) by blast
  then have path: "valid_repo_path (xd_path e)" if "e \<in> set (xl_entries d)" for e
    using that by (simp add: delta_entry_valid_def)
  have "c \<in> set (rename_candidates (xl_entries d))
      \<or> c \<in> set (copy_candidates (mn_entries b) (entry_map oe_path (om_entries r)) (xl_entries d))"
    using assms(2) unfolding compare_unfold(8) [OF assms(1)] by simp
  then show ?thesis
  proof
    assume "c \<in> set (rename_candidates (xl_entries d))"
    then show ?thesis
    proof (rule rename_candidate_between)
      fix s t
      assume st: "s \<in> set (xl_entries d)" "t \<in> set (xl_entries d)" "xc_source c = xd_path s" "xc_target c = xd_path t"
        "xd_baseline s \<noteq> None" "xd_baseline t = None"
      have "xd_baseline e = entry_map mf_path (mn_entries b) (xd_path e)" if "e \<in> set (xl_entries d)" for e
        using delta_entries(1) [OF assms(1)] that compare_path_entry(2) by blast
      with st have "xd_path s \<noteq> xd_path t" by metis
      with st path show ?thesis by (simp add: rename_candidate_valid_def)
    qed
  next
    assume "c \<in> set (copy_candidates (mn_entries b) (entry_map oe_path (om_entries r)) (xl_entries d))"
    then show ?thesis
    proof (rule copy_candidate_between)
      fix s t
      assume st: "s \<in> set (mn_entries b)" "t \<in> set (xl_entries d)" "xc_source c = mf_path s" "xc_target c = xd_path t"
        "mf_path s \<noteq> xd_path t"
      then have "valid_repo_path (mf_path s)"
        using manifest_paths(2) [OF compare_unfold(1) [OF assms(1)]] by (simp add: manifest_entry_valid_def)
      with st path show ?thesis by (simp add: rename_candidate_valid_def)
    qed
  qed
qed

definition result_after :: "workspace_manifest \<Rightarrow> result_delta \<Rightarrow> repo_path_key \<Rightarrow> entry_view option" where
  "result_after b d k =
     (case delta_at d k of
        Some e \<Rightarrow> map_option result_view (xd_result e)
      | None \<Rightarrow> map_option manifest_view (entry_map mf_path (mn_entries b) k))"

lemma delta_at_None:
  assumes "compare_result_manifest b r = Some d"
  defines "base \<equiv> entry_map mf_path (mn_entries b)" and "seen \<equiv> entry_map oe_path (om_entries r)"
  shows "delta_at d k = None \<longleftrightarrow> base k = None \<and> seen k = None \<or> unchanged (base k) (seen k)"
proof (cases "base k = None \<and> seen k = None")
  case True
  then have "delta_at d k \<noteq> Some e" for e
    using delta_at_Some [OF assms(1)] compare_path_entry(2,3,5) unfolding base_def seen_def delta_entry_valid_def
    by metis
  then show ?thesis using True by auto
next
  case False
  then have some: "compare_path (om_complete r) k (base k) (seen k) \<noteq> None"
    using path_compared [OF assms(1), of k] by (auto simp: base_def seen_def)
  from compare_path_None_iff [OF this] have "delta_at d k = None \<longleftrightarrow> unchanged (base k) (seen k)"
    using delta_at_Some [OF assms(1), of k] some unfolding base_def seen_def
    by (metis option.exhaust option.inject option.simps(3))
  with False show ?thesis by auto
qed

lemma compare_exact_run:
  assumes "compare_result_manifest b r = Some d"
  defines "base \<equiv> entry_map mf_path (mn_entries b)" and "seen \<equiv> entry_map oe_path (om_entries r)"
  shows "result_delta_valid d
    \<and> (\<forall>k. delta_at d k = None \<longleftrightarrow> base k = None \<and> seen k = None \<or> unchanged (base k) (seen k))
    \<and> (\<forall>k e. delta_at d k = Some e \<longrightarrow> xd_path e = k \<and> xd_baseline e = base k \<and> xd_result e = seen k)
    \<and> result_after b d = map_option result_view \<circ> seen"
proof (intro conjI allI impI)
  have valid: "\<forall>e \<in> set (xl_entries d). delta_entry_valid e"
    using delta_entries(1) [OF assms(1)] compare_path_entry(5) by blast
  have "result_reason_valid (om_reason r)" using compare_unfold(2) [OF assms(1)] by (simp add: result_manifest_valid_def)
  then show "result_delta_valid d"
    using valid delta_entries(2) [OF assms(1)] candidates_valid [OF assms(1)] compare_unfold(4-7) [OF assms(1)]
    by (simp add: result_delta_valid_def list_all_iff valid_result_hash_def)
      (simp add: result_delta_hash_def)
  show at: "delta_at d k = None \<longleftrightarrow> base k = None \<and> seen k = None \<or> unchanged (base k) (seen k)" for k
    unfolding base_def seen_def by (rule delta_at_None [OF assms(1)])
  show entry: "xd_path e = k" "xd_baseline e = base k" "xd_result e = seen k" if "delta_at d k = Some e" for k e
    using that delta_at_Some [OF assms(1)] by (auto simp: base_def seen_def dest: compare_path_entry)
  show "result_after b d = map_option result_view \<circ> seen"
  proof
    fix k
    show "result_after b d k = (map_option result_view \<circ> seen) k"
      using at [of k] entry(3) [of k]
      by (cases "delta_at d k") (auto simp: result_after_def unchanged_def base_def split: option.splits)
  qed
qed

subsection \<open>The comparison always succeeds\<close>

lemma compare_path_total:
  assumes "b \<noteq> None \<or> r \<noteq> None" "opt_all manifest_entry_valid b" "opt_all result_entry_valid r" "valid_repo_path k"
  shows "compare_path True k b r \<noteq> None"
proof -
  have kinds: "list_all delta_kind_valid (compare_result_entry b r)" for b r
    by (simp add: compare_result_entry_def append_unique_kind_def delta_kind_valid_def Let_def)
  show ?thesis
  proof (cases b)
    case None
    then obtain r' where r: "r = Some r'" using assms(1) by auto
    show ?thesis using assms(3,4)
      by (simp add: None r compare_path_def Let_def delta_entry_valid_def delta_kind_valid_def append_unique_kind_def
          result_entry_valid_def)
  next
    case (Some b')
    show ?thesis
    proof (cases r)
      case None
      then show ?thesis using Some assms(2,4)
        by (simp add: compare_path_def Let_def delta_entry_valid_def delta_kind_valid_def result_reason_valid_def)
    next
      case r: (Some r')
      have valid: "manifest_entry_valid b'" "result_entry_valid r'" using assms(2,3) Some r by simp_all
      then have modes: "git_mode_ok (mf_mode b')" "oe_kind r' \<noteq> FileKindUnknown \<Longrightarrow> git_mode_ok (oe_mode r')"
          "oe_kind r' = FileKindUnknown \<Longrightarrow> \<not> oe_complete r' \<and> oe_mode r' = 0" "result_reason_valid (oe_reason r')"
        by (simp_all add: manifest_entry_valid_def result_entry_valid_def)
      have all_kinds: "list_all delta_kind_valid (append_unique_kind (compare_result_entry b' r') ResultDeltaUnsupported)"
        using kinds by (simp add: append_unique_kind_def delta_kind_valid_def)
      show ?thesis
      proof (cases "mf_mode b' \<noteq> oe_mode r' \<or> mf_kind b' \<noteq> oe_kind r'")
        case False
        then show ?thesis using assms(4) valid modes kinds all_kinds
          by (simp add: Some r compare_path_def Let_def delta_entry_valid_def)
      next
        case True
        show ?thesis
        proof (cases "new_mode_transition (mf_mode b') (oe_mode r')")
          case (Inl e)
          then have "\<not> git_mode_ok (oe_mode r')"
            using new_mode_transition_ok [of "mf_mode b'" "oe_mode r'"] modes(1) by simp
          with modes(2,3) have "oe_kind r' = FileKindUnknown" "\<not> oe_complete r'" by blast+
          then show ?thesis using True Inl assms(4) valid modes all_kinds
            by (simp add: Some r compare_path_def Let_def delta_entry_valid_def)
        next
          case (Inr t)
          then show ?thesis
            using True assms(4) valid modes kinds all_kinds new_mode_transition_valid [OF Inr]
              new_mode_transition_fields(1,2) [OF Inr]
            by (simp add: Some r compare_path_def Let_def delta_entry_valid_def)
        qed
      qed
    qed
  qed
qed

lemma compare_total_run:
  assumes "workspace_manifest_valid b" "result_manifest_valid r" "om_complete r"
  shows "\<exists>d. compare_result_manifest b r = Some d"
proof -
  let ?ks = "sort (remdups (map (path_key \<circ> mf_path) (mn_entries b) @ map (path_key \<circ> oe_path) (om_entries r)))"
  let ?f = "\<lambda>k. compare_path True k (entry_map mf_path (mn_entries b) k) (entry_map oe_path (om_entries r) k)"
  have "?f k \<noteq> None" if k: "k \<in> set ?ks" for k
  proof (rule compare_path_total)
    show "entry_map mf_path (mn_entries b) k \<noteq> None \<or> entry_map oe_path (om_entries r) k \<noteq> None"
      using k entry_map_None [of mf_path "mn_entries b" k] entry_map_None [of oe_path "om_entries r" k] by auto
    show "opt_all manifest_entry_valid (entry_map mf_path (mn_entries b) k)"
      "opt_all result_entry_valid (entry_map oe_path (om_entries r) k)"
      using manifest_paths [OF assms(1)] result_paths [OF assms(2)] by (auto simp: opt_all_iff entry_map_Some)
    show "valid_repo_path k"
      using k manifest_paths(2) [OF assms(1)] result_paths(2) [OF assms(2)]
      by (auto simp: path_key_def manifest_entry_valid_def result_entry_valid_def)
  qed
  then have "compare_paths ?f ?ks \<noteq> None" unfolding compare_paths_eq by simp
  then show ?thesis using assms by (auto simp: compare_result_manifest_def Let_def)
qed

subsection \<open>Manifests that the constructors make\<close>

lemma sort_key_again [simp]: "sort_key f (sort_key f xs) = sort_key f xs"
  by (rule sort_key_id_if_sorted) simp

lemma new_workspace_manifest_valid:
  assumes "new_workspace_manifest es = Some m"
  shows "workspace_manifest_valid m" "mn_entries m = sort_key mf_path es"
proof -
  show "workspace_manifest_valid m"
    using assms
    by (auto simp: workspace_manifest_valid_def new_workspace_manifest_def valid_workspace_hash_def
        workspace_manifest_hash_def Let_def split: option.splits if_splits)
  show "mn_entries m = sort_key mf_path es"
    using assms by (auto simp: new_workspace_manifest_def Let_def split: option.splits if_splits)
qed

lemma entry_reason_cases:
  "foldl entry_reason r es \<noteq> ResultReasonNone \<Longrightarrow> foldl entry_reason (foldl entry_reason r es) fs = foldl entry_reason r es"
  "foldl entry_reason r es = ResultReasonNone \<Longrightarrow> r = ResultReasonNone"
proof -
  have stays: "foldl entry_reason r fs = r" if "r \<noteq> ResultReasonNone" for r fs
    using that by (induction fs) (auto simp: entry_reason_def first_result_reason_def)
  show "foldl entry_reason (foldl entry_reason r es) fs = foldl entry_reason r es"
    if "foldl entry_reason r es \<noteq> ResultReasonNone" using that by (rule stays)
  show "r = ResultReasonNone" if "foldl entry_reason r es = ResultReasonNone" using stays that by metis
qed

lemma entry_reason_again: "foldl entry_reason (foldl entry_reason r es) es = foldl entry_reason r es"
  by (metis entry_reason_cases)

lemma entry_reason_valid:
  "result_reason_valid r \<Longrightarrow> list_all result_entry_valid es \<Longrightarrow> result_reason_valid (foldl entry_reason r es)"
  by (induction es arbitrary: r) (auto simp: entry_reason_def first_result_reason_def result_entry_valid_def)

lemma new_result_manifest_valid:
  assumes "new_result_manifest es v c reason = Some m"
  shows "result_manifest_valid m" "om_entries m = sort_key oe_path es" "om_complete m = c"
proof -
  define fs where "fs = sort_key oe_path es"
  obtain n where n: "add_bytes result_size 0 fs = Some n"
    and parts: "om_version m = ResultSnapshotVersion" "om_policy_version m = v" "om_entries m = fs" "om_complete m = c"
      "om_reason m = foldl entry_reason reason fs" "om_total_bytes m = n" "om_hash m = result_manifest_hash m"
    and checks: "v \<noteq> 0" "result_reason_valid reason" "c \<or> reason \<noteq> ResultReasonNone"
      "list_all result_entry_valid fs" "distinct_adj (map oe_path fs)"
    using assms
    by (auto simp: new_result_manifest_def result_manifest_hash_def fs_def Let_def split: option.splits if_splits)
  have sorted: "sort_key oe_path fs = fs" by (simp add: fs_def)
  have again: "foldl entry_reason (om_reason m) fs = om_reason m" by (simp add: parts(5) entry_reason_again)
  have reason: "om_reason m = ResultReasonNone \<Longrightarrow> reason = ResultReasonNone"
    unfolding parts(5) by (rule entry_reason_cases(2))
  have valid: "result_reason_valid (om_reason m)" using checks(2,4) parts(5) by (simp add: entry_reason_valid)
  have complete: "\<not> (\<not> c \<and> om_reason m = ResultReasonNone)" using checks(3) reason by blast
  obtain k where k: "new_result_manifest fs v c (om_reason m) = Some k" "om_hash k = om_hash m" "om_total_bytes k = n"
    using checks(1,4,5) valid complete again sorted n parts(1-5) parts(7)
    by (auto simp: new_result_manifest_def result_manifest_hash_def Let_def)
  have "valid_result_hash (om_hash m)"
    unfolding parts(7) by (simp add: valid_result_hash_def result_manifest_hash_def)
  then show "result_manifest_valid m"
    using checks(1) parts(1-4) parts(6) valid complete k by (simp add: result_manifest_valid_def)
  show "om_entries m = sort_key oe_path es" "om_complete m = c" using parts by (simp_all add: fs_def)
qed


subsection \<open>What a delta tells\<close>

text \<open>
  C14. Comparing a trusted baseline with an observed result. For valid manifests of a complete observation
  the comparison always succeeds. Whenever it succeeds, its delta passes the validation; a path is missing
  from it exactly if neither side has it or both have the same; an entry holds what both sides have at
  its path; and the delta applied to the baseline gives what was observed, at every path.
\<close>

theorem delta_exact:
  assumes "workspace_manifest_valid b" "result_manifest_valid r"
  defines "base \<equiv> entry_map mf_path (mn_entries b)" and "seen \<equiv> entry_map oe_path (om_entries r)"
  shows "(om_complete r \<longrightarrow> (\<exists>d. compare_result_manifest b r = Some d))
    \<and> (\<forall>d. compare_result_manifest b r = Some d \<longrightarrow>
        result_delta_valid d
        \<and> (\<forall>k. delta_at d k = None \<longleftrightarrow> base k = None \<and> seen k = None \<or> unchanged (base k) (seen k))
        \<and> (\<forall>k e. delta_at d k = Some e \<longrightarrow> xd_path e = k \<and> xd_baseline e = base k \<and> xd_result e = seen k)
        \<and> result_after b d = map_option result_view \<circ> seen)"
  using compare_total_run [OF assms(1,2)] compare_exact_run [of b r] unfolding base_def seen_def by blast

definition sample_file :: "bytes \<Rightarrow> bytes \<Rightarrow> manifest_entry" where
  "sample_file p data =
     \<lparr>mf_path = p, mf_kind = FileKindRegular, mf_mode = 33188, mf_bytes = length data, mf_sha256 = sha256_hex data,
      mf_content_class = NoContentClass, mf_text = None, mf_link_target = [], mf_symlink = None, mf_native_path = None\<rparr>"

definition sample_seen :: "bytes \<Rightarrow> bytes \<Rightarrow> result_entry" where
  "sample_seen p data =
     \<lparr>oe_path = p, oe_kind = FileKindRegular, oe_mode = 33188, oe_bytes = length data, oe_sha256 = sha256_hex data,
      oe_content_class = NoContentClass, oe_text = None, oe_link_target = [], oe_symlink = None,
      oe_native_identity_hash = sha256_hex p, oe_native_alias = None, oe_native_path = None, oe_review_only = None,
      oe_complete = True, oe_reason = ResultReasonNone\<rparr>"


lemma sample_order: "''a'' \<le> (''b''::bytes)" "''a'' \<le> (''c''::bytes)" "\<not> ''c'' \<le> (''a''::bytes)" "\<not> ''b'' \<le> (''a''::bytes)"
  by (simp_all add: less_char_def)

lemma sample_file_valid: "valid_repo_path p \<Longrightarrow> manifest_entry_valid (sample_file p data)"
  by (simp add: sample_file_def manifest_entry_valid_def git_mode_ok_iff repository_mode_kind_def classify_git_mode_def
      valid_workspace_hash_def)

lemma sample_seen_valid: "valid_repo_path p \<Longrightarrow> result_entry_valid (sample_seen p data)"
  by (simp add: sample_seen_def result_entry_valid_def git_mode_ok_iff result_mode_kind_def classify_git_mode_def
      valid_result_hash_def result_reason_valid_def)

lemma sample_paths: "valid_repo_path ''a''" "valid_repo_path ''b''" "valid_repo_path ''c''"
  by (simp_all add: valid_repo_path_def ctl_iff)

lemma sample_sorted:
  "sort_key mf_path [sample_file ''b'' x, sample_file ''a'' y] = [sample_file ''a'' y, sample_file ''b'' x]"
  "sort_key oe_path [sample_seen ''c'' x, sample_seen ''a'' y] = [sample_seen ''a'' y, sample_seen ''c'' x]"
  by (simp_all add: sample_file_def sample_seen_def sample_order)

lemma sample_manifests:
  "\<exists>b. new_workspace_manifest [sample_file ''b'' ''old'', sample_file ''a'' ''same''] = Some b"
  "\<exists>r. new_result_manifest [sample_seen ''c'' ''new'', sample_seen ''a'' ''same''] 1 True ResultReasonNone = Some r"
  unfolding new_workspace_manifest_def new_result_manifest_def sample_sorted Let_def
  by (simp_all add: sample_file_valid sample_seen_valid sample_paths result_reason_valid_def)
    (simp_all add: sample_file_def sample_seen_def manifest_size_def result_size_def)

theorem delta_exact_witness:
  "\<exists>b r d. mn_entries b = [sample_file ''a'' ''same'', sample_file ''b'' ''old'']
     \<and> om_entries r = [sample_seen ''a'' ''same'', sample_seen ''c'' ''new'']
     \<and> compare_result_manifest b r = Some d \<and> result_delta_valid d
     \<and> delta_at d ''a'' = None \<and> delta_at d ''b'' \<noteq> None \<and> delta_at d ''c'' \<noteq> None
     \<and> result_after b d ''b'' = None \<and> result_after b d ''c'' \<noteq> None"
proof -
  obtain b r where
    "new_workspace_manifest [sample_file ''b'' ''old'', sample_file ''a'' ''same''] = Some b"
    "new_result_manifest [sample_seen ''c'' ''new'', sample_seen ''a'' ''same''] 1 True ResultReasonNone = Some r"
    using sample_manifests by blast
  note b = new_workspace_manifest_valid [OF this(1), unfolded sample_sorted]
    and r = new_result_manifest_valid [OF this(2), unfolded sample_sorted]
  note exact = delta_exact [OF b(1) r(1)]
  obtain d where d: "compare_result_manifest b r = Some d" using exact r(3) by blast
  have at: "entry_map mf_path (mn_entries b) ''a'' = Some (sample_file ''a'' ''same'')"
    "entry_map oe_path (om_entries r) ''a'' = Some (sample_seen ''a'' ''same'')"
    "entry_map mf_path (mn_entries b) ''b'' = Some (sample_file ''b'' ''old'')"
    "entry_map oe_path (om_entries r) ''b'' = None"
    "entry_map mf_path (mn_entries b) ''c'' = None"
    "entry_map oe_path (om_entries r) ''c'' = Some (sample_seen ''c'' ''new'')"
    by (simp_all add: b(2) r(2) entry_map_def path_key_def sample_file_def sample_seen_def)
  have same: "unchanged (Some (sample_file ''a'' ''same'')) (Some (sample_seen ''a'' ''same''))"
    by (simp add: unchanged_def manifest_view_def result_view_def same_text_evidence_def sample_file_def sample_seen_def)
  have valid: "result_delta_valid d" using exact d by blast
  have none: "delta_at d k = None \<longleftrightarrow> entry_map mf_path (mn_entries b) k = None \<and> entry_map oe_path (om_entries r) k = None
      \<or> unchanged (entry_map mf_path (mn_entries b) k) (entry_map oe_path (om_entries r) k)" for k
    using exact d by blast
  have after: "result_after b d k = map_option result_view (entry_map oe_path (om_entries r) k)" for k
    using exact d by (metis comp_apply)
  show ?thesis
    by (rule exI [of _ b], rule exI [of _ r], rule exI [of _ d])
      (simp add: b(2) [symmetric] r(2) [symmetric] d valid none after at same unchanged_def [of _ None]
        unchanged_def [of None])
qed

end
