(* ===== verification/Proposal_Artifact.thy ===== *)
theory Proposal_Artifact
  imports Result_Manifest Patch_Index Resource_Policy Reducer
begin

text \<open>
  The patch of a proposal as an immutable artifact (\<^verbatim>\<open>internal/app/proposal_patch_artifact.go\<close>, with the
  identities of \<^verbatim>\<open>artifact_spool.go\<close>, the check of renames of \<^verbatim>\<open>derive_proposal.go\<close> and the range reader of
  \<^verbatim>\<open>apply_preflight.go\<close>): its review index, the cross-check of its files with the delta of the result, and
  bounded reads of its bytes.
\<close>

subsection \<open>Identities\<close>

datatype artifact_error =
    ErrInvalidProposalPatchArtifact | ErrProposalPatchArtifactNotReady | ErrProposalPatchArtifactNoChanges
  | ErrProposalPatchRangeInvalid | ErrRangeStale | ArtifactForeignError bytes

definition OwnerProposal :: bytes where "OwnerProposal = ''proposal''"

record spool_limits =
  sq_max_bytes :: nat
  sq_max_entries :: nat
  sq_max_path_bytes :: nat
  sq_max_manifest_bytes :: nat
  sq_buffer_bytes :: nat
  sq_check_every_bytes :: nat

definition spool_limits_valid :: "spool_limits \<Rightarrow> bool" where
  "spool_limits_valid l \<longleftrightarrow>
     \<not> (sq_max_bytes l = 0 \<or> sq_max_entries l = 0 \<or> sq_max_path_bytes l = 0 \<or> sq_max_manifest_bytes l = 0
        \<or> sq_buffer_bytes l = 0 \<or> sq_check_every_bytes l = 0 \<or> sq_buffer_bytes l > sq_max_bytes l
        \<or> sq_check_every_bytes l > sq_max_bytes l)"

record artifact_identity =
  ay_spool_id :: bytes
  ay_manifest_hash :: bytes
  ay_bytes :: nat
  ay_entries :: nat
  ay_complete :: bool
  ay_verified_at :: instant

definition artifact_identity_valid :: "artifact_identity \<Rightarrow> bool" where
  "artifact_identity_valid i \<longleftrightarrow>
     \<not> (ay_spool_id i = [] \<or> \<not> valid_app_sha256 (ay_manifest_hash i) \<or> \<not> ay_complete i
        \<or> is_zero_time (ay_verified_at i))"

record publish_target =
  pz_owner_kind :: bytes
  pz_relative_path :: bytes
  pz_source_relative_path :: bytes

record published_artifact =
  pu_identity :: artifact_identity
  pu_target :: publish_target
  pu_limits :: spool_limits

subsection \<open>Ranges\<close>

definition ProposalPatchRangeBytes :: nat where "ProposalPatchRangeBytes = 262144"

record range_request =
  pg_artifact_id :: bytes
  pg_published :: published_artifact
  pg_patch_sha256 :: bytes
  pg_patch_bytes :: nat
  pg_offset :: nat
  pg_max_bytes :: nat

definition range_request_valid :: "range_request \<Rightarrow> bool" where
  "range_request_valid r \<longleftrightarrow>
     \<not> (pg_artifact_id r = [] \<or> \<not> artifact_identity_valid (pu_identity (pg_published r))
        \<or> pz_owner_kind (pu_target (pg_published r)) \<noteq> OwnerProposal \<or> pg_patch_sha256 r = []
        \<or> \<not> valid_app_sha256 (pg_patch_sha256 r) \<or> pg_patch_bytes r = 0
        \<or> ay_bytes (pu_identity (pg_published r)) \<noteq> pg_patch_bytes r \<or> pg_max_bytes r = 0
        \<or> pg_max_bytes r > ProposalPatchRangeBytes \<or> pg_offset r > pg_patch_bytes r)"

record patch_range =
  gv_artifact_id :: bytes
  gv_patch_sha256 :: bytes
  gv_offset :: nat
  gv_length :: nat
  gv_sha256 :: bytes
  gv_bytes :: bytes
  gv_complete :: bool

definition patch_range_valid :: "range_request \<Rightarrow> patch_range \<Rightarrow> bool" where
  "patch_range_valid q r \<longleftrightarrow>
     \<not> (\<not> range_request_valid q \<or> gv_artifact_id r \<noteq> pg_artifact_id q \<or> gv_patch_sha256 r \<noteq> pg_patch_sha256 q
        \<or> gv_offset r \<noteq> pg_offset q \<or> gv_length r \<noteq> length (gv_bytes r) \<or> gv_length r > pg_max_bytes q
        \<or> gv_offset r > pg_patch_bytes q \<or> gv_length r > pg_patch_bytes q - gv_offset r
        \<or> \<not> valid_app_sha256 (gv_sha256 r) \<or> \<not> gv_complete r)
     \<and> sha256_hex (gv_bytes r) = gv_sha256 r"

text \<open>
  The reader hands out the bytes of successive ranges, and at the end compares the digest of all it has
  handed out. The answer to a range is a function of the request; \<open>Eof\<close> is the end of the stream.
\<close>

datatype 'a read_result = Delivered 'a | ReadFails artifact_error | Eof

record range_reader =
  gr_request :: range_request
  gr_offset :: nat
  gr_buffer :: bytes
  gr_hashed :: bytes
  gr_verified :: bool

definition fill_buffer ::
    "(range_request \<Rightarrow> (artifact_error, patch_range) result) \<Rightarrow> nat \<Rightarrow> range_reader
     \<Rightarrow> (artifact_error, range_reader) result" where
  "fill_buffer answer n r =
     (if gr_buffer r = [] \<and> gr_offset r < pg_patch_bytes (gr_request r)
      then
        (let q = (gr_request r)\<lparr>pg_offset := gr_offset r, pg_max_bytes := min n ProposalPatchRangeBytes\<rparr> in
         bind_result (answer q) (\<lambda>v.
           if \<not> patch_range_valid q v \<or> gv_offset v \<noteq> gr_offset r \<or> gv_length v = 0 then Inl ErrRangeStale
           else Inr (r\<lparr>gr_buffer := gv_bytes v, gr_offset := gr_offset r + gv_length v\<rparr>)))
      else Inr r)"

definition read_stream ::
    "(range_request \<Rightarrow> (artifact_error, patch_range) result) \<Rightarrow> nat \<Rightarrow> range_reader
     \<Rightarrow> range_reader \<times> bytes read_result" where
  "read_stream answer n r =
     (if n = 0 then (r, Delivered [])
      else
        (case fill_buffer answer n r of
           Inl e \<Rightarrow> (r, ReadFails e)
         | Inr r \<Rightarrow>
             if gr_buffer r = []
             then (if \<not> gr_verified r \<and> sha256_hex (gr_hashed r) \<noteq> pg_patch_sha256 (gr_request r)
                   then (r, ReadFails ErrRangeStale)
                   else (r\<lparr>gr_verified := True\<rparr>, Eof))
             else
               (let out = take n (gr_buffer r) in
                (r\<lparr>gr_buffer := drop n (gr_buffer r), gr_hashed := gr_hashed r @ out\<rparr>, Delivered out))))"

definition new_range_reader :: "range_request \<Rightarrow> range_reader" where
  "new_range_reader q = \<lparr>gr_request = q, gr_offset = 0, gr_buffer = [], gr_hashed = [], gr_verified = False\<rparr>"

subsection \<open>The review index\<close>

record review_hunk =
  vh_id :: bytes
  vh_offset :: int
  vh_length :: int
  vh_base_start :: int
  vh_base_count :: int
  vh_head_start :: int
  vh_head_count :: int
  vh_rows :: int
  vh_sha256 :: bytes

definition review_hunk_valid :: "int \<Rightarrow> int \<Rightarrow> review_hunk \<Rightarrow> bool" where
  "review_hunk_valid file_offset file_length h \<longleftrightarrow>
     \<not> (vh_id h = [] \<or> vh_offset h < file_offset \<or> vh_length h \<le> 0 \<or> vh_offset h > 2 ^ 63 - 1 - vh_length h
        \<or> vh_offset h + vh_length h > file_offset + file_length \<or> vh_base_start h < 0 \<or> vh_base_count h < 0
        \<or> vh_head_start h < 0 \<or> vh_head_count h < 0 \<or> vh_rows h < 0 \<or> \<not> valid_app_sha256 (vh_sha256 h))"

record review_file =
  vf_ordinal :: int
  vf_file :: changed_file
  vf_offset :: int
  vf_length :: int
  vf_header_length :: int
  vf_binary :: bool
  vf_binary_complete :: bool
  vf_binary_offset :: int
  vf_sha256 :: bytes
  vf_hunks :: "review_hunk list"

definition review_file_valid :: "int \<Rightarrow> review_file \<Rightarrow> bool" where
  "review_file_valid sz f \<longleftrightarrow>
     \<not> (vf_ordinal f < 0 \<or> \<not> changed_file_valid (vf_file f) \<or> vf_offset f < 0 \<or> vf_length f \<le> 0
        \<or> vf_offset f > sz \<or> vf_length f > sz - vf_offset f \<or> vf_header_length f \<le> 0
        \<or> vf_header_length f > vf_length f \<or> \<not> valid_app_sha256 (vf_sha256 f)
        \<or> vf_binary f \<noteq> cf_binary (vf_file f) \<or> vf_binary_complete f \<and> \<not> vf_binary f
        \<or> vf_binary f \<and> (vf_binary_offset f < vf_offset f \<or> vf_binary_offset f - vf_offset f \<ge> vf_length f)
        \<or> \<not> vf_binary f \<and> vf_binary_offset f \<noteq> 0)
     \<and> list_all (review_hunk_valid (vf_offset f) (vf_length f)) (vf_hunks f)"

record review_index =
  vi_version :: nat
  vi_source_id :: bytes
  vi_size :: int
  vi_patch_sha256 :: bytes
  vi_files :: "review_file list"
  vi_hunk_count :: int
  vi_row_count :: int
  vi_hash :: bytes
  vi_complete :: bool

definition ProposalReviewIndexVersion :: nat where "ProposalReviewIndexVersion = 1"

abbreviation digest_int :: "int \<Rightarrow> bytes" where
  "digest_int i \<equiv> digest_uint64 (of_int i)"

definition review_hunk_frame :: "review_hunk \<Rightarrow> bytes" where
  "review_hunk_frame h =
     digest_string (vh_id h) @ digest_int (vh_offset h) @ digest_int (vh_length h) @ digest_int (vh_base_start h)
     @ digest_int (vh_base_count h) @ digest_int (vh_head_start h) @ digest_int (vh_head_count h)
     @ digest_int (vh_rows h) @ digest_string (vh_sha256 h)"

definition path_frame :: "repo_path option \<Rightarrow> bytes" where
  "path_frame p = (case p of None \<Rightarrow> digest_uint64 0 | Some p \<Rightarrow> digest_string p)"

definition rename_fields :: "rename_evidence \<Rightarrow> bytes" where
  "rename_fields r =
     digest_nat (re_policy_version r) @ digest_nat (re_similarity_percent r)
     @ digest_string (change_kind_string (re_kind r)) @ digest_string (re_evidence_hash r)"

definition changed_file_frame :: "changed_file \<Rightarrow> bytes" where
  "changed_file_frame f =
     path_frame (cf_old_path f) @ path_frame (cf_new_path f) @ digest_string (change_kind_string (cf_kind f))
     @ digest_string (file_kind_text (cf_old_file_kind f)) @ digest_string (file_kind_text (cf_new_file_kind f))
     @ digest_nat (cf_old_mode f) @ digest_nat (cf_new_mode f)
     @ marked digest_bool mode_transition_fields (cf_mode_transition f)
     @ digest_string (content_class_text (cf_content_class f))
     @ marked digest_bool (text_fields digest_bool) (cf_old_text f)
     @ marked digest_bool (text_fields digest_bool) (cf_new_text f) @ digest_bool (cf_binary f)
     @ marked digest_bool rename_fields (cf_rename f)"

definition review_file_frame :: "review_file \<Rightarrow> bytes" where
  "review_file_frame f =
     digest_int (vf_ordinal f) @ changed_file_frame (vf_file f) @ digest_int (vf_offset f) @ digest_int (vf_length f)
     @ digest_int (vf_header_length f) @ digest_bool (vf_binary f) @ digest_bool (vf_binary_complete f)
     @ digest_int (vf_binary_offset f) @ digest_string (vf_sha256 f) @ concat (map review_hunk_frame (vf_hunks f))"

definition review_index_hash :: "review_index \<Rightarrow> bytes" where
  "review_index_hash i =
     sha256_hex (digest_nat (vi_version i) @ digest_string (vi_source_id i) @ digest_int (vi_size i)
       @ digest_string (vi_patch_sha256 i) @ digest_int (vi_hunk_count i) @ digest_int (vi_row_count i)
       @ digest_bool (vi_complete i) @ concat (map review_file_frame (vi_files i)))"

fun review_files_ok :: "int \<Rightarrow> int \<Rightarrow> int \<Rightarrow> review_file list \<Rightarrow> bool" where
  "review_files_ok size' ordinal previous_end [] = True"
| "review_files_ok size' ordinal previous_end (f # fs) =
     (\<not> (vf_ordinal f \<noteq> ordinal \<or> \<not> review_file_valid size' f \<or> vf_offset f < previous_end)
      \<and> review_files_ok size' (ordinal + 1) (vf_offset f + vf_length f) fs)"

definition review_rows :: "review_file list \<Rightarrow> int" where
  "review_rows fs = sum_list (map (\<lambda>f. sum_list (map vh_rows (vf_hunks f))) fs)"

definition review_index_valid :: "review_index \<Rightarrow> bool" where
  "review_index_valid i \<longleftrightarrow>
     \<not> (vi_version i \<noteq> ProposalReviewIndexVersion \<or> vi_source_id i = [] \<or> vi_size i \<le> 0
        \<or> \<not> valid_app_sha256 (vi_patch_sha256 i) \<or> \<not> valid_app_sha256 (vi_hash i) \<or> \<not> vi_complete i
        \<or> vi_hunk_count i < 0 \<or> vi_row_count i < 0)
     \<and> review_files_ok (vi_size i) 0 0 (vi_files i)
     \<and> \<not> (vi_files i = [] \<or> vi_hunk_count i \<noteq> sum_list (map (\<lambda>f. int (length (vf_hunks f))) (vi_files i))
          \<or> vi_row_count i \<noteq> review_rows (vi_files i) \<or> review_index_hash i \<noteq> vi_hash i)"

definition review_hunk_of :: "patch_hunk_index \<Rightarrow> review_hunk" where
  "review_hunk_of h =
     \<lparr>vh_id = ph_id h, vh_offset = ph_offset h, vh_length = ph_length h, vh_base_start = ph_base_start h,
      vh_base_count = ph_base_count h, vh_head_start = ph_head_start h, vh_head_count = ph_head_count h,
      vh_rows = ph_rows h, vh_sha256 = ph_sha256 h\<rparr>"

definition review_file_of :: "nat \<Rightarrow> patch_index_entry \<Rightarrow> review_file" where
  "review_file_of n e =
     \<lparr>vf_ordinal = int n, vf_file = pe_file e, vf_offset = pe_offset e, vf_length = pe_length e,
      vf_header_length = pe_header_length e, vf_binary = pe_binary e, vf_binary_complete = pe_binary_complete e,
      vf_binary_offset = pe_binary_offset e, vf_sha256 = pe_sha256 e, vf_hunks = map review_hunk_of (pe_hunks e)\<rparr>"

definition review_index_of :: "patch_index_identity \<Rightarrow> patch_index_entry list \<Rightarrow> review_index" where
  "review_index_of identity entries =
     (let i = \<lparr>vi_version = ProposalReviewIndexVersion, vi_source_id = pi_source_id identity,
               vi_size = pi_size identity, vi_patch_sha256 = pi_sha256 identity,
               vi_files = map (\<lambda>(n, e). review_file_of n e) (enumerate 0 entries),
               vi_hunk_count = pi_hunk_count identity, vi_row_count = pi_row_count identity, vi_hash = [],
               vi_complete = True\<rparr>
      in i\<lparr>vi_hash := review_index_hash i\<rparr>)"

definition new_review_index ::
    "patch_index_identity \<Rightarrow> patch_index_entry list \<Rightarrow> (artifact_error, review_index) result" where
  "new_review_index identity entries =
     (if review_index_valid (review_index_of identity entries) then Inr (review_index_of identity entries)
      else Inl ErrInvalidProposalPatchArtifact)"

end
