(* ===== verification/Artifact_Build.thy ===== *)
theory Artifact_Build
  imports Proposal_Artifact Session_Keys
begin

text \<open>
  How the artifact of a proposal's patch is built (\<^verbatim>\<open>internal/app/proposal_patch_artifact.go\<close> from the summary
  on): the files that the parser found in the published patch are checked against the delta of the observed
  result, side by side, before the artifact gets its identity.
\<close>

subsection \<open>Artifacts\<close>

record patch_summary =
  my_file_count :: nat
  my_hunk_count :: nat
  my_row_count :: nat
  my_binary_files :: nat
  my_patch_bytes :: nat

definition binary_files :: "review_file list \<Rightarrow> nat" where
  "binary_files fs = length (filter vf_binary fs)"

definition patch_summary_valid :: "review_index \<Rightarrow> patch_summary \<Rightarrow> bool" where
  "patch_summary_valid i s \<longleftrightarrow>
     \<not> (\<not> review_index_valid i \<or> my_file_count s \<noteq> length (vi_files i) \<or> my_hunk_count s \<noteq> nat (vi_hunk_count i)
        \<or> my_row_count s \<noteq> nat (vi_row_count i) \<or> my_patch_bytes s \<noteq> nat (vi_size i))
     \<and> my_binary_files s = binary_files (vi_files i)"

record proposal_artifact =
  px_version :: nat
  px_id :: bytes
  px_session_id :: review_session_id
  px_proposal_id :: proposal_id
  px_workspace_id :: workspace_id
  px_attempt_id :: operation_id
  px_thread_id :: review_thread_id
  px_baseline :: snapshot_identity
  px_result :: snapshot_identity
  px_baseline_snapshot_id :: bytes
  px_result_snapshot_id :: bytes
  px_patch_format_version :: nat
  px_rename_policy_version :: nat
  px_conversion_policy_version :: nat
  px_conversion_fingerprint :: bytes
  px_resource_policy_version :: nat
  px_published :: published_artifact
  px_patch_sha256 :: bytes
  px_index :: review_index
  px_summary :: patch_summary
  px_created_at :: instant

definition ProposalPatchArtifactVersion :: nat where "ProposalPatchArtifactVersion = 1"

definition ProposalPatchFormatVersion :: nat where "ProposalPatchFormatVersion = 1"

definition snapshot_frame :: "snapshot_identity \<Rightarrow> bytes" where
  "snapshot_frame s =
     digest_string (sn_id s) @ digest_string (snapshot_kind_string (sr_kind (sn_ref s)))
     @ digest_string (sr_object_id (sn_ref s)) @ digest_string (sr_worktree_id (sn_ref s))
     @ digest_string (sr_fingerprint (sn_ref s)) @ digest_string (sn_manifest_hash s)"

definition proposal_artifact_id :: "proposal_artifact \<Rightarrow> bytes" where
  "proposal_artifact_id a =
     ''proposal-patch-'' @ sha256_hex
       (digest_string (px_session_id a) @ digest_string (px_proposal_id a) @ digest_string (px_workspace_id a)
        @ digest_string (px_attempt_id a) @ digest_string (px_thread_id a) @ snapshot_frame (px_baseline a)
        @ snapshot_frame (px_result a) @ digest_string (px_baseline_snapshot_id a)
        @ digest_string (px_result_snapshot_id a) @ digest_nat (px_patch_format_version a)
        @ digest_nat (px_rename_policy_version a) @ digest_nat (px_conversion_policy_version a)
        @ digest_string (px_conversion_fingerprint a) @ digest_nat (px_resource_policy_version a)
        @ digest_string (ay_spool_id (pu_identity (px_published a))) @ digest_string (px_patch_sha256 a)
        @ digest_nat (ay_bytes (pu_identity (px_published a)))
        @ digest_string (ay_manifest_hash (pu_identity (px_published a))) @ digest_string (vi_hash (px_index a)))"

definition proposal_artifact_valid :: "proposal_artifact \<Rightarrow> bool" where
  "proposal_artifact_valid a \<longleftrightarrow>
     \<not> (px_version a \<noteq> ProposalPatchArtifactVersion \<or> px_id a = [] \<or> px_session_id a = [] \<or> px_proposal_id a = []
        \<or> px_workspace_id a = [] \<or> px_attempt_id a = [] \<or> px_thread_id a = []
        \<or> \<not> snapshot_identity_valid (px_baseline a) \<or> \<not> snapshot_identity_valid (px_result a)
        \<or> sn_id (px_baseline a) = sn_id (px_result a) \<or> px_baseline_snapshot_id a = []
        \<or> px_result_snapshot_id a = [] \<or> px_baseline_snapshot_id a = px_result_snapshot_id a
        \<or> px_patch_format_version a \<noteq> ProposalPatchFormatVersion \<or> px_rename_policy_version a = 0
        \<or> px_conversion_policy_version a = 0 \<or> px_resource_policy_version a = 0
        \<or> \<not> valid_app_sha256 (px_conversion_fingerprint a)
        \<or> \<not> artifact_identity_valid (pu_identity (px_published a)) \<or> ay_bytes (pu_identity (px_published a)) = 0
        \<or> pz_owner_kind (pu_target (px_published a)) \<noteq> OwnerProposal \<or> \<not> valid_app_sha256 (px_patch_sha256 a)
        \<or> \<not> review_index_valid (px_index a) \<or> \<not> patch_summary_valid (px_index a) (px_summary a)
        \<or> ay_bytes (pu_identity (px_published a)) \<noteq> nat (vi_size (px_index a))
        \<or> px_patch_sha256 a \<noteq> vi_patch_sha256 (px_index a) \<or> is_zero_time (px_created_at a))
     \<and> \<not> (vi_source_id (px_index a) = [] \<or> px_id a \<noteq> proposal_artifact_id a)"

definition new_proposal_artifact :: "proposal_artifact \<Rightarrow> (artifact_error, proposal_artifact) result" where
  "new_proposal_artifact v =
     (let v = (if px_version v = 0 then v\<lparr>px_version := ProposalPatchArtifactVersion\<rparr> else v);
          v = (if px_id v = [] then v\<lparr>px_id := proposal_artifact_id v\<rparr> else v)
      in if \<not> proposal_artifact_valid v then Inl ErrInvalidProposalPatchArtifact else Inr v)"

subsection \<open>One side of a file\<close>

definition patch_mode_kind :: "nat \<Rightarrow> file_kind" where
  "patch_mode_kind mode =
     (case classify_git_mode mode of
        ModeRegularNonExecutable \<Rightarrow> FileKindRegular
      | ModeRegularExecutable \<Rightarrow> FileKindRegular
      | ModeSymlink \<Rightarrow> FileKindSymlink
      | ModeGitlink \<Rightarrow> FileKindGitlink
      | ModeTree \<Rightarrow> FileKindDirectory
      | _ \<Rightarrow> FileKindUnknown)"

definition patch_mode_matches :: "nat \<Rightarrow> nat \<Rightarrow> file_kind \<Rightarrow> bool" where
  "patch_mode_matches manifest_mode patch_mode kind \<longleftrightarrow>
     manifest_mode = patch_mode \<and> git_mode_ok manifest_mode \<and> git_mode_ok patch_mode
     \<and> patch_mode_kind manifest_mode = kind \<and> patch_mode_kind patch_mode = kind"

type_synonym delta_map = "repo_path_key \<Rightarrow> delta_entry option"

definition baseline_side_is :: "delta_entry \<Rightarrow> file_kind \<Rightarrow> nat \<Rightarrow> bool" where
  "baseline_side_is e kind mode =
     (case xd_baseline e of None \<Rightarrow> False | Some b \<Rightarrow> mf_kind b = kind \<and> patch_mode_matches (mf_mode b) mode kind)"

definition result_side_is :: "delta_entry \<Rightarrow> file_kind \<Rightarrow> nat \<Rightarrow> bool" where
  "result_side_is e kind mode =
     (case xd_result e of None \<Rightarrow> False | Some r \<Rightarrow> oe_kind r = kind \<and> patch_mode_matches (oe_mode r) mode kind)"

definition consume_side ::
    "delta_map \<Rightarrow> repo_path_key list \<Rightarrow> repo_path \<Rightarrow> bool \<Rightarrow> file_kind \<Rightarrow> nat \<Rightarrow> repo_path_key list option" where
  "consume_side delta consumed p old kind mode =
     (case delta (path_key p) of
        None \<Rightarrow> None
      | Some e \<Rightarrow>
          if path_key p \<in> set consumed then None
          else if (if old then \<not> baseline_side_is e kind mode else \<not> result_side_is e kind mode) then None
          else Some (path_key p # consumed))"

definition manifest_side_matches :: "manifest_entry list \<Rightarrow> repo_path \<Rightarrow> file_kind \<Rightarrow> nat \<Rightarrow> bool" where
  "manifest_side_matches entries p kind mode =
     (case find (\<lambda>e. mf_path e = p) entries of
        None \<Rightarrow> False
      | Some e \<Rightarrow> mf_kind e = kind \<and> patch_mode_matches (mf_mode e) mode kind)"

text \<open>What a delta knows of the content of a side: nothing if it does not have the side.\<close>

definition side_content ::
    "delta_map \<Rightarrow> repo_path \<Rightarrow> bool \<Rightarrow> (content_class \<times> text_semantics option) option" where
  "side_content delta p old =
     (case delta (path_key p) of
        None \<Rightarrow> None
      | Some e \<Rightarrow>
          if old then map_option (\<lambda>b. (mf_content_class b, mf_text b)) (xd_baseline e)
          else map_option (\<lambda>r. (oe_content_class r, oe_text r)) (xd_result e))"

definition side_check ::
    "(content_class \<times> text_semantics option \<Rightarrow> bool) \<Rightarrow> delta_map \<Rightarrow> repo_path option \<Rightarrow> bool \<Rightarrow> file_kind \<Rightarrow> bool" where
  "side_check ok delta p old kind =
     (case p of
        None \<Rightarrow> True
      | Some p \<Rightarrow>
          if kind \<noteq> FileKindRegular then True
          else (case side_content delta p old of None \<Rightarrow> False | Some c \<Rightarrow> ok c))"

definition text_semantics_ready :: "delta_map \<Rightarrow> changed_file \<Rightarrow> bool" where
  "text_semantics_ready delta f \<longleftrightarrow>
     (let ok = (\<lambda>(c, t). c \<noteq> ContentClassRegularTextUTF8 \<or> t \<noteq> None) in
      side_check ok delta (cf_old_path f) True (cf_old_file_kind f)
      \<and> side_check ok delta (cf_new_path f) False (cf_new_file_kind f))"

definition binary_classes_ready :: "delta_map \<Rightarrow> changed_file \<Rightarrow> bool" where
  "binary_classes_ready delta f \<longleftrightarrow>
     \<not> (cf_old_path f \<noteq> None \<and> cf_old_file_kind f \<noteq> FileKindRegular
        \<or> cf_new_path f \<noteq> None \<and> cf_new_file_kind f \<noteq> FileKindRegular)
     \<and> is_byte_oriented (cf_content_class f)
     \<and> (let ok = (\<lambda>(c, t). is_byte_oriented c) in
        side_check ok delta (cf_old_path f) True (cf_old_file_kind f)
        \<and> side_check ok delta (cf_new_path f) False (cf_new_file_kind f))"

definition rename_matches_delta :: "result_delta \<Rightarrow> changed_file \<Rightarrow> nat \<Rightarrow> bool" where
  "rename_matches_delta d f policy =
     (case (cf_old_path f, cf_new_path f, cf_rename f) of
        (Some old, Some new', Some evidence) \<Rightarrow>
          if re_policy_version evidence \<noteq> policy \<or> \<not> rename_matches_paths evidence old new' then False
          else
            (let old_entry = entry_map xd_path (xl_entries d) (path_key old);
                 new_entry = entry_map xd_path (xl_entries d) (path_key new')
             in case new_entry of
                  None \<Rightarrow> False
                | Some n \<Rightarrow>
                    if xd_baseline n \<noteq> None \<or> xd_result n = None then False
                    else (case old_entry of
                            None \<Rightarrow> False
                          | Some e \<Rightarrow>
                              if cf_kind f = ChangeRenamed then xd_baseline e \<noteq> None \<and> xd_result e = None
                              else xd_baseline e \<noteq> None \<and> xd_result e \<noteq> None))
      | _ \<Rightarrow> False)"

subsection \<open>The cross-check\<close>

definition same_path_ok :: "delta_map \<Rightarrow> repo_path_key list \<Rightarrow> changed_file \<Rightarrow> repo_path \<Rightarrow> bool" where
  "same_path_ok delta consumed f p \<longleftrightarrow>
     (case delta (path_key p) of
        None \<Rightarrow> False
      | Some e \<Rightarrow>
          baseline_side_is e (cf_old_file_kind f) (cf_old_mode f)
          \<and> result_side_is e (cf_new_file_kind f) (cf_new_mode f))
     \<and> path_key p \<notin> set consumed"

text \<open>What the paths of one file consume, or an error.\<close>

definition consume_file ::
    "workspace_manifest \<Rightarrow> result_delta \<Rightarrow> delta_map \<Rightarrow> nat \<Rightarrow> repo_path_key list \<Rightarrow> changed_file
     \<Rightarrow> repo_path_key list option" where
  "consume_file baseline d delta policy consumed f =
     (let old_side = (\<lambda>c p. consume_side delta c p True (cf_old_file_kind f) (cf_old_mode f));
          new_side = (\<lambda>c p. consume_side delta c p False (cf_new_file_kind f) (cf_new_mode f))
      in case (cf_old_path f, cf_new_path f) of
           (Some old, Some new') \<Rightarrow>
             if cf_kind f = ChangeRenamed \<or> cf_kind f = ChangeCopied
             then
               (if \<not> rename_matches_delta d f policy then None
                else if cf_kind f = ChangeRenamed
                then (case old_side consumed old of None \<Rightarrow> None | Some c \<Rightarrow> new_side c new')
                else
                  (case new_side consumed new' of
                     None \<Rightarrow> None
                   | Some c \<Rightarrow>
                       if manifest_side_matches (mn_entries baseline) old (cf_old_file_kind f) (cf_old_mode f)
                       then Some c else None))
             else if old = new' then (if same_path_ok delta consumed f old then Some (path_key old # consumed) else None)
             else (case old_side consumed old of None \<Rightarrow> None | Some c \<Rightarrow> new_side c new')
         | (Some old, None) \<Rightarrow> old_side consumed old
         | (None, Some new') \<Rightarrow> new_side consumed new'
         | (None, None) \<Rightarrow> Some consumed)"

fun cross_check_files ::
    "workspace_manifest \<Rightarrow> result_delta \<Rightarrow> delta_map \<Rightarrow> nat \<Rightarrow> repo_path_key list \<Rightarrow> patch_index_entry list
     \<Rightarrow> (artifact_error, repo_path_key list) result" where
  "cross_check_files baseline d delta policy consumed [] = Inr consumed"
| "cross_check_files baseline d delta policy consumed (e # es) =
     (if \<not> patch_index_entry_valid e then Inl ErrInvalidProposalPatchArtifact
      else if cf_binary (pe_file e) \<and> \<not> pe_binary_complete e then Inl ErrProposalPatchArtifactNotReady
      else if cf_binary (pe_file e) \<and> \<not> binary_classes_ready delta (pe_file e)
      then Inl ErrProposalPatchArtifactNotReady
      else if \<not> cf_binary (pe_file e) \<and> \<not> text_semantics_ready delta (pe_file e)
      then Inl ErrProposalPatchArtifactNotReady
      else
        (case consume_file baseline d delta policy consumed (pe_file e) of
           None \<Rightarrow> Inl ErrInvalidProposalPatchArtifact
         | Some c \<Rightarrow> cross_check_files baseline d delta policy c es))"

definition delta_ready :: "delta_entry \<Rightarrow> bool" where
  "delta_ready e \<longleftrightarrow> \<not> (\<not> delta_entry_valid e \<or> \<not> xd_complete e \<or> xd_reason e \<noteq> ResultReasonNone)"

definition cross_check ::
    "workspace_manifest \<Rightarrow> result_delta \<Rightarrow> patch_index_entry list \<Rightarrow> nat \<Rightarrow> (artifact_error, unit) result" where
  "cross_check baseline d entries policy =
     (if \<not> list_all delta_ready (xl_entries d) then Inl ErrProposalPatchArtifactNotReady
      else
        bind_result
          (cross_check_files baseline d (entry_map xd_path (xl_entries d)) policy [] entries) (\<lambda>consumed.
           if length consumed \<noteq> card (path_key ` xd_path ` set (xl_entries d))
           then Inl ErrInvalidProposalPatchArtifact else Inr ()))"

subsection \<open>Building\<close>

record build_input =
  bi_source :: "patch_source option"
  bi_published :: published_artifact
  bi_baseline :: workspace_manifest
  bi_result :: result_snapshot
  bi_patch_format_version :: nat
  bi_rename_policy_version :: nat
  bi_conversion_policy_version :: nat
  bi_conversion_fingerprint :: bytes
  bi_patch_sha256 :: bytes
  bi_policy :: resource_policy
  bi_session_id :: review_session_id
  bi_proposal_id :: proposal_id
  bi_workspace_id :: workspace_id
  bi_attempt_id :: operation_id
  bi_thread_id :: review_thread_id
  bi_created_at :: instant

definition build_input_ok :: "build_input \<Rightarrow> bool" where
  "build_input_ok i \<longleftrightarrow>
     \<not> (bi_source i = None \<or> \<not> resource_policy_valid (bi_policy i) \<or> \<not> workspace_manifest_valid (bi_baseline i)
        \<or> \<not> result_snapshot_valid (bi_result i) \<or> rz_state (bi_result i) \<noteq> ResultSnapshotReady
        \<or> \<not> artifact_identity_valid (pu_identity (bi_published i))
        \<or> pz_owner_kind (pu_target (bi_published i)) \<noteq> OwnerProposal
        \<or> ay_bytes (pu_identity (bi_published i)) = 0 \<or> \<not> valid_app_sha256 (bi_patch_sha256 i)
        \<or> bi_patch_format_version i \<noteq> ProposalPatchFormatVersion \<or> bi_rename_policy_version i = 0
        \<or> bi_conversion_policy_version i = 0 \<or> \<not> valid_app_sha256 (bi_conversion_fingerprint i)
        \<or> bi_session_id i = [] \<or> bi_proposal_id i = [] \<or> bi_workspace_id i = [] \<or> bi_attempt_id i = []
        \<or> bi_thread_id i = [] \<or> is_zero_time (bi_created_at i))"

definition artifact_limits_of :: "resource_policy \<Rightarrow> patch_limits" where
  "artifact_limits_of p =
     default_patch_limits
       \<lparr>pl_max_patch_bytes := sint (ar_complete_patch_bytes (rp_artifact p)),
        pl_max_file_bytes := sint (ar_proposal_file_bytes (rp_artifact p)),
        pl_max_binary_bytes := sint (ar_proposal_file_bytes (rp_artifact p)),
        pl_max_files := sint (ar_proposal_files (rp_artifact p))\<rparr>"

definition expected_delta :: "build_input \<Rightarrow> (artifact_error, result_delta) result" where
  "expected_delta i =
     (case compare_result_manifest (bi_baseline i) (rz_manifest (bi_result i)) of
        None \<Rightarrow> Inl ErrInvalidProposalPatchArtifact
      | Some d \<Rightarrow>
          if xl_entries d = [] then Inl ErrProposalPatchArtifactNoChanges
          else if xl_hash d \<noteq> xl_hash (rz_delta (bi_result i)) \<or> \<not> xl_complete d
          then Inl ErrInvalidProposalPatchArtifact
          else Inr d)"

definition artifact_of_index :: "build_input \<Rightarrow> review_index \<Rightarrow> proposal_artifact" where
  "artifact_of_index i index =
     (let a = \<lparr>px_version = ProposalPatchArtifactVersion, px_id = [], px_session_id = bi_session_id i,
               px_proposal_id = bi_proposal_id i, px_workspace_id = bi_workspace_id i,
               px_attempt_id = bi_attempt_id i, px_thread_id = bi_thread_id i,
               px_baseline = rz_baseline (bi_result i), px_result = rz_result (bi_result i),
               px_baseline_snapshot_id = sn_id (rz_baseline (bi_result i)),
               px_result_snapshot_id = rz_id (bi_result i), px_patch_format_version = bi_patch_format_version i,
               px_rename_policy_version = bi_rename_policy_version i,
               px_conversion_policy_version = bi_conversion_policy_version i,
               px_conversion_fingerprint = bi_conversion_fingerprint i,
               px_resource_policy_version = resource_policy.rp_version (bi_policy i), px_published = bi_published i,
               px_patch_sha256 = bi_patch_sha256 i, px_index = index,
               px_summary = \<lparr>my_file_count = length (vi_files index), my_hunk_count = nat (vi_hunk_count index),
                 my_row_count = nat (vi_row_count index), my_binary_files = binary_files (vi_files index),
                 my_patch_bytes = nat (vi_size index)\<rparr>,
               px_created_at = bi_created_at i\<rparr>
      in a\<lparr>px_id := proposal_artifact_id a\<rparr>)"

definition build_artifact :: "go_context \<Rightarrow> build_input \<Rightarrow> (artifact_error, proposal_artifact) result" where
  "build_artifact ctx i =
     (if ctx = NilContext \<or> \<not> build_input_ok i then Inl ErrInvalidProposalPatchArtifact
      else if mn_hash (bi_baseline i) \<noteq> sn_manifest_hash (rz_baseline (bi_result i))
              \<or> ps_size (the (bi_source i)) \<noteq> sint (of_nat (ay_bytes (pu_identity (bi_published i))) :: u64)
      then Inl ErrInvalidProposalPatchArtifact
      else
        bind_result (expected_delta i) (\<lambda>d.
          case build_patch_index ctx (bi_source i) (artifact_limits_of (bi_policy i)) (Some memory_sink) [] of
            (_, Inl _) \<Rightarrow> Inl ErrInvalidProposalPatchArtifact
          | (entries, Inr identity) \<Rightarrow>
              if pi_size identity \<noteq> ps_size (the (bi_source i)) \<or> pi_sha256 identity \<noteq> bi_patch_sha256 i
              then Inl ErrInvalidProposalPatchArtifact
              else
                bind_result (cross_check (bi_baseline i) d entries (bi_rename_policy_version i)) (\<lambda>_.
                bind_result (new_review_index identity entries) (\<lambda>index.
                  if proposal_artifact_valid (artifact_of_index i index) then Inr (artifact_of_index i index)
                  else Inl ErrInvalidProposalPatchArtifact))))"

end
