(* ===== verification/Proposal_Derivation.thy ===== *)
theory Proposal_Derivation
  imports Artifact_Build
begin

text \<open>
  How a proposal version is derived from an observed result and the artifact of its patch
  (\<^verbatim>\<open>internal/app/derive_proposal.go\<close>): the artifact must cover the delta, the destination must still have
  the baseline at every touched path, and each file of the patch becomes a proposed file.
\<close>

datatype derive_error =
    ErrProposalPublicationInvalid | ErrProposalPublicationNotReady | ErrProposalPublicationStale
  | ErrProposalPublicationConflict | ErrProposalPublicationNoChanges

subsection \<open>Identities\<close>

record derivation_input =
  di_aggregate :: proposal_aggregate
  di_attempt_id :: operation_id
  di_snapshot :: result_snapshot
  di_artifact :: proposal_artifact
  di_destination :: destination_constraints
  di_preconditions :: "path_precondition list"
  di_created_at :: instant

definition attempt_of :: "proposal_aggregate \<Rightarrow> operation_id \<Rightarrow> proposal_attempt option" where
  "attempt_of a i = find (\<lambda>t. at_id t = i) (ag_attempts a)"

definition same_provenance :: "generation_provenance \<Rightarrow> generation_provenance \<Rightarrow> bool" where
  "same_provenance l r \<longleftrightarrow>
     \<not> (gp_session_id l \<noteq> gp_session_id r \<or> gp_generation l \<noteq> gp_generation r \<or> gp_base l \<noteq> gp_base r
        \<or> gp_head l \<noteq> gp_head r)
     \<and> gp_capture_id l = gp_capture_id r"

definition publication_identity ::
    "proposal_aggregate \<Rightarrow> proposal_attempt \<Rightarrow> result_snapshot \<Rightarrow> (derive_error, unit) result" where
  "publication_identity a t s =
     (if rz_session_id s \<noteq> pw_session_id (ag_workspace a) \<or> rz_proposal_id s \<noteq> pr_id (ag_proposal a)
         \<or> rz_workspace_id s \<noteq> pw_id (ag_workspace a) \<or> rz_thread_id s \<noteq> pr_thread_id (ag_proposal a)
         \<or> rz_worktree_id s \<noteq> pw_worktree_id (ag_workspace a)
         \<or> \<not> same_provenance (at_source_generation t) (pi_confirmed_against (ag_intent a))
      then Inl ErrProposalPublicationInvalid
      else if \<not> opt_all (\<lambda>b. b = rz_baseline s) (at_baseline t) \<or> \<not> opt_all (\<lambda>r. r = rz_result s) (at_result t)
      then Inl ErrProposalPublicationConflict
      else Inr ())"

definition artifact_identity_matches :: "proposal_artifact \<Rightarrow> result_snapshot \<Rightarrow> proposal_attempt \<Rightarrow> bool" where
  "artifact_identity_matches a s t \<longleftrightarrow>
     \<not> (px_session_id a \<noteq> rz_session_id s \<or> px_proposal_id a \<noteq> rz_proposal_id s
        \<or> px_workspace_id a \<noteq> rz_workspace_id s \<or> px_attempt_id a \<noteq> rz_attempt_id s
        \<or> px_thread_id a \<noteq> rz_thread_id s \<or> px_baseline a \<noteq> rz_baseline s \<or> px_result a \<noteq> rz_result s
        \<or> px_baseline_snapshot_id a \<noteq> sn_id (rz_baseline s) \<or> px_result_snapshot_id a \<noteq> rz_id s
        \<or> gp_session_id (at_source_generation t) \<noteq> rz_session_id s)"

subsection \<open>Coverage\<close>

text \<open>The paths of the delta that one file covers, or nothing if it does not agree with the delta.\<close>

definition cover_old :: "delta_map \<Rightarrow> changed_file \<Rightarrow> repo_path_key list option" where
  "cover_old delta f =
     (case cf_old_path f of
        None \<Rightarrow> Some []
      | Some p \<Rightarrow>
          (case delta (path_key p) of
             None \<Rightarrow> if cf_kind f \<noteq> ChangeCopied then None else Some []
           | Some e \<Rightarrow>
               if \<not> baseline_side_is e (cf_old_file_kind f) (cf_old_mode f) then None else Some [path_key p]))"

definition cover_new :: "delta_map \<Rightarrow> changed_file \<Rightarrow> repo_path_key list option" where
  "cover_new delta f =
     (case cf_new_path f of
        None \<Rightarrow> if cf_kind f \<noteq> ChangeDeleted then None else Some []
      | Some p \<Rightarrow>
          (case delta (path_key p) of
             None \<Rightarrow> None
           | Some e \<Rightarrow>
               if \<not> result_side_is e (cf_new_file_kind f) (cf_new_mode f) then None else Some [path_key p]))"

definition cover_file :: "result_delta \<Rightarrow> delta_map \<Rightarrow> nat \<Rightarrow> changed_file \<Rightarrow> repo_path_key list option" where
  "cover_file d delta policy f =
     (if \<not> changed_file_valid f then None
      else if (cf_kind f = ChangeRenamed \<or> cf_kind f = ChangeCopied) \<and> \<not> rename_matches_delta d f policy then None
      else
        (case (cover_old delta f, cover_new delta f) of
           (Some old, Some new') \<Rightarrow> Some (old @ new')
         | _ \<Rightarrow> None))"

fun cover_files ::
    "result_delta \<Rightarrow> delta_map \<Rightarrow> nat \<Rightarrow> repo_path_key list \<Rightarrow> changed_file list \<Rightarrow> repo_path_key list option" where
  "cover_files d delta policy covered [] = Some covered"
| "cover_files d delta policy covered (f # fs) =
     (case cover_file d delta policy f of
        None \<Rightarrow> None
      | Some ks \<Rightarrow> cover_files d delta policy (covered @ ks) fs)"

definition artifact_covers :: "proposal_artifact \<Rightarrow> result_delta \<Rightarrow> (derive_error, unit) result" where
  "artifact_covers a d =
     (if \<not> list_all delta_ready (xl_entries d) then Inl ErrProposalPublicationNotReady
      else
        (case cover_files d (entry_map xd_path (xl_entries d)) (px_rename_policy_version a) []
                (map vf_file (vi_files (px_index a))) of
           None \<Rightarrow> Inl ErrProposalPublicationInvalid
         | Some covered \<Rightarrow>
             if card (set covered) \<noteq> card (path_key ` xd_path ` set (xl_entries d))
             then Inl ErrProposalPublicationInvalid else Inr ()))"

subsection \<open>Preconditions\<close>

definition no_precondition :: "repo_path \<Rightarrow> path_precondition" where
  "no_precondition p =
     \<lparr>pp_path = p, pp_must_exist = False, pp_kind = FileKindOther [], pp_mode = 0, pp_content_bytes = 0,
      pp_content_hash = [], pp_content_class = NoContentClass, pp_text_semantics = None,
      pp_symlink_target_hash = [], pp_symlink_evidence = None, pp_native_alias = None, pp_native_path = None\<rparr>"

definition baseline_precondition :: "delta_entry \<Rightarrow> path_precondition" where
  "baseline_precondition e =
     (case xd_baseline e of
        None \<Rightarrow> no_precondition (xd_path e)
      | Some b \<Rightarrow>
          (let v = (no_precondition (xd_path e))\<lparr>pp_must_exist := True, pp_kind := mf_kind b, pp_mode := mf_mode b,
                     pp_native_path := mf_native_path b\<rparr>
           in case mf_kind b of
                FileKindRegular \<Rightarrow>
                  (let v = v\<lparr>pp_content_hash := mf_sha256 b\<rparr> in
                   if mf_content_class b \<noteq> NoContentClass
                   then v\<lparr>pp_content_bytes := mf_bytes b, pp_content_class := mf_content_class b,
                          pp_text_semantics := mf_text b\<rparr>
                   else v)
              | FileKindSymlink \<Rightarrow>
                  v\<lparr>pp_symlink_target_hash := sha256_hex (mf_link_target b), pp_symlink_evidence := mf_symlink b\<rparr>
              | _ \<Rightarrow> v))"

definition precondition_matches :: "path_precondition \<Rightarrow> path_precondition \<Rightarrow> bool" where
  "precondition_matches actual want \<longleftrightarrow>
     \<not> (path_key (pp_path actual) \<noteq> path_key (pp_path want) \<or> pp_must_exist actual \<noteq> pp_must_exist want
        \<or> pp_kind actual \<noteq> pp_kind want \<or> pp_mode actual \<noteq> pp_mode want
        \<or> pp_content_hash actual \<noteq> pp_content_hash want
        \<or> pp_symlink_target_hash actual \<noteq> pp_symlink_target_hash want)
     \<and> \<not> (pp_native_path actual \<noteq> pp_native_path want \<or> pp_symlink_evidence actual \<noteq> pp_symlink_evidence want)
     \<and> (pp_content_class want \<noteq> NoContentClass \<longrightarrow>
          pp_content_bytes actual = pp_content_bytes want \<and> pp_content_class actual = pp_content_class want
          \<and> pp_text_semantics actual = pp_text_semantics want)"

text \<open>The expectations of the delta, with the sources of copies that it does not contain.\<close>

fun expect_sources ::
    "result_delta \<Rightarrow> (repo_path_key \<times> path_precondition) list \<Rightarrow> changed_file list
     \<Rightarrow> (derive_error, (repo_path_key \<times> path_precondition) list) result" where
  "expect_sources d expected [] = Inr expected"
| "expect_sources d expected (f # fs) =
     (if \<not> changed_file_valid f then Inl ErrProposalPublicationInvalid
      else
        (case cf_old_path f of
           Some old \<Rightarrow>
             if cf_kind f \<noteq> ChangeCopied \<or> map_of expected (path_key old) \<noteq> None then expect_sources d expected fs
             else
               (case find (\<lambda>e. path_key (xd_path e) = path_key old) (xl_entries d) of
                  None \<Rightarrow> Inl ErrProposalPublicationStale
                | Some e \<Rightarrow>
                    if xd_baseline e = None then Inl ErrProposalPublicationStale
                    else expect_sources d (AList.update (path_key old) (baseline_precondition e) expected) fs)
         | None \<Rightarrow> expect_sources d expected fs))"

definition derive_preconditions ::
    "result_delta \<Rightarrow> changed_file list \<Rightarrow> path_precondition list
     \<Rightarrow> (derive_error, path_precondition list) result" where
  "derive_preconditions d fs observed =
     (if \<not> unique_paths path_precondition_valid pp_path {} observed then Inl ErrProposalPublicationInvalid
      else
        bind_result
          (expect_sources d
             (foldl (\<lambda>m e. AList.update (path_key (xd_path e)) (baseline_precondition e) m) [] (xl_entries d)) fs)
          (\<lambda>expected.
           let actual = (\<lambda>k. find (\<lambda>p. path_key (pp_path p) = k) observed) in
           if list_all (\<lambda>(k, want). opt_all (\<lambda>v. precondition_matches v want) (actual k) \<and> actual k \<noteq> None) expected
           then Inr (sort_key pp_path (map (\<lambda>(k, want). the (actual k)) expected))
           else Inl ErrProposalPublicationStale))"

subsection \<open>Proposed files\<close>

definition no_proposed_file :: proposed_file where
  "no_proposed_file =
     \<lparr>pf_path = [], pf_old_path = None, pf_old_kind = FileKindOther [], pf_kind = FileKindOther [], pf_old_mode = 0,
      pf_mode = 0, pf_mode_transition = None, pf_symlink = None, pf_content_bytes = 0, pf_content_hash = [],
      pf_old_content_bytes = 0, pf_old_content_hash = [], pf_content_class = NoContentClass,
      pf_old_content_class = NoContentClass, pf_text = None, pf_old_text = None, pf_added = False,
      pf_deleted = False, pf_copied = False, pf_type_changed = False, pf_binary = False\<rparr>"

text \<open>The new side, the old side, and the flags; the order is that of the code.\<close>

definition set_new_side :: "delta_map \<Rightarrow> changed_file \<Rightarrow> proposed_file \<Rightarrow> proposed_file option" where
  "set_new_side delta f v =
     (case (cf_new_path f, cf_old_path f) of
        (Some p, _) \<Rightarrow>
          (let v = v\<lparr>pf_path := p, pf_kind := cf_new_file_kind f, pf_mode := cf_new_mode f\<rparr> in
           Some (case Option.bind (delta (path_key p)) xd_result of
             None \<Rightarrow> v
           | Some r \<Rightarrow>
               v\<lparr>pf_content_bytes := oe_bytes r, pf_content_hash := oe_sha256 r,
                 pf_content_class := oe_content_class r, pf_text := oe_text r, pf_symlink := oe_symlink r\<rparr>))
      | (None, Some p) \<Rightarrow> Some (v\<lparr>pf_path := p, pf_deleted := True\<rparr>)
      | (None, None) \<Rightarrow> None)"

definition set_old_side :: "delta_map \<Rightarrow> changed_file \<Rightarrow> proposed_file \<Rightarrow> proposed_file" where
  "set_old_side delta f v =
     (case (cf_old_path f, cf_new_path f) of
        (Some p, Some _) \<Rightarrow>
          (let v = v\<lparr>pf_old_path := Some p, pf_old_kind := cf_old_file_kind f, pf_old_mode := cf_old_mode f\<rparr>;
               baseline = Option.bind (delta (path_key p)) xd_baseline;
               observed = Option.bind (delta (path_key p)) xd_result;
               v = (case baseline of
                      None \<Rightarrow> v
                    | Some b \<Rightarrow>
                        v\<lparr>pf_old_content_bytes := mf_bytes b, pf_old_content_class := mf_content_class b,
                          pf_old_text := mf_text b\<rparr>)
           in if cf_kind f \<noteq> ChangeCopied then v
              else
                (case (observed, baseline) of
                   (Some r, _) \<Rightarrow>
                     v\<lparr>pf_old_content_bytes := oe_bytes r, pf_old_content_hash := oe_sha256 r,
                       pf_old_content_class := oe_content_class r, pf_old_text := oe_text r\<rparr>
                 | (None, Some b) \<Rightarrow>
                     v\<lparr>pf_old_content_bytes := mf_bytes b, pf_old_content_hash := mf_sha256 b,
                       pf_old_content_class := mf_content_class b, pf_old_text := mf_text b\<rparr>
                 | (None, None) \<Rightarrow> v))
      | _ \<Rightarrow> v)"

definition set_flags :: "changed_file \<Rightarrow> proposed_file \<Rightarrow> proposed_file" where
  "set_flags f v =
     (let v = v\<lparr>pf_added := (cf_kind f = ChangeAdded \<or> cf_kind f = ChangeUntracked),
                pf_copied := (cf_kind f = ChangeCopied), pf_type_changed := (cf_kind f = ChangeTypeChanged)\<rparr>;
          v = (if cf_kind f = ChangeDeleted
               then v\<lparr>pf_deleted := True, pf_kind := FileKindUnknown, pf_mode := 0, pf_content_hash := []\<rparr> else v);
          v = (if pf_added v \<and> pf_old_path v \<noteq> None then v\<lparr>pf_added := False\<rparr> else v)
      in if pf_deleted v
         then v\<lparr>pf_old_path := None, pf_old_kind := FileKindUnknown, pf_old_mode := 0, pf_old_content_bytes := 0,
                pf_old_content_hash := [], pf_old_content_class := NoContentClass, pf_old_text := None\<rparr>
         else v)"

definition derive_file :: "delta_map \<Rightarrow> review_file \<Rightarrow> proposed_file option" where
  "derive_file delta i =
     (let f = vf_file i in
      if \<not> changed_file_valid f then None
      else
        (case set_new_side delta f (no_proposed_file\<lparr>pf_binary := vf_binary i, pf_mode_transition := cf_mode_transition f\<rparr>) of
           None \<Rightarrow> None
         | Some v \<Rightarrow>
             (let v = set_flags f (set_old_side delta f v) in if \<not> proposed_file_valid v then None else Some v)))"

fun derive_files :: "delta_map \<Rightarrow> review_file list \<Rightarrow> proposed_file list option" where
  "derive_files delta [] = Some []"
| "derive_files delta (i # is) =
     (case derive_file delta i of
        None \<Rightarrow> None
      | Some v \<Rightarrow> map_option (Cons v) (derive_files delta is))"

subsection \<open>The derivation\<close>

definition broader_scope :: "result_delta \<Rightarrow> repo_path list \<Rightarrow> bool" where
  "broader_scope d expected \<longleftrightarrow> \<not> list_all (\<lambda>e. path_key (xd_path e) \<in> path_key ` set expected) (xl_entries d)"

definition next_version :: "proposal_aggregate \<Rightarrow> version_number option" where
  "next_version a =
     (let highest = foldl max 0 (map pv_version (ag_versions a));
          highest = (case pr_current_version (ag_proposal a) of None \<Rightarrow> highest | Some c \<Rightarrow> max highest c)
      in if highest = 2 ^ 64 - 1 then None else Some (highest + 1))"

definition artifact_reference :: "proposal_artifact \<Rightarrow> patch_artifact" where
  "artifact_reference a =
     \<lparr>pa_artifact_id = px_id a, pa_spool_id = ay_spool_id (pu_identity (px_published a)),
      pa_manifest_hash = ay_manifest_hash (pu_identity (px_published a)),
      pa_patch_format_version = px_patch_format_version a, pa_rename_policy_version = px_rename_policy_version a,
      pa_conversion_policy_version = px_conversion_policy_version a, pa_patch_sha256 = px_patch_sha256 a,
      pa_patch_bytes = my_patch_bytes (px_summary a), pa_index_hash = vi_hash (px_index a),
      pa_file_count = my_file_count (px_summary a), pa_hunk_count = my_hunk_count (px_summary a),
      pa_row_count = my_row_count (px_summary a), pa_binary_files = my_binary_files (px_summary a)\<rparr>"

definition proposalPatchFormat :: bytes where "proposalPatchFormat = ''git-binary-v1''"

definition derived_patch ::
    "derivation_input \<Rightarrow> proposal_attempt \<Rightarrow> version_number \<Rightarrow> proposed_file list \<Rightarrow> path_precondition list
     \<Rightarrow> proposed_patch" where
  "derived_patch i t version files preconditions =
     (let a = di_aggregate i; s = di_snapshot i;
          broader = broader_scope (rz_delta s) (pi_expected_paths (ag_intent a))
      in \<lparr>pv_proposal_id = pr_id (ag_proposal a), pv_workspace_id = pw_id (ag_workspace a),
          pv_thread_id = pr_thread_id (ag_proposal a), pv_attempt_id = at_id t, pv_provider_conversation_ref = [],
          pv_provider_turn_ref = rz_provider_turn_ref s, pv_source_generation = at_source_generation t,
          pv_baseline = rz_baseline s, pv_result = rz_result s, pv_destination = di_destination i,
          pv_version = version, pv_patch_format = proposalPatchFormat, pv_patch_bytes = [],
          pv_patch_sha256 = px_patch_sha256 (di_artifact i), pv_artifact = artifact_reference (di_artifact i),
          pv_files = files, pv_preconditions = preconditions,
          pv_scope = (if broader then ProposalScopeBroader else ProposalScopeFocused),
          pv_scope_reason =
            (if broader then ''derived patch includes paths outside the confirmed request scope''
             else ''within confirmed request scope''),
          pv_status = ProposalVersionReady,
          pv_status_reason = ''complete immutable patch and preconditions verified'',
          pv_status_changed_at = None, pv_created_at = di_created_at i\<rparr>)"

definition derive_proposal :: "derivation_input \<Rightarrow> (derive_error, proposed_patch) result" where
  "derive_proposal i =
     (let a = di_aggregate i; s = di_snapshot i; x = di_artifact i; fs = vi_files (px_index x) in
      if \<not> aggregate_valid a \<or> di_attempt_id i = [] \<or> \<not> result_snapshot_valid s
         \<or> \<not> destination_valid (di_destination i) \<or> is_zero_time (di_created_at i)
      then Inl ErrProposalPublicationInvalid
      else
        (case attempt_of a (di_attempt_id i) of
           None \<Rightarrow> Inl ErrProposalPublicationConflict
         | Some t \<Rightarrow>
             if at_outcome t \<noteq> ProposalAttemptDeriving then Inl ErrProposalPublicationConflict
             else
               bind_result (publication_identity a t s) (\<lambda>_.
               if rz_state s \<noteq> ResultSnapshotReady then Inl ErrProposalPublicationNotReady
               else if xl_entries (rz_delta s) = [] then Inl ErrProposalPublicationNoChanges
               else if \<not> proposal_artifact_valid x then Inl ErrProposalPublicationNotReady
               else if \<not> artifact_identity_matches x s t then Inl ErrProposalPublicationInvalid
               else
                 bind_result (artifact_covers x (rz_delta s)) (\<lambda>_.
                 bind_result (derive_preconditions (rz_delta s) (map vf_file fs) (di_preconditions i)) (\<lambda>ps.
                 case derive_files (entry_map xd_path (xl_entries (rz_delta s))) fs of
                   None \<Rightarrow> Inl ErrProposalPublicationInvalid
                 | Some files \<Rightarrow>
                     (case next_version a of
                        None \<Rightarrow> Inl ErrProposalPublicationConflict
                      | Some version \<Rightarrow>
                          if proposed_patch_valid (derived_patch i t version files ps)
                          then Inr (derived_patch i t version files ps)
                          else Inl ErrProposalPublicationInvalid))))))"

end
