(* ===== verification/Artifact_Facts.thy ===== *)
theory Artifact_Facts
  imports Artifact_Build Result_Facts Patch_Entries Transcript_Runs
begin

text \<open>
  What the cross-check of a patch with the delta of a result establishes, and that reading a published patch
  in ranges yields exactly the bytes that were approved.
\<close>

subsection \<open>Reading a patch in ranges\<close>

text \<open>A consumer calls the reader again and again; the store may answer each call differently.\<close>

fun read_calls ::
    "((range_request \<Rightarrow> (artifact_error, patch_range) result) \<times> nat) list \<Rightarrow> range_reader \<Rightarrow> bytes read_result list" where
  "read_calls [] r = []"
| "read_calls ((answer, n) # cs) r = (case read_stream answer n r of (r', out) \<Rightarrow> out # read_calls cs r')"

fun delivered :: "bytes read_result \<Rightarrow> bytes" where
  "delivered (Delivered b) = b"
| "delivered _ = []"

definition reader_inv :: "range_request \<Rightarrow> range_reader \<Rightarrow> bool" where
  "reader_inv q r \<longleftrightarrow>
     gr_request r = q \<and> length (gr_hashed r @ gr_buffer r) = gr_offset r \<and> gr_offset r \<le> pg_patch_bytes q
     \<and> (gr_verified r \<longrightarrow> gr_buffer r = [] \<and> gr_offset r = pg_patch_bytes q
          \<and> sha256_hex (gr_hashed r) = pg_patch_sha256 q)"

lemma fill_buffer_inv:
  assumes "reader_inv q r" "fill_buffer answer n r = Inr r'"
  shows "reader_inv q r'" "gr_hashed r' = gr_hashed r"
    "gr_buffer r' = [] \<Longrightarrow> gr_offset r' = pg_patch_bytes q \<and> gr_verified r' = gr_verified r"
    "gr_verified r \<Longrightarrow> r' = r"
  using assms
  by (auto simp: fill_buffer_def reader_inv_def patch_range_valid_def Let_def bind_result_def
      split: if_splits sum.splits)

lemma read_stream_inv:
  assumes "reader_inv q r" "read_stream answer n r = (r', out)"
  shows "reader_inv q r' \<and> gr_hashed r' = gr_hashed r @ delivered out
    \<and> (out = Eof \<longrightarrow> gr_verified r') \<and> (gr_verified r \<longrightarrow> gr_verified r' \<and> delivered out = [])"
proof (cases "n = 0")
  case True
  then show ?thesis using assms by (auto simp: read_stream_def)
next
  case False
  show ?thesis
  proof (cases "fill_buffer answer n r")
    case (Inl e)
    then show ?thesis using assms False by (auto simp: read_stream_def)
  next
    case (Inr s)
    note fill = fill_buffer_inv [OF assms(1) Inr]
    show ?thesis
      using assms(2) fill False Inr
      by (cases "gr_buffer s = []")
        (auto simp: read_stream_def reader_inv_def Let_def split: if_splits)
  qed
qed

lemma read_calls_inv:
  assumes "reader_inv q r" "Eof \<in> set (read_calls cs r) \<or> gr_verified r"
  shows "sha256_hex (gr_hashed r @ concat (map delivered (read_calls cs r))) = pg_patch_sha256 q
    \<and> length (gr_hashed r @ concat (map delivered (read_calls cs r))) = pg_patch_bytes q"
  using assms
proof (induction cs arbitrary: r)
  case Nil
  then show ?case by (auto simp: reader_inv_def)
next
  case (Cons c cs)
  obtain answer n where c: "c = (answer, n)" by (cases c)
  obtain r' out where step: "read_stream answer n r = (r', out)" by (cases "read_stream answer n r")
  note inv = read_stream_inv [OF Cons.prems(1) step]
  have "Eof \<in> set (read_calls cs r') \<or> gr_verified r'" using Cons.prems(2) inv by (auto simp: c step)
  from Cons.IH [OF _ this] inv show ?case by (simp add: c step)
qed

lemma new_range_reader_inv: "reader_inv q (new_range_reader q)"
  by (simp add: reader_inv_def new_range_reader_def)

lemma patch_stream_exact_run:
  assumes "Eof \<in> set (read_calls cs (new_range_reader q))"
  shows "sha256_hex (concat (map delivered (read_calls cs (new_range_reader q)))) = pg_patch_sha256 q
    \<and> length (concat (map delivered (read_calls cs (new_range_reader q)))) = pg_patch_bytes q"
  using read_calls_inv [OF new_range_reader_inv, of cs q] assms by (simp add: new_range_reader_def)

text \<open>A store that has the patch answers every valid request with the slice that it asks for.\<close>

definition store_answer :: "bytes \<Rightarrow> range_request \<Rightarrow> (artifact_error, patch_range) result" where
  "store_answer content q =
     (let part = take (pg_max_bytes q) (drop (pg_offset q) content) in
      Inr \<lparr>gv_artifact_id = pg_artifact_id q, gv_patch_sha256 = pg_patch_sha256 q, gv_offset = pg_offset q,
           gv_length = length part, gv_sha256 = sha256_hex part, gv_bytes = part, gv_complete = True\<rparr>)"

definition request_for :: "bytes \<Rightarrow> range_request \<Rightarrow> bool" where
  "request_for content q \<longleftrightarrow>
     content \<noteq> [] \<and> length content = pg_patch_bytes q \<and> sha256_hex content = pg_patch_sha256 q
     \<and> pg_artifact_id q \<noteq> [] \<and> artifact_identity_valid (pu_identity (pg_published q))
     \<and> pz_owner_kind (pu_target (pg_published q)) = OwnerProposal
     \<and> ay_bytes (pu_identity (pg_published q)) = pg_patch_bytes q"

definition stream_inv :: "bytes \<Rightarrow> range_request \<Rightarrow> range_reader \<Rightarrow> bool" where
  "stream_inv content q r \<longleftrightarrow>
     reader_inv q r \<and> gr_hashed r @ gr_buffer r = take (gr_offset r) content"

lemma fill_buffer_store:
  assumes "request_for content q" "stream_inv content q r" "n > 0"
  shows "\<exists>r'. fill_buffer (store_answer content) n r = Inr r' \<and> stream_inv content q r' \<and> gr_hashed r' = gr_hashed r
    \<and> (gr_buffer r' = [] \<longrightarrow> gr_offset r' = length content)"
proof (cases "gr_buffer r = [] \<and> gr_offset r < pg_patch_bytes (gr_request r)")
  case False
  then show ?thesis
    using assms by (auto simp: fill_buffer_def stream_inv_def reader_inv_def request_for_def)
next
  case True
  define k where "k = min n ProposalPatchRangeBytes"
  define part where "part = take k (drop (gr_offset r) content)"
  have k: "0 < k" "k \<le> ProposalPatchRangeBytes" using assms(3) by (simp_all add: k_def ProposalPatchRangeBytes_def)
  have off: "gr_request r = q" "gr_offset r < length content" "length content = pg_patch_bytes q"
    using True assms(1,2) by (auto simp: stream_inv_def reader_inv_def request_for_def)
  then have part: "part \<noteq> []" "length part \<le> k" "length part \<le> length content - gr_offset r"
    using k(1) by (auto simp: part_def)
  have lenpart: "length part = min (pg_patch_bytes q - gr_offset r) k" by (simp add: part_def off(3))
  have sha: "valid_app_sha256 (pg_patch_sha256 q)" "pg_patch_sha256 q \<noteq> []"
    using assms(1) sha256_app [of content] sha256_hex_not_Nil [of content]
    unfolding request_for_def by metis+
  let ?r = "r\<lparr>gr_buffer := part, gr_offset := gr_offset r + length part\<rparr>"
  have "fill_buffer (store_answer content) n r = Inr ?r"
    using True off part k sha assms(1)
    using lenpart
    by (simp add: fill_buffer_def store_answer_def k_def [symmetric] part_def [symmetric] patch_range_valid_def
        range_request_valid_def request_for_def Let_def)
  moreover have "take (length part) (drop (gr_offset r) content) = part"
    by (simp add: part_def min_def)
  then have "take (gr_offset r) content @ part = take (gr_offset r + length part) content"
    by (simp add: take_add)
  ultimately show ?thesis
    using True off part(1) part(3) assms(2) unfolding stream_inv_def reader_inv_def
    by (intro exI [of _ ?r]) simp
qed

lemma read_stream_store:
  assumes "request_for content q" "stream_inv content q r" "n > 0"
    "read_stream (store_answer content) n r = (r', out)"
  shows "stream_inv content q r' \<and> (if length (gr_hashed r) < length content then delivered out \<noteq> [] else out = Eof)"
proof -
  obtain s where s: "fill_buffer (store_answer content) n r = Inr s" "stream_inv content q s"
      "gr_hashed s = gr_hashed r" "gr_buffer s = [] \<longrightarrow> gr_offset s = length content"
    using fill_buffer_store [OF assms(1-3)] by blast
  have len: "gr_offset s = length (gr_hashed s) + length (gr_buffer s)" "gr_offset s \<le> length content"
    using s(2) assms(1) by (auto simp: stream_inv_def reader_inv_def request_for_def)
  show ?thesis
  proof (cases "gr_buffer s = []")
    case True
    then have "gr_hashed s = content" using s(2,4) by (simp add: stream_inv_def)
    then show ?thesis
      using assms True s len by (auto simp: read_stream_def request_for_def stream_inv_def reader_inv_def)
  next
    case False
    then have "length (gr_hashed r) < length content" using s(3) len by (cases "gr_buffer s") auto
    then show ?thesis
      using assms(3,4) False s len
      by (auto simp: read_stream_def Let_def stream_inv_def reader_inv_def)
  qed
qed

lemma read_calls_verified:
  assumes "reader_inv q r" "gr_verified r"
  shows "concat (map delivered (read_calls cs r)) = []"
  using assms
proof (induction cs arbitrary: r)
  case (Cons c cs)
  obtain answer n where c: "c = (answer, n)" by (cases c)
  obtain r' out where step: "read_stream answer n r = (r', out)" by (cases "read_stream answer n r")
  from read_stream_inv [OF Cons.prems(1) step] Cons.prems(2) Cons.IH [of r'] show ?case by (simp add: c step)
qed simp

lemma read_calls_store:
  assumes "request_for content q" "stream_inv content q r" "list_all (\<lambda>n. n > 0) ns"
    "length content < length (gr_hashed r) + length ns"
  shows "Eof \<in> set (read_calls (map (Pair (store_answer content)) ns) r)
    \<and> gr_hashed r @ concat (map delivered (read_calls (map (Pair (store_answer content)) ns) r)) = content"
  using assms(2-4)
proof (induction ns arbitrary: r)
  case Nil
  then have "length (gr_hashed r) \<le> length content"
    using assms(1) by (auto simp: stream_inv_def reader_inv_def request_for_def)
  with Nil show ?case by simp
next
  case (Cons n ns)
  obtain r' out where step: "read_stream (store_answer content) n r = (r', out)"
    by (cases "read_stream (store_answer content) n r")
  have inv: "reader_inv q r" and n: "n > 0" using Cons.prems by (simp_all add: stream_inv_def)
  note hashed = read_stream_inv [OF inv step] and stored = read_stream_store [OF assms(1) Cons.prems(1) n step]
  show ?case
  proof (cases "length (gr_hashed r) < length content")
    case True
    with stored have "delivered out \<noteq> []" by simp
    then have "length (gr_hashed r) < length (gr_hashed r')" using hashed by simp
    then have "length content < length (gr_hashed r') + length ns" using Cons.prems(3) by simp
    with Cons.IH [of r'] stored Cons.prems(2) hashed show ?thesis by (simp add: step)
  next
    case False
    with stored have out: "out = Eof" by simp
    then have "concat (map delivered (read_calls cs r')) = []" for cs
      using read_calls_verified [of q r'] hashed by simp
    moreover have "gr_hashed r = content"
    proof -
      have "gr_hashed r @ gr_buffer r = take (gr_offset r) content" "gr_offset r \<le> length content"
        using Cons.prems(1) assms(1) by (auto simp: stream_inv_def reader_inv_def request_for_def)
      with False show ?thesis
        by (metis append.right_neutral append_eq_append_conv append_take_drop_id le_less_linear length_append
            length_take min.absorb2 not_less take_all trans_le_add1 append_eq_conv_conj take_take)
    qed
    ultimately show ?thesis by (simp add: step out)
  qed
qed

subsection \<open>The cross-check\<close>

text \<open>The paths of the delta that a file accounts for. The source of a copy is not one of them.\<close>

definition file_paths :: "changed_file \<Rightarrow> repo_path list" where
  "file_paths f =
     (case (cf_old_path f, cf_new_path f) of
        (Some p, Some q) \<Rightarrow> if cf_kind f = ChangeCopied then [q] else if p = q \<and> cf_kind f \<noteq> ChangeRenamed then [p] else [p, q]
      | (Some p, None) \<Rightarrow> [p]
      | (None, Some q) \<Rightarrow> [q]
      | (None, None) \<Rightarrow> [])"

fun patch_paths :: "patch_index_entry list \<Rightarrow> repo_path list" where
  "patch_paths [] = []"
| "patch_paths (e # es) = file_paths (pe_file e) @ patch_paths es"

lemma patch_paths_eq: "patch_paths es = concat (map (\<lambda>e. file_paths (pe_file e)) es)"
  by (induction es) simp_all

definition side_agrees :: "delta_map \<Rightarrow> (delta_entry \<Rightarrow> file_kind \<Rightarrow> nat \<Rightarrow> bool) \<Rightarrow> repo_path \<Rightarrow> file_kind \<Rightarrow> nat \<Rightarrow> bool" where
  "side_agrees delta is p kind mode \<longleftrightarrow> (\<exists>e. delta (path_key p) = Some e \<and> is e kind mode)"

definition file_agrees ::
    "workspace_manifest \<Rightarrow> result_delta \<Rightarrow> nat \<Rightarrow> delta_map \<Rightarrow> changed_file \<Rightarrow> bool" where
  "file_agrees baseline d policy delta f \<longleftrightarrow>
     opt_all (\<lambda>q. side_agrees delta result_side_is q (cf_new_file_kind f) (cf_new_mode f)) (cf_new_path f)
     \<and> opt_all (\<lambda>p. if cf_kind f = ChangeCopied \<and> cf_new_path f \<noteq> None
          then manifest_side_matches (mn_entries baseline) p (cf_old_file_kind f) (cf_old_mode f)
          else side_agrees delta baseline_side_is p (cf_old_file_kind f) (cf_old_mode f)) (cf_old_path f)
     \<and> (cf_old_path f \<noteq> None \<and> cf_new_path f \<noteq> None \<and> cf_kind f \<in> {ChangeRenamed, ChangeCopied}
          \<longrightarrow> rename_matches_delta d f policy)"

lemma consume_side_Some:
  "consume_side delta consumed p old kind mode = Some c \<longleftrightarrow>
     c = path_key p # consumed \<and> path_key p \<notin> set consumed
     \<and> side_agrees delta (if old then baseline_side_is else result_side_is) p kind mode"
  by (auto simp: consume_side_def side_agrees_def split: option.splits if_splits)

lemma consume_file_Some:
  assumes "consume_file baseline d delta policy consumed f = Some c"
  shows "c = rev (map path_key (file_paths f)) @ consumed" "file_agrees baseline d policy delta f"
    "distinct consumed \<Longrightarrow> distinct c" "set c \<subseteq> set consumed \<union> {k. delta k \<noteq> None}"
  using assms
  by (auto simp: consume_file_def file_paths_def file_agrees_def consume_side_Some same_path_ok_def side_agrees_def
      Let_def split: option.splits if_splits)

lemma cross_check_files_Inr:
  assumes "cross_check_files baseline d delta policy consumed es = Inr c"
  shows "c = rev (map path_key (patch_paths es)) @ consumed
    \<and> list_all (file_agrees baseline d policy delta \<circ> pe_file) es
    \<and> (distinct consumed \<longrightarrow> distinct c) \<and> set c \<subseteq> set consumed \<union> {k. delta k \<noteq> None}"
  using assms
proof (induction es arbitrary: consumed)
  case (Cons e es)
  then obtain c' where c': "consume_file baseline d delta policy consumed (pe_file e) = Some c'"
      "cross_check_files baseline d delta policy c' es = Inr c"
    by (auto split: if_splits option.splits)
  note this_file = consume_file_Some [OF c'(1)]
  note rest = Cons.IH [OF c'(2)]
  have "set c \<subseteq> set c' \<union> {k. delta k \<noteq> None}" using rest by blast
  also have "\<dots> \<subseteq> set consumed \<union> {k. delta k \<noteq> None}" using this_file(4) by blast
  finally have "set c \<subseteq> set consumed \<union> {k. delta k \<noteq> None}" .
  moreover have "distinct consumed \<longrightarrow> distinct c" using rest this_file(3) by blast
  moreover have "c = rev (map path_key (patch_paths (e # es))) @ consumed"
    using conjunct1 [OF rest] this_file(1) by simp
  moreover have "list_all (file_agrees baseline d policy delta \<circ> pe_file) (e # es)" using rest this_file(2) by (auto simp: list_all_iff)
  ultimately show ?case by blast
qed simp

lemma cross_check_partition:
  assumes "cross_check baseline d es policy = Inr ()"
  shows "distinct (patch_paths es)"
    "set (patch_paths es) = xd_path ` set (xl_entries d)"
    "list_all (file_agrees baseline d policy (entry_map xd_path (xl_entries d)) \<circ> pe_file) es"
    "list_all delta_ready (xl_entries d)"
proof -
  let ?paths = "patch_paths es"
  obtain c where c: "cross_check_files baseline d (entry_map xd_path (xl_entries d)) policy [] es = Inr c"
      "length c = card (path_key ` xd_path ` set (xl_entries d))"
    using assms by (auto simp: cross_check_def bind_result_def split: if_splits sum.splits)
  note files = cross_check_files_Inr [OF c(1)]
  moreover have "map path_key ps = ps" for ps by (rule map_idI) (simp add: path_key_def)
  ultimately have eq: "c = rev ?paths" by simp
  show "list_all (file_agrees baseline d policy (entry_map xd_path (xl_entries d)) \<circ> pe_file) es" using files by simp
  show "list_all delta_ready (xl_entries d)" using assms by (simp add: cross_check_def split: if_splits)
  show distinct: "distinct ?paths" using files eq by simp
  have "set ?paths \<subseteq> xd_path ` set (xl_entries d)"
  proof
    fix k
    assume "k \<in> set ?paths"
    then have "k \<in> set c" using eq by simp
    moreover from files have "set c \<subseteq> set [] \<union> {k. entry_map xd_path (xl_entries d) k \<noteq> None}" by blast
    ultimately have "entry_map xd_path (xl_entries d) k \<noteq> None" by auto
    then show "k \<in> xd_path ` set (xl_entries d)"
      using entry_map_None [of xd_path "xl_entries d" k] by (auto simp: path_key_def)
  qed
  moreover have "card (set ?paths) = card (xd_path ` set (xl_entries d))"
    using c(2) eq distinct by (simp add: distinct_card path_key_def)
  ultimately show "set ?paths = xd_path ` set (xl_entries d)" by (intro card_subset_eq) simp_all
qed

subsection \<open>Patches that are never accepted\<close>

lemma path_side:
  assumes "p \<in> set (file_paths f)" "file_agrees baseline d policy delta f"
  shows "side_agrees delta baseline_side_is p (cf_old_file_kind f) (cf_old_mode f)
    \<or> side_agrees delta result_side_is p (cf_new_file_kind f) (cf_new_mode f)"
  using assms by (cases "cf_old_path f"; cases "cf_new_path f") (auto simp: file_agrees_def file_paths_def split: if_splits)

text \<open>
  A delta lists the directories that an agent has created or removed, and Git's patches never do: with a
  directory in the delta no patch is accepted.
\<close>

definition directory_entry :: "delta_entry \<Rightarrow> bool" where
  "directory_entry e \<longleftrightarrow>
     opt_all (\<lambda>b. mf_kind b = FileKindDirectory) (xd_baseline e) \<and> opt_all (\<lambda>r. oe_kind r = FileKindDirectory) (xd_result e)"

lemma directory_refused:
  assumes "x \<in> set (xl_entries d)" "distinct (map xd_path (xl_entries d))" "directory_entry x"
    "list_all (\<lambda>e. cf_old_file_kind (pe_file e) \<noteq> FileKindDirectory \<and> cf_new_file_kind (pe_file e) \<noteq> FileKindDirectory) es"
  shows "cross_check b d es policy \<noteq> Inr ()"
proof
  assume "cross_check b d es policy = Inr ()"
  note check = cross_check_partition [OF this]
  then obtain e where e: "e \<in> set es" "xd_path x \<in> set (file_paths (pe_file e))"
    using assms(1) unfolding patch_paths_eq by force
  have x: "entry_map xd_path (xl_entries d) (path_key (xd_path x)) = Some x"
    using entry_map_Some [OF assms(2), of "path_key (xd_path x)" x] assms(1) by simp
  have "file_agrees b d policy (entry_map xd_path (xl_entries d)) (pe_file e)"
    "cf_old_file_kind (pe_file e) \<noteq> FileKindDirectory" "cf_new_file_kind (pe_file e) \<noteq> FileKindDirectory"
    using check(3) assms(4) e(1) by (simp_all add: list_all_iff)
  with path_side [OF e(2) this(1)] x assms(3) show False
    by (auto simp: side_agrees_def baseline_side_is_def result_side_is_def directory_entry_def split: option.splits)
qed

text \<open>
  Git prints a change of type as two sections for the same path, a deletion and an addition: such a patch
  is never accepted either.
\<close>

lemma split_type_change_refused:
  assumes "i < j" "j < length es" "cf_old_path (pe_file (es ! i)) = Some p" "cf_new_path (pe_file (es ! i)) = None"
    "cf_old_path (pe_file (es ! j)) = None" "cf_new_path (pe_file (es ! j)) = Some p"
  shows "cross_check b d es policy \<noteq> Inr ()"
proof
  assume "cross_check b d es policy = Inr ()"
  then have distinct: "distinct (patch_paths es)" by (rule cross_check_partition(1))
  have append: "patch_paths (xs @ ys) = patch_paths xs @ patch_paths ys" for xs ys by (induction xs) simp_all
  have "es = take i es @ es ! i # drop (Suc i) es"
    using assms(1,2) by (intro id_take_nth_drop) simp
  then have "patch_paths es = patch_paths (take i es) @ file_paths (pe_file (es ! i)) @ patch_paths (drop (Suc i) es)"
    by (metis append patch_paths.simps(2))
  with distinct have "set (file_paths (pe_file (es ! i))) \<inter> set (patch_paths (drop (Suc i) es)) = {}" by simp
  moreover have "es ! j \<in> set (drop (Suc i) es)"
    using assms(1,2) by (auto simp: in_set_conv_nth intro!: exI [of _ "j - Suc i"])
  then have "p \<in> set (patch_paths (drop (Suc i) es))"
    using assms(5,6) unfolding patch_paths_eq by (auto simp: file_paths_def intro!: bexI [of _ "es ! j"])
  moreover have "p \<in> set (file_paths (pe_file (es ! i)))" using assms(3,4) by (simp add: file_paths_def)
  ultimately show False by blast
qed

end
