(* ===== verification/Derivation_Facts.thy ===== *)
theory Derivation_Facts
  imports Proposal_Derivation Artifact_Facts Apply_Claims
begin

text \<open>
  A derived proposal expects of the destination exactly what was observed of the agent's result, so that an
  apply operation that ends as applied has put the result in place; and two kinds of changes that the
  derivation never lets through.
\<close>

subsection \<open>One derived file\<close>

lemma derive_file_cases:
  assumes "derive_file delta i = Some v"
  shows "changed_file_valid (vf_file i)" "proposed_file_valid v" "cf_new_path (vf_file i) \<noteq> None"
    "v = set_flags (vf_file i) (set_old_side delta (vf_file i) (the (set_new_side delta (vf_file i)
       (no_proposed_file\<lparr>pf_binary := vf_binary i, pf_mode_transition := cf_mode_transition (vf_file i)\<rparr>))))"
proof -
  show "changed_file_valid (vf_file i)" "proposed_file_valid v"
    and v: "v = set_flags (vf_file i) (set_old_side delta (vf_file i) (the (set_new_side delta (vf_file i)
       (no_proposed_file\<lparr>pf_binary := vf_binary i, pf_mode_transition := cf_mode_transition (vf_file i)\<rparr>))))"
    using assms by (auto simp: derive_file_def Let_def split: if_splits option.splits)
  show "cf_new_path (vf_file i) \<noteq> None"
  proof
    assume none: "cf_new_path (vf_file i) = None"
    then have "cf_old_path (vf_file i) \<noteq> None"
      using assms by (auto simp: derive_file_def set_new_side_def Let_def split: if_splits option.splits)
    then have "pf_old_path v = None \<and> pf_old_kind v = FileKindUnknown"
      using none unfolding v by (auto simp: set_new_side_def set_old_side_def set_flags_def Let_def)
    then have "\<not> proposed_sides_ok v" by (simp add: proposed_sides_ok_def)
    with \<open>proposed_file_valid v\<close> show False by (simp add: proposed_file_valid_def)
  qed
qed

lemma deletion_refused:
  "cf_new_path (vf_file i) = None \<Longrightarrow> derive_file delta i = None"
  using derive_file_cases(3) by (cases "derive_file delta i") auto

lemma change_kind_deleted: "changed_file_valid f \<Longrightarrow> cf_new_path f \<noteq> None \<Longrightarrow> cf_kind f \<noteq> ChangeDeleted"
  by (auto simp: changed_file_valid_def change_kind_shape_def)

lemma change_kind_added:
  "changed_file_valid f \<Longrightarrow> cf_old_path f \<noteq> None \<Longrightarrow> cf_kind f \<noteq> ChangeAdded \<and> cf_kind f \<noteq> ChangeUntracked"
  by (auto simp: changed_file_valid_def change_kind_shape_def)

lemma derive_file_new:
  assumes "derive_file delta i = Some v" "cf_new_path (vf_file i) = Some q" "delta (path_key q) = Some e"
    "xd_result e = Some r"
  shows "pf_path v = q \<and> \<not> pf_deleted v \<and> pf_kind v = cf_new_file_kind (vf_file i) \<and> pf_mode v = cf_new_mode (vf_file i)
    \<and> pf_content_bytes v = oe_bytes r \<and> pf_content_hash v = oe_sha256 r \<and> pf_content_class v = oe_content_class r
    \<and> pf_text v = oe_text r \<and> pf_symlink v = oe_symlink r"
proof -
  have "cf_kind (vf_file i) \<noteq> ChangeDeleted"
    using change_kind_deleted [OF derive_file_cases(1) [OF assms(1)]] assms(2) by simp
  then show ?thesis
    using assms(2-4) unfolding derive_file_cases(4) [OF assms(1)]
    by (cases "cf_old_path (vf_file i)"; cases "cf_kind (vf_file i) = ChangeCopied")
      (simp_all add: set_new_side_def set_old_side_def set_flags_def no_proposed_file_def Let_def split: option.splits)
qed

lemma derive_file_old:
  assumes "derive_file delta i = Some v"
  shows "pf_old_path v = cf_old_path (vf_file i)" "pf_copied v = (cf_kind (vf_file i) = ChangeCopied)"
    "\<not> pf_deleted v" "pf_path v = the (cf_new_path (vf_file i))"
proof -
  obtain q where q: "cf_new_path (vf_file i) = Some q" using derive_file_cases(3) [OF assms] by auto
  have kind: "cf_kind (vf_file i) \<noteq> ChangeDeleted"
    using change_kind_deleted [OF derive_file_cases(1) [OF assms]] q by simp
  show "pf_old_path v = cf_old_path (vf_file i)" "pf_copied v = (cf_kind (vf_file i) = ChangeCopied)"
    "\<not> pf_deleted v" "pf_path v = the (cf_new_path (vf_file i))"
    using q kind unfolding derive_file_cases(4) [OF assms]
    by (cases "cf_old_path (vf_file i)"; cases "cf_kind (vf_file i) = ChangeCopied";
        simp add: set_new_side_def set_old_side_def set_flags_def no_proposed_file_def Let_def split: option.splits)+
qed

text \<open>
  A change of a file whose baseline has text evidence: the derivation copies the evidence but not the hash
  that it must agree with.
\<close>

lemma text_change_refused:
  assumes "cf_old_path (vf_file i) = Some p" "cf_kind (vf_file i) \<noteq> ChangeCopied" "delta (path_key p) = Some e"
    "xd_baseline e = Some b" "mf_text b \<noteq> None"
  shows "derive_file delta i = None"
proof (cases "derive_file delta i")
  case (Some v)
  obtain q where q: "cf_new_path (vf_file i) = Some q" using derive_file_cases(3) [OF Some] by auto
  have kind: "cf_kind (vf_file i) \<noteq> ChangeDeleted"
    using change_kind_deleted [OF derive_file_cases(1) [OF Some]] q by simp
  have "pf_old_text v = mf_text b" "pf_old_content_hash v = []"
    using q kind assms(1-4) unfolding derive_file_cases(4) [OF Some]
    by (simp_all add: set_new_side_def set_old_side_def set_flags_def no_proposed_file_def Let_def split: option.splits)
  moreover have "proposed_evidence_ok v" using derive_file_cases(2) [OF Some] by (simp add: proposed_file_valid_def)
  moreover have "text_semantics_valid t \<Longrightarrow> te_sha256 t \<noteq> []" for t
    by (auto simp: text_semantics_valid_def valid_sha256_def)
  ultimately show ?thesis using assms(5) by (auto simp: proposed_evidence_ok_def)
qed

lemma derive_files_Some:
  "derive_files delta is = Some vs \<Longrightarrow> list_all2 (\<lambda>i v. derive_file delta i = Some v) is vs"
  by (induction "is" arbitrary: vs) (auto split: option.splits)

lemma derive_files_each: "derive_files delta is = Some vs \<Longrightarrow> i \<in> set is \<Longrightarrow> derive_file delta i \<noteq> None"
  by (induction "is" arbitrary: vs) (auto split: option.splits)

text \<open>No deletion and no edit of a text file whose baseline has text evidence is ever derived.\<close>

lemma edits_never_derived:
  assumes "derive_files delta is = Some vs" "i \<in> set is"
  shows "cf_new_path (vf_file i) \<noteq> None"
    "cf_old_path (vf_file i) = Some p \<Longrightarrow> cf_kind (vf_file i) \<noteq> ChangeCopied \<Longrightarrow> delta (path_key p) = Some e
       \<Longrightarrow> xd_baseline e = Some b \<Longrightarrow> mf_text b = None"
proof -
  note derived = derive_files_each [OF assms]
  show "cf_new_path (vf_file i) \<noteq> None" using derived deletion_refused by metis
  show "mf_text b = None"
    if "cf_old_path (vf_file i) = Some p" "cf_kind (vf_file i) \<noteq> ChangeCopied" "delta (path_key p) = Some e"
      "xd_baseline e = Some b"
  proof (rule ccontr)
    assume "mf_text b \<noteq> None"
    with that have "derive_file delta i = None" by (rule text_change_refused)
    with derived show False by simp
  qed
qed

subsection \<open>What is expected of the destination\<close>

lemma map_of_unique:
  assumes "(k, x) \<in> set xs" "\<And>y. (k, y) \<in> set xs \<Longrightarrow> y = x"
  shows "map_of (rev xs) k = Some x"
proof -
  obtain y where "map_of (rev xs) k = Some y"
    using assms(1) by (cases "map_of (rev xs) k") (force simp: map_of_eq_None_iff)+
  then show ?thesis using assms(2) map_of_SomeD [of "rev xs" k y] by simp
qed

definition result_expectation :: "result_entry option \<Rightarrow> expected_path" where
  "result_expectation r =
     (case r of
        None \<Rightarrow> expected_absent
      | Some r \<Rightarrow>
          \<lparr>ex_exists = True, ex_kind = oe_kind r, ex_mode = oe_mode r, ex_content_bytes = oe_bytes r,
           ex_content_hash = oe_sha256 r, ex_content_class = oe_content_class r, ex_text = oe_text r,
           ex_symlink = oe_symlink r\<rparr>)"

text \<open>
  A file with two different paths that is neither renamed nor copied. Git prints no such file, but nothing
  that reads a patch refuses one.
\<close>

definition moved_unmarked :: "changed_file \<Rightarrow> repo_path \<Rightarrow> bool" where
  "moved_unmarked f p \<longleftrightarrow>
     cf_old_path f = Some p \<and> cf_new_path f \<notin> {None, Some p} \<and> cf_kind f \<notin> {ChangeRenamed, ChangeCopied}"

definition copied_from :: "changed_file \<Rightarrow> repo_path \<Rightarrow> bool" where
  "copied_from f p \<longleftrightarrow> cf_kind f = ChangeCopied \<and> cf_old_path f = Some p"

lemma file_expectation:
  assumes "derive_file delta i = Some v" "file_agrees b d policy delta (vf_file i)" "\<not> moved_unmarked (vf_file i) k"
    "delta = entry_map xd_path (xl_entries d)" "(k, x) \<in> set (file_expectations v)" "\<not> copied_from (vf_file i) k"
  shows "k \<in> set (file_paths (vf_file i)) \<and> (\<exists>e. delta k = Some e \<and> x = result_expectation (xd_result e))"
proof -
  let ?f = "vf_file i"
  obtain q where q: "cf_new_path ?f = Some q" using derive_file_cases(3) [OF assms(1)] by auto
  obtain e r where e: "delta (path_key q) = Some e" "xd_result e = Some r" "oe_kind r = cf_new_file_kind ?f"
      "oe_mode r = cf_new_mode ?f"
    using assms(2) q by (auto simp: file_agrees_def side_agrees_def result_side_is_def patch_mode_matches_def split: option.splits)
  note new = derive_file_new [OF assms(1) q e(1,2)] and old = derive_file_old [OF assms(1)]
  have q_path: "q \<in> set (file_paths ?f)" using q by (auto simp: file_paths_def split: option.splits)
  have split: "k = path_key q \<and> x = result_expectation (Some r)
      \<or> (\<exists>p. cf_old_path ?f = Some p \<and> p \<noteq> q \<and> k = path_key p \<and> (cf_kind ?f \<noteq> ChangeCopied \<longrightarrow> x = expected_absent))"
    using assms(5) new old(1-3) e(3,4)
    by (cases "cf_old_path ?f") (auto simp: file_expectations_def result_expectation_def split: if_splits)
  show ?thesis
  proof (cases "k = path_key q \<and> x = result_expectation (Some r)")
    case True
    then show ?thesis using q_path e(1,2) by (auto simp: path_key_def)
  next
    case False
    with split obtain p where p: "cf_old_path ?f = Some p" "p \<noteq> q" "k = path_key p"
      and x: "cf_kind ?f \<noteq> ChangeCopied \<Longrightarrow> x = expected_absent" by blast
    have not_copied: "cf_kind ?f \<noteq> ChangeCopied"
      using assms(6) p by (auto simp: copied_from_def path_key_def)
    with assms(3) p q have "cf_kind ?f = ChangeRenamed" by (auto simp: moved_unmarked_def path_key_def)
    with assms(2) p q have "rename_matches_delta d ?f policy" by (auto simp: file_agrees_def)
    with \<open>cf_kind ?f = ChangeRenamed\<close> p q obtain n where "delta k = Some n" "xd_result n = None"
      by (auto simp: rename_matches_delta_def assms(4) Let_def split: option.splits if_splits)
    moreover have "p \<in> set (file_paths ?f)" using p q not_copied by (simp add: file_paths_def)
    ultimately show ?thesis using x not_copied p by (simp add: result_expectation_def path_key_def)
  qed
qed

lemma copied_source:
  assumes "file_agrees b d policy (entry_map xd_path (xl_entries d)) f" "copied_from f p" "cf_new_path f \<noteq> None"
  shows "p \<in> xd_path ` set (xl_entries d)"
proof -
  have "rename_matches_delta d f policy" using assms by (auto simp: file_agrees_def copied_from_def)
  then have "entry_map xd_path (xl_entries d) (path_key p) \<noteq> None"
    using assms(2) by (auto simp: rename_matches_delta_def copied_from_def Let_def split: option.splits if_splits)
  then show ?thesis using entry_map_None [of xd_path "xl_entries d" "path_key p"] by (auto simp: path_key_def)
qed

text \<open>At the source of a copy the content of the result is expected; its kind and mode may be those of the baseline.\<close>

definition expects_content :: "expected_path \<Rightarrow> result_entry \<Rightarrow> bool" where
  "expects_content x r \<longleftrightarrow> ex_exists x \<and> ex_content_hash x = oe_sha256 r"

lemma copied_source_result:
  assumes "file_agrees b d policy (entry_map xd_path (xl_entries d)) f" "copied_from f k" "cf_new_path f \<noteq> None"
  shows "\<exists>y r. entry_map xd_path (xl_entries d) k = Some y \<and> xd_result y = Some r"
proof -
  have "rename_matches_delta d f policy" using assms by (auto simp: file_agrees_def copied_from_def)
  then show ?thesis
    using assms(2) by (auto simp: rename_matches_delta_def copied_from_def path_key_def Let_def split: option.splits if_splits)
qed

lemma derive_file_copied:
  assumes "derive_file delta i = Some v" "copied_from (vf_file i) p" "delta (path_key p) = Some e" "xd_result e = Some r"
  shows "pf_old_content_hash v = oe_sha256 r"
proof -
  obtain q where q: "cf_new_path (vf_file i) = Some q" using derive_file_cases(3) [OF assms(1)] by auto
  have kind: "cf_kind (vf_file i) \<noteq> ChangeDeleted"
    using change_kind_deleted [OF derive_file_cases(1) [OF assms(1)]] q by simp
  show ?thesis
    using q kind assms(2-4) unfolding derive_file_cases(4) [OF assms(1)]
    by (simp add: copied_from_def set_new_side_def set_old_side_def set_flags_def no_proposed_file_def Let_def
        split: option.splits)
qed

lemma file_expectation_copied:
  assumes "derive_file delta i = Some v" "(k, x) \<in> set (file_expectations v)" "copied_from (vf_file i) k"
    "delta k = Some e" "xd_result e = Some r"
  shows "expects_content x r"
proof -
  obtain q where q: "cf_new_path (vf_file i) = Some q" using derive_file_cases(3) [OF assms(1)] by auto
  have new: "pf_content_hash v = oe_sha256 r" if "k = path_key q"
    using derive_file_new [OF assms(1) q] assms(4,5) that by simp
  show ?thesis
    using assms(2,3) new derive_file_copied [OF assms(1,3)] derive_file_old [OF assms(1)] q assms(4,5)
    by (auto simp: file_expectations_def expects_content_def copied_from_def path_key_def split: option.splits if_splits)
qed

lemma file_expectation_path:
  assumes "derive_file delta i = Some v" "(k, x) \<in> set (file_expectations v)" "\<not> copied_from (vf_file i) k"
  shows "k \<in> set (file_paths (vf_file i))"
proof -
  obtain q where q: "cf_new_path (vf_file i) = Some q" using derive_file_cases(3) [OF assms(1)] by auto
  then show ?thesis
    using assms(2,3) derive_file_old [OF assms(1)]
    by (cases "cf_old_path (vf_file i)")
      (auto simp: file_expectations_def file_paths_def copied_from_def path_key_def split: if_splits)
qed

lemma file_expectation_new:
  assumes "derive_file delta i = Some v" "p \<in> set (file_paths (vf_file i))"
  shows "path_key p \<in> fst ` set (file_expectations v)"
proof -
  obtain q where q: "cf_new_path (vf_file i) = Some q" using derive_file_cases(3) [OF assms(1)] by auto
  then show ?thesis
    using assms(2) derive_file_old [OF assms(1)]
    by (cases "cf_old_path (vf_file i)") (auto simp: file_expectations_def file_paths_def split: if_splits)
qed

text \<open>The proposal expects the result of the agent, at the paths of the delta and nowhere else.\<close>

lemma expectation_is_result:
  assumes "cross_check b d es policy = Inr ()" "map vf_file is = map pe_file es"
    "derive_files (entry_map xd_path (xl_entries d)) is = Some vs"
  shows "dom (expectation vs) = xd_path ` set (xl_entries d)"
    "entry_map xd_path (xl_entries d) k = Some y \<Longrightarrow> \<not> (\<exists>e \<in> set es. moved_unmarked (pe_file e) k)
       \<Longrightarrow> \<not> (\<exists>e \<in> set es. copied_from (pe_file e) k)
       \<Longrightarrow> expectation vs k = Some (result_expectation (xd_result y))"
    "entry_map xd_path (xl_entries d) k = Some y \<Longrightarrow> \<not> (\<exists>e \<in> set es. moved_unmarked (pe_file e) k)
       \<Longrightarrow> \<exists>e \<in> set es. copied_from (pe_file e) k
       \<Longrightarrow> \<exists>x r. expectation vs k = Some x \<and> xd_result y = Some r \<and> expects_content x r"
proof -
  let ?delta = "entry_map xd_path (xl_entries d)"
  note check = cross_check_partition [OF assms(1)]
  note derived = derive_files_Some [OF assms(3)]
  have agrees: "file_agrees b d policy ?delta (vf_file i) \<and> vf_file i \<in> pe_file ` set es"
    if "i \<in> set is" for i
  proof -
    have "vf_file i \<in> pe_file ` set es" using that assms(2) by (metis image_eqI set_map)
    then show ?thesis using check(3) by (auto simp: list_all_iff)
  qed
  have ex: "\<exists>i. i \<in> set is \<and> derive_file ?delta i = Some v" if "v \<in> set vs" for v
    using derived that by (auto simp: list_all2_conv_all_nth in_set_conv_nth)
  have ex': "\<exists>v. v \<in> set vs \<and> derive_file ?delta i = Some v" if "i \<in> set is" for i
    using derived that by (auto simp: list_all2_conv_all_nth in_set_conv_nth)
  have known: "\<exists>i. i \<in> set is \<and> vf_file i = pe_file e" if "e \<in> set es" for e
    using that assms(2) by (metis (no_types, lifting) image_iff image_set)
  have file_in: "p \<in> xd_path ` set (xl_entries d)" if "i \<in> set is" "p \<in> set (file_paths (vf_file i))" for i p
    using agrees [OF that(1)] that(2) check(2) unfolding patch_paths_eq by auto
  have into: "k \<in> xd_path ` set (xl_entries d)"
    if kx: "(k, x) \<in> set (concat (map file_expectations vs))" for k x
  proof -
    obtain v where v: "v \<in> set vs" "(k, x) \<in> set (file_expectations v)" using kx by auto
    then obtain i where i: "i \<in> set is" "derive_file ?delta i = Some v" using ex by blast
    show ?thesis
    proof (cases "copied_from (vf_file i) k")
      case True
      then show ?thesis
        using copied_source [of b d policy "vf_file i" k] agrees [OF i(1)] derive_file_cases(3) [OF i(2)] by auto
    qed (use file_expectation_path [OF i(2) v(2)] file_in [OF i(1)] in blast)
  qed
  have shown: "x = result_expectation (xd_result y) \<or> (\<exists>e \<in> set es. copied_from (pe_file e) k)
        \<and> (\<exists>r. xd_result y = Some r \<and> expects_content x r)"
    if kx: "(k, x) \<in> set (concat (map file_expectations vs))" and y: "?delta k = Some y"
      and marked: "\<not> (\<exists>e \<in> set es. moved_unmarked (pe_file e) k)" for k x y
  proof -
    obtain v where v: "v \<in> set vs" "(k, x) \<in> set (file_expectations v)" using kx by auto
    then obtain i where i: "i \<in> set is" "derive_file ?delta i = Some v" using ex by blast
    note f = agrees [OF i(1)]
    show ?thesis
    proof (cases "copied_from (vf_file i) k")
      case True
      obtain r where r: "xd_result y = Some r"
        using copied_source_result [of b d policy "vf_file i" k] f True derive_file_cases(3) [OF i(2)] y by auto
      then show ?thesis using file_expectation_copied [OF i(2) v(2) True y r] f True by auto
    next
      case False
      have "\<not> moved_unmarked (vf_file i) k" using f marked by auto
      with file_expectation [OF i(2) _ _ refl v(2) False] f y show ?thesis by auto
    qed
  qed
  have onto: "\<exists>x. (k, x) \<in> set (concat (map file_expectations vs))" if k: "k \<in> xd_path ` set (xl_entries d)" for k
  proof -
    obtain e where "e \<in> set es" "k \<in> set (file_paths (pe_file e))"
      using k check(2) unfolding patch_paths_eq by auto
    then obtain i where i: "i \<in> set is" "k \<in> set (file_paths (vf_file i))" using known by metis
    obtain v where "v \<in> set vs" "derive_file ?delta i = Some v" using ex' i(1) by blast
    moreover from this(2) obtain x where "(k, x) \<in> set (file_expectations v)"
      using file_expectation_new [of ?delta i v k] i(2) by (auto simp: path_key_def)
    ultimately show ?thesis by auto
  qed
  show "dom (expectation vs) = xd_path ` set (xl_entries d)"
  proof
    show "dom (expectation vs) \<subseteq> xd_path ` set (xl_entries d)"
      unfolding expectation_def dom_map_of_conv_image_fst set_rev using into by (auto simp del: set_concat)
    show "xd_path ` set (xl_entries d) \<subseteq> dom (expectation vs)"
      unfolding expectation_def dom_map_of_conv_image_fst set_rev using onto by (metis fst_conv image_eqI subsetI)
  qed
  have entry: "k \<in> xd_path ` set (xl_entries d)" if "?delta k = Some y" for k y
    using that entry_map_None [of xd_path "xl_entries d" k] by (auto simp: path_key_def)
  show "expectation vs k = Some (result_expectation (xd_result y))"
    if "?delta k = Some y" "\<not> (\<exists>e \<in> set es. moved_unmarked (pe_file e) k)" "\<not> (\<exists>e \<in> set es. copied_from (pe_file e) k)"
  proof -
    have inside: "k \<in> xd_path ` set (xl_entries d)" by (rule entry [OF that(1)])
    obtain x where x: "(k, x) \<in> set (concat (map file_expectations vs))" using onto inside by blast
    have "x' = result_expectation (xd_result y)" if "(k, x') \<in> set (concat (map file_expectations vs))" for x'
      using shown [OF that \<open>?delta k = Some y\<close>] \<open>\<not> (\<exists>e \<in> set es. moved_unmarked (pe_file e) k)\<close>
        \<open>\<not> (\<exists>e \<in> set es. copied_from (pe_file e) k)\<close> by blast
    with x show ?thesis unfolding expectation_def by (metis map_of_unique)
  qed
  show "\<exists>x r. expectation vs k = Some x \<and> xd_result y = Some r \<and> expects_content x r"
    if y: "?delta k = Some y" and marked: "\<not> (\<exists>e \<in> set es. moved_unmarked (pe_file e) k)"
      and copied: "\<exists>e \<in> set es. copied_from (pe_file e) k"
  proof -
    obtain e' where e': "e' \<in> set es" "copied_from (pe_file e') k" using copied by blast
    obtain i where i: "i \<in> set is" "vf_file i = pe_file e'" using known [OF e'(1)] by blast
    obtain v where v: "derive_file ?delta i = Some v" using ex' [OF i(1)] by blast
    obtain r where r: "xd_result y = Some r"
      using copied_source_result [of b d policy "vf_file i" k] agrees [OF i(1)] i e' derive_file_cases(3) [OF v] y by auto
    obtain x where x: "expectation vs k = Some x"
      using entry [OF y] \<open>dom (expectation vs) = xd_path ` set (xl_entries d)\<close> by blast
    then have "(k, x) \<in> set (concat (map file_expectations vs))"
      unfolding expectation_def using map_of_SomeD by fastforce
    from shown [OF this y marked] r have "expects_content x r"
      by (auto simp: result_expectation_def expects_content_def)
    with x r show ?thesis by blast
  qed
qed

subsection \<open>What a build and a derivation have checked\<close>

lemma review_index_files: "map vf_file (vi_files (review_index_of identity es)) = map pe_file es"
proof -
  have "map vf_file (map (\<lambda>(n, e). review_file_of n e) (enumerate n es)) = map pe_file es" for n
    by (induction es arbitrary: n) (simp_all add: review_file_of_def)
  then show ?thesis by (simp add: review_index_of_def Let_def)
qed

lemma build_checked:
  assumes "build_artifact ctx i = Inr a"
  shows "proposal_artifact_valid a \<and> px_patch_sha256 a = bi_patch_sha256 i
    \<and> (\<exists>d es. compare_result_manifest (bi_baseline i) (rz_manifest (bi_result i)) = Some d
         \<and> xl_hash d = xl_hash (rz_delta (bi_result i)) \<and> xl_complete d
         \<and> cross_check (bi_baseline i) d es (bi_rename_policy_version i) = Inr ()
         \<and> map vf_file (vi_files (px_index a)) = map pe_file es)"
proof -
  obtain d es identity where d: "expected_delta i = Inr d"
      "cross_check (bi_baseline i) d es (bi_rename_policy_version i) = Inr ()"
      "proposal_artifact_valid a" "a = artifact_of_index i (review_index_of identity es)"
    using assms
    by (auto simp: build_artifact_def new_review_index_def bind_result_def split: if_splits sum.splits prod.splits)
  have "map vf_file (vi_files (px_index a)) = map pe_file es" "px_patch_sha256 a = bi_patch_sha256 i"
    using review_index_files [of identity es] by (simp_all add: d(4) artifact_of_index_def Let_def)
  moreover have "compare_result_manifest (bi_baseline i) (rz_manifest (bi_result i)) = Some d"
    "xl_hash d = xl_hash (rz_delta (bi_result i))" "xl_complete d"
    using d(1) by (auto simp: expected_delta_def split: option.splits if_splits)
  ultimately show ?thesis using d(2,3) by blast
qed

text \<open>What the application reads of a stored artifact (\<^verbatim>\<open>apply_preflight.go\<close>).\<close>

definition facts_of :: "proposal_artifact \<Rightarrow> artifact_facts" where
  "facts_of a =
     \<lparr>ak_valid = proposal_artifact_valid a, ak_id = px_id a, ak_proposal_id = px_proposal_id a,
      ak_workspace_id = px_workspace_id a, ak_attempt_id = px_attempt_id a, ak_patch_sha256 = px_patch_sha256 a,
      ak_bytes = ay_bytes (pu_identity (px_published a)), ak_spool_id = ay_spool_id (pu_identity (px_published a)),
      ak_index_hash = vi_hash (px_index a), ak_file_count = my_file_count (px_summary a),
      ak_hunk_count = my_hunk_count (px_summary a), ak_row_count = my_row_count (px_summary a),
      ak_binary_files = my_binary_files (px_summary a),
      ak_manifest_hash = ay_manifest_hash (pu_identity (px_published a)),
      ak_format_version = px_patch_format_version a, ak_rename_version = px_rename_policy_version a,
      ak_conversion_version = px_conversion_policy_version a,
      ak_conversion_fingerprint = px_conversion_fingerprint a\<rparr>"

lemma foldl_max_bound: "m \<le> foldl max m ns \<and> (\<forall>n \<in> set ns. n \<le> foldl max m ns)" for m :: nat
proof (induction ns arbitrary: m)
  case (Cons a ns)
  have "max m a \<le> foldl max (max m a) ns" using Cons.IH by blast
  moreover have "\<forall>n \<in> set ns. n \<le> foldl max (max m a) ns" using Cons.IH by blast
  ultimately show ?case by simp
qed simp

lemma next_version_fresh:
  assumes "next_version a = Some n" "v \<in> set (ag_versions a)"
  shows "pv_version v < n"
proof -
  have "pv_version v \<le> foldl max 0 (map pv_version (ag_versions a))"
    using foldl_max_bound [of 0 "map pv_version (ag_versions a)"] assms(2) by auto
  with assms(1) show ?thesis by (auto simp: next_version_def Let_def split: option.splits if_splits)
qed

text \<open>
  The attempt of the snapshot is compared with the request by the caller (\<^verbatim>\<open>Publish\<close>), not by the
  derivation itself.
\<close>

lemma derivation_checked:
  assumes "derive_proposal i = Inr p"
  shows "proposed_patch_valid p" "derive_files (entry_map xd_path (xl_entries (rz_delta (di_snapshot i))))
      (vi_files (px_index (di_artifact i))) = Some (pv_files p)"
    "v \<in> set (ag_versions (di_aggregate i)) \<Longrightarrow> pv_version v < pv_version p"
    "rz_attempt_id (di_snapshot i) = di_attempt_id i \<Longrightarrow> artifact_matches p (facts_of (di_artifact i))"
proof -
  obtain t files version ps where p: "p = derived_patch i t version files ps" "proposed_patch_valid p"
      "derive_files (entry_map xd_path (xl_entries (rz_delta (di_snapshot i)))) (vi_files (px_index (di_artifact i)))
         = Some files"
      "next_version (di_aggregate i) = Some version" "attempt_of (di_aggregate i) (di_attempt_id i) = Some t"
      "proposal_artifact_valid (di_artifact i)" "artifact_identity_matches (di_artifact i) (di_snapshot i) t"
      "publication_identity (di_aggregate i) t (di_snapshot i) = Inr ()"
    using assms
    by (auto simp: derive_proposal_def bind_result_def Let_def split: if_splits option.splits sum.splits)
  show "proposed_patch_valid p" by (rule p(2))
  show "derive_files (entry_map xd_path (xl_entries (rz_delta (di_snapshot i)))) (vi_files (px_index (di_artifact i)))
      = Some (pv_files p)"
    using p(1,3) by (simp add: derived_patch_def Let_def)
  show "pv_version v < pv_version p" if "v \<in> set (ag_versions (di_aggregate i))"
    using next_version_fresh [OF p(4) that] p(1) by (simp add: derived_patch_def Let_def)
  have summary: "my_patch_bytes (px_summary (di_artifact i)) = ay_bytes (pu_identity (px_published (di_artifact i)))"
    using p(6) by (auto simp: proposal_artifact_valid_def patch_summary_valid_def)
  have "at_id t = di_attempt_id i" using p(5) by (auto simp: attempt_of_def dest: find_SomeD)
  with summary show "artifact_matches p (facts_of (di_artifact i))" if "rz_attempt_id (di_snapshot i) = di_attempt_id i"
    using p(6-8) that unfolding p(1)
    by (auto simp: artifact_matches_def facts_of_def derived_patch_def artifact_reference_def Let_def
        artifact_identity_matches_def publication_identity_def split: if_splits)
qed

subsection \<open>What is approved is what is applied\<close>

text \<open>
  C17. The reader that hands a stored patch to Git. Whatever the store answers, to calls of any sizes: if
  the reader ever reports the end of the patch, then what it has handed out by then has the digest and the
  length that were approved. And a store that has the patch, read with non-empty buffers, is read to the end
  and gives exactly the patch.
\<close>

theorem patch_stream_exact:
  "(Eof \<in> set (read_calls cs (new_range_reader q)) \<longrightarrow>
      sha256_hex (concat (map delivered (read_calls cs (new_range_reader q)))) = pg_patch_sha256 q
      \<and> length (concat (map delivered (read_calls cs (new_range_reader q)))) = pg_patch_bytes q)
   \<and> (request_for content q \<and> list_all (\<lambda>n. n > 0) ns \<and> length content < length ns \<longrightarrow>
      (let outs = read_calls (map (Pair (store_answer content)) ns) (new_range_reader q) in
       Eof \<in> set outs \<and> concat (map delivered outs) = content))"
proof (intro conjI impI)
  assume "Eof \<in> set (read_calls cs (new_range_reader q))"
  from patch_stream_exact_run [OF this]
  show "sha256_hex (concat (map delivered (read_calls cs (new_range_reader q)))) = pg_patch_sha256 q"
    "length (concat (map delivered (read_calls cs (new_range_reader q)))) = pg_patch_bytes q" by simp_all
next
  assume store: "request_for content q \<and> list_all (\<lambda>n. n > 0) ns \<and> length content < length ns"
  have "stream_inv content q (new_range_reader q)"
    using new_range_reader_inv [of q] by (simp add: stream_inv_def new_range_reader_def)
  from read_calls_store [OF _ this, of ns] store
  show "let outs = read_calls (map (Pair (store_answer content)) ns) (new_range_reader q) in
      Eof \<in> set outs \<and> concat (map delivered outs) = content"
    by (simp add: new_range_reader_def Let_def)
qed

definition sample_range_request :: range_request where
  "sample_range_request =
     \<lparr>pg_artifact_id = ''a'', pg_published = \<lparr>pu_identity = \<lparr>ay_spool_id = ''s'', ay_manifest_hash = sha256_hex [],
        ay_bytes = 3, ay_entries = 1, ay_complete = True, ay_verified_at = 1\<rparr>,
        pu_target = \<lparr>pz_owner_kind = OwnerProposal, pz_relative_path = ''p'', pz_source_relative_path = []\<rparr>,
        pu_limits = \<lparr>sq_max_bytes = 9, sq_max_entries = 9, sq_max_path_bytes = 9, sq_max_manifest_bytes = 9,
          sq_buffer_bytes = 9, sq_check_every_bytes = 9\<rparr>\<rparr>,
      pg_patch_sha256 = sha256_hex ''abc'', pg_patch_bytes = 3, pg_offset = 0, pg_max_bytes = 0\<rparr>"

theorem patch_stream_exact_witness:
  "Eof \<in> set (read_calls (map (Pair (store_answer ''abc'')) [2, 2, 1, 1]) (new_range_reader sample_range_request))
   \<and> concat (map delivered (read_calls (map (Pair (store_answer ''abc'')) [2, 2, 1, 1])
       (new_range_reader sample_range_request))) = ''abc''
   \<and> sha256_hex (concat (map delivered (read_calls (map (Pair (store_answer ''abc'')) [2, 2, 1, 1])
       (new_range_reader sample_range_request)))) = pg_patch_sha256 sample_range_request"
proof -
  let ?cs = "map (Pair (store_answer ''abc'')) [2, 2, 1, 1 :: nat]"
  have "request_for ''abc'' sample_range_request"
    by (simp add: request_for_def sample_range_request_def artifact_identity_valid_def time_defs)
  then have store: "request_for ''abc'' sample_range_request \<and> list_all (\<lambda>n. n > 0) [2, 2, 1, 1 :: nat]
      \<and> length ''abc'' < length [2, 2, 1, 1 :: nat]" by simp
  note exact = patch_stream_exact [of ?cs sample_range_request "''abc''" "[2, 2, 1, 1]"]
  from mp [OF conjunct2 [OF exact] store] conjunct1 [OF exact] show ?thesis unfolding Let_def by blast
qed

text \<open>What an observation of a path must show for a result, or for none.\<close>

definition shows_result :: "path_evidence \<Rightarrow> result_entry option \<Rightarrow> bool" where
  "shows_result x r =
     (case r of
        None \<Rightarrow> \<not> ae_exists x
      | Some r \<Rightarrow>
          ae_exists x \<and> ae_kind x = oe_kind r \<and> ae_mode x = oe_mode r
          \<and> (oe_sha256 r \<noteq> [] \<longrightarrow>
               (if oe_kind r = FileKindSymlink then ae_symlink_target_hash x else ae_content_hash x) = oe_sha256 r)
          \<and> (oe_content_class r \<noteq> NoContentClass \<longrightarrow>
               ae_content_bytes x = oe_bytes r \<and> ae_content_class x = oe_content_class r))"

text \<open>At the source of a copy: the file is there, with the content of the result.\<close>

definition shows_content :: "path_evidence \<Rightarrow> result_entry \<Rightarrow> bool" where
  "shows_content x r \<longleftrightarrow>
     ae_exists x
     \<and> (oe_sha256 r \<noteq> [] \<longrightarrow>
          (if ae_kind x = FileKindSymlink then ae_symlink_target_hash x else ae_content_hash x) = oe_sha256 r)"

lemma observed_shows_content:
  "observed_as_expected (Some x) want \<Longrightarrow> expects_content want r \<Longrightarrow> shows_content x r"
  by (auto simp: observed_as_expected_def expects_content_def shows_content_def Let_def split: if_splits)

lemma observed_shows_result:
  "observed_as_expected (Some x) (result_expectation r) \<Longrightarrow> shows_result x r"
  by (auto simp: observed_as_expected_def result_expectation_def shows_result_def expected_absent_def Let_def
      split: option.splits if_splits)

lemma delta_paths:
  assumes "compare_result_manifest b r = Some d"
  defines "base \<equiv> entry_map mf_path (mn_entries b)" and "seen \<equiv> entry_map oe_path (om_entries r)"
  shows "xd_path ` set (xl_entries d) = {k. \<not> (base k = None \<and> seen k = None) \<and> \<not> unchanged (base k) (seen k)}"
    "k \<in> xd_path ` set (xl_entries d) \<Longrightarrow>
       \<exists>y. entry_map xd_path (xl_entries d) k = Some y \<and> xd_result y = seen k"
proof -
  have at: "k \<in> xd_path ` set (xl_entries d) \<longleftrightarrow> delta_at d k \<noteq> None" for k
    by (auto simp: delta_at_def find_None_iff)
  show "xd_path ` set (xl_entries d) = {k. \<not> (base k = None \<and> seen k = None) \<and> \<not> unchanged (base k) (seen k)}"
  proof (rule set_eqI)
    fix k
    show "k \<in> xd_path ` set (xl_entries d)
        \<longleftrightarrow> k \<in> {k. \<not> (base k = None \<and> seen k = None) \<and> \<not> unchanged (base k) (seen k)}"
      using at [of k] delta_at_None [OF assms(1), of k] by (simp add: base_def seen_def)
  qed
  assume "k \<in> xd_path ` set (xl_entries d)"
  then obtain y where y: "y \<in> set (xl_entries d)" "xd_path y = k" by auto
  have "distinct (map xd_path (xl_entries d))"
    using delta_entries(2) [OF assms(1)] by (simp add: strict_sorted_iff)
  then have "entry_map xd_path (xl_entries d) k = Some y"
    using y by (simp add: entry_map_Some path_key_def)
  moreover have "xd_result y = seen k"
    using delta_entries(1) [OF assms(1), of y] y compare_path_entry(3) unfolding seen_def by blast
  ultimately show "\<exists>y. entry_map xd_path (xl_entries d) k = Some y \<and> xd_result y = seen k" by blast
qed

subsection \<open>An instance\<close>

definition added_change :: "repo_path \<Rightarrow> changed_file" where
  "added_change p =
     \<lparr>cf_old_path = None, cf_new_path = Some p, cf_kind = ChangeAdded, cf_old_file_kind = FileKindUnknown,
      cf_new_file_kind = FileKindRegular, cf_old_mode = 0, cf_new_mode = 33188, cf_old_object_id = None,
      cf_new_object_id = None, cf_review_only = None, cf_mode_transition = None, cf_content_class = NoContentClass,
      cf_old_text = None, cf_new_text = None, cf_binary = False, cf_staged = False, cf_unstaged = False,
      cf_conflict = None, cf_rename = None\<rparr>"

definition added_entry :: "repo_path \<Rightarrow> patch_index_entry" where
  "added_entry p =
     \<lparr>pe_version = 1, pe_source_id = ''s'', pe_index = 0, pe_offset = 0, pe_length = 1, pe_header_length = 1,
      pe_file = added_change p, pe_binary = False, pe_binary_complete = False, pe_binary_offset = 0,
      pe_sha256 = sha256_hex [], pe_hunks = []\<rparr>"

definition added_delta :: "repo_path \<Rightarrow> bytes \<Rightarrow> delta_entry" where
  "added_delta p data =
     \<lparr>xd_path = p, xd_baseline = None, xd_result = Some (sample_seen p data), xd_mode_transition = None,
      xd_kinds = [ResultDeltaAdded], xd_complete = True, xd_reason = ResultReasonNone, xd_candidates = []\<rparr>"

definition added_proposal :: "repo_path \<Rightarrow> bytes \<Rightarrow> proposed_file" where
  "added_proposal p data =
     no_proposed_file\<lparr>pf_path := p, pf_kind := FileKindRegular, pf_mode := 33188, pf_content_bytes := length data,
       pf_content_hash := sha256_hex data, pf_added := True\<rparr>"

definition added_evidence :: "repo_path \<Rightarrow> bytes \<Rightarrow> path_evidence" where
  "added_evidence p data =
     \<lparr>ae_path = p, ae_exists = True, ae_kind = FileKindRegular, ae_mode = 33188, ae_content_bytes = 0,
      ae_content_hash = sha256_hex data, ae_content_class = NoContentClass, ae_text_semantics = None,
      ae_symlink_target_hash = [], ae_symlink_evidence = None, ae_native_alias = None, ae_native_path = None\<rparr>"

lemma added_delta_valid: "valid_repo_path p \<Longrightarrow> delta_entry_valid (added_delta p data)"
  using sample_seen_valid [of p data]
  by (simp add: added_delta_def delta_entry_valid_def delta_kind_valid_def result_reason_valid_def)

lemma compare_added:
  assumes "valid_repo_path p"
  shows "compare_path True p None (Some (sample_seen p data)) = Some (Some (added_delta p data))"
  using added_delta_valid [OF assms, of data]
  by (simp add: compare_path_def added_delta_def sample_seen_def Let_def)

lemma compare_same: "compare_path True p (Some (sample_file p data)) (Some (sample_seen p data)) = Some None"
  by (simp add: compare_path_def sample_file_def sample_seen_def compare_result_entry_def Let_def)

lemma added_change_valid: "valid_repo_path p \<Longrightarrow> changed_file_valid (added_change p)"
  by (simp add: added_change_def changed_file_valid_def change_side_valid_def change_kind_shape_def change_kind_valid_def
      file_kind_valid_def git_mode_ok_iff classify_git_mode_def git_mode_class_file_kind_def)

lemma added_entry_valid: "valid_repo_path p \<Longrightarrow> patch_index_entry_valid (added_entry p)"
  using added_change_valid [of p]
  by (simp add: added_entry_def patch_index_entry_valid_def PatchIndexVersion_def) (simp add: added_change_def)

lemma regular_mode: "patch_mode_matches 33188 33188 FileKindRegular"
  by (simp add: patch_mode_matches_def git_mode_ok_iff patch_mode_kind_def classify_git_mode_def)

lemma added_cross_check:
  assumes "valid_repo_path p" "xl_entries d = [added_delta p data]"
  shows "cross_check b d [added_entry p] policy = Inr ()"
proof -
  have "entry_map xd_path (xl_entries d) (path_key p) = Some (added_delta p data)"
    by (simp add: assms(2) entry_map_def added_delta_def)
  then show ?thesis
    using added_entry_valid [OF assms(1)] added_delta_valid [OF assms(1), of data] assms(2)
    by (simp add: cross_check_def delta_ready_def added_entry_def added_change_def consume_file_def consume_side_def
        text_semantics_ready_def side_check_def side_content_def result_side_is_def
        Let_def)
      (simp add: added_delta_def sample_seen_def regular_mode)
qed

lemma added_derived:
  assumes "valid_repo_path p" "xl_entries d = [added_delta p data]"
  shows "derive_files (entry_map xd_path (xl_entries d)) [review_file_of 0 (added_entry p)] = Some [added_proposal p data]"
proof -
  have "entry_map xd_path (xl_entries d) (path_key p) = Some (added_delta p data)"
    by (simp add: assms(2) entry_map_def added_delta_def)
  moreover have "proposed_file_valid (added_proposal p data)"
    using assms(1)
    by (simp add: added_proposal_def no_proposed_file_def proposed_file_valid_def proposed_sides_ok_def
        proposed_evidence_ok_def mode_matches_file_kind_def file_kind_valid_def git_mode_ok_iff
        mode_class_for_file_kind_def classify_git_mode_def valid_sha256_text_def)
  ultimately show ?thesis
    using added_change_valid [OF assms(1)]
    by (simp add: derive_file_def set_new_side_def set_old_side_def set_flags_def review_file_of_def added_entry_def
        added_change_def added_delta_def sample_seen_def added_proposal_def no_proposed_file_def Let_def)
qed

lemma added_observed:
  assumes "valid_repo_path p" "pv_files q = [added_proposal p data]"
  shows "result_observed sample_json sample_operation q (sample_verification\<lparr>ve_paths := [added_evidence p data]\<rparr>)"
proof -
  have "path_evidence_valid (added_evidence p data)"
    using assms(1)
    by (simp add: path_evidence_valid_def added_evidence_def evidence_precondition_def path_precondition_valid_def
        file_kind_valid_def git_mode_ok_iff classify_git_mode_def git_mode_class_file_kind_def)
  then have "verification_evidence_valid (ej_verification sample_json)
      (sample_verification\<lparr>ve_paths := [added_evidence p data]\<rparr>)"
    using sample_evidence_valid(2)
    by (simp add: verification_evidence_valid_def verification_evidence_hash_def sample_json_def sample_verification_def)
  moreover have "globals_kept sample_operation (sample_verification\<lparr>ve_paths := [added_evidence p data]\<rparr>)"
    by (simp add: globals_kept_def sample_operation_def sample_verification_def sample_destination_evidence_def)
  moreover have "expectation [added_proposal p data] = [path_key p \<mapsto> result_expectation (Some (sample_seen p data))]"
    by (simp add: expectation_def file_expectations_def result_expectation_def added_proposal_def no_proposed_file_def
        sample_seen_def)
  ultimately show ?thesis
    by (simp add: result_observed_def assms(2))
      (simp add: added_evidence_def observed_as_expected_def result_expectation_def sample_seen_def)
qed

lemma sample_entry_paths: "mf_path (sample_file p data) = p" "oe_path (sample_seen p data) = p"
  by (simp_all add: sample_file_def sample_seen_def)

lemma added_delta_of:
  assumes "mn_entries b = [sample_file ''a'' ''same'']" "om_entries r = [sample_seen ''a'' ''same'', sample_seen ''c'' ''new'']"
    "om_complete r" "compare_result_manifest b r = Some d"
  shows "xl_entries d = [added_delta ''c'' ''new'']"
proof -
  let ?f = "\<lambda>k. compare_path True k (entry_map mf_path (mn_entries b) k) (entry_map oe_path (om_entries r) k)"
  obtain ks where ks: "sorted_wrt (<) ks" "set ks = {''a'', ''c''}"
      "xl_entries d = map the (filter (\<lambda>e. e \<noteq> None) (map (the \<circ> ?f) ks))"
    using compare_unfold(3) [OF assms(4)] assms(1-3) by (auto simp: sample_entry_paths path_key_def)
  have "ks = [''a'', ''c'']"
  proof (rule sorted_distinct_set_unique)
    show "sorted ks" "distinct ks" using ks(1) by (simp_all add: strict_sorted_iff)
    show "sorted [''a'', ''c'']" "distinct [''a'', ''c'']" by (simp_all add: sample_order)
    show "set ks = set [''a'', ''c'']" using ks(2) by simp
  qed
  moreover have "?f ''a'' = Some None"
    using compare_same by (simp add: assms(1,2) entry_map_def sample_entry_paths path_key_def)
  moreover have "?f ''c'' = Some (Some (added_delta ''c'' ''new''))"
    using compare_added [OF sample_paths(3)]
    by (simp add: assms(1,2) entry_map_def sample_entry_paths path_key_def)
  ultimately show ?thesis using ks(3) by simp
qed

lemma added_comparison:
  obtains b r d where "mn_entries b = [sample_file ''a'' ''same'']" "compare_result_manifest b r = Some d"
    "xl_entries d = [added_delta ''c'' ''new'']"
proof -
  have manifests: "\<exists>b. new_workspace_manifest [sample_file ''a'' ''same''] = Some b"
    using sample_file_valid [OF sample_paths(1)]
    by (simp add: new_workspace_manifest_def Let_def) (simp add: sample_file_def manifest_size_def)
  obtain b r where made: "new_workspace_manifest [sample_file ''a'' ''same''] = Some b"
    "new_result_manifest [sample_seen ''c'' ''new'', sample_seen ''a'' ''same''] 1 True ResultReasonNone = Some r"
    using manifests sample_manifests(2) by blast
  have b: "workspace_manifest_valid b" "mn_entries b = [sample_file ''a'' ''same'']"
    using new_workspace_manifest_valid [OF made(1)] by simp_all
  note r = new_result_manifest_valid [OF made(2), unfolded sample_sorted]
  obtain d where d: "compare_result_manifest b r = Some d"
    using compare_total_run [OF b(1) r(1)] r(3) by auto
  note entries = added_delta_of [OF b(2) r(2) r(3) [simplified] d]
  from that [OF b(2) d entries] show thesis .
qed

subsection \<open>The claims\<close>

text \<open>
  C15. The cross-check that a patch passes before it becomes an artifact. Its files account for the delta of the
  observed result: every path of the delta belongs to exactly one side of exactly one file and there are no
  other paths; each side has the kind and the mode that the delta has at its path; renames and copies carry
  evidence for their two paths; and every entry of the delta is complete.
\<close>

theorem patch_covers_delta:
  assumes "cross_check baseline d es policy = Inr ()"
  shows "distinct (patch_paths es) \<and> set (patch_paths es) = xd_path ` set (xl_entries d)
    \<and> list_all (file_agrees baseline d policy (entry_map xd_path (xl_entries d)) \<circ> pe_file) es
    \<and> list_all delta_ready (xl_entries d)"
  using cross_check_partition [OF assms] by blast

theorem patch_covers_delta_witness:
  "\<exists>b r d. mn_entries b = [sample_file ''a'' ''same''] \<and> compare_result_manifest b r = Some d
     \<and> patch_paths [added_entry ''c''] = [''c''] \<and> xd_path ` set (xl_entries d) = {''c''}"
proof -
  obtain b r d where d: "compare_result_manifest b r = Some d" and b: "mn_entries b = [sample_file ''a'' ''same'']"
    and entries: "xl_entries d = [added_delta ''c'' ''new'']" by (rule added_comparison)
  show ?thesis
    using patch_covers_delta [OF added_cross_check [OF sample_paths(3) entries]] b d
    by (intro exI [of _ b] exI [of _ r] exI [of _ d]) (auto simp: added_entry_def added_change_def file_paths_def)
qed

text \<open>
  C16. From the result of the agent to the destination. Let a proposal be derived from the difference between a
  baseline and an observed result, with a patch that passed the cross-check. If an apply operation is recorded
  as applied, which takes an observation of the proposal's result, then the observed paths are exactly
  those where the result differs from the baseline. Each of them shows what was observed of the agent's
  result: the file is absent, or has the kind, the mode and the content hash. There are two exceptions.
  A path that a file of the patch is copied from shows the content of the result, but not necessarily its kind and
  mode. And nothing is said of the old path of a file that the patch gives two different paths without calling
  it renamed or copied, which Git never prints and the parser lets through.
\<close>

theorem applied_is_result:
  assumes "compare_result_manifest b r = Some d" "cross_check b d es policy = Inr ()"
    "map vf_file fs = map pe_file es"
    "derive_files (entry_map xd_path (xl_entries d)) fs = Some (pv_files p)" "result_observed json o' p e"
  defines "base \<equiv> entry_map mf_path (mn_entries b)" and "seen \<equiv> entry_map oe_path (om_entries r)"
  shows "ae_path ` set (ve_paths e) = {k. \<not> (base k = None \<and> seen k = None) \<and> \<not> unchanged (base k) (seen k)}
    \<and> (\<forall>x \<in> set (ve_paths e).
         (\<exists>f \<in> set es. moved_unmarked (pe_file f) (ae_path x))
         \<or> (if \<exists>f \<in> set es. copied_from (pe_file f) (ae_path x)
            then \<exists>y. seen (ae_path x) = Some y \<and> shows_content x y
            else shows_result x (seen (ae_path x))))"
proof -
  note expect = expectation_is_result [OF assms(2-4)] and delta = delta_paths [OF assms(1)]
  have "ae_path ` set (ve_paths e) = dom (expectation (pv_files p))"
    using assms(5) by (simp add: result_observed_def path_key_def)
  then have paths: "ae_path ` set (ve_paths e) = xd_path ` set (xl_entries d)" using expect(1) by simp
  have shown: "if \<exists>f \<in> set es. copied_from (pe_file f) (ae_path x)
        then \<exists>y. seen (ae_path x) = Some y \<and> shows_content x y else shows_result x (seen (ae_path x))"
    if x: "x \<in> set (ve_paths e)" and marked: "\<not> (\<exists>f \<in> set es. moved_unmarked (pe_file f) (ae_path x))" for x
  proof -
    obtain y where y: "entry_map xd_path (xl_entries d) (ae_path x) = Some y" "xd_result y = seen (ae_path x)"
      using delta(2) [of "ae_path x"] paths x unfolding seen_def by blast
    have observed: "observed_as_expected (Some x) want" if "expectation (pv_files p) (ae_path x) = Some want" for want
      using assms(5) x that by (auto simp: result_observed_def path_key_def)
    show ?thesis
    proof (cases "\<exists>f \<in> set es. copied_from (pe_file f) (ae_path x)")
      case True
      from expect(3) [OF y(1) marked True] obtain want r' where want: "expectation (pv_files p) (ae_path x) = Some want"
          "xd_result y = Some r'" "expects_content want r'" by blast
      have "shows_content x r'" using observed_shows_content [OF observed [OF want(1)] want(3)] .
      with True want(2) y(2) show ?thesis by auto
    next
      case False
      have "observed_as_expected (Some x) (result_expectation (seen (ae_path x)))"
        using observed [OF expect(2) [OF y(1) marked False]] y(2) by simp
      with False show ?thesis using observed_shows_result by simp
    qed
  qed
  show ?thesis
  proof (intro conjI ballI)
    show "ae_path ` set (ve_paths e) = {k. \<not> (base k = None \<and> seen k = None) \<and> \<not> unchanged (base k) (seen k)}"
      unfolding paths base_def seen_def by (rule delta(1))
    fix x assume x: "x \<in> set (ve_paths e)"
    show "(\<exists>f \<in> set es. moved_unmarked (pe_file f) (ae_path x))
        \<or> (if \<exists>f \<in> set es. copied_from (pe_file f) (ae_path x)
           then \<exists>y. seen (ae_path x) = Some y \<and> shows_content x y else shows_result x (seen (ae_path x)))"
    proof (cases "\<exists>f \<in> set es. moved_unmarked (pe_file f) (ae_path x)")
      case False
      from shown [OF x this] show ?thesis by (rule disjI2)
    qed (rule disjI1)
  qed
qed

theorem applied_is_result_witness:
  "\<exists>b r d. mn_entries b = [sample_file ''a'' ''same''] \<and> compare_result_manifest b r = Some d
     \<and> (\<forall>x \<in> {added_evidence ''c'' ''new''}. shows_result x (entry_map oe_path (om_entries r) (ae_path x)))
     \<and> ae_path ` {added_evidence ''c'' ''new''} \<subseteq> xd_path ` set (xl_entries d)"
proof -
  obtain b r d where d: "compare_result_manifest b r = Some d" and b: "mn_entries b = [sample_file ''a'' ''same'']"
    and entries: "xl_entries d = [added_delta ''c'' ''new'']" by (rule added_comparison)
  let ?p = "Proposal_Versions.sample_patch\<lparr>pv_files := [added_proposal ''c'' ''new'']\<rparr>"
  have fs: "map vf_file [review_file_of 0 (added_entry ''c'')] = map pe_file [added_entry ''c'']"
    by (simp add: review_file_of_def)
  have derived: "derive_files (entry_map xd_path (xl_entries d)) [review_file_of 0 (added_entry ''c'')] = Some (pv_files ?p)"
    using added_derived [OF sample_paths(3) entries] by simp
  have observed: "result_observed sample_json sample_operation ?p
      (sample_verification\<lparr>ve_paths := [added_evidence ''c'' ''new'']\<rparr>)"
    by (rule added_observed [OF sample_paths(3)]) simp
  note applied = applied_is_result [OF d added_cross_check [OF sample_paths(3) entries] fs derived observed]
  have "\<not> copied_from (pe_file (added_entry ''c'')) k \<and> \<not> moved_unmarked (pe_file (added_entry ''c'')) k" for k
    by (simp add: copied_from_def moved_unmarked_def added_entry_def added_change_def)
  then have "shows_result (added_evidence ''c'' ''new'') (entry_map oe_path (om_entries r) (ae_path (added_evidence ''c'' ''new'')))"
    using conjunct2 [OF applied] by simp
  then show ?thesis
    using b d entries by (intro exI [of _ b] exI [of _ r] exI [of _ d]) (simp add: added_evidence_def added_delta_def)
qed

end
