(* ===== verification/Spec2Isabelle.thy ===== *)
theory Spec2Isabelle
  imports Text_Lines Links Changes Diffs Patch_Entries Reconcile_Total Threads
    Proposal_Versions Client Ledger_Runs Capture_Facts Apply_Handoff Result_Facts
    Derivation_Facts
begin

text \<open>
  \<^bold>\<open>Nudge, a local code review tool: a verified model of its core.\<close>

  The program opens a Git repository, captures a review target (the local changes, a commit or a
  branch), shows its changed files as diffs, keeps review threads anchored to lines of them, lets an
  external coding agent discuss a thread or propose a patch in an isolated workspace, and applies an
  approved proposal to the working tree. The core, in Go under \<^verbatim>\<open>src/internal\<close>, is pure: values with
  validators, parsers, state machines, and one reducer that owns the application state. That core is
  modelled here. Around it are adapters (Git processes, a database, the file system, the terminal,
  the agent's process) which the core reaches through interfaces.

  \<^bold>\<open>Theories and the files they model.\<close>

  \<^item> \<open>Prelude\<close>, \<open>Go_Strings\<close>, \<open>Go_Text\<close>, \<open>Go_Sha256\<close>, \<open>Go_Path\<close>: results and loops, and what the
    program calls of the Go library: UTF-8, trimming, splitting, numbers, hexadecimal, SHA-256 and
    Unix paths. These are definitions of documented behaviour, not of files of the repository.
  \<^item> \<open>Repo_Core\<close>: \<^verbatim>\<open>domain/ids.go\<close> and of \<^verbatim>\<open>domain/repository\<close> the paths, Git modes, repositories,
    worktrees, snapshot references and targets.
  \<^item> \<open>Text_Semantics\<close>, \<open>Text_Lines\<close>: \<^verbatim>\<open>content_class.go\<close> and \<^verbatim>\<open>text.go\<close>: content classes, the streaming
    and the reading classifier, the projection of lines and the line scanner.
  \<^item> \<open>Links\<close>, \<open>Changes\<close>, \<open>Diffs\<close>: \<^verbatim>\<open>symlink.go\<close>, \<^verbatim>\<open>native_path.go\<close>, \<^verbatim>\<open>special.go\<close>, \<^verbatim>\<open>rename.go\<close>,
    \<^verbatim>\<open>change.go\<close>, \<^verbatim>\<open>tree.go\<close> and \<^verbatim>\<open>diff.go\<close> of \<^verbatim>\<open>domain/repository\<close>.
  \<^item> \<open>Patch_Text\<close>, \<open>Patch_Section\<close>, \<open>Patch_Index\<close>, \<open>Patch_Source\<close>, \<open>Patch_Entries\<close>: \<^verbatim>\<open>internal/diff\<close>,
    the parser of Git patches: quoted paths and headers, one file section, scanning a stream, and what
    the published index says about the bytes.
  \<^item> \<open>Review_Domain\<close>, \<open>Threads\<close>: messages, status axes, threads and sessions of \<^verbatim>\<open>domain/review\<close>.
  \<^item> \<open>Fingerprints\<close>, \<open>Anchors\<close>, \<open>Line_Diff\<close>, \<open>Reconcile_Anchors\<close>, \<open>Reconcile_Total\<close>:
    \<^verbatim>\<open>fingerprint.go\<close>, \<^verbatim>\<open>anchor.go\<close> and \<^verbatim>\<open>reconcile.go\<close> of \<^verbatim>\<open>domain/review\<close>, and
    \<^verbatim>\<open>app/reconcile_anchors.go\<close>, which finds the place of an anchor in a newer capture of its file.
  \<^item> \<open>Proposal_States\<close>, \<open>Proposals\<close>, \<open>Proposal_Versions\<close>: \<^verbatim>\<open>proposal_state.go\<close> and \<^verbatim>\<open>proposal.go\<close> of
    \<^verbatim>\<open>domain/review\<close>: four state machines, intents, workspaces, attempts, files, patches, aggregate.
  \<^item> \<open>Provider\<close>: \<^verbatim>\<open>internal/provider\<close>: what a turn of the agent may read and write, one-shot runtime
    approvals, and the order of the events it sends.
  \<^item> \<open>App_State\<close>, \<open>Reducer\<close>, \<open>Reducer_Steps\<close>: of \<^verbatim>\<open>internal/app\<close> the state, snapshots and events, and
    the reducer, which turns each command or result into one revisioned commit.
  \<^item> \<open>Event_Stream\<close>, \<open>Client\<close>: \<^verbatim>\<open>app/client.go\<close>, the concurrent shell of the reducer: mailbox, actor,
    closing, and the two streams to the frontend, as step relations over all interleavings.
  \<^item> \<open>Capacity\<close>, \<open>Resource_Policy\<close>, \<open>Capacity_Plan\<close>, \<open>Digest_Frames\<close>, \<open>Plan_Digest\<close>: \<^verbatim>\<open>internal/capacity\<close>,
    \<^verbatim>\<open>app/resource_policy.go\<close> and \<^verbatim>\<open>app/capacity.go\<close>: checked arithmetic, the limits with their default,
    tuning and admission, plans and their digest.
  \<^item> \<open>Reservations\<close>, \<open>Reservation_Safety\<close>: \<^verbatim>\<open>internal/capacitystore\<close>, the markers by which processes share
    the space of a volume.
  \<^item> \<open>Storage_Records\<close>, \<open>Storage_Ledger\<close>, \<open>Ledger_Safety\<close>, \<open>Go_Time\<close>, \<open>Ledger_Views\<close>, \<open>Ledger_Runs\<close>:
    \<^verbatim>\<open>app/owned_storage.go\<close> and \<^verbatim>\<open>store/sqlite/owned_storage.go\<close> with the ledger part of \<^verbatim>\<open>cleanup.go\<close>:
    the tables, the transactions on them, snapshots and recomputation.
  \<^item> \<open>Session_Keys\<close>: \<^verbatim>\<open>domain/review/session_key.go\<close> with the part of \<^verbatim>\<open>encoding/json\<close> it rests on.
  \<^item> \<open>Review_Tables\<close>, \<open>Review_Store\<close>, \<open>Session_Writes\<close>, \<open>Session_Laws\<close>, \<open>Message_Bodies\<close>, \<open>Session_Fence\<close>, \<open>Paging\<close>:
    \<^verbatim>\<open>store/sqlite/queries.go\<close> and the records of \<^verbatim>\<open>app/review_store.go\<close> and \<^verbatim>\<open>app/reattach_anchor.go\<close>: the
    tables of a review, repositories, sessions and their writer guard, what a transaction writes,
    message bodies streamed in chunks, and the pages of a list.
  \<^item> \<open>Thread_Service\<close>, \<open>Thread_Contract\<close>: \<^verbatim>\<open>app/threads.go\<close> and \<^verbatim>\<open>app/messages.go\<close>, the use cases of
    threads as functions of a store, and what they achieve on the modelled one.
  \<^item> \<open>Provider_Stream\<close>, \<open>Transcripts\<close>, \<open>Transcript_Runs\<close>: \<^verbatim>\<open>app/provider_events.go\<close>, the processor that
    turns the events of a turn into streamed messages, and the transcript that it refines.
  \<^item> \<open>Capture_Evidence\<close>, \<open>Capture_Facts\<close>: \<^verbatim>\<open>domain/repository/capture.go\<close>, the evidence of one capture of the
    local changes, and what its fingerprint tells apart.
  \<^item> \<open>Apply_Evidence\<close>, \<open>Apply_Journal\<close>, \<open>Apply_Execution\<close>, \<open>Apply_Preflight\<close>: \<^verbatim>\<open>app/apply_preflight.go\<close>,
    \<^verbatim>\<open>app/apply_execution.go\<close> and \<^verbatim>\<open>store/sqlite/apply_operation_queries.go\<close>: what is observed of a
    destination, the durable journal of apply operations, the preparation of one and its execution, with
    locks, Git, the observer and the clock as an environment.
  \<^item> \<open>Apply_Laws\<close>, \<open>Apply_Safety\<close>, \<open>Apply_Runs\<close>, \<open>Apply_Settling\<close>, \<open>Apply_Claims\<close>, \<open>Apply_Handoff\<close>: how a call
    moves a row, what outcomes mean, histories of calls that may be cut off at any transaction, that calls
    settle, and what a preparation hands over.
  \<^item> \<open>Workspace_Manifest\<close>, \<open>Result_Manifest\<close>, \<open>Result_Facts\<close>: \<^verbatim>\<open>app/proposal_workspace.go\<close> and
    \<^verbatim>\<open>app/result_snapshot.go\<close>: the manifest of a trusted baseline, the journal of operations on a
    workspace, what was observed of an agent's result, and the delta between the two.
  \<^item> \<open>Proposal_Artifact\<close>, \<open>Artifact_Build\<close>, \<open>Proposal_Derivation\<close>: \<^verbatim>\<open>app/proposal_patch_artifact.go\<close> with
    the identities of \<^verbatim>\<open>app/artifact_spool.go\<close> and the range reader of \<^verbatim>\<open>app/apply_preflight.go\<close>, and
    \<^verbatim>\<open>app/derive_proposal.go\<close>: how a published patch becomes an artifact that is cross-checked with the
    observed result, how a proposal is derived from both, and how the stored patch is read back.
  \<^item> \<open>Artifact_Facts\<close>, \<open>Derivation_Facts\<close>: what these promise, and the chain from the
    agent's result to what an applied operation shows.
  \<^item> \<open>Store_Wellformed\<close>: what the tables of a review always satisfy.

  \<^bold>\<open>How Go is read.\<close> A string or a byte slice is a list of characters, a struct a record, a string
  enumeration a datatype with one more constructor for any other text, a pointer an option, an
  error a value of a sum, of which the message is dropped and the sentinel kept. A method with a
  pointer receiver that validates a copy and stores it at the end is a function of the old value.
  Go's \<^verbatim>\<open>int\<close> and \<^verbatim>\<open>int64\<close> are integers and its unsigned numbers naturals; where a sum may overflow
  the code's own guards against it are in the model, and byte quantities of the capacity accounting are
  64-bit words. Instants are integers, and zero is the zero
  time. A map of which every use is sorted is an association list with distinct keys. The clock, the
  source of identities, and readers are functions of how often they have been asked. The context of a
  call, where it matters, is live, done or nil for the whole of the call.

  \<^bold>\<open>What the theorems show.\<close> The properties carry identifiers in the texts before them.

  \<^item> Application (C1 to C7): the reducer refines an abstract ledger of operations under way; the client
    answers as that reducer does when it takes the requests one at a time in admission order; closing ends; the event
    stream loses nothing essential and, while it is open, delivers what is queued; an input commits or leaves the state
    alone; after a result no other one for its operation is ever accepted.
  \<^item> Review store (C8, C9, C19 to C22): a writer that
    has been overtaken never commits again; a thread command is durable or has no effect; the tables
    stay well formed; bodies are read back exactly; pages leave nothing out; the key of a session
    identifies what it reviews.
  \<^item> Applying (C10 to C13): over any history of the journal the destination is mutated
    only from a prepared operation or an untouched baseline; a recorded outcome rests on an observation
    that shows it; a call on a working system settles the operation, which may end as safe to retry if it was
    found interrupted or no retry is authorised; a preparation has been checked, and is executed once if its evidence
    names the requested repository.
  \<^item> Results (C14 to C17): comparing an observed result with the baseline always succeeds on valid complete
    manifests, and the delta is exactly the difference; a cross-checked patch accounts for that delta; an
    operation recorded as applied shows the agent's result at exactly the paths that differ, of sources of copies
    only the content; Git is handed
    exactly the bytes of the approved digest.
  \<^item> Provider events (C18): the processor of events refines a transcript, of which every text
    is stored and read back exactly.
  \<^item> Storage (C23 to C28): the ledger's totals are exact and below the hard budgets after any run, equal to the
    recomputed ones, and requests are idempotent; markers of any number of processes never commit more
    than a volume has; plans are
    admitted exactly when they are admissible in unbounded arithmetic.
  \<^item> Anchors (C29, C30): reconciliation gives a place whose text is the selected text and is
    total on valid inputs.
  \<^item> Patches (C31 to C33): the result does not depend on how the source answers reads; index
    entries tile the patch, each with the digest of its bytes; hunk headers round-trip.
  \<^item> Text (C34 to C36): line projections tile the bytes; the streaming classifiers agree with a reference
    definition however the bytes are cut into writes.
  \<^item> Reviews and proposals (C37, C38, C40): lifecycles of messages and threads over
    arbitrary operations; histories of the state machines.
  \<^item> Provider (C39): an approval is used once.
  \<^bold>\<open>Interfaces.\<close> \<open>stream_observer\<close> (in \<open>Text_Semantics\<close>) is the contract of a writer that only observes,
  interpreted for the classifier and the text writer; \<open>patch_source_contract\<close> (in \<open>Patch_Source\<close>) is the
  contract of a patch source, interpreted for byte sources of any read pattern; \<open>lifecycle\<close> (in
  \<open>Review_Domain\<close>) is what the operations of an aggregate keep, interpreted for messages, threads,
  sessions and runtime approvals; \<open>state_machine\<close> (in \<open>Proposal_States\<close>) is a transition table with its terminal states,
  interpreted for the four tables of proposals and
  for the phases of an operation on a workspace (in \<open>Workspace_Manifest\<close>); \<open>store_invariant\<close> (in \<open>Capacity\<close>) is what a store shared by
  several processes shows, interpreted for the marker directory and the ledger; \<open>thread_store\<close> (in
  \<open>Thread_Contract\<close>) is what the use cases of threads need of a store, interpreted for the SQLite store.

  \<^bold>\<open>Termination.\<close> Every definition is total and none takes fuel; the retries of a busy transaction are
  the four of the code. The scanner of a patch recurses on the
  bytes of the source that it has not read, which each step makes fewer; the line diff on the
  remaining diagonals and the remaining edit distance; the text functions on the remaining bytes.

  \<^bold>\<open>Not modelled.\<close> The adapters: processes, file system, terminal, network and their wiring; they are
  side effects or third-party calls. The database is its tables: statements are functions on them with
  the constraints of the schema, and only the tables named above. Of \<^verbatim>\<open>internal/app\<close>, the reducer takes
  the thread services as parameters; the thread use cases are modelled apart from it, because the
  program never connects the two; of the publication of proposals the derivation is modelled, and not the
  service that drives the stores and the reset of a workspace. The capture of a worktree, the preparation of proposal workspaces and the purge
  interleave Git processes, directory walks and file handles with every decision, so that little of
  them is the program's own logic once these answer as parameters. Paths are Unix
  paths. Error messages, log strings and copies made only against aliasing have no counterpart.
\<close>

end
